(* ===== verification/Prelude.thy ===== *)
theory Prelude
  imports Main "HOL-Library.Sublist" "HOL-Library.Char_ord" "HOL-Library.List_Lexorder"
    "HOL-Library.Word"
begin

text \<open>
  What every component shares: the errors the C++ code can raise, the result of a call that may
  throw, the members of \<open>std::string\<close> the code uses, decimal and hexadecimal numerals, and the
  two associative containers (\<open>std::multimap\<close> as a key-sorted list, the unordered containers as
  association lists without duplicate keys). A string is a list of bytes. A position that may be
  \<open>npos\<close> is an option. \<open>Out_of_fuel\<close> is no error of the code: a loop of the model that carries
  fuel ends with it when its fuel does. \<open>Terminated\<close> is an exception that leaves a thread: the whole program
  ends there.
\<close>

named_theorems res_simps \<open>evaluation of calls that may throw\<close>
named_theorems str_simps \<open>evaluation of std::string operations\<close>

section \<open>Errors and results\<close>

datatype error =
    Runtime_error string
  | Out_of_range string
  | Invalid_argument string
  | Unix_error string
  | Assertion_failed
  | Undefined_behaviour
  | Stack_overflow
  | Terminated
  | Out_of_fuel

type_synonym 'a res = "error + 'a"

text \<open>Sequencing: the rest of the function runs only when the call returned.\<close>

definition bind_res :: "'e + 'a \<Rightarrow> ('a \<Rightarrow> 'e + 'b) \<Rightarrow> 'e + 'b" where
  "bind_res m f = (case m of Inl e \<Rightarrow> Inl e | Inr x \<Rightarrow> f x)"

lemma bind_res_Inl [simp, res_simps]: "bind_res (Inl e) f = Inl e"
  by (simp add: bind_res_def)

lemma bind_res_Inr [simp, res_simps]: "bind_res (Inr x) f = f x"
  by (simp add: bind_res_def)

lemma bind_res_eq_Inr [simp]: "bind_res m f = Inr y \<longleftrightarrow> (\<exists>x. m = Inr x \<and> f x = Inr y)"
  by (cases m) auto

lemma bind_resE:
  assumes "bind_res m f = Inr y"
  obtains x where "m = Inr x" and "f x = Inr y"
  using assms by auto

lemma bind_res_eq_Inl: "bind_res m f = Inl e \<longleftrightarrow> m = Inl e \<or> (\<exists>x. m = Inr x \<and> f x = Inl e)"
  by (cases m) auto

lemma bind_res_assoc: "bind_res (bind_res m f) g = bind_res m (\<lambda>x. bind_res (f x) g)"
  by (cases m) auto

lemma bind_res_cong [fundef_cong]:
  "m = m' \<Longrightarrow> (\<And>x. m' = Inr x \<Longrightarrow> f x = g x) \<Longrightarrow> bind_res m f = bind_res m' g"
  by (cases m') auto

text \<open>An \<open>assert\<close> that is compiled in: the program stops when it fails.\<close>

definition assert_res :: "bool \<Rightarrow> unit res" where
  "assert_res b = (if b then Inr () else Inl Assertion_failed)"

lemma assert_res_simps [simp, res_simps]:
  "assert_res True = Inr ()" "assert_res False = Inl Assertion_failed"
  by (simp_all add: assert_res_def)

lemma assert_res_eq_Inr [simp]: "assert_res b = Inr u \<longleftrightarrow> b"
  by (simp add: assert_res_def)

text \<open>A range-based for loop whose body may throw.\<close>

fun fold_res :: "('a \<Rightarrow> 's \<Rightarrow> 'e + 's) \<Rightarrow> 'a list \<Rightarrow> 's \<Rightarrow> 'e + 's" where
  "fold_res f [] s = Inr s"
| "fold_res f (x # xs) s = bind_res (f x s) (fold_res f xs)"

fun map_res :: "('a \<Rightarrow> 'e + 'b) \<Rightarrow> 'a list \<Rightarrow> 'e + 'b list" where
  "map_res f [] = Inr []"
| "map_res f (x # xs) = bind_res (f x) (\<lambda>y. bind_res (map_res f xs) (\<lambda>ys. Inr (y # ys)))"

lemma fold_res_append: "fold_res f (xs @ ys) s = bind_res (fold_res f xs s) (fold_res f ys)"
  by (induction xs arbitrary: s) (simp_all add: bind_res_def split: sum.splits)

lemma fold_res_cong [fundef_cong]:
  assumes "xs = ys" and "s = t" and "\<And>x s. x \<in> set ys \<Longrightarrow> f x s = g x s"
  shows "fold_res f xs s = fold_res g ys t"
proof -
  have "fold_res f ys s = fold_res g ys s"
    using assms(3) by (induction ys arbitrary: s) (auto intro!: bind_res_cong)
  then show ?thesis using assms(1,2) by simp
qed

text \<open>What the body keeps, the loop keeps.\<close>

lemma fold_res_invariant:
  assumes "fold_res f xs s = Inr t" and "P s"
    and "\<And>x s t. x \<in> set xs \<Longrightarrow> P s \<Longrightarrow> f x s = Inr t \<Longrightarrow> P t"
  shows "P t"
  using assms
proof (induction xs arbitrary: s)
  case Nil
  then show ?case by simp
next
  case (Cons x xs)
  from Cons.prems(1) obtain s' where "f x s = Inr s'" and "fold_res f xs s' = Inr t" by auto
  moreover from this Cons.prems have "P s'" by auto
  ultimately show ?case using Cons.IH Cons.prems(3) by (meson list.set_intros(2))
qed

lemma map_res_length: "map_res f xs = Inr ys \<Longrightarrow> length ys = length xs"
  by (induction xs arbitrary: ys) auto

lemma map_res_nth: "map_res f xs = Inr ys \<Longrightarrow> i < length xs \<Longrightarrow> f (xs ! i) = Inr (ys ! i)"
proof (induction xs arbitrary: ys i)
  case (Cons x xs)
  then show ?case by (cases i) auto
qed simp

lemma map_res_total: "(\<And>x. x \<in> set xs \<Longrightarrow> f x = Inr (g x)) \<Longrightarrow> map_res f xs = Inr (map g xs)"
  by (induction xs) auto

section \<open>Strings\<close>

text \<open>\<open>str.find( pat, pos )\<close>: the first position from \<open>pos\<close> on where \<open>pat\<close> occurs.\<close>

fun find_sub :: "string \<Rightarrow> string \<Rightarrow> nat option" where
  "find_sub pat [] = (if pat = [] then Some 0 else None)"
| "find_sub pat (c # cs) =
     (if prefix pat (c # cs) then Some 0 else map_option Suc (find_sub pat cs))"

definition str_find :: "string \<Rightarrow> string \<Rightarrow> nat \<Rightarrow> nat option" where
  "str_find s pat pos =
     (if length s < pos then None else map_option ((+) pos) (find_sub pat (drop pos s)))"

text \<open>\<open>str.substr( pos, n )\<close> throws when \<open>pos\<close> is past the end; \<open>None\<close> is a length of \<open>npos\<close>.\<close>

definition substr :: "string \<Rightarrow> nat \<Rightarrow> nat option \<Rightarrow> string res" where
  "substr s pos n =
     (if length s < pos then Inl (Out_of_range ''basic_string::substr'')
      else Inr (case n of None \<Rightarrow> drop pos s | Some k \<Rightarrow> take k (drop pos s)))"

text \<open>\<open>str.compare( 0, p.size(), p ) == 0\<close>.\<close>

definition starts_with :: "string \<Rightarrow> string \<Rightarrow> bool" where
  "starts_with p s \<longleftrightarrow> take (length p) s = p"

text \<open>\<open>str.rfind( c )\<close>, also \<open>find_last_of\<close> of one character.\<close>

fun rfind_char :: "char \<Rightarrow> string \<Rightarrow> nat option" where
  "rfind_char c [] = None"
| "rfind_char c (x # xs) =
     (case rfind_char c xs of Some i \<Rightarrow> Some (Suc i) | None \<Rightarrow> if x = c then Some 0 else None)"

text \<open>\<open>std::replace\<close> of one character by another.\<close>

definition replace_char :: "char \<Rightarrow> char \<Rightarrow> string \<Rightarrow> string" where
  "replace_char a b = map (\<lambda>c. if c = a then b else c)"

lemma find_sub_Some:
  "find_sub pat s = Some i \<Longrightarrow> i + length pat \<le> length s \<and> take (length pat) (drop i s) = pat"
proof (induction s arbitrary: i)
  case Nil
  then show ?case by (simp split: if_splits)
next
  case (Cons c s)
  show ?case
  proof (cases "prefix pat (c # s)")
    case True
    with Cons.prems have "i = 0" by simp
    moreover from True have "length pat \<le> length (c # s)" by (rule prefix_length_le)
    ultimately show ?thesis using True by (auto simp: prefix_def)
  next
    case False
    with Cons.prems obtain j where "find_sub pat s = Some j" and "i = Suc j" by auto
    with Cons.IH show ?thesis by fastforce
  qed
qed

lemma find_sub_prefix [simp]: "find_sub pat (pat @ s) = Some 0"
proof (cases "pat @ s")
  case (Cons a t)
  then have "prefix pat (a # t)" by (metis prefixI)
  with Cons show ?thesis by simp
qed auto

lemma find_sub_char_None: "find_sub [c] s = None \<longleftrightarrow> c \<notin> set s"
  by (induction s) auto

lemma find_sub_char_Some:
  "find_sub [c] s = Some i \<longleftrightarrow> i < length s \<and> s ! i = c \<and> c \<notin> set (take i s)"
proof (induction s arbitrary: i)
  case (Cons a s)
  then show ?case by (cases i) auto
qed simp

lemma find_sub_char_append: "c \<notin> set a \<Longrightarrow> find_sub [c] (a @ c # b) = Some (length a)"
  by (simp add: find_sub_char_Some nth_append)

lemma str_find_zero [simp, str_simps]: "str_find s pat 0 = find_sub pat s"
  by (cases "find_sub pat s") (simp_all add: str_find_def)

lemma str_find_Some:
  assumes "str_find s pat pos = Some i"
  shows "pos \<le> i" and "i + length pat \<le> length s" and "take (length pat) (drop i s) = pat"
proof -
  from assms obtain j where pos: "pos \<le> length s" and j: "find_sub pat (drop pos s) = Some j"
    and i: "i = pos + j"
    by (auto simp: str_find_def split: if_splits)
  from find_sub_Some [OF j] pos i
  show "pos \<le> i" and "i + length pat \<le> length s" and "take (length pat) (drop i s) = pat"
    by (auto simp: add.commute)
qed

lemma substr_Inr [simp, str_simps]:
  "pos \<le> length s \<Longrightarrow>
     substr s pos n = Inr (case n of None \<Rightarrow> drop pos s | Some k \<Rightarrow> take k (drop pos s))"
  by (simp add: substr_def)

lemma starts_with_append [simp, str_simps]: "starts_with p (p @ s)"
  by (simp add: starts_with_def)

lemma starts_with_conv: "starts_with p s \<longleftrightarrow> (\<exists>t. s = p @ t)"
  by (metis append_eq_conv_conj append_take_drop_id starts_with_def)

lemma length_replace_char [simp]: "length (replace_char a b s) = length s"
  by (simp add: replace_char_def)

lemma replace_char_inverse: "b \<notin> set s \<Longrightarrow> replace_char b a (replace_char a b s) = s"
  by (induction s) (auto simp: replace_char_def)

lemma replace_char_absent: "a \<notin> set s \<Longrightarrow> replace_char a b s = s"
  by (induction s) (auto simp: replace_char_def)

section \<open>Numerals\<close>

text \<open>Digits of a number, most significant first, and their reading.\<close>

fun to_digits :: "nat \<Rightarrow> nat \<Rightarrow> nat list" where
  "to_digits b n = (if n < b \<or> b < 2 then [n] else to_digits b (n div b) @ [n mod b])"

declare to_digits.simps [simp del]

definition of_digits :: "nat \<Rightarrow> nat list \<Rightarrow> nat" where
  "of_digits b ds = foldl (\<lambda>acc d. acc * b + d) 0 ds"

definition digit_char :: "nat \<Rightarrow> char" where
  "digit_char d = (if d < 10 then char_of (48 + d) else char_of (87 + d))"

definition digit_val :: "char \<Rightarrow> nat option" where
  "digit_val c =
     (let n = of_char c :: nat
      in if 48 \<le> n \<and> n \<le> 57 then Some (n - 48)
         else if 97 \<le> n \<and> n \<le> 122 then Some (n - 87)
         else if 65 \<le> n \<and> n \<le> 90 then Some (n - 55)
         else None)"

text \<open>\<open>std::to_string\<close> of an unsigned value, and \<open>std::hex\<close> with \<open>setw( w )\<close> and fill \<open>0\<close>.\<close>

definition nat_to_string :: "nat \<Rightarrow> string" where
  "nat_to_string n = map digit_char (to_digits 10 n)"

definition to_hex_string :: "nat \<Rightarrow> string" where
  "to_hex_string n = map digit_char (to_digits 16 n)"

definition pad_left :: "nat \<Rightarrow> char \<Rightarrow> string \<Rightarrow> string" where
  "pad_left w c s = replicate (w - length s) c @ s"

lemma of_digits_Nil [simp]: "of_digits b [] = 0"
  by (simp add: of_digits_def)

lemma of_digits_snoc [simp]: "of_digits b (ds @ [d]) = of_digits b ds * b + d"
  by (simp add: of_digits_def)

lemma of_to_digits [simp]: "2 \<le> b \<Longrightarrow> of_digits b (to_digits b n) = n"
proof (induction b n rule: to_digits.induct)
  case (1 b n)
  show ?case
  proof (cases "n < b")
    case True
    then show ?thesis by (simp add: to_digits.simps [of b n] of_digits_def)
  next
    case False
    with 1 have "of_digits b (to_digits b (n div b)) = n div b" by simp
    with False 1(2) show ?thesis by (simp add: to_digits.simps [of b n] div_mult_mod_eq)
  qed
qed

lemma to_digits_bound: "2 \<le> b \<Longrightarrow> d \<in> set (to_digits b n) \<Longrightarrow> d < b"
proof (induction b n rule: to_digits.induct)
  case (1 b n)
  then show ?case
    by (cases "n < b") (auto simp: to_digits.simps [of b n])
qed

lemma to_digits_nonempty [simp]: "to_digits b n \<noteq> []"
  by (subst to_digits.simps) simp

lemma length_to_digits: "2 \<le> b \<Longrightarrow> 0 < k \<Longrightarrow> length (to_digits b n) \<le> k \<longleftrightarrow> n < b ^ k"
proof (induction b n arbitrary: k rule: to_digits.induct)
  case (1 b n)
  show ?case
  proof (cases "n < b")
    case True
    from 1(3) have "b ^ 1 \<le> b ^ k" using 1(2) by (intro power_increasing) auto
    with True show ?thesis using 1(3) by (simp add: to_digits.simps [of b n])
  next
    case False
    show ?thesis
    proof (cases "k = 1")
      case True
      with False 1(2) show ?thesis by (simp add: to_digits.simps [of b n])
    next
      case k: False
      with 1(3) obtain m where m: "k = Suc m" "0 < m" by (cases k) auto
      have "length (to_digits b (n div b)) \<le> m \<longleftrightarrow> n div b < b ^ m"
        using 1 False m by simp
      also have "\<dots> \<longleftrightarrow> n < b ^ k"
        using 1(2) m by (simp add: div_less_iff_less_mult mult.commute)
      finally show ?thesis using False 1(2) m by (simp add: to_digits.simps [of b n])
    qed
  qed
qed

lemma of_digits_zeros [simp]: "of_digits b (replicate k 0 @ ds) = of_digits b ds"
proof -
  have "foldl (\<lambda>acc d. acc * b + d) 0 (replicate k 0) = 0"
    by (induction k) simp_all
  then show ?thesis by (simp add: of_digits_def)
qed

lemma digit_val_char [simp]: "d < 36 \<Longrightarrow> digit_val (digit_char d) = Some d"
  by (simp add: digit_val_def digit_char_def Let_def)

lemma length_pad_left: "length (pad_left w c s) = max w (length s)"
  by (simp add: pad_left_def)

end
