(* ===== verification/Conversions.thy ===== *)
theory Conversions
  imports Prelude
begin

text \<open>
  Reading numbers: \<open>strtol\<close> and \<open>strtoul\<close> as the C standard states them (leading white space, sign,
  the \<open>0x\<close> of base 16, the longest run of digits, \<open>ERANGE\<close> and the clamped value), then
  \<open>strict_atoi\<close> of \<open>src/net/strict_conversions.cc\<close>, \<open>std::stoul\<close>, and the environment readers of
  \<open>src/util/util.cc\<close>. \<open>strict_atof\<close> and \<open>format_bytes\<close> work on doubles and are not modelled.
\<close>

section \<open>The C scanners\<close>

definition is_space :: "char \<Rightarrow> bool" where
  "is_space c = (let n = of_char c :: nat in n = 32 \<or> 9 \<le> n \<and> n \<le> 13)"

definition is_digit_of :: "nat \<Rightarrow> char \<Rightarrow> bool" where
  "is_digit_of b c = (case digit_val c of None \<Rightarrow> False | Some d \<Rightarrow> d < b)"

definition digits_value :: "nat \<Rightarrow> string \<Rightarrow> nat" where
  "digits_value b ds = of_digits b (map (\<lambda>c. case digit_val c of None \<Rightarrow> 0 | Some d \<Rightarrow> d) ds)"

definition strip_hex_prefix :: "nat \<Rightarrow> string \<Rightarrow> string" where
  "strip_hex_prefix b s =
     (if b = 16 \<and> (take 2 s = ''0x'' \<or> take 2 s = ''0X'') \<and> 2 < length s \<and> is_digit_of 16 (s ! 2)
      then drop 2 s else s)"

text \<open>The sign, the magnitude and how many characters were read; \<open>None\<close> when there is no number.\<close>

definition scan_number :: "nat \<Rightarrow> string \<Rightarrow> (bool \<times> nat \<times> nat) option" where
  "scan_number b s =
     (let s1 = dropWhile is_space s;
          neg = (s1 \<noteq> [] \<and> hd s1 = CHR ''-'');
          s2 = (if s1 \<noteq> [] \<and> (hd s1 = CHR ''-'' \<or> hd s1 = CHR ''+'') then tl s1 else s1);
          s3 = strip_hex_prefix b s2;
          ds = takeWhile (is_digit_of b) s3
      in if ds = [] then None
         else Some (neg, digits_value b ds, length s - length s3 + length ds))"

text \<open>\<open>strtol\<close>: the value, the characters consumed, and whether \<open>errno\<close> is set.\<close>

definition strtol :: "string \<Rightarrow> nat \<Rightarrow> int \<times> nat \<times> bool" where
  "strtol s b =
     (case scan_number b s of
        None \<Rightarrow> (0, 0, False)
      | Some (neg, v, used) \<Rightarrow>
          (if neg then if int v > 2 ^ 63 then (- (2 ^ 63), used, True) else (- int v, used, False)
           else if int v > 2 ^ 63 - 1 then (2 ^ 63 - 1, used, True) else (int v, used, False)))"

definition strtoul :: "string \<Rightarrow> nat \<Rightarrow> 64 word \<times> nat \<times> bool" where
  "strtoul s b =
     (case scan_number b s of
        None \<Rightarrow> (0, 0, False)
      | Some (neg, v, used) \<Rightarrow>
          (if v \<ge> 2 ^ 64 then (- 1, used, True)
           else if neg then (- of_nat v, used, False) else (of_nat v, used, False)))"

section \<open>The callers\<close>

definition strict_atoi :: "string \<Rightarrow> nat \<Rightarrow> int res" where
  "strict_atoi str base =
     (if str = [] then Inl (Runtime_error ''Invalid integer string: empty'')
      else
        (case strtol str base of
           (ret, used, errno) \<Rightarrow>
             (if errno then Inl (Unix_error ''strtol'')
              else if used \<noteq> length str then Inl (Runtime_error (''Invalid integer: '' @ str))
              else Inr ret)))"

definition stoul :: "string \<Rightarrow> nat \<Rightarrow> 64 word res" where
  "stoul str base =
     (case strtoul str base of
        (ret, used, errno) \<Rightarrow>
          (if used = 0 then Inl (Invalid_argument ''stoul'')
           else if errno then Inl (Out_of_range ''stoul'')
           else Inr ret))"

definition safe_getenv :: "(string \<rightharpoonup> string) \<Rightarrow> string \<Rightarrow> string res" where
  "safe_getenv environ key =
     (case environ key of
        None \<Rightarrow> Inl (Runtime_error (''missing environment variable: '' @ key))
      | Some value \<Rightarrow> Inr value)"

definition safe_getenv_or :: "(string \<rightharpoonup> string) \<Rightarrow> string \<Rightarrow> string \<Rightarrow> string" where
  "safe_getenv_or environ key def_val =
     (case environ key of None \<Rightarrow> def_val | Some value \<Rightarrow> value)"

section \<open>Facts\<close>

lemma digit_char_space: "d < 36 \<Longrightarrow> \<not> is_space (digit_char d)"
  by (auto simp: is_space_def digit_char_def Let_def)

lemma is_digit_of_digit_char [simp]: "d < 36 \<Longrightarrow> is_digit_of b (digit_char d) \<longleftrightarrow> d < b"
  by (simp add: is_digit_of_def)

lemma digit_char_sign: "d < 36 \<Longrightarrow> digit_char d \<noteq> CHR ''-'' \<and> digit_char d \<noteq> CHR ''+''"
proof -
  assume "d < 36"
  then have "digit_val (digit_char d) = Some d" by simp
  moreover have "digit_val CHR ''-'' = None" "digit_val CHR ''+'' = None"
    by (simp_all add: digit_val_def)
  ultimately show ?thesis by (metis option.discI)
qed

lemma digits_value_map [simp]:
  assumes "\<And>d. d \<in> set ds \<Longrightarrow> d < 36"
  shows "digits_value b (map digit_char ds) = of_digits b ds"
proof -
  have "map ((\<lambda>c. case digit_val c of None \<Rightarrow> 0 | Some d \<Rightarrow> d) \<circ> digit_char) ds = ds"
    using assms by (intro map_idI) simp
  then show ?thesis by (simp add: digits_value_def)
qed

text \<open>A numeral that starts with a digit and does not spell \<open>0x\<close> is read whole.\<close>

lemma strip_hex_prefix_digits:
  assumes "\<And>d. d \<in> set ds \<Longrightarrow> d < b" and "b \<le> 16"
  shows "strip_hex_prefix b (map digit_char ds) = map digit_char ds"
proof (cases ds)
  case (Cons d1 ds1)
  show ?thesis
  proof (cases ds1)
    case (Cons d2 ds2)
    have "d2 < 36" using assms Cons \<open>ds = d1 # ds1\<close> by force
    then have v: "digit_val (digit_char d2) = Some d2" by (rule digit_val_char)
    have "d2 < 16" using assms Cons \<open>ds = d1 # ds1\<close> by force
    have "digit_char d2 \<noteq> c" if "digit_val c = Some 33" for c
    proof
      assume "digit_char d2 = c"
      with v that \<open>d2 < 16\<close> show False by simp
    qed
    from this [of "CHR ''x''"] this [of "CHR ''X''"]
    have "digit_char d2 \<noteq> CHR ''x'' \<and> digit_char d2 \<noteq> CHR ''X''"
      by (simp add: digit_val_def)
    then show ?thesis
      by (simp add: strip_hex_prefix_def \<open>ds = d1 # ds1\<close> Cons)
  qed (simp add: strip_hex_prefix_def Cons)
qed (simp add: strip_hex_prefix_def)

lemma scan_number_digits:
  assumes digits: "\<And>d. d \<in> set ds \<Longrightarrow> d < b" and b: "b \<le> 16" and ne: "ds \<noteq> []"
  shows "scan_number b (map digit_char ds) = Some (False, of_digits b ds, length ds)"
proof -
  obtain d rest where ds: "ds = d # rest" using ne by (cases ds) auto
  have d: "d < 36" using digits [of d] b by (simp add: ds)
  have all: "\<And>x. x \<in> set ds \<Longrightarrow> x < 36" using digits b by fastforce
  have s1: "dropWhile is_space (map digit_char ds) = map digit_char ds"
    using digit_char_space [OF d] by (simp add: ds)
  have sign: "hd (map digit_char ds) \<noteq> CHR ''-''" "hd (map digit_char ds) \<noteq> CHR ''+''"
    using digit_char_sign [OF d] by (simp_all add: ds)
  have tw: "takeWhile (is_digit_of b) (map digit_char ds) = map digit_char ds"
    using all digits by (simp add: takeWhile_eq_all_conv)
  show ?thesis
    unfolding scan_number_def Let_def s1 using sign ne
    by (simp add: strip_hex_prefix_digits [OF digits b] tw all)
qed

lemma scan_number_negative:
  assumes digits: "\<And>d. d \<in> set ds \<Longrightarrow> d < b" and b: "b \<le> 16" and ne: "ds \<noteq> []"
  shows "scan_number b (CHR ''-'' # map digit_char ds) = Some (True, of_digits b ds, Suc (length ds))"
proof -
  have all: "\<And>x. x \<in> set ds \<Longrightarrow> x < 36" using digits b by fastforce
  have tw: "takeWhile (is_digit_of b) (map digit_char ds) = map digit_char ds"
    using all digits by (simp add: takeWhile_eq_all_conv)
  have s1: "dropWhile is_space (CHR ''-'' # map digit_char ds) = CHR ''-'' # map digit_char ds"
    by (simp add: is_space_def)
  show ?thesis
    unfolding scan_number_def Let_def s1 using ne
    by (simp add: strip_hex_prefix_digits [OF digits b] tw all)
qed

text \<open>\<open>std::to_string\<close> of a long.\<close>

definition int_to_string :: "int \<Rightarrow> string" where
  "int_to_string i = (if i < 0 then CHR ''-'' # nat_to_string (nat (- i)) else nat_to_string (nat i))"

text \<open>Every 64-bit signed integer printed by \<open>std::to_string\<close> is read back by \<open>strict_atoi\<close> in
  base 10.\<close>

theorem strict_atoi_to_string:
  assumes "- (2 ^ 63) \<le> i" and "i < 2 ^ 63"
  shows "strict_atoi (int_to_string i) 10 = Inr i"
proof -
  have digits: "d < 10" if "d \<in> set (to_digits 10 n)" for d n
    using to_digits_bound [of 10 d n] that by simp
  show ?thesis
  proof (cases "i < 0")
    case True
    then show ?thesis using assms(1)
      by (simp add: strict_atoi_def strtol_def int_to_string_def nat_to_string_def
          scan_number_negative digits)
  next
    case False
    then show ?thesis using assms(2)
      by (simp add: strict_atoi_def strtol_def int_to_string_def nat_to_string_def
          scan_number_digits digits)
  qed
qed

theorem strict_atoi_to_string_witness: "strict_atoi (int_to_string (- 42)) 10 = Inr (- 42)"
  by (rule strict_atoi_to_string) simp_all

lemma strict_atoi_nat:
  "n < 2 ^ 63 \<Longrightarrow> strict_atoi (nat_to_string n) 10 = Inr (int n)"
proof -
  assume n: "n < 2 ^ 63"
  have digits: "d < 10" if "d \<in> set (to_digits 10 m)" for d m
    using to_digits_bound [of 10 d m] that by simp
  from n have "int n < 2 ^ 63" by (metis of_nat_less_iff of_nat_numeral of_nat_power)
  then show ?thesis
    by (simp add: strict_atoi_def strtol_def nat_to_string_def scan_number_digits digits)
qed

text \<open>Zero-padded hexadecimal, as the hashes end.\<close>

lemma map_digit_pad:
  "pad_left w CHR ''0'' (to_hex_string n) =
     map digit_char (replicate (w - length (to_digits 16 n)) 0 @ to_digits 16 n)"
proof -
  have "digit_char 0 = CHR ''0''" by code_simp
  then show ?thesis by (simp add: pad_left_def to_hex_string_def)
qed

lemma stoul_padded_hex:
  assumes "n < 2 ^ 64"
  shows "stoul (pad_left w CHR ''0'' (to_hex_string n)) 16 = Inr (of_nat n)"
proof -
  let ?ds = "replicate (w - length (to_digits 16 n)) 0 @ to_digits 16 n"
  have "d < 16" if "d \<in> set ?ds" for d
    using that to_digits_bound [of 16 d n] by auto
  then have "scan_number 16 (map digit_char ?ds) = Some (False, n, length ?ds)"
    by (subst scan_number_digits) auto
  then show ?thesis
    using assms unfolding stoul_def strtoul_def map_digit_pad by simp
qed

lemma strict_atoi_hex:
  assumes "n < 2 ^ 63"
  shows "strict_atoi (to_hex_string n) 16 = Inr (int n)"
proof -
  have digits: "d < 16" if "d \<in> set (to_digits 16 m)" for d m
    using to_digits_bound [of 16 d m] that by simp
  from assms have "int n < 2 ^ 63" by (metis of_nat_less_iff of_nat_numeral of_nat_power)
  then show ?thesis
    by (simp add: strict_atoi_def strtol_def to_hex_string_def scan_number_digits digits)
qed

text \<open>A character that is no digit does not occur in a numeral.\<close>

lemma digit_char_not: "d < 36 \<Longrightarrow> digit_val c = None \<Longrightarrow> digit_char d \<noteq> c"
  using digit_val_char [of d] by auto

lemma numeral_no_char:
  assumes "digit_val c = None"
  shows "c \<notin> set (nat_to_string n)" "c \<notin> set (to_hex_string n)"
proof -
  have "d < 36" if "d \<in> set (to_digits 10 n)" for d
    using to_digits_bound [of 10 d n] that by simp
  then show "c \<notin> set (nat_to_string n)"
    using assms digit_char_not by (fastforce simp: nat_to_string_def)
  have "d < 36" if "d \<in> set (to_digits 16 n)" for d
    using to_digits_bound [of 16 d n] that by simp
  then show "c \<notin> set (to_hex_string n)"
    using assms digit_char_not by (fastforce simp: to_hex_string_def)
qed

end
