(* ===== verification/Tokenize.thy ===== *)
theory Tokenize
  imports Prelude
begin

text \<open>
  The tokenizer of \<open>src/util/tokenize.hh\<close>: \<open>split\<close> first collects every position of the separator
  (overlapping ones too) and then cuts the string between them. \<open>split_on\<close> is the reference for a
  separator of one character, the only kind the code passes.
\<close>

text \<open>The loop that collects the positions.\<close>

function split_indices :: "string \<Rightarrow> string \<Rightarrow> nat \<Rightarrow> nat list" where
  "split_indices str separator next_token =
     (case str_find str separator next_token of
        None \<Rightarrow> []
      | Some i \<Rightarrow> i # split_indices str separator (Suc i))"
  by pat_completeness auto
termination
proof (relation "measure (\<lambda>(str, _, n). Suc (length str) - n)", simp)
  fix str separator :: string and n i :: nat
  assume "str_find str separator n = Some i"
  from str_find_Some [OF this]
  show "((str, separator, Suc i), str, separator, n) \<in> measure (\<lambda>(str, _, n). Suc (length str) - n)"
    by simp
qed

declare split_indices.simps [simp del]

text \<open>The loop over the inner tokens: the length \<open>j - i - separator.size()\<close> is unsigned, so it is
  past the end of the string when two occurrences overlap.\<close>

fun inner_tokens :: "string \<Rightarrow> nat \<Rightarrow> nat list \<Rightarrow> string list" where
  "inner_tokens str seplen (i # j # is) =
     (if j < i + seplen then drop (i + seplen) str
      else take (j - i - seplen) (drop (i + seplen) str)) # inner_tokens str seplen (j # is)"
| "inner_tokens str seplen _ = []"

definition split :: "string \<Rightarrow> string \<Rightarrow> string list" where
  "split str separator =
     (let indices = split_indices str separator 0
      in if indices = [] then [str]
         else take (hd indices) str
              # inner_tokens str (length separator) indices
              @ [drop (last indices + length separator) str])"

text \<open>The reference: cut at every occurrence of a character.\<close>

fun split_on :: "char \<Rightarrow> string \<Rightarrow> string list" where
  "split_on c [] = [[]]"
| "split_on c (x # xs) =
     (if x = c then [] # split_on c xs
      else (case split_on c xs of [] \<Rightarrow> [[x]] | t # ts \<Rightarrow> (x # t) # ts))"

fun join :: "char \<Rightarrow> string list \<Rightarrow> string" where
  "join c [] = []"
| "join c [t] = t"
| "join c (t # u # ts) = t @ c # join c (u # ts)"

lemma split_on_nonempty [simp]: "split_on c s \<noteq> []"
  by (induction s) (auto split: list.splits)

lemma split_on_no_sep: "c \<notin> set s \<Longrightarrow> split_on c s = [s]"
  by (induction s) auto

lemma split_on_append: "c \<notin> set a \<Longrightarrow> split_on c (a @ c # b) = a # split_on c b"
  by (induction a) auto

lemma tokens_no_sep: "t \<in> set (split_on c s) \<Longrightarrow> c \<notin> set t"
  by (induction s arbitrary: t) (auto split: list.splits if_splits)

lemma join_Cons: "ts \<noteq> [] \<Longrightarrow> join c (t # ts) = t @ c # join c ts"
  by (cases ts) auto

lemma join_split_on: "join c (split_on c s) = s"
proof (induction s)
  case (Cons x s)
  obtain t ts where "split_on c s = t # ts" by (cases "split_on c s") auto
  with Cons show ?case by (cases ts) auto
qed simp

lemma split_on_join:
  "ts \<noteq> [] \<Longrightarrow> (\<And>t. t \<in> set ts \<Longrightarrow> c \<notin> set t) \<Longrightarrow> split_on c (join c ts) = ts"
proof (induction ts rule: induct_list012)
  case (3 t u ts)
  then show ?case by (simp add: split_on_append)
qed (auto simp: split_on_no_sep)

text \<open>The indices of a one-character separator, described from the front of the string.\<close>

lemma split_indices_shift:
  "c \<notin> set a \<Longrightarrow> split_indices (a @ c # b) [c] 0 = length a # map (\<lambda>i. i + Suc (length a)) (split_indices b [c] 0)"
proof -
  assume a: "c \<notin> set a"
  have shift: "split_indices (a @ c # b) [c] (Suc (length a + n)) =
      map (\<lambda>i. i + Suc (length a)) (split_indices b [c] n)" for n
  proof (induction b "[c]" n rule: split_indices.induct)
    case (1 b n)
    have find: "str_find (a @ c # b) [c] (Suc (length a + n)) =
        map_option (\<lambda>i. i + Suc (length a)) (str_find b [c] n)"
      by (cases "find_sub [c] (drop n b)") (auto simp: str_find_def)
    show ?case
    proof (cases "str_find b [c] n")
      case None
      then show ?thesis
        by (simp add: find split_indices.simps [of "a @ c # b"] split_indices.simps [of b])
    next
      case (Some i)
      have "split_indices (a @ c # b) [c] (Suc (i + Suc (length a))) =
          map (\<lambda>i. i + Suc (length a)) (split_indices b [c] (Suc i))"
        using 1 [OF Some] by (simp add: add.commute)
      then show ?thesis using Some
        by (simp add: find split_indices.simps [of "a @ c # b" _ "Suc (length a + n)"]
            split_indices.simps [of b _ n])
    qed
  qed
  have "split_indices (a @ c # b) [c] 0 = length a # split_indices (a @ c # b) [c] (Suc (length a))"
    using find_sub_char_append [OF a, of b] by (simp add: split_indices.simps [of _ _ 0])
  with shift [of 0] show ?thesis by simp
qed

lemma inner_tokens_shift:
  "inner_tokens (a @ c # b) (Suc 0) (map (\<lambda>i. i + Suc (length a)) is) = inner_tokens b (Suc 0) is"
  by (induction b "Suc 0" "is" rule: inner_tokens.induct) auto

lemma split_char: "split s [c] = split_on c s"
proof (induction s rule: measure_induct_rule [of length])
  case (less s)
  show ?case
  proof (cases "c \<in> set s")
    case False
    then have "find_sub [c] s = None" by (simp add: find_sub_char_None)
    with False show ?thesis
      by (simp add: Tokenize.split_def split_indices.simps [of s "[c]" 0] split_on_no_sep)
  next
    case True
    then obtain a b where s: "s = a @ c # b" and a: "c \<notin> set a" by (meson split_list_first)
    define ks where "ks = split_indices b [c] 0"
    have ind: "split_indices s [c] 0 = length a # map (\<lambda>i. i + Suc (length a)) ks"
      using split_indices_shift [OF a] by (simp add: s ks_def)
    have "split s [c] = a # split b [c]"
    proof (cases ks)
      case Nil
      then show ?thesis by (simp add: Tokenize.split_def ind [unfolded s] s ks_def [symmetric])
    next
      case (Cons i js)
      have "split s [c] = a # take i b # inner_tokens s (Suc 0) (map (\<lambda>i. i + Suc (length a)) ks)
          @ [drop (last (map (\<lambda>i. i + Suc (length a)) ks) + Suc 0) s]"
        by (simp add: Tokenize.split_def ind Cons s ind [unfolded s])
      also have "\<dots> = a # split b [c]"
        unfolding s inner_tokens_shift
        by (simp add: Tokenize.split_def ks_def [symmetric] Cons last_map)
      finally show ?thesis .
    qed
    also have "\<dots> = split_on c s"
      using less [of b] by (simp add: s split_on_append [OF a])
    finally show ?thesis .
  qed
qed

end
