(* ===== verification/Path.thy ===== *)
theory Path
  imports Tokenize
begin

text \<open>
  The pure part of \<open>roost::path\<close> (\<open>src/util/path.cc\<close>): splitting into components, lexical
  normalisation, joining, base names. A path is its string. The lemmas say what a normal path
  looks like and that normalising again changes nothing, unless the normal form is the empty
  string, which the code reads as the root.
\<close>

definition path_components :: "string \<Rightarrow> string list" where
  "path_components p = split p ''/''"

definition is_absolute :: "string \<Rightarrow> bool" where
  "is_absolute p = (if length p = 0 then False else p ! 0 = CHR ''/'')"

text \<open>One round of the loop over the components; \<open>normalized\<close> grows at its end.\<close>

fun normalize_step :: "string list \<Rightarrow> string \<Rightarrow> string list" where
  "normalize_step normalized component =
     (if component = ''..'' then
        (if length normalized = 0 \<or> last normalized = ''..'' then normalized @ [component]
         else if last normalized \<noteq> [] then butlast normalized
         else normalized)
      else if component \<noteq> ''.'' \<and> component \<noteq> [] then normalized @ [component]
      else normalized)"

definition lexically_normal :: "string \<Rightarrow> string" where
  "lexically_normal p =
     (let components_vector = path_components p
      in if components_vector = [] then []
         else let start = (if hd components_vector = [] then [[]] else []);
                  normalized = foldl normalize_step start components_vector;
                  q = concat (map (\<lambda>component. component @ ''/'') normalized)
              in if length q > 1 \<and> last q = CHR ''/'' then butlast q else q)"

definition path_append :: "string \<Rightarrow> string \<Rightarrow> string" where
  "path_append prefx suffx =
     (if (prefx \<noteq> [] \<and> last prefx = CHR ''/'') \<or> (suffx \<noteq> [] \<and> hd suffx = CHR ''/'')
      then prefx @ suffx
      else prefx @ ''/'' @ suffx)"

text \<open>The C library's \<open>basename\<close> and the wrapper that first copies the path to a buffer of
  \<open>PATH_MAX\<close> bytes.\<close>

definition strip_trailing_slashes :: "string \<Rightarrow> string" where
  "strip_trailing_slashes p = rev (dropWhile (\<lambda>c. c = CHR ''/'') (rev p))"

definition libc_basename :: "string \<Rightarrow> string" where
  "libc_basename p =
     (if p = [] then ''.''
      else let q = strip_trailing_slashes p
           in if q = [] then ''/''
              else rev (takeWhile (\<lambda>c. c \<noteq> CHR ''/'') (rev q)))"

definition PATH_MAX :: nat where
  "PATH_MAX = 4096"

definition rbasename :: "string \<Rightarrow> string res" where
  "rbasename p =
     (if PATH_MAX \<le> length p then Inl Undefined_behaviour else Inr (libc_basename p))"

section \<open>Normal forms\<close>

definition proper_name :: "string \<Rightarrow> bool" where
  "proper_name c \<longleftrightarrow> c \<noteq> [] \<and> c \<noteq> ''.'' \<and> c \<noteq> ''..'' \<and> CHR ''/'' \<notin> set c"

text \<open>An absolute path is the empty component and names; a relative one some \<open>..\<close> and names.\<close>

definition normal_components :: "string list \<Rightarrow> bool" where
  "normal_components cs \<longleftrightarrow>
     (\<exists>names. (\<forall>c \<in> set names. proper_name c) \<and>
        (cs = [] # names \<or> (\<exists>k. cs = replicate k ''..'' @ names)))"

lemma normal_componentsI:
  "\<forall>c \<in> set names. proper_name c \<Longrightarrow> normal_components ([] # names)"
  "\<forall>c \<in> set names. proper_name c \<Longrightarrow> normal_components (replicate k ''..'' @ names)"
  by (auto simp: normal_components_def)

lemma normal_components_base [simp]:
  "normal_components []" "normal_components [[]]" "normal_components (replicate k ''..'')"
  using normal_componentsI(1) [of "[]"] normal_componentsI(2) [of "[]" k] normal_componentsI(2) [of "[]" 0]
  by simp_all

abbreviation render :: "string list \<Rightarrow> string" where
  "render cs \<equiv> concat (map (\<lambda>component. component @ ''/'') cs)"

lemma path_components_conv: "path_components p = split_on CHR ''/'' p"
  by (simp add: path_components_def split_char)

lemma proper_name_simps [simp]:
  "\<not> proper_name []" "\<not> proper_name ''.''" "\<not> proper_name ''..''"
  by (simp_all add: proper_name_def)

lemma normalize_step_proper [simp]: "proper_name c \<Longrightarrow> normalize_step cs c = cs @ [c]"
  by (simp add: proper_name_def)

lemma foldl_normalize_proper:
  "\<forall>c \<in> set names. proper_name c \<Longrightarrow> foldl normalize_step cs names = cs @ names"
  by (induction names arbitrary: cs) (simp_all del: normalize_step.simps)

lemma foldl_normalize_ups:
  "foldl normalize_step (replicate k ''..'') (replicate j ''..'') = replicate (k + j) ''..''"
proof (induction j arbitrary: k)
  case (Suc j)
  have "normalize_step (replicate k ''..'') ''..'' = replicate (Suc k) ''..''"
    by (cases k) (auto simp: replicate_append_same)
  then have "foldl normalize_step (replicate k ''..'') (replicate (Suc j) ''..'') =
      foldl normalize_step (replicate (Suc k) ''..'') (replicate j ''..'')"
    by (simp only: replicate_Suc [of j] foldl_Cons)
  then show ?case using Suc [of "Suc k"] by (simp only: add_Suc_right add_Suc)
qed simp

lemma normalize_step_normal:
  assumes "normal_components cs" and "CHR ''/'' \<notin> set c"
  shows "normal_components (normalize_step cs c)"
proof -
  from assms(1) obtain names where names: "\<forall>c \<in> set names. proper_name c"
    and cs: "cs = [] # names \<or> (\<exists>k. cs = replicate k ''..'' @ names)"
    by (auto simp: normal_components_def)
  consider "c = ''..''" | "c = ''.'' \<or> c = []" | "proper_name c"
    using assms(2) by (auto simp: proper_name_def)
  then show ?thesis
  proof cases
    case 2
    then show ?thesis using assms(1) by auto
  next
    case 3
    have "normal_components (cs @ [c])"
      unfolding normal_components_def
      using cs names 3 by (intro exI [of _ "names @ [c]"]) auto
    with 3 show ?thesis by (simp del: normalize_step.simps)
  next
    case 1
    show ?thesis
    proof (cases names rule: rev_cases)
      case (snoc ns n)
      with names have n: "n \<noteq> ''..''" "n \<noteq> []" by auto
      have "last cs = n" and "cs \<noteq> []" and "butlast cs = [] # ns \<or> (\<exists>k. butlast cs = replicate k ''..'' @ ns)"
        using cs by (auto simp: snoc butlast_append)
      with 1 n names show ?thesis
        by (auto simp: normal_components_def snoc)
    next
      case Nil
      show ?thesis
      proof (cases "cs = [[]]")
        case True
        with 1 assms(1) show ?thesis by simp
      next
        case False
        with cs Nil obtain k where k: "cs = replicate k ''..''" by auto
        then have "normalize_step cs c = replicate (Suc k) ''..''"
          using foldl_normalize_ups [of k 1] 1 by simp
        then show ?thesis
          by (simp only: normal_components_base)
      qed
    qed
  qed
qed

lemma foldl_normalize_normal:
  "normal_components cs \<Longrightarrow> \<forall>c \<in> set ds. CHR ''/'' \<notin> set c \<Longrightarrow> normal_components (foldl normalize_step cs ds)"
  by (induction ds arbitrary: cs) (simp_all add: normalize_step_normal del: normalize_step.simps)

text \<open>What the final loop prints.\<close>

lemma render_join: "cs \<noteq> [] \<Longrightarrow> render cs = join CHR ''/'' cs @ ''/''"
  by (induction cs rule: induct_list012) auto

definition path_of_components :: "string list \<Rightarrow> string" where
  "path_of_components cs = (if cs = [] then [] else if cs = [[]] then ''/'' else join CHR ''/'' cs)"

lemma join_nonempty: "cs \<noteq> [] \<Longrightarrow> cs \<noteq> [[]] \<Longrightarrow> normal_components cs \<Longrightarrow> join CHR ''/'' cs \<noteq> []"
  by (cases cs rule: remdups_adj.cases) (auto simp: normal_components_def Cons_eq_append_conv)

lemma lexically_normal_conv:
  obtains cs where "normal_components cs" and "lexically_normal p = path_of_components cs"
    and "cs = foldl normalize_step (if hd (path_components p) = [] then [[]] else []) (path_components p)"
proof -
  define cs where "cs = foldl normalize_step (if hd (path_components p) = [] then [[]] else []) (path_components p)"
  have n: "normal_components cs"
    unfolding cs_def by (intro foldl_normalize_normal) (auto simp: path_components_conv tokens_no_sep)
  have "lexically_normal p =
      (if length (render cs) > 1 \<and> last (render cs) = CHR ''/'' then butlast (render cs) else render cs)"
    by (simp add: lexically_normal_def Let_def cs_def path_components_conv)
  also have "\<dots> = path_of_components cs"
    using join_nonempty [OF _ _ n] by (auto simp: path_of_components_def render_join butlast_append)
  finally show thesis using that [OF n] cs_def by blast
qed

lemma components_of_normal:
  assumes "normal_components cs" and "cs \<noteq> []"
  shows "foldl normalize_step (if hd (path_components (path_of_components cs)) = [] then [[]] else [])
      (path_components (path_of_components cs)) = cs"
proof -
  from assms(1) obtain names where names: "\<forall>c \<in> set names. proper_name c"
    and cs: "cs = [] # names \<or> (\<exists>k. cs = replicate k ''..'' @ names)"
    by (auto simp: normal_components_def)
  have split: "path_components (path_of_components cs) = cs" if "cs \<noteq> [[]]"
  proof -
    have "CHR ''/'' \<notin> set t" if "t \<in> set cs" for t
    proof -
      from cs that consider "t = []" | "t = ''..''" | "t \<in> set names" by fastforce
      then show ?thesis using names by cases (auto simp: proper_name_def)
    qed
    with assms(2) that show ?thesis
      by (simp add: path_components_conv path_of_components_def split_on_join)
  qed
  show ?thesis
  proof (cases "cs = [[]]")
    case True
    then show ?thesis
      by (simp add: path_of_components_def path_components_conv)
  next
    case False
    from cs show ?thesis
      unfolding split [OF False]
    proof
      assume "cs = [] # names"
      then show "foldl normalize_step (if hd cs = [] then [[]] else []) cs = cs"
        using foldl_normalize_proper [OF names, of "[[]]"] by simp
    next
      assume "\<exists>k. cs = replicate k ''..'' @ names"
      then obtain k where k: "cs = replicate k ''..'' @ names" by blast
      moreover have "hd cs \<noteq> []"
        using assms(2) names k by (cases k; cases names) auto
      ultimately show "foldl normalize_step (if hd cs = [] then [[]] else []) cs = cs"
        using foldl_normalize_ups [of 0 k] foldl_normalize_proper [OF names] by simp
    qed
  qed
qed

lemma path_of_components_nonempty:
  "normal_components cs \<Longrightarrow> path_of_components cs = [] \<longleftrightarrow> cs = []"
  using join_nonempty by (auto simp: path_of_components_def)

lemma hd_split_on: "split_on c (x # xs) = (if x = c then [] # split_on c xs else (x # hd (split_on c xs)) # tl (split_on c xs))"
  by (auto split: list.splits)

lemma hd_path_components: "hd (path_components p) = [] \<longleftrightarrow> p = [] \<or> is_absolute p"
  by (cases p) (auto simp: path_components_conv is_absolute_def hd_split_on simp del: split_on.simps(2))

text \<open>Normalising a normal form changes nothing, as long as it is not empty.\<close>

theorem lexically_normal_idem:
  assumes "lexically_normal p \<noteq> []"
  shows "lexically_normal (lexically_normal p) = lexically_normal p"
proof -
  obtain cs where cs: "normal_components cs" "lexically_normal p = path_of_components cs"
    by (rule lexically_normal_conv)
  with assms have ne: "cs \<noteq> []" by (auto simp: path_of_components_def)
  obtain ds where ds: "lexically_normal (lexically_normal p) = path_of_components ds"
    and eq: "ds = foldl normalize_step
        (if hd (path_components (lexically_normal p)) = [] then [[]] else []) (path_components (lexically_normal p))"
    by (rule lexically_normal_conv)
  have "ds = cs" unfolding eq cs(2) by (rule components_of_normal [OF cs(1) ne])
  with ds cs show ?thesis by simp
qed

theorem lexically_normal_idem_witness:
  "lexically_normal (lexically_normal ''/a/./b/../c'') = ''/a/c''"
proof -
  have n: "lexically_normal ''/a/./b/../c'' = ''/a/c''" by code_simp
  show ?thesis using lexically_normal_idem [of "''/a/./b/../c''"] unfolding n by simp
qed

end
