(* ===== verification/FileOps.thy ===== *)
theory FileOps
  imports Path
begin

text \<open>
  Files on disk as the code uses them. The disk maps a path to a regular file (contents and
  permission bits) or a directory. The system calls are steps on it, \<open>exec_call\<close>; the functions of
  \<open>src/util/path.cc\<close>, \<open>src/util/temp_file.cc\<close> and \<open>src/util/file_descriptor.cc\<close> are written over
  them. A function that throws gives the error and no disk, since no caller looks at the disk
  afterwards. Parent directories are taken to exist (the code creates \<open>.gg\<close> and its directories
  before it uses them), and links, owners and times are left out. Only regular files are renamed by
  the code, so the entries below a renamed directory are not followed.
\<close>

unbundle bit_operations_syntax

type_synonym mode = "32 word"

datatype node = Regular string mode | Directory

type_synonym disk = "string \<Rightarrow> node option"

section \<open>System calls\<close>

text \<open>\<open>Mkstemp\<close> names the file the C library picked.\<close>

datatype syscall =
    Mkstemp string
  | Write string string
  | Fchmod string mode
  | Rename string string

fun exec_call :: "syscall \<Rightarrow> disk \<Rightarrow> disk res" where
  "exec_call (Mkstemp p) d =
     (if d p = None then Inr (d(p \<mapsto> Regular [] 384)) else Inl (Unix_error ''mkstemp''))"
| "exec_call (Write p bytes) d =
     (case d p of
        Some (Regular c m) \<Rightarrow> Inr (d(p \<mapsto> Regular (c @ bytes) m))
      | _ \<Rightarrow> Inl (Unix_error ''write''))"
| "exec_call (Fchmod p m) d =
     (case d p of
        Some (Regular c _) \<Rightarrow> Inr (d(p \<mapsto> Regular c m))
      | _ \<Rightarrow> Inl (Unix_error ''fchmod''))"
| "exec_call (Rename a b) d =
     (case d a of
        None \<Rightarrow> Inl (Unix_error ''rename'')
      | Some n \<Rightarrow>
          (if d b \<noteq> None \<and> (d b = Some Directory) \<noteq> (n = Directory)
           then Inl (Unix_error ''rename'')
           else Inr (d(a := None, b \<mapsto> n))))"

definition sys_stat :: "string \<Rightarrow> disk \<Rightarrow> node res" where
  "sys_stat p d = (case d p of None \<Rightarrow> Inl (Unix_error ''stat'') | Some n \<Rightarrow> Inr n)"

section \<open>Reading and writing a descriptor\<close>

text \<open>\<open>FileDescriptor::write( buffer, true )\<close>: \<open>accepted s\<close> is how many of the bytes \<open>s\<close> the kernel
  takes. The \<open>do\<close> loop tries once even when the buffer is empty, and that throws.\<close>

function write_all :: "(string \<Rightarrow> nat) \<Rightarrow> string \<Rightarrow> string list res" where
  "write_all accepted s =
     (if s = [] then Inl (Runtime_error ''nothing to write'')
      else let n = min (accepted s) (length s)
           in if n = 0 then Inl (Runtime_error ''write returned 0'')
              else if n = length s then Inr [s]
              else bind_res (write_all accepted (drop n s)) (\<lambda>rest. Inr (take n s # rest)))"
  by pat_completeness auto
termination
  by (relation "measure (\<lambda>(_, s). length s)") auto

declare write_all.simps [simp del]

text \<open>\<open>FileDescriptor::read_exactly\<close> over the results of the successive \<open>read\<close> calls, each at most
  as long as what is still missing; an empty result is end of file.\<close>

fun read_exactly :: "nat \<Rightarrow> bool \<Rightarrow> string \<Rightarrow> string list \<Rightarrow> string res" where
  "read_exactly len fail_silently ret reads =
     (if length ret < len then
        (case reads of
           [] \<Rightarrow> (if fail_silently then Inr ret
                  else Inl (Runtime_error ''read_exactly: reached EOF before reaching target''))
         | r # rs \<Rightarrow>
             (let got = take (len - length ret) r
              in if got = [] then
                   (if fail_silently then Inr ret
                    else Inl (Runtime_error ''read_exactly: reached EOF before reaching target''))
                 else read_exactly len fail_silently (ret @ got) rs))
      else bind_res (assert_res (length ret = len)) (\<lambda>_. Inr ret))"

declare read_exactly.simps [simp del]

text \<open>Reading the front of a file that nobody else changes.\<close>

definition read_prefix :: "string \<Rightarrow> nat \<Rightarrow> string res" where
  "read_prefix contents len =
     (if length contents < len
      then Inl (Runtime_error ''read_exactly: reached EOF before reaching target'')
      else Inr (take len contents))"

lemma write_all_concat: "write_all accepted s = Inr parts \<Longrightarrow> concat parts = s \<and> [] \<notin> set parts"
proof (induction accepted s arbitrary: parts rule: write_all.induct)
  case (1 accepted s)
  define n where "n = min (accepted s) (length s)"
  from 1(2) have s: "s \<noteq> []" and n: "0 < n"
    by (auto simp: write_all.simps [of accepted s] n_def Let_def split: if_splits)
  show ?case
  proof (cases "n = length s")
    case True
    with 1(2) s n show ?thesis by (auto simp: write_all.simps [of accepted s] n_def [symmetric])
  next
    case False
    with 1(2) s n obtain rest where rest: "write_all accepted (drop n s) = Inr rest"
      and parts: "parts = take n s # rest"
      by (auto simp: write_all.simps [of accepted s] n_def [symmetric] Let_def)
    have "concat rest = drop n s \<and> [] \<notin> set rest"
      using 1(1) [OF s n_def _ _ rest] n False by simp
    with parts s n show ?thesis by simp
  qed
qed

lemma write_all_returns:
  assumes "s \<noteq> []" and "\<And>t. t \<noteq> [] \<Longrightarrow> 0 < accepted t"
  shows "\<exists>parts. write_all accepted s = Inr parts"
  using assms
proof (induction accepted s rule: write_all.induct)
  case (1 accepted s)
  define n where "n = min (accepted s) (length s)"
  from 1(2,3) have n: "0 < n" by (simp add: n_def)
  show ?case
  proof (cases "n = length s")
    case True
    with 1(2) n show ?thesis by (simp add: write_all.simps [of accepted s] n_def [symmetric])
  next
    case False
    moreover from False have "drop n s \<noteq> []" by (simp add: n_def)
    ultimately obtain rest where "write_all accepted (drop n s) = Inr rest"
      using 1(1) [OF 1(2) n_def _ _ _ 1(3)] n by auto
    with False 1(2) n show ?thesis
      by (simp add: write_all.simps [of accepted s] n_def [symmetric] Let_def)
  qed
qed

text \<open>When the reads deliver the file piece by piece, \<open>read_exactly\<close> is the prefix.\<close>

lemma read_exactly_pieces:
  assumes "[] \<notin> set reads" and "length ret \<le> len"
  shows "read_exactly len False ret reads = read_prefix (ret @ concat reads) len"
  using assms
proof (induction reads arbitrary: ret)
  case Nil
  then show ?case by (simp add: read_exactly.simps [of len False ret] read_prefix_def)
next
  case (Cons r rs)
  show ?case
  proof (cases "length ret < len")
    case False
    with Cons.prems(2) show ?thesis
      by (simp add: read_exactly.simps [of len False ret] read_prefix_def)
  next
    case True
    define got where "got = take (len - length ret) r"
    from Cons.prems(1) True have got: "got \<noteq> []" by (auto simp: got_def)
    have step: "read_exactly len False ret (r # rs) = read_exactly len False (ret @ got) rs"
      using True got by (simp add: read_exactly.simps [of len False ret] got_def [symmetric] Let_def)
    show ?thesis
    proof (cases "length r \<le> len - length ret")
      case small: True
      then have "got = r" by (simp add: got_def)
      with Cons small True step show ?thesis by simp
    next
      case False
      with True have len: "length (ret @ got) = len" by (simp add: got_def)
      then have "read_exactly len False (ret @ got) rs = Inr (ret @ got)"
        by (simp add: read_exactly.simps [of len False "ret @ got"])
      with step False True show ?thesis
        by (simp add: read_prefix_def got_def)
    qed
  qed
qed

section \<open>roost\<close>

definition path_exists :: "string \<Rightarrow> disk \<Rightarrow> bool" where
  "path_exists p d = (d p \<noteq> None)"

definition file_size :: "string \<Rightarrow> disk \<Rightarrow> nat res" where
  "file_size p d =
     bind_res (sys_stat p d) (\<lambda>n. case n of Regular c _ \<Rightarrow> Inr (length c) | Directory \<Rightarrow> Inr 0)"

definition is_directory :: "string \<Rightarrow> disk \<Rightarrow> bool res" where
  "is_directory p d = bind_res (sys_stat p d) (\<lambda>n. Inr (n = Directory))"

definition exists_and_is_directory :: "string \<Rightarrow> disk \<Rightarrow> bool" where
  "exists_and_is_directory p d = (case sys_stat p d of Inl _ \<Rightarrow> False | Inr n \<Rightarrow> n = Directory)"

definition read_file :: "string \<Rightarrow> disk \<Rightarrow> string res" where
  "read_file p d =
     bind_res (sys_stat p d) (\<lambda>n.
       case n of
         Directory \<Rightarrow> Inl (Runtime_error (p @ '' is not a regular file''))
       | Regular c _ \<Rightarrow> read_prefix c (length c))"

text \<open>The system calls of \<open>atomic_create\<close>: \<open>suf\<close> is what \<open>mkstemp\<close> put for \<open>XXXXXX\<close> and \<open>parts\<close> how
  the kernel cut the contents.\<close>

definition temp_name :: "string \<Rightarrow> string \<Rightarrow> string" where
  "temp_name dst suf = dst @ ''.'' @ suf"

definition atomic_create_calls ::
  "string list \<Rightarrow> string \<Rightarrow> mode option \<Rightarrow> string \<Rightarrow> syscall list" where
  "atomic_create_calls parts dst target_mode suf =
     Mkstemp (temp_name dst suf)
     # map (Write (temp_name dst suf)) parts
     @ (case target_mode of None \<Rightarrow> [] | Some m \<Rightarrow> [Fchmod (temp_name dst suf) m])
     @ [Rename (temp_name dst suf) dst]"

text \<open>The C library's choices during one call.\<close>

record kernel =
  mkstemp_suffix :: "disk \<Rightarrow> string \<Rightarrow> string"
  write_accepts :: "string \<Rightarrow> nat"

definition atomic_create :: "kernel \<Rightarrow> string \<Rightarrow> string \<Rightarrow> mode option \<Rightarrow> disk \<Rightarrow> disk res" where
  "atomic_create k contents dst target_mode d =
     bind_res (if length contents > 0 then write_all (write_accepts k) contents else Inr [])
       (\<lambda>parts. fold_res exec_call
          (atomic_create_calls parts dst target_mode (mkstemp_suffix k d dst)) d)"

definition copy_then_rename ::
  "kernel \<Rightarrow> string \<Rightarrow> string \<Rightarrow> mode option \<Rightarrow> disk \<Rightarrow> disk res" where
  "copy_then_rename k src dst target_mode d =
     bind_res (sys_stat src d) (\<lambda>n.
       case n of
         Directory \<Rightarrow> Inl (Runtime_error (src @ '' is not a regular file''))
       | Regular c m \<Rightarrow>
           bind_res (read_prefix c (length c)) (\<lambda>contents.
             atomic_create k contents dst
               (Some (case target_mode of Some t \<Rightarrow> t | None \<Rightarrow> m)) d))"

text \<open>\<open>::remove\<close> deletes a file, or a directory with nothing in it.\<close>

definition nothing_below :: "string \<Rightarrow> (string \<rightharpoonup> 'a) \<Rightarrow> bool" where
  "nothing_below p entries \<longleftrightarrow> (\<forall>q. entries (p @ ''/'' @ q) = None)"

declare nothing_below_def [code del]

definition remove :: "string \<Rightarrow> disk \<Rightarrow> disk res" where
  "remove p d =
     (case d p of
        None \<Rightarrow> Inl (Unix_error ''remove'')
      | Some (Regular _ _) \<Rightarrow> Inr (d(p := None))
      | Some Directory \<Rightarrow> (if nothing_below p d then Inr (d(p := None)) else Inl (Unix_error ''remove'')))"

text \<open>\<open>cross_device\<close> says that \<open>rename\<close> failed with \<open>EXDEV\<close>.\<close>

definition move_file :: "kernel \<Rightarrow> bool \<Rightarrow> string \<Rightarrow> string \<Rightarrow> disk \<Rightarrow> disk res" where
  "move_file k cross_device src dst d =
     (if \<not> cross_device then
        (case exec_call (Rename src dst) d of
           Inr d' \<Rightarrow> Inr d'
         | Inl _ \<Rightarrow> Inl (Unix_error ''rename()''))
      else bind_res (copy_then_rename k src dst None d) (remove src))"

definition S_IXUSR :: mode where
  "S_IXUSR = 64"

definition is_executable :: "string \<Rightarrow> disk \<Rightarrow> bool res" where
  "is_executable p d =
     bind_res (sys_stat p d) (\<lambda>n. case n of
         Regular _ m \<Rightarrow> Inr (m AND S_IXUSR \<noteq> 0)
       | Directory \<Rightarrow> Inr True)"

definition make_executable :: "string \<Rightarrow> disk \<Rightarrow> disk res" where
  "make_executable p d =
     bind_res (sys_stat p d) (\<lambda>n. case n of
         Regular c m \<Rightarrow> Inr (d(p \<mapsto> Regular c (m OR S_IXUSR)))
       | Directory \<Rightarrow> Inr d)"

text \<open>\<open>create_directories\<close>: \<open>mkdirat\<close> of a name that exists already is no error, opening it as a
  directory is one when it is a file. A relative path starts at the working directory.\<close>

definition child_path :: "string \<Rightarrow> string \<Rightarrow> string" where
  "child_path parent c = (if parent = [] then c else path_append parent c)"

fun create_directories_relative :: "string \<Rightarrow> string list \<Rightarrow> disk \<Rightarrow> disk res" where
  "create_directories_relative parent [] d = Inr d"
| "create_directories_relative parent (c # cs) d =
     (if c = [] then create_directories_relative parent cs d
      else let p = child_path parent c;
               d' = (if d p = None then d(p \<mapsto> Directory) else d)
           in if d' p = Some Directory then create_directories_relative p cs d'
              else Inl (Unix_error ''openat directory''))"

definition create_directories :: "string \<Rightarrow> disk \<Rightarrow> disk res" where
  "create_directories p d =
     (let components = path_components p
      in if components = [] then Inr d
         else create_directories_relative []
                ((if hd components = [] then ''/'' else hd components) # tl components) d)"

lemma create_directories_relative_keeps:
  "create_directories_relative parent cs d = Inr d' \<Longrightarrow> d q \<noteq> None \<Longrightarrow> d' q = d q"
proof (induction parent cs d rule: create_directories_relative.induct)
  case (2 parent c cs d)
  show ?case
  proof (cases "c = []")
    case True
    with 2 show ?thesis by simp
  next
    case False
    define p where "p = child_path parent c"
    define d1 where "d1 = (if d p = None then d(p \<mapsto> Directory) else d)"
    have "d1 q = d q" using 2(4) by (auto simp: d1_def)
    moreover have "d1 p = Some Directory" and "create_directories_relative p cs d1 = Inr d'"
      using 2(3) False by (simp_all add: p_def [symmetric] d1_def [symmetric] Let_def split: if_splits)
    ultimately show ?thesis using 2(2) [OF False p_def d1_def] 2(4) by simp
  qed
qed simp

text \<open>Creating directories loses nothing that was on disk.\<close>

lemma create_directories_keeps:
  "create_directories p d = Inr d' \<Longrightarrow> d q \<noteq> None \<Longrightarrow> d' q = d q"
  unfolding create_directories_def Let_def
  by (cases "path_components p = []") (simp, metis create_directories_relative_keeps)

section \<open>What atomic_create promises\<close>

text \<open>A call that is not a rename onto \<open>p\<close>, or off it, leaves every other path alone.\<close>

fun touches :: "syscall \<Rightarrow> string set" where
  "touches (Mkstemp p) = {p}"
| "touches (Write p _) = {p}"
| "touches (Fchmod p _) = {p}"
| "touches (Rename a b) = {a, b}"

lemma exec_call_frame: "exec_call c d = Inr d' \<Longrightarrow> q \<notin> touches c \<Longrightarrow> d' q = d q"
  by (cases c) (auto split: option.splits node.splits if_splits)

lemma exec_calls_frame:
  assumes "fold_res exec_call cs d = Inr d'" and "\<And>c. c \<in> set cs \<Longrightarrow> q \<notin> touches c"
  shows "d' q = d q"
  by (rule fold_res_invariant [OF assms(1), of "\<lambda>x. x q = d q"])
    (auto dest: exec_call_frame assms(2))

lemma exec_writes:
  "d t = Some (Regular c m) \<Longrightarrow>
     fold_res exec_call (map (Write t) ps) d = Inr (d(t \<mapsto> Regular (c @ concat ps) m))"
  by (induction ps arbitrary: d c) (simp_all add: fun_upd_idem)

lemma temp_name_other [simp]: "temp_name dst suf \<noteq> dst" "dst \<noteq> temp_name dst suf"
  by (simp_all add: temp_name_def)

definition final_mode :: "mode option \<Rightarrow> mode" where
  "final_mode target_mode = (case target_mode of None \<Rightarrow> 384 | Some m \<Rightarrow> m)"

definition calls_before_rename ::
  "string list \<Rightarrow> string \<Rightarrow> mode option \<Rightarrow> string \<Rightarrow> syscall list" where
  "calls_before_rename parts dst target_mode suf =
     Mkstemp (temp_name dst suf) # map (Write (temp_name dst suf)) parts
     @ (case target_mode of None \<Rightarrow> [] | Some m \<Rightarrow> [Fchmod (temp_name dst suf) m])"

lemma atomic_create_calls_conv:
  "atomic_create_calls parts dst target_mode suf =
     calls_before_rename parts dst target_mode suf @ [Rename (temp_name dst suf) dst]"
  by (simp add: atomic_create_calls_def calls_before_rename_def)

lemma calls_before_rename_effect:
  "fold_res exec_call (calls_before_rename parts dst target_mode suf) d =
     (if d (temp_name dst suf) = None
      then Inr (d(temp_name dst suf \<mapsto> Regular (concat parts) (final_mode target_mode)))
      else Inl (Unix_error ''mkstemp''))"
  by (cases target_mode)
    (simp_all add: calls_before_rename_def fold_res_append exec_writes final_mode_def)

lemma atomic_create_calls_Inr:
  "fold_res exec_call (atomic_create_calls parts dst target_mode suf) d = Inr d' \<longleftrightarrow>
     d (temp_name dst suf) = None \<and> d dst \<noteq> Some Directory \<and>
     d' = d(dst \<mapsto> Regular (concat parts) (final_mode target_mode))"
  unfolding atomic_create_calls_conv fold_res_append calls_before_rename_effect
  by (auto simp: fun_upd_twist fun_upd_idem)

lemma atomic_create_calls_effect:
  assumes "d (temp_name dst suf) = None" and "d dst \<noteq> Some Directory"
  shows "fold_res exec_call (atomic_create_calls parts dst target_mode suf) d =
           Inr (d(dst \<mapsto> Regular (concat parts) (final_mode target_mode)))"
  using assms by (simp add: atomic_create_calls_Inr)

lemma atomic_create_calls_partial:
  assumes "n < length (atomic_create_calls parts dst target_mode suf)"
    and "fold_res exec_call (take n (atomic_create_calls parts dst target_mode suf)) d = Inr d'"
    and "q \<noteq> temp_name dst suf"
  shows "d' q = d q"
proof (rule exec_calls_frame [OF assms(2)])
  fix c
  assume "c \<in> set (take n (atomic_create_calls parts dst target_mode suf))"
  with assms(1) have "c \<in> set (calls_before_rename parts dst target_mode suf)"
    by (auto simp: atomic_create_calls_conv dest: in_set_takeD)
  with assms(3) show "q \<notin> touches c"
    by (auto simp: calls_before_rename_def split: option.splits)
qed

text \<open>C26: atomic_create is crash-safe. However the kernel cuts the writes and however many of the
  system calls have run when the process dies, the destination holds the old node or a file with
  exactly the new contents and the final mode, and no other path than the temporary has changed.\<close>

theorem atomic_create_crash_safe:
  assumes "(if length contents > 0 then write_all accepts contents else Inr []) = Inr parts"
    and "d (temp_name dst suf) = None" and "d dst \<noteq> Some Directory"
    and "fold_res exec_call (take n (atomic_create_calls parts dst target_mode suf)) d = Inr d'"
  shows "(d' dst = d dst \<or> d' dst = Some (Regular contents (final_mode target_mode))) \<and>
    (\<forall>q. q \<noteq> dst \<and> q \<noteq> temp_name dst suf \<longrightarrow> d' q = d q)"
proof (cases "n < length (atomic_create_calls parts dst target_mode suf)")
  case True
  from atomic_create_calls_partial [OF this assms(4)] show ?thesis by simp
next
  case False
  have "concat parts = contents"
    using assms(1) by (cases "contents = []") (auto dest: write_all_concat)
  with False assms(2-4) show ?thesis
    by (auto simp: atomic_create_calls_effect)
qed

theorem atomic_create_crash_safe_witness:
  "(let d = (\<lambda>p. if p = ''k'' then Some (Regular ''old'' 420) else None);
        cs = atomic_create_calls [''ne'', ''w''] ''k'' (Some 420) ''a1''
    in case fold_res exec_call (take 3 cs) d of
         Inl e \<Rightarrow> False
       | Inr d' \<Rightarrow> d' ''k'' = d ''k'' \<or> d' ''k'' = Some (Regular ''new'' 420))"
proof -
  define d where "d = (\<lambda>p. if p = ''k'' then Some (Regular ''old'' 420) else None)"
  define d' where "d' = d(temp_name ''k'' ''a1'' \<mapsto> Regular ''new'' 384)"
  have w: "(if length ''new'' > 0 then write_all (\<lambda>s. 2) ''new'' else Inr []) = Inr [''ne'', ''w'']"
    by (simp add: write_all.simps)
  have run: "fold_res exec_call
      (take 3 (atomic_create_calls [''ne'', ''w''] ''k'' (Some 420) ''a1'')) d = Inr d'"
    by (simp add: atomic_create_calls_def d_def d'_def temp_name_def numeral_3_eq_3)
  have "d' ''k'' = d ''k'' \<or> d' ''k'' = Some (Regular ''new'' (final_mode (Some 420)))"
    using atomic_create_crash_safe [OF w _ _ run] by (simp add: d_def temp_name_def)
  with run show ?thesis
    by (simp add: Let_def d_def [symmetric] final_mode_def)
qed

text \<open>What a caller sees of a call that returns: the file is there, whole, and nothing else changed.\<close>

lemma atomic_create_effect:
  assumes "d (temp_name dst (mkstemp_suffix k d dst)) = None" and "d dst \<noteq> Some Directory"
    and "\<And>t. t \<noteq> [] \<Longrightarrow> 0 < write_accepts k t"
  shows "atomic_create k contents dst target_mode d =
           Inr (d(dst \<mapsto> Regular contents (final_mode target_mode)))"
proof (cases "contents = []")
  case True
  with assms show ?thesis
    by (simp add: atomic_create_def atomic_create_calls_effect)
next
  case False
  then obtain parts where "write_all (write_accepts k) contents = Inr parts"
    using write_all_returns assms(3) by blast
  moreover from write_all_concat [OF this] have "concat parts = contents" by simp
  ultimately show ?thesis using False assms
    by (simp add: atomic_create_def atomic_create_calls_effect)
qed

text \<open>A kernel whose temporary names are free, and that always takes at least one byte.\<close>

definition good_kernel :: "kernel \<Rightarrow> disk \<Rightarrow> bool" where
  "good_kernel k d \<longleftrightarrow>
     (\<forall>dst. d (temp_name dst (mkstemp_suffix k d dst)) = None) \<and>
     (\<forall>t. t \<noteq> [] \<longrightarrow> 0 < write_accepts k t)"

lemma atomic_create_good:
  "good_kernel k d \<Longrightarrow> d dst \<noteq> Some Directory \<Longrightarrow>
     atomic_create k contents dst target_mode d =
       Inr (d(dst \<mapsto> Regular contents (final_mode target_mode)))"
  by (rule atomic_create_effect) (auto simp: good_kernel_def)

text \<open>Whenever the call returns, its whole effect is the new file: the temporary name was free before
  and is free again.\<close>

lemma atomic_create_Inr:
  assumes "atomic_create k contents dst target_mode d = Inr d'"
  shows "d' = d(dst \<mapsto> Regular contents (final_mode target_mode))"
proof -
  from assms obtain parts
    where parts: "(if length contents > 0 then write_all (write_accepts k) contents else Inr []) = Inr parts"
      and run: "fold_res exec_call
          (atomic_create_calls parts dst target_mode (mkstemp_suffix k d dst)) d = Inr d'"
    by (auto simp: atomic_create_def simp del: fold_res.simps)
  have "concat parts = contents"
    using parts by (cases "contents = []") (auto dest: write_all_concat)
  with run show ?thesis by (simp add: atomic_create_calls_Inr)
qed

text \<open>Moving a file across devices leaves the contents and the mode of the source under the
  destination's name and removes the source, the same result as a rename on one device.\<close>

theorem move_file_devices_agree:
  assumes "good_kernel k d" and "d src = Some (Regular c m)" and "d dst \<noteq> Some Directory"
    and "src \<noteq> dst"
  shows "move_file k True src dst d = move_file k False src dst d \<and>
    move_file k True src dst d = Inr (d(src := None, dst \<mapsto> Regular c m))"
  using assms
  by (simp add: move_file_def copy_then_rename_def sys_stat_def read_prefix_def
      atomic_create_good final_mode_def remove_def fun_upd_twist)

theorem move_file_devices_agree_witness:
  "(let k = \<lparr>mkstemp_suffix = \<lambda>d dst. ''a1'', write_accepts = \<lambda>s. 1\<rparr>;
        d = Map.empty(''a'' \<mapsto> Regular ''xy'' 448)
    in move_file k True ''a'' ''b'' d = move_file k False ''a'' ''b'' d)"
proof -
  let ?k = "\<lparr>mkstemp_suffix = \<lambda>d dst. ''a1'', write_accepts = \<lambda>s. 1\<rparr>"
  let ?d = "Map.empty(''a'' \<mapsto> Regular ''xy'' 448)"
  have "temp_name dst ''a1'' \<noteq> ''a''" for dst
    by (cases dst) (auto simp: temp_name_def)
  then have "good_kernel ?k ?d"
    by (simp add: good_kernel_def)
  then show ?thesis
    using move_file_devices_agree [of ?k ?d "''a''" "''xy''" 448 "''b''"] by (simp add: Let_def)
qed

end
