(* ===== verification/GGUtils.thy ===== *)
theory GGUtils
  imports Conversions FileOps
begin

text \<open>
  \<open>src/thunk/ggutils.cc\<close>: where the objects live, the object hashes, and the reduction cache.
  SHA-256 (base64url, without padding) and the decoder of \<open>to_hex\<close> are Crypto++ and are parameters.
  The directories are those below one \<open>gg_dir\<close>; the code looks it up once per process. The locale
  \<open>reduction_cache\<close> is the contract the reductor and the execution loop rely on.
\<close>

section \<open>Object types\<close>

datatype object_type = Value | Thunk

fun to_underlying :: "object_type \<Rightarrow> char" where
  "to_underlying Value = CHR ''V''"
| "to_underlying Thunk = CHR ''T''"

definition MAGIC_NUMBER :: string where
  "MAGIC_NUMBER = ''##GGTHUNK##''"

section \<open>Paths\<close>

text \<open>The C library's \<open>dirname\<close>.\<close>

definition libc_dirname :: "string \<Rightarrow> string" where
  "libc_dirname p =
     (let q = strip_trailing_slashes p
      in if p = [] then ''.''
         else if q = [] then ''/''
         else let up = rev (dropWhile (\<lambda>c. c \<noteq> CHR ''/'') (rev q))
              in if up = [] then ''.''
                 else let r = strip_trailing_slashes up in if r = [] then ''/'' else r)"

definition roost_dirname :: "string \<Rightarrow> string res" where
  "roost_dirname p =
     (if PATH_MAX \<le> length p then Inl Undefined_behaviour else Inr (libc_dirname p))"

text \<open>The search for \<open>.gg\<close> in the directories above; one round per directory.\<close>

lemma length_strip_trailing: "length (strip_trailing_slashes p) \<le> length p"
  using length_dropWhile_le [of "\<lambda>c. c = CHR ''/''" "rev p"] by (simp add: strip_trailing_slashes_def)

lemma strip_trailing_last: "strip_trailing_slashes p \<noteq> [] \<Longrightarrow> last (strip_trailing_slashes p) \<noteq> CHR ''/''"
  unfolding strip_trailing_slashes_def by (metis (mono_tags, lifting) hd_dropWhile last_rev rev.simps(1) rev_rev_ident)

lemma strip_trailing_Nil: "strip_trailing_slashes p = [] \<longleftrightarrow> (\<forall>c \<in> set p. c = CHR ''/'')"
  by (simp add: strip_trailing_slashes_def dropWhile_eq_Nil_conv)

lemma libc_dirname_shorter:
  assumes "libc_dirname p \<noteq> p" and "p \<noteq> []"
  shows "length (libc_dirname p) < length p \<or> libc_dirname p = ''.'' \<and> length p = 1 \<and> p \<noteq> ''.''"
proof -
  define q where "q = strip_trailing_slashes p"
  define up where "up = rev (dropWhile (\<lambda>c. c \<noteq> CHR ''/'') (rev q))"
  have qp: "length q \<le> length p" by (simp add: q_def length_strip_trailing)
  have p1: "0 < length p" using assms(2) by simp
  show ?thesis
  proof (cases "q = []")
    case True
    then have "libc_dirname p = ''/''" using assms(2) by (simp add: libc_dirname_def q_def)
    moreover have "length p \<noteq> 1"
    proof
      assume "length p = 1"
      then obtain c where "p = [c]" by (cases p) auto
      with True calculation assms(1) show False by (simp add: q_def strip_trailing_Nil)
    qed
    moreover from this p1 have "1 < length p" by linarith
    ultimately show ?thesis by simp
  next
    case q: False
    show ?thesis
    proof (cases "up = []")
      case True
      then have "libc_dirname p = ''.''" using assms(2) q
        by (simp add: libc_dirname_def q_def up_def Let_def)
      moreover from p1 have "length p = 1 \<or> 1 < length p" by linarith
      ultimately show ?thesis using assms by auto
    next
      case up: False
      from q have "last q \<noteq> CHR ''/''" by (simp add: q_def strip_trailing_last)
      then have "length up < length q"
        using q length_dropWhile_le [of "\<lambda>c. c \<noteq> CHR ''/''" "rev (butlast q)"]
        by (cases q rule: rev_cases) (simp_all add: up_def)
      moreover have "libc_dirname p = (if strip_trailing_slashes up = [] then ''/'' else strip_trailing_slashes up)"
        unfolding libc_dirname_def Let_def q_def [symmetric] up_def [symmetric]
        using assms(2) q up by simp
      moreover have "length (strip_trailing_slashes up) \<le> length up"
        by (rule length_strip_trailing)
      moreover from up have "0 < length up" by simp
      ultimately have "length (libc_dirname p) < length p"
        using qp by (cases "strip_trailing_slashes up = []") (simp_all del: length_greater_0_conv)
      then show ?thesis ..
    qed
  qed
qed

function find_gg_dir :: "disk \<Rightarrow> string \<Rightarrow> string res" where
  "find_gg_dir d cwd =
     (let path_candidate = path_append cwd ''.gg''
      in if d path_candidate = Some Directory then Inr path_candidate
         else case roost_dirname cwd of
                Inl e \<Rightarrow> Inl e
              | Inr new_cwd \<Rightarrow>
                  (if cwd \<noteq> new_cwd then find_gg_dir d new_cwd
                   else Inl (Runtime_error
                     ''GG_DIR not set, and could not find .gg in any of parent dirs'')))"
  by pat_completeness auto
termination
proof (relation "measure (\<lambda>(_, p). if p = [] then 2 else if p = ''.'' then 1 else Suc (length p))",
    simp, goal_cases)
  case (1 d cwd pc y)
  then have y: "y = libc_dirname cwd" by (simp add: roost_dirname_def split: if_splits)
  show ?case
  proof (cases "cwd = []")
    case True
    with y show ?thesis by (simp add: libc_dirname_def)
  next
    case False
    from libc_dirname_shorter [of cwd] 1 y False
    have "length y < length cwd \<or> y = ''.'' \<and> length cwd = 1 \<and> cwd \<noteq> ''.''" by auto
    moreover have "y \<noteq> []" by (simp add: y libc_dirname_def Let_def)
    ultimately show ?thesis using False by auto
  qed
qed

declare find_gg_dir.simps [simp del]

text \<open>\<open>canonical\<close> is \<open>realpath\<close>, a parameter.\<close>

definition get_gg_dir ::
  "(string \<Rightarrow> string res) \<Rightarrow> (string \<rightharpoonup> string) \<Rightarrow> string \<Rightarrow> disk \<Rightarrow> (string \<times> disk) res" where
  "get_gg_dir canonical environ cwd d =
     (case environ ''GG_DIR'' of
        None \<Rightarrow> bind_res (find_gg_dir d cwd) (\<lambda>p. Inr (p, d))
      | Some gg_path \<Rightarrow>
          (if \<not> is_absolute gg_path
           then Inl (Runtime_error ''GG_DIR must be an absolute path'')
           else bind_res
             (if path_exists gg_path d
              then (if d gg_path \<noteq> Some Directory
                    then Inl (Runtime_error (gg_path @ '' is not a directory'')) else Inr d)
              else create_directories gg_path d)
             (\<lambda>d'. bind_res (canonical gg_path) (\<lambda>p. Inr (p, d')))))"

definition get_inner_directory :: "string \<Rightarrow> string \<Rightarrow> disk \<Rightarrow> (string \<times> disk) res" where
  "get_inner_directory gg_dir name d =
     (let inner_dir = path_append gg_dir name
      in bind_res
           (if path_exists inner_dir d
            then (if d inner_dir \<noteq> Some Directory
                  then Inl (Runtime_error (inner_dir @ '' is not a directory'')) else Inr d)
            else create_directories inner_dir d)
           (\<lambda>d'. Inr (inner_dir, d')))"

definition blobs :: "string \<Rightarrow> string" where
  "blobs gg_dir = path_append gg_dir ''blobs''"

definition reductions :: "string \<Rightarrow> string" where
  "reductions gg_dir = path_append gg_dir ''reductions''"

definition hash_cache :: "string \<Rightarrow> string" where
  "hash_cache gg_dir = path_append gg_dir ''hash_cache''"

definition blob :: "string \<Rightarrow> string \<Rightarrow> string" where
  "blob gg_dir h = path_append (blobs gg_dir) h"

definition reduction :: "string \<Rightarrow> string \<Rightarrow> string" where
  "reduction gg_dir h = path_append (reductions gg_dir) h"

record file_stat =
  st_dev :: nat
  st_ino :: nat
  st_size :: nat
  st_mtim :: "nat \<times> nat"
  st_ctim :: "nat \<times> nat"

definition hash_cache_entry :: "string \<Rightarrow> string \<Rightarrow> file_stat \<Rightarrow> string res" where
  "hash_cache_entry gg_dir filename st =
     bind_res (rbasename filename) (\<lambda>b.
       Inr (path_append (hash_cache gg_dir)
              (nat_to_string (st_dev st) @ ''-'' @ nat_to_string (st_ino st) @ ''-'' @ b)))"

section \<open>Hashes\<close>

definition hash_length :: nat where
  "hash_length = 1 + 256 div 6 + 1 + 8"

definition hash_base :: "string \<Rightarrow> string" where
  "hash_base h = (case str_find h ''#'' 0 of None \<Rightarrow> h | Some hash_pos \<Rightarrow> take hash_pos h)"

definition for_output :: "string \<Rightarrow> string \<Rightarrow> string" where
  "for_output thunk_hash output_tag = thunk_hash @ ''#'' @ output_tag"

definition hash_compute :: "(string \<Rightarrow> string) \<Rightarrow> string \<Rightarrow> object_type \<Rightarrow> string" where
  "hash_compute sha256 input ty =
     to_underlying ty
     # replace_char CHR ''-'' CHR ''.'' (sha256 input)
     @ pad_left 8 CHR ''0'' (to_hex_string (length input))"

definition file_force ::
  "(string \<Rightarrow> string) \<Rightarrow> string \<Rightarrow> object_type option \<Rightarrow> disk \<Rightarrow> string res" where
  "file_force sha256 p ty d =
     (case d p of
        None \<Rightarrow> Inl (Unix_error ''open'')
      | Some Directory \<Rightarrow> Inl (Unix_error ''read'')
      | Some (Regular contents m) \<Rightarrow>
          (let ty' = (case ty of
                 Some t \<Rightarrow> t
               | None \<Rightarrow>
                   (if length MAGIC_NUMBER \<le> length contents \<and> starts_with MAGIC_NUMBER contents
                    then Thunk else Value))
           in Inr (hash_compute sha256 contents ty')))"

definition hash_cache_line :: "file_stat \<Rightarrow> string \<Rightarrow> string" where
  "hash_cache_line st computed_hash =
     nat_to_string (st_size st) @ '' '' @
     nat_to_string (fst (st_mtim st)) @ '' '' @ nat_to_string (snd (st_mtim st)) @ '' '' @
     nat_to_string (fst (st_ctim st)) @ '' '' @ nat_to_string (snd (st_ctim st)) @ '' '' @
     computed_hash"

text \<open>The lookup in the cache of file hashes: \<open>None\<close> is a miss.\<close>

definition hash_cache_lookup :: "file_stat \<Rightarrow> string \<Rightarrow> disk \<Rightarrow> string option res" where
  "hash_cache_lookup st cache_entry_path d =
     (if \<not> path_exists cache_entry_path d then Inr None
      else bind_res (read_file cache_entry_path d) (\<lambda>cache_entry.
        let cache_contents = split cache_entry '' ''
        in if length cache_contents \<noteq> 6
           then Inl (Runtime_error (''bad cache entry: '' @ cache_entry_path))
           else if cache_contents ! 0 = nat_to_string (st_size st)
                \<and> cache_contents ! 1 = nat_to_string (fst (st_mtim st))
                \<and> cache_contents ! 2 = nat_to_string (snd (st_mtim st))
                \<and> cache_contents ! 3 = nat_to_string (fst (st_ctim st))
                \<and> cache_contents ! 4 = nat_to_string (snd (st_ctim st))
           then Inr (Some (cache_contents ! 5))
           else Inr None))"

text \<open>\<open>gg::hash::file\<close>; \<open>stat_of\<close> gives the numbers of \<open>stat\<close> that the disk does not hold.\<close>

definition hash_file ::
  "(string \<Rightarrow> string) \<Rightarrow> kernel \<Rightarrow> (string \<Rightarrow> file_stat) \<Rightarrow> string \<Rightarrow> string \<Rightarrow> object_type option \<Rightarrow>
     disk \<Rightarrow> (string \<times> disk) res" where
  "hash_file sha256 k stat_of gg_dir p ty d =
     bind_res (sys_stat p d) (\<lambda>_.
     bind_res (hash_cache_entry gg_dir p (stat_of p)) (\<lambda>cache_entry_path.
     bind_res (hash_cache_lookup (stat_of p) cache_entry_path d) (\<lambda>cached.
       case cached of
         Some h \<Rightarrow> Inr (h, d)
       | None \<Rightarrow>
           bind_res (file_force sha256 p ty d) (\<lambda>computed_hash.
           bind_res (atomic_create k (hash_cache_line (stat_of p) computed_hash) cache_entry_path None d)
             (\<lambda>d'. Inr (computed_hash, d'))))))"

text \<open>\<open>decode\<close> is base64url decoding followed by hexadecimal encoding. The length \<open>gghash.length() - 9\<close>
  is unsigned, so a short hash asks for everything from position 1.\<close>

definition hash_to_hex :: "(string \<Rightarrow> string) \<Rightarrow> string \<Rightarrow> string res" where
  "hash_to_hex decode gghash =
     bind_res (substr gghash 1 (if 9 \<le> length gghash then Some (length gghash - 9) else None))
       (\<lambda>h. let output = decode (replace_char CHR ''.'' CHR ''-'' h @ ''='')
             in if length output = 64 then Inr output
                else Inl (Runtime_error (''invalid gghash: '' @ gghash)))"

definition hash_size :: "string \<Rightarrow> 32 word res" where
  "hash_size h =
     bind_res (assert_res (length h \<ge> 8)) (\<lambda>_.
       bind_res (stoul (drop (length h - 8) h) 16) (\<lambda>n. Inr (ucast n)))"

definition hash_type :: "string \<Rightarrow> object_type res" where
  "hash_type h =
     (if length h = 0 then Inl (Runtime_error ''invalid hash'')
      else if h ! 0 = CHR ''T'' then Inr Thunk
      else if h ! 0 = CHR ''V'' then Inr Value
      else Inl (Runtime_error ''invalid hash type''))"

section \<open>The reduction cache\<close>

definition cache_check :: "string \<Rightarrow> string \<Rightarrow> disk \<Rightarrow> string option res" where
  "cache_check gg_dir thunk_hash d =
     (case d (reduction gg_dir thunk_hash) of
        None \<Rightarrow> Inr None
      | Some Directory \<Rightarrow> Inl (Unix_error ''read'')
      | Some (Regular c _) \<Rightarrow> map_sum id Some (read_prefix c hash_length))"

definition cache_insert :: "kernel \<Rightarrow> string \<Rightarrow> string \<Rightarrow> string \<Rightarrow> disk \<Rightarrow> disk res" where
  "cache_insert k gg_dir old_hash new_hash d =
     atomic_create k new_hash (reduction gg_dir old_hash) None d"

section \<open>Model wrappers\<close>

definition args_to_vector :: "string list \<Rightarrow> string \<Rightarrow> string list res" where
  "args_to_vector argv argv0 =
     (if argv = [] then Inl (Runtime_error ''no args provided'')
      else Inr ((if length argv0 > 0 then argv0 else hd argv) # tl argv))"

section \<open>Facts about hashes\<close>

text \<open>What the code relies on of \<open>digest::sha256\<close>: 43 characters of the base64url alphabet.\<close>

definition sha256_ok :: "(string \<Rightarrow> string) \<Rightarrow> bool" where
  "sha256_ok sha256 \<longleftrightarrow>
     (\<forall>s. length (sha256 s) = 43 \<and> (\<forall>c \<in> set (sha256 s). c \<notin> set ''#= /.''))"

lemma hash_type_compute [simp]: "hash_type (hash_compute sha256 s ty) = Inr ty"
  by (cases ty) (simp_all add: hash_type_def hash_compute_def)

lemma hash_type_Cons:
  "hash_type (to_underlying ty # s) = Inr ty"
  by (cases ty) (simp_all add: hash_type_def)

lemma hash_type_append: "h \<noteq> [] \<Longrightarrow> hash_type (h @ s) = hash_type h"
  by (cases h) (simp_all add: hash_type_def)

lemma for_output_type [simp]: "h \<noteq> [] \<Longrightarrow> hash_type (for_output h tag) = hash_type h"
  by (simp add: for_output_def hash_type_append)

lemma takeWhile_no_sep: "c \<notin> set h \<Longrightarrow> takeWhile (\<lambda>x. x \<noteq> c) h = h"
  by (induction h) auto

lemma hash_base_conv: "hash_base h = takeWhile (\<lambda>c. c \<noteq> CHR ''#'') h"
proof (cases "find_sub ''#'' h")
  case None
  then have "takeWhile (\<lambda>c. c \<noteq> CHR ''#'') h = h"
    unfolding find_sub_char_None by (rule takeWhile_no_sep)
  then show ?thesis unfolding hash_base_def str_find_zero None option.case by (rule sym)
next
  case (Some i)
  then have "i < length h" "h ! i = CHR ''#''" "CHR ''#'' \<notin> set (take i h)"
    by (simp_all add: find_sub_char_Some)
  then have "takeWhile (\<lambda>c. c \<noteq> CHR ''#'') (take i h @ drop i h) = take i h"
    by (subst takeWhile_append2) (auto simp: Cons_nth_drop_Suc [symmetric])
  with Some show ?thesis by (simp add: hash_base_def)
qed

lemma hash_base_no_tag [simp]: "CHR ''#'' \<notin> set (hash_base h)"
  by (auto simp: hash_base_conv dest: set_takeWhileD)

lemma hash_base_id: "CHR ''#'' \<notin> set h \<Longrightarrow> hash_base h = h"
  unfolding hash_base_conv by (rule takeWhile_no_sep)

lemma hash_base_idem [simp]: "hash_base (hash_base h) = hash_base h"
  by (rule hash_base_id) simp

lemma hash_base_for_output [simp]: "hash_base (for_output h tag) = hash_base h"
  unfolding hash_base_conv for_output_def by (induction h) auto

lemma for_output_inj:
  "CHR ''#'' \<notin> set h \<Longrightarrow> CHR ''#'' \<notin> set h' \<Longrightarrow> for_output h t = for_output h' t' \<longleftrightarrow> h = h' \<and> t = t'"
  by (metis append_Cons append_Nil for_output_def hash_base_for_output hash_base_id same_append_eq list.inject)

lemma length_hash_compute:
  assumes "sha256_ok sha256" and "length s < 2 ^ 32"
  shows "length (hash_compute sha256 s ty) = hash_length"
proof -
  from assms(2) have "length (to_digits 16 (length s)) \<le> 8"
    by (subst length_to_digits) simp_all
  with assms(1) show ?thesis
    by (simp add: hash_compute_def hash_length_def sha256_ok_def length_pad_left to_hex_string_def max_def)
qed

lemma hash_compute_no_tag:
  assumes "sha256_ok sha256"
  shows "CHR ''#'' \<notin> set (hash_compute sha256 s ty)"
proof -
  have "CHR ''#'' \<notin> set (map digit_char ds)" if "\<And>d. d \<in> set ds \<Longrightarrow> d < 36" for ds
  proof
    assume "CHR ''#'' \<in> set (map digit_char ds)"
    then obtain d where d: "d \<in> set ds" "digit_char d = CHR ''#''" by auto
    from that [OF d(1)] have "digit_val (digit_char d) = Some d" by (rule digit_val_char)
    with d(2) show False by (simp add: digit_val_def)
  qed
  moreover have "d < 36" if "d \<in> set (to_digits 16 n)" for d n
    using to_digits_bound [of 16 d n] that by simp
  ultimately have "CHR ''#'' \<notin> set (to_hex_string (length s))"
    by (simp add: to_hex_string_def)
  with assms show ?thesis
    by (cases ty) (auto simp: hash_compute_def pad_left_def replace_char_def sha256_ok_def split: if_splits)
qed

text \<open>The hash of an object says its type and its size: the first character gives back the type
  it was computed for and the last eight characters give back the length of the object, as long as
  it is shorter than 4 GiB; it has 52 characters and carries no output tag.\<close>

lemma hash_compute_readback:
  assumes "sha256_ok sha256" and "length s < 2 ^ 32"
  shows "hash_type (hash_compute sha256 s ty) = Inr ty \<and>
    hash_size (hash_compute sha256 s ty) = Inr (of_nat (length s)) \<and>
    length (hash_compute sha256 s ty) = hash_length \<and>
    hash_base (hash_compute sha256 s ty) = hash_compute sha256 s ty"
proof -
  let ?tail = "pad_left 8 CHR ''0'' (to_hex_string (length s))"
  from assms(2) have "length (to_digits 16 (length s)) \<le> 8"
    by (subst length_to_digits) simp_all
  then have tail: "length ?tail = 8" by (simp add: length_pad_left to_hex_string_def max_def)
  define front where "front = to_underlying ty # replace_char CHR ''-'' CHR ''.'' (sha256 s)"
  have h: "hash_compute sha256 s ty = front @ ?tail"
    by (simp add: hash_compute_def front_def)
  from assms(2) have "length s < 2 ^ 64" by simp
  then have "hash_size (hash_compute sha256 s ty) = Inr (ucast (of_nat (length s) :: 64 word))"
    by (simp add: hash_size_def h tail stoul_padded_hex)
  also have "ucast (of_nat (length s) :: 64 word) = (of_nat (length s) :: 32 word)"
    using \<open>length s < 2 ^ 64\<close> by (simp add: unsigned_of_nat take_bit_nat_eq_self)
  finally show ?thesis
    using length_hash_compute [OF assms] hash_base_id [OF hash_compute_no_tag [OF assms(1)]] by simp
qed

text \<open>A function of the shape of SHA-256, for the witnesses.\<close>

definition toy_sha :: "string \<Rightarrow> string" where
  "toy_sha s = take 43 (map (\<lambda>c. if c \<in> set ''#= /.'' then CHR ''a'' else c) s @ replicate 43 CHR ''-'')"

lemma toy_sha_ok: "sha256_ok toy_sha"
  by (auto simp: sha256_ok_def toy_sha_def dest!: in_set_takeD)

lemma hash_compute_readback_witness:
  "hash_size (hash_compute toy_sha ''hello'' Value) = Inr 5"
  using hash_compute_readback [OF toy_sha_ok, of "''hello''" Value] by simp

section \<open>The cache of file hashes\<close>

lemma split_hash_cache_line:
  assumes "CHR '' '' \<notin> set h"
  shows "split (hash_cache_line st h) '' '' =
    [nat_to_string (st_size st), nat_to_string (fst (st_mtim st)), nat_to_string (snd (st_mtim st)),
     nat_to_string (fst (st_ctim st)), nat_to_string (snd (st_ctim st)), h]"
proof -
  have "CHR '' '' \<notin> set (nat_to_string n)" for n
    by (rule numeral_no_char) (simp add: digit_val_def)
  then show ?thesis
    using assms by (simp add: hash_cache_line_def split_char split_on_append split_on_no_sep)
qed

lemma hash_cache_lookup_Some:
  assumes "hash_cache_lookup st p d = Inr (Some h)"
  shows "path_exists p d" and "CHR '' '' \<notin> set h"
proof -
  from assms show "path_exists p d"
    by (simp add: hash_cache_lookup_def split: if_splits)
  from assms obtain entry where "length (split entry '' '') = 6" and "h = split entry '' '' ! 5"
    by (auto simp: hash_cache_lookup_def Let_def split: if_splits)
  then have "h \<in> set (split_on CHR '' '' entry)" by (simp add: split_char)
  then show "CHR '' '' \<notin> set h" by (rule tokens_no_sep)
qed

lemma hash_cache_lookup_written:
  assumes "CHR '' '' \<notin> set h" and "d p = Some (Regular (hash_cache_line st h) m)"
  shows "hash_cache_lookup st p d = Inr (Some h)"
  using assms
  by (simp add: hash_cache_lookup_def path_exists_def read_file_def sys_stat_def read_prefix_def
      split_hash_cache_line)

lemma hash_compute_no_space:
  assumes "sha256_ok sha256"
  shows "CHR '' '' \<notin> set (hash_compute sha256 s ty)"
proof -
  have "CHR '' '' \<notin> set (to_hex_string (length s))"
    by (rule numeral_no_char) (simp add: digit_val_def)
  with assms show ?thesis
    by (cases ty) (auto simp: hash_compute_def pad_left_def replace_char_def sha256_ok_def split: if_splits)
qed

text \<open>The cache of file hashes answers a second question about an unchanged file with the first
  answer and writes nothing, whatever type the second caller asks for: the type is not part of the
  key, so a file first hashed as a value keeps its \<open>V\<close> hash when it is asked for as a thunk.\<close>

theorem hash_file_again:
  assumes "sha256_ok sha256" and "hash_file sha256 k stat_of gg_dir p ty d = Inr (h, d')"
  shows "hash_file sha256 k stat_of gg_dir p ty' d' = Inr (h, d')"
proof -
  from assms(2) obtain n entry cached where n: "sys_stat p d = Inr n"
    and entry: "hash_cache_entry gg_dir p (stat_of p) = Inr entry"
    and look: "hash_cache_lookup (stat_of p) entry d = Inr cached"
    by (auto simp: hash_file_def)
  show ?thesis
  proof (cases cached)
    case (Some h')
    with assms(2) n entry look show ?thesis by (simp add: hash_file_def)
  next
    case None
    with assms(2) n entry look have force: "file_force sha256 p ty d = Inr h"
      and create: "atomic_create k (hash_cache_line (stat_of p) h) entry None d = Inr d'"
      by (auto simp: hash_file_def)
    from atomic_create_Inr [OF create] have d': "d' = d(entry \<mapsto> Regular (hash_cache_line (stat_of p) h) (final_mode None))" .
    from force have "CHR '' '' \<notin> set h"
      using hash_compute_no_space [OF assms(1)]
      by (auto simp: file_force_def Let_def split: option.splits node.splits)
    then have "hash_cache_lookup (stat_of p) entry d' = Inr (Some h)"
      by (rule hash_cache_lookup_written) (simp add: d')
    moreover have "\<exists>n'. sys_stat p d' = Inr n'"
      using n by (auto simp: sys_stat_def d' split: option.splits)
    ultimately show ?thesis using entry by (auto simp: hash_file_def)
  qed
qed

definition toy_stat :: file_stat where
  "toy_stat = \<lparr>st_dev = 1, st_ino = 2, st_size = 3, st_mtim = (4, 5), st_ctim = (6, 7)\<rparr>"

theorem hash_file_again_witness:
  "let k = \<lparr>mkstemp_suffix = \<lambda>d dst. ''x'', write_accepts = \<lambda>s. length s\<rparr>;
       d = Map.empty(''a.o'' \<mapsto> Regular ''xyz'' 420)
   in \<exists>d'. hash_file toy_sha k (\<lambda>_. toy_stat) ''/g'' ''a.o'' (Some Value) d =
        Inr (hash_compute toy_sha ''xyz'' Value, d') \<and>
      hash_file toy_sha k (\<lambda>_. toy_stat) ''/g'' ''a.o'' (Some Thunk) d' =
        Inr (hash_compute toy_sha ''xyz'' Value, d')"
proof -
  let ?k = "\<lparr>mkstemp_suffix = \<lambda>d dst. ''x'', write_accepts = \<lambda>s. length s\<rparr>"
  let ?d = "Map.empty(''a.o'' \<mapsto> Regular ''xyz'' 420)"
  have base: "rbasename ''a.o'' = Inr ''a.o''" by code_simp
  obtain entry where entry: "hash_cache_entry ''/g'' ''a.o'' toy_stat = Inr entry"
    and e: "take 1 entry = ''/''"
    by (auto simp: hash_cache_entry_def base hash_cache_def path_append_def)
  from e have e': "entry \<noteq> ''a.o''" "temp_name entry ''x'' \<noteq> ''a.o''"
    by (cases entry; auto simp: temp_name_def)+
  have "atomic_create ?k line entry None ?d = Inr (?d(entry \<mapsto> Regular line (final_mode None)))" for line
    by (rule atomic_create_effect) (use e' in auto)
  then obtain d' where run: "hash_file toy_sha ?k (\<lambda>_. toy_stat) ''/g'' ''a.o'' (Some Value) ?d =
      Inr (hash_compute toy_sha ''xyz'' Value, d')"
    using entry e' by (simp add: hash_file_def sys_stat_def hash_cache_lookup_def path_exists_def file_force_def)
  with hash_file_again [OF toy_sha_ok run, of "Some Thunk"] show ?thesis
    unfolding Let_def by blast
qed

section \<open>The contract of the reduction cache\<close>

locale reduction_cache =
  fixes check :: "'k \<Rightarrow> 'd \<Rightarrow> 'k option res"
    and ins :: "'k \<Rightarrow> 'k \<Rightarrow> 'd \<Rightarrow> 'd res"
    and key_ok :: "'k \<Rightarrow> bool"
    and val_ok :: "'k \<Rightarrow> bool"
  assumes check_same: "ins a b d = Inr d' \<Longrightarrow> val_ok b \<Longrightarrow> check a d' = Inr (Some b)"
    and check_other: "ins a b d = Inr d' \<Longrightarrow> key_ok a \<Longrightarrow> key_ok c \<Longrightarrow> c \<noteq> a \<Longrightarrow> check c d' = check c d"
begin

text \<open>Several entries written one after the other, as at the end of an execution: what is read back
  of a key is the last entry written for it, and an entry nobody wrote is as it was.\<close>

lemma check_inserted:
  assumes "fold_res (\<lambda>(a, b). ins a b) entries d = Inr d'"
    and "distinct (map fst entries)" and "\<And>a b. (a, b) \<in> set entries \<Longrightarrow> key_ok a \<and> val_ok b"
    and "(a, b) \<in> set entries"
  shows "check a d' = Inr (Some b)"
  using assms
proof (induction entries arbitrary: d)
  case Nil
  then show ?case by simp
next
  case (Cons e entries)
  obtain x y where e: "e = (x, y)" by (cases e)
  from Cons.prems(1) obtain d1 where d1: "ins x y d = Inr d1"
    and rest: "fold_res (\<lambda>(a, b). ins a b) entries d1 = Inr d'" by (auto simp: e)
  show ?case
  proof (cases "(a, b) \<in> set entries")
    case True
    from Cons.prems(2) have "distinct (map fst entries)" by simp
    then show ?thesis
      by (rule Cons.IH [OF rest _ _ True]) (use Cons.prems(3) in auto)
  next
    case False
    with Cons.prems(4) have ab: "a = x" "b = y" by (auto simp: e)
    have "check a d' = check a d1"
    proof (rule fold_res_invariant [OF rest, where P = "\<lambda>d. check a d = check a d1"])
      fix p s t assume p: "p \<in> set entries" and s: "check a s = check a d1"
        and t: "(case p of (a, b) \<Rightarrow> ins a b) s = Inr t"
      obtain x' y' where p': "p = (x', y')" by (cases p)
      have "a \<noteq> x'" using Cons.prems(2) p by (force simp: e ab p')
      moreover have "key_ok x'" "key_ok a"
        using Cons.prems(3) [of x' y'] Cons.prems(3) [OF Cons.prems(4)] p p' by simp_all
      ultimately show "check a t = check a d1"
        using check_other [of x' y' s t a] t s by (simp add: p')
    qed simp
    also have "check a d1 = Inr (Some b)"
      using check_same [OF d1] Cons.prems(3,4) ab by blast
    finally show ?thesis .
  qed
qed

lemma check_untouched:
  assumes "fold_res (\<lambda>(a, b). ins a b) entries d = Inr d'"
    and "\<And>a b. (a, b) \<in> set entries \<Longrightarrow> key_ok a" and "key_ok c" and "c \<notin> fst ` set entries"
  shows "check c d' = check c d"
proof (rule fold_res_invariant [OF assms(1), where P = "\<lambda>x. check c x = check c d"])
  fix p s t assume p: "p \<in> set entries" and s: "check c s = check c d"
    and t: "(case p of (a, b) \<Rightarrow> ins a b) s = Inr t"
  obtain a b where ab: "p = (a, b)" by (cases p)
  with p assms(4) have "c \<noteq> a" by force
  with check_other [of a b s t c] t assms(2) [of a b] assms(3) p s show "check c t = check c d"
    by (simp add: ab)
qed simp

end

text \<open>Keys are object hashes, with or without an output tag; a value is a hash of full length.\<close>

definition cache_key_ok :: "string \<Rightarrow> bool" where
  "cache_key_ok h \<longleftrightarrow> h \<noteq> [] \<and> hd h \<noteq> CHR ''/''"

lemma path_append_inj:
  "cache_key_ok a \<Longrightarrow> cache_key_ok b \<Longrightarrow> path_append p a = path_append p b \<longleftrightarrow> a = b"
  by (auto simp: path_append_def cache_key_ok_def)

lemma reduction_inj:
  "cache_key_ok a \<Longrightarrow> cache_key_ok b \<Longrightarrow> reduction gg_dir a = reduction gg_dir b \<longleftrightarrow> a = b"
  by (simp add: reduction_def path_append_inj)

lemma blob_inj: "cache_key_ok a \<Longrightarrow> cache_key_ok b \<Longrightarrow> blob gg_dir a = blob gg_dir b \<longleftrightarrow> a = b"
  by (simp add: blob_def path_append_inj)

lemma cache_insert_disk:
  "cache_insert k gg_dir a b d = Inr d' \<Longrightarrow> d' = d(reduction gg_dir a \<mapsto> Regular b (final_mode None))"
  by (simp add: cache_insert_def atomic_create_Inr)

interpretation rc: reduction_cache "cache_check gg_dir" "cache_insert k gg_dir" cache_key_ok
    "\<lambda>h. length h = hash_length"
  by unfold_locales
    (auto dest!: cache_insert_disk simp: cache_check_def read_prefix_def reduction_inj)

text \<open>After the reductions of a thunk's outputs have been written to the cache, each of them is
  found there, and what the cache said of any other thunk is what it said before.\<close>

lemma cache_roundtrip:
  assumes "fold_res (\<lambda>(a, b). cache_insert k gg_dir a b) entries d = Inr d'"
    and "distinct (map fst entries)"
    and "\<forall>(a, b) \<in> set entries. cache_key_ok a \<and> length b = hash_length"
    and "cache_key_ok c"
  shows "cache_check gg_dir c d' =
    (case map_of entries c of Some b \<Rightarrow> Inr (Some b) | None \<Rightarrow> cache_check gg_dir c d)"
proof (cases "map_of entries c")
  case None
  then have "c \<notin> fst ` set entries" by (simp add: map_of_eq_None_iff)
  with None show ?thesis
    using rc.check_untouched [OF assms(1) _ assms(4)] assms(3) by fastforce
next
  case (Some b)
  then have "(c, b) \<in> set entries" by (rule map_of_SomeD)
  with Some show ?thesis
    using rc.check_inserted [OF assms(1,2)] assms(3) by fastforce
qed

lemma cache_roundtrip_witness:
  "\<exists>d'. fold_res (\<lambda>(a, b). cache_insert
          \<lparr>mkstemp_suffix = \<lambda>d dst. ''x'', write_accepts = \<lambda>s. length s\<rparr> ''/g'' a b)
        [(''T1'', replicate 52 CHR ''V''), (''T1#o'', replicate 52 CHR ''W'')] Map.empty = Inr d' \<and>
     cache_check ''/g'' ''T1#o'' d' = Inr (Some (replicate 52 CHR ''W''))"
proof -
  let ?k = "\<lparr>mkstemp_suffix = \<lambda>d dst. ''x'', write_accepts = \<lambda>s. length s\<rparr>"
  let ?es = "[(''T1'', replicate 52 CHR ''V''), (''T1#o'', replicate 52 CHR ''W'')]"
  let ?d1 = "Map.empty(reduction ''/g'' ''T1'' \<mapsto> Regular (replicate 52 CHR ''V'') (final_mode None))"
  have 1: "cache_insert ?k ''/g'' ''T1'' (replicate 52 CHR ''V'') Map.empty = Inr ?d1"
    unfolding cache_insert_def
    by (rule atomic_create_good) (simp_all add: good_kernel_def)
  have 2: "\<exists>d'. cache_insert ?k ''/g'' ''T1#o'' (replicate 52 CHR ''W'') ?d1 = Inr d'"
    unfolding cache_insert_def
    by (subst atomic_create_effect)
      (simp_all add: reduction_def reductions_def path_append_def temp_name_def)
  from 1 2 obtain d' where
    run: "fold_res (\<lambda>(a, b). cache_insert ?k ''/g'' a b) ?es Map.empty = Inr d'"
    by auto
  have "cache_check ''/g'' ''T1#o'' d' =
      (case map_of ?es ''T1#o'' of Some b \<Rightarrow> Inr (Some b) | None \<Rightarrow> cache_check ''/g'' ''T1#o'' Map.empty)"
    by (rule cache_roundtrip [OF run]) (simp_all add: cache_key_ok_def hash_length_def)
  then show ?thesis using run by auto
qed

end
