(* ===== verification/Containers.thy ===== *)
theory Containers
  imports Prelude "HOL-Library.Multiset"
begin

text \<open>
  The standard containers whose iteration order the code observes.
  \<^item> \<open>std::multimap\<close> is a list of pairs sorted by key; an insertion goes to the end of the run of
    equal keys, as C++11 promises.
  \<^item> \<open>std::unordered_set\<close> is a list without duplicates. The order C++ leaves open is the order of
    the list, so a statement about every such list covers every order.
  The locale \<open>multimap_ops\<close> is the contract a client of a multimap relies on.
\<close>

section \<open>Multimaps\<close>

fun mm_insert :: "'k::linorder \<Rightarrow> 'v \<Rightarrow> ('k \<times> 'v) list \<Rightarrow> ('k \<times> 'v) list" where
  "mm_insert k v [] = [(k, v)]"
| "mm_insert k v ((a, b) # xs) =
     (if k < a then (k, v) # (a, b) # xs else (a, b) # mm_insert k v xs)"

definition mm_build :: "('k::linorder \<times> 'v) list \<Rightarrow> ('k \<times> 'v) list" where
  "mm_build items = fold (\<lambda>(k, v). mm_insert k v) items []"

definition mm_equal_range :: "'k \<Rightarrow> ('k \<times> 'v) list \<Rightarrow> 'v list" where
  "mm_equal_range k xs = map snd (filter (\<lambda>p. fst p = k) xs)"

definition mm_erase :: "'k \<Rightarrow> ('k \<times> 'v) list \<Rightarrow> ('k \<times> 'v) list" where
  "mm_erase k xs = filter (\<lambda>p. fst p \<noteq> k) xs"

abbreviation mm_sorted :: "('k::linorder \<times> 'v) list \<Rightarrow> bool" where
  "mm_sorted xs \<equiv> sorted (map fst xs)"

lemma mset_mm_insert [simp]: "mset (mm_insert k v xs) = add_mset (k, v) (mset xs)"
  by (induction xs) auto

lemma set_mm_insert [simp]: "set (mm_insert k v xs) = insert (k, v) (set xs)"
  by (metis mset_mm_insert set_mset_add_mset_insert set_mset_mset)

lemma length_mm_insert [simp]: "length (mm_insert k v xs) = Suc (length xs)"
  by (induction xs) auto

lemma mm_sorted_insert [simp]: "mm_sorted xs \<Longrightarrow> mm_sorted (mm_insert k v xs)"
proof (induction xs)
  case (Cons p xs)
  then show ?case by (cases p) (auto simp: not_less)
qed simp

lemma mm_sorted_erase [simp]: "mm_sorted xs \<Longrightarrow> mm_sorted (mm_erase k xs)"
  by (simp add: mm_erase_def sorted_filter)

lemma set_mm_erase: "set (mm_erase k xs) = {p \<in> set xs. fst p \<noteq> k}"
  by (auto simp: mm_erase_def)

lemma mset_erase_range:
  "mset (mm_erase k xs) + image_mset (Pair k) (mset (mm_equal_range k xs)) = mset xs"
proof (induction xs)
  case (Cons p xs)
  then show ?case by (cases p) (auto simp: mm_erase_def mm_equal_range_def)
qed (simp add: mm_erase_def mm_equal_range_def)

lemma mm_erase_absent: "k \<notin> fst ` set xs \<Longrightarrow> mm_erase k xs = xs"
  by (auto simp: mm_erase_def filter_id_conv)

lemma mm_equal_range_absent: "k \<notin> fst ` set xs \<Longrightarrow> mm_equal_range k xs = []"
  by (auto simp: mm_equal_range_def filter_empty_conv)

text \<open>An item not smaller than the stored keys goes to the end; rebuilding a multimap from its own
  iteration gives it back.\<close>

lemma mm_insert_last: "(\<And>p. p \<in> set xs \<Longrightarrow> fst p \<le> k) \<Longrightarrow> mm_insert k v xs = xs @ [(k, v)]"
proof (induction xs)
  case (Cons p xs)
  then have "\<not> k < fst p" by (simp add: not_less)
  with Cons show ?case by (cases p) auto
qed simp

lemma fold_mm_insert_sorted:
  assumes "mm_sorted (ys @ xs)"
  shows "fold (\<lambda>(k, v). mm_insert k v) xs ys = ys @ xs"
  using assms
proof (induction xs arbitrary: ys)
  case Nil
  then show ?case by simp
next
  case (Cons p xs)
  obtain k v where p: "p = (k, v)" by (cases p)
  from Cons.prems have "mm_insert k v ys = ys @ [(k, v)]"
    by (intro mm_insert_last) (auto simp: p sorted_append)
  moreover from Cons.prems have "fold (\<lambda>(k, v). mm_insert k v) xs (ys @ [(k, v)]) = (ys @ [(k, v)]) @ xs"
    by (intro Cons.IH) (simp add: p)
  ultimately show ?case by (simp add: p)
qed

lemma mm_build_sorted [simp]: "mm_sorted xs \<Longrightarrow> mm_build xs = xs"
  using fold_mm_insert_sorted [of "[]" xs] by (simp add: mm_build_def)

lemma fold_mm_insert_keeps:
  "mm_sorted ys \<Longrightarrow> mm_sorted (fold (\<lambda>(k, v). mm_insert k v) xs ys)"
  "mset (fold (\<lambda>(k, v). mm_insert k v) xs ys) = mset xs + mset ys"
  by (induction xs arbitrary: ys) auto

lemma mm_sorted_build [simp]: "mm_sorted (mm_build xs)"
  by (simp add: mm_build_def fold_mm_insert_keeps)

lemma mset_mm_build [simp]: "mset (mm_build xs) = mset xs"
  by (simp add: mm_build_def fold_mm_insert_keeps)

lemma set_mm_build [simp]: "set (mm_build xs) = set xs"
  by (metis mset_mm_build set_mset_mset)

lemma mm_build_Nil [simp]: "mm_build xs = [] \<longleftrightarrow> xs = []"
  by (metis mset_mm_build mset_zero_iff)

text \<open>The contract: what a client sees of a multimap is the multiset of its entries.\<close>

locale multimap_ops =
  fixes ins :: "'k \<Rightarrow> 'v \<Rightarrow> 'm \<Rightarrow> 'm"
    and erase_key :: "'k \<Rightarrow> 'm \<Rightarrow> 'm"
    and range_of :: "'k \<Rightarrow> 'm \<Rightarrow> 'v list"
    and entries :: "'m \<Rightarrow> ('k \<times> 'v) multiset"
    and inv :: "'m \<Rightarrow> bool"
  assumes entries_ins: "entries (ins k v m) = add_mset (k, v) (entries m)"
    and entries_erase: "entries (erase_key k m) + mset (map (Pair k) (range_of k m)) = entries m"
    and erase_no_key: "(k, v) \<notin># entries (erase_key k m)"
    and inv_ins: "inv m \<Longrightarrow> inv (ins k v m)"
    and inv_erase: "inv m \<Longrightarrow> inv (erase_key k m)"
begin

lemma inv_fold_ins: "inv m \<Longrightarrow> inv (fold (ins k) vs m)"
  by (induction vs arbitrary: m) (auto intro: inv_ins)

lemma entries_fold_ins: "entries (fold (ins k) vs m) = mset (map (Pair k) vs) + entries m"
  by (induction vs arbitrary: m) (auto simp: entries_ins)

text \<open>Moving the run of one key elsewhere keeps the number of entries.\<close>

lemma size_move:
  "size (entries (erase_key k m)) + size (entries (fold (ins k') (range_of k m) m')) =
     size (entries m) + size (entries m')"
proof -
  have "size (entries m) = size (entries (erase_key k m)) + length (range_of k m)"
    by (subst entries_erase [of k m, symmetric]) simp
  then show ?thesis by (simp add: entries_fold_ins)
qed

text \<open>Renaming a key inside one multimap: the run of \<open>k\<close> is added to the run of \<open>k'\<close>.\<close>

lemma entries_rename:
  "entries (fold (ins k') (range_of k m) (erase_key k m)) =
     mset (map (Pair k') (range_of k m)) + entries (erase_key k m)"
  by (rule entries_fold_ins)

lemma inv_rename: "inv m \<Longrightarrow> inv (fold (ins k') vs (erase_key k m))"
  by (intro inv_fold_ins inv_erase)

end

interpretation mm: multimap_ops mm_insert mm_erase mm_equal_range mset
    "\<lambda>m :: ('k::linorder \<times> 'v) list. mm_sorted m"
  by unfold_locales (auto simp: mset_erase_range set_mm_erase)

section \<open>Unordered sets\<close>

definition uset_insert :: "'a \<Rightarrow> 'a list \<Rightarrow> 'a list" where
  "uset_insert x xs = (if x \<in> set xs then xs else xs @ [x])"

definition uset_insert_all :: "'a list \<Rightarrow> 'a list \<Rightarrow> 'a list" where
  "uset_insert_all ys xs = fold uset_insert ys xs"

lemma set_uset_insert [simp]: "set (uset_insert x xs) = insert x (set xs)"
  by (auto simp: uset_insert_def)

lemma distinct_uset_insert [simp]: "distinct xs \<Longrightarrow> distinct (uset_insert x xs)"
  by (simp add: uset_insert_def)

lemma set_uset_insert_all [simp]: "set (uset_insert_all ys xs) = set ys \<union> set xs"
  unfolding uset_insert_all_def by (induction ys arbitrary: xs) auto

lemma distinct_uset_insert_all [simp]: "distinct xs \<Longrightarrow> distinct (uset_insert_all ys xs)"
  unfolding uset_insert_all_def by (induction ys arbitrary: xs) auto

end
