(* ===== verification/ThunkData.thy ===== *)
theory ThunkData
  imports GGUtils Containers
begin

text \<open>
  The thunk (\<open>src/thunk/thunk.hh\<close>, \<open>thunk.cc\<close>, \<open>function.cc\<close>): its constructors, its protobuf form,
  the update that replaces a dependency by its result, the preparation of an execution. The three
  \<open>DataList\<close>s are multimaps (Containers). The protobuf messages are records; their bytes are the
  protobuf library's and come in as a parameter where a hash is computed.
\<close>

section \<open>Functions\<close>

record func =
  fn_hash :: string
  fn_args :: "string list"
  fn_envars :: "string list"

record pb_function =
  pbf_hash :: string
  pbf_args :: "string list"
  pbf_envars :: "string list"

definition function_from_protobuf :: "pb_function \<Rightarrow> func" where
  "function_from_protobuf p = \<lparr>fn_hash = pbf_hash p, fn_args = pbf_args p, fn_envars = pbf_envars p\<rparr>"

definition function_to_protobuf :: "func \<Rightarrow> pb_function" where
  "function_to_protobuf f = \<lparr>pbf_hash = fn_hash f, pbf_args = fn_args f, pbf_envars = fn_envars f\<rparr>"

definition function_eq :: "func \<Rightarrow> func \<Rightarrow> bool" where
  "function_eq a b \<longleftrightarrow> fn_hash a = fn_hash b \<and> fn_args a = fn_args b \<and> fn_envars a = fn_envars b"

section \<open>Thunks\<close>

type_synonym data_item = "string \<times> string"

type_synonym data_list = "data_item list"

record thunk =
  th_function :: func
  th_values :: data_list
  th_thunks :: data_list
  th_executables :: data_list
  th_outputs :: "string list"
  th_links :: "(string \<times> string) list"
  th_timeout :: int
  th_hash :: "string option"

record thunk_output =
  out_hash :: string
  out_tag :: string

record pb_thunk =
  pb_func :: pb_function
  pb_values :: "string list"
  pb_thunks :: "string list"
  pb_executables :: "string list"
  pb_outputs :: "string list"
  pb_links :: "(string \<times> string) list"
  pb_timeout :: "32 word"

abbreviation DATA_PLACEHOLDER_START :: string where
  "DATA_PLACEHOLDER_START \<equiv> CHR ''@'' # ''{GGHASH:''"

abbreviation DATA_PLACEHOLDER_END :: string where
  "DATA_PLACEHOLDER_END \<equiv> ''}''"

definition data_placeholder :: "string \<Rightarrow> string" where
  "data_placeholder h = DATA_PLACEHOLDER_START @ h @ DATA_PLACEHOLDER_END"

definition data_to_string :: "data_item \<Rightarrow> string" where
  "data_to_string item =
     (if length (snd item) > 0 then fst item @ ''='' @ snd item else fst item)"

definition string_to_data :: "string \<Rightarrow> data_item" where
  "string_to_data str =
     (case str_find str ''='' 0 of
        None \<Rightarrow> (str, [])
      | Some eqpos \<Rightarrow> (take eqpos str, drop (eqpos + 1) str))"

definition throw_if_error :: "thunk \<Rightarrow> unit res" where
  "throw_if_error t =
     (if length (th_outputs t) = 0 then Inl (Runtime_error ''a thunk needs at least one output'')
      else if length (th_executables t) = 0
           then Inl (Runtime_error ''a thunk needs at least one executable'')
      else if length (fn_args (th_function t)) = 0
           then Inl (Runtime_error ''a thunk needs at least one argument (argv0)'')
      else Inr ())"

definition checked :: "thunk \<Rightarrow> thunk res" where
  "checked t = bind_res (throw_if_error t) (\<lambda>_. Inr t)"

definition add_datum :: "data_item \<Rightarrow> data_list \<times> data_list \<Rightarrow> (data_list \<times> data_list) res" where
  "add_datum item acc =
     bind_res (hash_type (fst item)) (\<lambda>ty.
       case ty of
         Value \<Rightarrow> Inr (mm_insert (fst item) (snd item) (fst acc), snd acc)
       | Thunk \<Rightarrow> Inr (fst acc, mm_insert (fst item) (snd item) (snd acc)))"

text \<open>The constructors that sort the data by the type of their hashes.\<close>

definition thunk_of_data ::
  "func \<Rightarrow> data_item list \<Rightarrow> data_item list \<Rightarrow> string list \<Rightarrow> thunk res" where
  "thunk_of_data f data executables outputs =
     bind_res (fold_res add_datum data ([], [])) (\<lambda>(vs, ts).
       checked \<lparr>th_function = f, th_values = vs, th_thunks = ts,
         th_executables = mm_build executables, th_outputs = outputs, th_links = [],
         th_timeout = 0, th_hash = None\<rparr>)"

text \<open>The constructors that are told which data are values and which are thunks.\<close>

definition thunk_of_lists ::
  "func \<Rightarrow> data_item list \<Rightarrow> data_item list \<Rightarrow> data_item list \<Rightarrow> string list \<Rightarrow> thunk res" where
  "thunk_of_lists f values thunks executables outputs =
     checked \<lparr>th_function = f, th_values = mm_build values, th_thunks = mm_build thunks,
       th_executables = mm_build executables, th_outputs = outputs, th_links = [],
       th_timeout = 0, th_hash = None\<rparr>"

definition thunk_from_protobuf :: "pb_thunk \<Rightarrow> thunk res" where
  "thunk_from_protobuf p =
     checked \<lparr>th_function = function_from_protobuf (pb_func p),
       th_values = mm_build (map string_to_data (pb_values p)),
       th_thunks = mm_build (map string_to_data (pb_thunks p)),
       th_executables = mm_build (map string_to_data (pb_executables p)),
       th_outputs = pb_outputs p, th_links = pb_links p,
       th_timeout = uint (pb_timeout p), th_hash = None\<rparr>"

definition thunk_to_protobuf :: "thunk \<Rightarrow> pb_thunk" where
  "thunk_to_protobuf t =
     \<lparr>pb_func = function_to_protobuf (th_function t),
      pb_values = map data_to_string (th_values t),
      pb_thunks = map data_to_string (th_thunks t),
      pb_executables = map data_to_string (th_executables t),
      pb_outputs = th_outputs t, pb_links = th_links t,
      pb_timeout = of_int (th_timeout t)\<rparr>"

definition thunk_eq :: "thunk \<Rightarrow> thunk \<Rightarrow> bool" where
  "thunk_eq a b \<longleftrightarrow>
     function_eq (th_function a) (th_function b) \<and> th_values a = th_values b \<and>
     th_thunks a = th_thunks b \<and> th_executables a = th_executables b \<and>
     th_outputs a = th_outputs b \<and> th_timeout a = th_timeout b"

definition set_timeout :: "int \<Rightarrow> thunk \<Rightarrow> thunk" where
  "set_timeout timeout t = t\<lparr>th_hash := None, th_timeout := timeout\<rparr>"

definition add_link :: "string \<Rightarrow> string \<Rightarrow> thunk \<Rightarrow> thunk" where
  "add_link name h t = t\<lparr>th_hash := None, th_links := th_links t @ [(name, h)]\<rparr>"

definition set_hash :: "string \<Rightarrow> thunk \<Rightarrow> thunk" where
  "set_hash h t = t\<lparr>th_hash := Some h\<rparr>"

definition can_be_executed :: "thunk \<Rightarrow> bool" where
  "can_be_executed t \<longleftrightarrow> length (th_thunks t) = 0"

text \<open>\<open>ThunkWriter::serialize\<close>; \<open>encode\<close> is protobuf's \<open>AppendToString\<close>, \<open>None\<close> when it fails. The
  hash is computed once and then kept in the object.\<close>

definition serialize :: "(pb_thunk \<Rightarrow> string option) \<Rightarrow> thunk \<Rightarrow> string res" where
  "serialize encode t =
     (case encode (thunk_to_protobuf t) of
        None \<Rightarrow> Inl (Runtime_error ''could not serialize thunk'')
      | Some bytes \<Rightarrow> Inr (MAGIC_NUMBER @ bytes))"

definition thunk_hash ::
  "(string \<Rightarrow> string) \<Rightarrow> (pb_thunk \<Rightarrow> string option) \<Rightarrow> thunk \<Rightarrow> (string \<times> thunk) res" where
  "thunk_hash sha256 encode t =
     (case th_hash t of
        Some h \<Rightarrow> Inr (h, t)
      | None \<Rightarrow>
          bind_res (serialize encode t) (\<lambda>s.
            let h = hash_compute sha256 s Thunk in Inr (h, set_hash h t)))"

definition output_hash ::
  "(string \<Rightarrow> string) \<Rightarrow> (pb_thunk \<Rightarrow> string option) \<Rightarrow> string \<Rightarrow> thunk \<Rightarrow> (string \<times> thunk) res" where
  "output_hash sha256 encode tag t =
     bind_res (thunk_hash sha256 encode t) (\<lambda>(h, t'). Inr (for_output h tag, t'))"

definition executable_hash :: "(string \<Rightarrow> string) \<Rightarrow> thunk \<Rightarrow> string" where
  "executable_hash sha256 t = sha256 (foldl (\<lambda>a b. a @ fst b) [] (th_executables t))"

section \<open>update_data\<close>

text \<open>The loop that rewrites a string. It only ends for a non-empty \<open>src\<close>; a placeholder never is
  empty, so the guard is for the termination proof alone.\<close>

function update_placeholder :: "string \<Rightarrow> string \<Rightarrow> string \<Rightarrow> nat \<Rightarrow> string" where
  "update_placeholder str src dst index =
     (if src = [] then str
      else case str_find str src index of
             None \<Rightarrow> str
           | Some i \<Rightarrow>
               update_placeholder (take i str @ dst @ drop (i + length src) str) src dst
                 (i + length dst))"
  by pat_completeness auto
termination
proof (relation "measure (\<lambda>(str, _, _, index). length str - index)", simp, goal_cases)
  case (1 str src dst index i)
  from 1(1) have "0 < length src" by simp
  with str_find_Some(1,2) [OF 1(2)] show ?case by (simp add: min_def del: length_greater_0_conv)
qed

declare update_placeholder.simps [simp del]

definition update_string :: "string \<Rightarrow> string \<Rightarrow> string \<Rightarrow> string" where
  "update_string src dst str = update_placeholder str src dst 0"

definition insert_renamed :: "string \<Rightarrow> string \<Rightarrow> thunk \<Rightarrow> thunk res" where
  "insert_renamed new_hash old_name t =
     bind_res (hash_type new_hash) (\<lambda>ty.
       case ty of
         Thunk \<Rightarrow> Inr (t\<lparr>th_thunks := mm_insert new_hash old_name (th_thunks t)\<rparr>)
       | Value \<Rightarrow> Inr (t\<lparr>th_values := mm_insert new_hash old_name (th_values t)\<rparr>))"

definition old_hash_of :: "string \<Rightarrow> bool \<Rightarrow> thunk_output \<Rightarrow> string" where
  "old_hash_of original_hash first_output output =
     (if first_output then original_hash else for_output original_hash (out_tag output))"

definition new_hash_of :: "bool \<Rightarrow> thunk_output \<Rightarrow> string res" where
  "new_hash_of first_output output =
     (if first_output then Inr (out_hash output)
      else bind_res (hash_type (out_hash output)) (\<lambda>ty.
        Inr (if ty = Value then out_hash output else for_output (out_hash output) (out_tag output))))"

definition update_function :: "string \<Rightarrow> string \<Rightarrow> func \<Rightarrow> func" where
  "update_function srcstr dststr f =
     f\<lparr>fn_args := map (update_string srcstr dststr) (fn_args f),
       fn_envars := map (update_string srcstr dststr) (fn_envars f)\<rparr>"

text \<open>One round of the loop over the outputs.\<close>

definition update_output :: "string \<Rightarrow> bool \<Rightarrow> thunk_output \<Rightarrow> thunk \<Rightarrow> thunk res" where
  "update_output original_hash first_output output t =
     (let old_hash = old_hash_of original_hash first_output output
      in bind_res (new_hash_of first_output output) (\<lambda>new_hash.
         let old_names = mm_equal_range old_hash (th_thunks t);
             t1 = t\<lparr>th_thunks := mm_erase old_hash (th_thunks t)\<rparr>
         in bind_res (fold_res (insert_renamed new_hash) old_names t1) (\<lambda>t2.
            Inr (t2\<lparr>th_function := update_function (data_placeholder old_hash)
                     (data_placeholder new_hash) (th_function t2)\<rparr>))))"

fun update_outputs :: "string \<Rightarrow> bool \<Rightarrow> thunk_output list \<Rightarrow> thunk \<Rightarrow> thunk res" where
  "update_outputs original_hash first_output [] t = Inr t"
| "update_outputs original_hash first_output (output # outputs) t =
     bind_res (update_output original_hash first_output output t)
       (update_outputs original_hash False outputs)"

definition update_data :: "string \<Rightarrow> thunk_output list \<Rightarrow> thunk \<Rightarrow> thunk res" where
  "update_data original_hash outputs t =
     update_outputs original_hash True outputs (t\<lparr>th_hash := None\<rparr>)"

section \<open>Execution\<close>

record permissions =
  perm_read :: bool
  perm_write :: bool
  perm_execute :: bool

definition perms :: "bool \<Rightarrow> bool \<Rightarrow> bool \<Rightarrow> permissions" where
  "perms r w x = \<lparr>perm_read = r, perm_write = w, perm_execute = x\<rparr>"

definition get_allowed_files ::
  "(string \<Rightarrow> string) \<Rightarrow> (pb_thunk \<Rightarrow> string option) \<Rightarrow> string \<Rightarrow> thunk \<Rightarrow> (string \<rightharpoonup> permissions) res" where
  "get_allowed_files sha256 encode gg_dir t =
     (let m1 = fold (\<lambda>item m. m(blob gg_dir (fst item) \<mapsto> perms True False False)) (th_values t) Map.empty;
          m2 = fold (\<lambda>item m. m(blob gg_dir (fst item) \<mapsto> perms True False True)) (th_executables t) m1;
          m3 = m2(blobs gg_dir \<mapsto> perms True False False)
      in bind_res (thunk_hash sha256 encode t) (\<lambda>(h, _).
         let m4 = m3(blob gg_dir h \<mapsto> perms True False False)
         in Inr (fold (\<lambda>output m. m(output \<mapsto> perms True True False)) (th_outputs t) m4)))"

definition add_size :: "data_item \<Rightarrow> 64 word \<Rightarrow> 64 word res" where
  "add_size item total_size = bind_res (hash_size (fst item)) (\<lambda>s. Inr (total_size + ucast s))"

definition infiles_size :: "bool \<Rightarrow> thunk \<Rightarrow> 64 word res" where
  "infiles_size include_executables t =
     bind_res (fold_res add_size (th_values t) 0) (\<lambda>total_size.
       if include_executables then fold_res add_size (th_executables t) total_size
       else Inr total_size)"

definition matches_filesystem ::
  "(string \<Rightarrow> string) \<Rightarrow> kernel \<Rightarrow> (string \<Rightarrow> file_stat) \<Rightarrow> string \<Rightarrow> data_item \<Rightarrow> disk \<Rightarrow>
     (bool \<times> disk) res" where
  "matches_filesystem sha256 k stat_of gg_dir item d =
     (if length (snd item) = 0 then Inr (False, d)
      else if \<not> path_exists (snd item) d then Inr (False, d)
      else bind_res (hash_size (fst item)) (\<lambda>sz.
           bind_res (file_size (snd item) d) (\<lambda>fsz.
             if unat sz \<noteq> fsz then Inr (False, d)
             else bind_res (hash_type (fst item)) (\<lambda>ty.
                  bind_res (hash_file sha256 k stat_of gg_dir (snd item) (Some ty) d) (\<lambda>(h, d').
                    Inr (fst item = h, d'))))))"

text \<open>The regular expression \<open>@\{GGHASH:([a-zA-Z0-9_.]+)(?:#([^/]+))?\}\<close> at the front of a string:
  the captured hash and what is left after the match. The tag is greedy, so it runs to the last
  brace before a slash.\<close>

definition hash_char :: "char \<Rightarrow> bool" where
  "hash_char c = (let n = of_char c :: nat
     in 97 \<le> n \<and> n \<le> 122 \<or> 65 \<le> n \<and> n \<le> 90 \<or> 48 \<le> n \<and> n \<le> 57 \<or> c = CHR ''_'' \<or> c = CHR ''.'')"

definition match_placeholder :: "string \<Rightarrow> (string \<times> string) option" where
  "match_placeholder s =
     (if \<not> starts_with DATA_PLACEHOLDER_START s then None
      else let r = drop 9 s; h = takeWhile hash_char r; q = dropWhile hash_char r
           in if h = [] then None
              else case q of
                     [] \<Rightarrow> None
                   | c # q' \<Rightarrow>
                       (if c = CHR ''}'' then Some (h, q')
                        else if c = CHR ''#'' then
                          (case rfind_char CHR ''}'' (takeWhile (\<lambda>c. c \<noteq> CHR ''/'') q') of
                             None \<Rightarrow> None
                           | Some i \<Rightarrow> if i = 0 then None else Some (h, drop (Suc i) q'))
                        else None))"

lemma match_placeholder_shorter:
  "match_placeholder s = Some (h, rest) \<Longrightarrow> length rest < length s"
proof -
  assume m: "match_placeholder s = Some (h, rest)"
  define q where "q = dropWhile hash_char (drop 9 s)"
  from m have "length rest < length q"
    unfolding match_placeholder_def Let_def q_def [symmetric]
    by (auto split: if_splits list.splits option.splits)
  moreover have "length q \<le> length s"
    using length_dropWhile_le [of hash_char "drop 9 s"] by (simp add: q_def)
  ultimately show ?thesis by simp
qed

text \<open>\<open>regex_replace\<close> with the path of the blob.\<close>

function replace_data_placeholder :: "string \<Rightarrow> string \<Rightarrow> string" where
  "replace_data_placeholder gg_dir [] = []"
| "replace_data_placeholder gg_dir (c # cs) =
     (case match_placeholder (c # cs) of
        Some (h, rest) \<Rightarrow> blob gg_dir h @ replace_data_placeholder gg_dir rest
      | None \<Rightarrow> c # replace_data_placeholder gg_dir cs)"
  by pat_completeness auto
termination
  by (relation "measure (\<lambda>(_, s). length s)") (auto dest: match_placeholder_shorter)

record exec_call =
  exec_path :: string
  exec_args :: "string list"
  exec_envars :: "string list"

text \<open>What \<open>Thunk::execute\<close> hands to \<open>ezexec\<close>.\<close>

definition execute_call ::
  "(string \<Rightarrow> string) \<Rightarrow> (pb_thunk \<Rightarrow> string option) \<Rightarrow> string \<Rightarrow> bool \<Rightarrow> thunk \<Rightarrow> exec_call res" where
  "execute_call sha256 encode gg_dir verbose t =
     (if length (th_thunks t) \<noteq> 0
      then Inl (Runtime_error ''cannot execute thunk with unresolved dependencies'')
      else bind_res (thunk_hash sha256 encode t) (\<lambda>(h, _).
        Inr \<lparr>exec_path = blob gg_dir (fn_hash (th_function t)),
          exec_args = map (replace_data_placeholder gg_dir) (fn_args (th_function t)),
          exec_envars = map (replace_data_placeholder gg_dir) (fn_envars (th_function t)) @
            [''__GG_THUNK_PATH__='' @ blob gg_dir h, ''__GG_DIR__='' @ blobs gg_dir,
             ''__GG_ENABLED__=1''] @ (if verbose then [''__GG_VERBOSE__=1''] else [])\<rparr>))"

record request_item =
  req_hash :: string
  req_data :: string
  req_outputs :: "string list"

record execution_request =
  req_thunks :: "request_item list"
  req_storage_backend :: string
  req_timelog :: bool

definition execution_request_of ::
  "(string \<Rightarrow> string) \<Rightarrow> (pb_thunk \<Rightarrow> string option) \<Rightarrow> (string \<Rightarrow> string) \<Rightarrow> thunk \<Rightarrow> request_item res" where
  "execution_request_of sha256 encode base64 t =
     bind_res (serialize encode t) (\<lambda>s.
     bind_res (thunk_hash sha256 encode t) (\<lambda>(h, _).
       Inr \<lparr>req_hash = h, req_data = base64 s, req_outputs = th_outputs t\<rparr>))"

definition storage_backend_uri :: "(string \<rightharpoonup> string) \<Rightarrow> string res" where
  "storage_backend_uri environ =
     bind_res (safe_getenv environ ''GG_STORAGE_URI'') (\<lambda>uri.
       if length uri = 0 then Inl (Runtime_error ''GG_STORAGE_URI environment variable not set'')
       else Inr uri)"

text \<open>\<open>to_json\<close> is the protobuf library's JSON printer, \<open>None\<close> when it fails.\<close>

definition execution_payload ::
  "(string \<Rightarrow> string) \<Rightarrow> (pb_thunk \<Rightarrow> string option) \<Rightarrow> (string \<Rightarrow> string) \<Rightarrow>
     (execution_request \<Rightarrow> string option) \<Rightarrow> (string \<rightharpoonup> string) \<Rightarrow> thunk list \<Rightarrow> string res" where
  "execution_payload sha256 encode base64 to_json environ ts =
     bind_res (map_res (execution_request_of sha256 encode base64) ts) (\<lambda>items.
     bind_res (storage_backend_uri environ) (\<lambda>uri.
       case to_json \<lparr>req_thunks = items, req_storage_backend = uri,
              req_timelog = (environ ''GG_TIMELOG'' \<noteq> None)\<rparr> of
         None \<Rightarrow> Inl (Runtime_error ''cannot convert protobuf to json'')
       | Some json \<Rightarrow> Inr json))"

end
