(* ===== verification/ThunkLaws.thy ===== *)
theory ThunkLaws
  imports ThunkData
begin

text \<open>
  What holds of thunks: every constructor and every operation keeps a thunk well formed, an update
  replaces exactly the dependencies it names, the rewriting of placeholders does what a reader of
  the arguments expects, the protobuf form loses nothing, and the sandbox's table lets a thunk write
  its outputs only.
\<close>

section \<open>Well-formed thunks\<close>

definition thunk_ok :: "thunk \<Rightarrow> bool" where
  "thunk_ok t \<longleftrightarrow>
     mm_sorted (th_values t) \<and> mm_sorted (th_thunks t) \<and> mm_sorted (th_executables t) \<and>
     th_outputs t \<noteq> [] \<and> th_executables t \<noteq> [] \<and> fn_args (th_function t) \<noteq> []"

definition thunk_typed :: "thunk \<Rightarrow> bool" where
  "thunk_typed t \<longleftrightarrow>
     (\<forall>p \<in> set (th_values t). hash_type (fst p) = Inr Value) \<and>
     (\<forall>p \<in> set (th_thunks t). hash_type (fst p) = Inr Thunk)"

definition dependency_count :: "thunk \<Rightarrow> nat" where
  "dependency_count t = length (th_values t) + length (th_thunks t)"

lemma checked_Inr [simp]:
  "checked t = Inr t' \<longleftrightarrow>
     t' = t \<and> th_outputs t \<noteq> [] \<and> th_executables t \<noteq> [] \<and> fn_args (th_function t) \<noteq> []"
  by (auto simp: checked_def throw_if_error_def)

lemma add_datum_Inr:
  "add_datum item (vs, ts) = Inr (vs', ts') \<longleftrightarrow>
     hash_type (fst item) = Inr Value \<and> vs' = mm_insert (fst item) (snd item) vs \<and> ts' = ts \<or>
     hash_type (fst item) = Inr Thunk \<and> vs' = vs \<and> ts' = mm_insert (fst item) (snd item) ts"
  by (auto simp: add_datum_def bind_res_def split: sum.splits object_type.splits)

lemma fold_add_datum:
  assumes "fold_res add_datum data (vs, ts) = Inr (vs', ts')"
    and "mm_sorted vs" and "mm_sorted ts"
    and "\<forall>p \<in> set vs. hash_type (fst p) = Inr Value" and "\<forall>p \<in> set ts. hash_type (fst p) = Inr Thunk"
  shows "mm_sorted vs' \<and> mm_sorted ts' \<and>
    (\<forall>p \<in> set vs'. hash_type (fst p) = Inr Value) \<and> (\<forall>p \<in> set ts'. hash_type (fst p) = Inr Thunk) \<and>
    mset vs' + mset ts' = mset data + (mset vs + mset ts)"
  using assms
proof (induction data arbitrary: vs ts)
  case Nil
  then show ?case by simp
next
  case (Cons item data)
  from Cons.prems(1) obtain vs1 ts1 where 1: "add_datum item (vs, ts) = Inr (vs1, ts1)"
    and rest: "fold_res add_datum data (vs1, ts1) = Inr (vs', ts')" by auto
  from 1 have "mm_sorted vs1" "mm_sorted ts1" "\<forall>p \<in> set vs1. hash_type (fst p) = Inr Value"
    "\<forall>p \<in> set ts1. hash_type (fst p) = Inr Thunk"
    "mset vs1 + mset ts1 = add_mset item (mset vs + mset ts)"
    using Cons.prems by (auto simp: add_datum_Inr)
  from Cons.IH [OF rest this(1-4)] this(5) show ?case by simp
qed

lemma fold_add_datum_total:
  "\<forall>p \<in> set data. \<exists>ty. hash_type (fst p) = Inr ty \<Longrightarrow> \<exists>acc'. fold_res add_datum data acc = Inr acc'"
proof (induction data arbitrary: acc)
  case (Cons item data)
  from Cons.prems obtain ty where "hash_type (fst item) = Inr ty" by auto
  then obtain acc1 where "add_datum item acc = Inr acc1"
    by (cases ty) (auto simp: add_datum_def)
  with Cons show ?case by simp
qed simp

lemma fold_add_datum_typed:
  "fold_res add_datum data acc = Inr acc' \<Longrightarrow> \<forall>p \<in> set data. \<exists>ty. hash_type (fst p) = Inr ty"
  by (induction data arbitrary: acc) (auto simp: add_datum_def)

text \<open>Building a thunk from untyped data sorts every datum into the values or the thunks by the
  type of its hash and loses none; the construction fails exactly when a hash has no valid type or
  when outputs, executables or arguments are missing.\<close>

lemma thunk_of_data_spec:
  "(\<forall>t. thunk_of_data f data executables outputs = Inr t \<longrightarrow>
      thunk_ok t \<and> thunk_typed t \<and> mset (th_values t) + mset (th_thunks t) = mset data \<and>
      mset (th_executables t) = mset executables \<and> th_outputs t = outputs) \<and>
   ((\<exists>t. thunk_of_data f data executables outputs = Inr t) \<longleftrightarrow>
      (\<forall>p \<in> set data. \<exists>ty. hash_type (fst p) = Inr ty) \<and>
      outputs \<noteq> [] \<and> executables \<noteq> [] \<and> fn_args f \<noteq> [])"
proof (intro conjI allI impI)
  fix t assume "thunk_of_data f data executables outputs = Inr t"
  then obtain vs ts where fold: "fold_res add_datum data ([], []) = Inr (vs, ts)"
    and t: "checked \<lparr>th_function = f, th_values = vs, th_thunks = ts,
         th_executables = mm_build executables, th_outputs = outputs, th_links = [],
         th_timeout = 0, th_hash = None\<rparr> = Inr t"
    by (auto simp: thunk_of_data_def)
  from fold_add_datum [OF fold] t
  show "thunk_ok t" "thunk_typed t" "mset (th_values t) + mset (th_thunks t) = mset data"
    "mset (th_executables t) = mset executables" "th_outputs t = outputs"
    by (auto simp: thunk_ok_def thunk_typed_def)
next
  show "(\<exists>t. thunk_of_data f data executables outputs = Inr t) \<longleftrightarrow>
      (\<forall>p \<in> set data. \<exists>ty. hash_type (fst p) = Inr ty) \<and>
      outputs \<noteq> [] \<and> executables \<noteq> [] \<and> fn_args f \<noteq> []"
    using fold_add_datum_total [of data "([], [])"] fold_add_datum_typed [of data "([], [])"]
    by (fastforce simp: thunk_of_data_def)
qed

section \<open>update_data\<close>

lemma insert_renamed_fold_typed:
  "hash_type new_hash = Inr ty \<Longrightarrow>
     fold_res (insert_renamed new_hash) names t =
       Inr (if ty = Thunk then t\<lparr>th_thunks := fold (mm_insert new_hash) names (th_thunks t)\<rparr>
            else t\<lparr>th_values := fold (mm_insert new_hash) names (th_values t)\<rparr>)"
  by (induction names arbitrary: t) (cases ty; simp add: insert_renamed_def)+

lemma insert_renamed_fold:
  assumes "fold_res (insert_renamed new_hash) names t = Inr t'"
  shows "names = [] \<and> t' = t \<or>
     hash_type new_hash = Inr Thunk \<and> t' = t\<lparr>th_thunks := fold (mm_insert new_hash) names (th_thunks t)\<rparr> \<or>
     hash_type new_hash = Inr Value \<and> t' = t\<lparr>th_values := fold (mm_insert new_hash) names (th_values t)\<rparr>"
proof (cases "names = []")
  case True
  with assms show ?thesis by simp
next
  case False
  with assms obtain ty where ty: "hash_type new_hash = Inr ty"
    by (cases names) (auto simp: insert_renamed_def)
  with assms show ?thesis
    by (cases ty) (simp_all add: insert_renamed_fold_typed [OF ty])
qed

text \<open>One round moves the run of the old hash to the new hash, in the thunks or in the values.\<close>

lemma update_output_effect:
  assumes "update_output original_hash first_output output t = Inr t'"
  obtains new_hash names where
    "new_hash_of first_output output = Inr new_hash"
    "names = mm_equal_range (old_hash_of original_hash first_output output) (th_thunks t)"
    "names = [] \<and> th_thunks t' = mm_erase (old_hash_of original_hash first_output output) (th_thunks t) \<and>
        th_values t' = th_values t \<or>
     hash_type new_hash = Inr Thunk \<and> th_values t' = th_values t \<and>
       th_thunks t' = fold (mm_insert new_hash) names
         (mm_erase (old_hash_of original_hash first_output output) (th_thunks t)) \<or>
     hash_type new_hash = Inr Value \<and>
       th_thunks t' = mm_erase (old_hash_of original_hash first_output output) (th_thunks t) \<and>
       th_values t' = fold (mm_insert new_hash) names (th_values t)"
    "th_executables t' = th_executables t" "th_outputs t' = th_outputs t"
    "th_links t' = th_links t" "th_timeout t' = th_timeout t" "th_hash t' = th_hash t"
    "th_function t' = update_function
       (data_placeholder (old_hash_of original_hash first_output output)) (data_placeholder new_hash)
       (th_function t)"
proof -
  from assms obtain new_hash t2 where new: "new_hash_of first_output output = Inr new_hash"
    and t2: "fold_res (insert_renamed new_hash)
       (mm_equal_range (old_hash_of original_hash first_output output) (th_thunks t))
       (t\<lparr>th_thunks := mm_erase (old_hash_of original_hash first_output output) (th_thunks t)\<rparr>) = Inr t2"
    and t': "t' = t2\<lparr>th_function := update_function
       (data_placeholder (old_hash_of original_hash first_output output)) (data_placeholder new_hash)
       (th_function t2)\<rparr>"
    by (auto simp: update_output_def Let_def)
  from insert_renamed_fold [OF t2] show thesis
    by (intro that [OF new refl]) (auto simp: t')
qed

definition same_frame :: "thunk \<Rightarrow> thunk \<Rightarrow> bool" where
  "same_frame t t' \<longleftrightarrow>
     th_executables t' = th_executables t \<and> th_outputs t' = th_outputs t \<and>
     th_links t' = th_links t \<and> th_timeout t' = th_timeout t \<and> th_hash t' = th_hash t \<and>
     fn_hash (th_function t') = fn_hash (th_function t) \<and>
     length (fn_args (th_function t')) = length (fn_args (th_function t)) \<and>
     length (fn_envars (th_function t')) = length (fn_envars (th_function t))"

lemma length_erase_range: "length (mm_erase k m) + length (mm_equal_range k m) = length m"
  using arg_cong [OF mset_erase_range [of k m], of size] by simp

lemma length_fold_mm_insert [simp]: "length (fold (mm_insert k) vs m) = length vs + length m"
  by (induction vs arbitrary: m) simp_all

lemma update_output_keeps:
  assumes "thunk_ok t" and "thunk_typed t"
    and "update_output original_hash first_output output t = Inr t'"
  shows "thunk_ok t' \<and> thunk_typed t' \<and> dependency_count t' = dependency_count t \<and> same_frame t t'"
proof -
  define old where "old = old_hash_of original_hash first_output output"
  from assms(3) obtain new_hash names where
    names: "names = mm_equal_range old (th_thunks t)" and
    cases: "names = [] \<and> th_thunks t' = mm_erase old (th_thunks t) \<and> th_values t' = th_values t \<or>
     hash_type new_hash = Inr Thunk \<and> th_values t' = th_values t \<and>
       th_thunks t' = fold (mm_insert new_hash) names (mm_erase old (th_thunks t)) \<or>
     hash_type new_hash = Inr Value \<and> th_thunks t' = mm_erase old (th_thunks t) \<and>
       th_values t' = fold (mm_insert new_hash) names (th_values t)" and
    frame: "th_executables t' = th_executables t" "th_outputs t' = th_outputs t"
    "th_links t' = th_links t" "th_timeout t' = th_timeout t" "th_hash t' = th_hash t"
    "th_function t' = update_function (data_placeholder old) (data_placeholder new_hash) (th_function t)"
    unfolding old_def by (rule update_output_effect)
  have set_fold: "set (fold (mm_insert k) vs m) = Pair k ` set vs \<union> set m" for k vs and m :: data_list
    by (induction vs arbitrary: m) auto
  have count: "length (mm_erase old (th_thunks t)) + length names = length (th_thunks t)"
    unfolding names by (rule length_erase_range)
  from assms(1) frame cases have ok: "thunk_ok t'"
    by (auto simp: thunk_ok_def update_function_def intro!: mm.inv_fold_ins mm.inv_rename mm_sorted_erase)
  have typed: "thunk_typed t'"
    using cases assms(2) by (auto simp: thunk_typed_def set_fold set_mm_erase)
  from cases count have "dependency_count t' = dependency_count t"
    by (auto simp: dependency_count_def)
  with ok typed frame show ?thesis
    by (simp add: same_frame_def update_function_def)
qed

lemma same_frame_trans: "same_frame a b \<Longrightarrow> same_frame b c \<Longrightarrow> same_frame a c"
  by (simp add: same_frame_def)

lemma update_outputs_keeps:
  assumes "thunk_ok t" and "thunk_typed t"
    and "update_outputs original_hash first_output outputs t = Inr t'"
  shows "thunk_ok t' \<and> thunk_typed t' \<and> dependency_count t' = dependency_count t \<and> same_frame t t'"
  using assms
proof (induction original_hash first_output outputs t rule: update_outputs.induct)
  case (1 original_hash first_output t)
  then show ?case by (simp add: same_frame_def)
next
  case (2 original_hash first_output out outputs t)
  from 2(4) obtain t1 where t1: "update_output original_hash first_output out t = Inr t1"
    and rest: "update_outputs original_hash False outputs t1 = Inr t'" by auto
  from update_output_keeps [OF 2(2,3) t1] have 1: "thunk_ok t1" "thunk_typed t1"
    "dependency_count t1 = dependency_count t" "same_frame t t1" by simp_all
  from 2(1) [OF t1 this(1,2) rest] 1 show ?case using same_frame_trans by fastforce
qed

text \<open>An update keeps a thunk well formed (sorted multimaps, values typed as values and thunks as
  thunks, nothing required left empty), neither loses nor duplicates a dependency, changes no
  executable, output, link or timeout, and clears the cached hash.\<close>

lemma update_data_keeps:
  assumes "thunk_ok t" and "thunk_typed t" and "update_data original_hash outputs t = Inr t'"
  shows "thunk_ok t' \<and> thunk_typed t' \<and> dependency_count t' = dependency_count t \<and>
    same_frame (t\<lparr>th_hash := None\<rparr>) t'"
proof -
  have "thunk_ok (t\<lparr>th_hash := None\<rparr>)" "thunk_typed (t\<lparr>th_hash := None\<rparr>)"
    using assms(1,2) by (simp_all add: thunk_ok_def thunk_typed_def)
  from update_outputs_keeps [OF this assms(3) [unfolded update_data_def]] show ?thesis
    by (simp add: dependency_count_def)
qed

text \<open>The dependencies an update names and what becomes of them.\<close>

fun renamings :: "string \<Rightarrow> bool \<Rightarrow> thunk_output list \<Rightarrow> (string \<times> string) list" where
  "renamings original_hash first_output [] = []"
| "renamings original_hash first_output (output # outputs) =
     (old_hash_of original_hash first_output output, out_hash output)
       # renamings original_hash False outputs"

definition resolved :: "(string \<times> string) list \<Rightarrow> data_item multiset \<Rightarrow> data_item multiset" where
  "resolved rs M =
     image_mset (\<lambda>p. (the (map_of rs (fst p)), snd p)) (filter_mset (\<lambda>p. map_of rs (fst p) \<noteq> None) M)"

definition unresolved :: "(string \<times> string) list \<Rightarrow> data_item multiset \<Rightarrow> data_item multiset" where
  "unresolved rs M = filter_mset (\<lambda>p. map_of rs (fst p) = None) M"

lemma resolved_Cons:
  "resolved ((old, new) # rs) M =
     image_mset (\<lambda>p. (new, snd p)) (filter_mset (\<lambda>p. fst p = old) M) +
     resolved rs (filter_mset (\<lambda>p. fst p \<noteq> old) M)"
  by (induction M) (auto simp: resolved_def)

lemma unresolved_Cons:
  "unresolved ((old, new) # rs) M = unresolved rs (filter_mset (\<lambda>p. fst p \<noteq> old) M)"
  by (induction M) (auto simp: unresolved_def)

lemma mset_mm_erase: "mset (mm_erase k m) = filter_mset (\<lambda>p. fst p \<noteq> k) (mset m)"
  by (simp add: mm_erase_def)

lemma mset_fold_range:
  "mset (fold (mm_insert new) (mm_equal_range old ts) vs) =
     image_mset (\<lambda>p. (new, snd p)) (filter_mset (\<lambda>p. fst p = old) (mset ts)) + mset vs"
  by (simp add: mm.entries_fold_ins mm_equal_range_def comp_def)

lemma update_outputs_values:
  assumes "\<forall>o' \<in> set outputs. hash_type (out_hash o') = Inr Value"
  shows "\<exists>t'. update_outputs original_hash first_output outputs t = Inr t' \<and>
    mset (th_thunks t') = unresolved (renamings original_hash first_output outputs) (mset (th_thunks t)) \<and>
    mset (th_values t') =
      resolved (renamings original_hash first_output outputs) (mset (th_thunks t)) + mset (th_values t)"
  using assms
proof (induction original_hash first_output outputs t rule: update_outputs.induct)
  case (1 original_hash first_output t)
  then show ?case by (simp add: resolved_def unresolved_def)
next
  case (2 original_hash first_output out outputs t)
  define old where "old = old_hash_of original_hash first_output out"
  from 2(2) have v: "hash_type (out_hash out) = Inr Value" by simp
  then have new: "new_hash_of first_output out = Inr (out_hash out)"
    by (simp add: new_hash_of_def)
  define t1 where "t1 = t\<lparr>th_thunks := mm_erase old (th_thunks t),
     th_values := fold (mm_insert (out_hash out)) (mm_equal_range old (th_thunks t)) (th_values t),
     th_function := update_function (data_placeholder old) (data_placeholder (out_hash out)) (th_function t)\<rparr>"
  have t1: "update_output original_hash first_output out t = Inr t1"
    by (simp add: update_output_def new old_def [symmetric] Let_def insert_renamed_fold_typed [OF v] t1_def)
  from 2(1) [OF t1] 2(2) obtain t' where
    "update_outputs original_hash False outputs t1 = Inr t'"
    "mset (th_thunks t') = unresolved (renamings original_hash False outputs) (mset (th_thunks t1))"
    "mset (th_values t') =
      resolved (renamings original_hash False outputs) (mset (th_thunks t1)) + mset (th_values t1)"
    by auto
  with t1 show ?case
    by (simp add: old_def [symmetric] resolved_Cons unresolved_Cons t1_def mset_mm_erase mset_fold_range)
qed

text \<open>C25: when every output of a finished thunk is a value, updating a thunk that depends on it always
  succeeds, and afterwards exactly the dependencies the outputs name have left the thunks and stand
  among the values under the output's hash with the name they had; all others are untouched. The
  first output is named by the bare hash, the others by hash and tag, and of two outputs with the
  same tag the first counts.\<close>

theorem update_data_values:
  assumes "\<forall>o' \<in> set outputs. hash_type (out_hash o') = Inr Value"
  shows "\<exists>t'. update_data original_hash outputs t = Inr t' \<and>
    mset (th_thunks t') = unresolved (renamings original_hash True outputs) (mset (th_thunks t)) \<and>
    mset (th_values t') =
      resolved (renamings original_hash True outputs) (mset (th_thunks t)) + mset (th_values t)"
  using update_outputs_values [OF assms, of original_hash True "t\<lparr>th_hash := None\<rparr>"]
  by (simp add: update_data_def)

section \<open>Placeholders in arguments\<close>

text \<open>The reference: replace every occurrence, from the left, without overlaps.\<close>

function replace_all :: "string \<Rightarrow> string \<Rightarrow> string \<Rightarrow> string" where
  "replace_all src dst [] = []"
| "replace_all src dst (c # cs) =
     (if src \<noteq> [] \<and> prefix src (c # cs) then dst @ replace_all src dst (drop (length src) (c # cs))
      else c # replace_all src dst cs)"
  by pat_completeness auto
termination
  by (relation "measure (\<lambda>(_, _, s). length s)") auto

lemma replace_all_find:
  "src \<noteq> [] \<Longrightarrow> replace_all src dst s =
     (case find_sub src s of
        None \<Rightarrow> s
      | Some i \<Rightarrow> take i s @ dst @ replace_all src dst (drop (i + length src) s))"
proof (induction s)
  case (Cons c s)
  then show ?case by (auto split: option.splits)
qed simp

lemma update_placeholder_conv:
  "src \<noteq> [] \<Longrightarrow> index \<le> length str \<Longrightarrow>
     update_placeholder str src dst index = take index str @ replace_all src dst (drop index str)"
proof (induction str src dst index rule: update_placeholder.induct)
  case (1 str src dst index)
  show ?case
  proof (cases "find_sub src (drop index str)")
    case None
    then have "str_find str src index = None" by (simp add: str_find_def)
    with None 1(2) show ?thesis
      by (simp add: update_placeholder.simps [of str] replace_all_find)
  next
    case (Some j)
    with 1(3) have i: "str_find str src index = Some (index + j)" by (simp add: str_find_def)
    from str_find_Some [OF i] have le: "index + j + length src \<le> length str" by simp
    define str' where "str' = take (index + j) str @ dst @ drop (index + j + length src) str"
    have "update_placeholder str src dst index = update_placeholder str' src dst (index + j + length dst)"
      using 1(2) i by (simp add: update_placeholder.simps [of str _ _ index] str'_def)
    also have "\<dots> = take (index + j + length dst) str' @ replace_all src dst (drop (index + j + length dst) str')"
      using 1(1) [OF 1(2) i] 1(2) le by (simp add: str'_def)
    also have "\<dots> = take index str @ replace_all src dst (drop index str)"
      using Some 1(2) le
      by (simp add: str'_def replace_all_find [of src dst "drop index str"] take_add ac_simps)
    finally show ?thesis .
  qed
qed

text \<open>An argument as its author wrote it: text without \<open>@\<close>, and references to objects.\<close>

datatype piece = Text string | Ref string

fun render_piece :: "piece \<Rightarrow> string" where
  "render_piece (Text s) = s"
| "render_piece (Ref h) = data_placeholder h"

definition render_arg :: "piece list \<Rightarrow> string" where
  "render_arg ps = concat (map render_piece ps)"

fun piece_ok :: "piece \<Rightarrow> bool" where
  "piece_ok (Text s) \<longleftrightarrow> CHR ''@'' \<notin> set s"
| "piece_ok (Ref h) \<longleftrightarrow> CHR ''@'' \<notin> set h \<and> CHR ''}'' \<notin> set h"

fun redirect :: "string \<Rightarrow> string \<Rightarrow> piece \<Rightarrow> piece" where
  "redirect old new (Text s) = Text s"
| "redirect old new (Ref h) = Ref (if h = old then new else h)"

lemma replace_all_text:
  "CHR ''@'' \<notin> set s \<Longrightarrow>
     replace_all (CHR ''@'' # src) dst (s @ rest) = s @ replace_all (CHR ''@'' # src) dst rest"
  by (induction s) auto

lemma prefix_until:
  "c \<notin> set a \<Longrightarrow> c \<notin> set b \<Longrightarrow> prefix (a @ [c]) (b @ c # rest) \<longleftrightarrow> a = b"
proof (induction a arbitrary: b)
  case Nil
  then show ?case by (cases b) auto
next
  case (Cons x a)
  then show ?case by (cases b) auto
qed

lemma replace_all_placeholder:
  assumes "CHR ''}'' \<notin> set old" and "CHR ''@'' \<notin> set h" and "CHR ''}'' \<notin> set h"
  shows "replace_all (data_placeholder old) dst (data_placeholder h @ rest) =
    (if h = old then dst else data_placeholder h) @ replace_all (data_placeholder old) dst rest"
proof -
  have pre: "prefix (data_placeholder old) (data_placeholder h @ rest) \<longleftrightarrow> h = old"
    using prefix_until [OF assms(1,3), of rest] by (auto simp: data_placeholder_def)
  have len: "length (data_placeholder h @ rest) > 0" by (simp add: data_placeholder_def)
  show ?thesis
  proof (cases "h = old")
    case True
    with pre show ?thesis by (simp add: data_placeholder_def)
  next
    case False
    define src where "src = ''{GGHASH:'' @ old @ ''}''"
    have s: "data_placeholder old = CHR ''@'' # src" by (simp add: data_placeholder_def src_def)
    have h: "data_placeholder h @ rest = CHR ''@'' # (''{GGHASH:'' @ h @ ''}'') @ rest"
      by (simp add: data_placeholder_def)
    have "replace_all (data_placeholder old) dst (data_placeholder h @ rest) =
        CHR ''@'' # replace_all (CHR ''@'' # src) dst ((''{GGHASH:'' @ h @ ''}'') @ rest)"
      using pre False unfolding h s by simp
    also have "\<dots> = CHR ''@'' # (''{GGHASH:'' @ h @ ''}'') @ replace_all (CHR ''@'' # src) dst rest"
      using assms(2) by (subst replace_all_text) auto
    finally show ?thesis using False by (simp add: s [symmetric] data_placeholder_def)
  qed
qed

text \<open>Rewriting the placeholders of an argument redirects exactly the references to the old hash,
  and leaves the text and every other reference alone, also those to tagged outputs of the same
  thunk.\<close>

lemma update_string_redirects:
  assumes "\<forall>p \<in> set ps. piece_ok p" and "CHR ''}'' \<notin> set old"
  shows "update_string (data_placeholder old) (data_placeholder new) (render_arg ps) =
    render_arg (map (redirect old new) ps)"
proof -
  have ne: "data_placeholder old \<noteq> []" by (simp add: data_placeholder_def)
  obtain src where s: "data_placeholder old = CHR ''@'' # src" by (simp add: data_placeholder_def)
  have "replace_all (data_placeholder old) (data_placeholder new) (render_arg ps) =
      render_arg (map (redirect old new) ps)"
    using assms(1)
  proof (induction ps)
    case Nil
    then show ?case by (simp add: render_arg_def)
  next
    case (Cons p ps)
    show ?case
    proof (cases p)
      case (Text t)
      with Cons show ?thesis
        by (simp add: render_arg_def s replace_all_text)
    next
      case (Ref h)
      with Cons assms(2) show ?thesis
        by (simp add: render_arg_def replace_all_placeholder)
    qed
  qed
  then show ?thesis
    by (simp add: update_string_def update_placeholder_conv [OF ne])
qed

section \<open>The protobuf form\<close>

definition keys_plain :: "data_list \<Rightarrow> bool" where
  "keys_plain m \<longleftrightarrow> (\<forall>p \<in> set m. CHR ''='' \<notin> set (fst p))"

lemma string_to_data_to_string:
  assumes "CHR ''='' \<notin> set (fst item)"
  shows "string_to_data (data_to_string item) = item"
proof (cases "snd item = []")
  case True
  with assms have "find_sub ''='' (fst item) = None" by (simp add: find_sub_char_None)
  with True show ?thesis
    by (cases item) (simp add: string_to_data_def data_to_string_def)
next
  case False
  from find_sub_char_append [OF assms, of "snd item"] False show ?thesis
    by (cases item) (simp add: string_to_data_def data_to_string_def)
qed

lemma data_list_roundtrip:
  "keys_plain m \<Longrightarrow> mm_sorted m \<Longrightarrow> mm_build (map (string_to_data \<circ> data_to_string) m) = m"
proof -
  assume plain: "keys_plain m" and sorted: "mm_sorted m"
  from plain have "map (string_to_data \<circ> data_to_string) m = m"
    by (intro map_idI) (simp add: keys_plain_def string_to_data_to_string)
  with sorted show ?thesis by simp
qed

text \<open>A well-formed thunk whose hashes have no equals sign and whose timeout fits 32 bits is read
  back from its protobuf form unchanged, links and timeout included; only the cached hash is gone.\<close>

theorem protobuf_roundtrip:
  assumes "thunk_ok t" and "keys_plain (th_values t)" and "keys_plain (th_thunks t)"
    and "keys_plain (th_executables t)" and "0 \<le> th_timeout t" and "th_timeout t < 2 ^ 32"
  shows "thunk_from_protobuf (thunk_to_protobuf t) = Inr (t\<lparr>th_hash := None\<rparr>)"
proof -
  have "uint (of_int (th_timeout t) :: 32 word) = th_timeout t"
    using assms(5,6) by (simp add: unsigned_of_int take_bit_int_eq_self)
  then show ?thesis
    using assms(1-4)
    by (cases t; cases "th_function t") (simp add: thunk_from_protobuf_def thunk_to_protobuf_def
        function_from_protobuf_def function_to_protobuf_def data_list_roundtrip thunk_ok_def)
qed

text \<open>Two thunks that the code's equality calls equal have the same protobuf form up to their links;
  the links are serialised and hashed but not compared, so equality does not give equal hashes.\<close>

lemma thunk_eq_protobuf:
  "thunk_eq a b \<longleftrightarrow> thunk_to_protobuf a\<lparr>pb_links := []\<rparr> = thunk_to_protobuf b\<lparr>pb_links := []\<rparr>
     \<and> th_timeout a = th_timeout b"
  if "keys_plain (th_values a)" "keys_plain (th_thunks a)" "keys_plain (th_executables a)"
    "keys_plain (th_values b)" "keys_plain (th_thunks b)" "keys_plain (th_executables b)"
proof -
  have inj: "map data_to_string x = map data_to_string y \<longleftrightarrow> x = y"
    if "keys_plain x" "keys_plain y" for x y
  proof
    assume "map data_to_string x = map data_to_string y"
    then have "map string_to_data (map data_to_string x) = map string_to_data (map data_to_string y)"
      by simp
    moreover have "map string_to_data (map data_to_string z) = z" if "keys_plain z" for z
      using that unfolding map_map
      by (intro map_idI) (simp add: keys_plain_def string_to_data_to_string)
    ultimately show "x = y" using that by metis
  qed simp
  have "function_eq (th_function a) (th_function b) \<longleftrightarrow>
      function_to_protobuf (th_function a) = function_to_protobuf (th_function b)"
    by (auto simp: function_eq_def function_to_protobuf_def)
  then show ?thesis
    using that by (auto simp: thunk_eq_def thunk_to_protobuf_def inj)
qed

section \<open>Execution\<close>

definition writable :: "(string \<rightharpoonup> permissions) \<Rightarrow> string \<Rightarrow> bool" where
  "writable m p \<longleftrightarrow> (\<exists>q. m p = Some q \<and> perm_write q)"

definition runnable :: "(string \<rightharpoonup> permissions) \<Rightarrow> string \<Rightarrow> bool" where
  "runnable m p \<longleftrightarrow> (\<exists>q. m p = Some q \<and> perm_execute q)"

lemma fold_upd:
  "fold (\<lambda>x m. m(f x \<mapsto> v)) xs m p = (if \<exists>x \<in> set xs. p = f x then Some v else m p)"
  by (induction xs arbitrary: m) auto

text \<open>C27: the table the sandbox enforces lets a thunk write its outputs and nothing else, and run only
  its executables; every value and executable is in it.\<close>

theorem allowed_files_safe:
  assumes "get_allowed_files sha256 encode gg_dir t = Inr m"
  shows "(\<forall>p. writable m p \<longleftrightarrow> p \<in> set (th_outputs t)) \<and>
    (\<forall>p. runnable m p \<longrightarrow> (\<exists>item \<in> set (th_executables t). p = blob gg_dir (fst item))) \<and>
    (\<forall>item \<in> set (th_values t) \<union> set (th_executables t). m (blob gg_dir (fst item)) \<noteq> None)"
proof -
  from assms obtain h t' where h: "thunk_hash sha256 encode t = Inr (h, t')"
    by (auto simp: get_allowed_files_def Let_def)
  from assms have def_m: "m = fold (\<lambda>output m. m(output \<mapsto> perms True True False)) (th_outputs t)
      ((fold (\<lambda>item m. m(blob gg_dir (fst item) \<mapsto> perms True False True)) (th_executables t)
        (fold (\<lambda>item m. m(blob gg_dir (fst item) \<mapsto> perms True False False)) (th_values t) Map.empty))
       (blobs gg_dir \<mapsto> perms True False False, blob gg_dir h \<mapsto> perms True False False))"
    by (simp add: get_allowed_files_def Let_def h)
  have m: "m p =
      (if \<exists>x \<in> set (th_outputs t). p = x then Some (perms True True False)
       else if p = blob gg_dir h \<or> p = blobs gg_dir then Some (perms True False False)
       else if \<exists>x \<in> set (th_executables t). p = blob gg_dir (fst x) then Some (perms True False True)
       else if \<exists>x \<in> set (th_values t). p = blob gg_dir (fst x) then Some (perms True False False)
       else None)" for p
    unfolding def_m fold_upd fun_upd_apply by simp
  have "m (blob gg_dir (fst item)) \<noteq> None"
    if "item \<in> set (th_values t) \<union> set (th_executables t)" for item
    using that unfolding m by auto
  then show ?thesis
    by (auto simp: m writable_def runnable_def perms_def split: if_splits)
qed

lemma replace_text:
  "CHR ''@'' \<notin> set s \<Longrightarrow> replace_data_placeholder gg_dir (s @ rest) = s @ replace_data_placeholder gg_dir rest"
  by (induction s) (auto simp: match_placeholder_def starts_with_def)

fun piece_ready :: "piece \<Rightarrow> bool" where
  "piece_ready (Text s) \<longleftrightarrow> CHR ''@'' \<notin> set s"
| "piece_ready (Ref h) \<longleftrightarrow> h \<noteq> [] \<and> (\<forall>c \<in> set h. hash_char c)"

fun resolve_piece :: "string \<Rightarrow> piece \<Rightarrow> string" where
  "resolve_piece gg_dir (Text s) = s"
| "resolve_piece gg_dir (Ref h) = blob gg_dir h"

lemma match_placeholder_ref:
  assumes "h \<noteq> []" and "\<forall>c \<in> set h. hash_char c"
  shows "match_placeholder (data_placeholder h @ rest) = Some (h, rest)"
proof -
  have nh: "\<not> hash_char CHR ''}''" by code_simp
  have d: "drop 9 (data_placeholder h @ rest) = h @ CHR ''}'' # rest"
    by (simp add: data_placeholder_def)
  have s: "starts_with DATA_PLACEHOLDER_START (data_placeholder h @ rest)"
    by (simp add: data_placeholder_def starts_with_def)
  have "takeWhile hash_char (h @ CHR ''}'' # rest) = h"
    "dropWhile hash_char (h @ CHR ''}'' # rest) = CHR ''}'' # rest"
    using assms(2) nh by (simp_all add: takeWhile_append dropWhile_append)
  with assms(1) s show ?thesis
    unfolding match_placeholder_def d Let_def by simp
qed

text \<open>When a thunk whose dependencies are resolved is executed, every reference in its arguments
  becomes the path of the object and the text around it stays; a thunk with a dependency left is
  refused.\<close>

lemma execute_arguments:
  assumes "fn_args (th_function t) = map render_arg argss"
    and "\<forall>ps \<in> set argss. \<forall>p \<in> set ps. piece_ready p"
    and "execute_call sha256 encode gg_dir verbose t = Inr call"
  shows "can_be_executed t \<and>
    exec_args call = map (\<lambda>ps. concat (map (resolve_piece gg_dir) ps)) argss"
proof -
  have "replace_data_placeholder gg_dir (render_arg ps) = concat (map (resolve_piece gg_dir) ps)"
    if "\<forall>p \<in> set ps. piece_ready p" for ps
    using that
  proof (induction ps)
    case Nil
    then show ?case by (simp add: render_arg_def)
  next
    case (Cons p ps)
    show ?case
    proof (cases p)
      case (Text s)
      with Cons show ?thesis by (simp add: render_arg_def replace_text)
    next
      case (Ref h)
      obtain c cs where cs: "data_placeholder h @ concat (map render_piece ps) = c # cs"
        by (simp add: data_placeholder_def)
      have "match_placeholder (c # cs) = Some (h, concat (map render_piece ps))"
        unfolding cs [symmetric] using Cons.prems by (intro match_placeholder_ref) (simp_all add: Ref)
      then have "replace_data_placeholder gg_dir (c # cs) =
          blob gg_dir h @ replace_data_placeholder gg_dir (concat (map render_piece ps))"
        by simp
      with Cons Ref cs show ?thesis by (simp add: render_arg_def)
    qed
  qed
  with assms show ?thesis
    by (auto simp: execute_call_def can_be_executed_def split: if_splits)
qed

section \<open>The theorems at work\<close>

text \<open>A compilation that waits for the preprocessor and for the second output of another thunk.\<close>

definition sample_thunk :: thunk where
  "sample_thunk =
     \<lparr>th_function = \<lparr>fn_hash = ''Vcc'', fn_args = [''cc'', render_arg [Text ''-c='', Ref ''Tpp'']],
        fn_envars = [''A=1'']\<rparr>,
      th_values = [(''Vhdr'', ''h.h'')], th_thunks = [(''Tas#o'', ''y''), (''Tpp'', ''x.i'')],
      th_executables = [(''Vcc'', [])], th_outputs = [''out''], th_links = [(''l'', ''Vz'')],
      th_timeout = 30, th_hash = Some ''Tself''\<rparr>"

lemma less_strings:
  "''Tas#o'' < ''Tpp''" "''Tas#o'' \<le> ''Tpp''" "\<not> (''Vpp'' < ''Vhdr'')" "''Vhdr'' \<le> ''Vpp''"
  by (simp_all add: less_char_def)

lemma sample_ok: "thunk_ok sample_thunk" "thunk_typed sample_thunk"
  by (simp_all add: thunk_ok_def thunk_typed_def sample_thunk_def hash_type_def less_strings)

lemma thunk_of_data_spec_witness:
  "\<exists>t. thunk_of_data \<lparr>fn_hash = ''Vcc'', fn_args = [''cc''], fn_envars = []\<rparr>
     [(''Vhdr'', ''h.h''), (''Tpp'', ''x.i'')] [(''Vcc'', [])] [''out''] = Inr t"
  using thunk_of_data_spec [of "\<lparr>fn_hash = ''Vcc'', fn_args = [''cc''], fn_envars = []\<rparr>"
      "[(''Vhdr'', ''h.h''), (''Tpp'', ''x.i'')]" "[(''Vcc'', [])]" "[''out'']"]
  by (simp add: hash_type_def)

lemma sample_update:
  "\<exists>t'. update_data ''Tpp'' [\<lparr>out_hash = ''Vpp'', out_tag = ''out''\<rparr>] sample_thunk = Inr t'"
  using update_outputs_values [of "[\<lparr>out_hash = ''Vpp'', out_tag = ''out''\<rparr>]" "''Tpp''" True
      "sample_thunk\<lparr>th_hash := None\<rparr>"]
  by (auto simp: update_data_def hash_type_def)

lemma update_data_keeps_witness:
  "\<exists>t'. update_data ''Tpp'' [\<lparr>out_hash = ''Vpp'', out_tag = ''out''\<rparr>] sample_thunk = Inr t' \<and>
     thunk_ok t' \<and> dependency_count t' = 3"
proof -
  obtain t' where t': "update_data ''Tpp'' [\<lparr>out_hash = ''Vpp'', out_tag = ''out''\<rparr>] sample_thunk = Inr t'"
    using sample_update by blast
  from update_data_keeps [OF sample_ok t'] t' show ?thesis
    by (simp add: dependency_count_def sample_thunk_def)
qed

theorem update_data_values_witness:
  "\<exists>t'. update_data ''Tpp'' [\<lparr>out_hash = ''Vpp'', out_tag = ''out''\<rparr>] sample_thunk = Inr t' \<and>
     mset (th_thunks t') = {#(''Tas#o'', ''y'')#} \<and>
     mset (th_values t') = {#(''Vpp'', ''x.i''), (''Vhdr'', ''h.h'')#}"
  using update_data_values [of "[\<lparr>out_hash = ''Vpp'', out_tag = ''out''\<rparr>]" "''Tpp''" sample_thunk]
  by (simp add: hash_type_def old_hash_of_def resolved_def unresolved_def sample_thunk_def
      add_mset_commute)

lemma update_string_redirects_witness:
  "update_string (data_placeholder ''T1'') (data_placeholder ''V2'')
     (''-x='' @ DATA_PLACEHOLDER_START @ ''T1},'' @ DATA_PLACEHOLDER_START @ ''T1#o}'') =
   ''-x='' @ DATA_PLACEHOLDER_START @ ''V2},'' @ DATA_PLACEHOLDER_START @ ''T1#o}''"
  using update_string_redirects [of "[Text ''-x='', Ref ''T1'', Text '','', Ref ''T1#o'']" "''T1''" "''V2''"]
  by (simp add: render_arg_def data_placeholder_def)

theorem protobuf_roundtrip_witness:
  "thunk_from_protobuf (thunk_to_protobuf sample_thunk) = Inr (sample_thunk\<lparr>th_hash := None\<rparr>)"
  by (rule protobuf_roundtrip [OF sample_ok(1)]) (simp_all add: keys_plain_def sample_thunk_def)

lemma thunk_eq_protobuf_witness:
  "thunk_eq sample_thunk (sample_thunk\<lparr>th_links := []\<rparr>) \<and>
   thunk_to_protobuf sample_thunk \<noteq> thunk_to_protobuf (sample_thunk\<lparr>th_links := []\<rparr>)"
  using thunk_eq_protobuf [of sample_thunk "sample_thunk\<lparr>th_links := []\<rparr>"]
  by (simp add: keys_plain_def sample_thunk_def thunk_to_protobuf_def)

theorem allowed_files_safe_witness:
  "case get_allowed_files toy_sha (\<lambda>_. Some []) ''/g'' sample_thunk of
     Inl e \<Rightarrow> False
   | Inr m \<Rightarrow> writable m ''out'' \<and> \<not> writable m ''/g/blobs/Vcc''"
proof -
  obtain m where m: "get_allowed_files toy_sha (\<lambda>_. Some []) ''/g'' sample_thunk = Inr m"
    by (simp add: get_allowed_files_def thunk_hash_def sample_thunk_def Let_def)
  from allowed_files_safe [OF m] m show ?thesis
    by (simp add: sample_thunk_def)
qed

lemma execute_arguments_witness:
  "case execute_call toy_sha (\<lambda>_. Some []) ''/g'' False (sample_thunk\<lparr>th_thunks := []\<rparr>) of
     Inl e \<Rightarrow> False
   | Inr call \<Rightarrow> exec_args call = [''cc'', ''-c=/g/blobs/Tpp'']"
proof -
  let ?t = "sample_thunk\<lparr>th_thunks := []\<rparr>"
  let ?pieces = "[[Text ''cc''], [Text ''-c='', Ref ''Tpp'']]"
  obtain call where call: "execute_call toy_sha (\<lambda>_. Some []) ''/g'' False ?t = Inr call"
    by (simp add: execute_call_def thunk_hash_def sample_thunk_def)
  have args: "fn_args (th_function ?t) = map render_arg ?pieces"
    by (simp add: sample_thunk_def render_arg_def)
  have "exec_args call = map (\<lambda>ps. concat (map (resolve_piece ''/g'') ps)) ?pieces"
    using execute_arguments [OF args _ call] by (simp add: hash_char_def)
  then show ?thesis
    using call by (simp add: blob_def blobs_def path_append_def)
qed

end
