(* ===== verification/ThunkIO.thy ===== *)
theory ThunkIO
  imports ThunkLaws
begin

text \<open>
  Thunks on disk: \<open>ThunkWriter\<close> and \<open>ThunkReader\<close>, the placeholder files that stand for an output
  that has not been computed (\<open>src/thunk/placeholder.cc\<close>), the manifest and \<open>ThunkFactory\<close>. Protobuf's
  encoder and decoder are parameters; \<open>codec_ok\<close> says that decoding undoes encoding.
\<close>

section \<open>ThunkWriter and ThunkReader\<close>

definition target_path :: "string \<Rightarrow> string option \<Rightarrow> string \<Rightarrow> string" where
  "target_path gg_dir path h = (case path of Some p \<Rightarrow> p | None \<Rightarrow> blob gg_dir h)"

definition write_thunk ::
  "(string \<Rightarrow> string) \<Rightarrow> (pb_thunk \<Rightarrow> string option) \<Rightarrow> kernel \<Rightarrow> string \<Rightarrow> string option \<Rightarrow>
     thunk \<Rightarrow> disk \<Rightarrow> (string \<times> thunk \<times> disk) res" where
  "write_thunk sha256 encode k gg_dir path t d =
     bind_res (serialize encode t) (\<lambda>serialized_thunk.
       let h = hash_compute sha256 serialized_thunk Thunk
       in bind_res (if \<not> path_exists (target_path gg_dir path h) d
                    then atomic_create k serialized_thunk (target_path gg_dir path h) (Some 256) d
                    else Inr d)
            (\<lambda>d'. Inr (h, set_hash h t, d')))"

text \<open>The magic number is skipped, not compared, and the parser's verdict is ignored: \<open>decode\<close> is the
  message as the parser leaves it.\<close>

definition read_thunk ::
  "(string \<Rightarrow> pb_thunk) \<Rightarrow> string \<Rightarrow> string \<Rightarrow> disk \<Rightarrow> thunk res" where
  "read_thunk decode p h d =
     (case d p of
        None \<Rightarrow> Inl (Unix_error p)
      | Some n \<Rightarrow>
          (let contents = (case n of Regular c _ \<Rightarrow> c | Directory \<Rightarrow> [])
           in bind_res (thunk_from_protobuf (decode (drop (length MAGIC_NUMBER) contents)))
                (\<lambda>t. Inr (if length h > 0 then set_hash h t else t))))"

definition is_thunk :: "string \<Rightarrow> disk \<Rightarrow> bool res" where
  "is_thunk p d =
     (case d p of
        None \<Rightarrow> Inl (Unix_error ''open'')
      | Some Directory \<Rightarrow> Inl (Unix_error ''read'')
      | Some (Regular c _) \<Rightarrow> Inr (take (length MAGIC_NUMBER) c = MAGIC_NUMBER))"

definition codec_ok :: "(pb_thunk \<Rightarrow> string option) \<Rightarrow> (string \<Rightarrow> pb_thunk) \<Rightarrow> bool" where
  "codec_ok encode decode \<longleftrightarrow> (\<forall>p bytes. encode p = Some bytes \<longrightarrow> decode bytes = p)"

section \<open>Placeholders\<close>

datatype placeholder_type = LinkerScript | ShellScript

definition SHEBANG_DIRECTIVE :: string where
  "SHEBANG_DIRECTIVE = ''#!/usr/bin/env gg-force-and-run''"

definition LIBRARY_DIRECTIVE :: string where
  "LIBRARY_DIRECTIVE =
     ''OUTPUT_FORMAT('' @ [CHR 0x22] @ ''elf64-x86-64'' @ [CHR 0x22] @ '')/*''"

definition newline :: char where
  "newline = CHR 0x0A"

definition placeholder_str :: "string \<Rightarrow> placeholder_type \<Rightarrow> string" where
  "placeholder_str content_hash ty =
     (if ty = LinkerScript then LIBRARY_DIRECTIVE else SHEBANG_DIRECTIVE) @ [newline] @
     content_hash @ [newline] @ (if ty = LinkerScript then ''*/'' else [])"

text \<open>\<open>regex_match\<close> with \<open>.+\.so[\.\d+]+$\<close>.\<close>

definition so_suffix_char :: "char \<Rightarrow> bool" where
  "so_suffix_char c \<longleftrightarrow> c = CHR ''.'' \<or> c = CHR ''+'' \<or> is_digit_of 10 c"

definition matches_so_pattern :: "string \<Rightarrow> bool" where
  "matches_so_pattern s \<longleftrightarrow>
     list_ex (\<lambda>i. 0 < i \<and> newline \<notin> set (take i s) \<and> CHR 0x0D \<notin> set (take i s) \<and>
         starts_with ''.so'' (drop i s) \<and>
         drop (i + 3) s \<noteq> [] \<and> list_all so_suffix_char (drop (i + 3) s))
       [0..<length s]"

definition guess_type :: "string \<Rightarrow> placeholder_type" where
  "guess_type filename =
     (let extension = (case rfind_char CHR ''.'' filename of None \<Rightarrow> filename | Some pos \<Rightarrow> drop (pos + 1) filename)
      in if extension = ''so'' \<or> extension = ''a'' \<or> extension = ''o'' \<or> extension = ''s'' \<or>
            extension = ''S'' \<or> extension = ''sho'' \<or> matches_so_pattern filename
         then LinkerScript else ShellScript)"

definition chmod :: "string \<Rightarrow> mode \<Rightarrow> disk \<Rightarrow> disk res" where
  "chmod p m d =
     (case d p of
        None \<Rightarrow> Inl (Unix_error ''chmod'')
      | Some Directory \<Rightarrow> Inr d
      | Some (Regular c _) \<Rightarrow> Inr (d(p \<mapsto> Regular c m)))"

definition write_placeholder :: "kernel \<Rightarrow> string \<Rightarrow> string \<Rightarrow> disk \<Rightarrow> disk res" where
  "write_placeholder k content_hash filename d =
     bind_res (atomic_create k (placeholder_str content_hash (guess_type filename)) filename None d)
       (\<lambda>d'. if guess_type filename = ShellScript then chmod filename 493 d' else Inr d')"

text \<open>\<open>ThunkPlaceholder::read\<close>: \<open>junk\<close> is what the buffer on the stack held before; a file that is too
  short, or missing, leaves the rest of it there, and the comparison reads it.\<close>

definition directive_buffer :: "string \<Rightarrow> string \<Rightarrow> string" where
  "directive_buffer junk contents =
     (let n = Suc (length SHEBANG_DIRECTIVE)
      in take n contents @ drop (length contents) (take n junk))"

definition read_placeholder_contents :: "string \<Rightarrow> string \<Rightarrow> string \<Rightarrow> string option res" where
  "read_placeholder_contents junk filename contents =
     (let n = Suc (length SHEBANG_DIRECTIVE);
          buffer = take (length SHEBANG_DIRECTIVE) (directive_buffer junk contents)
      in if buffer \<noteq> SHEBANG_DIRECTIVE \<and> buffer \<noteq> LIBRARY_DIRECTIVE then Inr None
         else let rest = dropWhile is_space (drop n contents);
                  h = takeWhile (\<lambda>c. \<not> is_space c) rest
              in if length contents < n \<or> h = [] \<or> dropWhile (\<lambda>c. \<not> is_space c) rest = []
                 then Inl (Runtime_error (''failed reading from '' @ filename))
                 else Inr (Some h))"

definition read_placeholder :: "string \<Rightarrow> string \<Rightarrow> disk \<Rightarrow> string option res" where
  "read_placeholder junk filename d =
     read_placeholder_contents junk filename
       (case d filename of Some (Regular c _) \<Rightarrow> c | _ \<Rightarrow> [])"

definition is_placeholder :: "string \<Rightarrow> bool" where
  "is_placeholder contents =
     (let header = take (length SHEBANG_DIRECTIVE) contents
      in header = SHEBANG_DIRECTIVE \<or> header = LIBRARY_DIRECTIVE)"

section \<open>The manifest\<close>

record file_manifest =
  dummy_directories :: "string list"
  output_tags :: "(string \<times> string) list"

definition add_dummy_directory :: "string \<Rightarrow> file_manifest \<Rightarrow> file_manifest" where
  "add_dummy_directory dir m = m\<lparr>dummy_directories := dummy_directories m @ [dir]\<rparr>"

definition add_output_tag :: "string \<Rightarrow> string \<Rightarrow> file_manifest \<Rightarrow> file_manifest" where
  "add_output_tag filename tag m = m\<lparr>output_tags := output_tags m @ [(filename, tag)]\<rparr>"

definition NUL :: char where
  "NUL = CHR 0x00"

definition manifest_serialize :: "file_manifest \<Rightarrow> string" where
  "manifest_serialize m =
     concat (map (\<lambda>entry. ''D'' @ [NUL] @ entry @ [NUL]) (dummy_directories m)) @
     concat (map (\<lambda>entry. ''O'' @ [NUL] @ fst entry @ [NUL] @ snd entry @ [NUL]) (output_tags m))"

section \<open>ThunkFactory\<close>

record factory_data =
  fd_filename :: string
  fd_real_filename :: string
  fd_hash :: string
  fd_type :: object_type

record factory_output =
  fo_tag :: string
  fo_filename :: "string option"

definition make_output :: "string \<Rightarrow> string option \<Rightarrow> factory_output" where
  "make_output tag filename = \<lparr>fo_tag = tag, fo_filename = map_option lexically_normal filename\<rparr>"

definition make_data ::
  "(string \<Rightarrow> string) \<Rightarrow> kernel \<Rightarrow> (string \<Rightarrow> file_stat) \<Rightarrow> string \<Rightarrow> string \<Rightarrow>
     string \<Rightarrow> string \<Rightarrow> object_type \<Rightarrow> string \<Rightarrow> disk \<Rightarrow> (factory_data \<times> disk) res" where
  "make_data sha256 k stat_of gg_dir junk filename real_filename ty h d =
     (let name = lexically_normal filename;
          real_name = (if length real_filename > 0 then real_filename else name)
      in if length h > 0
         then Inr (\<lparr>fd_filename = name, fd_real_filename = real_name, fd_hash = h, fd_type = ty\<rparr>, d)
         else bind_res (read_placeholder junk real_name d) (\<lambda>placeholder.
           case placeholder of
             Some content_hash \<Rightarrow>
               Inr (\<lparr>fd_filename = name, fd_real_filename = real_name, fd_hash = content_hash,
                      fd_type = Thunk\<rparr>, d)
           | None \<Rightarrow>
               bind_res (hash_file sha256 k stat_of gg_dir real_name (Some ty) d) (\<lambda>(fh, d').
                 Inr (\<lparr>fd_filename = name, fd_real_filename = real_name, fd_hash = fh,
                        fd_type = ty\<rparr>, d'))))"

definition thunk_item :: "bool \<Rightarrow> factory_data \<Rightarrow> data_item" where
  "thunk_item include_filenames datum =
     (fd_hash datum, if include_filenames then fd_filename datum else [])"

definition create_thunk ::
  "func \<Rightarrow> factory_data list \<Rightarrow> factory_data list \<Rightarrow> factory_output list \<Rightarrow> int \<Rightarrow> bool \<Rightarrow>
     (string \<times> string) list \<Rightarrow> thunk res" where
  "create_thunk f data executables outputs timeout include_filenames links =
     bind_res (thunk_of_data f (map (thunk_item include_filenames) data)
         (map (thunk_item include_filenames) executables) (map fo_tag outputs))
       (\<lambda>t. Inr (fold (\<lambda>(name, h). add_link name h) links (set_timeout timeout t)))"

definition collect_datum ::
  "kernel \<Rightarrow> string \<Rightarrow> bool \<Rightarrow> factory_data \<Rightarrow> disk \<Rightarrow> disk res" where
  "collect_datum k gg_dir executable datum d =
     (if length (fd_real_filename datum) = 0 then Inr d
      else let target_path = blob gg_dir (hash_base (fd_hash datum))
           in if path_exists target_path d then Inr d
              else copy_then_rename k (fd_real_filename datum) target_path
                     (Some (if executable then 320 else 256)) d)"

definition write_output_placeholder ::
  "kernel \<Rightarrow> string \<Rightarrow> nat \<times> factory_output \<Rightarrow> disk \<Rightarrow> disk res" where
  "write_output_placeholder k h io d =
     (let out = snd io;
          out_h = (if fst io = 0 then h else for_output h (fo_tag out))
      in write_placeholder k out_h (case fo_filename out of Some f \<Rightarrow> f | None \<Rightarrow> fo_tag out) d)"

definition opt_generate_manifest :: "32 word" where "opt_generate_manifest = push_bit 0 1"
definition opt_create_placeholder :: "32 word" where "opt_create_placeholder = push_bit 1 1"
definition opt_collect_data :: "32 word" where "opt_collect_data = push_bit 2 1"
definition opt_include_filenames :: "32 word" where "opt_include_filenames = push_bit 3 1"

definition build_manifest :: "string list \<Rightarrow> factory_output list \<Rightarrow> file_manifest" where
  "build_manifest dummy_dirs outputs =
     fold (\<lambda>out m. case fo_filename out of
             Some f \<Rightarrow> add_output_tag f (fo_tag out) m
           | None \<Rightarrow> m) outputs
       (fold (\<lambda>dir. add_dummy_directory (lexically_normal dir)) dummy_dirs
         \<lparr>dummy_directories = [], output_tags = []\<rparr>)"

definition generate ::
  "(string \<Rightarrow> string) \<Rightarrow> (pb_thunk \<Rightarrow> string option) \<Rightarrow> kernel \<Rightarrow> string \<Rightarrow>
     func \<Rightarrow> factory_data list \<Rightarrow> factory_data list \<Rightarrow> factory_output list \<Rightarrow> string list \<Rightarrow>
     int \<Rightarrow> 32 word \<Rightarrow> (string \<times> string) list \<Rightarrow> disk \<Rightarrow> (string \<times> disk) res" where
  "generate sha256 encode k gg_dir f data executables outputs dummy_dirs timeout options links d =
     (let include_filenames = (options AND opt_include_filenames \<noteq> 0);
          thunk_data = map (thunk_item include_filenames) data;
          thunk_executables = map (thunk_item include_filenames) executables;
          thunk_outputs = map fo_tag outputs
      in bind_res
        (if options AND opt_generate_manifest \<noteq> 0
         then let manifest_data = manifest_serialize (build_manifest dummy_dirs outputs);
                  manifest_hash = hash_compute sha256 manifest_data Value
              in bind_res (atomic_create k manifest_data (blob gg_dir manifest_hash) (Some 256) d) (\<lambda>d1.
                   Inr (thunk_data @ [(manifest_hash, [])],
                     f\<lparr>fn_envars := fn_envars f @ [''GG_MANIFEST='' @ data_placeholder manifest_hash]\<rparr>, d1))
         else Inr (thunk_data, f, d))
        (\<lambda>(thunk_data', f', d1).
      bind_res
        (if options AND opt_collect_data \<noteq> 0
         then bind_res (fold_res (collect_datum k gg_dir False) data d1)
                (fold_res (collect_datum k gg_dir True) executables)
         else Inr d1) (\<lambda>d2.
      bind_res (thunk_of_data f' thunk_data' thunk_executables thunk_outputs) (\<lambda>t.
      bind_res (write_thunk sha256 encode k gg_dir None
                  (fold (\<lambda>(name, h). add_link name h) links (set_timeout timeout t)) d2) (\<lambda>(h, _, d3).
      bind_res
        (if options AND opt_create_placeholder \<noteq> 0
         then fold_res (write_output_placeholder k h) (List.enumerate 0 outputs) d3 else Inr d3)
        (\<lambda>d4. Inr (h, d4)))))))"

section \<open>Writing and reading back\<close>

text \<open>Nothing else is stored under the name of a serialised thunk.\<close>

definition no_collision :: "(string \<Rightarrow> string) \<Rightarrow> string \<Rightarrow> disk \<Rightarrow> string \<Rightarrow> bool" where
  "no_collision sha256 gg_dir d s \<longleftrightarrow>
     (case d (blob gg_dir (hash_compute sha256 s Thunk)) of
        None \<Rightarrow> True | Some Directory \<Rightarrow> False | Some (Regular c _) \<Rightarrow> c = s)"

definition thunk_plain :: "thunk \<Rightarrow> bool" where
  "thunk_plain t \<longleftrightarrow> thunk_ok t \<and> keys_plain (th_values t) \<and> keys_plain (th_thunks t) \<and>
     keys_plain (th_executables t) \<and> 0 \<le> th_timeout t \<and> th_timeout t < 2 ^ 32"

lemma protobuf_roundtrip_plain:
  "thunk_plain t \<Longrightarrow> thunk_from_protobuf (thunk_to_protobuf t) = Inr (t\<lparr>th_hash := None\<rparr>)"
proof -
  assume t: "thunk_plain t"
  then have "uint (of_int (th_timeout t) :: 32 word) = th_timeout t"
    by (simp add: thunk_plain_def unsigned_of_int take_bit_int_eq_self)
  with t show ?thesis
    by (cases t; cases "th_function t") (simp add: thunk_from_protobuf_def thunk_to_protobuf_def
        function_from_protobuf_def function_to_protobuf_def data_list_roundtrip thunk_ok_def thunk_plain_def)
qed

lemma write_thunk_Inr:
  assumes "write_thunk sha256 encode k gg_dir path t d = Inr (h, t', d')"
  obtains bytes where "encode (thunk_to_protobuf t) = Some bytes"
    and "h = hash_compute sha256 (MAGIC_NUMBER @ bytes) Thunk" and "t' = set_hash h t"
    and "d' = d \<or> d' = d(target_path gg_dir path h \<mapsto> Regular (MAGIC_NUMBER @ bytes) 256)"
    and "d (target_path gg_dir path h) = None \<Longrightarrow>
       d' = d(target_path gg_dir path h \<mapsto> Regular (MAGIC_NUMBER @ bytes) 256)"
    and "d (target_path gg_dir path h) \<noteq> None \<Longrightarrow> d' = d"
proof -
  from assms obtain bytes where b: "encode (thunk_to_protobuf t) = Some bytes"
    and h: "h = hash_compute sha256 (MAGIC_NUMBER @ bytes) Thunk" and t': "t' = set_hash h t"
    and w: "(if \<not> path_exists (target_path gg_dir path h) d
       then atomic_create k (MAGIC_NUMBER @ bytes) (target_path gg_dir path h)
         (Some 256) d else Inr d) = Inr d'"
    by (auto simp: write_thunk_def serialize_def Let_def split: option.splits)
  from w show thesis
    by (intro that [OF b h t'])
      (auto simp: path_exists_def final_mode_def dest: atomic_create_Inr split: if_splits)
qed

text \<open>A well-formed thunk that has been written is read back from its blob as the same thunk, with
  its hash attached, and \<open>is_thunk\<close> recognises the file; it makes no difference whether the blob was
  there before.\<close>

lemma write_read_thunk:
  assumes "write_thunk sha256 encode k gg_dir None t d = Inr (h, t', d')"
    and "codec_ok encode decode" and "thunk_plain t"
    and "\<forall>bytes. encode (thunk_to_protobuf t) = Some bytes \<longrightarrow> no_collision sha256 gg_dir d (MAGIC_NUMBER @ bytes)"
  shows "read_thunk decode (blob gg_dir h) h d' = Inr t' \<and> is_thunk (blob gg_dir h) d' = Inr True"
proof -
  from assms(1) obtain bytes where b: "encode (thunk_to_protobuf t) = Some bytes"
    and h: "h = hash_compute sha256 (MAGIC_NUMBER @ bytes) Thunk" and t': "t' = set_hash h t"
    and new: "d (blob gg_dir h) = None \<Longrightarrow> d' = d(blob gg_dir h \<mapsto> Regular (MAGIC_NUMBER @ bytes) 256)"
    and old: "d (blob gg_dir h) \<noteq> None \<Longrightarrow> d' = d"
    by (rule write_thunk_Inr) (auto simp: target_path_def)
  have nc: "no_collision sha256 gg_dir d (MAGIC_NUMBER @ bytes)" using assms(4) b by simp
  obtain m where on_disk: "d' (blob gg_dir h) = Some (Regular (MAGIC_NUMBER @ bytes) m)"
  proof (cases "d (blob gg_dir h)")
    case None
    with new that show thesis by simp
  next
    case (Some n)
    with old nc that show thesis by (auto simp: no_collision_def h [symmetric] split: node.splits)
  qed
  have "decode bytes = thunk_to_protobuf t" using assms(2) b by (simp add: codec_ok_def)
  moreover have "length h > 0" by (simp add: h hash_compute_def)
  ultimately show ?thesis
    using on_disk by (simp add: read_thunk_def is_thunk_def protobuf_roundtrip_plain [OF assms(3)] t' set_hash_def)
qed

text \<open>The object store is content addressed: a blob's name is the hash of what it holds.\<close>

definition store_ok :: "(string \<Rightarrow> string) \<Rightarrow> string \<Rightarrow> disk \<Rightarrow> bool" where
  "store_ok sha256 gg_dir d \<longleftrightarrow>
     (\<forall>h c m. cache_key_ok h \<and> d (blob gg_dir h) = Some (Regular c m) \<longrightarrow>
        (\<exists>ty. h = hash_compute sha256 c ty))"

lemma cache_key_ok_compute [simp]: "cache_key_ok (hash_compute sha256 s ty)"
  by (cases ty) (simp_all add: cache_key_ok_def hash_compute_def)

lemma store_ok_update:
  "store_ok sha256 gg_dir d \<Longrightarrow>
     store_ok sha256 gg_dir (d(blob gg_dir (hash_compute sha256 s ty) \<mapsto> Regular s m))"
  by (auto simp: store_ok_def blob_inj)

text \<open>Writing a thunk keeps the object store content addressed, and writes no path but the
  thunk's own blob.\<close>

lemma write_thunk_store:
  assumes "store_ok sha256 gg_dir d" and "write_thunk sha256 encode k gg_dir None t d = Inr (h, t', d')"
  shows "store_ok sha256 gg_dir d' \<and> (\<forall>p. p \<noteq> blob gg_dir h \<longrightarrow> d' p = d p) \<and>
    (\<forall>p. d p \<noteq> None \<longrightarrow> d' p = d p)"
  using assms(2)
proof (rule write_thunk_Inr)
  fix bytes assume h: "h = hash_compute sha256 (MAGIC_NUMBER @ bytes) Thunk"
    and new: "d (target_path gg_dir None h) = None \<Longrightarrow>
       d' = d((target_path gg_dir None h) \<mapsto> Regular (MAGIC_NUMBER @ bytes) 256)"
    and old: "d (target_path gg_dir None h) \<noteq> None \<Longrightarrow> d' = d"
  show ?thesis
  proof (cases "d (blob gg_dir h) = None")
    case True
    with new have "d' = d(blob gg_dir h \<mapsto> Regular (MAGIC_NUMBER @ bytes) 256)" by (simp add: target_path_def)
    with True show ?thesis
      using store_ok_update [OF assms(1), of "MAGIC_NUMBER @ bytes" Thunk 256] by (simp add: h)
  next
    case False
    with old assms(1) show ?thesis by (simp add: target_path_def)
  qed
qed

section \<open>Placeholders round trip\<close>

lemma directive_lengths: "length SHEBANG_DIRECTIVE = 31" "length LIBRARY_DIRECTIVE = 31"
  by (simp_all add: SHEBANG_DIRECTIVE_def LIBRARY_DIRECTIVE_def)

lemma newline_space [simp]: "is_space newline"
  by (simp add: is_space_def newline_def)

definition one_word :: "string \<Rightarrow> bool" where
  "one_word h \<longleftrightarrow> h \<noteq> [] \<and> (\<forall>c \<in> set h. \<not> is_space c)"

lemma read_placeholder_str:
  assumes "one_word h"
  shows "read_placeholder_contents junk filename (placeholder_str h ty) = Inr (Some h)"
proof -
  define dir where "dir = (if ty = LinkerScript then LIBRARY_DIRECTIVE else SHEBANG_DIRECTIVE)"
  define rest where "rest = newline # (if ty = LinkerScript then ''*/'' else [])"
  have str: "placeholder_str h ty = dir @ newline # h @ rest"
    by (simp add: placeholder_str_def dir_def rest_def)
  have len: "length dir = 31" by (simp add: dir_def directive_lengths)
  have buf: "take 31 (directive_buffer junk (placeholder_str h ty)) = dir"
    unfolding directive_buffer_def str Let_def directive_lengths
    by (simp add: len take_Cons' drop_eq_Nil)
  have d: "drop 32 (placeholder_str h ty) = h @ rest"
    by (simp add: str len)
  have s: "is_space (hd rest)" "rest \<noteq> []" by (simp_all add: rest_def)
  have sp: "dropWhile is_space (h @ rest) = h @ rest"
    using assms by (cases h) (auto simp: one_word_def)
  have tw: "takeWhile (\<lambda>c. \<not> is_space c) (h @ rest) = h"
    "dropWhile (\<lambda>c. \<not> is_space c) (h @ rest) = rest"
    using assms s by (auto simp: one_word_def takeWhile_append dropWhile_append takeWhile_eq_Nil_iff
        dropWhile_eq_self_iff)
  have ne: "h \<noteq> []" using assms by (simp add: one_word_def)
  have "dir = SHEBANG_DIRECTIVE \<or> dir = LIBRARY_DIRECTIVE" by (simp add: dir_def)
  moreover have "\<not> length (placeholder_str h ty) < 32" using len by (simp add: str)
  ultimately show ?thesis
    unfolding read_placeholder_contents_def Let_def directive_lengths
    using buf d sp tw ne s by auto
qed

lemma write_placeholder_disk:
  assumes "write_placeholder k h filename d = Inr d'"
  shows "d' = d(filename \<mapsto> Regular (placeholder_str h (guess_type filename))
      (if guess_type filename = ShellScript then 493 else 384))"
  using assms
  by (auto simp: write_placeholder_def chmod_def final_mode_def dest!: atomic_create_Inr split: if_splits)

text \<open>The placeholder written for a hash is read back as that hash, whatever the name of the file
  makes of its form and whatever was in the read buffer; a placeholder in script form can be run.\<close>

lemma placeholder_roundtrip:
  assumes "write_placeholder k h filename d = Inr d'" and "one_word h"
  shows "read_placeholder junk filename d' = Inr (Some h) \<and>
    (\<exists>c m. d' filename = Some (Regular c m) \<and> is_placeholder c \<and>
       (guess_type filename = ShellScript \<longrightarrow> m AND S_IXUSR \<noteq> 0)) \<and>
    (\<forall>p. p \<noteq> filename \<longrightarrow> d' p = d p)"
proof -
  have "is_placeholder (placeholder_str h ty)" for ty
    by (simp add: is_placeholder_def placeholder_str_def directive_lengths)
  moreover have "(493 :: mode) AND S_IXUSR \<noteq> 0" by (simp add: S_IXUSR_def)
  ultimately show ?thesis
    unfolding write_placeholder_disk [OF assms(1)]
    by (simp add: read_placeholder_def read_placeholder_str [OF assms(2)])
qed

section \<open>What generate leaves behind\<close>

definition output_file :: "factory_output \<Rightarrow> string" where
  "output_file out = (case fo_filename out of Some f \<Rightarrow> f | None \<Rightarrow> fo_tag out)"

definition output_reference :: "string \<Rightarrow> nat \<Rightarrow> factory_output \<Rightarrow> string" where
  "output_reference h i out = (if i = 0 then h else for_output h (fo_tag out))"

lemma write_output_placeholder_conv:
  "write_output_placeholder k h (i, out) =
     write_placeholder k (output_reference h i out) (output_file out)"
  by (rule ext) (simp add: write_output_placeholder_def output_reference_def output_file_def Let_def)

lemma write_output_placeholders:
  assumes "fold_res (write_output_placeholder k h) (List.enumerate n outputs) d = Inr d'"
    and "distinct (map output_file outputs)" and "i < length outputs"
    and "one_word (output_reference h (n + i) (outputs ! i))"
  shows "read_placeholder junk (output_file (outputs ! i)) d' =
    Inr (Some (output_reference h (n + i) (outputs ! i)))"
  using assms
proof (induction outputs arbitrary: n i d)
  case Nil
  then show ?case by simp
next
  case (Cons out outputs)
  from Cons.prems(1) obtain d1 where
    w: "write_placeholder k (output_reference h n out) (output_file out) d = Inr d1"
    and rest: "fold_res (write_output_placeholder k h) (List.enumerate (Suc n) outputs) d1 = Inr d'"
    by (auto simp: write_output_placeholder_conv)
  show ?case
  proof (cases i)
    case (Suc j)
    then show ?thesis using Cons.IH [OF rest, of j] Cons.prems by simp
  next
    case 0
    have "d' (output_file out) = d1 (output_file out)"
    proof (rule fold_res_invariant [OF rest, where P = "\<lambda>x. x (output_file out) = d1 (output_file out)"])
      fix io s t assume io: "io \<in> set (List.enumerate (Suc n) outputs)"
        and s: "s (output_file out) = d1 (output_file out)"
        and t: "write_output_placeholder k h io s = Inr t"
      have "snd io = outputs ! (fst io - Suc n)" "fst io - Suc n < length outputs"
        using io by (auto simp: in_set_enumerate_eq)
      then have "snd io \<in> set outputs" by simp
      then have "output_file (snd io) \<noteq> output_file out" using Cons.prems(2)
        by (auto simp: image_iff)
      then show "t (output_file out) = d1 (output_file out)"
        using s t by (cases io) (auto simp: write_output_placeholder_conv dest!: write_placeholder_disk)
    qed simp
    then have "read_placeholder junk (output_file out) d' = read_placeholder junk (output_file out) d1"
      by (simp add: read_placeholder_def)
    also have "\<dots> = Inr (Some (output_reference h n out))"
      unfolding write_placeholder_disk [OF w] using Cons.prems(4) 0
      by (simp add: read_placeholder_def read_placeholder_str)
    finally show ?thesis using 0 by simp
  qed
qed

text \<open>After \<open>generate\<close> with placeholders, reading the file of each output gives a reference to that
  output of the thunk just written: the bare hash for the first, hash and tag for the others.\<close>

lemma generate_placeholders:
  assumes "generate sha256 encode k gg_dir f data executables outputs dummy_dirs timeout options links d = Inr (h, d')"
    and "options AND opt_create_placeholder \<noteq> 0"
    and "distinct (map output_file outputs)" and "i < length outputs"
    and "one_word (output_reference h i (outputs ! i))"
  shows "read_placeholder junk (output_file (outputs ! i)) d' =
    Inr (Some (output_reference h i (outputs ! i)))"
proof -
  from assms(1,2) obtain d3 where
    "fold_res (write_output_placeholder k h) (List.enumerate 0 outputs) d3 = Inr d'"
    by (auto simp: generate_def Let_def split: if_splits)
  from write_output_placeholders [OF this assms(3,4)] assms(5) show ?thesis by simp
qed

section \<open>The theorems at work\<close>

text \<open>A codec for the sample alone, enough for one object.\<close>

definition sample_encode :: "pb_thunk \<Rightarrow> string option" where
  "sample_encode p = (if p = thunk_to_protobuf sample_thunk then Some ''bytes'' else None)"

definition sample_decode :: "string \<Rightarrow> pb_thunk" where
  "sample_decode s = thunk_to_protobuf sample_thunk"

definition plain_kernel :: kernel where
  "plain_kernel = \<lparr>mkstemp_suffix = \<lambda>d dst. ''x'', write_accepts = \<lambda>s. length s\<rparr>"

lemma plain_kernel_simps [simp]:
  "mkstemp_suffix plain_kernel d dst = ''x''" "write_accepts plain_kernel s = length s"
  by (simp_all add: plain_kernel_def)

lemma plain_kernel_create:
  "d (temp_name dst ''x'') = None \<Longrightarrow> d dst \<noteq> Some Directory \<Longrightarrow>
     atomic_create plain_kernel contents dst m d = Inr (d(dst \<mapsto> Regular contents (final_mode m)))"
  by (rule atomic_create_effect) simp_all

lemma plain_kernel_create_empty:
  "atomic_create plain_kernel contents dst m Map.empty = Inr [dst \<mapsto> Regular contents (final_mode m)]"
  by (rule plain_kernel_create) simp_all

lemma sample_codec: "codec_ok sample_encode sample_decode"
  by (simp add: codec_ok_def sample_encode_def sample_decode_def split: if_splits)

lemma sample_plain: "thunk_plain sample_thunk"
  using sample_ok(1) by (simp add: thunk_plain_def keys_plain_def) (simp add: sample_thunk_def)

lemma sample_write:
  "\<exists>h d'. write_thunk toy_sha sample_encode plain_kernel ''/g'' None sample_thunk Map.empty =
     Inr (h, set_hash h sample_thunk, d')"
  by (simp add: write_thunk_def serialize_def sample_encode_def Let_def path_exists_def
      plain_kernel_create_empty)

lemma write_read_thunk_witness:
  "\<exists>h d'. write_thunk toy_sha sample_encode plain_kernel ''/g'' None sample_thunk Map.empty =
      Inr (h, set_hash h sample_thunk, d') \<and>
     read_thunk sample_decode (blob ''/g'' h) h d' = Inr (set_hash h sample_thunk)"
proof -
  from sample_write obtain h d' where
    w: "write_thunk toy_sha sample_encode plain_kernel ''/g'' None sample_thunk Map.empty =
      Inr (h, set_hash h sample_thunk, d')" by blast
  from write_read_thunk [OF w sample_codec sample_plain] w show ?thesis
    by (auto simp: no_collision_def)
qed

lemma write_thunk_store_witness:
  "\<exists>h d'. write_thunk toy_sha sample_encode plain_kernel ''/g'' None sample_thunk Map.empty =
      Inr (h, set_hash h sample_thunk, d') \<and> store_ok toy_sha ''/g'' d'"
proof -
  from sample_write obtain h d' where
    w: "write_thunk toy_sha sample_encode plain_kernel ''/g'' None sample_thunk Map.empty =
      Inr (h, set_hash h sample_thunk, d')" by blast
  have "store_ok toy_sha ''/g'' Map.empty" by (simp add: store_ok_def)
  from write_thunk_store [OF this w] w show ?thesis by blast
qed

lemma placeholder_roundtrip_witness:
  "\<exists>d'. write_placeholder plain_kernel ''T1#o'' ''lib.so.6'' Map.empty = Inr d' \<and>
     read_placeholder [] ''lib.so.6'' d' = Inr (Some ''T1#o'')"
proof -
  have g: "guess_type ''lib.so.6'' = LinkerScript" by code_simp
  obtain d' where w: "write_placeholder plain_kernel ''T1#o'' ''lib.so.6'' Map.empty = Inr d'"
    by (simp add: write_placeholder_def g plain_kernel_create_empty)
  have "one_word ''T1#o''" by (simp add: one_word_def is_space_def)
  from placeholder_roundtrip [OF w this, of "[]"] w show ?thesis by blast
qed

lemma generate_placeholders_witness:
  "\<exists>h d'. generate toy_sha sample_encode plain_kernel ''/g'' (th_function sample_thunk)
      [\<lparr>fd_filename = ''h.h'', fd_real_filename = ''h.h'', fd_hash = ''Vhdr'', fd_type = Value\<rparr>,
       \<lparr>fd_filename = ''x.i'', fd_real_filename = ''x.i'', fd_hash = ''Tpp'', fd_type = Thunk\<rparr>,
       \<lparr>fd_filename = ''y'', fd_real_filename = ''y'', fd_hash = ''Tas#o'', fd_type = Thunk\<rparr>]
      [\<lparr>fd_filename = [], fd_real_filename = [], fd_hash = ''Vcc'', fd_type = Value\<rparr>]
      [\<lparr>fo_tag = ''out'', fo_filename = None\<rparr>] [] 30 10 [(''l'', ''Vz'')] Map.empty = Inr (h, d') \<and>
     read_placeholder [] ''out'' d' = Inr (Some h)"
proof -
  let ?data = "[\<lparr>fd_filename = ''h.h'', fd_real_filename = ''h.h'', fd_hash = ''Vhdr'', fd_type = Value\<rparr>,
       \<lparr>fd_filename = ''x.i'', fd_real_filename = ''x.i'', fd_hash = ''Tpp'', fd_type = Thunk\<rparr>,
       \<lparr>fd_filename = ''y'', fd_real_filename = ''y'', fd_hash = ''Tas#o'', fd_type = Thunk\<rparr>]"
  let ?ex = "[\<lparr>fd_filename = [], fd_real_filename = [], fd_hash = ''Vcc'', fd_type = Value\<rparr>]"
  let ?out = "[\<lparr>fo_tag = ''out'', fo_filename = None\<rparr>]"
  have opts: "(10 :: 32 word) AND opt_generate_manifest = 0" "(10 :: 32 word) AND opt_collect_data = 0"
    "(10 :: 32 word) AND opt_create_placeholder \<noteq> 0" "(10 :: 32 word) AND opt_include_filenames \<noteq> 0"
    by (simp_all add: opt_generate_manifest_def opt_collect_data_def opt_create_placeholder_def
        opt_include_filenames_def)
  have t: "thunk_of_data (th_function sample_thunk) (map (thunk_item True) ?data)
      (map (thunk_item True) ?ex) (map fo_tag ?out) =
        Inr (sample_thunk\<lparr>th_links := [], th_timeout := 0, th_hash := None\<rparr>)"
    by (simp add: thunk_of_data_def thunk_item_def add_datum_def hash_type_def sample_thunk_def mm_build_def
        less_char_def)
  have same: "thunk_to_protobuf (add_link ''l'' ''Vz'' (set_timeout 30
      (sample_thunk\<lparr>th_links := [], th_timeout := 0, th_hash := None\<rparr>))) = thunk_to_protobuf sample_thunk"
    by (simp add: thunk_to_protobuf_def add_link_def set_timeout_def sample_thunk_def)
  define h where "h = hash_compute toy_sha (MAGIC_NUMBER @ ''bytes'') Thunk"
  have hs: "h \<noteq> []" "\<forall>c \<in> set h. \<not> is_space c"
    unfolding h_def by code_simp+
  have g: "guess_type ''out'' = ShellScript" by code_simp
  have ne: "target_path ''/g'' None h \<noteq> ''out''" "temp_name ''out'' ''x'' \<noteq> target_path ''/g'' None h"
    by (simp_all add: target_path_def blob_def blobs_def path_append_def temp_name_def)
  obtain d' where run: "generate toy_sha sample_encode plain_kernel ''/g'' (th_function sample_thunk)
      ?data ?ex ?out [] 30 10 [(''l'', ''Vz'')] Map.empty = Inr (h, d')"
    using ne by (simp only: generate_def Let_def opts simp_thms if_True if_False t bind_res_Inr case_prod_conv)
      (simp add: write_thunk_def serialize_def same sample_encode_def Let_def h_def [symmetric]
        path_exists_def plain_kernel_create_empty write_output_placeholder_conv output_reference_def
        output_file_def write_placeholder_def g plain_kernel_create chmod_def)
  have "one_word (output_reference h 0 (?out ! 0))"
    using hs by (simp add: output_reference_def one_word_def)
  from generate_placeholders [OF run opts(3) _ _ this, of "[]"] run show ?thesis
    by (auto simp: output_file_def output_reference_def)
qed

end
