(* ===== verification/Graph.thy ===== *)
theory Graph
  imports ThunkIO
begin

text \<open>
  The execution graph (\<open>src/thunk/graph.cc\<close>, \<open>graph.hh\<close>). \<open>thunks_\<close> holds the thunks not yet reduced,
  \<open>referencing_thunks_\<close> who waits for whom, \<open>original_hashes_\<close> and \<open>updated_hashes_\<close> the two ends of
  every chain of reductions. The unordered containers are maps, and lists without duplicates where
  the code iterates over them. The two recursive functions carry the depth of the call stack that is
  left; running out of it is \<open>Stack_overflow\<close>.
\<close>

record graph =
  g_thunks :: "string \<rightharpoonup> thunk"
  g_referencing :: "string \<rightharpoonup> string list"
  g_value_deps :: "string list"
  g_executable_deps :: "string list"
  g_original :: "string \<rightharpoonup> string"
  g_updated :: "string \<rightharpoonup> string"

definition empty_graph :: graph where
  "empty_graph = \<lparr>g_thunks = Map.empty, g_referencing = Map.empty, g_value_deps = [],
     g_executable_deps = [], g_original = Map.empty, g_updated = Map.empty\<rparr>"

definition updated_hash :: "graph \<Rightarrow> string \<Rightarrow> string" where
  "updated_hash g h = (case g_updated g h of Some u \<Rightarrow> u | None \<Rightarrow> h)"

definition original_hash :: "graph \<Rightarrow> string \<Rightarrow> string" where
  "original_hash g h = (case g_original g h of Some orig \<Rightarrow> orig | None \<Rightarrow> h)"

text \<open>\<open>unordered_map::at\<close>.\<close>

definition at_key :: "('k \<rightharpoonup> 'v) \<Rightarrow> 'k \<Rightarrow> 'v res" where
  "at_key m k = (case m k of None \<Rightarrow> Inl (Out_of_range ''_Map_base::at'') | Some v \<Rightarrow> Inr v)"

section \<open>Adding a thunk\<close>

text \<open>\<open>referencing_thunks_[ key ]\<close> makes an empty entry, \<open>emplace\<close> adds one element.\<close>

definition touch_referencing :: "string \<Rightarrow> graph \<Rightarrow> graph" where
  "touch_referencing key g =
     (case g_referencing g key of
        None \<Rightarrow> g\<lparr>g_referencing := (g_referencing g)(key \<mapsto> [])\<rparr>
      | Some _ \<Rightarrow> g)"

definition add_referencing :: "string \<Rightarrow> string \<Rightarrow> graph \<Rightarrow> graph" where
  "add_referencing key h g =
     g\<lparr>g_referencing := (g_referencing g)(key \<mapsto>
         uset_insert h (case g_referencing g key of None \<Rightarrow> [] | Some rs \<Rightarrow> rs))\<rparr>"

definition enter_thunk :: "string \<Rightarrow> thunk \<Rightarrow> graph \<Rightarrow> graph" where
  "enter_thunk h t g =
     (let g1 = touch_referencing h g
      in g1\<lparr>g_value_deps := uset_insert_all (map fst (th_values t)) (g_value_deps g1),
            g_executable_deps := uset_insert_all (map fst (th_executables t)) (g_executable_deps g1)\<rparr>)"

text \<open>The outputs the code makes up to rename a dependency: the new hash under every output tag of
  the \<^emph>\<open>referencing\<close> thunk.\<close>

definition outputs_for :: "string \<Rightarrow> string list \<Rightarrow> thunk_output list" where
  "outputs_for h tags = map (\<lambda>tag. \<lparr>out_hash = h, out_tag = tag\<rparr>) tags"

text \<open>The body of the loop over the dependencies; \<open>rec\<close> is the recursive call.\<close>

definition add_item ::
  "(string \<Rightarrow> graph \<Rightarrow> (string \<times> graph) res) \<Rightarrow> string \<Rightarrow> data_item \<Rightarrow>
     (string \<times> string) list \<times> graph \<Rightarrow> ((string \<times> string) list \<times> graph) res" where
  "add_item rec h item st =
     (let item_base = hash_base (fst item)
      in bind_res (rec item_base (snd st)) (\<lambda>(item_updated, g').
           Inr (if item_updated \<noteq> item_base then fst st @ [(item_base, item_updated)] else fst st,
                add_referencing item_updated h g')))"

fun add_thunk :: "nat \<Rightarrow> (string \<Rightarrow> thunk res) \<Rightarrow> string \<Rightarrow> graph \<Rightarrow> (string \<times> graph) res" where
  "add_thunk 0 rd full_hash g = Inl Stack_overflow"
| "add_thunk (Suc n) rd full_hash g =
     (let h = hash_base full_hash;
          updated = updated_hash g h
      in if g_thunks g updated \<noteq> None then Inr (updated, g)
         else if g_thunks g h \<noteq> None then Inr (h, g)
         else bind_res (rd h) (\<lambda>t.
              bind_res
                (fold_res (add_item (\<lambda>item_base. add_thunk n rd item_base) h) (th_thunks t)
                  ([], enter_thunk h t g))
                (\<lambda>(updates, g1).
              bind_res
                (fold_res (\<lambda>(a, b). update_data a (outputs_for b (th_outputs t))) updates t)
                (\<lambda>t'. Inr (h, if g_thunks g1 h = None
                              then g1\<lparr>g_thunks := (g_thunks g1)(h \<mapsto> t')\<rparr> else g1)))))"

section \<open>Replacing a thunk by its result\<close>

definition chain_hashes :: "string \<Rightarrow> string \<Rightarrow> graph \<Rightarrow> graph" where
  "chain_hashes old_hash new_hash g =
     (case g_original g old_hash of
        None \<Rightarrow> g\<lparr>g_original := (g_original g)(new_hash \<mapsto> old_hash),
                 g_updated := (g_updated g)(old_hash \<mapsto> new_hash)\<rparr>
      | Some orig \<Rightarrow>
          g\<lparr>g_original := (g_original g)(new_hash \<mapsto> orig, old_hash := None),
            g_updated := (g_updated g)(orig \<mapsto> new_hash)\<rparr>)"

definition update_referencing ::
  "string \<Rightarrow> thunk_output list \<Rightarrow> string \<Rightarrow> graph \<Rightarrow> graph res" where
  "update_referencing old_hash outputs r g =
     bind_res (at_key (g_thunks g) r) (\<lambda>t.
     bind_res (update_data old_hash outputs t) (\<lambda>t'.
       Inr (g\<lparr>g_thunks := (g_thunks g)(r \<mapsto> t')\<rparr>)))"

definition update_hash :: "string \<Rightarrow> thunk_output list \<Rightarrow> graph \<Rightarrow> graph res" where
  "update_hash old_hash outputs g =
     (if outputs = [] then Inl Undefined_behaviour
      else let new_hash = out_hash (hd outputs)
           in bind_res (hash_type new_hash) (\<lambda>ty.
              let g1 = (if ty = Thunk then chain_hashes old_hash new_hash g else g)
              in bind_res (at_key (g_referencing g1) old_hash) (\<lambda>rs.
                 bind_res (fold_res (update_referencing old_hash outputs) rs g1) (\<lambda>g2.
                   Inr (g2\<lparr>g_thunks := (g_thunks g2)(old_hash := None),
                          g_referencing := (g_referencing g2)(new_hash \<mapsto> rs, old_hash := None)\<rparr>)))))"

section \<open>Who can run next\<close>

definition insert_result :: "string list res \<Rightarrow> string list \<Rightarrow> string list res" where
  "insert_result sub result =
     bind_res sub (\<lambda>subresult. Inr (uset_insert_all subresult result))"

fun order_one_dependencies :: "nat \<Rightarrow> graph \<Rightarrow> string \<Rightarrow> string list res" where
  "order_one_dependencies 0 g input_hash = Inl Stack_overflow"
| "order_one_dependencies (Suc n) g input_hash =
     (let h = hash_base input_hash
      in case g_thunks g h of
           None \<Rightarrow> Inl (Runtime_error ''thunk hash not found in the execution graph'')
         | Some t \<Rightarrow>
             (if can_be_executed t then Inr [h]
              else fold_res (\<lambda>item. insert_result (order_one_dependencies n g (fst item)))
                     (th_thunks t) []))"

section \<open>Forcing\<close>

text \<open>What the code reaches outside the graph: the object store, SHA-256 and protobuf.\<close>

record 'd env =
  env_read :: "'d \<Rightarrow> string \<Rightarrow> thunk res"
  env_write :: "thunk \<Rightarrow> 'd \<Rightarrow> (string \<times> thunk \<times> 'd) res"

definition store_env ::
  "(string \<Rightarrow> string) \<Rightarrow> (pb_thunk \<Rightarrow> string option) \<Rightarrow> (string \<Rightarrow> pb_thunk) \<Rightarrow> kernel \<Rightarrow> string \<Rightarrow> disk env" where
  "store_env sha256 encode decode k gg_dir =
     \<lparr>env_read = (\<lambda>d h. read_thunk decode (blob gg_dir h) h d),
      env_write = (\<lambda>t d. write_thunk sha256 encode k gg_dir None t d)\<rparr>"

text \<open>One round of the loop over the thunks that reference the result: a thunk without dependencies
  left is written and takes its new hash everywhere.\<close>

definition promote ::
  "'d env \<Rightarrow> string \<Rightarrow> string list \<times> graph \<times> 'd \<Rightarrow> (string list \<times> graph \<times> 'd) res" where
  "promote env r st =
     (case st of (next_to_execute, g, d) \<Rightarrow>
        bind_res (at_key (g_thunks g) r) (\<lambda>t.
          if can_be_executed t then
            bind_res (env_write env t d) (\<lambda>(new_hash, t', d').
            bind_res (update_hash r (outputs_for new_hash (th_outputs t))
                (if g_thunks g new_hash = None
                 then g\<lparr>g_thunks := (g_thunks g)(new_hash \<mapsto> t')\<rparr> else g)) (\<lambda>g'.
              Inr (uset_insert new_hash next_to_execute, g', d')))
          else Inr (next_to_execute, g, d)))"

definition force_thunk ::
  "nat \<Rightarrow> 'd env \<Rightarrow> string \<Rightarrow> thunk_output list \<Rightarrow> graph \<Rightarrow> 'd \<Rightarrow>
     (string list option \<times> graph \<times> 'd) res" where
  "force_thunk n env old_hash outputs g d =
     (if g_thunks g old_hash = None then Inr (None, g, d)
      else if outputs = [] then Inl Undefined_behaviour
      else bind_res (hash_type (out_hash (hd outputs))) (\<lambda>new_type.
           bind_res
             (if new_type = Thunk then add_thunk n (env_read env d) (out_hash (hd outputs)) g
              else Inr (out_hash (hd outputs), g)) (\<lambda>(actual_new_hash, g1).
           let outputs' = (hd outputs)\<lparr>out_hash := actual_new_hash\<rparr> # tl outputs
           in bind_res (update_hash old_hash outputs' g1) (\<lambda>g2.
              bind_res (at_key (g_referencing g2) actual_new_hash) (\<lambda>rs.
              bind_res (fold_res (promote env) rs ([], g2, d)) (\<lambda>(next_to_execute, g3, d').
                if new_type = Thunk then
                  bind_res (order_one_dependencies n g3 actual_new_hash) (\<lambda>nexts.
                    Inr (Some nexts, g3, d'))
                else Inr (Some next_to_execute,
                       g3\<lparr>g_referencing := (g_referencing g3)(actual_new_hash := None)\<rparr>, d')))))))"

end
