(* ===== verification/GraphLaws.thy ===== *)
theory GraphLaws
  imports Graph
begin

text \<open>
  What keeps the execution graph right. A graph is \<open>closed\<close> when every dependency is in it, and its
  references are exact when \<open>referencing_thunks_\<close> lists just the thunks that depend on an entry.
  Building a graph establishes both; the search for runnable thunks finds exactly the reachable ones;
  forcing a thunk to a value keeps both and reports the thunks that became runnable.
\<close>

section \<open>The dependency relation\<close>

definition deps :: "thunk \<Rightarrow> string set" where
  "deps t = hash_base ` fst ` set (th_thunks t)"

inductive depends :: "graph \<Rightarrow> string \<Rightarrow> string \<Rightarrow> bool" where
  depends_item: "g_thunks g h = Some t \<Longrightarrow> item \<in> set (th_thunks t) \<Longrightarrow> depends g h (hash_base (fst item))"

inductive_cases dependsE: "depends g h k"

lemma depends_iff: "depends g h k \<longleftrightarrow> (\<exists>t. g_thunks g h = Some t \<and> k \<in> deps t)"
  by (auto simp: deps_def elim!: dependsE intro: depends_item)

definition closed :: "graph \<Rightarrow> bool" where
  "closed g \<longleftrightarrow> (\<forall>h k. depends g h k \<longrightarrow> g_thunks g k \<noteq> None)"

definition refs_exact :: "graph \<Rightarrow> bool" where
  "refs_exact g \<longleftrightarrow> (\<forall>k. g_thunks g k \<noteq> None \<longrightarrow>
     (\<exists>rs. g_referencing g k = Some rs \<and> distinct rs \<and> set rs = {h. depends g h k}))"

definition executable_in :: "graph \<Rightarrow> string \<Rightarrow> bool" where
  "executable_in g h \<longleftrightarrow> (\<exists>t. g_thunks g h = Some t \<and> can_be_executed t)"

lemma executable_no_deps: "executable_in g h \<Longrightarrow> \<not> depends g h k"
  by (auto simp: executable_in_def can_be_executed_def elim!: dependsE)

section \<open>Runnable thunks\<close>

lemma insert_result_Inr:
  "insert_result r acc = Inr out \<longleftrightarrow> (\<exists>sub. r = Inr sub \<and> out = uset_insert_all sub acc)"
  by (auto simp: insert_result_def)

lemma fold_insert_result:
  assumes "fold_res (\<lambda>item. insert_result (f item)) items start = Inr out"
  shows "(\<forall>item \<in> set items. \<exists>sub. f item = Inr sub) \<and> (distinct start \<longrightarrow> distinct out) \<and>
    set out = set start \<union> {x. \<exists>item \<in> set items. \<exists>sub. f item = Inr sub \<and> x \<in> set sub}"
  using assms
proof (induction items arbitrary: start)
  case Nil
  then show ?case by simp
next
  case (Cons item items)
  from Cons.prems obtain sub where sub: "f item = Inr sub"
    and rest: "fold_res (\<lambda>item. insert_result (f item)) items (uset_insert_all sub start) = Inr out"
    by (auto simp: insert_result_Inr)
  from Cons.IH [OF rest] sub show ?case by auto
qed

lemma fold_insert_result_total:
  "(\<And>item. item \<in> set items \<Longrightarrow> \<exists>sub. f item = Inr sub) \<Longrightarrow>
     \<exists>out. fold_res (\<lambda>item. insert_result (f item)) items start = Inr out"
proof (induction items arbitrary: start)
  case (Cons item items)
  from Cons.prems obtain sub where "f item = Inr sub" by fastforce
  with Cons show ?case by (simp add: insert_result_def)
qed simp

lemma order_one_exact:
  "order_one_dependencies n g h = Inr xs \<Longrightarrow>
     distinct xs \<and> set xs = {x. (depends g)\<^sup>*\<^sup>* (hash_base h) x \<and> executable_in g x}"
proof (induction n arbitrary: h xs)
  case 0
  then show ?case by simp
next
  case (Suc n)
  from Suc.prems obtain t where t: "g_thunks g (hash_base h) = Some t"
    by (cases "g_thunks g (hash_base h)") (simp_all add: Let_def)
  show ?case
  proof (cases "can_be_executed t")
    case True
    with t have e: "executable_in g (hash_base h)" by (simp add: executable_in_def)
    have "x = hash_base h" if "(depends g)\<^sup>*\<^sup>* (hash_base h) x" for x
      using that executable_no_deps [OF e] by (metis converse_rtranclpE)
    with Suc.prems t True e show ?thesis by auto
  next
    case False
    from Suc.prems t False have
      fold: "fold_res (\<lambda>item. insert_result (order_one_dependencies n g (fst item))) (th_thunks t) [] = Inr xs"
      by simp
    note u = fold_insert_result [OF fold]
    have sub: "\<exists>sub. order_one_dependencies n g (fst item) = Inr sub \<and>
        set sub = {x. (depends g)\<^sup>*\<^sup>* (hash_base (fst item)) x \<and> executable_in g x}"
      if "item \<in> set (th_thunks t)" for item
      using u that Suc.IH by blast
    have "set xs = (\<Union>item \<in> set (th_thunks t).
        {x. (depends g)\<^sup>*\<^sup>* (hash_base (fst item)) x \<and> executable_in g x})"
    proof (intro set_eqI iffI)
      fix x assume "x \<in> set xs"
      with u obtain item s where "item \<in> set (th_thunks t)"
        "order_one_dependencies n g (fst item) = Inr s" "x \<in> set s" by auto
      with sub [of item] show "x \<in> (\<Union>item \<in> set (th_thunks t).
        {x. (depends g)\<^sup>*\<^sup>* (hash_base (fst item)) x \<and> executable_in g x})" by fastforce
    next
      fix x assume "x \<in> (\<Union>item \<in> set (th_thunks t).
        {x. (depends g)\<^sup>*\<^sup>* (hash_base (fst item)) x \<and> executable_in g x})"
      then obtain item where item: "item \<in> set (th_thunks t)"
        and x: "x \<in> {x. (depends g)\<^sup>*\<^sup>* (hash_base (fst item)) x \<and> executable_in g x}" by blast
      from sub [OF item] x obtain s where "order_one_dependencies n g (fst item) = Inr s" "x \<in> set s"
        by auto
      with item u show "x \<in> set xs" by auto
    qed
    also have "\<dots> = {x. (depends g)\<^sup>*\<^sup>* (hash_base h) x \<and> executable_in g x}"
    proof (intro set_eqI iffI)
      fix x assume "x \<in> (\<Union>item \<in> set (th_thunks t).
        {x. (depends g)\<^sup>*\<^sup>* (hash_base (fst item)) x \<and> executable_in g x})"
      with t show "x \<in> {x. (depends g)\<^sup>*\<^sup>* (hash_base h) x \<and> executable_in g x}"
        by (auto intro: converse_rtranclp_into_rtranclp depends_item)
    next
      fix x assume x: "x \<in> {x. (depends g)\<^sup>*\<^sup>* (hash_base h) x \<and> executable_in g x}"
      with t False have "x \<noteq> hash_base h" by (auto simp: executable_in_def)
      with x obtain k where "depends g (hash_base h) k" "(depends g)\<^sup>*\<^sup>* k x"
        by (auto elim: converse_rtranclpE)
      with t x show "x \<in> (\<Union>item \<in> set (th_thunks t).
        {x. (depends g)\<^sup>*\<^sup>* (hash_base (fst item)) x \<and> executable_in g x})"
        by (auto elim!: dependsE)
    qed
    finally show ?thesis using u by simp
  qed
qed

lemma order_one_returns:
  assumes "closed g" and "\<forall>h k. depends g h k \<longrightarrow> rank k < rank h"
    and "g_thunks g (hash_base h) \<noteq> None" and "rank (hash_base h) < n"
  shows "\<exists>xs. order_one_dependencies n g h = Inr xs \<and> xs \<noteq> []"
  using assms(3,4)
proof (induction n arbitrary: h)
  case 0
  then show ?case by simp
next
  case (Suc n)
  from Suc.prems obtain t where t: "g_thunks g (hash_base h) = Some t" by auto
  show ?case
  proof (cases "can_be_executed t")
    case True
    with t show ?thesis by simp
  next
    case False
    have sub: "\<exists>xs. order_one_dependencies n g (fst item) = Inr xs \<and> xs \<noteq> []"
      if "item \<in> set (th_thunks t)" for item
    proof (rule Suc.IH)
      from t that have d: "depends g (hash_base h) (hash_base (fst item))" by (rule depends_item)
      with assms(1) show "g_thunks g (hash_base (fst item)) \<noteq> None" by (simp add: closed_def)
      from d assms(2) Suc.prems(2) show "rank (hash_base (fst item)) < n"
        by (meson less_Suc_eq_le less_le_trans)
    qed
    obtain xs where xs:
      "fold_res (\<lambda>item. insert_result (order_one_dependencies n g (fst item))) (th_thunks t) [] = Inr xs"
      using fold_insert_result_total [of "th_thunks t" "\<lambda>item. order_one_dependencies n g (fst item)" "[]"] sub
      by blast
    obtain item where item: "item \<in> set (th_thunks t)"
      using False by (cases "th_thunks t") (auto simp: can_be_executed_def)
    with sub obtain y ys where "order_one_dependencies n g (fst item) = Inr (y # ys)"
      by (metis neq_Nil_conv)
    with item fold_insert_result [OF xs] have "y \<in> set xs" by force
    with xs t False show ?thesis by auto
  qed
qed

text \<open>C33: in a closed acyclic graph the search for runnable thunks returns, within a depth bounded by
  the length of a dependency chain, and it returns every runnable thunk below the start and nothing
  else; there always is one, so no graph is stuck.\<close>

theorem order_one_complete:
  assumes "closed g" and "\<forall>h k. depends g h k \<longrightarrow> rank k < rank h"
    and "g_thunks g (hash_base h) \<noteq> None" and "rank (hash_base h) < n"
  shows "\<exists>xs. order_one_dependencies n g h = Inr xs \<and> xs \<noteq> [] \<and> distinct xs \<and>
    set xs = {x. (depends g)\<^sup>*\<^sup>* (hash_base h) x \<and> executable_in g x}"
  using order_one_returns [OF assms] order_one_exact by blast

section \<open>Building the graph\<close>

text \<open>\<open>pending\<close> are the thunks on the call stack: they already wait for the dependencies that have
  been added but are not in the graph.\<close>

definition refs_sound :: "(string \<rightharpoonup> thunk) \<Rightarrow> graph \<Rightarrow> bool" where
  "refs_sound pending g \<longleftrightarrow>
     (\<forall>k rs. g_referencing g k = Some rs \<longrightarrow> distinct rs \<and>
        (\<forall>r \<in> set rs. depends g r k \<or> (\<exists>t. pending r = Some t \<and> k \<in> deps t)))"

definition refs_complete :: "graph \<Rightarrow> bool" where
  "refs_complete g \<longleftrightarrow>
     (\<forall>h k. depends g h k \<longrightarrow> g_thunks g k \<noteq> None \<and> (\<exists>rs. g_referencing g k = Some rs \<and> h \<in> set rs))"

definition known :: "(string \<rightharpoonup> thunk) \<Rightarrow> graph \<Rightarrow> string \<Rightarrow> thunk \<Rightarrow> bool" where
  "known pending g h t \<longleftrightarrow> g_thunks g h = Some t \<or> pending h = Some t"

definition entered :: "(string \<Rightarrow> thunk res) \<Rightarrow> (string \<rightharpoonup> thunk) \<Rightarrow> graph \<Rightarrow> bool" where
  "entered rd pending g \<longleftrightarrow>
     (\<forall>h t. known pending g h t \<longrightarrow> rd h = Inr t \<and> g_referencing g h \<noteq> None \<and>
        fst ` set (th_values t) \<subseteq> set (g_value_deps g) \<and>
        fst ` set (th_executables t) \<subseteq> set (g_executable_deps g))"

definition building ::
  "(string \<Rightarrow> thunk res) \<Rightarrow> (string \<rightharpoonup> thunk) \<Rightarrow> graph \<Rightarrow> bool" where
  "building rd pending g \<longleftrightarrow>
     g_updated g = Map.empty \<and> refs_sound pending g \<and> refs_complete g \<and> entered rd pending g"

text \<open>What only grows while a graph is built.\<close>

definition grows :: "graph \<Rightarrow> graph \<Rightarrow> bool" where
  "grows g g' \<longleftrightarrow>
     (\<forall>k t. g_thunks g k = Some t \<longrightarrow> g_thunks g' k = Some t) \<and>
     (\<forall>k rs. g_referencing g k = Some rs \<longrightarrow> (\<exists>rs'. g_referencing g' k = Some rs' \<and> set rs \<subseteq> set rs'))"

lemma grows_refl [simp]: "grows g g"
  by (simp add: grows_def)

lemma grows_trans: "grows a b \<Longrightarrow> grows b c \<Longrightarrow> grows a c"
  unfolding grows_def by (meson order_trans)

lemma graph_upd_simps [simp]:
  "g_thunks (touch_referencing h g) = g_thunks g" "g_updated (touch_referencing h g) = g_updated g"
  "g_value_deps (touch_referencing h g) = g_value_deps g"
  "g_executable_deps (touch_referencing h g) = g_executable_deps g"
  "g_thunks (add_referencing k h g) = g_thunks g" "g_updated (add_referencing k h g) = g_updated g"
  "g_value_deps (add_referencing k h g) = g_value_deps g"
  "g_executable_deps (add_referencing k h g) = g_executable_deps g"
  "g_thunks (enter_thunk h t g) = g_thunks g" "g_updated (enter_thunk h t g) = g_updated g"
  "g_referencing (enter_thunk h t g) = g_referencing (touch_referencing h g)"
  by (simp_all add: touch_referencing_def add_referencing_def enter_thunk_def Let_def split: option.splits)

lemma depends_thunks: "g_thunks g = g_thunks g' \<Longrightarrow> depends g = depends g'"
  by (intro ext) (simp add: depends_iff)

lemma depends_upd_simps [simp]:
  "depends (touch_referencing h g) = depends g" "depends (add_referencing k h g) = depends g"
  "depends (enter_thunk h t g) = depends g"
  by (rule depends_thunks; simp)+

lemma touch_referencing_at:
  "g_referencing (touch_referencing h g) k =
     (if k = h \<and> g_referencing g h = None then Some [] else g_referencing g k)"
  by (auto simp: touch_referencing_def split: option.splits)

lemma add_referencing_at:
  "g_referencing (add_referencing key h g) k =
     (if k = key then Some (uset_insert h (case g_referencing g key of None \<Rightarrow> [] | Some rs \<Rightarrow> rs))
      else g_referencing g k)"
  by (simp add: add_referencing_def)

lemma refs_soundI:
  assumes "\<And>k rs. g_referencing g k = Some rs \<Longrightarrow> distinct rs"
    and "\<And>k rs r. g_referencing g k = Some rs \<Longrightarrow> r \<in> set rs \<Longrightarrow>
       depends g r k \<or> (\<exists>t. pending r = Some t \<and> k \<in> deps t)"
  shows "refs_sound pending g"
  using assms by (auto simp: refs_sound_def)

lemma refs_soundD:
  assumes "refs_sound pending g" and "g_referencing g k = Some rs"
  shows "distinct rs" and "r \<in> set rs \<Longrightarrow> depends g r k \<or> (\<exists>t. pending r = Some t \<and> k \<in> deps t)"
  using assms by (auto simp: refs_sound_def)

lemma refs_complete_grows:
  assumes "refs_complete g" and "g_thunks g' = g_thunks g" and "grows g g'"
  shows "refs_complete g'"
  unfolding refs_complete_def
proof (intro allI impI conjI)
  fix h k assume "depends g' h k"
  then have d: "depends g h k" using depends_thunks [OF assms(2)] by simp
  with assms(1,2) show "g_thunks g' k \<noteq> None" by (simp add: refs_complete_def)
  from d assms(1) obtain rs where "g_referencing g k = Some rs" "h \<in> set rs"
    by (auto simp: refs_complete_def)
  with assms(3) show "\<exists>rs. g_referencing g' k = Some rs \<and> h \<in> set rs"
    by (fastforce simp: grows_def)
qed

lemma enter_thunk_deps:
  "set (g_value_deps (enter_thunk h t g)) = fst ` set (th_values t) \<union> set (g_value_deps g)"
  "set (g_executable_deps (enter_thunk h t g)) = fst ` set (th_executables t) \<union> set (g_executable_deps g)"
  by (simp_all add: enter_thunk_def Let_def)

lemma building_enter:
  assumes "building rd pending g" and "rd h = Inr t"
  shows "building rd (pending(h \<mapsto> t)) (enter_thunk h t g)" and "grows g (enter_thunk h t g)"
proof -
  have same: "t' = t" if "pending h = Some t'" for t'
    using assms that by (force simp: building_def entered_def known_def)
  have sound: "refs_sound pending g" and complete: "refs_complete g" and entered: "entered rd pending g"
    using assms(1) by (simp_all add: building_def)
  have old: "(pending(h \<mapsto> t)) r = Some t'" if "pending r = Some t'" for r t'
    using same that by (cases "r = h") auto
  have grows: "grows g (enter_thunk h t g)"
    by (auto simp: grows_def touch_referencing_at)
  have "refs_sound (pending(h \<mapsto> t)) (enter_thunk h t g)"
  proof (rule refs_soundI)
    fix k rs assume k: "g_referencing (enter_thunk h t g) k = Some rs"
    then have "g_referencing g k = Some rs \<or> rs = []" by (simp add: touch_referencing_at split: if_splits)
    then show "distinct rs" using refs_soundD(1) [OF sound] by auto
    fix r assume "r \<in> set rs"
    with k have "g_referencing g k = Some rs" by (auto simp: touch_referencing_at split: if_splits)
    from refs_soundD(2) [OF sound this \<open>r \<in> set rs\<close>]
    show "depends (enter_thunk h t g) r k \<or> (\<exists>t'. (pending(h \<mapsto> t)) r = Some t' \<and> k \<in> deps t')"
      using old by fastforce
  qed
  moreover have "refs_complete (enter_thunk h t g)"
    by (rule refs_complete_grows [OF complete _ grows]) simp
  moreover have "entered rd (pending(h \<mapsto> t)) (enter_thunk h t g)"
    unfolding entered_def
  proof (intro allI impI)
    fix x y assume "known (pending(h \<mapsto> t)) (enter_thunk h t g) x y"
    then consider (old) "known pending g x y" | (new) "x = h" "y = t"
      by (auto simp: known_def split: if_splits)
    then show "rd x = Inr y \<and> g_referencing (enter_thunk h t g) x \<noteq> None \<and>
        fst ` set (th_values y) \<subseteq> set (g_value_deps (enter_thunk h t g)) \<and>
        fst ` set (th_executables y) \<subseteq> set (g_executable_deps (enter_thunk h t g))"
    proof cases
      case old
      with entered have "rd x = Inr y \<and> g_referencing g x \<noteq> None \<and>
          fst ` set (th_values y) \<subseteq> set (g_value_deps g) \<and>
          fst ` set (th_executables y) \<subseteq> set (g_executable_deps g)"
        by (simp add: entered_def)
      then show ?thesis
        by (simp add: touch_referencing_at enter_thunk_deps le_supI2)
    next
      case new
      with assms(2) show ?thesis
        by (simp add: touch_referencing_at enter_thunk_deps)
    qed
  qed
  ultimately show "building rd (pending(h \<mapsto> t)) (enter_thunk h t g)"
    using assms(1) by (simp add: building_def)
  show "grows g (enter_thunk h t g)" by (rule grows)
qed

lemma building_reference:
  assumes "building rd pending g" and "pending h = Some t" and "k \<in> deps t" and "g_thunks g k \<noteq> None"
  shows "building rd pending (add_referencing k h g)" and "grows g (add_referencing k h g)"
    and "\<exists>rs. g_referencing (add_referencing k h g) k = Some rs \<and> h \<in> set rs"
proof -
  have sound: "refs_sound pending g" and complete: "refs_complete g" and entered: "entered rd pending g"
    using assms(1) by (simp_all add: building_def)
  have "refs_sound pending (add_referencing k h g)"
  proof (rule refs_soundI)
    fix k' rs assume k': "g_referencing (add_referencing k h g) k' = Some rs"
    show "distinct rs"
      using k' refs_soundD(1) [OF sound] by (auto simp: add_referencing_at split: if_splits option.splits)
    fix r assume "r \<in> set rs"
    with k' consider "r = h" "k' = k" | rs' where "g_referencing g k' = Some rs'" "r \<in> set rs'"
      by (auto simp: add_referencing_at split: if_splits option.splits)
    then show "depends (add_referencing k h g) r k' \<or> (\<exists>t'. pending r = Some t' \<and> k' \<in> deps t')"
      using assms(2,3) refs_soundD(2) [OF sound] by cases auto
  qed
  moreover have grows: "grows g (add_referencing k h g)"
    by (auto simp: grows_def add_referencing_at)
  moreover have "refs_complete (add_referencing k h g)"
    by (rule refs_complete_grows [OF complete _ grows]) simp
  moreover have "entered rd pending (add_referencing k h g)"
    using assms(1) unfolding building_def entered_def known_def
    by (auto simp: add_referencing_at)
  ultimately show "building rd pending (add_referencing k h g)"
    using assms(1) by (simp add: building_def)
  show "grows g (add_referencing k h g)" by (rule grows)
  show "\<exists>rs. g_referencing (add_referencing k h g) k = Some rs \<and> h \<in> set rs"
    by (simp add: add_referencing_at)
qed

definition insert_thunk :: "string \<Rightarrow> thunk \<Rightarrow> graph \<Rightarrow> graph" where
  "insert_thunk h t g =
     (if g_thunks g h = None then g\<lparr>g_thunks := (g_thunks g)(h \<mapsto> t)\<rparr> else g)"

lemma depends_insert:
  "g_thunks g h = None \<Longrightarrow>
     depends (insert_thunk h t g) x k \<longleftrightarrow> depends g x k \<or> x = h \<and> k \<in> deps t"
  by (auto simp: depends_iff insert_thunk_def)

lemma building_insert:
  assumes "building rd (pending(h \<mapsto> t)) g"
    and "\<And>k. k \<in> deps t \<Longrightarrow> g_thunks g k \<noteq> None \<and> (\<exists>rs. g_referencing g k = Some rs \<and> h \<in> set rs)"
    and "\<And>t'. pending h = Some t' \<Longrightarrow> t' = t"
  shows "building rd pending (insert_thunk h t g)" and "grows g (insert_thunk h t g)"
    and "g_thunks (insert_thunk h t g) h = Some t"
proof -
  have rd: "rd h = Inr t" using assms(1) by (simp add: building_def entered_def known_def)
  have old: "t' = t" if "g_thunks g h = Some t'" for t'
    using assms(1) that rd by (force simp: building_def entered_def known_def)
  have known: "known (pending(h \<mapsto> t)) g x y" if "known pending (insert_thunk h t g) x y" for x y
    using that assms(3) old by (auto simp: known_def insert_thunk_def split: if_splits)
  have dep: "depends (insert_thunk h t g) x k \<longleftrightarrow> depends g x k \<or> x = h \<and> k \<in> deps t" for x k
    using old by (cases "g_thunks g h") (auto simp: depends_insert insert_thunk_def depends_iff)
  show at: "g_thunks (insert_thunk h t g) h = Some t"
    using old by (auto simp: insert_thunk_def)
  have refs: "g_referencing (insert_thunk h t g) = g_referencing g" "g_updated (insert_thunk h t g) = g_updated g"
    "g_value_deps (insert_thunk h t g) = g_value_deps g"
    "g_executable_deps (insert_thunk h t g) = g_executable_deps g"
    by (simp_all add: insert_thunk_def)
  have keeps: "g_thunks (insert_thunk h t g) k \<noteq> None" if "g_thunks g k \<noteq> None" for k
    using that by (simp add: insert_thunk_def)
  have "refs_sound pending (insert_thunk h t g)"
    using assms(1) unfolding building_def refs_sound_def refs dep
    by (metis fun_upd_apply option.inject)
  moreover have "refs_complete (insert_thunk h t g)"
    using assms(1,2) keeps unfolding building_def refs_complete_def refs dep by metis
  moreover have "entered rd pending (insert_thunk h t g)"
    using assms(1) known unfolding building_def entered_def refs by blast
  ultimately show "building rd pending (insert_thunk h t g)"
    using assms(1) refs by (simp add: building_def)
  show "grows g (insert_thunk h t g)"
    by (auto simp: grows_def insert_thunk_def)
qed

text \<open>The induction: a recursive call that keeps the invariant makes the loop keep it.\<close>

lemma add_item_Inr:
  "add_item rec h item (ups, g) = Inr st' \<longleftrightarrow>
     (\<exists>u g'. rec (hash_base (fst item)) g = Inr (u, g') \<and>
        st' = (if u \<noteq> hash_base (fst item) then ups @ [(hash_base (fst item), u)] else ups,
               add_referencing u h g'))"
  by (auto simp: add_item_def Let_def)

text \<open>A thunk that is not in the graph yet.\<close>

lemma add_thunk_new:
  assumes "updated_hash g (hash_base full_hash) = hash_base full_hash"
    and "g_thunks g (hash_base full_hash) = None"
    and "add_thunk (Suc n) rd full_hash g = Inr (u, g')"
  obtains t ups g1 t' where "rd (hash_base full_hash) = Inr t"
    and "fold_res (add_item (\<lambda>item_base. add_thunk n rd item_base) (hash_base full_hash)) (th_thunks t)
       ([], enter_thunk (hash_base full_hash) t g) = Inr (ups, g1)"
    and "fold_res (\<lambda>(a, b). update_data a (outputs_for b (th_outputs t))) ups t = Inr t'"
    and "u = hash_base full_hash" and "g' = insert_thunk (hash_base full_hash) t' g1"
proof -
  define h where "h = hash_base full_hash"
  have "bind_res (rd h) (\<lambda>t. bind_res
      (fold_res (add_item (\<lambda>item_base. add_thunk n rd item_base) h) (th_thunks t) ([], enter_thunk h t g))
      (\<lambda>(ups, g1). bind_res (fold_res (\<lambda>(a, b). update_data a (outputs_for b (th_outputs t))) ups t)
        (\<lambda>t'. Inr (h, insert_thunk h t' g1)))) = Inr (u, g')"
    using assms by (simp add: h_def Let_def insert_thunk_def)
  then show thesis
  proof (elim bind_resE)
    fix t st assume t: "rd h = Inr t"
      and loop: "fold_res (add_item (\<lambda>item_base. add_thunk n rd item_base) h) (th_thunks t)
        ([], enter_thunk h t g) = Inr st"
      and rest: "(case st of (ups, g1) \<Rightarrow> bind_res
          (fold_res (\<lambda>(a, b). update_data a (outputs_for b (th_outputs t))) ups t)
          (\<lambda>t'. Inr (h, insert_thunk h t' g1))) = Inr (u, g')"
    obtain ups g1 where st: "st = (ups, g1)" by (cases st)
    from rest obtain t' where "fold_res (\<lambda>(a, b). update_data a (outputs_for b (th_outputs t))) ups t = Inr t'"
      and "u = h" and "g' = insert_thunk h t' g1"
      unfolding st by (auto elim: bind_resE)
    with t loop st show thesis using that by (simp add: h_def)
  qed
qed

lemma building_loop:
  assumes rec: "\<And>k g u g'. building rd pending g \<Longrightarrow> rec k g = Inr (u, g') \<Longrightarrow>
       u = hash_base k \<and> building rd pending g' \<and> grows g g' \<and> g_thunks g' u \<noteq> None"
    and pending: "pending h = Some t"
    and "set items \<subseteq> set (th_thunks t)" and "building rd pending g"
    and "fold_res (add_item rec h) items (ups, g) = Inr (ups', g')"
  shows "ups' = ups \<and> building rd pending g' \<and> grows g g' \<and>
    (\<forall>item \<in> set items. g_thunks g' (hash_base (fst item)) \<noteq> None \<and>
       (\<exists>rs. g_referencing g' (hash_base (fst item)) = Some rs \<and> h \<in> set rs))"
  using assms(3-)
proof (induction items arbitrary: g ups)
  case Nil
  then show ?case by simp
next
  case (Cons item items)
  define k where "k = hash_base (fst item)"
  from Cons.prems(3) obtain u g1 where 1: "rec k g = Inr (u, g1)"
    and rest: "fold_res (add_item rec h) items
        (if u \<noteq> k then ups @ [(k, u)] else ups, add_referencing u h g1) = Inr (ups', g')"
    unfolding k_def by (auto simp: add_item_Inr)
  from rec [OF Cons.prems(2) 1] have u: "u = k" and b1: "building rd pending g1" and gr1: "grows g g1"
    and at1: "g_thunks g1 k \<noteq> None" by (auto simp: k_def)
  have kd: "k \<in> deps t" using Cons.prems(1) by (auto simp: deps_def k_def)
  note ref = building_reference [OF b1 pending kd at1]
  from rest u have rest: "fold_res (add_item rec h) items (ups, add_referencing k h g1) = Inr (ups', g')"
    by simp
  from Cons.IH [OF _ ref(1) rest] Cons.prems(1)
  have ih: "ups' = ups" "building rd pending g'" "grows (add_referencing k h g1) g'"
    "\<forall>item \<in> set items. g_thunks g' (hash_base (fst item)) \<noteq> None \<and>
       (\<exists>rs. g_referencing g' (hash_base (fst item)) = Some rs \<and> h \<in> set rs)" by auto
  have "g_thunks g' k \<noteq> None" using at1 ih(3) by (auto simp: grows_def)
  moreover obtain rs where "g_referencing (add_referencing k h g1) k = Some rs" "h \<in> set rs"
    using ref(3) by blast
  then have "\<exists>rs. g_referencing g' k = Some rs \<and> h \<in> set rs"
    using ih(3) unfolding grows_def by blast
  ultimately show ?case
    using ih grows_trans [OF gr1 grows_trans [OF ref(2) ih(3)]] by (simp add: k_def)
qed

lemma add_thunk_building:
  "building rd pending g \<Longrightarrow> add_thunk n rd full_hash g = Inr (u, g') \<Longrightarrow>
     u = hash_base full_hash \<and> building rd pending g' \<and> grows g g' \<and> g_thunks g' u \<noteq> None"
proof (induction n arbitrary: full_hash g u g' pending)
  case 0
  then show ?case by simp
next
  case (Suc n)
  define h where "h = hash_base full_hash"
  have upd: "updated_hash g h = h"
    using Suc.prems(1) by (simp add: building_def updated_hash_def)
  show ?case
  proof (cases "g_thunks g h")
    case (Some t)
    with Suc.prems upd show ?thesis by (auto simp: h_def [symmetric] Let_def)
  next
    case None
    obtain t ups g1 t' where
      rd: "rd h = Inr t"
      and loop: "fold_res (add_item (\<lambda>item_base. add_thunk n rd item_base) h) (th_thunks t)
         ([], enter_thunk h t g) = Inr (ups, g1)"
      and t': "fold_res (\<lambda>(a, b). update_data a (outputs_for b (th_outputs t))) ups t = Inr t'"
      and u: "u = h" and g': "g' = insert_thunk h t' g1"
      by (rule add_thunk_new [OF upd [unfolded h_def] None [unfolded h_def] Suc.prems(2), folded h_def])
    note enter = building_enter [OF Suc.prems(1) rd]
    have looped: "ups = [] \<and> building rd (pending(h \<mapsto> t)) g1 \<and> grows (enter_thunk h t g) g1 \<and>
      (\<forall>item \<in> set (th_thunks t). g_thunks g1 (hash_base (fst item)) \<noteq> None \<and>
       (\<exists>rs. g_referencing g1 (hash_base (fst item)) = Some rs \<and> h \<in> set rs))"
      by (rule building_loop [OF _ _ _ enter(1) loop]) (rule Suc.IH, assumption+, rule fun_upd_same, rule subset_refl)
    then have ups: "ups = []" and b1: "building rd (pending(h \<mapsto> t)) g1"
      and gr1: "grows (enter_thunk h t g) g1"
      and items: "\<forall>item \<in> set (th_thunks t). g_thunks g1 (hash_base (fst item)) \<noteq> None \<and>
       (\<exists>rs. g_referencing g1 (hash_base (fst item)) = Some rs \<and> h \<in> set rs)" by blast+
    from ups t' have t': "t' = t" by simp
    have dep: "g_thunks g1 k \<noteq> None \<and> (\<exists>rs. g_referencing g1 k = Some rs \<and> h \<in> set rs)"
      if "k \<in> deps t" for k
      using items that by (auto simp: deps_def)
    have same: "t2 = t" if "pending h = Some t2" for t2
      using Suc.prems(1) rd that by (force simp: building_def entered_def known_def)
    note ins = building_insert [OF b1 dep same]
    show ?thesis
      using ins grows_trans [OF enter(2) grows_trans [OF gr1 ins(2)]]
      by (simp add: u g' t' h_def)
  qed
qed

lemma building_empty: "building rd Map.empty empty_graph"
  by (auto simp: building_def refs_sound_def refs_complete_def entered_def known_def empty_graph_def
      depends_iff)

lemma building_graph_ok:
  assumes "building rd Map.empty g"
  shows "closed g" and "refs_exact g"
proof -
  from assms show "closed g" by (simp add: closed_def building_def refs_complete_def)
  show "refs_exact g"
    unfolding refs_exact_def
  proof (intro allI impI)
    fix k assume "g_thunks g k \<noteq> None"
    then obtain t where "known Map.empty g k t" by (auto simp: known_def)
    with assms have "g_referencing g k \<noteq> None" unfolding building_def entered_def by blast
    then obtain rs where rs: "g_referencing g k = Some rs" by blast
    from assms have sound: "refs_sound Map.empty g" by (simp add: building_def)
    have "set rs = {h. depends g h k}"
      using refs_soundD(2) [OF sound rs] assms rs by (fastforce simp: building_def refs_complete_def)
    with rs refs_soundD(1) [OF sound rs]
    show "\<exists>rs. g_referencing g k = Some rs \<and> distinct rs \<and> set rs = {h. depends g h k}" by blast
  qed
qed

text \<open>The constructor of the reductor adds its targets one after the other.\<close>

fun add_targets :: "nat \<Rightarrow> (string \<Rightarrow> thunk res) \<Rightarrow> string list \<Rightarrow> graph \<Rightarrow> graph res" where
  "add_targets n rd [] g = Inr g"
| "add_targets n rd (h # hs) g = bind_res (add_thunk n rd h g) (\<lambda>(u, g'). add_targets n rd hs g')"

text \<open>C2: building a graph from a list of targets gives a graph that holds every target and every
  thunk below it as the store has it, whose references list exactly who waits for whom, and whose
  sets of values and executables have everything its thunks name.\<close>

theorem add_targets_builds:
  assumes "add_targets n rd targets empty_graph = Inr g"
  shows "closed g \<and> refs_exact g \<and> (\<forall>h \<in> set targets. g_thunks g (hash_base h) \<noteq> None) \<and>
    (\<forall>h t. g_thunks g h = Some t \<longrightarrow> rd h = Inr t \<and>
       fst ` set (th_values t) \<subseteq> set (g_value_deps g) \<and>
       fst ` set (th_executables t) \<subseteq> set (g_executable_deps g))"
proof -
  have "building rd Map.empty g \<and> grows g0 g \<and> (\<forall>h \<in> set targets. g_thunks g (hash_base h) \<noteq> None)"
    if "building rd Map.empty g0" "add_targets n rd targets g0 = Inr g" for g0
    using that
  proof (induction targets arbitrary: g0)
    case Nil
    then show ?case by simp
  next
    case (Cons h hs)
    from Cons.prems(2) obtain u g1 where 1: "add_thunk n rd h g0 = Inr (u, g1)"
      and rest: "add_targets n rd hs g1 = Inr g" by auto
    from add_thunk_building [OF Cons.prems(1) 1] have u: "u = hash_base h" "building rd Map.empty g1"
      "grows g0 g1" "g_thunks g1 u \<noteq> None" by auto
    from Cons.IH [OF u(2) rest] u show ?case
      using grows_trans [of g0 g1 g] by (auto simp: grows_def)
  qed
  from this [OF building_empty assms] show ?thesis
    using building_graph_ok by (auto simp: building_def entered_def known_def)
qed

end
