(* ===== verification/GraphForce.thy ===== *)
theory GraphForce
  imports GraphLaws
begin

text \<open>
  Forcing a thunk keeps the graph right. The locale \<open>thunk_store\<close> is what \<open>force_thunk\<close> relies on of
  the object store; \<open>graph_ok\<close> is the invariant between two calls.
\<close>

section \<open>The invariant\<close>

text \<open>A dependency is named by the bare hash or by hash and the tag of an output other than the first.\<close>

definition named :: "string \<Rightarrow> string list \<Rightarrow> string \<Rightarrow> bool" where
  "named h tags key \<longleftrightarrow> key = h \<or> (\<exists>tag \<in> set (tl tags). key = for_output h tag)"

definition tags_ok :: "graph \<Rightarrow> bool" where
  "tags_ok g \<longleftrightarrow>
     (\<forall>r t p t'. g_thunks g r = Some t \<and> p \<in> set (th_thunks t) \<and>
        g_thunks g (hash_base (fst p)) = Some t' \<longrightarrow> named (hash_base (fst p)) (th_outputs t') (fst p))"

definition keys_ok :: "graph \<Rightarrow> bool" where
  "keys_ok g \<longleftrightarrow> (\<forall>h. g_thunks g h \<noteq> None \<longrightarrow> hash_type h = Inr Thunk \<and> CHR ''#'' \<notin> set h)"

definition graph_ok :: "graph \<Rightarrow> bool" where
  "graph_ok g \<longleftrightarrow> closed g \<and> refs_exact g \<and> tags_ok g \<and> keys_ok g"

section \<open>What an update does to the dependencies of one thunk\<close>

fun targets :: "string \<Rightarrow> bool \<Rightarrow> thunk_output list \<Rightarrow> (string \<times> string) list" where
  "targets orig first [] = []"
| "targets orig first (out # outs) =
     (old_hash_of orig first out,
      case new_hash_of first out of Inr h \<Rightarrow> h | Inl _ \<Rightarrow> out_hash out)
       # targets orig False outs"

lemma targets_base:
  "CHR ''#'' \<notin> set orig \<Longrightarrow> map_of (targets orig b outs) k \<noteq> None \<Longrightarrow> hash_base k = orig"
  by (induction orig b outs rule: targets.induct)
    (auto simp: old_hash_of_def hash_base_id split: if_splits)

lemma new_hash_base: "new_hash_of b out = Inr h \<Longrightarrow> hash_base h = hash_base (out_hash out)"
  by (auto simp: new_hash_of_def split: if_splits)

lemma set_fold_mm_insert: "set (fold (mm_insert k) vs m) = Pair k ` set vs \<union> set m"
  by (induction vs arbitrary: m) auto

lemma set_equal_range: "set (mm_equal_range k m) = {n. (k, n) \<in> set m}"
  by (force simp: mm_equal_range_def)

definition retargeted :: "(string \<times> string) list \<Rightarrow> data_item set \<Rightarrow> data_item set" where
  "retargeted ts M =
     {p \<in> M. map_of ts (fst p) = None} \<union>
     {(new, n) | new n. \<exists>k. (k, n) \<in> M \<and> map_of ts k = Some new \<and> hash_type new = Inr Thunk}"

lemma retargeted_Un: "retargeted ts (A \<union> B) = retargeted ts A \<union> retargeted ts B"
  by (auto simp: retargeted_def)

lemma retargeted_unmapped: "map_of ts new = None \<Longrightarrow> retargeted ts (Pair new ` N) = Pair new ` N"
  by (auto simp: retargeted_def)

lemma retargeted_Cons_other:
  "retargeted ((old, new) # ts) {p \<in> M. fst p \<noteq> old} = retargeted ts {p \<in> M. fst p \<noteq> old}"
  by (auto simp: retargeted_def)

lemma retargeted_Cons_same:
  "retargeted ((old, new) # ts) {p \<in> M. fst p = old} =
     (if hash_type new = Inr Thunk then Pair new ` {n. (old, n) \<in> M} else {})"
  by (auto simp: retargeted_def)

lemma retargeted_Cons:
  assumes "map_of ts new = None"
  shows "retargeted ((old, new) # ts) M =
    retargeted ts ({p \<in> M. fst p \<noteq> old} \<union>
      (if hash_type new = Inr Thunk then Pair new ` {n. (old, n) \<in> M} else {}))"
proof -
  have "M = {p \<in> M. fst p \<noteq> old} \<union> {p \<in> M. fst p = old}" by auto
  then have "retargeted ((old, new) # ts) M =
      retargeted ((old, new) # ts) {p \<in> M. fst p \<noteq> old} \<union> retargeted ((old, new) # ts) {p \<in> M. fst p = old}"
    by (metis retargeted_Un)
  moreover have "retargeted ts {} = {}" by (simp add: retargeted_def)
  ultimately show ?thesis
    by (simp add: retargeted_Cons_other retargeted_Cons_same retargeted_Un retargeted_unmapped [OF assms])
qed

lemma update_output_thunks:
  assumes "update_output orig b out t = Inr t'" and "new_hash_of b out = Inr new"
  shows "set (th_thunks t') = {p \<in> set (th_thunks t). fst p \<noteq> old_hash_of orig b out} \<union>
    (if hash_type new = Inr Thunk then Pair new ` {n. (old_hash_of orig b out, n) \<in> set (th_thunks t)} else {})"
    and "th_outputs t' = th_outputs t"
proof -
  define old where "old = old_hash_of orig b out"
  have "th_outputs t' = th_outputs t \<and>
    set (th_thunks t') = {p \<in> set (th_thunks t). fst p \<noteq> old} \<union>
    (if hash_type new = Inr Thunk then Pair new ` {n. (old, n) \<in> set (th_thunks t)} else {})"
    using assms(1)
  proof (rule update_output_effect, fold old_def)
    fix new' names
    assume "new_hash_of b out = Inr new'" and names: "names = mm_equal_range old (th_thunks t)"
      and cases: "names = [] \<and> th_thunks t' = mm_erase old (th_thunks t) \<and> th_values t' = th_values t \<or>
       hash_type new' = Inr Thunk \<and> th_values t' = th_values t \<and>
         th_thunks t' = fold (mm_insert new') names (mm_erase old (th_thunks t)) \<or>
       hash_type new' = Inr Value \<and> th_thunks t' = mm_erase old (th_thunks t) \<and>
         th_values t' = fold (mm_insert new') names (th_values t)"
      and outs: "th_outputs t' = th_outputs t"
    with assms(2) have new': "new' = new" by simp
    have "{n. (old, n) \<in> set (th_thunks t)} = set names" by (simp add: names set_equal_range)
    with cases outs show ?thesis
      by (auto simp: new' set_fold_mm_insert set_mm_erase)
  qed
  then show "th_outputs t' = th_outputs t"
    and "set (th_thunks t') = {p \<in> set (th_thunks t). fst p \<noteq> old_hash_of orig b out} \<union>
    (if hash_type new = Inr Thunk then Pair new ` {n. (old_hash_of orig b out, n) \<in> set (th_thunks t)} else {})"
    by (simp_all add: old_def)
qed

lemma update_outputs_thunks:
  assumes "CHR ''#'' \<notin> set orig" and "\<forall>o' \<in> set outs. hash_base (out_hash o') \<noteq> orig"
    and "update_outputs orig b outs t = Inr t'"
  shows "set (th_thunks t') = retargeted (targets orig b outs) (set (th_thunks t)) \<and>
    th_outputs t' = th_outputs t"
  using assms
proof (induction orig b outs t rule: update_outputs.induct)
  case (1 orig b t)
  then show ?case by (simp add: retargeted_def)
next
  case (2 orig b out outs t)
  from 2(4) obtain t1 where t1: "update_output orig b out t = Inr t1"
    and rest: "update_outputs orig False outs t1 = Inr t'" by auto
  from t1 obtain new where new: "new_hash_of b out = Inr new"
    by (auto simp: update_output_def Let_def)
  have "hash_base new \<noteq> orig" using new_hash_base [OF new] 2(3) by simp
  then have none: "map_of (targets orig False outs) new = None"
    using targets_base [OF 2(2)] by blast
  from 2(1) [OF t1 2(2) _ rest] 2(3) show ?case
    by (simp add: new update_output_thunks [OF t1 new] retargeted_Cons [OF none])
qed

lemma update_data_thunks:
  assumes "CHR ''#'' \<notin> set orig" and "\<forall>o' \<in> set outs. hash_base (out_hash o') \<noteq> orig"
    and "update_data orig outs t = Inr t'"
  shows "set (th_thunks t') = retargeted (targets orig True outs) (set (th_thunks t))"
    and "th_outputs t' = th_outputs t"
  using update_outputs_thunks [OF assms(1,2), of True "t\<lparr>th_hash := None\<rparr>" t'] assms(3)
  by (simp_all add: update_data_def)

text \<open>The targets of a rename to a thunk's new hash, and of a reduction to values.\<close>

lemma targets_rename:
  assumes "hash_type new = Inr Thunk"
  shows "map_of (targets orig False (outputs_for new tags)) k =
    (if \<exists>tag \<in> set tags. k = for_output orig tag then Some (for_output new (drop (Suc (length orig)) k)) else None)"
  using assms
  by (induction tags)
    (auto simp: outputs_for_def old_hash_of_def new_hash_of_def for_output_def)

lemma targets_values:
  assumes "\<forall>o' \<in> set outs. hash_type (out_hash o') = Inr Value" and "map_of (targets orig b outs) k = Some new"
  shows "hash_type new = Inr Value"
  using assms
  by (induction orig b outs rule: targets.induct) (auto simp: new_hash_of_def split: if_splits)

lemma targets_named:
  assumes "outs \<noteq> []" and "set (tl tags) \<subseteq> out_tag ` set (tl outs)" and "named orig tags k"
  shows "map_of (targets orig True outs) k \<noteq> None"
proof -
  obtain out rest where outs: "outs = out # rest" using assms(1) by (cases outs) auto
  have "map_of (targets orig False rest) (for_output orig tag) \<noteq> None" if "tag \<in> out_tag ` set rest" for tag
    using that by (induction rest) (auto simp: old_hash_of_def)
  with assms(2,3) show ?thesis
    by (auto simp: outs named_def old_hash_of_def)
qed

lemma deps_retargeted_values:
  assumes "CHR ''#'' \<notin> set orig" and "outs \<noteq> []" and "\<forall>o' \<in> set outs. hash_type (out_hash o') = Inr Value"
    and "set (tl tags) \<subseteq> out_tag ` set (tl outs)"
    and "\<forall>p \<in> M. hash_base (fst p) = orig \<longrightarrow> named orig tags (fst p)"
  shows "retargeted (targets orig True outs) M = {p \<in> M. hash_base (fst p) \<noteq> orig}"
proof -
  have "map_of (targets orig True outs) k = Some new \<Longrightarrow> hash_type new \<noteq> Inr Thunk" for k new
    using targets_values [OF assms(3)] by force
  moreover have "map_of (targets orig True outs) (fst p) = None \<longleftrightarrow> hash_base (fst p) \<noteq> orig"
    if "p \<in> M" for p
    using targets_base [OF assms(1), of True outs "fst p"] targets_named [OF assms(2,4)] assms(5) that by blast
  ultimately show ?thesis by (auto simp: retargeted_def)
qed

text \<open>The renamed key: the hash changes, the tag stays.\<close>

definition rebase :: "string \<Rightarrow> string \<Rightarrow> string \<Rightarrow> string" where
  "rebase orig new k =
     (if hash_base k = orig then new @ drop (length orig) k else k)"

lemma retargeted_rename:
  assumes "CHR ''#'' \<notin> set orig" and "tags \<noteq> []" and "hash_type new = Inr Thunk"
    and "\<forall>p \<in> M. hash_base (fst p) = orig \<longrightarrow> named orig tags (fst p)"
  shows "retargeted (targets orig True (outputs_for new tags)) M = (\<lambda>p. (rebase orig new (fst p), snd p)) ` M"
proof -
  obtain tag tgs where tags: "tags = tag # tgs" using assms(2) by (cases tags) auto
  have base: "hash_base orig = orig" using assms(1) by (rule hash_base_id)
  have ne: "new \<noteq> []" using assms(3) by (auto simp: hash_type_def)
  have tl: "map_of (targets orig False (outputs_for new tgs)) k =
     (if \<exists>tag \<in> set tgs. k = for_output orig tag then Some (for_output new (drop (Suc (length orig)) k)) else None)" for k
    by (rule targets_rename [OF assms(3)])
  have map: "map_of (targets orig True (outputs_for new tags)) (fst p) =
      (if hash_base (fst p) = orig then Some (rebase orig new (fst p)) else None)"
    and ty: "hash_base (fst p) = orig \<longrightarrow> hash_type (rebase orig new (fst p)) = Inr Thunk"
    if "p \<in> M" for p
  proof -
    have head: "targets orig True (outputs_for new tags) = (orig, new) # targets orig False (outputs_for new tgs)"
      by (simp add: tags outputs_for_def old_hash_of_def new_hash_of_def)
    have notag: "for_output orig tg \<noteq> orig" for tg by (simp add: for_output_def)
    from assms(4) that have n: "hash_base (fst p) = orig \<longrightarrow> named orig tags (fst p)" by simp
    show "map_of (targets orig True (outputs_for new tags)) (fst p) =
      (if hash_base (fst p) = orig then Some (rebase orig new (fst p)) else None)"
    proof (cases "hash_base (fst p) = orig")
      case False
      then have "map_of (targets orig True (outputs_for new tags)) (fst p) = None"
        using targets_base [OF assms(1)] by blast
      with False show ?thesis by simp
    next
      case True
      with n consider "fst p = orig" | tg where "tg \<in> set tgs" "fst p = for_output orig tg"
        by (auto simp: named_def tags)
      then show ?thesis
      proof cases
        case 1
        then show ?thesis using base by (simp add: head rebase_def)
      next
        case 2
        then show ?thesis using True notag unfolding head
          by (simp add: tl rebase_def for_output_def)
      qed
    qed
    show "hash_base (fst p) = orig \<longrightarrow> hash_type (rebase orig new (fst p)) = Inr Thunk"
      using ne assms(3) by (simp add: rebase_def hash_type_append)
  qed
  show ?thesis
  proof (intro set_eqI iffI)
    fix q assume "q \<in> retargeted (targets orig True (outputs_for new tags)) M"
    then consider "q \<in> M" "map_of (targets orig True (outputs_for new tags)) (fst q) = None"
      | k where "(k, snd q) \<in> M" "map_of (targets orig True (outputs_for new tags)) k = Some (fst q)"
      by (auto simp: retargeted_def)
    then show "q \<in> (\<lambda>p. (rebase orig new (fst p), snd p)) ` M"
    proof cases
      case 1
      then have "hash_base (fst q) \<noteq> orig" using map by auto
      with 1(1) show ?thesis by (force simp: rebase_def)
    next
      case (2 k)
      then have "fst q = rebase orig new k" using map [OF 2(1)] by (auto split: if_splits)
      with 2(1) show ?thesis by (intro image_eqI [of _ _ "(k, snd q)"]) (simp_all add: prod_eq_iff)
    qed
  next
    fix q assume "q \<in> (\<lambda>p. (rebase orig new (fst p), snd p)) ` M"
    then obtain p where p: "p \<in> M" and q: "q = (rebase orig new (fst p), snd p)" by auto
    show "q \<in> retargeted (targets orig True (outputs_for new tags)) M"
    proof (cases "hash_base (fst p) = orig")
      case True
      with map [OF p] ty [OF p] p show ?thesis
        by (auto simp: retargeted_def q intro!: exI [of _ "fst p"])
    next
      case False
      with map [OF p] p show ?thesis by (auto simp: retargeted_def q rebase_def)
    qed
  qed
qed

section \<open>update_hash\<close>

lemma at_key_Inr: "at_key m k = Inr v \<longleftrightarrow> m k = Some v"
  by (simp add: at_key_def split: option.splits)

lemma update_referencing_Inr:
  "update_referencing old outs r g = Inr g' \<longleftrightarrow>
     (\<exists>t t'. g_thunks g r = Some t \<and> update_data old outs t = Inr t' \<and>
        g' = g\<lparr>g_thunks := (g_thunks g)(r \<mapsto> t')\<rparr>)"
  by (auto simp: update_referencing_def at_key_def split: option.splits)

lemma update_referencing_fold:
  assumes "fold_res (update_referencing old outs) rs g = Inr g'" and "distinct rs"
  shows "g_referencing g' = g_referencing g \<and> (\<forall>x. x \<notin> set rs \<longrightarrow> g_thunks g' x = g_thunks g x) \<and>
    (\<forall>x \<in> set rs. \<exists>t t'. g_thunks g x = Some t \<and> update_data old outs t = Inr t' \<and> g_thunks g' x = Some t')"
  using assms
proof (induction rs arbitrary: g)
  case Nil
  then show ?case by simp
next
  case (Cons r rs)
  from Cons.prems(1) obtain t t' where t: "g_thunks g r = Some t" "update_data old outs t = Inr t'"
    and rest: "fold_res (update_referencing old outs) rs (g\<lparr>g_thunks := (g_thunks g)(r \<mapsto> t')\<rparr>) = Inr g'"
    by (auto simp: update_referencing_Inr)
  from Cons.IH [OF rest] Cons.prems(2) t show ?case by (auto split: if_splits)
qed

lemma chain_hashes_simps [simp]:
  "g_thunks (chain_hashes a b g) = g_thunks g" "g_referencing (chain_hashes a b g) = g_referencing g"
  by (simp_all add: chain_hashes_def split: option.splits)

lemma update_hash_effect:
  assumes "update_hash old outs g = Inr g'" and "g_referencing g old = Some rs" and "distinct rs"
  shows "outs \<noteq> []" and "\<exists>ty. hash_type (out_hash (hd outs)) = Inr ty"
    and "g_referencing g' = (g_referencing g)(out_hash (hd outs) \<mapsto> rs, old := None)"
    and "g_thunks g' old = None"
    and "\<And>x. x \<noteq> old \<Longrightarrow> x \<notin> set rs \<Longrightarrow> g_thunks g' x = g_thunks g x"
    and "\<And>x. x \<noteq> old \<Longrightarrow> x \<in> set rs \<Longrightarrow>
       \<exists>t t'. g_thunks g x = Some t \<and> update_data old outs t = Inr t' \<and> g_thunks g' x = Some t'"
proof -
  from assms(1) show ne: "outs \<noteq> []" by (auto simp: update_hash_def)
  from assms(1) ne obtain ty where ty: "hash_type (out_hash (hd outs)) = Inr ty"
    by (auto simp: update_hash_def Let_def)
  then show "\<exists>ty. hash_type (out_hash (hd outs)) = Inr ty" by blast
  define g1 where "g1 = (if ty = Thunk then chain_hashes old (out_hash (hd outs)) g else g)"
  have g1: "g_thunks g1 = g_thunks g" "g_referencing g1 = g_referencing g" by (simp_all add: g1_def)
  from assms(1,2) ne ty obtain g2 where
    g2: "fold_res (update_referencing old outs) rs g1 = Inr g2"
    and g': "g' = g2\<lparr>g_thunks := (g_thunks g2)(old := None),
        g_referencing := (g_referencing g2)(out_hash (hd outs) \<mapsto> rs, old := None)\<rparr>"
    using g1 by (auto simp: update_hash_def Let_def at_key_def g1_def [symmetric])
  note fold = update_referencing_fold [OF g2 assms(3)]
  show "g_referencing g' = (g_referencing g)(out_hash (hd outs) \<mapsto> rs, old := None)"
    using fold g1 by (simp add: g')
  show "g_thunks g' old = None" by (simp add: g')
  show "g_thunks g' x = g_thunks g x" if "x \<noteq> old" "x \<notin> set rs" for x
    using fold g1 that by (simp add: g')
  show "\<exists>t t'. g_thunks g x = Some t \<and> update_data old outs t = Inr t' \<and> g_thunks g' x = Some t'"
    if "x \<noteq> old" "x \<in> set rs" for x
    using fold g1 that by (simp add: g')
qed

lemma graph_okD:
  assumes "graph_ok g" and "g_thunks g h = Some t"
  shows "CHR ''#'' \<notin> set h" and "hash_type h = Inr Thunk" and "hash_base h = h"
    and "\<exists>rs. g_referencing g h = Some rs \<and> distinct rs \<and> set rs = {x. depends g x h}"
    and "\<forall>p \<in> set (th_thunks t). \<exists>t'. g_thunks g (hash_base (fst p)) = Some t' \<and>
       named (hash_base (fst p)) (th_outputs t') (fst p)"
proof -
  from assms show k: "CHR ''#'' \<notin> set h" "hash_type h = Inr Thunk"
    by (auto simp: graph_ok_def keys_ok_def)
  from k(1) show "hash_base h = h" by (rule hash_base_id)
  from assms show "\<exists>rs. g_referencing g h = Some rs \<and> distinct rs \<and> set rs = {x. depends g x h}"
    unfolding graph_ok_def refs_exact_def by blast
  show "\<forall>p \<in> set (th_thunks t). \<exists>t'. g_thunks g (hash_base (fst p)) = Some t' \<and>
       named (hash_base (fst p)) (th_outputs t') (fst p)"
  proof
    fix p assume p: "p \<in> set (th_thunks t)"
    with assms(2) have "depends g h (hash_base (fst p))" by (rule depends_item)
    with assms(1) obtain t' where "g_thunks g (hash_base (fst p)) = Some t'"
      by (auto simp: graph_ok_def closed_def)
    moreover from this assms p have "named (hash_base (fst p)) (th_outputs t') (fst p)"
      unfolding graph_ok_def tags_ok_def by blast
    ultimately show "\<exists>t'. g_thunks g (hash_base (fst p)) = Some t' \<and>
       named (hash_base (fst p)) (th_outputs t') (fst p)" by blast
  qed
qed

text \<open>The reduction of a runnable thunk to values.\<close>

definition values_for :: "thunk \<Rightarrow> thunk_output list \<Rightarrow> bool" where
  "values_for t outs \<longleftrightarrow> outs \<noteq> [] \<and>
     (\<forall>o' \<in> set outs. hash_type (out_hash o') = Inr Value \<and> CHR ''#'' \<notin> set (out_hash o')) \<and>
     set (tl (th_outputs t)) \<subseteq> out_tag ` set (tl outs)"

lemma bases_without: "hash_base ` fst ` {p \<in> M. hash_base (fst p) \<noteq> old} = hash_base ` fst ` M - {old}"
  by auto

lemma update_hash_value:
  assumes ok: "graph_ok g" and old: "g_thunks g old = Some t" "can_be_executed t"
    and outs: "values_for t outs" and run: "update_hash old outs g = Inr g'"
  shows "graph_ok g' \<and>
    (\<forall>x. g_thunks g' x = None \<longleftrightarrow> x = old \<or> g_thunks g x = None) \<and>
    (\<forall>x k. depends g' x k \<longleftrightarrow> depends g x k \<and> k \<noteq> old) \<and>
    (\<exists>rs. g_referencing g' (out_hash (hd outs)) = Some rs \<and> distinct rs \<and> set rs = {x. depends g x old})"
proof -
  note D = graph_okD [OF ok old(1)]
  obtain rs where rs: "g_referencing g old = Some rs" "distinct rs" "set rs = {x. depends g x old}"
    using D(4) by blast
  note eff = update_hash_effect [OF run rs(1,2)]
  have vals: "outs \<noteq> []" "\<forall>o' \<in> set outs. hash_type (out_hash o') = Inr Value"
    "set (tl (th_outputs t)) \<subseteq> out_tag ` set (tl outs)" using outs by (auto simp: values_for_def)
  have nold: "\<not> depends g old k" for k
    using executable_no_deps old by (auto simp: executable_in_def)
  have old_rs: "old \<notin> set rs" using rs(3) nold by simp
  have apart: "\<forall>o' \<in> set outs. hash_base (out_hash o') \<noteq> old"
    using outs D(2) by (auto simp: values_for_def hash_base_id)
  have new: "th_outputs y' = th_outputs y \<and>
      set (th_thunks y') = {p \<in> set (th_thunks y). hash_base (fst p) \<noteq> old}"
    if "g_thunks g x = Some y" "g_thunks g' x = Some y'" for x y y'
  proof (cases "x \<in> set rs")
    case True
    with old_rs have "x \<noteq> old" by auto
    with eff(6) True that have u: "update_data old outs y = Inr y'" by force
    have "\<forall>p \<in> set (th_thunks y). hash_base (fst p) = old \<longrightarrow> named old (th_outputs t) (fst p)"
      using graph_okD(5) [OF ok that(1)] old(1) by force
    with update_data_thunks [OF D(1) apart u]
      deps_retargeted_values [OF D(1) vals(1,2,3), of "set (th_thunks y)"]
    show ?thesis by simp
  next
    case False
    with that have "x \<noteq> old" using eff(4) by auto
    with False that eff(5) have "y' = y" by auto
    moreover have "hash_base (fst p) \<noteq> old" if p: "p \<in> set (th_thunks y)" for p
      using False rs(3) depends_item [OF \<open>g_thunks g x = Some y\<close> p] by auto
    ultimately show ?thesis by auto
  qed
  have dom: "g_thunks g' x = None \<longleftrightarrow> x = old \<or> g_thunks g x = None" for x
    using eff(4,5,6) by (cases "x = old"; cases "x \<in> set rs") force+
  have dep: "depends g' x k \<longleftrightarrow> depends g x k \<and> k \<noteq> old" for x k
  proof (cases "g_thunks g' x")
    case None
    then have "x = old \<or> g_thunks g x = None" using dom by simp
    then have "\<not> depends g x k"
    proof
      assume "x = old"
      with nold show ?thesis by simp
    next
      assume "g_thunks g x = None"
      then show ?thesis by (simp add: depends_iff)
    qed
    with None show ?thesis by (simp add: depends_iff [of g'])
  next
    case (Some y')
    then obtain y where y: "g_thunks g x = Some y" using dom [of x] by (cases "g_thunks g x") simp_all
    from new [OF y Some] have "set (th_thunks y') = {p \<in> set (th_thunks y). hash_base (fst p) \<noteq> old}" ..
    then have "deps y' = deps y - {old}" unfolding deps_def by (simp only: bases_without)
    with y Some show ?thesis by (simp add: depends_iff)
  qed
  have value_key: "g_thunks g (out_hash (hd outs)) = None"
  proof (rule ccontr)
    assume "g_thunks g (out_hash (hd outs)) \<noteq> None"
    with ok have "hash_type (out_hash (hd outs)) = Inr Thunk" by (auto simp: graph_ok_def keys_ok_def)
    with vals show False by (cases outs) auto
  qed
  have neq: "out_hash (hd outs) \<noteq> old" using value_key old(1) by auto
  have "closed g'" using ok dep dom by (auto simp: closed_def graph_ok_def)
  moreover have "refs_exact g'"
    unfolding refs_exact_def
  proof (intro allI impI)
    fix k assume "g_thunks g' k \<noteq> None"
    then have k: "k \<noteq> old" "g_thunks g k \<noteq> None" using dom by auto
    then have "k \<noteq> out_hash (hd outs)" using value_key by auto
    with k eff(3) have "g_referencing g' k = g_referencing g k" by simp
    with k ok show "\<exists>rs. g_referencing g' k = Some rs \<and> distinct rs \<and> set rs = {h. depends g' h k}"
      by (simp add: dep graph_ok_def refs_exact_def)
  qed
  moreover have "tags_ok g'"
    unfolding tags_ok_def
  proof (intro allI impI, elim conjE)
    fix r y' p z' assume r: "g_thunks g' r = Some y'" and p: "p \<in> set (th_thunks y')"
      and z': "g_thunks g' (hash_base (fst p)) = Some z'"
    obtain y z where y: "g_thunks g r = Some y" and z: "g_thunks g (hash_base (fst p)) = Some z"
      using dom [of r] dom [of "hash_base (fst p)"] r z' by auto
    have "p \<in> set (th_thunks y)" using new [OF y r] p by simp
    then have "named (hash_base (fst p)) (th_outputs z) (fst p)"
      using graph_okD(5) [OF ok y] z by force
    then show "named (hash_base (fst p)) (th_outputs z') (fst p)"
      using new [OF z z'] by simp
  qed
  moreover have "keys_ok g'" using ok dom by (auto simp: graph_ok_def keys_ok_def)
  ultimately show ?thesis
    using dep dom eff(3) neq rs(2,3) by (simp add: graph_ok_def)
qed

text \<open>A thunk that has become runnable takes its new hash.\<close>

lemma hash_base_rebase:
  assumes "CHR ''#'' \<notin> set orig" and "CHR ''#'' \<notin> set new" and "named (hash_base k) tags k"
  shows "hash_base (rebase orig new k) = (if hash_base k = orig then new else hash_base k)"
proof (cases "hash_base k = orig")
  case True
  with assms(3) consider "k = orig" | tag where "k = for_output orig tag"
    by (auto simp: named_def)
  then show ?thesis
  proof cases
    case 1
    with True assms(2) show ?thesis by (simp add: rebase_def hash_base_id)
  next
    case 2
    then have "rebase orig new k = for_output new tag"
      using True by (simp add: rebase_def for_output_def)
    with True assms(2) show ?thesis by (simp add: hash_base_id)
  qed
qed (simp add: rebase_def)

lemma named_rebase:
  assumes "named (hash_base k) tags k" and "hash_base k = orig"
  shows "named new tags (rebase orig new k)"
proof -
  from assms consider "k = orig" | tag where "tag \<in> set (tl tags)" "k = orig @ ''#'' @ tag"
    by (auto simp: named_def for_output_def)
  then show ?thesis
  proof cases
    case 1
    with assms(2) show ?thesis by (simp add: named_def rebase_def)
  next
    case 2
    then have "drop (length orig) k = ''#'' @ tag" by simp
    with 2(1) assms(2) show ?thesis by (auto simp: named_def rebase_def for_output_def)
  qed
qed

definition put_thunk :: "string \<Rightarrow> thunk \<Rightarrow> graph \<Rightarrow> graph" where
  "put_thunk h t g = g\<lparr>g_thunks := (g_thunks g)(h \<mapsto> t)\<rparr>"

lemma put_thunk_simps [simp]:
  "g_thunks (put_thunk h t g) = (g_thunks g)(h \<mapsto> t)"
  "g_referencing (put_thunk h t g) = g_referencing g"
  by (simp_all add: put_thunk_def)

definition renaming ::
  "graph \<Rightarrow> graph \<Rightarrow> string \<Rightarrow> string \<Rightarrow> thunk \<Rightarrow> thunk \<Rightarrow> string list \<Rightarrow> bool" where
  "renaming g g' old new t t' rs \<longleftrightarrow>
     graph_ok g \<and> g_thunks g old = Some t \<and> can_be_executed t \<and>
     g_thunks g new = None \<and> CHR ''#'' \<notin> set new \<and> hash_type new = Inr Thunk \<and>
     th_thunks t' = th_thunks t \<and> th_outputs t' = th_outputs t \<and>
     update_hash old (outputs_for new (th_outputs t)) (put_thunk new t' g) = Inr g' \<and>
     g_referencing g old = Some rs \<and> distinct rs \<and> set rs = {x. depends g x old}"

lemma renamingD:
  assumes "renaming g g' old new t t' rs"
  shows "graph_ok g" and "g_thunks g old = Some t" and "can_be_executed t"
    and "g_thunks g new = None" and "CHR ''#'' \<notin> set new" and "hash_type new = Inr Thunk"
    and "th_thunks t' = th_thunks t" and "th_outputs t' = th_outputs t"
    and "update_hash old (outputs_for new (th_outputs t)) (put_thunk new t' g) = Inr g'"
    and "g_referencing g old = Some rs" and "distinct rs" and "set rs = {x. depends g x old}"
  using assms by (simp_all add: renaming_def)

lemma rename_outs:
  assumes R: "renaming g g' old new t t' rs"
  shows "outputs_for new (th_outputs t) \<noteq> []" "th_outputs t \<noteq> []"
    "out_hash (hd (outputs_for new (th_outputs t))) = new"
    "\<forall>o' \<in> set (outputs_for new (th_outputs t)). hash_base (out_hash o') \<noteq> old"
proof -
  note ok = renamingD(1) [OF R] and old = renamingD(2,3) [OF R] and fresh = renamingD(4-6) [OF R]
    and t' = renamingD(7,8) [OF R] and run = renamingD(9) [OF R] and rs = renamingD(10-12) [OF R]
  have "g_referencing (put_thunk new t' g) old = Some rs" using rs by simp
  from update_hash_effect(1) [OF run this rs(2)] show ne: "outputs_for new (th_outputs t) \<noteq> []" .
  then show "th_outputs t \<noteq> []" by (simp add: outputs_for_def)
  then show "out_hash (hd (outputs_for new (th_outputs t))) = new"
    by (cases "th_outputs t") (simp_all add: outputs_for_def)
  show "\<forall>o' \<in> set (outputs_for new (th_outputs t)). hash_base (out_hash o') \<noteq> old"
    using fresh old by (auto simp: outputs_for_def hash_base_id)
qed

lemma rename_effect:
  assumes R: "renaming g g' old new t t' rs"
  shows "g_referencing g' = (g_referencing g)(new \<mapsto> rs, old := None)"
  "g_thunks g' old = None"
  "x \<noteq> old \<Longrightarrow> x \<noteq> new \<Longrightarrow> x \<notin> set rs \<Longrightarrow> g_thunks g' x = g_thunks g x"
  "x \<noteq> old \<Longrightarrow> x \<in> set rs \<Longrightarrow> \<exists>y y'. g_thunks g x = Some y \<and>
     update_data old (outputs_for new (th_outputs t)) y = Inr y' \<and> g_thunks g' x = Some y'"
  "g_thunks g' new = Some t'"
proof -
  note ok = renamingD(1) [OF R] and old = renamingD(2,3) [OF R] and fresh = renamingD(4-6) [OF R]
    and t' = renamingD(7,8) [OF R] and run = renamingD(9) [OF R] and rs = renamingD(10-12) [OF R]
  note outs = rename_outs [OF R]
  have r: "g_referencing (put_thunk new t' g) old = Some rs" using rs by simp
  note eff = update_hash_effect [OF run r rs(2)]
  have new_rs: "new \<notin> set rs" using fresh(1) rs(3) by (simp add: depends_iff)
  have neq: "new \<noteq> old" using fresh old by auto
  show "g_referencing g' = (g_referencing g)(new \<mapsto> rs, old := None)"
    using eff(3) outs(3) by simp
  show "g_thunks g' old = None" by (rule eff(4))
  show "g_thunks g' x = g_thunks g x" if "x \<noteq> old" "x \<noteq> new" "x \<notin> set rs"
    using eff(5) [OF that(1,3)] that by simp
  show "\<exists>y y'. g_thunks g x = Some y \<and>
     update_data old (outputs_for new (th_outputs t)) y = Inr y' \<and> g_thunks g' x = Some y'"
    if "x \<noteq> old" "x \<in> set rs"
  proof -
    from that new_rs have "x \<noteq> new" by auto
    with eff(6) [OF that] show ?thesis by simp
  qed
  show "g_thunks g' new = Some t'" using eff(5) [OF neq new_rs] by simp
qed

lemma rename_thunk:
  assumes R: "renaming g g' old new t t' rs" and "x \<noteq> new" and "g_thunks g x = Some y" and "g_thunks g' x = Some y'"
  shows "th_outputs y' = th_outputs y \<and>
    set (th_thunks y') = (\<lambda>p. (rebase old new (fst p), snd p)) ` set (th_thunks y)"
proof (cases "x \<in> set rs")
  case True
  note ok = renamingD(1) [OF R] and old = renamingD(2,3) [OF R] and fresh = renamingD(4-6) [OF R]
    and t' = renamingD(7,8) [OF R] and run = renamingD(9) [OF R] and rs = renamingD(10-12) [OF R]
  note outs = rename_outs [OF R]
  note D = graph_okD [OF ok old(1)]
  have "x \<noteq> old" using assms rename_effect(2) [OF R] by auto
  from rename_effect(4) [OF R this True] assms
  have u: "update_data old (outputs_for new (th_outputs t)) y = Inr y'" by simp
  have "\<forall>p \<in> set (th_thunks y). hash_base (fst p) = old \<longrightarrow> named old (th_outputs t) (fst p)"
    using graph_okD(5) [OF ok assms(3)] old(1) by force
  with update_data_thunks [OF D(1) outs(4) u] retargeted_rename [OF D(1) outs(2) fresh(3)]
  show ?thesis by simp
next
  case False
  note ok = renamingD(1) [OF R] and old = renamingD(2,3) [OF R] and fresh = renamingD(4-6) [OF R]
    and t' = renamingD(7,8) [OF R] and run = renamingD(9) [OF R] and rs = renamingD(10-12) [OF R]
  have "x \<noteq> old" using assms rename_effect(2) [OF R] by auto
  with False assms rename_effect(3) [OF R] have "y' = y" by simp
  moreover have "rebase old new (fst p) = fst p" if p: "p \<in> set (th_thunks y)" for p
    using False rs(3) depends_item [OF assms(3) p] by (auto simp: rebase_def)
  ultimately show ?thesis by force
qed

lemma rename_dom:
  assumes R: "renaming g g' old new t t' rs"
  shows "g_thunks g' x = None \<longleftrightarrow> x = old \<or> x \<noteq> new \<and> g_thunks g x = None"
proof (cases "x = old \<or> x = new")
  case True
  then show ?thesis using rename_effect(2,5) [OF R] renamingD(2,4) [OF R] by auto
next
  case False
  then show ?thesis using rename_effect(3,4) [OF R] by (cases "x \<in> set rs") force+
qed

lemma rename_depends:
  assumes R: "renaming g g' old new t t' rs"
  shows "depends g' x k \<longleftrightarrow> depends g x k \<and> k \<noteq> old \<or> depends g x old \<and> k = new"
proof -
  note ok = renamingD(1) [OF R] and old = renamingD(2,3) [OF R] and fresh = renamingD(4-6) [OF R]
    and t' = renamingD(7,8) [OF R] and run = renamingD(9) [OF R] and rs = renamingD(10-12) [OF R]
  note D = graph_okD [OF ok old(1)]
  have nold: "\<not> depends g old k'" for k'
    using executable_no_deps old by (auto simp: executable_in_def)
  consider (old) "x = old" | (new) "x = new" | (none) "x \<noteq> old" "x \<noteq> new" "g_thunks g x = None"
    | (some) y y' where "x \<noteq> new" "g_thunks g x = Some y" "g_thunks g' x = Some y'"
    using rename_dom [OF R, of x] by (cases "g_thunks g x"; cases "g_thunks g' x") auto
  then show ?thesis
  proof cases
    case old
    then show ?thesis using nold rename_effect(2) [OF R] by (simp add: depends_iff [of g'])
  next
    case new
    then show ?thesis
      using rename_effect(5) [OF R] fresh(1) \<open>can_be_executed t\<close> t'
      by (simp add: depends_iff deps_def can_be_executed_def)
  next
    case none
    with rename_dom [OF R, of x] show ?thesis by (simp add: depends_iff)
  next
    case some
    have "deps y' = (\<lambda>b. if b = old then new else b) ` deps y"
      unfolding deps_def rename_thunk [OF R some, THEN conjunct2] image_image fst_conv
    proof (intro image_cong refl)
      fix p assume "p \<in> set (th_thunks y)"
      with graph_okD(5) [OF ok some(2)] obtain tags where "named (hash_base (fst p)) tags (fst p)" by blast
      then show "hash_base (rebase old new (fst p)) = (if hash_base (fst p) = old then new else hash_base (fst p))"
        by (rule hash_base_rebase [OF D(1) fresh(2)])
    qed
    with some show ?thesis by (auto simp: depends_iff split: if_splits)
  qed
qed

lemma rename_ok:
  assumes R: "renaming g g' old new t t' rs"
  shows "graph_ok g'"
proof -
  note ok = renamingD(1) [OF R] and old = renamingD(2,3) [OF R] and fresh = renamingD(4-6) [OF R]
    and t' = renamingD(7,8) [OF R] and run = renamingD(9) [OF R] and rs = renamingD(10-12) [OF R]
  note D = graph_okD [OF ok old(1)]
  have no_new: "\<not> depends g x new" for x
    using ok fresh(1) unfolding graph_ok_def closed_def by blast
  have "closed g'"
    using ok rename_dom [OF R] rename_depends [OF R] fresh(1) old(1)
    by (auto simp: closed_def graph_ok_def)
  moreover have "refs_exact g'"
    unfolding refs_exact_def
  proof (intro allI impI)
    fix k assume "g_thunks g' k \<noteq> None"
    then consider "k = new" "new \<noteq> old" | "k \<noteq> old" "k \<noteq> new" "g_thunks g k \<noteq> None"
      using rename_dom [OF R, of k] by auto
    then show "\<exists>rs. g_referencing g' k = Some rs \<and> distinct rs \<and> set rs = {h. depends g' h k}"
    proof cases
      case 1
      then have "{h. depends g' h k} = {h. depends g h old}" using rename_depends [OF R] no_new by auto
      with 1 rs show ?thesis by (simp add: rename_effect(1) [OF R])
    next
      case 2
      then have "{h. depends g' h k} = {h. depends g h k}" using rename_depends [OF R] by auto
      with 2 ok show ?thesis by (simp add: rename_effect(1) [OF R] graph_ok_def refs_exact_def)
    qed
  qed
  moreover have "tags_ok g'"
    unfolding tags_ok_def
  proof (intro allI impI, elim conjE)
    fix r y' q z' assume r: "g_thunks g' r = Some y'" and q: "q \<in> set (th_thunks y')"
      and z': "g_thunks g' (hash_base (fst q)) = Some z'"
    have "r \<noteq> new" using q r rename_effect(5) [OF R] t' old(2) by (auto simp: can_be_executed_def)
    moreover from this r obtain y where y: "g_thunks g r = Some y"
      using rename_dom [OF R, of r] by (cases "g_thunks g r") auto
    ultimately obtain p where p: "p \<in> set (th_thunks y)" and q': "fst q = rebase old new (fst p)"
      using rename_thunk [OF R _ y r] q by auto
    from graph_okD(5) [OF ok y] p obtain z where z: "g_thunks g (hash_base (fst p)) = Some z"
      and n: "named (hash_base (fst p)) (th_outputs z) (fst p)" by blast
    have base: "hash_base (fst q) = (if hash_base (fst p) = old then new else hash_base (fst p))"
      unfolding q' by (rule hash_base_rebase [OF D(1) fresh(2) n])
    show "named (hash_base (fst q)) (th_outputs z') (fst q)"
    proof (cases "hash_base (fst p) = old")
      case True
      with z old(1) have "z = t" by simp
      moreover have "z' = t'" using True z' base rename_effect(5) [OF R] by simp
      ultimately show ?thesis
        using named_rebase [OF n True] base True t' by (simp add: q')
    next
      case False
      with z fresh(1) have "hash_base (fst p) \<noteq> new" by auto
      with rename_thunk [OF R this z] z' base False have "th_outputs z' = th_outputs z" by simp
      with n base False show ?thesis by (simp add: q' rebase_def)
    qed
  qed
  moreover have "keys_ok g'"
    using ok rename_dom [OF R] fresh by (auto simp: graph_ok_def keys_ok_def)
  ultimately show ?thesis by (simp add: graph_ok_def)
qed

section \<open>Forcing, over any store\<close>

text \<open>The graph sees one law of the store: the thunk written is the thunk, under a thunk's hash.\<close>

locale thunk_store =
  fixes env :: "'d env"
  assumes write_law: "env_write env t d = Inr (h, t', d') \<Longrightarrow>
     hash_type h = Inr Thunk \<and> th_thunks t' = th_thunks t \<and> th_outputs t' = th_outputs t"

text \<open>No thunk that becomes runnable turns into one that is in the graph already.\<close>

fun no_clash :: "'d env \<Rightarrow> string list \<Rightarrow> string list \<times> graph \<times> 'd \<Rightarrow> bool" where
  "no_clash env [] st = True"
| "no_clash env (r # rs) st =
     ((case g_thunks (fst (snd st)) r of
         None \<Rightarrow> True
       | Some t \<Rightarrow>
           (if can_be_executed t then
              (case env_write env t (snd (snd st)) of
                 Inl _ \<Rightarrow> True
               | Inr (h, _) \<Rightarrow> g_thunks (fst (snd st)) h = None \<and> CHR ''#'' \<notin> set h)
            else True)) \<and>
      (case promote env r st of Inl _ \<Rightarrow> True | Inr st' \<Rightarrow> no_clash env rs st'))"

text \<open>What the loop keeps: everything runnable is an old runnable thunk, one already reported, or still
  to be visited.\<close>

definition promoting :: "string set \<Rightarrow> string list \<Rightarrow> string list \<Rightarrow> graph \<Rightarrow> bool" where
  "promoting start remaining reported g \<longleftrightarrow>
     graph_ok g \<and> distinct remaining \<and> distinct reported \<and> start \<inter> set reported = {} \<and>
     (\<forall>r \<in> set remaining. g_thunks g r \<noteq> None \<and> r \<notin> start \<and> r \<notin> set reported) \<and>
     (\<forall>x \<in> start \<union> set reported. executable_in g x) \<and>
     (\<forall>x. executable_in g x \<longrightarrow> x \<in> start \<union> set reported \<union> set remaining)"

lemma rename_executable:
  assumes R: "renaming g g' old new t t' rs"
  shows "executable_in g' x \<longleftrightarrow> x = new \<or> x \<noteq> old \<and> executable_in g x"
proof -
  have t': "can_be_executed t'" using renamingD(3,7) [OF R] by (simp add: can_be_executed_def)
  have "new \<noteq> old" using renamingD(2,4) [OF R] by auto
  consider (new) "x = new" | (gone) "x \<noteq> new" "g_thunks g' x = None"
    | (kept) y y' where "x \<noteq> new" "g_thunks g x = Some y" "g_thunks g' x = Some y'"
    using rename_dom [OF R, of x] by (cases "g_thunks g x"; cases "g_thunks g' x") auto
  then show ?thesis
  proof cases
    case new
    then show ?thesis using rename_effect(5) [OF R] t' by (simp add: executable_in_def)
  next
    case gone
    with rename_dom [OF R, of x] show ?thesis by (auto simp: executable_in_def)
  next
    case kept
    then have "x \<noteq> old" using rename_effect(2) [OF R] by auto
    moreover have "can_be_executed y' \<longleftrightarrow> can_be_executed y"
      using rename_thunk [OF R kept, THEN conjunct2]
      by (simp add: can_be_executed_def) (metis image_is_empty set_empty)
    ultimately show ?thesis using kept by (simp add: executable_in_def)
  qed
qed

context thunk_store
begin

lemma promote_step:
  assumes inv: "promoting start (r # rs) reported g"
    and run: "promote env r (reported, g, d) = Inr (reported', g', d')"
    and clash: "no_clash env (r # rs) (reported, g, d)"
  shows "promoting start rs reported' g'"
proof -
  from inv have ok: "graph_ok g" by (simp add: promoting_def)
  from inv obtain t where t: "g_thunks g r = Some t" by (auto simp: promoting_def)
  show ?thesis
  proof (cases "can_be_executed t")
    case False
    with run t have same: "reported' = reported" "g' = g" by (simp_all add: promote_def at_key_def)
    have "\<not> executable_in g r" using False t by (simp add: executable_in_def)
    with inv show ?thesis unfolding same promoting_def by auto
  next
    case True
    from run t True obtain h t' where w: "env_write env t d = Inr (h, t', d')"
      and rep: "reported' = uset_insert h reported"
      and upd: "update_hash r (outputs_for h (th_outputs t))
         (if g_thunks g h = None then g\<lparr>g_thunks := (g_thunks g)(h \<mapsto> t')\<rparr> else g) = Inr g'"
      by (auto simp: promote_def at_key_def)
    from clash t True w have fresh: "g_thunks g h = None" "CHR ''#'' \<notin> set h" by simp_all
    from graph_okD(4) [OF ok t] obtain ws where
      ws: "g_referencing g r = Some ws" "distinct ws" "set ws = {x. depends g x r}" by blast
    have R: "renaming g g' r h t t' ws"
      using ok t True fresh write_law [OF w] upd ws by (simp add: renaming_def put_thunk_def)
    have "\<not> executable_in g h" using fresh(1) by (simp add: executable_in_def)
    with inv fresh(1) have h: "h \<notin> set reported" "h \<notin> start" "h \<notin> set rs"
      unfolding promoting_def by auto
    have keep: "g_thunks g' x \<noteq> None" if "x \<in> set rs" for x
    proof -
      from that inv have "x \<noteq> r" "g_thunks g x \<noteq> None" by (auto simp: promoting_def)
      then show ?thesis using rename_dom [OF R, of x] by simp
    qed
    note ex = rename_executable [OF R]
    from inv have i: "distinct rs" "r \<notin> set rs" "distinct reported" "start \<inter> set reported = {}"
      "\<forall>x \<in> set rs. x \<notin> start \<and> x \<notin> set reported" "r \<notin> start" "r \<notin> set reported"
      "\<forall>x \<in> start \<union> set reported. executable_in g x"
      "\<forall>x. executable_in g x \<longrightarrow> x \<in> start \<union> set reported \<union> set (r # rs)"
      by (auto simp: promoting_def)
    have rep': "reported' = reported @ [h]" using h(1) by (simp add: rep uset_insert_def)
    show ?thesis
      unfolding promoting_def rep'
    proof (intro conjI)
      show "graph_ok g'" by (rule rename_ok [OF R])
      show "distinct rs" by (rule i(1))
      show "distinct (reported @ [h])" using i(3) h by simp
      show "start \<inter> set (reported @ [h]) = {}" using i(4) h by auto
      show "\<forall>x \<in> set rs. g_thunks g' x \<noteq> None \<and> x \<notin> start \<and> x \<notin> set (reported @ [h])"
        using i(5) h keep by auto
      show "\<forall>x \<in> start \<union> set (reported @ [h]). executable_in g' x"
      proof
        fix x assume "x \<in> start \<union> set (reported @ [h])"
        then consider "x = h" | "x \<in> start \<union> set reported" by auto
        then show "executable_in g' x"
          using ex [of x] i(6,7,8) by cases auto
      qed
      show "\<forall>x. executable_in g' x \<longrightarrow> x \<in> start \<union> set (reported @ [h]) \<union> set rs"
        using ex i(9) by auto
    qed
  qed
qed

lemma promote_loop:
  assumes "promoting start rs reported g" and "no_clash env rs (reported, g, d)"
    and "fold_res (promote env) rs (reported, g, d) = Inr (reported', g', d')"
  shows "promoting start [] reported' g'"
  using assms
proof (induction rs arbitrary: reported g d)
  case Nil
  then show ?case by simp
next
  case (Cons r rs)
  from Cons.prems(3) obtain rep1 g1 d1 where 1: "promote env r (reported, g, d) = Inr (rep1, g1, d1)"
    and rest: "fold_res (promote env) rs (rep1, g1, d1) = Inr (reported', g', d')" by auto
  from Cons.prems(2) 1 have "no_clash env rs (rep1, g1, d1)" by simp
  with promote_step [OF Cons.prems(1) 1 Cons.prems(2)] show ?case
    using Cons.IH rest by blast
qed

text \<open>The whole of \<open>force_thunk\<close> for a result that is a value.\<close>

lemma force_value:
  assumes ok: "graph_ok g" and old: "g_thunks g old = Some t" "can_be_executed t"
    and outs: "values_for t outs"
    and clash: "\<And>g2 rs. update_hash old outs g = Inr g2 \<Longrightarrow>
       g_referencing g2 (out_hash (hd outs)) = Some rs \<Longrightarrow> no_clash env rs ([], g2, d)"
    and run: "force_thunk n env old outs g d = Inr (res, g', d')"
  shows "\<exists>nexts. res = Some nexts \<and> graph_ok g' \<and> distinct nexts \<and>
    {x. executable_in g' x} = ({x. executable_in g x} - {old}) \<union> set nexts \<and>
    ({x. executable_in g x} - {old}) \<inter> set nexts = {}"
proof -
  have ne: "outs \<noteq> []" and ty: "hash_type (out_hash (hd outs)) = Inr Value"
    using outs by (cases outs; auto simp: values_for_def)+
  have outs': "(hd outs)\<lparr>out_hash := out_hash (hd outs)\<rparr> # tl outs = outs"
    using ne by (cases outs) simp_all
  have "bind_res (update_hash old outs g) (\<lambda>g2.
      bind_res (at_key (g_referencing g2) (out_hash (hd outs))) (\<lambda>rs.
      bind_res (fold_res (promote env) rs ([], g2, d)) (\<lambda>(nexts, g3, d').
        Inr (Some nexts, g3\<lparr>g_referencing := (g_referencing g3)(out_hash (hd outs) := None)\<rparr>, d'))))
      = Inr (res, g', d')"
    using run ne ty old(1) by (simp add: force_thunk_def Let_def outs')
  then obtain g2 rs nexts g3 where upd: "update_hash old outs g = Inr g2"
    and rs: "g_referencing g2 (out_hash (hd outs)) = Some rs"
    and loop: "fold_res (promote env) rs ([], g2, d) = Inr (nexts, g3, d')"
    and res: "res = Some nexts"
    and g': "g' = g3\<lparr>g_referencing := (g_referencing g3)(out_hash (hd outs) := None)\<rparr>"
  proof (elim bind_resE)
    fix g2 rs st assume 1: "update_hash old outs g = Inr g2"
      and 2: "at_key (g_referencing g2) (out_hash (hd outs)) = Inr rs"
      and 3: "fold_res (promote env) rs ([], g2, d) = Inr st"
      and 4: "(case st of (nexts, g3, d') \<Rightarrow> Inr (Some nexts,
        g3\<lparr>g_referencing := (g_referencing g3)(out_hash (hd outs) := None)\<rparr>, d')) = Inr (res, g', d')"
    obtain nexts g3 d3 where st: "st = (nexts, g3, d3)" by (cases st)
    from 2 have 2: "g_referencing g2 (out_hash (hd outs)) = Some rs" by (simp add: at_key_Inr)
    from 4 have "d3 = d'" "res = Some nexts"
      "g' = g3\<lparr>g_referencing := (g_referencing g3)(out_hash (hd outs) := None)\<rparr>" by (simp_all add: st)
    with that [OF 1 2] 3 show thesis by (simp add: st)
  qed
  note U = update_hash_value [OF ok old outs upd]
  note U0 = U [THEN conjunct1]
    and U1 = U [THEN conjunct2, THEN conjunct1, rule_format]
    and U2 = U [THEN conjunct2, THEN conjunct2, THEN conjunct1, rule_format]
  from U [THEN conjunct2, THEN conjunct2, THEN conjunct2] rs
  have dist: "distinct rs" "set rs = {x. depends g x old}" by auto
  define start where "start = {x. executable_in g x} - {old}"
  have ex2: "executable_in g2 x \<longleftrightarrow> x \<in> start \<or> x \<in> set rs \<and> executable_in g2 x" for x
  proof
    assume e: "executable_in g2 x"
    then have "g_thunks g2 x \<noteq> None" by (auto simp: executable_in_def)
    then have x: "x \<noteq> old" "g_thunks g x \<noteq> None" using U1 [of x] by auto
    then obtain y where y: "g_thunks g x = Some y" by auto
    show "x \<in> start \<or> x \<in> set rs \<and> executable_in g2 x"
    proof (cases "\<exists>k. depends g x k")
      case True
      then obtain k where k: "depends g x k" by blast
      with executable_no_deps [OF e, of k] U2 [of x k] have "k = old" by blast
      with k dist(2) e show ?thesis by simp
    next
      case False
      have "can_be_executed y"
      proof (rule ccontr)
        assume "\<not> can_be_executed y"
        then obtain p where "p \<in> set (th_thunks y)"
          by (cases "th_thunks y") (auto simp: can_be_executed_def)
        with y False show False by (auto dest: depends_item)
      qed
      with x y show ?thesis by (simp add: start_def executable_in_def)
    qed
  next
    assume "x \<in> start \<or> x \<in> set rs \<and> executable_in g2 x"
    then show "executable_in g2 x"
    proof
      assume "x \<in> start"
      then obtain y where x: "x \<noteq> old" "g_thunks g x = Some y" and e: "executable_in g x"
        by (auto simp: start_def executable_in_def)
      then obtain y2 where y2: "g_thunks g2 x = Some y2" using U1 [of x] by (cases "g_thunks g2 x") auto
      have none: "\<not> depends g2 x k" for k using executable_no_deps [OF e, of k] U2 [of x k] by blast
      have "th_thunks y2 = []"
      proof (cases "th_thunks y2")
        case (Cons p ps)
        then have "depends g2 x (hash_base (fst p))" by (intro depends_item [OF y2]) simp
        with none show ?thesis by simp
      qed
      with y2 show ?thesis by (simp add: executable_in_def can_be_executed_def)
    qed simp
  qed
  have inv: "promoting start rs [] g2"
    unfolding promoting_def
  proof (intro conjI)
    show "graph_ok g2" by (rule U0)
    show "distinct rs" by (rule dist(1))
    show "\<forall>r \<in> set rs. g_thunks g2 r \<noteq> None \<and> r \<notin> start \<and> r \<notin> set []"
    proof
      fix r assume "r \<in> set rs"
      then have r: "depends g r old" using dist(2) by simp
      then have "g_thunks g r \<noteq> None" by (auto simp: depends_iff)
      moreover have "r \<noteq> old" using r executable_no_deps [of g old] old by (auto simp: executable_in_def)
      moreover have "r \<notin> start" using r executable_no_deps by (auto simp: start_def)
      ultimately show "g_thunks g2 r \<noteq> None \<and> r \<notin> start \<and> r \<notin> set []" using U1 [of r] by auto
    qed
    show "\<forall>x \<in> start \<union> set []. executable_in g2 x"
    proof
      fix x assume "x \<in> start \<union> set []"
      then show "executable_in g2 x" using ex2 [of x] by simp
    qed
    show "\<forall>x. executable_in g2 x \<longrightarrow> x \<in> start \<union> set [] \<union> set rs"
    proof (intro allI impI)
      fix x assume "executable_in g2 x"
      then show "x \<in> start \<union> set [] \<union> set rs" using ex2 [of x] by auto
    qed
  qed simp_all
  from promote_loop [OF inv clash [OF upd rs] loop]
  have P: "promoting start [] nexts g3" .
  have same: "g_thunks g' = g_thunks g3" by (simp add: g')
  have dep: "depends g' = depends g3" by (rule depends_thunks [OF same])
  have ex: "executable_in g' = executable_in g3" by (intro ext) (simp add: executable_in_def same)
  have "g_thunks g3 (out_hash (hd outs)) = None"
    using P ty by (auto simp: promoting_def graph_ok_def keys_ok_def)
  with P have "refs_exact g'"
    unfolding refs_exact_def same dep by (auto simp: g' promoting_def graph_ok_def refs_exact_def)
  moreover from P have ok3: "graph_ok g3" by (simp add: promoting_def)
  then have "closed g'" "keys_ok g'"
    by (simp_all add: graph_ok_def closed_def keys_ok_def same dep)
  moreover have "tags_ok g'"
    using ok3 unfolding graph_ok_def tags_ok_def same by blast
  ultimately have "graph_ok g'" by (simp add: graph_ok_def)
  moreover have "{x. executable_in g' x} = start \<union> set nexts" "start \<inter> set nexts = {}" "distinct nexts"
    using P unfolding ex promoting_def by auto
  ultimately show ?thesis
    using res by (simp add: start_def)
qed

end

section \<open>Forcing, over the object store on disk\<close>

interpretation st: thunk_store "store_env sha256 encode decode k gg_dir"
  by unfold_locales (auto simp: store_env_def set_hash_def elim!: write_thunk_Inr)

text \<open>C1: forcing a runnable thunk to a value keeps the graph closed, its references exact and its
  dependencies well named, and the thunks it reports are exactly those that became runnable by it:
  afterwards what can run is what could run before, without the forced thunk, and the reported ones.
  The hypothesis is that no thunk turns into one that is in the graph already.\<close>

theorem force_thunk_value:
  assumes "graph_ok g" and "g_thunks g old = Some t" and "can_be_executed t" and "values_for t outs"
    and "\<forall>g2 rs. update_hash old outs g = Inr g2 \<and> g_referencing g2 (out_hash (hd outs)) = Some rs \<longrightarrow>
       no_clash (store_env sha256 encode decode k gg_dir) rs ([], g2, d)"
    and "force_thunk n (store_env sha256 encode decode k gg_dir) old outs g d = Inr (res, g', d')"
  shows "\<exists>nexts. res = Some nexts \<and> graph_ok g' \<and> distinct nexts \<and>
    {x. executable_in g' x} = ({x. executable_in g x} - {old}) \<union> set nexts \<and>
    ({x. executable_in g x} - {old}) \<inter> set nexts = {}"
  by (rule st.force_value [OF assms(1-4) _ assms(6)]) (use assms(5) in blast)

section \<open>Where the graph loses track\<close>

text \<open>When a thunk is reduced to a thunk that others in the graph are already waiting for, the list
  of those others is overwritten: they still depend on it and are no longer told when it is done.\<close>

lemma update_hash_loses_references:
  assumes "update_hash old outs g = Inr g'" and "graph_ok g" and "g_thunks g old = Some t"
    and "out_hash (hd outs) = new" and "depends g x new" and "\<not> depends g x old" and "x \<noteq> old" and "new \<noteq> old"
  shows "depends g' x new \<and> (\<forall>rs. g_referencing g' new = Some rs \<longrightarrow> x \<notin> set rs)"
proof -
  obtain rs where rs: "g_referencing g old = Some rs" "distinct rs" "set rs = {y. depends g y old}"
    using graph_okD(4) [OF assms(2,3)] by blast
  note eff = update_hash_effect [OF assms(1) rs(1,2)]
  from rs(3) assms(6) have x: "x \<notin> set rs" by simp
  from eff(5) [OF assms(7) x] assms(5) have "depends g' x new" by (simp add: depends_iff)
  moreover have "g_referencing g' new = Some rs" using eff(3) assms(4,8) by simp
  ultimately show ?thesis using x by simp
qed

text \<open>A thunk that is added after its dependency has been reduced is renamed with its own output
  tags instead of the dependency's: a dependency on another output of the reduced thunk, under a tag
  the new thunk does not have itself, keeps the old hash, which is no longer in the graph.\<close>

theorem add_thunk_stale_dependency:
  assumes "add_thunk (Suc (Suc n)) rd h g = Inr (u, g')"
    and "hash_base h = h" and "g_thunks g h = None" and "g_updated g h = None"
    and "rd h = Inr t" and "th_thunks t = [(for_output dep tag, name)]"
    and "CHR ''#'' \<notin> set dep" and "g_updated g dep = Some dep'" and "g_thunks g dep' \<noteq> None"
    and "g_thunks g dep = None" and "dep' \<noteq> dep" and "h \<noteq> dep"
    and "tag \<notin> set (tl (th_outputs t))" and "hash_base dep' \<noteq> dep"
  shows "depends g' h dep \<and> g_thunks g' dep = None"
proof -
  have base: "hash_base dep = dep" using assms(7) by (rule hash_base_id)
  have item: "hash_base (for_output dep tag) = dep" by (simp add: base)
  define e where "e = enter_thunk h t g"
  have e: "g_thunks e = g_thunks g" "g_updated e = g_updated g" by (simp_all add: e_def)
  have rec: "add_thunk (Suc n) rd dep e = Inr (dep', e)"
    using assms(8,9) by (simp add: base e updated_hash_def Let_def)
  from assms(2,4) have up: "updated_hash g (hash_base h) = hash_base h" by (simp add: updated_hash_def)
  have nh: "g_thunks g (hash_base h) = None" using assms(2,3) by simp
  obtain t0 ups g1 t' where t0: "rd h = Inr t0"
    and loop: "fold_res (add_item (\<lambda>item_base. add_thunk (Suc n) rd item_base) h) (th_thunks t0)
       ([], enter_thunk h t0 g) = Inr (ups, g1)"
    and upd: "fold_res (\<lambda>(a, b). update_data a (outputs_for b (th_outputs t0))) ups t0 = Inr t'"
    and g': "g' = insert_thunk h t' g1"
    by (rule add_thunk_new [OF up nh assms(1), unfolded assms(2)])
  have t0t: "t0 = t" using t0 assms(5) by simp
  from loop have "ups = [(dep, dep')]" and g1: "g1 = add_referencing dep' h e"
    unfolding t0t assms(6)
    using rec assms(11) by (auto simp: add_item_Inr item base e_def [symmetric] simp del: add_thunk.simps)
  with upd have u: "update_data dep (outputs_for dep' (th_outputs t)) t = Inr t'"
    by (simp add: t0t)
  have "\<forall>o' \<in> set (outputs_for dep' (th_outputs t)). hash_base (out_hash o') \<noteq> dep"
    using assms(14) by (auto simp: outputs_for_def)
  from update_data_thunks(1) [OF assms(7) this u]
  have set: "set (th_thunks t') = retargeted (targets dep True (outputs_for dep' (th_outputs t))) {(for_output dep tag, name)}"
    by (simp add: assms(6))
  have ne: "for_output dep x \<noteq> dep" for x by (simp add: for_output_def)
  have "map_of (targets dep False (outputs_for dep' tags)) (for_output dep tag) = None"
    if "tag \<notin> set tags" for tags
    using that by (induction tags) (auto simp: outputs_for_def old_hash_of_def for_output_def)
  with assms(13) have "map_of (targets dep True (outputs_for dep' (th_outputs t))) (for_output dep tag) = None"
    by (cases "th_outputs t") (auto simp: outputs_for_def old_hash_of_def ne)
  with set have "(for_output dep tag, name) \<in> set (th_thunks t')" by (simp add: retargeted_def)
  then have "dep \<in> deps t'" using item by (force simp: deps_def)
  moreover have "g_thunks g' h = Some t'"
    using assms(3) by (simp add: g' insert_thunk_def g1 e)
  ultimately have "depends g' h dep" by (auto simp: depends_iff)
  moreover have "g_thunks g' dep = None"
    using assms(10,12) by (simp add: g' insert_thunk_def g1 e)
  ultimately show ?thesis by simp
qed

section \<open>The theorems at work\<close>

text \<open>\<open>TB\<close> waits for \<open>TA\<close> alone, under the name of its only output.\<close>

definition leaf :: "data_list \<Rightarrow> thunk" where
  "leaf ts = \<lparr>th_function = \<lparr>fn_hash = ''Vf'', fn_args = [''f''], fn_envars = []\<rparr>, th_values = [],
     th_thunks = ts, th_executables = [(''Vf'', [])], th_outputs = [''o''], th_links = [],
     th_timeout = 0, th_hash = None\<rparr>"

definition pair_graph :: graph where
  "pair_graph = \<lparr>g_thunks = [''TA'' \<mapsto> leaf [], ''TB'' \<mapsto> leaf [(''TA'', ''a'')]],
     g_referencing = [''TA'' \<mapsto> [''TB''], ''TB'' \<mapsto> []], g_value_deps = [], g_executable_deps = [],
     g_original = Map.empty, g_updated = Map.empty\<rparr>"

abbreviation pair_env :: "disk env" where
  "pair_env \<equiv> store_env toy_sha (\<lambda>_. Some ''p'') sample_decode plain_kernel ''/g''"

lemma base_TA [simp]: "hash_base ''TA'' = ''TA''" "hash_base ''TB'' = ''TB''"
  by (simp_all add: hash_base_id)

lemma pair_depends: "depends pair_graph x k \<longleftrightarrow> x = ''TB'' \<and> k = ''TA''"
  by (auto simp: depends_iff pair_graph_def leaf_def deps_def split: if_splits)

lemma pair_thunks: "g_thunks pair_graph x = (if x = ''TB'' then Some (leaf [(''TA'', ''a'')])
    else if x = ''TA'' then Some (leaf []) else None)"
  by (simp add: pair_graph_def)

lemma pair_ok: "graph_ok pair_graph"
proof -
  have "closed pair_graph" by (simp add: closed_def pair_depends pair_thunks)
  moreover have "refs_exact pair_graph"
    by (auto simp: refs_exact_def pair_depends pair_thunks) (simp_all add: pair_graph_def)
  moreover have "tags_ok pair_graph"
    by (auto simp: tags_ok_def pair_thunks leaf_def named_def split: if_splits)
  moreover have "keys_ok pair_graph"
    by (auto simp: keys_ok_def pair_thunks hash_type_def split: if_splits)
  ultimately show ?thesis by (simp add: graph_ok_def)
qed

definition pair_hash :: string where
  "pair_hash = hash_compute toy_sha (MAGIC_NUMBER @ ''p'') Thunk"

lemma pair_hash_facts: "CHR ''#'' \<notin> set pair_hash" "pair_hash \<noteq> ''TA''" "pair_hash \<noteq> ''TB''"
    "hash_type pair_hash = Inr Thunk"
  unfolding pair_hash_def by code_simp+

lemma pair_write:
  "env_write pair_env t Map.empty = Inr (pair_hash, set_hash pair_hash t,
     [blob ''/g'' pair_hash \<mapsto> Regular (MAGIC_NUMBER @ ''p'') 256])"
  by (simp add: store_env_def write_thunk_def serialize_def Let_def pair_hash_def [symmetric]
      path_exists_def plain_kernel_create_empty final_mode_def target_path_def)

abbreviation pair_out :: "thunk_output list" where
  "pair_out \<equiv> [\<lparr>out_hash = ''VX'', out_tag = ''o''\<rparr>]"

definition pair_next :: graph where
  "pair_next = pair_graph\<lparr>g_thunks := [''TB'' \<mapsto> (leaf [])\<lparr>th_values := [(''VX'', ''a'')]\<rparr>],
     g_referencing := [''VX'' \<mapsto> [''TB''], ''TB'' \<mapsto> []]\<rparr>"

lemma pair_update: "update_hash ''TA'' pair_out pair_graph = Inr pair_next"
proof -
  have data: "update_data ''TA'' pair_out (leaf [(''TA'', ''a'')]) =
      Inr ((leaf [])\<lparr>th_values := [(''VX'', ''a'')]\<rparr>)"
    by (simp add: update_data_def update_output_def old_hash_of_def new_hash_of_def leaf_def
        mm_equal_range_def mm_erase_def insert_renamed_def hash_type_def update_function_def
        update_string_def update_placeholder.simps data_placeholder_def Let_def)
  show ?thesis
    by (simp add: update_hash_def pair_graph_def at_key_def update_referencing_def data pair_next_def
        hash_type_def Let_def) (auto simp: fun_eq_iff)
qed

lemma update_hash_unreferenced:
  "outs \<noteq> [] \<Longrightarrow> hash_type (out_hash (hd outs)) = Inr ty \<Longrightarrow> g_referencing g old = Some [] \<Longrightarrow>
     \<exists>g'. update_hash old outs g = Inr g'"
  by (simp add: update_hash_def Let_def at_key_def)

lemma pair_promote:
  "\<exists>g1 d1. promote pair_env ''TB'' ([], pair_next, Map.empty) = Inr ([pair_hash], g1, d1)"
proof -
  let ?t = "(leaf [])\<lparr>th_values := [(''VX'', ''a'')]\<rparr>"
  let ?g = "put_thunk pair_hash (set_hash pair_hash ?t) pair_next"
  have TB: "g_thunks pair_next ''TB'' = Some ?t" and new: "g_thunks pair_next pair_hash = None"
    using pair_hash_facts by (simp_all add: pair_next_def)
  have t: "can_be_executed ?t" "th_outputs ?t = [''o'']" by (simp_all add: leaf_def can_be_executed_def)
  have "\<exists>g'. update_hash ''TB'' (outputs_for pair_hash [''o'']) ?g = Inr g'"
    by (rule update_hash_unreferenced) (simp_all add: outputs_for_def pair_hash_facts pair_next_def)
  then obtain g' where "update_hash ''TB'' (outputs_for pair_hash [''o'']) ?g = Inr g'" ..
  with TB new t show ?thesis
    by (simp add: promote_def at_key_def pair_write put_thunk_def uset_insert_def)
qed

theorem force_thunk_value_witness:
  "\<exists>g' d'. force_thunk 1 pair_env ''TA'' pair_out pair_graph Map.empty = Inr (Some [pair_hash], g', d') \<and>
     graph_ok g' \<and> executable_in g' pair_hash"
proof -
  have t: "g_thunks pair_graph ''TA'' = Some (leaf [])" by (simp add: pair_thunks)
  have vals: "values_for (leaf []) pair_out" by (simp add: values_for_def leaf_def hash_type_def)
  have clash: "no_clash pair_env [''TB''] ([], pair_next, Map.empty)"
    using pair_hash_facts by (simp add: pair_next_def pair_write split: sum.splits)
  obtain g' d' where run: "force_thunk 1 pair_env ''TA'' pair_out pair_graph Map.empty = Inr (Some [pair_hash], g', d')"
    using pair_promote
    by (auto simp: force_thunk_def t hash_type_def pair_update at_key_def)
      (auto simp: pair_next_def)
  have "\<exists>nexts. Some [pair_hash] = Some nexts \<and> graph_ok g' \<and> distinct nexts \<and>
    {x. executable_in g' x} = ({x. executable_in pair_graph x} - {''TA''}) \<union> set nexts \<and>
    ({x. executable_in pair_graph x} - {''TA''}) \<inter> set nexts = {}"
  proof (rule force_thunk_value [OF pair_ok t _ vals _ run])
    show "can_be_executed (leaf [])" by (simp add: leaf_def can_be_executed_def)
    show "\<forall>g2 rs. update_hash ''TA'' pair_out pair_graph = Inr g2 \<and>
        g_referencing g2 (out_hash (hd pair_out)) = Some rs \<longrightarrow> no_clash pair_env rs ([], g2, Map.empty)"
      using clash by (auto simp: pair_update pair_next_def)
  qed
  with run show ?thesis by auto
qed

theorem order_one_complete_witness:
  "\<exists>xs. order_one_dependencies 2 pair_graph ''TB#x'' = Inr xs \<and> set xs = {''TA''}"
proof -
  define rank :: "string \<Rightarrow> nat" where "rank = (\<lambda>h. if h = ''TB'' then 1 else 0)"
  have b: "hash_base ''TB#x'' = ''TB''" by code_simp
  have "\<exists>xs. order_one_dependencies 2 pair_graph ''TB#x'' = Inr xs \<and> xs \<noteq> [] \<and> distinct xs \<and>
    set xs = {x. (depends pair_graph)\<^sup>*\<^sup>* (hash_base ''TB#x'') x \<and> executable_in pair_graph x}"
    by (rule order_one_complete [where rank = rank])
      (use pair_ok in \<open>auto simp: graph_ok_def pair_depends rank_def b pair_thunks\<close>)
  moreover have "(depends pair_graph)\<^sup>*\<^sup>* ''TB'' x \<and> executable_in pair_graph x \<longleftrightarrow> x = ''TA''" for x
  proof
    assume x: "(depends pair_graph)\<^sup>*\<^sup>* ''TB'' x \<and> executable_in pair_graph x"
    then have "x \<noteq> ''TB''" by (auto simp: executable_in_def pair_thunks leaf_def can_be_executed_def)
    with x show "x = ''TA''" by (auto simp: executable_in_def pair_thunks split: if_splits)
  next
    assume "x = ''TA''"
    then show "(depends pair_graph)\<^sup>*\<^sup>* ''TB'' x \<and> executable_in pair_graph x"
      by (auto simp: executable_in_def pair_thunks leaf_def can_be_executed_def pair_depends)
  qed
  ultimately show ?thesis unfolding b by auto
qed

definition pair_store :: "string \<Rightarrow> thunk res" where
  "pair_store h = (case g_thunks pair_graph h of Some t \<Rightarrow> Inr t | None \<Rightarrow> Inl (Unix_error h))"

theorem add_targets_builds_witness:
  "\<exists>g. add_targets 2 pair_store [''TB''] empty_graph = Inr g \<and> closed g \<and> g_thunks g ''TB'' \<noteq> None"
proof -
  obtain g where g: "add_targets 2 pair_store [''TB''] empty_graph = Inr g"
    by (simp add: numeral_2_eq_2 updated_hash_def empty_graph_def pair_store_def pair_thunks Let_def
        add_item_def leaf_def enter_thunk_def touch_referencing_def add_referencing_def)
  from add_targets_builds [OF this] g show ?thesis by auto
qed

text \<open>\<open>TC\<close> and \<open>TD\<close> wait for \<open>TA\<close> and \<open>TB\<close>; \<open>TB\<close> reduces to \<open>TA\<close>.\<close>

definition square_graph :: graph where
  "square_graph = \<lparr>g_thunks = [''TA'' \<mapsto> leaf [], ''TB'' \<mapsto> leaf [],
       ''TC'' \<mapsto> leaf [(''TA'', ''a'')], ''TD'' \<mapsto> leaf [(''TB'', ''b'')]],
     g_referencing = [''TA'' \<mapsto> [''TC''], ''TB'' \<mapsto> [''TD''], ''TC'' \<mapsto> [], ''TD'' \<mapsto> []],
     g_value_deps = [], g_executable_deps = [], g_original = Map.empty, g_updated = Map.empty\<rparr>"

lemma square_thunks: "g_thunks square_graph x = (if x = ''TD'' then Some (leaf [(''TB'', ''b'')])
    else if x = ''TC'' then Some (leaf [(''TA'', ''a'')]) else if x = ''TB'' then Some (leaf [])
    else if x = ''TA'' then Some (leaf []) else None)"
  by (simp add: square_graph_def)

lemma square_depends: "depends square_graph x k \<longleftrightarrow> x = ''TC'' \<and> k = ''TA'' \<or> x = ''TD'' \<and> k = ''TB''"
  by (auto simp: depends_iff square_thunks leaf_def deps_def split: if_splits)

lemma square_ok: "graph_ok square_graph"
proof -
  have "closed square_graph" by (auto simp: closed_def square_depends square_thunks)
  moreover have "refs_exact square_graph"
    by (auto simp: refs_exact_def square_depends square_thunks split: if_splits)
      (simp_all add: square_graph_def)
  moreover have "tags_ok square_graph"
    by (auto simp: tags_ok_def square_thunks leaf_def named_def split: if_splits)
  moreover have "keys_ok square_graph"
    by (auto simp: keys_ok_def square_thunks hash_type_def split: if_splits)
  ultimately show ?thesis by (simp add: graph_ok_def)
qed

lemma update_hash_loses_references_witness:
  "\<exists>g'. update_hash ''TB'' [\<lparr>out_hash = ''TA'', out_tag = ''o''\<rparr>] square_graph = Inr g' \<and>
     depends g' ''TC'' ''TA'' \<and> (\<forall>rs. g_referencing g' ''TA'' = Some rs \<longrightarrow> ''TC'' \<notin> set rs)"
proof -
  have data: "\<exists>t'. update_data ''TB'' [\<lparr>out_hash = ''TA'', out_tag = ''o''\<rparr>] (leaf [(''TB'', ''b'')]) = Inr t'"
    by (simp add: update_data_def update_output_def old_hash_of_def new_hash_of_def
        mm_equal_range_def insert_renamed_def hash_type_def Let_def leaf_def)
  then obtain g' where run: "update_hash ''TB'' [\<lparr>out_hash = ''TA'', out_tag = ''o''\<rparr>] square_graph = Inr g'"
    by (auto simp: update_hash_def hash_type_def chain_hashes_def square_graph_def at_key_def
        update_referencing_def Let_def)
  have "depends g' ''TC'' ''TA'' \<and> (\<forall>rs. g_referencing g' ''TA'' = Some rs \<longrightarrow> ''TC'' \<notin> set rs)"
    by (rule update_hash_loses_references [OF run square_ok, of "leaf []"])
      (simp_all add: square_thunks square_depends)
  with run show ?thesis by blast
qed

text \<open>\<open>TA\<close> has been reduced to \<open>TE\<close> when a thunk arrives that needs its output \<open>x\<close>.\<close>

definition reduced_graph :: graph where
  "reduced_graph = empty_graph\<lparr>g_thunks := [''TE'' \<mapsto> leaf []], g_referencing := [''TE'' \<mapsto> []],
     g_original := [''TE'' \<mapsto> ''TA''], g_updated := [''TA'' \<mapsto> ''TE'']\<rparr>"

definition late_store :: "string \<Rightarrow> thunk res" where
  "late_store h = Inr (leaf [(for_output ''TA'' ''x'', ''n'')])"

theorem add_thunk_stale_dependency_witness:
  "\<exists>g'. add_thunk 2 late_store ''TN'' reduced_graph = Inr (''TN'', g') \<and>
     depends g' ''TN'' ''TA'' \<and> g_thunks g' ''TA'' = None"
proof -
  have b: "hash_base ''TN'' = ''TN''" "hash_base ''TE'' = ''TE''" by (simp_all add: hash_base_id)
  have data: "\<exists>t'. update_data ''TA'' (outputs_for ''TE'' [''o'']) (leaf [(for_output ''TA'' ''x'', ''n'')]) = Inr t'"
    by (simp add: update_data_def update_output_def old_hash_of_def new_hash_of_def outputs_for_def
        mm_equal_range_def Let_def leaf_def for_output_def)
  then obtain g' where run: "add_thunk (Suc (Suc 0)) late_store ''TN'' reduced_graph = Inr (''TN'', g')"
    by (auto simp: b updated_hash_def reduced_graph_def empty_graph_def late_store_def Let_def
        add_item_def enter_thunk_def touch_referencing_def leaf_def [of "[(for_output ''TA'' ''x'', ''n'')]"])
  have "depends g' ''TN'' ''TA'' \<and> g_thunks g' ''TA'' = None"
    by (rule add_thunk_stale_dependency [OF run b(1), where t = "leaf [(for_output ''TA'' ''x'', ''n'')]"
          and tag = "''x''" and name = "''n''" and dep' = "''TE''"])
      (simp_all add: reduced_graph_def empty_graph_def late_store_def leaf_def b)
  with run show ?thesis by (auto simp: numeral_2_eq_2)
qed

end
