(* ===== verification/Http.thy ===== *)
theory Http
  imports Tokenize Conversions
begin

text \<open>
  The HTTP library of \<open>src/net\<close>: headers, messages as state machines, requests, responses with
  their body parsers, and the sequence parser that cuts a byte stream into messages. A virtual
  method of the C++ classes is a field of \<open>message_class\<close>; \<open>request_class\<close> and \<open>response_class\<close>
  are the two instances the code has. An \<open>assert\<close> that fails is the error \<open>Assertion_failed\<close>.
\<close>

section \<open>Headers\<close>

record http_header =
  hh_key :: string
  hh_value :: string

definition CRLF :: string where
  "CRLF = [CHR 0x0D, CHR 0x0A]"

definition parse_header :: "string \<Rightarrow> http_header res" where
  "parse_header buf =
     (case str_find buf '':'' 0 of
        None \<Rightarrow> Inl (Runtime_error ''HTTPHeader: buffer does not contain colon'')
      | Some colon_location \<Rightarrow>
          bind_res (substr buf (colon_location + 1) None) (\<lambda>value_temp.
            Inr \<lparr>hh_key = take colon_location buf,
                 hh_value = (if \<forall>c \<in> set value_temp. c = CHR '' '' then value_temp
                             else dropWhile (\<lambda>c. c = CHR '' '') value_temp)\<rparr>))"

definition header_str :: "http_header \<Rightarrow> string" where
  "header_str h = hh_key h @ '': '' @ hh_value h"

section \<open>Messages\<close>

datatype http_state = FIRST_LINE_PENDING | HEADERS_PENDING | BODY_PENDING | COMPLETE

text \<open>The order of the enumeration, which the code's \<open>state_ > HEADERS_PENDING\<close> uses.\<close>

fun state_rank :: "http_state \<Rightarrow> nat" where
  "state_rank FIRST_LINE_PENDING = 0"
| "state_rank HEADERS_PENDING = 1"
| "state_rank BODY_PENDING = 2"
| "state_rank COMPLETE = 3"

instantiation http_state :: linorder
begin

definition less_eq_http_state :: "http_state \<Rightarrow> http_state \<Rightarrow> bool" where
  "less_eq_http_state a b \<longleftrightarrow> state_rank a \<le> state_rank b"

definition less_http_state :: "http_state \<Rightarrow> http_state \<Rightarrow> bool" where
  "less_http_state a b \<longleftrightarrow> state_rank a < state_rank b"

instance
proof
  fix a b c :: http_state
  show "(a < b) = (a \<le> b \<and> \<not> b \<le> a)" by (auto simp: less_eq_http_state_def less_http_state_def)
  show "a \<le> a" by (simp add: less_eq_http_state_def)
  show "a \<le> b \<Longrightarrow> b \<le> c \<Longrightarrow> a \<le> c" by (simp add: less_eq_http_state_def)
  show "a \<le> b \<Longrightarrow> b \<le> a \<Longrightarrow> a = b"
    by (cases a; cases b) (simp_all add: less_eq_http_state_def)
  show "a \<le> b \<or> b \<le> a" by (auto simp: less_eq_http_state_def)
qed

end

record http_message =
  hm_expected :: "bool \<times> 64 word"
  hm_first_line :: string
  hm_headers :: "http_header list"
  hm_body :: string
  hm_state :: http_state

definition new_request :: http_message where
  "new_request = \<lparr>hm_expected = (False, - 1), hm_first_line = [], hm_headers = [], hm_body = [],
     hm_state = FIRST_LINE_PENDING\<rparr>"

definition set_first_line :: "string \<Rightarrow> 'a http_message_scheme \<Rightarrow> 'a http_message_scheme res" where
  "set_first_line str m =
     bind_res (assert_res (hm_state m = FIRST_LINE_PENDING)) (\<lambda>_.
       Inr (m\<lparr>hm_first_line := str, hm_state := HEADERS_PENDING\<rparr>))"

definition add_header :: "http_header \<Rightarrow> 'a http_message_scheme \<Rightarrow> 'a http_message_scheme res" where
  "add_header h m =
     bind_res (assert_res (hm_state m = HEADERS_PENDING)) (\<lambda>_.
       Inr (m\<lparr>hm_headers := hm_headers m @ [h]\<rparr>))"

definition add_header_line :: "string \<Rightarrow> 'a http_message_scheme \<Rightarrow> 'a http_message_scheme res" where
  "add_header_line str m =
     bind_res (assert_res (hm_state m = HEADERS_PENDING)) (\<lambda>_.
     bind_res (parse_header str) (\<lambda>h.
       Inr (m\<lparr>hm_headers := hm_headers m @ [h]\<rparr>)))"

text \<open>\<open>calculate\<close> is the virtual \<open>calculate_expected_body_size\<close>.\<close>

definition done_with_headers ::
  "('a http_message_scheme \<Rightarrow> 'a http_message_scheme res) \<Rightarrow> 'a http_message_scheme \<Rightarrow>
     'a http_message_scheme res" where
  "done_with_headers calculate m =
     bind_res (assert_res (hm_state m = HEADERS_PENDING)) (\<lambda>_.
       calculate (m\<lparr>hm_state := BODY_PENDING\<rparr>))"

definition set_expected_body_size ::
  "bool \<Rightarrow> 64 word \<Rightarrow> 'a http_message_scheme \<Rightarrow> 'a http_message_scheme res" where
  "set_expected_body_size known value m =
     bind_res (assert_res (hm_state m = BODY_PENDING)) (\<lambda>_. Inr (m\<lparr>hm_expected := (known, value)\<rparr>))"

definition body_size_is_known :: "'a http_message_scheme \<Rightarrow> bool res" where
  "body_size_is_known m =
     bind_res (assert_res (hm_state m > HEADERS_PENDING)) (\<lambda>_. Inr (fst (hm_expected m)))"

definition expected_body_size :: "'a http_message_scheme \<Rightarrow> nat res" where
  "expected_body_size m =
     bind_res (body_size_is_known m) (\<lambda>known.
     bind_res (assert_res known) (\<lambda>_. Inr (unat (snd (hm_expected m)))))"

text \<open>\<open>complex_body\<close> is the virtual \<open>read_in_complex_body\<close>. The result is how many bytes were taken.\<close>

definition read_in_body ::
  "(string \<Rightarrow> 'a http_message_scheme \<Rightarrow> (nat \<times> 'a http_message_scheme) res) \<Rightarrow> string \<Rightarrow>
     'a http_message_scheme \<Rightarrow> (nat \<times> 'a http_message_scheme) res" where
  "read_in_body complex_body str m =
     bind_res (assert_res (hm_state m = BODY_PENDING)) (\<lambda>_.
     bind_res (body_size_is_known m) (\<lambda>known.
       if known then
         bind_res (expected_body_size m) (\<lambda>size.
         bind_res (assert_res (length (hm_body m) \<le> size)) (\<lambda>_.
           let amount = min (size - length (hm_body m)) (length str);
               m' = m\<lparr>hm_body := hm_body m @ take amount str\<rparr>
           in Inr (amount, if length (hm_body m') = size then m'\<lparr>hm_state := COMPLETE\<rparr> else m')))
       else complex_body str m))"

definition message_eof ::
  "('a http_message_scheme \<Rightarrow> bool res) \<Rightarrow> 'a http_message_scheme \<Rightarrow> 'a http_message_scheme res" where
  "message_eof eof_in_body m =
     (case hm_state m of
        FIRST_LINE_PENDING \<Rightarrow> Inr m
      | HEADERS_PENDING \<Rightarrow> Inl (Runtime_error ''HTTPMessage: EOF received in middle of headers'')
      | BODY_PENDING \<Rightarrow>
          bind_res (eof_in_body m) (\<lambda>ended. Inr (if ended then m\<lparr>hm_state := COMPLETE\<rparr> else m))
      | COMPLETE \<Rightarrow> Inl Assertion_failed)"

definition http_to_lower :: "char \<Rightarrow> char" where
  "http_to_lower c =
     (let n = of_char c :: nat in if 65 \<le> n \<and> n \<le> 90 then char_of (n + 32) else c)"

definition strip_initial_whitespace :: "string \<Rightarrow> string" where
  "strip_initial_whitespace str = dropWhile (\<lambda>c. c = CHR '' '') str"

definition equivalent_strings :: "string \<Rightarrow> string \<Rightarrow> bool" where
  "equivalent_strings a b =
     (let new_a = strip_initial_whitespace a; new_b = strip_initial_whitespace b
      in length new_a = length new_b \<and>
         list_all (\<lambda>(x, y). http_to_lower x = http_to_lower y) (zip new_a new_b))"

definition has_header :: "string \<Rightarrow> 'a http_message_scheme \<Rightarrow> bool" where
  "has_header name m = list_ex (\<lambda>h. equivalent_strings (hh_key h) name) (hm_headers m)"

definition get_header_value :: "string \<Rightarrow> 'a http_message_scheme \<Rightarrow> string res" where
  "get_header_value name m =
     (case List.find (\<lambda>h. equivalent_strings (hh_key h) name) (hm_headers m) of
        Some h \<Rightarrow> Inr (hh_value h)
      | None \<Rightarrow> Inl (Runtime_error (''HTTPMessage header not found: '' @ name)))"

definition message_str :: "'a http_message_scheme \<Rightarrow> string res" where
  "message_str m =
     bind_res (assert_res (hm_state m = COMPLETE)) (\<lambda>_.
       Inr (hm_first_line m @ CRLF
            @ concat (map (\<lambda>h. header_str h @ CRLF) (hm_headers m))
            @ CRLF @ hm_body m))"

section \<open>Requests\<close>

definition calculate_request :: "http_message \<Rightarrow> http_message res" where
  "calculate_request m =
     bind_res (assert_res (hm_state m = BODY_PENDING)) (\<lambda>_.
       if take 4 (hm_first_line m) = ''GET '' \<or> take 5 (hm_first_line m) = ''HEAD ''
       then set_expected_body_size True 0 m
       else if take 5 (hm_first_line m) = ''POST '' \<or> take 4 (hm_first_line m) = ''PUT ''
       then (if \<not> has_header ''Content-Length'' m
             then Inl (Runtime_error ''HTTPRequest: does not support chunked requests'')
             else bind_res (get_header_value ''Content-Length'' m) (\<lambda>v.
                  bind_res (strict_atoi v 10) (\<lambda>n. set_expected_body_size True (word_of_int n) m)))
       else Inl (Runtime_error (''Cannot handle HTTP method: '' @ hm_first_line m)))"

definition complex_body_request :: "string \<Rightarrow> http_message \<Rightarrow> (nat \<times> http_message) res" where
  "complex_body_request str m = Inl (Runtime_error ''HTTPRequest: does not support chunked requests'')"

definition eof_in_request :: "http_message \<Rightarrow> bool res" where
  "eof_in_request m = Inl (Runtime_error ''HTTPRequest: got EOF in middle of body'')"

definition is_head :: "'a http_message_scheme \<Rightarrow> bool res" where
  "is_head m =
     bind_res (assert_res (hm_state m > FIRST_LINE_PENDING)) (\<lambda>_.
       Inr (take 5 (hm_first_line m) = ''HEAD ''))"

section \<open>Body parsers\<close>

datatype chunk_state = CHUNK_HDR | CHUNK | TRAILER

record chunked_parser =
  cp_buffer :: string
  cp_chunk_size :: "32 word"
  cp_acked :: nat
  cp_parsed :: nat
  cp_state :: chunk_state
  cp_trailers :: bool

definition new_chunked :: "bool \<Rightarrow> chunked_parser" where
  "new_chunked trailers = \<lparr>cp_buffer = [], cp_chunk_size = 0, cp_acked = 0, cp_parsed = 0,
     cp_state = CHUNK_HDR, cp_trailers = trailers\<rparr>"

text \<open>The size is a \<open>uint32_t\<close>: the \<open>long\<close> that was read is cut to its low 32 bits.\<close>

definition get_chunk_size :: "string \<Rightarrow> 32 word res" where
  "get_chunk_size chunk_hdr =
     bind_res (assert_res (2 \<le> length chunk_hdr \<and> drop (length chunk_hdr - 2) chunk_hdr = CRLF)) (\<lambda>_.
     bind_res (case str_find chunk_hdr '';'' 0 of
                 Some pos \<Rightarrow> Inr pos
               | None \<Rightarrow> (case str_find chunk_hdr CRLF 0 of
                           Some pos \<Rightarrow> Inr pos | None \<Rightarrow> Inl Assertion_failed)) (\<lambda>pos.
       let hex_string = takeWhile (\<lambda>c. c \<noteq> CHR '' '') (take pos chunk_hdr)
       in bind_res (strict_atoi hex_string 16) (\<lambda>n. Inr (word_of_int n))))"

text \<open>How much of the current input belongs to the body, or \<open>None\<close> for all of it.\<close>

definition compute_ack_size :: "string \<Rightarrow> nat \<Rightarrow> chunked_parser \<Rightarrow> (nat option \<times> chunked_parser) res" where
  "compute_ack_size needle input_size p =
     (case str_find (cp_buffer p) needle 0 of
        Some loc \<Rightarrow>
          (let p' = p\<lparr>cp_parsed := cp_parsed p + (loc + length needle)\<rparr>
           in bind_res (assert_res (cp_acked p' < cp_parsed p')) (\<lambda>_.
                Inr (Some (cp_parsed p' - cp_acked p'), p')))
      | None \<Rightarrow> Inr (None, p\<lparr>cp_acked := cp_acked p + input_size\<rparr>))"

definition wait_for_more :: "nat \<Rightarrow> chunked_parser \<Rightarrow> (nat option \<times> chunked_parser) res" where
  "wait_for_more input_size p = Inr (None, p\<lparr>cp_acked := cp_acked p + input_size\<rparr>)"

text \<open>The sum \<open>current_chunk_size_ + 2\<close> is taken modulo \<open>2 ^ 32\<close>.\<close>

definition chunk_end :: "chunked_parser \<Rightarrow> nat" where
  "chunk_end p = unat (cp_chunk_size p + 2)"

function chunked_loop :: "nat \<Rightarrow> chunked_parser \<Rightarrow> (nat option \<times> chunked_parser) res" where
  "chunked_loop input_size p =
     (if cp_buffer p = [] then wait_for_more input_size p
      else case cp_state p of
        CHUNK_HDR \<Rightarrow>
          (case str_find (cp_buffer p) CRLF 0 of
             None \<Rightarrow> wait_for_more input_size p
           | Some it \<Rightarrow>
               (case get_chunk_size (take (it + 2) (cp_buffer p)) of
                  Inl e \<Rightarrow> Inl e
                | Inr sz \<Rightarrow>
                    chunked_loop input_size
                      (p\<lparr>cp_chunk_size := sz, cp_state := (if sz = 0 then TRAILER else CHUNK),
                         cp_parsed := cp_parsed p + (it + 2), cp_buffer := drop (it + 2) (cp_buffer p)\<rparr>)))
      | CHUNK \<Rightarrow>
          (if chunk_end p \<le> length (cp_buffer p) then
             (if length (cp_buffer p) < unat (cp_chunk_size p)
              then Inl (Out_of_range ''basic_string::substr'')
              else if take 2 (drop (unat (cp_chunk_size p)) (cp_buffer p)) \<noteq> CRLF
              then Inl Assertion_failed
              else chunked_loop input_size
                     (p\<lparr>cp_state := CHUNK_HDR, cp_parsed := cp_parsed p + chunk_end p,
                        cp_buffer := drop (chunk_end p) (cp_buffer p)\<rparr>))
           else wait_for_more input_size p)
      | TRAILER \<Rightarrow>
          compute_ack_size (if cp_trailers p then CRLF @ CRLF else CRLF) input_size p)"
  by pat_completeness auto

text \<open>A header line shortens the buffer by two bytes at least; leaving a chunk changes the state even
  when the sum above has wrapped to nothing.\<close>

termination
  by (relation "measure (\<lambda>(_, p). 2 * length (cp_buffer p) + (if cp_state p = CHUNK then 1 else 0))")
    (auto simp flip: length_greater_0_conv)

declare chunked_loop.simps [simp del]

definition chunked_read :: "string \<Rightarrow> chunked_parser \<Rightarrow> (nat option \<times> chunked_parser) res" where
  "chunked_read input_buffer p =
     chunked_loop (length input_buffer) (p\<lparr>cp_buffer := cp_buffer p @ input_buffer\<rparr>)"

datatype body_parser = Chunked_body chunked_parser | Rule5_body

fun parser_read :: "string \<Rightarrow> body_parser \<Rightarrow> (nat option \<times> body_parser) res" where
  "parser_read str (Chunked_body p) =
     bind_res (chunked_read str p) (\<lambda>(amount, p'). Inr (amount, Chunked_body p'))"
| "parser_read str Rule5_body = Inr (None, Rule5_body)"

definition parser_eof :: "body_parser \<Rightarrow> bool" where
  "parser_eof b = True"

section \<open>Responses\<close>

record http_response = http_message +
  hr_request :: http_message
  hr_parser :: "body_parser option"

definition new_response :: http_response where
  "new_response = \<lparr>hm_expected = (False, - 1), hm_first_line = [], hm_headers = [], hm_body = [],
     hm_state = FIRST_LINE_PENDING, hr_request = new_request, hr_parser = None\<rparr>"

definition status_code :: "http_response \<Rightarrow> string res" where
  "status_code m =
     bind_res (assert_res (hm_state m > FIRST_LINE_PENDING)) (\<lambda>_.
       let tokens = split (hm_first_line m) '' ''
       in if length tokens < 3
          then Inl (Runtime_error (''HTTPResponse: Invalid status line: '' @ hm_first_line m))
          else Inr (tokens ! 1))"

definition mime_type :: "string \<Rightarrow> string res" where
  "mime_type content_type =
     (let type_and_parameters = split content_type '';''
      in if type_and_parameters = [] \<or> hd type_and_parameters = []
         then Inl (Runtime_error ''MIMEType: invalid MIME media-type string'')
         else Inr (hd type_and_parameters))"

text \<open>Rules 1 to 5 of RFC 2616, section 4.4; \<open>or\<close> and \<open>and\<close> are evaluated from the left.\<close>

definition no_body :: "http_response \<Rightarrow> bool res" where
  "no_body m =
     bind_res (status_code m) (\<lambda>code.
       if code = [] then Inl (Out_of_range ''basic_string::at'')
       else if hd code = CHR ''1'' \<or> code = ''204'' \<or> code = ''304'' then Inr True
       else is_head (hr_request m))"

definition is_chunked :: "http_response \<Rightarrow> bool res" where
  "is_chunked m =
     (if has_header ''Transfer-Encoding'' m
      then bind_res (get_header_value ''Transfer-Encoding'' m) (\<lambda>v.
             Inr (equivalent_strings (last (split v '','')) ''chunked''))
      else Inr False)"

definition is_byteranges :: "http_response \<Rightarrow> bool res" where
  "is_byteranges m =
     (if has_header ''Content-Type'' m
      then bind_res (get_header_value ''Content-Type'' m) (\<lambda>v.
           bind_res (mime_type v) (\<lambda>t. Inr (equivalent_strings t ''multipart/byteranges'')))
      else Inr False)"

definition calculate_response :: "http_response \<Rightarrow> http_response res" where
  "calculate_response m =
     bind_res (assert_res (hm_state m = BODY_PENDING)) (\<lambda>_.
     bind_res (no_body m) (\<lambda>rule1.
       if rule1 then set_expected_body_size True 0 m
       else bind_res (is_chunked m) (\<lambda>rule2.
         if rule2 then
           bind_res (set_expected_body_size False (- 1) m) (\<lambda>m'.
             Inr (m'\<lparr>hr_parser := Some (Chunked_body (new_chunked (has_header ''Trailer'' m)))\<rparr>))
         else if \<not> has_header ''Transfer-Encoding'' m \<and> has_header ''Content-Length'' m then
           bind_res (get_header_value ''Content-Length'' m) (\<lambda>v.
           bind_res (strict_atoi v 10) (\<lambda>n. set_expected_body_size True (word_of_int n) m))
         else bind_res (is_byteranges m) (\<lambda>rule4.
           if rule4 then
             Inl (Runtime_error ''HTTPResponse: unsupported multipart/byteranges without Content-Length'')
           else
             bind_res (set_expected_body_size False (- 1) m) (\<lambda>m'.
               Inr (m'\<lparr>hr_parser := Some Rule5_body\<rparr>))))))"

definition complex_body_response :: "string \<Rightarrow> http_response \<Rightarrow> (nat \<times> http_response) res" where
  "complex_body_response str m =
     bind_res (assert_res (hm_state m = BODY_PENDING)) (\<lambda>_.
       case hr_parser m of
         None \<Rightarrow> Inl Assertion_failed
       | Some b \<Rightarrow>
           bind_res (parser_read str b) (\<lambda>(amount_parsed, b').
             case amount_parsed of
               None \<Rightarrow> Inr (length str, m\<lparr>hr_parser := Some b', hm_body := hm_body m @ str\<rparr>)
             | Some n \<Rightarrow> Inr (n, m\<lparr>hr_parser := Some b', hm_body := hm_body m @ take n str,
                               hm_state := COMPLETE\<rparr>)))"

definition eof_in_response :: "http_response \<Rightarrow> bool res" where
  "eof_in_response m =
     (case hr_parser m of
        Some b \<Rightarrow> Inr (parser_eof b)
      | None \<Rightarrow> Inl (Runtime_error ''HTTPResponse: got EOF in middle of body''))"

definition set_request :: "http_message \<Rightarrow> http_response \<Rightarrow> http_response res" where
  "set_request request m =
     bind_res (assert_res (hm_state m = FIRST_LINE_PENDING)) (\<lambda>_. Inr (m\<lparr>hr_request := request\<rparr>))"

section \<open>The sequence parser\<close>

text \<open>What the template asks of its message type \<open>'m\<close>, and of the subclass, whose own state is \<open>'r\<close>.\<close>

record ('m, 'r) message_class =
  mc_new :: 'm
  mc_state :: "'m \<Rightarrow> http_state"
  mc_initialize :: "'r \<Rightarrow> 'm \<Rightarrow> ('r \<times> 'm) res"
  mc_set_first_line :: "string \<Rightarrow> 'm \<Rightarrow> 'm res"
  mc_add_header :: "string \<Rightarrow> 'm \<Rightarrow> 'm res"
  mc_done_with_headers :: "'m \<Rightarrow> 'm res"
  mc_read_in_body :: "string \<Rightarrow> 'm \<Rightarrow> (nat \<times> 'm) res"
  mc_eof :: "'m \<Rightarrow> 'm res"

definition request_class :: "(http_message, unit) message_class" where
  "request_class = \<lparr>mc_new = new_request, mc_state = hm_state, mc_initialize = (\<lambda>r m. Inr (r, m)),
     mc_set_first_line = set_first_line, mc_add_header = add_header_line,
     mc_done_with_headers = done_with_headers calculate_request,
     mc_read_in_body = read_in_body complex_body_request, mc_eof = message_eof eof_in_request\<rparr>"

text \<open>The queue of requests whose responses have not begun.\<close>

definition initialize_response ::
  "http_message list \<Rightarrow> http_response \<Rightarrow> (http_message list \<times> http_response) res" where
  "initialize_response requests m =
     (if requests = []
      then Inl (Runtime_error ''HTTPResponseParser: response without matching request'')
      else bind_res (set_request (hd requests) m) (\<lambda>m'. Inr (tl requests, m')))"

definition response_class :: "(http_response, http_message list) message_class" where
  "response_class = \<lparr>mc_new = new_response, mc_state = hm_state, mc_initialize = initialize_response,
     mc_set_first_line = set_first_line, mc_add_header = add_header_line,
     mc_done_with_headers = done_with_headers calculate_response,
     mc_read_in_body = read_in_body complex_body_response, mc_eof = message_eof eof_in_response\<rparr>"

record ('m, 'r) http_sequence =
  sq_buffer :: string
  sq_complete :: "'m list"
  sq_current :: 'm
  sq_sub :: 'r

definition new_sequence :: "('m, 'r) message_class \<Rightarrow> 'r \<Rightarrow> ('m, 'r) http_sequence" where
  "new_sequence mc r = \<lparr>sq_buffer = [], sq_complete = [], sq_current = mc_new mc, sq_sub = r\<rparr>"

definition new_request_arrived ::
  "http_message \<Rightarrow> (http_response, http_message list) http_sequence \<Rightarrow>
     (http_response, http_message list) http_sequence" where
  "new_request_arrived request s = s\<lparr>sq_sub := sq_sub s @ [request]\<rparr>"

definition have_complete_line :: "string \<Rightarrow> bool" where
  "have_complete_line buffer = (str_find buffer CRLF 0 \<noteq> None)"

definition get_and_pop_line :: "string \<Rightarrow> (string \<times> string) res" where
  "get_and_pop_line buffer =
     (case str_find buffer CRLF 0 of
        None \<Rightarrow> Inl Assertion_failed
      | Some i \<Rightarrow> Inr (take i buffer, drop (i + length CRLF) buffer))"

definition pop_bytes :: "nat \<Rightarrow> string \<Rightarrow> string res" where
  "pop_bytes num buffer =
     bind_res (assert_res (num \<le> length buffer)) (\<lambda>_. Inr (drop num buffer))"

text \<open>One round; the flag says whether to go on.\<close>

definition parsing_step ::
  "('m, 'r) message_class \<Rightarrow> ('m, 'r) http_sequence \<Rightarrow> (bool \<times> ('m, 'r) http_sequence) res" where
  "parsing_step mc s =
     (case mc_state mc (sq_current s) of
        FIRST_LINE_PENDING \<Rightarrow>
          (if \<not> have_complete_line (sq_buffer s) then Inr (False, s)
           else bind_res (mc_initialize mc (sq_sub s) (sq_current s)) (\<lambda>(r, m).
                bind_res (get_and_pop_line (sq_buffer s)) (\<lambda>(line, rest).
                bind_res (mc_set_first_line mc line m) (\<lambda>m'.
                  Inr (True, s\<lparr>sq_buffer := rest, sq_current := m', sq_sub := r\<rparr>)))))
      | HEADERS_PENDING \<Rightarrow>
          (if \<not> have_complete_line (sq_buffer s) then Inr (False, s)
           else bind_res (get_and_pop_line (sq_buffer s)) (\<lambda>(line, rest).
                bind_res (if line = [] then mc_done_with_headers mc (sq_current s)
                          else mc_add_header mc line (sq_current s)) (\<lambda>m'.
                  Inr (True, s\<lparr>sq_buffer := rest, sq_current := m'\<rparr>))))
      | BODY_PENDING \<Rightarrow>
          bind_res (mc_read_in_body mc (sq_buffer s) (sq_current s)) (\<lambda>(bytes_read, m').
          bind_res (assert_res (bytes_read = length (sq_buffer s) \<or> mc_state mc m' = COMPLETE)) (\<lambda>_.
          bind_res (pop_bytes bytes_read (sq_buffer s)) (\<lambda>rest.
            Inr (mc_state mc m' = COMPLETE, s\<lparr>sq_buffer := rest, sq_current := m'\<rparr>))))
      | COMPLETE \<Rightarrow>
          Inr (True, s\<lparr>sq_complete := sq_complete s @ [sq_current s], sq_current := mc_new mc\<rparr>))"

fun parsing_loop ::
  "nat \<Rightarrow> ('m, 'r) message_class \<Rightarrow> ('m, 'r) http_sequence \<Rightarrow> ('m, 'r) http_sequence res" where
  "parsing_loop 0 mc s = Inl Stack_overflow"
| "parsing_loop (Suc n) mc s =
     bind_res (parsing_step mc s) (\<lambda>(go_on, s'). if go_on then parsing_loop n mc s' else Inr s')"

definition parse_fuel :: "('m, 'r) http_sequence \<Rightarrow> nat" where
  "parse_fuel s = 3 * length (sq_buffer s) + 4"

definition parse_http ::
  "('m, 'r) message_class \<Rightarrow> string \<Rightarrow> ('m, 'r) http_sequence \<Rightarrow> ('m, 'r) http_sequence res" where
  "parse_http mc buf s =
     bind_res (if buf = [] then mc_eof mc (sq_current s) else Inr (sq_current s)) (\<lambda>m.
       let s' = s\<lparr>sq_current := m, sq_buffer := sq_buffer s @ buf\<rparr>
       in parsing_loop (parse_fuel s') mc s')"

definition pop_message :: "('m, 'r) http_sequence \<Rightarrow> ('m, 'r) http_sequence" where
  "pop_message s = s\<lparr>sq_complete := tl (sq_complete s)\<rparr>"

end
