(* ===== verification/HttpLaws.thy ===== *)
theory HttpLaws
  imports Http
begin

text \<open>
  What the HTTP library promises. The locale \<open>incremental_message\<close> states what the sequence parser
  needs of a message type: that every call moves it forward, and that a body reader treats two
  pieces of input like their concatenation. It is interpreted on requests and on responses
  (\<open>rq\<close>, \<open>rs\<close>); inside it stand the termination of the parsing loop and its independence from how
  the stream was cut. Then the round trip of requests, header lookup, and chunked bodies.
\<close>

section \<open>Lines\<close>

lemma find_sub_append: "find_sub pat x = Some i \<Longrightarrow> find_sub pat (x @ y) = Some i"
proof (induction x arbitrary: i)
  case Nil
  then show ?case by (cases y) (auto split: if_splits)
next
  case (Cons c x)
  show ?case
  proof (cases "prefix pat (c # x)")
    case True
    then have "prefix pat (c # x @ y)" by (metis append_Cons prefix_prefix)
    with True Cons.prems show ?thesis by simp
  next
    case False
    with Cons.prems obtain j where j: "find_sub pat x = Some j" "i = Suc j" by auto
    show ?thesis
    proof (cases "prefix pat (c # x @ y)")
      case True
      have "length pat \<le> length x" using find_sub_Some [OF j(1)] by simp
      with True have "prefix pat (c # x)"
        by (metis append_Cons length_Cons le_SucI prefix_length_prefix prefixI)
      with False show ?thesis by simp
    next
      case False
      with Cons.IH [OF j(1)] j show ?thesis by simp
    qed
  qed
qed

lemma length_CRLF [simp]: "length CRLF = 2"
  by (simp add: CRLF_def)

lemma CRLF_nonempty [simp]: "CRLF \<noteq> []"
  by (simp add: CRLF_def)

lemma find_CRLF_line: "find_sub CRLF l = None \<Longrightarrow> find_sub CRLF (l @ CRLF @ r) = Some (length l)"
proof (induction l)
  case Nil
  then show ?case by simp
next
  case (Cons c l)
  have np: "\<not> prefix CRLF (c # l)" and "find_sub CRLF l = None"
    using Cons.prems by (auto split: if_splits)
  with Cons.IH have ih: "find_sub CRLF (l @ CRLF @ r) = Some (length l)" by simp
  have "\<not> prefix CRLF (c # l @ CRLF @ r)"
  proof (cases l)
    case Nil
    then show ?thesis by (simp add: CRLF_def)
  next
    case (Cons d l')
    with np show ?thesis by (simp add: CRLF_def)
  qed
  with ih show ?case by simp
qed

lemma get_and_pop_line_Some:
  "str_find b CRLF 0 = Some i \<Longrightarrow> get_and_pop_line b = Inr (take i b, drop (i + 2) b)"
  by (simp add: get_and_pop_line_def)

lemma pop_line_append:
  assumes "str_find b CRLF 0 = Some i"
  shows "get_and_pop_line (b @ x) = Inr (take i b, drop (i + 2) b @ x)"
proof -
  have f: "find_sub CRLF b = Some i" using assms by simp
  from find_sub_Some [OF f] have "i + 2 \<le> length b" by simp
  with find_sub_append [OF f] show ?thesis by (simp add: get_and_pop_line_def)
qed

lemma have_line_conv: "have_complete_line b \<longleftrightarrow> (\<exists>i. str_find b CRLF 0 = Some i \<and> i + 2 \<le> length b)"
  using find_sub_Some [of CRLF b] by (fastforce simp: have_complete_line_def)

section \<open>The interface of a message type\<close>

text \<open>Two messages that differ at most in what a finished body parser has left behind.\<close>

definition same_message :: "('m \<Rightarrow> http_state) \<Rightarrow> ('m \<Rightarrow> 'v) \<Rightarrow> 'm \<Rightarrow> 'm \<Rightarrow> bool" where
  "same_message st view m m' \<longleftrightarrow> m = m' \<or> (st m = COMPLETE \<and> st m' = COMPLETE \<and> view m = view m')"

definition same_read :: "('m \<Rightarrow> http_state) \<Rightarrow> ('m \<Rightarrow> 'v) \<Rightarrow> (nat \<times> 'm) res \<Rightarrow> (nat \<times> 'm) res \<Rightarrow> bool" where
  "same_read st view = rel_sum (=) (rel_prod (=) (same_message st view))"

lemma same_message_refl [simp]: "same_message st view m m"
  by (simp add: same_message_def)

lemma same_message_state: "same_message st view m m' \<Longrightarrow> st m = st m'"
  by (auto simp: same_message_def)

lemma same_message_trans:
  "same_message st view a b \<Longrightarrow> same_message st view b c \<Longrightarrow> same_message st view a c"
  by (auto simp: same_message_def)

lemma same_message_view: "same_message st view a b \<Longrightarrow> view a = view b"
  by (auto simp: same_message_def)

lemma same_read_Inr: "same_read st view x (Inr (n, m)) \<longleftrightarrow> (\<exists>m'. x = Inr (n, m') \<and> same_message st view m' m)"
  by (cases x) (auto simp: same_read_def)

lemma same_read_Inl: "same_read st view x (Inl e) \<longleftrightarrow> x = Inl e"
  by (cases x) (auto simp: same_read_def)

locale incremental_message =
  fixes mc :: "('m, 'r) message_class" and ok :: "'m \<Rightarrow> bool" and view :: "'m \<Rightarrow> 'v"
  assumes new_first: "mc_state mc (mc_new mc) = FIRST_LINE_PENDING"
    and new_ok: "ok (mc_new mc)"
    and initialize_first: "mc_state mc m = FIRST_LINE_PENDING \<Longrightarrow> ok m \<Longrightarrow>
      mc_initialize mc r m = Inr (r', m') \<Longrightarrow> mc_state mc m' = FIRST_LINE_PENDING \<and> ok m'"
    and first_line_headers: "mc_state mc m = FIRST_LINE_PENDING \<Longrightarrow> ok m \<Longrightarrow>
      mc_set_first_line mc l m = Inr m' \<Longrightarrow> mc_state mc m' = HEADERS_PENDING \<and> ok m'"
    and header_headers: "mc_state mc m = HEADERS_PENDING \<Longrightarrow> ok m \<Longrightarrow>
      mc_add_header mc l m = Inr m' \<Longrightarrow> mc_state mc m' = HEADERS_PENDING \<and> ok m'"
    and done_body: "mc_state mc m = HEADERS_PENDING \<Longrightarrow> ok m \<Longrightarrow>
      mc_done_with_headers mc m = Inr m' \<Longrightarrow> mc_state mc m' = BODY_PENDING \<and> ok m'"
    and read_complete: "mc_state mc m = BODY_PENDING \<Longrightarrow> ok m \<Longrightarrow>
      mc_read_in_body mc a m = Inr (n, m') \<Longrightarrow> mc_state mc m' = COMPLETE \<Longrightarrow>
      n \<le> length a \<and> (\<exists>m''. mc_read_in_body mc (a @ b) m = Inr (n, m'') \<and>
        same_message (mc_state mc) view m' m'')"
    and read_pending: "mc_state mc m = BODY_PENDING \<Longrightarrow> ok m \<Longrightarrow>
      mc_read_in_body mc a m = Inr (n, m') \<Longrightarrow> mc_state mc m' \<noteq> COMPLETE \<Longrightarrow>
      mc_state mc m' = BODY_PENDING \<and> ok m' \<and> n = length a \<and>
      same_read (mc_state mc) view (mc_read_in_body mc (a @ b) m)
        (bind_res (mc_read_in_body mc b m') (\<lambda>(k, m''). Inr (length a + k, m'')))"
begin

text \<open>How much work is left: every round either takes bytes or moves the current message on.\<close>

definition work :: "('m, 'r) http_sequence \<Rightarrow> nat" where
  "work s = 3 * length (sq_buffer s) + (case mc_state mc (sq_current s) of
     FIRST_LINE_PENDING \<Rightarrow> 0 | HEADERS_PENDING \<Rightarrow> 0 | BODY_PENDING \<Rightarrow> 2 | COMPLETE \<Rightarrow> 1)"

definition good :: "('m, 'r) http_sequence \<Rightarrow> bool" where
  "good s \<longleftrightarrow> mc_state mc (sq_current s) \<noteq> COMPLETE \<longrightarrow> ok (sq_current s)"

lemma step_first:
  assumes "mc_state mc (sq_current s) = FIRST_LINE_PENDING" and "good s"
    and "parsing_step mc s = Inr (go, s')"
  shows "good s' \<and> (go \<longrightarrow> work s' < work s) \<and> (\<not> go \<longrightarrow> s' = s)"
proof (cases "have_complete_line (sq_buffer s)")
  case False
  with assms show ?thesis by (simp add: parsing_step_def)
next
  case True
  then obtain i where i: "str_find (sq_buffer s) CRLF 0 = Some i" "i + 2 \<le> length (sq_buffer s)"
    by (auto simp: have_line_conv)
  with assms True obtain r m m' where st: "mc_initialize mc (sq_sub s) (sq_current s) = Inr (r, m)"
    "mc_set_first_line mc (take i (sq_buffer s)) m = Inr m'"
    and s': "go" "s' = s\<lparr>sq_buffer := drop (i + 2) (sq_buffer s), sq_current := m', sq_sub := r\<rparr>"
    by (auto simp: parsing_step_def get_and_pop_line_Some)
  have "ok (sq_current s)" using assms by (simp add: good_def)
  from initialize_first [OF assms(1) this st(1)]
  have "mc_state mc m' = HEADERS_PENDING \<and> ok m'" using first_line_headers st(2) by blast
  with i assms(1) show ?thesis by (simp add: s' work_def good_def)
qed

lemma step_headers:
  assumes "mc_state mc (sq_current s) = HEADERS_PENDING" and "good s"
    and "parsing_step mc s = Inr (go, s')"
  shows "good s' \<and> (go \<longrightarrow> work s' < work s) \<and> (\<not> go \<longrightarrow> s' = s)"
proof (cases "have_complete_line (sq_buffer s)")
  case False
  with assms show ?thesis by (simp add: parsing_step_def)
next
  case True
  then obtain i where i: "str_find (sq_buffer s) CRLF 0 = Some i" "i + 2 \<le> length (sq_buffer s)"
    by (auto simp: have_line_conv)
  with assms True obtain m' where
    st: "(if take i (sq_buffer s) = [] then mc_done_with_headers mc (sq_current s)
          else mc_add_header mc (take i (sq_buffer s)) (sq_current s)) = Inr m'"
    and s': "go" "s' = s\<lparr>sq_buffer := drop (i + 2) (sq_buffer s), sq_current := m'\<rparr>"
    by (auto simp: parsing_step_def get_and_pop_line_Some)
  have "ok (sq_current s)" using assms by (simp add: good_def)
  note o = header_headers [OF assms(1) this] done_body [OF assms(1) this]
  have m': "ok m'" "mc_state mc m' = HEADERS_PENDING \<or> mc_state mc m' = BODY_PENDING"
    using st o by (cases "take i (sq_buffer s) = []"; simp)+
  from m'(2) have "work s' < work s"
    by (rule disjE) (use i(2) in \<open>simp_all add: s'(2) work_def assms(1)\<close>)
  with m'(1) show ?thesis by (simp add: s' good_def)
qed

lemma step_body:
  assumes "mc_state mc (sq_current s) = BODY_PENDING" and "good s"
    and "parsing_step mc s = Inr (go, s')"
  shows "good s' \<and> (go \<longrightarrow> work s' < work s) \<and>
    (\<not> go \<longrightarrow> sq_buffer s' = [] \<and> mc_state mc (sq_current s') = BODY_PENDING)"
proof -
  from assms obtain n m' where r: "mc_read_in_body mc (sq_buffer s) (sq_current s) = Inr (n, m')"
    and n: "n \<le> length (sq_buffer s)" "n = length (sq_buffer s) \<or> mc_state mc m' = COMPLETE"
    and s': "go = (mc_state mc m' = COMPLETE)" "s' = s\<lparr>sq_buffer := drop n (sq_buffer s), sq_current := m'\<rparr>"
    by (auto simp: parsing_step_def pop_bytes_def)
  have ok: "ok (sq_current s)" using assms by (simp add: good_def)
  show ?thesis
  proof (cases "mc_state mc m' = COMPLETE")
    case True
    with assms(1) n show ?thesis by (auto simp: s' work_def good_def)
  next
    case False
    from read_pending [OF assms(1) ok r False] n False show ?thesis by (auto simp: s' good_def)
  qed
qed

lemma step_complete:
  assumes "mc_state mc (sq_current s) = COMPLETE" and "parsing_step mc s = Inr (go, s')"
  shows "go \<and> good s' \<and> work s' < work s"
  using assms new_first new_ok by (auto simp: parsing_step_def work_def good_def)

lemma step_good: "good s \<Longrightarrow> parsing_step mc s = Inr (go, s') \<Longrightarrow> good s' \<and> (go \<longrightarrow> work s' < work s)"
  using step_first [of s go s'] step_headers [of s go s'] step_body [of s go s'] step_complete [of s go s']
  by (cases "mc_state mc (sq_current s)") blast+

text \<open>Any fuel above the work left gives the same result, so the loop always ends.\<close>

lemma loop_fuel:
  "good s \<Longrightarrow> work s < n \<Longrightarrow> work s < k \<Longrightarrow> parsing_loop n mc s = parsing_loop k mc s"
proof (induction n arbitrary: s k)
  case (Suc n)
  then obtain k' where k: "k = Suc k'" by (cases k) auto
  show ?case
  proof (cases "parsing_step mc s")
    case (Inr p)
    obtain go s' where p: "p = (go, s')" by fastforce
    with Inr step_good [OF Suc.prems(1)] have "good s'" "go \<longrightarrow> work s' < work s" by auto
    moreover from this Suc.prems k have "go \<longrightarrow> work s' < n \<and> work s' < k'" by linarith
    ultimately have "go \<longrightarrow> parsing_loop n mc s' = parsing_loop k' mc s'" using Suc.IH by blast
    then show ?thesis by (simp add: k Inr p)
  qed (simp add: k)
qed simp

lemma work_bound: "work s < parse_fuel s"
  by (auto simp: work_def parse_fuel_def split: http_state.splits)

definition run :: "('m, 'r) http_sequence \<Rightarrow> ('m, 'r) http_sequence res" where
  "run s = parsing_loop (parse_fuel s) mc s"

text \<open>The loop is the loop of the code: the fuel is never what ends it.\<close>

lemma run_unfold:
  assumes "good s"
  shows "run s = bind_res (parsing_step mc s) (\<lambda>(go, s'). if go then run s' else Inr s')"
proof (cases "parsing_step mc s")
  case (Inl e)
  obtain n where n: "parse_fuel s = Suc n" by (cases "parse_fuel s") (auto simp: parse_fuel_def)
  show ?thesis unfolding run_def n by (simp add: Inl)
next
  case (Inr p)
  obtain go s' where p: "p = (go, s')" by fastforce
  obtain n where n: "parse_fuel s = Suc n" by (cases "parse_fuel s") (auto simp: parse_fuel_def)
  from Inr p step_good [OF assms] have g: "good s'" "go \<longrightarrow> work s' < work s" by auto
  have "go \<longrightarrow> work s' < n" using g work_bound [of s] n by linarith
  then have "go \<longrightarrow> parsing_loop n mc s' = run s'"
    using loop_fuel [OF g(1) _ work_bound] by (auto simp: run_def)
  then show ?thesis unfolding run_def [of s] n by (simp add: Inr p)
qed

text \<open>Sequences that show the same to their users.\<close>

definition same_seq :: "('m, 'r) http_sequence \<Rightarrow> ('m, 'r) http_sequence \<Rightarrow> bool" where
  "same_seq s t \<longleftrightarrow> sq_buffer s = sq_buffer t \<and> sq_sub s = sq_sub t \<and>
     map view (sq_complete s) = map view (sq_complete t) \<and>
     same_message (mc_state mc) view (sq_current s) (sq_current t)"

definition same_run :: "('m, 'r) http_sequence res \<Rightarrow> ('m, 'r) http_sequence res \<Rightarrow> bool" where
  "same_run = rel_sum (=) same_seq"

lemma same_seq_refl [simp]: "same_seq s s"
  by (simp add: same_seq_def)

lemma same_seq_trans: "same_seq s t \<Longrightarrow> same_seq t u \<Longrightarrow> same_seq s u"
  by (auto simp: same_seq_def intro: same_message_trans)

lemma same_run_refl [simp]: "same_run x x"
  by (cases x) (simp_all add: same_run_def)

lemma same_run_trans: "same_run x y \<Longrightarrow> same_run y z \<Longrightarrow> same_run x z"
  by (cases x; cases y; cases z) (auto simp: same_run_def intro: same_seq_trans)

lemma same_run_Inr: "same_run (Inr s) (Inr t) \<longleftrightarrow> same_seq s t"
  by (simp add: same_run_def)

lemma good_same: "same_seq s t \<Longrightarrow> good s \<Longrightarrow> good t"
  by (auto simp: same_seq_def good_def same_message_def)

lemma step_cong:
  assumes "same_seq s t"
  shows "rel_sum (=) (rel_prod (=) same_seq) (parsing_step mc s) (parsing_step mc t)"
proof (cases "sq_current s = sq_current t")
  case False
  with assms have "mc_state mc (sq_current s) = COMPLETE" "mc_state mc (sq_current t) = COMPLETE"
    "view (sq_current s) = view (sq_current t)"
    by (auto simp: same_seq_def same_message_def)
  then show ?thesis using assms by (simp add: parsing_step_def same_seq_def)
next
  case True
  obtain c where c: "sq_complete t = c" by simp
  have t: "t = s\<lparr>sq_complete := c\<rparr>" using assms True c by (cases s; cases t) (simp add: same_seq_def)
  have v: "map view (sq_complete s) = map view c" using assms c by (simp add: same_seq_def)
  show ?thesis
    by (simp add: t parsing_step_def same_seq_def v bind_res_def split: http_state.splits sum.splits prod.splits)
qed

lemma run_cong: "same_seq s t \<Longrightarrow> good s \<Longrightarrow> same_run (run s) (run t)"
proof (induction "work s" arbitrary: s t rule: less_induct)
  case less
  have g: "good t" by (rule good_same [OF less.prems])
  from step_cong [OF less.prems(1)] show ?case
  proof (cases "parsing_step mc s"; cases "parsing_step mc t")
    fix p q assume st: "parsing_step mc s = Inr p" "parsing_step mc t = Inr q"
    obtain go s' where p: "p = (go, s')" by fastforce
    obtain go' t' where q: "q = (go', t')" by fastforce
    from step_cong [OF less.prems(1)] have r: "go' = go" "same_seq s' t'" by (auto simp: st p q)
    from step_good [OF less.prems(2)] st p have g': "good s'" "go \<longrightarrow> work s' < work s" by auto
    have "go \<longrightarrow> same_run (run s') (run t')" using less.hyps g' r by blast
    with r show ?thesis by (simp add: run_unfold [OF less.prems(2)] run_unfold [OF g] st p q same_run_Inr)
  qed (simp_all add: run_unfold [OF less.prems(2)] run_unfold [OF g] same_run_def)
qed

definition extend :: "string \<Rightarrow> ('m, 'r) http_sequence \<Rightarrow> ('m, 'r) http_sequence" where
  "extend b s = s\<lparr>sq_buffer := sq_buffer s @ b\<rparr>"

lemma extend_simps [simp]:
  "sq_buffer (extend b s) = sq_buffer s @ b" "sq_current (extend b s) = sq_current s"
  "sq_complete (extend b s) = sq_complete s" "sq_sub (extend b s) = sq_sub s"
  "extend b (extend a s) = extend (a @ b) s" "good (extend b s) = good s"
  by (simp_all add: extend_def good_def)

lemma step_extend_line:
  assumes "mc_state mc (sq_current s) = FIRST_LINE_PENDING \<or> mc_state mc (sq_current s) = HEADERS_PENDING"
    and "parsing_step mc s = Inr (True, s')"
  shows "parsing_step mc (extend b s) = Inr (True, extend b s')"
proof -
  have "have_complete_line (sq_buffer s)"
    using assms by (auto simp: parsing_step_def split: if_splits)
  then obtain i where i: "str_find (sq_buffer s) CRLF 0 = Some i" by (auto simp: have_line_conv)
  then have l: "have_complete_line (sq_buffer s)" "have_complete_line (sq_buffer s @ b)"
    using find_sub_append [of CRLF "sq_buffer s" i b] by (simp_all add: have_complete_line_def)
  from assms(1) show ?thesis
  proof
    assume "mc_state mc (sq_current s) = FIRST_LINE_PENDING"
    then show ?thesis using assms(2) l
      by (auto simp: parsing_step_def pop_line_append [OF i] get_and_pop_line_Some [OF i] extend_def)
  next
    assume "mc_state mc (sq_current s) = HEADERS_PENDING"
    then show ?thesis using assms(2) l
      by (auto simp: parsing_step_def pop_line_append [OF i] get_and_pop_line_Some [OF i] extend_def)
  qed
qed

lemma body_step_conv:
  assumes "mc_state mc (sq_current s) = BODY_PENDING"
    and "mc_read_in_body mc (sq_buffer s) (sq_current s) = Inr (n, m)"
    and "n = length (sq_buffer s) \<or> n \<le> length (sq_buffer s) \<and> mc_state mc m = COMPLETE"
  shows "parsing_step mc s =
    Inr (mc_state mc m = COMPLETE, s\<lparr>sq_buffer := drop n (sq_buffer s), sq_current := m\<rparr>)"
  using assms by (auto simp: parsing_step_def pop_bytes_def)

lemma run_append_complete:
  assumes "mc_state mc (sq_current s) = BODY_PENDING" and "good s"
    and "mc_read_in_body mc (sq_buffer s) (sq_current s) = Inr (n, m)" and "mc_state mc m = COMPLETE"
    and "s' = s\<lparr>sq_buffer := drop n (sq_buffer s), sq_current := m\<rparr>"
  shows "same_run (run (extend b s)) (run (extend b s'))"
proof -
  have ok: "ok (sq_current s)" using assms by (simp add: good_def)
  from read_complete [OF assms(1) ok assms(3,4)] obtain m2 where n: "n \<le> length (sq_buffer s)"
    and m2: "mc_read_in_body mc (sq_buffer s @ b) (sq_current s) = Inr (n, m2)"
      "same_message (mc_state mc) view m m2"
    by blast
  have c: "mc_state mc m2 = COMPLETE" using m2(2) assms(4) by (auto simp: same_message_def)
  have st: "parsing_step mc (extend b s) =
      Inr (True, s\<lparr>sq_buffer := drop n (sq_buffer s @ b), sq_current := m2\<rparr>)"
    using body_step_conv [of "extend b s" n m2] assms(1) m2(1) n c by (simp add: extend_def)
  have same: "same_seq (s\<lparr>sq_buffer := drop n (sq_buffer s @ b), sq_current := m2\<rparr>) (extend b s')"
    using m2(2) n assms(4) c by (auto simp: same_seq_def assms(5) same_message_def)
  have g: "good (s\<lparr>sq_buffer := drop n (sq_buffer s @ b), sq_current := m2\<rparr>)"
    using c by (simp add: good_def)
  show ?thesis
    using run_cong [OF same g] assms(2) by (simp add: run_unfold [of "extend b s"] st)
qed

lemma run_append_pending:
  assumes "mc_state mc (sq_current s) = BODY_PENDING" and "good s"
    and "mc_read_in_body mc (sq_buffer s) (sq_current s) = Inr (n, m)" and "mc_state mc m \<noteq> COMPLETE"
    and "s' = s\<lparr>sq_buffer := [], sq_current := m\<rparr>"
  shows "same_run (run (extend b s)) (run (extend b s'))"
proof -
  let ?a = "sq_buffer s"
  have ok: "ok (sq_current s)" using assms by (simp add: good_def)
  from read_pending [OF assms(1) ok assms(3,4), of b] have m: "mc_state mc m = BODY_PENDING" "ok m"
    and r: "same_read (mc_state mc) view (mc_read_in_body mc (?a @ b) (sq_current s))
      (bind_res (mc_read_in_body mc b m) (\<lambda>(k, m''). Inr (length ?a + k, m'')))" by auto
  have g': "good s'" using m by (simp add: assms(5) good_def)
  show ?thesis
  proof (cases "mc_read_in_body mc b m")
    case (Inl e)
    with r have l: "mc_read_in_body mc (?a @ b) (sq_current s) = Inl e" by (simp add: same_read_Inl)
    have "run (extend b s) = Inl e" "run (extend b s') = Inl e"
      using assms(1,2) g' m l Inl
      by (simp_all add: run_unfold parsing_step_def assms(5))
    then show ?thesis by simp
  next
    case (Inr p)
    obtain k m2 where p: "p = (k, m2)" by fastforce
    with r Inr obtain m3 where m3: "mc_read_in_body mc (?a @ b) (sq_current s) = Inr (length ?a + k, m3)"
      "same_message (mc_state mc) view m3 m2" by (auto simp: same_read_Inr)
    have st: "mc_state mc m3 = mc_state mc m2" by (rule same_message_state [OF m3(2)])
    have k: "k = length b \<or> k \<le> length b \<and> mc_state mc m2 = COMPLETE"
      using read_pending [OF m(1,2) Inr [unfolded p]] read_complete [OF m(1,2) Inr [unfolded p]] by blast
    let ?t = "s\<lparr>sq_buffer := drop k b, sq_current := m3\<rparr>" and ?t' = "s'\<lparr>sq_buffer := drop k b, sq_current := m2\<rparr>"
    have s1: "parsing_step mc (extend b s) = Inr (mc_state mc m2 = COMPLETE, ?t)"
      using body_step_conv [of "extend b s" "length ?a + k" m3] assms(1) m3(1) k st
      by (simp add: extend_def)
    have s2: "parsing_step mc (extend b s') = Inr (mc_state mc m2 = COMPLETE, ?t')"
      using body_step_conv [of "extend b s'" k m2] m Inr p k by (simp add: extend_def assms(5))
    have same: "same_seq ?t ?t'" using m3(2) by (simp add: same_seq_def assms(5))
    have "good ?t" using step_good [OF _ s1] assms(2) by simp
    then show ?thesis
      using assms(2) g' run_cong [OF same] same
      by (simp add: run_unfold [of "extend b s"] run_unfold [of "extend b s'"] s1 s2 same_run_Inr)
  qed
qed

lemma run_append:
  "good s \<Longrightarrow> run s = Inr s1 \<Longrightarrow> good s1 \<and> same_run (run (extend b s)) (run (extend b s1))"
proof (induction "work s" arbitrary: s rule: less_induct)
  case less
  from less.prems obtain go s' where st: "parsing_step mc s = Inr (go, s')"
    and rest: "(if go then run s' else Inr s') = Inr s1"
    by (auto simp: run_unfold [OF less.prems(1)])
  from step_good [OF less.prems(1) st] have g: "good s'" "go \<longrightarrow> work s' < work s" by auto
  have ih: "go \<Longrightarrow> good s1 \<and> same_run (run (extend b s')) (run (extend b s1))"
    using less.hyps [of s'] g rest by simp
  have go: "same_run (run (extend b s)) (run (extend b s')) \<Longrightarrow> go \<Longrightarrow> ?case"
    using ih same_run_trans by blast
  show ?case
  proof (cases "mc_state mc (sq_current s)")
    case FIRST_LINE_PENDING
    show ?thesis
    proof (cases go)
      case True
      with st have "parsing_step mc (extend b s) = Inr (True, extend b s')"
        using step_extend_line [of s s' b] FIRST_LINE_PENDING by simp
      then show ?thesis using go True less.prems(1) by (simp add: run_unfold [of "extend b s"])
    next
      case False
      with step_first [OF FIRST_LINE_PENDING less.prems(1) st] rest less.prems(1) show ?thesis by simp
    qed
  next
    case HEADERS_PENDING
    show ?thesis
    proof (cases go)
      case True
      with st have "parsing_step mc (extend b s) = Inr (True, extend b s')"
        using step_extend_line [of s s' b] HEADERS_PENDING by simp
      then show ?thesis using go True less.prems(1) by (simp add: run_unfold [of "extend b s"])
    next
      case False
      with step_headers [OF HEADERS_PENDING less.prems(1) st] rest less.prems(1) show ?thesis by simp
    qed
  next
    case BODY_PENDING
    from st BODY_PENDING obtain n m where
      r: "mc_read_in_body mc (sq_buffer s) (sq_current s) = Inr (n, m)"
      and s': "go = (mc_state mc m = COMPLETE)" "s' = s\<lparr>sq_buffer := drop n (sq_buffer s), sq_current := m\<rparr>"
        "n = length (sq_buffer s) \<or> mc_state mc m = COMPLETE"
      by (auto simp: parsing_step_def pop_bytes_def)
    show ?thesis
    proof (cases go)
      case True
      with go run_append_complete [OF BODY_PENDING less.prems(1) r _ s'(2)] s'(1) show ?thesis by blast
    next
      case False
      with s' rest have "s1 = s'" "s' = s\<lparr>sq_buffer := [], sq_current := m\<rparr>" by auto
      with run_append_pending [OF BODY_PENDING less.prems(1) r] False s'(1) g(1) show ?thesis by blast
    qed
  next
    case COMPLETE
    then have "go" "parsing_step mc (extend b s) = Inr (True, extend b s')"
      using st by (auto simp: parsing_step_def extend_def)
    then show ?thesis using go less.prems(1) by (simp add: run_unfold [of "extend b s"])
  qed
qed

lemma parse_nonempty: "a \<noteq> [] \<Longrightarrow> parse_http mc a s = run (extend a s)"
  by (simp add: parse_http_def run_def extend_def Let_def)

lemma parse_append:
  assumes "good s" and "a \<noteq> []" and "b \<noteq> []" and "parse_http mc a s = Inr s1"
  shows "good s1 \<and> same_run (parse_http mc (a @ b) s) (parse_http mc b s1)"
proof -
  from assms run_append [of "extend a s" s1 b] show ?thesis by (simp add: parse_nonempty)
qed

lemma parse_cong:
  "same_seq s t \<Longrightarrow> good s \<Longrightarrow> a \<noteq> [] \<Longrightarrow> same_run (parse_http mc a s) (parse_http mc a t)"
  using run_cong [of "extend a s" "extend a t"] by (simp add: parse_nonempty same_seq_def)

text \<open>However the stream is cut, the pieces are read like the whole.\<close>

lemma parse_segments:
  assumes "good s" and "\<And>x. x \<in> set segs \<Longrightarrow> x \<noteq> []" and "segs \<noteq> []"
    and "fold_res (parse_http mc) segs s = Inr s'"
  shows "same_run (parse_http mc (concat segs) s) (Inr s')"
  using assms
proof (induction segs arbitrary: s)
  case (Cons a segs)
  then obtain s1 where s1: "parse_http mc a s = Inr s1" and rest: "fold_res (parse_http mc) segs s1 = Inr s'"
    by auto
  show ?case
  proof (cases "segs = []")
    case True
    with s1 rest show ?thesis by simp
  next
    case False
    then have ne: "concat segs \<noteq> []" using Cons.prems(2) by (cases segs) auto
    from parse_append [OF Cons.prems(1) _ ne s1] Cons.prems(2)
    have a: "good s1" "same_run (parse_http mc (a @ concat segs) s) (parse_http mc (concat segs) s1)" by auto
    from Cons.IH [OF a(1) _ False rest] Cons.prems(2)
    have "same_run (parse_http mc (concat segs) s1) (Inr s')" by auto
    with a(2) show ?thesis using same_run_trans by fastforce
  qed
qed simp

text \<open>After a call the current message is never a complete one: it has been queued.\<close>

lemma run_current: "good s \<Longrightarrow> run s = Inr s' \<Longrightarrow> mc_state mc (sq_current s') \<noteq> COMPLETE"
proof (induction "work s" arbitrary: s rule: less_induct)
  case less
  from less.prems obtain go s1 where st: "parsing_step mc s = Inr (go, s1)"
    and rest: "(if go then run s1 else Inr s1) = Inr s'"
    by (auto simp: run_unfold [OF less.prems(1)])
  from step_good [OF less.prems(1) st] have g: "good s1" "go \<longrightarrow> work s1 < work s" by auto
  show ?case
  proof (cases go)
    case True
    with less.hyps [of s1] g rest show ?thesis by simp
  next
    case False
    with rest have "s' = s1" by simp
    with False st less.prems(1) step_first [of s go s1] step_headers [of s go s1] step_body [of s go s1]
      step_complete [of s go s1] show ?thesis
      by (cases "mc_state mc (sq_current s)") auto
  qed
qed

end

text \<open>A message type whose readers also fail alike: an error in a piece is an error of the whole.\<close>

locale strict_message = incremental_message +
  assumes read_error: "mc_state mc m = BODY_PENDING \<Longrightarrow> ok m \<Longrightarrow>
      mc_read_in_body mc a m = Inl e \<Longrightarrow> mc_read_in_body mc (a @ b) m = Inl e"
begin

lemma step_extend_error:
  assumes "good s" and "parsing_step mc s = Inl e"
  shows "parsing_step mc (extend b s) = Inl e"
proof (cases "mc_state mc (sq_current s)")
  case BODY_PENDING
  have ok: "ok (sq_current s)" using assms(1) BODY_PENDING by (simp add: good_def)
  have "mc_read_in_body mc (sq_buffer s) (sq_current s) = Inl e"
  proof (cases "mc_read_in_body mc (sq_buffer s) (sq_current s)")
    case (Inr p)
    obtain n m where p: "p = (n, m)" by fastforce
    with Inr BODY_PENDING ok read_complete [of "sq_current s" "sq_buffer s" n m]
      read_pending [of "sq_current s" "sq_buffer s" n m]
    have "n = length (sq_buffer s) \<or> n \<le> length (sq_buffer s) \<and> mc_state mc m = COMPLETE" by blast
    with body_step_conv [OF BODY_PENDING Inr [unfolded p]] assms(2) show ?thesis by simp
  qed (use assms(2) BODY_PENDING in \<open>simp add: parsing_step_def\<close>)
  from read_error [OF BODY_PENDING ok this] show ?thesis
    using BODY_PENDING by (simp add: parsing_step_def)
next
  case COMPLETE
  with assms show ?thesis by (simp add: parsing_step_def)
next
  case FIRST_LINE_PENDING
  with assms(2) have "have_complete_line (sq_buffer s)" by (auto simp: parsing_step_def split: if_splits)
  then obtain i where i: "str_find (sq_buffer s) CRLF 0 = Some i" by (auto simp: have_line_conv)
  then have "have_complete_line (sq_buffer s)" "have_complete_line (sq_buffer s @ b)"
    using find_sub_append [of CRLF "sq_buffer s" i b] by (simp_all add: have_complete_line_def)
  with FIRST_LINE_PENDING assms(2) show ?thesis
    by (auto simp: parsing_step_def pop_line_append [OF i] get_and_pop_line_Some [OF i] bind_res_eq_Inl)
next
  case HEADERS_PENDING
  with assms(2) have "have_complete_line (sq_buffer s)" by (auto simp: parsing_step_def split: if_splits)
  then obtain i where i: "str_find (sq_buffer s) CRLF 0 = Some i" by (auto simp: have_line_conv)
  then have "have_complete_line (sq_buffer s)" "have_complete_line (sq_buffer s @ b)"
    using find_sub_append [of CRLF "sq_buffer s" i b] by (simp_all add: have_complete_line_def)
  with HEADERS_PENDING assms(2) show ?thesis
    by (auto simp: parsing_step_def pop_line_append [OF i] get_and_pop_line_Some [OF i] bind_res_eq_Inl)
qed

lemma run_append_error: "good s \<Longrightarrow> run s = Inl e \<Longrightarrow> run (extend b s) = Inl e"
proof (induction "work s" arbitrary: s rule: less_induct)
  case less
  show ?case
  proof (cases "parsing_step mc s")
    case (Inl e')
    with less.prems have "e' = e" by (simp add: run_unfold)
    with step_extend_error [OF less.prems(1) Inl, of b] less.prems(1) show ?thesis
      by (simp add: run_unfold [of "extend b s"])
  next
    case (Inr p)
    obtain go s' where p: "p = (go, s')" by fastforce
    with Inr less.prems have go: "go" "run s' = Inl e" by (auto simp: run_unfold split: if_splits)
    from step_good [OF less.prems(1) Inr [unfolded p]] go have g: "good s'" "work s' < work s" by auto
    from less.hyps [OF g(2,1) go(2)] have ih: "run (extend b s') = Inl e" .
    show ?thesis
    proof (cases "mc_state mc (sq_current s) = BODY_PENDING")
      case False
      have "parsing_step mc (extend b s) = Inr (True, extend b s')"
      proof (cases "mc_state mc (sq_current s) = COMPLETE")
        case True
        then show ?thesis using Inr p by (auto simp: parsing_step_def extend_def)
      next
        case nc: False
        with False have "mc_state mc (sq_current s) = FIRST_LINE_PENDING \<or>
          mc_state mc (sq_current s) = HEADERS_PENDING" by (cases "mc_state mc (sq_current s)") auto
        then show ?thesis using step_extend_line [of s s' b] Inr p go by simp
      qed
      with ih less.prems(1) show ?thesis by (simp add: run_unfold [of "extend b s"])
    next
      case True
      with Inr p go obtain n m where
        r: "mc_read_in_body mc (sq_buffer s) (sq_current s) = Inr (n, m)" "mc_state mc m = COMPLETE"
        and s': "s' = s\<lparr>sq_buffer := drop n (sq_buffer s), sq_current := m\<rparr>"
        by (auto simp: parsing_step_def pop_bytes_def)
      from run_append_complete [OF True less.prems(1) r s', of b] ih show ?thesis
        by (cases "run (extend b s)") (auto simp: same_run_def)
    qed
  qed
qed

text \<open>The pieces succeed exactly when the whole does.\<close>

lemma parse_segments_iff:
  assumes "good s" and "\<And>x. x \<in> set segs \<Longrightarrow> x \<noteq> []" and "segs \<noteq> []"
  shows "same_run (parse_http mc (concat segs) s) (fold_res (parse_http mc) segs s)"
  using assms
proof (induction segs arbitrary: s)
  case (Cons a segs)
  show ?case
  proof (cases "segs = []")
    case True
    have "fold_res (parse_http mc) [a] s = parse_http mc a s"
      by (cases "parse_http mc a s") simp_all
    with True show ?thesis by simp
  next
    case False
    then have ne: "a \<noteq> []" "concat segs \<noteq> []" using Cons.prems(2) by (cases segs; auto)+
    show ?thesis
    proof (cases "parse_http mc a s")
      case (Inl e)
      with run_append_error [of "extend a s" e "concat segs"] Cons.prems(1) ne
      have "parse_http mc (a @ concat segs) s = Inl e" by (simp add: parse_nonempty)
      with Inl show ?thesis by simp
    next
      case (Inr s1)
      from parse_append [OF Cons.prems(1) ne Inr]
      have a: "good s1" "same_run (parse_http mc (a @ concat segs) s) (parse_http mc (concat segs) s1)" by auto
      from Cons.IH [OF a(1) _ False] Cons.prems(2)
      have "same_run (parse_http mc (concat segs) s1) (fold_res (parse_http mc) segs s1)" by auto
      with a(2) Inr show ?thesis using same_run_trans by fastforce
    qed
  qed
qed simp

end

section \<open>Chunked bodies in pieces\<close>

definition chunk_needle :: "chunked_parser \<Rightarrow> string" where
  "chunk_needle p = (if cp_trailers p then CRLF @ CRLF else CRLF)"

text \<open>The parser can do nothing with \<open>x\<close> alone.\<close>

definition chunk_waiting :: "chunked_parser \<Rightarrow> string \<Rightarrow> bool" where
  "chunk_waiting p x \<longleftrightarrow>
     (case cp_state p of
        CHUNK_HDR \<Rightarrow> find_sub CRLF x = None
      | CHUNK \<Rightarrow> length x < chunk_end p
      | TRAILER \<Rightarrow> find_sub (chunk_needle p) x = None) \<or> x = []"

lemma chunked_loop_simps:
  "cp_buffer p = [] \<Longrightarrow> chunked_loop n p = wait_for_more n p"
  "cp_buffer p \<noteq> [] \<Longrightarrow> cp_state p = CHUNK_HDR \<Longrightarrow> find_sub CRLF (cp_buffer p) = None \<Longrightarrow>
     chunked_loop n p = wait_for_more n p"
  "cp_state p = CHUNK_HDR \<Longrightarrow> find_sub CRLF (cp_buffer p) = Some it \<Longrightarrow>
     chunked_loop n p =
       bind_res (get_chunk_size (take (it + 2) (cp_buffer p))) (\<lambda>sz.
         chunked_loop n
           (p\<lparr>cp_chunk_size := sz, cp_state := (if sz = 0 then TRAILER else CHUNK),
              cp_parsed := cp_parsed p + (it + 2), cp_buffer := drop (it + 2) (cp_buffer p)\<rparr>))"
  "cp_buffer p \<noteq> [] \<Longrightarrow> cp_state p = CHUNK \<Longrightarrow> length (cp_buffer p) < chunk_end p \<Longrightarrow>
     chunked_loop n p = wait_for_more n p"
  "cp_buffer p \<noteq> [] \<Longrightarrow> cp_state p = CHUNK \<Longrightarrow> chunk_end p \<le> length (cp_buffer p) \<Longrightarrow>
     chunked_loop n p =
       (if length (cp_buffer p) < unat (cp_chunk_size p) then Inl (Out_of_range ''basic_string::substr'')
        else if take 2 (drop (unat (cp_chunk_size p)) (cp_buffer p)) \<noteq> CRLF then Inl Assertion_failed
        else chunked_loop n
               (p\<lparr>cp_state := CHUNK_HDR, cp_parsed := cp_parsed p + chunk_end p,
                  cp_buffer := drop (chunk_end p) (cp_buffer p)\<rparr>))"
  "cp_buffer p \<noteq> [] \<Longrightarrow> cp_state p = TRAILER \<Longrightarrow>
     chunked_loop n p = compute_ack_size (chunk_needle p) n p"
proof -
  show "cp_state p = CHUNK_HDR \<Longrightarrow> find_sub CRLF (cp_buffer p) = Some it \<Longrightarrow>
     chunked_loop n p =
       bind_res (get_chunk_size (take (it + 2) (cp_buffer p))) (\<lambda>sz.
         chunked_loop n
           (p\<lparr>cp_chunk_size := sz, cp_state := (if sz = 0 then TRAILER else CHUNK),
              cp_parsed := cp_parsed p + (it + 2), cp_buffer := drop (it + 2) (cp_buffer p)\<rparr>))"
    by (subst chunked_loop.simps, cases "cp_buffer p = []") (auto simp: bind_res_def split: sum.split)
qed (subst chunked_loop.simps, simp add: chunk_needle_def)+

text \<open>The steps the loop takes, as a relation: what it consumes does not depend on what follows.\<close>

inductive chunk_step :: "chunked_parser \<Rightarrow> chunked_parser \<Rightarrow> bool" where
  header: "cp_state p = CHUNK_HDR \<Longrightarrow> find_sub CRLF (cp_buffer p) = Some it \<Longrightarrow>
     get_chunk_size (take (it + 2) (cp_buffer p)) = Inr sz \<Longrightarrow>
     chunk_step p (p\<lparr>cp_chunk_size := sz, cp_state := (if sz = 0 then TRAILER else CHUNK),
        cp_parsed := cp_parsed p + (it + 2), cp_buffer := drop (it + 2) (cp_buffer p)\<rparr>)"
| chunk: "cp_buffer p \<noteq> [] \<Longrightarrow> cp_state p = CHUNK \<Longrightarrow> chunk_end p \<le> length (cp_buffer p) \<Longrightarrow>
     unat (cp_chunk_size p) \<le> length (cp_buffer p) \<Longrightarrow>
     take 2 (drop (unat (cp_chunk_size p)) (cp_buffer p)) = CRLF \<Longrightarrow>
     chunk_step p (p\<lparr>cp_state := CHUNK_HDR, cp_parsed := cp_parsed p + chunk_end p,
        cp_buffer := drop (chunk_end p) (cp_buffer p)\<rparr>)"

text \<open>Where the steps end: waiting, or with the end of the body found.\<close>

definition chunk_stuck :: "chunked_parser \<Rightarrow> bool" where
  "chunk_stuck p \<longleftrightarrow> chunk_waiting p (cp_buffer p) \<or>
     (cp_state p = TRAILER \<and> find_sub (chunk_needle p) (cp_buffer p) \<noteq> None)"

lemma chunk_step_loop: "chunk_step p q \<Longrightarrow> chunked_loop n p = chunked_loop n q"
  by (induction rule: chunk_step.induct) (simp_all add: chunked_loop_simps)

lemma chunk_steps_loop: "chunk_step\<^sup>*\<^sup>* p q \<Longrightarrow> chunked_loop n p = chunked_loop n q"
  by (induction rule: rtranclp_induct) (simp_all add: chunk_step_loop)

lemma chunk_waiting_loop: "chunk_waiting p (cp_buffer p) \<Longrightarrow> chunked_loop n p = wait_for_more n p"
  by (cases "cp_buffer p = []"; cases "cp_state p")
    (auto simp: chunk_waiting_def chunked_loop_simps compute_ack_size_def wait_for_more_def)

text \<open>A run of the loop is a run of steps to a place where it stops, or to an error.\<close>

lemma chunked_loop_steps:
  assumes "chunked_loop n p = Inr r"
  shows "\<exists>q. chunk_step\<^sup>*\<^sup>* p q \<and> chunk_stuck q"
  using assms
proof (induction n p rule: chunked_loop.induct)
  case (1 n p)
  show ?case
  proof (cases "chunk_waiting p (cp_buffer p)")
    case True
    then show ?thesis by (auto simp: chunk_stuck_def)
  next
    case nw: False
    then have ne: "cp_buffer p \<noteq> []" by (auto simp: chunk_waiting_def)
    show ?thesis
    proof (cases "cp_state p")
      case CHUNK_HDR
      with nw obtain it where it: "find_sub CRLF (cp_buffer p) = Some it" by (auto simp: chunk_waiting_def)
      with 1(3) CHUNK_HDR obtain sz where sz: "get_chunk_size (take (it + 2) (cp_buffer p)) = Inr sz"
        and l: "chunked_loop n
           (p\<lparr>cp_chunk_size := sz, cp_state := (if sz = 0 then TRAILER else CHUNK),
              cp_parsed := cp_parsed p + (it + 2), cp_buffer := drop (it + 2) (cp_buffer p)\<rparr>) = Inr r"
        by (auto simp: chunked_loop_simps)
      from 1(1) [OF ne CHUNK_HDR _ sz l] it header [OF CHUNK_HDR it sz] show ?thesis
        by (auto intro: converse_rtranclp_into_rtranclp)
    next
      case CHUNK
      with nw have le: "chunk_end p \<le> length (cp_buffer p)" by (auto simp: chunk_waiting_def)
      with 1(3) CHUNK ne have c: "unat (cp_chunk_size p) \<le> length (cp_buffer p)"
        "take 2 (drop (unat (cp_chunk_size p)) (cp_buffer p)) = CRLF"
        and l: "chunked_loop n (p\<lparr>cp_state := CHUNK_HDR, cp_parsed := cp_parsed p + chunk_end p,
                  cp_buffer := drop (chunk_end p) (cp_buffer p)\<rparr>) = Inr r"
        by (auto simp: chunked_loop_simps split: if_splits)
      from 1(2) [OF ne CHUNK le] c l chunk [OF ne CHUNK le c] show ?thesis
        by (auto intro: converse_rtranclp_into_rtranclp)
    next
      case TRAILER
      with nw show ?thesis by (auto simp: chunk_waiting_def chunk_stuck_def)
    qed
  qed
qed

text \<open>A step is taken the same way when more input follows.\<close>

definition longer :: "string \<Rightarrow> chunked_parser \<Rightarrow> chunked_parser" where
  "longer b p = p\<lparr>cp_buffer := cp_buffer p @ b\<rparr>"

lemma chunk_step_longer: "chunk_step p q \<Longrightarrow> chunk_step (longer b p) (longer b q)"
proof (induction rule: chunk_step.induct)
  case (header p it sz)
  have le: "it + 2 \<le> length (cp_buffer p)" using find_sub_Some [OF header(2)] by simp
  have "chunk_step (longer b p) ((longer b p)\<lparr>cp_chunk_size := sz, cp_state := (if sz = 0 then TRAILER else CHUNK),
        cp_parsed := cp_parsed (longer b p) + (it + 2), cp_buffer := drop (it + 2) (cp_buffer (longer b p))\<rparr>)"
    using header le find_sub_append [OF header(2)]
    by (intro chunk_step.header) (simp_all add: longer_def)
  then show ?case using le by (simp add: longer_def)
next
  case (chunk p)
  have "length (take 2 (drop (unat (cp_chunk_size p)) (cp_buffer p))) = 2" using chunk(5) by simp
  then have "2 \<le> length (drop (unat (cp_chunk_size p)) (cp_buffer p))" by (simp only: length_take)
  then have le: "unat (cp_chunk_size p) + 2 \<le> length (cp_buffer p)" using chunk(4) by simp
  have "chunk_step (longer b p) ((longer b p)\<lparr>cp_state := CHUNK_HDR,
      cp_parsed := cp_parsed (longer b p) + chunk_end (longer b p),
      cp_buffer := drop (chunk_end (longer b p)) (cp_buffer (longer b p))\<rparr>)"
    using chunk le by (intro chunk_step.chunk) (simp_all add: longer_def chunk_end_def)
  then show ?case using chunk(3) by (simp add: longer_def chunk_end_def)
qed

lemma chunk_steps_longer: "chunk_step\<^sup>*\<^sup>* p q \<Longrightarrow> chunk_step\<^sup>*\<^sup>* (longer b p) (longer b q)"
  by (induction rule: rtranclp_induct) (auto dest: chunk_step_longer [of _ _ b] intro: rtranclp.rtrancl_into_rtrancl)

lemma chunk_steps_frame:
  "chunk_step\<^sup>*\<^sup>* p q \<Longrightarrow> cp_acked q = cp_acked p \<and> cp_trailers q = cp_trailers p \<and>
     cp_parsed q + length (cp_buffer q) = cp_parsed p + length (cp_buffer p) \<and> cp_parsed p \<le> cp_parsed q"
proof (induction rule: rtranclp_induct)
  case (step q r)
  from step(2) have "cp_acked r = cp_acked q \<and> cp_trailers r = cp_trailers q \<and>
     cp_parsed r + length (cp_buffer r) = cp_parsed q + length (cp_buffer q) \<and> cp_parsed q \<le> cp_parsed r"
  proof (cases rule: chunk_step.cases)
    case (header it sz)
    have "it + 2 \<le> length (cp_buffer q)" using find_sub_Some [OF header(3)] by simp
    then have "cp_parsed q + (it + 2) + (length (cp_buffer q) - (it + 2)) = cp_parsed q + length (cp_buffer q)"
      by simp
    with header(1) show ?thesis by simp
  qed simp
  with step(3) show ?case by simp
qed simp

text \<open>Steps do not look at the count of acknowledged bytes.\<close>

lemma chunk_step_acked: "chunk_step p q \<Longrightarrow> chunk_step (p\<lparr>cp_acked := k\<rparr>) (q\<lparr>cp_acked := k\<rparr>)"
proof (induction rule: chunk_step.induct)
  case (header p it sz)
  then show ?case using chunk_step.header [of "p\<lparr>cp_acked := k\<rparr>" it sz] by (cases p) simp
next
  case (chunk p)
  then show ?case using chunk_step.chunk [of "p\<lparr>cp_acked := k\<rparr>"] by (cases p) (simp add: chunk_end_def)
qed

lemma chunk_steps_acked: "chunk_step\<^sup>*\<^sup>* p q \<Longrightarrow> chunk_step\<^sup>*\<^sup>* (p\<lparr>cp_acked := k\<rparr>) (q\<lparr>cp_acked := k\<rparr>)"
  by (induction rule: rtranclp_induct) (auto dest: chunk_step_acked [of _ _ k] intro: rtranclp.rtrancl_into_rtrancl)


lemma find_sub_late:
  assumes "find_sub pat (x @ y) = Some i" and "find_sub pat x = None"
  shows "length x < i + length pat"
  using assms
proof (induction x arbitrary: i)
  case Nil
  then show ?case by (cases "pat = []") auto
next
  case (Cons c x)
  show ?case
  proof (cases "prefix pat (c # x @ y)")
    case True
    with Cons.prems have i: "i = 0" by simp
    have "\<not> prefix pat (c # x)" using Cons.prems by (auto split: if_splits)
    with True have "length (c # x) < length pat"
      by (metis append_Cons linorder_not_less prefixI prefix_length_prefix)
    with i show ?thesis by simp
  next
    case False
    with Cons.prems obtain j where "find_sub pat (x @ y) = Some j" "i = Suc j" by auto
    moreover have "find_sub pat x = None" using Cons.prems by (auto split: if_splits)
    ultimately show ?thesis using Cons.IH by force
  qed
qed

text \<open>Acknowledging \<open>d\<close> more bytes beforehand only shortens the answer by them, as long as those
  bytes do not yet hold what the parser waits for.\<close>

definition acks_ahead :: "nat \<Rightarrow> chunked_parser \<Rightarrow> bool" where
  "acks_ahead d p \<longleftrightarrow> cp_acked p + d \<le> cp_parsed p \<or>
     (\<exists>x b. cp_buffer p = x @ b \<and> cp_parsed p + length x = cp_acked p + d \<and> chunk_waiting p x)"

definition ack_more :: "nat \<Rightarrow> nat option \<times> chunked_parser \<Rightarrow> nat option \<times> chunked_parser" where
  "ack_more d r = (case r of
     (None, q) \<Rightarrow> (None, q)
   | (Some k, q) \<Rightarrow> (Some (k - d), q\<lparr>cp_acked := cp_acked q + d\<rparr>))"

lemma acks_ahead_step: "chunk_step p q \<Longrightarrow> acks_ahead d p \<Longrightarrow> acks_ahead d q"
proof (induction rule: chunk_step.induct)
  case (header p it sz)
  have "cp_acked p + d \<le> cp_parsed p + (it + 2)"
    using header(4) unfolding acks_ahead_def
  proof (elim disjE exE conjE)
    fix x b assume x: "cp_buffer p = x @ b" "cp_parsed p + length x = cp_acked p + d" "chunk_waiting p x"
    then have "find_sub CRLF x = None" using header(1) by (auto simp: chunk_waiting_def CRLF_def)
    from find_sub_late [OF header(2) [unfolded x(1)] this] x(2) show ?thesis by simp
  qed simp
  then show ?case by (simp add: acks_ahead_def)
next
  case (chunk p)
  have "cp_acked p + d \<le> cp_parsed p + chunk_end p"
    using chunk(6) unfolding acks_ahead_def
  proof (elim disjE exE conjE)
    fix x b assume x: "cp_buffer p = x @ b" "cp_parsed p + length x = cp_acked p + d" "chunk_waiting p x"
    then have "length x \<le> chunk_end p" using chunk(2) by (auto simp: chunk_waiting_def)
    with x(2) show ?thesis by simp
  qed simp
  then show ?case by (simp add: acks_ahead_def)
qed

lemma ack_found:
  assumes "acks_ahead d p" and "cp_state p = TRAILER" and "find_sub (chunk_needle p) (cp_buffer p) = Some loc"
  shows "cp_acked p + d < cp_parsed p + (loc + length (chunk_needle p))"
  using assms(1) unfolding acks_ahead_def
proof (elim disjE exE conjE)
  fix x b assume x: "cp_buffer p = x @ b" "cp_parsed p + length x = cp_acked p + d" "chunk_waiting p x"
  then have "find_sub (chunk_needle p) x = None"
    using assms(2) by (auto simp: chunk_waiting_def chunk_needle_def CRLF_def)
  from find_sub_late [OF assms(3) [unfolded x(1)] this] x(2) show ?thesis by simp
qed (simp add: chunk_needle_def)

lemma acked_commute:
  "p\<lparr>cp_acked := k, cp_buffer := b\<rparr> = p\<lparr>cp_buffer := b, cp_acked := k\<rparr>"
  "p\<lparr>cp_acked := k, cp_parsed := n\<rparr> = p\<lparr>cp_parsed := n, cp_acked := k\<rparr>"
  "p\<lparr>cp_acked := k, cp_state := t\<rparr> = p\<lparr>cp_state := t, cp_acked := k\<rparr>"
  "p\<lparr>cp_acked := k, cp_chunk_size := z\<rparr> = p\<lparr>cp_chunk_size := z, cp_acked := k\<rparr>"
  by simp_all

lemma chunked_loop_ack:
  "acks_ahead d p \<Longrightarrow> chunked_loop n (p\<lparr>cp_acked := cp_acked p + d\<rparr>) =
     bind_res (chunked_loop (d + n) p) (\<lambda>r. Inr (ack_more d r))"
proof (induction n p rule: chunked_loop.induct)
  case (1 n p)
  let ?p = "p\<lparr>cp_acked := cp_acked p + d\<rparr>"
  have w: "chunk_waiting ?p x = chunk_waiting p x" for x
    by (simp add: chunk_waiting_def chunk_end_def chunk_needle_def split: chunk_state.split)
  show ?case
  proof (cases "chunk_waiting p (cp_buffer p)")
    case True
    with w show ?thesis
      by (simp add: chunk_waiting_loop wait_for_more_def ack_more_def algebra_simps)
  next
    case nw: False
    then have ne: "cp_buffer p \<noteq> []" by (auto simp: chunk_waiting_def)
    show ?thesis
    proof (cases "cp_state p")
      case CHUNK_HDR
      with nw obtain it where it: "find_sub CRLF (cp_buffer p) = Some it" by (auto simp: chunk_waiting_def)
      show ?thesis
      proof (cases "get_chunk_size (take (it + 2) (cp_buffer p))")
        case (Inl e)
        then show ?thesis using CHUNK_HDR it by (simp add: chunked_loop_simps)
      next
        case (Inr sz)
        from 1(1) [OF ne CHUNK_HDR _ Inr] it acks_ahead_step [OF header [OF CHUNK_HDR it Inr] 1(3)]
        show ?thesis using CHUNK_HDR it Inr by (simp add: chunked_loop_simps acked_commute split del: if_split)
      qed
    next
      case CHUNK
      with nw have le: "chunk_end p \<le> length (cp_buffer p)" by (auto simp: chunk_waiting_def)
      have e: "chunk_end ?p = chunk_end p" by (simp add: chunk_end_def)
      show ?thesis
      proof (cases "length (cp_buffer p) < unat (cp_chunk_size p) \<or>
          take 2 (drop (unat (cp_chunk_size p)) (cp_buffer p)) \<noteq> CRLF")
        case True
        then show ?thesis using CHUNK ne le by (auto simp: chunked_loop_simps e)
      next
        case False
        then have c: "unat (cp_chunk_size p) \<le> length (cp_buffer p)"
          "take 2 (drop (unat (cp_chunk_size p)) (cp_buffer p)) = CRLF" by auto
        from 1(2) [OF ne CHUNK le] c acks_ahead_step [OF chunk [OF ne CHUNK le c] 1(3)]
        show ?thesis using CHUNK ne le by (simp add: chunked_loop_simps e acked_commute)
      qed
    next
      case TRAILER
      with nw obtain loc where loc: "find_sub (chunk_needle p) (cp_buffer p) = Some loc"
        by (auto simp: chunk_waiting_def)
      have n: "chunk_needle ?p = chunk_needle p" by (simp add: chunk_needle_def)
      from ack_found [OF 1(3) TRAILER loc] show ?thesis
        using TRAILER ne loc
        by (simp add: chunked_loop_simps n compute_ack_size_def Let_def ack_more_def)
    qed
  qed
qed

section \<open>Reading a chunked body in pieces\<close>

definition caught_up :: "chunked_parser \<Rightarrow> bool" where
  "caught_up p \<longleftrightarrow> cp_acked p = cp_parsed p + length (cp_buffer p) \<and> chunk_waiting p (cp_buffer p)"

lemma caught_up_new [simp]: "caught_up (new_chunked t)"
  by (simp add: caught_up_def new_chunked_def chunk_waiting_def)

lemma chunked_read_conv: "chunked_read a p = chunked_loop (length a) (longer a p)"
  by (simp add: chunked_read_def longer_def)

lemma longer_append: "longer (a @ b) p = longer b (longer a p)"
  by (simp add: longer_def)

lemma chunk_stop:
  assumes "chunked_loop n p = Inr (amount, p')"
  obtains (waiting) q where "chunk_step\<^sup>*\<^sup>* p q" and "chunk_waiting q (cp_buffer q)"
      and "amount = None" and "p' = q\<lparr>cp_acked := cp_acked p + n\<rparr>"
  | (found) q loc where "chunk_step\<^sup>*\<^sup>* p q" and "cp_state q = TRAILER" and "cp_buffer q \<noteq> []"
      and "find_sub (chunk_needle q) (cp_buffer q) = Some loc"
      and "cp_acked p < cp_parsed q + (loc + length (chunk_needle q))"
      and "amount = Some (cp_parsed q + (loc + length (chunk_needle q)) - cp_acked p)"
      and "p' = q\<lparr>cp_parsed := cp_parsed q + (loc + length (chunk_needle q))\<rparr>"
proof -
  obtain q where q: "chunk_step\<^sup>*\<^sup>* p q" "chunk_stuck q" using chunked_loop_steps [OF assms] by blast
  have l: "chunked_loop n q = Inr (amount, p')" using assms chunk_steps_loop [OF q(1)] by simp
  have a: "cp_acked q = cp_acked p" using chunk_steps_frame [OF q(1)] by simp
  show thesis
  proof (cases "chunk_waiting q (cp_buffer q)")
    case True
    with l a q(1) show thesis by (intro waiting [of q]) (auto simp: chunk_waiting_loop wait_for_more_def)
  next
    case False
    with q(2) obtain loc where t: "cp_state q = TRAILER" "find_sub (chunk_needle q) (cp_buffer q) = Some loc"
      by (auto simp: chunk_stuck_def)
    have ne: "cp_buffer q \<noteq> []" using False by (auto simp: chunk_waiting_def)
    with l t a q(1) show thesis
      by (intro found [of q loc]) (auto simp: chunked_loop_simps compute_ack_size_def Let_def)
  qed
qed

lemma chunked_read_pending:
  assumes "caught_up p" and "chunked_read a p = Inr (None, p')"
  shows "caught_up p'" and "chunked_read b p' = bind_res (chunked_read (a @ b) p) (\<lambda>r. Inr (ack_more (length a) r))"
    and "chunked_read (a @ b) p = Inr (Some k, p'') \<Longrightarrow> length a < k"
proof -
  from assms(2) obtain q where q: "chunk_step\<^sup>*\<^sup>* (longer a p) q" "chunk_waiting q (cp_buffer q)"
    "p' = q\<lparr>cp_acked := cp_acked (longer a p) + length a\<rparr>"
    unfolding chunked_read_conv by (rule chunk_stop) auto
  from chunk_steps_frame [OF q(1)] have f: "cp_acked q = cp_acked p"
    "cp_parsed q + length (cp_buffer q) = cp_parsed p + length (cp_buffer p) + length a"
    by (simp_all add: longer_def)
  have p': "p' = q\<lparr>cp_acked := cp_acked q + length a\<rparr>" by (simp add: q(3) f longer_def)
  have w: "chunk_waiting p' x = chunk_waiting q x" for x
    by (simp add: p' chunk_waiting_def chunk_end_def chunk_needle_def split: chunk_state.split)
  show "caught_up p'" unfolding caught_up_def w using f q(2) assms(1) by (simp add: caught_up_def p')
  have lw: "chunk_waiting (longer b q) x = chunk_waiting q x" for x
    by (simp add: longer_def chunk_waiting_def chunk_end_def chunk_needle_def split: chunk_state.split)
  have ahead: "acks_ahead (length a) (longer b q)"
    unfolding acks_ahead_def lw using f q(2) assms(1)
    by (intro disjI2 exI [of _ "cp_buffer q"] exI [of _ b]) (simp add: longer_def caught_up_def)
  from chunked_loop_ack [OF ahead, of "length b"]
  have "chunked_loop (length b) (longer b p') =
      bind_res (chunked_loop (length (a @ b)) (longer b q)) (\<lambda>r. Inr (ack_more (length a) r))"
    by (simp add: p' longer_def acked_commute)
  moreover have ab: "chunked_loop (length (a @ b)) (longer b q) = chunked_read (a @ b) p"
    using chunk_steps_loop [OF chunk_steps_longer [OF q(1), of b]] by (simp add: chunked_read_conv longer_append)
  ultimately show "chunked_read b p' = bind_res (chunked_read (a @ b) p) (\<lambda>r. Inr (ack_more (length a) r))"
    by (simp add: chunked_read_conv)
  show "length a < k" if "chunked_read (a @ b) p = Inr (Some k, p'')"
  proof -
    from that ab have "chunked_loop (length (a @ b)) (longer b q) = Inr (Some k, p'')" by simp
    then show ?thesis
    proof (cases rule: chunk_stop)
      case (found r loc)
      from found(1) ahead have "acks_ahead (length a) r"
        by (induction rule: rtranclp_induct) (auto intro: acks_ahead_step)
      from ack_found [OF this found(2,4)] found(6) chunk_steps_frame [OF found(1)] show ?thesis by simp
    qed simp
  qed
qed

lemma chunked_read_found:
  assumes "caught_up p" and "chunked_read a p = Inr (Some k, p')"
  shows "k \<le> length a \<and> (\<exists>p''. chunked_read (a @ b) p = Inr (Some k, p''))"
  using assms(2) [unfolded chunked_read_conv]
proof (cases rule: chunk_stop)
  case (found q loc)
  from chunk_steps_frame [OF found(1)] have f: "cp_acked q = cp_acked p"
    "cp_parsed q + length (cp_buffer q) = cp_acked p + length a"
    using assms(1) by (simp_all add: longer_def caught_up_def)
  have "loc + length (chunk_needle q) \<le> length (cp_buffer q)" using find_sub_Some [OF found(4)] by simp
  then have "cp_parsed q + (loc + length (chunk_needle q)) - cp_acked p \<le> length a" using f by linarith
  then have k: "k \<le> length a" using found(6) by (simp add: longer_def)
  have n: "chunk_needle (longer b q) = chunk_needle q" by (simp add: longer_def chunk_needle_def)
  have "chunked_loop (length (a @ b)) (longer b q) = compute_ack_size (chunk_needle q) (length (a @ b)) (longer b q)"
    using found(2,3) by (subst chunked_loop_simps(6)) (simp_all add: longer_def n [unfolded longer_def])
  also have "\<dots> = Inr (Some k, (longer b q)\<lparr>cp_parsed := cp_parsed q + (loc + length (chunk_needle q))\<rparr>)"
    using found(5,6) find_sub_append [OF found(4)] f by (simp add: compute_ack_size_def longer_def)
  finally have "chunked_loop (length (a @ b)) (longer (a @ b) p) = \<dots>"
    using chunk_steps_loop [OF chunk_steps_longer [OF found(1), of b]] by (simp add: longer_append)
  with k show ?thesis by (auto simp: chunked_read_conv)
qed simp

end
