(* ===== verification/HttpParsers.thy ===== *)
theory HttpParsers
  imports HttpLaws
begin

text \<open>
  The two message types of the code, requests and responses, as instances of the interface of
  \<open>HttpLaws\<close> (the interpretations \<open>rq\<close> and \<open>rs\<close>), and the properties of the parsers that follow:
  independence from how the network cuts the stream, the round trip of requests, and the exact
  end of a chunked body.
\<close>

section \<open>The two message types\<close>

lemma set_expected_Inr:
  "set_expected_body_size known v m = Inr m' \<longleftrightarrow>
     hm_state m = BODY_PENDING \<and> m' = m\<lparr>hm_expected := (known, v)\<rparr>"
  by (auto simp: set_expected_body_size_def)

lemma http_state_order [simp]:
  "FIRST_LINE_PENDING < HEADERS_PENDING" "FIRST_LINE_PENDING < BODY_PENDING" "FIRST_LINE_PENDING < COMPLETE"
  "HEADERS_PENDING < BODY_PENDING" "HEADERS_PENDING < COMPLETE" "BODY_PENDING < COMPLETE"
  "\<not> a < (a :: http_state)"
  by (simp_all add: less_http_state_def)

text \<open>A body whose size is known in advance.\<close>

definition known_result :: "nat \<Rightarrow> string \<Rightarrow> 'a http_message_scheme \<Rightarrow> nat \<times> 'a http_message_scheme" where
  "known_result sz str m =
     (let amount = min (sz - length (hm_body m)) (length str);
          m' = m\<lparr>hm_body := hm_body m @ take amount str\<rparr>
      in (amount, if length (hm_body m') = sz then m'\<lparr>hm_state := COMPLETE\<rparr> else m'))"

lemma read_known:
  assumes "hm_state m = BODY_PENDING" and "hm_expected m = (True, w)"
  shows "read_in_body complex str m =
    (if length (hm_body m) \<le> unat w then Inr (known_result (unat w) str m) else Inl Assertion_failed)"
  using assms
  by (simp add: read_in_body_def body_size_is_known_def expected_body_size_def known_result_def Let_def)

lemma read_unknown:
  assumes "hm_state m = BODY_PENDING" and "hm_expected m = (False, w)"
  shows "read_in_body complex str m = complex str m"
  using assms by (simp add: read_in_body_def body_size_is_known_def)

lemma known_complete:
  assumes "known_result sz a m = (n, m')" and "hm_state m = BODY_PENDING" and "hm_state m' = COMPLETE"
    and "length (hm_body m) \<le> sz"
  shows "n \<le> length a \<and> known_result sz (a @ b) m = (n, m')"
proof -
  from assms have l: "sz - length (hm_body m) \<le> length a"
    by (auto simp: known_result_def Let_def min_def split: if_splits)
  with assms(1) show ?thesis by (auto simp: known_result_def Let_def min_def)
qed

lemma known_pending:
  assumes "known_result sz a m = (n, m')" and "hm_state m = BODY_PENDING" and "hm_state m' \<noteq> COMPLETE"
    and "length (hm_body m) \<le> sz"
  shows "n = length a \<and> m' = m\<lparr>hm_body := hm_body m @ a\<rparr> \<and> length (hm_body m') \<le> sz \<and>
    known_result sz (a @ b) m = (case known_result sz b m' of (k, m'') \<Rightarrow> (length a + k, m''))"
proof -
  from assms have l: "length a < sz - length (hm_body m)"
    by (auto simp: known_result_def Let_def min_def split: if_splits)
  then have m': "n = length a" "m' = m\<lparr>hm_body := hm_body m @ a\<rparr>"
    using assms(1) by (auto simp: known_result_def Let_def min_def split: if_splits)
  moreover have "min (sz - length (hm_body m)) (length (a @ b)) =
      length a + min (sz - length (hm_body m')) (length b)"
    using l m' by (simp add: min_def)
  ultimately show ?thesis using l by (auto simp: known_result_def Let_def)
qed

interpretation rq: incremental_message request_class "\<lambda>m. True" "\<lambda>m. m"
proof
  fix m m' :: http_message and l a b :: string and n :: nat and r r' :: unit
  show "mc_state request_class (mc_new request_class) = FIRST_LINE_PENDING"
    by (simp add: request_class_def new_request_def)
  show True by simp
  show "mc_state request_class m' = FIRST_LINE_PENDING \<and> True"
    if "mc_state request_class m = FIRST_LINE_PENDING" "mc_initialize request_class r m = Inr (r', m')"
    using that by (simp add: request_class_def)
  show "mc_state request_class m' = HEADERS_PENDING \<and> True"
    if "mc_set_first_line request_class l m = Inr m'"
    using that by (auto simp: request_class_def set_first_line_def)
  show "mc_state request_class m' = HEADERS_PENDING \<and> True"
    if "mc_state request_class m = HEADERS_PENDING" "mc_add_header request_class l m = Inr m'"
    using that by (auto simp: request_class_def add_header_line_def)
  show "mc_state request_class m' = BODY_PENDING \<and> True"
    if "mc_done_with_headers request_class m = Inr m'"
    using that by (auto simp: request_class_def done_with_headers_def calculate_request_def
        set_expected_Inr split: if_splits)
  have known: "\<exists>w. hm_expected m = (True, w)"
    if "mc_state request_class m = BODY_PENDING" "mc_read_in_body request_class a m = Inr (n, m')"
    using that by (cases "hm_expected m"; cases "fst (hm_expected m)")
      (auto simp: request_class_def read_unknown complex_body_request_def)
  show "n \<le> length a \<and> (\<exists>m''. mc_read_in_body request_class (a @ b) m = Inr (n, m'') \<and>
      same_message (mc_state request_class) (\<lambda>m. m) m' m'')"
    if st: "mc_state request_class m = BODY_PENDING" "mc_read_in_body request_class a m = Inr (n, m')"
      "mc_state request_class m' = COMPLETE"
  proof -
    from known [OF st(1,2)] obtain w where w: "hm_expected m = (True, w)" ..
    with st show ?thesis using known_complete [of "unat w" a m n m' b]
      by (auto simp: request_class_def read_known split: if_splits)
  qed
  show "mc_state request_class m' = BODY_PENDING \<and> True \<and> n = length a \<and>
      same_read (mc_state request_class) (\<lambda>m. m) (mc_read_in_body request_class (a @ b) m)
        (bind_res (mc_read_in_body request_class b m') (\<lambda>(k, m''). Inr (length a + k, m'')))"
    if st: "mc_state request_class m = BODY_PENDING" "mc_read_in_body request_class a m = Inr (n, m')"
      "mc_state request_class m' \<noteq> COMPLETE"
  proof -
    from known [OF st(1,2)] obtain w where w: "hm_expected m = (True, w)" ..
    with st have k: "known_result (unat w) a m = (n, m')" "length (hm_body m) \<le> unat w" "hm_state m = BODY_PENDING"
      "hm_state m' \<noteq> COMPLETE"
      by (auto simp: request_class_def read_known split: if_splits)
    from known_pending [OF k(1,3,4,2), of b] k w show ?thesis
      by (auto simp: request_class_def read_known same_read_Inr split: prod.splits)
  qed
qed

text \<open>A response in progress keeps its parser caught up with the input.\<close>

definition response_ok :: "http_response \<Rightarrow> bool" where
  "response_ok m \<longleftrightarrow> (\<forall>p. hr_parser m = Some (Chunked_body p) \<longrightarrow> caught_up p)"

definition response_view :: "http_response \<Rightarrow> http_response" where
  "response_view m = m\<lparr>hr_parser := None\<rparr>"

lemma complex_chunked:
  assumes "hr_parser m = Some (Chunked_body p)" and "hm_state m = BODY_PENDING"
  shows "complex_body_response a m = bind_res (chunked_read a p) (\<lambda>(amt, p'). Inr (case amt of
      None \<Rightarrow> (length a, m\<lparr>hr_parser := Some (Chunked_body p'), hm_body := hm_body m @ a\<rparr>)
    | Some n \<Rightarrow> (n, m\<lparr>hr_parser := Some (Chunked_body p'), hm_body := hm_body m @ take n a,
                    hm_state := COMPLETE\<rparr>)))"
  using assms by (auto simp: complex_body_response_def bind_res_def split: option.splits sum.splits prod.splits)

lemma complex_chunkedE:
  assumes "complex_body_response a m = Inr (n, m')"
    and "hr_parser m = Some (Chunked_body p)" and "hm_state m = BODY_PENDING"
  obtains (found) p' where "chunked_read a p = Inr (Some n, p')" and "hm_state m' = COMPLETE"
      and "m' = m\<lparr>hr_parser := Some (Chunked_body p'), hm_body := hm_body m @ take n a, hm_state := COMPLETE\<rparr>"
  | (pending) p' where "chunked_read a p = Inr (None, p')" and "n = length a" and "hm_state m' = BODY_PENDING"
      and "m' = m\<lparr>hr_parser := Some (Chunked_body p'), hm_body := hm_body m @ a\<rparr>"
proof -
  from assms(1) obtain amt p' where r: "chunked_read a p = Inr (amt, p')"
    and m': "(n, m') = (case amt of
      None \<Rightarrow> (length a, m\<lparr>hr_parser := Some (Chunked_body p'), hm_body := hm_body m @ a\<rparr>)
    | Some n \<Rightarrow> (n, m\<lparr>hr_parser := Some (Chunked_body p'), hm_body := hm_body m @ take n a,
                    hm_state := COMPLETE\<rparr>))"
    unfolding complex_chunked [OF assms(2,3)] by auto
  show thesis
  proof (cases amt)
    case None
    show thesis by (rule pending [of p']) (use None r m' assms(3) in simp_all)
  next
    case (Some k)
    show thesis by (rule found [of p']) (use Some r m' in simp_all)
  qed
qed

lemma response_complex_complete:
  assumes "complex_body_response a m = Inr (n, m')" and "response_ok m"
    and "hm_state m' = COMPLETE"
  shows "n \<le> length a \<and> (\<exists>m''. complex_body_response (a @ b) m = Inr (n, m'') \<and>
    same_message hm_state response_view m' m'')"
proof -
  from assms(1) obtain bp where bp: "hr_parser m = Some bp" and st: "hm_state m = BODY_PENDING"
    by (auto simp: complex_body_response_def split: option.splits)
  show ?thesis
  proof (cases bp)
    case Rule5_body
    with assms bp st show ?thesis by (auto simp: complex_body_response_def)
  next
    case (Chunked_body p)
    note b = bp [unfolded this]
    obtain p' where r: "chunked_read a p = Inr (Some n, p')"
      and m': "m' = m\<lparr>hr_parser := Some (Chunked_body p'), hm_body := hm_body m @ take n a, hm_state := COMPLETE\<rparr>"
      by (rule complex_chunkedE [OF assms(1) b st]) (use assms(3) in auto)
    have "caught_up p" using assms(2) bp Chunked_body by (simp add: response_ok_def)
    from chunked_read_found [OF this r, of b] obtain p'' where "n \<le> length a"
      "chunked_read (a @ b) p = Inr (Some n, p'')" by blast
    then show ?thesis
      by (simp add: complex_chunked [OF b st] m' same_message_def response_view_def)
  qed
qed

lemma response_complex_pending:
  assumes "complex_body_response a m = Inr (n, m')" and "response_ok m"
    and "hm_state m' \<noteq> COMPLETE" and "hm_expected m = (False, w)"
  shows "hm_state m' = BODY_PENDING \<and> response_ok m' \<and> n = length a \<and> hm_expected m' = (False, w) \<and>
    same_read hm_state response_view (complex_body_response (a @ b) m)
      (bind_res (complex_body_response b m') (\<lambda>(k, m''). Inr (length a + k, m'')))"
proof -
  from assms(1) obtain bp where bp: "hr_parser m = Some bp" and st: "hm_state m = BODY_PENDING"
    by (auto simp: complex_body_response_def split: option.splits)
  show ?thesis
  proof (cases bp)
    case Rule5_body
    with assms bp st show ?thesis
      by (auto simp: complex_body_response_def same_read_def response_ok_def)
  next
    case (Chunked_body p)
    note bc = bp [unfolded this]
    obtain p' where r: "chunked_read a p = Inr (None, p')" and n: "n = length a"
      and m': "m' = m\<lparr>hr_parser := Some (Chunked_body p'), hm_body := hm_body m @ a\<rparr>"
      by (rule complex_chunkedE [OF assms(1) bc st]) (use assms(3) in auto)
    have st': "hm_state m' = BODY_PENDING" "hr_parser m' = Some (Chunked_body p')" by (simp_all add: m' st)
    have c: "caught_up p" using assms(2) bp Chunked_body by (simp add: response_ok_def)
    note b = chunked_read_pending(1) [OF c r] chunked_read_pending(2) [OF c r, of b]
      chunked_read_pending(3) [OF c r, of b]
    have "same_read hm_state response_view (complex_body_response (a @ b) m)
      (bind_res (complex_body_response b m') (\<lambda>(k, m''). Inr (length a + k, m'')))"
    proof (cases "chunked_read (a @ b) p")
      case (Inl e)
      then show ?thesis
        by (simp add: complex_chunked [OF bc st] complex_chunked [OF st'(2,1)] b(2) same_read_def)
    next
      case (Inr q)
      obtain amt p2 where q: "q = (amt, p2)" by fastforce
      show ?thesis
      proof (cases amt)
        case None
        then show ?thesis
          unfolding complex_chunked [OF bc st] complex_chunked [OF st'(2,1)] b(2) Inr q
          by (simp add: ack_more_def same_read_def m')
      next
        case (Some k)
        with Inr q have "length a < k" using b(3) by simp
        then show ?thesis
          unfolding complex_chunked [OF bc st] complex_chunked [OF st'(2,1)] b(2) Inr q Some
          by (simp add: ack_more_def same_read_def m' same_message_def response_view_def)
      qed
    qed
    with b(1) show ?thesis using assms(4) by (simp add: m' n st response_ok_def)
  qed
qed

lemma calculate_response_ok:
  assumes "calculate_response m = Inr m'" and "response_ok m"
  shows "hm_state m' = BODY_PENDING \<and> response_ok m'"
  using assms
  by (auto simp: calculate_response_def set_expected_Inr response_ok_def split: if_splits)

interpretation rs: incremental_message response_class response_ok response_view
proof
  fix m m' :: http_response and l a b :: string and n :: nat and r r' :: "http_message list"
  show "mc_state response_class (mc_new response_class) = FIRST_LINE_PENDING"
    "response_ok (mc_new response_class)"
    by (simp_all add: response_class_def new_response_def response_ok_def)
  show "mc_state response_class m' = FIRST_LINE_PENDING \<and> response_ok m'"
    if "mc_state response_class m = FIRST_LINE_PENDING" "response_ok m"
      "mc_initialize response_class r m = Inr (r', m')"
    using that by (cases m) (auto simp: response_class_def initialize_response_def set_request_def response_ok_def
        split: if_splits)
  show "mc_state response_class m' = HEADERS_PENDING \<and> response_ok m'"
    if "response_ok m" "mc_set_first_line response_class l m = Inr m'"
    using that by (auto simp: response_class_def set_first_line_def response_ok_def)
  show "mc_state response_class m' = HEADERS_PENDING \<and> response_ok m'"
    if "mc_state response_class m = HEADERS_PENDING" "response_ok m" "mc_add_header response_class l m = Inr m'"
    using that by (auto simp: response_class_def add_header_line_def response_ok_def)
  show "mc_state response_class m' = BODY_PENDING \<and> response_ok m'"
    if "response_ok m" "mc_done_with_headers response_class m = Inr m'"
    using that calculate_response_ok [of "m\<lparr>hm_state := BODY_PENDING\<rparr>" m']
    by (auto simp: response_class_def done_with_headers_def response_ok_def)
  show "n \<le> length a \<and> (\<exists>m''. mc_read_in_body response_class (a @ b) m = Inr (n, m'') \<and>
      same_message (mc_state response_class) response_view m' m'')"
    if st: "mc_state response_class m = BODY_PENDING" "response_ok m"
      "mc_read_in_body response_class a m = Inr (n, m')" "mc_state response_class m' = COMPLETE"
  proof -
    obtain known w where w: "hm_expected m = (known, w)" by fastforce
    show ?thesis
    proof (cases known)
      case True
      with st w show ?thesis using known_complete [of "unat w" a m n m' b]
        by (auto simp: response_class_def read_known split: if_splits)
    next
      case False
      with st w show ?thesis using response_complex_complete [of a m n m' b]
        by (simp add: response_class_def read_unknown)
    qed
  qed
  show "mc_state response_class m' = BODY_PENDING \<and> response_ok m' \<and> n = length a \<and>
      same_read (mc_state response_class) response_view (mc_read_in_body response_class (a @ b) m)
        (bind_res (mc_read_in_body response_class b m') (\<lambda>(k, m''). Inr (length a + k, m'')))"
    if st: "mc_state response_class m = BODY_PENDING" "response_ok m"
      "mc_read_in_body response_class a m = Inr (n, m')" "mc_state response_class m' \<noteq> COMPLETE"
  proof -
    obtain known w where w: "hm_expected m = (known, w)" by fastforce
    show ?thesis
    proof (cases known)
      case True
      with st w have k: "known_result (unat w) a m = (n, m')" "length (hm_body m) \<le> unat w"
        "hm_state m = BODY_PENDING" "hm_state m' \<noteq> COMPLETE"
        by (auto simp: response_class_def read_known split: if_splits)
      from known_pending [OF k(1,3,4,2), of b] k w st(2) True show ?thesis
        by (auto simp: response_class_def read_known same_read_Inr response_ok_def split: prod.splits)
    next
      case False
      with st w have c: "complex_body_response a m = Inr (n, m')" "hm_state m' \<noteq> COMPLETE"
        "hm_expected m = (False, w)" "hm_state m = BODY_PENDING"
        by (simp_all add: response_class_def read_unknown)
      note p = response_complex_pending [OF c(1) st(2) c(2,3), of b]
      then have "read_in_body complex_body_response b m' = complex_body_response b m'"
        by (intro read_unknown) auto
      with p c show ?thesis by (simp add: response_class_def read_unknown)
    qed
  qed
qed

interpretation rqs: strict_message request_class "\<lambda>m. True" "\<lambda>m. m"
proof
  fix m :: http_message and a b :: string and e
  assume st: "mc_state request_class m = BODY_PENDING" "mc_read_in_body request_class a m = Inl e"
  obtain known w where w: "hm_expected m = (known, w)" by fastforce
  show "mc_read_in_body request_class (a @ b) m = Inl e"
    using st w by (cases known)
      (auto simp: request_class_def read_known read_unknown complex_body_request_def split: if_splits)
qed

section \<open>Responses in pieces\<close>

text \<open>C34: however the network cuts a stream of responses, the parser hands out the same messages and
  ends in the same state as when the stream comes in one piece, for every kind of body (the
  finished parser object of a complete message aside).\<close>

theorem response_segmentation:
  assumes "response_ok (sq_current s)" and "segs \<noteq> []" and "\<forall>x \<in> set segs. x \<noteq> []"
    and "fold_res (parse_http response_class) segs s = Inr s'"
  shows "\<exists>s''. parse_http response_class (concat segs) s = Inr s'' \<and>
    sq_buffer s'' = sq_buffer s' \<and> sq_sub s'' = sq_sub s' \<and>
    response_view (sq_current s'') = response_view (sq_current s') \<and>
    map response_view (sq_complete s'') = map response_view (sq_complete s')"
proof -
  have "rs.good s" using assms(1) by (simp add: rs.good_def)
  from rs.parse_segments [OF this _ assms(2,4)] assms(3)
  have r: "rs.same_run (parse_http response_class (concat segs) s) (Inr s')" by blast
  then obtain s'' where "parse_http response_class (concat segs) s = Inr s''" "rs.same_seq s'' s'"
    by (cases "parse_http response_class (concat segs) s") (auto simp: rs.same_run_def)
  then show ?thesis by (auto simp: rs.same_seq_def dest: same_message_view)
qed

section \<open>Requests there and back\<close>

definition wire_header :: "http_header \<Rightarrow> bool" where
  "wire_header h \<longleftrightarrow> CHR '':'' \<notin> set (hh_key h) \<and> find_sub CRLF (header_str h) = None \<and>
     hh_value h \<noteq> [] \<and> hd (hh_value h) \<noteq> CHR '' ''"

text \<open>A request that can be sent: complete, with the body its first line and headers announce.\<close>

definition wire_request :: "http_message \<Rightarrow> bool" where
  "wire_request r \<longleftrightarrow> hm_state r = COMPLETE \<and> find_sub CRLF (hm_first_line r) = None \<and>
     (\<forall>h \<in> set (hm_headers r). wire_header h) \<and>
     calculate_request (r\<lparr>hm_expected := (False, - 1), hm_body := [], hm_state := BODY_PENDING\<rparr>) =
       Inr (r\<lparr>hm_body := [], hm_state := BODY_PENDING\<rparr>) \<and>
     hm_expected r = (True, of_nat (length (hm_body r))) \<and> length (hm_body r) < 2 ^ 64"

lemma parse_header_str:
  assumes "wire_header h"
  shows "parse_header (header_str h) = Inr h"
proof -
  have f: "find_sub '':'' (header_str h) = Some (length (hh_key h))"
    using assms find_sub_char_append [of "CHR '':''" "hh_key h"]
    by (simp add: wire_header_def header_str_def)
  obtain c v where v: "hh_value h = c # v" "c \<noteq> CHR '' ''"
    using assms by (cases "hh_value h") (auto simp: wire_header_def)
  have sub: "substr (header_str h) (length (hh_key h) + 1) None = Inr (CHR '' '' # c # v)"
    "take (length (hh_key h)) (header_str h) = hh_key h"
    by (simp_all add: header_str_def v)
  have h: "h = \<lparr>hh_key = hh_key h, hh_value = c # v\<rparr>" by (cases h) (use v in simp)
  have "parse_header (header_str h) = Inr \<lparr>hh_key = hh_key h, hh_value = c # v\<rparr>"
    unfolding parse_header_def str_find_zero f using v(2) by (simp only: option.case sub bind_res_Inr) simp
  with h show ?thesis by simp
qed

definition header_bytes :: "http_header list \<Rightarrow> string" where
  "header_bytes hs = concat (map (\<lambda>h. header_str h @ CRLF) hs)"

lemma line_step:
  assumes "find_sub CRLF l = None" and "sq_buffer s = l @ CRLF @ rest"
  shows "have_complete_line (sq_buffer s)" "get_and_pop_line (sq_buffer s) = Inr (l, rest)"
  using find_CRLF_line [OF assms(1), of rest] assms(2)
  by (simp_all add: have_complete_line_def get_and_pop_line_def)

lemma run_first_line:
  assumes "sq_current s = new_request" and "find_sub CRLF l = None" and "sq_buffer s = l @ CRLF @ rest"
  shows "rq.run s = rq.run (s\<lparr>sq_buffer := rest,
    sq_current := new_request\<lparr>hm_first_line := l, hm_state := HEADERS_PENDING\<rparr>\<rparr>)"
proof -
  have st: "hm_state (sq_current s) = FIRST_LINE_PENDING" by (simp add: assms(1) new_request_def)
  have "parsing_step request_class s = Inr (True, s\<lparr>sq_buffer := rest,
    sq_current := new_request\<lparr>hm_first_line := l, hm_state := HEADERS_PENDING\<rparr>\<rparr>)"
    using line_step [OF assms(2,3)] st assms(1)
    by (simp add: parsing_step_def request_class_def set_first_line_def)
  then show ?thesis by (subst rq.run_unfold) (simp_all add: rq.good_def)
qed

lemma run_headers:
  "hm_state (sq_current s) = HEADERS_PENDING \<Longrightarrow> \<forall>h \<in> set hs. wire_header h \<Longrightarrow>
   sq_buffer s = header_bytes hs @ rest \<Longrightarrow>
   rq.run s = rq.run (s\<lparr>sq_buffer := rest,
     sq_current := (sq_current s)\<lparr>hm_headers := hm_headers (sq_current s) @ hs\<rparr>\<rparr>)"
proof (induction hs arbitrary: s)
  case Nil
  then show ?case by (cases s) (simp add: header_bytes_def)
next
  case (Cons h hs)
  let ?s = "s\<lparr>sq_buffer := header_bytes hs @ rest,
    sq_current := (sq_current s)\<lparr>hm_headers := hm_headers (sq_current s) @ [h]\<rparr>\<rparr>"
  have h: "find_sub CRLF (header_str h) = None" "sq_buffer s = header_str h @ CRLF @ header_bytes hs @ rest"
    "header_str h \<noteq> []"
    using Cons.prems by (simp_all add: wire_header_def header_bytes_def header_str_def)
  have "parsing_step request_class s = Inr (True, ?s)"
    using line_step [OF h(1,2)] h(3) Cons.prems parse_header_str [of h]
    by (simp add: parsing_step_def request_class_def add_header_line_def)
  then have "rq.run s = rq.run ?s" by (subst rq.run_unfold) (simp_all add: rq.good_def)
  with Cons.IH [of ?s] Cons.prems show ?case by simp
qed

lemma run_body:
  assumes "hm_state (sq_current s) = HEADERS_PENDING"
    and "calculate_request ((sq_current s)\<lparr>hm_state := BODY_PENDING\<rparr>) = Inr m" and "hm_body m = []"
    and "hm_expected m = (True, of_nat (length body))" and "length body < 2 ^ 64"
    and "sq_buffer s = CRLF @ body @ rest"
  shows "rq.run s = rq.run (s\<lparr>sq_buffer := rest, sq_complete := sq_complete s @ [m\<lparr>hm_body := body, hm_state := COMPLETE\<rparr>],
    sq_current := new_request\<rparr>)"
proof -
  let ?s1 = "s\<lparr>sq_buffer := body @ rest, sq_current := m\<rparr>"
  let ?s2 = "s\<lparr>sq_buffer := rest, sq_current := m\<lparr>hm_body := body, hm_state := COMPLETE\<rparr>\<rparr>"
  have st: "hm_state m = BODY_PENDING"
    using assms(2) by (auto simp: calculate_request_def set_expected_Inr split: if_splits)
  have "sq_buffer s = [] @ CRLF @ body @ rest" "find_sub CRLF [] = None"
    using assms(6) by simp_all
  from line_step [OF this(2,1)] have s1: "parsing_step request_class s = Inr (True, ?s1)"
    using assms(1,2) by (simp add: parsing_step_def request_class_def done_with_headers_def)
  have "read_in_body complex_body_request (body @ rest) m =
      Inr (length body, m\<lparr>hm_body := body, hm_state := COMPLETE\<rparr>)"
    using read_known [OF st assms(4), of complex_body_request "body @ rest"] assms(3,5)
    by (simp add: known_result_def unat_of_nat take_bit_nat_eq_self)
  then have s2: "parsing_step request_class ?s1 = Inr (True, ?s2)"
    using st by (simp add: parsing_step_def request_class_def pop_bytes_def)
  have s3: "parsing_step request_class ?s2 = Inr (True, s\<lparr>sq_buffer := rest,
      sq_complete := sq_complete s @ [m\<lparr>hm_body := body, hm_state := COMPLETE\<rparr>], sq_current := new_request\<rparr>)"
    by (simp add: parsing_step_def request_class_def)
  show ?thesis
    using s1 s2 s3 by (simp add: rq.run_unfold [of s] rq.run_unfold [of ?s1] rq.run_unfold [of ?s2] rq.good_def)
qed

lemma run_request:
  assumes "wire_request r" and "message_str r = Inr b" and "sq_current s = new_request"
    and "sq_buffer s = b @ rest"
  shows "rq.run s = rq.run (s\<lparr>sq_buffer := rest, sq_complete := sq_complete s @ [r]\<rparr>)"
proof -
  have b: "sq_buffer s = hm_first_line r @ CRLF @ header_bytes (hm_headers r) @ CRLF @ hm_body r @ rest"
    using assms(1,2,4) by (auto simp: message_str_def wire_request_def header_bytes_def)
  let ?m1 = "new_request\<lparr>hm_first_line := hm_first_line r, hm_state := HEADERS_PENDING\<rparr>"
  let ?s1 = "s\<lparr>sq_buffer := header_bytes (hm_headers r) @ CRLF @ hm_body r @ rest, sq_current := ?m1\<rparr>"
  let ?m2 = "?m1\<lparr>hm_headers := hm_headers r\<rparr>"
  let ?s2 = "s\<lparr>sq_buffer := CRLF @ hm_body r @ rest, sq_current := ?m2\<rparr>"
  have w: "find_sub CRLF (hm_first_line r) = None" "\<forall>h \<in> set (hm_headers r). wire_header h"
    using assms(1) by (simp_all add: wire_request_def)
  have r1: "rq.run s = rq.run ?s1" by (rule run_first_line [OF assms(3) w(1) b])
  have r2: "rq.run ?s1 = rq.run ?s2"
    using run_headers [of ?s1 "hm_headers r" "CRLF @ hm_body r @ rest"] w(2) by (simp add: new_request_def)
  have m2: "?m2\<lparr>hm_state := BODY_PENDING\<rparr> =
      r\<lparr>hm_expected := (False, - 1), hm_body := [], hm_state := BODY_PENDING\<rparr>"
    by (cases r) (simp add: new_request_def)
  have c: "calculate_request ((sq_current ?s2)\<lparr>hm_state := BODY_PENDING\<rparr>) =
      Inr (r\<lparr>hm_body := [], hm_state := BODY_PENDING\<rparr>)"
    using assms(1) m2 by (simp add: wire_request_def)
  have r3: "rq.run ?s2 = rq.run (s\<lparr>sq_buffer := rest, sq_complete := sq_complete s @ [r], sq_current := new_request\<rparr>)"
    using run_body [OF _ c, of "hm_body r" rest] assms(1)
    by (cases r) (simp add: wire_request_def new_request_def)
  show ?thesis using r1 r2 r3 assms(3) by (cases s) simp
qed

lemma run_requests:
  "\<forall>r \<in> set rs. wire_request r \<Longrightarrow> map_res message_str rs = Inr bs \<Longrightarrow> sq_current s = new_request \<Longrightarrow>
   sq_buffer s = concat bs \<Longrightarrow> rq.run s = Inr (s\<lparr>sq_buffer := [], sq_complete := sq_complete s @ rs\<rparr>)"
proof (induction rs arbitrary: s bs)
  case Nil
  have "parsing_step request_class s = Inr (False, s)"
    using Nil by (simp add: parsing_step_def request_class_def new_request_def have_complete_line_def CRLF_def)
  with Nil show ?case by (subst rq.run_unfold) (simp_all add: rq.good_def)
next
  case (Cons r rs)
  then obtain b bs' where b: "message_str r = Inr b" "map_res message_str rs = Inr bs'" "bs = b # bs'" by auto
  let ?s = "s\<lparr>sq_buffer := concat bs', sq_complete := sq_complete s @ [r]\<rparr>"
  have "rq.run s = rq.run ?s" using run_request [OF _ b(1) Cons.prems(3)] Cons.prems b(3) by simp
  with Cons.IH [of bs' ?s] Cons.prems b show ?case by simp
qed

lemma requests_read_back:
  assumes "\<forall>r \<in> set rs. wire_request r" and "map_res message_str rs = Inr bs"
    and "concat segs = concat bs" and "\<forall>x \<in> set segs. x \<noteq> []" and "segs \<noteq> []"
  shows "fold_res (parse_http request_class) segs (new_sequence request_class ()) =
    Inr \<lparr>sq_buffer = [], sq_complete = rs, sq_current = new_request, sq_sub = ()\<rparr>"
proof -
  let ?s = "new_sequence request_class ()"
  let ?t = "\<lparr>sq_buffer = [], sq_complete = rs, sq_current = new_request, sq_sub = ()\<rparr>"
  have ne: "concat segs \<noteq> []" using assms(4,5) by (cases segs) auto
  have new: "sq_current ?s = new_request" "sq_buffer ?s = []" "sq_complete ?s = []"
    by (simp_all add: new_sequence_def request_class_def)
  have "parse_http request_class (concat segs) ?s = rq.run (rq.extend (concat bs) ?s)"
    using ne assms(3) by (simp add: rq.parse_nonempty)
  also have "\<dots> = Inr ?t"
    using run_requests [OF assms(1,2), of "rq.extend (concat bs) ?s"] new
    by (simp add: rq.extend_def new_sequence_def request_class_def)
  finally have p: "parse_http request_class (concat segs) ?s = Inr ?t" .
  from rqs.parse_segments_iff [of ?s segs] assms(4,5)
  have "rq.same_run (Inr ?t) (fold_res (parse_http request_class) segs ?s)"
    by (simp add: p rq.good_def)
  then show ?thesis
    by (cases "fold_res (parse_http request_class) segs ?s")
      (auto simp: rq.same_run_def rq.same_seq_def same_message_def)
qed

text \<open>C31: requests written one after another are read back as the same requests in the same order,
  with nothing left over, however the bytes are cut on the way. The values of their headers are neither empty nor start
  with a space (\<open>wire_header\<close>): those are not read back as they were.\<close>

theorem requests_roundtrip:
  assumes "\<forall>r \<in> set rs. wire_request r" and "map_res message_str rs = Inr bs"
    and "concat segs = concat bs" and "\<forall>x \<in> set segs. x \<noteq> []" and "segs \<noteq> []"
  shows "fold_res (parse_http request_class) segs (new_sequence request_class ()) =
    Inr \<lparr>sq_buffer = [], sq_complete = rs, sq_current = new_request, sq_sub = ()\<rparr>"
  by (rule requests_read_back [OF assms])

section \<open>The end of a chunked body\<close>

definition chunk_bytes :: "string \<Rightarrow> string" where
  "chunk_bytes d = to_hex_string (length d) @ CRLF @ d @ CRLF"

definition chunked_bytes :: "string list \<Rightarrow> string" where
  "chunked_bytes ds = concat (map chunk_bytes ds) @ ''0'' @ CRLF @ CRLF"

lemma find_CRLF_free: "\<forall>c \<in> set l. c \<noteq> CHR 0x0D \<Longrightarrow> find_sub CRLF l = None"
  by (induction l) (auto simp: CRLF_def)

lemma hex_plain:
  assumes "c \<in> set (to_hex_string n)"
  shows "c \<noteq> CHR 0x0D" "c \<noteq> CHR '';''" "c \<noteq> CHR '' ''"
proof -
  have "digit_val CHR 0x0D = None" "digit_val CHR '';'' = None" "digit_val CHR '' '' = None"
    by (simp_all add: digit_val_def)
  then show "c \<noteq> CHR 0x0D" "c \<noteq> CHR '';''" "c \<noteq> CHR '' ''"
    using assms numeral_no_char(2) [of _ n] by metis+
qed

lemma get_chunk_size_hex:
  assumes "n < 2 ^ 32"
  shows "get_chunk_size (to_hex_string n @ CRLF) = Inr (of_nat n)"
proof -
  let ?h = "to_hex_string n"
  have semi: "find_sub '';'' (?h @ CRLF) = None"
    using hex_plain(2) [of _ n] by (auto simp: find_sub_char_None CRLF_def)
  have crlf: "find_sub CRLF (?h @ CRLF) = Some (length ?h)"
    using find_CRLF_line [of ?h "[]"] hex_plain(1) [of _ n] by (simp add: find_CRLF_free)
  have tw: "takeWhile (\<lambda>c. c \<noteq> CHR '' '') ?h = ?h"
    using hex_plain(3) [of _ n] by (simp add: takeWhile_eq_all_conv)
  have "strict_atoi ?h 16 = Inr (int n)" using assms by (intro strict_atoi_hex) simp
  then show ?thesis by (simp add: get_chunk_size_def semi crlf tw Let_def)
qed

lemma chunk_steps_data:
  assumes "cp_state p = CHUNK_HDR" and "cp_buffer p = chunk_bytes d @ rest" and "d \<noteq> []" and "length d < 2 ^ 32 - 2"
  obtains z where "chunk_step\<^sup>*\<^sup>* p (p\<lparr>cp_chunk_size := z, cp_state := CHUNK_HDR,
      cp_parsed := cp_parsed p + length (chunk_bytes d), cp_buffer := rest\<rparr>)"
proof -
  let ?h = "to_hex_string (length d)" and ?z = "of_nat (length d) :: 32 word"
  have b: "cp_buffer p = ?h @ CRLF @ d @ CRLF @ rest" using assms(2) by (simp add: chunk_bytes_def)
  have f: "find_sub CRLF (cp_buffer p) = Some (length ?h)"
    unfolding b by (intro find_CRLF_line find_CRLF_free) (auto dest: hex_plain(1))
  have t: "take (length ?h + 2) (cp_buffer p) = ?h @ CRLF" "drop (length ?h + 2) (cp_buffer p) = d @ CRLF @ rest"
    by (simp_all add: b)
  have z: "unat ?z = length d" using assms(4) by (simp add: unat_of_nat take_bit_nat_eq_self)
  have z0: "?z \<noteq> 0" using z assms(3) by (metis length_0_conv unat_0)
  have z2: "unat (?z + 2) = length d + 2"
    using assms(4) z by (subst unat_add_lem [THEN iffD1]) simp_all
  let ?p1 = "p\<lparr>cp_chunk_size := ?z, cp_state := CHUNK, cp_parsed := cp_parsed p + (length ?h + 2),
      cp_buffer := d @ CRLF @ rest\<rparr>"
  have "get_chunk_size (take (length ?h + 2) (cp_buffer p)) = Inr ?z"
    unfolding t(1) using assms(4) by (intro get_chunk_size_hex) simp
  from chunk_step.header [OF assms(1) f this, unfolded t(2)] have s1: "chunk_step p ?p1"
    using z0 by simp
  have "chunk_step ?p1 (?p1\<lparr>cp_state := CHUNK_HDR, cp_parsed := cp_parsed ?p1 + chunk_end ?p1,
      cp_buffer := drop (chunk_end ?p1) (cp_buffer ?p1)\<rparr>)"
    by (rule chunk_step.chunk) (use assms(3) in \<open>simp_all add: chunk_end_def z z2\<close>)
  then have s2: "chunk_step ?p1 (p\<lparr>cp_chunk_size := ?z, cp_state := CHUNK_HDR,
      cp_parsed := cp_parsed p + length (chunk_bytes d), cp_buffer := rest\<rparr>)"
    by (simp add: chunk_end_def z2 chunk_bytes_def add.assoc)
  show thesis by (rule that [of ?z]) (use s1 s2 in auto)
qed

lemma chunk_steps_all:
  assumes "\<forall>d \<in> set ds. d \<noteq> [] \<and> length d < 2 ^ 32 - 2"
    and "cp_state p = CHUNK_HDR" and "cp_buffer p = concat (map chunk_bytes ds) @ rest"
  shows "\<exists>z. chunk_step\<^sup>*\<^sup>* p (p\<lparr>cp_chunk_size := z, cp_state := CHUNK_HDR,
      cp_parsed := cp_parsed p + length (concat (map chunk_bytes ds)), cp_buffer := rest\<rparr>)"
  using assms
proof (induction ds arbitrary: p)
  case Nil
  then show ?case by (intro exI [of _ "cp_chunk_size p"], cases p) simp
next
  case (Cons d ds)
  have b: "cp_buffer p = chunk_bytes d @ concat (map chunk_bytes ds) @ rest" using Cons.prems by simp
  from chunk_steps_data [OF Cons.prems(2) b] Cons.prems(1) obtain z where
    z: "chunk_step\<^sup>*\<^sup>* p (p\<lparr>cp_chunk_size := z, cp_state := CHUNK_HDR,
      cp_parsed := cp_parsed p + length (chunk_bytes d), cp_buffer := concat (map chunk_bytes ds) @ rest\<rparr>)"
    by auto
  let ?q = "p\<lparr>cp_chunk_size := z, cp_state := CHUNK_HDR,
      cp_parsed := cp_parsed p + length (chunk_bytes d), cp_buffer := concat (map chunk_bytes ds) @ rest\<rparr>"
  from Cons.IH [of ?q] Cons.prems obtain z' where
    "chunk_step\<^sup>*\<^sup>* ?q (?q\<lparr>cp_chunk_size := z', cp_state := CHUNK_HDR,
      cp_parsed := cp_parsed ?q + length (concat (map chunk_bytes ds)), cp_buffer := rest\<rparr>)" by auto
  with z have "chunk_step\<^sup>*\<^sup>* p (?q\<lparr>cp_chunk_size := z', cp_state := CHUNK_HDR,
      cp_parsed := cp_parsed ?q + length (concat (map chunk_bytes ds)), cp_buffer := rest\<rparr>)" by (rule rtranclp_trans)
  then show ?case by (auto simp: add.assoc)
qed

text \<open>C32: a chunked body ends exactly where its last chunk does: of the bytes that follow one another
  on the connection the response takes the whole encoded body and leaves the rest to the next
  message. (The body is kept as it was sent, with the chunk headers.)\<close>

theorem chunked_body_end:
  assumes "hm_state m = BODY_PENDING" and "hr_parser m = Some (Chunked_body (new_chunked False))"
    and "\<forall>d \<in> set ds. d \<noteq> [] \<and> length d < 2 ^ 32 - 2"
  shows "\<exists>m'. complex_body_response (chunked_bytes ds @ rest) m = Inr (length (chunked_bytes ds), m') \<and>
    hm_state m' = COMPLETE \<and> hm_body m' = hm_body m @ chunked_bytes ds"
proof -
  let ?p = "longer (chunked_bytes ds @ rest) (new_chunked False)"
  let ?e = "''0'' @ CRLF @ CRLF @ rest"
  have "cp_state ?p = CHUNK_HDR" "cp_buffer ?p = concat (map chunk_bytes ds) @ ?e"
    by (simp_all add: longer_def new_chunked_def chunked_bytes_def)
  from chunk_steps_all [OF assms(3) this] obtain z where
    z: "chunk_step\<^sup>*\<^sup>* ?p (?p\<lparr>cp_chunk_size := z, cp_state := CHUNK_HDR,
      cp_parsed := cp_parsed ?p + length (concat (map chunk_bytes ds)), cp_buffer := ?e\<rparr>)" ..
  let ?q = "?p\<lparr>cp_chunk_size := z, cp_state := CHUNK_HDR,
      cp_parsed := cp_parsed ?p + length (concat (map chunk_bytes ds)), cp_buffer := ?e\<rparr>"
  have "find_sub CRLF ''0'' = None" by (simp add: CRLF_def)
  from find_CRLF_line [OF this] have f: "find_sub CRLF ?e = Some 1" by simp
  have h0: "to_hex_string 0 = ''0''" by code_simp
  have "get_chunk_size (''0'' @ CRLF) = Inr 0"
    using get_chunk_size_hex [of 0] h0 by simp
  then have g: "get_chunk_size (take (1 + 2) (cp_buffer ?q)) = Inr 0" by (simp add: CRLF_def)
  let ?t = "?q\<lparr>cp_chunk_size := 0, cp_state := TRAILER, cp_parsed := cp_parsed ?q + (1 + 2), cp_buffer := CRLF @ rest\<rparr>"
  have "chunk_step ?q ?t" using chunk_step.header [of ?q 1 0] f g by simp
  with z have s: "chunk_step\<^sup>*\<^sup>* ?p ?t" by simp
  have "chunked_loop n ?t = Inr (Some (length (chunked_bytes ds)),
      ?t\<lparr>cp_parsed := length (chunked_bytes ds)\<rparr>)" for n
    by (simp add: chunked_loop_simps chunk_needle_def compute_ack_size_def longer_def new_chunked_def chunked_bytes_def)
  then have "\<exists>p'. chunked_read (chunked_bytes ds @ rest) (new_chunked False) =
      Inr (Some (length (chunked_bytes ds)), p')"
    by (simp add: chunked_read_conv chunk_steps_loop [OF s])
  then show ?thesis by (auto simp: complex_chunked [OF assms(2,1)])
qed

section \<open>Examples\<close>

definition sample_response :: http_response where
  "sample_response = new_response\<lparr>hm_first_line := ''HTTP/1.1 200 OK'', hm_state := BODY_PENDING,
     hm_headers := [\<lparr>hh_key = ''Transfer-Encoding'', hh_value = ''chunked''\<rparr>],
     hr_parser := Some (Chunked_body (new_chunked False))\<rparr>"

theorem chunked_body_end_witness:
  "\<exists>m'. complex_body_response (chunked_bytes [''hello'', ''!''] @ ''HTTP/1.1'') sample_response =
     Inr (length (chunked_bytes [''hello'', ''!'']), m') \<and> hm_state m' = COMPLETE \<and>
     hm_body m' = chunked_bytes [''hello'', ''!'']"
  using chunked_body_end [of sample_response "[''hello'', ''!'']" "''HTTP/1.1''"]
  by (simp add: sample_response_def new_response_def)

definition sample_post :: http_message where
  "sample_post = \<lparr>hm_expected = (True, 5), hm_first_line = ''POST / HTTP/1.1'',
     hm_headers = [\<lparr>hh_key = ''Content-Length'', hh_value = ''5''\<rparr>], hm_body = ''hello'', hm_state = COMPLETE\<rparr>"

lemma sample_post_wire: "wire_request sample_post"
proof -
  have "calculate_request (sample_post\<lparr>hm_expected := (False, - 1), hm_body := [], hm_state := BODY_PENDING\<rparr>) =
      Inr (sample_post\<lparr>hm_body := [], hm_state := BODY_PENDING\<rparr>)"
    by code_simp
  moreover have "find_sub CRLF (hm_first_line sample_post) = None" by code_simp
  moreover have "\<forall>h \<in> set (hm_headers sample_post). wire_header h" by code_simp
  ultimately show ?thesis by (simp add: wire_request_def) (simp add: sample_post_def)
qed

theorem requests_roundtrip_witness:
  "\<exists>a b. message_str sample_post = Inr (a @ b) \<and> length a = 20 \<and>
     fold_res (parse_http request_class) [a, b] (new_sequence request_class ()) =
       Inr \<lparr>sq_buffer = [], sq_complete = [sample_post], sq_current = new_request, sq_sub = ()\<rparr>"
proof -
  obtain s where s: "message_str sample_post = Inr s" "length s = 43"
    by (auto simp: message_str_def sample_post_def header_str_def)
  have "fold_res (parse_http request_class) [take 20 s, drop 20 s] (new_sequence request_class ()) =
      Inr \<lparr>sq_buffer = [], sq_complete = [sample_post], sq_current = new_request, sq_sub = ()\<rparr>"
    by (rule requests_roundtrip [of _ "[s]"]) (use sample_post_wire s in auto)
  with s show ?thesis by (intro exI [of _ "take 20 s"] exI [of _ "drop 20 s"]) simp
qed

definition sample_stream :: "string list" where
  "sample_stream = [''HTTP/1.1 200 OK'', CRLF @ ''Content-Length: 2'' @ CRLF, CRLF @ ''o'', ''k'']"

definition waiting_parser :: "(http_response, http_message list) http_sequence" where
  "waiting_parser = new_sequence response_class [new_request\<lparr>hm_first_line := ''GET /'', hm_state := COMPLETE\<rparr>]"

definition run_sample :: "bool" where
  "run_sample = (case fold_res (parse_http response_class) sample_stream waiting_parser of
     Inl e \<Rightarrow> False | Inr s \<Rightarrow> map hm_body (sq_complete s) = [''ok''])"

theorem response_segmentation_witness:
  "\<exists>s'. parse_http response_class (concat sample_stream) waiting_parser = Inr s' \<and>
     map (\<lambda>m. hm_body (response_view m)) (sq_complete s') = [''ok'']"
proof -
  have "run_sample" by code_simp
  then obtain s where s: "fold_res (parse_http response_class) sample_stream waiting_parser = Inr s"
    "map hm_body (sq_complete s) = [''ok'']"
    by (auto simp: run_sample_def split: sum.splits)
  have ok: "response_ok (sq_current waiting_parser)"
    by (simp add: waiting_parser_def new_sequence_def response_class_def new_response_def response_ok_def)
  have ne: "sample_stream \<noteq> []" "\<forall>x \<in> set sample_stream. x \<noteq> []" by (simp_all add: sample_stream_def)
  have body: "hm_body (response_view m) = hm_body m" for m by (simp add: response_view_def)
  from response_segmentation [OF ok ne s(1)] obtain s'' where
    p: "parse_http response_class (concat sample_stream) waiting_parser = Inr s''"
    and v: "map response_view (sq_complete s'') = map response_view (sq_complete s)" by blast
  from arg_cong [OF v, of "map hm_body"] have "map hm_body (sq_complete s'') = map hm_body (sq_complete s)"
    by (simp add: body comp_def)
  with p s(2) show ?thesis by (simp add: body)
qed

end
