(* ===== verification/Aws.thy ===== *)
theory Aws
  imports HttpParsers
begin

text \<open>
  Signed requests to Amazon's services (\<open>src/net/awsv4_sig.cc\<close>, \<open>aws.cc\<close>, \<open>lambda.cc\<close>, the requests
  of \<open>s3.cc\<close>). SHA-256 and HMAC are parameters that work on bytes; the date of a request, which the
  code takes from the clock and formats with \<open>strftime\<close>, is an argument.
\<close>

section \<open>Ordered maps from strings to strings\<close>

text \<open>\<open>std::map\<close>: pairs in the order of their keys; \<open>m[ k ] = v\<close> adds or replaces.\<close>

fun map_put :: "string \<Rightarrow> string \<Rightarrow> (string \<times> string) list \<Rightarrow> (string \<times> string) list" where
  "map_put k v [] = [(k, v)]"
| "map_put k v ((a, b) # xs) =
     (if k < a then (k, v) # (a, b) # xs else if k = a then (k, v) # xs else (a, b) # map_put k v xs)"

section \<open>Signature version 4\<close>

record crypto =
  cr_sha256 :: "string \<Rightarrow> string"
  cr_hmac :: "string \<Rightarrow> string \<Rightarrow> string"

definition ALGORITHM :: string where
  "ALGORITHM = ''AWS4-HMAC-SHA256''"

definition sha256buf_to_string :: "string \<Rightarrow> string" where
  "sha256buf_to_string buf =
     concat (map (\<lambda>c. pad_left 2 CHR ''0'' (to_hex_string (of_char c))) (take 32 buf))"

definition sig_sha256 :: "crypto \<Rightarrow> string \<Rightarrow> string" where
  "sig_sha256 c s = sha256buf_to_string (cr_sha256 c s)"

definition derive_signing_key :: "crypto \<Rightarrow> string \<Rightarrow> string \<Rightarrow> string \<Rightarrow> string \<Rightarrow> string" where
  "derive_signing_key c secret date region service =
     (let k_date = cr_hmac c (''AWS4'' @ secret) date;
          k_region = cr_hmac c k_date region;
          k_service = cr_hmac c k_region service
      in cr_hmac c k_service ''aws4_request'')"

text \<open>The list of signed headers, with a semicolon before every name but the first.\<close>

fun semicolons :: "string list \<Rightarrow> string" where
  "semicolons [] = []"
| "semicolons [n] = n"
| "semicolons (n # ns) = n @ '';'' @ semicolons ns"

definition canonical_request :: "string \<Rightarrow> (string \<times> string) list \<Rightarrow> string \<Rightarrow> string" where
  "canonical_request first_line headers hash_val =
     first_line @ [CHR 0x0A, CHR 0x0A]
     @ concat (map (\<lambda>(k, v). k @ '':'' @ v @ [CHR 0x0A]) headers)
     @ [CHR 0x0A] @ semicolons (map fst headers) @ [CHR 0x0A] @ hash_val"

definition credential_scope :: "string \<Rightarrow> string \<Rightarrow> string \<Rightarrow> string" where
  "credential_scope request_date region service =
     take 8 request_date @ ''/'' @ region @ ''/'' @ service @ ''/aws4_request''"

definition string_to_sign :: "crypto \<Rightarrow> string \<Rightarrow> string \<Rightarrow> string \<Rightarrow> string" where
  "string_to_sign c request_date cred_scope canonical =
     ALGORITHM @ [CHR 0x0A] @ request_date @ [CHR 0x0A] @ cred_scope @ [CHR 0x0A] @ sig_sha256 c canonical"

definition sign_request ::
  "crypto \<Rightarrow> string \<Rightarrow> string \<Rightarrow> string \<Rightarrow> string \<Rightarrow> string \<Rightarrow> string \<Rightarrow> string \<Rightarrow> string \<Rightarrow>
     (string \<times> string) list \<Rightarrow> (string \<times> string) list" where
  "sign_request c first_line secret akid region service request_date payload payload_hash headers =
     (let hash_val = (if length payload_hash = 0 then sig_sha256 c payload else payload_hash);
          cred_scope = credential_scope request_date region service;
          skey = derive_signing_key c secret (take 8 request_date) region service;
          signature = sha256buf_to_string
            (cr_hmac c skey (string_to_sign c request_date cred_scope
               (canonical_request first_line headers hash_val)))
      in map_put ''x-amz-content-sha256'' hash_val
           (map_put ''authorization''
             (ALGORITHM @ '' Credential='' @ akid @ ''/'' @ cred_scope
              @ '', SignedHeaders='' @ semicolons (map fst headers) @ '', Signature='' @ signature)
             headers))"

section \<open>Requests\<close>

record aws_credentials =
  ac_access_key :: string
  ac_secret_key :: string
  ac_session_token :: "string option"

definition make_credentials :: "string \<Rightarrow> string \<Rightarrow> string \<Rightarrow> aws_credentials res" where
  "make_credentials access_key secret_key session_token =
     (if length access_key = 0 \<or> length secret_key = 0
      then Inl (Runtime_error ''Missing AWS access key and/or secret key'')
      else Inr \<lparr>ac_access_key = access_key, ac_secret_key = secret_key,
             ac_session_token = (if length session_token > 0 then Some session_token else None)\<rparr>)"

definition credentials_from_env :: "(string \<rightharpoonup> string) \<Rightarrow> aws_credentials res" where
  "credentials_from_env environ =
     bind_res (safe_getenv environ ''AWS_ACCESS_KEY_ID'') (\<lambda>access_key.
     bind_res (safe_getenv environ ''AWS_SECRET_ACCESS_KEY'') (\<lambda>secret_key.
       make_credentials access_key secret_key (safe_getenv_or environ ''AWS_SESSION_TOKEN'' [])))"

record aws_request =
  ar_credentials :: aws_credentials
  ar_region :: string
  ar_request_date :: string
  ar_first_line :: string
  ar_contents :: string
  ar_headers :: "(string \<times> string) list"

definition new_aws_request ::
  "aws_credentials \<Rightarrow> string \<Rightarrow> string \<Rightarrow> string \<Rightarrow> string \<Rightarrow> aws_request" where
  "new_aws_request credentials region first_line contents date =
     \<lparr>ar_credentials = credentials, ar_region = region, ar_request_date = date,
      ar_first_line = first_line, ar_contents = contents,
      ar_headers = map_put ''x-amz-date'' date []\<rparr>"

definition aws_header :: "string \<Rightarrow> string \<Rightarrow> aws_request \<Rightarrow> aws_request" where
  "aws_header k v r = r\<lparr>ar_headers := map_put k v (ar_headers r)\<rparr>"

definition aws_sign :: "crypto \<Rightarrow> string \<Rightarrow> string \<Rightarrow> string \<Rightarrow> aws_request \<Rightarrow> aws_request" where
  "aws_sign c canonical_line service payload_hash r =
     r\<lparr>ar_headers := sign_request c canonical_line (ac_secret_key (ar_credentials r))
          (ac_access_key (ar_credentials r)) (ar_region r) service (ar_request_date r)
          (ar_contents r) payload_hash (ar_headers r)\<rparr>"

definition to_http_request :: "aws_request \<Rightarrow> http_message res" where
  "to_http_request r =
     bind_res (set_first_line (ar_first_line r) new_request) (\<lambda>req.
     bind_res (fold_res (\<lambda>(k, v). add_header \<lparr>hh_key = k, hh_value = v\<rparr>) (ar_headers r) req) (\<lambda>req.
     bind_res (done_with_headers calculate_request req) (\<lambda>req.
     bind_res (read_in_body complex_body_request (ar_contents r) req) (\<lambda>(_, req).
     bind_res (assert_res (hm_state req = COMPLETE)) (\<lambda>_. Inr req)))))"

section \<open>Lambda\<close>

datatype invocation_type = EVENT | REQUEST_RESPONSE | DRY_RUN
datatype log_type = NONE | TAIL

fun invocation_type_str :: "invocation_type \<Rightarrow> string" where
  "invocation_type_str EVENT = ''Event''"
| "invocation_type_str REQUEST_RESPONSE = ''RequestResponse''"
| "invocation_type_str DRY_RUN = ''DryRun''"

fun log_type_str :: "log_type \<Rightarrow> string" where
  "log_type_str NONE = ''None''"
| "log_type_str TAIL = ''Tail''"

definition lambda_endpoint :: "string \<Rightarrow> string" where
  "lambda_endpoint region = ''lambda.'' @ region @ ''.amazonaws.com''"

definition lambda_invocation_request ::
  "crypto \<Rightarrow> aws_credentials \<Rightarrow> string \<Rightarrow> string \<Rightarrow> string \<Rightarrow> string \<Rightarrow> invocation_type \<Rightarrow> log_type \<Rightarrow> string \<Rightarrow>
     aws_request" where
  "lambda_invocation_request c credentials region date function_name payload invocation_type log_type context =
     (let path = ''/2015-03-31/functions/'' @ function_name @ ''/invocations'';
          r = new_aws_request credentials region (''POST '' @ path @ '' HTTP/1.1'') payload date
      in aws_sign c (''POST'' @ [CHR 0x0A] @ path) ''lambda'' []
           (aws_header ''x-amz-client-context'' context
           (aws_header ''x-amz-log-type'' (log_type_str log_type)
           (aws_header ''x-amz-invocation-type'' (invocation_type_str invocation_type)
           (aws_header ''content-length'' (nat_to_string (length payload))
           (aws_header ''host'' (lambda_endpoint region) r))))))"

section \<open>S3\<close>

definition s3_endpoint :: "string \<Rightarrow> string \<Rightarrow> string" where
  "s3_endpoint region bucket =
     (if region = ''us-east-1'' then bucket @ ''.s3.amazonaws.com''
      else bucket @ ''.s3-'' @ region @ ''.amazonaws.com'')"

definition with_token :: "aws_credentials \<Rightarrow> aws_request \<Rightarrow> aws_request" where
  "with_token credentials r =
     (case ac_session_token credentials of
        None \<Rightarrow> r | Some token \<Rightarrow> aws_header ''x-amz-security-token'' token r)"

definition s3_put_request ::
  "crypto \<Rightarrow> aws_credentials \<Rightarrow> string \<Rightarrow> string \<Rightarrow> string \<Rightarrow> string \<Rightarrow> string \<Rightarrow> string \<Rightarrow> aws_request" where
  "s3_put_request c credentials endpoint region date object contents content_hash =
     aws_sign c (''PUT'' @ [CHR 0x0A] @ ''/'' @ object) ''s3'' content_hash
       (with_token credentials
         (aws_header ''content-length'' (nat_to_string (length contents))
           (aws_header ''host'' endpoint
             (new_aws_request credentials region (''PUT /'' @ object @ '' HTTP/1.1'') contents date))))"

definition s3_get_request ::
  "crypto \<Rightarrow> aws_credentials \<Rightarrow> string \<Rightarrow> string \<Rightarrow> string \<Rightarrow> string \<Rightarrow> aws_request" where
  "s3_get_request c credentials endpoint region date object =
     aws_sign c (''GET'' @ [CHR 0x0A] @ ''/'' @ object) ''s3'' []
       (with_token credentials
         (aws_header ''host'' endpoint
           (new_aws_request credentials region (''GET /'' @ object @ '' HTTP/1.1'') [] date)))"

section \<open>Facts\<close>

abbreviation map_sorted :: "(string \<times> string) list \<Rightarrow> bool" where
  "map_sorted xs \<equiv> sorted_wrt (<) (map fst xs)"

lemma map_put_keys: "fst ` set (map_put k v xs) = insert k (fst ` set xs)"
  by (induction k v xs rule: map_put.induct) auto

lemma map_put_sorted [simp]: "map_sorted xs \<Longrightarrow> map_sorted (map_put k v xs)"
proof (induction k v xs rule: map_put.induct)
  case (2 k v a b xs)
  have "fst ` set (map_put k v xs) = insert k (fst ` set xs)" by (rule map_put_keys)
  then have "x \<in> set (map fst (map_put k v xs)) \<longleftrightarrow> x = k \<or> x \<in> set (map fst xs)" for x
    by auto
  with 2 show ?case by (auto simp del: set_map)
qed simp

lemma map_put_lookup: "map_sorted xs \<Longrightarrow> map_of (map_put k v xs) = (map_of xs)(k \<mapsto> v)"
  by (induction k v xs rule: map_put.induct) (auto simp: fun_eq_iff)

lemma map_sorted_distinct: "map_sorted xs \<Longrightarrow> distinct (map fst xs)"
  using strict_sorted_iff by blast

text \<open>The canonical request can be taken apart again, so the signature covers every header and the hash of
  the payload: names without a colon, and no line breaks.\<close>

definition plain_header :: "string \<times> string \<Rightarrow> bool" where
  "plain_header h \<longleftrightarrow> fst h \<noteq> [] \<and> CHR '':'' \<notin> set (fst h) \<and> CHR 0x0A \<notin> set (fst h) \<and> CHR 0x0A \<notin> set (snd h)"

lemma append_stop_eq:
  assumes "c \<notin> set a" and "c \<notin> set b" and "a @ c # x = b @ c # y"
  shows "a = b \<and> x = y"
  using assms by (induction a arbitrary: b) (auto simp: Cons_eq_append_conv)

lemma header_lines_inj:
  assumes "\<forall>h \<in> set hs. plain_header h" and "\<forall>h \<in> set hs'. plain_header h"
    and "concat (map (\<lambda>(k, v). k @ '':'' @ v @ [CHR 0x0A]) hs) @ CHR 0x0A # x =
      concat (map (\<lambda>(k, v). k @ '':'' @ v @ [CHR 0x0A]) hs') @ CHR 0x0A # y"
  shows "hs = hs' \<and> x = y"
  using assms
proof (induction hs arbitrary: hs')
  case Nil
  show ?case
  proof (cases hs')
    case (Cons h t)
    obtain k v where h: "h = (k, v)" by (cases h)
    with Nil.prems(2) Cons obtain c k' where "k = c # k'" "c \<noteq> CHR 0x0A"
      by (cases k) (auto simp: plain_header_def)
    with Nil.prems(3) Cons h show ?thesis by simp
  qed (use Nil.prems in simp)
next
  case (Cons h t)
  obtain k v where h: "h = (k, v)" by (cases h)
  with Cons.prems(1) have p: "plain_header (k, v)" by simp
  show ?case
  proof (cases hs')
    case Nil
    from p obtain c k' where "k = c # k'" "c \<noteq> CHR 0x0A"
      by (cases k) (auto simp: plain_header_def)
    with Cons.prems(3) Nil h show ?thesis by simp
  next
    case hs': (Cons h2 t2)
    obtain k2 v2 where h2: "h2 = (k2, v2)" by (cases h2)
    with Cons.prems(2) hs' have p2: "plain_header (k2, v2)" by simp
    let ?rest = "concat (map (\<lambda>(k, v). k @ '':'' @ v @ [CHR 0x0A]) t) @ CHR 0x0A # x"
    let ?rest2 = "concat (map (\<lambda>(k, v). k @ '':'' @ v @ [CHR 0x0A]) t2) @ CHR 0x0A # y"
    from Cons.prems(3) have "k @ CHR '':'' # (v @ CHR 0x0A # ?rest) = k2 @ CHR '':'' # (v2 @ CHR 0x0A # ?rest2)"
      by (simp add: h hs' h2)
    from append_stop_eq [OF _ _ this] p p2 have k: "k = k2"
      and v: "v @ CHR 0x0A # ?rest = v2 @ CHR 0x0A # ?rest2" by (auto simp: plain_header_def)
    from append_stop_eq [OF _ _ v] p p2 have "v = v2" and rest: "?rest = ?rest2" by (auto simp: plain_header_def)
    moreover from Cons.IH [OF _ _ rest] Cons.prems hs' have "t = t2 \<and> x = y" by simp
    ultimately show ?thesis using k by (simp add: h hs' h2)
  qed
qed

text \<open>Two canonical requests for the same method and path are equal only when they have the same
  headers in the same order and the same payload hash: whatever the signature is computed from fixes
  all that is sent.\<close>

lemma canonical_request_binds:
  assumes "\<forall>h \<in> set hs. plain_header h" and "\<forall>h \<in> set hs'. plain_header h"
    and "canonical_request line hs hash = canonical_request line hs' hash'"
  shows "hs = hs' \<and> hash = hash'"
proof -
  from assms(3) have "concat (map (\<lambda>(k, v). k @ '':'' @ v @ [CHR 0x0A]) hs) @ CHR 0x0A #
        (semicolons (map fst hs) @ CHR 0x0A # hash) =
      concat (map (\<lambda>(k, v). k @ '':'' @ v @ [CHR 0x0A]) hs') @ CHR 0x0A #
        (semicolons (map fst hs') @ CHR 0x0A # hash')"
    by (simp add: canonical_request_def)
  from header_lines_inj [OF assms(1,2) this] show ?thesis by auto
qed

lemma canonical_request_binds_witness:
  "canonical_request ''GET'' [(''host'', ''a'')] ''h'' \<noteq> canonical_request ''GET'' [(''host'', ''b'')] ''h''"
  using canonical_request_binds [of "[(''host'', ''a'')]" "[(''host'', ''b'')]" "''GET''" "''h''" "''h''"]
  by (auto simp: plain_header_def)

section \<open>The invocation request\<close>

lemma lambda_headers:
  "map_put ''x-amz-content-sha256'' h (map_put ''authorization'' auth
     (map_put ''x-amz-client-context'' ctx (map_put ''x-amz-log-type'' lt (map_put ''x-amz-invocation-type'' ty
     (map_put ''content-length'' n (map_put ''host'' host (map_put ''x-amz-date'' date []))))))) =
   [(''authorization'', auth), (''content-length'', n), (''host'', host), (''x-amz-client-context'', ctx),
    (''x-amz-content-sha256'', h), (''x-amz-date'', date), (''x-amz-invocation-type'', ty), (''x-amz-log-type'', lt)]"
  "map_put ''x-amz-client-context'' ctx (map_put ''x-amz-log-type'' lt (map_put ''x-amz-invocation-type'' ty
     (map_put ''content-length'' n (map_put ''host'' host (map_put ''x-amz-date'' date []))))) =
   [(''content-length'', n), (''host'', host), (''x-amz-client-context'', ctx), (''x-amz-date'', date),
    (''x-amz-invocation-type'', ty), (''x-amz-log-type'', lt)]"
  by (simp_all add: less_char_def)

lemma fold_add_header:
  "hm_state m = HEADERS_PENDING \<Longrightarrow>
     fold_res (\<lambda>(k, v). add_header \<lparr>hh_key = k, hh_value = v\<rparr>) hs m =
       Inr (m\<lparr>hm_headers := hm_headers m @ map (\<lambda>(k, v). \<lparr>hh_key = k, hh_value = v\<rparr>) hs\<rparr>)"
  by (induction hs arbitrary: m) (auto simp: add_header_def)

lemma calculate_post:
  assumes "take 5 (hm_first_line m) = ''POST ''" and "hm_state m = BODY_PENDING"
    and "hm_headers m = a # \<lparr>hh_key = ''content-length'', hh_value = nat_to_string n\<rparr> # hs"
    and "\<not> equivalent_strings (hh_key a) ''Content-Length''" and "n < 2 ^ 63"
  shows "calculate_request m = Inr (m\<lparr>hm_expected := (True, of_nat n)\<rparr>)"
proof -
  have eq: "equivalent_strings ''content-length'' ''Content-Length''" by code_simp
  from assms(1) have other: "take 4 (hm_first_line m) \<noteq> ''GET ''"
    by (cases "hm_first_line m") auto
  show ?thesis
    using assms eq other
    by (simp add: calculate_request_def has_header_def get_header_value_def strict_atoi_nat
        set_expected_body_size_def)
qed

lemma to_http_request_post:
  assumes "take 5 (ar_first_line r) = ''POST ''" and "length (ar_contents r) < 2 ^ 63"
    and hs: "ar_headers r = (k, v) # (''content-length'', nat_to_string (length (ar_contents r))) # hs"
    and "\<not> equivalent_strings k ''Content-Length''"
  shows "to_http_request r = Inr \<lparr>hm_expected = (True, of_nat (length (ar_contents r))),
    hm_first_line = ar_first_line r, hm_headers = map (\<lambda>(k, v). \<lparr>hh_key = k, hh_value = v\<rparr>) (ar_headers r),
    hm_body = ar_contents r, hm_state = COMPLETE\<rparr>"
proof -
  have small: "unat (word_of_nat (length (ar_contents r)) :: 64 word) = length (ar_contents r)"
    using assms by (simp add: unat_of_nat take_bit_nat_eq_self)
  let ?hs = "map (\<lambda>(k, v). \<lparr>hh_key = k, hh_value = v\<rparr>) (ar_headers r)"
  define m where "m = new_request\<lparr>hm_first_line := ar_first_line r, hm_state := HEADERS_PENDING\<rparr>"
  have 1: "set_first_line (ar_first_line r) new_request = Inr m"
    by (simp add: set_first_line_def m_def) (simp add: new_request_def)
  have 2: "fold_res (\<lambda>(k, v). add_header \<lparr>hh_key = k, hh_value = v\<rparr>) (ar_headers r) m = Inr (m\<lparr>hm_headers := ?hs\<rparr>)"
    by (simp add: fold_add_header m_def) (simp add: new_request_def)
  have 3: "done_with_headers calculate_request (m\<lparr>hm_headers := ?hs\<rparr>) =
      Inr (m\<lparr>hm_headers := ?hs, hm_state := BODY_PENDING, hm_expected := (True, of_nat (length (ar_contents r)))\<rparr>)"
    using assms by (simp add: done_with_headers_def calculate_post m_def)
  show ?thesis
    unfolding to_http_request_def 1 bind_res_Inr 2 3
    by (simp add: read_in_body_def body_size_is_known_def expected_body_size_def small less_http_state_def
        Let_def m_def new_request_def)
qed

text \<open>The request that invokes a Lambda function is complete, with the payload as its body, and all its
  headers but the signature itself and the repeated payload hash are named as signed.\<close>

lemma lambda_request_signed:
  assumes "length payload < 2 ^ 63"
  shows "\<exists>m signature. to_http_request (lambda_invocation_request c credentials region date fname payload ty lt ctx) = Inr m \<and>
    hm_state m = COMPLETE \<and> hm_body m = payload \<and>
    hm_first_line m = ''POST /2015-03-31/functions/'' @ fname @ ''/invocations HTTP/1.1'' \<and>
    hm_headers m = map (\<lambda>(k, v). \<lparr>hh_key = k, hh_value = v\<rparr>)
      [(''authorization'', ''AWS4-HMAC-SHA256 Credential='' @ ac_access_key credentials @ ''/''
          @ take 8 date @ ''/'' @ region @ ''/lambda/aws4_request''
          @ '', SignedHeaders=content-length;host;x-amz-client-context;x-amz-date;x-amz-invocation-type;x-amz-log-type''
          @ '', Signature='' @ signature),
       (''content-length'', nat_to_string (length payload)), (''host'', lambda_endpoint region),
       (''x-amz-client-context'', ctx), (''x-amz-content-sha256'', sig_sha256 c payload), (''x-amz-date'', date),
       (''x-amz-invocation-type'', invocation_type_str ty), (''x-amz-log-type'', log_type_str lt)]"
proof -
  have neq: "\<not> equivalent_strings ''authorization'' ''Content-Length''" by code_simp
  let ?r = "lambda_invocation_request c credentials region date fname payload ty lt ctx"
  obtain auth signature where hs: "ar_headers ?r = [(''authorization'', auth),
       (''content-length'', nat_to_string (length payload)), (''host'', lambda_endpoint region),
       (''x-amz-client-context'', ctx), (''x-amz-content-sha256'', sig_sha256 c payload), (''x-amz-date'', date),
       (''x-amz-invocation-type'', invocation_type_str ty), (''x-amz-log-type'', log_type_str lt)]"
    and auth: "auth = ''AWS4-HMAC-SHA256 Credential='' @ ac_access_key credentials @ ''/''
          @ take 8 date @ ''/'' @ region @ ''/lambda/aws4_request''
          @ '', SignedHeaders=content-length;host;x-amz-client-context;x-amz-date;x-amz-invocation-type;x-amz-log-type''
          @ '', Signature='' @ signature"
    by (simp add: lambda_invocation_request_def new_aws_request_def aws_header_def aws_sign_def sign_request_def
        lambda_headers credential_scope_def ALGORITHM_def Let_def)
  have r: "ar_first_line ?r = ''POST /2015-03-31/functions/'' @ fname @ ''/invocations HTTP/1.1''"
    "ar_contents ?r = payload"
    by (simp_all add: lambda_invocation_request_def new_aws_request_def aws_header_def aws_sign_def Let_def)
  have "to_http_request ?r = Inr \<lparr>hm_expected = (True, of_nat (length payload)), hm_first_line = ar_first_line ?r,
      hm_headers = map (\<lambda>(k, v). \<lparr>hh_key = k, hh_value = v\<rparr>) (ar_headers ?r), hm_body = payload, hm_state = COMPLETE\<rparr>"
    using to_http_request_post [of ?r "''authorization''" auth] assms neq by (simp add: r hs)
  with r hs auth show ?thesis by auto
qed

lemma lambda_request_signed_witness:
  "\<exists>m. to_http_request (lambda_invocation_request \<lparr>cr_sha256 = (\<lambda>s. s), cr_hmac = (\<lambda>k s. k)\<rparr>
        \<lparr>ac_access_key = ''ak'', ac_secret_key = ''sk'', ac_session_token = None\<rparr> ''us-east-1''
        ''20190101T000000Z'' ''f'' ''{}'' EVENT NONE ''e30='') = Inr m \<and> hm_body m = ''{}''"
  using lambda_request_signed [of "''{}''" "\<lparr>cr_sha256 = (\<lambda>s. s), cr_hmac = (\<lambda>k s. k)\<rparr>"
      "\<lparr>ac_access_key = ''ak'', ac_secret_key = ''sk'', ac_session_token = None\<rparr>" "''us-east-1''"
      "''20190101T000000Z''" "''f''" EVENT NONE "''e30=''"]
  by auto

end
