(* ===== verification/Engine.thy ===== *)
theory Engine
  imports Graph Aws
begin

text \<open>
  The execution engines (\<open>src/execution/engine*.cc\<close>, \<open>response.cc\<close>): what a worker's answer means, the
  requests the HTTP engines send, the calls they make when an answer, an error or the end of a child
  process comes in. The protobuf JSON parser, base64, SHA-256, HMAC and the readings of the clock are
  fields of \<open>world\<close>. The estimated cost of a job is a floating point number that is only displayed
  and is left out.
\<close>

section \<open>The answer of a worker\<close>

datatype job_status =
    Success | RateLimit | InvocationFailure | OperationalFailure | FetchDependenciesFailure
  | ExecutionFailure | UploadOutputFailure | SocketFailure | ChildProcessFailure
  | No_enumerator "32 word"

text \<open>\<open>static_cast<JobStatus>\<close> of the code in the message; values without an enumerator are kept.\<close>

definition job_status_of :: "32 word \<Rightarrow> job_status" where
  "job_status_of n =
     (let names = [Success, RateLimit, InvocationFailure, OperationalFailure, FetchDependenciesFailure,
                   ExecutionFailure, UploadOutputFailure, SocketFailure, ChildProcessFailure]
      in if unat n < length names then names ! unat n else No_enumerator n)"

record response_output =
  ro_tag :: string
  ro_hash :: string
  ro_size :: "32 word"
  ro_executable :: bool
  ro_data :: string

record pb_response_item =
  ri_thunk_hash :: string
  ri_outputs :: "response_output list"

record pb_execution_response =
  per_executed :: "pb_response_item list"
  per_return_code :: "32 word"
  per_stdout :: string

record execution_response =
  er_status :: job_status
  er_thunk_hash :: string
  er_outputs :: "response_output list"
  er_stdout :: string

definition parse_response ::
  "(string \<Rightarrow> pb_execution_response option) \<Rightarrow> string \<Rightarrow> execution_response res" where
  "parse_response from_json message =
     (let empty = \<lparr>er_status = Success, er_thunk_hash = [], er_outputs = [], er_stdout = []\<rparr>
      in case from_json message of
           None \<Rightarrow> Inr (empty\<lparr>er_status := OperationalFailure\<rparr>)
         | Some p \<Rightarrow>
             (let response = empty\<lparr>er_status := job_status_of (per_return_code p), er_stdout := per_stdout p\<rparr>
              in if er_status response \<noteq> Success then Inr response
                 else case per_executed p of
                        [item] \<Rightarrow> Inr (response\<lparr>er_outputs := ri_outputs item, er_thunk_hash := ri_thunk_hash item\<rparr>)
                      | _ \<Rightarrow> Inl (Runtime_error
                              ''current implementation only supports one thunk execution per response'')))"

section \<open>What the engines reach\<close>

record world =
  wd_sha256 :: "string \<Rightarrow> string"
  wd_encode :: "pb_thunk \<Rightarrow> string option"
  wd_decode :: "string \<Rightarrow> pb_thunk"
  wd_kernel :: kernel
  wd_gg_dir :: string
  wd_environ :: "string \<rightharpoonup> string"
  wd_base64_encode :: "string \<Rightarrow> string"
  wd_base64_decode :: "string \<Rightarrow> string"
  wd_to_json :: "execution_request \<Rightarrow> string option"
  wd_from_json :: "string \<Rightarrow> pb_execution_response option"
  wd_crypto :: crypto
  wd_credentials :: aws_credentials
  wd_region :: string
  wd_date :: "nat \<Rightarrow> string"
  wd_clock :: "nat \<Rightarrow> int"

abbreviation world_env :: "world \<Rightarrow> disk env" where
  "world_env w \<equiv> store_env (wd_sha256 w) (wd_encode w) (wd_decode w) (wd_kernel w) (wd_gg_dir w)"

definition world_payload :: "world \<Rightarrow> thunk \<Rightarrow> string res" where
  "world_payload w t =
     execution_payload (wd_sha256 w) (wd_encode w) (wd_base64_encode w) (wd_to_json w) (wd_environ w) [t]"

section \<open>The engines\<close>

datatype engine_kind =
    Local_engine bool
  | GG_engine
  | Lambda_engine
  | GCF_engine string string

text \<open>\<open>running_jobs_\<close> is a \<open>size_t\<close>; the identifiers in \<open>start_times_\<close> are those of open requests.\<close>

record engine =
  en_kind :: engine_kind
  en_max_jobs :: nat
  en_running :: "64 word"
  en_start_times :: "nat list"

definition make_engine :: "engine_kind \<Rightarrow> nat \<Rightarrow> engine res" where
  "make_engine kind max_jobs =
     (if max_jobs = 0 then Inl (Runtime_error ''max jobs cannot be zero'')
      else Inr \<lparr>en_kind = kind, en_max_jobs = max_jobs, en_running = 0, en_start_times = []\<rparr>)"

definition is_remote :: "engine_kind \<Rightarrow> bool" where
  "is_remote kind = (case kind of Local_engine mixed \<Rightarrow> mixed | _ \<Rightarrow> True)"

definition job_count :: "engine \<Rightarrow> nat" where
  "job_count e = unat (en_running e)"

definition MiB :: "64 word" where
  "MiB = 1024 * 1024"

definition can_execute :: "engine_kind \<Rightarrow> thunk \<Rightarrow> bool res" where
  "can_execute kind t =
     (case kind of
        Local_engine _ \<Rightarrow> Inr True
      | GG_engine \<Rightarrow> Inr True
      | Lambda_engine \<Rightarrow> bind_res (infiles_size True t) (\<lambda>s. Inr (s < 230 * MiB))
      | GCF_engine _ _ \<Rightarrow> bind_res (infiles_size True t) (\<lambda>s. Inr (s < 200 * MiB)))"

section \<open>Requests\<close>

text \<open>Both engines build their request the same way: the first line, the headers in order, the body.\<close>

definition build_request :: "string \<Rightarrow> http_header list \<Rightarrow> string \<Rightarrow> http_message res" where
  "build_request first_line headers payload =
     bind_res (set_first_line first_line new_request) (\<lambda>m.
     bind_res (fold_res add_header headers m) (\<lambda>m.
     bind_res (done_with_headers calculate_request m) (\<lambda>m.
     bind_res (read_in_body complex_body_request payload m) (\<lambda>(_, m).
     bind_res (assert_res (hm_state m = COMPLETE)) (\<lambda>_. Inr m)))))"

definition generate_request_gg :: "string \<Rightarrow> http_message res" where
  "generate_request_gg payload =
     build_request ''POST / HTTP/1.1''
       [\<lparr>hh_key = ''Content-Length'', hh_value = nat_to_string (length payload)\<rparr>,
        \<lparr>hh_key = ''Host'', hh_value = ''gg-run-server''\<rparr>] payload"

definition generate_request_gcf :: "string \<Rightarrow> string \<Rightarrow> string \<Rightarrow> http_message res" where
  "generate_request_gcf host path payload =
     build_request (''POST /'' @ path @ '' HTTP/1.1'')
       [\<lparr>hh_key = ''Host'', hh_value = host\<rparr>,
        \<lparr>hh_key = ''Content-Length'', hh_value = nat_to_string (length payload)\<rparr>,
        \<lparr>hh_key = ''Content-Type'', hh_value = ''application/json''\<rparr>] payload"

definition generate_request_lambda :: "world \<Rightarrow> nat \<Rightarrow> thunk \<Rightarrow> http_message res" where
  "generate_request_lambda w req_id t =
     (let function_name = (if wd_environ w ''GG_SPECIALIZED_FUNCTION'' = None then ''gg-lambda-function''
                           else ''gg-'' @ executable_hash (wd_sha256 w) t)
      in bind_res (world_payload w t) (\<lambda>payload.
           to_http_request (lambda_invocation_request (wd_crypto w) (wd_credentials w) (wd_region w)
             (wd_date w req_id) function_name payload REQUEST_RESPONSE NONE ''e30='')))"

definition engine_request :: "world \<Rightarrow> nat \<Rightarrow> engine_kind \<Rightarrow> thunk \<Rightarrow> http_message res" where
  "engine_request w req_id kind t =
     (case kind of
        Local_engine _ \<Rightarrow> Inl Assertion_failed
      | GG_engine \<Rightarrow> bind_res (world_payload w t) generate_request_gg
      | GCF_engine host path \<Rightarrow> bind_res (world_payload w t) (generate_request_gcf host path)
      | Lambda_engine \<Rightarrow> generate_request_lambda w req_id t)"

section \<open>Starting a job\<close>

text \<open>What the event loop knows of a job in flight: the tag and, for a child process, the outputs its
  callback has captured.\<close>

record flight =
  fl_hash :: string
  fl_outputs :: "string list"

text \<open>The engine's \<open>force_thunk\<close>; \<open>req_id\<close> is the identifier the loop gives out.\<close>

definition engine_force :: "world \<Rightarrow> nat \<Rightarrow> thunk \<Rightarrow> engine \<Rightarrow> (flight \<times> engine) res" where
  "engine_force w req_id t e =
     (case en_kind e of
        Local_engine _ \<Rightarrow>
          bind_res (thunk_hash (wd_sha256 w) (wd_encode w) t) (\<lambda>(h, _).
            Inr (\<lparr>fl_hash = h, fl_outputs = th_outputs t\<rparr>, e\<lparr>en_running := en_running e + 1\<rparr>))
      | _ \<Rightarrow>
          bind_res (engine_request w req_id (en_kind e) t) (\<lambda>request.
          bind_res (thunk_hash (wd_sha256 w) (wd_encode w) t) (\<lambda>(h, _).
          bind_res (message_str request) (\<lambda>_.
            Inr (\<lparr>fl_hash = h, fl_outputs = []\<rparr>,
                 e\<lparr>en_running := en_running e + 1,
                   en_start_times := (if en_kind e = GG_engine then en_start_times e
                                      else uset_insert req_id (en_start_times e))\<rparr>)))))"

section \<open>The end of a job\<close>

datatype job_event =
    Succeeded string "thunk_output list"
  | Failed string job_status

definition cached_output :: "world \<Rightarrow> disk \<Rightarrow> string \<Rightarrow> string \<Rightarrow> string \<Rightarrow> thunk_output res" where
  "cached_output w d msg h tag =
     bind_res (cache_check (wd_gg_dir w) (for_output h tag) d) (\<lambda>result.
       case result of
         None \<Rightarrow> Inl (Runtime_error msg)
       | Some r \<Rightarrow> Inr \<lparr>out_hash = r, out_tag = tag\<rparr>)"

text \<open>A child process has ended; the loop throws for a status other than 0 before the callback runs.\<close>

definition on_child_exit :: "world \<Rightarrow> flight \<Rightarrow> int \<Rightarrow> engine \<Rightarrow> disk \<Rightarrow> (job_event \<times> engine \<times> disk) res" where
  "on_child_exit w f status e d =
     (if status \<noteq> 0 then Inl (Runtime_error ''process exited with failure status'')
      else bind_res (map_res (cached_output w d ''could not find the reduction entry'' (fl_hash f)) (fl_outputs f))
             (\<lambda>outs. Inr (Succeeded (fl_hash f) outs, e\<lparr>en_running := en_running e - 1\<rparr>, d)))"

definition store_output :: "world \<Rightarrow> string \<Rightarrow> response_output \<Rightarrow> disk \<Rightarrow> disk res" where
  "store_output w h out d =
     bind_res (cache_insert (wd_kernel w) (wd_gg_dir w) (for_output h (ro_tag out)) (ro_hash out) d) (\<lambda>d1.
       if length (ro_data out) > 0
       then atomic_create (wd_kernel w) (wd_base64_decode w (ro_data out)) (blob (wd_gg_dir w) (ro_hash out)) None d1
       else Inr d1)"

definition store_outputs :: "world \<Rightarrow> execution_response \<Rightarrow> disk \<Rightarrow> disk res" where
  "store_outputs w response d =
     bind_res (fold_res (store_output w (er_thunk_hash response)) (er_outputs response) d) (\<lambda>d1.
       case er_outputs response of
         [] \<Rightarrow> Inl (Out_of_range ''vector::_M_range_check'')
       | out # _ \<Rightarrow> cache_insert (wd_kernel w) (wd_gg_dir w) (er_thunk_hash response) (ro_hash out) d1)"

definition response_outputs :: "execution_response \<Rightarrow> thunk_output list" where
  "response_outputs response = map (\<lambda>o'. \<lparr>out_hash = ro_hash o', out_tag = ro_tag o'\<rparr>) (er_outputs response)"

text \<open>From the parsing of the answer to the filled cache, the same lines in the three engines. For any
  status but \<open>Success\<close> nothing is stored.\<close>

definition take_answer ::
  "world \<Rightarrow> flight \<Rightarrow> http_response \<Rightarrow> disk \<Rightarrow> (execution_response \<times> disk) res" where
  "take_answer w f r d =
     bind_res (parse_response (wd_from_json w) (hm_body r)) (\<lambda>response.
       if er_status response \<noteq> Success then Inr (response, d)
       else if er_thunk_hash response \<noteq> fl_hash f
       then Inl (Runtime_error (''expected output for '' @ fl_hash f @ '', got output for ''
                  @ er_thunk_hash response))
       else bind_res (store_outputs w response d) (\<lambda>d1. Inr (response, d1)))"

definition on_response_gg ::
  "world \<Rightarrow> flight \<Rightarrow> http_response \<Rightarrow> engine \<Rightarrow> disk \<Rightarrow> (job_event \<times> engine \<times> disk) res" where
  "on_response_gg w f r e d =
     (let e1 = e\<lparr>en_running := en_running e - 1\<rparr>
      in bind_res (status_code r) (\<lambda>code.
           if code \<noteq> ''200'' then Inr (Failed (fl_hash f) InvocationFailure, e1, d)
           else bind_res (take_answer w f r d) (\<lambda>(response, d1).
             if er_status response = Success
             then Inr (Succeeded (er_thunk_hash response) (response_outputs response), e1, d1)
             else Inr (Failed (fl_hash f) (er_status response), e1, d1))))"

text \<open>The end of the other two: \<open>start_times_.at( id )\<close> for the cost, then the entry is erased.\<close>

definition report_timed ::
  "nat \<Rightarrow> flight \<Rightarrow> execution_response \<Rightarrow> engine \<Rightarrow> disk \<Rightarrow> (job_event \<times> engine \<times> disk) res" where
  "report_timed req_id f response e d =
     (if er_status response \<noteq> Success then Inr (Failed (fl_hash f) (er_status response), e, d)
      else if req_id \<notin> set (en_start_times e) then Inl (Out_of_range ''map::at'')
      else Inr (Succeeded (er_thunk_hash response) (response_outputs response),
                e\<lparr>en_start_times := removeAll req_id (en_start_times e)\<rparr>, d))"

definition on_response_lambda ::
  "world \<Rightarrow> nat \<Rightarrow> flight \<Rightarrow> http_response \<Rightarrow> engine \<Rightarrow> disk \<Rightarrow> (job_event \<times> engine \<times> disk) res" where
  "on_response_lambda w req_id f r e d =
     (let e1 = e\<lparr>en_running := en_running e - 1\<rparr>
      in bind_res (status_code r) (\<lambda>code.
           if code \<noteq> ''200'' then
             bind_res
               (if code = ''429'' then Inr True
                else if code = ''500'' \<and> has_header ''x-amzn-ErrorType'' r
                then bind_res (get_header_value ''x-amzn-ErrorType'' r) (\<lambda>v. Inr (v = ''ServiceException''))
                else Inr False)
               (\<lambda>limited. Inr (Failed (fl_hash f) (if limited then RateLimit else InvocationFailure), e1, d))
           else bind_res (take_answer w f r d) (\<lambda>(response, d1). report_timed req_id f response e1 d1)))"

definition on_response_gcf ::
  "world \<Rightarrow> nat \<Rightarrow> flight \<Rightarrow> http_response \<Rightarrow> engine \<Rightarrow> disk \<Rightarrow> (job_event \<times> engine \<times> disk) res" where
  "on_response_gcf w req_id f r e d =
     (let e1 = e\<lparr>en_running := en_running e - 1\<rparr>
      in bind_res (status_code r) (\<lambda>code.
           if code \<noteq> ''200'' then
             bind_res (message_str r) (\<lambda>_. Inr (Failed (fl_hash f) ExecutionFailure, e1, d))
           else bind_res (take_answer w f r d) (\<lambda>(response, d1). report_timed req_id f response e1 d1)))"

definition on_response ::
  "world \<Rightarrow> nat \<Rightarrow> flight \<Rightarrow> http_response \<Rightarrow> engine \<Rightarrow> disk \<Rightarrow> (job_event \<times> engine \<times> disk) res" where
  "on_response w req_id f r e d =
     (case en_kind e of
        Lambda_engine \<Rightarrow> on_response_lambda w req_id f r e d
      | GCF_engine _ _ \<Rightarrow> on_response_gcf w req_id f r e d
      | _ \<Rightarrow> on_response_gg w f r e d)"

text \<open>A socket error: the job is reported, but \<open>running_jobs_\<close> is left as it is.\<close>

definition on_socket_error :: "nat \<Rightarrow> flight \<Rightarrow> engine \<Rightarrow> job_event \<times> engine" where
  "on_socket_error req_id f e =
     (Failed (fl_hash f) SocketFailure, e\<lparr>en_start_times := removeAll req_id (en_start_times e)\<rparr>)"

end
