(* ===== verification/EngineLaws.thy ===== *)
theory EngineLaws
  imports Engine
begin

text \<open>
  What the engines promise: the request a worker reads is the one that was built, and an answer that is
  taken leaves in the cache what later rounds of the scheduler look up.
\<close>

section \<open>The request of the execute server\<close>

lemma calculate_gg:
  assumes "length payload < 2 ^ 63"
    and "hm_first_line m = ''POST / HTTP/1.1''" and "hm_state m = BODY_PENDING"
    and "hm_headers m = [\<lparr>hh_key = ''Content-Length'', hh_value = nat_to_string (length payload)\<rparr>, h]"
  shows "calculate_request m = Inr (m\<lparr>hm_expected := (True, of_nat (length payload))\<rparr>)"
proof -
  have eq: "equivalent_strings ''Content-Length'' ''Content-Length''" by code_simp
  show ?thesis
    using assms eq
    by (simp add: calculate_request_def has_header_def get_header_value_def strict_atoi_nat
        set_expected_body_size_def)
qed

lemma nat_to_string_header:
  "nat_to_string n \<noteq> []" "hd (nat_to_string n) \<noteq> CHR '' ''" "CHR 0x0D \<notin> set (nat_to_string n)"
proof -
  show ne: "nat_to_string n \<noteq> []" by (simp add: nat_to_string_def)
  have "CHR '' '' \<notin> set (nat_to_string n)" by (rule numeral_no_char) (simp add: digit_val_def)
  with ne show "hd (nat_to_string n) \<noteq> CHR '' ''" by (metis hd_in_set)
  show "CHR 0x0D \<notin> set (nat_to_string n)" by (rule numeral_no_char) (simp add: digit_val_def)
qed

definition gg_message :: "string \<Rightarrow> http_message" where
  "gg_message payload = \<lparr>hm_expected = (True, of_nat (length payload)),
     hm_first_line = ''POST / HTTP/1.1'',
     hm_headers = [\<lparr>hh_key = ''Content-Length'', hh_value = nat_to_string (length payload)\<rparr>,
                   \<lparr>hh_key = ''Host'', hh_value = ''gg-run-server''\<rparr>],
     hm_body = payload, hm_state = COMPLETE\<rparr>"

lemma generate_request_gg_message:
  assumes "length payload < 2 ^ 63"
  shows "generate_request_gg payload = Inr (gg_message payload)"
proof -
  have small: "unat (word_of_nat (length payload) :: 64 word) = length payload"
    using assms by (simp add: unat_of_nat take_bit_nat_eq_self)
  show ?thesis
    unfolding generate_request_gg_def build_request_def
    by (simp add: set_first_line_def new_request_def add_header_def done_with_headers_def
        calculate_gg [OF assms] read_in_body_def body_size_is_known_def expected_body_size_def small
        less_http_state_def gg_message_def Let_def)
qed

lemma content_length_wire:
  "wire_header \<lparr>hh_key = ''Content-Length'', hh_value = nat_to_string n\<rparr>"
proof -
  let ?h = "\<lparr>hh_key = ''Content-Length'', hh_value = nat_to_string n\<rparr>"
  have "find_sub CRLF (header_str ?h) = None"
    using nat_to_string_header(3) by (intro find_CRLF_free) (auto simp: header_str_def)
  then show ?thesis using nat_to_string_header by (simp add: wire_header_def)
qed

lemma gg_message_wire:
  assumes "length payload < 2 ^ 63"
  shows "wire_request (gg_message payload)"
proof -
  have "find_sub CRLF (hm_first_line (gg_message payload)) = None"
    by (simp add: gg_message_def) code_simp
  moreover have "wire_header \<lparr>hh_key = ''Host'', hh_value = ''gg-run-server''\<rparr>" by code_simp
  ultimately show ?thesis
    using assms content_length_wire by (simp add: wire_request_def) (simp add: gg_message_def calculate_gg [OF assms])
qed

text \<open>The request the gg engine builds for a payload is complete and carries the payload as its body,
  and the parser of the execute server gets back that very request from its bytes, however they are
  cut on the way.\<close>

lemma gg_request_read_back:
  assumes "length payload < 2 ^ 63"
  shows "\<exists>m bytes. generate_request_gg payload = Inr m \<and> hm_body m = payload \<and> message_str m = Inr bytes \<and>
    (\<forall>segs. concat segs = bytes \<and> (\<forall>x \<in> set segs. x \<noteq> []) \<longrightarrow>
       fold_res (parse_http request_class) segs (new_sequence request_class ()) =
         Inr \<lparr>sq_buffer = [], sq_complete = [m], sq_current = new_request, sq_sub = ()\<rparr>)"
proof -
  let ?m = "gg_message payload"
  obtain bytes where bytes: "message_str ?m = Inr bytes" "bytes \<noteq> []"
    by (simp add: message_str_def gg_message_def)
  have "fold_res (parse_http request_class) segs (new_sequence request_class ()) =
      Inr \<lparr>sq_buffer = [], sq_complete = [?m], sq_current = new_request, sq_sub = ()\<rparr>"
    if "concat segs = bytes" "\<forall>x \<in> set segs. x \<noteq> []" for segs
    using requests_read_back [of "[?m]" "[bytes]" segs] gg_message_wire [OF assms] bytes that by auto
  then show ?thesis
    using generate_request_gg_message [OF assms] bytes(1) by (auto simp: gg_message_def)
qed

lemma gg_request_read_back_witness:
  "\<exists>m bytes. generate_request_gg ''{}'' = Inr m \<and> hm_body m = ''{}'' \<and> message_str m = Inr bytes \<and>
    fold_res (parse_http request_class) (map (\<lambda>c. [c]) bytes) (new_sequence request_class ()) =
         Inr \<lparr>sq_buffer = [], sq_complete = [m], sq_current = new_request, sq_sub = ()\<rparr>"
proof -
  obtain m bytes where m: "generate_request_gg ''{}'' = Inr m" "hm_body m = ''{}''" "message_str m = Inr bytes"
    and all: "\<forall>segs. concat segs = bytes \<and> (\<forall>x \<in> set segs. x \<noteq> []) \<longrightarrow>
       fold_res (parse_http request_class) segs (new_sequence request_class ()) =
         Inr \<lparr>sq_buffer = [], sq_complete = [m], sq_current = new_request, sq_sub = ()\<rparr>"
    using gg_request_read_back [of "''{}''"] by auto
  have "concat (map (\<lambda>c. [c]) bytes) = bytes" by (induction bytes) simp_all
  with all m show ?thesis by fastforce
qed

section \<open>Answers and the cache\<close>

lemma blob_not_reduction:
  "cache_key_ok a \<Longrightarrow> cache_key_ok b \<Longrightarrow> blob gg_dir a \<noteq> reduction gg_dir b"
  by (auto simp: blob_def reduction_def blobs_def reductions_def path_append_def cache_key_ok_def)

text \<open>Keys and results are hashes: no absolute paths, and results of full length.\<close>

definition answer_ok :: "execution_response \<Rightarrow> bool" where
  "answer_ok response \<longleftrightarrow> cache_key_ok (er_thunk_hash response) \<and> er_outputs response \<noteq> [] \<and>
     (\<forall>out \<in> set (er_outputs response). cache_key_ok (ro_hash out) \<and> length (ro_hash out) = hash_length) \<and>
     distinct (map ro_tag (er_outputs response))"

lemma for_output_key [simp]: "cache_key_ok h \<Longrightarrow> cache_key_ok (for_output h tag)"
  by (cases h) (simp_all add: cache_key_ok_def for_output_def)

lemma for_output_same [simp]: "for_output h a = for_output h b \<longleftrightarrow> a = b"
  by (simp add: for_output_def)

lemma for_output_neq [simp]: "for_output h a \<noteq> h" "h \<noteq> for_output h a"
  by (simp_all add: for_output_def)

lemma store_output_disk:
  assumes "store_output w h out d = Inr d'" and "cache_key_ok h" and "cache_key_ok (ro_hash out)"
    and "cache_key_ok c"
  shows "d' (reduction (wd_gg_dir w) c) =
    (if c = for_output h (ro_tag out) then Some (Regular (ro_hash out) (final_mode None))
     else d (reduction (wd_gg_dir w) c))"
proof -
  let ?key = "reduction (wd_gg_dir w) (for_output h (ro_tag out))"
  from assms(1) obtain d1 where
    d1: "cache_insert (wd_kernel w) (wd_gg_dir w) (for_output h (ro_tag out)) (ro_hash out) d = Inr d1"
    and rest: "(if length (ro_data out) > 0
       then atomic_create (wd_kernel w) (wd_base64_decode w (ro_data out)) (blob (wd_gg_dir w) (ro_hash out)) None d1
       else Inr d1) = Inr d'"
    unfolding store_output_def by (rule bind_resE)
  note e1 = cache_insert_disk [OF d1]
  have "d' (reduction (wd_gg_dir w) c) = d1 (reduction (wd_gg_dir w) c)"
    using rest blob_not_reduction [OF assms(3,4), of "wd_gg_dir w"]
    by (auto split: if_splits dest!: atomic_create_Inr)
  then show ?thesis
    using assms(2,4) by (simp add: e1 reduction_inj)
qed

lemma store_output_loop:
  assumes "fold_res (store_output w h) outs d = Inr d'" and "cache_key_ok h"
    and "\<forall>out \<in> set outs. cache_key_ok (ro_hash out)" and "distinct (map ro_tag outs)" and "cache_key_ok c"
  shows "d' (reduction (wd_gg_dir w) c) =
    (case map_of (map (\<lambda>out. (for_output h (ro_tag out), ro_hash out)) outs) c of
       Some r \<Rightarrow> Some (Regular r (final_mode None)) | None \<Rightarrow> d (reduction (wd_gg_dir w) c))"
  using assms(1,3,4)
proof (induction outs arbitrary: d)
  case Nil
  then show ?case by simp
next
  case (Cons out outs)
  from Cons.prems(1) obtain d1 where 1: "store_output w h out d = Inr d1"
    and rest: "fold_res (store_output w h) outs d1 = Inr d'" by auto
  from Cons.prems have "cache_key_ok (ro_hash out)" by simp
  note one = store_output_disk [OF 1 assms(2) this assms(5)]
  from Cons.prems(3) have fresh: "map_of (map (\<lambda>out. (for_output h (ro_tag out), ro_hash out)) outs)
      (for_output h (ro_tag out)) = None"
    by (auto simp: map_of_eq_None_iff)
  from Cons.IH [OF rest] Cons.prems one fresh show ?case
    by (auto split: option.splits)
qed

text \<open>What is stored is found: each output under its tag, the first one under the thunk itself.\<close>

lemma store_outputs_cache:
  assumes store: "store_outputs w response d = Inr d'" and keys: "answer_ok response"
  shows "cache_check (wd_gg_dir w) (er_thunk_hash response) d' = Inr (Some (ro_hash (hd (er_outputs response))))"
    and "out \<in> set (er_outputs response) \<Longrightarrow>
      cache_check (wd_gg_dir w) (for_output (er_thunk_hash response) (ro_tag out)) d' = Inr (Some (ro_hash out))"
proof -
  let ?h = "er_thunk_hash response"
  let ?m = "map (\<lambda>out. (for_output ?h (ro_tag out), ro_hash out)) (er_outputs response)"
  from keys obtain out1 outs where outs: "er_outputs response = out1 # outs"
    by (cases "er_outputs response") (auto simp: answer_ok_def)
  from store obtain d1 where loop: "fold_res (store_output w ?h) (er_outputs response) d = Inr d1"
    and main: "cache_insert (wd_kernel w) (wd_gg_dir w) ?h (ro_hash out1) d1 = Inr d'"
    unfolding store_outputs_def by (rule bind_resE) (simp add: outs)
  have key: "cache_key_ok ?h" and len: "\<forall>out \<in> set (er_outputs response). length (ro_hash out) = hash_length"
    and oks: "\<forall>out \<in> set (er_outputs response). cache_key_ok (ro_hash out)"
    and dist: "distinct (map ro_tag (er_outputs response))"
    using keys by (auto simp: answer_ok_def)
  note eff = cache_insert_disk [OF main]
  show "cache_check (wd_gg_dir w) ?h d' = Inr (Some (ro_hash (hd (er_outputs response))))"
    using len by (simp add: eff outs cache_check_def read_prefix_def)
  assume out: "out \<in> set (er_outputs response)"
  have "distinct (map fst ?m)"
    using dist by (simp add: comp_def distinct_map inj_on_def)
  with out have "map_of ?m (for_output ?h (ro_tag out)) = Some (ro_hash out)"
    by (intro map_of_is_SomeI) auto
  with store_output_loop [OF loop key oks dist, of "for_output ?h (ro_tag out)"] key
  have "d1 (reduction (wd_gg_dir w) (for_output ?h (ro_tag out))) = Some (Regular (ro_hash out) (final_mode None))"
    by simp
  with key len out show "cache_check (wd_gg_dir w) (for_output ?h (ro_tag out)) d' = Inr (Some (ro_hash out))"
    by (simp add: eff cache_check_def read_prefix_def reduction_inj)
qed

lemma take_answer_cache:
  assumes run: "take_answer w f r d = Inr (response, d')" and ok: "er_status response = Success"
    and keys: "answer_ok response"
  shows "er_thunk_hash response = fl_hash f"
    and "cache_check (wd_gg_dir w) (fl_hash f) d' = Inr (Some (ro_hash (hd (er_outputs response))))"
    and "out \<in> set (er_outputs response) \<Longrightarrow>
      cache_check (wd_gg_dir w) (for_output (fl_hash f) (ro_tag out)) d' = Inr (Some (ro_hash out))"
proof -
  from run ok show h: "er_thunk_hash response = fl_hash f"
    by (auto simp: take_answer_def split: if_splits)
  from run ok have "store_outputs w response d = Inr d'"
    by (auto simp: take_answer_def split: if_splits)
  note store_outputs_cache [OF this keys, unfolded h]
  then show "cache_check (wd_gg_dir w) (fl_hash f) d' = Inr (Some (ro_hash (hd (er_outputs response))))"
    and "out \<in> set (er_outputs response) \<Longrightarrow>
      cache_check (wd_gg_dir w) (for_output (fl_hash f) (ro_tag out)) d' = Inr (Some (ro_hash out))" by blast+
qed

end
