(* ===== verification/Reductor.thy ===== *)
theory Reductor
  imports Engine GraphForce "HOL-Library.Signed_Division"
begin

text \<open>
  The scheduler (\<open>src/execution/reductor.cc\<close>) on top of the event loop (\<open>loop.cc\<close>): thunks that can
  run wait in \<open>job_queue_\<close>, go to an engine or are answered from the cache, and their results are put
  into the graph until every target is a value. One round of \<open>reduce\<close> empties the queue as far as
  the engines allow, lets the loop deliver what has happened, and looks for jobs that take too long.
  Times are integers, nanoseconds for points in time and milliseconds for timeouts; a call of
  \<open>Clock::now\<close> takes the next reading of \<open>wd_clock\<close>. The status line and the estimated cost are left
  out. The loops over the queue and along the cache carry fuel.
\<close>

section \<open>State\<close>

record job_info =
  ji_start :: int
  ji_timeout :: int
  ji_restarts :: "8 word"

datatype slot = Primary nat | Fallback nat

text \<open>\<open>rd_flights\<close> is what the loop holds: the connections and child processes by their number, with
  the engine that owns the callbacks.\<close>

record reductor =
  rd_targets :: "string list"
  rd_remaining :: "string list"
  rd_graph :: graph
  rd_queue :: "string list"
  rd_running :: "(string \<times> job_info) list"
  rd_finished :: nat
  rd_default_timeout :: int
  rd_multiplier :: int
  rd_next_check :: int
  rd_engines :: "engine list"
  rd_fallbacks :: "engine list"
  rd_flights :: "(nat \<times> slot \<times> flight) list"
  rd_next_id :: nat
  rd_disk :: disk
  rd_ticks :: nat

definition timeout_check_interval :: "reductor \<Rightarrow> int" where
  "timeout_check_interval rd = rd_default_timeout rd sdiv 2"

definition clock_now :: "world \<Rightarrow> reductor \<Rightarrow> int \<times> reductor" where
  "clock_now w rd = (wd_clock w (rd_ticks rd), rd\<lparr>rd_ticks := rd_ticks rd + 1\<rparr>)"

definition is_finished :: "reductor \<Rightarrow> bool" where
  "is_finished rd \<longleftrightarrow> length (rd_remaining rd) = 0"

section \<open>Construction\<close>

definition new_reductor ::
  "world \<Rightarrow> string list \<Rightarrow> engine list \<Rightarrow> engine list \<Rightarrow> int \<Rightarrow> int \<Rightarrow> disk \<Rightarrow> reductor" where
  "new_reductor w target_hashes engines fallbacks default_timeout multiplier d =
     \<lparr>rd_targets = target_hashes, rd_remaining = [], rd_graph = empty_graph, rd_queue = [],
      rd_running = [], rd_finished = 0, rd_default_timeout = default_timeout,
      rd_multiplier = multiplier,
      rd_next_check = wd_clock w 0 + (default_timeout sdiv 2) * 1000000,
      rd_engines = engines, rd_fallbacks = fallbacks, rd_flights = [], rd_next_id = 0, rd_disk = d,
      rd_ticks = 1\<rparr>"

definition add_target :: "world \<Rightarrow> nat \<Rightarrow> string \<Rightarrow> reductor \<Rightarrow> reductor res" where
  "add_target w n h rd =
     bind_res (add_thunk n (env_read (world_env w) (rd_disk rd)) h (rd_graph rd)) (\<lambda>(inserted_hash, g).
       if inserted_hash \<in> set (rd_remaining rd) then Inr (rd\<lparr>rd_graph := g\<rparr>)
       else bind_res (order_one_dependencies n g h) (\<lambda>o1_deps.
              Inr (rd\<lparr>rd_graph := g, rd_remaining := rd_remaining rd @ [inserted_hash],
                      rd_queue := rd_queue rd @ o1_deps\<rparr>)))"

definition construct_reductor ::
  "world \<Rightarrow> nat \<Rightarrow> string list \<Rightarrow> engine list \<Rightarrow> engine list \<Rightarrow> int \<Rightarrow> int \<Rightarrow> disk \<Rightarrow> reductor res" where
  "construct_reductor w n target_hashes engines fallbacks default_timeout multiplier d =
     bind_res
       (fold_res (add_target w n) target_hashes
         (new_reductor w target_hashes engines fallbacks default_timeout multiplier d))
       (\<lambda>rd. if length engines = 0 then Inl (Runtime_error ''no execution engines are available'')
             else Inr rd)"

section \<open>The end of a job\<close>

definition failure_callback :: "string \<Rightarrow> job_status \<Rightarrow> reductor \<Rightarrow> reductor res" where
  "failure_callback old_hash failure_reason rd =
     (case failure_reason of
        ExecutionFailure \<Rightarrow> Inl (Runtime_error (''execution failed: '' @ old_hash))
      | Success \<Rightarrow> Inl (Runtime_error (''execution failed for an unknown reason: '' @ old_hash))
      | No_enumerator _ \<Rightarrow> Inl (Runtime_error (''execution failed for an unknown reason: '' @ old_hash))
      | _ \<Rightarrow> Inr (rd\<lparr>rd_queue := rd_queue rd @ [old_hash]\<rparr>))"

definition erase_running :: "string \<Rightarrow> reductor \<Rightarrow> reductor" where
  "erase_running h rd = rd\<lparr>rd_running := filter (\<lambda>p. fst p \<noteq> h) (rd_running rd)\<rparr>"

definition finalize_execution ::
  "world \<Rightarrow> nat \<Rightarrow> string \<Rightarrow> thunk_output list \<Rightarrow> reductor \<Rightarrow> reductor res" where
  "finalize_execution w n old_hash outputs rd0 =
     (let rd = erase_running old_hash rd0
      in case outputs of
           [] \<Rightarrow> Inl (Out_of_range ''vector::_M_range_check'')
         | out # _ \<Rightarrow>
             bind_res (force_thunk n (world_env w) old_hash outputs (rd_graph rd) (rd_disk rd))
               (\<lambda>(new_o1s, g, d).
                 case new_o1s of
                   None \<Rightarrow> Inr (rd\<lparr>rd_graph := g, rd_disk := d\<rparr>)
                 | Some o1s \<Rightarrow>
                     bind_res (hash_type (out_hash out)) (\<lambda>ty.
                       Inr (rd\<lparr>rd_graph := g, rd_disk := d, rd_queue := rd_queue rd @ o1s,
                              rd_remaining := (if ty = Value
                                               then removeAll (original_hash g old_hash) (rd_remaining rd)
                                               else rd_remaining rd),
                              rd_finished := rd_finished rd + 1\<rparr>))))"

section \<open>Starting jobs\<close>

text \<open>Following the cache from a hash until there is no entry; a chain that returns to itself is
  followed for ever.\<close>

fun cache_chain :: "nat \<Rightarrow> world \<Rightarrow> string \<Rightarrow> string option \<Rightarrow> disk \<Rightarrow> string option res" where
  "cache_chain 0 w h entry d = Inl Out_of_fuel"
| "cache_chain (Suc k) w h entry d =
     bind_res (cache_check (wd_gg_dir w) (case entry of Some r \<Rightarrow> r | None \<Rightarrow> h) d) (\<lambda>temp_entry.
       case temp_entry of
         Some r \<Rightarrow> cache_chain k w h (Some r) d
       | None \<Rightarrow> Inr entry)"

definition cached_outputs :: "nat \<Rightarrow> world \<Rightarrow> string \<Rightarrow> disk \<Rightarrow> thunk_output list option res" where
  "cached_outputs k w h d =
     bind_res (cache_chain k w h None d) (\<lambda>cache_entry.
       case cache_entry of
         None \<Rightarrow> Inr None
       | Some _ \<Rightarrow>
           bind_res (env_read (world_env w) d h) (\<lambda>t.
           bind_res (map_res (cached_output w d ''inconsistent cache entries'' h) (th_outputs t)) (\<lambda>outs.
             Inr (Some outs))))"

datatype exec_state = CANNOT_BE_EXECUTED | FULL_CAPACITY | FULL_FALLBACK_CAPACITY | EXECUTING

text \<open>One loop over a list of engines. The first engine that accepts the thunk and has room takes it;
  \<open>full\<close> is the state that says that some engine had no room.\<close>

fun try_engines ::
  "world \<Rightarrow> exec_state \<Rightarrow> nat \<Rightarrow> thunk \<Rightarrow> exec_state \<Rightarrow> engine list \<Rightarrow>
     (exec_state \<times> (nat \<times> flight) option \<times> engine list) res" where
  "try_engines w full req_id t st [] = Inr (st, None, [])"
| "try_engines w full req_id t st (e # es) =
     bind_res (can_execute (en_kind e) t) (\<lambda>able.
       if able \<and> job_count e < en_max_jobs e then
         bind_res (engine_force w req_id t e) (\<lambda>(f, e'). Inr (EXECUTING, Some (0, f), e' # es))
       else
         bind_res (try_engines w full req_id t (if able then full else st) es) (\<lambda>(st', started, es').
           Inr (st', map_option (\<lambda>(i, f). (Suc i, f)) started, e # es')))"

definition start_job :: "world \<Rightarrow> thunk \<Rightarrow> reductor \<Rightarrow> (exec_state \<times> reductor) res" where
  "start_job w t rd =
     bind_res (try_engines w FULL_CAPACITY (rd_next_id rd) t CANNOT_BE_EXECUTED (rd_engines rd))
       (\<lambda>(st, started, es).
         case started of
           Some (i, f) \<Rightarrow>
             Inr (st, rd\<lparr>rd_engines := es, rd_flights := rd_flights rd @ [(rd_next_id rd, Primary i, f)],
                         rd_next_id := rd_next_id rd + 1\<rparr>)
         | None \<Rightarrow>
             (if st \<noteq> CANNOT_BE_EXECUTED then Inr (st, rd)
              else bind_res
                (try_engines w FULL_FALLBACK_CAPACITY (rd_next_id rd) t CANNOT_BE_EXECUTED (rd_fallbacks rd))
                (\<lambda>(st, started, fs).
                  case started of
                    Some (i, f) \<Rightarrow>
                      Inr (st, rd\<lparr>rd_fallbacks := fs,
                                  rd_flights := rd_flights rd @ [(rd_next_id rd, Fallback i, f)],
                                  rd_next_id := rd_next_id rd + 1\<rparr>)
                  | None \<Rightarrow> Inr (st, rd))))"

text \<open>\<open>running_jobs_[ thunk_hash ]\<close>: the entry that is there, or a new one whose counter is the
  greatest number, so that the first increment makes it 0.\<close>

definition job_entry :: "string \<Rightarrow> reductor \<Rightarrow> job_info" where
  "job_entry h rd =
     (case map_of (rd_running rd) h of
        Some info \<Rightarrow> info
      | None \<Rightarrow> \<lparr>ji_start = 0, ji_timeout = 0, ji_restarts = 255\<rparr>)"

definition put_running :: "string \<Rightarrow> job_info \<Rightarrow> reductor \<Rightarrow> reductor" where
  "put_running h info rd =
     rd\<lparr>rd_running := (if map_of (rd_running rd) h = None then rd_running rd @ [(h, info)]
                       else map (\<lambda>p. if fst p = h then (h, info) else p) (rd_running rd))\<rparr>"

definition note_running :: "world \<Rightarrow> string \<Rightarrow> thunk \<Rightarrow> reductor \<Rightarrow> reductor" where
  "note_running w h t rd0 =
     (let (now, rd) = clock_now w rd0;
          timeout = th_timeout t * rd_multiplier rd
      in put_running h
           \<lparr>ji_start = now, ji_timeout = (if timeout = 0 then rd_default_timeout rd else timeout),
            ji_restarts = ji_restarts (job_entry h rd) + 1\<rparr> rd)"

text \<open>One round of the inner loop, for the thunk at the front of the queue; the flag says whether the
  loop goes on (it stops when every engine that could run the thunk is busy).\<close>

definition dispatch_front :: "world \<Rightarrow> nat \<Rightarrow> nat \<Rightarrow> reductor \<Rightarrow> (bool \<times> reductor) res" where
  "dispatch_front w n k rd0 =
     (case rd_queue rd0 of
        [] \<Rightarrow> Inl Undefined_behaviour
      | h # queue \<Rightarrow>
          let rd = rd0\<lparr>rd_queue := queue\<rparr>
          in bind_res (cached_outputs k w h (rd_disk rd)) (\<lambda>cached.
               case cached of
                 Some outputs \<Rightarrow>
                   bind_res (finalize_execution w n h outputs rd) (\<lambda>rd'. Inr (True, rd'))
               | None \<Rightarrow>
                   bind_res (at_key (g_thunks (rd_graph rd)) h) (\<lambda>t.
                   bind_res (start_job w t rd) (\<lambda>(st, rd').
                     if st = EXECUTING then Inr (True, note_running w h t rd')
                     else if st = FULL_CAPACITY \<or> st = FULL_FALLBACK_CAPACITY
                     then Inr (False, rd'\<lparr>rd_queue := h # rd_queue rd'\<rparr>)
                     else Inl (Runtime_error (''no execution engine could execute '' @ h))))))"

fun drain_queue :: "nat \<Rightarrow> world \<Rightarrow> nat \<Rightarrow> nat \<Rightarrow> reductor \<Rightarrow> reductor res" where
  "drain_queue 0 w n k rd = (if rd_queue rd = [] then Inr rd else Inl Out_of_fuel)"
| "drain_queue (Suc m) w n k rd =
     (if rd_queue rd = [] then Inr rd
      else bind_res (dispatch_front w n k rd) (\<lambda>(continue, rd').
             if continue then drain_queue m w n k rd' else Inr rd'))"

section \<open>What the loop delivers\<close>

text \<open>A child process that ended, a complete answer, an error of the socket, and a connection that the
  other side closed before the answer was complete. In the last case the loop removes the connection
  and calls neither callback.\<close>

datatype loop_event =
    Child_exit nat int
  | Response_arrived nat http_response
  | Socket_error nat
  | Peer_closed nat

fun event_id :: "loop_event \<Rightarrow> nat" where
  "event_id (Child_exit i _) = i"
| "event_id (Response_arrived i _) = i"
| "event_id (Socket_error i) = i"
| "event_id (Peer_closed i) = i"

definition slot_engine :: "slot \<Rightarrow> reductor \<Rightarrow> engine" where
  "slot_engine s rd = (case s of Primary i \<Rightarrow> rd_engines rd ! i | Fallback i \<Rightarrow> rd_fallbacks rd ! i)"

definition set_slot_engine :: "slot \<Rightarrow> engine \<Rightarrow> reductor \<Rightarrow> reductor" where
  "set_slot_engine s e rd =
     (case s of Primary i \<Rightarrow> rd\<lparr>rd_engines := (rd_engines rd)[i := e]\<rparr>
      | Fallback i \<Rightarrow> rd\<lparr>rd_fallbacks := (rd_fallbacks rd)[i := e]\<rparr>)"

text \<open>The engine's callback, up to its call of the scheduler. Events only come for what is in flight.\<close>

definition deliver :: "world \<Rightarrow> loop_event \<Rightarrow> reductor \<Rightarrow> (job_event option \<times> reductor) res" where
  "deliver w ev rd0 =
     (case map_of (rd_flights rd0) (event_id ev) of
        None \<Rightarrow> Inr (None, rd0)
      | Some (s, f) \<Rightarrow>
          let rd = rd0\<lparr>rd_flights := filter (\<lambda>p. fst p \<noteq> event_id ev) (rd_flights rd0)\<rparr>;
              e = slot_engine s rd
          in (case ev of
                Child_exit _ status \<Rightarrow>
                  bind_res (on_child_exit w f status e (rd_disk rd)) (\<lambda>(je, e', d).
                    Inr (Some je, set_slot_engine s e' (rd\<lparr>rd_disk := d\<rparr>)))
              | Response_arrived req_id r \<Rightarrow>
                  bind_res (on_response w req_id f r e (rd_disk rd)) (\<lambda>(je, e', d).
                    Inr (Some je, set_slot_engine s e' (rd\<lparr>rd_disk := d\<rparr>)))
              | Socket_error req_id \<Rightarrow>
                  (case on_socket_error req_id f e of
                     (je, e') \<Rightarrow> Inr (Some je, set_slot_engine s e' rd))
              | Peer_closed _ \<Rightarrow> Inr (None, rd)))"

definition handle_event :: "world \<Rightarrow> nat \<Rightarrow> loop_event \<Rightarrow> reductor \<Rightarrow> reductor res" where
  "handle_event w n ev rd =
     bind_res (deliver w ev rd) (\<lambda>(je, rd').
       case je of
         None \<Rightarrow> Inr rd'
       | Some (Succeeded h outputs) \<Rightarrow> finalize_execution w n h outputs rd'
       | Some (Failed h reason) \<Rightarrow> failure_callback h reason rd')"

section \<open>Timeouts\<close>

definition overdue :: "int \<Rightarrow> job_info \<Rightarrow> bool" where
  "overdue now info \<longleftrightarrow> ji_timeout info \<noteq> 0 \<and> now - ji_start info > ji_timeout info * 1000000"

definition back_off :: "int \<Rightarrow> job_info \<Rightarrow> job_info" where
  "back_off now info =
     info\<lparr>ji_start := now, ji_timeout := ji_timeout info + uint (ji_restarts info) * ji_timeout info,
          ji_restarts := ji_restarts info + 1\<rparr>"

definition check_timeouts :: "int \<Rightarrow> reductor \<Rightarrow> reductor" where
  "check_timeouts now rd =
     (if timeout_check_interval rd \<noteq> 0 \<and> now \<ge> rd_next_check rd then
        rd\<lparr>rd_queue := rd_queue rd @ map fst (filter (\<lambda>p. overdue now (snd p)) (rd_running rd)),
           rd_running := map (\<lambda>p. if overdue now (snd p) then (fst p, back_off now (snd p)) else p) (rd_running rd),
           rd_next_check := rd_next_check rd + timeout_check_interval rd * 1000000\<rparr>
      else rd)"

section \<open>The main loop\<close>

text \<open>The poller has nothing to wait for when no connection is open and no child process runs; then it
  answers \<open>Exit\<close>. Otherwise it delivers the events, none when the time is up.\<close>

definition loop_once :: "world \<Rightarrow> nat \<Rightarrow> loop_event list \<Rightarrow> reductor \<Rightarrow> (bool \<times> reductor) res" where
  "loop_once w n events rd =
     (if rd_flights rd = [] then Inr (True, rd)
      else bind_res (fold_res (handle_event w n) events rd) (\<lambda>rd'. Inr (False, rd')))"

definition final_hash :: "world \<Rightarrow> reductor \<Rightarrow> string \<Rightarrow> string res" where
  "final_hash w rd target_hash =
     bind_res (cache_check (wd_gg_dir w) (updated_hash (rd_graph rd) target_hash) (rd_disk rd)) (\<lambda>answer.
       case answer of
         None \<Rightarrow> Inl (Runtime_error (''internal error: final answer not found for '' @ target_hash))
       | Some h \<Rightarrow> Inr h)"

definition reduce_round ::
  "world \<Rightarrow> nat \<Rightarrow> nat \<Rightarrow> nat \<Rightarrow> loop_event list \<Rightarrow> reductor \<Rightarrow> (string list option \<times> reductor) res" where
  "reduce_round w n k m events rd0 =
     bind_res (drain_queue m w n k rd0) (\<lambda>rd1.
     bind_res (loop_once w n events rd1) (\<lambda>(exit, rd2).
       let (now, rd3) = clock_now w rd2;
           rd = check_timeouts now rd3
       in if is_finished rd \<or> exit then
            (if \<not> is_finished rd
             then Inl (Runtime_error ''unhandled poller failure happened, job is not finished'')
             else bind_res (map_res (final_hash w rd) (rd_targets rd)) (\<lambda>hashes. Inr (Some hashes, rd)))
          else Inr (None, rd)))"

text \<open>\<open>reduce\<close> for a given course of events, one list of events per round; \<open>None\<close> is the answer of a
  run that is still waiting after the last round.\<close>

fun reduce ::
  "world \<Rightarrow> nat \<Rightarrow> nat \<Rightarrow> nat \<Rightarrow> loop_event list list \<Rightarrow> reductor \<Rightarrow> (string list option \<times> reductor) res" where
  "reduce w n k m [] rd = Inr (None, rd)"
| "reduce w n k m (events # rounds) rd =
     bind_res (reduce_round w n k m events rd) (\<lambda>(answer, rd').
       case answer of Some hashes \<Rightarrow> Inr (Some hashes, rd') | None \<Rightarrow> reduce w n k m rounds rd')"

end
