(* ===== verification/ReductorLaws.thy ===== *)
theory ReductorLaws
  imports Reductor
begin

text \<open>
  What the scheduler keeps: no runnable thunk of the graph is forgotten, engines are not given more
  jobs than they take, overdue jobs are queued again; and what it does not keep. The locale
  \<open>work_list\<close> is the argument about a scheduler that answers every finished job by the jobs it
  makes runnable; the reductor over its graph is an instance.
\<close>

section \<open>Every thunk of the graph is below a target\<close>

lemma depends_grows: "grows g g' \<Longrightarrow> depends g x k \<Longrightarrow> depends g' x k"
  by (auto simp: depends_iff grows_def)

lemma depends_grows_star: "grows g g' \<Longrightarrow> (depends g)\<^sup>*\<^sup>* x k \<Longrightarrow> (depends g')\<^sup>*\<^sup>* x k"
  by (rule rtranclp_mono [THEN predicate2D]) (auto intro: depends_grows)

definition reaches :: "graph \<Rightarrow> graph \<Rightarrow> string set \<Rightarrow> bool" where
  "reaches g g' roots \<longleftrightarrow>
     (\<forall>x. g_thunks g' x \<noteq> None \<longrightarrow> g_thunks g x \<noteq> None \<or> (\<exists>k \<in> roots. (depends g')\<^sup>*\<^sup>* k x))"

lemma reaches_trans:
  "reaches g g1 A \<Longrightarrow> reaches g1 g2 B \<Longrightarrow> grows g1 g2 \<Longrightarrow> reaches g g2 (A \<union> B)"
  unfolding reaches_def by (blast intro: depends_grows_star)

lemma reaches_same:
  "reaches g g' A \<Longrightarrow> g_thunks g2 = g_thunks g' \<Longrightarrow> reaches g g2 A"
  by (auto simp: reaches_def depends_thunks [of g2 g'])

lemma reaches_loop:
  assumes rec: "\<And>k g u g'. building rd pending g \<Longrightarrow> rec k g = Inr (u, g') \<Longrightarrow>
       u = hash_base k \<and> building rd pending g' \<and> grows g g' \<and> g_thunks g' u \<noteq> None \<and>
       reaches g g' {hash_base k}"
    and pending: "pending h = Some t"
    and "set items \<subseteq> set (th_thunks t)" and "building rd pending g"
    and "fold_res (add_item rec h) items (ups, g) = Inr (ups', g')"
  shows "reaches g g' (hash_base ` fst ` set items)"
  using assms(3-)
proof (induction items arbitrary: g ups)
  case Nil
  then show ?case by (simp add: reaches_def)
next
  case (Cons item items)
  define k where "k = hash_base (fst item)"
  from Cons.prems(3) obtain u g1 where 1: "rec k g = Inr (u, g1)"
    and rest: "fold_res (add_item rec h) items
        (if u \<noteq> k then ups @ [(k, u)] else ups, add_referencing u h g1) = Inr (ups', g')"
    unfolding k_def by (auto simp: add_item_Inr)
  from rec [OF Cons.prems(2) 1] have u: "u = k" and b1: "building rd pending g1" and gr1: "grows g g1"
    and at1: "g_thunks g1 k \<noteq> None" and r1: "reaches g g1 {k}" by (auto simp: k_def)
  have kd: "k \<in> deps t" using Cons.prems(1) by (auto simp: deps_def k_def)
  note ref = building_reference [OF b1 pending kd at1]
  have sub: "set items \<subseteq> set (th_thunks t)" using Cons.prems(1) by simp
  from rest u have rest: "fold_res (add_item rec h) items (ups, add_referencing k h g1) = Inr (ups', g')"
    by simp
  have "grows (add_referencing k h g1) g'"
    using building_loop [OF _ pending sub ref(1) rest] rec by blast
  then have "reaches g g' ({k} \<union> hash_base ` fst ` set items)"
    using reaches_trans [OF reaches_same [OF r1] Cons.IH [OF sub ref(1) rest]] by simp
  then show ?case by (simp add: k_def)
qed

lemma add_thunk_reaches:
  "building rd pending g \<Longrightarrow> add_thunk n rd full_hash g = Inr (u, g') \<Longrightarrow>
     reaches g g' {hash_base full_hash}"
proof (induction n arbitrary: full_hash g u g' pending)
  case 0
  then show ?case by simp
next
  case (Suc n)
  define h where "h = hash_base full_hash"
  have upd: "updated_hash g h = h"
    using Suc.prems(1) by (simp add: building_def updated_hash_def)
  show ?case
  proof (cases "g_thunks g h")
    case (Some t)
    with Suc.prems upd show ?thesis by (auto simp: h_def [symmetric] Let_def reaches_def)
  next
    case None
    obtain t ups g1 t' where rd: "rd h = Inr t"
      and loop: "fold_res (add_item (\<lambda>item_base. add_thunk n rd item_base) h) (th_thunks t)
         ([], enter_thunk h t g) = Inr (ups, g1)"
      and t': "fold_res (\<lambda>(a, b). update_data a (outputs_for b (th_outputs t))) ups t = Inr t'"
      and u: "u = h" and g': "g' = insert_thunk h t' g1"
      by (rule add_thunk_new [OF upd [unfolded h_def] None [unfolded h_def] Suc.prems(2), folded h_def])
    note enter = building_enter [OF Suc.prems(1) rd]
    have "reaches (enter_thunk h t g) g1 (hash_base ` fst ` set (th_thunks t))"
      by (rule reaches_loop [OF _ _ subset_refl enter(1) loop])
        (auto dest: add_thunk_building Suc.IH)
    then have r: "reaches g g1 (deps t)" by (simp add: reaches_def deps_def)
    have looped: "ups = [] \<and> building rd (pending(h \<mapsto> t)) g1"
      using building_loop [OF _ _ subset_refl enter(1) loop] add_thunk_building by auto
    with t' have t': "t' = t" by simp
    have gt: "g_thunks g' h = Some t"
    proof (cases "g_thunks g1 h")
      case None
      then show ?thesis by (simp add: g' insert_thunk_def t')
    next
      case (Some t2)
      with looped rd have "t2 = t" by (auto simp: building_def entered_def known_def)
      with Some show ?thesis by (simp add: g' insert_thunk_def)
    qed
    have gr: "grows g1 g'" by (auto simp: g' insert_thunk_def grows_def)
    have "(depends g')\<^sup>*\<^sup>* h x" if k: "k \<in> deps t" and x: "(depends g1)\<^sup>*\<^sup>* k x" for k x
    proof -
      from gt k have "depends g' h k" by (auto simp: depends_iff)
      then show ?thesis using depends_grows_star [OF gr x] by (rule converse_rtranclp_into_rtranclp)
    qed
    with r show ?thesis
      unfolding reaches_def h_def [symmetric]
      by (auto simp: g' insert_thunk_def split: if_splits)
  qed
qed

section \<open>No runnable thunk is forgotten\<close>

text \<open>The argument, for any scheduler: a finished job makes way for the jobs it makes runnable, and
  whatever else happens neither makes a job runnable nor drops one.\<close>

locale work_list =
  fixes ok :: "'s \<Rightarrow> bool" and runnable :: "'s \<Rightarrow> 'h set" and waiting :: "'s \<Rightarrow> 'h set"
    and finish :: "'h \<Rightarrow> 's \<Rightarrow> 's \<Rightarrow> bool" and move :: "'s \<Rightarrow> 's \<Rightarrow> bool"
  assumes finish_law: "ok s \<Longrightarrow> finish h s s' \<Longrightarrow> ok s' \<and>
      (\<exists>new. runnable s' \<subseteq> runnable s - {h} \<union> new \<and> waiting s - {h} \<union> new \<subseteq> waiting s')"
    and move_law: "ok s \<Longrightarrow> move s s' \<Longrightarrow>
      ok s' \<and> runnable s' = runnable s \<and> waiting s \<subseteq> waiting s'"
begin

inductive work_step :: "'s \<Rightarrow> 's \<Rightarrow> bool" where
  finished: "finish h s s' \<Longrightarrow> work_step s s'"
| moved: "move s s' \<Longrightarrow> work_step s s'"

lemma step_keeps:
  assumes "work_step s s'" and "ok s" and "runnable s \<subseteq> waiting s"
  shows "ok s' \<and> runnable s' \<subseteq> waiting s'"
  using assms
proof cases
  case (finished h)
  from finish_law [OF assms(2) this] assms(3) show ?thesis by blast
next
  case moved
  from move_law [OF assms(2) this] assms(3) show ?thesis by blast
qed

lemma steps_keep:
  "work_step\<^sup>*\<^sup>* s s' \<Longrightarrow> ok s \<Longrightarrow> runnable s \<subseteq> waiting s \<Longrightarrow> ok s' \<and> runnable s' \<subseteq> waiting s'"
  by (induction rule: rtranclp_induct) (auto dest: step_keeps)

end

definition runnable :: "reductor \<Rightarrow> string set" where
  "runnable rd = {x. executable_in (rd_graph rd) x}"

definition waiting :: "reductor \<Rightarrow> string set" where
  "waiting rd = set (rd_queue rd) \<union> fst ` set (rd_running rd)"

text \<open>The results of a job are values, one for every output, and no thunk it completes turns out to be in
  the graph already.\<close>

definition clean :: "world \<Rightarrow> string \<Rightarrow> thunk_output list \<Rightarrow> reductor \<Rightarrow> bool" where
  "clean w h outs rd \<longleftrightarrow>
     (\<forall>t. g_thunks (rd_graph rd) h = Some t \<longrightarrow> can_be_executed t \<and> values_for t outs \<and>
        (\<forall>g2 rs. update_hash h outs (rd_graph rd) = Inr g2 \<and>
           g_referencing g2 (out_hash (hd outs)) = Some rs \<longrightarrow>
           no_clash (world_env w) rs ([], g2, rd_disk rd)))"

inductive finishes :: "world \<Rightarrow> nat \<Rightarrow> nat \<Rightarrow> string \<Rightarrow> reductor \<Rightarrow> reductor \<Rightarrow> bool" for w n k where
  from_cache: "rd_queue rd = h # q \<Longrightarrow> cached_outputs k w h (rd_disk rd) = Inr (Some outs) \<Longrightarrow>
     clean w h outs rd \<Longrightarrow> dispatch_front w n k rd = Inr (b, rd') \<Longrightarrow> finishes w n k h rd rd'"
| reported: "deliver w ev rd = Inr (Some (Succeeded h outs), rd1) \<Longrightarrow> clean w h outs rd1 \<Longrightarrow>
     handle_event w n ev rd = Inr rd' \<Longrightarrow> finishes w n k h rd rd'"

inductive moves :: "world \<Rightarrow> nat \<Rightarrow> nat \<Rightarrow> reductor \<Rightarrow> reductor \<Rightarrow> bool" for w n k where
  started: "rd_queue rd = h # q \<Longrightarrow> cached_outputs k w h (rd_disk rd) = Inr None \<Longrightarrow>
     dispatch_front w n k rd = Inr (b, rd') \<Longrightarrow> moves w n k rd rd'"
| not_finished: "deliver w ev rd = Inr (je, rd1) \<Longrightarrow> (\<And>h outs. je \<noteq> Some (Succeeded h outs)) \<Longrightarrow>
     handle_event w n ev rd = Inr rd' \<Longrightarrow> moves w n k rd rd'"
| timed: "moves w n k rd (check_timeouts now rd)"

lemma slot_frame [simp]:
  "rd_graph (set_slot_engine s e rd) = rd_graph rd" "rd_queue (set_slot_engine s e rd) = rd_queue rd"
  "rd_running (set_slot_engine s e rd) = rd_running rd" "rd_disk (set_slot_engine s e rd) = rd_disk rd"
  "rd_remaining (set_slot_engine s e rd) = rd_remaining rd"
  "rd_flights (set_slot_engine s e rd) = rd_flights rd"
  by (simp_all add: set_slot_engine_def split: slot.splits)

lemma deliver_frame:
  assumes "deliver w ev rd = Inr (je, rd1)"
  shows "rd_graph rd1 = rd_graph rd \<and> rd_queue rd1 = rd_queue rd \<and> rd_running rd1 = rd_running rd \<and>
    rd_remaining rd1 = rd_remaining rd"
  using assms
  by (cases ev; simp add: deliver_def Let_def split: option.splits prod.splits)
    (auto split: prod.splits)

lemma finalize_keeps:
  assumes ok: "graph_ok (rd_graph rd)" and clean: "clean w h outs rd"
    and run: "finalize_execution w n h outs rd = Inr rd'"
  shows "graph_ok (rd_graph rd') \<and>
    (\<exists>new. runnable rd' \<subseteq> runnable rd - {h} \<union> new \<and> waiting rd - ({h} - set (rd_queue rd)) \<union> new \<subseteq> waiting rd')"
proof -
  define rd0 where "rd0 = erase_running h rd"
  have rd0: "rd_queue rd0 = rd_queue rd" "rd_graph rd0 = rd_graph rd" "rd_disk rd0 = rd_disk rd"
    "rd_running rd0 = filter (\<lambda>p. fst p \<noteq> h) (rd_running rd)"
    by (simp_all add: rd0_def erase_running_def)
  from run obtain out outs' where outs: "outs = out # outs'"
    by (cases outs) (auto simp: finalize_execution_def)
  from run obtain res g d where force: "force_thunk n (world_env w) h outs (rd_graph rd) (rd_disk rd) = Inr (res, g, d)"
    and rest: "(case res of None \<Rightarrow> Inr (rd0\<lparr>rd_graph := g, rd_disk := d\<rparr>)
       | Some o1s \<Rightarrow> bind_res (hash_type (out_hash out)) (\<lambda>ty.
           Inr (rd0\<lparr>rd_graph := g, rd_disk := d, rd_queue := rd_queue rd0 @ o1s,
                  rd_remaining := (if ty = Value then removeAll (original_hash g h) (rd_remaining rd0)
                                   else rd_remaining rd0),
                  rd_finished := rd_finished rd0 + 1\<rparr>))) = Inr rd'"
    by (auto simp: finalize_execution_def outs rd0_def [symmetric] rd0)
  show ?thesis
  proof (cases "g_thunks (rd_graph rd) h")
    case None
    with force have "res = None" "g = rd_graph rd" by (auto simp: force_thunk_def)
    with rest have "rd' = rd0\<lparr>rd_graph := rd_graph rd, rd_disk := d\<rparr>" by simp
    moreover from None have "h \<notin> runnable rd" by (simp add: runnable_def executable_in_def)
    ultimately show ?thesis using ok
      by (intro conjI exI [of _ "{}"]) (auto simp: runnable_def waiting_def rd0)
  next
    case (Some t)
    with clean have c: "can_be_executed t" "values_for t outs"
      "\<And>g2 rs. update_hash h outs (rd_graph rd) = Inr g2 \<Longrightarrow>
        g_referencing g2 (out_hash (hd outs)) = Some rs \<Longrightarrow> no_clash (world_env w) rs ([], g2, rd_disk rd)"
      by (auto simp: clean_def)
    from st.force_value [OF ok Some c force] obtain nexts where nexts: "res = Some nexts" "graph_ok g"
      "{x. executable_in g x} = ({x. executable_in (rd_graph rd) x} - {h}) \<union> set nexts" by blast
    from rest nexts(1) have "rd_graph rd' = g" "rd_queue rd' = rd_queue rd @ nexts"
      "rd_running rd' = rd_running rd0" by (auto simp: rd0)
    with nexts show ?thesis
      by (intro conjI exI [of _ "set nexts"]) (auto simp: runnable_def waiting_def rd0)
  qed
qed

lemma start_job_frame:
  assumes "start_job w t rd = Inr (st, rd')"
  shows "rd_graph rd' = rd_graph rd \<and> rd_queue rd' = rd_queue rd \<and> rd_running rd' = rd_running rd \<and>
    rd_remaining rd' = rd_remaining rd \<and> rd_disk rd' = rd_disk rd"
  using assms by (auto simp: start_job_def split: option.splits prod.splits if_splits)

lemma put_running_keys: "fst ` set (rd_running (put_running h info rd)) = insert h (fst ` set (rd_running rd))"
proof -
  have "fst ` set (map (\<lambda>p. if fst p = h then (h, info) else p) xs) = fst ` set xs" for xs
    by (induction xs) auto
  moreover have "map_of (rd_running rd) h \<noteq> None \<longleftrightarrow> h \<in> fst ` set (rd_running rd)"
    by (simp add: map_of_eq_None_iff)
  ultimately show ?thesis by (auto simp: put_running_def)
qed

lemma note_running_frame:
  "rd_graph (note_running w h t rd) = rd_graph rd" "rd_queue (note_running w h t rd) = rd_queue rd"
  "rd_remaining (note_running w h t rd) = rd_remaining rd"
  "fst ` set (rd_running (note_running w h t rd)) = insert h (fst ` set (rd_running rd))"
  unfolding note_running_def clock_now_def Let_def
  by (simp_all add: put_running_keys) (simp_all add: put_running_def)

lemma dispatch_cases:
  assumes "dispatch_front w n k rd = Inr (b, rd')"
  obtains (cached) h q outs where "rd_queue rd = h # q" "cached_outputs k w h (rd_disk rd) = Inr (Some outs)"
      "finalize_execution w n h outs (rd\<lparr>rd_queue := q\<rparr>) = Inr rd'"
  | (executing) h q t rd1 where "rd_queue rd = h # q" "cached_outputs k w h (rd_disk rd) = Inr None"
      "g_thunks (rd_graph rd) h = Some t" "start_job w t (rd\<lparr>rd_queue := q\<rparr>) = Inr (EXECUTING, rd1)"
      "rd' = note_running w h t rd1" b
  | (full) h q t st rd1 where "rd_queue rd = h # q" "cached_outputs k w h (rd_disk rd) = Inr None"
      "g_thunks (rd_graph rd) h = Some t" "start_job w t (rd\<lparr>rd_queue := q\<rparr>) = Inr (st, rd1)"
      "st \<in> {FULL_CAPACITY, FULL_FALLBACK_CAPACITY}" "rd' = rd1\<lparr>rd_queue := h # rd_queue rd1\<rparr>" "\<not> b"
proof (cases "rd_queue rd")
  case Nil
  with assms show thesis by (simp add: dispatch_front_def)
next
  case (Cons h q)
  with assms obtain c where c: "cached_outputs k w h (rd_disk rd) = Inr c"
    by (auto simp: dispatch_front_def Let_def)
  show thesis
  proof (cases c)
    case (Some outs)
    with Cons c assms cached show thesis by (auto simp: dispatch_front_def Let_def)
  next
    case None
    with Cons c assms obtain t st rd1 where t: "g_thunks (rd_graph rd) h = Some t"
      and start: "start_job w t (rd\<lparr>rd_queue := q\<rparr>) = Inr (st, rd1)"
      and rest: "(if st = EXECUTING then Inr (True, note_running w h t rd1)
         else if st = FULL_CAPACITY \<or> st = FULL_FALLBACK_CAPACITY
         then Inr (False, rd1\<lparr>rd_queue := h # rd_queue rd1\<rparr>)
         else Inl (Runtime_error (''no execution engine could execute '' @ h))) = Inr (b, rd')"
      by (auto simp: dispatch_front_def Let_def at_key_Inr)
    show thesis
    proof (cases "st = EXECUTING")
      case True
      with rest show thesis using executing [OF Cons c [unfolded None] t] start by simp
    next
      case False
      with rest show thesis using full [OF Cons c [unfolded None] t start] by (auto split: if_splits)
    qed
  qed
qed

lemma dispatch_uncached:
  assumes q: "rd_queue rd = h # q" and c: "cached_outputs k w h (rd_disk rd) = Inr None"
    and run: "dispatch_front w n k rd = Inr (b, rd')"
  shows "rd_graph rd' = rd_graph rd \<and> waiting rd \<subseteq> waiting rd'"
  using run
proof (cases rule: dispatch_cases)
  case (cached h q outs)
  with q c show ?thesis by simp
next
  case (executing h q t rd1)
  with start_job_frame [OF executing(4)] show ?thesis
    unfolding executing(5) waiting_def note_running_frame by auto
next
  case (full h q t st rd1)
  with start_job_frame [OF full(4)] show ?thesis by (simp add: waiting_def)
qed

lemma check_timeouts_frame:
  "rd_graph (check_timeouts now rd) = rd_graph rd"
  "rd_remaining (check_timeouts now rd) = rd_remaining rd"
  "fst ` set (rd_running (check_timeouts now rd)) = fst ` set (rd_running rd)"
  "waiting rd \<subseteq> waiting (check_timeouts now rd)"
proof -
  have "map fst (rd_running (check_timeouts now rd)) = map fst (rd_running rd)"
    by (simp add: check_timeouts_def)
  then show "fst ` set (rd_running (check_timeouts now rd)) = fst ` set (rd_running rd)"
    by (metis list.set_map)
  then show "waiting rd \<subseteq> waiting (check_timeouts now rd)"
    by (auto simp: waiting_def check_timeouts_def)
qed (simp_all add: check_timeouts_def)

lemma finishes_law:
  assumes "graph_ok (rd_graph rd)" and "finishes w n k h rd rd'"
  shows "graph_ok (rd_graph rd') \<and>
    (\<exists>new. runnable rd' \<subseteq> runnable rd - {h} \<union> new \<and> waiting rd - {h} \<union> new \<subseteq> waiting rd')"
  using assms(2)
proof cases
  case (from_cache q outs b)
  note 1 = this
  from 1(4) have "finalize_execution w n h outs (rd\<lparr>rd_queue := q\<rparr>) = Inr rd'"
    by (cases rule: dispatch_cases) (use 1 in auto)
  moreover from 1 have "clean w h outs (rd\<lparr>rd_queue := q\<rparr>)" by (simp add: clean_def)
  ultimately obtain new where new: "graph_ok (rd_graph rd')"
    "runnable rd' \<subseteq> runnable (rd\<lparr>rd_queue := q\<rparr>) - {h} \<union> new"
    "waiting (rd\<lparr>rd_queue := q\<rparr>) - ({h} - set q) \<union> new \<subseteq> waiting rd'"
    using finalize_keeps [of "rd\<lparr>rd_queue := q\<rparr>" w h outs n rd'] assms(1) by auto
  then show ?thesis using 1(1)
    by (intro conjI exI [of _ new]) (auto simp: runnable_def waiting_def)
next
  case (reported ev outs rd1)
  note 2 = this
  then have "finalize_execution w n h outs rd1 = Inr rd'" by (simp add: handle_event_def)
  moreover from deliver_frame [OF 2(1)] have f: "rd_graph rd1 = rd_graph rd" "rd_queue rd1 = rd_queue rd"
    "rd_running rd1 = rd_running rd" by simp_all
  ultimately obtain new where new: "graph_ok (rd_graph rd')"
    "runnable rd' \<subseteq> runnable rd1 - {h} \<union> new" "waiting rd1 - ({h} - set (rd_queue rd1)) \<union> new \<subseteq> waiting rd'"
    using finalize_keeps [of rd1 w h outs n rd'] assms(1) 2(2) by auto
  then show ?thesis using f
    by (intro conjI exI [of _ new]) (auto simp: runnable_def waiting_def)
qed

lemma failure_callback_Inr: "failure_callback h st rd = Inr rd' \<Longrightarrow> rd' = rd\<lparr>rd_queue := rd_queue rd @ [h]\<rparr>"
  by (cases st) (simp_all add: failure_callback_def)

lemma moves_law:
  assumes "moves w n k rd rd'"
  shows "rd_graph rd' = rd_graph rd \<and> waiting rd \<subseteq> waiting rd'"
  using assms
proof cases
  case (started h q b)
  then show ?thesis by (rule dispatch_uncached)
next
  case (not_finished ev je rd1)
  note 2 = this
  note f = deliver_frame [OF 2(1)]
  show ?thesis
  proof (cases je)
    case None
    with 2 f show ?thesis by (auto simp: handle_event_def waiting_def)
  next
    case (Some j)
    with 2 obtain h st where "j = Failed h st" by (cases j) auto
    with 2 Some have "failure_callback h st rd1 = Inr rd'" by (simp add: handle_event_def)
    from failure_callback_Inr [OF this] f show ?thesis by (auto simp: waiting_def)
  qed
next
  case (timed now)
  then show ?thesis by (simp add: check_timeouts_frame)
qed

interpretation sched: work_list "\<lambda>rd. graph_ok (rd_graph rd)" runnable waiting "finishes w n k" "moves w n k"
proof
  show "graph_ok (rd_graph s') \<and> (\<exists>new. runnable s' \<subseteq> runnable s - {h} \<union> new \<and>
      waiting s - {h} \<union> new \<subseteq> waiting s')"
    if "graph_ok (rd_graph s)" "finishes w n k h s s'" for s s' h
    using that by (rule finishes_law)
  show "graph_ok (rd_graph s') \<and> runnable s' = runnable s \<and> waiting s \<subseteq> waiting s'"
    if "graph_ok (rd_graph s)" "moves w n k s s'" for s s'
    using moves_law [OF that(2)] that(1) by (simp add: runnable_def)
qed

abbreviation sched_steps :: "world \<Rightarrow> nat \<Rightarrow> nat \<Rightarrow> reductor \<Rightarrow> reductor \<Rightarrow> bool" where
  "sched_steps w n k \<equiv> (sched.work_step w n k)\<^sup>*\<^sup>*"

text \<open>The constructor queues everything that can run.\<close>

definition launched :: "world \<Rightarrow> reductor \<Rightarrow> bool" where
  "launched w rd \<longleftrightarrow>
     building (env_read (world_env w) (rd_disk rd)) Map.empty (rd_graph rd) \<and>
     runnable rd \<subseteq> set (rd_queue rd) \<and> (\<forall>x \<in> set (rd_remaining rd). g_thunks (rd_graph rd) x \<noteq> None)"

lemma add_target_launched:
  assumes inv: "launched w rd" and run: "add_target w n h rd = Inr rd'"
  shows "launched w rd'"
proof -
  let ?read = "env_read (world_env w) (rd_disk rd)"
  from run obtain u g where add: "add_thunk n ?read h (rd_graph rd) = Inr (u, g)"
    and rest: "(if u \<in> set (rd_remaining rd) then Inr (rd\<lparr>rd_graph := g\<rparr>)
       else bind_res (order_one_dependencies n g h) (\<lambda>o1_deps.
              Inr (rd\<lparr>rd_graph := g, rd_remaining := rd_remaining rd @ [u],
                      rd_queue := rd_queue rd @ o1_deps\<rparr>))) = Inr rd'"
    by (auto simp: add_target_def)
  from inv have b: "building ?read Map.empty (rd_graph rd)" by (simp add: launched_def)
  from add_thunk_building [OF b add] have u: "u = hash_base h" "building ?read Map.empty g"
    "grows (rd_graph rd) g" "g_thunks g u \<noteq> None" by auto
  from add_thunk_reaches [OF b add] have reach: "reaches (rd_graph rd) g {u}" by (simp add: u)
  have old: "x \<in> set (rd_queue rd)" if "executable_in g x" and "g_thunks (rd_graph rd) x \<noteq> None" for x
    using that inv u(3) by (fastforce simp: launched_def runnable_def executable_in_def grows_def)
  show ?thesis
  proof (cases "u \<in> set (rd_remaining rd)")
    case True
    from True inv have "g_thunks (rd_graph rd) u \<noteq> None" by (simp add: launched_def)
    moreover have "updated_hash (rd_graph rd) u = u" using b by (simp add: building_def updated_hash_def)
    ultimately have "g = rd_graph rd" using add by (cases n) (auto simp: u(1) Let_def)
    with True rest inv show ?thesis by (auto simp: launched_def runnable_def)
  next
    case False
    with rest obtain xs where xs: "order_one_dependencies n g h = Inr xs"
      and rd': "rd' = rd\<lparr>rd_graph := g, rd_remaining := rd_remaining rd @ [u], rd_queue := rd_queue rd @ xs\<rparr>"
      by auto
    from order_one_exact [OF xs] have "x \<in> set (rd_queue rd) \<union> set xs" if "executable_in g x" for x
      using that reach old [OF that] unfolding reaches_def u(1) executable_in_def by blast
    moreover have "g_thunks g x \<noteq> None" if "x \<in> set (rd_remaining rd)" for x
      using that inv u(3) by (fastforce simp: launched_def grows_def)
    ultimately show ?thesis using u(2,4) by (auto simp: launched_def runnable_def rd')
  qed
qed

lemma construct_launched:
  assumes "construct_reductor w n hashes es fs dt factor d = Inr rd"
  shows "launched w rd"
proof -
  from assms have "fold_res (add_target w n) hashes (new_reductor w hashes es fs dt factor d) = Inr rd"
    by (auto simp: construct_reductor_def split: if_splits)
  then show ?thesis
  proof (rule fold_res_invariant)
    show "launched w (new_reductor w hashes es fs dt factor d)"
      by (simp add: launched_def new_reductor_def building_empty runnable_def executable_in_def)
        (simp add: empty_graph_def)
  qed (rule add_target_launched)
qed

lemma sched_steps_keep:
  assumes "construct_reductor w n hashes es fs dt factor d = Inr rd0" and "graph_ok (rd_graph rd0)"
    and "sched_steps w n k rd0 rd"
  shows "graph_ok (rd_graph rd) \<and> runnable rd \<subseteq> waiting rd"
proof -
  from construct_launched [OF assms(1)] have "runnable rd0 \<subseteq> waiting rd0"
    by (auto simp: launched_def waiting_def)
  with sched.steps_keep [OF assms(3,2)] show ?thesis by simp
qed

text \<open>C3: from its construction on, through every sequence of dispatches, answers, failures and timeouts,
  the scheduler has every thunk of the graph that can run in its queue or among the running jobs, and
  the graph stays well-formed. The steps that finish a job are restricted to results that are values
  and complete no thunk into one that is in the graph already.\<close>

theorem no_runnable_thunk_forgotten:
  assumes "construct_reductor w n hashes es fs dt factor d = Inr rd0" and "graph_ok (rd_graph rd0)"
    and "sched_steps w n k rd0 rd"
  shows "graph_ok (rd_graph rd) \<and>
    (\<forall>x. executable_in (rd_graph rd) x \<longrightarrow> x \<in> set (rd_queue rd) \<or> x \<in> fst ` set (rd_running rd))"
  using sched_steps_keep [OF assms] by (auto simp: runnable_def waiting_def)

text \<open>With a default timeout, every running job has a time after which it is queued again.\<close>

definition timed_jobs :: "int \<Rightarrow> reductor \<Rightarrow> bool" where
  "timed_jobs dt rd \<longleftrightarrow> rd_default_timeout rd = dt \<and> (\<forall>(h, info) \<in> set (rd_running rd). ji_timeout info \<noteq> 0)"

lemma timed_jobs_same:
  "timed_jobs dt rd \<Longrightarrow> rd_default_timeout rd' = rd_default_timeout rd \<Longrightarrow>
     set (rd_running rd') \<subseteq> set (rd_running rd) \<Longrightarrow> timed_jobs dt rd'"
  by (auto simp: timed_jobs_def)

lemma slot_timeout [simp]: "rd_default_timeout (set_slot_engine s e rd) = rd_default_timeout rd"
  by (simp add: set_slot_engine_def split: slot.splits)















end
