(* ===== verification/Capacity.thy ===== *)
theory Capacity
  imports ReductorLaws
begin

text \<open>
  How many jobs an engine has. \<open>load\<close> counts the connections and child processes an engine owns;
  \<open>job_count\<close> is the engine's own counter, a machine word. In every run the counter is at least the
  load and at most \<open>max_jobs\<close>, so it neither wraps nor lets the scheduler start too much. It can stay
  above the load: a socket error does not decrement it.
\<close>

definition slot_valid :: "slot \<Rightarrow> reductor \<Rightarrow> bool" where
  "slot_valid s rd =
     (case s of Primary i \<Rightarrow> i < length (rd_engines rd) | Fallback i \<Rightarrow> i < length (rd_fallbacks rd))"

definition load :: "slot \<Rightarrow> reductor \<Rightarrow> nat" where
  "load s rd = length (filter (\<lambda>p. fst (snd p) = s) (rd_flights rd))"

definition engine_bounds :: "nat \<Rightarrow> engine \<Rightarrow> bool" where
  "engine_bounds l e \<longleftrightarrow> l \<le> job_count e \<and> job_count e \<le> en_max_jobs e \<and> en_max_jobs e < 2 ^ 64"

definition within_capacity :: "reductor \<Rightarrow> bool" where
  "within_capacity rd \<longleftrightarrow>
     distinct (map fst (rd_flights rd)) \<and>
     (\<forall>p \<in> set (rd_flights rd). fst p < rd_next_id rd \<and> slot_valid (fst (snd p)) rd) \<and>
     (\<forall>s. slot_valid s rd \<longrightarrow> engine_bounds (load s rd) (slot_engine s rd))"

lemma slot_engine_set:
  assumes "slot_valid s rd"
  shows "slot_engine s' (set_slot_engine s e rd) = (if s' = s then e else slot_engine s' rd)"
  using assms
  by (cases s; cases s') (auto simp: slot_engine_def set_slot_engine_def slot_valid_def nth_list_update)

lemma slot_valid_set [simp]: "slot_valid s' (set_slot_engine s e rd) = slot_valid s' rd"
  by (cases s; cases s') (simp_all add: slot_valid_def set_slot_engine_def)

lemma load_set [simp]: "load s' (set_slot_engine s e rd) = load s' rd"
  by (simp add: load_def)

lemma next_id_set [simp]: "rd_next_id (set_slot_engine s e rd) = rd_next_id rd"
  by (simp add: set_slot_engine_def split: slot.splits)

lemma slot_upd [simp]:
  "slot_engine s (rd\<lparr>rd_flights := x, rd_next_id := y\<rparr>) = slot_engine s rd"
  "slot_engine s (rd\<lparr>rd_flights := x\<rparr>) = slot_engine s rd"
  "slot_engine s (rd\<lparr>rd_disk := d\<rparr>) = slot_engine s rd"
  "slot_valid s (rd\<lparr>rd_flights := x, rd_next_id := y\<rparr>) = slot_valid s rd"
  "slot_valid s (rd\<lparr>rd_flights := x\<rparr>) = slot_valid s rd"
  "slot_valid s (rd\<lparr>rd_disk := d\<rparr>) = slot_valid s rd"
  by (cases s; simp add: slot_engine_def slot_valid_def)+

text \<open>Only these four fields matter.\<close>

lemma within_capacity_cong:
  assumes "within_capacity rd" and "rd_engines rd' = rd_engines rd" and "rd_fallbacks rd' = rd_fallbacks rd"
    and "rd_flights rd' = rd_flights rd" and "rd_next_id rd' = rd_next_id rd"
  shows "within_capacity rd'"
proof -
  have "slot_valid s rd' = slot_valid s rd" "load s rd' = load s rd" "slot_engine s rd' = slot_engine s rd" for s
    using assms by (simp_all add: slot_valid_def load_def slot_engine_def split: slot.splits)
  with assms show ?thesis by (simp add: within_capacity_def)
qed

lemma engine_bounds_started:
  assumes "engine_bounds l e" and "job_count e < en_max_jobs e"
    and "en_running e' = en_running e + 1" and "en_max_jobs e' = en_max_jobs e"
  shows "engine_bounds (Suc l) e'"
proof -
  from assms(1,2) have "unat (en_running e) + 1 < 2 ^ 64" by (simp add: engine_bounds_def job_count_def)
  then have "unat (en_running e + 1) = unat (en_running e) + 1"
    by (simp add: unat_word_ariths)
  with assms show ?thesis by (simp add: engine_bounds_def job_count_def)
qed

lemma engine_bounds_finished:
  assumes "engine_bounds (Suc l) e" and "en_running e' = en_running e - 1" and "en_max_jobs e' = en_max_jobs e"
  shows "engine_bounds l e'"
proof -
  from assms(1) have "0 < unat (en_running e)" by (simp add: engine_bounds_def job_count_def)
  then have "unat (en_running e - 1) = unat (en_running e) - 1"
    by (metis unat_0 unat_minus_one less_numeral_extra(3))
  with assms show ?thesis by (auto simp: engine_bounds_def job_count_def)
qed

lemma engine_bounds_mono: "engine_bounds l e \<Longrightarrow> l' \<le> l \<Longrightarrow> engine_bounds l' e"
  by (simp add: engine_bounds_def)

section \<open>Starting a job\<close>

lemma engine_force_effect:
  assumes "engine_force w i t e = Inr (f, e')"
  shows "en_running e' = en_running e + 1 \<and> en_max_jobs e' = en_max_jobs e"
  using assms by (auto simp: engine_force_def split: engine_kind.splits)

lemma try_engines_effect:
  "try_engines w full i t st es = Inr (st', started, es') \<Longrightarrow>
     (case started of
        None \<Rightarrow> es' = es
      | Some (j, f) \<Rightarrow> j < length es \<and> job_count (es ! j) < en_max_jobs (es ! j) \<and>
          (\<exists>e'. es' = es[j := e'] \<and> en_running e' = en_running (es ! j) + 1 \<and>
             en_max_jobs e' = en_max_jobs (es ! j)))"
proof (induction es arbitrary: st st' started es')
  case Nil
  then show ?case by simp
next
  case (Cons e es)
  from Cons.prems obtain able where able: "can_execute (en_kind e) t = Inr able" by auto
  show ?case
  proof (cases "able \<and> job_count e < en_max_jobs e")
    case True
    with Cons.prems able obtain f e' where "engine_force w i t e = Inr (f, e')"
      and "started = Some (0, f)" and "es' = e' # es" by auto
    with engine_force_effect [OF this(1)] True show ?thesis by auto
  next
    case False
    with Cons.prems able obtain st2 started2 es2 where
      rec: "try_engines w full i t (if able then full else st) es = Inr (st2, started2, es2)"
      and out: "started = map_option (\<lambda>(i, f). (Suc i, f)) started2" "es' = e # es2"
      by (auto simp del: de_Morgan_conj)
    from Cons.IH [OF rec] out show ?thesis by (cases started2) auto
  qed
qed

lemma within_capacity_start:
  assumes inv: "within_capacity rd" and s: "slot_valid s rd"
    and room: "job_count (slot_engine s rd) < en_max_jobs (slot_engine s rd)"
    and e': "en_running e' = en_running (slot_engine s rd) + 1" "en_max_jobs e' = en_max_jobs (slot_engine s rd)"
  shows "within_capacity ((set_slot_engine s e' rd)\<lparr>rd_flights := rd_flights rd @ [(rd_next_id rd, s, f)],
     rd_next_id := Suc (rd_next_id rd)\<rparr>)" (is "within_capacity ?rd")
proof -
  have valid: "slot_valid s' ?rd = slot_valid s' rd" for s'
    by simp
  have load: "load s' ?rd = load s' rd + (if s' = s then 1 else 0)" for s'
    by (simp add: load_def)
  have "engine_bounds (load s' ?rd) (slot_engine s' ?rd)" if "slot_valid s' ?rd" for s'
  proof (cases "s' = s")
    case True
    from inv s have "engine_bounds (load s rd) (slot_engine s rd)" by (simp add: within_capacity_def)
    with engine_bounds_started [OF this room e'] True show ?thesis by (simp add: load slot_engine_set [OF s])
  next
    case False
    with inv that show ?thesis by (simp add: within_capacity_def load slot_engine_set [OF s] valid)
  qed
  moreover have "distinct (map fst (rd_flights ?rd))"
    using inv by (auto simp: within_capacity_def)
  moreover have "fst p < rd_next_id ?rd \<and> slot_valid (fst (snd p)) ?rd" if "p \<in> set (rd_flights ?rd)" for p
    using that inv s by (auto simp: within_capacity_def valid less_Suc_eq)
  ultimately show ?thesis by (simp add: within_capacity_def)
qed

text \<open>One of the two loops over engines, for the list behind the slots that \<open>mk\<close> makes.\<close>

lemma try_engines_capacity:
  assumes inv: "within_capacity rd"
    and run: "try_engines w full (rd_next_id rd) t st es = Inr (st', Some (i, f), es')"
    and es: "\<And>j. j < length es \<Longrightarrow> slot_valid (mk j) rd \<and> slot_engine (mk j) rd = es ! j"
    and put: "\<And>j e'. set_slot_engine (mk j) e' rd = upd (es[j := e'])"
  shows "within_capacity ((upd es')\<lparr>rd_flights := rd_flights rd @ [(rd_next_id rd, mk i, f)],
     rd_next_id := Suc (rd_next_id rd)\<rparr>)"
proof -
  from try_engines_effect [OF run] obtain e' where i: "i < length es"
    and room: "job_count (es ! i) < en_max_jobs (es ! i)" and es': "es' = es[i := e']"
    and e': "en_running e' = en_running (es ! i) + 1" "en_max_jobs e' = en_max_jobs (es ! i)" by auto
  from es [OF i] have s: "slot_valid (mk i) rd" "slot_engine (mk i) rd = es ! i" by auto
  from within_capacity_start [OF inv s(1), of e' f] room e' show ?thesis by (simp add: s(2) put es')
qed

lemma start_job_capacity:
  assumes inv: "within_capacity rd" and run: "start_job w t rd = Inr (st, rd')"
  shows "within_capacity rd'"
proof -
  note primary = try_engines_capacity [OF inv, of w FULL_CAPACITY t CANNOT_BE_EXECUTED "rd_engines rd" _ _ _ _
      Primary "\<lambda>es. rd\<lparr>rd_engines := es\<rparr>"]
  note fallback = try_engines_capacity [OF inv, of w FULL_FALLBACK_CAPACITY t CANNOT_BE_EXECUTED "rd_fallbacks rd"
      _ _ _ _ Fallback "\<lambda>es. rd\<lparr>rd_fallbacks := es\<rparr>"]
  from run inv show ?thesis
    by (auto simp: start_job_def slot_valid_def slot_engine_def set_slot_engine_def
        split: option.splits prod.splits if_splits intro!: primary fallback)
qed

section \<open>The end of a job\<close>

lemma load_removed:
  assumes "distinct (map fst (rd_flights rd))" and "map_of (rd_flights rd) i = Some (s, f)"
  shows "load s' (rd\<lparr>rd_flights := filter (\<lambda>p. fst p \<noteq> i) (rd_flights rd)\<rparr>) =
    load s' rd - (if s' = s then 1 else 0)" and "0 < load s rd"
proof -
  have "distinct (map fst xs) \<Longrightarrow> map_of xs i = Some (s, f) \<Longrightarrow>
      length (filter (\<lambda>p. fst (snd p) = s') (filter (\<lambda>p. fst p \<noteq> i) xs)) =
        length (filter (\<lambda>p. fst (snd p) = s') xs) - (if s' = s then 1 else 0) \<and>
      filter (\<lambda>p. fst (snd p) = s) xs \<noteq> []" for xs s'
  proof (induction xs)
    case Nil
    then show ?case by simp
  next
    case (Cons p xs)
    obtain j s1 f1 where p: "p = (j, s1, f1)" by (cases p)
    show ?case
    proof (cases "j = i")
      case True
      with Cons.prems have "filter (\<lambda>p. fst p \<noteq> i) xs = xs" by (force simp: p filter_id_conv)
      with True Cons.prems show ?thesis by (auto simp: p)
    next
      case False
      with Cons have "filter (\<lambda>p. fst (snd p) = s) xs \<noteq> []" by (simp add: p)
      then have "0 < length (filter (\<lambda>p. fst (snd p) = s) xs)" by simp
      with False Cons show ?thesis by (auto simp: p Suc_diff_le)
    qed
  qed
  from this [OF assms] this [OF assms, of s]
  show "load s' (rd\<lparr>rd_flights := filter (\<lambda>p. fst p \<noteq> i) (rd_flights rd)\<rparr>) =
    load s' rd - (if s' = s then 1 else 0)" and "0 < load s rd"
    by (simp_all add: load_def)
qed

lemma load_disk [simp]: "load s (rd\<lparr>rd_disk := d\<rparr>) = load s rd"
  by (simp add: load_def)

lemma within_capacity_finish:
  assumes inv: "within_capacity rd" and i: "map_of (rd_flights rd) i = Some (s, f)"
    and e': "engine_bounds (load s rd - 1) e'"
  shows "within_capacity (set_slot_engine s e'
     (rd\<lparr>rd_flights := filter (\<lambda>p. fst p \<noteq> i) (rd_flights rd), rd_disk := d\<rparr>))" (is "within_capacity ?rd")
proof -
  let ?rd1 = "rd\<lparr>rd_flights := filter (\<lambda>p. fst p \<noteq> i) (rd_flights rd), rd_disk := d\<rparr>"
  from inv have dist: "distinct (map fst (rd_flights rd))" by (simp add: within_capacity_def)
  from i have "(i, s, f) \<in> set (rd_flights rd)" by (rule map_of_SomeD)
  with inv have s: "slot_valid s rd" by (fastforce simp: within_capacity_def)
  then have s1: "slot_valid s ?rd1" by simp
  have "engine_bounds (load s' ?rd) (slot_engine s' ?rd)" if "slot_valid s' rd" for s'
    using inv that e' load_removed(1) [OF dist i, of s']
    by (auto simp: within_capacity_def slot_engine_set [OF s1])
  moreover have "distinct (map fst (rd_flights ?rd))"
    using dist by (simp add: distinct_map_filter)
  ultimately show ?thesis using inv by (auto simp: within_capacity_def)
qed

lemma callback_effects:
  "on_child_exit w f st e d = Inr (je, e', d') \<Longrightarrow> en_running e' = en_running e - 1 \<and> en_max_jobs e' = en_max_jobs e"
  "on_response w i f r e d = Inr (je, e', d') \<Longrightarrow> en_running e' = en_running e - 1 \<and> en_max_jobs e' = en_max_jobs e"
  by (auto simp: on_child_exit_def on_response_def on_response_gg_def on_response_lambda_def
      on_response_gcf_def report_timed_def Let_def split: if_splits engine_kind.splits)

lemma deliver_capacity:
  assumes inv: "within_capacity rd" and run: "deliver w ev rd = Inr (je, rd')"
  shows "within_capacity rd'"
proof (cases "map_of (rd_flights rd) (event_id ev)")
  case None
  with run inv show ?thesis by (simp add: deliver_def)
next
  case (Some p)
  then obtain s f where sf: "map_of (rd_flights rd) (event_id ev) = Some (s, f)" by (cases p) auto
  let ?rd = "rd\<lparr>rd_flights := filter (\<lambda>p. fst p \<noteq> event_id ev) (rd_flights rd)\<rparr>"
  from sf have "(event_id ev, s, f) \<in> set (rd_flights rd)" by (rule map_of_SomeD)
  with inv have s: "slot_valid s rd" by (fastforce simp: within_capacity_def)
  with inv have b: "engine_bounds (load s rd) (slot_engine s rd)" by (simp add: within_capacity_def)
  have pos: "load s rd = Suc (load s rd - 1)"
    using load_removed(2) [OF _ sf] inv by (simp add: within_capacity_def)
  have dec: "engine_bounds (load s rd - 1) e'"
    if "en_running e' = en_running (slot_engine s rd) - 1 \<and> en_max_jobs e' = en_max_jobs (slot_engine s rd)" for e'
    using that engine_bounds_finished [of "load s rd - 1" "slot_engine s rd" e'] b pos by simp
  note fin = within_capacity_finish [OF inv sf]
  have disk: "within_capacity (set_slot_engine s e' ?rd)" if "engine_bounds (load s rd - 1) e'" for e'
    using fin [OF that, of "rd_disk rd"] by simp
  show ?thesis
  proof (cases ev)
    case (Child_exit i st)
    with run sf obtain je' e' d where 1: "on_child_exit w f st (slot_engine s ?rd) (rd_disk rd) = Inr (je', e', d)"
      and rd': "rd' = set_slot_engine s e' (?rd\<lparr>rd_disk := d\<rparr>)" by (auto simp: deliver_def Let_def)
    from callback_effects(1) [OF 1] have "engine_bounds (load s rd - 1) e'" by (intro dec) simp
    from fin [OF this, of d] show ?thesis by (simp add: rd')
  next
    case (Response_arrived i r)
    with run sf obtain je' e' d where 1: "on_response w i f r (slot_engine s ?rd) (rd_disk rd) = Inr (je', e', d)"
      and rd': "rd' = set_slot_engine s e' (?rd\<lparr>rd_disk := d\<rparr>)" by (auto simp: deliver_def Let_def)
    from callback_effects(2) [OF 1] have "engine_bounds (load s rd - 1) e'" by (intro dec) simp
    from fin [OF this, of d] show ?thesis by (simp add: rd')
  next
    case (Socket_error i)
    with run sf have rd': "rd' = set_slot_engine s (snd (on_socket_error i f (slot_engine s rd))) ?rd"
      by (auto simp: deliver_def Let_def split: prod.splits)
    from b have "engine_bounds (load s rd - 1) (snd (on_socket_error i f (slot_engine s rd)))"
      by (auto simp: on_socket_error_def engine_bounds_def job_count_def)
    from disk [OF this] show ?thesis by (simp add: rd')
  next
    case (Peer_closed i)
    with run sf have rd': "rd' = ?rd" by (simp add: deliver_def Let_def)
    have "engine_bounds (load s rd - 1) (slot_engine s rd)" using b by (rule engine_bounds_mono) simp
    from disk [OF this] show ?thesis
      by (rule within_capacity_cong)
        (cases s; simp add: rd' set_slot_engine_def slot_engine_def)+
  qed
qed

section \<open>Whole runs\<close>

lemma finalize_capacity:
  assumes "within_capacity rd" and "finalize_execution w n h outs rd = Inr rd'"
  shows "within_capacity rd'"
  using assms(1)
  by (rule within_capacity_cong)
    (use assms(2) in \<open>auto simp: finalize_execution_def erase_running_def Let_def
       split: list.splits option.splits\<close>)

lemma handle_event_capacity:
  assumes inv: "within_capacity rd" and run: "handle_event w n ev rd = Inr rd'"
  shows "within_capacity rd'"
proof -
  from run obtain je rd1 where d: "deliver w ev rd = Inr (je, rd1)"
    and rest: "(case je of None \<Rightarrow> Inr rd1 | Some (Succeeded h outputs) \<Rightarrow> finalize_execution w n h outputs rd1
       | Some (Failed h reason) \<Rightarrow> failure_callback h reason rd1) = Inr rd'"
    by (auto simp: handle_event_def)
  note inv1 = deliver_capacity [OF inv d]
  have failed: "within_capacity rd'" if "failure_callback h reason rd1 = Inr rd'" for h reason
    using inv1 by (rule within_capacity_cong) (simp_all add: failure_callback_Inr [OF that])
  from rest inv1 show ?thesis
    by (auto split: option.splits job_event.splits intro: finalize_capacity failed)
qed

lemma within_capacity_frame:
  "within_capacity rd \<Longrightarrow> within_capacity (rd\<lparr>rd_queue := q\<rparr>)"
  "within_capacity rd \<Longrightarrow> within_capacity (note_running w h t rd)"
  "within_capacity rd \<Longrightarrow> within_capacity (check_timeouts now rd)"
  "within_capacity rd \<Longrightarrow> within_capacity (rd\<lparr>rd_ticks := i\<rparr>)"
  by (erule within_capacity_cong;
      simp add: note_running_def clock_now_def put_running_def check_timeouts_def Let_def)+

lemma dispatch_capacity:
  assumes inv: "within_capacity rd" and run: "dispatch_front w n k rd = Inr (b, rd')"
  shows "within_capacity rd'"
  using run
proof (cases rule: dispatch_cases)
  case (cached h q outs)
  show ?thesis by (rule finalize_capacity [OF _ cached(3)]) (rule within_capacity_frame [OF inv])
next
  case (executing h q t rd1)
  show ?thesis unfolding executing(5)
    by (intro within_capacity_frame start_job_capacity [OF _ executing(4)] inv)
next
  case (full h q t st rd1)
  show ?thesis unfolding full(6)
    by (intro within_capacity_frame start_job_capacity [OF _ full(4)] inv)
qed

lemma drain_capacity: "within_capacity rd \<Longrightarrow> drain_queue m w n k rd = Inr rd' \<Longrightarrow> within_capacity rd'"
proof (induction m arbitrary: rd)
  case 0
  then show ?case by (simp split: if_splits)
next
  case (Suc m)
  show ?case
  proof (cases "rd_queue rd = []")
    case False
    with Suc.prems(2) obtain b rd1 where "dispatch_front w n k rd = Inr (b, rd1)"
      and "(if b then drain_queue m w n k rd1 else Inr rd1) = Inr rd'" by auto
    with Suc.IH dispatch_capacity [OF Suc.prems(1) this(1)] show ?thesis by (auto split: if_splits)
  qed (use Suc.prems in simp)
qed

lemma round_capacity:
  assumes inv: "within_capacity rd" and run: "reduce_round w n k m evs rd = Inr (ans, rd')"
  shows "within_capacity rd'"
proof -
  from run obtain rd1 ex rd2 where 1: "drain_queue m w n k rd = Inr rd1"
    and 2: "loop_once w n evs rd1 = Inr (ex, rd2)"
    and rd': "rd' = check_timeouts (fst (clock_now w rd2)) (snd (clock_now w rd2))"
    by (auto simp: reduce_round_def Let_def clock_now_def split: if_splits)
  from drain_capacity [OF inv 1] have inv1: "within_capacity rd1" .
  from 2 have "rd2 = rd1 \<or> fold_res (handle_event w n) evs rd1 = Inr rd2"
    by (auto simp: loop_once_def split: if_splits)
  then have "within_capacity rd2"
    using fold_res_invariant [of "handle_event w n" evs rd1 rd2 within_capacity] inv1 handle_event_capacity
    by blast
  then show ?thesis by (simp add: rd' clock_now_def within_capacity_frame)
qed

lemma reduce_capacity: "within_capacity rd \<Longrightarrow> reduce w n k m rounds rd = Inr (ans, rd') \<Longrightarrow> within_capacity rd'"
proof (induction rounds arbitrary: rd)
  case (Cons evs rounds)
  from Cons.prems(2) obtain a rd1 where "reduce_round w n k m evs rd = Inr (a, rd1)"
    and "(case a of Some hs \<Rightarrow> Inr (Some hs, rd1) | None \<Rightarrow> reduce w n k m rounds rd1) = Inr (ans, rd')"
    by auto
  with Cons.IH round_capacity [OF Cons.prems(1) this(1)] show ?case by (auto split: option.splits)
qed simp

lemma construct_capacity:
  assumes fresh: "\<forall>e \<in> set es \<union> set fs. en_running e = 0 \<and> en_max_jobs e < 2 ^ 64"
    and run: "construct_reductor w n hashes es fs dt factor d = Inr rd"
  shows "within_capacity rd"
proof -
  from run have "fold_res (add_target w n) hashes (new_reductor w hashes es fs dt factor d) = Inr rd"
    by (auto simp: construct_reductor_def split: if_splits)
  then show ?thesis
  proof (rule fold_res_invariant)
    show "within_capacity (new_reductor w hashes es fs dt factor d)"
      using fresh
      by (auto simp: within_capacity_def new_reductor_def load_def slot_valid_def slot_engine_def
          engine_bounds_def job_count_def split: slot.splits)
  next
    fix h rd rd' assume "within_capacity rd" and "add_target w n h rd = Inr rd'"
    then show "within_capacity rd'"
      by (auto simp: add_target_def split: if_splits elim: within_capacity_cong)
  qed
qed

text \<open>C22: in every run from freshly made engines, whatever the answers and errors, the number of
  connections and child processes an engine owns is at most its counter, and the counter is at most
  the engine's \<open>max_jobs\<close>; the machine word never wraps.\<close>

theorem engines_within_capacity:
  assumes "\<forall>e \<in> set es \<union> set fs. en_running e = 0 \<and> en_max_jobs e < 2 ^ 64"
    and "construct_reductor w n hashes es fs dt factor d = Inr rd0"
    and "reduce w n k m rounds rd0 = Inr (ans, rd)" and "slot_valid s rd"
  shows "load s rd \<le> job_count (slot_engine s rd) \<and>
    job_count (slot_engine s rd) \<le> en_max_jobs (slot_engine s rd)"
  using reduce_capacity [OF construct_capacity [OF assms(1,2)] assms(3)] assms(4)
  by (auto simp: within_capacity_def engine_bounds_def)

end
