(* ===== verification/Failures.thy ===== *)
theory Failures
  imports Capacity
begin

text \<open>
  What the scheduler makes of failures: the back-off of overdue jobs and how a second start undoes it,
  a connection that is closed too early, and the engine slot that a socket error takes away for good.
\<close>

section \<open>Timeouts\<close>

lemma map_of_map_snd: "map_of (map (\<lambda>p. if P (snd p) then (fst p, f (snd p)) else p) xs) h =
    map_option (\<lambda>v. if P v then f v else v) (map_of xs h)"
  by (induction xs) auto

lemma check_timeouts_running:
  assumes "timeout_check_interval rd \<noteq> 0" and "now \<ge> rd_next_check rd"
  shows "map_of (rd_running (check_timeouts now rd)) h =
    map_option (\<lambda>info. if overdue now info then back_off now info else info) (map_of (rd_running rd) h)"
  using assms by (simp add: check_timeouts_def map_of_map_snd)

text \<open>A due check queues exactly the running jobs whose timeout has passed, one more time each, and
  multiplies their timeout by one more than the number of restarts so far; the other jobs and, between
  checks, all jobs stay as they are.\<close>

lemma check_timeouts_spec:
  assumes "distinct (map fst (rd_running rd))"
  shows "(timeout_check_interval rd \<noteq> 0 \<and> now \<ge> rd_next_check rd \<longrightarrow>
      (\<exists>late. rd_queue (check_timeouts now rd) = rd_queue rd @ late \<and> distinct late \<and>
         (\<forall>h. h \<in> set late \<longleftrightarrow> (\<exists>info. map_of (rd_running rd) h = Some info \<and> overdue now info)) \<and>
         (\<forall>h info. map_of (rd_running rd) h = Some info \<longrightarrow>
            map_of (rd_running (check_timeouts now rd)) h =
              Some (if h \<in> set late
                    then info\<lparr>ji_start := now,
                              ji_timeout := ji_timeout info * (1 + uint (ji_restarts info)),
                              ji_restarts := ji_restarts info + 1\<rparr>
                    else info)))) \<and>
    (timeout_check_interval rd = 0 \<or> now < rd_next_check rd \<longrightarrow> check_timeouts now rd = rd)"
proof (intro conjI impI)
  assume due: "timeout_check_interval rd \<noteq> 0 \<and> now \<ge> rd_next_check rd"
  define late where "late = map fst (filter (\<lambda>p. overdue now (snd p)) (rd_running rd))"
  have q: "rd_queue (check_timeouts now rd) = rd_queue rd @ late"
    using due by (simp add: check_timeouts_def late_def)
  have d: "distinct late" using assms by (simp add: late_def distinct_map_filter)
  have mem: "h \<in> set late \<longleftrightarrow> (\<exists>info. map_of (rd_running rd) h = Some info \<and> overdue now info)" for h
    using assms by (force simp: late_def)
  have "map_of (rd_running (check_timeouts now rd)) h = Some (if h \<in> set late
      then info\<lparr>ji_start := now, ji_timeout := ji_timeout info * (1 + uint (ji_restarts info)),
        ji_restarts := ji_restarts info + 1\<rparr> else info)" if "map_of (rd_running rd) h = Some info" for h info
    using that mem [of h] due by (simp add: check_timeouts_running back_off_def algebra_simps)
  with q d mem show "\<exists>late. rd_queue (check_timeouts now rd) = rd_queue rd @ late \<and> distinct late \<and>
         (\<forall>h. h \<in> set late \<longleftrightarrow> (\<exists>info. map_of (rd_running rd) h = Some info \<and> overdue now info)) \<and>
         (\<forall>h info. map_of (rd_running rd) h = Some info \<longrightarrow>
            map_of (rd_running (check_timeouts now rd)) h =
              Some (if h \<in> set late
                    then info\<lparr>ji_start := now, ji_timeout := ji_timeout info * (1 + uint (ji_restarts info)),
                              ji_restarts := ji_restarts info + 1\<rparr>
                    else info))" by blast
qed (auto simp: check_timeouts_def)

lemma map_of_put_running: "map_of (rd_running (put_running h info rd)) h = Some info"
proof -
  have "map_of (map (\<lambda>p. if fst p = h then (h, info) else p) xs) h = Some info" if "map_of xs h \<noteq> None" for xs
    using that by (induction xs) auto
  then show ?thesis by (simp add: put_running_def map_add_def split: option.splits)
qed

lemma put_running_settings [simp]:
  "rd_multiplier (put_running h info rd) = rd_multiplier rd"
  "rd_default_timeout (put_running h info rd) = rd_default_timeout rd"
  by (simp_all add: put_running_def)

lemma job_entry_cong: "rd_running rd' = rd_running rd \<Longrightarrow> job_entry h rd' = job_entry h rd"
  by (simp add: job_entry_def)

text \<open>Starting a job sets its timeout to that of the thunk, or to the default, whatever the timeout of the
  running entry was: the back-off of an overdue job is gone once its duplicate is started. Only the
  number of restarts goes on counting.\<close>

lemma restart_forgets_backoff:
  assumes "rd_queue rd = h # q" and "cached_outputs k w h (rd_disk rd) = Inr None"
    and "g_thunks (rd_graph rd) h = Some t" and "dispatch_front w n k rd = Inr (True, rd')"
  shows "\<exists>info. map_of (rd_running rd') h = Some info \<and>
    ji_timeout info = (if th_timeout t * rd_multiplier rd' = 0 then rd_default_timeout rd'
                       else th_timeout t * rd_multiplier rd') \<and>
    ji_restarts info = ji_restarts (job_entry h rd) + 1"
  using assms(4)
proof (cases rule: dispatch_cases)
  case (executing h' q' t' rd1)
  with assms have eq: "h' = h" "t' = t" by auto
  from start_job_frame [OF executing(4)] have "job_entry h rd1 = job_entry h rd"
    by (intro job_entry_cong) simp
  moreover have "job_entry h (rd1\<lparr>rd_ticks := i\<rparr>) = job_entry h rd1" for i by (rule job_entry_cong) simp
  moreover have "rd_multiplier rd' = rd_multiplier rd1" "rd_default_timeout rd' = rd_default_timeout rd1"
    unfolding executing(5) by (simp_all add: note_running_def clock_now_def Let_def)
  ultimately show ?thesis
    unfolding executing(5) eq note_running_def clock_now_def Let_def
    by (simp add: map_of_put_running)
qed (use assms in auto)

section \<open>Connections that fail\<close>

text \<open>When the other side closes a connection early the job is dropped from the loop and no callback
  runs: the queue and the running jobs stay as they are. The job is queued again by the first timeout
  check after it is overdue, and never when timeouts are off.\<close>

lemma closed_connection_waits_for_timeout:
  assumes "map_of (rd_flights rd) i = Some (s, f)" and "map_of (rd_running rd) (fl_hash f) = Some info"
    and "handle_event w n (Peer_closed i) rd = Inr rd'"
  shows "map_of (rd_flights rd') i = None \<and> rd_queue rd' = rd_queue rd \<and> rd_running rd' = rd_running rd \<and>
    slot_engine s rd' = slot_engine s rd \<and>
    (timeout_check_interval rd \<noteq> 0 \<and> now \<ge> rd_next_check rd \<and> overdue now info \<longrightarrow>
       fl_hash f \<in> set (rd_queue (check_timeouts now rd'))) \<and>
    (timeout_check_interval rd = 0 \<longrightarrow> rd_queue (check_timeouts now rd') = rd_queue rd)"
proof -
  from assms(1,3) have rd': "rd' = rd\<lparr>rd_flights := filter (\<lambda>p. fst p \<noteq> i) (rd_flights rd)\<rparr>"
    by (simp add: handle_event_def deliver_def Let_def)
  from assms(2) have "(fl_hash f, info) \<in> set (rd_running rd)" by (rule map_of_SomeD)
  moreover have "timeout_check_interval rd' = timeout_check_interval rd"
    by (simp add: rd' timeout_check_interval_def)
  moreover have "map_of (filter (\<lambda>p. fst p \<noteq> i) (rd_flights rd)) i = None"
    by (auto simp: map_of_eq_None_iff)
  ultimately show ?thesis
    by (force simp: rd' check_timeouts_def)
qed

text \<open>With one engine working at its limit, a single socket error ends the run: the engine keeps
  counting the job that is gone, so the job that was queued again finds it full, nothing is in flight,
  and the scheduler gives up in the next round.\<close>

lemma socket_error_ends_run:
  assumes "rd_engines rd = [e]" and "rd_fallbacks rd = []" and "rd_flights rd = [(i, Primary 0, f)]"
    and "rd_queue rd = []" and "en_max_jobs e \<le> job_count e" and "timeout_check_interval rd = 0"
    and "g_thunks (rd_graph rd) (fl_hash f) = Some t" and "can_execute (en_kind e) t = Inr True"
    and "cached_outputs k w (fl_hash f) (rd_disk rd) = Inr None" and "\<not> is_finished rd"
  shows "reduce w n k (Suc m) [[Socket_error i], events] rd =
    Inl (Runtime_error ''unhandled poller failure happened, job is not finished'')"
proof -
  define e' where "e' = e\<lparr>en_start_times := removeAll i (en_start_times e)\<rparr>"
  define rd1 where "rd1 = rd\<lparr>rd_engines := [e'], rd_flights := [], rd_queue := [fl_hash f], rd_ticks := rd_ticks rd + 1\<rparr>"
  have off: "timeout_check_interval (rd\<lparr>rd_engines := [e'], rd_flights := [], rd_queue := [fl_hash f], rd_ticks := j\<rparr>) = 0" for j
    using assms(6) by (simp add: timeout_check_interval_def)
  have fin: "\<not> is_finished (rd\<lparr>rd_engines := [e'], rd_flights := [], rd_queue := [fl_hash f], rd_ticks := j\<rparr>)" for j
    using assms(10) by (simp add: is_finished_def)
  have ev: "handle_event w n (Socket_error i) rd =
      Inr (rd\<lparr>rd_engines := [e'], rd_flights := [], rd_queue := [fl_hash f]\<rparr>)"
    using assms(1,3,4)
    by (simp add: handle_event_def deliver_def slot_engine_def on_socket_error_def set_slot_engine_def
        failure_callback_def e'_def)
  have 1: "reduce_round w n k (Suc m) [Socket_error i] rd = Inr (None, rd1)"
    using assms(3,4) off fin
    by (simp add: reduce_round_def loop_once_def ev clock_now_def check_timeouts_def Let_def rd1_def)
  have front: "dispatch_front w n k rd1 = Inr (False, rd1)"
    using assms(2,5,7,8,9)
    by (simp add: dispatch_front_def rd1_def Let_def at_key_def start_job_def e'_def job_count_def)
  have 2: "reduce_round w n k (Suc m) events rd1 =
      Inl (Runtime_error ''unhandled poller failure happened, job is not finished'')"
    using front off fin
    by (simp add: reduce_round_def rd1_def loop_once_def clock_now_def check_timeouts_def Let_def)
  from 1 2 show ?thesis by simp
qed

end
