(* ===== verification/Answers.thy ===== *)
theory Answers
  imports EngineLaws Failures
begin

text \<open>
  Answers and the scheduler together: a job that was answered is found in the cache by its duplicates.
  Then a small store with two thunks, and the theorems about the scheduler at work on it.
\<close>

text \<open>After an engine has taken a successful answer, the scheduler no longer starts a duplicate of
  the job that is still in the queue: it finds the outputs of that answer in the cache, in the order of
  the thunk's tags.\<close>

lemma answered_job_is_cached:
  assumes "take_answer w f r d = Inr (response, d')" and "er_status response = Success"
    and "answer_ok response" and "env_read (world_env w) d' (fl_hash f) = Inr t"
    and "th_outputs t = map ro_tag (er_outputs response)"
    and "cache_check (wd_gg_dir w) (ro_hash (hd (er_outputs response))) d' = Inr None"
  shows "cached_outputs (Suc (Suc k)) w (fl_hash f) d' = Inr (Some (response_outputs response))"
proof -
  note cache = take_answer_cache [OF assms(1-3)]
  have chain: "cache_chain (Suc (Suc k)) w (fl_hash f) None d' = Inr (Some (ro_hash (hd (er_outputs response))))"
    using cache(2) assms(6) by simp
  have one: "cached_output w d' msg (fl_hash f) (ro_tag out) = Inr \<lparr>out_hash = ro_hash out, out_tag = ro_tag out\<rparr>"
    if "out \<in> set (er_outputs response)" for out msg
    using cache(3) [OF that] by (simp add: cached_output_def)
  have "map_res (cached_output w d' msg (fl_hash f)) (map ro_tag outs) =
      Inr (map (\<lambda>o'. \<lparr>out_hash = ro_hash o', out_tag = ro_tag o'\<rparr>) outs)"
    if "set outs \<subseteq> set (er_outputs response)" for outs msg
    using that by (induction outs) (simp_all add: one)
  then show ?thesis
    using chain assms(4,5) by (simp add: cached_outputs_def response_outputs_def del: cache_chain.simps)
qed

section \<open>A store with two thunks\<close>

definition toy_value :: string where
  "toy_value = CHR ''V'' # replicate 51 CHR ''0''"

definition toy_answer :: pb_execution_response where
  "toy_answer = \<lparr>per_executed = [\<lparr>ri_thunk_hash = ''TA'', ri_outputs =
       [\<lparr>ro_tag = ''o'', ro_hash = toy_value, ro_size = 0, ro_executable = False, ro_data = []\<rparr>]\<rparr>],
     per_return_code = 0, per_stdout = []\<rparr>"

definition toy_world :: world where
  "toy_world = \<lparr>wd_sha256 = toy_sha, wd_encode = (\<lambda>_. Some ''p''),
     wd_decode = (\<lambda>s. thunk_to_protobuf (if s = ''A'' then leaf [] else leaf [(''TA'', ''a'')])),
     wd_kernel = plain_kernel, wd_gg_dir = ''/g'', wd_environ = Map.empty,
     wd_base64_encode = (\<lambda>s. s), wd_base64_decode = (\<lambda>s. s), wd_to_json = (\<lambda>_. Some ''{}''),
     wd_from_json = (\<lambda>_. Some toy_answer), wd_crypto = \<lparr>cr_sha256 = (\<lambda>s. s), cr_hmac = (\<lambda>k s. k)\<rparr>,
     wd_credentials = \<lparr>ac_access_key = ''ak'', ac_secret_key = ''sk'', ac_session_token = None\<rparr>,
     wd_region = ''us-east-1'', wd_date = (\<lambda>_. ''20190101T000000Z''),
     wd_clock = int\<rparr>"

definition toy_disk :: disk where
  "toy_disk = [blob ''/g'' ''TA'' \<mapsto> Regular (MAGIC_NUMBER @ ''A'') 256,
     blob ''/g'' ''TB'' \<mapsto> Regular (MAGIC_NUMBER @ ''B'') 256]"

definition toy_engine :: engine where
  "toy_engine = \<lparr>en_kind = Local_engine False, en_max_jobs = 1, en_running = 0, en_start_times = []\<rparr>"

definition toy_graph :: graph where
  "toy_graph = \<lparr>g_thunks = [''TA'' \<mapsto> set_hash ''TA'' (leaf []), ''TB'' \<mapsto> set_hash ''TB'' (leaf [(''TA'', ''a'')])],
     g_referencing = [''TA'' \<mapsto> [''TB''], ''TB'' \<mapsto> []], g_value_deps = [],
     g_executable_deps = [''Vf''], g_original = Map.empty, g_updated = Map.empty\<rparr>"

definition toy_start :: reductor where
  "toy_start = \<lparr>rd_targets = [''TB''], rd_remaining = [''TB''], rd_graph = toy_graph, rd_queue = [''TA''],
     rd_running = [], rd_finished = 0, rd_default_timeout = 0, rd_multiplier = 1, rd_next_check = 0,
     rd_engines = [toy_engine], rd_fallbacks = [], rd_flights = [], rd_next_id = 0, rd_disk = toy_disk,
     rd_ticks = 1\<rparr>"

lemma toy_reads:
  "env_read (world_env toy_world) toy_disk ''TA'' = Inr (set_hash ''TA'' (leaf []))"
  "env_read (world_env toy_world) toy_disk ''TB'' = Inr (set_hash ''TB'' (leaf [(''TA'', ''a'')]))"
  by code_simp+

lemma toy_leaf: "th_thunks (set_hash h (leaf ts)) = ts" "th_values (set_hash h (leaf ts)) = []"
  "th_executables (set_hash h (leaf ts)) = [(''Vf'', [])]"
  by (simp_all add: set_hash_def leaf_def)

lemma toy_add: "add_thunk 3 (env_read (world_env toy_world) toy_disk) ''TB'' empty_graph = Inr (''TB'', toy_graph)"
  by (simp add: numeral_3_eq_3 toy_reads toy_leaf empty_graph_def updated_hash_def enter_thunk_def
      touch_referencing_def add_item_def add_referencing_def uset_insert_all_def uset_insert_def
      toy_graph_def Let_def fun_upd_twist)

lemma toy_constructed: "construct_reductor toy_world 3 [''TB''] [toy_engine] [] 0 1 toy_disk = Inr toy_start"
proof -
  have "order_one_dependencies 3 toy_graph ''TB'' = Inr [''TA'']" by code_simp
  moreover have "new_reductor toy_world [''TB''] [toy_engine] [] 0 1 toy_disk =
      toy_start\<lparr>rd_graph := empty_graph, rd_remaining := [], rd_queue := []\<rparr>"
    by (simp add: new_reductor_def toy_start_def toy_world_def)
  ultimately show ?thesis
    by (simp add: construct_reductor_def add_target_def toy_add) (simp add: toy_start_def toy_add)
qed

lemma toy_thunks: "g_thunks toy_graph x = (if x = ''TB'' then Some (set_hash ''TB'' (leaf [(''TA'', ''a'')]))
    else if x = ''TA'' then Some (set_hash ''TA'' (leaf [])) else None)"
  by (simp add: toy_graph_def)

lemma toy_depends: "depends toy_graph x k \<longleftrightarrow> x = ''TB'' \<and> k = ''TA''"
  by (auto simp: depends_iff toy_thunks toy_leaf deps_def split: if_splits)

lemma toy_ok: "graph_ok toy_graph"
proof -
  have "closed toy_graph" by (simp add: closed_def toy_depends toy_thunks)
  moreover have "refs_exact toy_graph"
    by (auto simp: refs_exact_def toy_depends toy_thunks) (simp_all add: toy_graph_def)
  moreover have "tags_ok toy_graph"
    by (auto simp: tags_ok_def toy_thunks toy_leaf named_def split: if_splits)
  moreover have "keys_ok toy_graph"
    by (auto simp: keys_ok_def toy_thunks hash_type_def split: if_splits)
  ultimately show ?thesis by (simp add: graph_ok_def)
qed

text \<open>The first thunk has been started.\<close>

definition toy_running :: reductor where
  "toy_running = toy_start\<lparr>rd_queue := [],
     rd_running := [(''TA'', \<lparr>ji_start = 1, ji_timeout = 0, ji_restarts = 0\<rparr>)],
     rd_engines := [toy_engine\<lparr>en_running := 1\<rparr>],
     rd_flights := [(0, Primary 0, \<lparr>fl_hash = ''TA'', fl_outputs = [''o'']\<rparr>)], rd_next_id := 1, rd_ticks := 2\<rparr>"

lemma toy_uncached: "cached_outputs 3 toy_world ''TA'' toy_disk = Inr None"
  by code_simp

lemma toy_force: "engine_force toy_world 0 (set_hash ''TA'' (leaf [])) toy_engine =
    Inr (\<lparr>fl_hash = ''TA'', fl_outputs = [''o'']\<rparr>, toy_engine\<lparr>en_running := 1\<rparr>)"
  by (simp add: engine_force_def toy_engine_def thunk_hash_def set_hash_def leaf_def)

lemma toy_dispatch: "dispatch_front toy_world 3 3 toy_start = Inr (True, toy_running)"
proof -
  have room: "can_execute (en_kind toy_engine) t = Inr True" "job_count toy_engine < en_max_jobs toy_engine" for t
    by (simp_all add: toy_engine_def can_execute_def job_count_def)
  show ?thesis
    by (simp add: dispatch_front_def toy_start_def toy_uncached at_key_def toy_thunks start_job_def room
        toy_force note_running_def clock_now_def put_running_def job_entry_def toy_running_def Let_def)
      (simp add: toy_world_def set_hash_def leaf_def)
qed

lemma toy_steps: "sched_steps toy_world 3 3 toy_start toy_running"
proof -
  have "moves toy_world 3 3 toy_start toy_running"
    by (rule started [where h = "''TA''" and q = "[]", OF _ _ toy_dispatch])
      (simp_all add: toy_start_def toy_uncached)
  then show ?thesis by (blast intro: sched.moved)
qed

theorem no_runnable_thunk_forgotten_witness:
  "executable_in (rd_graph toy_running) ''TA'' \<and> ''TA'' \<notin> set (rd_queue toy_running) \<and>
     ''TA'' \<in> fst ` set (rd_running toy_running)"
proof -
  have "executable_in (rd_graph toy_running) ''TA''"
    by (simp add: toy_running_def toy_start_def executable_in_def toy_thunks can_be_executed_def toy_leaf)
  moreover have "''TA'' \<notin> set (rd_queue toy_running)" by (simp add: toy_running_def)
  ultimately show ?thesis
    using no_runnable_thunk_forgotten [OF toy_constructed _ toy_steps]
    by (auto simp: toy_ok toy_start_def)
qed







lemma toy_round: "\<exists>rd. reduce toy_world 3 3 3 [[]] toy_start = Inr (None, rd) \<and>
    rd_flights rd = rd_flights toy_running \<and> rd_engines rd = rd_engines toy_running"
proof -
  have "drain_queue 3 toy_world 3 3 toy_start = Inr toy_running"
    using toy_dispatch by (simp add: numeral_3_eq_3 toy_start_def toy_running_def)
  then show ?thesis
    by (simp add: reduce_round_def loop_once_def clock_now_def check_timeouts_def timeout_check_interval_def
        is_finished_def Let_def toy_running_def toy_start_def)
qed

theorem engines_within_capacity_witness:
  "\<exists>rd. reduce toy_world 3 3 3 [[]] toy_start = Inr (None, rd) \<and> load (Primary 0) rd = 1 \<and>
     load (Primary 0) rd \<le> job_count (slot_engine (Primary 0) rd) \<and>
     job_count (slot_engine (Primary 0) rd) \<le> en_max_jobs (slot_engine (Primary 0) rd)"
proof -
  obtain rd where run: "reduce toy_world 3 3 3 [[]] toy_start = Inr (None, rd)"
    and rd: "rd_flights rd = rd_flights toy_running" "rd_engines rd = rd_engines toy_running"
    using toy_round by blast
  have "load (Primary 0) rd = 1" by (simp add: load_def rd toy_running_def)
  moreover have "\<forall>e \<in> set [toy_engine] \<union> set []. en_running e = 0 \<and> en_max_jobs e < 2 ^ 64"
    by (simp add: toy_engine_def)
  moreover have "slot_valid (Primary 0) rd" by (simp add: slot_valid_def rd toy_running_def)
  ultimately show ?thesis
    using engines_within_capacity [OF _ toy_constructed run, of "Primary 0"] run by blast
qed

lemma check_timeouts_spec_witness:
  "let rd = toy_running\<lparr>rd_default_timeout := 2000,
         rd_running := [(''TA'', \<lparr>ji_start = 1, ji_timeout = 5, ji_restarts = 2\<rparr>)]\<rparr>
   in map_of (rd_running (check_timeouts 6000001 rd)) ''TA'' =
        Some \<lparr>ji_start = 6000001, ji_timeout = 15, ji_restarts = 3\<rparr>"
proof -
  let ?info = "\<lparr>ji_start = 1, ji_timeout = 5, ji_restarts = 2\<rparr> :: job_info"
  let ?rd = "toy_running\<lparr>rd_default_timeout := 2000, rd_running := [(''TA'', ?info)]\<rparr>"
  have due: "timeout_check_interval ?rd \<noteq> 0 \<and> 6000001 \<ge> rd_next_check ?rd"
    by (simp add: timeout_check_interval_def toy_running_def toy_start_def signed_divide_int_def)
  have late: "overdue 6000001 ?info" by (simp add: overdue_def)
  show ?thesis
    using check_timeouts_spec [of ?rd 6000001] due late by auto
qed

lemma restart_forgets_backoff_witness:
  "\<exists>info. map_of (rd_running toy_running) ''TA'' = Some info \<and> ji_timeout info = 0 \<and> ji_restarts info = 0"
proof -
  have "rd_queue toy_start = ''TA'' # []" "cached_outputs 3 toy_world ''TA'' (rd_disk toy_start) = Inr None"
    "g_thunks (rd_graph toy_start) ''TA'' = Some (set_hash ''TA'' (leaf []))"
    by (simp_all add: toy_start_def toy_uncached toy_thunks)
  from restart_forgets_backoff [OF this toy_dispatch] show ?thesis
    by (simp add: toy_running_def toy_start_def job_entry_def set_hash_def leaf_def)
qed

lemma closed_connection_waits_for_timeout_witness:
  "\<exists>rd'. handle_event toy_world 3 (Peer_closed 0) toy_running = Inr rd' \<and> rd_queue rd' = [] \<and>
     map_of (rd_flights rd') 0 = None \<and> (\<forall>now. rd_queue (check_timeouts now rd') = [])"
proof -
  obtain rd' where run: "handle_event toy_world 3 (Peer_closed 0) toy_running = Inr rd'"
    by (simp add: handle_event_def deliver_def toy_running_def Let_def)
  have at: "map_of (rd_flights toy_running) 0 = Some (Primary 0, \<lparr>fl_hash = ''TA'', fl_outputs = [''o'']\<rparr>)"
    "map_of (rd_running toy_running) (fl_hash \<lparr>fl_hash = ''TA'', fl_outputs = [''o'']\<rparr>) =
      Some \<lparr>ji_start = 1, ji_timeout = 0, ji_restarts = 0\<rparr>"
    by (simp_all add: toy_running_def)
  note lost = closed_connection_waits_for_timeout [OF at run]
  have off: "timeout_check_interval toy_running = 0" "rd_queue toy_running = []"
    by (simp_all add: timeout_check_interval_def toy_running_def toy_start_def)
  have "map_of (rd_flights rd') 0 = None" "rd_queue rd' = []" using lost [of 0] off by auto
  moreover have "rd_queue (check_timeouts now rd') = []" for now using lost [of now] off by auto
  ultimately show ?thesis using run by blast
qed

definition gg_running :: reductor where
  "gg_running = toy_running\<lparr>rd_engines := [\<lparr>en_kind = GG_engine, en_max_jobs = 1, en_running = 1, en_start_times = []\<rparr>],
     rd_flights := [(0, Primary 0, \<lparr>fl_hash = ''TA'', fl_outputs = []\<rparr>)]\<rparr>"

lemma socket_error_ends_run_witness:
  "reduce toy_world 3 3 (Suc 0) [[Socket_error 0], []] gg_running =
     Inl (Runtime_error ''unhandled poller failure happened, job is not finished'')"
  by (rule socket_error_ends_run [where t = "set_hash ''TA'' (leaf [])"
      and f = "\<lparr>fl_hash = ''TA'', fl_outputs = []\<rparr>"
      and e = "\<lparr>en_kind = GG_engine, en_max_jobs = 1, en_running = 1, en_start_times = []\<rparr>"])
    (simp_all add: gg_running_def toy_running_def toy_start_def job_count_def timeout_check_interval_def
      toy_thunks can_execute_def toy_uncached is_finished_def)

definition toy_response :: http_response where
  "toy_response = new_response\<lparr>hm_state := COMPLETE, hm_first_line := ''HTTP/1.1 200 OK''\<rparr>"

lemma answered_job_is_cached_witness:
  "\<exists>response d'. take_answer toy_world \<lparr>fl_hash = ''TA'', fl_outputs = []\<rparr> toy_response toy_disk = Inr (response, d') \<and>
     cached_outputs 2 toy_world ''TA'' d' = Inr (Some [\<lparr>out_hash = toy_value, out_tag = ''o''\<rparr>])"
proof -
  let ?f = "\<lparr>fl_hash = ''TA'', fl_outputs = []\<rparr>"
  have "case take_answer toy_world ?f toy_response toy_disk of Inl _ \<Rightarrow> False
    | Inr (response, d') \<Rightarrow> er_status response = Success \<and> er_thunk_hash response = ''TA'' \<and>
        er_outputs response = [\<lparr>ro_tag = ''o'', ro_hash = toy_value, ro_size = 0, ro_executable = False, ro_data = []\<rparr>] \<and>
        env_read (world_env toy_world) d' ''TA'' = Inr (set_hash ''TA'' (leaf [])) \<and>
        cache_check ''/g'' toy_value d' = Inr None"
    by code_simp
  then obtain response d' where run: "take_answer toy_world ?f toy_response toy_disk = Inr (response, d')"
    and r: "er_status response = Success" "er_thunk_hash response = ''TA''"
      "er_outputs response = [\<lparr>ro_tag = ''o'', ro_hash = toy_value, ro_size = 0, ro_executable = False, ro_data = []\<rparr>]"
    and d': "env_read (world_env toy_world) d' ''TA'' = Inr (set_hash ''TA'' (leaf []))"
      "cache_check ''/g'' toy_value d' = Inr None"
    by (auto split: sum.splits)
  have "answer_ok response"
    by (simp add: answer_ok_def r cache_key_ok_def toy_value_def hash_length_def)
  from answered_job_is_cached [OF run r(1) this, of "set_hash ''TA'' (leaf [])" 0] d' run show ?thesis
    by (simp add: r response_outputs_def set_hash_def leaf_def toy_world_def numeral_2_eq_2)
qed

end
