(* ===== verification/Meow.thy ===== *)
theory Meow
  imports ThunkIO
begin

text \<open>
  The messages between the coordinator and its meow workers (\<open>src/execution/meow/message.cc\<close>,
  \<open>util.cc\<close>, the part of \<open>src/util/chunk.hh\<close> they use): four bytes of length in network order, one
  byte of opcode, the payload.
\<close>

section \<open>Chunks\<close>

text \<open>A chunk is the bytes it shows. The offsets are sums of 64-bit numbers that cannot wrap here.\<close>

definition bounds_check :: "nat \<Rightarrow> string \<Rightarrow> unit res" where
  "bounds_check n chunk =
     (if length chunk < n then Inl (Out_of_range ''attempted to read past end of chunk'') else Inr ())"

definition sub_chunk :: "nat \<Rightarrow> nat \<Rightarrow> string \<Rightarrow> string res" where
  "sub_chunk offset len chunk =
     bind_res (bounds_check offset chunk) (\<lambda>_.
     bind_res (bounds_check (offset + len) chunk) (\<lambda>_. Inr (take len (drop offset chunk))))"

definition chunk_from :: "nat \<Rightarrow> string \<Rightarrow> string res" where
  "chunk_from offset chunk = sub_chunk offset (length chunk - offset) chunk"

definition octet :: "string \<Rightarrow> char res" where
  "octet chunk = bind_res (bounds_check 1 chunk) (\<lambda>_. Inr (hd chunk))"

definition be_value :: "string \<Rightarrow> nat" where
  "be_value bytes = foldl (\<lambda>acc c. acc * 256 + of_char c) 0 bytes"

definition be32 :: "string \<Rightarrow> 64 word res" where
  "be32 chunk = bind_res (bounds_check 4 chunk) (\<lambda>_. Inr (of_nat (be_value (take 4 chunk))))"

section \<open>Messages\<close>

text \<open>\<open>static_cast\<close> keeps a byte that is no enumerator.\<close>

datatype opcode =
  Hey | Put | Get | Ping | Pong | Execute | Executed | ExecutionFailed | Bye | Other_opcode char

definition opcode_names :: "opcode list" where
  "opcode_names = [Hey, Put, Get, Ping, Pong, Execute, Executed, ExecutionFailed, Bye]"

definition opcode_of :: "char \<Rightarrow> opcode" where
  "opcode_of c =
     (let n = of_char c :: nat
      in if 1 \<le> n \<and> n \<le> length opcode_names then opcode_names ! (n - 1) else Other_opcode c)"

fun opcode_byte :: "opcode \<Rightarrow> char" where
  "opcode_byte Hey = char_of (1 :: nat)"
| "opcode_byte Put = char_of (2 :: nat)"
| "opcode_byte Get = char_of (3 :: nat)"
| "opcode_byte Ping = char_of (4 :: nat)"
| "opcode_byte Pong = char_of (5 :: nat)"
| "opcode_byte Execute = char_of (6 :: nat)"
| "opcode_byte Executed = char_of (7 :: nat)"
| "opcode_byte ExecutionFailed = char_of (8 :: nat)"
| "opcode_byte Bye = char_of (9 :: nat)"
| "opcode_byte (Other_opcode c) = c"

record meow_message =
  mm_length :: "32 word"
  mm_opcode :: opcode
  mm_payload :: string

definition put_field :: "32 word \<Rightarrow> string" where
  "put_field n = map (\<lambda>i. char_of (unat n div 256 ^ i)) [3, 2, 1, 0]"

definition new_message :: "opcode \<Rightarrow> string \<Rightarrow> meow_message" where
  "new_message opc payload = \<lparr>mm_length = of_nat (length payload), mm_opcode = opc, mm_payload = payload\<rparr>"

definition message_of_chunk :: "string \<Rightarrow> meow_message res" where
  "message_of_chunk chunk =
     (if length chunk < 5 then Inl (Out_of_range ''incomplete header'')
      else bind_res (sub_chunk 0 4 chunk) (\<lambda>c. bind_res (be32 c) (\<lambda>n.
           bind_res (sub_chunk 4 1 chunk) (\<lambda>c. bind_res (octet c) (\<lambda>opc.
           bind_res (chunk_from 5 chunk) (\<lambda>payload.
             Inr \<lparr>mm_length = ucast n, mm_opcode = opcode_of opc, mm_payload = payload\<rparr>))))))"

definition meow_str :: "meow_message \<Rightarrow> string" where
  "meow_str m = put_field (mm_length m) @ opcode_byte (mm_opcode m) # mm_payload m"

text \<open>The sum is 64 bits wide and cut to 32.\<close>

definition expected_length :: "string \<Rightarrow> 32 word res" where
  "expected_length chunk =
     (if length chunk < 5 then Inr 5
      else bind_res (sub_chunk 0 4 chunk) (\<lambda>c. bind_res (be32 c) (\<lambda>n. Inr (ucast (5 + n)))))"

section \<open>The parser\<close>

record meow_parser =
  mp_raw :: string
  mp_completed :: "meow_message list"

definition new_meow_parser :: meow_parser where
  "new_meow_parser = \<lparr>mp_raw = [], mp_completed = []\<rparr>"

function meow_loop :: "meow_parser \<Rightarrow> meow_parser res" where
  "meow_loop p =
     (case expected_length (mp_raw p) of
        Inl e \<Rightarrow> Inl e
      | Inr n \<Rightarrow>
          if length (mp_raw p) < unat n then Inr p
          else case message_of_chunk (take (unat n) (mp_raw p)) of
                 Inl e \<Rightarrow> Inl e
               | Inr m \<Rightarrow> meow_loop (p\<lparr>mp_raw := drop (unat n) (mp_raw p), mp_completed := mp_completed p @ [m]\<rparr>))"
  by pat_completeness auto

text \<open>A message that can be built has taken five bytes at least.\<close>

termination
  by (relation "measure (\<lambda>p. length (mp_raw p))") (auto simp: message_of_chunk_def split: if_splits)

declare meow_loop.simps [simp del]

definition meow_parse :: "string \<Rightarrow> meow_parser \<Rightarrow> meow_parser res" where
  "meow_parse buf p = meow_loop (p\<lparr>mp_raw := mp_raw p @ buf\<rparr>)"

section \<open>Objects and jobs as messages\<close>

definition handle_put_message ::
  "(string \<Rightarrow> string) \<Rightarrow> kernel \<Rightarrow> string \<Rightarrow> meow_message \<Rightarrow> disk \<Rightarrow> (string \<times> disk) res" where
  "handle_put_message sha256 k gg_dir m d =
     bind_res (assert_res (mm_opcode m = Put)) (\<lambda>_.
       let data = mm_payload m;
           ty = (if take (length MAGIC_NUMBER) data \<noteq> MAGIC_NUMBER then Value else Thunk);
           h = hash_compute sha256 data ty
       in bind_res (atomic_create k data (blob gg_dir h) None d) (\<lambda>d'. Inr (h, d')))"

definition create_put_message :: "string \<Rightarrow> string \<Rightarrow> disk \<Rightarrow> meow_message res" where
  "create_put_message gg_dir h d =
     bind_res (read_file (blob gg_dir h) d) (\<lambda>requested_file. Inr (new_message Put requested_file))"

text \<open>\<open>encode_request\<close> is the protobuf encoding of a request for one thunk.\<close>

definition create_execute_message ::
  "(string \<Rightarrow> string) \<Rightarrow> (pb_thunk \<Rightarrow> string option) \<Rightarrow> (string \<Rightarrow> string) \<Rightarrow>
     (request_item \<Rightarrow> string) \<Rightarrow> thunk \<Rightarrow> meow_message res" where
  "create_execute_message sha256 encode base64 encode_request t =
     bind_res (execution_request_of sha256 encode base64 t) (\<lambda>item.
       Inr (new_message Execute (encode_request item)))"

section \<open>However the bytes are cut\<close>

lemma bounds_check_Inr [simp]: "bounds_check n chunk = Inr u \<longleftrightarrow> n \<le> length chunk"
  by (simp add: bounds_check_def)

lemma header_parts:
  assumes "5 \<le> length chunk"
  shows "sub_chunk 0 4 chunk = Inr (take 4 chunk)" "sub_chunk 4 1 chunk = Inr [chunk ! 4]"
    "chunk_from 5 chunk = Inr (drop 5 chunk)" "be32 (take 4 chunk) = Inr (of_nat (be_value (take 4 chunk)))"
    "octet [c] = Inr c"
proof -
  from assms have "take 1 (drop 4 chunk) = [chunk ! 4]" by (simp add: take_Suc_conv_app_nth hd_drop_conv_nth take_Suc)
  with assms show "sub_chunk 4 1 chunk = Inr [chunk ! 4]" by (simp add: sub_chunk_def bounds_check_def)
qed (use assms in \<open>simp_all add: sub_chunk_def bounds_check_def chunk_from_def be32_def octet_def\<close>)

lemma expected_length_long:
  "5 \<le> length chunk \<Longrightarrow> expected_length chunk = Inr (ucast (5 + of_nat (be_value (take 4 chunk)) :: 64 word))"
  by (simp add: expected_length_def header_parts)

lemma expected_length_total: "\<exists>n. expected_length chunk = Inr n"
  by (cases "length chunk < 5") (auto simp: expected_length_def header_parts)

lemma message_of_chunk_short: "message_of_chunk chunk = Inr m \<Longrightarrow> 5 \<le> length chunk"
  by (simp add: message_of_chunk_def split: if_splits)

text \<open>One round of the loop, as a step: a message is taken from the front, or the parser waits, or fails.\<close>

datatype meow_round = Waits | Fails error | Takes meow_message nat

definition meow_front :: "string \<Rightarrow> meow_round" where
  "meow_front raw =
     (case expected_length raw of
        Inl e \<Rightarrow> Fails e
      | Inr n \<Rightarrow> if length raw < unat n then Waits
                else case message_of_chunk (take (unat n) raw) of Inl e \<Rightarrow> Fails e | Inr m \<Rightarrow> Takes m (unat n))"

lemma meow_loop_front:
  "meow_loop p =
     (case meow_front (mp_raw p) of
        Waits \<Rightarrow> Inr p
      | Fails e \<Rightarrow> Inl e
      | Takes m n \<Rightarrow> meow_loop (p\<lparr>mp_raw := drop n (mp_raw p), mp_completed := mp_completed p @ [m]\<rparr>))"
  by (subst meow_loop.simps) (simp add: meow_front_def split: sum.splits)

lemma meow_front_takes: "meow_front raw = Takes m n \<Longrightarrow> 5 \<le> n \<and> n \<le> length raw"
  by (auto simp: meow_front_def dest!: message_of_chunk_short split: sum.splits if_splits)

lemma meow_front_drop:
  assumes "meow_front raw = Takes m n"
  shows "length (drop n raw) < length raw"
  using meow_front_takes [OF assms] unfolding length_drop by linarith

lemma meow_front_append:
  assumes "meow_front raw \<noteq> Waits"
  shows "meow_front (raw @ bs) = meow_front raw"
proof (cases "5 \<le> length raw")
  case True
  obtain n where n: "expected_length raw = Inr n" using expected_length_total by blast
  moreover from n True have "expected_length (raw @ bs) = Inr n"
    by (simp add: expected_length_long)
  ultimately show ?thesis using assms by (auto simp: meow_front_def split: if_splits)
next
  case False
  then have "expected_length raw = Inr 5" by (simp add: expected_length_def)
  with False assms show ?thesis by (simp add: meow_front_def)
qed

lemma meow_loop_append:
  "meow_loop (p\<lparr>mp_raw := mp_raw p @ bs\<rparr>) =
     bind_res (meow_loop p) (\<lambda>p'. meow_loop (p'\<lparr>mp_raw := mp_raw p' @ bs\<rparr>))"
proof (induction "length (mp_raw p)" arbitrary: p rule: less_induct)
  case less
  show ?case
  proof (cases "meow_front (mp_raw p)")
    case Waits
    then show ?thesis by (subst (2) meow_loop_front) simp
  next
    case (Fails e)
    with meow_front_append [of "mp_raw p" bs] show ?thesis
      by (subst (1 2) meow_loop_front) simp
  next
    case (Takes m n)
    let ?p = "p\<lparr>mp_raw := drop n (mp_raw p), mp_completed := mp_completed p @ [m]\<rparr>"
    note len = meow_front_takes [OF Takes]
    have "meow_loop (p\<lparr>mp_raw := mp_raw p @ bs\<rparr>) = meow_loop (?p\<lparr>mp_raw := mp_raw ?p @ bs\<rparr>)"
      using meow_front_append [of "mp_raw p" bs] Takes len by (subst meow_loop_front) (cases p, simp)
    also have "\<dots> = bind_res (meow_loop ?p) (\<lambda>p'. meow_loop (p'\<lparr>mp_raw := mp_raw p' @ bs\<rparr>))"
      using meow_front_drop [OF Takes] by (intro less) simp
    also have "meow_loop ?p = meow_loop p" by (subst (2) meow_loop_front) (simp add: Takes)
    finally show ?thesis .
  qed
qed

lemma meow_loop_idle: "meow_loop p = Inr p' \<Longrightarrow> meow_loop p' = Inr p'"
proof (induction "length (mp_raw p)" arbitrary: p rule: less_induct)
  case less
  show ?case
  proof (cases "meow_front (mp_raw p)")
    case Waits
    then have "meow_loop p = Inr p" by (subst meow_loop_front) simp
    with less.prems show ?thesis by simp
  next
    case (Fails e)
    with less.prems show ?thesis by (subst (asm) meow_loop_front) simp
  next
    case (Takes m n)
    with less.prems have "meow_loop (p\<lparr>mp_raw := drop n (mp_raw p), mp_completed := mp_completed p @ [m]\<rparr>) = Inr p'"
      by (subst (asm) meow_loop_front) simp
    moreover have "length (mp_raw (p\<lparr>mp_raw := drop n (mp_raw p), mp_completed := mp_completed p @ [m]\<rparr>)) < length (mp_raw p)"
      using meow_front_drop [OF Takes] by simp
    ultimately show ?thesis using less.hyps by blast
  qed
qed

lemma meow_parse_segments:
  "meow_loop p = Inr p \<Longrightarrow> fold_res meow_parse segs p = meow_loop (p\<lparr>mp_raw := mp_raw p @ concat segs\<rparr>)"
proof (induction segs arbitrary: p)
  case (Cons s segs)
  show ?case
  proof (cases "meow_parse s p")
    case (Inl e)
    then have "meow_loop (p\<lparr>mp_raw := mp_raw p @ s\<rparr>) = Inl e" by (simp add: meow_parse_def)
    with meow_loop_append [of "p\<lparr>mp_raw := mp_raw p @ s\<rparr>" "concat segs"] Inl show ?thesis by simp
  next
    case (Inr p')
    then have p': "meow_loop (p\<lparr>mp_raw := mp_raw p @ s\<rparr>) = Inr p'" by (simp add: meow_parse_def)
    with meow_loop_append [of "p\<lparr>mp_raw := mp_raw p @ s\<rparr>" "concat segs"]
      Cons.IH [OF meow_loop_idle [OF p']] Inr show ?thesis by simp
  qed
qed simp

section \<open>Writing and reading\<close>

definition wire_message :: "meow_message \<Rightarrow> bool" where
  "wire_message m \<longleftrightarrow> mm_length m = of_nat (length (mm_payload m)) \<and> length (mm_payload m) + 5 < 2 ^ 32 \<and>
     opcode_of (opcode_byte (mm_opcode m)) = mm_opcode m"

lemma be_value_put_field: "be_value (put_field n) = unat n"
proof -
  define u where "u = unat n"
  have "u < 2 ^ 32" using unsigned_less [of n] by (simp add: u_def)
  then have 3: "u div 16777216 mod 256 = u div 16777216" by simp
  have e2: "u div 65536 = u div 256 div 256" and e3: "u div 16777216 = u div 65536 div 256"
    by (simp_all add: div_mult2_eq [symmetric])
  have "be_value (put_field n) = ((u div 16777216 mod 256 * 256 + u div 65536 mod 256) * 256
      + u div 256 mod 256) * 256 + u mod 256"
    by (simp add: be_value_def put_field_def u_def)
  also have "u div 16777216 mod 256 * 256 + u div 65536 mod 256 = u div 65536"
    by (simp only: 3) (simp only: e3 div_mult_mod_eq)
  also have "u div 65536 * 256 + u div 256 mod 256 = u div 256"
    by (simp only: e2 div_mult_mod_eq)
  also have "u div 256 * 256 + u mod 256 = u" by (rule div_mult_mod_eq)
  finally show ?thesis by (simp add: u_def)
qed

lemma length_put_field [simp]: "length (put_field n) = 4"
  by (simp add: put_field_def)

lemma be32_put_field: "be32 (put_field n) = Inr (of_nat (unat n))"
  by (simp add: be32_def bounds_check_def be_value_put_field)

lemma meow_front_str:
  assumes "wire_message m"
  shows "meow_front (meow_str m @ rest) = Takes m (5 + length (mm_payload m))"
proof -
  let ?l = "length (mm_payload m)"
  have l: "?l < 2 ^ 32" "?l + 5 < 2 ^ 32" using assms by (auto simp: wire_message_def)
  have u: "unat (mm_length m) = ?l"
    using assms l by (simp add: wire_message_def unat_of_nat take_bit_nat_eq_self)
  have take4: "take 4 (meow_str m @ rest) = put_field (mm_length m)" by (simp add: meow_str_def)
  have whole: "take (5 + ?l) (meow_str m @ rest) = meow_str m" by (simp add: meow_str_def)
  have "(ucast (of_nat (5 + ?l) :: 64 word) :: 32 word) = of_nat (5 + ?l)"
    using l by (simp only: unsigned_of_nat) (simp add: take_bit_nat_eq_self)
  then have "(ucast (5 + of_nat ?l :: 64 word) :: 32 word) = of_nat (5 + ?l)" by simp
  then have exp: "expected_length (meow_str m @ rest) = Inr (of_nat (5 + ?l))"
    by (subst expected_length_long) (simp_all add: take4 be_value_put_field u meow_str_def)
  have n: "unat (of_nat (5 + ?l) :: 32 word) = 5 + ?l"
    using l by (simp only: unat_of_nat) (simp add: take_bit_nat_eq_self)
  have 5: "5 \<le> length (meow_str m)" by (simp add: meow_str_def)
  have "take 4 (meow_str m) = put_field (mm_length m)" "meow_str m ! 4 = opcode_byte (mm_opcode m)"
    "drop 5 (meow_str m) = mm_payload m" by (simp_all add: meow_str_def nth_append)
  with header_parts [OF 5] have parts: "sub_chunk 0 4 (meow_str m) = Inr (put_field (mm_length m))"
    "sub_chunk 4 1 (meow_str m) = Inr [opcode_byte (mm_opcode m)]" "chunk_from 5 (meow_str m) = Inr (mm_payload m)"
    by simp_all
  have "(ucast (of_nat ?l :: 64 word) :: 32 word) = mm_length m"
    using assms l by (simp add: wire_message_def unsigned_of_nat take_bit_nat_eq_self)
  with 5 assms have msg: "message_of_chunk (meow_str m) = Inr m"
    unfolding message_of_chunk_def parts bind_res_Inr be32_put_field u header_parts(5) [OF 5]
    by (cases m) (simp add: wire_message_def)
  have "5 + ?l \<le> length (meow_str m @ rest)" by (simp add: meow_str_def)
  then show ?thesis
    unfolding meow_front_def exp sum.case n whole msg by simp
qed

lemma meow_loop_messages:
  "\<forall>m \<in> set ms. wire_message m \<Longrightarrow> mp_raw p = concat (map meow_str ms) \<Longrightarrow>
     meow_loop p = Inr \<lparr>mp_raw = [], mp_completed = mp_completed p @ ms\<rparr>"
proof (induction ms arbitrary: p)
  case Nil
  then have "meow_front (mp_raw p) = Waits" by (simp add: meow_front_def expected_length_def)
  with Nil show ?case by (subst meow_loop_front) (cases p, simp)
next
  case (Cons m ms)
  let ?p = "p\<lparr>mp_raw := concat (map meow_str ms), mp_completed := mp_completed p @ [m]\<rparr>"
  have raw: "mp_raw p = meow_str m @ concat (map meow_str ms)" using Cons.prems(2) by simp
  have "drop (5 + length (mm_payload m)) (mp_raw p) = concat (map meow_str ms)"
    unfolding raw by (simp add: meow_str_def)
  moreover have "meow_front (mp_raw p) = Takes m (5 + length (mm_payload m))"
    unfolding raw by (rule meow_front_str) (use Cons.prems(1) in simp)
  ultimately have "meow_loop p = meow_loop ?p" by (subst meow_loop_front) simp
  with Cons.IH [of ?p] Cons.prems show ?case by simp
qed

text \<open>Messages written one after another, each with a payload of less than four gigabytes, are read
  back as the same messages in the same order, with nothing left over, however the bytes are cut on
  the way.\<close>

lemma meow_messages_roundtrip:
  assumes "\<forall>m \<in> set ms. wire_message m" and "concat segs = concat (map meow_str ms)"
  shows "fold_res meow_parse segs new_meow_parser = Inr \<lparr>mp_raw = [], mp_completed = ms\<rparr>"
proof -
  have "meow_loop new_meow_parser = Inr new_meow_parser"
    using meow_loop_messages [of "[]" new_meow_parser] by (simp add: new_meow_parser_def)
  from meow_parse_segments [OF this, of segs] assms(2)
    meow_loop_messages [OF assms(1), of "new_meow_parser\<lparr>mp_raw := concat (map meow_str ms)\<rparr>"]
  show ?thesis by (simp add: new_meow_parser_def)
qed

lemma meow_messages_roundtrip_witness:
  "fold_res meow_parse (map (\<lambda>c. [c]) (concat (map meow_str [new_message Hey ''hi'', new_message Put []])))
     new_meow_parser = Inr \<lparr>mp_raw = [], mp_completed = [new_message Hey ''hi'', new_message Put []]\<rparr>"
proof (rule meow_messages_roundtrip)
  have "concat (map (\<lambda>c. [c]) s) = s" for s :: string by (induction s) simp_all
  then show "concat (map (\<lambda>c. [c]) (concat (map meow_str [new_message Hey ''hi'', new_message Put []]))) =
      concat (map meow_str [new_message Hey ''hi'', new_message Put []])" .
qed (simp add: wire_message_def new_message_def opcode_of_def opcode_names_def)

end
