(* ===== verification/MeowEngine.thy ===== *)
theory MeowEngine
  imports Engine Meow
begin

text \<open>
  The engine that keeps Lambda workers connected (\<open>src/execution/engine_meow.cc\<close>): workers connect to
  the coordinator, get the objects a thunk needs and the thunk, and answer with its results. A thunk
  for which no worker is free waits until the worker that is invoked for it connects.
\<close>

section \<open>State\<close>

text \<open>The coordinator's address, and the protobuf messages of \<open>meow.proto\<close> and \<open>gg.proto\<close> in JSON and in
  binary form.\<close>

record meow_io =
  mi_coordinator :: string
  mi_invocation_json :: "string \<Rightarrow> string \<Rightarrow> bool \<Rightarrow> string option"
  mi_encode_item :: "request_item \<Rightarrow> string"
  mi_decode_item :: "string \<Rightarrow> pb_response_item"

datatype lambda_state = Idle | Busy

text \<open>\<open>lw_written\<close> is everything that was put into the connection's write buffer so far, \<open>lw_parser\<close> the
  parser that the connection's callback owns.\<close>

record lambda_worker =
  lw_id :: nat
  lw_state :: lambda_state
  lw_written :: string
  lw_objects :: "string list"
  lw_executing :: "thunk option"
  lw_parser :: meow_parser

record meow_engine =
  me_max_jobs :: nat
  me_running :: "64 word"
  me_current_id :: nat
  me_lambdas :: "nat \<rightharpoonup> lambda_worker"
  me_free :: "nat list"
  me_queue :: "thunk list"
  me_invocations :: "http_message list"

definition new_meow_engine :: "nat \<Rightarrow> meow_engine res" where
  "new_meow_engine max_jobs =
     (if max_jobs = 0 then Inl (Runtime_error ''max jobs cannot be zero'')
      else Inr \<lparr>me_max_jobs = max_jobs, me_running = 0, me_current_id = 0, me_lambdas = Map.empty,
             me_free = [], me_queue = [], me_invocations = []\<rparr>)"

definition meow_job_count :: "meow_engine \<Rightarrow> nat" where
  "meow_job_count e = unat (me_running e)"

definition meow_can_execute :: "thunk \<Rightarrow> bool res" where
  "meow_can_execute t = bind_res (infiles_size True t) (\<lambda>s. Inr (s < 200 * MiB))"

definition generate_request_meow :: "world \<Rightarrow> meow_io \<Rightarrow> nat \<Rightarrow> http_message res" where
  "generate_request_meow w io req_id =
     bind_res (storage_backend_uri (wd_environ w)) (\<lambda>uri.
       case mi_invocation_json io (mi_coordinator io) uri (wd_environ w ''GG_TIMELOG'' \<noteq> None) of
         None \<Rightarrow> Inl (Runtime_error ''cannot convert protobuf to json'')
       | Some payload \<Rightarrow>
           to_http_request (lambda_invocation_request (wd_crypto w) (wd_credentials w) (wd_region w)
             (wd_date w req_id) ''gg-meow-function'' payload EVENT NONE ''e30=''))"

section \<open>Giving a thunk to a worker\<close>

definition thunk_items :: "thunk \<Rightarrow> string list" where
  "thunk_items t = map fst (th_values t @ th_executables t)"

definition send_object :: "world \<Rightarrow> disk \<Rightarrow> string list \<Rightarrow> string \<Rightarrow> string \<Rightarrow> string res" where
  "send_object w d have h written =
     (if h \<in> set have then Inr written
      else bind_res (create_put_message (wd_gg_dir w) h d) (\<lambda>m. Inr (written @ meow_str m)))"

definition prepare_lambda ::
  "world \<Rightarrow> meow_io \<Rightarrow> disk \<Rightarrow> nat \<Rightarrow> thunk \<Rightarrow> meow_engine \<Rightarrow> meow_engine res" where
  "prepare_lambda w io d i t e =
     bind_res (at_key (me_lambdas e) i) (\<lambda>l.
     bind_res (fold_res (send_object w d (lw_objects l)) (thunk_items t) (lw_written l)) (\<lambda>written.
     bind_res (create_execute_message (wd_sha256 w) (wd_encode w) (wd_base64_encode w) (mi_encode_item io) t)
       (\<lambda>m. Inr (e\<lparr>me_lambdas := (me_lambdas e)(i \<mapsto>
                     l\<lparr>lw_written := written @ meow_str m, lw_objects := uset_insert_all (thunk_items t) [],
                       lw_state := Busy, lw_executing := Some t\<rparr>),
                   me_free := removeAll i (me_free e)\<rparr>))))"

definition common_size :: "string list \<Rightarrow> lambda_worker \<Rightarrow> 64 word res" where
  "common_size objects l =
     fold_res (\<lambda>obj size. if obj \<in> set (lw_objects l)
                          then bind_res (hash_size obj) (\<lambda>s. Inr (size + ucast s)) else Inr size) objects 0"

text \<open>\<open>SelectionStrategy::MostObjects\<close>: the first free worker with the greatest number of bytes in
  common, or the first free worker when nobody has any.\<close>

definition most_objects ::
  "string list \<Rightarrow> meow_engine \<Rightarrow> nat \<Rightarrow> nat option \<times> 64 word \<Rightarrow> (nat option \<times> 64 word) res" where
  "most_objects objects e i best =
     bind_res (at_key (me_lambdas e) i) (\<lambda>l.
     bind_res (common_size objects l) (\<lambda>size.
       Inr (if size > snd best then (Some i, size) else best)))"

text \<open>\<open>SelectionStrategy::LargestObject\<close>.\<close>

definition larger_object :: "string \<Rightarrow> string \<times> 32 word \<Rightarrow> (string \<times> 32 word) res" where
  "larger_object h best =
     bind_res (hash_size h) (\<lambda>size. Inr (if size > snd best then (h, size) else best))"

fun first_with :: "string \<Rightarrow> meow_engine \<Rightarrow> nat list \<Rightarrow> nat option res" where
  "first_with h e [] = Inr None"
| "first_with h e (i # is') =
     bind_res (at_key (me_lambdas e) i) (\<lambda>l.
       if h \<in> set (lw_objects l) then Inr (Some i) else first_with h e is')"

datatype selection_strategy = First | Random | MostObjects | LargestObject | LRU

definition pick_lambda :: "thunk \<Rightarrow> selection_strategy \<Rightarrow> meow_engine \<Rightarrow> nat res" where
  "pick_lambda t s e =
     (case me_free e of
        [] \<Rightarrow> Inl (Runtime_error ''No free lambdas to pick from.'')
      | first # _ \<Rightarrow>
          (case s of
             First \<Rightarrow> Inr first
           | MostObjects \<Rightarrow>
               bind_res (fold_res (most_objects (uset_insert_all (thunk_items t) []) e) (me_free e) (None, 0))
                 (\<lambda>(selected, _). Inr (case selected of Some i \<Rightarrow> i | None \<Rightarrow> first))
           | LargestObject \<Rightarrow>
               bind_res (fold_res larger_object (thunk_items t) ([], 0)) (\<lambda>(largest_hash, _).
               bind_res (if length largest_hash > 0 then first_with largest_hash e (me_free e) else Inr None)
                 (\<lambda>found. Inr (case found of Some i \<Rightarrow> i | None \<Rightarrow> first)))
           | _ \<Rightarrow> Inl (Runtime_error ''invalid selection strategy'')))"

definition meow_force_thunk ::
  "world \<Rightarrow> meow_io \<Rightarrow> nat \<Rightarrow> disk \<Rightarrow> thunk \<Rightarrow> meow_engine \<Rightarrow> meow_engine res" where
  "meow_force_thunk w io req_id d t e0 =
     (let e = e0\<lparr>me_running := me_running e0 + 1\<rparr>
      in if length (me_free e) > 0 then
           bind_res (pick_lambda t MostObjects e) (\<lambda>picked. prepare_lambda w io d picked t e)
         else bind_res (generate_request_meow w io req_id) (\<lambda>request.
           Inr (e\<lparr>me_queue := me_queue e @ [t], me_invocations := me_invocations e @ [request]\<rparr>)))"

section \<open>What the workers do\<close>

definition on_connect :: "world \<Rightarrow> meow_io \<Rightarrow> disk \<Rightarrow> meow_engine \<Rightarrow> meow_engine res" where
  "on_connect w io d e =
     (let i = me_current_id e;
          l = \<lparr>lw_id = i, lw_state = Idle, lw_written = [], lw_objects = [], lw_executing = None,
               lw_parser = new_meow_parser\<rparr>;
          e1 = e\<lparr>me_lambdas := (case me_lambdas e i of
                                  None \<Rightarrow> (me_lambdas e)(i \<mapsto> l) | Some _ \<Rightarrow> me_lambdas e),
                 me_free := insort_insert i (me_free e)\<rparr>
      in bind_res
           (case me_queue e1 of
              [] \<Rightarrow> Inr e1
            | t # ts \<Rightarrow> bind_res (prepare_lambda w io d i t e1) (\<lambda>e2. Inr (e2\<lparr>me_queue := ts\<rparr>)))
           (\<lambda>e2. Inr (e2\<lparr>me_current_id := me_current_id e2 + 1\<rparr>)))"

definition on_executed ::
  "world \<Rightarrow> nat \<Rightarrow> pb_response_item \<Rightarrow> meow_engine \<Rightarrow> disk \<Rightarrow> (job_event \<times> meow_engine \<times> disk) res" where
  "on_executed w i item e d =
     bind_res (fold_res (store_output w (ri_thunk_hash item)) (ri_outputs item) d) (\<lambda>d1.
     bind_res (case ri_outputs item of
                 [] \<Rightarrow> Inl Undefined_behaviour
               | out # _ \<Rightarrow> cache_insert (wd_kernel w) (wd_gg_dir w) (ri_thunk_hash item) (ro_hash out) d1) (\<lambda>d2.
     bind_res (at_key (me_lambdas e) i) (\<lambda>l.
       Inr (Succeeded (ri_thunk_hash item)
              (map (\<lambda>o'. \<lparr>out_hash = ro_hash o', out_tag = ro_tag o'\<rparr>) (ri_outputs item)),
            e\<lparr>me_lambdas := (me_lambdas e)(i \<mapsto> l\<lparr>lw_state := Idle\<rparr>),
              me_free := insort_insert i (me_free e), me_running := me_running e - 1\<rparr>, d2))))"

definition handle_message ::
  "world \<Rightarrow> meow_io \<Rightarrow> nat \<Rightarrow> meow_message \<Rightarrow> meow_engine \<Rightarrow> disk \<Rightarrow>
     (job_event option \<times> meow_engine \<times> disk) res" where
  "handle_message w io i m e d =
     (case mm_opcode m of
        Hey \<Rightarrow> Inr (None, e, d)
      | Put \<Rightarrow>
          bind_res (handle_put_message (wd_sha256 w) (wd_kernel w) (wd_gg_dir w) m d) (\<lambda>(_, d').
            Inr (None, e, d'))
      | Executed \<Rightarrow>
          bind_res (on_executed w i (mi_decode_item io (mm_payload m)) e d) (\<lambda>(je, e', d').
            Inr (Some je, e', d'))
      | _ \<Rightarrow> Inl (Runtime_error ''unexpected opcode''))"

text \<open>Data from worker \<open>i\<close>: the messages it completes are handled one after the other, each success
  reported before the next message is looked at. \<open>success\<close> is the callback of the scheduler, whose
  state it threads.\<close>

fun handle_messages ::
  "world \<Rightarrow> meow_io \<Rightarrow> (job_event \<Rightarrow> disk \<times> 's \<Rightarrow> (disk \<times> 's) res) \<Rightarrow> nat \<Rightarrow> meow_message list \<Rightarrow>
     meow_engine \<times> disk \<times> 's \<Rightarrow> (meow_engine \<times> disk \<times> 's) res" where
  "handle_messages w io success i [] st = Inr st"
| "handle_messages w io success i (m # ms) (e, d, s) =
     bind_res (handle_message w io i m e d) (\<lambda>(je, e1, d1).
     bind_res (case je of None \<Rightarrow> Inr (d1, s) | Some j \<Rightarrow> success j (d1, s)) (\<lambda>(d2, s2).
       handle_messages w io success i ms (e1, d2, s2)))"

definition on_data ::
  "world \<Rightarrow> meow_io \<Rightarrow> (job_event \<Rightarrow> disk \<times> 's \<Rightarrow> (disk \<times> 's) res) \<Rightarrow> nat \<Rightarrow> string \<Rightarrow>
     meow_engine \<times> disk \<times> 's \<Rightarrow> (meow_engine \<times> disk \<times> 's) res" where
  "on_data w io success i data st =
     (case st of (e, d, s) \<Rightarrow>
        bind_res (at_key (me_lambdas e) i) (\<lambda>l.
        bind_res (meow_parse data (lw_parser l)) (\<lambda>p.
          handle_messages w io success i (mp_completed p)
            (e\<lparr>me_lambdas := (me_lambdas e)(i \<mapsto> l\<lparr>lw_parser := p\<lparr>mp_completed := []\<rparr>\<rparr>)\<rparr>, d, s))))"

end
