(* ===== verification/MeowLaws.thy ===== *)
theory MeowLaws
  imports MeowEngine Answers
begin

text \<open>
  The meow engine keeps a pool of workers. The abstract pool has idle workers, busy workers with their
  thunk, and waiting thunks; the engine's maps, sets and counter implement it.
\<close>

section \<open>The pool\<close>

record pool =
  po_idle :: "nat set"
  po_busy :: "nat \<rightharpoonup> thunk"
  po_waiting :: "thunk list"

inductive pool_step :: "pool \<Rightarrow> pool \<Rightarrow> bool" where
  submit_idle: "i \<in> po_idle p \<Longrightarrow>
     pool_step p (p\<lparr>po_idle := po_idle p - {i}, po_busy := (po_busy p)(i \<mapsto> t)\<rparr>)"
| submit_wait: "po_idle p = {} \<Longrightarrow> pool_step p (p\<lparr>po_waiting := po_waiting p @ [t]\<rparr>)"
| join_idle: "i \<notin> po_idle p \<Longrightarrow> po_busy p i = None \<Longrightarrow> po_waiting p = [] \<Longrightarrow>
     pool_step p (p\<lparr>po_idle := insert i (po_idle p)\<rparr>)"
| join_busy: "i \<notin> po_idle p \<Longrightarrow> po_busy p i = None \<Longrightarrow> po_waiting p = t # ts \<Longrightarrow>
     pool_step p (p\<lparr>po_busy := (po_busy p)(i \<mapsto> t), po_waiting := ts\<rparr>)"
| finish: "po_busy p i = Some t \<Longrightarrow>
     pool_step p (p\<lparr>po_idle := insert i (po_idle p), po_busy := (po_busy p)(i := None)\<rparr>)"
| talk: "pool_step p p"

section \<open>The engine\<close>

definition pool_of :: "meow_engine \<Rightarrow> pool" where
  "pool_of e =
     \<lparr>po_idle = {i. \<exists>l. me_lambdas e i = Some l \<and> lw_state l = Idle},
      po_busy = (\<lambda>i. case me_lambdas e i of
                       Some l \<Rightarrow> if lw_state l = Busy then lw_executing l else None
                     | None \<Rightarrow> None),
      po_waiting = me_queue e\<rparr>"

definition workers_ok :: "meow_engine \<Rightarrow> bool" where
  "workers_ok e \<longleftrightarrow>
     (\<forall>i l. me_lambdas e i = Some l \<longrightarrow>
        i < me_current_id e \<and> lw_id l = i \<and> (lw_state l = Busy \<longrightarrow> lw_executing l \<noteq> None))"

definition free_ok :: "meow_engine \<Rightarrow> bool" where
  "free_ok e \<longleftrightarrow> sorted (me_free e) \<and> distinct (me_free e) \<and> set (me_free e) = po_idle (pool_of e)"

definition pool_jobs :: "pool \<Rightarrow> nat" where
  "pool_jobs p = card (dom (po_busy p)) + length (po_waiting p)"

definition pool_ok :: "meow_engine \<Rightarrow> bool" where
  "pool_ok e \<longleftrightarrow> workers_ok e \<and> free_ok e \<and> meow_job_count e = pool_jobs (pool_of e) \<and>
     meow_job_count e \<le> me_max_jobs e \<and> me_max_jobs e < 2 ^ 64"

text \<open>One call into the engine. The scheduler only gives it a thunk when it has room, and a worker only
  reports an execution while it is executing.\<close>

inductive meow_step :: "world \<Rightarrow> meow_io \<Rightarrow> meow_engine \<Rightarrow> meow_engine \<Rightarrow> bool" for w io where
  forced: "meow_job_count e < me_max_jobs e \<Longrightarrow> meow_force_thunk w io req_id d t e = Inr e' \<Longrightarrow> meow_step w io e e'"
| connected: "on_connect w io d e = Inr e' \<Longrightarrow> meow_step w io e e'"
| received: "me_lambdas e i = Some l \<Longrightarrow>
     meow_step w io e (e\<lparr>me_lambdas := (me_lambdas e)(i \<mapsto> l\<lparr>lw_parser := p\<rparr>)\<rparr>)"
| message: "mm_opcode m = Executed \<Longrightarrow> me_lambdas e i = Some l \<Longrightarrow> lw_state l = Busy \<Longrightarrow>
     handle_message w io i m e d = Inr (je, e', d') \<Longrightarrow> meow_step w io e e'"
| other_message: "mm_opcode m \<noteq> Executed \<Longrightarrow> handle_message w io i m e d = Inr (je, e', d') \<Longrightarrow> meow_step w io e e'"

lemma prepare_lambda_effect:
  assumes "prepare_lambda w io d i t e = Inr e'"
  obtains l l' where "me_lambdas e i = Some l"
    "e' = e\<lparr>me_lambdas := (me_lambdas e)(i \<mapsto> l'), me_free := removeAll i (me_free e)\<rparr>"
    "lw_state l' = Busy" "lw_executing l' = Some t" "lw_id l' = lw_id l"
  using assms by (auto simp: prepare_lambda_def at_key_def split: option.splits)

lemma workers_ok_finite: "workers_ok e \<Longrightarrow> finite (dom (po_busy (pool_of e)))"
proof -
  assume "workers_ok e"
  then have "dom (po_busy (pool_of e)) \<subseteq> {..<me_current_id e}"
    by (auto simp: workers_ok_def pool_of_def split: option.splits)
  then show ?thesis by (rule finite_subset) simp
qed

text \<open>A worker becomes busy.\<close>

lemma pool_of_prepare:
  assumes "prepare_lambda w io d i t e = Inr e'"
  shows "pool_of e' = (pool_of e)\<lparr>po_idle := po_idle (pool_of e) - {i}, po_busy := (po_busy (pool_of e))(i \<mapsto> t)\<rparr>"
  using assms
  by (rule prepare_lambda_effect) (auto simp: pool_of_def fun_eq_iff)

lemma increment: "meow_job_count e < me_max_jobs e \<Longrightarrow> me_max_jobs e < 2 ^ 64 \<Longrightarrow>
    unat (me_running e + 1) = meow_job_count e + 1"
  by (simp add: meow_job_count_def unat_word_ariths)

lemma decrement: "0 < meow_job_count e \<Longrightarrow> unat (me_running e - 1) = meow_job_count e - 1"
  by (metis meow_job_count_def unat_0 unat_minus_one less_numeral_extra(3))

lemma most_objects_free:
  assumes "fold_res (most_objects objects e) frees best = Inr (sel, sz)" and "fst best = None \<or> fst best \<in> Some ` F"
    and "set frees \<subseteq> F"
  shows "sel = None \<or> sel \<in> Some ` F"
proof -
  have "fst (sel, sz) = None \<or> fst (sel, sz) \<in> Some ` F"
    using assms(1,2)
    by (rule fold_res_invariant [where P = "\<lambda>b. fst b = None \<or> fst b \<in> Some ` F"])
      (use assms(3) in \<open>auto simp: most_objects_def split: if_splits\<close>)
  then show ?thesis by simp
qed

lemma first_with_free: "first_with h e frees = Inr (Some i) \<Longrightarrow> i \<in> set frees"
  by (induction frees) (auto split: if_splits)

lemma pick_lambda_free:
  assumes picked: "pick_lambda t MostObjects e = Inr i"
  shows "i \<in> set (me_free e)"
proof -
  obtain f fs where free: "me_free e = f # fs"
    using picked by (cases "me_free e") (auto simp: pick_lambda_def)
  obtain sel sz where
      most: "fold_res (most_objects (uset_insert_all (thunk_items t) []) e) (me_free e) (None, 0) = Inr (sel, sz)" and
      i: "i = (case sel of None \<Rightarrow> f | Some i \<Rightarrow> i)"
    using picked by (simp add: pick_lambda_def free del: fold_res.simps split: prod.splits) blast
  show ?thesis
    using most_objects_free [OF most, of "set (me_free e)"] i free by (cases sel) auto
qed

section \<open>Every call is a step of the pool\<close>

lemma idle_not_busy: "i \<in> po_idle (pool_of e) \<Longrightarrow> po_busy (pool_of e) i = None"
  by (auto simp: pool_of_def)

lemma pool_jobs_assign:
  "finite (dom (po_busy p)) \<Longrightarrow> po_busy p i = None \<Longrightarrow>
     pool_jobs (p\<lparr>po_idle := I, po_busy := (po_busy p)(i \<mapsto> t)\<rparr>) = Suc (pool_jobs p)"
  by (simp add: pool_jobs_def domIff)

lemma prepare_lambda_fields:
  assumes "prepare_lambda w io d i t e = Inr e'"
  shows "me_running e' = me_running e" "me_max_jobs e' = me_max_jobs e" "me_queue e' = me_queue e"
    "me_current_id e' = me_current_id e" "me_free e' = removeAll i (me_free e)"
  using assms by (auto elim!: prepare_lambda_effect)

lemma workers_ok_prepare:
  assumes "prepare_lambda w io d i t e = Inr e'" and "workers_ok e"
  shows "workers_ok e'"
  using assms(1)
  by (rule prepare_lambda_effect) (use assms(2) in \<open>auto simp: workers_ok_def\<close>)

lemma free_ok_prepare:
  assumes "prepare_lambda w io d i t e = Inr e'" and "free_ok e"
  shows "free_ok e'"
  using assms(2)
  by (auto simp: free_ok_def pool_of_prepare [OF assms(1)] prepare_lambda_fields [OF assms(1)]
      removeAll_filter_not_eq sorted_wrt_filter)

text \<open>Fields that the pool does not see, or sees unchanged.\<close>

lemma pool_of_update [simp]:
  "pool_of (e\<lparr>me_running := r\<rparr>) = pool_of e"
  "pool_of (e\<lparr>me_invocations := v\<rparr>) = pool_of e"
  "pool_of (e\<lparr>me_current_id := n\<rparr>) = pool_of e"
  "pool_of (e\<lparr>me_free := f\<rparr>) = pool_of e"
  "pool_of (e\<lparr>me_queue := q\<rparr>) = (pool_of e)\<lparr>po_waiting := q\<rparr>"
  by (simp_all add: pool_of_def)

lemma po_waiting_pool_of [simp]: "po_waiting (pool_of e) = me_queue e"
  by (simp add: pool_of_def)

lemma forced_pool:
  assumes ok: "pool_ok e" and room: "meow_job_count e < me_max_jobs e"
    and forced: "meow_force_thunk w io req_id d t e = Inr e'"
  shows "pool_ok e' \<and> pool_step (pool_of e) (pool_of e')"
proof (cases "me_free e = []")
  case True
  then have idle: "po_idle (pool_of e) = {}" using ok by (simp add: pool_ok_def free_ok_def)
  obtain r where e': "e' = e\<lparr>me_running := me_running e + 1, me_queue := me_queue e @ [t],
      me_invocations := me_invocations e @ [r]\<rparr>"
    using forced True by (auto simp: meow_force_thunk_def)
  have "pool_of e' = (pool_of e)\<lparr>po_waiting := po_waiting (pool_of e) @ [t]\<rparr>"
    by (simp add: e')
  moreover have "pool_ok e'"
    using ok room by (auto simp: e' pool_ok_def workers_ok_def free_ok_def pool_jobs_def increment meow_job_count_def)
  ultimately show ?thesis using submit_wait [OF idle] by simp
next
  case False
  define e1 where "e1 = e\<lparr>me_running := me_running e + 1\<rparr>"
  obtain i where pick: "pick_lambda t MostObjects e1 = Inr i" and prep: "prepare_lambda w io d i t e1 = Inr e'"
    using forced False by (auto simp: meow_force_thunk_def e1_def Let_def)
  have idle: "i \<in> po_idle (pool_of e)"
    using pick_lambda_free [OF pick] ok by (simp add: e1_def pool_ok_def free_ok_def)
  have pool: "pool_of e' = (pool_of e)\<lparr>po_idle := po_idle (pool_of e) - {i}, po_busy := (po_busy (pool_of e))(i \<mapsto> t)\<rparr>"
    using pool_of_prepare [OF prep] by (simp add: e1_def)
  have "workers_ok e1 \<and> free_ok e1" using ok by (simp add: e1_def pool_ok_def workers_ok_def free_ok_def)
  then have "workers_ok e' \<and> free_ok e'" using workers_ok_prepare [OF prep] free_ok_prepare [OF prep] by simp
  moreover have "pool_jobs (pool_of e') = Suc (pool_jobs (pool_of e))"
    unfolding pool using ok by (intro pool_jobs_assign idle_not_busy [OF idle] workers_ok_finite) (simp add: pool_ok_def)
  moreover have "meow_job_count e' = Suc (meow_job_count e)"
    using increment [OF room] ok by (simp add: meow_job_count_def prepare_lambda_fields [OF prep] e1_def pool_ok_def)
  ultimately have "pool_ok e'" using ok room by (simp add: pool_ok_def prepare_lambda_fields [OF prep] e1_def)
  then show ?thesis using submit_idle [OF idle] by (simp add: pool)
qed

text \<open>A connection: the worker is new, idle at first, and takes the oldest waiting thunk at once.\<close>

definition joined :: "meow_engine \<Rightarrow> meow_engine" where
  "joined e =
     e\<lparr>me_lambdas := (me_lambdas e)(me_current_id e \<mapsto>
          \<lparr>lw_id = me_current_id e, lw_state = Idle, lw_written = [], lw_objects = [], lw_executing = None,
           lw_parser = new_meow_parser\<rparr>),
       me_free := insort_insert (me_current_id e) (me_free e)\<rparr>"

lemma joined_fields [simp]:
  "me_running (joined e) = me_running e" "me_max_jobs (joined e) = me_max_jobs e"
  "me_queue (joined e) = me_queue e" "me_current_id (joined e) = me_current_id e"
  by (simp_all add: joined_def)

lemma workers_ok_fresh: "workers_ok e \<Longrightarrow> me_lambdas e (me_current_id e) = None"
  by (cases "me_lambdas e (me_current_id e)") (auto simp: workers_ok_def)

lemma fresh_pool:
  assumes "workers_ok e"
  shows "me_current_id e \<notin> po_idle (pool_of e)" "po_busy (pool_of e) (me_current_id e) = None"
  using workers_ok_fresh [OF assms] by (auto simp: pool_of_def)

lemma pool_of_joined:
  "workers_ok e \<Longrightarrow> pool_of (joined e) = (pool_of e)\<lparr>po_idle := insert (me_current_id e) (po_idle (pool_of e))\<rparr>"
  using workers_ok_fresh by (auto simp: pool_of_def joined_def fun_eq_iff)

lemma on_connect_joined:
  "workers_ok e \<Longrightarrow> on_connect w io d e =
     bind_res
       (case me_queue e of [] \<Rightarrow> Inr (joined e)
        | t # ts \<Rightarrow> bind_res (prepare_lambda w io d (me_current_id e) t (joined e)) (\<lambda>e2. Inr (e2\<lparr>me_queue := ts\<rparr>)))
       (\<lambda>e2. Inr (e2\<lparr>me_current_id := me_current_id e2 + 1\<rparr>))"
  by (frule workers_ok_fresh) (cases "me_queue e"; simp add: on_connect_def joined_def Let_def)

lemma free_ok_joined: "workers_ok e \<Longrightarrow> free_ok e \<Longrightarrow> free_ok (joined e)"
  unfolding free_ok_def pool_of_joined
  by (simp add: joined_def sorted_insort_insert distinct_insort_insert set_insort_insert)

lemma workers_ok_next: "workers_ok e \<Longrightarrow> workers_ok ((joined e)\<lparr>me_current_id := Suc (me_current_id e)\<rparr>)"
  by (auto simp: workers_ok_def joined_def less_Suc_eq)

lemma workers_ok_joined_prepare:
  assumes wk: "workers_ok e" and prep: "prepare_lambda w io d i t (joined e) = Inr e2"
  shows "workers_ok (e2\<lparr>me_queue := ts, me_current_id := Suc (me_current_id e)\<rparr>)"
proof -
  obtain l l' where "me_lambdas (joined e) i = Some l" "lw_state l' = Busy" "lw_executing l' = Some t" "lw_id l' = lw_id l"
    "me_lambdas e2 = (me_lambdas (joined e))(i \<mapsto> l')"
    using prep by (rule prepare_lambda_effect) auto
  then show ?thesis using workers_ok_next [OF wk] by (auto simp: workers_ok_def)
qed

lemma free_ok_update [simp]:
  "free_ok (e\<lparr>me_queue := q\<rparr>) = free_ok e" "free_ok (e\<lparr>me_current_id := n\<rparr>) = free_ok e"
  by (simp_all add: free_ok_def)

lemma connected_pool:
  assumes ok: "pool_ok e" and connected: "on_connect w io d e = Inr e'"
  shows "pool_ok e' \<and> pool_step (pool_of e) (pool_of e')"
proof -
  have wk: "workers_ok e" and fr: "free_ok e" using ok by (simp_all add: pool_ok_def)
  show ?thesis
  proof (cases "me_queue e")
    case Nil
    have e': "e' = (joined e)\<lparr>me_current_id := Suc (me_current_id e)\<rparr>"
      using connected Nil by (simp add: on_connect_joined [OF wk] joined_def)
    then have "pool_of e' = (pool_of e)\<lparr>po_idle := insert (me_current_id e) (po_idle (pool_of e))\<rparr>"
      by (simp add: pool_of_joined [OF wk])
    moreover have "pool_ok e'"
      using ok workers_ok_next [OF wk] free_ok_joined [OF wk fr]
      by (simp add: pool_ok_def e' pool_of_joined [OF wk] pool_jobs_def meow_job_count_def)
    ultimately show ?thesis using join_idle [OF fresh_pool [OF wk]] Nil by simp
  next
    case (Cons t ts)
    obtain e2 where prep: "prepare_lambda w io d (me_current_id e) t (joined e) = Inr e2"
      and e'_raw: "e' = e2\<lparr>me_queue := ts, me_current_id := Suc (me_current_id e2)\<rparr>"
      using connected Cons by (auto simp: on_connect_joined [OF wk])
    have e': "e' = e2\<lparr>me_queue := ts, me_current_id := Suc (me_current_id e)\<rparr>"
      using e'_raw prepare_lambda_fields(4) [OF prep] by simp
    let ?p = "(pool_of e)\<lparr>po_busy := (po_busy (pool_of e))(me_current_id e \<mapsto> t), po_waiting := ts\<rparr>"
    have pool: "pool_of e' = ?p"
      using fresh_pool(1) [OF wk] by (simp add: e' pool_of_prepare [OF prep] pool_of_joined [OF wk])
    have wk': "workers_ok e'" using workers_ok_joined_prepare [OF wk prep] by (simp add: e')
    have fr': "free_ok e'" using free_ok_prepare [OF prep free_ok_joined [OF wk fr]] by (simp add: e')
    have "pool_jobs ?p = pool_jobs (pool_of e)"
      using fresh_pool(2) [OF wk] workers_ok_finite [OF wk] Cons by (simp add: pool_jobs_def domIff)
    moreover have "meow_job_count e' = meow_job_count e" "me_max_jobs e' = me_max_jobs e"
      by (simp_all add: meow_job_count_def e' prepare_lambda_fields [OF prep])
    ultimately have "pool_ok e'" using ok wk' fr' by (simp add: pool_ok_def pool)
    then show ?thesis using join_busy [OF fresh_pool [OF wk]] Cons by (simp add: pool)
  qed
qed

text \<open>A worker that reports an execution is idle again.\<close>

lemma executed_effect:
  assumes "handle_message w io i m e d = Inr (je, e', d')" and "mm_opcode m = Executed"
  obtains l where "me_lambdas e i = Some l"
    "e' = e\<lparr>me_lambdas := (me_lambdas e)(i \<mapsto> l\<lparr>lw_state := Idle\<rparr>),
            me_free := insort_insert i (me_free e), me_running := me_running e - 1\<rparr>"
  using assms by (auto simp: handle_message_def on_executed_def at_key_def split: option.splits)

lemma executed_pool:
  assumes ok: "pool_ok e" and handled: "handle_message w io i m e d = Inr (je, e', d')"
    and executed: "mm_opcode m = Executed" and l: "me_lambdas e i = Some l" "lw_state l = Busy"
  shows "pool_ok e' \<and> pool_step (pool_of e) (pool_of e')"
proof -
  have wk: "workers_ok e" and fr: "free_ok e" using ok by (simp_all add: pool_ok_def)
  have e': "e' = e\<lparr>me_lambdas := (me_lambdas e)(i \<mapsto> l\<lparr>lw_state := Idle\<rparr>),
      me_free := insort_insert i (me_free e), me_running := me_running e - 1\<rparr>"
    using handled executed l(1) by (auto elim!: executed_effect)
  obtain t where t: "lw_executing l = Some t" using wk l by (auto simp: workers_ok_def)
  have busy: "po_busy (pool_of e) i = Some t" using l t by (simp add: pool_of_def)
  have pool: "pool_of e' = (pool_of e)\<lparr>po_idle := insert i (po_idle (pool_of e)), po_busy := (po_busy (pool_of e))(i := None)\<rparr>"
    by (auto simp: e' pool_of_def fun_eq_iff)
  have wk': "workers_ok e'" using wk l(1) by (auto simp: workers_ok_def e')
  have fr': "free_ok e'"
    using fr unfolding free_ok_def pool
    by (simp add: e' sorted_insort_insert distinct_insort_insert set_insort_insert)
  have i: "i \<in> dom (po_busy (pool_of e))" using busy by (simp add: domI)
  have "0 < card (dom (po_busy (pool_of e)))" using i workers_ok_finite [OF wk] by (auto simp: card_gt_0_iff)
  then have "pool_jobs (pool_of e') = pool_jobs (pool_of e) - 1" and jobs: "0 < pool_jobs (pool_of e)"
    using i workers_ok_finite [OF wk] by (simp_all add: pool pool_jobs_def)
  moreover have "meow_job_count e' = meow_job_count e - 1"
    using ok jobs decrement [of e] by (simp add: pool_ok_def e' meow_job_count_def)
  moreover have "me_max_jobs e' = me_max_jobs e" by (simp add: e')
  ultimately have "pool_ok e'" using ok wk' fr' by (simp add: pool_ok_def le_diff_conv)
  then show ?thesis using finish [OF busy] by (simp add: pool)
qed

lemma received_pool:
  assumes "me_lambdas e i = Some l"
  shows "pool_of (e\<lparr>me_lambdas := (me_lambdas e)(i \<mapsto> l\<lparr>lw_parser := p\<rparr>)\<rparr>) = pool_of e"
  using assms by (auto simp: pool_of_def fun_eq_iff)

lemma other_message_effect:
  "handle_message w io i m e d = Inr (je, e', d') \<Longrightarrow> mm_opcode m \<noteq> Executed \<Longrightarrow> e' = e"
  by (auto simp: handle_message_def split: opcode.splits)

lemma meow_step_pool:
  assumes step: "meow_step w io e e'" and ok: "pool_ok e"
  shows "pool_ok e' \<and> pool_step (pool_of e) (pool_of e')"
  using step
proof cases
  case (forced req_id d t) then show ?thesis using forced_pool ok by blast
next
  case (connected d) then show ?thesis using connected_pool ok by blast
next
  case (received i l p)
  then have "workers_ok e'" using ok by (auto simp: pool_ok_def workers_ok_def)
  then show ?thesis
    using ok received_pool [OF received(2), of p] talk
    by (simp add: received(1) pool_ok_def free_ok_def meow_job_count_def)
next
  case (message m i l d je d') then show ?thesis using executed_pool ok by blast
next
  case (other_message m i d je d') then show ?thesis using other_message_effect ok talk by metis
qed

lemma new_pool_ok: "new_meow_engine n = Inr e \<Longrightarrow> n < 2 ^ 64 \<Longrightarrow> pool_ok e"
  by (auto simp: new_meow_engine_def pool_ok_def workers_ok_def free_ok_def pool_of_def pool_jobs_def
      meow_job_count_def split: if_splits)

lemma reached_pool_ok:
  assumes "(meow_step w io)\<^sup>*\<^sup>* e0 e" and "pool_ok e0"
  shows "pool_ok e"
  using assms by (induction rule: rtranclp_induct) (auto dest: meow_step_pool)

text \<open>C24: the engine implements a pool of workers. From a new engine with any positive limit, through any
  sequence of calls in which the scheduler respects the limit and a worker reports an execution only
  while it has one, every call is a step of the pool: a forced thunk takes an idle worker or waits
  behind the others when there is none, a new connection takes the oldest waiting thunk or is idle, a
  worker that reports is idle again and no other message changes anything. All the while the set of
  free workers is exactly that of the idle ones, every busy worker has its thunk, and the counter that
  the scheduler compares with the limit is the number of busy workers and waiting thunks, and within
  the limit.\<close>

theorem meow_engine_refines_pool:
  assumes "new_meow_engine n = Inr e0" and "n < 2 ^ 64"
    and "(meow_step w io)\<^sup>*\<^sup>* e0 e" and "meow_step w io e e'"
  shows "pool_step (pool_of e) (pool_of e') \<and> pool_ok e'"
  using meow_step_pool [OF assms(4) reached_pool_ok [OF assms(3) new_pool_ok [OF assms(1,2)]]] by blast

definition toy_io :: meow_io where
  "toy_io = \<lparr>mi_coordinator = ''c:9924'', mi_invocation_json = (\<lambda>_ _ _. Some ''{}''),
     mi_encode_item = (\<lambda>_. ''item''), mi_decode_item = (\<lambda>_. \<lparr>ri_thunk_hash = ''TA'', ri_outputs = []\<rparr>)\<rparr>"

definition toy_meow_disk :: disk where
  "toy_meow_disk = toy_disk(blob ''/g'' ''Vf'' \<mapsto> Regular ''x'' 256)"

definition toy_meow :: meow_engine where
  "toy_meow = \<lparr>me_max_jobs = 1, me_running = 0, me_current_id = 0, me_lambdas = Map.empty,
             me_free = [], me_queue = [], me_invocations = []\<rparr>"

definition toy_joined :: meow_engine where
  "toy_joined = (joined toy_meow)\<lparr>me_current_id := 1\<rparr>"

lemma toy_connects: "on_connect toy_world toy_io toy_meow_disk toy_meow = Inr toy_joined"
  by (simp add: on_connect_def toy_meow_def toy_joined_def joined_def)

lemma toy_items: "thunk_items (set_hash h (leaf ts)) = [''Vf'']"
  by (simp add: thunk_items_def toy_leaf)

lemma toy_put: "create_put_message ''/g'' ''Vf'' toy_meow_disk = Inr (new_message Put ''x'')"
  by code_simp

lemma toy_execute: "\<exists>m. create_execute_message toy_sha (\<lambda>_. Some ''p'') (\<lambda>s. s) (\<lambda>_. ''item'') (set_hash ''TA'' (leaf [])) = Inr m"
  by (simp add: create_execute_message_def execution_request_of_def serialize_def thunk_hash_def set_hash_def leaf_def)

lemma toy_forces: "\<exists>e. meow_force_thunk toy_world toy_io 0 toy_meow_disk (set_hash ''TA'' (leaf [])) toy_joined = Inr e"
proof -
  obtain m where m: "create_execute_message toy_sha (\<lambda>_. Some ''p'') (\<lambda>s. s) (\<lambda>_. ''item'') (set_hash ''TA'' (leaf [])) = Inr m"
    using toy_execute by blast
  have dir: "wd_gg_dir toy_world = ''/g''" by (simp add: toy_world_def)
  have world: "create_execute_message (wd_sha256 toy_world) (wd_encode toy_world) (wd_base64_encode toy_world)
      (mi_encode_item toy_io) (set_hash ''TA'' (leaf [])) = Inr m"
    using m by (simp add: toy_world_def toy_io_def)
  show ?thesis
    by (simp add: meow_force_thunk_def toy_joined_def joined_def toy_meow_def insort_insert_key_def pick_lambda_def
        toy_items uset_insert_all_def uset_insert_def most_objects_def at_key_def common_size_def Let_def
        prepare_lambda_def send_object_def dir toy_put world)
qed

theorem meow_engine_refines_pool_witness:
  "\<exists>e. meow_force_thunk toy_world toy_io 0 toy_meow_disk (set_hash ''TA'' (leaf [])) toy_joined = Inr e \<and>
       pool_step (pool_of toy_joined) (pool_of e) \<and> pool_ok e"
proof -
  obtain e where e: "meow_force_thunk toy_world toy_io 0 toy_meow_disk (set_hash ''TA'' (leaf [])) toy_joined = Inr e"
    using toy_forces by blast
  have "meow_job_count toy_joined < me_max_jobs toy_joined"
    by (simp add: meow_job_count_def toy_joined_def toy_meow_def)
  then have step: "meow_step toy_world toy_io toy_joined e" using e by (rule forced)
  have new: "new_meow_engine 1 = Inr toy_meow" by (simp add: new_meow_engine_def toy_meow_def)
  have "(meow_step toy_world toy_io)\<^sup>*\<^sup>* toy_meow toy_joined" using connected [OF toy_connects] by blast
  with meow_engine_refines_pool [OF new _ _ step] e show ?thesis by simp
qed

end
