(* ===== verification/Uri.thy ===== *)
theory Uri
  imports Tokenize Conversions
begin

text \<open>
  Storage addresses (\<open>src/util/uri.cc\<close>). The code takes a URI apart with a regular expression;
  \<open>regex\<close> is the part of \<open>std::regex\<close> that it needs, with the order in which alternatives are tried.
\<close>

section \<open>Regular expressions\<close>

text \<open>\<open>Many\<close> is the greedy repetition of one character class, \<open>Maybe\<close> the greedy option, \<open>Group n\<close> the
  capture group with number \<open>n\<close>. A group that takes no part in the match is the empty string.\<close>

datatype regex =
    Class "char \<Rightarrow> bool"
  | Many "char \<Rightarrow> bool"
  | Cat regex regex
  | Maybe regex
  | Group nat regex

type_synonym groups = "nat \<Rightarrow> string"

fun many_match :: "(char \<Rightarrow> bool) \<Rightarrow> string \<Rightarrow> (string \<Rightarrow> groups option) \<Rightarrow> groups option" where
  "many_match p [] k = k []"
| "many_match p (c # s) k =
     (if p c then (case many_match p s k of Some g \<Rightarrow> Some g | None \<Rightarrow> k (c # s)) else k (c # s))"

text \<open>\<open>k\<close> is what has to match afterwards.\<close>

fun regex_run :: "regex \<Rightarrow> string \<Rightarrow> groups \<Rightarrow> (string \<Rightarrow> groups \<Rightarrow> groups option) \<Rightarrow> groups option" where
  "regex_run (Class p) s g k = (case s of [] \<Rightarrow> None | c # s' \<Rightarrow> if p c then k s' g else None)"
| "regex_run (Many p) s g k = many_match p s (\<lambda>s'. k s' g)"
| "regex_run (Cat a b) s g k = regex_run a s g (\<lambda>s' g'. regex_run b s' g' k)"
| "regex_run (Maybe r) s g k =
     (case regex_run r s g k of Some g' \<Rightarrow> Some g' | None \<Rightarrow> k s g)"
| "regex_run (Group n r) s g k =
     regex_run r s g (\<lambda>s' g'. k s' (g'(n := take (length s - length s') s)))"

text \<open>\<open>std::regex_match\<close>: the whole string has to match.\<close>

definition regex_match :: "regex \<Rightarrow> string \<Rightarrow> groups option" where
  "regex_match r s = regex_run r s (\<lambda>_. []) (\<lambda>s' g. if s' = [] then Some g else None)"

definition lit :: "char \<Rightarrow> regex" where
  "lit c = Class (\<lambda>x. x = c)"

definition some_of :: "(char \<Rightarrow> bool) \<Rightarrow> regex" where
  "some_of p = Cat (Class p) (Many p)"

section \<open>The pattern\<close>

definition none_of :: "string \<Rightarrow> char \<Rightarrow> bool" where
  "none_of cs c \<longleftrightarrow> c \<notin> set cs \<and> c \<noteq> CHR 0x0A \<and> c \<noteq> CHR 0x0D"

definition alnum :: "char \<Rightarrow> bool" where
  "alnum c = (let n = of_char c :: nat in 48 \<le> n \<and> n \<le> 57 \<or> 65 \<le> n \<and> n \<le> 90 \<or> 97 \<le> n \<and> n \<le> 122)"

definition decimal :: "char \<Rightarrow> bool" where
  "decimal c = (let n = of_char c :: nat in 48 \<le> n \<and> n \<le> 57)"

definition uri_regex :: regex where
  "uri_regex =
     Cat (Maybe (Group 1 (Cat (Group 2 (some_of alnum)) (Cat (lit CHR '':'') (Cat (lit CHR ''/'') (lit CHR ''/''))))))
    (Cat (Maybe (Group 3 (Cat (Group 4 (some_of (none_of '':''))) (Cat (lit CHR '':'')
           (Cat (Group 5 (some_of (none_of ''@''))) (lit CHR ''@''))))))
    (Cat (Group 6 (Cat (Group 7 (some_of (none_of '':/''))) (Cat (Maybe (lit CHR '':'')) (Group 8 (Many decimal)))))
    (Cat (Maybe (lit CHR ''/''))
    (Cat (Maybe (Group 9 (some_of (none_of ''?''))))
    (Cat (Maybe (lit CHR ''?''))
    (Cat (Maybe (Group 10 (Many (none_of ''#''))))
    (Cat (Maybe (lit CHR ''#'')) (Group 11 (Many (none_of []))))))))))"

section \<open>ParsedURI\<close>

text \<open>\<open>Optional<uint16_t> port { 0 }\<close> calls the constructor that takes a value: a URI without a port has
  the port 0, not none. The options are a map; the code only looks keys up.\<close>

record parsed_uri =
  ur_protocol :: string
  ur_username :: string
  ur_password :: string
  ur_host :: string
  ur_port :: "16 word option"
  ur_path :: string
  ur_options :: "string \<rightharpoonup> string"

definition add_option :: "string \<Rightarrow> (string \<rightharpoonup> string) \<Rightarrow> (string \<rightharpoonup> string)" where
  "add_option token options =
     (if length token = 0 then options
      else case str_find token ''='' 0 of
             Some eq_pos \<Rightarrow> options(take eq_pos token \<mapsto> drop (eq_pos + 1) token)
           | None \<Rightarrow> options(token \<mapsto> []))"

definition parse_uri :: "string \<Rightarrow> parsed_uri res" where
  "parse_uri uri =
     (case regex_match uri_regex uri of
        None \<Rightarrow> Inl (Runtime_error ''malformed storage uri'')
      | Some m \<Rightarrow>
          bind_res (if length (m 8) > 0 then bind_res (stoul (m 8) 10) (\<lambda>n. Inr (Some (ucast n))) else Inr (Some 0))
            (\<lambda>port. Inr \<lparr>ur_protocol = m 2, ur_username = m 4, ur_password = m 5, ur_host = m 7, ur_port = port,
               ur_path = m 9,
               ur_options = (if length (m 10) > 0 then fold add_option (split (m 10) ''&'') Map.empty
                             else Map.empty)\<rparr>))"

section \<open>Matching without going back\<close>

text \<open>A class that stops where the next part begins is matched at the first attempt.\<close>

named_theorems run_intros \<open>the first attempt succeeds\<close>

lemma many_match_stop:
  "\<forall>c \<in> set a. p c \<Longrightarrow> s = [] \<or> \<not> p (hd s) \<Longrightarrow> k s = Some g \<Longrightarrow> many_match p (a @ s) k = Some g"
proof (induction a)
  case Nil
  then show ?case by (cases s) auto
qed simp

lemma run_some_of [run_intros]:
  "a \<noteq> [] \<Longrightarrow> \<forall>c \<in> set a. p c \<Longrightarrow> s = [] \<or> \<not> p (hd s) \<Longrightarrow> k s g = Some g' \<Longrightarrow>
     regex_run (some_of p) (a @ s) g k = Some g'"
  by (cases a) (auto simp: some_of_def intro: many_match_stop)

lemma run_group:
  "regex_run r (a @ s) g (\<lambda>s' g'. k s' (g'(n := take (length (a @ s) - length s') (a @ s)))) = Some g' \<Longrightarrow>
     regex_run (Group n r) (a @ s) g k = Some g'"
  by simp

lemma run_group_some [run_intros]:
  "a \<noteq> [] \<Longrightarrow> \<forall>c \<in> set a. p c \<Longrightarrow> s = [] \<or> \<not> p (hd s) \<Longrightarrow> k s (g(n := a)) = Some g' \<Longrightarrow>
     regex_run (Group n (some_of p)) (a @ s) g k = Some g'"
  unfolding regex_run.simps by (rule run_some_of) simp_all

lemma run_group_many [run_intros]:
  "\<forall>c \<in> set a. p c \<Longrightarrow> s = [] \<or> \<not> p (hd s) \<Longrightarrow> k s (g(n := a)) = Some g' \<Longrightarrow>
     regex_run (Group n (Many p)) (a @ s) g k = Some g'"
  unfolding regex_run.simps by (rule many_match_stop) simp_all

lemma run_cat [run_intros]:
  "regex_run a s g (\<lambda>s' g'. regex_run b s' g' k) = Some g' \<Longrightarrow> regex_run (Cat a b) s g k = Some g'"
  by simp

lemma run_lit [run_intros]: "k s g = Some g' \<Longrightarrow> regex_run (lit c) (c # s) g k = Some g'"
  by (simp add: lit_def)

lemma run_maybe_take: "regex_run r s g k = Some g' \<Longrightarrow> regex_run (Maybe r) s g k = Some g'"
  by simp

lemma run_maybe_skip: "regex_run r s g k = None \<Longrightarrow> k s g = Some g' \<Longrightarrow> regex_run (Maybe r) s g k = Some g'"
  by simp

text \<open>Without a colon there is no user name, wherever the name might end.\<close>

lemma many_match_None:
  "(\<And>s'. suffix s' s \<Longrightarrow> k s' = None) \<Longrightarrow> many_match p s k = None"
proof (induction s)
  case (Cons c s)
  then have "many_match p s k = None" "k (c # s) = None" by (auto simp: suffix_Cons)
  then show ?case by simp
qed simp

lemma no_user:
  assumes "CHR '':'' \<notin> set s"
  shows "regex_run (Cat (Group 4 (some_of p)) (Cat (lit CHR '':'') r)) s g k = None"
proof -
  have colon: "regex_run (Cat (lit CHR '':'') r) s' g' k = None" if "suffix s' s" for s' g'
    using assms that by (cases s') (auto simp: lit_def dest: set_mono_suffix)
  show ?thesis
  proof (cases s)
    case (Cons c t)
    then have "many_match p t (\<lambda>s'. regex_run (Cat (lit CHR '':'') r) s' (g(4 := take (length s - length s') s)) k) = None"
      using colon by (intro many_match_None) (simp add: suffix_Cons)
    then show ?thesis by (simp add: some_of_def Cons)
  qed (simp add: some_of_def)
qed

lemma run_protocol:
  assumes "proto \<noteq> []" and "\<forall>c \<in> set proto. alnum c" and "k s (g(2 := proto, 1 := proto @ ''://'')) = Some g'"
  shows "regex_run (Maybe (Group 1 (Cat (Group 2 (some_of alnum))
      (Cat (lit CHR '':'') (Cat (lit CHR ''/'') (lit CHR ''/'')))))) (proto @ ''://'' @ s) g k = Some g'"
proof -
  let ?k = "\<lambda>s' g'. k s' (g'(1 := take (length (proto @ ''://'' @ s) - length s') (proto @ ''://'' @ s)))"
  have "regex_run (Cat (Group 2 (some_of alnum)) (Cat (lit CHR '':'') (Cat (lit CHR ''/'') (lit CHR ''/''))))
      (proto @ ''://'' @ s) g ?k = Some g'"
    by (intro run_intros assms(1,2)) (use assms(3) in \<open>simp_all add: lit_def alnum_def\<close>)
  then show ?thesis by simp
qed

lemma run_credentials:
  assumes "user \<noteq> []" and "\<forall>c \<in> set user. none_of '':'' c" and "pass \<noteq> []" and "\<forall>c \<in> set pass. none_of ''@'' c"
    and "k s (g(4 := user, 5 := pass, 3 := user @ '':'' @ pass @ ''@'')) = Some g'"
  shows "regex_run (Maybe (Group 3 (Cat (Group 4 (some_of (none_of '':''))) (Cat (lit CHR '':'')
           (Cat (Group 5 (some_of (none_of ''@''))) (lit CHR ''@'')))))) (user @ '':'' @ pass @ ''@'' @ s) g k = Some g'"
proof -
  let ?s = "user @ '':'' @ pass @ ''@'' @ s"
  let ?k = "\<lambda>s' g'. k s' (g'(3 := take (length ?s - length s') ?s))"
  have "regex_run (Cat (Group 4 (some_of (none_of '':''))) (Cat (lit CHR '':'')
           (Cat (Group 5 (some_of (none_of ''@''))) (lit CHR ''@'')))) ?s g ?k = Some g'"
    unfolding append_Cons append_Nil
    by (intro run_intros assms(1-4)) (use assms(5) in \<open>simp_all add: lit_def none_of_def\<close>)
  then show ?thesis by simp
qed

text \<open>The forms in the README: a bucket with options, a server with a user.\<close>

definition host_text :: "string \<Rightarrow> bool" where
  "host_text h \<longleftrightarrow> h \<noteq> [] \<and> (\<forall>c \<in> set h. none_of '':/'' c)"

definition host_regex :: regex where
  "host_regex = Group 6 (Cat (Group 7 (some_of (none_of '':/''))) (Cat (Maybe (lit CHR '':'')) (Group 8 (Many decimal))))"

lemma run_host:
  assumes "host_text host" and "s = [] \<or> hd s = CHR ''/''" and "k s (g(7 := host, 8 := [], 6 := host)) = Some g'"
  shows "regex_run host_regex (host @ s) g k = Some g'"
proof -
  let ?k = "\<lambda>s' g'. k s' (g'(6 := take (length (host @ s) - length s') (host @ s)))"
  have none: "regex_run (lit CHR '':'') s g'' k' = None" for g'' k'
    using assms(2) by (cases s) (auto simp: lit_def)
  have stop: "s = [] \<or> \<not> decimal (hd s)" using assms(2) by (auto simp: decimal_def)
  have "k s (g(7 := host, 8 := [], 6 := take (length (host @ s) - length s) (host @ s))) = Some g'"
    using assms(3) by simp
  then have digits: "regex_run (Group 8 (Many decimal)) ([] @ s) (g(7 := host)) ?k = Some g'"
    using stop by (intro run_group_many) simp_all
  have ports: "regex_run (Cat (Maybe (lit CHR '':'')) (Group 8 (Many decimal))) s (g(7 := host)) ?k = Some g'"
    by (rule run_cat, rule run_maybe_skip, rule none, rule digits [unfolded append_Nil])
  have "regex_run (Cat (Group 7 (some_of (none_of '':/''))) (Cat (Maybe (lit CHR '':'')) (Group 8 (Many decimal))))
      (host @ s) g ?k = Some g'"
    by (rule run_cat, rule run_group_some; (rule ports)?)
      (use assms(1,2) in \<open>auto simp: host_text_def none_of_def\<close>)
  then show ?thesis unfolding host_regex_def by (intro run_group)
qed

lemma run_host_port:
  assumes "host_text host" and "\<forall>c \<in> set port. decimal c" and "s = [] \<or> \<not> decimal (hd s)"
    and "k s (g(7 := host, 8 := port, 6 := host @ '':'' @ port)) = Some g'"
  shows "regex_run host_regex (host @ '':'' @ port @ s) g k = Some g'"
proof -
  let ?s = "host @ '':'' @ port @ s"
  let ?k = "\<lambda>s' g'. k s' (g'(6 := take (length ?s - length s') ?s))"
  have "?k s (g(7 := host, 8 := port)) = Some g'" using assms(4) by simp
  then have digits: "regex_run (Group 8 (Many decimal)) (port @ s) (g(7 := host)) ?k = Some g'"
    by (intro run_group_many assms(2,3))
  have ports: "regex_run (Cat (Maybe (lit CHR '':'')) (Group 8 (Many decimal))) ('':'' @ port @ s) (g(7 := host)) ?k = Some g'"
    unfolding append_Cons append_Nil
    by (rule run_cat, rule run_maybe_take, rule run_lit) (rule digits [unfolded append_Cons append_Nil])
  have "regex_run (Cat (Group 7 (some_of (none_of '':/''))) (Cat (Maybe (lit CHR '':'')) (Group 8 (Many decimal))))
      ?s g ?k = Some g'"
    by (rule run_cat, rule run_group_some; (rule ports)?)
      (use assms(1) in \<open>auto simp: host_text_def none_of_def\<close>)
  then show ?thesis unfolding host_regex_def by simp
qed

definition tail_regex :: regex where
  "tail_regex =
     Cat (Maybe (lit CHR ''/''))
    (Cat (Maybe (Group 9 (some_of (none_of ''?''))))
    (Cat (Maybe (lit CHR ''?''))
    (Cat (Maybe (Group 10 (Many (none_of ''#''))))
    (Cat (Maybe (lit CHR ''#'')) (Group 11 (Many (none_of [])))))))"

lemma uri_regex_parts:
  "uri_regex = Cat (Maybe (Group 1 (Cat (Group 2 (some_of alnum))
      (Cat (lit CHR '':'') (Cat (lit CHR ''/'') (lit CHR ''/''))))))
    (Cat (Maybe (Group 3 (Cat (Group 4 (some_of (none_of '':''))) (Cat (lit CHR '':'')
           (Cat (Group 5 (some_of (none_of ''@''))) (lit CHR ''@'')))))) (Cat host_regex tail_regex))"
  by (simp add: uri_regex_def host_regex_def tail_regex_def)

lemma run_options:
  assumes "\<forall>c \<in> set opts. none_of '':#'' c"
  shows "regex_run tail_regex (''/?'' @ opts) g (\<lambda>s' g. if s' = [] then Some g else None) = Some (g(10 := opts, 11 := []))"
proof -
  have "many_match (none_of ''#'') opts k = Some g'" if "k [] = Some g'" for k g'
    using many_match_stop [of opts "none_of ''#''" "[]" k g'] assms that by (auto simp: none_of_def)
  then show ?thesis by (simp add: tail_regex_def lit_def some_of_def none_of_def)
qed

lemma run_nothing:
  "regex_run tail_regex [] g (\<lambda>s' g. if s' = [] then Some g else None) = Some (g(10 := [], 11 := []))"
  by (simp add: tail_regex_def lit_def some_of_def)

lemma match_bucket:
  assumes "proto \<noteq> []" and "\<forall>c \<in> set proto. alnum c" and "host_text host" and "\<forall>c \<in> set opts. none_of '':#'' c"
  obtains m where "regex_match uri_regex (proto @ ''://'' @ host @ ''/?'' @ opts) = Some m"
    "m 2 = proto" "m 4 = []" "m 5 = []" "m 7 = host" "m 8 = []" "m 9 = []" "m 10 = opts"
proof -
  let ?k = "\<lambda>s' g. if s' = [] then Some g else None :: groups option"
  let ?g = "(\<lambda>_. [])(2 := proto, 1 := proto @ ''://'') :: groups"
  have "CHR '':'' \<notin> set (host @ ''/?'' @ opts)"
    using assms(3,4) by (auto simp: host_text_def none_of_def)
  then have user: "regex_run (Group 3 (Cat (Group 4 (some_of (none_of '':''))) (Cat (lit CHR '':'')
      (Cat (Group 5 (some_of (none_of ''@''))) (lit CHR ''@''))))) (host @ ''/?'' @ opts) g k = None" for g k
    unfolding regex_run.simps(5) by (rule no_user)
  have "regex_match uri_regex (proto @ ''://'' @ host @ ''/?'' @ opts) =
      Some (?g(7 := host, 8 := [], 6 := host, 10 := opts, 11 := []))"
    unfolding regex_match_def uri_regex_parts
    by (intro run_cat run_protocol run_maybe_skip user run_host assms(1-3)) (simp_all add: run_options [OF assms(4), simplified])
  then show thesis by (rule that) simp_all
qed

lemma match_server:
  assumes "proto \<noteq> []" and "\<forall>c \<in> set proto. alnum c" and "user \<noteq> []" and "\<forall>c \<in> set user. none_of '':'' c"
    and "pass \<noteq> []" and "\<forall>c \<in> set pass. none_of ''@'' c" and "host_text host" and "\<forall>c \<in> set port. decimal c"
  obtains m where "regex_match uri_regex (proto @ ''://'' @ user @ '':'' @ pass @ ''@'' @ host @
      (if port = [] then [] else '':'' @ port)) = Some m"
    "m 2 = proto" "m 4 = user" "m 5 = pass" "m 7 = host" "m 8 = port" "m 9 = []" "m 10 = []"
proof -
  let ?g = "(\<lambda>_. [])(2 := proto, 1 := proto @ ''://'', 4 := user, 5 := pass, 3 := user @ '':'' @ pass @ ''@'') :: groups"
  have "regex_run (Cat host_regex tail_regex) (host @ (if port = [] then [] else '':'' @ port)) ?g
      (\<lambda>s' g. if s' = [] then Some g else None) =
      Some (?g(7 := host, 8 := port, 6 := host @ (if port = [] then [] else '':'' @ port), 10 := [], 11 := []))"
  proof (cases "port = []")
    case True
    have "regex_run (Cat host_regex tail_regex) (host @ []) ?g (\<lambda>s' g. if s' = [] then Some g else None) =
        Some (?g(7 := host, 8 := [], 6 := host, 10 := [], 11 := []))"
      by (intro run_cat run_host assms(7)) (simp_all add: run_nothing)
    with True show ?thesis by simp
  next
    case False
    have "regex_run (Cat host_regex tail_regex) (host @ '':'' @ port @ []) ?g (\<lambda>s' g. if s' = [] then Some g else None) =
        Some (?g(7 := host, 8 := port, 6 := host @ '':'' @ port, 10 := [], 11 := []))"
      by (intro run_cat run_host_port assms(7,8)) (simp_all add: run_nothing)
    with False show ?thesis by simp
  qed
  then have "regex_match uri_regex (proto @ ''://'' @ user @ '':'' @ pass @ ''@'' @ host @
      (if port = [] then [] else '':'' @ port)) =
      Some (?g(7 := host, 8 := port, 6 := host @ (if port = [] then [] else '':'' @ port), 10 := [], 11 := []))"
    unfolding regex_match_def uri_regex_parts
    by (intro run_cat [of "Maybe a" for a] run_protocol run_credentials assms(1-6)) simp
  then show thesis by (rule that) simp_all
qed

lemma stoul_decimal: "n < 2 ^ 64 \<Longrightarrow> stoul (nat_to_string n) 10 = Inr (of_nat n)"
proof -
  assume n: "n < 2 ^ 64"
  have digits: "d < 10" if "d \<in> set (to_digits 10 m)" for d m
    using to_digits_bound [of 10 d m] that by simp
  show ?thesis
    using n by (simp add: stoul_def strtoul_def nat_to_string_def scan_number_digits digits)
qed

lemma decimal_nat_to_string: "c \<in> set (nat_to_string n) \<Longrightarrow> decimal c"
proof -
  assume "c \<in> set (nat_to_string n)"
  then obtain x where x: "c = digit_char x" "x \<in> set (to_digits 10 n)" by (auto simp: nat_to_string_def)
  then have "x < 10" using to_digits_bound [of 10 x n] by simp
  then show ?thesis by (simp add: x(1) digit_char_def decimal_def)
qed

lemma nat_to_string_nonempty [simp]: "nat_to_string n \<noteq> []"
  by (simp add: nat_to_string_def)

lemma parse_bucket_uri:
  assumes "proto \<noteq> []" and "\<forall>c \<in> set proto. alnum c" and "host_text host" and "\<forall>c \<in> set r. none_of '':#&'' c"
  shows "parse_uri (proto @ ''://'' @ host @ ''/?region='' @ r) =
    Inr \<lparr>ur_protocol = proto, ur_username = [], ur_password = [], ur_host = host, ur_port = Some 0,
         ur_path = [], ur_options = [''region'' \<mapsto> r]\<rparr>"
proof -
  have opts: "\<forall>c \<in> set (''region='' @ r). none_of '':#'' c" using assms(4) by (auto simp: none_of_def)
  obtain m where m: "regex_match uri_regex (proto @ ''://'' @ host @ ''/?'' @ ''region='' @ r) = Some m"
    "m 2 = proto" "m 4 = []" "m 5 = []" "m 7 = host" "m 8 = []" "m 9 = []" "m 10 = ''region='' @ r"
    using match_bucket [OF assms(1-3) opts] by metis
  have "CHR ''&'' \<notin> set (''region='' @ r)" using assms(4) by (auto simp: none_of_def)
  then have tokens: "split (''region='' @ r) ''&'' = [''region='' @ r]"
    unfolding split_char by (rule split_on_no_sep)
  have "find_sub ''='' (''region'' @ CHR ''='' # r) = Some (length ''region'')"
    by (rule find_sub_char_append) simp
  then have "str_find (''region='' @ r) ''='' 0 = Some 6" by simp
  then have "add_option (''region='' @ r) Map.empty = [''region'' \<mapsto> r]"
    by (simp add: add_option_def)
  then show ?thesis using m tokens by (simp add: parse_uri_def)
qed

lemma parse_server_uri:
  assumes "proto \<noteq> []" and "\<forall>c \<in> set proto. alnum c" and "user \<noteq> []" and "\<forall>c \<in> set user. none_of '':'' c"
    and "pass \<noteq> []" and "\<forall>c \<in> set pass. none_of ''@'' c" and "host_text host"
  shows "parse_uri (proto @ ''://'' @ user @ '':'' @ pass @ ''@'' @ host) =
      Inr \<lparr>ur_protocol = proto, ur_username = user, ur_password = pass, ur_host = host, ur_port = Some 0,
           ur_path = [], ur_options = Map.empty\<rparr>"
    and "n < 2 ^ 16 \<Longrightarrow> parse_uri (proto @ ''://'' @ user @ '':'' @ pass @ ''@'' @ host @ '':'' @ nat_to_string n) =
      Inr \<lparr>ur_protocol = proto, ur_username = user, ur_password = pass, ur_host = host, ur_port = Some (of_nat n),
           ur_path = [], ur_options = Map.empty\<rparr>"
proof -
  obtain m where "regex_match uri_regex (proto @ ''://'' @ user @ '':'' @ pass @ ''@'' @ host) = Some m"
    "m 2 = proto" "m 4 = user" "m 5 = pass" "m 7 = host" "m 8 = []" "m 9 = []" "m 10 = []"
    using match_server [OF assms, of "[]"] by auto
  then show "parse_uri (proto @ ''://'' @ user @ '':'' @ pass @ ''@'' @ host) =
      Inr \<lparr>ur_protocol = proto, ur_username = user, ur_password = pass, ur_host = host, ur_port = Some 0,
           ur_path = [], ur_options = Map.empty\<rparr>"
    by (simp add: parse_uri_def)
next
  assume n: "n < 2 ^ 16"
  obtain m where "regex_match uri_regex (proto @ ''://'' @ user @ '':'' @ pass @ ''@'' @ host @ '':'' @ nat_to_string n) = Some m"
    "m 2 = proto" "m 4 = user" "m 5 = pass" "m 7 = host" "m 8 = nat_to_string n" "m 9 = []" "m 10 = []"
    using match_server [OF assms, of "nat_to_string n"] decimal_nat_to_string by auto
  then show "parse_uri (proto @ ''://'' @ user @ '':'' @ pass @ ''@'' @ host @ '':'' @ nat_to_string n) =
      Inr \<lparr>ur_protocol = proto, ur_username = user, ur_password = pass, ur_host = host, ur_port = Some (of_nat n),
           ur_path = [], ur_options = Map.empty\<rparr>"
    using n by (simp add: parse_uri_def stoul_decimal unsigned_of_nat take_bit_nat_eq_self)
qed

end
