(* ===== verification/Storage.thy ===== *)
theory Storage
  imports Engine Uri
begin

text \<open>
  The storage backends (\<open>src/storage\<close>, \<open>src/net/s3.cc\<close>, \<open>src/net/gcloud.cc\<close>): from an address to a
  client, the index of the objects that are known to be there, and the transfers of the S3 client. The
  clients of Redis and Jiffy change the state of a server too; they are modelled in \<open>KeyValue\<close>, and arguments
  here. A TLS connection is what
  its successive reads return for what was written to it; a loop that wants more than there is gives
  \<open>Out_of_fuel\<close>, it is still waiting.
\<close>

section \<open>Requests and clients\<close>

record put_request =
  pr_filename :: string
  pr_object_key :: string
  pr_content_hash :: "string option"

record get_request =
  gr_object_key :: string
  gr_filename :: string
  gr_mode :: "mode option"

record s3_config =
  sc_region :: string
  sc_endpoint :: string
  sc_max_threads :: nat
  sc_max_batch_size :: nat

record redis_config =
  rc_ip :: string
  rc_port :: "16 word"
  rc_username :: string
  rc_password :: string

datatype backend =
    S3_storage aws_credentials s3_config string
  | Google_storage aws_credentials s3_config string
  | Redis_storage redis_config
  | Jiffy_storage string

record storage_backend =
  sb_backend :: backend
  sb_remote_index_path :: string

section \<open>Where the index is\<close>

definition get_cache_home :: "(string \<rightharpoonup> string) \<Rightarrow> string" where
  "get_cache_home environ =
     (let cache_path = safe_getenv_or environ ''XDG_CACHE_HOME'' [];
          cache_path' = (if \<not> is_absolute cache_path
                         then path_append (safe_getenv_or environ ''HOME'' []) ''/.cache'' else cache_path)
      in if \<not> is_absolute cache_path' then [] else cache_path')"

definition get_gg_cache_dir :: "(string \<rightharpoonup> string) \<Rightarrow> string" where
  "get_gg_cache_dir environ =
     (case environ ''GG_CACHE_DIR'' of
        None \<Rightarrow> path_append (get_cache_home environ) ''gg''
      | Some envar \<Rightarrow> envar)"

text \<open>A directory below another, made when it is not there.\<close>

definition remote_dir :: "(string \<rightharpoonup> string) \<Rightarrow> string \<Rightarrow> disk \<Rightarrow> (string \<times> disk) res" where
  "remote_dir environ h d =
     bind_res (get_inner_directory (get_gg_cache_dir environ) ''remotes'' d) (\<lambda>(remotes, d1).
       get_inner_directory remotes h d1)"

definition google_credentials :: "string \<Rightarrow> string \<Rightarrow> aws_credentials res" where
  "google_credentials access_key secret_key =
     (if length access_key = 0 \<or> length secret_key = 0
      then Inl (Runtime_error ''Missing Google Cloud access key and/or secret key'')
      else make_credentials access_key secret_key [])"

definition google_credentials_from_env :: "(string \<rightharpoonup> string) \<Rightarrow> aws_credentials res" where
  "google_credentials_from_env environ =
     bind_res (safe_getenv environ ''GCLOUD_ACCESS_KEY'') (\<lambda>access_key.
     bind_res (safe_getenv environ ''GCLOUD_SECRET_KEY'') (\<lambda>secret_key.
       google_credentials access_key secret_key))"

definition s3_storage :: "aws_credentials \<Rightarrow> string \<Rightarrow> string \<Rightarrow> backend" where
  "s3_storage credentials bucket region =
     S3_storage credentials
       \<lparr>sc_region = region, sc_endpoint = [], sc_max_threads = 32, sc_max_batch_size = 32\<rparr> bucket"

definition google_storage :: "aws_credentials \<Rightarrow> string \<Rightarrow> backend" where
  "google_storage credentials bucket =
     Google_storage credentials
       \<lparr>sc_region = [], sc_endpoint = bucket @ ''.storage.googleapis.com'', sc_max_threads = 32,
        sc_max_batch_size = 1\<rparr> bucket"

definition default_redis :: redis_config where
  "default_redis = \<lparr>rc_ip = ''0.0.0.0'', rc_port = 6379, rc_username = [], rc_password = []\<rparr>"

definition backend_of :: "(string \<rightharpoonup> string) \<Rightarrow> parsed_uri \<Rightarrow> backend res" where
  "backend_of environ endpoint =
     (let given = length (ur_username endpoint) > 0 \<or> length (ur_password endpoint) > 0
      in if ur_protocol endpoint = ''s3'' then
           bind_res (if given then make_credentials (ur_username endpoint) (ur_password endpoint) []
                     else credentials_from_env environ) (\<lambda>credentials.
             Inr (s3_storage credentials (ur_host endpoint)
                (case ur_options endpoint ''region'' of Some r \<Rightarrow> r | None \<Rightarrow> ''us-east-1'')))
         else if ur_protocol endpoint = ''gs'' then
           bind_res (if given then google_credentials (ur_username endpoint) (ur_password endpoint)
                     else google_credentials_from_env environ) (\<lambda>credentials.
             Inr (google_storage credentials (ur_host endpoint)))
         else if ur_protocol endpoint = ''redis'' then
           Inr (Redis_storage \<lparr>rc_ip = ur_host endpoint,
             rc_port = (case ur_port endpoint of Some p \<Rightarrow> p | None \<Rightarrow> rc_port default_redis),
             rc_username = ur_username endpoint, rc_password = ur_password endpoint\<rparr>)
         else if ur_protocol endpoint = ''jiffy'' then Inr (Jiffy_storage (ur_host endpoint))
         else Inl (Runtime_error ''unknown storage backend''))"

definition create_backend ::
  "(string \<Rightarrow> string) \<Rightarrow> (string \<rightharpoonup> string) \<Rightarrow> string \<Rightarrow> disk \<Rightarrow> (storage_backend \<times> disk) res" where
  "create_backend sha256 environ uri d =
     bind_res (parse_uri uri) (\<lambda>endpoint.
     bind_res (backend_of environ endpoint) (\<lambda>backend.
     bind_res (remote_dir environ (sha256 uri) d) (\<lambda>(path, d').
       Inr (\<lparr>sb_backend = backend, sb_remote_index_path = path\<rparr>, d'))))"

definition is_available :: "storage_backend \<Rightarrow> string \<Rightarrow> disk \<Rightarrow> bool" where
  "is_available sb h d = path_exists (path_append (sb_remote_index_path sb) h) d"

definition set_available :: "kernel \<Rightarrow> storage_backend \<Rightarrow> string \<Rightarrow> disk \<Rightarrow> disk res" where
  "set_available k sb h d = atomic_create k [] (path_append (sb_remote_index_path sb) h) None d"

section \<open>Which request goes over which connection\<close>

text \<open>\<open>for ( i = start; i < stop; i += step )\<close>; the steps of the code are positive.\<close>

function for_range :: "nat \<Rightarrow> nat \<Rightarrow> nat \<Rightarrow> nat list" where
  "for_range i stop step = (if i < stop \<and> 0 < step then i # for_range (i + step) stop step else [])"
  by pat_completeness auto
termination
  by (relation "measure (\<lambda>(i, stop, _). stop - i)") auto

declare for_range.simps [simp del]

definition thread_indices :: "s3_config \<Rightarrow> nat \<Rightarrow> nat list" where
  "thread_indices c n = filter (\<lambda>i. i < n) (for_range 0 (sc_max_threads c) 1)"

definition batch_starts :: "s3_config \<Rightarrow> nat \<Rightarrow> nat \<Rightarrow> nat list" where
  "batch_starts c n index = for_range index n (sc_max_threads c * sc_max_batch_size c)"

definition batch_files :: "s3_config \<Rightarrow> nat \<Rightarrow> nat \<Rightarrow> nat list" where
  "batch_files c n first_file_idx =
     for_range first_file_idx (min n (first_file_idx + sc_max_threads c * sc_max_batch_size c)) (sc_max_threads c)"

section \<open>One connection of the S3 client\<close>

type_synonym responses = "(http_response, http_message list) http_sequence"

definition new_responses :: responses where
  "new_responses = new_sequence response_class []"

definition client_endpoint :: "s3_config \<Rightarrow> string \<Rightarrow> string" where
  "client_endpoint c bucket =
     (if length (sc_endpoint c) > 0 then sc_endpoint c else s3_endpoint (sc_region c) bucket)"

definition UNSIGNED_PAYLOAD :: string where
  "UNSIGNED_PAYLOAD = ''UNSIGNED-PAYLOAD''"

definition read_whole :: "string \<Rightarrow> disk \<Rightarrow> string res" where
  "read_whole p d =
     (case d p of
        None \<Rightarrow> Inl (Unix_error (''open '' @ p))
      | Some Directory \<Rightarrow> Inl (Unix_error ''read'')
      | Some (Regular c _) \<Rightarrow> Inr c)"

text \<open>A request is queued in the parser of the responses, then written.\<close>

definition send_request :: "aws_request \<Rightarrow> responses \<times> string \<Rightarrow> (responses \<times> string) res" where
  "send_request request st =
     (case st of (responses, written) \<Rightarrow>
        bind_res (to_http_request request) (\<lambda>outgoing_request.
        bind_res (message_str outgoing_request) (\<lambda>bytes.
          Inr (new_request_arrived outgoing_request responses, written @ bytes))))"

definition send_put ::
  "world \<Rightarrow> aws_credentials \<Rightarrow> s3_config \<Rightarrow> string \<Rightarrow> put_request list \<Rightarrow> disk \<Rightarrow> nat \<Rightarrow>
     responses \<times> string \<Rightarrow> (responses \<times> string) res" where
  "send_put w credentials c endpoint requests d file_id st =
     (let r = requests ! file_id
      in bind_res (read_whole (pr_filename r) d) (\<lambda>contents.
           send_request (s3_put_request (wd_crypto w) credentials endpoint (sc_region c) (wd_date w file_id)
             (pr_object_key r) contents
             (case pr_content_hash r of Some h \<Rightarrow> h | None \<Rightarrow> UNSIGNED_PAYLOAD)) st))"

definition send_get ::
  "world \<Rightarrow> aws_credentials \<Rightarrow> s3_config \<Rightarrow> string \<Rightarrow> get_request list \<Rightarrow> nat \<Rightarrow>
     responses \<times> string \<Rightarrow> (responses \<times> string) res" where
  "send_get w credentials c endpoint requests file_id st =
     send_request (s3_get_request (wd_crypto w) credentials endpoint (sc_region c) (wd_date w file_id)
       (gr_object_key (requests ! file_id))) st"

definition OK_line :: string where
  "OK_line = ''HTTP/1.1 200 OK''"

text \<open>The response at the front of the queue, when there is one: at most one is taken after every read.\<close>

definition take_response ::
  "(nat \<Rightarrow> http_response \<Rightarrow> 's \<Rightarrow> 's res) \<Rightarrow> responses \<Rightarrow> nat \<Rightarrow> 's \<Rightarrow> (responses \<times> nat \<times> 's) res" where
  "take_response on_ok responses response_count s =
     (case sq_complete responses of
        [] \<Rightarrow> Inr (responses, response_count, s)
      | response # _ \<Rightarrow>
          if hm_first_line response \<noteq> OK_line then Inl (Runtime_error ''HTTP failure'')
          else bind_res (on_ok response_count response s) (\<lambda>s'.
            Inr (pop_message responses, response_count + 1, s')))"

text \<open>An upload reads while there are requests whose responses have not begun, a download until it
  has counted as many responses as it sent requests.\<close>

fun drain_uploads ::
  "(nat \<Rightarrow> http_response \<Rightarrow> 's \<Rightarrow> 's res) \<Rightarrow> string list \<Rightarrow> responses \<Rightarrow> nat \<Rightarrow> 's \<Rightarrow> 's res" where
  "drain_uploads on_ok reads responses response_count s =
     (if sq_sub responses = [] then Inr s
      else case reads of
             [] \<Rightarrow> Inl Out_of_fuel
           | r # rs \<Rightarrow>
               bind_res (parse_http response_class r responses) (\<lambda>responses1.
               bind_res (take_response on_ok responses1 response_count s) (\<lambda>(responses2, n, s').
                 drain_uploads on_ok rs responses2 n s')))"

fun drain_downloads ::
  "(nat \<Rightarrow> http_response \<Rightarrow> 's \<Rightarrow> 's res) \<Rightarrow> nat \<Rightarrow> string list \<Rightarrow> responses \<Rightarrow> nat \<Rightarrow> 's \<Rightarrow> 's res" where
  "drain_downloads on_ok expected reads responses response_count s =
     (if response_count = expected then Inr s
      else case reads of
             [] \<Rightarrow> Inl Out_of_fuel
           | r # rs \<Rightarrow>
               bind_res (parse_http response_class r responses) (\<lambda>responses1.
               bind_res (take_response on_ok responses1 response_count s) (\<lambda>(responses2, n, s').
                 drain_downloads on_ok expected rs responses2 n s')))"

declare drain_uploads.simps [simp del] drain_downloads.simps [simp del]

text \<open>\<open>net\<close> is the network: what the reads of a connection to an endpoint return.\<close>

type_synonym network = "string \<Rightarrow> string \<Rightarrow> string list"

definition upload_batch ::
  "world \<Rightarrow> network \<Rightarrow> aws_credentials \<Rightarrow> s3_config \<Rightarrow> string \<Rightarrow> put_request list \<Rightarrow>
     (put_request \<Rightarrow> disk \<Rightarrow> disk res) \<Rightarrow> nat \<Rightarrow> disk \<Rightarrow> disk res" where
  "upload_batch w net credentials c endpoint requests success first_file_idx d =
     bind_res (fold_res (send_put w credentials c endpoint requests d)
        (batch_files c (length requests) first_file_idx) (new_responses, [])) (\<lambda>(responses, written).
       drain_uploads (\<lambda>n _. success (requests ! (first_file_idx + n * sc_max_threads c)))
         (net endpoint written) responses 0 d)"

definition download_batch ::
  "world \<Rightarrow> network \<Rightarrow> aws_credentials \<Rightarrow> s3_config \<Rightarrow> string \<Rightarrow> get_request list \<Rightarrow>
     (get_request \<Rightarrow> disk \<Rightarrow> disk res) \<Rightarrow> nat \<Rightarrow> disk \<Rightarrow> disk res" where
  "download_batch w net credentials c endpoint requests success first_file_idx d =
     (let files = batch_files c (length requests) first_file_idx
      in bind_res (fold_res (send_get w credentials c endpoint requests) files (new_responses, []))
           (\<lambda>(responses, written).
             drain_downloads (\<lambda>n response d.
                let r = requests ! (first_file_idx + n * sc_max_threads c)
                in bind_res (atomic_create (wd_kernel w) (hm_body response) (gr_filename r) (gr_mode r) d) (success r))
               (length files) (net endpoint written) responses 0 d))"

section \<open>All connections\<close>

text \<open>The threads run side by side; the model runs them one after the other. An exception that leaves a
  thread ends the program.\<close>

definition in_thread :: "'a res \<Rightarrow> 'a res" where
  "in_thread r = (case r of Inl e \<Rightarrow> Inl (if e = Out_of_fuel then Out_of_fuel else Terminated) | Inr x \<Rightarrow> Inr x)"

definition run_threads ::
  "s3_config \<Rightarrow> nat \<Rightarrow> (nat \<Rightarrow> disk \<Rightarrow> disk res) \<Rightarrow> disk \<Rightarrow> disk res" where
  "run_threads c n batch d =
     fold_res (\<lambda>index d. in_thread (fold_res batch (batch_starts c n index) d)) (thread_indices c n) d"

definition upload_files ::
  "world \<Rightarrow> network \<Rightarrow> aws_credentials \<Rightarrow> s3_config \<Rightarrow> string \<Rightarrow> put_request list \<Rightarrow>
     (put_request \<Rightarrow> disk \<Rightarrow> disk res) \<Rightarrow> disk \<Rightarrow> disk res" where
  "upload_files w net credentials c bucket requests success d =
     run_threads c (length requests)
       (upload_batch w net credentials c (client_endpoint c bucket) requests success) d"

definition download_files ::
  "world \<Rightarrow> network \<Rightarrow> aws_credentials \<Rightarrow> s3_config \<Rightarrow> string \<Rightarrow> get_request list \<Rightarrow>
     (get_request \<Rightarrow> disk \<Rightarrow> disk res) \<Rightarrow> disk \<Rightarrow> disk res" where
  "download_files w net credentials c bucket requests success d =
     run_threads c (length requests)
       (download_batch w net credentials c (client_endpoint c bucket) requests success) d"

text \<open>\<open>download_file\<close> gets one object without a thread and writes it through the descriptor.\<close>

definition write_download :: "kernel \<Rightarrow> string \<Rightarrow> http_response \<Rightarrow> disk \<Rightarrow> disk res" where
  "write_download k filename response d =
     bind_res (write_all (write_accepts k) (hm_body response)) (\<lambda>parts.
       fold_res (\<lambda>part. exec_call (Write filename part)) parts d)"

definition open_truncated :: "string \<Rightarrow> mode \<Rightarrow> disk \<Rightarrow> disk res" where
  "open_truncated filename m d =
     (case d filename of
        None \<Rightarrow> Inr (d(filename \<mapsto> Regular [] m))
      | Some (Regular _ m') \<Rightarrow> Inr (d(filename \<mapsto> Regular [] m'))
      | Some Directory \<Rightarrow> Inl (Unix_error ''open''))"

definition download_file ::
  "world \<Rightarrow> network \<Rightarrow> aws_credentials \<Rightarrow> s3_config \<Rightarrow> string \<Rightarrow> string \<Rightarrow> string \<Rightarrow> mode \<Rightarrow> disk \<Rightarrow> disk res" where
  "download_file w net credentials c bucket object filename create_mode d =
     (let endpoint = client_endpoint c bucket
      in bind_res (send_request (s3_get_request (wd_crypto w) credentials endpoint (sc_region c) (wd_date w 0) object)
             (new_responses, [])) (\<lambda>(responses, written).
         bind_res (open_truncated filename create_mode d) (\<lambda>d1.
           drain_downloads (\<lambda>_. write_download (wd_kernel w) filename) 1 (net endpoint written) responses 0 d1)))"

section \<open>Putting and getting\<close>

text \<open>What the other clients do to the disk is an argument.\<close>

record remote_clients =
  rm_network :: network
  rm_put :: "backend \<Rightarrow> put_request list \<Rightarrow> (put_request \<Rightarrow> disk \<Rightarrow> disk res) \<Rightarrow> disk \<Rightarrow> disk res"
  rm_get :: "backend \<Rightarrow> get_request list \<Rightarrow> (get_request \<Rightarrow> disk \<Rightarrow> disk res) \<Rightarrow> disk \<Rightarrow> disk res"

definition storage_put ::
  "world \<Rightarrow> remote_clients \<Rightarrow> storage_backend \<Rightarrow> put_request list \<Rightarrow> (put_request \<Rightarrow> disk \<Rightarrow> disk res) \<Rightarrow>
     disk \<Rightarrow> disk res" where
  "storage_put w rm sb requests success d =
     (case sb_backend sb of
        S3_storage credentials c bucket \<Rightarrow> upload_files w (rm_network rm) credentials c bucket requests success d
      | Google_storage credentials c bucket \<Rightarrow> upload_files w (rm_network rm) credentials c bucket requests success d
      | b \<Rightarrow> rm_put rm b requests success d)"

definition storage_get ::
  "world \<Rightarrow> remote_clients \<Rightarrow> storage_backend \<Rightarrow> get_request list \<Rightarrow> (get_request \<Rightarrow> disk \<Rightarrow> disk res) \<Rightarrow>
     disk \<Rightarrow> disk res" where
  "storage_get w rm sb requests success d =
     (case sb_backend sb of
        S3_storage credentials c bucket \<Rightarrow> download_files w (rm_network rm) credentials c bucket requests success d
      | Google_storage credentials c bucket \<Rightarrow> download_files w (rm_network rm) credentials c bucket requests success d
      | b \<Rightarrow> rm_get rm b requests success d)"

section \<open>The scheduler's transfers\<close>

text \<open>\<open>hex\<close> is the decoding of a hash's digest to hexadecimal.\<close>

definition upload_request :: "world \<Rightarrow> (string \<Rightarrow> string) \<Rightarrow> string \<Rightarrow> put_request res" where
  "upload_request w hex h =
     bind_res (hash_to_hex hex h) (\<lambda>x.
       Inr \<lparr>pr_filename = blob (wd_gg_dir w) h, pr_object_key = h, pr_content_hash = Some x\<rparr>)"

definition note_missing ::
  "world \<Rightarrow> (string \<Rightarrow> string) \<Rightarrow> storage_backend \<Rightarrow> disk \<Rightarrow> string \<Rightarrow> put_request list \<Rightarrow> put_request list res" where
  "note_missing w hex sb d dep requests =
     (if is_available sb dep d then Inr requests
      else bind_res (hash_size dep) (\<lambda>_.
           bind_res (upload_request w hex dep) (\<lambda>r. Inr (requests @ [r]))))"

definition upload_dependencies ::
  "world \<Rightarrow> remote_clients \<Rightarrow> (string \<Rightarrow> string) \<Rightarrow> storage_backend option \<Rightarrow> graph \<Rightarrow> disk \<Rightarrow> disk res" where
  "upload_dependencies w rm hex storage g d =
     (case storage of
        None \<Rightarrow> Inr d
      | Some sb \<Rightarrow>
          bind_res (fold_res (note_missing w hex sb d) (g_value_deps g @ g_executable_deps g) []) (\<lambda>requests.
            if length requests = 0 then Inr d
            else storage_put w rm sb requests
                   (\<lambda>r. set_available (wd_kernel w) sb (pr_object_key r)) d))"

definition missing_target ::
  "world \<Rightarrow> disk \<Rightarrow> string \<Rightarrow> get_request list \<Rightarrow> get_request list res" where
  "missing_target w d h requests =
     (if path_exists (blob (wd_gg_dir w) h) d then Inr requests
      else bind_res (hash_size h) (\<lambda>_.
        Inr (requests @ [\<lparr>gr_object_key = h, gr_filename = blob (wd_gg_dir w) h, gr_mode = None\<rparr>])))"

definition download_targets ::
  "world \<Rightarrow> remote_clients \<Rightarrow> storage_backend option \<Rightarrow> string list \<Rightarrow> disk \<Rightarrow> disk res" where
  "download_targets w rm storage hashes d =
     (case storage of
        None \<Rightarrow> Inr d
      | Some sb \<Rightarrow>
          bind_res (fold_res (missing_target w d) hashes []) (\<lambda>requests.
            if length requests = 0 then Inr d else storage_get w rm sb requests (\<lambda>_. Inr) d))"

end
