(* ===== verification/StorageLaws.thy ===== *)
theory StorageLaws
  imports Storage Answers
begin

text \<open>
  What the storage addresses mean, how the S3 client divides its requests among its connections, and
  what it makes of a failed transfer.
\<close>

section \<open>Addresses\<close>

text \<open>The addresses the README documents are understood: a bucket with a region gives the S3 client
  of that bucket and region with the credentials of the environment, a Redis server with a port is
  the one that is meant. But a server without a port, which the README allows, is taken to listen on
  port 0: the default port of the configuration is never used.\<close>

lemma storage_uri_forms:
  assumes "host_text host" and "\<forall>c \<in> set region. none_of '':#&'' c"
    and "user \<noteq> []" and "\<forall>c \<in> set user. none_of '':'' c" and "pass \<noteq> []" and "\<forall>c \<in> set pass. none_of ''@'' c"
    and "port < 2 ^ 16"
  shows "bind_res (parse_uri (''s3://'' @ host @ ''/?region='' @ region)) (backend_of environ) =
      bind_res (credentials_from_env environ) (\<lambda>credentials. Inr (s3_storage credentials host region)) \<and>
    bind_res (parse_uri (''redis://'' @ user @ '':'' @ pass @ ''@'' @ host @ '':'' @ nat_to_string port))
        (backend_of environ) =
      Inr (Redis_storage \<lparr>rc_ip = host, rc_port = of_nat port, rc_username = user, rc_password = pass\<rparr>) \<and>
    bind_res (parse_uri (''redis://'' @ user @ '':'' @ pass @ ''@'' @ host)) (backend_of environ) =
      Inr (Redis_storage \<lparr>rc_ip = host, rc_port = 0, rc_username = user, rc_password = pass\<rparr>)"
proof -
  have protos: "\<forall>c \<in> set ''s3''. alnum c" "\<forall>c \<in> set ''redis''. alnum c" by (simp_all add: alnum_def)
  have "parse_uri (''s3'' @ ''://'' @ host @ ''/?region='' @ region) =
      Inr \<lparr>ur_protocol = ''s3'', ur_username = [], ur_password = [], ur_host = host, ur_port = Some 0,
           ur_path = [], ur_options = [''region'' \<mapsto> region]\<rparr>"
    by (rule parse_bucket_uri [OF _ protos(1) assms(1,2)]) simp
  moreover have "parse_uri (''redis'' @ ''://'' @ user @ '':'' @ pass @ ''@'' @ host) =
      Inr \<lparr>ur_protocol = ''redis'', ur_username = user, ur_password = pass, ur_host = host, ur_port = Some 0,
           ur_path = [], ur_options = Map.empty\<rparr>"
    by (rule parse_server_uri(1) [OF _ protos(2) assms(3-6,1)]) simp
  moreover have "parse_uri (''redis'' @ ''://'' @ user @ '':'' @ pass @ ''@'' @ host @ '':'' @ nat_to_string port) =
      Inr \<lparr>ur_protocol = ''redis'', ur_username = user, ur_password = pass, ur_host = host,
           ur_port = Some (of_nat port), ur_path = [], ur_options = Map.empty\<rparr>"
    by (rule parse_server_uri(2) [OF _ protos(2) assms(3-6,1,7)]) simp
  ultimately show ?thesis by (simp add: backend_of_def)
qed

lemma storage_uri_forms_witness:
  "bind_res (parse_uri ''s3://gg-ruby/?region=eu-north-1'') (backend_of Map.empty) =
      bind_res (credentials_from_env Map.empty) (\<lambda>credentials. Inr (s3_storage credentials ''gg-ruby'' ''eu-north-1'')) \<and>
    bind_res (parse_uri ''redis://u:p@gg-ruby:80'') (backend_of Map.empty) =
      Inr (Redis_storage \<lparr>rc_ip = ''gg-ruby'', rc_port = 80, rc_username = ''u'', rc_password = ''p''\<rparr>)"
proof -
  have port: "nat_to_string 80 = ''80''" by code_simp
  have "host_text ''gg-ruby''" by (simp add: host_text_def none_of_def)
  then have forms: "bind_res (parse_uri (''s3://'' @ ''gg-ruby'' @ ''/?region='' @ ''eu-north-1'')) (backend_of Map.empty) =
      bind_res (credentials_from_env Map.empty) (\<lambda>credentials. Inr (s3_storage credentials ''gg-ruby'' ''eu-north-1'')) \<and>
    bind_res (parse_uri (''redis://'' @ ''u'' @ '':'' @ ''p'' @ ''@'' @ ''gg-ruby'' @ '':'' @ nat_to_string 80))
        (backend_of Map.empty) =
      Inr (Redis_storage \<lparr>rc_ip = ''gg-ruby'', rc_port = of_nat 80, rc_username = ''u'', rc_password = ''p''\<rparr>)"
    using storage_uri_forms [of "''gg-ruby''" "''eu-north-1''" "''u''" "''p''" 80 Map.empty]
    by (simp only: none_of_def) simp
  show ?thesis using forms by (simp only: port append_Cons append_Nil of_nat_numeral)
qed

section \<open>Batches\<close>

lemma for_range_nth: "k < length (for_range i stop step) \<Longrightarrow> for_range i stop step ! k = i + k * step"
proof (induction i stop step arbitrary: k rule: for_range.induct)
  case (1 i stop step)
  then show ?case
    by (cases k) (simp_all add: for_range.simps [of i stop step] split: if_splits)
qed

lemma for_range_set:
  "0 < step \<Longrightarrow> set (for_range i stop step) = {j. \<exists>k. j = i + k * step \<and> j < stop}"
proof (induction i stop step rule: for_range.induct)
  case (1 i stop step)
  show ?case
  proof (cases "i < stop")
    case True
    have "{j. \<exists>k. j = i + k * step \<and> j < stop} = insert i {j. \<exists>k. j = i + step + k * step \<and> j < stop}"
    proof (rule set_eqI)
      fix j
      have "(\<exists>k. j = i + k * step \<and> j < stop) \<longleftrightarrow> (j = i + 0 * step \<and> j < stop) \<or> (\<exists>k. j = i + Suc k * step \<and> j < stop)"
        by (metis not0_implies_Suc)
      with True show "j \<in> {j. \<exists>k. j = i + k * step \<and> j < stop} \<longleftrightarrow>
          j \<in> insert i {j. \<exists>k. j = i + step + k * step \<and> j < stop}"
        by (auto simp: add.assoc)
    qed
    with 1 True show ?thesis by (simp add: for_range.simps [of i stop step])
  next
    case False
    then have "\<not> i + k * step < stop" for k by (simp add: not_less trans_le_add1)
    then have "{j. \<exists>k. j = i + k * step \<and> j < stop} = {}" by blast
    with False show ?thesis by (simp add: for_range.simps [of i stop step])
  qed
qed

lemma for_range_distinct: "distinct (for_range i stop step)"
proof (induction i stop step rule: for_range.induct)
  case (1 i stop step)
  show ?case
  proof (cases "i < stop \<and> 0 < step")
    case True
    then have "i \<notin> set (for_range (i + step) stop step)" by (simp add: for_range_set)
    with 1 True show ?thesis by (simp add: for_range.simps [of i stop step])
  next
    case False
    then have "for_range i stop step = []" by (subst for_range.simps) (simp only: if_False)
    then show ?thesis by simp
  qed
qed

lemma for_range_single: "i < stop \<Longrightarrow> stop \<le> i + step \<Longrightarrow> for_range i stop step = [i]"
  by (subst for_range.simps, subst for_range.simps) simp

lemma distinct_concat_keys:
  "distinct xs \<Longrightarrow> (\<And>x. x \<in> set xs \<Longrightarrow> distinct (f x)) \<Longrightarrow> (\<And>x y. x \<in> set xs \<Longrightarrow> y \<in> set (f x) \<Longrightarrow> key y = x) \<Longrightarrow>
     distinct (concat (map f xs))"
proof (induction xs)
  case (Cons x xs)
  have "set (f x) \<inter> \<Union> (set ` f ` set xs) = {}"
  proof (rule ccontr)
    assume "\<not> ?thesis"
    then obtain y z where "y \<in> set (f x)" "z \<in> set xs" "y \<in> set (f z)" by auto
    with Cons.prems(1) Cons.prems(3) [of x y] Cons.prems(3) [of z y] show False by auto
  qed
  with Cons show ?case by simp
qed simp

definition all_files :: "s3_config \<Rightarrow> nat \<Rightarrow> nat list" where
  "all_files c n =
     concat (map (\<lambda>index. concat (map (batch_files c n) (batch_starts c n index))) (thread_indices c n))"

text \<open>What a thread's batches hold: the requests with its index modulo the number of threads.\<close>

lemma batch_files_mem:
  assumes "0 < sc_max_threads c" and "0 < sc_max_batch_size c" and "t < sc_max_threads c"
    and "s \<in> set (batch_starts c n t)" and "j \<in> set (batch_files c n s)"
  shows "j mod sc_max_threads c = t"
    and "t + (j - t) div (sc_max_threads c * sc_max_batch_size c) * (sc_max_threads c * sc_max_batch_size c) = s"
    and "j < n"
proof -
  let ?T = "sc_max_threads c" and ?P = "sc_max_threads c * sc_max_batch_size c"
  from assms obtain b where s: "s = t + b * ?P" by (auto simp: batch_starts_def for_range_set)
  from assms obtain k where j: "j = s + k * ?T" "j < n" "j < s + ?P" by (auto simp: batch_files_def for_range_set)
  have "j = t + (b * sc_max_batch_size c + k) * ?T" by (simp add: j(1) s algebra_simps)
  then show "j mod ?T = t" using assms(3) by simp
  have "k * ?T < ?P" using j by simp
  moreover have "j - t = b * ?P + k * ?T" by (simp add: j(1) s)
  ultimately have "(j - t) div ?P = b" by (simp add: div_add1_eq)
  then show "t + (j - t) div ?P * ?P = s" by (simp add: s)
  show "j < n" by (rule j)
qed

lemma thread_files_cover:
  assumes "0 < sc_max_threads c" and "0 < sc_max_batch_size c" and "j < n"
  shows "\<exists>s \<in> set (batch_starts c n (j mod sc_max_threads c)). j \<in> set (batch_files c n s)"
proof -
  let ?T = "sc_max_threads c" and ?B = "sc_max_batch_size c"
  define q where "q = j div ?T"
  have j: "j = j mod ?T + q * ?T" by (simp add: q_def)
  define s where "s = j mod ?T + q div ?B * (?T * ?B)"
  have "q = q div ?B * ?B + q mod ?B" by simp
  then have js: "j = s + q mod ?B * ?T"
    unfolding s_def using j by (metis add.assoc distrib_right mult.assoc mult.commute)
  have "q mod ?B < ?B" using assms(2) by simp
  then have "q mod ?B * ?T < ?T * ?B" using assms(1) by (simp add: mult.commute)
  then have "j \<in> set (batch_files c n s)"
    using js assms by (auto simp: batch_files_def for_range_set)
  moreover have "s \<in> set (batch_starts c n (j mod ?T))"
    using js assms by (auto simp: batch_starts_def for_range_set s_def)
  ultimately show ?thesis by blast
qed

text \<open>With at least one thread and batches of at least one file, every request of a transfer is sent over
  exactly one connection exactly once; and the k-th response on a connection is taken for the k-th
  request that was sent on it.\<close>

lemma s3_batches_cover:
  assumes "0 < sc_max_threads c" and "0 < sc_max_batch_size c"
  shows "distinct (all_files c n) \<and> set (all_files c n) = {..<n} \<and>
    (\<forall>first k. k < length (batch_files c n first) \<longrightarrow>
       batch_files c n first ! k = first + k * sc_max_threads c)"
proof (intro conjI)
  have threads: "set (thread_indices c n) = {..<min n (sc_max_threads c)}" "distinct (thread_indices c n)"
    using for_range_set [of 1 0 "sc_max_threads c"] for_range_distinct by (auto simp: thread_indices_def)
  show "distinct (all_files c n)"
    unfolding all_files_def
  proof (rule distinct_concat_keys [where key = "\<lambda>j. j mod sc_max_threads c"])
    fix t assume t: "t \<in> set (thread_indices c n)"
    show "distinct (concat (map (batch_files c n) (batch_starts c n t)))"
      by (rule distinct_concat_keys [where key = "\<lambda>j. t + (j - t) div (sc_max_threads c * sc_max_batch_size c)
            * (sc_max_threads c * sc_max_batch_size c)"])
        (use t threads batch_files_mem(2) [OF assms] in \<open>auto simp: batch_starts_def batch_files_def for_range_distinct\<close>)
  next
    fix t j assume "t \<in> set (thread_indices c n)" "j \<in> set (concat (map (batch_files c n) (batch_starts c n t)))"
    then show "j mod sc_max_threads c = t" using threads batch_files_mem(1) [OF assms] by auto
  qed (rule threads)
  show "set (all_files c n) = {..<n}"
  proof
    show "set (all_files c n) \<subseteq> {..<n}"
      using threads batch_files_mem(3) [OF assms] by (fastforce simp: all_files_def)
    show "{..<n} \<subseteq> set (all_files c n)"
    proof
      fix j assume "j \<in> {..<n}"
      moreover from this have "j mod sc_max_threads c < min n (sc_max_threads c)"
        using assms(1) mod_less_eq_dividend [of j "sc_max_threads c"] by (simp del: mod_less_eq_dividend)
      ultimately show "j \<in> set (all_files c n)"
        using thread_files_cover [OF assms] threads(1) by (fastforce simp: all_files_def)
    qed
  qed
qed (simp add: batch_files_def for_range_nth)

lemma s3_batches_cover_witness:
  "set (all_files \<lparr>sc_region = [], sc_endpoint = [], sc_max_threads = 2, sc_max_batch_size = 2\<rparr> 7) = {..<7}"
  using s3_batches_cover [of "\<lparr>sc_region = [], sc_endpoint = [], sc_max_threads = 2, sc_max_batch_size = 2\<rparr>" 7]
  by simp

lemma single_request:
  assumes "0 < sc_max_threads c" and "0 < sc_max_batch_size c"
  shows "thread_indices c 1 = [0]" "batch_starts c 1 0 = [0]" "batch_files c 1 0 = [0]"
proof -
  have "set (thread_indices c 1) = {0}" "distinct (thread_indices c 1)"
    using assms(1) for_range_set [of 1 0 "sc_max_threads c"] for_range_distinct by (auto simp: thread_indices_def)
  then show "thread_indices c 1 = [0]"
    by (cases "thread_indices c 1"; cases "tl (thread_indices c 1)") auto
  show "batch_starts c 1 0 = [0]" "batch_files c 1 0 = [0]"
    using assms by (simp_all add: batch_files_def batch_starts_def for_range_single Suc_leI)
qed

section \<open>A failed upload\<close>

text \<open>The status line arrives before the rest of the response.\<close>

lemma begin_response:
  assumes "find_sub CRLF line = None"
  obtains s where "parse_http response_class (line @ CRLF) (new_request_arrived request new_responses) = Inr s"
    "sq_complete s = []" "sq_sub s = []"
proof -
  define s0 where "s0 = (new_request_arrived request new_responses)\<lparr>sq_buffer := line @ CRLF\<rparr>"
  have "find_sub CRLF (line @ CRLF) = Some (length line)"
    using find_CRLF_line [OF assms, of "[]"] by simp
  then have line: "str_find (line @ CRLF) CRLF 0 = Some (length line)" by simp
  define m where "m = new_response\<lparr>hr_request := request, hm_first_line := line, hm_state := HEADERS_PENDING\<rparr>"
  let ?s = "s0\<lparr>sq_buffer := [], sq_current := m, sq_sub := []\<rparr>"
  have step1: "parsing_step response_class s0 = Inr (True, ?s)"
    using line by (simp add: parsing_step_def s0_def response_class_def new_request_arrived_def new_responses_def
        new_sequence_def new_response_def have_complete_line_def initialize_response_def set_request_def
        get_and_pop_line_def set_first_line_def m_def)
  have step2: "parsing_step response_class ?s = Inr (False, ?s)"
    by (simp add: parsing_step_def response_class_def m_def have_complete_line_def CRLF_def)
  have "parsing_loop (Suc (Suc n)) response_class s0 = Inr ?s" for n
    by (simp add: step1 step2)
  moreover have "parse_fuel s0 = Suc (Suc (3 * length (sq_buffer s0) + 2))" by (simp add: parse_fuel_def)
  ultimately have "parsing_loop (parse_fuel s0) response_class s0 = Inr ?s" by metis
  moreover have "parse_http response_class (line @ CRLF) (new_request_arrived request new_responses) =
      parsing_loop (parse_fuel s0) response_class s0"
    by (simp add: parse_http_def s0_def new_request_arrived_def new_responses_def new_sequence_def CRLF_def Let_def)
  ultimately have run: "parse_http response_class (line @ CRLF) (new_request_arrived request new_responses) = Inr ?s"
    by simp
  have "sq_complete s0 = []" by (simp add: s0_def new_request_arrived_def new_responses_def new_sequence_def)
  with run show thesis by (intro that [of ?s]) simp_all
qed

text \<open>An upload that fails is taken for one that worked when its status line arrives alone: whatever
  the line says and whatever follows, the loop ends as soon as the response to its last request has
  begun. Neither is the failure reported nor is the object noted as available.\<close>

lemma upload_ignores_failure:
  assumes "0 < sc_max_threads c" and "0 < sc_max_batch_size c"
    and "send_put w credentials c (client_endpoint c bucket) [r] d 0 (new_responses, []) = Inr (responses, written)"
    and "net (client_endpoint c bucket) written = (line @ CRLF) # later" and "find_sub CRLF line = None"
  shows "upload_files w net credentials c bucket [r] success d = Inr d"
proof -
  obtain request where responses: "responses = new_request_arrived request new_responses"
    using assms(3) by (auto simp: send_put_def send_request_def Let_def)
  obtain s where s: "parse_http response_class (line @ CRLF) responses = Inr s" "sq_complete s = []" "sq_sub s = []"
    using begin_response [OF assms(5)] responses by metis
  have sent: "sq_sub responses \<noteq> []" by (simp add: responses new_request_arrived_def)
  note single_request [OF assms(1,2)]
  moreover have "drain_uploads on_ok ((line @ CRLF) # later) responses 0 d = Inr d" for on_ok
    using sent by (subst drain_uploads.simps) (simp add: s take_response_def drain_uploads.simps)
  ultimately show ?thesis
    by (simp add: upload_files_def run_threads_def upload_batch_def in_thread_def assms(3,4))
qed

definition one_connection :: s3_config where
  "one_connection = \<lparr>sc_region = ''us-east-1'', sc_endpoint = [], sc_max_threads = 1, sc_max_batch_size = 1\<rparr>"

definition toy_put :: put_request where
  "toy_put = \<lparr>pr_filename = ''f'', pr_object_key = ''k'', pr_content_hash = Some ''h''\<rparr>"

lemma upload_ignores_failure_witness:
  "upload_files toy_world (\<lambda>_ _. [''HTTP/1.1 500 Internal Server Error'' @ CRLF]) (wd_credentials toy_world)
     one_connection ''b'' [toy_put] (\<lambda>_ _. Inl Undefined_behaviour) [''f'' \<mapsto> Regular ''x'' 420] =
   Inr [''f'' \<mapsto> Regular ''x'' 420]"
proof -
  have "\<not> isl (send_put toy_world (wd_credentials toy_world) one_connection (client_endpoint one_connection ''b'')
      [toy_put] [''f'' \<mapsto> Regular ''x'' 420] 0 (new_responses, []))"
    by code_simp
  then obtain responses written where sent: "send_put toy_world (wd_credentials toy_world) one_connection
      (client_endpoint one_connection ''b'') [toy_put] [''f'' \<mapsto> Regular ''x'' 420] 0 (new_responses, []) =
      Inr (responses, written)"
    by (metis isl_def obj_sumE surj_pair)
  have "find_sub CRLF ''HTTP/1.1 500 Internal Server Error'' = None" by code_simp
  then show ?thesis
    by (intro upload_ignores_failure [OF _ _ sent refl]) (simp_all add: one_connection_def)
qed

end
