(* ===== verification/Execute.thy ===== *)
theory Execute
  imports Storage ThunkIO
begin

text \<open>
  The program that runs a thunk (\<open>src/frontend/gg-execute.cc\<close>, \<open>src/util/timelog.cc\<close>): it fetches what
  the thunk needs, runs it in a directory of its own, moves the outputs to the store, writes the cache
  entries and uploads the outputs. What the thunk's own program does is an argument.
\<close>

section \<open>Files with links\<close>

text \<open>A thunk may ask for links in its directory. \<open>fs_links\<close> holds the symbolic links, \<open>seen\<close> is the disk
  through them; the kernel follows at most forty. Links among the directories of a path are not
  followed.\<close>

record fsys =
  fs_disk :: disk
  fs_links :: "string \<rightharpoonup> string"

fun follow :: "nat \<Rightarrow> (string \<rightharpoonup> string) \<Rightarrow> string \<Rightarrow> string option" where
  "follow n links p =
     (case links p of
        None \<Rightarrow> Some p
      | Some q \<Rightarrow> (case n of 0 \<Rightarrow> None | Suc m \<Rightarrow> follow m links q))"

definition seen :: "fsys \<Rightarrow> disk" where
  "seen f p = (case follow 40 (fs_links f) p of None \<Rightarrow> None | Some q \<Rightarrow> fs_disk f q)"

text \<open>A call that works on the disk as it is seen; a path it changed is a link no longer.\<close>

definition on_disk :: "(disk \<Rightarrow> ('a \<times> disk) res) \<Rightarrow> fsys \<Rightarrow> ('a \<times> fsys) res" where
  "on_disk act f =
     bind_res (act (seen f)) (\<lambda>(a, d'). Inr (a,
       \<lparr>fs_disk = (\<lambda>p. if fs_links f p = None \<or> d' p \<noteq> seen f p then d' p else fs_disk f p),
        fs_links = (\<lambda>p. if fs_links f p = None \<or> d' p \<noteq> seen f p then None else fs_links f p)\<rparr>))"

definition fs_symlink :: "string \<Rightarrow> string \<Rightarrow> fsys \<Rightarrow> fsys res" where
  "fs_symlink target linkpath f =
     (if fs_links f linkpath \<noteq> None \<or> fs_disk f linkpath \<noteq> None then Inl (Unix_error ''symlink'')
      else Inr (f\<lparr>fs_links := (fs_links f)(linkpath \<mapsto> target)\<rparr>))"

definition fs_remove :: "string \<Rightarrow> fsys \<Rightarrow> fsys res" where
  "fs_remove p f =
     (if fs_links f p \<noteq> None then Inr (f\<lparr>fs_links := (fs_links f)(p := None)\<rparr>)
      else if fs_disk f p = Some Directory \<and> \<not> nothing_below p (fs_links f) then Inl (Unix_error ''remove'')
      else bind_res (remove p (fs_disk f)) (\<lambda>d. Inr (f\<lparr>fs_disk := d\<rparr>)))"

definition fs_rename :: "string \<Rightarrow> string \<Rightarrow> fsys \<Rightarrow> fsys res" where
  "fs_rename src dst f =
     (case fs_links f src of
        Some target \<Rightarrow>
          if fs_disk f dst = Some Directory then Inl (Unix_error ''rename()'')
          else Inr \<lparr>fs_disk = (fs_disk f)(dst := None), fs_links = (fs_links f)(src := None, dst \<mapsto> target)\<rparr>
      | None \<Rightarrow>
          bind_res (exec_call (Rename src dst) (fs_disk f)) (\<lambda>d.
            Inr \<lparr>fs_disk = d, fs_links = (fs_links f)(dst := None)\<rparr>))"

definition fs_move :: "kernel \<Rightarrow> bool \<Rightarrow> string \<Rightarrow> string \<Rightarrow> fsys \<Rightarrow> fsys res" where
  "fs_move k cross_device src dst f =
     (if \<not> cross_device then fs_rename src dst f
      else bind_res (on_disk (\<lambda>d. bind_res (copy_then_rename k src dst None d) (\<lambda>d'. Inr ((), d'))) f)
             (\<lambda>(_, f'). fs_remove src f'))"

section \<open>The log of times\<close>

record time_log =
  tl_start :: int
  tl_prev :: int
  tl_points :: "(string \<times> int) list"
  tl_points_rw :: "(string \<times> nat) list"
  tl_points_size :: "(string \<times> nat) list"
  tl_get_hash :: "(string \<times> nat) list"
  tl_upload_hash :: "(string \<times> nat) list"
  tl_execute_info :: string

definition new_time_log :: "int \<Rightarrow> time_log" where
  "new_time_log now = \<lparr>tl_start = now, tl_prev = now, tl_points = [], tl_points_rw = [], tl_points_size = [],
     tl_get_hash = [], tl_upload_hash = [], tl_execute_info = []\<rparr>"

definition log_hash :: "string \<Rightarrow> string \<Rightarrow> nat \<Rightarrow> time_log \<Rightarrow> time_log" where
  "log_hash title h sz l =
     (if title = ''get_hash'' then l\<lparr>tl_get_hash := tl_get_hash l @ [(h, sz)]\<rparr>
      else l\<lparr>tl_upload_hash := tl_upload_hash l @ [(h, sz)]\<rparr>)"

definition log_size :: "string \<Rightarrow> nat \<Rightarrow> time_log \<Rightarrow> time_log" where
  "log_size title sz l = l\<lparr>tl_points_size := tl_points_size l @ [(title, sz)]\<rparr>"

definition log_rw :: "string \<Rightarrow> nat \<Rightarrow> time_log \<Rightarrow> time_log" where
  "log_rw title cnt l = l\<lparr>tl_points_rw := tl_points_rw l @ [(title, cnt)]\<rparr>"

definition log_point :: "string \<Rightarrow> int \<Rightarrow> time_log \<Rightarrow> time_log" where
  "log_point title now l = l\<lparr>tl_points := tl_points l @ [(title, now - tl_prev l)], tl_prev := now\<rparr>"

definition log_time_point :: "string \<Rightarrow> int \<Rightarrow> time_log \<Rightarrow> time_log" where
  "log_time_point title t l = l\<lparr>tl_points := tl_points l @ [(title, t)]\<rparr>"

definition log_execute :: "string list \<Rightarrow> time_log \<Rightarrow> time_log" where
  "log_execute args l = l\<lparr>tl_execute_info := tl_execute_info l @ concat args\<rparr>"

definition log_lines :: "string \<Rightarrow> ('a \<Rightarrow> string) \<Rightarrow> (string \<times> 'a) list \<Rightarrow> string" where
  "log_lines start f points = concat (map (\<lambda>(a, b). start @ a @ '' '' @ f b @ [newline]) points)"

definition time_log_str :: "time_log \<Rightarrow> string" where
  "time_log_str l =
     int_to_string (tl_start l) @ [newline]
     @ log_lines [] int_to_string (tl_points l)
     @ ''Execute Command: '' @ tl_execute_info l @ [newline]
     @ ''Read/Write Numbers'' @ [newline] @ log_lines [] nat_to_string (tl_points_rw l)
     @ ''Read/Write Sizes'' @ [newline] @ log_lines [] nat_to_string (tl_points_size l)
     @ ''Get Hash'' @ [newline] @ log_lines ''get_hash '' nat_to_string (tl_get_hash l)
     @ ''Upload Hash'' @ [newline] @ log_lines ''upload_hash '' nat_to_string (tl_upload_hash l)"

section \<open>What is outside\<close>

text \<open>\<open>xe_run\<close> is the program of the thunk, started in a directory: its exit status, or signal, and the
  files it leaves. \<open>xe_sandbox\<close> is the same under the sandbox, which throws (\<open>None\<close>) when the program
  fails or breaks the rules. \<open>xe_readdir\<close> lists a directory without \<open>.\<close> and \<open>..\<close>, \<open>xe_is_empty\<close> is what
  \<open>rmdir\<close> asks.\<close>

record execution_env =
  xe_world :: world
  xe_clients :: remote_clients
  xe_hex :: "string \<Rightarrow> string"
  xe_temp :: "string \<Rightarrow> fsys \<Rightarrow> string"
  xe_cross_device :: bool
  xe_sandboxed :: bool
  xe_run :: "exec_call \<Rightarrow> string \<Rightarrow> fsys \<Rightarrow> int \<times> fsys"
  xe_sandbox :: "(string \<rightharpoonup> permissions) \<Rightarrow> exec_call res \<Rightarrow> string \<Rightarrow> fsys \<Rightarrow> fsys option"
  xe_stat :: "fsys \<Rightarrow> string \<Rightarrow> file_stat"
  xe_readdir :: "string \<Rightarrow> fsys \<Rightarrow> string list"
  xe_is_empty :: "string \<Rightarrow> fsys \<Rightarrow> bool"
  xe_clock :: "nat \<Rightarrow> int"

record run_state =
  xs_files :: fsys
  xs_log :: "time_log option"
  xs_ticks :: nat
  xs_stdout :: string

text \<open>The exceptions that \<open>main\<close> tells apart. A failed assertion, undefined behaviour or an exception
  out of a thread is none of them: nothing catches it.\<close>

datatype failure =
    Fetch_dependencies_error
  | Execution_error
  | Upload_output_error
  | Exception error
  | Abort error

definition aborts :: "error \<Rightarrow> bool" where
  "aborts e \<longleftrightarrow> e = Assertion_failed \<or> e = Undefined_behaviour \<or> e = Stack_overflow \<or> e = Terminated \<or> e = Out_of_fuel"

definition raised :: "'a res \<Rightarrow> failure + 'a" where
  "raised r = (case r of Inl e \<Rightarrow> Inl (if aborts e then Abort e else Exception e) | Inr x \<Rightarrow> Inr x)"

text \<open>\<open>catch ( const exception & ) { throw_with_nested( ... ) }\<close>.\<close>

definition nested :: "failure \<Rightarrow> 'a res \<Rightarrow> failure + 'a" where
  "nested f r = (case r of Inl e \<Rightarrow> Inl (if aborts e then Abort e else f) | Inr x \<Rightarrow> Inr x)"

definition put_files :: "fsys \<Rightarrow> run_state \<Rightarrow> run_state" where
  "put_files f s = s\<lparr>xs_files := f\<rparr>"

definition with_log :: "(time_log \<Rightarrow> time_log) \<Rightarrow> run_state \<Rightarrow> run_state" where
  "with_log f s = s\<lparr>xs_log := map_option f (xs_log s)\<rparr>"

text \<open>\<open>timelog->...\<close> asserts that there is a log.\<close>

definition on_log :: "(time_log \<Rightarrow> time_log) \<Rightarrow> run_state \<Rightarrow> run_state res" where
  "on_log f s = bind_res (assert_res (xs_log s \<noteq> None)) (\<lambda>_. Inr (with_log f s))"

definition read_clock :: "execution_env \<Rightarrow> run_state \<Rightarrow> int \<times> run_state" where
  "read_clock x s = (xe_clock x (xs_ticks s), s\<lparr>xs_ticks := xs_ticks s + 1\<rparr>)"

text \<open>\<open>if ( timelog.initialized() ) { timelog->add_point( title ); }\<close>\<close>

definition point :: "execution_env \<Rightarrow> string \<Rightarrow> run_state \<Rightarrow> run_state" where
  "point x title s =
     (case xs_log s of
        None \<Rightarrow> s
      | Some _ \<Rightarrow> (case read_clock x s of (now, s') \<Rightarrow> with_log (log_point title now) s'))"

definition timed :: "execution_env \<Rightarrow> string \<Rightarrow> run_state \<Rightarrow> run_state res" where
  "timed x title s = (case read_clock x s of (now, s') \<Rightarrow> on_log (log_time_point title now) s')"

section \<open>Running the thunk\<close>

definition temp_dir_template :: string where
  "temp_dir_template = ''/tmp/thunk-execute''"

definition make_temp_dir :: "execution_env \<Rightarrow> string \<Rightarrow> fsys \<Rightarrow> (string \<times> fsys) res" where
  "make_temp_dir x template f =
     (let name = temp_name template (xe_temp x template f)
      in if fs_disk f name \<noteq> None \<or> fs_links f name \<noteq> None then Inl (Unix_error (''mkdtemp '' @ name))
         else Inr (name, f\<lparr>fs_disk := (fs_disk f)(name \<mapsto> Directory)\<rparr>))"

definition make_links :: "world \<Rightarrow> string \<Rightarrow> thunk \<Rightarrow> fsys \<Rightarrow> fsys res" where
  "make_links w dir t f =
     fold_res (\<lambda>(name, h). fs_symlink (blob (wd_gg_dir w) h) (path_append dir name)) (th_links t) f"

definition the_call :: "execution_env \<Rightarrow> thunk \<Rightarrow> exec_call res" where
  "the_call x t =
     (let w = xe_world x
      in execute_call (wd_sha256 w) (wd_encode w) (wd_gg_dir w) (wd_environ w ''GG_VERBOSE'' \<noteq> None) t)"

text \<open>The child process: an exception in it is the exit status 1.\<close>

definition run_child :: "execution_env \<Rightarrow> string \<Rightarrow> thunk \<Rightarrow> fsys \<Rightarrow> int \<times> fsys" where
  "run_child x dir t f =
     (if seen f dir \<noteq> Some Directory then (1, f)
      else case the_call x t of Inl _ \<Rightarrow> (1, f) | Inr call \<Rightarrow> xe_run x call dir f)"

definition run_function ::
  "execution_env \<Rightarrow> string \<Rightarrow> thunk \<Rightarrow> fsys \<times> run_state \<Rightarrow> failure + (fsys \<times> run_state)" where
  "run_function x dir t st =
     (case st of (f, s) \<Rightarrow>
        let w = xe_world x
        in if \<not> xe_sandboxed x then
             bind_res (raised (on_log (log_execute (fn_args (th_function t))) s)) (\<lambda>s1.
             bind_res (raised (thunk_hash (wd_sha256 w) (wd_encode w) t)) (\<lambda>_.
               case run_child x dir t f of (status, f') \<Rightarrow>
                 if status \<noteq> 0 then Inl Execution_error else Inr (f', s1)))
           else
             bind_res (raised (get_allowed_files (wd_sha256 w) (wd_encode w) (wd_gg_dir w) t)) (\<lambda>allowed_files.
             bind_res (raised (on_log (log_execute (fn_args (th_function t))) s)) (\<lambda>s1.
             bind_res (raised (thunk_hash (wd_sha256 w) (wd_encode w) t)) (\<lambda>_.
               case xe_sandbox x allowed_files (the_call x t) dir f of
                 None \<Rightarrow> Inl Execution_error | Some f' \<Rightarrow> Inr (f', s1)))))"

text \<open>One output: it is hashed and moved to the store, unless the store has it.\<close>

definition grab_output ::
  "execution_env \<Rightarrow> string \<Rightarrow> string \<Rightarrow> string list \<times> fsys \<Rightarrow> failure + (string list \<times> fsys)" where
  "grab_output x dir output st =
     (case st of (output_hashes, f) \<Rightarrow>
        let w = xe_world x; outfile = path_append dir output
        in if \<not> path_exists outfile (seen f) then Inl Execution_error
           else bind_res (raised (on_disk
                  (hash_file (wd_sha256 w) (wd_kernel w) (xe_stat x f) (wd_gg_dir w) outfile None) f)) (\<lambda>(h, f1).
                bind_res (raised (if \<not> path_exists (blob (wd_gg_dir w) h) (seen f1)
                                  then fs_move (wd_kernel w) (xe_cross_device x) outfile (blob (wd_gg_dir w) h) f1
                                  else fs_remove outfile f1)) (\<lambda>f2.
                  Inr (output_hashes @ [h], f2))))"

definition remove_links :: "string \<Rightarrow> thunk \<Rightarrow> fsys \<Rightarrow> fsys res" where
  "remove_links dir t f = fold_res (\<lambda>(name, _). fs_remove (path_append dir name)) (th_links t) f"

definition fs_cache_insert :: "world \<Rightarrow> string \<Rightarrow> string \<Rightarrow> fsys \<Rightarrow> fsys res" where
  "fs_cache_insert w old_hash new_hash f =
     bind_res (on_disk (\<lambda>d. bind_res (cache_insert (wd_kernel w) (wd_gg_dir w) old_hash new_hash d) (\<lambda>d'.
       Inr ((), d'))) f) (\<lambda>(_, f'). Inr f')"

text \<open>The cache entries, from the last output to the first. \<open>thunk\<close> is a copy of \<open>original_thunk\<close> that
  nothing changes, so their hashes are equal and the entries for both are one.\<close>

definition note_output :: "world \<Rightarrow> thunk \<Rightarrow> nat \<times> string \<times> string \<Rightarrow> fsys \<Rightarrow> fsys res" where
  "note_output w t entry f =
     (case entry of (i, output, outfile_hash) \<Rightarrow>
        bind_res (output_hash (wd_sha256 w) (wd_encode w) output t) (\<lambda>(oh, _).
        bind_res (fs_cache_insert w oh outfile_hash f) (\<lambda>f1.
          if i = 0 then bind_res (thunk_hash (wd_sha256 w) (wd_encode w) t) (\<lambda>(h, _). fs_cache_insert w h outfile_hash f1)
          else Inr f1)))"

definition note_outputs :: "world \<Rightarrow> thunk \<Rightarrow> string list \<Rightarrow> fsys \<Rightarrow> fsys res" where
  "note_outputs w t output_hashes f =
     fold_res (note_output w t) (rev (zip [0..<length (th_outputs t)] (zip (th_outputs t) output_hashes))) f"

text \<open>The directory is removed at the end when it is empty; otherwise a message is printed.\<close>

definition drop_temp_dir :: "execution_env \<Rightarrow> string \<Rightarrow> fsys \<Rightarrow> fsys" where
  "drop_temp_dir x dir f =
     (if fs_disk f dir = Some Directory \<and> xe_is_empty x dir f then f\<lparr>fs_disk := (fs_disk f)(dir := None)\<rparr> else f)"

text \<open>The directory of a run and the links the thunk asks for in it.\<close>

definition prepare_run :: "execution_env \<Rightarrow> thunk \<Rightarrow> fsys \<Rightarrow> (string \<times> fsys) res" where
  "prepare_run x t f =
     bind_res (make_temp_dir x temp_dir_template f) (\<lambda>(dir, f0).
     bind_res (on_disk (\<lambda>d. bind_res (create_directories dir d) (\<lambda>d'. Inr ((), d'))) f0) (\<lambda>(_, f1).
     bind_res (make_links (xe_world x) dir t f1) (\<lambda>f2. Inr (dir, f2))))"

definition execute_thunk :: "execution_env \<Rightarrow> thunk \<Rightarrow> run_state \<Rightarrow> failure + (string list \<times> run_state)" where
  "execute_thunk x t s =
     (let w = xe_world x
      in bind_res (raised (prepare_run x t (xs_files s))) (\<lambda>(dir, f2).
         bind_res (run_function x dir t (f2, s)) (\<lambda>(f3, s1).
         bind_res (fold_res (grab_output x dir) (th_outputs t) ([], f3)) (\<lambda>(output_hashes, f4).
         bind_res (raised (remove_links dir t f4)) (\<lambda>f5.
         bind_res (raised (note_outputs w t output_hashes f5)) (\<lambda>f6.
           Inr (output_hashes, put_files (drop_temp_dir x dir f6) s1)))))))"

section \<open>Before and after\<close>

definition kept_hashes :: "world \<Rightarrow> thunk \<Rightarrow> string list res" where
  "kept_hashes w t =
     bind_res (thunk_hash (wd_sha256 w) (wd_encode w) t) (\<lambda>(h, _).
       Inr (uset_insert_all (h # map fst (th_values t) @ map fst (th_executables t)) []))"

definition clean_blob :: "world \<Rightarrow> string list \<Rightarrow> string \<Rightarrow> fsys \<Rightarrow> fsys res" where
  "clean_blob w infile_hashes name f =
     (let path = blob (wd_gg_dir w) name
      in bind_res (is_directory path (seen f)) (\<lambda>dir.
           if \<not> dir \<and> name \<notin> set infile_hashes then fs_remove path f else Inr f))"

definition do_cleanup :: "execution_env \<Rightarrow> thunk \<Rightarrow> fsys \<Rightarrow> fsys res" where
  "do_cleanup x t f =
     (let w = xe_world x
      in bind_res (kept_hashes w t) (\<lambda>infile_hashes.
         fold_res (clean_blob w infile_hashes) (xe_readdir x (blobs (wd_gg_dir w)) f) f))"

definition needed :: "world \<Rightarrow> fsys \<Rightarrow> string \<Rightarrow> bool res" where
  "needed w f h =
     (let target_path = blob (wd_gg_dir w) h
      in if \<not> path_exists target_path (seen f) then Inr True
         else bind_res (file_size target_path (seen f)) (\<lambda>n. bind_res (hash_size h) (\<lambda>sz. Inr (n \<noteq> unat sz))))"

definition dependency_request :: "world \<Rightarrow> bool \<Rightarrow> string \<Rightarrow> get_request" where
  "dependency_request w executables h =
     \<lparr>gr_object_key = h, gr_filename = blob (wd_gg_dir w) h, gr_mode = Some (if executables then 356 else 292)\<rparr>"

definition check_dep ::
  "world \<Rightarrow> fsys \<Rightarrow> bool \<Rightarrow> data_item \<Rightarrow> get_request list \<Rightarrow> get_request list res" where
  "check_dep w f executables item download_items =
     bind_res (needed w f (fst item)) (\<lambda>n.
       Inr (if n then download_items @ [dependency_request w executables (fst item)] else download_items))"

text \<open>The same with a log, and with the sum of the sizes.\<close>

definition check_dep_logged ::
  "world \<Rightarrow> bool \<Rightarrow> data_item \<Rightarrow> get_request list \<times> nat \<times> run_state \<Rightarrow>
     (get_request list \<times> nat \<times> run_state) res" where
  "check_dep_logged w executables item st =
     (case st of (download_items, total_size, s) \<Rightarrow>
        bind_res (needed w (xs_files s) (fst item)) (\<lambda>n.
          if n then bind_res (hash_size (fst item)) (\<lambda>sz.
                    bind_res (on_log (log_hash ''get_hash'' (fst item) (unat sz)) s) (\<lambda>s1.
                      Inr (download_items @ [dependency_request w executables (fst item)], total_size + unat sz, s1)))
          else Inr st))"

definition storage_on_files ::
  "(disk \<Rightarrow> disk res) \<Rightarrow> run_state \<Rightarrow> run_state res" where
  "storage_on_files act s =
     bind_res (on_disk (\<lambda>d. bind_res (act d) (\<lambda>d'. Inr ((), d'))) (xs_files s)) (\<lambda>(_, f). Inr (put_files f s))"

definition get_files ::
  "execution_env \<Rightarrow> storage_backend \<Rightarrow> get_request list \<Rightarrow> run_state \<Rightarrow> run_state res" where
  "get_files x sb requests = storage_on_files (storage_get (xe_world x) (xe_clients x) sb requests (\<lambda>_. Inr))"

definition put_objects ::
  "execution_env \<Rightarrow> storage_backend \<Rightarrow> put_request list \<Rightarrow> run_state \<Rightarrow> run_state res" where
  "put_objects x sb requests = storage_on_files (storage_put (xe_world x) (xe_clients x) sb requests (\<lambda>_. Inr))"

definition fetch_dependencies ::
  "execution_env \<Rightarrow> storage_backend \<Rightarrow> thunk \<Rightarrow> run_state \<Rightarrow> failure + run_state" where
  "fetch_dependencies x sb t s =
     nested Fetch_dependencies_error
       (bind_res (fold_res (check_dep (xe_world x) (xs_files s) False) (th_values t) []) (\<lambda>items.
        bind_res (fold_res (check_dep (xe_world x) (xs_files s) True) (th_executables t) items) (\<lambda>download_items.
          if length download_items > 0 then get_files x sb download_items s else Inr s)))"

definition fetch_dependencies_logged ::
  "execution_env \<Rightarrow> storage_backend \<Rightarrow> thunk \<Rightarrow> run_state \<Rightarrow> failure + run_state" where
  "fetch_dependencies_logged x sb t s =
     nested Fetch_dependencies_error
       (bind_res (fold_res (check_dep_logged (xe_world x) False) (th_values t) ([], 0, s)) (\<lambda>st.
        bind_res (fold_res (check_dep_logged (xe_world x) True) (th_executables t) st)
          (\<lambda>(download_items, total_size, s1).
            if length download_items > 0 then
              bind_res (on_log (log_rw ''get_dependencies_num'' (length download_items)) s1) (\<lambda>s2.
              bind_res (on_log (log_size ''get_dependencies_size'' total_size) s2) (\<lambda>s3.
              bind_res (timed x ''get_dependencies_start_time'' s3) (\<lambda>s4.
              bind_res (get_files x sb download_items s4) (\<lambda>s5. timed x ''get_dependencies_end_time'' s5))))
            else
              bind_res (on_log (log_rw ''get_dependencies_num'' 0) s1) (\<lambda>s2.
                on_log (log_size ''get_dependencies_size'' 0) s2))))"

definition upload_output ::
  "execution_env \<Rightarrow> storage_backend \<Rightarrow> string list \<Rightarrow> run_state \<Rightarrow> failure + run_state" where
  "upload_output x sb output_hashes s =
     nested Upload_output_error
       (bind_res (map_res (upload_request (xe_world x) (xe_hex x)) output_hashes) (\<lambda>requests.
          put_objects x sb requests s))"

definition add_output_request ::
  "execution_env \<Rightarrow> string \<Rightarrow> put_request list \<times> nat \<times> run_state \<Rightarrow>
     (put_request list \<times> nat \<times> run_state) res" where
  "add_output_request x h st =
     (case st of (requests, total_size, s) \<Rightarrow>
        bind_res (upload_request (xe_world x) (xe_hex x) h) (\<lambda>r.
        bind_res (file_size (blob (wd_gg_dir (xe_world x)) h) (seen (xs_files s))) (\<lambda>n.
        bind_res (hash_size h) (\<lambda>sz.
        bind_res (on_log (log_hash ''upload_hash'' h (unat sz)) s) (\<lambda>s1.
          Inr (requests @ [r], total_size + n, s1))))))"

definition upload_output_logged ::
  "execution_env \<Rightarrow> storage_backend \<Rightarrow> string list \<Rightarrow> run_state \<Rightarrow> failure + run_state" where
  "upload_output_logged x sb output_hashes s =
     nested Upload_output_error
       (bind_res (fold_res (add_output_request x) output_hashes ([], 0, s)) (\<lambda>(requests, total_size, s1).
        bind_res (on_log (log_rw ''upload_output_num'' (length requests)) s1) (\<lambda>s2.
        bind_res (on_log (log_size ''upload_output_size'' total_size) s2) (\<lambda>s3.
        bind_res (timed x ''upload_output_start_time'' s3) (\<lambda>s4.
        bind_res (put_objects x sb requests s4) (\<lambda>s5. timed x ''upload_output_end_time'' s5))))))"

section \<open>The log goes out\<close>

definition write_temp_file :: "execution_env \<Rightarrow> string \<Rightarrow> string \<Rightarrow> fsys \<Rightarrow> (string \<times> fsys) res" where
  "write_temp_file x template contents f =
     (let name = temp_name template (xe_temp x template f)
      in if fs_links f name \<noteq> None then Inl (Unix_error ''mkstemp'')
         else bind_res (exec_call (Mkstemp name) (fs_disk f)) (\<lambda>d.
              bind_res (write_all (write_accepts (wd_kernel (xe_world x))) contents) (\<lambda>parts.
              bind_res (fold_res (\<lambda>part. exec_call (Write name part)) parts d) (\<lambda>d'.
                Inr (name, f\<lparr>fs_disk := d'\<rparr>)))))"

definition deliver_log ::
  "execution_env \<Rightarrow> storage_backend option \<Rightarrow> string \<Rightarrow> run_state \<Rightarrow> run_state res" where
  "deliver_log x storage h s =
     (case xs_log s of
        None \<Rightarrow> Inr s
      | Some l \<Rightarrow>
          (case storage of
             Some sb \<Rightarrow>
               bind_res (write_temp_file x ''/tmp/timelog'' (time_log_str l) (xs_files s)) (\<lambda>(name, f).
               bind_res (put_objects x sb
                   [\<lparr>pr_filename = name, pr_object_key = ''timelog/'' @ h, pr_content_hash = None\<rparr>] (put_files f s)) (\<lambda>s1.
                 Inr (put_files (case fs_remove name (xs_files s1) of Inl _ \<Rightarrow> xs_files s1 | Inr f' \<Rightarrow> f') s1)))
           | None \<Rightarrow> Inr (s\<lparr>xs_stdout := xs_stdout s @ time_log_str l @ [newline]\<rparr>)))"

section \<open>main\<close>

record exec_options =
  eo_get_dependencies :: bool
  eo_put_output :: bool
  eo_cleanup :: bool

text \<open>One answer of \<open>getopt_long\<close>; the long options have the same letters.\<close>

definition take_option ::
  "execution_env \<Rightarrow> char \<Rightarrow> exec_options \<times> run_state \<Rightarrow> (exec_options \<times> run_state) res" where
  "take_option x opt st =
     (case st of (o', s) \<Rightarrow>
        if opt = CHR ''g'' then Inr (o'\<lparr>eo_get_dependencies := True\<rparr>, s)
        else if opt = CHR ''p'' then Inr (o'\<lparr>eo_put_output := True\<rparr>, s)
        else if opt = CHR ''C'' then Inr (o'\<lparr>eo_cleanup := True\<rparr>, s)
        else if opt = CHR ''T'' then
          (case read_clock x s of (now, s') \<Rightarrow> Inr (o', s'\<lparr>xs_log := Some (new_time_log now)\<rparr>))
        else Inl (Runtime_error ''invalid option''))"

definition open_storage ::
  "execution_env \<Rightarrow> run_state \<Rightarrow> (storage_backend \<times> run_state) res" where
  "open_storage x s =
     (let w = xe_world x
      in bind_res (storage_backend_uri (wd_environ w)) (\<lambda>uri.
         bind_res (on_disk (create_backend (wd_sha256 w) (wd_environ w) uri) (xs_files s)) (\<lambda>(sb, f).
           Inr (sb, put_files f s))))"

definition read_locked_thunk :: "world \<Rightarrow> string \<Rightarrow> run_state \<Rightarrow> thunk res" where
  "read_locked_thunk w h s =
     (let thunk_path = blob (wd_gg_dir w) h
      in if \<not> path_exists thunk_path (seen (xs_files s)) then Inl (Unix_error (''open( '' @ thunk_path @ '' )''))
         else read_thunk (wd_decode w) thunk_path [] (seen (xs_files s)))"

definition fetch_step ::
  "execution_env \<Rightarrow> exec_options \<Rightarrow> storage_backend option \<Rightarrow> thunk \<Rightarrow> run_state \<Rightarrow> failure + run_state" where
  "fetch_step x o' storage t s =
     (case storage of
        Some sb \<Rightarrow>
          if eo_get_dependencies o' then
            (if xs_log s \<noteq> None then fetch_dependencies_logged x sb t s else fetch_dependencies x sb t s)
          else Inr s
      | None \<Rightarrow> Inr s)"

definition upload_step ::
  "execution_env \<Rightarrow> exec_options \<Rightarrow> storage_backend option \<Rightarrow> string list \<Rightarrow> run_state \<Rightarrow> failure + run_state" where
  "upload_step x o' storage output_hashes s =
     (case storage of
        Some sb \<Rightarrow>
          if eo_put_output o' then
            (if xs_log s \<noteq> None then upload_output_logged x sb output_hashes s
             else upload_output x sb output_hashes s)
          else Inr s
      | None \<Rightarrow> Inr s)"

definition run_one ::
  "execution_env \<Rightarrow> exec_options \<Rightarrow> string \<Rightarrow> storage_backend option \<times> run_state \<Rightarrow>
     failure + (storage_backend option \<times> run_state)" where
  "run_one x o' h st =
     (case st of (storage0, s0) \<Rightarrow>
        let w = xe_world x
        in bind_res (raised (read_locked_thunk w h s0)) (\<lambda>t.
           bind_res (if eo_get_dependencies o' \<or> eo_put_output o'
                     then bind_res (raised (open_storage x (point x ''read_thunk'' s0))) (\<lambda>(sb, s). Inr (Some sb, s))
                     else Inr (storage0, point x ''read_thunk'' s0)) (\<lambda>(storage, s1).
           bind_res (if eo_cleanup o'
                     then bind_res (raised (do_cleanup x t (xs_files s1))) (\<lambda>f. Inr (put_files f s1))
                     else Inr s1) (\<lambda>s2.
           bind_res (fetch_step x o' storage t (point x ''do_cleanup'' s2)) (\<lambda>s3.
           bind_res (execute_thunk x t (point x ''get_dependencies'' s3)) (\<lambda>(output_hashes, s4).
           bind_res (upload_step x o' storage output_hashes (point x ''execute'' s4)) (\<lambda>s5.
           bind_res (raised (deliver_log x storage h (point x ''upload_output'' s5))) (\<lambda>s6.
             Inr (storage, s6)))))))))"

definition run_all ::
  "execution_env \<Rightarrow> string \<Rightarrow> string list \<Rightarrow> fsys \<Rightarrow> failure + run_state option" where
  "run_all x options thunk_hashes f =
     bind_res (raised (fold_res (take_option x) options
         (\<lparr>eo_get_dependencies = False, eo_put_output = False, eo_cleanup = False\<rparr>,
          \<lparr>xs_files = f, xs_log = None, xs_ticks = 0, xs_stdout = []\<rparr>))) (\<lambda>(o', s).
       if length thunk_hashes = 0 then Inr None
       else bind_res (fold_res (run_one x o') thunk_hashes (None, s)) (\<lambda>(_, s'). Inr (Some s')))"

text \<open>The exit status, and the state when it is known; \<open>Inl\<close> is a program that was aborted.\<close>

definition gg_execute ::
  "execution_env \<Rightarrow> string \<Rightarrow> string list \<Rightarrow> fsys \<Rightarrow> (job_status \<times> run_state option) res" where
  "gg_execute x options thunk_hashes f =
     (case run_all x options thunk_hashes f of
        Inr None \<Rightarrow> Inr (OperationalFailure, None)
      | Inr (Some s) \<Rightarrow> Inr (Success, Some s)
      | Inl Fetch_dependencies_error \<Rightarrow> Inr (FetchDependenciesFailure, None)
      | Inl Execution_error \<Rightarrow> Inr (ExecutionFailure, None)
      | Inl Upload_output_error \<Rightarrow> Inr (UploadOutputFailure, None)
      | Inl (Exception _) \<Rightarrow> Inr (OperationalFailure, None)
      | Inl (Abort e) \<Rightarrow> Inl e)"

end
