(* ===== verification/ExecuteLaws.thy ===== *)
theory ExecuteLaws
  imports Execute EngineLaws Answers
begin

text \<open>
  What a run of \<open>gg-execute\<close> does to the store: results are found where the scheduler looks for them, a
  cleanup keeps what the thunk needs. And that a run without a log of times never succeeds.
\<close>

section \<open>Without a log\<close>

lemma raised_Inr [simp]: "raised r = Inr v \<longleftrightarrow> r = Inr v"
  by (cases r) (simp_all add: raised_def)

lemma nested_Inr [simp]: "nested e r = Inr v \<longleftrightarrow> r = Inr v"
  by (cases r) (simp_all add: nested_def)

lemma xs_log_put_files [simp]: "xs_log (put_files f s) = xs_log s"
  by (simp add: put_files_def)

lemma xs_log_point [simp]: "xs_log s = None \<Longrightarrow> point x title s = s"
  by (simp add: point_def)

lemma storage_keeps_log: "storage_on_files act s = Inr s' \<Longrightarrow> xs_log s' = xs_log s"
  by (auto simp: storage_on_files_def)

lemma execute_needs_log: "execute_thunk x t s = Inr (gs, s') \<Longrightarrow> xs_log s \<noteq> None"
  by (auto simp: execute_thunk_def Let_def run_function_def on_log_def split: if_splits prod.splits)

lemma fetch_step_keeps_log:
  "fetch_step x opts storage t s = Inr s' \<Longrightarrow> xs_log s = None \<Longrightarrow> xs_log s' = None"
  by (auto simp: fetch_step_def fetch_dependencies_def get_files_def dest: storage_keeps_log
      split: option.splits if_splits)

lemma open_storage_keeps_log: "open_storage x s = Inr (sb, s') \<Longrightarrow> xs_log s' = xs_log s"
  by (auto simp: open_storage_def Let_def)

lemma run_one_needs_log: "run_one x opts h (storage, s) = Inr st \<Longrightarrow> xs_log s \<noteq> None"
proof
  assume run: "run_one x opts h (storage, s) = Inr st" and log: "xs_log s = None"
  have "\<exists>t storage' s1 s2 s3 gs s4.
      (if eo_get_dependencies opts \<or> eo_put_output opts
       then bind_res (raised (open_storage x s)) (\<lambda>(sb, s). Inr (Some sb, s)) else Inr (storage, s)) = Inr (storage', s1) \<and>
      (if eo_cleanup opts then bind_res (raised (do_cleanup x t (xs_files s1))) (\<lambda>f. Inr (put_files f s1))
       else Inr s1) = Inr s2 \<and>
      fetch_step x opts storage' t (point x ''do_cleanup'' s2) = Inr s3 \<and>
      execute_thunk x t (point x ''get_dependencies'' s3) = Inr (gs, s4)"
    using run unfolding run_one_def Let_def prod.case xs_log_point [OF log] bind_res_eq_Inr split_paired_Ex by blast
  then obtain t storage' s1 s2 s3 gs s4 where
    opened: "(if eo_get_dependencies opts \<or> eo_put_output opts
       then bind_res (raised (open_storage x s)) (\<lambda>(sb, s). Inr (Some sb, s)) else Inr (storage, s)) = Inr (storage', s1)"
    and clean: "(if eo_cleanup opts then bind_res (raised (do_cleanup x t (xs_files s1))) (\<lambda>f. Inr (put_files f s1))
       else Inr s1) = Inr s2"
    and fetch: "fetch_step x opts storage' t (point x ''do_cleanup'' s2) = Inr s3"
    and exec: "execute_thunk x t (point x ''get_dependencies'' s3) = Inr (gs, s4)"
    by blast
  have "xs_log s1 = None" using opened log open_storage_keeps_log by (auto split: if_splits)
  then have "xs_log s2 = None" using clean by (auto split: if_splits)
  then have "xs_log s3 = None" using fetch fetch_step_keeps_log by simp
  then show False using execute_needs_log [of x t s3 gs s4] exec by simp
qed

lemma take_option_keeps_log:
  "take_option x c (opts, s) = Inr (opts', s') \<Longrightarrow> c \<noteq> CHR ''T'' \<Longrightarrow> xs_log s' = xs_log s"
  by (auto simp: take_option_def split: if_splits)

text \<open>Unless it is asked for a log of times with \<open>-T\<close>, the program never succeeds, whatever thunks it is
  given and whatever else it is asked for: on the way to the thunk's function it uses the log that is
  not there. The local engine, which never asks for one, can run nothing.\<close>

lemma execution_needs_log:
  assumes "CHR ''T'' \<notin> set options"
  shows "\<not> (\<exists>s. gg_execute x options thunk_hashes f = Inr (Success, s))"
proof
  assume "\<exists>s. gg_execute x options thunk_hashes f = Inr (Success, s)"
  then obtain s where run: "run_all x options thunk_hashes f = Inr (Some s)"
    by (auto simp: gg_execute_def split: sum.splits option.splits failure.splits)
  let ?o = "\<lparr>eo_get_dependencies = False, eo_put_output = False, eo_cleanup = False\<rparr>"
  let ?s = "\<lparr>xs_files = f, xs_log = None, xs_ticks = 0, xs_stdout = []\<rparr>"
  from run obtain opts s0 where options: "fold_res (take_option x) options (?o, ?s) = Inr (opts, s0)"
    and hashes: "thunk_hashes \<noteq> []" and all: "\<exists>st. fold_res (run_one x opts) thunk_hashes (None, s0) = Inr st"
    by (auto simp: run_all_def split: if_splits)
  have "xs_log (snd (opts, s0)) = None"
    using options by (rule fold_res_invariant [where P = "\<lambda>st. xs_log (snd st) = None"])
      (use assms take_option_keeps_log in \<open>fastforce+\<close>)
  moreover obtain h hs where "thunk_hashes = h # hs" using hashes by (cases thunk_hashes) auto
  ultimately show False using all run_one_needs_log by fastforce
qed

section \<open>Files\<close>

lemma seen_plain: "fs_links f p = None \<Longrightarrow> seen f p = fs_disk f p"
  by (simp add: seen_def)

lemma fs_remove_effect:
  assumes "fs_remove p f = Inr f'"
  shows "fs_links f' = (fs_links f)(p := None)" and "q \<noteq> p \<Longrightarrow> fs_disk f' q = fs_disk f q"
    and "fs_links f p = None \<Longrightarrow> fs_disk f' p = None"
  using assms
  by (auto simp: fs_remove_def remove_def split: if_splits option.splits node.splits)

text \<open>A call on the disk changes what it changes there, at every path that is no link.\<close>

lemma on_disk_effect:
  assumes "on_disk act f = Inr (a, f')" and "fs_links f p = None"
  shows "\<exists>d'. act (seen f) = Inr (a, d') \<and> seen f' p = d' p \<and> fs_links f' p = None"
  using assms by (auto simp: on_disk_def seen_plain)

lemma fs_cache_insert_effect:
  assumes "fs_cache_insert w a b f = Inr f'" and "fs_links f (reduction (wd_gg_dir w) c) = None"
    and "cache_key_ok a" and "cache_key_ok c"
  shows "fs_links f' (reduction (wd_gg_dir w) c) = None"
    and "seen f' (reduction (wd_gg_dir w) c) =
      (if c = a then Some (Regular b (final_mode None)) else seen f (reduction (wd_gg_dir w) c))"
proof -
  obtain d' where insert: "cache_insert (wd_kernel w) (wd_gg_dir w) a b (seen f) = Inr d'"
    and plain: "seen f' (reduction (wd_gg_dir w) c) = d' (reduction (wd_gg_dir w) c)"
      "fs_links f' (reduction (wd_gg_dir w) c) = None"
    using assms(1) on_disk_effect [OF _ assms(2)] by (fastforce simp: fs_cache_insert_def)
  show "fs_links f' (reduction (wd_gg_dir w) c) = None" by (rule plain)
  show "seen f' (reduction (wd_gg_dir w) c) =
      (if c = a then Some (Regular b (final_mode None)) else seen f (reduction (wd_gg_dir w) c))"
    using cache_insert_disk [OF insert] plain assms(3,4) by (auto simp: reduction_inj)
qed

lemma fs_cache_inserts:
  assumes "fold_res (\<lambda>(a, b). fs_cache_insert w a b) entries f = Inr f'"
    and "fs_links f (reduction (wd_gg_dir w) c) = None"
    and "\<forall>(a, b) \<in> set entries. cache_key_ok a" and "cache_key_ok c"
    and "\<forall>(a, b) \<in> set entries. a = c \<longrightarrow> b = r"
    and "seen f (reduction (wd_gg_dir w) c) = Some (Regular r (final_mode None)) \<or> c \<in> fst ` set entries"
  shows "seen f' (reduction (wd_gg_dir w) c) = Some (Regular r (final_mode None))"
  using assms
proof (induction entries arbitrary: f)
  case (Cons e entries)
  obtain a b where e: "e = (a, b)" by (cases e)
  from Cons.prems(1) e obtain f1 where f1: "fs_cache_insert w a b f = Inr f1"
    and rest: "fold_res (\<lambda>(a, b). fs_cache_insert w a b) entries f1 = Inr f'" by auto
  have a: "cache_key_ok a" using Cons.prems(3) e by simp
  note effect = fs_cache_insert_effect [OF f1 Cons.prems(2) a Cons.prems(4)]
  have "seen f1 (reduction (wd_gg_dir w) c) = Some (Regular r (final_mode None)) \<or> c \<in> fst ` set entries"
    using effect(2) Cons.prems(5,6) e by auto
  then show ?case using Cons.IH [OF rest effect(1)] Cons.prems by simp
qed auto

lemma fold_res_concat:
  "fold_res g (concat (map ent xs)) s = fold_res (\<lambda>x. fold_res g (ent x)) xs s"
  by (induction xs arbitrary: s) (auto simp: fold_res_append intro: bind_res_cong)

definition output_entries :: "string \<Rightarrow> nat \<times> string \<times> string \<Rightarrow> (string \<times> string) list" where
  "output_entries h entry =
     (case entry of (i, output, g) \<Rightarrow> (for_output h output, g) # (if i = 0 then [(h, g)] else []))"

lemma note_outputs_inserts:
  assumes "thunk_hash (wd_sha256 w) (wd_encode w) t = Inr (h, t')"
  shows "note_outputs w t gs f = fold_res (\<lambda>(a, b). fs_cache_insert w a b)
    (concat (map (output_entries h) (rev (zip [0..<length (th_outputs t)] (zip (th_outputs t) gs))))) f"
proof -
  have "note_output w t = (\<lambda>x. fold_res (\<lambda>(a, b). fs_cache_insert w a b) (output_entries h x))"
    using assms
    by (auto simp: fun_eq_iff note_output_def output_entries_def output_hash_def bind_res_def split: sum.splits)
  then show ?thesis by (simp only: note_outputs_def fold_res_concat)
qed

text \<open>The entries that are written: every output under its own key, the first also under the thunk's.\<close>

lemma note_outputs_cached:
  assumes hash: "thunk_hash (wd_sha256 w) (wd_encode w) t = Inr (h, t')" and noted: "note_outputs w t gs f = Inr f'"
    and links: "\<And>c. fs_links f (reduction (wd_gg_dir w) c) = None"
    and len: "length gs = length (th_outputs t)" and dist: "distinct (th_outputs t)" and key: "cache_key_ok h"
    and full: "\<forall>g \<in> set gs. length g = hash_length" and i: "i < length gs"
  shows "cache_check (wd_gg_dir w) (for_output h (th_outputs t ! i)) (seen f') = Inr (Some (gs ! i))"
    and "i = 0 \<Longrightarrow> cache_check (wd_gg_dir w) h (seen f') = Inr (Some (gs ! i))"
proof -
  let ?E = "concat (map (output_entries h) (rev (zip [0..<length (th_outputs t)] (zip (th_outputs t) gs))))"
  have "set (zip [0..<length (th_outputs t)] (zip (th_outputs t) gs)) =
      (\<lambda>j. (j, th_outputs t ! j, gs ! j)) ` {..<length gs}"
    using len by (auto simp: set_zip) (metis add_0 nth_upt nth_zip)
  then have "set ?E = (\<Union>j < length gs. set (output_entries h (j, th_outputs t ! j, gs ! j)))" by simp
  then have E: "set ?E = (\<lambda>j. (for_output h (th_outputs t ! j), gs ! j)) ` {..<length gs} \<union>
      (\<lambda>j. (h, gs ! 0)) ` {..<length gs}"
    using i by (auto simp: output_entries_def split: if_splits)
  have inserts: "fold_res (\<lambda>(a, b). fs_cache_insert w a b) ?E f = Inr f'"
    using noted note_outputs_inserts [OF hash] by simp
  have keys: "\<forall>(a, b) \<in> set ?E. cache_key_ok a" unfolding E using key by auto
  have gi: "length (gs ! i) = hash_length" using full i by simp
  have "\<forall>(a, b) \<in> set ?E. a = for_output h (th_outputs t ! i) \<longrightarrow> b = gs ! i"
    unfolding E using dist i len by (auto simp: nth_eq_iff_index_eq)
  moreover have "for_output h (th_outputs t ! i) \<in> fst ` set ?E" unfolding E using i by force
  ultimately have "seen f' (reduction (wd_gg_dir w) (for_output h (th_outputs t ! i))) = Some (Regular (gs ! i) (final_mode None))"
    using fs_cache_inserts [OF inserts links keys] key by simp
  then show "cache_check (wd_gg_dir w) (for_output h (th_outputs t ! i)) (seen f') = Inr (Some (gs ! i))"
    using gi by (simp add: cache_check_def read_prefix_def)
  assume 0: "i = 0"
  have "\<forall>(a, b) \<in> set ?E. a = h \<longrightarrow> b = gs ! i" unfolding E using 0 by auto
  moreover have "h \<in> fst ` set ?E" unfolding E using i by force
  ultimately have "seen f' (reduction (wd_gg_dir w) h) = Some (Regular (gs ! i) (final_mode None))"
    using fs_cache_inserts [OF inserts links keys] key by simp
  then show "cache_check (wd_gg_dir w) h (seen f') = Inr (Some (gs ! i))"
    using gi by (simp add: cache_check_def read_prefix_def)
qed

section \<open>From the outputs to the store\<close>

lemma hash_file_grows: "hash_file sha256 k st gg_dir p ty d = Inr (h, d') \<Longrightarrow> d q \<noteq> None \<Longrightarrow> d' q \<noteq> None"
  by (auto simp: hash_file_def dest!: atomic_create_Inr split: option.splits)

lemma copy_effect:
  assumes "copy_then_rename k src dst m d = Inr d'"
  obtains c m' where "d' = d(dst \<mapsto> Regular c m')"
proof -
  from assms obtain n where "sys_stat src d = Inr n" by (auto simp: copy_then_rename_def)
  with assms show thesis
    by (cases n) (auto simp: copy_then_rename_def dest!: atomic_create_Inr intro: that)
qed

lemma copy_grows: "copy_then_rename k src dst m d = Inr d' \<Longrightarrow> d q \<noteq> None \<Longrightarrow> d' q \<noteq> None"
  by (erule copy_effect) simp

lemma copy_creates: "copy_then_rename k src dst m d = Inr d' \<Longrightarrow> d' dst \<noteq> None"
  by (erule copy_effect) simp

text \<open>What no step takes away: a path that is no link stays one that is no link, and what is there stays
  there unless it is in \<open>gone\<close>.\<close>

definition keeps :: "string set \<Rightarrow> fsys \<Rightarrow> fsys \<Rightarrow> bool" where
  "keeps gone f f' \<longleftrightarrow>
     (\<forall>p. fs_links f p = None \<longrightarrow> fs_links f' p = None \<and> (p \<notin> gone \<longrightarrow> fs_disk f p \<noteq> None \<longrightarrow> fs_disk f' p \<noteq> None))"

lemma keeps_refl: "keeps gone f f"
  by (simp add: keeps_def)

lemma keeps_trans: "keeps gone f f1 \<Longrightarrow> keeps gone f1 f2 \<Longrightarrow> keeps gone f f2"
  by (simp add: keeps_def)

lemma keeps_mono: "keeps gone f f1 \<Longrightarrow> gone \<subseteq> gone' \<Longrightarrow> keeps gone' f f1"
  by (auto simp: keeps_def)

lemma on_disk_keeps:
  assumes "on_disk act f = Inr (a, f')" and "\<And>d' q. act (seen f) = Inr (a, d') \<Longrightarrow> seen f q \<noteq> None \<Longrightarrow> d' q \<noteq> None"
  shows "keeps gone f f'"
proof -
  obtain d' where d': "act (seen f) = Inr (a, d')"
    and f': "f' = \<lparr>fs_disk = (\<lambda>p. if fs_links f p = None \<or> d' p \<noteq> seen f p then d' p else fs_disk f p),
        fs_links = (\<lambda>p. if fs_links f p = None \<or> d' p \<noteq> seen f p then None else fs_links f p)\<rparr>"
    using assms(1) by (auto simp: on_disk_def)
  show ?thesis
    unfolding keeps_def
  proof (intro allI impI conjI)
    fix p assume p: "fs_links f p = None"
    then show "fs_links f' p = None" by (simp add: f')
    assume "fs_disk f p \<noteq> None"
    with p have "d' p \<noteq> None" using assms(2) [OF d'] by (simp add: seen_plain)
    then show "fs_disk f' p \<noteq> None" using p by (simp add: f')
  qed
qed

lemma fs_remove_keeps: "fs_remove p f = Inr f' \<Longrightarrow> keeps {p} f f'"
  by (auto simp: keeps_def dest: fs_remove_effect)

lemma fs_move_effect:
  assumes "fs_move k cd src dst f = Inr f'" and "fs_links f src = None" and "src \<noteq> dst"
  shows "keeps {src} f f'" and "fs_links f dst = None \<Longrightarrow> fs_disk f' dst \<noteq> None"
proof -
  have "keeps {src} f f' \<and> (fs_links f dst = None \<longrightarrow> fs_disk f' dst \<noteq> None)"
  proof (cases cd)
    case False
    then obtain d where "exec_call (Rename src dst) (fs_disk f) = Inr d"
      and "f' = \<lparr>fs_disk = d, fs_links = (fs_links f)(dst := None)\<rparr>"
      using assms by (auto simp: fs_move_def fs_rename_def)
    then show ?thesis using assms(3) by (auto simp: keeps_def split: option.splits if_splits)
  next
    case True
    then obtain f1 where copied: "on_disk (\<lambda>d. bind_res (copy_then_rename k src dst None d) (\<lambda>d'. Inr ((), d'))) f = Inr ((), f1)"
      and removed: "fs_remove src f1 = Inr f'"
      using assms(1) by (auto simp: fs_move_def)
    have 1: "keeps {src} f f1" using copied copy_grows by (intro on_disk_keeps [OF copied]) fastforce
    have "fs_links f dst = None \<longrightarrow> fs_disk f1 dst \<noteq> None"
    proof
      assume dst: "fs_links f dst = None"
      then obtain d' where "copy_then_rename k src dst None (seen f) = Inr d'" "seen f1 dst = d' dst" "fs_links f1 dst = None"
        using on_disk_effect [OF copied dst] by auto
      then show "fs_disk f1 dst \<noteq> None" using copy_creates by (metis seen_plain)
    qed
    then show ?thesis
      using keeps_trans [OF 1 fs_remove_keeps [OF removed]] fs_remove_effect(2) [OF removed, of dst] assms(3) by auto
  qed
  then show "keeps {src} f f'" and "fs_links f dst = None \<Longrightarrow> fs_disk f' dst \<noteq> None" by blast+
qed

lemma grab_output_effect:
  assumes "grab_output x dir output (gs, f) = Inr (gs', f')" and "fs_links f (path_append dir output) = None"
    and "\<And>h. path_append dir output \<noteq> blob (wd_gg_dir (xe_world x)) h"
  obtains h where "gs' = gs @ [h]" "keeps {path_append dir output} f f'"
    "fs_links f (blob (wd_gg_dir (xe_world x)) h) = None \<Longrightarrow> fs_disk f' (blob (wd_gg_dir (xe_world x)) h) \<noteq> None"
proof -
  let ?w = "xe_world x" and ?out = "path_append dir output"
  obtain h f1 where hash: "on_disk (hash_file (wd_sha256 ?w) (wd_kernel ?w) (xe_stat x f) (wd_gg_dir ?w) ?out None) f = Inr (h, f1)"
    and moved: "(if \<not> path_exists (blob (wd_gg_dir ?w) h) (seen f1)
       then fs_move (wd_kernel ?w) (xe_cross_device x) ?out (blob (wd_gg_dir ?w) h) f1 else fs_remove ?out f1) = Inr f'"
    and gs': "gs' = gs @ [h]"
    using assms(1) by (auto simp: grab_output_def Let_def split: if_split_asm)
  have 1: "keeps {?out} f f1" using hash_file_grows by (intro on_disk_keeps [OF hash]) blast
  then have out: "fs_links f1 ?out = None" using assms(2) by (simp add: keeps_def)
  have blob: "fs_links f (blob (wd_gg_dir ?w) h) = None \<Longrightarrow> fs_links f1 (blob (wd_gg_dir ?w) h) = None"
    using 1 by (simp add: keeps_def)
  show thesis
  proof (cases "path_exists (blob (wd_gg_dir ?w) h) (seen f1)")
    case False
    then have mv: "fs_move (wd_kernel ?w) (xe_cross_device x) ?out (blob (wd_gg_dir ?w) h) f1 = Inr f'" using moved by simp
    from fs_move_effect [OF mv out assms(3)] show thesis
      using keeps_trans [OF 1] blob gs' by (intro that [of h]) auto
  next
    case True
    then have rm: "fs_remove ?out f1 = Inr f'" using moved by simp
    have "fs_links f (blob (wd_gg_dir ?w) h) = None \<Longrightarrow> fs_disk f' (blob (wd_gg_dir ?w) h) \<noteq> None"
      using True blob fs_remove_effect(2) [OF rm] assms(3) [of h] by (auto simp: path_exists_def seen_plain)
    then show thesis using keeps_trans [OF 1 fs_remove_keeps [OF rm]] gs' by (intro that [of h]) auto
  qed
qed

text \<open>All outputs. \<open>apart\<close> says that the store is not below the directory of the run.\<close>

definition apart :: "world \<Rightarrow> bool" where
  "apart w \<longleftrightarrow>
     (\<forall>suf n h. path_append (temp_name temp_dir_template suf) n \<noteq> blob (wd_gg_dir w) h \<and>
        temp_name temp_dir_template suf \<noteq> blob (wd_gg_dir w) h \<and>
        temp_name temp_dir_template suf \<noteq> reduction (wd_gg_dir w) h)"

lemma grab_outputs:
  assumes "fold_res (grab_output x dir) outputs (gs, f) = Inr (gs', f')"
    and "\<forall>output \<in> set outputs. fs_links f (path_append dir output) = None"
    and "\<And>n h. path_append dir n \<noteq> blob (wd_gg_dir (xe_world x)) h"
    and "\<And>h. fs_links f (blob (wd_gg_dir (xe_world x)) h) = None"
    and "\<forall>g \<in> set gs. fs_disk f (blob (wd_gg_dir (xe_world x)) g) \<noteq> None"
  shows "length gs' = length gs + length outputs \<and> keeps (path_append dir ` set outputs) f f' \<and>
    (\<forall>g \<in> set gs'. fs_disk f' (blob (wd_gg_dir (xe_world x)) g) \<noteq> None)"
  using assms
proof (induction outputs arbitrary: gs f)
  case (Cons first outputs)
  let ?blob = "blob (wd_gg_dir (xe_world x))"
  from Cons.prems(1) obtain gs1 f1 where grab: "grab_output x dir first (gs, f) = Inr (gs1, f1)"
    and rest: "fold_res (grab_output x dir) outputs (gs1, f1) = Inr (gs', f')" by auto
  from grab obtain h where gs1: "gs1 = gs @ [h]" and k: "keeps {path_append dir first} f f1"
    and new: "fs_links f (?blob h) = None \<Longrightarrow> fs_disk f1 (?blob h) \<noteq> None"
    using Cons.prems(2,3) by (auto elim!: grab_output_effect)
  have links: "fs_links f p = None \<Longrightarrow> fs_links f1 p = None" for p using k by (simp add: keeps_def)
  have old: "fs_disk f1 (?blob g) \<noteq> None" if "g \<in> set gs" for g
  proof -
    have "?blob g \<notin> {path_append dir first}" using Cons.prems(3) by (metis singletonD)
    then show ?thesis using k that Cons.prems(4,5) by (simp add: keeps_def)
  qed
  have "\<forall>g \<in> set gs1. fs_disk f1 (?blob g) \<noteq> None" using old new Cons.prems(4) by (simp add: gs1)
  moreover have "\<forall>o2 \<in> set outputs. fs_links f1 (path_append dir o2) = None" using Cons.prems(2) links by simp
  moreover have "\<And>h. fs_links f1 (?blob h) = None" using Cons.prems(4) links by simp
  ultimately have IH: "length gs' = length gs1 + length outputs \<and> keeps (path_append dir ` set outputs) f1 f' \<and>
      (\<forall>g \<in> set gs'. fs_disk f' (?blob g) \<noteq> None)"
    using Cons.IH [OF rest _ Cons.prems(3)] by blast
  have "keeps (path_append dir ` set (first # outputs)) f f1" by (rule keeps_mono [OF k]) simp
  moreover have "keeps (path_append dir ` set (first # outputs)) f1 f'"
    by (rule keeps_mono [OF conjunct1 [OF conjunct2 [OF IH]]]) auto
  ultimately have "keeps (path_append dir ` set (first # outputs)) f f'" by (rule keeps_trans)
  then show ?case using IH by (simp add: gs1)
qed (simp add: keeps_refl)

lemma fold_keeps:
  assumes "fold_res g xs f = Inr f'" and "\<And>x s s'. x \<in> set xs \<Longrightarrow> g x s = Inr s' \<Longrightarrow> keeps gone s s'"
  shows "keeps gone f f'"
  by (rule fold_res_invariant [OF assms(1), where P = "keeps gone f"]) (use keeps_refl keeps_trans assms(2) in blast)+

lemma remove_links_keeps:
  "remove_links dir t f = Inr f' \<Longrightarrow> keeps (path_append dir ` fst ` set (th_links t)) f f'"
  unfolding remove_links_def
  by (erule fold_keeps) (auto dest!: fs_remove_keeps elim!: keeps_mono intro!: image_eqI)

lemma fs_cache_insert_keeps: "fs_cache_insert w a b f = Inr f' \<Longrightarrow> keeps {} f f'"
proof -
  assume "fs_cache_insert w a b f = Inr f'"
  then obtain u where i: "on_disk (\<lambda>d. bind_res (cache_insert (wd_kernel w) (wd_gg_dir w) a b d) (\<lambda>d'. Inr ((), d'))) f = Inr (u, f')"
    by (auto simp: fs_cache_insert_def)
  show ?thesis by (rule on_disk_keeps [OF i]) (auto dest!: cache_insert_disk split: if_splits)
qed

lemma note_output_keeps: "note_output w t entry f = Inr f' \<Longrightarrow> keeps {} f f'"
  by (auto simp: note_output_def dest!: fs_cache_insert_keeps split: if_splits prod.splits intro: keeps_trans)

lemma note_outputs_keeps: "note_outputs w t gs f = Inr f' \<Longrightarrow> keeps {} f f'"
  unfolding note_outputs_def by (erule fold_keeps) (rule note_output_keeps)

text \<open>No output is a link in the directory of the run, and the store has no links.\<close>

definition plain_files :: "world \<Rightarrow> thunk \<Rightarrow> string \<Rightarrow> fsys \<Rightarrow> bool" where
  "plain_files w t dir f \<longleftrightarrow>
     (\<forall>output \<in> set (th_outputs t). fs_links f (path_append dir output) = None) \<and>
     (\<forall>h. fs_links f (blob (wd_gg_dir w) h) = None \<and> fs_links f (reduction (wd_gg_dir w) h) = None)"

text \<open>C23: what a successful run leaves is what the scheduler will find: there is one result for every output,
  it is in the store, the cache has it under the key of the thunk and the output's name, and the first
  one under the key of the thunk itself. The files are those the thunk's program left in this run,
  \<open>f3\<close>: none of its outputs may be a link there (an output that is a link is moved to the store as a
  link) and the store may have no links. The store lies outside the directory of the run, the outputs
  have different names, and the hashes of the results have the full length.\<close>

theorem executed_thunk_is_cached:
  assumes "execute_thunk x t s = Inr (gs, s')" and "thunk_hash (wd_sha256 (xe_world x)) (wd_encode (xe_world x)) t = Inr (h, t')"
    and "prepare_run x t (xs_files s) = Inr (dir, f2)" and "run_function x dir t (f2, s) = Inr (f3, s1)"
    and "plain_files (xe_world x) t dir f3"
    and "apart (xe_world x)" and "cache_key_ok h" and "distinct (th_outputs t)"
    and "\<forall>g \<in> set gs. length g = hash_length"
  shows "length gs = length (th_outputs t) \<and>
    (\<forall>g \<in> set gs. path_exists (blob (wd_gg_dir (xe_world x)) g) (seen (xs_files s'))) \<and>
    (\<forall>i < length gs. cache_check (wd_gg_dir (xe_world x)) (for_output h (th_outputs t ! i)) (seen (xs_files s')) =
       Inr (Some (gs ! i))) \<and>
    (gs \<noteq> [] \<longrightarrow> cache_check (wd_gg_dir (xe_world x)) h (seen (xs_files s')) = Inr (Some (gs ! 0)))"
proof -
  let ?w = "xe_world x"
  let ?blob = "blob (wd_gg_dir ?w)" and ?red = "reduction (wd_gg_dir ?w)"
  obtain f4 f5 f6 where grab: "fold_res (grab_output x dir) (th_outputs t) ([], f3) = Inr (gs, f4)"
    and unlink: "remove_links dir t f4 = Inr f5" and noted: "note_outputs ?w t gs f5 = Inr f6"
    and s': "s' = put_files (drop_temp_dir x dir f6) s1"
    using assms(1) by (auto simp: execute_thunk_def Let_def assms(3,4))
  obtain suf where dir: "dir = temp_name temp_dir_template suf"
    using assms(3) by (auto simp: prepare_run_def make_temp_dir_def Let_def split: if_splits)
  have away: "path_append dir n \<noteq> ?blob h'" "dir \<noteq> ?blob h'" "dir \<noteq> ?red h'" for n h'
    using assms(6) by (auto simp: apart_def dir)
  note plain = assms(5)
  have g: "length gs = length ([] :: string list) + length (th_outputs t) \<and> keeps (path_append dir ` set (th_outputs t)) f3 f4 \<and>
      (\<forall>g \<in> set gs. fs_disk f4 (?blob g) \<noteq> None)"
    by (rule grab_outputs [OF grab]) (use plain away in \<open>auto simp: plain_files_def\<close>)
  have k5: "keeps (path_append dir ` fst ` set (th_links t)) f4 f5" by (rule remove_links_keeps [OF unlink])
  have k6: "keeps {} f5 f6" by (rule note_outputs_keeps [OF noted])
  have links4: "fs_links f4 (?blob h') = None" "fs_links f4 (?red h') = None" for h'
    using g plain by (auto simp: plain_files_def keeps_def)
  then have links5: "fs_links f5 (?blob h') = None" "fs_links f5 (?red h') = None" for h'
    using k5 by (auto simp: keeps_def)
  then have links6: "fs_links f6 (?blob h') = None" "fs_links f6 (?red h') = None" for h'
    using k6 by (auto simp: keeps_def)
  have final: "fs_links (xs_files s') p = fs_links f6 p" "p \<noteq> dir \<Longrightarrow> fs_disk (xs_files s') p = fs_disk f6 p" for p
    by (simp_all add: s' put_files_def drop_temp_dir_def)
  have "fs_disk f5 (?blob r) \<noteq> None" if "r \<in> set gs" for r
  proof -
    have "?blob r \<notin> path_append dir ` fst ` set (th_links t)" using away(1) by (metis imageE)
    then show ?thesis using g k5 links4(1) that by (simp add: keeps_def)
  qed
  then have "fs_disk f6 (?blob r) \<noteq> None" if "r \<in> set gs" for r
    using k6 links5(1) that by (simp add: keeps_def)
  then have stored: "path_exists (?blob r) (seen (xs_files s'))" if "r \<in> set gs" for r
    using that final links6(1) away(2) [of r] by (simp add: path_exists_def seen_plain)
  have same: "seen (xs_files s') (?red c) = seen f6 (?red c)" for c
    using final links6(2) away(3) [of c] by (simp add: seen_plain)
  have len: "length gs = length (th_outputs t)" using g by simp
  note cached = note_outputs_cached [OF assms(2) noted links5(2) len assms(8,7,9)]
  have "cache_check (wd_gg_dir ?w) (for_output h (th_outputs t ! i)) (seen (xs_files s')) = Inr (Some (gs ! i))"
    if "i < length gs" for i
    using cached(1) [OF that] by (simp add: cache_check_def same)
  moreover have "cache_check (wd_gg_dir ?w) h (seen (xs_files s')) = Inr (Some (gs ! 0))" if "gs \<noteq> []"
    using cached(2) [of 0] that by (simp add: cache_check_def same)
  ultimately show ?thesis using len stored by blast
qed

definition toy_execution :: execution_env where
  "toy_execution = \<lparr>xe_world = toy_world, xe_clients = \<lparr>rm_network = (\<lambda>_ _. []), rm_put = (\<lambda>_ _ _. Inr),
     rm_get = (\<lambda>_ _ _. Inr)\<rparr>, xe_hex = (\<lambda>s. s), xe_temp = (\<lambda>_ _. ''x''), xe_cross_device = False,
     xe_sandboxed = False,
     xe_run = (\<lambda>_ dir f. (0, \<lparr>fs_disk = (fs_disk f)(path_append dir ''o'' \<mapsto> Regular ''r'' 420), fs_links = Map.empty\<rparr>)),
     xe_sandbox = (\<lambda>_ _ _ _. None), xe_stat = (\<lambda>_ _. toy_stat), xe_readdir = (\<lambda>_ _. []),
     xe_is_empty = (\<lambda>_ _. True), xe_clock = int\<rparr>"

definition toy_exec_state :: run_state where
  "toy_exec_state = \<lparr>xs_files = \<lparr>fs_disk = toy_disk, fs_links = Map.empty\<rparr>, xs_log = Some (new_time_log 0),
     xs_ticks = 1, xs_stdout = []\<rparr>"

lemma toy_executes:
  "\<exists>s'. execute_thunk toy_execution (set_hash ''TA'' (leaf [])) toy_exec_state =
     Inr ([hash_compute toy_sha ''r'' Value], s')"
proof -
  have "(case execute_thunk toy_execution (set_hash ''TA'' (leaf [])) toy_exec_state of
      Inl _ \<Rightarrow> [] | Inr (gs, _) \<Rightarrow> gs) = [hash_compute toy_sha ''r'' Value]"
    by code_simp
  then show ?thesis by (auto split: sum.splits)
qed

lemma execution_needs_log_witness:
  "\<not> (\<exists>s. gg_execute toy_execution ''g'' [''TA''] (xs_files toy_exec_state) = Inr (Success, s))"
  by (rule execution_needs_log) simp

theorem executed_thunk_is_cached_witness:
  "\<exists>gs s'. execute_thunk toy_execution (set_hash ''TA'' (leaf [])) toy_exec_state = Inr (gs, s') \<and> length gs = 1 \<and>
     cache_check ''/g'' ''TA'' (seen (xs_files s')) = Inr (Some (gs ! 0))"
proof -
  let ?t = "set_hash ''TA'' (leaf [])"
  obtain s' where run: "execute_thunk toy_execution ?t toy_exec_state = Inr ([hash_compute toy_sha ''r'' Value], s')"
    using toy_executes by blast
  have world: "xe_world toy_execution = toy_world" by (simp add: toy_execution_def)
  have gg_dir: "wd_gg_dir toy_world = ''/g''" by (simp add: toy_world_def)
  have hash: "thunk_hash (wd_sha256 (xe_world toy_execution)) (wd_encode (xe_world toy_execution)) ?t = Inr (''TA'', ?t)"
    by (simp add: thunk_hash_def set_hash_def)
  have apart: "apart (xe_world toy_execution)"
    by (auto simp: apart_def world gg_dir temp_name_def temp_dir_template_def blob_def blobs_def reduction_def
        reductions_def path_append_def)
  obtain dir f2 f3 s1 where ready: "prepare_run toy_execution ?t (xs_files toy_exec_state) = Inr (dir, f2)"
    and ran: "run_function toy_execution dir ?t (f2, toy_exec_state) = Inr (f3, s1)"
    using run by (auto simp: execute_thunk_def Let_def)
  then have "fs_links f3 = Map.empty"
    by (auto simp: run_function_def Let_def run_child_def toy_execution_def split: if_split_asm sum.split_asm)
  then have plain: "plain_files (xe_world toy_execution) ?t dir f3" by (simp add: plain_files_def)
  have full: "\<forall>g \<in> set [hash_compute toy_sha ''r'' Value]. length g = hash_length"
    using toy_sha_ok by (simp add: length_hash_compute)
  have "cache_key_ok ''TA''" "distinct (th_outputs ?t)" by (simp_all add: cache_key_ok_def set_hash_def leaf_def)
  with executed_thunk_is_cached [OF run hash ready ran plain apart _ _ full] run show ?thesis
    by (simp add: world gg_dir)
qed

section \<open>Cleaning up\<close>

lemma clean_blob_effect:
  assumes "clean_blob w kept name f = Inr f'"
  shows "p \<noteq> blob (wd_gg_dir w) name \<or> name \<in> set kept \<Longrightarrow> fs_disk f' p = fs_disk f p \<and> fs_links f' p = fs_links f p"
    and "fs_links f p = None \<Longrightarrow> fs_links f' p = None \<and> (fs_disk f' p = None \<or> fs_disk f' p = fs_disk f p)"
    and "fs_links f (blob (wd_gg_dir w) name) = None \<Longrightarrow> name \<notin> set kept \<Longrightarrow>
      fs_disk f' (blob (wd_gg_dir w) name) = None \<or>
      fs_disk f (blob (wd_gg_dir w) name) = Some Directory"
    and "fs_links f p = None \<Longrightarrow> fs_disk f p = Some Directory \<Longrightarrow> fs_disk f' p = Some Directory"
proof -
  let ?b = "blob (wd_gg_dir w) name"
  obtain dir where dir: "is_directory ?b (seen f) = Inr dir"
    and act: "(if \<not> dir \<and> name \<notin> set kept then fs_remove ?b f else Inr f) = Inr f'"
    using assms by (auto simp: clean_blob_def Let_def)
  show "p \<noteq> ?b \<or> name \<in> set kept \<Longrightarrow> fs_disk f' p = fs_disk f p \<and> fs_links f' p = fs_links f p"
    using act fs_remove_effect(1,2) [of ?b f f'] by (auto split: if_splits)
  show "fs_links f p = None \<Longrightarrow> fs_links f' p = None \<and> (fs_disk f' p = None \<or> fs_disk f' p = fs_disk f p)"
    using act fs_remove_effect [of ?b f f'] by (cases "p = ?b") (auto split: if_splits)
  show "fs_links f p = None \<Longrightarrow> fs_disk f p = Some Directory \<Longrightarrow> fs_disk f' p = Some Directory"
    using act dir fs_remove_effect(2) [of ?b f f' p]
    by (cases "p = ?b") (auto simp: is_directory_def sys_stat_def seen_plain split: if_splits)
  assume link: "fs_links f ?b = None" and gone: "name \<notin> set kept"
  show "fs_disk f' ?b = None \<or> fs_disk f ?b = Some Directory"
  proof (cases dir)
    case True
    then have "seen f ?b = Some Directory"
      using dir by (auto simp: is_directory_def sys_stat_def split: option.splits)
    with True act link show ?thesis by (auto simp: seen_plain)
  next
    case False
    then show ?thesis using act gone fs_remove_effect(3) [of ?b f f'] link by simp
  qed
qed

lemma clean_blobs_untouched:
  "fold_res (clean_blob w kept) names f = Inr f' \<Longrightarrow>
     (\<And>name. name \<in> set names \<Longrightarrow> p = blob (wd_gg_dir w) name \<Longrightarrow> name \<in> set kept) \<Longrightarrow> fs_disk f' p = fs_disk f p"
proof (induction names arbitrary: f)
  case (Cons n names)
  then obtain f1 where f1: "clean_blob w kept n f = Inr f1" "fold_res (clean_blob w kept) names f1 = Inr f'" by auto
  have "fs_disk f' p = fs_disk f1 p" using Cons.IH [OF f1(2)] Cons.prems(2) by simp
  then show ?case using clean_blob_effect(1) [OF f1(1), of p] Cons.prems(2) by auto
qed simp

lemma clean_blobs_shrink:
  "fold_res (clean_blob w kept) names f = Inr f' \<Longrightarrow> fs_links f p = None \<Longrightarrow>
     fs_disk f' p = None \<or> fs_disk f' p = fs_disk f p"
proof (induction names arbitrary: f)
  case (Cons n names)
  then obtain f1 where f1: "clean_blob w kept n f = Inr f1" "fold_res (clean_blob w kept) names f1 = Inr f'" by auto
  show ?case using clean_blob_effect(2) [OF f1(1) Cons.prems(2)] Cons.IH [OF f1(2)] by auto
qed simp

lemma clean_blobs_directory:
  "fold_res (clean_blob w kept) names f = Inr f' \<Longrightarrow> fs_links f p = None \<Longrightarrow> fs_disk f p = Some Directory \<Longrightarrow>
     fs_disk f' p = Some Directory"
proof (induction names arbitrary: f)
  case (Cons n names)
  then obtain f1 where f1: "clean_blob w kept n f = Inr f1" "fold_res (clean_blob w kept) names f1 = Inr f'" by auto
  show ?case
    using Cons.IH [OF f1(2)] clean_blob_effect(2,4) [OF f1(1) Cons.prems(2)] Cons.prems(3) by simp
qed simp

lemma clean_blobs_gone:
  "fold_res (clean_blob w kept) names f = Inr f' \<Longrightarrow> name \<in> set names \<Longrightarrow>
     fs_links f (blob (wd_gg_dir w) name) = None \<Longrightarrow> name \<notin> set kept \<Longrightarrow>
     fs_disk f' (blob (wd_gg_dir w) name) = None \<or> fs_disk f (blob (wd_gg_dir w) name) = Some Directory"
proof (induction names arbitrary: f)
  case (Cons n names)
  then obtain f1 where f1: "clean_blob w kept n f = Inr f1" "fold_res (clean_blob w kept) names f1 = Inr f'" by auto
  have link: "fs_links f1 (blob (wd_gg_dir w) name) = None"
    using clean_blob_effect(2) [OF f1(1) Cons.prems(3)] by blast
  show ?case
  proof (cases "name = n")
    case True
    then show ?thesis
      using clean_blob_effect(3) [OF f1(1)] Cons.prems(3,4) clean_blobs_shrink [OF f1(2) link] by auto
  next
    case False
    then show ?thesis
      using Cons.IH [OF f1(2) _ link Cons.prems(4)] Cons.prems(2,3) clean_blob_effect(2) [OF f1(1) Cons.prems(3)] by auto
  qed
qed simp

text \<open>C35: a cleanup of a store without links removes every listed entry that is not a directory and
  that the thunk does not need, and nothing else: the thunk, its values and its executables are as they
  were, and so is every path that is not listed and every listed directory.\<close>

theorem cleanup_keeps_inputs:
  assumes "do_cleanup x t f = Inr f'" and "thunk_hash (wd_sha256 (xe_world x)) (wd_encode (xe_world x)) t = Inr (h, t')"
    and "\<forall>name \<in> set (xe_readdir x (blobs (wd_gg_dir (xe_world x))) f). cache_key_ok name \<and>
       fs_links f (blob (wd_gg_dir (xe_world x)) name) = None"
    and "g \<in> {h} \<union> fst ` set (th_values t) \<union> fst ` set (th_executables t)" and "cache_key_ok g"
  shows "fs_disk f' (blob (wd_gg_dir (xe_world x)) g) = fs_disk f (blob (wd_gg_dir (xe_world x)) g) \<and>
    (\<forall>p. p \<notin> blob (wd_gg_dir (xe_world x)) ` set (xe_readdir x (blobs (wd_gg_dir (xe_world x))) f) \<longrightarrow>
       fs_disk f' p = fs_disk f p) \<and>
    (\<forall>name \<in> set (xe_readdir x (blobs (wd_gg_dir (xe_world x))) f).
       name \<notin> {h} \<union> fst ` set (th_values t) \<union> fst ` set (th_executables t) \<longrightarrow>
       fs_disk f' (blob (wd_gg_dir (xe_world x)) name) =
         (if fs_disk f (blob (wd_gg_dir (xe_world x)) name) = Some Directory then Some Directory else None))"
proof -
  let ?w = "xe_world x"
  let ?names = "xe_readdir x (blobs (wd_gg_dir ?w)) f"
  obtain kept where kept: "kept_hashes ?w t = Inr kept" and clean: "fold_res (clean_blob ?w kept) ?names f = Inr f'"
    using assms(1) by (auto simp: do_cleanup_def Let_def)
  have set_kept: "set kept = {h} \<union> fst ` set (th_values t) \<union> fst ` set (th_executables t)"
    using kept assms(2) by (simp add: kept_hashes_def) (metis Un_assoc Un_commute list.simps(15) set_append set_map
        set_uset_insert_all sup_bot.right_neutral insert_is_Un list.set(1))
  have "name \<in> set kept" if "name \<in> set ?names" "blob (wd_gg_dir ?w) g = blob (wd_gg_dir ?w) name" for name
    using assms(3-5) set_kept that by (simp add: blob_inj)
  then have keep: "fs_disk f' (blob (wd_gg_dir ?w) g) = fs_disk f (blob (wd_gg_dir ?w) g)"
    by (rule clean_blobs_untouched [OF clean])
  have others: "fs_disk f' p = fs_disk f p" if "p \<notin> blob (wd_gg_dir ?w) ` set ?names" for p
    using that by (intro clean_blobs_untouched [OF clean]) blast
  have "fs_disk f' (blob (wd_gg_dir ?w) name) =
      (if fs_disk f (blob (wd_gg_dir ?w) name) = Some Directory then Some Directory else None)"
    if "name \<in> set ?names" "name \<notin> set kept" for name
    using clean_blobs_gone [OF clean that(1) _ that(2)] clean_blobs_directory [OF clean] assms(3) that(1) by auto
  with keep others show ?thesis unfolding set_kept by blast
qed

theorem cleanup_keeps_inputs_witness:
  "\<exists>f'. do_cleanup (toy_execution\<lparr>xe_readdir := (\<lambda>_ _. [''TA'', ''TB''])\<rparr>) (set_hash ''TA'' (leaf []))
       \<lparr>fs_disk = toy_disk, fs_links = Map.empty\<rparr> = Inr f' \<and>
     fs_disk f' (blob ''/g'' ''TA'') = toy_disk (blob ''/g'' ''TA'')"
proof -
  let ?x = "toy_execution\<lparr>xe_readdir := (\<lambda>_ _. [''TA'', ''TB''])\<rparr>" and ?t = "set_hash ''TA'' (leaf [])"
  let ?f = "\<lparr>fs_disk = toy_disk, fs_links = Map.empty\<rparr>"
  have "\<not> isl (do_cleanup ?x ?t ?f)" by code_simp
  then obtain f' where f': "do_cleanup ?x ?t ?f = Inr f'" by (metis isl_def obj_sumE)
  have world: "xe_world ?x = toy_world" by (simp add: toy_execution_def)
  have dir: "wd_gg_dir toy_world = ''/g''" by (simp add: toy_world_def)
  have hash: "thunk_hash (wd_sha256 (xe_world ?x)) (wd_encode (xe_world ?x)) ?t = Inr (''TA'', ?t)"
    by (simp add: thunk_hash_def set_hash_def)
  have names: "xe_readdir ?x p f = [''TA'', ''TB'']" for p f by (simp add: toy_execution_def)
  have "fs_disk f' (blob (wd_gg_dir (xe_world ?x)) ''TA'') = fs_disk ?f (blob (wd_gg_dir (xe_world ?x)) ''TA'')"
    by (rule conjunct1 [OF cleanup_keeps_inputs [OF f' hash]]) (simp_all add: names cache_key_ok_def)
  then show ?thesis using f' by (simp add: world dir)
qed

end
