(* ===== verification/Tracer.thy ===== *)
theory Tracer
  imports Conversions "HOL-Library.AList"
begin

text \<open>
  The tracer of system calls (\<open>src/trace/invocation.cc\<close>, \<open>tracer.cc\<close>, \<open>syscall.hh\<close>, the waiting part of
  \<open>src/util/child_process.cc\<close>). The kernel is the list of the stops that \<open>waitid\<close> reports, each with
  what \<open>ptrace\<close> reads from the stopped process; the requests to \<open>ptrace\<close> are recorded. The table of
  signatures is generated and an argument. What an exception leaves behind matters here, because
  destructors detach the traced processes: a call returns a result and the state it left in either
  case.
\<close>

unbundle bit_operations_syntax

section \<open>Calls that leave a state behind when they throw\<close>

type_synonym ('s, 'a) traced = "'s \<Rightarrow> 'a res \<times> 's"

definition give :: "'a \<Rightarrow> ('s, 'a) traced" where
  "give x s = (Inr x, s)"

definition raise_error :: "error \<Rightarrow> ('s, 'a) traced" where
  "raise_error e s = (Inl e, s)"

definition and_then :: "('s, 'a) traced \<Rightarrow> ('a \<Rightarrow> ('s, 'b) traced) \<Rightarrow> ('s, 'b) traced" where
  "and_then m f s = (case m s of (Inl e, s') \<Rightarrow> (Inl e, s') | (Inr x, s') \<Rightarrow> f x s')"

definition modify :: "('s \<Rightarrow> 's) \<Rightarrow> ('s, unit) traced" where
  "modify f s = (Inr (), f s)"

definition pure_res :: "('s \<Rightarrow> 'a res) \<Rightarrow> ('s, 'a) traced" where
  "pure_res f s = (f s, s)"

definition require :: "('s \<Rightarrow> bool) \<Rightarrow> error \<Rightarrow> ('s, unit) traced" where
  "require P e s = (if P s then (Inr (), s) else (Inl e, s))"

named_theorems traced_simps \<open>evaluation of the tracer's calls\<close>

lemmas traced_base_simps [traced_simps] =
  give_def raise_error_def and_then_def modify_def pure_res_def require_def

section \<open>System calls and their arguments\<close>

datatype argument_direction = Dir_in | Dir_out | Dir_inout

record argument_info =
  ai_type :: string
  ai_dir :: argument_direction
  ai_flags :: "32 word"

definition is_readable_string :: "argument_info \<Rightarrow> bool" where
  "is_readable_string a \<longleftrightarrow> ai_dir a \<noteq> Dir_out \<and> (ai_type a = ''char *'' \<or> ai_type a = ''const char *'')"

record syscall_signature =
  ss_number :: int
  ss_name :: string
  ss_args :: "argument_info list"
  ss_flags :: "32 word"
  ss_complete :: bool

definition TRACE_FILE :: "32 word" where "TRACE_FILE = 1"
definition ARGUMENT_F_PATHNAME :: "32 word" where "ARGUMENT_F_PATHNAME = 1"

text \<open>What \<open>ptrace\<close> reads from a stopped process: the registers of the arguments, the number of the
  call, its result, the word at an address, the message of an event.\<close>

record tracee =
  tr_args :: "64 word list"
  tr_orig_rax :: "64 word"
  tr_rax :: "64 word"
  tr_peek :: "64 word \<Rightarrow> 64 word option"
  tr_message :: int

type_synonym signature_table = "nat \<Rightarrow> syscall_signature option"

record argument =
  ar_info :: argument_info
  ar_raw :: "64 word"
  ar_string :: "string option"
  ar_long :: "64 word option"

record syscall_invocation =
  si_call :: "64 word"
  si_signature :: "syscall_signature option"
  si_arguments :: "argument list option"
  si_return :: "64 word option"

definition argument_string :: "argument \<Rightarrow> string res" where
  "argument_string a = (case ar_string a of None \<Rightarrow> Inl Assertion_failed | Some s \<Rightarrow> Inr s)"

definition argument_int :: "argument \<Rightarrow> 32 word res" where
  "argument_int a = (case ar_long a of None \<Rightarrow> Inl Assertion_failed | Some w \<Rightarrow> Inr (ucast w))"

text \<open>\<open>arguments()->at( n )\<close>.\<close>

definition argument_at :: "syscall_invocation \<Rightarrow> nat \<Rightarrow> argument res" where
  "argument_at c n =
     (case si_arguments c of
        None \<Rightarrow> Inl Assertion_failed
      | Some args \<Rightarrow> if n < length args then Inr (args ! n) else Inl (Out_of_range ''vector::_M_range_check''))"

text \<open>The table is an array without a bound check.\<close>

definition syscall_signature_of :: "signature_table \<Rightarrow> 64 word \<Rightarrow> syscall_signature res" where
  "syscall_signature_of table call =
     (case table (unat call) of None \<Rightarrow> Inl Undefined_behaviour | Some sig \<Rightarrow> Inr sig)"

definition new_invocation :: "signature_table \<Rightarrow> 64 word \<Rightarrow> syscall_invocation res" where
  "new_invocation table call =
     bind_res (syscall_signature_of table call) (\<lambda>sig.
       Inr \<lparr>si_call = call, si_signature = (if ss_complete sig then Some sig else None),
            si_arguments = None, si_return = None\<rparr>)"

text \<open>The four bytes of an \<open>int\<close> in memory, lowest first.\<close>

definition int_bytes :: "64 word \<Rightarrow> char list" where
  "int_bytes w = map (\<lambda>i. char_of (unat (drop_bit (8 * i) w AND 255))) [0 ..< 4]"

text \<open>A string in the memory of the process, four bytes at a time. The fuel bounds the words that are read.\<close>

fun read_string :: "nat \<Rightarrow> (64 word \<Rightarrow> 64 word option) \<Rightarrow> 64 word \<Rightarrow> string res" where
  "read_string 0 peek address = Inl Out_of_fuel"
| "read_string (Suc n) peek address =
     (case peek address of
        None \<Rightarrow> Inl (Unix_error ''ptrace(PEEKTEXT)'')
      | Some w \<Rightarrow>
          let part = takeWhile (\<lambda>c. c \<noteq> CHR 0x00) (int_bytes w)
          in if length part = 4 then bind_res (read_string n peek (address + 4)) (\<lambda>s. Inr (part @ s))
             else Inr part)"

text \<open>\<open>SYSCALL_ARG_REGS\<close> has six registers.\<close>

definition syscall_arg :: "tracee \<Rightarrow> nat \<Rightarrow> 64 word res" where
  "syscall_arg p n = (if n < 6 \<and> n < length (tr_args p) then Inr (tr_args p ! n) else Inl Undefined_behaviour)"

definition fetch_argument :: "nat \<Rightarrow> tracee \<Rightarrow> nat \<times> argument_info \<Rightarrow> argument res" where
  "fetch_argument fuel p arg =
     (case arg of (i, info) \<Rightarrow>
        bind_res (syscall_arg p i) (\<lambda>raw.
        bind_res (if is_readable_string info
                  then bind_res (read_string fuel (tr_peek p) raw) (\<lambda>s. Inr (Some s)) else Inr None) (\<lambda>str.
          Inr \<lparr>ar_info = info, ar_raw = raw, ar_string = str, ar_long = Some raw\<rparr>)))"

definition fetch_arguments ::
  "signature_table \<Rightarrow> nat \<Rightarrow> tracee \<Rightarrow> syscall_invocation \<Rightarrow> syscall_invocation res" where
  "fetch_arguments table fuel p c =
     bind_res (syscall_signature_of table (si_call c)) (\<lambda>sig.
     bind_res (map_res (fetch_argument fuel p) (enumerate 0 (ss_args sig))) (\<lambda>args.
       Inr (c\<lparr>si_arguments := Some args\<rparr>)))"

definition argument_text :: "argument \<Rightarrow> string res" where
  "argument_text a =
     (if is_readable_string (ar_info a)
      then bind_res (argument_string a) (\<lambda>s. Inr (CHR 0x22 # s @ [CHR 0x22]))
      else case ar_long a of None \<Rightarrow> Inl Assertion_failed | Some w \<Rightarrow> Inr (int_to_string (sint w)))"

fun join_with :: "string \<Rightarrow> string list \<Rightarrow> string" where
  "join_with sep [] = []"
| "join_with sep [x] = x"
| "join_with sep (x # xs) = x @ sep @ join_with sep xs"

definition invocation_to_string :: "syscall_invocation \<Rightarrow> string res" where
  "invocation_to_string c =
     (case si_signature c of
        None \<Rightarrow> Inr (''sc-'' @ int_to_string (sint (si_call c)) @ ''(?)'')
      | Some sig \<Rightarrow>
          bind_res (case si_arguments c of
                      None \<Rightarrow> Inr ''?''
                    | Some args \<Rightarrow> bind_res (map_res argument_text args) (\<lambda>ts. Inr (join_with '', '' ts))) (\<lambda>t.
            Inr (ss_name sig @ ''('' @ t @ '')'')))"

section \<open>Stops and requests\<close>

datatype wait_code = CLD_EXITED | CLD_KILLED | CLD_DUMPED | CLD_TRAPPED | CLD_STOPPED | CLD_CONTINUED

text \<open>\<open>siginfo_t\<close>; \<open>wi_child\<close> tells whether the signal number is \<open>SIGCHLD\<close>.\<close>

record wait_info =
  wi_pid :: int
  wi_child :: bool
  wi_code :: wait_code
  wi_status :: nat

text \<open>One round of the loop: what the wait for any process reports, what the wait for that process
  reports then, what \<open>ptrace\<close> reads from it, the traced processes that are stopped at that moment (a
  request to another one fails), and the files then (the device and inode of a path, from the
  directory of the sandbox).\<close>

record stop =
  st_any :: wait_info
  st_one :: wait_info
  st_tracee :: tracee
  st_stopped :: "int \<Rightarrow> bool"
  st_inode :: "string \<Rightarrow> (nat \<times> nat) option"

datatype request =
    Set_options int
  | Continue_to_syscall int nat
  | Detach int
  | Signal int nat

definition SIGHUP_number :: nat where "SIGHUP_number = 1"
definition SIGCONT_number :: nat where "SIGCONT_number = 18"
definition SIGTRAP :: nat where "SIGTRAP = 5"
definition SIGSTOP :: nat where "SIGSTOP = 19"
definition SIGRTMAX :: nat where "SIGRTMAX = 64"
definition EVENT_FORK :: nat where "EVENT_FORK = 1"
definition EVENT_VFORK :: nat where "EVENT_VFORK = 2"
definition EVENT_CLONE :: nat where "EVENT_CLONE = 3"
definition EVENT_EXEC :: nat where "EVENT_EXEC = 4"
definition EVENT_EXIT :: nat where "EVENT_EXIT = 6"

lemmas ptrace_numbers = SIGTRAP_def SIGSTOP_def SIGRTMAX_def EVENT_FORK_def EVENT_VFORK_def EVENT_CLONE_def
  EVENT_EXEC_def EVENT_EXIT_def

section \<open>State\<close>

record child_process =
  cp_running :: bool
  cp_terminated :: bool
  cp_exit_status :: nat
  cp_died_on_signal :: bool

record process_tracer =
  pt_options_set :: bool
  pt_invocation :: "syscall_invocation option"
  pt_detach :: bool
  pt_pause :: bool

definition new_process_tracer :: process_tracer where
  "new_process_tracer = \<lparr>pt_options_set = False, pt_invocation = None, pt_detach = False, pt_pause = False\<rparr>"

text \<open>The maps are lists of pairs with one pair for each key. \<open>fl_client\<close> is the state of the two
  callbacks.\<close>

record 's flock =
  fl_children :: "(int \<times> child_process) list"
  fl_tracers :: "(int \<times> process_tracer) list"
  fl_waiting :: "(int \<times> int) list"
  fl_requests :: "request list"
  fl_client :: 's

record 's callbacks =
  before_entry :: "stop \<Rightarrow> int \<Rightarrow> ('s flock, unit) traced"
  after_exit :: "stop \<Rightarrow> int \<Rightarrow> ('s flock, unit) traced"

definition tracer_of :: "'s flock \<Rightarrow> int \<Rightarrow> process_tracer option" where
  "tracer_of f pid = map_of (fl_tracers f) pid"

definition ptrace :: "stop \<Rightarrow> string \<Rightarrow> int \<Rightarrow> request \<Rightarrow> ('s flock, unit) traced" where
  "ptrace ev name pid req f =
     (if st_stopped ev pid then (Inr (), f\<lparr>fl_requests := fl_requests f @ [req]\<rparr>) else (Inl (Unix_error name), f))"

definition peek_user :: "stop \<Rightarrow> int \<Rightarrow> (tracee \<Rightarrow> 64 word) \<Rightarrow> ('s flock, 64 word) traced" where
  "peek_user ev pid reg f =
     (if st_stopped ev pid then Inr (reg (st_tracee ev)) else Inl (Unix_error ''ptrace''), f)"

definition update_tracer :: "int \<Rightarrow> (process_tracer \<Rightarrow> process_tracer) \<Rightarrow> ('s flock, unit) traced" where
  "update_tracer pid g f =
     (Inr (), f\<lparr>fl_tracers := map (\<lambda>(k, t). (k, if k = pid then g t else t)) (fl_tracers f)\<rparr>)"

definition flock_insert :: "int \<Rightarrow> ('s flock, unit) traced" where
  "flock_insert pid f =
     (if tracer_of f pid \<noteq> None then (Inl (Runtime_error (''bad attempt to insert pid '' @ int_to_string pid)), f)
      else (Inr (), f\<lparr>fl_tracers := AList.update pid new_process_tracer (fl_tracers f)\<rparr>))"

text \<open>The destructor of a tracer detaches the process; an exception there ends the program.\<close>

definition destroy_tracer :: "stop \<Rightarrow> int \<Rightarrow> ('s flock, unit) traced" where
  "destroy_tracer ev pid f =
     (if st_stopped ev pid
      then (Inr (), f\<lparr>fl_requests := fl_requests f @ [Detach pid], fl_tracers := AList.delete pid (fl_tracers f)\<rparr>)
      else (Inl Terminated, f))"

definition flock_remove :: "stop \<Rightarrow> int \<Rightarrow> ('s flock, unit) traced" where
  "flock_remove ev pid f =
     (if tracer_of f pid = None then (Inl (Runtime_error (''bad attempt to remove pid '' @ int_to_string pid)), f)
      else destroy_tracer ev pid f)"

text \<open>\<open>ProcessTracer::resume\<close>.\<close>

definition resume_tracer :: "stop \<Rightarrow> int \<Rightarrow> nat \<Rightarrow> ('s flock, unit) traced" where
  "resume_tracer ev pid signal =
     and_then (update_tracer pid (\<lambda>t. t\<lparr>pt_pause := False\<rparr>)) (\<lambda>_.
       ptrace ev ''ptrace(SYSCALL)'' pid (Continue_to_syscall pid signal))"

definition resume_after_termination :: "int \<Rightarrow> int \<Rightarrow> ('s flock, unit) traced" where
  "resume_after_termination child pid f =
     (if map_of (fl_children f) child = None
      then (Inl (Runtime_error (''unknown child process '' @ int_to_string child)), f)
      else case tracer_of f pid of
             None \<Rightarrow> (Inl (Runtime_error (''unknown tracee '' @ int_to_string pid)), f)
           | Some t \<Rightarrow>
               if \<not> pt_pause t then (Inl (Runtime_error (''tracee '' @ int_to_string pid @ '' is not paused'')), f)
               else (Inr (), if map_of (fl_waiting f) child = None
                             then f\<lparr>fl_waiting := AList.update child pid (fl_waiting f)\<rparr> else f))"

section \<open>One event of a traced process\<close>

text \<open>A stop before a system call, or after it; the tracer tells them apart by what it remembers.\<close>

definition at_entry :: "signature_table \<Rightarrow> 's callbacks \<Rightarrow> stop \<Rightarrow> int \<Rightarrow> ('s flock, bool) traced" where
  "at_entry table cb ev pid =
     (and_then (peek_user ev pid tr_orig_rax) (\<lambda>call.
         and_then (pure_res (\<lambda>_. new_invocation table call)) (\<lambda>c.
         and_then (update_tracer pid (\<lambda>t. t\<lparr>pt_invocation := Some c\<rparr>)) (\<lambda>_.
         and_then (before_entry cb ev pid) (\<lambda>_ f.
           case tracer_of f pid of
             None \<Rightarrow> (Inl Undefined_behaviour, f)
           | Some t \<Rightarrow> if pt_detach t then (Inr True, f)
                       else if pt_pause t then (Inr False, f)
                       else and_then (resume_tracer ev pid 0) (\<lambda>_. give False) f)))))"

definition at_exit :: "'s callbacks \<Rightarrow> stop \<Rightarrow> int \<Rightarrow> ('s flock, bool) traced" where
  "at_exit cb ev pid =
     (and_then (peek_user ev pid tr_rax) (\<lambda>ret.
         and_then (update_tracer pid (\<lambda>t. t\<lparr>pt_invocation :=
             map_option (\<lambda>c. c\<lparr>si_return := Some ret\<rparr>) (pt_invocation t)\<rparr>)) (\<lambda>_.
         and_then (after_exit cb ev pid) (\<lambda>_.
         and_then (update_tracer pid (\<lambda>t. t\<lparr>pt_invocation := None\<rparr>)) (\<lambda>_.
         and_then (resume_tracer ev pid 0) (\<lambda>_. give False))))))"

definition at_trap :: "stop \<Rightarrow> int \<Rightarrow> nat \<Rightarrow> ('s flock, bool) traced" where
  "at_trap ev pid ptrace_event =
     (let p = st_tracee ev; go = and_then (resume_tracer ev pid 0) (\<lambda>_. give False)
      in if ptrace_event \<in> {EVENT_FORK, EVENT_VFORK, EVENT_CLONE} then go
         else if ptrace_event = EVENT_EXIT then give True
         else if ptrace_event = EVENT_EXEC then
           if \<not> st_stopped ev pid then raise_error (Unix_error ''ptrace(PTRACE_GETEVENTMSG)'')
           else if tr_message p \<noteq> pid then and_then (flock_remove ev (tr_message p)) (\<lambda>_. go)
           else go
         else raise_error (Runtime_error (''unhandled ptrace event type: '' @ int_to_string (int ptrace_event))))"

definition handle_one_event ::
  "signature_table \<Rightarrow> 's callbacks \<Rightarrow> stop \<Rightarrow> int \<Rightarrow> process_tracer \<Rightarrow> ('s flock, bool) traced" where
  "handle_one_event table cb ev pid t =
     (let info = st_one ev; status = wi_status info
      in if wi_pid info = 0 then raise_error (Runtime_error (''PID '' @ int_to_string pid @ '' was not waitable''))
         else if wi_pid info \<noteq> pid then raise_error (Runtime_error ''waitid: unexpected value in siginfo_t si_pid field'')
         else if \<not> wi_child info then
           raise_error (Runtime_error ''waitid: unexpected value in siginfo_t si_signo field (not SIGCHLD)'')
         else if wi_code info \<noteq> CLD_TRAPPED then raise_error (Runtime_error ''waitid: unexpected siginfo_t si_code'')
         else if status = SIGSTOP then
           if pt_options_set t then raise_error (Runtime_error ''multiple SIGSTOPs on same traced process'')
           else and_then (ptrace ev ''ptrace(SETOPTIONS)'' pid (Set_options pid)) (\<lambda>_.
                and_then (update_tracer pid (\<lambda>t. t\<lparr>pt_options_set := True\<rparr>)) (\<lambda>_.
                and_then (resume_tracer ev pid 0) (\<lambda>_. give False)))
         else if status mod 256 = SIGTRAP then at_trap ev pid (status div 256 mod 256)
         else if status = SIGTRAP + 128 then
           if pt_invocation t = None then at_entry table cb ev pid else at_exit cb ev pid
         else if status > SIGRTMAX then
           raise_error (Runtime_error (''unexpected ptrace event '' @ int_to_string (int status)))
         else and_then (resume_tracer ev pid status) (\<lambda>_. give False))"

section \<open>The loop\<close>

text \<open>\<open>ChildProcess::wait( true )\<close> and \<open>throw_exception\<close>.\<close>

definition child_wait :: "int \<Rightarrow> wait_info \<Rightarrow> child_process \<Rightarrow> child_process res" where
  "child_wait pid info cp =
     bind_res (assert_res (\<not> cp_terminated cp)) (\<lambda>_.
       if wi_pid info = 0 then Inl (Runtime_error ''nonblocking wait: process was not waitable'')
       else if wi_pid info \<noteq> pid then Inl (Runtime_error ''waitid: unexpected value in siginfo_t si_pid field'')
       else if \<not> wi_child info then
         Inl (Runtime_error ''waitid: unexpected value in siginfo_t si_signo field (not SIGCHLD)'')
       else case wi_code info of
              CLD_EXITED \<Rightarrow> Inr (cp\<lparr>cp_terminated := True, cp_exit_status := wi_status info\<rparr>)
            | CLD_KILLED \<Rightarrow> Inr (cp\<lparr>cp_terminated := True, cp_exit_status := wi_status info, cp_died_on_signal := True\<rparr>)
            | CLD_DUMPED \<Rightarrow> Inr (cp\<lparr>cp_terminated := True, cp_exit_status := wi_status info, cp_died_on_signal := True\<rparr>)
            | CLD_STOPPED \<Rightarrow> Inr (cp\<lparr>cp_running := False\<rparr>)
            | CLD_CONTINUED \<Rightarrow> Inr (cp\<lparr>cp_running := True\<rparr>)
            | CLD_TRAPPED \<Rightarrow> Inl (Runtime_error ''waitid: unexpected siginfo_t si_code''))"

definition child_exception :: "child_process \<Rightarrow> error" where
  "child_exception cp = Runtime_error
     ((if cp_died_on_signal cp then ''process died on signal '' else ''process exited with failure status '')
      @ int_to_string (int (cp_exit_status cp)))"

text \<open>The tracee that waited for a child is resumed when the child has ended.\<close>

definition wake_waiting :: "stop \<Rightarrow> int \<Rightarrow> ('s flock, unit) traced" where
  "wake_waiting ev child f =
     (case map_of (fl_waiting f) child of
        None \<Rightarrow> (Inr (), f)
      | Some pid \<Rightarrow>
          case tracer_of f pid of
            None \<Rightarrow> (Inl (Runtime_error (''can't find tracee process '' @ int_to_string pid)), f)
          | Some t \<Rightarrow>
              if \<not> pt_pause t then (Inl (Runtime_error (''waking up '' @ int_to_string pid @ '' but it was not paused'')), f)
              else resume_tracer ev pid 0 f)"

definition child_event :: "stop \<Rightarrow> int \<Rightarrow> ('s flock, unit) traced" where
  "child_event ev pid f =
     (case map_of (fl_children f) pid of
        None \<Rightarrow> (Inl (Runtime_error (''unexpected event from child PID '' @ int_to_string pid)), f)
      | Some cp \<Rightarrow>
          case child_wait pid (st_one ev) cp of
            Inl e \<Rightarrow> (Inl e, f)
          | Inr cp' \<Rightarrow>
              let f1 = f\<lparr>fl_children := AList.update pid cp' (fl_children f)\<rparr>
              in if \<not> cp_terminated cp' then (Inr (), f1)
                 else if cp_exit_status cp' \<noteq> 0 then (Inl (child_exception cp'), f1)
                 else and_then (wake_waiting ev pid)
                        (\<lambda>_. modify (\<lambda>f. f\<lparr>fl_waiting := AList.delete pid (fl_waiting f)\<rparr>))
                        (f1\<lparr>fl_children := AList.delete pid (fl_children f1)\<rparr>))"

definition tracee_event :: "signature_table \<Rightarrow> 's callbacks \<Rightarrow> stop \<Rightarrow> int \<Rightarrow> ('s flock, unit) traced" where
  "tracee_event table cb ev pid f =
     and_then (if tracer_of f pid \<noteq> None then give ()
               else if wi_status (st_any ev) = SIGTRAP + 256 * EVENT_EXEC \<or> wi_status (st_any ev) = SIGSTOP
                    then flock_insert pid
               else raise_error (Runtime_error (''unexpected event from PID '' @ int_to_string pid))) (\<lambda>_ f1.
       case tracer_of f1 pid of
         None \<Rightarrow> (Inl (Out_of_range ''map::at''), f1)
       | Some t \<Rightarrow>
           and_then (handle_one_event table cb ev pid t) (\<lambda>over.
             if over then flock_remove ev pid else give ()) f1) f"

definition flock_step :: "signature_table \<Rightarrow> 's callbacks \<Rightarrow> stop \<Rightarrow> ('s flock, unit) traced" where
  "flock_step table cb ev =
     (let pid = wi_pid (st_any ev)
      in if \<not> wi_child (st_any ev) then
           raise_error (Runtime_error ''waitid: unexpected value in siginfo_t si_signo field (not SIGCHLD)'')
         else if wi_code (st_any ev) \<noteq> CLD_TRAPPED then child_event ev pid
         else tracee_event table cb ev pid)"

definition all_done :: "'s flock \<Rightarrow> bool" where
  "all_done f \<longleftrightarrow> fl_tracers f = [] \<and> fl_children f = []"

text \<open>The loop over the stops that arrive: whether everything has ended, or it still waits for the next.\<close>

fun loop_until_all_done :: "signature_table \<Rightarrow> 's callbacks \<Rightarrow> stop list \<Rightarrow> ('s flock, bool) traced" where
  "loop_until_all_done table cb evs f =
     (if all_done f then (Inr True, f)
      else case evs of
             [] \<Rightarrow> (Inr False, f)
           | ev # evs' \<Rightarrow> and_then (flock_step table cb ev) (\<lambda>_. loop_until_all_done table cb evs') f)"

section \<open>The destructors\<close>

text \<open>What the kernel and the library decide while a flock is destroyed: which processes are stopped at that
  moment, the order in which a map destroys its elements, which processes may be signalled, and
  what \<open>waitid\<close> reports of each process from then on (\<open>None\<close> is a call that fails).\<close>

record destruction =
  ds_stopped :: "int \<Rightarrow> bool"
  ds_order :: "int list \<Rightarrow> int list"
  ds_may_signal :: "int \<Rightarrow> bool"
  ds_waits :: "int \<Rightarrow> wait_info option list"

text \<open>The tracers: each detaches its process. Detaching one that is not stopped fails, and an exception in
  this destructor ends the program.\<close>

fun detach_all :: "(int \<Rightarrow> bool) \<Rightarrow> int list \<Rightarrow> ('s flock, unit) traced" where
  "detach_all stopped [] f = (Inr (), f)"
| "detach_all stopped (pid # pids) f =
     (if stopped pid then
        detach_all stopped pids (f\<lparr>fl_requests := fl_requests f @ [Detach pid], fl_tracers := AList.delete pid (fl_tracers f)\<rparr>)
      else (Inl Terminated, f))"

text \<open>\<open>ChildProcess::wait()\<close>, which blocks.\<close>

definition child_block :: "int \<Rightarrow> wait_info option \<Rightarrow> child_process \<Rightarrow> child_process res" where
  "child_block pid info cp =
     (case info of
        None \<Rightarrow> bind_res (assert_res (\<not> cp_terminated cp)) (\<lambda>_. Inl (Unix_error ''waitid''))
      | Some i \<Rightarrow> if wi_pid i = 0 then bind_res (assert_res (\<not> cp_terminated cp)) (\<lambda>_.
                      Inl (Runtime_error ''waitid: unexpected value in siginfo_t si_pid field''))
                  else child_wait pid i cp)"

text \<open>\<open>~ChildProcess\<close>: as long as the child has not ended it is resumed, sent \<open>SIGHUP\<close> and waited for; an
  exception is printed and ends the loop. The signals that are sent, and whether the destructor returns
  (otherwise it waits for a report).\<close>

definition hang_up :: "int \<Rightarrow> child_process \<Rightarrow> request list" where
  "hang_up pid cp = (if cp_running cp then [] else [Signal pid SIGCONT_number]) @ [Signal pid SIGHUP_number]"

fun destroy_child ::
  "bool \<Rightarrow> int \<Rightarrow> wait_info option list \<Rightarrow> child_process \<Rightarrow> request list \<times> bool" where
  "destroy_child may_signal pid [] cp =
     (if cp_terminated cp \<or> \<not> may_signal then ([], True) else (hang_up pid cp, False))"
| "destroy_child may_signal pid (info # waits) cp =
     (if cp_terminated cp \<or> \<not> may_signal then ([], True)
      else case child_block pid info cp of
             Inl _ \<Rightarrow> (hang_up pid cp, True)
           | Inr cp' \<Rightarrow> (case destroy_child may_signal pid waits cp' of
                          (later, over) \<Rightarrow> (hang_up pid cp @ later, over)))"

fun destroy_children :: "destruction \<Rightarrow> int list \<Rightarrow> ('s flock, bool) traced" where
  "destroy_children dst [] f = (Inr True, f)"
| "destroy_children dst (pid # pids) f =
     (case map_of (fl_children f) pid of
        None \<Rightarrow> destroy_children dst pids f
      | Some cp \<Rightarrow>
          (case destroy_child (ds_may_signal dst pid) pid (ds_waits dst pid) cp of
             (sent, over) \<Rightarrow>
               let f1 = f\<lparr>fl_requests := fl_requests f @ sent\<rparr>
               in if over then destroy_children dst pids (f1\<lparr>fl_children := AList.delete pid (fl_children f1)\<rparr>)
                  else (Inr False, f1)))"

text \<open>The members are destroyed from the last to the first: the tracers, then the children. The result
  says whether that ends.\<close>

definition destroy_flock :: "destruction \<Rightarrow> ('s flock, bool) traced" where
  "destroy_flock dst f =
     and_then (detach_all (ds_stopped dst) (ds_order dst (map fst (fl_tracers f)))) (\<lambda>_ f1.
       destroy_children dst (ds_order dst (map fst (fl_children f1))) f1) f"

text \<open>\<open>Tracer::Tracer\<close>: a child process that is traced.\<close>

definition new_flock :: "int \<Rightarrow> 's \<Rightarrow> 's flock" where
  "new_flock pid client =
     \<lparr>fl_children = [(pid, \<lparr>cp_running = True, cp_terminated = False, cp_exit_status = 0, cp_died_on_signal = False\<rparr>)],
      fl_tracers = [(pid, new_process_tracer)], fl_waiting = [], fl_requests = [], fl_client = client\<rparr>"

end
