(* ===== verification/Sandbox.thy ===== *)
theory Sandbox
  imports Tracer ThunkData
begin

text \<open>
  The sandbox (\<open>src/sandbox/sandbox.cc\<close>): the two callbacks of the tracer. Before a system call that
  names files the names are looked up in the table of permissions, by path and by inode; a call that
  is not allowed throws. The numbers of the calls are those of x86-64.
\<close>

section \<open>State\<close>

record sandbox =
  sx_inodes :: "nat \<times> nat \<rightharpoonup> permissions"
  sx_paths :: "string \<rightharpoonup> permissions"
  sx_candidates :: "string set"

definition allow_file :: "(string \<Rightarrow> (nat \<times> nat) option) \<Rightarrow> string \<Rightarrow> permissions \<Rightarrow> sandbox \<Rightarrow> sandbox" where
  "allow_file inode pathname permissions x =
     (let x1 = x\<lparr>sx_paths := (sx_paths x)(pathname \<mapsto> permissions)\<rparr>
      in case inode pathname of
           None \<Rightarrow> x1
         | Some i \<Rightarrow> x1\<lparr>sx_inodes := (sx_inodes x1)(i \<mapsto> permissions)\<rparr>)"

text \<open>The files that are allowed come from an unordered map; here they are a list in the order in which
  the loop meets them.\<close>

definition new_sandbox :: "(string \<Rightarrow> (nat \<times> nat) option) \<Rightarrow> (string \<times> permissions) list \<Rightarrow> sandbox" where
  "new_sandbox inode allowed_files =
     fold (\<lambda>(p, perm). allow_file inode p perm) allowed_files
       \<lparr>sx_inodes = Map.empty, sx_paths = Map.empty, sx_candidates = {}\<rparr>"

definition get_permissions :: "(string \<Rightarrow> (nat \<times> nat) option) \<Rightarrow> string \<Rightarrow> sandbox \<Rightarrow> permissions option" where
  "get_permissions inode pathname x =
     (case sx_paths x pathname of
        Some p \<Rightarrow> Some p
      | None \<Rightarrow> (case inode pathname of None \<Rightarrow> None | Some i \<Rightarrow> sx_inodes x i))"

section \<open>The checks\<close>

definition O_ACCMODE :: "32 word" where "O_ACCMODE = 3"
definition O_RDONLY :: "32 word" where "O_RDONLY = 0"
definition O_WRONLY :: "32 word" where "O_WRONLY = 1"
definition O_RDWR :: "32 word" where "O_RDWR = 2"
definition O_CREAT :: "32 word" where "O_CREAT = 64"
definition O_EXCL :: "32 word" where "O_EXCL = 128"

lemmas open_flags = O_ACCMODE_def O_RDONLY_def O_WRONLY_def O_RDWR_def O_CREAT_def O_EXCL_def

fun file_syscall_entry ::
  "(string \<Rightarrow> (nat \<times> nat) option) \<Rightarrow> argument list \<Rightarrow> sandbox \<Rightarrow> bool res" where
  "file_syscall_entry inode [] x = Inr True"
| "file_syscall_entry inode (arg # args) x =
     (if ai_flags (ar_info arg) AND ARGUMENT_F_PATHNAME \<noteq> 0 then
        bind_res (argument_string arg) (\<lambda>pathname.
          if get_permissions inode pathname x = None then Inr False else file_syscall_entry inode args x)
      else file_syscall_entry inode args x)"

definition open_entry ::
  "(string \<Rightarrow> (nat \<times> nat) option) \<Rightarrow> syscall_invocation \<Rightarrow> sandbox \<Rightarrow> (bool \<times> sandbox) res" where
  "open_entry inode c x =
     bind_res (bind_res (argument_at c 0) argument_string) (\<lambda>pathname.
     bind_res (bind_res (argument_at c 1) argument_int) (\<lambda>mode.
       let access_mode = mode AND O_ACCMODE
       in case get_permissions inode pathname x of
            None \<Rightarrow>
              if mode AND O_CREAT \<noteq> 0 \<and> mode AND O_EXCL \<noteq> 0
              then Inr (True, x\<lparr>sx_candidates := insert pathname (sx_candidates x)\<rparr>)
              else Inr (False, x)
          | Some p \<Rightarrow>
              if access_mode = O_RDWR \<and> (\<not> perm_read p \<or> \<not> perm_write p) then Inr (False, x)
              else if access_mode = O_WRONLY \<and> \<not> perm_write p then Inr (False, x)
              else if access_mode = O_RDONLY \<and> \<not> perm_read p then Inr (False, x)
              else Inr (True, x)))"

definition execve_entry :: "(string \<Rightarrow> (nat \<times> nat) option) \<Rightarrow> syscall_invocation \<Rightarrow> sandbox \<Rightarrow> bool res" where
  "execve_entry inode c x =
     bind_res (bind_res (argument_at c 0) argument_string) (\<lambda>pathname.
       Inr (case get_permissions inode pathname x of None \<Rightarrow> False | Some p \<Rightarrow> perm_execute p))"

definition rename_entry :: "(string \<Rightarrow> (nat \<times> nat) option) \<Rightarrow> syscall_invocation \<Rightarrow> sandbox \<Rightarrow> bool res" where
  "rename_entry inode c x =
     bind_res (bind_res (argument_at c 0) argument_string) (\<lambda>src.
     bind_res (bind_res (argument_at c 1) argument_string) (\<lambda>dst.
       Inr ((case get_permissions inode src x of None \<Rightarrow> False | Some p \<Rightarrow> perm_read p) \<and>
            (case get_permissions inode dst x of None \<Rightarrow> False | Some p \<Rightarrow> perm_write p))))"

text \<open>The result of the call is compared with \<open>-1\<close>.\<close>

definition open_exit ::
  "(string \<Rightarrow> (nat \<times> nat) option) \<Rightarrow> syscall_invocation \<Rightarrow> sandbox \<Rightarrow> sandbox res" where
  "open_exit inode c x =
     bind_res (bind_res (argument_at c 0) argument_string) (\<lambda>pathname.
       if pathname \<notin> sx_candidates x then Inr x
       else case si_return c of
              None \<Rightarrow> Inl Assertion_failed
            | Some ret \<Rightarrow>
                if ret \<noteq> - 1
                then Inr (allow_file inode pathname (perms True True True)
                            (x\<lparr>sx_candidates := sx_candidates x - {pathname}\<rparr>))
                else Inr x)"

section \<open>The callbacks\<close>

definition SYS_open :: "64 word" where "SYS_open = 2"
definition SYS_rename :: "64 word" where "SYS_rename = 82"
definition SYS_execve :: "64 word" where "SYS_execve = 59"

text \<open>chroot, stat, lstat, chdir, fchdir, openat, mkdirat, mknodat, fchownat, futimesat, newfstatat,
  unlinkat, renameat, linkat, symlinkat, readlinkat, fchmodat, faccessat, utimensat,
  name_to_handle_at, open_by_handle_at, execveat, fanotify_mark, renameat2, getpid, gettimeofday, time,
  clock_gettime, getcpu, mkdir, socket.\<close>

definition forbidden_calls :: "64 word list" where
  "forbidden_calls = [161, 4, 6, 80, 81, 257, 258, 259, 260, 261, 262, 263, 264, 265, 266, 267, 268, 269, 280,
     303, 304, 322, 301, 316, 39, 96, 201, 228, 309, 83, 41]"

definition violation :: "string \<Rightarrow> syscall_invocation \<Rightarrow> error" where
  "violation what c =
     (case invocation_to_string c of Inl e \<Rightarrow> e | Inr text \<Rightarrow> Runtime_error (what @ '': '' @ text))"

definition check_call :: "syscall_invocation \<Rightarrow> bool res \<Rightarrow> unit res" where
  "check_call c status =
     bind_res status (\<lambda>ok. if ok then Inr () else Inl (violation ''Illegal syscall: '' c))"

definition file_call ::
  "(string \<Rightarrow> (nat \<times> nat) option) \<Rightarrow> syscall_invocation \<Rightarrow> sandbox \<Rightarrow> unit res \<times> sandbox" where
  "file_call inode c x =
     (if si_call c = SYS_open then
        (case open_entry inode c x of
           Inl e \<Rightarrow> (Inl e, x)
         | Inr (ok, x') \<Rightarrow> (check_call c (Inr ok), x'))
      else if si_call c = SYS_rename then (check_call c (rename_entry inode c x), x)
      else if si_call c = SYS_execve then (check_call c (execve_entry inode c x), x)
      else case si_arguments c of
             None \<Rightarrow> (Inl Assertion_failed, x)
           | Some args \<Rightarrow> (check_call c (file_syscall_entry inode args x), x))"

definition the_invocation :: "int \<Rightarrow> 's flock \<Rightarrow> syscall_invocation res" where
  "the_invocation pid f =
     (case tracer_of f pid of
        None \<Rightarrow> Inl Undefined_behaviour
      | Some t \<Rightarrow> (case pt_invocation t of None \<Rightarrow> Inl Assertion_failed | Some c \<Rightarrow> Inr c))"

definition sandbox_entry :: "signature_table \<Rightarrow> nat \<Rightarrow> stop \<Rightarrow> int \<Rightarrow> (sandbox flock, unit) traced" where
  "sandbox_entry table fuel ev pid =
     and_then (pure_res (the_invocation pid)) (\<lambda>c.
       if si_call c \<in> set forbidden_calls then raise_error (violation ''Forbidden syscall'' c)
       else case si_signature c of
              None \<Rightarrow> raise_error (violation ''Unknown syscall'' c)
            | Some sig \<Rightarrow>
                if ss_flags sig AND TRACE_FILE = 0 then give ()
                else and_then (pure_res (\<lambda>_. fetch_arguments table fuel (st_tracee ev) c)) (\<lambda>c'.
                     and_then (update_tracer pid (\<lambda>t. t\<lparr>pt_invocation := Some c'\<rparr>)) (\<lambda>_ f.
                       case file_call (st_inode ev) c' (fl_client f) of (r, x) \<Rightarrow> (r, f\<lparr>fl_client := x\<rparr>))))"

definition sandbox_exit :: "stop \<Rightarrow> int \<Rightarrow> (sandbox flock, unit) traced" where
  "sandbox_exit ev pid =
     and_then (pure_res (the_invocation pid)) (\<lambda>c f.
       if si_call c = SYS_open then
         (case open_exit (st_inode ev) c (fl_client f) of
            Inl e \<Rightarrow> (Inl e, f)
          | Inr x \<Rightarrow> (Inr (), f\<lparr>fl_client := x\<rparr>))
       else (Inr (), f))"

definition sandbox_callbacks :: "signature_table \<Rightarrow> nat \<Rightarrow> sandbox callbacks" where
  "sandbox_callbacks table fuel = \<lparr>before_entry = sandbox_entry table fuel, after_exit = sandbox_exit\<rparr>"

section \<open>A sandboxed process\<close>

text \<open>\<open>SandboxedProcess\<close> is constructed, runs until everything has ended or an exception leaves the loop,
  and is destroyed: the result of the run, and the state after the destructor. \<open>Inr False\<close> says
  that it still waits, in the loop or in the destructor.\<close>

definition run_sandboxed ::
  "signature_table \<Rightarrow> nat \<Rightarrow> (string \<Rightarrow> (nat \<times> nat) option) \<Rightarrow> (string \<times> permissions) list \<Rightarrow> int \<Rightarrow>
     stop list \<Rightarrow> bool res \<times> sandbox flock" where
  "run_sandboxed table fuel inode allowed_files pid evs =
     loop_until_all_done table (sandbox_callbacks table fuel) evs (new_flock pid (new_sandbox inode allowed_files))"

definition sandbox_execute ::
  "signature_table \<Rightarrow> nat \<Rightarrow> (string \<Rightarrow> (nat \<times> nat) option) \<Rightarrow> (string \<times> permissions) list \<Rightarrow> int \<Rightarrow>
     stop list \<Rightarrow> destruction \<Rightarrow> bool res \<times> sandbox flock" where
  "sandbox_execute table fuel inode allowed_files pid evs dst =
     (case run_sandboxed table fuel inode allowed_files pid evs of
        (r, f) \<Rightarrow>
          if r = Inr False then (r, f)
          else case destroy_flock dst f of
                 (Inl e, f') \<Rightarrow> (Inl e, f')
               | (Inr over, f') \<Rightarrow> (if over then r else Inr False, f'))"

section \<open>Entries of the table of signatures\<close>

text \<open>The calls of the checks, as the generated table \<open>trace/linux/x86_64/syscalltbl.cc\<close> has them.\<close>

definition path_argument :: argument_info where
  "path_argument = \<lparr>ai_type = ''const char *'', ai_dir = Dir_in, ai_flags = ARGUMENT_F_PATHNAME\<rparr>"

definition plain_argument :: "string \<Rightarrow> argument_info" where
  "plain_argument type = \<lparr>ai_type = type, ai_dir = Dir_in, ai_flags = 0\<rparr>"

definition TRACE_DESC :: "32 word" where "TRACE_DESC = 32"

definition open_signature :: syscall_signature where
  "open_signature = \<lparr>ss_number = 2, ss_name = ''open'',
     ss_args = [path_argument, plain_argument ''int'', plain_argument ''mode_t''],
     ss_flags = TRACE_DESC OR TRACE_FILE, ss_complete = True\<rparr>"

definition truncate_signature :: syscall_signature where
  "truncate_signature = \<lparr>ss_number = 76, ss_name = ''truncate'',
     ss_args = [path_argument, plain_argument ''long''], ss_flags = TRACE_FILE, ss_complete = True\<rparr>"

definition rename_signature :: syscall_signature where
  "rename_signature = \<lparr>ss_number = 82, ss_name = ''rename'', ss_args = [path_argument, path_argument],
     ss_flags = TRACE_FILE, ss_complete = True\<rparr>"

end
