(* ===== verification/SandboxLaws.thy ===== *)
theory SandboxLaws
  imports Sandbox
begin

text \<open>
  What the sandbox guarantees, and what it does not: the calls that run have been checked against the
  table, permissions only come from the table and from exclusive creations; a creation that fails grants
  them too, and a call that is refused runs when the tracer goes.
\<close>

section \<open>Calls of the tracer that return\<close>

lemma and_then_Inr [simp]:
  "and_then m g s = (Inr y, s') \<longleftrightarrow> (\<exists>x s1. m s = (Inr x, s1) \<and> g x s1 = (Inr y, s'))"
  by (auto simp: and_then_def split: prod.splits sum.splits)

lemma traced_returns [simp]:
  "give x s = (Inr y, s') \<longleftrightarrow> y = x \<and> s' = s"
  "raise_error e s = (Inr y, s') \<longleftrightarrow> False"
  "pure_res h s = (Inr y, s') \<longleftrightarrow> h s = Inr y \<and> s' = s"
  "modify k s = (Inr (), s') \<longleftrightarrow> s' = k s"
  by (auto simp: give_def raise_error_def pure_res_def modify_def)

lemma case_pair_returns [simp]:
  "(case m of (r, x) \<Rightarrow> (r, g x)) = (Inr y, s') \<longleftrightarrow> (\<exists>x. m = (Inr y, x) \<and> s' = g x)"
  by (cases m) auto

lemma ptrace_returns [simp]:
  "ptrace ev name pid req f = (Inr u, f') \<longleftrightarrow> st_stopped ev pid \<and> f' = f\<lparr>fl_requests := fl_requests f @ [req]\<rparr>"
  "peek_user ev pid reg f = (Inr w, f') \<longleftrightarrow> st_stopped ev pid \<and> w = reg (st_tracee ev) \<and> f' = f"
  by (auto simp: ptrace_def peek_user_def)

definition on_tracer :: "int \<Rightarrow> (process_tracer \<Rightarrow> process_tracer) \<Rightarrow> 's flock \<Rightarrow> 's flock" where
  "on_tracer pid g f = f\<lparr>fl_tracers := map (\<lambda>(k, t). (k, if k = pid then g t else t)) (fl_tracers f)\<rparr>"

lemma update_tracer_returns [simp]: "update_tracer pid g f = (Inr u, f') \<longleftrightarrow> f' = on_tracer pid g f"
  by (auto simp: update_tracer_def on_tracer_def)

lemma resume_tracer_returns [simp]:
  "resume_tracer ev pid sig f = (Inr u, f') \<longleftrightarrow> st_stopped ev pid \<and>
     f' = (on_tracer pid (\<lambda>t. t\<lparr>pt_pause := False\<rparr>) f)\<lparr>fl_requests := fl_requests f @ [Continue_to_syscall pid sig]\<rparr>"
  by (auto simp: resume_tracer_def on_tracer_def)

lemma on_tracer_client [simp]: "fl_client (on_tracer pid g f) = fl_client f"
  by (simp add: on_tracer_def)

lemma tracer_of_on_tracer [simp]:
  "tracer_of (on_tracer pid g f) q = (if q = pid then map_option g (tracer_of f q) else tracer_of f q)"
proof -
  have "map_of (map (\<lambda>(k, t). (k, if k = pid then g t else t)) ts) q =
      (if q = pid then map_option g (map_of ts q) else map_of ts q)" for ts
    by (induction ts) auto
  then show ?thesis by (simp add: tracer_of_def on_tracer_def)
qed

lemma tracer_of_updates [simp]:
  "tracer_of (f\<lparr>fl_client := x\<rparr>) q = tracer_of f q"
  "tracer_of (f\<lparr>fl_requests := rs\<rparr>) q = tracer_of f q"
  "tracer_of (f\<lparr>fl_children := cs\<rparr>) q = tracer_of f q"
  "tracer_of (f\<lparr>fl_waiting := ws\<rparr>) q = tracer_of f q"
  "tracer_of (f\<lparr>fl_tracers := AList.update pid t ts\<rparr>) q = (if q = pid then Some t else map_of ts q)"
  "tracer_of (f\<lparr>fl_tracers := AList.delete pid ts\<rparr>) q = (if q = pid then None else map_of ts q)"
  by (simp_all add: tracer_of_def update_conv' delete_conv')

lemma flock_remove_returns [simp]:
  "flock_remove ev pid f = (Inr u, f') \<longleftrightarrow> tracer_of f pid \<noteq> None \<and> st_stopped ev pid \<and>
     f' = f\<lparr>fl_requests := fl_requests f @ [Detach pid], fl_tracers := AList.delete pid (fl_tracers f)\<rparr>"
  by (auto simp: flock_remove_def destroy_tracer_def)

lemma tracer_of_alist [simp]: "map_of (fl_tracers f) q = tracer_of f q"
  by (simp add: tracer_of_def)

section \<open>Where permissions come from\<close>

text \<open>A stop before an \<open>open\<close> of a path with some flags, and the paths some process has tried to create
  exclusively.\<close>

definition opens :: "nat \<Rightarrow> tracee \<Rightarrow> string \<Rightarrow> 32 word \<Rightarrow> bool" where
  "opens fuel p path flags \<longleftrightarrow> tr_orig_rax p = SYS_open \<and>
     bind_res (syscall_arg p 0) (read_string fuel (tr_peek p)) = Inr path \<and>
     bind_res (syscall_arg p 1) (\<lambda>w. Inr (ucast w)) = Inr flags"

definition exclusive :: "32 word \<Rightarrow> bool" where
  "exclusive flags \<longleftrightarrow> flags AND O_CREAT \<noteq> 0 \<and> flags AND O_EXCL \<noteq> 0"

definition tried_to_create :: "nat \<Rightarrow> stop list \<Rightarrow> string \<Rightarrow> bool" where
  "tried_to_create fuel evs path \<longleftrightarrow> (\<exists>ev \<in> set evs. \<exists>flags. opens fuel (st_tracee ev) path flags \<and> exclusive flags)"

text \<open>A permission of a path: the table has it, or the path was created.\<close>

definition path_granted :: "nat \<Rightarrow> (string \<times> permissions) list \<Rightarrow> stop list \<Rightarrow> string \<Rightarrow> permissions \<Rightarrow> bool" where
  "path_granted fuel allowed evs path perm \<longleftrightarrow>
     (path, perm) \<in> set allowed \<or> perm = perms True True True \<and> tried_to_create fuel evs path"

text \<open>A permission of an inode: it was the inode of such a path, at the start or at some stop.\<close>

definition inode_granted ::
  "nat \<Rightarrow> (string \<Rightarrow> (nat \<times> nat) option) \<Rightarrow> (string \<times> permissions) list \<Rightarrow> stop list \<Rightarrow> nat \<times> nat \<Rightarrow>
     permissions \<Rightarrow> bool" where
  "inode_granted fuel inode allowed evs i perm \<longleftrightarrow>
     (\<exists>q. (q, perm) \<in> set allowed \<and> inode q = Some i) \<or>
     perm = perms True True True \<and> (\<exists>q. tried_to_create fuel evs q \<and> (\<exists>ev \<in> set evs. st_inode ev q = Some i))"

definition granted ::
  "nat \<Rightarrow> (string \<Rightarrow> (nat \<times> nat) option) \<Rightarrow> (string \<times> permissions) list \<Rightarrow> stop list \<Rightarrow> string \<Rightarrow>
     permissions \<Rightarrow> bool" where
  "granted fuel inode allowed evs path perm \<longleftrightarrow>
     path_granted fuel allowed evs path perm \<or>
     (\<exists>ev \<in> set evs. \<exists>i. st_inode ev path = Some i \<and> inode_granted fuel inode allowed evs i perm)"

definition covers :: "permissions \<Rightarrow> 32 word \<Rightarrow> bool" where
  "covers perm flags \<longleftrightarrow>
     (flags AND O_ACCMODE = O_RDWR \<longrightarrow> perm_read perm \<and> perm_write perm) \<and>
     (flags AND O_ACCMODE = O_WRONLY \<longrightarrow> perm_write perm) \<and>
     (flags AND O_ACCMODE = O_RDONLY \<longrightarrow> perm_read perm)"

text \<open>A call that may run: it is not one of the forbidden ones, its arguments are known, and an \<open>open\<close>
  creates its file or has a permission for it.\<close>

definition may_open ::
  "nat \<Rightarrow> (string \<Rightarrow> (nat \<times> nat) option) \<Rightarrow> (string \<times> permissions) list \<Rightarrow> stop list \<Rightarrow> syscall_invocation \<Rightarrow> bool" where
  "may_open fuel inode allowed evs c \<longleftrightarrow>
     (\<exists>path flags. bind_res (argument_at c 0) argument_string = Inr path \<and>
        bind_res (argument_at c 1) argument_int = Inr flags \<and>
        (exclusive flags \<or> (\<exists>perm. granted fuel inode allowed evs path perm \<and> covers perm flags)))"

definition may_run ::
  "nat \<Rightarrow> (string \<Rightarrow> (nat \<times> nat) option) \<Rightarrow> (string \<times> permissions) list \<Rightarrow> stop list \<Rightarrow> syscall_invocation \<Rightarrow> bool" where
  "may_run fuel inode allowed evs c \<longleftrightarrow>
     si_call c \<notin> set forbidden_calls \<and> si_signature c \<noteq> None \<and>
     (si_call c = SYS_open \<longrightarrow> may_open fuel inode allowed evs c)"

lemma tried_mono: "tried_to_create fuel evs p \<Longrightarrow> tried_to_create fuel (evs @ evs') p"
  by (auto simp: tried_to_create_def)

lemma inode_granted_mono:
  "inode_granted fuel inode allowed evs i perm \<Longrightarrow> inode_granted fuel inode allowed (evs @ evs') i perm"
  by (auto simp: inode_granted_def dest: tried_mono)

lemma path_granted_mono: "path_granted fuel allowed evs p perm \<Longrightarrow> path_granted fuel allowed (evs @ evs') p perm"
  by (auto simp: path_granted_def dest: tried_mono)

lemma granted_mono:
  "granted fuel inode allowed evs p perm \<Longrightarrow> granted fuel inode allowed (evs @ evs') p perm"
  unfolding granted_def using path_granted_mono inode_granted_mono by fastforce

lemma may_run_mono: "may_run fuel inode allowed evs c \<Longrightarrow> may_run fuel inode allowed (evs @ evs') c"
  unfolding may_run_def may_open_def using granted_mono by blast

text \<open>The invariant: the tables hold permissions that were granted, and a process inside a call is inside
  one that may run. \<open>busy\<close> is the process the tracer is looking at.\<close>

definition tables_ok ::
  "nat \<Rightarrow> (string \<Rightarrow> (nat \<times> nat) option) \<Rightarrow> (string \<times> permissions) list \<Rightarrow> stop list \<Rightarrow> sandbox \<Rightarrow> bool" where
  "tables_ok fuel inode allowed evs x \<longleftrightarrow>
     (\<forall>p perm. sx_paths x p = Some perm \<longrightarrow> path_granted fuel allowed evs p perm) \<and>
     (\<forall>i perm. sx_inodes x i = Some perm \<longrightarrow> inode_granted fuel inode allowed evs i perm) \<and>
     (\<forall>p \<in> sx_candidates x. tried_to_create fuel evs p)"

definition calls_ok ::
  "nat \<Rightarrow> (string \<Rightarrow> (nat \<times> nat) option) \<Rightarrow> (string \<times> permissions) list \<Rightarrow> stop list \<Rightarrow> int set \<Rightarrow> 's flock \<Rightarrow> bool" where
  "calls_ok fuel inode allowed evs busy f \<longleftrightarrow>
     (\<forall>q t c. tracer_of f q = Some t \<longrightarrow> q \<notin> busy \<longrightarrow> pt_invocation t = Some c \<longrightarrow> may_run fuel inode allowed evs c)"

definition flock_ok ::
  "nat \<Rightarrow> (string \<Rightarrow> (nat \<times> nat) option) \<Rightarrow> (string \<times> permissions) list \<Rightarrow> stop list \<Rightarrow> sandbox flock \<Rightarrow> bool" where
  "flock_ok fuel inode allowed evs f \<longleftrightarrow>
     tables_ok fuel inode allowed evs (fl_client f) \<and> calls_ok fuel inode allowed evs {} f"

lemma tables_ok_mono:
  "tables_ok fuel inode allowed evs x \<Longrightarrow> tables_ok fuel inode allowed (evs @ evs') x"
  by (auto simp: tables_ok_def intro: path_granted_mono inode_granted_mono tried_mono)

lemma calls_ok_mono:
  "calls_ok fuel inode allowed evs B f \<Longrightarrow> calls_ok fuel inode allowed (evs @ evs') B f"
  unfolding calls_ok_def using may_run_mono by blast

lemma tables_ok_allow_table:
  assumes "tables_ok fuel inode allowed [] x" and "(p, perm) \<in> set allowed"
  shows "tables_ok fuel inode allowed [] (allow_file inode p perm x)"
  using assms
  by (auto simp: tables_ok_def allow_file_def path_granted_def inode_granted_def Let_def split: option.splits if_splits)

lemma new_sandbox_ok: "tables_ok fuel inode allowed [] (new_sandbox inode allowed)"
proof -
  let ?init = "\<lparr>sx_inodes = Map.empty, sx_paths = Map.empty, sx_candidates = {}\<rparr>"
  have "set xs \<subseteq> set allowed \<Longrightarrow> tables_ok fuel inode allowed [] x \<Longrightarrow>
      tables_ok fuel inode allowed [] (fold (\<lambda>(p, perm). allow_file inode p perm) xs x)" for xs x
    by (induction xs arbitrary: x) (auto intro!: tables_ok_allow_table)
  moreover have "tables_ok fuel inode allowed [] ?init" by (simp add: tables_ok_def)
  ultimately show ?thesis by (simp add: new_sandbox_def)
qed

lemma tables_ok_created:
  assumes "tables_ok fuel inode allowed evs x" and "tried_to_create fuel evs p" and "ev \<in> set evs"
  shows "tables_ok fuel inode allowed evs
    (allow_file (st_inode ev) p (perms True True True) (x\<lparr>sx_candidates := sx_candidates x - {p}\<rparr>))"
  using assms
  by (auto simp: tables_ok_def allow_file_def path_granted_def inode_granted_def Let_def split: option.splits if_splits)

section \<open>Before a call and after it\<close>

lemma new_invocation_fields:
  "new_invocation table call = Inr c \<Longrightarrow> si_call c = call \<and> si_arguments c = None \<and> si_return c = None"
  by (auto simp: new_invocation_def)

text \<open>The arguments of an \<open>open\<close> are those in the registers.\<close>

lemma fetch_open:
  assumes "table 2 = Some open_signature" and "si_call c = SYS_open"
    and "fetch_arguments table fuel p c = Inr c'"
  obtains a0 a1 a2 path flags where "si_arguments c' = Some [a0, a1, a2]" "ar_string a0 = Some path"
    "argument_int a1 = Inr flags" "bind_res (syscall_arg p 0) (read_string fuel (tr_peek p)) = Inr path"
    "bind_res (syscall_arg p 1) (\<lambda>w. Inr (ucast w)) = Inr flags"
proof -
  have "unat SYS_open = 2" by (simp add: SYS_open_def)
  then have "syscall_signature_of table (si_call c) = Inr open_signature"
    using assms(1,2) by (simp add: syscall_signature_of_def)
  moreover have "is_readable_string path_argument" "\<not> is_readable_string (plain_argument ''int'')"
    by (simp_all add: is_readable_string_def path_argument_def plain_argument_def)
  ultimately show thesis
    using assms(3) that
    by (auto simp: fetch_arguments_def open_signature_def fetch_argument_def argument_int_def enumerate_eq_zip)
qed

lemma fetch_keeps:
  "fetch_arguments table fuel p c = Inr c' \<Longrightarrow>
     si_call c' = si_call c \<and> si_signature c' = si_signature c \<and> si_arguments c' \<noteq> None"
  by (auto simp: fetch_arguments_def)

lemma get_permissions_granted:
  assumes "tables_ok fuel inode allowed evs x" and "ev \<in> set evs"
    and "get_permissions (st_inode ev) p x = Some perm"
  shows "granted fuel inode allowed evs p perm"
proof (cases "sx_paths x p")
  case None
  then obtain i where "st_inode ev p = Some i" "sx_inodes x i = Some perm"
    using assms(3) by (auto simp: get_permissions_def split: option.splits)
  then show ?thesis using assms(1,2) by (metis granted_def tables_ok_def)
next
  case (Some perm')
  then show ?thesis using assms(1,3) by (simp add: get_permissions_def tables_ok_def granted_def)
qed

text \<open>What a successful check of an \<open>open\<close> means.\<close>

lemma open_entry_checked:
  assumes "open_entry inode c x = Inr (True, x')"
    and "bind_res (argument_at c 0) argument_string = Inr path"
    and "bind_res (argument_at c 1) argument_int = Inr flags"
  shows "exclusive flags \<and> get_permissions inode path x = None \<and>
           x' = x\<lparr>sx_candidates := insert path (sx_candidates x)\<rparr> \<or>
         (\<exists>perm. get_permissions inode path x = Some perm \<and> covers perm flags \<and> x' = x)"
proof (cases "get_permissions inode path x")
  case None
  then show ?thesis using assms by (auto simp: open_entry_def exclusive_def split: if_splits)
next
  case (Some perm)
  then have "covers perm flags \<and> x' = x"
    using assms by (auto simp: open_entry_def covers_def Let_def split: if_splits)
  then show ?thesis using Some by blast
qed

lemma check_call_returns [simp]: "check_call c r = Inr u \<longleftrightarrow> r = Inr True"
  by (auto simp: check_call_def)

text \<open>The check before a call: the process ends up inside a call that may run.\<close>

lemma sandbox_entry_checked:
  assumes table: "table 2 = Some open_signature"
    and run: "sandbox_entry table fuel ev pid f = (Inr u, f')"
    and tracer: "tracer_of f pid = Some t" and c: "pt_invocation t = Some c"
    and call: "si_call c = tr_orig_rax (st_tracee ev)"
    and sig: "\<And>sg. si_call c = SYS_open \<Longrightarrow> si_signature c = Some sg \<Longrightarrow> sg = open_signature"
    and tables: "tables_ok fuel inode allowed evs (fl_client f)" and ev: "ev \<in> set evs"
  shows "tables_ok fuel inode allowed evs (fl_client f') \<and>
    (\<exists>t'. tracer_of f' pid = Some t' \<and> (\<forall>c'. pt_invocation t' = Some c' \<longrightarrow> may_run fuel inode allowed evs c')) \<and>
    (\<forall>q. q \<noteq> pid \<longrightarrow> tracer_of f' q = tracer_of f q)"
proof -
  have the: "the_invocation pid f = Inr c" using tracer c by (simp add: the_invocation_def)
  have allowed_call: "si_call c \<notin> set forbidden_calls" and signed: "si_signature c \<noteq> None"
    using run the by (auto split: if_splits option.splits simp: sandbox_entry_def)
  then obtain sg where sg: "si_signature c = Some sg" by blast
  show ?thesis
  proof (cases "ss_flags sg AND TRACE_FILE = 0")
    case True
    moreover from this have "si_call c \<noteq> SYS_open"
      using sig sg by (auto simp: open_signature_def TRACE_DESC_def TRACE_FILE_def)
    moreover have "f' = f" using run by (simp add: sandbox_entry_def the sg allowed_call True)
    ultimately show ?thesis
      using tables tracer c allowed_call signed by (simp add: may_run_def)
  next
    case False
    let ?on = "\<lambda>c'. on_tracer pid (\<lambda>t. t\<lparr>pt_invocation := Some c'\<rparr>) f"
    obtain c' x where fetch: "fetch_arguments table fuel (st_tracee ev) c = Inr c'"
      and checked_call: "file_call (st_inode ev) c' (fl_client f) = (Inr u, x)"
      and f': "f' = (?on c')\<lparr>fl_client := x\<rparr>"
      using run the sg allowed_call False by (auto simp: sandbox_entry_def)
    have keeps: "si_call c' = si_call c" "si_signature c' = si_signature c" using fetch_keeps [OF fetch] by auto
    have "tables_ok fuel inode allowed evs x \<and> may_run fuel inode allowed evs c'"
    proof (cases "si_call c = SYS_open")
      case other: False
      then have "x = fl_client f" using checked_call keeps by (auto simp: file_call_def split: option.splits if_splits)
      then show ?thesis using other tables allowed_call signed keeps by (simp add: may_run_def)
    next
      case is_open: True
      from table is_open fetch obtain a0 a1 a2 path flags where args: "si_arguments c' = Some [a0, a1, a2]"
        "ar_string a0 = Some path" "argument_int a1 = Inr flags"
        and regs: "bind_res (syscall_arg (st_tracee ev) 0) (read_string fuel (tr_peek (st_tracee ev))) = Inr path"
        "bind_res (syscall_arg (st_tracee ev) 1) (\<lambda>w. Inr (ucast w)) = Inr flags"
        by (rule fetch_open)
      have got: "bind_res (argument_at c' 0) argument_string = Inr path"
        "bind_res (argument_at c' 1) argument_int = Inr flags"
        using args by (simp_all add: argument_at_def argument_string_def)
      have "open_entry (st_inode ev) c' (fl_client f) = Inr (True, x)"
        using checked_call is_open keeps by (auto simp: file_call_def split: sum.splits)
      note checked = open_entry_checked [OF this got]
      have tried: "exclusive flags \<Longrightarrow> tried_to_create fuel evs path"
        using regs is_open call ev by (auto simp: tried_to_create_def opens_def)
      from checked have "may_open fuel inode allowed evs c'"
        unfolding may_open_def using got get_permissions_granted [OF tables ev] by blast
      moreover have "tables_ok fuel inode allowed evs x"
        using checked tables tried by (auto simp: tables_ok_def)
      ultimately show ?thesis using allowed_call signed keeps by (simp add: may_run_def)
    qed
    then show ?thesis using tracer f' by simp
  qed
qed

text \<open>After a call the tables stay right; the process itself is forgotten right after.\<close>

lemma sandbox_exit_keeps:
  assumes "sandbox_exit ev pid f = (Inr u, f')" and "tables_ok fuel inode allowed evs (fl_client f)" and "ev \<in> set evs"
  shows "tables_ok fuel inode allowed evs (fl_client f') \<and> (\<forall>q. tracer_of f' q = tracer_of f q)"
proof -
  have "open_exit (st_inode ev) c (fl_client f) = Inr x \<Longrightarrow> tables_ok fuel inode allowed evs x" for c x
    using assms(2,3) tables_ok_created [OF assms(2) _ assms(3)]
    by (auto simp: open_exit_def split: if_splits option.splits) (auto simp: tables_ok_def)
  then show ?thesis
    using assms(1,2) by (auto simp: sandbox_exit_def split: if_splits sum.splits)
qed

section \<open>The loop keeps the invariant\<close>

lemma calls_ok_except:
  assumes "calls_ok fuel inode allowed evs {pid} f"
    and "\<And>t c. tracer_of f pid = Some t \<Longrightarrow> pt_invocation t = Some c \<Longrightarrow> may_run fuel inode allowed evs c"
  shows "calls_ok fuel inode allowed evs {} f"
  using assms by (auto simp: calls_ok_def)

lemma calls_ok_tracers:
  assumes "calls_ok fuel inode allowed evs B f"
    and "\<And>q t'. q \<notin> B \<Longrightarrow> tracer_of f' q = Some t' \<Longrightarrow>
           pt_invocation t' = None \<or> (\<exists>t. tracer_of f q = Some t \<and> pt_invocation t' = pt_invocation t)"
  shows "calls_ok fuel inode allowed evs B f'"
  using assms unfolding calls_ok_def by (metis option.distinct(1))

lemma at_entry_ok:
  assumes table: "table 2 = Some open_signature"
    and run: "at_entry table (sandbox_callbacks table fuel) ev pid f = (Inr over, f')"
    and "flock_ok fuel inode allowed evs f" and "ev \<in> set evs" and "tracer_of f pid = Some t"
  shows "flock_ok fuel inode allowed evs f'"
proof -
  let ?call = "tr_orig_rax (st_tracee ev)"
  obtain c f1 where c: "new_invocation table ?call = Inr c"
    and entry: "sandbox_entry table fuel ev pid (on_tracer pid (\<lambda>t. t\<lparr>pt_invocation := Some c\<rparr>) f) = (Inr (), f1)"
    and rest: "f' = f1 \<or> (\<exists>rs. f' = (on_tracer pid (\<lambda>t. t\<lparr>pt_pause := False\<rparr>) f1)\<lparr>fl_requests := rs\<rparr>)"
    using assms(2) by (auto simp: at_entry_def sandbox_callbacks_def split: option.splits if_splits)
  have sig: "sg = open_signature" if "si_call c = SYS_open" "si_signature c = Some sg" for sg
    using c that table new_invocation_fields [OF c]
    by (auto simp: new_invocation_def syscall_signature_of_def SYS_open_def split: if_splits)
  from table entry have "tables_ok fuel inode allowed evs (fl_client f1) \<and>
    (\<exists>t'. tracer_of f1 pid = Some t' \<and> (\<forall>c'. pt_invocation t' = Some c' \<longrightarrow> may_run fuel inode allowed evs c')) \<and>
    (\<forall>q. q \<noteq> pid \<longrightarrow> tracer_of f1 q = tracer_of (on_tracer pid (\<lambda>t. t\<lparr>pt_invocation := Some c\<rparr>) f) q)"
    by (rule sandbox_entry_checked)
      (use assms sig new_invocation_fields [OF c] in \<open>auto simp: flock_ok_def\<close>)
  then have "flock_ok fuel inode allowed evs f1"
    using assms(3) unfolding flock_ok_def calls_ok_def by (metis tracer_of_on_tracer option.inject)
  then show ?thesis using rest by (auto simp: flock_ok_def calls_ok_def split: if_splits)
qed

lemma at_exit_ok:
  assumes "at_exit (sandbox_callbacks table fuel) ev pid f = (Inr over, f')"
    and "flock_ok fuel inode allowed evs f" and "ev \<in> set evs"
  shows "flock_ok fuel inode allowed evs f'"
proof -
  obtain ret f1 where exit: "sandbox_exit ev pid (on_tracer pid (\<lambda>t. t\<lparr>pt_invocation :=
        map_option (\<lambda>c. c\<lparr>si_return := Some ret\<rparr>) (pt_invocation t)\<rparr>) f) = (Inr (), f1)"
    and f': "\<exists>rs. f' = (on_tracer pid (\<lambda>t. t\<lparr>pt_pause := False\<rparr>)
        (on_tracer pid (\<lambda>t. t\<lparr>pt_invocation := None\<rparr>) f1))\<lparr>fl_requests := rs\<rparr>"
    using assms(1) by (auto simp: at_exit_def sandbox_callbacks_def)
  show ?thesis
    using sandbox_exit_keeps [OF exit _ assms(3)] assms(2) f'
    by (auto simp: flock_ok_def calls_ok_def split: if_splits)
qed

lemma handle_one_event_ok:
  assumes table: "table 2 = Some open_signature"
    and run: "handle_one_event table (sandbox_callbacks table fuel) ev pid t f = (Inr over, f')"
    and "flock_ok fuel inode allowed evs f" and "ev \<in> set evs" and "tracer_of f pid = Some t"
  shows "flock_ok fuel inode allowed evs f'"
proof -
  have *: "flock_ok fuel inode allowed evs f'" if "at_trap ev pid n f = (Inr over, f')" for n
    using that assms(3) by (auto simp: at_trap_def Let_def flock_ok_def calls_ok_def split: if_splits)
  consider (stop) "wi_status (st_one ev) = SIGSTOP" | (trap) n where "at_trap ev pid n f = (Inr over, f')"
    | (entry) "at_entry table (sandbox_callbacks table fuel) ev pid f = (Inr over, f')"
    | (exit) "at_exit (sandbox_callbacks table fuel) ev pid f = (Inr over, f')"
    | (signal) sig where "resume_tracer ev pid sig f = (Inr (), f')"
    using assms(2) by (auto simp: handle_one_event_def Let_def split: if_splits)
  then show ?thesis
  proof cases
    case stop
    then show ?thesis using assms(2,3)
      by (auto simp: handle_one_event_def flock_ok_def calls_ok_def Let_def split: if_splits)
  next
    case signal
    then show ?thesis using assms(3) by (auto simp: flock_ok_def calls_ok_def split: if_splits)
  next
    case trap
    then show ?thesis by (rule *)
  next
    case entry
    from table this assms(3-5) show ?thesis by (rule at_entry_ok)
  next
    case exit
    from this assms(3,4) show ?thesis by (rule at_exit_ok)
  qed
qed

lemma child_event_ok:
  assumes "child_event ev pid f = (Inr u, f')" and "flock_ok fuel inode allowed evs f"
  shows "flock_ok fuel inode allowed evs f'"
  using assms
  by (auto simp: child_event_def wake_waiting_def modify_def flock_ok_def calls_ok_def Let_def
      split: option.splits sum.splits if_splits)

lemma flock_insert_ok:
  assumes "flock_insert pid f = (Inr u, f1)" and "flock_ok fuel inode allowed evs f"
  shows "flock_ok fuel inode allowed evs f1"
  using assms
  by (auto simp: flock_insert_def flock_ok_def calls_ok_def new_process_tracer_def split: if_splits)

lemma tracee_event_parts:
  assumes "tracee_event table cb ev pid f = (Inr u, f')" and "flock_ok fuel inode allowed evs f"
  obtains f1 t over f2 where "flock_ok fuel inode allowed evs f1" and "tracer_of f1 pid = Some t"
    and "handle_one_event table cb ev pid t f1 = (Inr over, f2)"
    and "fl_client f' = fl_client f2" and "\<forall>q t. tracer_of f' q = Some t \<longrightarrow> tracer_of f2 q = Some t"
proof -
  obtain f1 where "flock_ok fuel inode allowed evs f1"
    and "(case tracer_of f1 pid of None \<Rightarrow> (Inl (Out_of_range ''map::at''), f1)
       | Some t \<Rightarrow> and_then (handle_one_event table cb ev pid t) (\<lambda>over.
             if over then flock_remove ev pid else give ()) f1) = (Inr u, f')"
    using assms unfolding tracee_event_def and_then_Inr
    by (auto split: if_splits simp del: and_then_Inr dest: flock_insert_ok)
  then obtain t over f2 where "flock_ok fuel inode allowed evs f1" "tracer_of f1 pid = Some t"
      "handle_one_event table cb ev pid t f1 = (Inr over, f2)"
    and rest: "(if over then flock_remove ev pid else give ()) f2 = (Inr u, f')"
    by (auto split: option.splits simp del: flock_remove_returns)
  moreover have "fl_client f' = fl_client f2" "tracer_of f' q = Some t' \<Longrightarrow> tracer_of f2 q = Some t'" for q t'
    using rest by (auto split: if_splits)
  ultimately show thesis using that by blast
qed

lemma flock_step_ok:
  assumes table: "table 2 = Some open_signature"
    and run: "flock_step table (sandbox_callbacks table fuel) ev f = (Inr u, f')"
    and "flock_ok fuel inode allowed evs f"
  shows "flock_ok fuel inode allowed (evs @ [ev]) f'"
proof -
  have ok: "flock_ok fuel inode allowed (evs @ [ev]) f"
    using assms(3) tables_ok_mono calls_ok_mono by (auto simp: flock_ok_def)
  show ?thesis
  proof (cases "wi_code (st_any ev) = CLD_TRAPPED")
    case False
    then show ?thesis using assms(2) ok child_event_ok by (auto simp: flock_step_def Let_def split: if_splits)
  next
    case True
    let ?pid = "wi_pid (st_any ev)"
    have "tracee_event table (sandbox_callbacks table fuel) ev ?pid f = (Inr u, f')"
      using run True by (simp add: flock_step_def Let_def split: if_splits)
    then obtain f1 t over f2 where f1: "flock_ok fuel inode allowed (evs @ [ev]) f1" and t: "tracer_of f1 ?pid = Some t"
      and step: "handle_one_event table (sandbox_callbacks table fuel) ev ?pid t f1 = (Inr over, f2)"
      and rest: "fl_client f' = fl_client f2" "\<forall>q t. tracer_of f' q = Some t \<longrightarrow> tracer_of f2 q = Some t"
      using ok by (rule tracee_event_parts)
    have "ev \<in> set (evs @ [ev])" by simp
    with table step f1 have "flock_ok fuel inode allowed (evs @ [ev]) f2" using t by (rule handle_one_event_ok)
    then show ?thesis unfolding flock_ok_def calls_ok_def using rest by metis
  qed
qed

lemma loop_ok:
  assumes table: "table 2 = Some open_signature"
    and run: "loop_until_all_done table (sandbox_callbacks table fuel) evs' f = (Inr over, f')"
    and "flock_ok fuel inode allowed evs f"
  shows "\<exists>n. flock_ok fuel inode allowed (evs @ take n evs') f'"
  using run assms(3)
proof (induction evs' arbitrary: f evs)
  case Nil
  then show ?case by (auto split: if_splits)
next
  case (Cons ev evs')
  show ?case
  proof (cases "all_done f")
    case True
    then show ?thesis using Cons.prems by (auto intro: exI [of _ 0])
  next
    case False
    then obtain f1 where step: "flock_step table (sandbox_callbacks table fuel) ev f = (Inr (), f1)"
      and rest: "loop_until_all_done table (sandbox_callbacks table fuel) evs' f1 = (Inr over, f')"
      using Cons.prems(1) by auto
    from Cons.IH [OF rest flock_step_ok [of table, OF table step Cons.prems(2)]] obtain n where
      "flock_ok fuel inode allowed ((evs @ [ev]) @ take n evs') f'" by blast
    then show ?thesis by (intro exI [of _ "Suc n"]) simp
  qed
qed

section \<open>What the sandbox guarantees\<close>

lemma new_flock_ok: "flock_ok fuel inode allowed [] (new_flock pid (new_sandbox inode allowed))"
proof -
  have "tracer_of (new_flock pid x) q = (if q = pid then Some new_process_tracer else None)" for x :: sandbox and q
    by (simp add: tracer_of_def new_flock_def del: tracer_of_alist)
  then show ?thesis
    using new_sandbox_ok by (simp add: flock_ok_def calls_ok_def new_process_tracer_def) (simp add: new_flock_def)
qed

lemma flock_ok_take: "flock_ok fuel inode allowed (take n evs) f \<Longrightarrow> flock_ok fuel inode allowed evs f"
  by (metis append_take_drop_id calls_ok_mono flock_ok_def tables_ok_mono)

text \<open>C28: while a sandboxed program runs, every process that is inside a system call is inside one that was
  checked: never one of the forbidden calls, never one the table does not know; and if it is an \<open>open\<close>, it
  creates the file exclusively, or a permission that covers the access was granted, to the path or to its
  inode, by the table or by an earlier attempt to create such a file.\<close>

theorem sandbox_confines:
  assumes "table 2 = Some open_signature"
    and "run_sandboxed table fuel inode allowed pid evs = (Inr over, f)"
    and "tracer_of f q = Some t" and "pt_invocation t = Some c"
  shows "si_call c \<notin> set forbidden_calls \<and> si_signature c \<noteq> None \<and>
    (si_call c = SYS_open \<longrightarrow>
       (\<exists>path flags. bind_res (argument_at c 0) argument_string = Inr path \<and>
          bind_res (argument_at c 1) argument_int = Inr flags \<and>
          (exclusive flags \<or> (\<exists>perm. granted fuel inode allowed evs path perm \<and> covers perm flags))))"
proof -
  have "flock_ok fuel inode allowed evs f"
    using loop_ok [of table, OF assms(1) assms(2) [unfolded run_sandboxed_def] new_flock_ok] flock_ok_take
    by (metis append_Nil)
  then have "may_run fuel inode allowed evs c" using assms(3,4) unfolding flock_ok_def calls_ok_def by blast
  then show ?thesis unfolding may_run_def may_open_def .
qed

section \<open>Small runs\<close>

definition toy_table :: signature_table where
  "toy_table n = (if n = 2 then Some open_signature else if n = 76 then Some truncate_signature else None)"

definition toy_call :: "64 word \<Rightarrow> 64 word \<Rightarrow> tracee" where
  "toy_call flags ret = \<lparr>tr_args = [0, flags, 0, 0, 0, 0], tr_orig_rax = 2, tr_rax = ret, tr_peek = (\<lambda>_. Some 97),
     tr_message = 0\<rparr>"

definition stopped_with :: "int \<Rightarrow> nat \<Rightarrow> tracee \<Rightarrow> (string \<Rightarrow> (nat \<times> nat) option) \<Rightarrow> stop" where
  "stopped_with pid status p inode =
     (let info = \<lparr>wi_pid = pid, wi_child = True, wi_code = CLD_TRAPPED, wi_status = status\<rparr>
      in \<lparr>st_any = info, st_one = info, st_tracee = p, st_stopped = (\<lambda>_. True), st_inode = inode\<rparr>)"

theorem sandbox_confines_witness:
  "\<exists>f t c. run_sandboxed toy_table 1 (\<lambda>_. None) [(''a'', perms True False False)] 7
      [stopped_with 7 SIGSTOP (toy_call 0 0) (\<lambda>_. None), stopped_with 7 133 (toy_call 0 0) (\<lambda>_. None)] = (Inr False, f) \<and>
    tracer_of f 7 = Some t \<and> pt_invocation t = Some c \<and> si_call c = SYS_open \<and>
    si_call c \<notin> set forbidden_calls \<and> si_signature c \<noteq> None"
proof -
  let ?r = "run_sandboxed toy_table 1 (\<lambda>_. None) [(''a'', perms True False False)] 7
      [stopped_with 7 SIGSTOP (toy_call 0 0) (\<lambda>_. None), stopped_with 7 133 (toy_call 0 0) (\<lambda>_. None)]"
  have "(case ?r of (Inl _, _) \<Rightarrow> None | (Inr over, f) \<Rightarrow> (case tracer_of f 7 of None \<Rightarrow> None | Some t \<Rightarrow>
      (case pt_invocation t of None \<Rightarrow> None | Some c \<Rightarrow> if over then None else Some (si_call c)))) = Some SYS_open"
    by code_simp
  then obtain f t c where run: "?r = (Inr False, f)" "tracer_of f 7 = Some t" "pt_invocation t = Some c" "si_call c = SYS_open"
    by (auto split: prod.splits sum.splits option.splits if_splits)
  have "toy_table 2 = Some open_signature" by (simp add: toy_table_def)
  from sandbox_confines [of toy_table, OF this run(1-3)] show ?thesis using run by blast
qed

end
