(* ===== verification/SandboxLimits.thy ===== *)
theory SandboxLimits
  imports SandboxLaws
begin

text \<open>
  What a string read from a traced process is, and where the sandbox ends: calls that only need some
  permission, creations that fail, and what the destructors do with a process whose call was refused.
\<close>

section \<open>Strings in the memory of a process\<close>

text \<open>\<open>mem\<close> are the bytes from \<open>address\<close> on, as far as the words of the string reach.\<close>

definition holds_bytes :: "(64 word \<Rightarrow> 64 word option) \<Rightarrow> 64 word \<Rightarrow> string \<Rightarrow> nat \<Rightarrow> bool" where
  "holds_bytes peek address mem n \<longleftrightarrow>
     (\<forall>k \<le> n. \<exists>w. peek (address + of_nat (4 * k)) = Some w \<and> int_bytes w = take 4 (drop (4 * k) mem))"

lemma holds_bytes_step:
  assumes "holds_bytes peek address mem (Suc n)"
  shows "holds_bytes peek (address + 4) (drop 4 mem) n"
  unfolding holds_bytes_def
proof (intro allI impI)
  fix k
  assume "k \<le> n"
  then obtain w where "peek (address + of_nat (4 * Suc k)) = Some w" "int_bytes w = take 4 (drop (4 * Suc k) mem)"
    using assms unfolding holds_bytes_def by (metis Suc_le_mono)
  then show "\<exists>w. peek (address + 4 + of_nat (4 * k)) = Some w \<and> int_bytes w = take 4 (drop (4 * k) (drop 4 mem))"
    by (intro exI [of _ w]) (simp add: algebra_simps)
qed

text \<open>A string that ends with a null byte is read in as many steps as its words.\<close>

lemma read_string_holds:
  assumes "holds_bytes peek address (s @ CHR 0x00 # rest) (length s div 4)" and "CHR 0x00 \<notin> set s"
    and "length s div 4 < fuel"
  shows "read_string fuel peek address = Inr s"
  using assms
proof (induction fuel arbitrary: s address)
  case 0
  then show ?case by simp
next
  case (Suc fuel)
  let ?mem = "s @ CHR 0x00 # rest"
  obtain w where w: "peek address = Some w" "int_bytes w = take 4 ?mem"
    using Suc.prems(1) by (force simp: holds_bytes_def)
  show ?case
  proof (cases "length s < 4")
    case True
    then obtain n where "take 4 ?mem = s @ CHR 0x00 # take n rest" by (cases "4 - length s") auto
    moreover have "takeWhile (\<lambda>c. c \<noteq> CHR 0x00) (s @ CHR 0x00 # take n rest) = s"
      using Suc.prems(2) by (subst takeWhile_append2) auto
    ultimately have "takeWhile (\<lambda>c. c \<noteq> CHR 0x00) (take 4 ?mem) = s" by simp
    then show ?thesis using w True by simp
  next
    case False
    then have parts: "take 4 ?mem = take 4 s" "drop 4 ?mem = drop 4 s @ CHR 0x00 # rest" by simp_all
    have whole: "takeWhile (\<lambda>c. c \<noteq> CHR 0x00) (take 4 s) = take 4 s"
      using Suc.prems(2) by (auto simp: takeWhile_eq_all_conv dest: in_set_takeD)
    have "read_string fuel peek (address + 4) = Inr (drop 4 s)"
    proof (rule Suc.IH)
      have "length s div 4 = Suc (length (drop 4 s) div 4)" using False by simp
      then show "holds_bytes peek (address + 4) (drop 4 s @ CHR 0x00 # rest) (length (drop 4 s) div 4)"
        using holds_bytes_step Suc.prems(1) parts(2) by metis
      show "CHR 0x00 \<notin> set (drop 4 s)" using Suc.prems(2) by (auto dest: in_set_dropD)
      show "length (drop 4 s) div 4 < fuel" using Suc.prems(3) False by simp
    qed
    then show ?thesis using w parts(1) False by (simp add: whole)
  qed
qed

section \<open>Calls other than open, rename and execve\<close>

lemma file_syscall_entry_spec:
  assumes "\<And>arg. arg \<in> set args \<Longrightarrow> ai_flags (ar_info arg) AND ARGUMENT_F_PATHNAME \<noteq> 0 \<Longrightarrow> ar_string arg \<noteq> None"
  shows "file_syscall_entry inode args x =
    Inr (\<forall>arg \<in> set args. ai_flags (ar_info arg) AND ARGUMENT_F_PATHNAME \<noteq> 0 \<longrightarrow>
           get_permissions inode (the (ar_string arg)) x \<noteq> None)"
  using assms
proof (induction args)
  case (Cons a args)
  have IH: "file_syscall_entry inode args x =
      Inr (\<forall>arg \<in> set args. ai_flags (ar_info arg) AND ARGUMENT_F_PATHNAME \<noteq> 0 \<longrightarrow>
             get_permissions inode (the (ar_string arg)) x \<noteq> None)"
    using Cons by simp
  show ?case
  proof (cases "ai_flags (ar_info a) AND ARGUMENT_F_PATHNAME = 0")
    case False
    then obtain path where "ar_string a = Some path" using Cons.prems [of a] by auto
    then show ?thesis using IH False by (simp add: argument_string_def)
  qed (use IH in simp)
qed simp

text \<open>A call with paths other than \<open>open\<close>, \<open>rename\<close> and \<open>execve\<close> passes exactly when each path has some
  permission, whichever: a file that may only be read may be truncated, unlinked or get another mode.\<close>

lemma path_calls_need_any_permission:
  assumes "si_call c \<noteq> SYS_open" and "si_call c \<noteq> SYS_rename" and "si_call c \<noteq> SYS_execve"
    and "si_arguments c = Some args"
    and "\<And>arg. arg \<in> set args \<Longrightarrow> ai_flags (ar_info arg) AND ARGUMENT_F_PATHNAME \<noteq> 0 \<Longrightarrow> ar_string arg \<noteq> None"
  shows "file_call inode c x = (Inr (), x) \<longleftrightarrow>
    (\<forall>arg \<in> set args. ai_flags (ar_info arg) AND ARGUMENT_F_PATHNAME \<noteq> 0 \<longrightarrow>
       get_permissions inode (the (ar_string arg)) x \<noteq> None)"
  using assms(1-4) file_syscall_entry_spec [OF assms(5)] by (simp add: file_call_def)

definition toy_truncate :: syscall_invocation where
  "toy_truncate = \<lparr>si_call = 76, si_signature = Some truncate_signature, si_arguments =
     Some [\<lparr>ar_info = path_argument, ar_raw = 0, ar_string = Some ''a'', ar_long = Some 0\<rparr>], si_return = None\<rparr>"

lemma path_calls_need_any_permission_witness:
  "file_call (\<lambda>_. None) toy_truncate (new_sandbox (\<lambda>_. None) [(''a'', perms True False False)]) =
     (Inr (), new_sandbox (\<lambda>_. None) [(''a'', perms True False False)])"
proof -
  let ?x = "new_sandbox (\<lambda>_. None) [(''a'', perms True False False)]"
  let ?a = "\<lparr>ar_info = path_argument, ar_raw = 0, ar_string = Some ''a'', ar_long = Some 0\<rparr>"
  have args: "si_arguments toy_truncate = Some [?a]" by (simp add: toy_truncate_def)
  have known: "get_permissions (\<lambda>_. None) ''a'' ?x \<noteq> None"
    by (simp add: new_sandbox_def allow_file_def get_permissions_def)
  have "(file_call (\<lambda>_. None) toy_truncate ?x = (Inr (), ?x)) \<longleftrightarrow>
      (\<forall>arg \<in> set [?a]. ai_flags (ar_info arg) AND ARGUMENT_F_PATHNAME \<noteq> 0 \<longrightarrow>
         get_permissions (\<lambda>_. None) (the (ar_string arg)) ?x \<noteq> None)"
    using args by (intro path_calls_need_any_permission)
      (auto simp: toy_truncate_def SYS_open_def SYS_rename_def SYS_execve_def)
  then show ?thesis using known by auto
qed

section \<open>A creation that fails\<close>

definition EEXIST :: "64 word" where "EEXIST = 17"

lemma fetch_open_total:
  assumes "table 2 = Some open_signature" and "si_call c = SYS_open" and "length (tr_args p) = 6"
    and "bind_res (syscall_arg p 0) (read_string fuel (tr_peek p)) = Inr path"
    and "bind_res (syscall_arg p 1) (\<lambda>w. Inr (ucast w)) = Inr flags"
  obtains c' where "fetch_arguments table fuel p c = Inr c'" and "si_call c' = SYS_open"
    and "bind_res (argument_at c' 0) argument_string = Inr path" and "bind_res (argument_at c' 1) argument_int = Inr flags"
proof -
  have "syscall_signature_of table (si_call c) = Inr open_signature"
    using assms(1,2) by (simp add: syscall_signature_of_def SYS_open_def)
  moreover have "is_readable_string path_argument" "\<not> is_readable_string (plain_argument ''int'')"
    "\<not> is_readable_string (plain_argument ''mode_t'')"
    by (simp_all add: is_readable_string_def path_argument_def plain_argument_def)
  ultimately show thesis
    using assms that
    by (auto simp: fetch_arguments_def open_signature_def fetch_argument_def argument_at_def argument_string_def
        argument_int_def syscall_arg_def enumerate_eq_zip)
qed

lemma start_step:
  assumes "tracer_of f pid = Some t" and "\<not> pt_options_set t" and "pid \<noteq> 0"
  shows "\<exists>f'. flock_step table cb (stopped_with pid SIGSTOP p inode) f = (Inr (), f') \<and> fl_client f' = fl_client f \<and>
    tracer_of f' pid = Some (t\<lparr>pt_options_set := True, pt_pause := False\<rparr>)"
  using assms
  by (auto simp: flock_step_def tracee_event_def stopped_with_def handle_one_event_def Let_def)

lemma create_step:
  assumes "table 2 = Some open_signature" and "length (tr_args p) = 6" and "opens fuel p path flags"
    and "exclusive flags" and "get_permissions inode path (fl_client f) = None"
    and "tracer_of f pid = Some t" and "pt_invocation t = None" and "\<not> pt_detach t" and "\<not> pt_pause t" and "pid \<noteq> 0"
  shows "\<exists>f' t' c. flock_step table (sandbox_callbacks table fuel) (stopped_with pid (SIGTRAP + 128) p inode) f = (Inr (), f') \<and>
    fl_client f' = (fl_client f)\<lparr>sx_candidates := insert path (sx_candidates (fl_client f))\<rparr> \<and>
    tracer_of f' pid = Some t' \<and> pt_invocation t' = Some c \<and> si_call c = SYS_open \<and>
    bind_res (argument_at c 0) argument_string = Inr path"
proof -
  have "table (unat SYS_open) = Some open_signature" using assms(1) by (simp add: SYS_open_def)
  then obtain c where new: "new_invocation table SYS_open = Inr c" "si_signature c = Some open_signature" "si_call c = SYS_open"
    by (simp add: new_invocation_def syscall_signature_of_def open_signature_def)
  obtain c' where fetch: "fetch_arguments table fuel p c = Inr c'" "si_call c' = SYS_open"
    and args: "bind_res (argument_at c' 0) argument_string = Inr path" "bind_res (argument_at c' 1) argument_int = Inr flags"
    using fetch_open_total [of table c p fuel path flags] assms(1-3) new(3) by (auto simp: opens_def)
  have guards: "SYS_open \<notin> set forbidden_calls" "ss_flags open_signature AND TRACE_FILE \<noteq> 0"
    by (simp_all add: SYS_open_def forbidden_calls_def open_signature_def TRACE_DESC_def TRACE_FILE_def)
  let ?x = "(fl_client f)\<lparr>sx_candidates := insert path (sx_candidates (fl_client f))\<rparr>"
  have "open_entry inode c' (fl_client f) = Inr (True, ?x)"
    unfolding open_entry_def args using assms(4,5) by (simp add: exclusive_def)
  then have call: "file_call inode c' (fl_client f) = (Inr (), ?x)" by (simp add: file_call_def fetch(2))
  obtain arg where arg: "argument_at c' 0 = Inr arg" "argument_string arg = Inr path" using args(1) by auto
  have rax: "tr_orig_rax p = SYS_open" using assms(3) by (simp add: opens_def)
  show ?thesis
    using assms(6-10) new fetch guards call rax arg
    by (auto simp: flock_step_def tracee_event_def stopped_with_def handle_one_event_def Let_def at_entry_def
        sandbox_callbacks_def sandbox_entry_def the_invocation_def ptrace_numbers)
qed

lemma fail_step:
  assumes "tracer_of f pid = Some t" and "pt_invocation t = Some c" and "si_call c = SYS_open"
    and "bind_res (argument_at c 0) argument_string = Inr path" and "path \<in> sx_candidates (fl_client f)"
    and "tr_rax p \<noteq> - 1" and "pid \<noteq> 0"
  shows "\<exists>f'. flock_step table (sandbox_callbacks table fuel) (stopped_with pid (SIGTRAP + 128) p inode) f = (Inr (), f') \<and>
    fl_client f' = allow_file inode path (perms True True True)
       ((fl_client f)\<lparr>sx_candidates := sx_candidates (fl_client f) - {path}\<rparr>) \<and> tracer_of f' pid \<noteq> None"
proof -
  let ?c = "c\<lparr>si_return := Some (tr_rax p)\<rparr>"
  obtain arg where "argument_at ?c 0 = Inr arg" "argument_string arg = Inr path"
    using assms(4) by (auto simp: argument_at_def)
  then have "open_exit inode ?c (fl_client f) = Inr (allow_file inode path (perms True True True)
       ((fl_client f)\<lparr>sx_candidates := sx_candidates (fl_client f) - {path}\<rparr>))"
    using assms(5,6) by (simp add: open_exit_def)
  then show ?thesis
    using assms(1-3,7)
    by (auto simp: flock_step_def tracee_event_def stopped_with_def handle_one_event_def Let_def at_exit_def
        sandbox_callbacks_def sandbox_exit_def the_invocation_def ptrace_numbers)
qed

text \<open>C30: a creation that fails grants every permission: the code compares the result of the call with -1,
  but what it reads is minus the error number, here that the file exists. Whatever the table says, after
  one exclusive creation of a path that it does not hold the path may be read, written and executed.\<close>

theorem failed_creation_grants:
  assumes "table 2 = Some open_signature" and "length (tr_args p1) = 6" and "opens fuel p1 path flags"
    and "exclusive flags" and "get_permissions inode1 path (new_sandbox inode allowed) = None"
    and "tr_rax p2 = - EEXIST" and "pid \<noteq> 0"
  shows "\<exists>f. run_sandboxed table fuel inode allowed pid
      [stopped_with pid SIGSTOP p0 inode0, stopped_with pid (SIGTRAP + 128) p1 inode1,
       stopped_with pid (SIGTRAP + 128) p2 inode2] = (Inr False, f) \<and>
    (\<forall>inode'. get_permissions inode' path (fl_client f) = Some (perms True True True))"
proof -
  let ?cb = "sandbox_callbacks table fuel"
  let ?f = "new_flock pid (new_sandbox inode allowed)"
  have t: "tracer_of ?f pid = Some new_process_tracer" by (simp add: tracer_of_def new_flock_def del: tracer_of_alist)
  obtain f1 where f1: "flock_step table ?cb (stopped_with pid SIGSTOP p0 inode0) ?f = (Inr (), f1)"
    "fl_client f1 = new_sandbox inode allowed"
    "tracer_of f1 pid = Some (new_process_tracer\<lparr>pt_options_set := True, pt_pause := False\<rparr>)"
    using start_step [OF t _ assms(7)] by (fastforce simp: new_process_tracer_def new_flock_def)
  have "get_permissions inode1 path (fl_client f1) = None" using assms(5) f1(2) by simp
  note create_step [of table, OF assms(1-4) this f1(3)]
  then have "\<exists>f2 t2 c. flock_step table ?cb (stopped_with pid (SIGTRAP + 128) p1 inode1) f1 = (Inr (), f2) \<and>
      fl_client f2 = (fl_client f1)\<lparr>sx_candidates := insert path (sx_candidates (fl_client f1))\<rparr> \<and>
      tracer_of f2 pid = Some t2 \<and> pt_invocation t2 = Some c \<and> si_call c = SYS_open \<and>
      bind_res (argument_at c 0) argument_string = Inr path"
    using assms(7) by (simp add: new_process_tracer_def)
  from this f1(2) obtain f2 t2 c where f2: "flock_step table ?cb (stopped_with pid (SIGTRAP + 128) p1 inode1) f1 = (Inr (), f2)"
    "path \<in> sx_candidates (fl_client f2)" "tracer_of f2 pid = Some t2" "pt_invocation t2 = Some c" "si_call c = SYS_open"
    "bind_res (argument_at c 0) argument_string = Inr path"
    by (elim exE conjE) simp
  have "tr_rax p2 \<noteq> - 1" by (simp add: assms(6) EEXIST_def)
  then obtain f3 where f3: "flock_step table ?cb (stopped_with pid (SIGTRAP + 128) p2 inode2) f2 = (Inr (), f3)"
    "fl_client f3 = allow_file inode2 path (perms True True True)
       ((fl_client f2)\<lparr>sx_candidates := sx_candidates (fl_client f2) - {path}\<rparr>)" "tracer_of f3 pid \<noteq> None"
    using fail_step [OF f2(3-6,2) _ assms(7)] by blast
  have go_on: "\<not> all_done f" if "tracer_of f pid \<noteq> None" for f :: "sandbox flock"
    using that by (auto simp: all_done_def tracer_of_def simp del: tracer_of_alist)
  have "run_sandboxed table fuel inode allowed pid
      [stopped_with pid SIGSTOP p0 inode0, stopped_with pid (SIGTRAP + 128) p1 inode1,
       stopped_with pid (SIGTRAP + 128) p2 inode2] = (Inr False, f3)"
    using go_on [of ?f] go_on [of f1] go_on [of f2] go_on [of f3] f1 f2 f3 t by (simp add: run_sandboxed_def)
  moreover have "get_permissions inode' path (fl_client f3) = Some (perms True True True)" for inode'
    by (simp add: f3(2) get_permissions_def allow_file_def Let_def split: option.splits)
  ultimately show ?thesis by blast
qed

theorem failed_creation_grants_witness:
  "\<exists>f. run_sandboxed toy_table 1 (\<lambda>_. None) [] 7
      [stopped_with 7 SIGSTOP (toy_call 193 0) (\<lambda>_. None), stopped_with 7 (SIGTRAP + 128) (toy_call 193 0) (\<lambda>_. None),
       stopped_with 7 (SIGTRAP + 128) (toy_call 193 (- EEXIST)) (\<lambda>_. None)] = (Inr False, f) \<and>
    (\<forall>inode'. get_permissions inode' ''a'' (fl_client f) = Some (perms True True True))"
proof (rule failed_creation_grants)
  show "opens 1 (toy_call 193 0) ''a'' 193" by code_simp
  show "exclusive 193" by code_simp
qed (simp_all add: toy_table_def toy_call_def get_permissions_def new_sandbox_def)

section \<open>The children of a sandbox\<close>

text \<open>A sandbox has one child, the process it started, until that process has ended: the processes that
  are traced besides are children of that one.\<close>

definition keeps_children :: "('s flock, 'a) traced \<Rightarrow> bool" where
  "keeps_children m \<longleftrightarrow> (\<forall>f. fl_children (snd (m f)) = fl_children f)"

lemma keeps_children_calls:
  "keeps_children (give x)" "keeps_children (raise_error e)" "keeps_children (pure_res h)"
  "keeps_children (ptrace ev name pid req)" "keeps_children (peek_user ev pid reg)"
  "keeps_children (update_tracer pid g)" "keeps_children (flock_insert pid)" "keeps_children (flock_remove ev pid)"
  by (simp_all add: keeps_children_def traced_base_simps ptrace_def peek_user_def update_tracer_def flock_insert_def
      flock_remove_def destroy_tracer_def)

lemma keeps_children_and_then:
  assumes "keeps_children m" and "\<And>x. keeps_children (k x)"
  shows "keeps_children (and_then m k)"
  using assms by (auto simp: keeps_children_def and_then_def split: prod.splits sum.splits) (metis snd_conv)+

lemma keeps_children_if: "keeps_children m \<Longrightarrow> keeps_children n \<Longrightarrow> keeps_children (if b then m else n)"
  by simp

lemma keeps_children_resume: "keeps_children (resume_tracer ev pid sig)"
  by (simp add: resume_tracer_def keeps_children_and_then keeps_children_calls)

lemmas keeps_children_intros = keeps_children_calls keeps_children_and_then keeps_children_if keeps_children_resume

lemma sandbox_entry_children: "keeps_children (sandbox_entry table fuel ev pid)"
proof -
  have "keeps_children (\<lambda>f. case file_call inode c (fl_client f) of (r, x) \<Rightarrow> (r, f\<lparr>fl_client := x\<rparr>))"
    for inode c by (simp add: keeps_children_def split: prod.splits)
  then show ?thesis
    unfolding sandbox_entry_def
    by (intro keeps_children_and_then keeps_children_calls)
      (auto intro!: keeps_children_intros split: option.splits)
qed

lemma sandbox_exit_children: "keeps_children (sandbox_exit ev pid)"
  by (simp add: sandbox_exit_def keeps_children_def and_then_def pure_res_def split: prod.splits sum.splits)

lemma keeps_children_go: "keeps_children (and_then (resume_tracer ev pid 0) (\<lambda>_. give False))"
  by (intro keeps_children_intros)

lemma keeps_childrenD: "keeps_children m \<Longrightarrow> fl_children (snd (m f)) = fl_children f"
  by (simp add: keeps_children_def)

lemma keeps_children_tracer:
  assumes "\<And>t. keeps_children (k t)"
  shows "keeps_children (\<lambda>f. case tracer_of f pid of None \<Rightarrow> (Inl e, f) | Some t \<Rightarrow> k t f)"
  unfolding keeps_children_def using keeps_childrenD [OF assms] by (auto split: option.splits)

lemma at_entry_children:
  assumes "keeps_children (before_entry cb ev pid)"
  shows "keeps_children (at_entry table cb ev pid)"
proof -
  have "keeps_children (\<lambda>f. if pt_detach t then (Inr True, f)
                     else if pt_pause t then (Inr False, f)
                     else and_then (resume_tracer ev pid 0) (\<lambda>_. give False) f)" for t
    by (cases "pt_detach t"; cases "pt_pause t")
      (simp_all add: keeps_children_def keeps_childrenD [OF keeps_children_go])
  note keeps_children_tracer [OF this]
  then show ?thesis unfolding at_entry_def by (intro keeps_children_intros assms)
qed

lemma at_exit_children: "keeps_children (after_exit cb ev pid) \<Longrightarrow> keeps_children (at_exit cb ev pid)"
  unfolding at_exit_def by (intro keeps_children_intros)

lemma handle_one_event_children:
  assumes "keeps_children (before_entry cb ev pid)" and "keeps_children (after_exit cb ev pid)"
  shows "keeps_children (handle_one_event table cb ev pid t)"
  unfolding handle_one_event_def at_trap_def Let_def
  by (intro keeps_children_intros at_entry_children at_exit_children assms)

lemma tracee_event_children:
  assumes "keeps_children (before_entry cb ev pid)" and "keeps_children (after_exit cb ev pid)"
  shows "keeps_children (tracee_event table cb ev pid)"
proof -
  let ?check = "\<lambda>f. if tracer_of f pid \<noteq> None then give ()
      else if wi_status (st_any ev) = SIGTRAP + 256 * EVENT_EXEC \<or> wi_status (st_any ev) = SIGSTOP then flock_insert pid
      else raise_error (Runtime_error (''unexpected event from PID '' @ int_to_string pid))"
  have "keeps_children (and_then (handle_one_event table cb ev pid t) (\<lambda>over. if over then flock_remove ev pid else give ()))"
    for t by (intro keeps_children_intros handle_one_event_children assms)
  note serve = keeps_children_tracer [OF this]
  have "keeps_children (and_then (?check f) (\<lambda>_. \<lambda>f1. case tracer_of f1 pid of
         None \<Rightarrow> (Inl (Out_of_range ''map::at''), f1)
       | Some t \<Rightarrow>
           and_then (handle_one_event table cb ev pid t) (\<lambda>over.
             if over then flock_remove ev pid else give ()) f1))" for f
    by (intro keeps_children_and_then serve keeps_children_if keeps_children_calls)
  from keeps_childrenD [OF this] show ?thesis unfolding keeps_children_def tracee_event_def by blast
qed

lemma wake_waiting_children: "keeps_children (wake_waiting ev pid)"
  unfolding keeps_children_def wake_waiting_def
  using keeps_childrenD [OF keeps_children_resume] by (auto split: option.splits)

lemma woken_children:
  "fl_children (snd (and_then (wake_waiting ev pid)
     (\<lambda>_. modify (\<lambda>f. f\<lparr>fl_waiting := AList.delete pid (fl_waiting f)\<rparr>)) f)) = fl_children f"
  by (rule keeps_childrenD, rule keeps_children_and_then [OF wake_waiting_children])
    (simp add: keeps_children_def modify_def)

definition only_child :: "int \<Rightarrow> 's flock \<Rightarrow> bool" where
  "only_child pid f \<longleftrightarrow> fl_children f = [] \<or> (\<exists>cp. fl_children f = [(pid, cp)])"

lemma keeps_only_child: "keeps_children m \<Longrightarrow> only_child pid f \<Longrightarrow> only_child pid (snd (m f))"
  by (simp add: keeps_children_def only_child_def)

lemma child_event_only_child:
  assumes "only_child pid f"
  shows "only_child pid (snd (child_event ev q f))"
proof (cases "map_of (fl_children f) q")
  case None
  then show ?thesis using assms by (simp add: child_event_def)
next
  case (Some cp)
  then have q: "q = pid" and f: "fl_children f = [(pid, cp)]"
    using assms by (auto simp: only_child_def split: if_splits)
  then show ?thesis
    using woken_children [of ev pid "f\<lparr>fl_children := []\<rparr>"]
    by (auto simp: child_event_def only_child_def Let_def split: sum.splits)
qed

lemma flock_step_only_child:
  assumes "only_child pid f"
  shows "only_child pid (snd (flock_step table (sandbox_callbacks table fuel) ev f))"
proof -
  have "keeps_children (tracee_event table (sandbox_callbacks table fuel) ev q)" for q
    by (intro tracee_event_children) (simp_all add: sandbox_callbacks_def sandbox_entry_children sandbox_exit_children)
  note keeps_only_child [OF this assms]
  then show ?thesis
    using assms child_event_only_child [OF assms] by (simp add: flock_step_def Let_def raise_error_def)
qed

lemma loop_only_child:
  "loop_until_all_done table (sandbox_callbacks table fuel) evs f = (r, f') \<Longrightarrow> only_child pid f \<Longrightarrow> only_child pid f'"
proof (induction evs arbitrary: f)
  case (Cons ev evs)
  obtain r1 f1 where step: "flock_step table (sandbox_callbacks table fuel) ev f = (r1, f1)" by fastforce
  then have "only_child pid f1" using flock_step_only_child [OF Cons.prems(2)] by (metis snd_conv)
  then show ?case using Cons step by (auto simp: and_then_def split: if_splits sum.splits)
qed (auto split: if_splits)

lemma run_sandboxed_only_child: "run_sandboxed table fuel inode allowed pid evs = (r, f) \<Longrightarrow> only_child pid f"
  unfolding run_sandboxed_def by (erule loop_only_child) (simp add: only_child_def new_flock_def)

section \<open>A call that is refused\<close>

lemma detach_all_stopped:
  "(\<And>q. q \<in> set pids \<Longrightarrow> stopped q) \<Longrightarrow>
     fst (detach_all stopped pids f) = Inr () \<and> fl_children (snd (detach_all stopped pids f)) = fl_children f \<and>
     fl_requests (snd (detach_all stopped pids f)) = fl_requests f @ map Detach pids"
  by (induction pids arbitrary: f) auto

lemma detach_all_running:
  "q \<in> set pids \<Longrightarrow> \<not> stopped q \<Longrightarrow> fst (detach_all stopped pids f) = Inl Terminated"
  by (induction pids arbitrary: f) auto

text \<open>What the destructor of a child sends: only the two signals, only to that child, and a hangup at once
  when the child has not ended. It returns when some report says that the child has ended.\<close>

definition ends :: "wait_info \<Rightarrow> bool" where
  "ends info \<longleftrightarrow> wi_code info \<in> {CLD_EXITED, CLD_KILLED, CLD_DUMPED}"

lemma destroy_child_sends:
  assumes "destroy_child may pid waits cp = (sent, over)"
  shows "set sent \<subseteq> {Signal pid SIGCONT_number, Signal pid SIGHUP_number}"
    and "Signal pid SIGHUP_number \<in> set sent \<longleftrightarrow> \<not> cp_terminated cp \<and> may"
    and "Some info \<in> set waits \<Longrightarrow> ends info \<Longrightarrow> over"
  using assms
proof (induction waits arbitrary: cp sent over)
  case Nil
  { case 1 then show ?case by (auto simp: hang_up_def split: if_splits) }
  { case 2 then show ?case by (auto simp: hang_up_def split: if_splits) }
  { case 3 then show ?case by simp }
next
  case (Cons w waits)
  { case 1
    then show ?case
      using Cons.IH(1) by (fastforce simp: hang_up_def split: if_splits sum.splits prod.splits) }
  { case 2 then show ?case by (auto simp: hang_up_def split: if_splits sum.splits prod.splits) }
  { case 3
    show ?case
    proof (cases "w = Some info \<and> \<not> cp_terminated cp \<and> may")
      case True
      then have "case child_block pid w cp of Inl _ \<Rightarrow> True | Inr cp' \<Rightarrow> cp_terminated cp'"
        using 3 True by (auto simp: child_block_def child_wait_def ends_def assert_res_def split: wait_code.split_asm sum.splits)
      then show ?thesis using 3 True by (cases waits) (auto split: sum.splits prod.splits if_splits)
    next
      case False
      then show ?thesis using 3 Cons.IH(3) by (auto split: if_splits sum.splits prod.splits)
    qed }
qed

text \<open>C29: when the sandbox refuses a call, the exception destroys the tracers first, and each of them detaches
  its process, which then goes on with the call it was stopped before. Only after that the process
  that was started, if it has not ended, is sent a hangup, and the sandbox waits for its end; any other
  process that was traced is sent nothing. If a traced process is not stopped when its tracer is
  destroyed, the whole program ends.\<close>

theorem violation_releases:
  assumes "run_sandboxed table fuel inode allowed pid evs = (Inl e, f)"
    and order: "\<And>ps. set (ds_order dst ps) = set ps \<and> length (ds_order dst ps) = length ps"
  shows "if \<forall>q \<in> fst ` set (fl_tracers f). ds_stopped dst q
    then \<exists>signals. fl_requests (snd (sandbox_execute table fuel inode allowed pid evs dst)) =
           fl_requests f @ map Detach (ds_order dst (map fst (fl_tracers f))) @ signals \<and>
         set signals \<subseteq> {Signal pid SIGCONT_number, Signal pid SIGHUP_number} \<and>
         (Signal pid SIGHUP_number \<in> set signals \<longleftrightarrow>
            (\<exists>cp. map_of (fl_children f) pid = Some cp \<and> \<not> cp_terminated cp) \<and> ds_may_signal dst pid) \<and>
         fst (sandbox_execute table fuel inode allowed pid evs dst) \<in> {Inl e, Inr False} \<and>
         ((\<exists>info. Some info \<in> set (ds_waits dst pid) \<and> ends info) \<longrightarrow>
            fst (sandbox_execute table fuel inode allowed pid evs dst) = Inl e)
    else fst (sandbox_execute table fuel inode allowed pid evs dst) = Inl Terminated"
proof (cases "\<forall>q \<in> fst ` set (fl_tracers f). ds_stopped dst q")
  case False
  then obtain q where "q \<in> set (ds_order dst (map fst (fl_tracers f)))" "\<not> ds_stopped dst q"
    using order by auto
  then have "fst (detach_all (ds_stopped dst) (ds_order dst (map fst (fl_tracers f))) f) = Inl Terminated"
    by (rule detach_all_running)
  then show ?thesis
    using False by (auto simp: sandbox_execute_def assms(1) destroy_flock_def and_then_def split: prod.splits sum.splits)
next
  case True
  let ?pids = "ds_order dst (map fst (fl_tracers f))"
  obtain u f1 where detached: "detach_all (ds_stopped dst) ?pids f = (u, f1)" by fastforce
  have "fst (detach_all (ds_stopped dst) ?pids f) = Inr () \<and> fl_children (snd (detach_all (ds_stopped dst) ?pids f)) = fl_children f \<and>
      fl_requests (snd (detach_all (ds_stopped dst) ?pids f)) = fl_requests f @ map Detach ?pids"
    by (rule detach_all_stopped) (use True order in auto)
  with detached have f1: "u = Inr ()" "fl_children f1 = fl_children f" "fl_requests f1 = fl_requests f @ map Detach ?pids"
    by simp_all
  have exec: "sandbox_execute table fuel inode allowed pid evs dst =
      (case destroy_children dst (ds_order dst (map fst (fl_children f))) f1 of
         (Inl e', f') \<Rightarrow> (Inl e', f') | (Inr over, f') \<Rightarrow> (if over then Inl e else Inr False, f'))"
    using f1(1,2) by (simp add: sandbox_execute_def assms(1) destroy_flock_def and_then_def detached)
  from run_sandboxed_only_child [OF assms(1)] consider "fl_children f = []" | cp where "fl_children f = [(pid, cp)]"
    by (auto simp: only_child_def)
  then show ?thesis
  proof cases
    case 1
    have "ds_order dst [] = []" using order [of "[]"] by simp
    then show ?thesis using True by (simp add: exec 1 f1)
  next
    case (2 cp)
    have "ds_order dst [pid] = [pid]" using order [of "[pid]"] by (cases "ds_order dst [pid]") auto
    moreover obtain sent over where sent: "destroy_child (ds_may_signal dst pid) pid (ds_waits dst pid) cp = (sent, over)"
      by fastforce
    ultimately show ?thesis
      using True destroy_child_sends [OF sent] f1
      by (auto simp: exec 2 Let_def simp del: destroy_child.simps intro!: exI [of _ sent])
  qed
qed

definition toy_destruction :: destruction where
  "toy_destruction = \<lparr>ds_stopped = \<lambda>_. True, ds_order = (\<lambda>ps. ps), ds_may_signal = \<lambda>_. True,
     ds_waits = \<lambda>q. [Some \<lparr>wi_pid = q, wi_child = True, wi_code = CLD_KILLED, wi_status = 1\<rparr>]\<rparr>"

theorem violation_releases_witness:
  "\<exists>e f. run_sandboxed toy_table 1 (\<lambda>_. None) [] 7
       [stopped_with 7 SIGSTOP (toy_call 0 0) (\<lambda>_. None), stopped_with 7 133 (toy_call 0 0) (\<lambda>_. None)] = (Inl e, f) \<and>
     (\<exists>signals. fl_requests (snd (sandbox_execute toy_table 1 (\<lambda>_. None) [] 7
         [stopped_with 7 SIGSTOP (toy_call 0 0) (\<lambda>_. None), stopped_with 7 133 (toy_call 0 0) (\<lambda>_. None)] toy_destruction)) =
       fl_requests f @ [Detach 7] @ signals \<and> Signal 7 SIGHUP_number \<in> set signals) \<and>
     fst (sandbox_execute toy_table 1 (\<lambda>_. None) [] 7
         [stopped_with 7 SIGSTOP (toy_call 0 0) (\<lambda>_. None), stopped_with 7 133 (toy_call 0 0) (\<lambda>_. None)] toy_destruction) = Inl e"
proof -
  let ?evs = "[stopped_with 7 SIGSTOP (toy_call 0 0) (\<lambda>_. None), stopped_with 7 133 (toy_call 0 0) (\<lambda>_. None)]"
  let ?r = "run_sandboxed toy_table 1 (\<lambda>_. None) [] 7 ?evs"
  have "(case ?r of (Inl _, f) \<Rightarrow> (map fst (fl_tracers f), map_option cp_terminated (map_of (fl_children f) 7))
      | (Inr _, _) \<Rightarrow> ([], None)) = ([7], Some False)" by code_simp
  then obtain e f where run: "?r = (Inl e, f)" and pids: "map fst (fl_tracers f) = [7]"
    and child: "map_option cp_terminated (map_of (fl_children f) 7) = Some False"
    by (auto split: prod.splits sum.splits)
  have dst: "ds_order toy_destruction ps = ps" "ds_stopped toy_destruction q" "ds_may_signal toy_destruction q"
    "\<exists>info. Some info \<in> set (ds_waits toy_destruction q) \<and> ends info" for ps q
    by (simp_all add: toy_destruction_def ends_def)
  have "set (ds_order toy_destruction ps) = set ps \<and> length (ds_order toy_destruction ps) = length ps" for ps
    by (simp add: dst)
  from violation_releases [OF run this] show ?thesis using run pids child dst by auto
qed

end
