(* ===== verification/SyscallTable.thy ===== *)
theory SyscallTable
  imports SandboxLaws
begin

text \<open>
  The generated table of system calls, \<open>src/trace/linux/x86_64/syscalltbl.cc\<close>, entry by entry: number, name,
  arguments with their types, directions and the mark of a path, flags, and whether the signature is known. What the
  tracer and the sandbox say of a table is applied to this one.
\<close>

definition TRACE_IPC :: "32 word" where "TRACE_IPC = 2"
definition TRACE_NETWORK :: "32 word" where "TRACE_NETWORK = 4"
definition TRACE_PROCESS :: "32 word" where "TRACE_PROCESS = 8"
definition TRACE_SIGNAL :: "32 word" where "TRACE_SIGNAL = 16"
definition TRACE_MEMORY :: "32 word" where "TRACE_MEMORY = 64"
definition SYSCALL_NEVER_FAILS :: "32 word" where "SYSCALL_NEVER_FAILS = 128"
definition STACKTRACE_INVALIDATE_CACHE :: "32 word" where "STACKTRACE_INVALIDATE_CACHE = 256"
definition STACKTRACE_CAPTURE_ON_ENTER :: "32 word" where "STACKTRACE_CAPTURE_ON_ENTER = 512"
definition TRACE_STATFS :: "32 word" where "TRACE_STATFS = 16384"

definition out_argument :: "string \<Rightarrow> argument_info" where
  "out_argument t = \<lparr>ai_type = t, ai_dir = Dir_out, ai_flags = 0\<rparr>"

definition marked_argument :: "string \<Rightarrow> argument_info" where
  "marked_argument t = \<lparr>ai_type = t, ai_dir = Dir_in, ai_flags = ARGUMENT_F_PATHNAME\<rparr>"

definition signature :: "int \<Rightarrow> string \<Rightarrow> argument_info list \<Rightarrow> 32 word \<Rightarrow> syscall_signature" where
  "signature number name args flags =
     \<lparr>ss_number = number, ss_name = name, ss_args = args, ss_flags = flags, ss_complete = True\<rparr>"

definition unknown :: "int \<Rightarrow> string \<Rightarrow> argument_info list \<Rightarrow> 32 word \<Rightarrow> syscall_signature" where
  "unknown number name args flags =
     \<lparr>ss_number = number, ss_name = name, ss_args = args, ss_flags = flags, ss_complete = False\<rparr>"

section \<open>The entries\<close>

definition signatures_0 :: "syscall_signature list" where
  "signatures_0 =
    [signature 0 ''read'' [plain_argument ''unsigned int'', out_argument ''char *'',
        plain_argument ''size_t''] TRACE_DESC,
     signature 1 ''write'' [plain_argument ''unsigned int'', plain_argument ''const char *'',
        plain_argument ''size_t''] TRACE_DESC,
     signature 2 ''open'' [path_argument, plain_argument ''int'',
        plain_argument ''mode_t''] (TRACE_DESC OR TRACE_FILE),
     signature 3 ''close'' [plain_argument ''unsigned int''] TRACE_DESC,
     signature 4 ''stat'' [path_argument, plain_argument ''struct __old_kernel_stat *''] TRACE_FILE,
     signature 5 ''fstat'' [plain_argument ''unsigned int'',
        plain_argument ''struct __old_kernel_stat *''] TRACE_DESC,
     signature 6 ''lstat'' [path_argument, plain_argument ''struct __old_kernel_stat *''] TRACE_FILE,
     signature 7 ''poll'' [plain_argument ''struct pollfd *'', plain_argument ''unsigned int'',
        plain_argument ''int''] TRACE_DESC,
     signature 8 ''lseek'' [plain_argument ''unsigned int'', plain_argument ''off_t'',
        plain_argument ''unsigned int''] TRACE_DESC,
     signature 9 ''mmap'' [plain_argument ''unsigned long'', plain_argument ''unsigned long'',
        plain_argument ''int'', plain_argument ''int'', plain_argument ''int'',
        plain_argument ''long''] (TRACE_DESC OR TRACE_MEMORY OR STACKTRACE_INVALIDATE_CACHE),
     signature 10 ''mprotect'' [plain_argument ''unsigned long'', plain_argument ''size_t'',
        plain_argument ''unsigned long''] (TRACE_MEMORY OR STACKTRACE_INVALIDATE_CACHE),
     signature 11 ''munmap'' [plain_argument ''unsigned long'',
        plain_argument ''size_t''] (TRACE_MEMORY OR STACKTRACE_INVALIDATE_CACHE),
     signature 12 ''brk'' [plain_argument ''unsigned long''] (TRACE_MEMORY OR STACKTRACE_INVALIDATE_CACHE)]"

definition signatures_13 :: "syscall_signature list" where
  "signatures_13 =
    [signature 13 ''rt_sigaction'' [plain_argument ''int'', plain_argument ''const struct sigaction *'',
        plain_argument ''struct sigaction *'', plain_argument ''size_t''] TRACE_SIGNAL,
     signature 14 ''rt_sigprocmask'' [plain_argument ''int'', plain_argument ''sigset_t *'',
        plain_argument ''sigset_t *'', plain_argument ''size_t''] TRACE_SIGNAL,
     signature 15 ''rt_sigreturn'' [] TRACE_SIGNAL,
     signature 16 ''ioctl'' [plain_argument ''unsigned int'', plain_argument ''unsigned int'',
        plain_argument ''unsigned long''] TRACE_DESC,
     signature 17 ''pread64'' [plain_argument ''unsigned int'', out_argument ''char *'',
        plain_argument ''size_t'', plain_argument ''loff_t''] TRACE_DESC,
     signature 18 ''pwrite64'' [plain_argument ''unsigned int'', plain_argument ''const char *'',
        plain_argument ''size_t'', plain_argument ''loff_t''] TRACE_DESC,
     signature 19 ''readv'' [plain_argument ''unsigned long'', plain_argument ''const struct iovec *'',
        plain_argument ''unsigned long''] TRACE_DESC,
     signature 20 ''writev'' [plain_argument ''unsigned long'', plain_argument ''const struct iovec *'',
        plain_argument ''unsigned long''] TRACE_DESC,
     signature 21 ''access'' [path_argument, plain_argument ''int''] TRACE_FILE,
     signature 22 ''pipe'' [plain_argument ''int *''] TRACE_DESC,
     signature 23 ''select'' [plain_argument ''int'', plain_argument ''fd_set *'',
        plain_argument ''fd_set *'', plain_argument ''fd_set *'',
        plain_argument ''struct timeval *''] TRACE_DESC,
     signature 24 ''sched_yield'' [] 0,
     signature 25 ''mremap'' [plain_argument ''unsigned long'', plain_argument ''unsigned long'',
        plain_argument ''unsigned long'', plain_argument ''unsigned long'',
        plain_argument ''unsigned long''] (TRACE_MEMORY OR STACKTRACE_INVALIDATE_CACHE)]"

definition signatures_26 :: "syscall_signature list" where
  "signatures_26 =
    [signature 26 ''msync'' [plain_argument ''unsigned long'', plain_argument ''size_t'',
        plain_argument ''int''] TRACE_MEMORY,
     signature 27 ''mincore'' [plain_argument ''unsigned long'', plain_argument ''size_t'',
        plain_argument ''unsigned char *''] TRACE_MEMORY,
     signature 28 ''madvise'' [plain_argument ''unsigned long'', plain_argument ''size_t'',
        plain_argument ''int''] TRACE_MEMORY,
     signature 29 ''shmget'' [plain_argument ''key_t'', plain_argument ''size_t'',
        plain_argument ''int''] TRACE_IPC,
     signature 30 ''shmat'' [plain_argument ''int'', plain_argument ''char *'',
        plain_argument ''int''] (TRACE_IPC OR TRACE_MEMORY OR STACKTRACE_INVALIDATE_CACHE),
     signature 31 ''shmctl'' [plain_argument ''int'', plain_argument ''int'',
        plain_argument ''struct shmid_ds *''] TRACE_IPC,
     signature 32 ''dup'' [plain_argument ''unsigned int''] TRACE_DESC,
     signature 33 ''dup2'' [plain_argument ''unsigned int'', plain_argument ''unsigned int''] TRACE_DESC,
     signature 34 ''pause'' [] TRACE_SIGNAL,
     signature 35 ''nanosleep'' [plain_argument ''struct timespec *'', plain_argument ''struct timespec *''] 0,
     signature 36 ''getitimer'' [plain_argument ''int'', plain_argument ''struct itimerval *''] 0,
     signature 37 ''alarm'' [plain_argument ''unsigned int''] 0,
     signature 38 ''setitimer'' [plain_argument ''int'', plain_argument ''struct itimerval *'',
        plain_argument ''struct itimerval *''] 0,
     signature 39 ''getpid'' [] SYSCALL_NEVER_FAILS]"

definition signatures_40 :: "syscall_signature list" where
  "signatures_40 =
    [signature 40 ''sendfile'' [plain_argument ''int'', plain_argument ''int'', plain_argument ''off_t *'',
        plain_argument ''size_t''] (TRACE_DESC OR TRACE_NETWORK),
     signature 41 ''socket'' [plain_argument ''int'', plain_argument ''int'',
        plain_argument ''int''] TRACE_NETWORK,
     signature 42 ''connect'' [plain_argument ''int'', plain_argument ''struct sockaddr *'',
        plain_argument ''int''] TRACE_NETWORK,
     signature 43 ''accept'' [plain_argument ''int'', plain_argument ''struct sockaddr *'',
        plain_argument ''int *''] TRACE_NETWORK,
     signature 44 ''sendto'' [plain_argument ''int'', plain_argument ''void *'', plain_argument ''size_t'',
        plain_argument ''unsigned'', plain_argument ''struct sockaddr *'',
        plain_argument ''int''] TRACE_NETWORK,
     signature 45 ''recvfrom'' [plain_argument ''int'', plain_argument ''void *'', plain_argument ''size_t'',
        plain_argument ''unsigned'', plain_argument ''struct sockaddr *'',
        plain_argument ''int *''] TRACE_NETWORK,
     signature 46 ''sendmsg'' [plain_argument ''int'', plain_argument ''struct user_msghdr *'',
        plain_argument ''unsigned''] TRACE_NETWORK,
     signature 47 ''recvmsg'' [plain_argument ''int'', plain_argument ''struct user_msghdr *'',
        plain_argument ''unsigned''] TRACE_NETWORK,
     signature 48 ''shutdown'' [plain_argument ''int'', plain_argument ''int''] TRACE_NETWORK,
     signature 49 ''bind'' [plain_argument ''int'', plain_argument ''struct sockaddr *'',
        plain_argument ''int''] TRACE_NETWORK,
     signature 50 ''listen'' [plain_argument ''int'', plain_argument ''int''] TRACE_NETWORK,
     signature 51 ''getsockname'' [plain_argument ''int'', plain_argument ''struct sockaddr *'',
        plain_argument ''int *''] TRACE_NETWORK,
     signature 52 ''getpeername'' [plain_argument ''int'', plain_argument ''struct sockaddr *'',
        plain_argument ''int *''] TRACE_NETWORK]"

definition signatures_53 :: "syscall_signature list" where
  "signatures_53 =
    [signature 53 ''socketpair'' [plain_argument ''int'', plain_argument ''int'', plain_argument ''int'',
        plain_argument ''int *''] TRACE_NETWORK,
     signature 54 ''setsockopt'' [plain_argument ''int'', plain_argument ''int'', plain_argument ''int'',
        plain_argument ''char *'', plain_argument ''int''] TRACE_NETWORK,
     signature 55 ''getsockopt'' [plain_argument ''int'', plain_argument ''int'', plain_argument ''int'',
        plain_argument ''char *'', plain_argument ''int *''] TRACE_NETWORK,
     signature 56 ''clone'' [plain_argument ''unsigned'', plain_argument ''unsigned'',
        plain_argument ''int *'', plain_argument ''unsigned'', plain_argument ''int *''] TRACE_PROCESS,
     signature 57 ''fork'' [] TRACE_PROCESS,
     signature 58 ''vfork'' [] TRACE_PROCESS,
     signature 59 ''execve'' [path_argument, plain_argument ''const char * const *'',
        plain_argument ''const char * const *''] (TRACE_FILE OR TRACE_PROCESS OR STACKTRACE_CAPTURE_ON_ENTER OR STACKTRACE_INVALIDATE_CACHE),
     signature 60 ''exit'' [plain_argument ''int''] (TRACE_PROCESS OR STACKTRACE_CAPTURE_ON_ENTER),
     signature 61 ''wait4'' [plain_argument ''pid_t'', plain_argument ''int *'', plain_argument ''int'',
        plain_argument ''struct rusage *''] TRACE_PROCESS,
     signature 62 ''kill'' [plain_argument ''pid_t'', plain_argument ''int''] TRACE_SIGNAL,
     signature 63 ''uname'' [plain_argument ''struct old_utsname *''] 0,
     signature 64 ''semget'' [plain_argument ''key_t'', plain_argument ''int'', plain_argument ''int''] TRACE_IPC,
     signature 65 ''semop'' [plain_argument ''int'', plain_argument ''struct sembuf *'',
        plain_argument ''unsigned''] TRACE_IPC]"

definition signatures_66 :: "syscall_signature list" where
  "signatures_66 =
    [signature 66 ''semctl'' [plain_argument ''int'', plain_argument ''int'', plain_argument ''int'',
        plain_argument ''unsigned long''] TRACE_IPC,
     signature 67 ''shmdt'' [plain_argument ''char *''] (TRACE_IPC OR TRACE_MEMORY OR STACKTRACE_INVALIDATE_CACHE),
     signature 68 ''msgget'' [plain_argument ''key_t'', plain_argument ''int''] TRACE_IPC,
     signature 69 ''msgsnd'' [plain_argument ''int'', plain_argument ''struct msgbuf *'',
        plain_argument ''size_t'', plain_argument ''int''] TRACE_IPC,
     signature 70 ''msgrcv'' [plain_argument ''int'', plain_argument ''struct msgbuf *'',
        plain_argument ''size_t'', plain_argument ''long'', plain_argument ''int''] TRACE_IPC,
     signature 71 ''msgctl'' [plain_argument ''int'', plain_argument ''int'',
        plain_argument ''struct msqid_ds *''] TRACE_IPC,
     signature 72 ''fcntl'' [plain_argument ''unsigned int'', plain_argument ''unsigned int'',
        plain_argument ''unsigned long''] TRACE_DESC,
     signature 73 ''flock'' [plain_argument ''unsigned int'', plain_argument ''unsigned int''] TRACE_DESC,
     signature 74 ''fsync'' [plain_argument ''unsigned int''] TRACE_DESC,
     signature 75 ''fdatasync'' [plain_argument ''unsigned int''] TRACE_DESC,
     signature 76 ''truncate'' [path_argument, plain_argument ''long''] TRACE_FILE,
     signature 77 ''ftruncate'' [plain_argument ''unsigned int'', plain_argument ''unsigned long''] TRACE_DESC,
     signature 78 ''getdents'' [plain_argument ''unsigned int'', plain_argument ''struct linux_dirent *'',
        plain_argument ''unsigned int''] TRACE_DESC,
     signature 79 ''getcwd'' [out_argument ''char *'', plain_argument ''unsigned long''] TRACE_FILE]"

definition signatures_80 :: "syscall_signature list" where
  "signatures_80 =
    [signature 80 ''chdir'' [path_argument] TRACE_FILE,
     signature 81 ''fchdir'' [plain_argument ''unsigned int''] TRACE_DESC,
     signature 82 ''rename'' [path_argument, path_argument] TRACE_FILE,
     signature 83 ''mkdir'' [path_argument, plain_argument ''mode_t''] TRACE_FILE,
     signature 84 ''rmdir'' [path_argument] TRACE_FILE,
     signature 85 ''creat'' [path_argument, plain_argument ''mode_t''] (TRACE_DESC OR TRACE_FILE),
     signature 86 ''link'' [path_argument, path_argument] TRACE_FILE,
     signature 87 ''unlink'' [path_argument] TRACE_FILE,
     signature 88 ''symlink'' [path_argument, path_argument] TRACE_FILE,
     signature 89 ''readlink'' [path_argument, out_argument ''char *'', plain_argument ''int''] TRACE_FILE,
     signature 90 ''chmod'' [path_argument, plain_argument ''mode_t''] TRACE_FILE,
     signature 91 ''fchmod'' [plain_argument ''unsigned int'', plain_argument ''mode_t''] TRACE_DESC,
     signature 92 ''chown'' [path_argument, plain_argument ''uid_t'', plain_argument ''gid_t''] TRACE_FILE,
     signature 93 ''fchown'' [plain_argument ''unsigned int'', plain_argument ''uid_t'',
        plain_argument ''gid_t''] TRACE_DESC]"

definition signatures_94 :: "syscall_signature list" where
  "signatures_94 =
    [signature 94 ''lchown'' [path_argument, plain_argument ''uid_t'', plain_argument ''gid_t''] TRACE_FILE,
     signature 95 ''umask'' [plain_argument ''int''] SYSCALL_NEVER_FAILS,
     signature 96 ''gettimeofday'' [plain_argument ''struct timeval *'', plain_argument ''struct timezone *''] 0,
     signature 97 ''getrlimit'' [plain_argument ''unsigned int'', plain_argument ''struct rlimit *''] 0,
     signature 98 ''getrusage'' [plain_argument ''int'', plain_argument ''struct rusage *''] 0,
     signature 99 ''sysinfo'' [plain_argument ''struct sysinfo *''] 0,
     signature 100 ''times'' [plain_argument ''struct tms *''] 0,
     signature 101 ''ptrace'' [plain_argument ''long'', plain_argument ''long'',
        plain_argument ''unsigned long'', plain_argument ''unsigned long''] 0,
     signature 102 ''getuid'' [] SYSCALL_NEVER_FAILS,
     signature 103 ''syslog'' [plain_argument ''int'', out_argument ''char *'', plain_argument ''int''] 0,
     signature 104 ''getgid'' [] SYSCALL_NEVER_FAILS,
     signature 105 ''setuid'' [plain_argument ''uid_t''] 0,
     signature 106 ''setgid'' [plain_argument ''gid_t''] 0,
     signature 107 ''geteuid'' [] SYSCALL_NEVER_FAILS,
     signature 108 ''getegid'' [] SYSCALL_NEVER_FAILS]"

definition signatures_109 :: "syscall_signature list" where
  "signatures_109 =
    [signature 109 ''setpgid'' [plain_argument ''pid_t'', plain_argument ''pid_t''] 0,
     signature 110 ''getppid'' [] SYSCALL_NEVER_FAILS,
     signature 111 ''getpgrp'' [] 0,
     signature 112 ''setsid'' [] 0,
     signature 113 ''setreuid'' [plain_argument ''uid_t'', plain_argument ''uid_t''] 0,
     signature 114 ''setregid'' [plain_argument ''gid_t'', plain_argument ''gid_t''] 0,
     signature 115 ''getgroups'' [plain_argument ''int'', plain_argument ''gid_t *''] 0,
     signature 116 ''setgroups'' [plain_argument ''int'', plain_argument ''gid_t *''] 0,
     signature 117 ''setresuid'' [plain_argument ''uid_t'', plain_argument ''uid_t'', plain_argument ''uid_t''] 0,
     signature 118 ''getresuid'' [plain_argument ''uid_t *'', plain_argument ''uid_t *'',
        plain_argument ''uid_t *''] 0,
     signature 119 ''setresgid'' [plain_argument ''gid_t'', plain_argument ''gid_t'', plain_argument ''gid_t''] 0,
     signature 120 ''getresgid'' [plain_argument ''gid_t *'', plain_argument ''gid_t *'',
        plain_argument ''gid_t *''] 0,
     signature 121 ''getpgid'' [plain_argument ''pid_t''] 0,
     signature 122 ''setfsuid'' [plain_argument ''uid_t''] SYSCALL_NEVER_FAILS,
     signature 123 ''setfsgid'' [plain_argument ''gid_t''] SYSCALL_NEVER_FAILS]"

definition signatures_124 :: "syscall_signature list" where
  "signatures_124 =
    [signature 124 ''getsid'' [plain_argument ''pid_t''] 0,
     signature 125 ''capget'' [plain_argument ''cap_user_header_t'', plain_argument ''cap_user_data_t''] 0,
     signature 126 ''capset'' [plain_argument ''cap_user_header_t'', plain_argument ''const cap_user_data_t''] 0,
     signature 127 ''rt_sigpending'' [plain_argument ''sigset_t *'', plain_argument ''size_t''] TRACE_SIGNAL,
     signature 128 ''rt_sigtimedwait'' [plain_argument ''const sigset_t *'', plain_argument ''siginfo_t *'',
        plain_argument ''const struct timespec *'', plain_argument ''size_t''] TRACE_SIGNAL,
     signature 129 ''rt_sigqueueinfo'' [plain_argument ''pid_t'', plain_argument ''int'',
        plain_argument ''siginfo_t *''] TRACE_SIGNAL,
     signature 130 ''rt_sigsuspend'' [plain_argument ''sigset_t *'', plain_argument ''size_t''] TRACE_SIGNAL,
     signature 131 ''sigaltstack'' [plain_argument ''const struct sigaltstack *'',
        plain_argument ''struct sigaltstack *''] TRACE_SIGNAL,
     signature 132 ''utime'' [marked_argument ''char *'', plain_argument ''struct utimbuf *''] TRACE_FILE,
     signature 133 ''mknod'' [path_argument, plain_argument ''mode_t'', plain_argument ''unsigned''] TRACE_FILE,
     signature 134 ''uselib'' [path_argument] TRACE_FILE,
     signature 135 ''personality'' [plain_argument ''unsigned int''] SYSCALL_NEVER_FAILS,
     signature 136 ''ustat'' [plain_argument ''unsigned'', plain_argument ''struct ustat *''] 0,
     signature 137 ''statfs'' [path_argument, plain_argument ''struct statfs *''] (TRACE_FILE OR TRACE_STATFS)]"

definition signatures_138 :: "syscall_signature list" where
  "signatures_138 =
    [signature 138 ''fstatfs'' [plain_argument ''unsigned int'', plain_argument ''struct statfs *''] TRACE_DESC,
     signature 139 ''sysfs'' [plain_argument ''int'', plain_argument ''unsigned long'',
        plain_argument ''unsigned long''] 0,
     signature 140 ''getpriority'' [plain_argument ''int'', plain_argument ''int''] 0,
     signature 141 ''setpriority'' [plain_argument ''int'', plain_argument ''int'', plain_argument ''int''] 0,
     signature 142 ''sched_setparam'' [plain_argument ''pid_t'', plain_argument ''struct sched_param *''] 0,
     signature 143 ''sched_getparam'' [plain_argument ''pid_t'', plain_argument ''struct sched_param *''] 0,
     signature 144 ''sched_setscheduler'' [plain_argument ''pid_t'', plain_argument ''int'',
        plain_argument ''struct sched_param *''] 0,
     signature 145 ''sched_getscheduler'' [plain_argument ''pid_t''] 0,
     signature 146 ''sched_get_priority_max'' [plain_argument ''int''] 0,
     signature 147 ''sched_get_priority_min'' [plain_argument ''int''] 0,
     signature 148 ''sched_rr_get_interval'' [plain_argument ''pid_t'', plain_argument ''struct timespec *''] 0,
     signature 149 ''mlock'' [plain_argument ''unsigned long'', plain_argument ''size_t''] TRACE_MEMORY,
     signature 150 ''munlock'' [plain_argument ''unsigned long'', plain_argument ''size_t''] TRACE_MEMORY,
     signature 151 ''mlockall'' [plain_argument ''int''] TRACE_MEMORY,
     signature 152 ''munlockall'' [] TRACE_MEMORY]"

definition signatures_153 :: "syscall_signature list" where
  "signatures_153 =
    [signature 153 ''vhangup'' [] 0,
     signature 154 ''modify_ldt'' [plain_argument ''int'', plain_argument ''void *'',
        plain_argument ''unsigned''] 0,
     signature 155 ''pivot_root'' [path_argument, path_argument] TRACE_FILE,
     unknown 156 ''_sysctl'' [] 0,
     signature 157 ''prctl'' [plain_argument ''int'', plain_argument ''unsigned long'',
        plain_argument ''unsigned long'', plain_argument ''unsigned long'',
        plain_argument ''unsigned long''] 0,
     signature 158 ''arch_prctl'' [plain_argument ''int'', plain_argument ''unsigned''] TRACE_PROCESS,
     signature 159 ''adjtimex'' [plain_argument ''struct timex *''] 0,
     signature 160 ''setrlimit'' [plain_argument ''unsigned int'', plain_argument ''struct rlimit *''] 0,
     signature 161 ''chroot'' [path_argument] TRACE_FILE,
     signature 162 ''sync'' [] 0,
     signature 163 ''acct'' [plain_argument ''const char *''] TRACE_FILE,
     signature 164 ''settimeofday'' [plain_argument ''struct timeval *'', plain_argument ''struct timezone *''] 0,
     signature 165 ''mount'' [marked_argument ''char *'', marked_argument ''char *'',
        plain_argument ''char *'', plain_argument ''unsigned long'',
        plain_argument ''void *''] TRACE_FILE,
     unknown 166 ''umount2'' [] TRACE_FILE]"

definition signatures_167 :: "syscall_signature list" where
  "signatures_167 =
    [signature 167 ''swapon'' [path_argument, plain_argument ''int''] TRACE_FILE,
     signature 168 ''swapoff'' [path_argument] TRACE_FILE,
     signature 169 ''reboot'' [plain_argument ''int'', plain_argument ''int'',
        plain_argument ''unsigned int'', plain_argument ''void *''] 0,
     signature 170 ''sethostname'' [plain_argument ''char *'', plain_argument ''int''] 0,
     signature 171 ''setdomainname'' [plain_argument ''char *'', plain_argument ''int''] 0,
     signature 172 ''iopl'' [plain_argument ''unsigned''] 0,
     signature 173 ''ioperm'' [plain_argument ''unsigned'', plain_argument ''unsigned'',
        plain_argument ''int''] 0,
     unknown 174 ''create_module'' [] 0,
     signature 175 ''init_module'' [plain_argument ''void *'', plain_argument ''unsigned long'',
        plain_argument ''const char *''] 0,
     signature 176 ''delete_module'' [plain_argument ''const char *'', plain_argument ''unsigned int''] 0,
     unknown 177 ''get_kernel_syms'' [] 0,
     unknown 178 ''query_module'' [] 0,
     signature 179 ''quotactl'' [plain_argument ''unsigned int'', path_argument, plain_argument ''int'',
        plain_argument ''void *''] TRACE_FILE,
     unknown 180 ''nfsservctl'' [] 0,
     unknown 181 ''getpmsg'' [] TRACE_NETWORK]"

definition signatures_182 :: "syscall_signature list" where
  "signatures_182 =
    [unknown 182 ''putpmsg'' [] TRACE_NETWORK,
     unknown 183 ''afs_syscall'' [] 0,
     unknown 184 ''tuxcall'' [] 0,
     unknown 185 ''security'' [] 0,
     signature 186 ''gettid'' [] SYSCALL_NEVER_FAILS,
     signature 187 ''readahead'' [plain_argument ''int'', plain_argument ''loff_t'',
        plain_argument ''size_t''] TRACE_DESC,
     signature 188 ''setxattr'' [path_argument, plain_argument ''const char *'',
        plain_argument ''const void *'', plain_argument ''size_t'', plain_argument ''int''] TRACE_FILE,
     signature 189 ''lsetxattr'' [path_argument, plain_argument ''const char *'',
        plain_argument ''const void *'', plain_argument ''size_t'', plain_argument ''int''] TRACE_FILE,
     signature 190 ''fsetxattr'' [plain_argument ''int'', plain_argument ''const char *'',
        plain_argument ''const void *'', plain_argument ''size_t'', plain_argument ''int''] TRACE_DESC,
     signature 191 ''getxattr'' [path_argument, plain_argument ''const char *'', plain_argument ''void *'',
        plain_argument ''size_t''] TRACE_FILE,
     signature 192 ''lgetxattr'' [path_argument, plain_argument ''const char *'', plain_argument ''void *'',
        plain_argument ''size_t''] TRACE_FILE,
     signature 193 ''fgetxattr'' [plain_argument ''int'', plain_argument ''const char *'',
        plain_argument ''void *'', plain_argument ''size_t''] TRACE_DESC,
     signature 194 ''listxattr'' [path_argument, plain_argument ''char *'', plain_argument ''size_t''] TRACE_FILE]"

definition signatures_195 :: "syscall_signature list" where
  "signatures_195 =
    [signature 195 ''llistxattr'' [path_argument, plain_argument ''char *'',
        plain_argument ''size_t''] TRACE_FILE,
     signature 196 ''flistxattr'' [plain_argument ''int'', plain_argument ''char *'',
        plain_argument ''size_t''] TRACE_DESC,
     signature 197 ''removexattr'' [path_argument, plain_argument ''const char *''] TRACE_FILE,
     signature 198 ''lremovexattr'' [path_argument, plain_argument ''const char *''] TRACE_FILE,
     signature 199 ''fremovexattr'' [plain_argument ''int'', plain_argument ''const char *''] TRACE_DESC,
     signature 200 ''tkill'' [plain_argument ''pid_t'', plain_argument ''int''] TRACE_SIGNAL,
     signature 201 ''time'' [plain_argument ''time_t *''] 0,
     signature 202 ''futex'' [plain_argument ''__u32 *'', plain_argument ''int'', plain_argument ''__u32'',
        plain_argument ''struct timespec *'', plain_argument ''__u32 *'', plain_argument ''__u32''] 0,
     signature 203 ''sched_setaffinity'' [plain_argument ''pid_t'', plain_argument ''unsigned int'',
        plain_argument ''unsigned long *''] 0,
     signature 204 ''sched_getaffinity'' [plain_argument ''pid_t'', plain_argument ''unsigned int'',
        plain_argument ''unsigned long *''] 0,
     signature 205 ''set_thread_area'' [plain_argument ''struct user_desc *''] 0,
     signature 206 ''io_setup'' [plain_argument ''unsigned'', plain_argument ''aio_context_t *''] TRACE_MEMORY,
     signature 207 ''io_destroy'' [plain_argument ''aio_context_t''] TRACE_MEMORY,
     signature 208 ''io_getevents'' [plain_argument ''aio_context_t'', plain_argument ''long'',
        plain_argument ''long'', plain_argument ''struct io_event *'',
        plain_argument ''struct timespec *''] 0]"

definition signatures_209 :: "syscall_signature list" where
  "signatures_209 =
    [signature 209 ''io_submit'' [plain_argument ''aio_context_t'', plain_argument ''long'',
        plain_argument ''struct iocb * *''] 0,
     signature 210 ''io_cancel'' [plain_argument ''aio_context_t'', plain_argument ''struct iocb *'',
        plain_argument ''struct io_event *''] 0,
     signature 211 ''get_thread_area'' [plain_argument ''struct user_desc *''] 0,
     signature 212 ''lookup_dcookie'' [plain_argument ''__u64'', out_argument ''char *'',
        plain_argument ''size_t''] 0,
     signature 213 ''epoll_create'' [plain_argument ''int''] TRACE_DESC,
     unknown 214 ''epoll_ctl_old'' [] 0,
     unknown 215 ''epoll_wait_old'' [] 0,
     signature 216 ''remap_file_pages'' [plain_argument ''unsigned long'', plain_argument ''unsigned long'',
        plain_argument ''unsigned long'', plain_argument ''unsigned long'',
        plain_argument ''unsigned long''] (TRACE_MEMORY OR STACKTRACE_INVALIDATE_CACHE),
     signature 217 ''getdents64'' [plain_argument ''unsigned int'',
        plain_argument ''struct linux_dirent64 *'', plain_argument ''unsigned int''] TRACE_DESC,
     signature 218 ''set_tid_address'' [plain_argument ''int *''] 0,
     signature 219 ''restart_syscall'' [] 0,
     signature 220 ''semtimedop'' [plain_argument ''int'', plain_argument ''struct sembuf *'',
        plain_argument ''unsigned'', plain_argument ''const struct timespec *''] TRACE_IPC,
     signature 221 ''fadvise64'' [plain_argument ''int'', plain_argument ''loff_t'',
        plain_argument ''size_t'', plain_argument ''int''] TRACE_DESC,
     signature 222 ''timer_create'' [plain_argument ''clockid_t'', plain_argument ''struct sigevent *'',
        plain_argument ''timer_t *''] 0]"

definition signatures_223 :: "syscall_signature list" where
  "signatures_223 =
    [signature 223 ''timer_settime'' [plain_argument ''timer_t'', plain_argument ''int'',
        plain_argument ''const struct itimerspec *'', plain_argument ''struct itimerspec *''] 0,
     signature 224 ''timer_gettime'' [plain_argument ''timer_t'', plain_argument ''struct itimerspec *''] 0,
     signature 225 ''timer_getoverrun'' [plain_argument ''timer_t''] 0,
     signature 226 ''timer_delete'' [plain_argument ''timer_t''] 0,
     signature 227 ''clock_settime'' [plain_argument ''clockid_t'', plain_argument ''const struct timespec *''] 0,
     signature 228 ''clock_gettime'' [plain_argument ''clockid_t'', plain_argument ''struct timespec *''] 0,
     signature 229 ''clock_getres'' [plain_argument ''clockid_t'', plain_argument ''struct timespec *''] 0,
     signature 230 ''clock_nanosleep'' [plain_argument ''clockid_t'', plain_argument ''int'',
        plain_argument ''const struct timespec *'', plain_argument ''struct timespec *''] 0,
     signature 231 ''exit_group'' [plain_argument ''int''] (TRACE_PROCESS OR STACKTRACE_CAPTURE_ON_ENTER),
     signature 232 ''epoll_wait'' [plain_argument ''int'', plain_argument ''struct epoll_event *'',
        plain_argument ''int'', plain_argument ''int''] TRACE_DESC,
     signature 233 ''epoll_ctl'' [plain_argument ''int'', plain_argument ''int'', plain_argument ''int'',
        plain_argument ''struct epoll_event *''] TRACE_DESC,
     signature 234 ''tgkill'' [plain_argument ''pid_t'', plain_argument ''pid_t'',
        plain_argument ''int''] TRACE_SIGNAL,
     signature 235 ''utimes'' [marked_argument ''char *'', plain_argument ''struct timeval *''] TRACE_FILE,
     unknown 236 ''vserver'' [] 0]"

definition signatures_237 :: "syscall_signature list" where
  "signatures_237 =
    [signature 237 ''mbind'' [plain_argument ''unsigned long'', plain_argument ''unsigned long'',
        plain_argument ''unsigned long'', plain_argument ''const unsigned long *'',
        plain_argument ''unsigned long'', plain_argument ''unsigned''] TRACE_MEMORY,
     signature 238 ''set_mempolicy'' [plain_argument ''int'', plain_argument ''const unsigned long *'',
        plain_argument ''unsigned long''] TRACE_MEMORY,
     signature 239 ''get_mempolicy'' [plain_argument ''int *'', plain_argument ''unsigned long *'',
        plain_argument ''unsigned long'', plain_argument ''unsigned long'',
        plain_argument ''unsigned long''] TRACE_MEMORY,
     signature 240 ''mq_open'' [plain_argument ''const char *'', plain_argument ''int'',
        plain_argument ''mode_t'', plain_argument ''struct mq_attr *''] 0,
     signature 241 ''mq_unlink'' [plain_argument ''const char *''] 0,
     signature 242 ''mq_timedsend'' [plain_argument ''mqd_t'', plain_argument ''const char *'',
        plain_argument ''size_t'', plain_argument ''unsigned int'',
        plain_argument ''const struct timespec *''] 0,
     signature 243 ''mq_timedreceive'' [plain_argument ''mqd_t'', plain_argument ''char *'',
        plain_argument ''size_t'', plain_argument ''unsigned int *'',
        plain_argument ''const struct timespec *''] 0,
     signature 244 ''mq_notify'' [plain_argument ''mqd_t'', plain_argument ''const struct sigevent *''] 0,
     signature 245 ''mq_getsetattr'' [plain_argument ''mqd_t'', plain_argument ''const struct mq_attr *'',
        plain_argument ''struct mq_attr *''] 0,
     signature 246 ''kexec_load'' [plain_argument ''unsigned long'', plain_argument ''unsigned long'',
        plain_argument ''struct kexec_segment *'', plain_argument ''unsigned long''] 0,
     signature 247 ''waitid'' [plain_argument ''int'', plain_argument ''pid_t'',
        plain_argument ''struct siginfo *'', plain_argument ''int'',
        plain_argument ''struct rusage *''] TRACE_PROCESS,
     signature 248 ''add_key'' [plain_argument ''const char *'', plain_argument ''const char *'',
        plain_argument ''const void *'', plain_argument ''size_t'', plain_argument ''key_serial_t''] 0]"

definition signatures_249 :: "syscall_signature list" where
  "signatures_249 =
    [signature 249 ''request_key'' [plain_argument ''const char *'', plain_argument ''const char *'',
        plain_argument ''const char *'', plain_argument ''key_serial_t''] 0,
     signature 250 ''keyctl'' [plain_argument ''int'', plain_argument ''unsigned long'',
        plain_argument ''unsigned long'', plain_argument ''unsigned long'',
        plain_argument ''unsigned long''] 0,
     signature 251 ''ioprio_set'' [plain_argument ''int'', plain_argument ''int'', plain_argument ''int''] 0,
     signature 252 ''ioprio_get'' [plain_argument ''int'', plain_argument ''int''] 0,
     signature 253 ''inotify_init'' [] TRACE_DESC,
     signature 254 ''inotify_add_watch'' [plain_argument ''int'', path_argument,
        plain_argument ''__u32''] TRACE_DESC,
     signature 255 ''inotify_rm_watch'' [plain_argument ''int'', plain_argument ''__s32''] TRACE_DESC,
     signature 256 ''migrate_pages'' [plain_argument ''pid_t'', plain_argument ''unsigned long'',
        plain_argument ''const unsigned long *'', plain_argument ''const unsigned long *''] TRACE_MEMORY,
     signature 257 ''openat'' [plain_argument ''int'', path_argument, plain_argument ''int'',
        plain_argument ''mode_t''] (TRACE_DESC OR TRACE_FILE),
     signature 258 ''mkdirat'' [plain_argument ''int'', path_argument,
        plain_argument ''mode_t''] (TRACE_DESC OR TRACE_FILE),
     signature 259 ''mknodat'' [plain_argument ''int'', path_argument, plain_argument ''mode_t'',
        plain_argument ''unsigned''] (TRACE_DESC OR TRACE_FILE),
     signature 260 ''fchownat'' [plain_argument ''int'', path_argument, plain_argument ''uid_t'',
        plain_argument ''gid_t'', plain_argument ''int''] (TRACE_DESC OR TRACE_FILE),
     signature 261 ''futimesat'' [plain_argument ''int'', path_argument,
        plain_argument ''struct timeval *''] (TRACE_DESC OR TRACE_FILE)]"

definition signatures_262 :: "syscall_signature list" where
  "signatures_262 =
    [signature 262 ''newfstatat'' [plain_argument ''int'', path_argument, plain_argument ''struct stat *'',
        plain_argument ''int''] (TRACE_DESC OR TRACE_FILE),
     signature 263 ''unlinkat'' [plain_argument ''int'', path_argument,
        plain_argument ''int''] (TRACE_DESC OR TRACE_FILE),
     signature 264 ''renameat'' [plain_argument ''int'', path_argument, plain_argument ''int'',
        path_argument] (TRACE_DESC OR TRACE_FILE),
     signature 265 ''linkat'' [plain_argument ''int'', path_argument, plain_argument ''int'', path_argument,
        plain_argument ''int''] (TRACE_DESC OR TRACE_FILE),
     signature 266 ''symlinkat'' [path_argument, plain_argument ''int'',
        path_argument] (TRACE_DESC OR TRACE_FILE),
     signature 267 ''readlinkat'' [plain_argument ''int'', path_argument, out_argument ''char *'',
        plain_argument ''int''] (TRACE_DESC OR TRACE_FILE),
     signature 268 ''fchmodat'' [plain_argument ''int'', path_argument,
        plain_argument ''mode_t''] (TRACE_DESC OR TRACE_FILE),
     signature 269 ''faccessat'' [plain_argument ''int'', path_argument,
        plain_argument ''int''] (TRACE_DESC OR TRACE_FILE),
     signature 270 ''pselect6'' [plain_argument ''int'', plain_argument ''fd_set *'',
        plain_argument ''fd_set *'', plain_argument ''fd_set *'', plain_argument ''struct timespec *'',
        plain_argument ''void *''] TRACE_DESC,
     signature 271 ''ppoll'' [plain_argument ''struct pollfd *'', plain_argument ''unsigned int'',
        plain_argument ''struct timespec *'', plain_argument ''const sigset_t *'',
        plain_argument ''size_t''] TRACE_DESC,
     signature 272 ''unshare'' [plain_argument ''unsigned long''] TRACE_PROCESS,
     signature 273 ''set_robust_list'' [plain_argument ''struct robust_list_head *'',
        plain_argument ''size_t''] 0]"

definition signatures_274 :: "syscall_signature list" where
  "signatures_274 =
    [signature 274 ''get_robust_list'' [plain_argument ''int'',
        plain_argument ''struct robust_list_head * *'', plain_argument ''size_t *''] 0,
     signature 275 ''splice'' [plain_argument ''int'', plain_argument ''loff_t *'', plain_argument ''int'',
        plain_argument ''loff_t *'', plain_argument ''size_t'',
        plain_argument ''unsigned int''] TRACE_DESC,
     signature 276 ''tee'' [plain_argument ''int'', plain_argument ''int'', plain_argument ''size_t'',
        plain_argument ''unsigned int''] TRACE_DESC,
     signature 277 ''sync_file_range'' [plain_argument ''int'', plain_argument ''loff_t'',
        plain_argument ''loff_t'', plain_argument ''unsigned int''] TRACE_DESC,
     signature 278 ''vmsplice'' [plain_argument ''int'', plain_argument ''const struct iovec *'',
        plain_argument ''unsigned long'', plain_argument ''unsigned int''] TRACE_DESC,
     signature 279 ''move_pages'' [plain_argument ''pid_t'', plain_argument ''unsigned long'',
        plain_argument ''const void * *'', plain_argument ''const int *'', plain_argument ''int *'',
        plain_argument ''int''] TRACE_MEMORY,
     signature 280 ''utimensat'' [plain_argument ''int'', path_argument, plain_argument ''struct timespec *'',
        plain_argument ''int''] (TRACE_DESC OR TRACE_FILE),
     signature 281 ''epoll_pwait'' [plain_argument ''int'', plain_argument ''struct epoll_event *'',
        plain_argument ''int'', plain_argument ''int'', plain_argument ''const sigset_t *'',
        plain_argument ''size_t''] TRACE_DESC,
     signature 282 ''signalfd'' [plain_argument ''int'', plain_argument ''sigset_t *'',
        plain_argument ''size_t''] (TRACE_DESC OR TRACE_SIGNAL),
     signature 283 ''timerfd_create'' [plain_argument ''int'', plain_argument ''int''] TRACE_DESC,
     signature 284 ''eventfd'' [plain_argument ''unsigned int''] TRACE_DESC,
     signature 285 ''fallocate'' [plain_argument ''int'', plain_argument ''int'', plain_argument ''loff_t'',
        plain_argument ''loff_t''] TRACE_DESC]"

definition signatures_286 :: "syscall_signature list" where
  "signatures_286 =
    [signature 286 ''timerfd_settime'' [plain_argument ''int'', plain_argument ''int'',
        plain_argument ''const struct itimerspec *'', plain_argument ''struct itimerspec *''] TRACE_DESC,
     signature 287 ''timerfd_gettime'' [plain_argument ''int'',
        plain_argument ''struct itimerspec *''] TRACE_DESC,
     signature 288 ''accept4'' [plain_argument ''int'', plain_argument ''struct sockaddr *'',
        plain_argument ''int *'', plain_argument ''int''] TRACE_NETWORK,
     signature 289 ''signalfd4'' [plain_argument ''int'', plain_argument ''sigset_t *'',
        plain_argument ''size_t'', plain_argument ''int''] (TRACE_DESC OR TRACE_SIGNAL),
     signature 290 ''eventfd2'' [plain_argument ''unsigned int'', plain_argument ''int''] TRACE_DESC,
     signature 291 ''epoll_create1'' [plain_argument ''int''] TRACE_DESC,
     signature 292 ''dup3'' [plain_argument ''unsigned int'', plain_argument ''unsigned int'',
        plain_argument ''int''] TRACE_DESC,
     signature 293 ''pipe2'' [plain_argument ''int *'', plain_argument ''int''] TRACE_DESC,
     signature 294 ''inotify_init1'' [plain_argument ''int''] TRACE_DESC,
     signature 295 ''preadv'' [plain_argument ''unsigned long'', plain_argument ''const struct iovec *'',
        plain_argument ''unsigned long'', plain_argument ''unsigned long'',
        plain_argument ''unsigned long''] TRACE_DESC,
     signature 296 ''pwritev'' [plain_argument ''unsigned long'', plain_argument ''const struct iovec *'',
        plain_argument ''unsigned long'', plain_argument ''unsigned long'',
        plain_argument ''unsigned long''] TRACE_DESC,
     signature 297 ''rt_tgsigqueueinfo'' [plain_argument ''pid_t'', plain_argument ''pid_t'',
        plain_argument ''int'', plain_argument ''siginfo_t *''] (TRACE_PROCESS OR TRACE_SIGNAL),
     signature 298 ''perf_event_open'' [plain_argument ''struct perf_event_attr *'', plain_argument ''pid_t'',
        plain_argument ''int'', plain_argument ''int'', plain_argument ''unsigned long''] TRACE_DESC]"

definition signatures_299 :: "syscall_signature list" where
  "signatures_299 =
    [signature 299 ''recvmmsg'' [plain_argument ''int'', plain_argument ''struct mmsghdr *'',
        plain_argument ''unsigned int'', plain_argument ''unsigned'',
        plain_argument ''struct timespec *''] TRACE_NETWORK,
     signature 300 ''fanotify_init'' [plain_argument ''unsigned int'',
        plain_argument ''unsigned int''] TRACE_DESC,
     signature 301 ''fanotify_mark'' [plain_argument ''int'', plain_argument ''unsigned int'',
        plain_argument ''__u64'', plain_argument ''int'', path_argument] (TRACE_DESC OR TRACE_FILE),
     signature 302 ''prlimit64'' [plain_argument ''pid_t'', plain_argument ''unsigned int'',
        plain_argument ''const struct rlimit64 *'', plain_argument ''struct rlimit64 *''] 0,
     signature 303 ''name_to_handle_at'' [plain_argument ''int'', plain_argument ''const char *'',
        plain_argument ''struct file_handle *'', plain_argument ''int *'',
        plain_argument ''int''] (TRACE_DESC OR TRACE_FILE),
     signature 304 ''open_by_handle_at'' [plain_argument ''int'', plain_argument ''struct file_handle *'',
        plain_argument ''int''] TRACE_DESC,
     signature 305 ''clock_adjtime'' [plain_argument ''clockid_t'', plain_argument ''struct timex *''] 0,
     signature 306 ''syncfs'' [plain_argument ''int''] TRACE_DESC,
     signature 307 ''sendmmsg'' [plain_argument ''int'', plain_argument ''struct mmsghdr *'',
        plain_argument ''unsigned int'', plain_argument ''unsigned''] TRACE_NETWORK,
     signature 308 ''setns'' [plain_argument ''int'', plain_argument ''int''] TRACE_DESC,
     signature 309 ''getcpu'' [plain_argument ''unsigned *'', plain_argument ''unsigned *'',
        plain_argument ''struct getcpu_cache *''] 0,
     signature 310 ''process_vm_readv'' [plain_argument ''pid_t'', plain_argument ''const struct iovec *'',
        plain_argument ''unsigned long'', plain_argument ''const struct iovec *'',
        plain_argument ''unsigned long'', plain_argument ''unsigned long''] 0]"

definition signatures_311 :: "syscall_signature list" where
  "signatures_311 =
    [signature 311 ''process_vm_writev'' [plain_argument ''pid_t'', plain_argument ''const struct iovec *'',
        plain_argument ''unsigned long'', plain_argument ''const struct iovec *'',
        plain_argument ''unsigned long'', plain_argument ''unsigned long''] 0,
     signature 312 ''kcmp'' [plain_argument ''pid_t'', plain_argument ''pid_t'', plain_argument ''int'',
        plain_argument ''unsigned long'', plain_argument ''unsigned long''] 0,
     signature 313 ''finit_module'' [plain_argument ''int'', plain_argument ''const char *'',
        plain_argument ''int''] TRACE_DESC,
     signature 314 ''sched_setattr'' [plain_argument ''pid_t'', plain_argument ''struct sched_attr *'',
        plain_argument ''unsigned int''] 0,
     signature 315 ''sched_getattr'' [plain_argument ''pid_t'', plain_argument ''struct sched_attr *'',
        plain_argument ''unsigned int'', plain_argument ''unsigned int''] 0,
     signature 316 ''renameat2'' [plain_argument ''int'', path_argument, plain_argument ''int'',
        path_argument, plain_argument ''unsigned int''] (TRACE_DESC OR TRACE_FILE),
     signature 317 ''seccomp'' [plain_argument ''unsigned int'', plain_argument ''unsigned int'',
        plain_argument ''const char *''] 0,
     signature 318 ''getrandom'' [out_argument ''char *'', plain_argument ''size_t'',
        plain_argument ''unsigned int''] 0,
     signature 319 ''memfd_create'' [plain_argument ''const char *'', plain_argument ''unsigned int''] TRACE_DESC,
     signature 320 ''kexec_file_load'' [plain_argument ''int'', plain_argument ''int'',
        plain_argument ''unsigned long'', plain_argument ''const char *'',
        plain_argument ''unsigned long''] TRACE_DESC,
     signature 321 ''bpf'' [plain_argument ''int'', plain_argument ''union bpf_attr *'',
        plain_argument ''unsigned int''] TRACE_DESC,
     signature 322 ''execveat'' [plain_argument ''int'', path_argument,
        plain_argument ''const char * const *'', plain_argument ''const char * const *'',
        plain_argument ''int''] (TRACE_DESC OR TRACE_FILE OR TRACE_PROCESS OR STACKTRACE_CAPTURE_ON_ENTER OR STACKTRACE_INVALIDATE_CACHE)]"

definition signatures_323 :: "syscall_signature list" where
  "signatures_323 =
    [signature 323 ''userfaultfd'' [plain_argument ''int''] TRACE_DESC,
     signature 324 ''membarrier'' [plain_argument ''int'', plain_argument ''int''] 0,
     signature 325 ''mlock2'' [plain_argument ''unsigned long'', plain_argument ''size_t'',
        plain_argument ''int''] TRACE_MEMORY,
     signature 326 ''copy_file_range'' [plain_argument ''int'', plain_argument ''loff_t *'',
        plain_argument ''int'', plain_argument ''loff_t *'', plain_argument ''size_t'',
        plain_argument ''unsigned int''] TRACE_DESC,
     signature 327 ''preadv2'' [plain_argument ''unsigned long'', plain_argument ''const struct iovec *'',
        plain_argument ''unsigned long'', plain_argument ''unsigned long'',
        plain_argument ''unsigned long'', plain_argument ''int''] TRACE_DESC,
     signature 328 ''pwritev2'' [plain_argument ''unsigned long'', plain_argument ''const struct iovec *'',
        plain_argument ''unsigned long'', plain_argument ''unsigned long'',
        plain_argument ''unsigned long'', plain_argument ''int''] TRACE_DESC,
     signature 329 ''pkey_mprotect'' [plain_argument ''unsigned long'', plain_argument ''size_t'',
        plain_argument ''unsigned long'',
        plain_argument ''int''] (TRACE_MEMORY OR STACKTRACE_INVALIDATE_CACHE),
     signature 330 ''pkey_alloc'' [plain_argument ''unsigned long'', plain_argument ''unsigned long''] 0,
     signature 331 ''pkey_free'' [plain_argument ''int''] 0,
     unknown 332 ''statx'' [] (TRACE_DESC OR TRACE_FILE)]"

definition syscall_signatures :: "syscall_signature list" where
  "syscall_signatures = concat
    [signatures_0, signatures_13, signatures_26, signatures_40, signatures_53, signatures_66,
     signatures_80, signatures_94, signatures_109, signatures_124, signatures_138, signatures_153,
     signatures_167, signatures_182, signatures_195, signatures_209, signatures_223, signatures_237,
     signatures_249, signatures_262, signatures_274, signatures_286, signatures_299, signatures_311,
     signatures_323]"

definition syscall_table :: signature_table where
  "syscall_table n = (if n < length syscall_signatures then Some (syscall_signatures ! n) else None)"

section \<open>What the entries have in common\<close>

definition marked :: "argument_info \<Rightarrow> bool" where
  "marked a \<longleftrightarrow> ai_flags a AND ARGUMENT_F_PATHNAME \<noteq> 0"

text \<open>The arguments fit the six registers; a marked one is a string that can be read; a call that has one is known and, but
  for \<open>inotify_add_watch\<close>, one of those the sandbox looks at.\<close>

definition entry_ok :: "syscall_signature \<Rightarrow> bool" where
  "entry_ok sig \<longleftrightarrow> length (ss_args sig) \<le> 6 \<and>
     list_all (\<lambda>a. marked a \<longrightarrow> is_readable_string a) (ss_args sig) \<and>
     (list_ex marked (ss_args sig) \<longrightarrow> ss_complete sig \<and> (ss_flags sig AND TRACE_FILE \<noteq> 0 \<or> ss_number sig = 254))"

lemma table_numbers: "map ss_number syscall_signatures = map int [0..<333]"
  by code_simp

lemma entries_ok_0:
  "list_all entry_ok signatures_0"
  "list_all entry_ok signatures_13"
  "list_all entry_ok signatures_26"
  "list_all entry_ok signatures_40"
  "list_all entry_ok signatures_53"
  by code_simp+

lemma entries_ok_5:
  "list_all entry_ok signatures_66"
  "list_all entry_ok signatures_80"
  "list_all entry_ok signatures_94"
  "list_all entry_ok signatures_109"
  "list_all entry_ok signatures_124"
  by code_simp+

lemma entries_ok_10:
  "list_all entry_ok signatures_138"
  "list_all entry_ok signatures_153"
  "list_all entry_ok signatures_167"
  "list_all entry_ok signatures_182"
  "list_all entry_ok signatures_195"
  by code_simp+

lemma entries_ok_15:
  "list_all entry_ok signatures_209"
  "list_all entry_ok signatures_223"
  "list_all entry_ok signatures_237"
  "list_all entry_ok signatures_249"
  "list_all entry_ok signatures_262"
  by code_simp+

lemma entries_ok_20:
  "list_all entry_ok signatures_274"
  "list_all entry_ok signatures_286"
  "list_all entry_ok signatures_299"
  "list_all entry_ok signatures_311"
  "list_all entry_ok signatures_323"
  by code_simp+

lemma entries_ok: "list_all entry_ok syscall_signatures"
  by (simp add: syscall_signatures_def entries_ok_0 entries_ok_5 entries_ok_10 entries_ok_15 entries_ok_20)

lemma table_entry:
  assumes "n < 333"
  shows "\<exists>sig. syscall_table n = Some sig \<and> ss_number sig = int n \<and> entry_ok sig"
proof -
  have len: "length syscall_signatures = 333" using arg_cong [OF table_numbers, of length] by simp
  have "ss_number (syscall_signatures ! n) = int n"
    using assms len arg_cong [OF table_numbers, of "\<lambda>xs. xs ! n"] by simp
  moreover have "entry_ok (syscall_signatures ! n)" using entries_ok assms len by (simp add: list_all_length)
  ultimately show ?thesis using assms len by (simp add: syscall_table_def)
qed

lemma table_end: "333 \<le> n \<Longrightarrow> syscall_table n = None"
  using arg_cong [OF table_numbers, of length] by (simp add: syscall_table_def)

text \<open>The table and the numbers of the calls. The entry that is looked up for a call is the one with its number, and it
  has no more arguments than there are registers; beyond the last entry, number 332, the array is read past its end.\<close>

lemma table_lookup_exact:
  "if unat call < 333
   then \<exists>sig. syscall_signature_of syscall_table call = Inr sig \<and> ss_number sig = int (unat call) \<and> length (ss_args sig) \<le> 6
   else syscall_signature_of syscall_table call = Inl Undefined_behaviour"
  using table_entry [of "unat call"] table_end [of "unat call"] by (auto simp: syscall_signature_of_def entry_ok_def)

text \<open>The entries that the laws of the sandbox speak of are those of the table.\<close>

lemma table_entries:
  "syscall_table 2 = Some open_signature" "syscall_table 76 = Some truncate_signature" "syscall_table 82 = Some rename_signature"
  by code_simp+

section \<open>Paths are checked\<close>

text \<open>What the arguments are after they have been read.\<close>

definition reads_path :: "nat \<Rightarrow> tracee \<Rightarrow> nat \<Rightarrow> string \<Rightarrow> bool" where
  "reads_path fuel p i path \<longleftrightarrow> bind_res (syscall_arg p i) (read_string fuel (tr_peek p)) = Inr path"

lemma fetched_path:
  assumes "fetch_arguments table fuel p c = Inr c'" and "syscall_signature_of table (si_call c) = Inr sig"
    and "i < length (ss_args sig)" and "is_readable_string (ss_args sig ! i)"
  obtains args path where "c' = c\<lparr>si_arguments := Some args\<rparr>" and "i < length args" and "ar_info (args ! i) = ss_args sig ! i"
    and "argument_string (args ! i) = Inr path" and "reads_path fuel p i path"
proof -
  from assms(1,2) obtain args where args: "map_res (fetch_argument fuel p) (enumerate 0 (ss_args sig)) = Inr args"
    and c': "c' = c\<lparr>si_arguments := Some args\<rparr>" by (auto simp: fetch_arguments_def)
  have len: "length args = length (ss_args sig)" using map_res_length [OF args] by simp
  have "fetch_argument fuel p (i, ss_args sig ! i) = Inr (args ! i)"
    using map_res_nth [OF args, of i] assms(3) by (simp add: nth_enumerate_eq)
  then obtain raw path where "syscall_arg p i = Inr raw" "read_string fuel (tr_peek p) raw = Inr path"
    "args ! i = \<lparr>ar_info = ss_args sig ! i, ar_raw = raw, ar_string = Some path, ar_long = Some raw\<rparr>"
    using assms(4) by (auto simp: fetch_argument_def)
  then show thesis using that [OF c'] assms(3) len by (simp add: argument_string_def reads_path_def)
qed

lemma file_syscall_entry_all:
  "file_syscall_entry inode args x = Inr True \<Longrightarrow> i < length args \<Longrightarrow> marked (ar_info (args ! i)) \<Longrightarrow>
   argument_string (args ! i) = Inr path \<Longrightarrow> get_permissions inode path x \<noteq> None"
proof (induction args arbitrary: i)
  case (Cons a args)
  then show ?case by (cases i) (auto simp: marked_def split: if_splits)
qed simp

lemma check_call_ok [simp]: "check_call c status = Inr () \<longleftrightarrow> status = Inr True"
  by (cases status) (auto simp: check_call_def)

text \<open>Where the calls with checks of their own have paths.\<close>

lemma own_checks:
  "map marked (ss_args (syscall_signatures ! 2)) = [True, False, False]"
  "map marked (ss_args (syscall_signatures ! 82)) = [True, True]"
  "map marked (ss_args (syscall_signatures ! 59)) = [True, False, False]"
  by code_simp+

lemma file_call_checks:
  assumes run: "file_call inode (c\<lparr>si_arguments := Some args\<rparr>) x = (Inr (), x')"
    and i: "i < length args" and marked: "marked (ar_info (args ! i))" and path: "argument_string (args ! i) = Inr path"
    and own: "si_call c = SYS_open \<or> si_call c = SYS_execve \<Longrightarrow> i = 0" "si_call c = SYS_rename \<Longrightarrow> i < 2"
  shows "get_permissions inode path x \<noteq> None \<or> si_call c = SYS_open \<and> path \<in> sx_candidates x'"
proof -
  have at: "argument_at (c\<lparr>si_arguments := Some args\<rparr>) i = Inr (args ! i)" using i by (simp add: argument_at_def)
  consider (on_open) "si_call c = SYS_open" | (on_rename) "si_call c = SYS_rename" | (on_execve) "si_call c = SYS_execve"
    | (other) "si_call c \<noteq> SYS_open" "si_call c \<noteq> SYS_rename" "si_call c \<noteq> SYS_execve" by blast
  then show ?thesis
  proof cases
    case on_open
    then have i: "i = 0" using own by simp
    have "open_entry inode (c\<lparr>si_arguments := Some args\<rparr>) x = Inr (True, x')"
      using run on_open by (auto simp: file_call_def split: sum.splits)
    then show ?thesis using at path on_open i by (auto simp: open_entry_def Let_def split: option.splits if_splits)
  next
    case on_rename
    then have "i = 0 \<or> i = 1" using own by auto
    then show ?thesis using run at path on_rename
      by (auto simp: file_call_def rename_entry_def SYS_open_def SYS_rename_def split: option.splits)
  next
    case on_execve
    then have "i = 0" using own by simp
    then show ?thesis using run at path on_execve
      by (auto simp: file_call_def execve_entry_def SYS_open_def SYS_rename_def SYS_execve_def split: option.splits)
  next
    case other
    then show ?thesis using run file_syscall_entry_all [OF _ i marked path] by (auto simp: file_call_def)
  qed
qed

lemma known_invocation:
  assumes "new_invocation table call = Inr c" and "syscall_signature_of table call = Inr sig" and "ss_complete sig"
  shows "si_signature c = Some sig"
  using assms by (auto simp: new_invocation_def)

text \<open>Paths are checked by the sandbox on this table. When the sandbox lets a process enter a call that has an argument marked as
  a path, and the call is not \<open>inotify_add_watch\<close>, then the call is not a forbidden one, and the string that the process has at the
  address in that argument's register is a path with a permission, or the call is an \<open>open\<close> that is to create it exclusively.\<close>

lemma marked_paths_checked:
  assumes run: "sandbox_entry syscall_table fuel ev pid f = (Inr (), f')"
    and c: "the_invocation pid f = Inr c" and new: "new_invocation syscall_table (si_call c) = Inr c"
    and sig: "syscall_table (unat (si_call c)) = Some sig" and i: "i < length (ss_args sig)"
    and path: "ai_flags (ss_args sig ! i) AND ARGUMENT_F_PATHNAME \<noteq> 0" and not_inotify: "si_call c \<noteq> 254"
  shows "si_call c \<notin> set forbidden_calls \<and>
    (\<exists>path. bind_res (syscall_arg (st_tracee ev) i) (read_string fuel (tr_peek (st_tracee ev))) = Inr path \<and>
       (get_permissions (st_inode ev) path (fl_client f) \<noteq> None \<or>
        si_call c = SYS_open \<and> path \<in> sx_candidates (fl_client f')))"
proof -
  let ?n = "unat (si_call c)" and ?p = "st_tracee ev"
  have marked: "marked (ss_args sig ! i)" using path by (simp add: marked_def)
  have n: "?n < 333" using sig table_end [of ?n] by (cases "?n < 333") auto
  then have entry: "ss_number sig = int ?n" "entry_ok sig" "sig = syscall_signatures ! ?n"
    using table_entry [OF n] sig by (auto simp: syscall_table_def split: if_splits)
  have "?n \<noteq> 254" using not_inotify by (simp add: word_unat_eq_iff)
  then have "ss_number sig \<noteq> 254" using entry(1) by linarith
  then have flags: "ss_complete sig" "ss_flags sig AND TRACE_FILE \<noteq> 0" "is_readable_string (ss_args sig ! i)"
    using entry(2) i marked by (auto simp: entry_ok_def list_all_length list_ex_length)
  have lookup: "syscall_signature_of syscall_table (si_call c) = Inr sig" using sig by (simp add: syscall_signature_of_def)
  then have "si_signature c = Some sig" using known_invocation [OF new _ flags(1)] by simp
  then have allowed: "si_call c \<notin> set forbidden_calls" and
    "\<exists>c'. fetch_arguments syscall_table fuel ?p c = Inr c' \<and> file_call (st_inode ev) c' (fl_client f) = (Inr (), fl_client f')"
    using run c flags(2)
    by (auto simp: sandbox_entry_def traced_simps split: if_splits sum.splits prod.splits)
  then obtain c' where fetched: "fetch_arguments syscall_table fuel ?p c = Inr c'"
    and called: "file_call (st_inode ev) c' (fl_client f) = (Inr (), fl_client f')" by blast
  from fetched_path [OF fetched lookup i flags(3)] obtain args path where c': "c' = c\<lparr>si_arguments := Some args\<rparr>"
    and args: "i < length args" "ar_info (args ! i) = ss_args sig ! i" "argument_string (args ! i) = Inr path"
    and reads: "reads_path fuel ?p i path" .
  have at: "map marked (ss_args (syscall_signatures ! ?n)) ! i" using marked i entry(3) by simp
  have "si_call c = SYS_open \<Longrightarrow> i = 0" "si_call c = SYS_execve \<Longrightarrow> i = 0" "si_call c = SYS_rename \<Longrightarrow> i < 2"
    using at i entry(3) own_checks
    by (auto simp: SYS_open_def SYS_execve_def SYS_rename_def nth_Cons' dest!: arg_cong [of _ _ length] split: if_splits)
  then have "get_permissions (st_inode ev) path (fl_client f) \<noteq> None \<or> si_call c = SYS_open \<and> path \<in> sx_candidates (fl_client f')"
    using file_call_checks [OF called [unfolded c'] args(1) _ args(3)] args(2) marked by auto
  then show ?thesis using allowed reads unfolding reads_path_def by blast
qed

section \<open>What the table lets through\<close>

text \<open>\<open>inotify_add_watch\<close> has a path and is not among the calls the sandbox looks at.\<close>

lemma inotify_unchecked:
  assumes "the_invocation pid f = Inr c" and "si_call c = 254" and "new_invocation syscall_table (si_call c) = Inr c"
  shows "sandbox_entry syscall_table fuel ev pid f = (Inr (), f)"
proof -
  have entry: "ss_complete (syscall_signatures ! 254)" "ss_flags (syscall_signatures ! 254) AND TRACE_FILE = 0"
    "254 < length syscall_signatures" by code_simp+
  then have "si_signature c = Some (syscall_signatures ! 254)"
    using known_invocation [OF assms(3)] assms(2) by (simp add: syscall_signature_of_def syscall_table_def)
  moreover have "(254 :: 64 word) \<notin> set forbidden_calls" by code_simp
  ultimately show ?thesis using assms(1,2) entry(2) by (simp add: sandbox_entry_def traced_simps)
qed

text \<open>\<open>acct\<close> is one of these, but its path is not marked.\<close>

lemma acct_unchecked:
  assumes "si_call c = 163" and "si_arguments c = Some args" and "map ar_info args = ss_args (syscall_signatures ! 163)"
  shows "file_call inode c x = (Inr (), x)"
proof -
  have "ss_args (syscall_signatures ! 163) = [plain_argument ''const char *'']" by code_simp
  then obtain a where "args = [a]" "ai_flags (ar_info a) = 0"
    using assms(3) by (auto simp: plain_argument_def)
  then show ?thesis using assms(1,2) by (simp add: file_call_def SYS_open_def SYS_rename_def SYS_execve_def check_call_def)
qed

text \<open>Newer calls, like \<open>openat2\<close>, \<open>faccessat2\<close> or \<open>clone3\<close>, are beyond the end of the array.\<close>

lemma newer_calls_undefined:
  assumes "call \<in> {334, 435, 437, 439}"
  shows "new_invocation syscall_table call = Inl Undefined_behaviour"
  using assms table_end by (auto simp: new_invocation_def syscall_signature_of_def)

section \<open>A process that opens a file\<close>

definition truncating :: syscall_invocation where
  "truncating = projr (new_invocation syscall_table 76)"

definition entering :: "sandbox flock" where
  "entering = (new_flock 7 (new_sandbox (\<lambda>_. None) [(''a'', perms False True False)]))\<lparr>fl_tracers :=
     [(7, new_process_tracer\<lparr>pt_invocation := Some truncating\<rparr>)]\<rparr>"

text \<open>The process is about to call \<open>truncate\<close> with the address of \<open>a\<close>.\<close>

definition truncate_stop :: stop where
  "truncate_stop = stopped_with 7 133 \<lparr>tr_args = [0, 0, 0, 0, 0, 0], tr_orig_rax = 76, tr_rax = 0, tr_peek = (\<lambda>_. Some 97),
     tr_message = 0\<rparr> (\<lambda>_. None)"

lemma truncating_known:
  "si_call truncating = 76" "new_invocation syscall_table 76 = Inr truncating"
  "the_invocation 7 entering = Inr truncating"
  by code_simp+

lemma truncate_allowed: "case sandbox_entry syscall_table 1 truncate_stop 7 entering of (r, _) \<Rightarrow> r = Inr ()"
  by code_simp

lemma marked_paths_checked_witness:
  "\<exists>f'. sandbox_entry syscall_table 1 truncate_stop 7 entering = (Inr (), f') \<and>
     (\<exists>path. bind_res (syscall_arg (st_tracee truncate_stop) 0) (read_string 1 (tr_peek (st_tracee truncate_stop))) = Inr path \<and>
        get_permissions (st_inode truncate_stop) path (fl_client entering) \<noteq> None)"
proof -
  obtain f' where run: "sandbox_entry syscall_table 1 truncate_stop 7 entering = (Inr (), f')"
    using truncate_allowed by (cases "sandbox_entry syscall_table 1 truncate_stop 7 entering") auto
  have "unat (76 :: 64 word) = 76" "(76 :: 64 word) \<noteq> 254" "SYS_open \<noteq> 76" by (simp_all add: SYS_open_def)
  moreover have "ai_flags (ss_args truncate_signature ! 0) AND ARGUMENT_F_PATHNAME \<noteq> 0" "0 < length (ss_args truncate_signature)"
    by (simp_all add: truncate_signature_def path_argument_def ARGUMENT_F_PATHNAME_def)
  ultimately show ?thesis
    using marked_paths_checked [OF run truncating_known(3), of truncate_signature 0] truncating_known table_entries(2) run by fastforce
qed

end
