(* ===== verification/GccBase.thy ===== *)
theory GccBase
  imports ThunkIO
begin

text \<open>
  Languages, stages and file names of the gcc model (\<open>src/models/gcc-base.cc\<close>, the types of
  \<open>gcc.hh\<close>, \<open>timeouts.hh\<close>).
\<close>

datatype gcc_stage = PREPROCESS | COMPILE | ASSEMBLE | LINK

fun stage_num :: "gcc_stage \<Rightarrow> nat" where
  "stage_num PREPROCESS = 1"
| "stage_num COMPILE = 2"
| "stage_num ASSEMBLE = 3"
| "stage_num LINK = 4"

instantiation gcc_stage :: linorder
begin

definition less_eq_gcc_stage :: "gcc_stage \<Rightarrow> gcc_stage \<Rightarrow> bool" where
  "less_eq_gcc_stage a b \<longleftrightarrow> stage_num a \<le> stage_num b"

definition less_gcc_stage :: "gcc_stage \<Rightarrow> gcc_stage \<Rightarrow> bool" where
  "less_gcc_stage a b \<longleftrightarrow> stage_num a < stage_num b"

instance
proof
  fix a b :: gcc_stage
  assume "a \<le> b" and "b \<le> a"
  then show "a = b" by (cases a; cases b) (simp_all add: less_eq_gcc_stage_def)
qed (auto simp: less_eq_gcc_stage_def less_gcc_stage_def)

end

datatype gcc_language =
    Lang_none
  | C_source | C_header | Cpp_output
  | CXX_source | CXX_header | CXX_cpp_output
  | Assembler | Assembler_with_cpp
  | Object_file | Shared_object | Archive_library | Shared_library

datatype operation_mode = GCC_mode | GXX_mode

text \<open>The tables; the first entry of a key counts.\<close>

definition ext_to_lang :: "(string \<times> gcc_language) list" where
  "ext_to_lang =
     [(''c'', C_source), (''h'', C_header), (''i'', Cpp_output), (''C'', CXX_source), (''cc'', CXX_source),
      (''cxx'', CXX_source), (''cpp'', CXX_source), (''CPP'', CXX_source), (''c++'', CXX_source),
      (''ii'', CXX_cpp_output), (''s'', Assembler), (''S'', Assembler_with_cpp), (''sx'', Assembler_with_cpp),
      (''o'', Object_file), (''so'', Shared_object), (''sho'', Object_file), (''lo'', Object_file),
      (''a'', Archive_library)]"

definition name_to_lang :: "(string \<times> gcc_language) list" where
  "name_to_lang =
     [(''none'', Lang_none), (''c'', C_source), (''c-header'', C_header), (''cpp-output'', Cpp_output),
      (''c++'', CXX_source), (''c++-header'', CXX_header), (''c++-cpp-output'', CXX_cpp_output),
      (''assembler'', Assembler), (''assembler-with-cpp'', Assembler_with_cpp)]"

definition lang_to_name :: "(gcc_language \<times> string) list" where
  "lang_to_name =
     [(Lang_none, ''none''), (C_source, ''c''), (C_header, ''c-header''), (Cpp_output, ''cpp-output''),
      (CXX_source, ''c++''), (CXX_header, ''c++-header''), (CXX_cpp_output, ''c++-cpp-output''),
      (Assembler, ''assembler''), (Assembler_with_cpp, ''assembler-with-cpp'')]"

definition gnu_basename :: "string \<Rightarrow> string" where
  "gnu_basename p = rev (takeWhile (\<lambda>c. c \<noteq> CHR ''/'') (rev p))"

definition split_source_name :: "string \<Rightarrow> (string \<times> string) res" where
  "split_source_name p =
     (let filename = gnu_basename p
      in case rfind_char CHR ''.'' filename of
           None \<Rightarrow> Inl (Runtime_error (''missing extension in filename: '' @ p))
         | Some pos \<Rightarrow> Inr (take pos filename, drop (pos + 1) filename))"

definition filename_to_language :: "string \<Rightarrow> gcc_language res" where
  "filename_to_language p =
     bind_res (split_source_name p) (\<lambda>(_, extension).
       case map_of ext_to_lang extension of
         Some lang \<Rightarrow> Inr lang
       | None \<Rightarrow>
           if matches_so_pattern p then Inr Shared_object
           else Inl (Runtime_error (''unknown file extension: '' @ p)))"

definition name_to_language :: "string \<Rightarrow> gcc_language res" where
  "name_to_language name =
     (case map_of name_to_lang name of
        Some lang \<Rightarrow> Inr lang
      | None \<Rightarrow> Inl (Runtime_error (''unknown language name: '' @ name)))"

definition language_to_name :: "gcc_language \<Rightarrow> string res" where
  "language_to_name lang =
     (case map_of lang_to_name lang of
        Some name \<Rightarrow> Inr name
      | None \<Rightarrow> Inl (Runtime_error ''unknown language''))"

definition language_to_stage :: "gcc_language \<Rightarrow> gcc_stage res" where
  "language_to_stage lang =
     (if lang \<in> {C_source, CXX_source, C_header, CXX_header, Assembler_with_cpp} then Inr PREPROCESS
      else if lang \<in> {Cpp_output, CXX_cpp_output} then Inr COMPILE
      else if lang = Assembler then Inr ASSEMBLE
      else if lang \<in> {Object_file, Shared_object} then Inr LINK
      else Inl (Runtime_error ''unknown language''))"

definition stage_output_name :: "gcc_stage \<Rightarrow> string \<Rightarrow> string" where
  "stage_output_name stage base =
     base @ (case stage of PREPROCESS \<Rightarrow> ''.i'' | COMPILE \<Rightarrow> ''.s'' | ASSEMBLE \<Rightarrow> ''.o'' | LINK \<Rightarrow> ''.out'')"

definition environment_or_blank :: "(string \<rightharpoonup> string) \<Rightarrow> string \<Rightarrow> string" where
  "environment_or_blank environ name =
     (case environ name of Some value \<Rightarrow> name @ ''='' @ value | None \<Rightarrow> name @ ''='')"

definition error_if :: "(string \<rightharpoonup> string) \<Rightarrow> string \<Rightarrow> unit res" where
  "error_if environ name =
     (if environ name \<noteq> None then Inl (Runtime_error (''unsupported environment variable: '' @ name)) else Inr ())"

definition verify_no_unhandled_environment_variables :: "(string \<rightharpoonup> string) \<Rightarrow> unit res" where
  "verify_no_unhandled_environment_variables environ =
     fold_res (\<lambda>name _. error_if environ name)
       [''CPATH'', ''C_INCLUDE_PATH'', ''CPLUS_INCLUDE_PATH'', ''OBJC_INCLUDE_PATH'', ''DEPENDENCIES_OUTPUT'',
        ''SUNPRO_DEPENDENCIES'', ''SOURCE_DATE_EPOCH'', ''GCC_EXEC_PREFIX'', ''COMPILER_PATH'', ''LIBRARY_PATH''] ()"

definition gcc_environment :: "(string \<rightharpoonup> string) \<Rightarrow> string list res" where
  "gcc_environment environ =
     bind_res (verify_no_unhandled_environment_variables environ) (\<lambda>_.
       Inr (map (environment_or_blank environ) [''LANG'', ''LC_CTYPE'', ''LC_MESSAGES'', ''LC_ALL'']))"

text \<open>In milliseconds.\<close>

definition VERY_SHORT_TIMEOUT :: int where "VERY_SHORT_TIMEOUT = 5000"
definition SHORT_TIMEOUT :: int where "SHORT_TIMEOUT = 7500"
definition LONG_TIMEOUT :: int where "LONG_TIMEOUT = 12500"
definition VERY_LONG_TIMEOUT :: int where "VERY_LONG_TIMEOUT = 17500"
definition DEPGEN_TIMEOUT :: int where "DEPGEN_TIMEOUT = VERY_LONG_TIMEOUT"
definition PREPROCESS_TIMEOUT :: int where "PREPROCESS_TIMEOUT = LONG_TIMEOUT"
definition COMPILE_TIMEOUT :: int where "COMPILE_TIMEOUT = SHORT_TIMEOUT"
definition ASSEMBLE_TIMEOUT :: int where "ASSEMBLE_TIMEOUT = SHORT_TIMEOUT"
definition LINK_TIMEOUT :: int where "LINK_TIMEOUT = VERY_SHORT_TIMEOUT"

section \<open>Names and languages agree\<close>

lemma language_name_roundtrip: "language_to_name lang = Inr name \<Longrightarrow> name_to_language name = Inr lang"
  by (cases lang) (auto simp: language_to_name_def name_to_language_def lang_to_name_def name_to_lang_def)

lemma staged_languages_have_names:
  "language_to_stage lang = Inr stage \<Longrightarrow> stage < LINK \<Longrightarrow> \<exists>name. language_to_name lang = Inr name"
  by (cases lang) (auto simp: language_to_stage_def language_to_name_def lang_to_name_def less_gcc_stage_def)

end
