(* ===== verification/Getopt.thy ===== *)
theory Getopt
  imports Prelude
begin

text \<open>
  \<open>getopt_long\<close> and \<open>getopt_long_only\<close> of the C library, as the models of the build tools use them: the
  string of short options starts with a dash, so operands are returned in order with the code 1.
  Long options may be abbreviated; with \<open>getopt_long_only\<close> one dash is enough. Error messages are off.
\<close>

datatype has_arg = No_argument | Required_argument | Optional_argument

record long_option =
  lo_name :: string
  lo_has_arg :: has_arg
  lo_val :: int

text \<open>\<open>gs_ind\<close> is \<open>optind\<close>, \<open>gs_next\<close> what is left of an argument with several short options.\<close>

record getopt_state =
  gs_argv :: "string list"
  gs_ind :: nat
  gs_next :: string

definition opt_end :: int where "opt_end = - 1"
definition opt_operand :: int where "opt_operand = 1"
definition opt_unknown :: int where "opt_unknown = 63"

definition char_val :: "char \<Rightarrow> int" where
  "char_val c = int (of_char c)"

text \<open>\<open>optstring\<close> is what follows the leading dash. A missing argument is reported with a colon when the
  string starts with one.\<close>

definition missing_code :: "string \<Rightarrow> int" where
  "missing_code optstring = (if take 1 optstring = '':'' then char_val CHR '':'' else opt_unknown)"

definition found_long ::
  "string \<Rightarrow> long_option \<Rightarrow> string \<Rightarrow> getopt_state \<Rightarrow> int \<times> string option \<times> getopt_state" where
  "found_long optstring p rest st =
     (let st1 = st\<lparr>gs_ind := gs_ind st + 1, gs_next := []\<rparr>
      in if rest \<noteq> [] then
           (if lo_has_arg p \<noteq> No_argument then (lo_val p, Some (tl rest), st1) else (opt_unknown, None, st1))
         else if lo_has_arg p = Required_argument then
           (if gs_ind st1 < length (gs_argv st1)
            then (lo_val p, Some (gs_argv st1 ! gs_ind st1), st1\<lparr>gs_ind := gs_ind st1 + 1\<rparr>)
            else (missing_code optstring, None, st1))
         else (lo_val p, None, st1))"

text \<open>\<open>process_long_option\<close>; \<open>None\<close> means that it is to be taken as a short option.\<close>

definition process_long_option ::
  "string \<Rightarrow> long_option list \<Rightarrow> bool \<Rightarrow> bool \<Rightarrow> string \<Rightarrow> getopt_state \<Rightarrow>
     (int \<times> string option \<times> getopt_state) option" where
  "process_long_option optstring longopts long_only dashdash next st =
     (let name = takeWhile (\<lambda>c. c \<noteq> CHR ''='') next;
          rest = dropWhile (\<lambda>c. c \<noteq> CHR ''='') next;
          unknown = (opt_unknown, None, st\<lparr>gs_ind := gs_ind st + 1, gs_next := []\<rparr>)
      in case filter (\<lambda>p. lo_name p = name) longopts of
           p # _ \<Rightarrow> Some (found_long optstring p rest st)
         | [] \<Rightarrow>
             (case filter (\<lambda>p. prefix name (lo_name p)) longopts of
                [] \<Rightarrow> if \<not> long_only \<or> dashdash \<or> hd next \<notin> set optstring then Some unknown else None
              | p # ps \<Rightarrow>
                  if \<exists>q \<in> set ps. long_only \<or> lo_has_arg q \<noteq> lo_has_arg p \<or> lo_val q \<noteq> lo_val p
                  then Some unknown else Some (found_long optstring p rest st)))"

text \<open>The next short option of \<open>gs_next\<close>, which is not empty.\<close>

definition short_option ::
  "string \<Rightarrow> getopt_state \<Rightarrow> int \<times> string option \<times> getopt_state" where
  "short_option optstring st =
     (let c = hd (gs_next st); rest = tl (gs_next st);
          temp = dropWhile (\<lambda>x. x \<noteq> c) optstring;
          st1 = st\<lparr>gs_next := rest, gs_ind := (if rest = [] then gs_ind st + 1 else gs_ind st)\<rparr>
      in if temp = [] \<or> c = CHR '':'' \<or> c = CHR '';'' then (opt_unknown, None, st1)
         else if take 1 (tl temp) = '':'' then
           (if take 1 (tl (tl temp)) = '':'' then
              (if rest \<noteq> [] then (char_val c, Some rest, st1\<lparr>gs_next := [], gs_ind := gs_ind st1 + 1\<rparr>)
               else (char_val c, None, st1))
            else if rest \<noteq> [] then (char_val c, Some rest, st1\<lparr>gs_next := [], gs_ind := gs_ind st1 + 1\<rparr>)
            else if gs_ind st1 = length (gs_argv st1) then (missing_code optstring, None, st1)
            else (char_val c, Some (gs_argv st1 ! gs_ind st1), st1\<lparr>gs_ind := gs_ind st1 + 1\<rparr>))
         else (char_val c, None, st1))"

definition is_operand :: "string \<Rightarrow> bool" where
  "is_operand arg \<longleftrightarrow> take 1 arg \<noteq> ''-'' \<or> length arg = 1"

definition getopt ::
  "string \<Rightarrow> long_option list \<Rightarrow> bool \<Rightarrow> getopt_state \<Rightarrow> int \<times> string option \<times> getopt_state" where
  "getopt optstring longopts long_only st =
     (if gs_next st \<noteq> [] then short_option optstring st
      else if gs_ind st \<ge> length (gs_argv st) then (opt_end, None, st)
      else let arg = gs_argv st ! gs_ind st
           in if arg = ''--'' then (opt_end, None, st\<lparr>gs_ind := length (gs_argv st)\<rparr>)
              else if is_operand arg then (opt_operand, Some arg, st\<lparr>gs_ind := gs_ind st + 1\<rparr>)
              else let short = short_option optstring (st\<lparr>gs_next := drop 1 arg\<rparr>)
                   in if arg ! 1 = CHR ''-'' then
                        (case process_long_option optstring longopts long_only True (drop 2 arg) st of
                           Some r \<Rightarrow> r | None \<Rightarrow> short)
                      else if long_only \<and> (length arg > 2 \<or> arg ! 1 \<notin> set optstring) then
                        (case process_long_option optstring longopts long_only False (drop 1 arg) st of
                           Some r \<Rightarrow> r | None \<Rightarrow> short)
                      else short)"

section \<open>Every call uses something up\<close>

definition weight :: "string list \<Rightarrow> nat" where
  "weight args = sum_list (map (\<lambda>a. length a + 1) args)"

definition left_over :: "getopt_state \<Rightarrow> nat" where
  "left_over st =
     (if gs_next st = [] then weight (drop (gs_ind st) (gs_argv st))
      else weight (drop (Suc (gs_ind st)) (gs_argv st)) + length (gs_next st))"

lemma weight_drop_Suc: "n < length xs \<Longrightarrow> weight (drop n xs) = length (xs ! n) + 1 + weight (drop (Suc n) xs)"
  by (simp add: weight_def Cons_nth_drop_Suc [symmetric])

lemma weight_drop_mono: "weight (drop (Suc n) xs) \<le> weight (drop n xs)"
proof (cases "n < length xs")
  case True
  then show ?thesis using weight_drop_Suc [OF True] by linarith
qed (simp add: weight_def)

lemma left_over_fresh: "left_over \<lparr>gs_argv = args, gs_ind = n, gs_next = []\<rparr> = weight (drop n args)"
  by (simp add: left_over_def)

lemma found_long_argv: "found_long optstring p rest st = (opt, arg, st') \<Longrightarrow> gs_argv st' = gs_argv st"
  by (auto simp: found_long_def Let_def split: if_splits)

lemma found_long_uses:
  assumes "found_long optstring p rest st = (opt, arg, st')"
  shows "left_over st' \<le> weight (drop (Suc (gs_ind st)) (gs_argv st))"
  using assms weight_drop_mono [of "Suc (gs_ind st)" "gs_argv st"]
  by (auto simp: found_long_def left_over_def Let_def split: if_splits)

lemma process_long_option_uses:
  assumes "process_long_option optstring longopts long_only dashdash next st = Some (opt, arg, st')"
  shows "left_over st' \<le> weight (drop (Suc (gs_ind st)) (gs_argv st)) \<and> gs_argv st' = gs_argv st"
  using assms found_long_uses [of optstring _ _ st opt arg st'] found_long_argv [of optstring _ _ st opt arg st']
  by (auto simp: process_long_option_def Let_def left_over_def split: list.splits if_splits)

lemma short_option_uses:
  assumes "short_option optstring st = (opt, arg, st')" and "gs_next st \<noteq> []"
  shows "left_over st' < weight (drop (Suc (gs_ind st)) (gs_argv st)) + length (gs_next st) \<and> gs_argv st' = gs_argv st"
  using assms weight_drop_mono [of "Suc (gs_ind st)" "gs_argv st"]
  by (cases "gs_next st") (auto simp: short_option_def left_over_def Let_def split: if_splits)

text \<open>So a loop that calls it until the end ends.\<close>

lemma getopt_uses:
  assumes "getopt optstring longopts long_only st = (opt, arg, st')" and "opt \<noteq> opt_end"
  shows "left_over st' < left_over st"
proof (cases "gs_next st = []")
  case False
  then show ?thesis using assms(1) short_option_uses [of optstring st opt arg st'] by (simp add: getopt_def left_over_def)
next
  case True
  then have ind: "gs_ind st < length (gs_argv st)" using assms by (auto simp: getopt_def split: if_splits)
  let ?a = "gs_argv st ! gs_ind st"
  have whole: "left_over st = length ?a + 1 + weight (drop (Suc (gs_ind st)) (gs_argv st))"
    using True ind by (simp add: left_over_def weight_drop_Suc)
  have short: "left_over st' < left_over st"
    if "short_option optstring (st\<lparr>gs_next := drop 1 ?a\<rparr>) = (opt, arg, st')" "\<not> is_operand ?a"
  proof -
    have "drop 1 ?a \<noteq> []" using that(2) by (cases ?a) (auto simp: is_operand_def)
    then show ?thesis using short_option_uses [OF that(1)] whole by simp linarith
  qed
  have long: "left_over st' < left_over st"
    if "process_long_option optstring longopts long_only dd nx st = Some (opt, arg, st')" for dd nx
    using process_long_option_uses [OF that] whole by simp
  show ?thesis
  proof (cases "?a = ''--'' \<or> is_operand ?a")
    case True
    then show ?thesis using assms \<open>gs_next st = []\<close> ind whole
      by (auto simp: getopt_def Let_def left_over_def split: if_splits)
  next
    case False
    then show ?thesis using assms(1) \<open>gs_next st = []\<close> ind short long
      by (auto simp: getopt_def Let_def split: if_splits option.splits)
  qed
qed

section \<open>Operands and what follows a double dash\<close>

text \<open>After a double dash nothing is returned any more, not even the operands.\<close>

lemma getopt_double_dash:
  assumes "gs_next st = []" and "gs_ind st < length (gs_argv st)" and "gs_argv st ! gs_ind st = ''--''"
  shows "getopt optstring longopts long_only st = (opt_end, None, st\<lparr>gs_ind := length (gs_argv st)\<rparr>)"
  using assms by (simp add: getopt_def)

lemma getopt_operand:
  assumes "gs_next st = []" and "gs_ind st < length (gs_argv st)" and "is_operand (gs_argv st ! gs_ind st)"
  shows "getopt optstring longopts long_only st = (opt_operand, Some (gs_argv st ! gs_ind st), st\<lparr>gs_ind := gs_ind st + 1\<rparr>)"
proof -
  have "gs_argv st ! gs_ind st \<noteq> ''--''" using assms(3) by (auto simp: is_operand_def)
  then show ?thesis using assms by (simp add: getopt_def)
qed

end
