(* ===== verification/GccArgs.thy ===== *)
theory GccArgs
  imports GccBase Getopt
begin

text \<open>
  The command line of gcc (\<open>src/models/gcc-args.cc\<close>) and its response files (\<open>src/util/args.cc\<close>): the
  arguments are read with \<open>getopt_long_only\<close>, sorted into inputs, stages, directories and options, and
  put together again for the thunks. \<open>disk\<close> tells which files exist; expanding words is the shell's.
\<close>

section \<open>Options\<close>

text \<open>The codes are the positions of the enumeration \<open>GCCOption\<close>, which starts at 1000.\<close>

definition GO_x :: int where "GO_x = 1076"
definition GO_c :: int where "GO_c = 1000"
definition GO_E :: int where "GO_E = 1007"
definition GO_S :: int where "GO_S = 1069"
definition GO_g :: int where "GO_g = 1009"
definition GO_g0 :: int where "GO_g0 = 1010"
definition GO_g1 :: int where "GO_g1 = 1011"
definition GO_MD :: int where "GO_MD = 1024"
definition GO_MMD :: int where "GO_MMD = 1029"
definition GO_MF :: int where "GO_MF = 1025"
definition GO_MT :: int where "GO_MT = 1051"
definition GO_isystem :: int where "GO_isystem = 1014"
definition GO_nostdlib :: int where "GO_nostdlib = 1056"
definition GO_nostdinc :: int where "GO_nostdinc = 1054"
definition GO_nostdincpp :: int where "GO_nostdincpp = 1055"
definition GO_nodefaultlibs :: int where "GO_nodefaultlibs = 1053"
definition GO_gdwarf_4 :: int where "GO_gdwarf_4 = 1012"
definition GO_O :: int where "GO_O = 1058"
definition GO_D :: int where "GO_D = 1002"
definition GO_U :: int where "GO_U = 1073"
definition GO_f :: int where "GO_f = 1008"
definition GO_print_file_name :: int where "GO_print_file_name = 1065"
definition GO_dM :: int where "GO_dM = 1004"
definition GO_dumpmachine :: int where "GO_dumpmachine = 1005"

text \<open>Code, name, argument, whether it takes two dashes, and how the argument is attached: \<open>X\<close> for none,
  a blank for a separate one, a null byte for none in between.\<close>

definition gcc_options_data :: "(int \<times> string \<times> has_arg \<times> bool \<times> char) list" where
  "gcc_options_data =
    [(1076, ''x'', Required_argument, False, CHR '' ''), (1000, ''c'', No_argument, False, CHR ''X''),
     (1001, ''C'', No_argument, False, CHR ''X''), (1004, ''dM'', No_argument, False, CHR ''X''),
     (1007, ''E'', No_argument, False, CHR ''X''), (1009, ''g'', No_argument, False, CHR '' ''),
     (1010, ''g0'', No_argument, False, CHR '' ''), (1011, ''g1'', No_argument, False, CHR '' ''),
     (1068, ''s'', No_argument, False, CHR ''X''), (1069, ''S'', No_argument, False, CHR ''X''),
     (1074, ''v'', No_argument, False, CHR ''X''), (1075, ''w'', No_argument, False, CHR ''X''),
     (1015, ''M'', No_argument, False, CHR ''X''), (1024, ''MD'', No_argument, False, CHR ''X''),
     (1040, ''MP'', No_argument, False, CHR ''X''), (1051, ''MT'', Required_argument, False, CHR '' ''),
     (1025, ''MF'', Required_argument, False, CHR '' ''), (1029, ''MMD'', No_argument, False, CHR '' ''),
     (1003, ''static'', No_argument, False, CHR ''X''), (1012, ''gdwarf-4'', No_argument, False, CHR ''X''),
     (1027, ''mfentry'', No_argument, False, CHR ''X''),
     (1053, ''nodefaultlibs'', No_argument, False, CHR ''X''),
     (1054, ''nostdinc'', No_argument, False, CHR ''X''),
     (1055, ''nostdinc++'', No_argument, False, CHR ''X''),
     (1056, ''nostdlib'', No_argument, False, CHR ''X''), (1059, ''P'', No_argument, False, CHR ''X''),
     (1061, ''pedantic'', No_argument, False, CHR ''X''), (1062, ''pg'', No_argument, False, CHR ''X''),
     (1063, ''pie'', No_argument, False, CHR ''X''), (1064, ''pipe'', No_argument, False, CHR ''X''),
     (1066, ''pthread'', No_argument, False, CHR ''X''), (1067, ''rdynamic'', No_argument, False, CHR ''X''),
     (1070, ''shared'', No_argument, False, CHR ''X''), (1072, ''u'', Required_argument, False, CHR '' ''),
     (1005, ''dumpmachine'', No_argument, False, CHR ''X''),
     (1006, ''dumpversion'', No_argument, False, CHR ''X''), (1016, ''m32'', No_argument, False, CHR ''X''),
     (1017, ''m64'', No_argument, False, CHR ''X''), (1019, ''mavx'', No_argument, False, CHR ''X''),
     (1020, ''mavx2'', No_argument, False, CHR ''X''), (1021, ''mbmi'', No_argument, False, CHR ''X''),
     (1022, ''mbmi2'', No_argument, False, CHR ''X''), (1026, ''mf16c'', No_argument, False, CHR ''X''),
     (1028, ''mfma'', No_argument, False, CHR ''X''), (1030, ''mmmx'', No_argument, False, CHR ''X''),
     (1031, ''mno-3dnow'', No_argument, False, CHR ''X''),
     (1032, ''mno-80387'', No_argument, False, CHR ''X''), (1033, ''mno-avx'', No_argument, False, CHR ''X''),
     (1034, ''mno-fp-ret-in-387'', No_argument, False, CHR ''X''),
     (1035, ''mno-mmx'', No_argument, False, CHR ''X''),
     (1036, ''mno-red-zone'', No_argument, False, CHR ''X''),
     (1037, ''mno-sse'', No_argument, False, CHR ''X''), (1038, ''mno-sse2'', No_argument, False, CHR ''X''),
     (1041, ''mpclmul'', No_argument, False, CHR ''X''),
     (1044, ''mskip-rax-setup'', No_argument, False, CHR ''X''),
     (1045, ''msoft-float'', No_argument, False, CHR ''X''), (1046, ''msse'', No_argument, False, CHR ''X''),
     (1047, ''msse2'', No_argument, False, CHR ''X''), (1050, ''mssse3'', No_argument, False, CHR ''X''),
     (1048, ''msse4.1'', No_argument, False, CHR ''X''), (1049, ''msse4.2'', No_argument, False, CHR ''X''),
     (1013, ''include'', Required_argument, False, CHR '' ''),
     (1014, ''isystem'', Required_argument, False, CHR '' ''),
     (1018, ''march'', Required_argument, False, CHR ''=''),
     (1023, ''mcmodel'', Required_argument, False, CHR ''=''),
     (1052, ''mtune'', Required_argument, False, CHR ''=''),
     (1060, ''param'', Required_argument, True, CHR '' ''),
     (1071, ''std'', Required_argument, False, CHR ''=''),
     (1077, ''Xlinker'', Required_argument, False, CHR '' ''),
     (1042, ''mpreferred-stack-boundary'', Required_argument, False, CHR ''=''),
     (1039, ''mno-tls-direct-seg-refs'', No_argument, False, CHR ''X''),
     (1043, ''mregparm'', Required_argument, False, CHR ''=''),
     (1065, ''print-file-name'', Required_argument, False, CHR ''='')]"

definition gcc_optstring :: string where
  "gcc_optstring = ''l:B:o:O::D:U:f:I:W::L:i:''"

definition gcc_long_options :: "long_option list" where
  "gcc_long_options = map (\<lambda>(v, n, a, _). \<lparr>lo_name = n, lo_has_arg = a, lo_val = v\<rparr>) gcc_options_data"

section \<open>State\<close>

record input_file =
  inp_name :: string
  inp_language :: gcc_language
  inp_source_language :: gcc_language
  inp_index :: nat
  inp_indata :: factory_data

record gcc_arguments =
  ga_last_stage :: "gcc_stage option"
  ga_inputs :: "input_file list"
  ga_opt_map :: "int \<rightharpoonup> nat \<times> string"
  ga_args :: "string list"
  ga_output :: string
  ga_include_dirs :: "string list"
  ga_library_dirs :: "string list"
  ga_system_include_dirs :: "string list"
  ga_extra_infiles :: "gcc_stage \<Rightarrow> string list"
  ga_no_stdlib :: bool
  ga_no_stdinc :: bool
  ga_no_stdincpp :: bool
  ga_no_defaultlibs :: bool
  ga_force_strip :: bool
  ga_canonical_root :: "string option"

definition no_data :: factory_data where
  "no_data = \<lparr>fd_filename = [], fd_real_filename = [], fd_hash = [], fd_type = Value\<rparr>"

definition new_gcc_arguments :: "bool \<Rightarrow> string option \<Rightarrow> gcc_arguments" where
  "new_gcc_arguments force_strip canonical_root =
     \<lparr>ga_last_stage = None, ga_inputs = [], ga_opt_map = Map.empty, ga_args = [], ga_output = [], ga_include_dirs = [],
      ga_library_dirs = [], ga_system_include_dirs = [], ga_extra_infiles = (\<lambda>_. []), ga_no_stdlib = False,
      ga_no_stdinc = False, ga_no_stdincpp = False, ga_no_defaultlibs = False, ga_force_strip = force_strip,
      ga_canonical_root = canonical_root\<rparr>"

definition last_stage :: "gcc_arguments \<Rightarrow> gcc_stage" where
  "last_stage a = (case ga_last_stage a of None \<Rightarrow> LINK | Some s \<Rightarrow> s)"

definition option_argument :: "int \<Rightarrow> gcc_arguments \<Rightarrow> string option" where
  "option_argument opt a = map_option snd (ga_opt_map a opt)"

definition normalize_pathname :: "string \<Rightarrow> string \<Rightarrow> string" where
  "normalize_pathname root p = (if is_absolute p then path_append root p else p)"

definition path_fn :: "gcc_arguments \<Rightarrow> string \<Rightarrow> string" where
  "path_fn a p = (case ga_canonical_root a of Some root \<Rightarrow> normalize_pathname root p | None \<Rightarrow> p)"

section \<open>Adding to the arguments\<close>

definition add_args :: "string list \<Rightarrow> gcc_arguments \<Rightarrow> gcc_arguments" where
  "add_args xs a = a\<lparr>ga_args := ga_args a @ xs\<rparr>"

text \<open>The first use of an option stays in the map.\<close>

definition add_option_as :: "int \<Rightarrow> string \<Rightarrow> string option \<Rightarrow> char \<Rightarrow> bool \<Rightarrow> gcc_arguments \<Rightarrow> gcc_arguments" where
  "add_option_as opt optstr val sep double_dash a =
     (let index = length (ga_args a);
          actual_optstr = (if double_dash then ''--'' else ''-'') @ optstr;
          actual_value = (case val of None \<Rightarrow> [] | Some v \<Rightarrow> v);
          a1 = add_args (if sep = CHR ''X'' then [actual_optstr]
                         else if sep = CHR '' '' then [actual_optstr, actual_value]
                         else if sep = CHR 0x00 then [actual_optstr @ actual_value]
                         else [actual_optstr @ sep # actual_value]) a
      in a1\<lparr>ga_opt_map := (case ga_opt_map a1 opt of
                              None \<Rightarrow> (ga_opt_map a1)(opt \<mapsto> (index, actual_value)) | Some _ \<Rightarrow> ga_opt_map a1)\<rparr>)"

definition add_gcc_option :: "int \<Rightarrow> string option \<Rightarrow> gcc_arguments \<Rightarrow> gcc_arguments res" where
  "add_gcc_option opt val a =
     (case map_of gcc_options_data opt of
        None \<Rightarrow> Inl (Out_of_range ''map::at'')
      | Some (optstr, arg, double_dash, sep) \<Rightarrow>
          Inr (add_option_as opt optstr (Some (case val of None \<Rightarrow> [] | Some v \<Rightarrow> v))
                 (if arg = No_argument then CHR ''X'' else sep) double_dash a))"

definition add_input :: "string \<Rightarrow> gcc_language \<Rightarrow> gcc_arguments \<Rightarrow> gcc_arguments" where
  "add_input filename language a =
     (let a1 = add_args [if language = Shared_library then ''-l'' @ filename else filename] a
      in a1\<lparr>ga_inputs := ga_inputs a1 @
              [\<lparr>inp_name = filename, inp_language = language, inp_source_language = language,
                inp_index = length (ga_args a1) - 1, inp_indata = no_data\<rparr>]\<rparr>)"

definition add_extra_infile :: "gcc_stage \<Rightarrow> string \<Rightarrow> gcc_arguments \<Rightarrow> gcc_arguments" where
  "add_extra_infile stage name a =
     a\<lparr>ga_extra_infiles := (ga_extra_infiles a)(stage := ga_extra_infiles a stage @ [path_fn a name])\<rparr>"

definition VERSION_SCRIPT :: string where "VERSION_SCRIPT = ''--version-script=''"
definition LINKER_SCRIPT :: string where "LINKER_SCRIPT = ''-T,''"

definition process_W_option :: "disk \<Rightarrow> string \<Rightarrow> gcc_arguments \<Rightarrow> gcc_arguments res" where
  "process_W_option d optarg a =
     (let accept = (\<lambda>a'. Inr (add_args [''-W'' @ optarg] a'));
          refuse = Inl (Runtime_error (''not implemented: -W'' @ optarg))
      in if optarg = [] then Inr (add_args [''-W''] a)
         else if \<not> (2 \<le> length optarg \<and> optarg ! 1 = CHR '','') then accept a
         else let suboptarg = drop 2 optarg
              in if hd optarg = CHR ''p'' then
                   (if starts_with ''-MD'' suboptarg then
                      (case find_sub '','' suboptarg of
                         Some comma \<Rightarrow>
                           Inr (add_option_as GO_MF ''MF'' (Some (path_fn a (drop (comma + 1) suboptarg))) CHR '' '' False
                             (add_option_as GO_MD ''MD'' None CHR ''X'' False a))
                       | None \<Rightarrow> refuse)
                    else if starts_with ''-D'' suboptarg then accept a else refuse)
                 else if hd optarg = CHR ''l'' then
                   accept (if starts_with VERSION_SCRIPT suboptarg
                           then add_extra_infile LINK (drop (length VERSION_SCRIPT) suboptarg) a
                           else if starts_with LINKER_SCRIPT suboptarg
                           then add_extra_infile LINK (drop (length LINKER_SCRIPT) suboptarg) a
                           else a)
                 else if hd optarg = CHR ''a'' then
                   accept (if find_sub '','' suboptarg = None \<and> path_exists suboptarg d
                           then add_extra_infile ASSEMBLE suboptarg a else a)
                 else refuse)"

section \<open>One answer of getopt\<close>

definition operand_language :: "gcc_language \<Rightarrow> string \<Rightarrow> gcc_arguments \<Rightarrow> gcc_language res" where
  "operand_language current_language input a =
     (if current_language \<noteq> Lang_none then Inr current_language
      else if input = ''-'' \<and> ga_last_stage a = Some PREPROCESS then Inr C_source
      else filename_to_language input)"

text \<open>The short options; \<open>None\<close> when the option was not processed. The argument is there when the option
  needs one.\<close>

definition short_gcc_option :: "disk \<Rightarrow> int \<Rightarrow> string option \<Rightarrow> gcc_arguments \<Rightarrow> gcc_arguments option res" where
  "short_gcc_option d opt optarg a =
     (let arg = (case optarg of None \<Rightarrow> [] | Some v \<Rightarrow> v)
      in if opt = char_val CHR ''l'' then Inr (Some (add_input arg Shared_library a))
         else if opt = char_val CHR ''i'' then
           (if starts_with ''system'' arg
            then let dir = path_fn a (drop 6 arg)
                 in Inr (Some ((add_args [''-isystem'' @ dir] a)\<lparr>ga_system_include_dirs := ga_system_include_dirs a @ [dir]\<rparr>))
            else Inr None)
         else if opt = char_val CHR ''o'' then Inr (Some (a\<lparr>ga_output := arg\<rparr>))
         else if opt = char_val CHR ''I'' then
           (let dir = path_fn a arg
            in Inr (Some ((add_args [''-I'' @ dir] a)\<lparr>ga_include_dirs := ga_include_dirs a @ [dir]\<rparr>)))
         else if opt = char_val CHR ''L'' then
           (let dir = path_fn a arg
            in Inr (Some ((add_args [''-L'' @ dir] a)\<lparr>ga_library_dirs := ga_library_dirs a @ [dir]\<rparr>)))
         else if opt = char_val CHR ''g'' then
           Inr (Some (if ga_force_strip a then a else add_option_as GO_g ''g'' None CHR ''X'' False a))
         else if opt = char_val CHR ''O'' then Inr (Some (add_option_as GO_O ''O'' optarg CHR 0x00 False a))
         else if opt = char_val CHR ''D'' then Inr (Some (add_option_as GO_D ''D'' optarg CHR 0x00 False a))
         else if opt = char_val CHR ''U'' then Inr (Some (add_option_as GO_U ''U'' optarg CHR 0x00 False a))
         else if opt = char_val CHR ''f'' then Inr (Some (add_option_as GO_f ''f'' optarg CHR 0x00 False a))
         else if opt = char_val CHR ''W'' then bind_res (process_W_option d arg a) (\<lambda>a'. Inr (Some a'))
         else if opt = char_val CHR ''B'' then Inl (Runtime_error ''illegal -B flag'')
         else Inr None)"

definition lower_stage :: "gcc_stage \<Rightarrow> gcc_arguments \<Rightarrow> gcc_arguments" where
  "lower_stage stage a =
     a\<lparr>ga_last_stage := Some (case ga_last_stage a of None \<Rightarrow> stage | Some s \<Rightarrow> if stage \<le> s then stage else s)\<rparr>"

text \<open>The long options; \<open>flag\<close> is the argument of the command line that was read last.\<close>

definition long_gcc_option ::
  "int \<Rightarrow> string option \<Rightarrow> string \<Rightarrow> gcc_language \<Rightarrow> gcc_arguments \<Rightarrow> (gcc_language \<times> gcc_arguments) res" where
  "long_gcc_option opt optarg flag lang a =
     (let arg = (case optarg of None \<Rightarrow> [] | Some v \<Rightarrow> v);
          keep = (\<lambda>a'. bind_res (add_gcc_option opt optarg a') (\<lambda>a''. Inr (lang, a'')))
      in if opt = GO_MMD then bind_res (add_gcc_option GO_MD optarg a) (\<lambda>a'. Inr (lang, a'))
         else if opt = GO_E then keep (a\<lparr>ga_last_stage := Some PREPROCESS\<rparr>)
         else if opt = GO_S then keep (lower_stage COMPILE a)
         else if opt = GO_c then keep (lower_stage ASSEMBLE a)
         else if opt = GO_x then bind_res (name_to_language arg) (\<lambda>lang'. Inr (lang', a))
         else if opt = GO_isystem then
           (let dir = path_fn a arg
            in Inr (lang, (add_args [''-isystem'' @ dir] a)\<lparr>ga_system_include_dirs := ga_system_include_dirs a @ [dir]\<rparr>))
         else if opt = GO_nostdlib then keep (a\<lparr>ga_no_stdlib := True\<rparr>)
         else if opt = GO_nostdinc then keep (a\<lparr>ga_no_stdinc := True\<rparr>)
         else if opt = GO_nostdincpp then keep (a\<lparr>ga_no_stdincpp := True\<rparr>)
         else if opt = GO_nodefaultlibs then keep (a\<lparr>ga_no_defaultlibs := True\<rparr>)
         else if opt = GO_g1 \<and> ga_force_strip a then Inr (lang, a)
         else if map_of gcc_options_data opt = None then Inl (Runtime_error (''unknown gcc flag: '' @ flag))
         else keep a)"

definition take_gcc_option ::
  "disk \<Rightarrow> int \<Rightarrow> string option \<Rightarrow> string \<Rightarrow> gcc_language \<Rightarrow> gcc_arguments \<Rightarrow> (gcc_language \<times> gcc_arguments) res" where
  "take_gcc_option d opt optarg flag lang a =
     (if opt = opt_operand then
        (let input = path_fn a (case optarg of None \<Rightarrow> [] | Some v \<Rightarrow> v)
         in bind_res (operand_language lang input a) (\<lambda>file_lang. Inr (lang, add_input input file_lang a)))
      else bind_res (short_gcc_option d opt optarg a) (\<lambda>r.
        case r of Some a' \<Rightarrow> Inr (lang, a') | None \<Rightarrow> long_gcc_option opt optarg flag lang a))"

section \<open>The loop\<close>

function gcc_options_loop :: "disk \<Rightarrow> getopt_state \<Rightarrow> gcc_language \<Rightarrow> gcc_arguments \<Rightarrow> gcc_arguments res" where
  "gcc_options_loop d st lang a =
     (case getopt gcc_optstring gcc_long_options True st of (opt, optarg, st') \<Rightarrow>
        if opt = opt_end then Inr a
        else bind_res (take_gcc_option d opt optarg (gs_argv st' ! (gs_ind st' - 1)) lang a) (\<lambda>(lang', a').
          gcc_options_loop d st' lang' a'))"
  by auto
termination
  by (relation "measure (\<lambda>(d, st, lang, a). left_over st)") (auto dest: getopt_uses [OF sym])

declare gcc_options_loop.simps [simp del]

section \<open>Response files\<close>

definition needs_expansion :: "string list \<Rightarrow> bool" where
  "needs_expansion argv = list_ex (\<lambda>a. take 1 a = ''@'') (drop 1 argv)"

definition trim_end :: "string \<Rightarrow> string" where
  "trim_end s = rev (dropWhile (\<lambda>c. c = CHR '' '' \<or> c = CHR 0x0A \<or> c = CHR 0x0D) (rev s))"

text \<open>\<open>done_args\<close> are expanded; a file that names itself is expanded for ever.\<close>

fun expand_args :: "nat \<Rightarrow> disk \<Rightarrow> (string \<Rightarrow> string list option) \<Rightarrow> string list \<Rightarrow> string list \<Rightarrow> string list res" where
  "expand_args 0 d wordexp done_args args = Inl Out_of_fuel"
| "expand_args (Suc n) d wordexp done_args args =
     (case args of
        [] \<Rightarrow> Inr done_args
      | arg # rest \<Rightarrow>
          if take 1 arg = ''@'' \<and> path_exists (drop 1 arg) d then
            bind_res (read_file (drop 1 arg) d) (\<lambda>content.
              case wordexp (trim_end content) of
                None \<Rightarrow> Inl (Runtime_error ''error while expanding argument'')
              | Some words \<Rightarrow> expand_args n d wordexp done_args (words @ rest))
          else expand_args n d wordexp (done_args @ [arg]) rest)"

definition gcc_arguments_of ::
  "nat \<Rightarrow> disk \<Rightarrow> (string \<Rightarrow> string list option) \<Rightarrow> bool \<Rightarrow> string option \<Rightarrow> string list \<Rightarrow> gcc_arguments res" where
  "gcc_arguments_of fuel d wordexp force_strip canonical_root argv =
     bind_res (if needs_expansion argv then expand_args fuel d wordexp [] argv else Inr argv) (\<lambda>argv'.
       gcc_options_loop d \<lparr>gs_argv = argv', gs_ind = 1, gs_next = []\<rparr> Lang_none
         (new_gcc_arguments force_strip canonical_root))"

end
