(* ===== verification/GccDeps.thy ===== *)
theory GccDeps
  imports GccArgs Engine Uri
begin

text \<open>
  What the gcc model asks other programs: the dependencies of a source file
  (\<open>src/models/preprocessor.cc\<close>) and of a link (\<open>linker-base.cc\<close>), the blueprints and the specs
  (\<open>gcc.cc\<close>). A program that is run, the tokenizer of Boost, \<open>realpath\<close>, the listing of a directory, the
  names of temporary files and the order of an unordered container are fields of \<open>gcc_env\<close>; so is the
  toolchain, which the build generates.
\<close>

record gcc_env =
  ge_world :: world
  ge_program_hash :: "string \<rightharpoonup> string"
  ge_toolchain_path :: string
  ge_c_include_path :: "string list"
  ge_cxx_include_path :: "string list"
  ge_ld_search_path :: "string list"
  ge_gcc_library_path :: "string list"
  ge_gcc_install_path :: string
  ge_stat :: "string \<Rightarrow> file_stat"
  ge_junk :: string
  ge_run :: "string list \<Rightarrow> string list option \<Rightarrow> disk \<Rightarrow> int \<times> string \<times> disk"
  ge_realpath :: "string \<Rightarrow> disk \<Rightarrow> string res"
  ge_readdir :: "string \<Rightarrow> disk \<Rightarrow> string list res"
  ge_temp :: "string \<Rightarrow> disk \<Rightarrow> string"
  ge_cwd :: string
  ge_blueprint_dir :: string
  ge_tokenizer :: "string \<Rightarrow> string list res"
  ge_order :: "string list \<Rightarrow> string list"

text \<open>\<open>run\<close>: the program is named by its first argument; without an environment of its own it gets that of
  the model. The result is its output, or an exception when it fails and errors are not suppressed.\<close>

definition run_program ::
  "gcc_env \<Rightarrow> string list \<Rightarrow> string list option \<Rightarrow> bool \<Rightarrow> bool \<Rightarrow> disk \<Rightarrow> (string \<times> disk) res" where
  "run_program g args env read_stdout suppress_errors d =
     (case args of
        [] \<Rightarrow> Inl Undefined_behaviour
      | name # _ \<Rightarrow>
          (case ge_run g args env d of (status, out, d') \<Rightarrow>
             if \<not> suppress_errors \<and> status \<noteq> 0
             then Inl (Runtime_error (CHR 0x60 # name @ CHR 0x27 # '': process exited with failure status ''
                                        @ int_to_string status))
             else Inr (if read_stdout then out else [], d')))"

text \<open>The lines that \<open>getline\<close> reads; a file that cannot be opened has none.\<close>

fun lines_of :: "string \<Rightarrow> string \<Rightarrow> string list" where
  "lines_of acc [] = (if acc = [] then [] else [acc])"
| "lines_of acc (c # s) = (if c = newline then acc # lines_of [] s else lines_of (acc @ [c]) s)"

definition file_lines :: "string \<Rightarrow> disk \<Rightarrow> string list" where
  "file_lines p d = (case d p of Some (Regular c _) \<Rightarrow> lines_of [] c | _ \<Rightarrow> [])"

section \<open>Data for the factory\<close>

definition data_of :: "gcc_env \<Rightarrow> string \<Rightarrow> string \<Rightarrow> object_type \<Rightarrow> string \<Rightarrow> disk \<Rightarrow> (factory_data \<times> disk) res" where
  "data_of g filename real_filename ty h d =
     (let w = ge_world g
      in make_data (wd_sha256 w) (wd_kernel w) (ge_stat g) (wd_gg_dir w) (ge_junk g) filename real_filename ty h d)"

definition file_hash :: "gcc_env \<Rightarrow> string \<Rightarrow> disk \<Rightarrow> (string \<times> disk) res" where
  "file_hash g p d =
     (let w = ge_world g in hash_file (wd_sha256 w) (wd_kernel w) (ge_stat g) (wd_gg_dir w) p None d)"

definition add_infile :: "gcc_env \<Rightarrow> string \<Rightarrow> factory_data list \<times> disk \<Rightarrow> (factory_data list \<times> disk) res" where
  "add_infile g p st =
     (case st of (infiles, d) \<Rightarrow> bind_res (data_of g p [] Value [] d) (\<lambda>(x, d'). Inr (infiles @ [x], d')))"

definition GG_BIN_PREFIX :: string where "GG_BIN_PREFIX = ''/__gg__''"

definition known_programs :: "string list" where
  "known_programs = [''gcc'', ''g++'', ''cc1'', ''cc1plus'', ''as'', ''collect2'', ''ld'', ''ar'', ''ranlib'', ''strip'',
     ''nm'', ''readelf'']"

definition program_hash :: "gcc_env \<Rightarrow> string \<Rightarrow> string res" where
  "program_hash g name =
     (case ge_program_hash g name of None \<Rightarrow> Inl (Out_of_range ''_Map_base::at'') | Some h \<Rightarrow> Inr h)"

definition program_data :: "gcc_env \<Rightarrow> string \<Rightarrow> factory_data res" where
  "program_data g name =
     (if name \<notin> set known_programs then Inl (Out_of_range ''_Map_base::at'')
      else bind_res (program_hash g name) (\<lambda>h.
        Inr \<lparr>fd_filename = lexically_normal (GG_BIN_PREFIX @ ''/'' @ name),
             fd_real_filename = path_append (ge_toolchain_path g) name, fd_hash = h, fd_type = Value\<rparr>))"

section \<open>Blueprints and specs\<close>

definition hash_line_length :: nat where "hash_line_length = hash_length + 2"

definition read_blueprints :: "string \<Rightarrow> disk \<Rightarrow> (string \<times> string) list res" where
  "read_blueprints index d =
     (if \<not> path_exists index d then Inr []
      else map_res (\<lambda>line.
        if length line < hash_line_length then Inl (Runtime_error ''invalid blueprints index format'')
        else let h = take hash_length line; p = drop (hash_length + 1) line
             in Inr (if last p \<noteq> CHR ''/'' then p @ ''/'' else p, h)) (file_lines index d))"

fun get_blueprint :: "(string \<times> string) list \<Rightarrow> string \<Rightarrow> string res" where
  "get_blueprint [] p = Inl (Runtime_error (''could not find a blueprint for '' @ p))"
| "get_blueprint ((dir, h) # items) p =
     (if starts_with dir (path_append p []) then Inr h else get_blueprint items p)"

definition dump_gcc_specs :: "gcc_env \<Rightarrow> string \<Rightarrow> disk \<Rightarrow> disk res" where
  "dump_gcc_specs g target_file d =
     bind_res (run_program g [''gcc-7'', ''-dumpspecs''] None True False d) (\<lambda>(out, d').
       if out = [] then Inl (Runtime_error ''nothing to write'')
       else Inr (d'(target_file \<mapsto> (case d' target_file of
                                     Some (Regular c m) \<Rightarrow> Regular (c @ out) m | _ \<Rightarrow> Regular out 384))))"

definition has_include_or_incbin :: "string \<Rightarrow> disk \<Rightarrow> bool" where
  "has_include_or_incbin filename d =
     list_ex (\<lambda>line. find_sub ''.include'' line \<noteq> None \<or> find_sub ''.incbin'' line \<noteq> None) (file_lines filename d)"

section \<open>The dependencies of a source file\<close>

definition write_dependencies_file ::
  "gcc_env \<Rightarrow> string \<Rightarrow> string \<Rightarrow> data_item list \<Rightarrow> disk \<Rightarrow> (string list \<times> disk) res" where
  "write_dependencies_file g output_name target_name items d =
     bind_res (atomic_create (wd_kernel (ge_world g))
         (target_name @ '':'' @ concat (map (\<lambda>item. '' '' @ snd item) items) @ [newline]) output_name None d) (\<lambda>d'.
       Inr (map snd items, d'))"

text \<open>A line of the answer without the backslash at its end; an empty one is read at position -1.\<close>

definition strip_line :: "string \<Rightarrow> string res" where
  "strip_line line =
     (if line = [] then Inl Undefined_behaviour
      else Inr (if last line = CHR 0x5C \<and> length line \<noteq> 1 then take (length line - 2) line else line))"

fun parse_dependency_lines ::
  "(string \<Rightarrow> string list res) \<Rightarrow> string \<Rightarrow> bool \<Rightarrow> string list \<Rightarrow> string list \<Rightarrow> string list res" where
  "parse_dependency_lines tokenizer target_str found deps [] = Inr deps"
| "parse_dependency_lines tokenizer target_str found deps (line # lines) =
     (if length line < 2 then
        (if found then Inr deps else parse_dependency_lines tokenizer target_str found deps lines)
      else
        let starts = (\<not> found \<and> starts_with target_str line);
            line1 = (if starts then (case find_sub '':'' line of Some i \<Rightarrow> drop (i + 1) line | None \<Rightarrow> line) else line)
        in if \<not> starts \<and> found \<and> find_sub '':'' line \<noteq> None then Inr deps
           else if \<not> (found \<or> starts) then parse_dependency_lines tokenizer target_str False deps lines
           else bind_res (strip_line (drop 1 line1)) (\<lambda>line2.
             if line2 = [CHR 0x5C] then parse_dependency_lines tokenizer target_str True deps lines
             else bind_res (tokenizer line2) (\<lambda>tokens.
               parse_dependency_lines tokenizer target_str True (deps @ tokens) lines)))"

definition parse_dependencies_file :: "gcc_env \<Rightarrow> string \<Rightarrow> string \<Rightarrow> disk \<Rightarrow> string list res" where
  "parse_dependencies_file g dep_filename target_name d =
     parse_dependency_lines (ge_tokenizer g) (target_name @ '': '') False [] (file_lines dep_filename d)"

definition dependency_options :: "string list" where
  "dependency_options = [''-M'', ''-MF'', ''-MM'', ''-MG'', ''-MP'', ''-MQ'', ''-MD'', ''-MMD'']"

text \<open>The arguments for asking. After \<open>-MD\<close> has been erased the iterator of the search for \<open>-M\<close> is compared
  with the new end, from which it always differs, so \<open>-M\<close> is added whether it was there or not.\<close>

definition makedep_args :: "string list \<Rightarrow> string \<Rightarrow> (string list \<times> bool) res" where
  "makedep_args args target_name =
     (let has_option = list_ex (\<lambda>opt. opt \<in> set dependency_options) args
      in if has_option then
           (if ''-MF'' \<notin> set args then Inl (Runtime_error ''cannot produce dependencies file without -MF option'')
            else Inr (if ''-MD'' \<in> set args then remove1 ''-MD'' args @ [''-M''] else args, True))
         else Inr (args @ [''-M'', ''-MT'', target_name], False))"

definition all_match :: "gcc_env \<Rightarrow> data_item \<Rightarrow> bool \<times> disk \<Rightarrow> (bool \<times> disk) res" where
  "all_match g item st =
     (case st of (hit, d) \<Rightarrow>
        if \<not> hit then Inr (False, d)
        else let w = ge_world g
             in matches_filesystem (wd_sha256 w) (wd_kernel w) (ge_stat g) (wd_gg_dir w) item d)"

definition dependency_cache_entry :: "string \<Rightarrow> string \<Rightarrow> string" where
  "dependency_cache_entry gg_dir key = path_append (path_append gg_dir ''depcache'') key"

text \<open>The entry of the cache, when there is one for the same question and all its files are as they were.\<close>

definition cached_dependencies :: "gcc_env \<Rightarrow> func \<Rightarrow> string \<Rightarrow> disk \<Rightarrow> (data_item list option \<times> disk) res" where
  "cached_dependencies g makedep_fn entry_path d =
     (if \<not> path_exists entry_path d then Inr (None, d)
      else bind_res (read_thunk (wd_decode (ge_world g)) entry_path [] d) (\<lambda>entry.
        if \<not> function_eq makedep_fn (th_function entry) then Inr (None, d)
        else bind_res (fold_res (all_match g) (th_values entry) (True, d)) (\<lambda>(hit, d').
          Inr (if hit then Some (th_values entry) else None, d'))))"

definition hash_dependency :: "gcc_env \<Rightarrow> string \<Rightarrow> data_item list \<times> disk \<Rightarrow> (data_item list \<times> disk) res" where
  "hash_dependency g p st =
     (case st of (items, d) \<Rightarrow> bind_res (file_hash g p d) (\<lambda>(h, d'). Inr (items @ [(h, p)], d')))"

definition ask_dependencies ::
  "gcc_env \<Rightarrow> func \<Rightarrow> string list \<Rightarrow> bool \<Rightarrow> string \<Rightarrow> string \<Rightarrow> string list option \<Rightarrow> string option \<Rightarrow> disk \<Rightarrow>
     (string list \<times> disk) res" where
  "ask_dependencies g makedep_fn args has_option output_name target_name custom_env cache_path d =
     (let w = ge_world g
      in bind_res (run_program g (if has_option then args else args @ [''-MF'', output_name]) custom_env False False d) (\<lambda>(_, d1).
         bind_res (parse_dependencies_file g output_name target_name d1) (\<lambda>infiles_list.
         bind_res (fold_res (hash_dependency g) infiles_list ([], d1)) (\<lambda>(dependencies, d2).
         bind_res (thunk_of_data makedep_fn dependencies [(fn_hash makedep_fn, [])] [''fake_output'']) (\<lambda>entry.
         bind_res (case cache_path of
                     None \<Rightarrow> Inr d2
                   | Some p \<Rightarrow> bind_res (serialize (wd_encode w) entry) (\<lambda>s. atomic_create (wd_kernel w) s p None d2)) (\<lambda>d3.
           write_dependencies_file g output_name target_name (th_values entry) d3))))))"

definition generate_dependencies_file ::
  "gcc_env \<Rightarrow> operation_mode \<Rightarrow> string \<Rightarrow> string list \<Rightarrow> string \<Rightarrow> string \<Rightarrow> bool \<Rightarrow> string \<Rightarrow> string list option \<Rightarrow>
     disk \<Rightarrow> (string list \<times> disk) res" where
  "generate_dependencies_file g mode input_filename option_args output_name target_name use_cache gcc_binary custom_env d =
     (let w = ge_world g;
          program = (if length gcc_binary = 0 then (case mode of GCC_mode \<Rightarrow> ''gcc-7'' | GXX_mode \<Rightarrow> ''g++-7'') else gcc_binary)
      in bind_res (makedep_args (program # option_args) target_name) (\<lambda>(args, has_option).
         bind_res (gcc_environment (wd_environ w)) (\<lambda>environment.
           let makedep_fn = \<lparr>fn_hash = hd args, fn_args = args, fn_envars = environment\<rparr>
           in if use_cache then
                bind_res (file_hash g input_filename d) (\<lambda>(h, d1).
                  let cache_path = dependency_cache_entry (wd_gg_dir w) h
                  in bind_res (cached_dependencies g makedep_fn cache_path d1) (\<lambda>(hit, d2).
                       case hit of
                         Some items \<Rightarrow> write_dependencies_file g output_name target_name items d2
                       | None \<Rightarrow> ask_dependencies g makedep_fn args has_option output_name target_name custom_env
                                   (Some cache_path) d2))
              else ask_dependencies g makedep_fn args has_option output_name target_name custom_env None d)))"

section \<open>The dependencies of a link\<close>

definition blank :: "char \<Rightarrow> bool" where
  "blank c \<longleftrightarrow> c = CHR '' '' \<or> 9 \<le> (of_char c :: nat) \<and> (of_char c :: nat) \<le> 13"

definition text_regex :: "string \<Rightarrow> regex \<Rightarrow> regex" where
  "text_regex s r = foldr (\<lambda>c r'. Cat (lit c) r') s r"

text \<open>\<open>^(?:attempt to open|opened script file|found [^\s]+ at) ([^\s]+)\s?(?:succeeded|)$\<close>; the three
  alternatives at the front start with different letters and are tried one after another.\<close>

definition path_regexes :: "regex list" where
  "path_regexes =
     (let tail = Cat (lit CHR '' '') (Cat (Group 1 (some_of (\<lambda>c. \<not> blank c)))
                  (Cat (Maybe (Class blank)) (Maybe (text_regex ''succeede'' (lit CHR ''d'')))))
      in [text_regex ''attempt to open'' tail, text_regex ''opened script file'' tail,
          text_regex ''found '' (Cat (some_of (\<lambda>c. \<not> blank c)) (text_regex '' at'' tail))])"

fun first_match :: "regex list \<Rightarrow> string \<Rightarrow> string option" where
  "first_match [] s = None"
| "first_match (r # rs) s = (case regex_match r s of Some g \<Rightarrow> Some (g 1) | None \<Rightarrow> first_match rs s)"

text \<open>The paths after the second line that starts with an equals sign, each once.\<close>

fun parse_linker_lines :: "nat \<Rightarrow> string list \<Rightarrow> string list \<Rightarrow> string list" where
  "parse_linker_lines n deps [] = deps"
| "parse_linker_lines n deps (line # lines) =
     (if n < 2 then parse_linker_lines (if take 1 line = ''='' then n + 1 else n) deps lines
      else case first_match path_regexes line of
             None \<Rightarrow> parse_linker_lines n deps lines
           | Some p \<Rightarrow> parse_linker_lines n (List.insert p deps) lines)"

definition parse_linker_output :: "gcc_env \<Rightarrow> string list \<Rightarrow> disk \<Rightarrow> (string list \<times> disk) res" where
  "parse_linker_output g linker_args d =
     bind_res (run_program g linker_args None True True d) (\<lambda>(out, d').
       Inr (ge_order g (parse_linker_lines 0 [] (lines_of [] out)), d'))"

end
