(* ===== verification/GccModel.thy ===== *)
theory GccModel
  imports GccDeps
begin

text \<open>
  The gcc model itself (\<open>src/models/gcc.cc\<close>, \<open>linker.cc\<close>): each input is taken through its stages, every
  stage is a thunk whose output the next one reads, and a link thunk joins the objects. The pipeline is a
  fold over the inputs whose state holds them, the name of the final output and the disk.
\<close>

record gcc_generator =
  gn_mode :: operation_mode
  gn_arguments :: gcc_arguments
  gn_specs :: string
  gn_preprocess_locally :: bool
  gn_defer_depgen :: bool
  gn_gompspec :: bool

section \<open>Editing the arguments\<close>

text \<open>The name after \<open>-MF\<close> or \<open>-MT\<close> is skipped without asking whether there is one.\<close>

fun prune_makedep_flags :: "string list \<Rightarrow> string list res" where
  "prune_makedep_flags [] = Inr []"
| "prune_makedep_flags (a # rest) =
     (if a \<in> {''-M'', ''-MD'', ''-MP''} then prune_makedep_flags rest
      else if a \<in> {''-MF'', ''-MT''} then
        (case rest of [] \<Rightarrow> Inl Undefined_behaviour | _ # rest' \<Rightarrow> prune_makedep_flags rest')
      else bind_res (prune_makedep_flags rest) (\<lambda>r. Inr (a # r)))"

definition is_non_object_input :: "input_file \<Rightarrow> bool" where
  "is_non_object_input input \<longleftrightarrow>
     inp_language input \<notin> {Shared_library, Archive_library, Object_file, Shared_object}"

definition erase_at :: "nat \<Rightarrow> string list \<Rightarrow> string list res" where
  "erase_at i args = (if i < length args then Inr (take i args @ drop (i + 1) args) else Inl Undefined_behaviour)"

definition edit_input :: "input_file \<Rightarrow> input_file \<Rightarrow> string list \<Rightarrow> string list res" where
  "edit_input input it args =
     (if inp_index it \<noteq> inp_index input then erase_at (inp_index it) args
      else if length args \<le> inp_index input then Inl (Out_of_range ''vector::_M_range_check'')
      else bind_res (language_to_name (inp_language input)) (\<lambda>lang.
        Inr (take (inp_index input) args @ [''-x'', lang, inp_name input] @ drop (inp_index input + 1) args)))"

text \<open>From the back, so that the indices of the inputs that are left stay right.\<close>

definition only_input :: "input_file \<Rightarrow> gcc_arguments \<Rightarrow> string list res" where
  "only_input input a = fold_res (edit_input input) (rev (ga_inputs a)) (ga_args a)"

definition drop_stage_flags :: "string list \<Rightarrow> string list" where
  "drop_stage_flags = filter (\<lambda>s. s \<notin> {''-E'', ''-S'', ''-c''})"

definition reproducible_flags :: "string \<Rightarrow> string list" where
  "reproducible_flags name =
     [''-E'', ''-frandom-seed='' @ data_placeholder name, ''-Wno-builtin-macro-redefined'',
      ''-D__TIMESTAMP__=\"REDACTED\"'', ''-D__DATE__=\"REDACTED\"'', ''-D__TIME__=\"REDACTED\"'',
      ''-fno-canonical-system-headers'']"

section \<open>Preprocessing here\<close>

definition temp_file :: "gcc_env \<Rightarrow> string \<Rightarrow> disk \<Rightarrow> string \<times> disk" where
  "temp_file g template d = (let name = ge_temp g template d in (name, d(name \<mapsto> Regular [] 384)))"

definition mode_program :: "operation_mode \<Rightarrow> string" where
  "mode_program m = (case m of GCC_mode \<Rightarrow> ''gcc'' | GXX_mode \<Rightarrow> ''g++'')"

definition do_preprocessing :: "gcc_env \<Rightarrow> gcc_generator \<Rightarrow> input_file \<Rightarrow> disk \<Rightarrow> (string \<times> disk) res" where
  "do_preprocessing g gen input d =
     (let w = ge_world g
      in bind_res (only_input input (gn_arguments gen)) (\<lambda>args0.
         bind_res (rbasename (inp_name input)) (\<lambda>base.
           case temp_file g (blob (wd_gg_dir w) base) d of (temp_output, d1) \<Rightarrow>
             let args = (mode_program (gn_mode gen) @ ''-7'') # drop_stage_flags args0 @ reproducible_flags (inp_name input)
                          @ [''-o'', temp_output]
             in bind_res (run_program g args None False False d1) (\<lambda>(_, d2).
                bind_res (file_hash g temp_output d2) (\<lambda>(h, d3).
                bind_res (move_file (wd_kernel w) False temp_output (blob (wd_gg_dir w) h) d3) (\<lambda>d4.
                  Inr (h, d4)))))))"

section \<open>Headers in the directory of the build\<close>

definition ends_with :: "string \<Rightarrow> string \<Rightarrow> bool" where
  "ends_with str ending \<longleftrightarrow>
     length ending \<le> length str \<and> drop (length str - length ending) str = ending"

text \<open>The recursion follows the directories of the disk, which may be a cycle through links: the depth is
  bounded by fuel.\<close>

fun get_all_files ::
  "nat \<Rightarrow> gcc_env \<Rightarrow> disk \<Rightarrow> string list \<Rightarrow> string list \<Rightarrow> string \<Rightarrow> string list \<Rightarrow> string list res" where
  "get_all_files 0 g d filters excludes root files = Inl Out_of_fuel"
| "get_all_files (Suc n) g d filters excludes root files =
     bind_res (ge_readdir g root d) (\<lambda>entries.
       fold_res (\<lambda>entry acc.
         let entry_path = path_append root entry
         in if exists_and_is_directory entry_path d
            then (if entry_path \<in> set excludes then Inr acc else get_all_files n g d filters excludes entry_path acc)
            else Inr (if list_ex (\<lambda>f. ends_with entry_path f) filters then acc @ [entry_path] else acc)) entries files)"

definition scan_build_directory :: "nat \<Rightarrow> gcc_env \<Rightarrow> string \<Rightarrow> string list \<Rightarrow> disk \<Rightarrow> string list res" where
  "scan_build_directory fuel g build_dir excludes d =
     (let headers = path_append build_dir ''headers.gg.txt''
      in if \<not> path_exists headers d then Inl (Runtime_error ''cannot open headers.gg.txt'')
         else get_all_files fuel g d (file_lines headers d) excludes build_dir [])"

section \<open>Dependencies that a thunk finds\<close>

definition canonical_directory :: "gcc_env \<Rightarrow> string \<Rightarrow> disk \<Rightarrow> string res" where
  "canonical_directory g p d = bind_res (ge_realpath g p d) (\<lambda>r. Inr (path_append r []))"

definition directory_blueprint ::
  "gcc_env \<Rightarrow> string option \<Rightarrow> (string \<times> string) list \<Rightarrow> string \<Rightarrow> string list \<times> disk \<Rightarrow> (string list \<times> disk) res" where
  "directory_blueprint g build_dir blueprints dir st =
     (case st of (tarballs, d) \<Rightarrow>
        if \<not> path_exists dir d then Inr (tarballs, d)
        else bind_res (canonical_directory g dir d) (\<lambda>canonical_dir.
          if (case build_dir of None \<Rightarrow> False | Some b \<Rightarrow> starts_with b canonical_dir) then Inr (tarballs, d)
          else bind_res (get_blueprint blueprints canonical_dir) (\<lambda>h.
            let w = ge_world g; src = path_append (ge_blueprint_dir g) h; dst = blob (wd_gg_dir w) h
            in bind_res (if path_exists dst d then Inr d else copy_then_rename (wd_kernel w) src dst (Some 256) d) (\<lambda>d'.
                 Inr (List.insert h tarballs, d')))))"

definition colon_joined :: "string list \<Rightarrow> string" where
  "colon_joined xs = fold (\<lambda>x s. if s = [] then x else s @ '':'' @ x) xs []"

definition create_envar :: "string \<Rightarrow> string \<Rightarrow> string" where
  "create_envar name value = name @ ''='' @ value"

text \<open>What the thunk that finds the dependencies needs beside the compiler: the variables, the inputs, its
  own program.\<close>

definition deferred_depgen ::
  "nat \<Rightarrow> gcc_env \<Rightarrow> gcc_arguments \<Rightarrow> input_file \<Rightarrow> string list \<Rightarrow> factory_data \<Rightarrow> string \<Rightarrow> string \<Rightarrow> disk \<Rightarrow>
     (string list \<times> factory_data list \<times> factory_data \<times> disk) res" where
  "deferred_depgen fuel g a input include_path gcc_data cc1_program makedep_target d =
     (let w = ge_world g; environ = wd_environ w
      in bind_res (case environ ''GG_GCC_BUILD_DIR'' of
                     None \<Rightarrow> Inr None
                   | Some b \<Rightarrow> bind_res (canonical_directory g b d) (\<lambda>r. Inr (Some r))) (\<lambda>build_dir.
         let excludes = wd_gg_dir w # (case environ ''GG_GCC_SOURCE_DIR'' of None \<Rightarrow> [] | Some s \<Rightarrow> [s]);
             dirs = ga_include_dirs a @ ga_system_include_dirs a @
                    (if ga_no_stdinc a then [] else if ga_no_stdincpp a then ge_c_include_path g else include_path)
         in bind_res (read_blueprints (path_append (ge_blueprint_dir g) ''index'') d) (\<lambda>blueprints.
            bind_res (fold_res (directory_blueprint g build_dir blueprints) dirs ([], d)) (\<lambda>(found, d1).
            let tarballs = ge_order g found
            in bind_res (program_data g cc1_program) (\<lambda>cc1.
               let envars = [create_envar ''_GG_WORKING_DIRECTORY'' (ge_cwd g),
                             create_envar ''_GG_INCLUDE_TARBALLS'' (colon_joined tarballs),
                             create_envar ''_GG_INPUT_NAME'' (inp_name input),
                             create_envar ''_GG_TARGET_NAME'' makedep_target,
                             create_envar ''_GG_GCC_HASH'' (fd_hash gcc_data),
                             create_envar ''_GG_CC1_NAME'' cc1_program,
                             create_envar ''_GG_CC1_HASH'' (fd_hash cc1)]
               in bind_res (fold_res (\<lambda>tarball (xs, e). bind_res (data_of g ''.'' [] Value tarball e) (\<lambda>(x, e').
                              Inr (xs @ [x], e'))) tarballs ([], d1)) (\<lambda>(tarball_data, d2).
                  bind_res (case build_dir of None \<Rightarrow> Inr [] | Some b \<Rightarrow> scan_build_directory fuel g b excludes d2) (\<lambda>files.
                  bind_res (fold_res (add_infile g) files (tarball_data, d2)) (\<lambda>(infiles, d3).
                  bind_res (safe_getenv environ ''GG_GCC_DEPGEN_BIN'') (\<lambda>depgen_binary.
                  bind_res (file_hash g depgen_binary d3) (\<lambda>(depgen_hash, d4).
                  bind_res (data_of g ''/__gg__/generate-deps'' depgen_binary Value depgen_hash d4) (\<lambda>(depgen, d5).
                    Inr (envars, infiles, depgen, d5))))))))))))"

section \<open>The thunk of one stage\<close>

definition factory_options :: "32 word" where
  "factory_options = (opt_collect_data OR opt_generate_manifest OR opt_include_filenames)"

definition gcc_envars :: "string list" where
  "gcc_envars = [''PATH='' @ GG_BIN_PREFIX]"

definition gcc_function :: "gcc_env \<Rightarrow> operation_mode \<Rightarrow> string list \<Rightarrow> string list \<Rightarrow> func res" where
  "gcc_function g mode args envars =
     bind_res (program_hash g (mode_program mode)) (\<lambda>h. Inr \<lparr>fn_hash = h, fn_args = args, fn_envars = envars\<rparr>)"

definition stage_thunk ::
  "gcc_env \<Rightarrow> func \<Rightarrow> factory_data list \<Rightarrow> factory_data list \<Rightarrow> factory_output list \<Rightarrow> string list \<Rightarrow> int \<Rightarrow> disk \<Rightarrow>
     (string \<times> disk) res" where
  "stage_thunk g f infiles executables outputs dummy_dirs timeout d =
     (let w = ge_world g
      in generate (wd_sha256 w) (wd_encode w) (wd_kernel w) (wd_gg_dir w) f infiles executables outputs dummy_dirs
           timeout factory_options [] d)"

definition is_c_input :: "gcc_language \<Rightarrow> bool" where
  "is_c_input lang \<longleftrightarrow> lang \<in> {C_source, C_header, Assembler_with_cpp}"

definition include_path_of :: "gcc_env \<Rightarrow> gcc_language \<Rightarrow> string list" where
  "include_path_of g lang = (if is_c_input lang then ge_c_include_path g else ge_cxx_include_path g)"

definition include_flags :: "gcc_env \<Rightarrow> gcc_arguments \<Rightarrow> gcc_language \<Rightarrow> string list" where
  "include_flags g a lang =
     (if ga_no_stdinc a then []
      else if ga_no_stdincpp a then
        (if lang = CXX_source \<or> lang = CXX_header
         then ''-nostdinc'' # map (\<lambda>p. ''-isystem'' @ p) (ge_c_include_path g) else [])
      else ''-nostdinc'' # map (\<lambda>p. ''-isystem'' @ p) (include_path_of g lang))"

definition wants_makedep :: "string list \<Rightarrow> bool" where
  "wants_makedep args \<longleftrightarrow> list_ex (\<lambda>dep. dep \<in> {''-M'', ''-MM'', ''-MD''}) args"

definition DEFAULT_MAKE_TARGET :: string where "DEFAULT_MAKE_TARGET = ''__GG_MAKE_TARGET__''"

text \<open>The file and the target of the dependencies; without \<open>-MF\<close> the assertion of \<open>Optional\<close> fails.\<close>

definition makedep_names :: "gcc_arguments \<Rightarrow> bool \<Rightarrow> string \<Rightarrow> string \<Rightarrow> (string \<times> string) res" where
  "makedep_names a wanted tmp_name name =
     (if \<not> wanted then Inr (tmp_name, DEFAULT_MAKE_TARGET)
      else case option_argument GO_MF a of
             None \<Rightarrow> Inl Assertion_failed
           | Some mf \<Rightarrow>
               (case option_argument GO_MT a of
                  Some mt \<Rightarrow> Inr (mf, mt)
                | None \<Rightarrow> bind_res (rbasename name) (\<lambda>base.
                    Inr (mf, (case rfind_char CHR ''.'' base of None \<Rightarrow> base | Some dot \<Rightarrow> take dot base) @ ''.o''))))"

text \<open>What \<open>ofstream\<close> does with a file it may open.\<close>

definition write_stream :: "string \<Rightarrow> string \<Rightarrow> disk \<Rightarrow> disk" where
  "write_stream name text d =
     (case d name of
        Some Directory \<Rightarrow> d
      | Some (Regular _ m) \<Rightarrow> d(name \<mapsto> Regular text m)
      | None \<Rightarrow> d(name \<mapsto> Regular text 420))"

definition compiler_args :: "factory_data \<Rightarrow> string list \<Rightarrow> string \<Rightarrow> string list" where
  "compiler_args gcc_data args out_name =
     [fd_filename gcc_data, ''-specs=/__gg__/gcc-specs''] @ args @ [''-o'', out_name]"

definition preprocess_thunk ::
  "nat \<Rightarrow> gcc_env \<Rightarrow> gcc_generator \<Rightarrow> input_file \<Rightarrow> string \<Rightarrow> factory_data \<Rightarrow> string list \<Rightarrow> factory_data list \<Rightarrow> disk \<Rightarrow>
     (string \<times> disk) res" where
  "preprocess_thunk fuel g gen input out_name gcc_data args infiles d =
     (let a = gn_arguments gen; lang = inp_language input; wanted = wants_makedep args;
          all_args = args @ reproducible_flags (inp_name input) @ include_flags g a lang;
          cc1_program = (if is_c_input lang then ''cc1'' else ''cc1plus'')
      in case temp_file g ''/tmp/gg-makedep'' d of (tmp_name, d0) \<Rightarrow>
         bind_res (makedep_names a wanted tmp_name (inp_name input)) (\<lambda>(makedep_filename, makedep_target).
         bind_res (if gn_defer_depgen gen then Inr ([], d0)
                   else generate_dependencies_file g (gn_mode gen) (inp_name input) all_args makedep_filename
                          makedep_target True [] None d0) (\<lambda>(dependencies, d1).
         bind_res (prune_makedep_flags (compiler_args gcc_data all_args out_name)) (\<lambda>pruned.
         bind_res (program_data g cc1_program) (\<lambda>cc1.
         bind_res (fold_res (add_infile g) dependencies (infiles, d1)) (\<lambda>(infiles1, d2).
           let dummy_dirs = include_path_of g lang @ ga_include_dirs a @ ga_system_include_dirs a @ [''.'']
           in bind_res
             (if gn_defer_depgen gen then
                bind_res (deferred_depgen fuel g a input (include_path_of g lang) gcc_data cc1_program makedep_target d2)
                  (\<lambda>(envars, more_infiles, depgen, d3).
                    Inr (\<lparr>fn_hash = fd_hash depgen, fn_args = pruned[0 := ''/__gg__/generate-deps''],
                           fn_envars = gcc_envars @ envars\<rparr>,
                         infiles1 @ more_infiles, [gcc_data, cc1, depgen],
                         [make_output ''output'' (Some out_name), make_output ''dependencies'' None], DEPGEN_TIMEOUT, d3))
              else bind_res (gcc_function g (gn_mode gen) pruned gcc_envars) (\<lambda>f.
                     Inr (f, infiles1, [gcc_data, cc1], [make_output ''output'' (Some out_name)], PREPROCESS_TIMEOUT, d2)))
             (\<lambda>(f, infiles2, executables, outputs, timeout, d3).
                bind_res (stage_thunk g f infiles2 executables outputs dummy_dirs timeout d3) (\<lambda>(h, d4).
                  let d5 = (if gn_defer_depgen gen \<and> wanted
                            then write_stream makedep_filename (makedep_target @ '': '' @ inp_name input @ [newline]) d4
                            else d4)
                  in Inr (h, d5(tmp_name := None))))))))))"

text \<open>\<open>first_stage\<close> only matters for the debug options of the assembler; \<open>placeholder\<close> says whether the output
  is the last one.\<close>

definition debug_options :: "int list" where "debug_options = [GO_gdwarf_4, GO_g, GO_g0, GO_g1]"

definition drop_debug_flags :: "gcc_arguments \<Rightarrow> gcc_stage \<Rightarrow> string list \<Rightarrow> string list" where
  "drop_debug_flags a first_stage args =
     (if first_stage \<noteq> ASSEMBLE \<and> list_ex (\<lambda>opt. option_argument opt a \<noteq> None) debug_options
      then filter (\<lambda>s. s \<notin> {''-gdwarf-4'', ''-g'', ''-g0'', ''-g1''}) args else args)"

definition simple_thunk ::
  "gcc_env \<Rightarrow> gcc_generator \<Rightarrow> string list \<Rightarrow> string \<Rightarrow> factory_data \<Rightarrow> string \<Rightarrow> factory_data list \<Rightarrow> int \<Rightarrow> disk \<Rightarrow>
     (string \<times> disk) res" where
  "simple_thunk g gen args out_name gcc_data tool infiles timeout d =
     bind_res (prune_makedep_flags args) (\<lambda>pruned.
     bind_res (program_data g tool) (\<lambda>program.
     bind_res (gcc_function g (gn_mode gen) pruned gcc_envars) (\<lambda>f.
       stage_thunk g f infiles [gcc_data, program] [make_output ''output'' (Some out_name)] [] timeout d)))"

definition generate_thunk ::
  "nat \<Rightarrow> gcc_env \<Rightarrow> gcc_generator \<Rightarrow> gcc_stage \<Rightarrow> gcc_stage \<Rightarrow> input_file \<Rightarrow> string \<Rightarrow> bool \<Rightarrow> disk \<Rightarrow>
     (string \<times> disk) res" where
  "generate_thunk fuel g gen first_stage stage input out_name placeholder d =
     (let a = gn_arguments gen
      in bind_res (program_data g (mode_program (gn_mode gen))) (\<lambda>gcc_data.
         bind_res (only_input input a) (\<lambda>args0.
         bind_res (data_of g ''/__gg__/gcc-specs'' (gn_specs gen) Value [] d) (\<lambda>(specs, d1).
         bind_res (fold_res (add_infile g) (ga_extra_infiles a stage) ([inp_indata input, specs], d1)) (\<lambda>(infiles, d2).
           let args = drop_stage_flags args0
           in bind_res
             (case stage of
                PREPROCESS \<Rightarrow> preprocess_thunk fuel g gen input out_name gcc_data args infiles d2
              | COMPILE \<Rightarrow>
                  simple_thunk g gen (compiler_args gcc_data args out_name @
                      [''-S'', ''-frandom-seed='' @ data_placeholder (inp_name input)])
                    out_name gcc_data (if inp_language input = Cpp_output then ''cc1'' else ''cc1plus'') infiles
                    COMPILE_TIMEOUT d2
              | ASSEMBLE \<Rightarrow>
                  simple_thunk g gen (drop_debug_flags a first_stage (compiler_args gcc_data args out_name) @ [''-c''])
                    out_name gcc_data ''as'' infiles ASSEMBLE_TIMEOUT d2
              | LINK \<Rightarrow> Inl (Runtime_error ''invalid gcc stage''))
             (\<lambda>(h, d3).
                bind_res (if placeholder then write_placeholder (wd_kernel (ge_world g)) h out_name d3 else Inr d3) (\<lambda>d4.
                  Inr (h, d4))))))))"

section \<open>One input\<close>

definition preprocessed_language :: "gcc_language \<Rightarrow> gcc_language res" where
  "preprocessed_language lang =
     (if lang = C_source \<or> lang = C_header then Inr Cpp_output
      else if lang = CXX_header \<or> lang = CXX_source then Inr CXX_cpp_output
      else if lang = Assembler_with_cpp then Inr Assembler
      else Inl (Runtime_error ''invalid preprocessing language''))"

definition language_after :: "gcc_stage \<Rightarrow> gcc_language \<Rightarrow> gcc_language res" where
  "language_after stage lang =
     (case stage of
        PREPROCESS \<Rightarrow> preprocessed_language lang
      | COMPILE \<Rightarrow> Inr Assembler
      | ASSEMBLE \<Rightarrow> Inr Object_file
      | LINK \<Rightarrow> Inl (Runtime_error ''unexpected stage''))"

text \<open>The name of the output of a stage and, possibly changed, of the whole run: a default name for the last
  stage is made of the name the input has now, and stays for the inputs that follow.\<close>

definition stage_names :: "gcc_stage \<Rightarrow> nat \<Rightarrow> gcc_stage \<Rightarrow> string \<Rightarrow> string \<Rightarrow> (string \<times> string) res" where
  "stage_names last_st i stage name final_output =
     (if stage \<noteq> last_st then Inr (''output_'' @ nat_to_string i @ ''_'' @ nat_to_string (stage_num stage), final_output)
      else if final_output \<noteq> [] then Inr (final_output, final_output)
      else if stage = PREPROCESS then Inl (Runtime_error ''gcc model cannot preprocess to stdout'')
      else if stage = LINK then Inl (Runtime_error ''internal error'')
      else bind_res (split_source_name name) (\<lambda>(base, _).
        Inr (stage_output_name stage base, stage_output_name stage base)))"

definition run_stage ::
  "nat \<Rightarrow> gcc_env \<Rightarrow> gcc_generator \<Rightarrow> nat \<Rightarrow> gcc_stage \<Rightarrow> gcc_stage \<Rightarrow> input_file \<times> string \<times> disk \<Rightarrow>
     (input_file \<times> string \<times> disk) res" where
  "run_stage fuel g gen i first_stage stage st =
     (case st of (input, final_output, d) \<Rightarrow>
        let last_st = last_stage (gn_arguments gen)
        in if inp_source_language input = Assembler_with_cpp \<and> stage = COMPILE then Inr st
           else bind_res (stage_names last_st i stage (inp_name input) final_output) (\<lambda>(out_name, final_output').
             bind_res (if gn_preprocess_locally gen \<and> stage = PREPROCESS \<and> stage \<noteq> last_st
                       then do_preprocessing g gen input d
                       else generate_thunk fuel g gen first_stage stage input out_name (stage = last_st) d) (\<lambda>(h, d1).
             bind_res (language_after stage (inp_language input)) (\<lambda>lang.
             bind_res (hash_type h) (\<lambda>ty.
             bind_res (data_of g out_name ''nonexistent'' ty h d1) (\<lambda>(indata, d2).
               Inr (input\<lparr>inp_language := lang, inp_name := out_name, inp_indata := indata\<rparr>, final_output', d2)))))))"

definition stages_between :: "gcc_stage \<Rightarrow> gcc_stage \<Rightarrow> gcc_stage list" where
  "stages_between a b = filter (\<lambda>s. a \<le> s \<and> s \<le> b) [PREPROCESS, COMPILE, ASSEMBLE, LINK]"

definition input_with_data :: "gcc_env \<Rightarrow> input_file \<Rightarrow> disk \<Rightarrow> (input_file \<times> disk) res" where
  "input_with_data g input d =
     (if inp_language input \<noteq> Shared_library
      then bind_res (data_of g (inp_name input) [] Value [] d) (\<lambda>(x, d'). Inr (input\<lparr>inp_indata := x\<rparr>, d'))
      else Inr (input, d))"

definition input_stages ::
  "nat \<Rightarrow> gcc_env \<Rightarrow> gcc_generator \<Rightarrow> nat \<Rightarrow> input_file \<Rightarrow> string \<Rightarrow> disk \<Rightarrow> (input_file \<times> string \<times> disk) res" where
  "input_stages fuel g gen i input final_output d =
     (if \<not> is_non_object_input input then Inr (input, final_output, d)
      else bind_res (language_to_stage (inp_language input)) (\<lambda>first_stage.
        let last_st = last_stage (gn_arguments gen); input_last = (if last_st = LINK then ASSEMBLE else last_st)
        in fold_res (run_stage fuel g gen i first_stage) (stages_between first_stage input_last) (input, final_output, d)))"

definition run_input ::
  "nat \<Rightarrow> gcc_env \<Rightarrow> gcc_generator \<Rightarrow> nat \<Rightarrow> input_file list \<times> string \<times> disk \<Rightarrow>
     (input_file list \<times> string \<times> disk) res" where
  "run_input fuel g gen i st =
     (case st of (inputs, final_output, d) \<Rightarrow>
        bind_res (input_with_data g (inputs ! i) d) (\<lambda>(input, d1).
        bind_res (input_stages fuel g gen i input final_output d1) (\<lambda>(input', final_output', d2).
          Inr (inputs[i := input'], final_output', d2))))"

section \<open>The link\<close>

definition link_file :: "gcc_language \<Rightarrow> bool" where
  "link_file lang \<longleftrightarrow> lang \<in> {Object_file, Shared_object, Archive_library}"

fun link_question :: "input_file list \<Rightarrow> nat option \<Rightarrow> string list \<Rightarrow> string list res" where
  "link_question [] last_index args = Inr args"
| "link_question (it # its) last_index args =
     (if inp_language it = Shared_library then link_question its last_index args
      else if inp_language it = Shared_object then
        (if inp_index it < length args then link_question its last_index (args[inp_index it := inp_name it])
         else Inl Undefined_behaviour)
      else if (case last_index of None \<Rightarrow> False | Some l \<Rightarrow> l \<le> inp_index it) then Inl Assertion_failed
      else bind_res (erase_at (inp_index it) args) (\<lambda>args'. link_question its (Some (inp_index it)) args'))"

definition get_link_dependencies ::
  "gcc_env \<Rightarrow> gcc_generator \<Rightarrow> input_file list \<Rightarrow> disk \<Rightarrow> (string list \<times> disk) res" where
  "get_link_dependencies g gen link_inputs d =
     bind_res (link_question (rev link_inputs) None (ga_args (gn_arguments gen))) (\<lambda>args.
       parse_linker_output g
         (path_append (ge_toolchain_path g) (mode_program (gn_mode gen)) # removeAll ''-Wl,--as-needed'' args @
          [''-Wl,--verbose'', ''-B'' @ ge_gcc_install_path g]) d)"

definition place_link_input :: "input_file \<Rightarrow> string list \<Rightarrow> string list res" where
  "place_link_input input args =
     (if link_file (inp_language input) then
        (if inp_index input < length args then Inr (args[inp_index input := inp_name input]) else Inl Undefined_behaviour)
      else if inp_language input = Shared_library then Inr args
      else Inl (Runtime_error ''invalid input for link stage''))"

definition gomp_spec :: "gcc_env \<Rightarrow> bool \<Rightarrow> disk \<Rightarrow> string list res" where
  "gomp_spec g include_gompspec d =
     (if \<not> include_gompspec then Inr []
      else case filter (\<lambda>p. path_exists p d) (map (\<lambda>dir. path_append dir ''libgomp.spec'') (ge_gcc_library_path g)) of
             [] \<Rightarrow> Inl (Runtime_error ''could not find file libgomp.spec'')
           | p # _ \<Rightarrow> Inr [p])"

definition link_args :: "gcc_env \<Rightarrow> gcc_arguments \<Rightarrow> string \<Rightarrow> string list \<Rightarrow> string list" where
  "link_args g a program args =
     program #
     (if ga_no_stdlib a \<or> ga_no_defaultlibs a then [] else map (\<lambda>dir. ''-L'' @ dir) (ge_gcc_library_path g)) @
     map (\<lambda>dir. ''-L'' @ dir) (ga_library_dirs a) @ args @ [''-B'' @ ge_gcc_install_path g] @
     map (\<lambda>dir. ''-Wl,-rpath-link,'' @ dir) (ge_ld_search_path g) @ (if ga_force_strip a then [''-s''] else [])"

definition link_dummy_dirs :: "gcc_env \<Rightarrow> gcc_arguments \<Rightarrow> string list" where
  "link_dummy_dirs g a =
     (if ga_no_stdlib a \<or> ga_no_defaultlibs a then [] else ge_gcc_library_path g) @ ga_library_dirs a @
     ge_ld_search_path g @ [ge_gcc_install_path g]"

definition generate_link_thunk ::
  "gcc_env \<Rightarrow> gcc_generator \<Rightarrow> input_file list \<Rightarrow> string list \<Rightarrow> string \<Rightarrow> disk \<Rightarrow> (string \<times> disk) res" where
  "generate_link_thunk g gen link_inputs dependencies out_name d =
     (let a = gn_arguments gen; w = ge_world g
      in bind_res (map_res (program_data g) [mode_program (gn_mode gen), ''collect2'', ''ld'']) (\<lambda>executables.
         let objects = map inp_indata (filter (\<lambda>it. link_file (inp_language it)) link_inputs)
         in bind_res (fold_res (add_infile g) dependencies (objects, d)) (\<lambda>(infiles, d1).
            bind_res (fold_res place_link_input link_inputs (ga_args a @ [''-o'', out_name])) (\<lambda>args.
            bind_res (fold_res (add_infile g) (ga_extra_infiles a LINK) (infiles, d1)) (\<lambda>(infiles1, d2).
            bind_res (gomp_spec g (gn_gompspec gen) d2) (\<lambda>spec.
            bind_res (fold_res (add_infile g) spec (infiles1, d2)) (\<lambda>(infiles2, d3).
            bind_res (gcc_function g (gn_mode gen) (link_args g a (fd_filename (hd executables)) args) gcc_envars) (\<lambda>f.
            bind_res (stage_thunk g f infiles2 executables [make_output ''output'' (Some out_name)] (link_dummy_dirs g a)
                        LINK_TIMEOUT d3) (\<lambda>(h, d4).
            bind_res (write_placeholder (wd_kernel w) h out_name d4) (\<lambda>d5. Inr (h, d5)))))))))))"

section \<open>The whole model\<close>

definition generate_model :: "nat \<Rightarrow> gcc_env \<Rightarrow> gcc_generator \<Rightarrow> disk \<Rightarrow> (string \<times> disk) res" where
  "generate_model fuel g gen d =
     (let a = gn_arguments gen; inputs = ga_inputs a; last_st = last_stage a
      in if 1 < length (filter is_non_object_input inputs) \<and> ga_output a \<noteq> []
         then Inl (Runtime_error ''cannot specify -o with -c, -S or -E with multiple files'')
         else bind_res (fold_res (run_input fuel g gen) [0..<length inputs] (inputs, ga_output a, d))
                (\<lambda>(inputs', final_output, d1).
           if last_st \<noteq> LINK then Inr (final_output, d1)
           else let linked = (if final_output = [] then ''a.out'' else final_output)
                in bind_res (get_link_dependencies g gen inputs' d1) (\<lambda>(dependencies, d2).
                   bind_res (generate_link_thunk g gen inputs' dependencies linked d2) (\<lambda>(_, d3).
                     Inr (linked, d3)))))"

text \<open>The constructor: \<open>Inr None\<close> when the compiler itself is run instead.\<close>

definition runs_gcc_itself :: "gcc_env \<Rightarrow> gcc_arguments \<Rightarrow> disk \<Rightarrow> bool" where
  "runs_gcc_itself g a d \<longleftrightarrow>
     wd_environ (ge_world g) ''GG_BYPASS'' \<noteq> None
     \<or> option_argument GO_print_file_name a \<noteq> None \<or> option_argument GO_dM a \<noteq> None
     \<or> option_argument GO_dumpmachine a \<noteq> None
     \<or> list_ex (\<lambda>it. inp_source_language it = Assembler_with_cpp \<and> has_include_or_incbin (inp_name it) d) (ga_inputs a)
     \<or> last_stage a = PREPROCESS \<and> ga_output a \<in> {''-'', []}"

definition new_generator ::
  "nat \<Rightarrow> gcc_env \<Rightarrow> (string \<Rightarrow> string list option) \<Rightarrow> operation_mode \<Rightarrow> string list \<Rightarrow> disk \<Rightarrow>
     (gcc_generator option \<times> disk) res" where
  "new_generator fuel g wordexp mode argv d =
     (let environ = wd_environ (ge_world g); given = (\<lambda>name. environ name \<noteq> None)
      in bind_res (gcc_arguments_of fuel d wordexp (given ''GG_GCC_FORCE_STRIP'') None argv) (\<lambda>a.
         case temp_file g ''/tmp/gg-gccspecs'' d of (specs, d1) \<Rightarrow>
           if runs_gcc_itself g a d1 then Inr (None, d1)
           else if ga_output a = ''-'' then
             Inl (Runtime_error ''outputting to stdout is only allowed for preprocessing stage'')
           else if map inp_name (ga_inputs a) = [''/dev/null''] then Inr (None, d1)
           else if ga_inputs a = [] then Inl (Runtime_error ''no input files'')
           else bind_res (dump_gcc_specs g specs d1) (\<lambda>d2.
             Inr (Some \<lparr>gn_mode = mode, gn_arguments = a, gn_specs = specs,
                         gn_preprocess_locally = given ''GG_GCC_PREPROCESS_LOCALLY'',
                         gn_defer_depgen = given ''GG_GCC_DEFER_DEPGEN'', gn_gompspec = given ''GG_GCC_OPENMP_SUPPORT''\<rparr>,
                  d2))))"

text \<open>\<open>main\<close> after the program name: the mode, then the command line of the compiler. The file with the specs
  is removed at the end.\<close>

definition gcc_model ::
  "nat \<Rightarrow> gcc_env \<Rightarrow> (string \<Rightarrow> string list option) \<Rightarrow> string list \<Rightarrow> disk \<Rightarrow> (string option \<times> disk) res" where
  "gcc_model fuel g wordexp args d =
     (case args of
        (mode # rest1 # rest) \<Rightarrow>
          bind_res (if mode = ''gcc'' then Inr GCC_mode else if mode = ''g++'' then Inr GXX_mode
                    else Inl (Runtime_error ''invalid operation mode'')) (\<lambda>m.
          bind_res (new_generator fuel g wordexp m args d) (\<lambda>(generator, d1).
            case generator of
              None \<Rightarrow> Inr (None, d1)
            | Some gen \<Rightarrow> bind_res (generate_model fuel g gen d1) (\<lambda>(final_output, d2).
                Inr (Some final_output, d2(gn_specs gen := None)))))
      | _ \<Rightarrow> Inl (Runtime_error ''usage''))"

end
