(* ===== verification/GccLaws.thy ===== *)
theory GccLaws
  imports GccModel Answers
begin

text \<open>
  Laws of the gcc model: the inputs of a parsed command line stand where their indices say, a stage's
  arguments are the options with exactly its input, every input of the link is an object by the time it is
  linked, and default names of outputs are lost.
\<close>

section \<open>A parsed command line\<close>

definition input_word :: "input_file \<Rightarrow> string" where
  "input_word it = (if inp_language it = Shared_library then ''-l'' @ inp_name it else inp_name it)"

definition input_ok :: "string list \<Rightarrow> input_file \<Rightarrow> bool" where
  "input_ok args it \<longleftrightarrow>
     inp_index it < length args \<and> args ! inp_index it = input_word it \<and>
     inp_source_language it = inp_language it \<and> inp_language it \<noteq> Lang_none"

definition inputs_ok :: "gcc_arguments \<Rightarrow> bool" where
  "inputs_ok a \<longleftrightarrow>
     sorted_wrt (<) (map inp_index (ga_inputs a)) \<and> (\<forall>it \<in> set (ga_inputs a). input_ok (ga_args a) it)"

text \<open>Adding options only adds words at the end.\<close>

definition extends :: "gcc_arguments \<Rightarrow> gcc_arguments \<Rightarrow> bool" where
  "extends a b \<longleftrightarrow> ga_inputs b = ga_inputs a \<and> (\<exists>xs. ga_args b = ga_args a @ xs)"

lemma extends_refl [simp]: "extends a a"
  by (simp add: extends_def)

lemma extends_trans: "extends a b \<Longrightarrow> extends b c \<Longrightarrow> extends a c"
  by (auto simp: extends_def)

lemma extends_add_args [simp]: "extends a (add_args xs a)"
  by (simp add: extends_def add_args_def)

lemma extends_fields [simp]:
  "extends a (b\<lparr>ga_output := out\<rparr>) = extends a b"
  "extends a (b\<lparr>ga_last_stage := st\<rparr>) = extends a b"
  "extends a (b\<lparr>ga_include_dirs := dirs\<rparr>) = extends a b"
  "extends a (b\<lparr>ga_library_dirs := dirs\<rparr>) = extends a b"
  "extends a (b\<lparr>ga_system_include_dirs := dirs\<rparr>) = extends a b"
  "extends a (b\<lparr>ga_opt_map := m\<rparr>) = extends a b"
  "extends a (b\<lparr>ga_extra_infiles := e\<rparr>) = extends a b"
  "extends a (b\<lparr>ga_no_stdlib := x\<rparr>) = extends a b"
  "extends a (b\<lparr>ga_no_stdinc := x\<rparr>) = extends a b"
  "extends a (b\<lparr>ga_no_stdincpp := x\<rparr>) = extends a b"
  "extends a (b\<lparr>ga_no_defaultlibs := x\<rparr>) = extends a b"
  by (simp_all add: extends_def)

lemma extends_add_args_after [simp]: "extends a b \<Longrightarrow> extends a (add_args xs b)"
  by (rule extends_trans [OF _ extends_add_args])

lemma extends_add_option_as [simp]: "extends a b \<Longrightarrow> extends a (add_option_as opt optstr val sep dashes b)"
  by (simp add: add_option_as_def Let_def)

lemma extends_add_gcc_option: "add_gcc_option opt val b = Inr c \<Longrightarrow> extends a b \<Longrightarrow> extends a c"
  by (auto simp: add_gcc_option_def split: option.splits)

lemma extends_add_extra_infile [simp]: "extends a b \<Longrightarrow> extends a (add_extra_infile stage name b)"
  by (simp add: add_extra_infile_def)

lemma inputs_ok_extends: "extends a b \<Longrightarrow> inputs_ok a \<Longrightarrow> inputs_ok b"
  by (auto simp: extends_def inputs_ok_def input_ok_def nth_append)

lemma inputs_ok_add_input:
  assumes "inputs_ok a" and "language \<noteq> Lang_none"
  shows "inputs_ok (add_input filename language a)"
  using assms
  by (auto simp: inputs_ok_def input_ok_def add_input_def add_args_def input_word_def nth_append sorted_wrt_append)

lemma process_W_option_extends: "process_W_option d optarg a = Inr b \<Longrightarrow> extends a b"
  by (auto simp: process_W_option_def Let_def split: if_splits option.splits)

text \<open>An answer of getopt adds options or one input.\<close>

definition option_step :: "gcc_arguments \<Rightarrow> gcc_arguments \<Rightarrow> bool" where
  "option_step a b \<longleftrightarrow> extends a b \<or> (\<exists>name language. language \<noteq> Lang_none \<and> b = add_input name language a)"

lemma option_step_ok: "option_step a b \<Longrightarrow> inputs_ok a \<Longrightarrow> inputs_ok b"
  by (auto simp: option_step_def intro: inputs_ok_extends inputs_ok_add_input)

lemma short_gcc_option_step: "short_gcc_option d opt optarg a = Inr (Some b) \<Longrightarrow> option_step a b"
  by (auto simp: short_gcc_option_def option_step_def Let_def dest: process_W_option_extends split: if_splits)

lemma long_gcc_option_extends: "long_gcc_option opt optarg flag lang a = Inr (lang', b) \<Longrightarrow> extends a b"
  by (auto simp: long_gcc_option_def lower_stage_def Let_def elim!: extends_add_gcc_option split: if_splits)

lemma filename_to_language_named: "filename_to_language p = Inr lang \<Longrightarrow> lang \<noteq> Lang_none"
  by (auto simp: filename_to_language_def ext_to_lang_def split: option.splits if_splits prod.splits)

lemma operand_language_named: "operand_language current p a = Inr lang \<Longrightarrow> lang \<noteq> Lang_none"
  by (auto simp: operand_language_def dest: filename_to_language_named split: if_splits)

lemma take_gcc_option_step: "take_gcc_option d opt optarg flag lang a = Inr (lang', b) \<Longrightarrow> option_step a b"
  unfolding take_gcc_option_def
  by (auto simp: Let_def option_step_def dest: operand_language_named long_gcc_option_extends
      short_gcc_option_step [unfolded option_step_def] split: if_splits option.splits)

lemma gcc_options_loop_ok: "gcc_options_loop d st lang a = Inr b \<Longrightarrow> inputs_ok a \<Longrightarrow> inputs_ok b"
proof (induction d st lang a arbitrary: b rule: gcc_options_loop.induct)
  case (1 d st lang a)
  obtain opt optarg st' where go: "getopt gcc_optstring gcc_long_options True st = (opt, optarg, st')"
    by (metis surj_pair)
  show ?case
  proof (cases "opt = opt_end")
    case True
    then show ?thesis using 1 go by (simp add: gcc_options_loop.simps [of d st])
  next
    case False
    then obtain lang' a' where step: "take_gcc_option d opt optarg (gs_argv st' ! (gs_ind st' - 1)) lang a = Inr (lang', a')"
      and rest: "gcc_options_loop d st' lang' a' = Inr b"
      using 1(2) go by (auto simp: gcc_options_loop.simps [of d st])
    show ?thesis
      using "1.IH" [OF go [symmetric] refl False step refl rest]
        option_step_ok [OF take_gcc_option_step [OF step] 1(3)] by blast
  qed
qed

lemma new_gcc_arguments_ok: "inputs_ok (new_gcc_arguments force_strip root)"
  by (simp add: inputs_ok_def new_gcc_arguments_def)

lemma parsed_inputs_ok: "gcc_arguments_of fuel d wordexp force_strip root argv = Inr a \<Longrightarrow> inputs_ok a"
  by (auto simp: gcc_arguments_of_def intro: gcc_options_loop_ok new_gcc_arguments_ok)


section \<open>The words of one stage\<close>

definition placed_words :: "nat set \<Rightarrow> input_file \<Rightarrow> string \<Rightarrow> nat \<Rightarrow> string \<Rightarrow> string list" where
  "placed_words inputs input lang i s =
     (if i \<notin> inputs then [s] else if i = inp_index input then [''-x'', lang, inp_name input] else [])"

definition words_of :: "(nat \<Rightarrow> string \<Rightarrow> string list) \<Rightarrow> nat \<Rightarrow> string list \<Rightarrow> string list" where
  "words_of w n args = concat (map (\<lambda>(i, s). w i s) (List.enumerate n args))"

text \<open>The reference: the words of the command line that are no inputs, and the input of the stage where it
  stood, after the name of its language.\<close>

definition option_words :: "input_file \<Rightarrow> string \<Rightarrow> gcc_arguments \<Rightarrow> string list" where
  "option_words input lang a =
     words_of (placed_words (inp_index ` set (ga_inputs a)) input lang) 0 (ga_args a)"

lemma words_of_Nil [simp]: "words_of w n [] = []"
  by (simp add: words_of_def)

lemma words_of_Cons [simp]: "words_of w n (x # xs) = w n x @ words_of w (Suc n) xs"
  by (simp add: words_of_def)

lemma words_of_append: "words_of w n (xs @ ys) = words_of w n xs @ words_of w (n + length xs) ys"
  by (induction xs arbitrary: n) simp_all

lemma words_of_cong: "(\<And>i s. n \<le> i \<Longrightarrow> i < n + length xs \<Longrightarrow> w i s = v i s) \<Longrightarrow> words_of w n xs = words_of v n xs"
  by (induction xs arbitrary: n) auto

lemma words_of_same: "words_of (\<lambda>i s. [s]) n xs = xs"
  by (induction xs arbitrary: n) simp_all

lemma words_of_split:
  assumes "k < length args" and "\<And>i s. i < k \<Longrightarrow> w i s = [s]"
  shows "words_of w 0 args = take k args @ w k (args ! k) @ words_of w (Suc k) (drop (Suc k) args)"
proof -
  have "words_of w 0 (take k args) = words_of (\<lambda>i s. [s]) 0 (take k args)"
    using assms by (intro words_of_cong) auto
  moreover have "args = take k args @ args ! k # drop (Suc k) args" using assms(1) by (rule id_take_nth_drop)
  ultimately show ?thesis using assms(1) words_of_append [of w 0 "take k args" "args ! k # drop (Suc k) args"]
    by (simp add: words_of_same)
qed

text \<open>Editing from the back leaves what is before untouched, so each edit is at its own place.\<close>

lemma edit_inputs_words:
  assumes "sorted_wrt (<) (map inp_index its)" and "\<forall>it \<in> set its. inp_index it < length args"
    and "language_to_name (inp_language input) = Inr lang"
  shows "fold_res (edit_input input) (rev its) args = Inr (words_of (placed_words (inp_index ` set its) input lang) 0 args)"
  using assms(1,2)
proof (induction its)
  case Nil
  have "words_of (placed_words {} input lang) 0 args = words_of (\<lambda>i s. [s]) 0 args"
    by (intro words_of_cong) (simp add: placed_words_def)
  then show ?case by (simp add: words_of_same)
next
  case (Cons it its)
  let ?k = "inp_index it"
  let ?w = "placed_words (inp_index ` set its) input lang"
  let ?v = "placed_words (inp_index ` set (it # its)) input lang"
  have k: "?k < length args" and later: "\<And>i. i \<in> inp_index ` set its \<Longrightarrow> ?k < i" using Cons.prems by auto
  have plain: "?w i s = [s]" if "i \<le> ?k" for i s using later [of i] that by (auto simp: placed_words_def)
  have plain': "?v i s = [s]" if "i < ?k" for i s using later [of i] that by (auto simp: placed_words_def)
  have w: "words_of ?w 0 args = take ?k args @ [args ! ?k] @ words_of ?w (Suc ?k) (drop (Suc ?k) args)"
    using words_of_split [OF k, of ?w] plain by simp
  have v: "words_of ?v 0 args = take ?k args @ ?v ?k (args ! ?k) @ words_of ?v (Suc ?k) (drop (Suc ?k) args)"
    using words_of_split [OF k, of ?v] plain' by simp
  have same: "words_of ?v (Suc ?k) (drop (Suc ?k) args) = words_of ?w (Suc ?k) (drop (Suc ?k) args)"
    by (intro words_of_cong) (auto simp: placed_words_def)
  have "edit_input input it (words_of ?w 0 args) = Inr (words_of ?v 0 args)"
    unfolding w v same using k assms(3) by (auto simp: edit_input_def erase_at_def placed_words_def)
  then show ?case using Cons by (simp add: fold_res_append)
qed

lemma only_input_words:
  assumes "inputs_ok a" and "language_to_name (inp_language input) = Inr lang"
  shows "only_input input a = Inr (option_words input lang a)"
  using edit_inputs_words [of "ga_inputs a" "ga_args a"] assms
  by (auto simp: only_input_def option_words_def inputs_ok_def input_ok_def)

section \<open>Stages and languages\<close>

lemma run_stage_keeps:
  assumes "run_stage fuel g gen i first_stage stage (input, out, d) = Inr (input', out', d')"
  shows "inp_index input' = inp_index input \<and> inp_source_language input' = inp_source_language input"
  using assms by (auto simp: run_stage_def Let_def split: if_splits prod.splits)

lemma run_stage_language:
  assumes "run_stage fuel g gen i first_stage stage (input, out, d) = Inr (input', out', d')"
  shows "if inp_source_language input = Assembler_with_cpp \<and> stage = COMPILE then input' = input
    else language_after stage (inp_language input) = Inr (inp_language input')"
  using assms by (auto simp: run_stage_def Let_def split: if_splits prod.splits)

text \<open>What an input is when a stage begins.\<close>

definition ready_for :: "gcc_stage \<Rightarrow> input_file \<Rightarrow> bool" where
  "ready_for stage input \<longleftrightarrow>
     (if stage = COMPILE \<and> inp_source_language input = Assembler_with_cpp then inp_language input = Assembler
      else language_to_stage (inp_language input) = Inr stage) \<and>
     (inp_language input = Assembler_with_cpp \<longrightarrow> inp_source_language input = Assembler_with_cpp) \<and>
     (inp_source_language input = Assembler_with_cpp \<longrightarrow>
        inp_language input = (if stage = PREPROCESS then Assembler_with_cpp else if stage = LINK then Object_file else Assembler))"

fun next_stage :: "gcc_stage \<Rightarrow> gcc_stage" where
  "next_stage PREPROCESS = COMPILE"
| "next_stage COMPILE = ASSEMBLE"
| "next_stage ASSEMBLE = LINK"
| "next_stage LINK = LINK"

lemma run_stage_ready:
  assumes "run_stage fuel g gen i first_stage stage (input, out, d) = Inr (input', out', d')" and "ready_for stage input"
  shows "ready_for (next_stage stage) input'"
  using run_stage_language [OF assms(1)] run_stage_keeps [OF assms(1)] assms(2)
  by (cases stage)
    (auto simp: ready_for_def language_after_def preprocessed_language_def language_to_stage_def split: if_splits)


definition stages_before :: "gcc_stage \<Rightarrow> gcc_stage \<Rightarrow> gcc_stage list" where
  "stages_before a b = filter (\<lambda>s. a \<le> s \<and> s < b) [PREPROCESS, COMPILE, ASSEMBLE, LINK]"

lemma stage_order:
  "(a \<le> b) = (stage_num a \<le> stage_num b)" "(a < b) = (stage_num a < stage_num b)" for a b :: gcc_stage
  by (simp_all add: less_eq_gcc_stage_def less_gcc_stage_def)

lemma stages_before_step: "a \<le> s \<Longrightarrow> s \<noteq> LINK \<Longrightarrow> stages_before a (next_stage s) = stages_before a s @ [s]"
  by (cases a; cases s) (simp_all add: stages_before_def stage_order)

lemma stages_before_self: "stages_before a a = []"
  by (cases a) (simp_all add: stages_before_def stage_order)

lemma stages_between_before: "b \<noteq> LINK \<Longrightarrow> stages_between a b = stages_before a (next_stage b)"
  by (cases a; cases b) (simp_all add: stages_before_def stages_between_def stage_order)

lemma fold_stages_keep:
  assumes "fold_res (run_stage fuel g gen i first_stage) stages (input, out, d) = Inr (input', out', d')"
  shows "inp_index input' = inp_index input \<and> inp_source_language input' = inp_source_language input"
  using assms
proof (induction stages arbitrary: input out d)
  case Nil
  then show ?case by simp
next
  case (Cons s stages)
  then obtain i1 o1 d1 where "run_stage fuel g gen i first_stage s (input, out, d) = Inr (i1, o1, d1)"
    and "fold_res (run_stage fuel g gen i first_stage) stages (i1, o1, d1) = Inr (input', out', d')" by auto
  then show ?case using Cons.IH run_stage_keeps by metis
qed

text \<open>The stages before \<open>s\<close> make of a ready input one that is ready for \<open>s\<close>.\<close>

lemma fold_stages_ready:
  assumes "ready_for first_stage input" and "first_stage \<le> s"
    and "fold_res (run_stage fuel g gen i first_stage) (stages_before first_stage s) (input, out, d) = Inr (input', out', d')"
  shows "ready_for s input'"
  using assms(2,3)
proof (induction "stage_num s - stage_num first_stage" arbitrary: s input' out' d')
  case 0
  then have "s = first_stage" by (cases s; cases first_stage) (simp_all add: stage_order)
  then show ?case using 0 assms(1) by (simp add: stages_before_self)
next
  case (Suc n)
  obtain p where p: "s = next_stage p" "p \<noteq> LINK" "first_stage \<le> p" "n = stage_num p - stage_num first_stage"
  proof -
    from Suc.hyps(2) have "stage_num first_stage < stage_num s" by simp
    then show ?thesis
      using Suc.hyps(2) that [of PREPROCESS] that [of COMPILE] that [of ASSEMBLE]
      by (cases s; cases first_stage) (simp_all add: stage_order)
  qed
  from Suc.prems(2) obtain i1 o1 d1
    where before: "fold_res (run_stage fuel g gen i first_stage) (stages_before first_stage p) (input, out, d) = Inr (i1, o1, d1)"
      and step: "run_stage fuel g gen i first_stage p (i1, o1, d1) = Inr (input', out', d')"
    unfolding p(1) stages_before_step [OF p(3,2)] by (auto simp: fold_res_append)
  show ?case
    using run_stage_ready [OF step Suc.hyps(1) [OF p(4,3) before]] by (simp add: p(1))
qed

lemma ready_at_start:
  "language_to_stage (inp_language input) = Inr first_stage \<Longrightarrow> inp_source_language input = inp_language input \<Longrightarrow>
    first_stage \<noteq> LINK \<Longrightarrow> ready_for first_stage input"
  by (cases "inp_language input") (auto simp: ready_for_def language_to_stage_def split: if_splits)

section \<open>All inputs\<close>

lemma non_object_stage:
  "is_non_object_input it \<Longrightarrow> language_to_stage (inp_language it) = Inr st \<Longrightarrow> st < LINK"
  by (cases "inp_language it") (auto simp: is_non_object_input_def language_to_stage_def stage_order)

lemma input_with_data_keeps:
  assumes "input_with_data g input d = Inr (x, d')"
  shows "inp_index x = inp_index input" "inp_language x = inp_language input" "inp_name x = inp_name input"
    "inp_source_language x = inp_source_language input"
  using assms by (auto simp: input_with_data_def split: if_splits)

text \<open>Linking, every input has become a file the linker takes.\<close>

lemma input_stages_link:
  assumes "input_stages fuel g gen i x out d = Inr (y, out', d')" and "last_stage (gn_arguments gen) = LINK"
    and "inp_source_language x = inp_language x"
  shows "inp_index y = inp_index x \<and> (link_file (inp_language y) \<or> inp_language y = Shared_library)"
proof (cases "is_non_object_input x")
  case False
  then show ?thesis using assms(1) by (auto simp: input_stages_def is_non_object_input_def link_file_def)
next
  case True
  then obtain st where st: "language_to_stage (inp_language x) = Inr st"
    and fold: "fold_res (run_stage fuel g gen i st) (stages_between st ASSEMBLE) (x, out, d) = Inr (y, out', d')"
    using assms(1,2) by (auto simp: input_stages_def)
  have early: "st < LINK" by (rule non_object_stage [OF True st])
  then have "st \<noteq> LINK" "st \<le> LINK" by auto
  moreover have "stages_between st ASSEMBLE = stages_before st LINK" by (simp add: stages_between_before)
  ultimately have "ready_for LINK y"
    using fold_stages_ready [OF ready_at_start [OF st assms(3)]] fold by metis
  then show ?thesis
    using fold_stages_keep [OF fold]
    by (cases "inp_language y") (auto simp: ready_for_def language_to_stage_def link_file_def split: if_splits)
qed

text \<open>After the first \<open>n\<close> inputs: those are taken by the linker, the others are as they were.\<close>

definition linked_up_to :: "nat \<Rightarrow> input_file list \<Rightarrow> input_file list \<Rightarrow> bool" where
  "linked_up_to n inputs0 inputs \<longleftrightarrow>
     map inp_index inputs = map inp_index inputs0 \<and> drop n inputs = drop n inputs0 \<and>
     (\<forall>it \<in> set (take n inputs). link_file (inp_language it) \<or> inp_language it = Shared_library)"

lemma run_input_linked:
  assumes run: "run_input fuel g gen n (inputs, out, d) = Inr (inputs', out', d')"
    and link: "last_stage (gn_arguments gen) = LINK" and n: "n < length inputs0"
    and before: "linked_up_to n inputs0 inputs"
    and plain: "\<forall>it \<in> set inputs0. inp_source_language it = inp_language it"
  shows "linked_up_to (Suc n) inputs0 inputs'"
proof -
  obtain x d1 y d2 where data: "input_with_data g (inputs ! n) d = Inr (x, d1)"
    and stages: "input_stages fuel g gen n x out d1 = Inr (y, out', d2)" and inputs': "inputs' = inputs[n := y]"
    using run by (auto simp: run_input_def)
  have len: "length inputs = length inputs0" using before unfolding linked_up_to_def by (metis length_map)
  have here: "inputs ! n = inputs0 ! n"
    using before len n unfolding linked_up_to_def by (metis hd_drop_conv_nth)
  then have "inp_source_language x = inp_language x"
    using plain n input_with_data_keeps [OF data] by simp
  from input_stages_link [OF stages link this] input_with_data_keeps [OF data]
  have y: "inp_index y = inp_index (inputs ! n)" "link_file (inp_language y) \<or> inp_language y = Shared_library" by auto
  have "map inp_index inputs' = map inp_index inputs"
    by (rule nth_equalityI) (use y(1) n len in \<open>auto simp: inputs' nth_list_update\<close>)
  moreover have "drop (Suc n) inputs' = drop (Suc n) inputs0"
    using before by (simp add: inputs' linked_up_to_def) (metis drop_Suc tl_drop)
  moreover have "take (Suc n) inputs' = take n inputs @ [y]"
    using n len by (simp add: inputs' take_Suc_conv_app_nth)
  ultimately show ?thesis using before y(2) by (auto simp: linked_up_to_def)
qed

lemma all_inputs_linked:
  assumes "fold_res (run_input fuel g gen) [0..<n] (inputs0, out, d) = Inr (inputs', out', d')"
    and "last_stage (gn_arguments gen) = LINK" and "n \<le> length inputs0"
    and "\<forall>it \<in> set inputs0. inp_source_language it = inp_language it"
  shows "linked_up_to n inputs0 inputs'"
  using assms(1,3)
proof (induction n arbitrary: inputs' out' d')
  case 0
  then show ?case by (simp add: linked_up_to_def)
next
  case (Suc n)
  then obtain i1 o1 d1 where "fold_res (run_input fuel g gen) [0..<n] (inputs0, out, d) = Inr (i1, o1, d1)"
    and step: "run_input fuel g gen n (i1, o1, d1) = Inr (inputs', out', d')"
    by (auto simp: fold_res_append)
  then have "linked_up_to n inputs0 i1" using Suc by simp
  then show ?case using run_input_linked [OF step assms(2)] Suc.prems(2) assms(4) by simp
qed

section \<open>The questions of the linker\<close>

text \<open>From the back again: no edit is out of range and the assertion holds.\<close>

lemma link_question_total:
  assumes "sorted_wrt (\<lambda>x y. y < x) (map inp_index its)" and "\<forall>it \<in> set its. inp_index it < length args"
    and "\<forall>it \<in> set its. case last_index of None \<Rightarrow> True | Some l \<Rightarrow> inp_index it < l"
  shows "\<exists>words. link_question its last_index args = Inr words"
  using assms
proof (induction its arbitrary: last_index args)
  case Nil
  then show ?case by simp
next
  case (Cons it its)
  have rest: "sorted_wrt (\<lambda>x y. y < x) (map inp_index its)" "\<forall>x \<in> set its. inp_index x < inp_index it" using Cons.prems by auto
  have "\<exists>words. link_question its last_index args' = Inr words" if "length args' = length args" for args'
    using Cons.IH [of args' last_index] Cons.prems that rest by simp
  moreover have "\<exists>words. link_question its (Some (inp_index it)) (take (inp_index it) args @ drop (inp_index it + 1) args) = Inr words"
    using Cons.IH [of "take (inp_index it) args @ drop (inp_index it + 1) args" "Some (inp_index it)"] Cons.prems rest by fastforce
  ultimately show ?case using Cons.prems by (auto simp: erase_at_def split: option.splits)
qed

lemma place_link_inputs_total:
  assumes "\<forall>it \<in> set its. inp_index it < length args"
    and "\<forall>it \<in> set its. link_file (inp_language it) \<or> inp_language it = Shared_library"
  shows "\<exists>words. fold_res place_link_input its args = Inr words \<and> length words = length args"
  using assms
proof (induction its arbitrary: args)
  case Nil
  then show ?case by simp
next
  case (Cons it its)
  then obtain args' where "place_link_input it args = Inr args'" "length args' = length args"
    by (cases "link_file (inp_language it)") (auto simp: place_link_input_def)
  then show ?case using Cons.IH [of args'] Cons.prems by simp
qed


section \<open>Default names\<close>

definition stage_name :: "nat \<Rightarrow> gcc_stage \<Rightarrow> string" where
  "stage_name i stage = ''output_'' @ nat_to_string i @ ''_'' @ nat_to_string (stage_num stage)"

lemma rfind_char_None: "c \<notin> set s \<Longrightarrow> rfind_char c s = None"
  by (induction s) auto

lemma stage_name_no_extension: "\<exists>e. split_source_name (stage_name i stage) = Inl e"
proof -
  have "CHR ''.'' \<notin> set (stage_name i stage)" by (simp add: stage_name_def numeral_no_char digit_val_def)
  then have "CHR ''.'' \<notin> set (gnu_basename (stage_name i stage))"
    unfolding gnu_basename_def by (metis set_rev set_takeWhileD)
  then show ?thesis by (simp add: split_source_name_def rfind_char_None)
qed

definition skips :: "input_file \<Rightarrow> gcc_stage \<Rightarrow> bool" where
  "skips input stage \<longleftrightarrow> inp_source_language input = Assembler_with_cpp \<and> stage = COMPILE"

lemma run_stage_name:
  assumes "run_stage fuel g gen i first_stage stage (input, out, d) = Inr (input', out', d')"
    and "stage \<noteq> last_stage (gn_arguments gen)"
  shows "out' = out \<and> (if skips input stage then input' = input else inp_name input' = stage_name i stage)"
  using assms by (auto simp: run_stage_def Let_def skips_def stage_names_def stage_name_def split: if_splits prod.splits)

text \<open>Before the last stage every name the input gets is one without an extension.\<close>

lemma fold_stages_name:
  assumes "fold_res (run_stage fuel g gen i first_stage) stages (input, out, d) = Inr (input', out', d')"
    and "last_stage (gn_arguments gen) \<notin> set stages"
  shows "out' = out \<and> (inp_name input' = inp_name input \<and> list_all (skips input) stages \<or> (\<exists>s. inp_name input' = stage_name i s))"
  using assms
proof (induction stages arbitrary: input out d)
  case Nil
  then show ?case by simp
next
  case (Cons s stages)
  then obtain i1 o1 d1 where first: "run_stage fuel g gen i first_stage s (input, out, d) = Inr (i1, o1, d1)"
    and rest: "fold_res (run_stage fuel g gen i first_stage) stages (i1, o1, d1) = Inr (input', out', d')" by auto
  have "s \<noteq> last_stage (gn_arguments gen)" using Cons.prems(2) by auto
  note name = run_stage_name [OF first this]
  have "skips i1 = skips input" using run_stage_keeps [OF first] by (auto simp: skips_def fun_eq_iff)
  then show ?case using name Cons.IH [OF rest] Cons.prems(2) by (auto split: if_splits)
qed

lemma last_stage_needs_extension:
  assumes "stage = last_stage (gn_arguments gen)" and "\<not> skips input stage" and "inp_name input = stage_name i s"
  shows "\<exists>e. run_stage fuel g gen i first_stage stage (input, [], d) = Inl e"
proof -
  obtain e where "split_source_name (inp_name input) = Inl e" using stage_name_no_extension assms(3) by metis
  then show ?thesis
    using assms(1,2) by (auto simp: run_stage_def skips_def stage_names_def Let_def)
qed

lemma default_name_stages:
  assumes "language_to_stage (inp_language input) = Inr first_stage" and "inp_source_language input = inp_language input"
    and "first_stage < last_st" and "last_st = last_stage (gn_arguments gen)" and "last_st \<noteq> LINK"
    and "inp_language input \<noteq> Assembler_with_cpp \<or> last_st = ASSEMBLE"
  shows "\<exists>e. fold_res (run_stage fuel g gen i first_stage) (stages_between first_stage last_st) (input, [], d) = Inl e"
proof -
  have le: "first_stage \<le> last_st" using assms(3) by simp
  have split: "stages_between first_stage last_st = stages_before first_stage last_st @ [last_st]"
    using stages_between_before [OF assms(5)] stages_before_step [OF le assms(5)] by simp
  have first: "first_stage \<in> set (stages_before first_stage last_st)" and fresh: "last_st \<notin> set (stages_before first_stage last_st)"
    using assms(3) by (cases first_stage; cases last_st; simp add: stages_before_def stage_order)+
  have "\<not> skips input first_stage"
    using assms(1,2) by (cases "inp_language input") (auto simp: skips_def language_to_stage_def split: if_splits)
  then have run_first: "\<not> list_all (skips input) (stages_before first_stage last_st)" using first by (auto simp: list_all_iff)
  have "\<not> skips input last_st" using assms(2,6) by (auto simp: skips_def)
  then have last: "\<not> skips i1 last_st" if "inp_source_language i1 = inp_source_language input" for i1
    using that by (simp add: skips_def)
  show ?thesis
  proof (cases "fold_res (run_stage fuel g gen i first_stage) (stages_before first_stage last_st) (input, [], d)")
    case (Inl e)
    then show ?thesis by (simp add: split fold_res_append)
  next
    case (Inr r)
    then obtain i1 o1 d1 where run: "fold_res (run_stage fuel g gen i first_stage) (stages_before first_stage last_st) (input, [], d)
        = Inr (i1, o1, d1)" by (metis surj_pair)
    then obtain s where "o1 = []" "inp_name i1 = stage_name i s"
      using fold_stages_name [OF run] fresh run_first assms(4) by auto
    moreover have "\<not> skips i1 last_st" using last fold_stages_keep [OF run] by simp
    ultimately obtain e where "run_stage fuel g gen i first_stage last_st (i1, [], d1) = Inl e"
      using last_stage_needs_extension [OF assms(4)] by blast
    then show ?thesis using \<open>o1 = []\<close> by (simp add: split fold_res_append run)
  qed
qed


section \<open>Properties\<close>

text \<open>C19: the inputs found on a command line of gcc are numbered in its order: each index is one of the words that
  were kept, the word there is the input's (with \<open>-l\<close> in front of a library), indices increase, every input has
  a language, and that is also its source language.\<close>

theorem command_line_inputs:
  assumes "gcc_arguments_of fuel d wordexp force_strip root argv = Inr a"
  shows "sorted_wrt (<) (map inp_index (ga_inputs a)) \<and>
    (\<forall>it \<in> set (ga_inputs a). inp_index it < length (ga_args a) \<and> ga_args a ! inp_index it = input_word it \<and>
       inp_source_language it = inp_language it \<and> inp_language it \<noteq> Lang_none)"
  using parsed_inputs_ok [OF assms] by (simp add: inputs_ok_def input_ok_def)

text \<open>C17: the words a stage is given, which the code makes by erasing and inserting from the back, are those of the
  reference: the command line without its inputs, and where the input of the stage stood its present name after
  \<open>-x\<close> and the name of its present language. No edit is out of range.\<close>

theorem stage_words_exact:
  assumes "gcc_arguments_of fuel d wordexp force_strip root argv = Inr a"
    and "language_to_name (inp_language input) = Inr lang"
  shows "only_input input a = Inr (option_words input lang a)"
  by (rule only_input_words [OF parsed_inputs_ok [OF assms(1)] assms(2)])

text \<open>C18: the stages fit: when an input has gone through the stages before \<open>s\<close>, its language is one that stage
  \<open>s\<close> takes. The compile stage, which is skipped for preprocessed assembler, then has assembler.\<close>

theorem stage_languages_fit:
  assumes "language_to_stage (inp_language input) = Inr first_stage" and "inp_source_language input = inp_language input"
    and "first_stage \<noteq> LINK" and "first_stage \<le> s"
    and "fold_res (run_stage fuel g gen i first_stage) (stages_before first_stage s) (input, out, d) = Inr (input', out', d')"
  shows "inp_index input' = inp_index input \<and>
    (if s = COMPILE \<and> inp_source_language input = Assembler_with_cpp then inp_language input' = Assembler
     else language_to_stage (inp_language input') = Inr s)"
proof -
  have "ready_for s input'" by (rule fold_stages_ready [OF ready_at_start [OF assms(1-3)] assms(4,5)])
  then have "if s = COMPILE \<and> inp_source_language input' = Assembler_with_cpp then inp_language input' = Assembler
     else language_to_stage (inp_language input') = Inr s" unfolding ready_for_def by (elim conjE)
  then show ?thesis using fold_stages_keep [OF assms(5)] by simp
qed

text \<open>C16: linking a parsed command line, every input has become an object, an archive or a library by the time the
  linker is asked; the editing of the command line for the question and for the thunk then always works: no
  index is out of range, the assertion about their order holds and no input is refused.\<close>

theorem link_inputs_fit:
  assumes "gcc_arguments_of fuel d0 wordexp force_strip root argv = Inr (gn_arguments gen)"
    and "last_stage (gn_arguments gen) = LINK"
    and "fold_res (run_input n g gen) [0..<length (ga_inputs (gn_arguments gen))]
           (ga_inputs (gn_arguments gen), out, d) = Inr (inputs', out', d')"
  shows "(\<forall>it \<in> set inputs'. link_file (inp_language it) \<or> inp_language it = Shared_library) \<and>
    (\<exists>words. link_question (rev inputs') None (ga_args (gn_arguments gen)) = Inr words) \<and>
    (\<exists>words. fold_res place_link_input inputs' (ga_args (gn_arguments gen) @ [''-o'', name]) = Inr words)"
proof -
  let ?a = "gn_arguments gen"
  have ok: "inputs_ok ?a" by (rule parsed_inputs_ok [OF assms(1)])
  then have "\<forall>it \<in> set (ga_inputs ?a). inp_source_language it = inp_language it"
    by (simp add: inputs_ok_def input_ok_def)
  from all_inputs_linked [OF assms(3,2) order_refl this]
  have idx: "map inp_index inputs' = map inp_index (ga_inputs ?a)"
    and fit: "\<forall>it \<in> set inputs'. link_file (inp_language it) \<or> inp_language it = Shared_library"
    unfolding linked_up_to_def by (auto dest: arg_cong [where f = length])
  have sorted: "sorted_wrt (\<lambda>x y. y < x) (map inp_index (rev inputs'))"
    unfolding rev_map [symmetric] sorted_wrt_rev idx using ok by (simp add: inputs_ok_def)
  have "inp_index ` set inputs' = inp_index ` set (ga_inputs ?a)" by (metis idx list.set_map)
  then have bound: "\<forall>it \<in> set inputs'. inp_index it < length (ga_args ?a)"
    using ok by (auto simp: inputs_ok_def input_ok_def) (metis imageE imageI)
  show ?thesis
    using fit link_question_total [OF sorted, of "ga_args ?a" None] bound
      place_link_inputs_total [of inputs' "ga_args ?a @ [''-o'', name]"] by fastforce
qed

text \<open>Without \<open>-o\<close> the name of the output is made of the name the input has at the last stage, which after
  an earlier stage is the name of an intermediate output without an extension: compiling or assembling a source
  without naming the output always ends in an error, though the comment there promises \<open>hello.abc.s\<close>.\<close>

lemma default_name_lost:
  assumes "gcc_arguments_of fuel d0 wordexp force_strip root argv = Inr (gn_arguments gen)"
    and "ga_output (gn_arguments gen) = []" and "last_stage (gn_arguments gen) = last_st" and "last_st \<noteq> LINK"
    and "ga_inputs (gn_arguments gen) = it # its"
    and "language_to_stage (inp_language it) = Inr first_stage" and "first_stage < last_st"
    and "inp_language it \<noteq> Assembler_with_cpp \<or> last_st = ASSEMBLE"
  shows "\<exists>e. generate_model n g gen d = Inl e"
proof -
  have it: "inp_source_language it = inp_language it"
    using parsed_inputs_ok [OF assms(1)] assms(5) by (simp add: inputs_ok_def input_ok_def)
  have "first_stage < LINK" using assms(7) by (cases last_st; cases first_stage) (simp_all add: stage_order)
  then have non_object: "is_non_object_input it"
    using assms(6) by (cases "inp_language it") (auto simp: is_non_object_input_def language_to_stage_def stage_order)
  have "\<exists>e. run_input n g gen 0 (it # its, [], d) = Inl e"
  proof (cases "input_with_data g it d")
    case (Inl e)
    then show ?thesis by (simp add: run_input_def)
  next
    case (Inr r)
    then obtain x d1 where x: "input_with_data g it d = Inr (x, d1)" by (metis surj_pair)
    note keeps = input_with_data_keeps [OF x]
    have "is_non_object_input x" using non_object keeps by (simp add: is_non_object_input_def)
    have stage: "language_to_stage (inp_language x) = Inr first_stage" using assms(6) keeps by simp
    have "inp_source_language x = inp_language x" "inp_language x \<noteq> Assembler_with_cpp \<or> last_st = ASSEMBLE"
      using it keeps assms(8) by simp_all
    then obtain e where "fold_res (run_stage n g gen 0 first_stage) (stages_between first_stage last_st) (x, [], d1) = Inl e"
      using default_name_stages [OF stage _ assms(7) assms(3) [symmetric] assms(4)] by blast
    then have "input_stages n g gen 0 x [] d1 = Inl e"
      unfolding input_stages_def Let_def assms(3) using \<open>is_non_object_input x\<close> stage assms(4) by simp
    then show ?thesis by (simp add: run_input_def x)
  qed
  then obtain e where "run_input n g gen 0 (it # its, [], d) = Inl e" by blast
  moreover have "[0..<length (it # its)] = 0 # [Suc 0..<length (it # its)]" by (rule upt_conv_Cons) simp
  ultimately have "fold_res (run_input n g gen) [0..<length (it # its)] (it # its, [], d) = Inl e"
    by (simp only: fold_res.simps bind_res_Inl)
  then show ?thesis unfolding generate_model_def Let_def assms(2,5) by simp
qed


section \<open>A small build\<close>

definition toy_gcc_env :: gcc_env where
  "toy_gcc_env = \<lparr>ge_world = toy_world, ge_program_hash = (\<lambda>p. Some (CHR ''V'' # p)), ge_toolchain_path = ''/t'',
     ge_c_include_path = [''/i''], ge_cxx_include_path = [''/j''], ge_ld_search_path = [''/l''],
     ge_gcc_library_path = [''/m''], ge_gcc_install_path = ''/n'',
     ge_stat = (\<lambda>_. \<lparr>st_dev = 1, st_ino = 2, st_size = 3, st_mtim = (4, 5), st_ctim = (6, 7)\<rparr>), ge_junk = [],
     ge_run = (\<lambda>args env d. (0, [], d)), ge_realpath = (\<lambda>p d. Inr p), ge_readdir = (\<lambda>p d. Inr []),
     ge_temp = (\<lambda>p d. p @ ''.tmp''), ge_cwd = ''/w'', ge_blueprint_dir = ''/b'', ge_tokenizer = (\<lambda>s. Inr [s]),
     ge_order = (\<lambda>xs. xs)\<rparr>"

definition toy_files :: disk where
  "toy_files = [''a.s'' \<mapsto> Regular ''nop'' 420, ''/tmp/s'' \<mapsto> Regular ''specs'' 384, ''/t/gcc'' \<mapsto> Regular ''gcc'' 493,
     ''/t/as'' \<mapsto> Regular ''as'' 493]"

definition toy_parsed :: "string list \<Rightarrow> gcc_arguments res" where
  "toy_parsed argv = gcc_arguments_of 0 toy_files (\<lambda>_. None) False None argv"

definition toy_link_words :: "string list" where "toy_link_words = [''gcc'', ''a.s'', ''-lm'', ''-o'', ''a'']"

definition toy_compile_words :: "string list" where
  "toy_compile_words = [''gcc'', ''-c'', ''-O2'', ''x.c'', ''-Wall'', ''y.o'']"

definition toy_generator :: "string list \<Rightarrow> gcc_generator" where
  "toy_generator argv = \<lparr>gn_mode = GCC_mode, gn_arguments = projr (toy_parsed argv), gn_specs = ''/tmp/s'',
     gn_preprocess_locally = False, gn_defer_depgen = False, gn_gompspec = False\<rparr>"

lemma returned: "\<not> isl r \<Longrightarrow> \<exists>x y z. r = Inr (x, y, z)"
  by (cases r) auto

lemma toy_parses:
  assumes "\<not> isl (toy_parsed argv)"
  shows "gcc_arguments_of 0 toy_files (\<lambda>_. None) False None argv = Inr (gn_arguments (toy_generator argv))"
  using assms by (simp add: toy_generator_def toy_parsed_def)

lemma toy_compile_parses: "\<not> isl (toy_parsed toy_compile_words)" by code_simp

lemma toy_link_parses: "\<not> isl (toy_parsed toy_link_words)" by code_simp

theorem command_line_inputs_witness:
  "ga_args (projr (toy_parsed toy_compile_words)) = [''-c'', ''-O2'', ''x.c'', ''-Wall'', ''y.o''] \<and>
   map inp_index (ga_inputs (projr (toy_parsed toy_compile_words))) = [2, 4] \<and>
   sorted_wrt (<) (map inp_index (ga_inputs (projr (toy_parsed toy_compile_words))))"
proof -
  have "ga_args (projr (toy_parsed toy_compile_words)) = [''-c'', ''-O2'', ''x.c'', ''-Wall'', ''y.o'']"
    "map inp_index (ga_inputs (projr (toy_parsed toy_compile_words))) = [2, 4]" by code_simp+
  then show ?thesis
    using command_line_inputs [OF toy_parses [OF toy_compile_parses]] by (simp add: toy_generator_def)
qed

definition toy_compiled :: input_file where
  "toy_compiled = \<lparr>inp_name = ''output_0_1'', inp_language = Cpp_output, inp_source_language = C_source, inp_index = 2,
     inp_indata = no_data\<rparr>"

theorem stage_words_exact_witness:
  "only_input toy_compiled (projr (toy_parsed toy_compile_words)) =
     Inr [''-c'', ''-O2'', ''-x'', ''cpp-output'', ''output_0_1'', ''-Wall'']"
proof -
  have "language_to_name (inp_language toy_compiled) = Inr ''cpp-output''" by code_simp
  note words = stage_words_exact [OF toy_parses [OF toy_compile_parses] this]
  have "option_words toy_compiled ''cpp-output'' (projr (toy_parsed toy_compile_words)) =
     [''-c'', ''-O2'', ''-x'', ''cpp-output'', ''output_0_1'', ''-Wall'']" by code_simp
  then show ?thesis using words by (simp add: toy_generator_def)
qed

definition toy_source :: input_file where
  "toy_source = (ga_inputs (projr (toy_parsed toy_link_words)) ! 0)\<lparr>inp_indata :=
     \<lparr>fd_filename = ''a.s'', fd_real_filename = ''a.s'', fd_hash = ''Va'', fd_type = Value\<rparr>\<rparr>"

definition toy_assembled :: "(input_file \<times> string \<times> disk) res" where
  "toy_assembled = fold_res (run_stage 1 toy_gcc_env (toy_generator toy_link_words) 0 ASSEMBLE)
     (stages_before ASSEMBLE LINK) (toy_source, ''a'', toy_files)"

lemma toy_assembles: "\<not> isl toy_assembled" by code_simp

theorem stage_languages_fit_witness:
  "\<exists>input' out' d'. toy_assembled = Inr (input', out', d') \<and> language_to_stage (inp_language input') = Inr LINK"
proof -
  obtain input' out' d' where run: "toy_assembled = Inr (input', out', d')"
    using returned [OF toy_assembles] by blast
  have "language_to_stage (inp_language toy_source) = Inr ASSEMBLE" "inp_source_language toy_source = inp_language toy_source"
    "ASSEMBLE \<noteq> LINK" "ASSEMBLE \<le> LINK" by code_simp+
  from stage_languages_fit [OF this run [unfolded toy_assembled_def]]
  have "language_to_stage (inp_language input') = Inr LINK" by simp
  then show ?thesis using run by blast
qed

definition toy_inputs :: "(input_file list \<times> string \<times> disk) res" where
  "toy_inputs = fold_res (run_input 1 toy_gcc_env (toy_generator toy_link_words))
     [0..<length (ga_inputs (gn_arguments (toy_generator toy_link_words)))]
     (ga_inputs (gn_arguments (toy_generator toy_link_words)), ''a'', toy_files)"

lemma toy_inputs_run: "\<not> isl toy_inputs" by code_simp

theorem link_inputs_fit_witness:
  "\<exists>inputs' out' d'. toy_inputs = Inr (inputs', out', d') \<and>
     (\<forall>it \<in> set inputs'. link_file (inp_language it) \<or> inp_language it = Shared_library)"
proof -
  obtain inputs' out' d' where run: "toy_inputs = Inr (inputs', out', d')"
    using returned [OF toy_inputs_run] by blast
  have "last_stage (gn_arguments (toy_generator toy_link_words)) = LINK" by code_simp
  from link_inputs_fit [OF toy_parses [OF toy_link_parses] this run [unfolded toy_inputs_def]] run show ?thesis by blast
qed

lemma default_name_lost_witness:
  "\<exists>e. generate_model 1 toy_gcc_env (toy_generator toy_compile_words) toy_files = Inl e"
proof -
  let ?a = "gn_arguments (toy_generator toy_compile_words)"
  have parts: "ga_output ?a = []" "last_stage ?a = ASSEMBLE" "ASSEMBLE \<noteq> LINK"
    "language_to_stage (inp_language (hd (ga_inputs ?a))) = Inr PREPROCESS" "PREPROCESS < ASSEMBLE" by code_simp+
  have "ga_inputs ?a \<noteq> []" by code_simp
  then have "ga_inputs ?a = hd (ga_inputs ?a) # tl (ga_inputs ?a)" by simp
  from default_name_lost [OF toy_parses [OF toy_compile_parses] parts(1-3) this parts(4,5)] show ?thesis by simp
qed

end
