(* ===== verification/Poller.thy ===== *)
theory Poller
  imports Prelude
begin

text \<open>
  \<open>src/util/poller.cc\<close>: actions on file descriptors and one call of \<open>poll\<close>. What an action does is data
  of its owner, who says with a record of functions when it is of interest and what its callbacks do to
  the state. The kernel is a map from descriptors to what it reports of them.
\<close>

datatype direction = Poll_in | Poll_out

datatype action_result = Continue | Exit_with nat | Cancel | Cancel_all

record 'a poll_action =
  pa_fd :: nat
  pa_direction :: direction
  pa_active :: bool
  pa_what :: 'a

record fd_status =
  fs_readable :: bool
  fs_writable :: bool
  fs_error :: bool

type_synonym poll_kernel = "nat \<Rightarrow> fd_status"

text \<open>Callbacks may add actions: they return those beside the new state.\<close>

record ('a, 's) poll_client =
  pc_interested :: "'a \<Rightarrow> 's \<Rightarrow> bool"
  pc_eof :: "nat \<Rightarrow> 's \<Rightarrow> bool"
  pc_callback :: "'a \<Rightarrow> 's \<Rightarrow> (action_result \<times> 'a poll_action list \<times> 's) res"
  pc_fderror :: "'a \<Rightarrow> 's \<Rightarrow> ('a poll_action list \<times> 's) res"

record 'a poller =
  po_queue :: "'a poll_action list"
  po_actions :: "'a poll_action list"

datatype poll_outcome = Poll_success | Poll_timeout | Poll_exit nat

definition new_poller :: "'a poller" where
  "new_poller = \<lparr>po_queue = [], po_actions = []\<rparr>"

text \<open>An added action waits in the queue until the next call.\<close>

definition add_action :: "'a poll_action \<Rightarrow> 'a poller \<Rightarrow> 'a poller" where
  "add_action a p = p\<lparr>po_queue := po_queue p @ [a]\<rparr>"

definition wanted :: "('a, 's) poll_client \<Rightarrow> 's \<Rightarrow> 'a poll_action \<Rightarrow> bool" where
  "wanted c s a \<longleftrightarrow>
     pa_active a \<and> pc_interested c (pa_what a) s \<and> \<not> (pa_direction a = Poll_in \<and> pc_eof c (pa_fd a) s)"

definition reported :: "poll_kernel \<Rightarrow> 'a poll_action \<Rightarrow> bool" where
  "reported k a = (case pa_direction a of Poll_in \<Rightarrow> fs_readable (k (pa_fd a)) | Poll_out \<Rightarrow> fs_writable (k (pa_fd a)))"

text \<open>The state of the second loop: the actions already seen, the queue, the descriptors to remove.\<close>

record ('a, 's) service =
  sv_seen :: "'a poll_action list"
  sv_queue :: "'a poll_action list"
  sv_remove :: "nat list"
  sv_state :: 's

text \<open>One action; the number is there when the program is to exit. \<open>asked\<close> says whether the action was
  wanted when \<open>poll\<close> was called.\<close>

definition serve ::
  "('a, 's) poll_client \<Rightarrow> poll_kernel \<Rightarrow> 'a poll_action \<times> bool \<Rightarrow> ('a, 's) service \<Rightarrow>
     (nat option \<times> ('a, 's) service) res" where
  "serve c k item v =
     (case item of (a, asked) \<Rightarrow>
        if fs_error (k (pa_fd a)) then
          (if pa_fd a \<in> set (sv_remove v) then Inr (None, v\<lparr>sv_seen := sv_seen v @ [a]\<rparr>)
           else bind_res (pc_fderror c (pa_what a) (sv_state v)) (\<lambda>(added, s).
             Inr (None, v\<lparr>sv_seen := sv_seen v @ [a], sv_queue := sv_queue v @ added,
                          sv_remove := pa_fd a # sv_remove v, sv_state := s\<rparr>)))
        else if asked \<and> reported k a then
          bind_res (pc_callback c (pa_what a) (sv_state v)) (\<lambda>(result, added, s).
            let v' = v\<lparr>sv_queue := sv_queue v @ added, sv_state := s\<rparr>
            in case result of
                 Exit_with status \<Rightarrow> Inr (Some status, v'\<lparr>sv_seen := sv_seen v @ [a]\<rparr>)
               | Cancel \<Rightarrow> Inr (None, v'\<lparr>sv_seen := sv_seen v @ [a\<lparr>pa_active := False\<rparr>]\<rparr>)
               | Cancel_all \<Rightarrow> Inr (None, v'\<lparr>sv_seen := sv_seen v @ [a], sv_remove := pa_fd a # sv_remove v\<rparr>)
               | Continue \<Rightarrow> Inr (None, v'\<lparr>sv_seen := sv_seen v @ [a]\<rparr>))
        else Inr (None, v\<lparr>sv_seen := sv_seen v @ [a]\<rparr>))"

fun serve_all ::
  "('a, 's) poll_client \<Rightarrow> poll_kernel \<Rightarrow> ('a poll_action \<times> bool) list \<Rightarrow> ('a, 's) service \<Rightarrow>
     (nat option \<times> ('a, 's) service) res" where
  "serve_all c k [] v = Inr (None, v)"
| "serve_all c k (item # items) v =
     bind_res (serve c k item v) (\<lambda>(exit_status, v').
       case exit_status of
         Some n \<Rightarrow> Inr (Some n, v'\<lparr>sv_seen := sv_seen v' @ map fst items\<rparr>)
       | None \<Rightarrow> serve_all c k items v')"

definition remove_actions :: "nat list \<Rightarrow> 'a poll_action list \<Rightarrow> 'a poll_action list" where
  "remove_actions fds = filter (\<lambda>a. pa_fd a \<notin> set fds)"

definition poll ::
  "('a, 's) poll_client \<Rightarrow> poll_kernel \<Rightarrow> int \<Rightarrow> 'a poller \<times> 's \<Rightarrow> (poll_outcome \<times> 'a poller \<times> 's) res" where
  "poll c k timeout_ms ps =
     (case ps of (p, s) \<Rightarrow>
        let actions = po_actions p @ po_queue p;
            items = map (\<lambda>a. (a, wanted c s a)) actions;
            idle = \<lparr>po_queue = [], po_actions = actions\<rparr>
        in if timeout_ms = 0 then Inl (Runtime_error ''poll asked to busy-wait'')
           else if \<not> list_ex snd items then Inr (Poll_exit 0, idle, s)
           else if \<not> list_ex (\<lambda>(a, asked). fs_error (k (pa_fd a)) \<or> asked \<and> reported k a) items
                then Inr (Poll_timeout, idle, s)
           else bind_res (serve_all c k items \<lparr>sv_seen = [], sv_queue = [], sv_remove = [], sv_state = s\<rparr>)
                  (\<lambda>(exit_status, v).
                    Inr (case exit_status of
                           Some n \<Rightarrow> (Poll_exit n, \<lparr>po_queue = sv_queue v, po_actions = sv_seen v\<rparr>, sv_state v)
                         | None \<Rightarrow> (Poll_success, \<lparr>po_queue = sv_queue v, po_actions = remove_actions (sv_remove v) (sv_seen v)\<rparr>,
                                    sv_state v))))"

section \<open>What callbacks keep, a call keeps\<close>

text \<open>Of the owner's state and of what every callback keeps of it. \<open>kept\<close> may speak of the descriptors that
  were given up in this call and of the actions still to come.\<close>

locale poll_owner =
  fixes client :: "('a, 's) poll_client"
    and k :: poll_kernel
    and kept :: "nat set \<Rightarrow> 'a poll_action list \<Rightarrow> 'a poll_action list \<Rightarrow> 's \<Rightarrow> bool"
  assumes callback_keeps:
      "kept gone (a # later) queue s \<Longrightarrow> \<not> fs_error (k (pa_fd a)) \<Longrightarrow>
        pc_callback client (pa_what a) s = Inr (result, added, s') \<Longrightarrow>
        kept (if result = Cancel_all then insert (pa_fd a) gone else gone) later (queue @ added) s'"
    and fderror_keeps:
      "kept gone (a # later) queue s \<Longrightarrow> fs_error (k (pa_fd a)) \<Longrightarrow> pa_fd a \<notin> gone \<Longrightarrow>
        pc_fderror client (pa_what a) s = Inr (added, s') \<Longrightarrow> kept (insert (pa_fd a) gone) later (queue @ added) s'"
    and pass_keeps: "kept gone (a # later) queue s \<Longrightarrow> fs_error (k (pa_fd a)) \<Longrightarrow> pa_fd a \<in> gone \<Longrightarrow> kept gone later queue s"
    and skip_keeps: "kept gone (a # later) queue s \<Longrightarrow> \<not> fs_error (k (pa_fd a)) \<Longrightarrow> kept gone later queue s"
begin

lemma serve_keeps:
  assumes kept: "kept (set (sv_remove v)) (a # later) (sv_queue v) (sv_state v)"
    and run: "serve client k (a, asked) v = Inr (st, v')"
  shows "kept (set (sv_remove v')) later (sv_queue v') (sv_state v')"
proof (cases "fs_error (k (pa_fd a))")
  case True
  show ?thesis
  proof (cases "pa_fd a \<in> set (sv_remove v)")
    case in_gone: True
    then show ?thesis using run True pass_keeps [OF kept True] by (auto simp: serve_def)
  next
    case False
    then obtain added s where "pc_fderror client (pa_what a) (sv_state v) = Inr (added, s)"
      and "v' = v\<lparr>sv_seen := sv_seen v @ [a], sv_queue := sv_queue v @ added, sv_remove := pa_fd a # sv_remove v, sv_state := s\<rparr>"
      using run True by (auto simp: serve_def)
    then show ?thesis using fderror_keeps [OF kept True False] by simp
  qed
next
  case False
  show ?thesis
  proof (cases "asked \<and> reported k a")
    case True
    then obtain result added s where cb: "pc_callback client (pa_what a) (sv_state v) = Inr (result, added, s)"
      using run False by (auto simp: serve_def)
    show ?thesis
      using run True False callback_keeps [OF kept False cb]
      by (cases result) (auto simp: serve_def cb Let_def)
  next
    case no: False
    then show ?thesis using run False skip_keeps [OF kept False] by (auto simp: serve_def)
  qed
qed

text \<open>After all actions, or when one of them ended the program before those in \<open>later\<close> were served.\<close>

lemma serve_all_keeps:
  assumes "kept (set (sv_remove v)) (map fst items) (sv_queue v) (sv_state v)"
    and "serve_all client k items v = Inr (st, v')"
  shows "\<exists>later. (st = None \<longrightarrow> later = []) \<and> kept (set (sv_remove v')) later (sv_queue v') (sv_state v')"
  using assms
proof (induction items arbitrary: v)
  case Nil
  then show ?case by auto
next
  case (Cons item items)
  obtain a asked where item: "item = (a, asked)" by (metis surj_pair)
  from Cons.prems(2) obtain st1 v1 where one: "serve client k (a, asked) v = Inr (st1, v1)"
    and rest: "(case st1 of Some n \<Rightarrow> Inr (Some n, v1\<lparr>sv_seen := sv_seen v1 @ map fst items\<rparr>)
         | None \<Rightarrow> serve_all client k items v1) = Inr (st, v')"
    by (auto simp: item)
  have k1: "kept (set (sv_remove v1)) (map fst items) (sv_queue v1) (sv_state v1)"
    by (rule serve_keeps [OF _ one]) (use Cons.prems(1) in \<open>simp add: item\<close>)
  show ?case
  proof (cases st1)
    case None
    then show ?thesis using Cons.IH [OF k1] rest by simp
  next
    case (Some n)
    then have "st = Some n" "kept (set (sv_remove v')) (map fst items) (sv_queue v') (sv_state v')" using rest k1 by auto
    then show ?thesis by auto
  qed
qed

end

section \<open>The actions that are left\<close>

lemma serve_seen:
  assumes "serve c k (a, asked) v = Inr (st, v')"
  shows "\<exists>act. sv_seen v' = sv_seen v @ [a\<lparr>pa_active := act\<rparr>]"
proof -
  have "sv_seen v' = sv_seen v @ [a] \<or> sv_seen v' = sv_seen v @ [a\<lparr>pa_active := False\<rparr>]"
  proof (cases "\<not> fs_error (k (pa_fd a)) \<and> asked \<and> reported k a")
    case True
    then obtain result added s where "pc_callback c (pa_what a) (sv_state v) = Inr (result, added, s)"
      using assms by (auto simp: serve_def)
    then show ?thesis using True assms by (cases result) (auto simp: serve_def Let_def)
  next
    case False
    then show ?thesis using assms by (auto simp: serve_def split: if_splits)
  qed
  moreover have "a = a\<lparr>pa_active := pa_active a\<rparr>" by simp
  ultimately show ?thesis by metis
qed

lemma serve_all_seen:
  assumes "serve_all c k items v = Inr (st, v')"
  shows "map pa_fd (sv_seen v') = map pa_fd (sv_seen v @ map fst items) \<and>
    map pa_what (sv_seen v') = map pa_what (sv_seen v @ map fst items)"
  using assms
proof (induction items arbitrary: v)
  case Nil
  then show ?case by simp
next
  case (Cons item items)
  obtain a asked where item: "item = (a, asked)" by (metis surj_pair)
  from Cons.prems obtain st1 v1 where one: "serve c k (a, asked) v = Inr (st1, v1)"
    and rest: "(case st1 of Some n \<Rightarrow> Inr (Some n, v1\<lparr>sv_seen := sv_seen v1 @ map fst items\<rparr>)
         | None \<Rightarrow> serve_all c k items v1) = Inr (st, v')"
    by (auto simp: item)
  from serve_seen [OF one] obtain act where "sv_seen v1 = sv_seen v @ [a\<lparr>pa_active := act\<rparr>]" by blast
  then show ?case using Cons.IH [of v1] rest by (cases st1) (auto simp: item)
qed

end
