(* ===== verification/SecureSocket.thy ===== *)
theory SecureSocket
  imports Poller "HOL-Library.Word"
begin

text \<open>
  TLS over a socket that does not block: \<open>src/net/secure_socket.cc\<close> and the state machine of
  \<open>src/net/nb_secure_socket.cc\<close>. What OpenSSL answers to a call is an argument of the step that makes it.
\<close>

section \<open>Descriptors\<close>

record descriptor =
  de_eof :: bool
  de_reads :: "32 word"
  de_writes :: "32 word"

definition new_descriptor :: descriptor where
  "new_descriptor = \<lparr>de_eof = False, de_reads = 0, de_writes = 0\<rparr>"

definition register_service :: "bool \<Rightarrow> descriptor \<Rightarrow> descriptor" where
  "register_service as_write d =
     (if as_write then d\<lparr>de_writes := de_writes d + 1\<rparr> else d\<lparr>de_reads := de_reads d + 1\<rparr>)"

section \<open>Calls of OpenSSL\<close>

datatype ssl_code = Want_read | Want_write | Zero_return | Ssl_syscall | Ssl_other nat

text \<open>The value of the call, what \<open>SSL_get_error\<close> says of it, the bytes of a read, whether more bytes are
  pending, whether the queue of errors is empty, and the error the socket itself has.\<close>

record ssl_answer =
  sa_value :: int
  sa_code :: ssl_code
  sa_data :: string
  sa_pending :: bool
  sa_queue_empty :: bool
  sa_socket_error :: bool

datatype ssl_fault = Ssl_error ssl_code | Ssl_abort

definition want_more :: "ssl_code \<Rightarrow> bool" where
  "want_more code \<longleftrightarrow> code = Want_read \<or> code = Want_write"

text \<open>The descriptor counts some of the calls that fail.\<close>

definition secure_connect :: "ssl_answer \<Rightarrow> descriptor \<Rightarrow> (ssl_fault + unit) \<times> descriptor" where
  "secure_connect r d =
     (if sa_value r = 0 then (Inl (Ssl_error (sa_code r)), d)
      else (Inr (), register_service True (register_service False d)))"

definition secure_accept :: "bool \<Rightarrow> ssl_answer \<Rightarrow> descriptor \<Rightarrow> (ssl_fault + unit) \<times> descriptor" where
  "secure_accept register_as_write r d =
     (if sa_value r = 1 then (Inr (), register_service False d)
      else (Inl (Ssl_error (sa_code r)), if want_more (sa_code r) then register_service register_as_write d else d))"

definition secure_read :: "bool \<Rightarrow> ssl_answer \<Rightarrow> descriptor \<Rightarrow> (ssl_fault + string) \<times> descriptor" where
  "secure_read register_as_write r d =
     (if sa_pending r then (Inl Ssl_abort, d)
      else if sa_value r = 0 then
        (if sa_code r = Ssl_syscall \<and> \<not> sa_queue_empty r then (Inl Ssl_abort, d)
         else (Inr [], register_service register_as_write
                (if sa_code r = Zero_return \<or> sa_code r = Ssl_syscall then d\<lparr>de_eof := True\<rparr> else d)))
      else if sa_value r < 0 then
        (Inl (Ssl_error (sa_code r)), if want_more (sa_code r) then register_service register_as_write d else d)
      else (Inr (sa_data r), register_service register_as_write d))"

definition secure_write :: "bool \<Rightarrow> ssl_answer \<Rightarrow> descriptor \<Rightarrow> (ssl_fault + unit) \<times> descriptor" where
  "secure_write register_as_read r d =
     (if sa_value r \<le> 0 then
        (Inl (Ssl_error (sa_code r)), if want_more (sa_code r) then register_service (\<not> register_as_read) d else d)
      else (Inr (), register_service (\<not> register_as_read) d))"

section \<open>The state machine\<close>

datatype nb_mode = Mode_not_set | Mode_connect | Mode_accept

datatype nb_state =
    Not_connected
  | Needs_connect | Needs_ssl_read_to_connect | Needs_ssl_write_to_connect
  | Needs_accept | Needs_ssl_read_to_accept | Needs_ssl_write_to_accept
  | Needs_ssl_write_to_write | Needs_ssl_write_to_read | Needs_ssl_read_to_write | Needs_ssl_read_to_read
  | Ready | Closed

text \<open>The values of the enumeration.\<close>

definition state_number :: "nb_state \<Rightarrow> nat" where
  "state_number s =
     (case s of
        Not_connected \<Rightarrow> 0
      | Needs_connect \<Rightarrow> 1 | Needs_ssl_read_to_connect \<Rightarrow> 2 | Needs_ssl_write_to_connect \<Rightarrow> 3
      | Needs_accept \<Rightarrow> 4 | Needs_ssl_read_to_accept \<Rightarrow> 5 | Needs_ssl_write_to_accept \<Rightarrow> 6
      | Needs_ssl_write_to_write \<Rightarrow> 7 | Needs_ssl_write_to_read \<Rightarrow> 8 | Needs_ssl_read_to_write \<Rightarrow> 9
      | Needs_ssl_read_to_read \<Rightarrow> 10 | Ready \<Rightarrow> 11 | Closed \<Rightarrow> 12)"

text \<open>\<open>nb_sent\<close> records the messages that were written; the program does not keep them.\<close>

record nb_socket =
  nb_mode_of :: nb_mode
  nb_state_of :: nb_state
  nb_write_buffer :: "string list"
  nb_read_buffer :: string
  nb_descriptor :: descriptor
  nb_sent :: "string list"

definition new_nb_socket :: "descriptor \<Rightarrow> nb_socket" where
  "new_nb_socket d = \<lparr>nb_mode_of = Mode_not_set, nb_state_of = Not_connected, nb_write_buffer = [], nb_read_buffer = [],
     nb_descriptor = d, nb_sent = []\<rparr>"

definition nb_connect :: "nb_socket \<Rightarrow> nb_socket" where
  "nb_connect x = x\<lparr>nb_mode_of := Mode_connect, nb_state_of := Needs_connect\<rparr>"

definition nb_accept :: "nb_socket \<Rightarrow> nb_socket" where
  "nb_accept x = x\<lparr>nb_mode_of := Mode_accept, nb_state_of := Needs_accept\<rparr>"

definition connecting_states :: "nb_state set" where
  "connecting_states = {Needs_connect, Needs_ssl_read_to_connect, Needs_ssl_write_to_connect}"

definition accepting_states :: "nb_state set" where
  "accepting_states = {Needs_accept, Needs_ssl_read_to_accept, Needs_ssl_write_to_accept}"

definition connected :: "nb_socket \<Rightarrow> bool" where
  "connected x \<longleftrightarrow> nb_state_of x \<notin> connecting_states"

definition accepted :: "nb_socket \<Rightarrow> bool" where
  "accepted x \<longleftrightarrow> nb_state_of x \<notin> accepting_states"

text \<open>What a failed call makes of the state: an error of another kind is thrown again.\<close>

definition after_fault :: "ssl_fault \<Rightarrow> string \<Rightarrow> nb_state \<Rightarrow> nb_state \<Rightarrow> nb_socket \<Rightarrow> nb_socket res" where
  "after_fault fault name on_read on_write x =
     (case fault of
        Ssl_abort \<Rightarrow> Inl Assertion_failed
      | Ssl_error Want_read \<Rightarrow> Inr (x\<lparr>nb_state_of := on_read\<rparr>)
      | Ssl_error Want_write \<Rightarrow> Inr (x\<lparr>nb_state_of := on_write\<rparr>)
      | Ssl_error _ \<Rightarrow> Inl (Runtime_error name))"

definition continue_handshake ::
  "nb_state \<Rightarrow> nb_state set \<Rightarrow> ssl_answer \<Rightarrow> ((ssl_fault + unit) \<times> descriptor) \<Rightarrow> string \<Rightarrow> nb_state \<Rightarrow> nb_state \<Rightarrow>
     nb_socket \<Rightarrow> nb_socket res" where
  "continue_handshake first states r outcome name on_read on_write x =
     (if nb_state_of x = first \<and> sa_socket_error r then Inl (Unix_error ''nonblocking socket'')
      else if nb_state_of x \<in> states then
        (case outcome of
           (Inl fault, d) \<Rightarrow> after_fault fault name on_read on_write (x\<lparr>nb_descriptor := d\<rparr>)
         | (Inr _, d) \<Rightarrow> Inr (x\<lparr>nb_descriptor := d, nb_state_of := Ready\<rparr>))
      else if nb_state_of x = Ready then Inl (Runtime_error ''session already connected'')
      else Inl Assertion_failed)"

definition continue_SSL_connect :: "ssl_answer \<Rightarrow> nb_socket \<Rightarrow> nb_socket res" where
  "continue_SSL_connect r x =
     continue_handshake Needs_connect connecting_states r (secure_connect r (nb_descriptor x)) ''SSL_connect''
       Needs_ssl_read_to_connect Needs_ssl_write_to_connect x"

definition continue_SSL_accept :: "ssl_answer \<Rightarrow> nb_socket \<Rightarrow> nb_socket res" where
  "continue_SSL_accept r x =
     continue_handshake Needs_accept accepting_states r
       (secure_accept (nb_state_of x = Needs_ssl_write_to_accept) r (nb_descriptor x)) ''SSL_accept''
       Needs_ssl_read_to_accept Needs_ssl_write_to_accept x"

text \<open>The first message of the queue, or an empty one; a queue that is empty then is popped all the same.\<close>

definition continue_SSL_write :: "ssl_answer \<Rightarrow> nb_socket \<Rightarrow> nb_socket res" where
  "continue_SSL_write r x =
     (case secure_write (nb_state_of x = Needs_ssl_read_to_write) r (nb_descriptor x) of
        (Inl fault, d) \<Rightarrow>
          after_fault fault ''SSL_write'' Needs_ssl_read_to_write Needs_ssl_write_to_write (x\<lparr>nb_descriptor := d\<rparr>)
      | (Inr _, d) \<Rightarrow>
          (case nb_write_buffer x of
             [] \<Rightarrow> Inl Undefined_behaviour
           | message # rest \<Rightarrow>
               Inr (x\<lparr>nb_descriptor := d, nb_state_of := Ready, nb_write_buffer := rest,
                      nb_sent := nb_sent x @ [message]\<rparr>)))"

definition continue_SSL_read :: "ssl_answer \<Rightarrow> nb_socket \<Rightarrow> nb_socket res" where
  "continue_SSL_read r x =
     (case secure_read (nb_state_of x = Needs_ssl_write_to_read) r (nb_descriptor x) of
        (Inl fault, d) \<Rightarrow>
          after_fault fault ''SSL_read'' Needs_ssl_read_to_read Needs_ssl_write_to_read (x\<lparr>nb_descriptor := d\<rparr>)
      | (Inr data, d) \<Rightarrow>
          Inr (x\<lparr>nb_descriptor := d, nb_state_of := Ready, nb_read_buffer := nb_read_buffer x @ data\<rparr>))"

definition ezread :: "nb_socket \<Rightarrow> string \<times> nb_socket" where
  "ezread x = (nb_read_buffer x, x\<lparr>nb_read_buffer := []\<rparr>)"

definition ezwrite :: "string \<Rightarrow> nb_socket \<Rightarrow> nb_socket" where
  "ezwrite message x = x\<lparr>nb_write_buffer := nb_write_buffer x @ [message]\<rparr>"

definition buffer_bytes :: "nb_socket \<Rightarrow> 32 word" where
  "buffer_bytes x = fold (\<lambda>b total. total + of_nat (length b)) (nb_write_buffer x) 0"

definition something_to_write :: "nb_socket \<Rightarrow> bool" where
  "something_to_write x \<longleftrightarrow> nb_write_buffer x \<noteq> []"

definition something_to_read :: "nb_socket \<Rightarrow> bool" where
  "something_to_read x \<longleftrightarrow> nb_read_buffer x \<noteq> []"

section \<open>As actions of the poller\<close>

text \<open>The owner's callback works on the socket and on a state of its own; what the socket must do first comes
  before it.\<close>

type_synonym 'c socket_callback = "nb_socket \<times> 'c \<Rightarrow> (action_result \<times> nb_socket \<times> 'c) res"

definition nb_out_callback :: "ssl_answer \<Rightarrow> 'c socket_callback \<Rightarrow> 'c socket_callback" where
  "nb_out_callback r callback st =
     (case st of (x, c) \<Rightarrow>
        let plain = (\<lambda>m. bind_res m (\<lambda>x'. Inr (Continue, x', c)))
        in if nb_mode_of x = Mode_connect \<and> \<not> connected x then plain (continue_SSL_connect r x)
           else if nb_mode_of x = Mode_accept \<and> \<not> accepted x then plain (continue_SSL_accept r x)
           else if nb_state_of x = Needs_ssl_write_to_write then plain (continue_SSL_write r x)
           else if nb_state_of x = Ready then
             bind_res (if something_to_write x then Inr (Continue, x, c) else callback (x, c)) (\<lambda>(result, x', c').
             bind_res (continue_SSL_write r x') (\<lambda>x''. Inr (result, x'', c')))
           else if nb_state_of x = Needs_ssl_write_to_read then plain (continue_SSL_read r x)
           else Inl (Runtime_error (''unexpected state: '' @ nat_to_string (state_number (nb_state_of x)))))"

definition nb_in_callback :: "ssl_answer \<Rightarrow> 'c socket_callback \<Rightarrow> 'c socket_callback" where
  "nb_in_callback r callback st =
     (case st of (x, c) \<Rightarrow>
        bind_res
          (if nb_mode_of x = Mode_connect \<and> \<not> connected x then continue_SSL_connect r x
           else if nb_mode_of x = Mode_accept \<and> \<not> accepted x then continue_SSL_accept r x
           else if nb_state_of x = Needs_ssl_read_to_write then continue_SSL_write r x
           else if nb_state_of x = Needs_ssl_read_to_read \<or> nb_state_of x = Ready then continue_SSL_read r x
           else Inl (Runtime_error ''unexpected state''))
          (\<lambda>x'. if something_to_read x' then callback (x', c) else Inr (Continue, x', c)))"

definition out_interested :: "nb_socket \<Rightarrow> bool \<Rightarrow> bool" where
  "out_interested x owner \<longleftrightarrow>
     nb_state_of x \<in> {Needs_connect, Needs_ssl_write_to_connect, Needs_ssl_write_to_accept, Needs_ssl_write_to_write,
                      Needs_ssl_write_to_read} \<or> nb_state_of x = Ready \<and> owner"

definition in_interested :: "nb_socket \<Rightarrow> bool \<Rightarrow> bool" where
  "in_interested x owner \<longleftrightarrow>
     nb_state_of x \<in> {Needs_connect, Needs_accept, Needs_ssl_read_to_connect, Needs_ssl_read_to_accept,
                      Needs_ssl_read_to_write, Needs_ssl_read_to_read} \<or> nb_state_of x = Ready \<and> owner"

end
