(* ===== verification/EventLoop.thy ===== *)
theory EventLoop
  imports SecureSocket Tracer HttpParsers
begin

text \<open>
  The event loop of the scheduler, \<open>src/execution/loop.cc\<close>: connections with their two actions, listeners,
  children and signals. The objects of the connections live as long as the actions that hold them, the
  lists \<open>connections_\<close> and \<open>ssl_connections_\<close> name those that are open. What the kernel and OpenSSL
  answer in one call of \<open>poll\<close> is a record; callbacks are functions on the state of the client.
\<close>

section \<open>State\<close>

datatype transport = Tcp descriptor | Tls nb_socket

record 'k connection =
  cn_transport :: transport
  cn_write_buffer :: string
  cn_key :: 'k

datatype loop_action = Signal_action | Write_action nat | Read_action nat | Accept_action nat

record child_entry =
  ce_id :: nat
  ce_throw :: bool
  ce_name :: string
  ce_pid :: int
  ce_process :: child_process

record ('k, 'c) event_loop =
  el_next_id :: nat
  el_objects :: "nat \<rightharpoonup> 'k connection"
  el_open :: "nat list"
  el_children :: "child_entry list"
  el_stops :: nat
  el_resumed :: "int list"
  el_client :: 'c

datatype loop_signal = SIGCHLD | SIGCONT | SIGHUP | SIGTERM | SIGQUIT | Other_signal

text \<open>One call of \<open>poll\<close> as the kernel sees it; a child that is not in \<open>io_children\<close> is not waitable.\<close>

record loop_io =
  io_read :: "nat \<Rightarrow> string res"
  io_written :: "nat \<Rightarrow> nat res"
  io_ssl :: "nat \<Rightarrow> direction \<Rightarrow> ssl_answer"
  io_signal :: "loop_signal res"
  io_children :: "nat \<Rightarrow> wait_info option"
  io_accepted :: "nat \<Rightarrow> nat res"

text \<open>The callbacks: data (whether to go on, what to write, the client), errors, closing, the end of a child,
  and a new connection with the key of its callbacks.\<close>

record ('k, 'c) loop_callbacks =
  lc_data :: "'k \<Rightarrow> string \<Rightarrow> 'c \<Rightarrow> (bool \<times> string \<times> 'c) res"
  lc_error :: "'k \<Rightarrow> 'c \<Rightarrow> 'c res"
  lc_close :: "'k \<Rightarrow> 'c \<Rightarrow> 'c res"
  lc_child :: "nat \<Rightarrow> string \<Rightarrow> nat \<Rightarrow> 'c \<Rightarrow> 'c res"
  lc_accept :: "'k \<Rightarrow> 'c \<Rightarrow> (bool \<times> 'k \<times> 'c) res"

definition new_event_loop :: "'c \<Rightarrow> ('k, 'c) event_loop" where
  "new_event_loop c = \<lparr>el_next_id = 0, el_objects = Map.empty, el_open = [], el_children = [], el_stops = 0,
     el_resumed = [],
     el_client = c\<rparr>"

definition set_object :: "nat \<Rightarrow> 'k connection \<Rightarrow> ('k, 'c) event_loop \<Rightarrow> ('k, 'c) event_loop" where
  "set_object fd x l = l\<lparr>el_objects := (el_objects l)(fd \<mapsto> x)\<rparr>"

section \<open>Connections\<close>

text \<open>An iterator of a list is erased once; erasing it again is undefined.\<close>

definition remove_connection :: "nat \<Rightarrow> ('k, 'c) event_loop \<Rightarrow> ('k, 'c) event_loop res" where
  "remove_connection fd l =
     (if fd \<in> set (el_open l) then Inr (l\<lparr>el_open := remove1 fd (el_open l)\<rparr>) else Inl Undefined_behaviour)"

definition close_connection :: "('k, 'c) loop_callbacks \<Rightarrow> nat \<Rightarrow> 'k \<Rightarrow> ('k, 'c) event_loop \<Rightarrow> ('k, 'c) event_loop res" where
  "close_connection cb fd key l =
     bind_res (lc_close cb key (el_client l)) (\<lambda>c. remove_connection fd (l\<lparr>el_client := c\<rparr>))"

definition fd_error :: "('k, 'c) loop_callbacks \<Rightarrow> nat \<Rightarrow> 'k \<Rightarrow> ('k, 'c) event_loop \<Rightarrow> ('k, 'c) event_loop res" where
  "fd_error cb fd key l =
     bind_res (lc_error cb key (el_client l)) (\<lambda>c. close_connection cb fd key (l\<lparr>el_client := c\<rparr>))"

definition connection_actions :: "nat \<Rightarrow> loop_action poll_action list" where
  "connection_actions fd =
     [\<lparr>pa_fd = fd, pa_direction = Poll_out, pa_active = True, pa_what = Write_action fd\<rparr>,
      \<lparr>pa_fd = fd, pa_direction = Poll_in, pa_active = True, pa_what = Read_action fd\<rparr>]"

definition add_connection ::
  "nat \<Rightarrow> transport \<Rightarrow> 'k \<Rightarrow> ('k, 'c) event_loop \<Rightarrow> loop_action poll_action list \<times> ('k, 'c) event_loop" where
  "add_connection fd t key l =
     (connection_actions fd,
      (set_object fd \<lparr>cn_transport = t, cn_write_buffer = [], cn_key = key\<rparr> l)\<lparr>el_open := el_open l @ [fd]\<rparr>)"

definition make_connection ::
  "bool \<Rightarrow> nat \<Rightarrow> 'k \<Rightarrow> ('k, 'c) event_loop \<Rightarrow> loop_action poll_action list \<times> ('k, 'c) event_loop" where
  "make_connection secure fd key =
     add_connection fd (if secure then Tls (nb_connect (new_nb_socket new_descriptor)) else Tcp new_descriptor) key"

definition make_listener ::
  "nat \<Rightarrow> 'k \<Rightarrow> ('k, 'c) event_loop \<Rightarrow> loop_action poll_action list \<times> ('k, 'c) event_loop" where
  "make_listener fd key l =
     ([\<lparr>pa_fd = fd, pa_direction = Poll_in, pa_active = True, pa_what = Accept_action fd\<rparr>],
      (set_object fd \<lparr>cn_transport = Tcp new_descriptor, cn_write_buffer = [], cn_key = key\<rparr> l)
        \<lparr>el_open := el_open l @ [fd], el_next_id := el_next_id l + 1\<rparr>)"

text \<open>The bytes the socket takes leave the buffer.\<close>

definition tcp_write :: "loop_io \<Rightarrow> nat \<Rightarrow> 'k connection \<Rightarrow> descriptor \<Rightarrow> 'k connection res" where
  "tcp_write io fd x d =
     (if cn_write_buffer x = [] then Inl (Runtime_error ''nothing to write'')
      else bind_res (io_written io fd) (\<lambda>n.
        if n = 0 then Inl (Runtime_error ''write returned 0'')
        else Inr (x\<lparr>cn_write_buffer := drop n (cn_write_buffer x),
                    cn_transport := Tcp (d\<lparr>de_writes := de_writes d + 1\<rparr>)\<rparr>)))"

definition tcp_read :: "loop_io \<Rightarrow> nat \<Rightarrow> descriptor \<Rightarrow> (string \<times> descriptor) res" where
  "tcp_read io fd d =
     bind_res (io_read io fd) (\<lambda>data.
       Inr (data, d\<lparr>de_eof := de_eof d \<or> data = [], de_reads := de_reads d + 1\<rparr>))"

definition write_callback :: "loop_io \<Rightarrow> nat \<Rightarrow> 'k connection \<Rightarrow> 'k connection res" where
  "write_callback io fd x =
     (case cn_transport x of
        Tcp d \<Rightarrow> tcp_write io fd x d
      | Tls sock \<Rightarrow>
          bind_res (nb_out_callback (io_ssl io fd Poll_out) (\<lambda>(sock', buffer). Inr (Continue, ezwrite buffer sock', []))
                      (sock, cn_write_buffer x)) (\<lambda>(_, sock', buffer).
            Inr (x\<lparr>cn_transport := Tls sock', cn_write_buffer := buffer\<rparr>)))"

text \<open>What the data callback is given and what follows: an empty piece, or a callback that has had enough,
  closes the connection.\<close>

definition take_data ::
  "('k, 'c) loop_callbacks \<Rightarrow> nat \<Rightarrow> string \<Rightarrow> 'k connection \<times> ('k, 'c) event_loop \<Rightarrow>
     (action_result \<times> ('k, 'c) event_loop) res" where
  "take_data cb fd data st =
     (case st of (x, l) \<Rightarrow>
        bind_res (if data = [] then Inr (False, [], el_client l) else lc_data cb (cn_key x) data (el_client l))
          (\<lambda>(go_on, out, c).
            let l' = set_object fd (x\<lparr>cn_write_buffer := cn_write_buffer x @ out\<rparr>) (l\<lparr>el_client := c\<rparr>)
            in if go_on then Inr (Continue, l')
               else bind_res (close_connection cb fd (cn_key x) l') (\<lambda>l''. Inr (Cancel_all, l''))))"

text \<open>The bytes that TLS gives the data callback, if it calls it.\<close>

definition tls_read :: "loop_io \<Rightarrow> nat \<Rightarrow> nb_socket \<Rightarrow> (string option \<times> nb_socket) res" where
  "tls_read io fd sock =
     bind_res (nb_in_callback (io_ssl io fd Poll_in)
                 (\<lambda>(sock', _). let (data, sock'') = ezread sock' in Inr (Continue, sock'', Some data))
                 (sock, None)) (\<lambda>(_, sock', data). Inr (data, sock'))"

definition read_callback ::
  "('k, 'c) loop_callbacks \<Rightarrow> loop_io \<Rightarrow> nat \<Rightarrow> 'k connection \<Rightarrow> ('k, 'c) event_loop \<Rightarrow>
     (action_result \<times> ('k, 'c) event_loop) res" where
  "read_callback cb io fd x l =
     (case cn_transport x of
        Tcp d \<Rightarrow> bind_res (tcp_read io fd d) (\<lambda>(data, d'). take_data cb fd data (x\<lparr>cn_transport := Tcp d'\<rparr>, l))
      | Tls sock \<Rightarrow>
          bind_res (tls_read io fd sock) (\<lambda>(data, sock').
            let x' = x\<lparr>cn_transport := Tls sock'\<rparr>
            in case data of
                 None \<Rightarrow> Inr (Continue, set_object fd x' l)
               | Some bytes \<Rightarrow> take_data cb fd bytes (x', l)))"

definition accept_callback ::
  "('k, 'c) loop_callbacks \<Rightarrow> loop_io \<Rightarrow> nat \<Rightarrow> 'k connection \<Rightarrow> ('k, 'c) event_loop \<Rightarrow>
     (action_result \<times> loop_action poll_action list \<times> ('k, 'c) event_loop) res" where
  "accept_callback cb io fd x l =
     bind_res (io_accepted io fd) (\<lambda>new_fd.
     bind_res (lc_accept cb (cn_key x) (el_client l)) (\<lambda>(go_on, key, c).
       case add_connection new_fd (Tcp new_descriptor) key (l\<lparr>el_client := c\<rparr>) of (added, l') \<Rightarrow>
         if go_on then Inr (Continue, added, l')
         else bind_res (remove_connection fd l') (\<lambda>l''. Inr (Cancel_all, added, l''))))"

section \<open>Children and signals\<close>

definition new_child :: child_process where
  "new_child = \<lparr>cp_running = True, cp_terminated = False, cp_exit_status = 0, cp_died_on_signal = False\<rparr>"

definition add_child_process :: "string \<Rightarrow> bool \<Rightarrow> int \<Rightarrow> ('k, 'c) event_loop \<Rightarrow> nat \<times> ('k, 'c) event_loop" where
  "add_child_process tag throw_if_failed pid l =
     (el_next_id l,
      l\<lparr>el_children := el_children l @
            [\<lparr>ce_id = el_next_id l, ce_throw = throw_if_failed, ce_name = tag, ce_pid = pid, ce_process = new_child\<rparr>],
        el_next_id := el_next_id l + 1\<rparr>)"

text \<open>The children that \<open>resume\<close> sends a signal.\<close>

definition resumed_children :: "child_entry list \<Rightarrow> int list" where
  "resumed_children es = map ce_pid (filter (\<lambda>e. \<not> cp_running (ce_process e) \<and> \<not> cp_terminated (ce_process e)) es)"

text \<open>The loop over the children: those already looked at, those still to be. A child that was stopped stops
  the parent too, until it is continued.\<close>

fun reap_children ::
  "('k, 'c) loop_callbacks \<Rightarrow> loop_io \<Rightarrow> child_entry list \<Rightarrow> child_entry list \<Rightarrow> ('k, 'c) event_loop \<Rightarrow>
     ('k, 'c) event_loop res" where
  "reap_children cb io kept [] l = Inr (l\<lparr>el_children := kept\<rparr>)"
| "reap_children cb io kept (e # rest) l =
     (if cp_terminated (ce_process e) then reap_children cb io (kept @ [e]) rest l
      else case io_children io (ce_id e) of
             None \<Rightarrow> reap_children cb io (kept @ [e]) rest l
           | Some info \<Rightarrow>
               bind_res (child_wait (ce_pid e) info (ce_process e)) (\<lambda>p.
                 let e' = e\<lparr>ce_process := p\<rparr>
                 in if cp_terminated p then
                      (if ce_throw e \<and> cp_exit_status p \<noteq> 0 then Inl (child_exception p)
                       else bind_res (lc_child cb (ce_id e) (ce_name e) (cp_exit_status p) (el_client l)) (\<lambda>c.
                         reap_children cb io kept rest (l\<lparr>el_client := c\<rparr>)))
                    else reap_children cb io (kept @ [e']) rest
                           (if cp_running p then l else l\<lparr>el_stops := el_stops l + 1\<rparr>)))"

definition handle_signal ::
  "('k, 'c) loop_callbacks \<Rightarrow> loop_io \<Rightarrow> loop_signal \<Rightarrow> ('k, 'c) event_loop \<Rightarrow> (action_result \<times> ('k, 'c) event_loop) res" where
  "handle_signal cb io sig l =
     (case sig of
        SIGCONT \<Rightarrow> Inr (Continue, l\<lparr>el_resumed := el_resumed l @ resumed_children (el_children l)\<rparr>)
      | SIGCHLD \<Rightarrow>
          if el_children l = [] then Inl (Runtime_error ''received SIGCHLD without any managed children'')
          else bind_res (reap_children cb io [] (el_children l) l) (\<lambda>l'. Inr (Continue, l'))
      | Other_signal \<Rightarrow> Inl (Runtime_error ''unknown signal'')
      | _ \<Rightarrow> Inl (Runtime_error ''interrupted by signal''))"

section \<open>As the owner of a poller\<close>

definition the_object :: "nat \<Rightarrow> ('k, 'c) event_loop \<Rightarrow> 'k connection res" where
  "the_object fd l = (case el_objects l fd of None \<Rightarrow> Inl Undefined_behaviour | Some x \<Rightarrow> Inr x)"

definition loop_interested :: "loop_action \<Rightarrow> ('k, 'c) event_loop \<Rightarrow> bool" where
  "loop_interested a l =
     (case a of
        Signal_action \<Rightarrow> el_children l \<noteq> [] \<or> el_open l \<noteq> []
      | Write_action fd \<Rightarrow>
          (case el_objects l fd of
             None \<Rightarrow> False
           | Some x \<Rightarrow> (case cn_transport x of Tcp _ \<Rightarrow> cn_write_buffer x \<noteq> []
                        | Tls sock \<Rightarrow> out_interested sock (cn_write_buffer x \<noteq> [])))
      | Read_action fd \<Rightarrow>
          (case el_objects l fd of
             None \<Rightarrow> False
           | Some x \<Rightarrow> (case cn_transport x of Tcp _ \<Rightarrow> True | Tls sock \<Rightarrow> in_interested sock True))
      | Accept_action fd \<Rightarrow> True)"

definition loop_eof :: "nat \<Rightarrow> ('k, 'c) event_loop \<Rightarrow> bool" where
  "loop_eof fd l =
     (case el_objects l fd of
        None \<Rightarrow> False
      | Some x \<Rightarrow> (case cn_transport x of Tcp d \<Rightarrow> de_eof d | Tls sock \<Rightarrow> de_eof (nb_descriptor sock)))"

definition loop_callback ::
  "('k, 'c) loop_callbacks \<Rightarrow> loop_io \<Rightarrow> loop_action \<Rightarrow> ('k, 'c) event_loop \<Rightarrow>
     (action_result \<times> loop_action poll_action list \<times> ('k, 'c) event_loop) res" where
  "loop_callback cb io a l =
     (case a of
        Signal_action \<Rightarrow>
          bind_res (io_signal io) (\<lambda>sig. bind_res (handle_signal cb io sig l) (\<lambda>(r, l'). Inr (r, [], l')))
      | Write_action fd \<Rightarrow>
          bind_res (the_object fd l) (\<lambda>x. bind_res (write_callback io fd x) (\<lambda>x'. Inr (Continue, [], set_object fd x' l)))
      | Read_action fd \<Rightarrow>
          bind_res (the_object fd l) (\<lambda>x. bind_res (read_callback cb io fd x l) (\<lambda>(r, l'). Inr (r, [], l')))
      | Accept_action fd \<Rightarrow> bind_res (the_object fd l) (\<lambda>x. accept_callback cb io fd x l))"

definition loop_fderror ::
  "('k, 'c) loop_callbacks \<Rightarrow> loop_action \<Rightarrow> ('k, 'c) event_loop \<Rightarrow>
     (loop_action poll_action list \<times> ('k, 'c) event_loop) res" where
  "loop_fderror cb a l =
     (case a of
        Write_action fd \<Rightarrow> bind_res (the_object fd l) (\<lambda>x. bind_res (fd_error cb fd (cn_key x) l) (\<lambda>l'. Inr ([], l')))
      | Read_action fd \<Rightarrow> bind_res (the_object fd l) (\<lambda>x. bind_res (fd_error cb fd (cn_key x) l) (\<lambda>l'. Inr ([], l')))
      | _ \<Rightarrow> Inr ([], l))"

definition loop_owner :: "('k, 'c) loop_callbacks \<Rightarrow> loop_io \<Rightarrow> (loop_action, ('k, 'c) event_loop) poll_client" where
  "loop_owner cb io = \<lparr>pc_interested = loop_interested, pc_eof = loop_eof, pc_callback = loop_callback cb io,
     pc_fderror = loop_fderror cb\<rparr>"

definition poll_once ::
  "('k, 'c) loop_callbacks \<Rightarrow> loop_io \<Rightarrow> poll_kernel \<Rightarrow> int \<Rightarrow> loop_action poller \<times> ('k, 'c) event_loop \<Rightarrow>
     (poll_outcome \<times> loop_action poller \<times> ('k, 'c) event_loop) res" where
  "poll_once cb io k timeout_ms st = poll (loop_owner cb io) k timeout_ms st"

text \<open>The constructor: the descriptor of the signals is 0 here, smaller than those of sockets.\<close>

definition start_loop :: "'c \<Rightarrow> loop_action poller \<times> ('k, 'c) event_loop" where
  "start_loop c =
     (add_action \<lparr>pa_fd = 0, pa_direction = Poll_in, pa_active = True, pa_what = Signal_action\<rparr> new_poller,
      new_event_loop c)"

section \<open>Requests over HTTP\<close>

text \<open>The client of \<open>make_http_request\<close>: a parser for each request, and what was reported to the engines, in
  order.\<close>

datatype http_report = Responded nat http_response | Request_failed nat

fun report_id :: "http_report \<Rightarrow> nat" where
  "report_id (Responded i _) = i"
| "report_id (Request_failed i) = i"

record http_client =
  hc_parsers :: "nat \<rightharpoonup> (http_response, http_message list) http_sequence"
  hc_reports :: "http_report list"
  hc_children :: "(nat \<times> string \<times> nat) list"

definition response_data :: "nat \<Rightarrow> string \<Rightarrow> http_client \<Rightarrow> (bool \<times> string \<times> http_client) res" where
  "response_data i data c =
     (case hc_parsers c i of
        None \<Rightarrow> Inl Undefined_behaviour
      | Some parser \<Rightarrow>
          bind_res (parse_http response_class data parser) (\<lambda>parser'.
            case sq_complete parser' of
              [] \<Rightarrow> Inr (True, [], c\<lparr>hc_parsers := (hc_parsers c)(i \<mapsto> parser')\<rparr>)
            | response # _ \<Rightarrow>
                Inr (False, [], c\<lparr>hc_parsers := (hc_parsers c)(i \<mapsto> pop_message parser'),
                                  hc_reports := hc_reports c @ [Responded i response]\<rparr>)))"

definition http_callbacks :: "(nat, http_client) loop_callbacks" where
  "http_callbacks =
     \<lparr>lc_data = response_data,
      lc_error = (\<lambda>i c. Inr (c\<lparr>hc_reports := hc_reports c @ [Request_failed i]\<rparr>)),
      lc_close = (\<lambda>i c. Inr c),
      lc_child = (\<lambda>i name status c. Inr (c\<lparr>hc_children := hc_children c @ [(i, name, status)]\<rparr>)),
      lc_accept = (\<lambda>i c. Inl Undefined_behaviour)\<rparr>"

definition new_http_client :: http_client where
  "new_http_client = \<lparr>hc_parsers = Map.empty, hc_reports = [], hc_children = []\<rparr>"

definition make_http_request ::
  "bool \<Rightarrow> nat \<Rightarrow> http_message \<Rightarrow> loop_action poller \<times> (nat, http_client) event_loop \<Rightarrow>
     (nat \<times> loop_action poller \<times> (nat, http_client) event_loop) res" where
  "make_http_request secure fd request st =
     (case st of (p, l) \<Rightarrow>
        let i = el_next_id l; c = el_client l;
            parser = new_request_arrived request (new_sequence response_class []);
            l1 = l\<lparr>el_next_id := i + 1, el_client := c\<lparr>hc_parsers := (hc_parsers c)(i \<mapsto> parser)\<rparr>\<rparr>
        in case make_connection secure fd i l1 of (added, l2) \<Rightarrow>
             bind_res (message_str request) (\<lambda>text.
             bind_res (the_object fd l2) (\<lambda>x.
               Inr (i, fold add_action added p, set_object fd (x\<lparr>cn_write_buffer := text\<rparr>) l2))))"

end
