(* ===== verification/EventLoopLaws.thy ===== *)
theory EventLoopLaws
  imports EventLoop
begin

text \<open>
  Laws of the event loop: every request over HTTP is answered at most once, what is written to a TLS
  connection leaves it in order, and what goes wrong when a write would block, when a peer closes, and
  when a signal comes late.
\<close>

section \<open>The invariant of a loop with requests\<close>

definition report_ids :: "(nat, http_client) event_loop \<Rightarrow> nat list" where
  "report_ids l = map report_id (hc_reports (el_client l))"

definition key_of :: "('k, 'c) event_loop \<Rightarrow> nat \<Rightarrow> 'k option" where
  "key_of l fd = map_option cn_key (el_objects l fd)"

definition requests_ok :: "(nat, http_client) event_loop \<Rightarrow> bool" where
  "requests_ok l \<longleftrightarrow>
     distinct (report_ids l) \<and> distinct (el_open l) \<and> 0 \<notin> set (el_open l) \<and> inj_on (key_of l) (set (el_open l)) \<and>
     (\<forall>i \<in> set (report_ids l). i < el_next_id l) \<and>
     (\<forall>fd \<in> set (el_open l). \<exists>i. key_of l fd = Some i \<and> i < el_next_id l \<and> i \<notin> set (report_ids l))"

text \<open>An action belongs to the descriptor it stands for; of those of one descriptor the reading one is last.\<close>

definition action_ok :: "loop_action poll_action \<Rightarrow> bool" where
  "action_ok a \<longleftrightarrow>
     (case pa_what a of
        Signal_action \<Rightarrow> pa_fd a = 0
      | Write_action fd \<Rightarrow> pa_fd a = fd \<and> fd \<noteq> 0
      | Read_action fd \<Rightarrow> pa_fd a = fd \<and> fd \<noteq> 0
      | Accept_action fd \<Rightarrow> False)"

fun reads_last :: "loop_action poll_action list \<Rightarrow> bool" where
  "reads_last [] = True"
| "reads_last (a # as) = ((\<forall>fd. pa_what a = Read_action fd \<longrightarrow> pa_fd a \<notin> pa_fd ` set as) \<and> reads_last as)"

definition loop_ok :: "loop_action poller \<times> (nat, http_client) event_loop \<Rightarrow> bool" where
  "loop_ok st \<longleftrightarrow>
     (case st of (p, l) \<Rightarrow>
        requests_ok l \<and> reads_last (po_actions p @ po_queue p) \<and>
        (\<forall>a \<in> set (po_actions p @ po_queue p). action_ok a \<and> (pa_fd a \<noteq> 0 \<longrightarrow> pa_fd a \<in> set (el_open l))))"

text \<open>While the actions are served: the descriptors that were given up are no longer open, and those of them
  that still have actions to come are in error.\<close>

definition serving ::
  "nat set \<Rightarrow> poll_kernel \<Rightarrow> nat set \<Rightarrow> loop_action poll_action list \<Rightarrow> loop_action poll_action list \<Rightarrow>
     (nat, http_client) event_loop \<Rightarrow> bool" where
  "serving before k gone later queue l \<longleftrightarrow>
     requests_ok l \<and> gone \<inter> set (el_open l) = {} \<and> before \<subseteq> set (el_open l) \<union> gone \<and> queue = [] \<and> reads_last later \<and>
     (\<forall>a \<in> set later. action_ok a \<and> (pa_fd a \<noteq> 0 \<longrightarrow> pa_fd a \<in> before) \<and> (pa_fd a \<in> gone \<longrightarrow> fs_error (k (pa_fd a))))"

section \<open>What the callbacks change\<close>

lemma requests_ok_same:
  assumes "requests_ok l" and "report_ids l' = report_ids l" and "el_open l' = el_open l" and "el_next_id l' = el_next_id l"
    and "\<And>fd. key_of l' fd = key_of l fd"
  shows "requests_ok l'"
proof -
  have "key_of l' = key_of l" using assms(5) by blast
  then show ?thesis using assms(1-4) by (simp add: requests_ok_def)
qed

text \<open>A report of an open connection that is closed with it, or a closing without a report.\<close>

lemma requests_ok_close:
  assumes "requests_ok l" and "fd \<in> set (el_open l)" and "key_of l fd = Some i"
    and "report_ids l' = report_ids l \<or> report_ids l' = report_ids l @ [i]" and "el_open l' = remove1 fd (el_open l)"
    and "el_next_id l' = el_next_id l" and "\<And>x. key_of l' x = key_of l x"
  shows "requests_ok l'"
proof -
  have open_l: "distinct (el_open l)" "0 \<notin> set (el_open l)" "inj_on (key_of l) (set (el_open l))" "distinct (report_ids l)"
    and ids: "\<forall>i \<in> set (report_ids l). i < el_next_id l"
    and keys: "\<forall>fd \<in> set (el_open l). \<exists>i. key_of l fd = Some i \<and> i < el_next_id l \<and> i \<notin> set (report_ids l)"
    using assms(1) by (auto simp: requests_ok_def)
  have set: "set (remove1 fd (el_open l)) = set (el_open l) - {fd}" using open_l(1) by simp
  have key: "key_of l' = key_of l" using assms(7) by blast
  have i: "i < el_next_id l" "i \<notin> set (report_ids l)" using keys assms(2,3) by fastforce+
  have other: "key_of l x \<noteq> Some i" if "x \<in> set (el_open l) - {fd}" for x
    using that open_l(3) assms(2,3) by (metis DiffE inj_onD insertCI)
  have keys': "\<forall>x \<in> set (el_open l) - {fd}. \<exists>j. key_of l x = Some j \<and> j < el_next_id l \<and> j \<notin> set (report_ids l')"
  proof
    fix x
    assume x: "x \<in> set (el_open l) - {fd}"
    then obtain j where "key_of l x = Some j" "j < el_next_id l" "j \<notin> set (report_ids l)" using keys by blast
    then show "\<exists>j. key_of l x = Some j \<and> j < el_next_id l \<and> j \<notin> set (report_ids l')" using other [OF x] assms(4) by auto
  qed
  have reports': "distinct (report_ids l')" "\<forall>j \<in> set (report_ids l'). j < el_next_id l" using assms(4) open_l(4) ids i by auto
  have inj: "inj_on (key_of l) (set (el_open l) - {fd})" using open_l(3) by (rule inj_on_diff)
  have rest: "distinct (remove1 fd (el_open l))" "0 \<notin> set (el_open l) - {fd}" using open_l(1,2) by simp_all
  show ?thesis
    unfolding requests_ok_def key assms(5,6) set
    by (intro conjI) (fact reports'(1) rest(1) rest(2) inj reports'(2) keys')+
qed

lemma reap_children_same:
  assumes "reap_children http_callbacks io kept rest l = Inr l'"
  shows "el_open l' = el_open l \<and> el_objects l' = el_objects l \<and> el_next_id l' = el_next_id l \<and> report_ids l' = report_ids l"
  using assms
proof (induction rest arbitrary: kept l)
  case Nil
  then show ?case by (auto simp: report_ids_def)
next
  case (Cons e rest)
  show ?case
  proof (cases "cp_terminated (ce_process e) \<or> io_children io (ce_id e) = None")
    case True
    then show ?thesis using Cons by (auto split: if_splits)
  next
    case False
    then obtain info p where info: "io_children io (ce_id e) = Some info" "child_wait (ce_pid e) info (ce_process e) = Inr p"
      using Cons.prems by (auto split: option.splits)
    let ?ended = "\<lambda>l. l\<lparr>el_client := (el_client l)\<lparr>hc_children := hc_children (el_client l) @ [(ce_id e, ce_name e, cp_exit_status p)]\<rparr>\<rparr>"
    let ?l = "if cp_running p then l else l\<lparr>el_stops := el_stops l + 1\<rparr>"
    have "reap_children http_callbacks io kept rest (?ended l) = Inr l' \<or>
      reap_children http_callbacks io (kept @ [e\<lparr>ce_process := p\<rparr>]) rest ?l = Inr l'"
      using Cons.prems False info by (auto simp: http_callbacks_def Let_def split: if_splits)
    then show ?thesis using Cons.IH [of kept "?ended l"] Cons.IH [of "kept @ [e\<lparr>ce_process := p\<rparr>]" ?l]
      by (auto simp: report_ids_def split: if_splits)
  qed
qed

lemma handle_signal_same:
  assumes "handle_signal http_callbacks io sig l = Inr (r, l')"
  shows "r = Continue \<and> el_open l' = el_open l \<and> el_objects l' = el_objects l \<and> el_next_id l' = el_next_id l \<and>
    report_ids l' = report_ids l"
  using assms reap_children_same by (cases sig) (auto simp: handle_signal_def report_ids_def split: if_splits)

lemma write_callback_key: "write_callback io fd x = Inr x' \<Longrightarrow> cn_key x' = cn_key x"
  by (auto simp: write_callback_def tcp_write_def split: transport.splits if_splits prod.splits)

text \<open>Reading either goes on and reports nothing, or closes the connection, perhaps with a report of it.\<close>

definition reading_step :: "nat \<Rightarrow> nat \<Rightarrow> action_result \<Rightarrow> (nat, http_client) event_loop \<Rightarrow> (nat, http_client) event_loop \<Rightarrow> bool" where
  "reading_step fd i r l l' \<longleftrightarrow>
     el_next_id l' = el_next_id l \<and> (\<forall>x. key_of l' x = key_of l x) \<and>
     (r = Continue \<and> el_open l' = el_open l \<and> report_ids l' = report_ids l \<or>
      r = Cancel_all \<and> fd \<in> set (el_open l) \<and> el_open l' = remove1 fd (el_open l) \<and>
      (report_ids l' = report_ids l \<or> report_ids l' = report_ids l @ [i]))"

lemma http_callbacks_sel [simp]:
  "lc_data http_callbacks = response_data" "lc_close http_callbacks i c = Inr c"
  "lc_error http_callbacks i c = Inr (c\<lparr>hc_reports := hc_reports c @ [Request_failed i]\<rparr>)"
  "lc_child http_callbacks i name status c = Inr (c\<lparr>hc_children := hc_children c @ [(i, name, status)]\<rparr>)"
  by (simp_all add: http_callbacks_def)

lemma response_data_reports:
  assumes "response_data i data c = Inr (go_on, out, c')"
  shows "if go_on then hc_reports c' = hc_reports c else \<exists>y. hc_reports c' = hc_reports c @ [Responded i y]"
proof -
  obtain parser parser' where parse: "hc_parsers c i = Some parser" "parse_http response_class data parser = Inr parser'"
    using assms by (auto simp: response_data_def split: option.splits)
  then show ?thesis using assms by (cases "sq_complete parser'") (auto simp: response_data_def)
qed

lemma take_data_step:
  assumes "take_data http_callbacks fd data (x, l) = Inr (r, l')" and "key_of l fd = Some (cn_key x)"
  shows "reading_step fd (cn_key x) r l l'"
proof -
  obtain go_on out c where cb: "(if data = [] then Inr (False, [], el_client l) else response_data (cn_key x) data (el_client l))
      = Inr (go_on, out, c)"
    and rest: "(let l1 = set_object fd (x\<lparr>cn_write_buffer := cn_write_buffer x @ out\<rparr>) (l\<lparr>el_client := c\<rparr>)
            in if go_on then Inr (Continue, l1)
               else bind_res (close_connection http_callbacks fd (cn_key x) l1) (\<lambda>l''. Inr (Cancel_all, l''))) = Inr (r, l')"
  proof -
    obtain q where q: "(if data = [] then Inr (False, [], el_client l) else response_data (cn_key x) data (el_client l)) = Inr q"
      "(case q of (go_on, out, c) \<Rightarrow>
         let l1 = set_object fd (x\<lparr>cn_write_buffer := cn_write_buffer x @ out\<rparr>) (l\<lparr>el_client := c\<rparr>)
            in if go_on then Inr (Continue, l1)
               else bind_res (close_connection http_callbacks fd (cn_key x) l1) (\<lambda>l''. Inr (Cancel_all, l''))) = Inr (r, l')"
      using assms(1) unfolding take_data_def http_callbacks_sel case_prod_conv bind_res_eq_Inr by blast
    obtain go_on out c where "q = (go_on, out, c)" by (metis surj_pair)
    then show ?thesis using that q by simp
  qed
  have reports: "if go_on then hc_reports c = hc_reports (el_client l)
    else hc_reports c = hc_reports (el_client l) \<or> (\<exists>y. hc_reports c = hc_reports (el_client l) @ [Responded (cn_key x) y])"
    using cb response_data_reports by (cases "data = []") auto
  show ?thesis
  proof (cases go_on)
    case True
    then show ?thesis using rest reports assms(2) by (auto simp: reading_step_def set_object_def key_of_def report_ids_def)
  next
    case False
    then have "r = Cancel_all" "fd \<in> set (el_open l)"
      "l' = (set_object fd (x\<lparr>cn_write_buffer := cn_write_buffer x @ out\<rparr>) (l\<lparr>el_client := c\<rparr>))\<lparr>el_open := remove1 fd (el_open l)\<rparr>"
      using rest by (auto simp: close_connection_def remove_connection_def set_object_def Let_def split: if_splits)
    then show ?thesis using False reports assms(2) by (auto simp: reading_step_def set_object_def key_of_def report_ids_def)
  qed
qed

lemma read_callback_step:
  assumes "read_callback http_callbacks io fd x l = Inr (r, l')" and "key_of l fd = Some (cn_key x)"
  shows "reading_step fd (cn_key x) r l l'"
proof (cases "cn_transport x")
  case (Tcp d)
  then obtain data d' where "take_data http_callbacks fd data (x\<lparr>cn_transport := Tcp d'\<rparr>, l) = Inr (r, l')"
    using assms(1) by (auto simp: read_callback_def)
  from take_data_step [OF this] assms(2) show ?thesis by simp
next
  case (Tls sock)
  then obtain sock' data where
    "(case data of None \<Rightarrow> Inr (Continue, set_object fd (x\<lparr>cn_transport := Tls sock'\<rparr>) l)
       | Some bytes \<Rightarrow> take_data http_callbacks fd bytes (x\<lparr>cn_transport := Tls sock'\<rparr>, l)) = Inr (r, l')"
    using assms(1) by (auto simp: read_callback_def Let_def)
  then show ?thesis
    using take_data_step [of fd _ "x\<lparr>cn_transport := Tls sock'\<rparr>" l r l'] assms(2)
    by (cases data) (auto simp: reading_step_def set_object_def key_of_def report_ids_def)
qed

lemma fd_error_step:
  assumes "fd_error http_callbacks fd i l = Inr l'"
  shows "fd \<in> set (el_open l) \<and> el_open l' = remove1 fd (el_open l) \<and> report_ids l' = report_ids l @ [i] \<and>
    el_next_id l' = el_next_id l \<and> (\<forall>x. key_of l' x = key_of l x)"
  using assms
  by (auto simp: fd_error_def close_connection_def remove_connection_def report_ids_def key_of_def split: if_splits)


section \<open>One call of poll\<close>

lemma serving_open:
  assumes "serving before k gone (a # later) queue l" and "pa_fd a \<noteq> 0" and "pa_fd a \<notin> gone"
  shows "pa_fd a \<in> set (el_open l) \<and> (\<exists>x. el_objects l (pa_fd a) = Some x \<and> key_of l (pa_fd a) = Some (cn_key x))"
proof -
  have "pa_fd a \<in> before" "before \<subseteq> set (el_open l) \<union> gone" "requests_ok l" using assms(1,2) by (simp_all add: serving_def)
  then have "pa_fd a \<in> set (el_open l)" using assms(3) by blast
  moreover then obtain i where "key_of l (pa_fd a) = Some i" using \<open>requests_ok l\<close> unfolding requests_ok_def by blast
  ultimately show ?thesis by (auto simp: key_of_def)
qed

lemma serving_less: "serving before k gone (a # later) queue l \<Longrightarrow> serving before k gone later queue l"
  by (simp add: serving_def)

text \<open>A descriptor is given up together with its connection.\<close>

lemma serving_close:
  assumes "serving before k gone (a # later) queue l" and "pa_fd a \<in> set (el_open l)"
    and "requests_ok l'" and "el_open l' = remove1 (pa_fd a) (el_open l)"
    and "pa_fd a \<notin> pa_fd ` set later \<or> fs_error (k (pa_fd a))"
  shows "serving before k (insert (pa_fd a) gone) later queue l'"
proof -
  have "distinct (el_open l)" using assms(1) by (simp add: serving_def requests_ok_def)
  then have set: "set (el_open l') = set (el_open l) - {pa_fd a}" using assms(4) by simp
  have old: "gone \<inter> set (el_open l) = {}" "before \<subseteq> set (el_open l) \<union> gone" "queue = []" "reads_last later"
    "\<forall>x \<in> set later. action_ok x \<and> (pa_fd x \<noteq> 0 \<longrightarrow> pa_fd x \<in> before) \<and> (pa_fd x \<in> gone \<longrightarrow> fs_error (k (pa_fd x)))"
    using assms(1) by (simp_all add: serving_def)
  have "insert (pa_fd a) gone \<inter> set (el_open l') = {}" "before \<subseteq> set (el_open l') \<union> insert (pa_fd a) gone"
    using old(1,2) unfolding set by blast+
  moreover have "pa_fd x \<in> insert (pa_fd a) gone \<longrightarrow> fs_error (k (pa_fd x))" if "x \<in> set later" for x
    using old(5) assms(5) that by (metis imageI insertE)
  ultimately show ?thesis using old(3-5) assms(3) unfolding serving_def by blast
qed

lemma serving_same:
  assumes "serving before k gone (a # later) queue l" and "requests_ok l'" and "el_open l' = el_open l"
  shows "serving before k gone later queue l'"
  using assms by (simp add: serving_def)

lemma callback_serving:
  assumes "serving before k gone (a # later) queue l" and "\<not> fs_error (k (pa_fd a))"
    and "loop_callback http_callbacks io (pa_what a) l = Inr (result, added, l')"
  shows "added = [] \<and> serving before k (if result = Cancel_all then insert (pa_fd a) gone else gone) later queue l'"
proof -
  have ok: "action_ok a" "requests_ok l" "reads_last (a # later)" "pa_fd a \<notin> gone" using assms(1,2) by (auto simp: serving_def)
  show ?thesis
  proof (cases "pa_what a")
    case Signal_action
    then obtain sig where run: "handle_signal http_callbacks io sig l = Inr (result, l')" "added = []"
      using assms(3) by (auto simp: loop_callback_def)
    note same = handle_signal_same [OF run(1)]
    then have "requests_ok l'" by (intro requests_ok_same [OF ok(2)]) (simp_all add: key_of_def)
    then show ?thesis using serving_same [OF assms(1)] run(2) same by simp
  next
    case (Write_action fd)
    then have fd: "pa_fd a = fd" "fd \<noteq> 0" using ok(1) by (simp_all add: action_ok_def)
    obtain x where x: "el_objects l fd = Some x" using serving_open [OF assms(1)] fd ok(4) by auto
    then obtain x' where w: "write_callback io fd x = Inr x'" "l' = set_object fd x' l" "result = Continue" "added = []"
      using assms(3) Write_action by (auto simp: loop_callback_def the_object_def)
    have "requests_ok l'"
      by (rule requests_ok_same [OF ok(2)]) (use w x write_callback_key [OF w(1)] in \<open>auto simp: set_object_def report_ids_def key_of_def\<close>)
    then show ?thesis using serving_same [OF assms(1)] w by (simp add: set_object_def)
  next
    case (Read_action fd)
    then have fd: "pa_fd a = fd" "fd \<noteq> 0" using ok(1) by (simp_all add: action_ok_def)
    obtain x where x: "el_objects l fd = Some x" "key_of l fd = Some (cn_key x)" "fd \<in> set (el_open l)"
      using serving_open [OF assms(1)] fd ok(4) by auto
    then have run: "read_callback http_callbacks io fd x l = Inr (result, l')" "added = []"
      using assms(3) Read_action by (auto simp: loop_callback_def the_object_def)
    note step = read_callback_step [OF run(1) x(2)]
    show ?thesis
    proof (cases "result = Cancel_all")
      case True
      then have "requests_ok l'"
        using step by (intro requests_ok_close [OF ok(2) x(3,2)]) (auto simp: reading_step_def)
      moreover have "fd \<notin> pa_fd ` set later" using ok(3) Read_action fd by simp
      ultimately show ?thesis
        using serving_close [OF assms(1)] step True run(2) x(3) fd by (simp add: reading_step_def)
    next
      case False
      then have "requests_ok l'" "el_open l' = el_open l"
        using step by (auto simp: reading_step_def intro: requests_ok_same [OF ok(2)])
      then show ?thesis using serving_same [OF assms(1)] False run(2) by simp
    qed
  next
    case (Accept_action fd)
    then show ?thesis using ok(1) by (simp add: action_ok_def)
  qed
qed

lemma fderror_serving:
  assumes "serving before k gone (a # later) queue l" and "fs_error (k (pa_fd a))" and "pa_fd a \<notin> gone"
    and "loop_fderror http_callbacks (pa_what a) l = Inr (added, l')"
  shows "added = [] \<and> serving before k (insert (pa_fd a) gone) later queue l'"
proof (cases "pa_fd a = 0")
  case True
  then have "pa_what a = Signal_action" using assms(1) by (auto simp: serving_def action_ok_def split: loop_action.splits)
  then have "added = []" "l' = l" using assms(4) by (auto simp: loop_fderror_def)
  then show ?thesis using assms(1,2) True by (auto simp: serving_def requests_ok_def)
next
  case False
  note open_a = serving_open [OF assms(1) False assms(3)]
  then obtain x where x: "el_objects l (pa_fd a) = Some x" "key_of l (pa_fd a) = Some (cn_key x)" by blast
  have "pa_what a = Write_action (pa_fd a) \<or> pa_what a = Read_action (pa_fd a)"
    using assms(1) False by (auto simp: serving_def action_ok_def split: loop_action.splits)
  then have run: "fd_error http_callbacks (pa_fd a) (cn_key x) l = Inr l'" "added = []"
    using assms(4) x(1) by (auto simp: loop_fderror_def the_object_def)
  note step = fd_error_step [OF run(1)]
  have "requests_ok l'"
    by (rule requests_ok_close [OF _ _ x(2)]) (use assms(1) step in \<open>auto simp: serving_def\<close>)
  then show ?thesis using serving_close [OF assms(1)] open_a step assms(2) run(2) by simp
qed

interpretation served: poll_owner "loop_owner http_callbacks io" k "serving before k"
  for io :: loop_io and k :: poll_kernel and before :: "nat set"
proof
  fix gone a later queue l result added l'
  assume "serving before k gone (a # later) queue l" "\<not> fs_error (k (pa_fd a))"
    "pc_callback (loop_owner http_callbacks io) (pa_what a) l = Inr (result, added, l')"
  then show "serving before k (if result = Cancel_all then insert (pa_fd a) gone else gone) later (queue @ added) l'"
    using callback_serving by (fastforce simp: loop_owner_def)
next
  fix gone a later queue l added l'
  assume "serving before k gone (a # later) queue l" "fs_error (k (pa_fd a))" "pa_fd a \<notin> gone"
    "pc_fderror (loop_owner http_callbacks io) (pa_what a) l = Inr (added, l')"
  then show "serving before k (insert (pa_fd a) gone) later (queue @ added) l'"
    using fderror_serving by (fastforce simp: loop_owner_def)
qed (erule serving_less)+

lemma reads_last_filter: "reads_last as \<Longrightarrow> reads_last (filter P as)"
  by (induction as) auto

lemma action_ok_cong: "pa_fd a = pa_fd b \<Longrightarrow> pa_what a = pa_what b \<Longrightarrow> action_ok a = action_ok b"
  by (simp add: action_ok_def split: loop_action.split)

lemma reads_last_cong:
  "map pa_fd as = map pa_fd bs \<Longrightarrow> map pa_what as = map pa_what bs \<Longrightarrow> reads_last as = reads_last bs"
proof (induction as arbitrary: bs)
  case Nil
  then show ?case by simp
next
  case (Cons a as)
  then obtain b bs' where bs: "bs = b # bs'" "pa_fd a = pa_fd b" "pa_what a = pa_what b" "map pa_fd as = map pa_fd bs'"
    "map pa_what as = map pa_what bs'" by (cases bs) auto
  have "pa_fd ` set as = pa_fd ` set bs'" using bs(4) by (metis list.set_map)
  then show ?case using Cons.IH [OF bs(4,5)] bs by simp
qed

lemma seen_member:
  assumes "map pa_fd seen = map pa_fd acts" and "map pa_what seen = map pa_what acts" and "a \<in> set seen"
  shows "\<exists>b \<in> set acts. pa_fd b = pa_fd a \<and> pa_what b = pa_what a"
proof -
  obtain i where i: "i < length seen" "seen ! i = a" using assms(3) by (auto simp: in_set_conv_nth)
  have len: "length seen = length acts" using assms(1) by (metis length_map)
  have "pa_fd (acts ! i) = pa_fd a" "pa_what (acts ! i) = pa_what a"
    using i len assms(1,2) by (metis nth_map)+
  then show ?thesis using i len by (metis nth_mem)
qed

lemma poll_once_ok:
  assumes "poll_once http_callbacks io k timeout_ms st = Inr (outcome, st')" and "loop_ok st"
    and "outcome = Poll_success \<or> outcome = Poll_timeout"
  shows "loop_ok st'"
proof -
  obtain p l where st: "st = (p, l)" by (metis surj_pair)
  let ?acts = "po_actions p @ po_queue p"
  let ?items = "map (\<lambda>a. (a, wanted (loop_owner http_callbacks io) l a)) ?acts"
  have ok: "requests_ok l" "reads_last ?acts" "\<forall>a \<in> set ?acts. action_ok a \<and> (pa_fd a \<noteq> 0 \<longrightarrow> pa_fd a \<in> set (el_open l))"
    using assms(2) by (auto simp: loop_ok_def st)
  have idle: "loop_ok (\<lparr>po_queue = [], po_actions = ?acts\<rparr>, l)" using ok by (simp add: loop_ok_def)
  consider "st' = (\<lparr>po_queue = [], po_actions = ?acts\<rparr>, l)"
    | v where "serve_all (loop_owner http_callbacks io) k ?items \<lparr>sv_seen = [], sv_queue = [], sv_remove = [], sv_state = l\<rparr> = Inr (None, v)"
      "st' = (\<lparr>po_queue = sv_queue v, po_actions = remove_actions (sv_remove v) (sv_seen v)\<rparr>, sv_state v)"
    using assms(1,3) by (auto simp: poll_once_def poll_def st Let_def split: if_splits option.splits)
  then show ?thesis
  proof cases
    case 1
    then show ?thesis using idle by simp
  next
    case 2
    have fsts: "map fst ?items = ?acts" by (simp add: comp_def)
    have "serving (set (el_open l)) k {} ?acts [] l" using ok by (simp add: serving_def)
    then have final: "serving (set (el_open l)) k (set (sv_remove v)) [] (sv_queue v) (sv_state v)"
      using served.serve_all_keeps [OF _ 2(1)] fsts by simp
    then have q: "sv_queue v = []" "requests_ok (sv_state v)" "set (el_open l) \<subseteq> set (el_open (sv_state v)) \<union> set (sv_remove v)"
      by (simp_all add: serving_def)
    have seen: "map pa_fd (sv_seen v) = map pa_fd ?acts" "map pa_what (sv_seen v) = map pa_what ?acts"
      using serve_all_seen [OF 2(1)] fsts by simp_all
    have "reads_last (remove_actions (sv_remove v) (sv_seen v))"
      unfolding remove_actions_def by (rule reads_last_filter) (simp only: reads_last_cong [OF seen] ok(2))
    moreover have "action_ok a \<and> (pa_fd a \<noteq> 0 \<longrightarrow> pa_fd a \<in> set (el_open (sv_state v)))"
      if "a \<in> set (remove_actions (sv_remove v) (sv_seen v))" for a
    proof -
      from that have a: "a \<in> set (sv_seen v)" "pa_fd a \<notin> set (sv_remove v)" by (simp_all add: remove_actions_def)
      obtain b where "b \<in> set ?acts" "pa_fd b = pa_fd a" "pa_what b = pa_what a" using seen_member [OF seen a(1)] by blast
      then show ?thesis using ok(3) q(3) a(2) action_ok_cong [of a b] by fastforce
    qed
    ultimately show ?thesis using q 2(2) by (simp add: loop_ok_def)
  qed
qed


section \<open>Runs\<close>

text \<open>A new socket has a descriptor that nothing open has.\<close>

definition fresh_fd :: "nat \<Rightarrow> loop_action poller \<times> (nat, http_client) event_loop \<Rightarrow> bool" where
  "fresh_fd fd st \<longleftrightarrow>
     (case st of (p, l) \<Rightarrow>
        fd \<noteq> 0 \<and> fd \<notin> set (el_open l) \<and> fd \<notin> pa_fd ` set (po_actions p @ po_queue p))"

inductive loop_run :: "loop_action poller \<times> (nat, http_client) event_loop \<Rightarrow> bool" where
  run_start: "loop_run (start_loop new_http_client)"
| run_request: "loop_run st \<Longrightarrow> fresh_fd fd st \<Longrightarrow> make_http_request secure fd request st = Inr (i, st') \<Longrightarrow> loop_run st'"
| run_child: "loop_run (p, l) \<Longrightarrow> add_child_process tag throw_if_failed pid l = (i, l') \<Longrightarrow> loop_run (p, l')"
| run_poll: "loop_run st \<Longrightarrow> poll_once http_callbacks io k timeout_ms st = Inr (outcome, st') \<Longrightarrow>
    outcome = Poll_success \<or> outcome = Poll_timeout \<Longrightarrow> loop_run st'"

lemma start_loop_ok: "loop_ok (start_loop new_http_client)"
  by (simp add: loop_ok_def start_loop_def add_action_def new_poller_def new_event_loop_def requests_ok_def report_ids_def
      new_http_client_def action_ok_def)

lemma reads_last_append:
  "reads_last (as @ bs) \<longleftrightarrow> reads_last as \<and> reads_last bs \<and>
    (\<forall>a \<in> set as. \<forall>fd. pa_what a = Read_action fd \<longrightarrow> pa_fd a \<notin> pa_fd ` set bs)"
  by (induction as) auto

lemma make_http_request_ok:
  assumes "make_http_request secure fd request st = Inr (i, st')" and "loop_ok st" and "fresh_fd fd st"
  shows "loop_ok st'"
proof -
  obtain p l where st: "st = (p, l)" by (metis surj_pair)
  obtain p' l' where st': "st' = (p', l')" by (metis surj_pair)
  have ok: "requests_ok l" "reads_last (po_actions p @ po_queue p)"
    "\<forall>a \<in> set (po_actions p @ po_queue p). action_ok a \<and> (pa_fd a \<noteq> 0 \<longrightarrow> pa_fd a \<in> set (el_open l))"
    using assms(2) by (auto simp: loop_ok_def st)
  have fresh: "fd \<noteq> 0" "fd \<notin> set (el_open l)" "fd \<notin> pa_fd ` set (po_actions p @ po_queue p)"
    using assms(3) by (auto simp: fresh_fd_def st)
  have p': "po_actions p' = po_actions p" "po_queue p' = po_queue p @ connection_actions fd"
    and l': "el_open l' = el_open l @ [fd]" "el_next_id l' = el_next_id l + 1" "report_ids l' = report_ids l"
      "key_of l' = (key_of l)(fd \<mapsto> el_next_id l)"
    using assms(1)
    by (auto simp: make_http_request_def st st' Let_def make_connection_def add_connection_def connection_actions_def
        add_action_def set_object_def the_object_def report_ids_def key_of_def fun_eq_iff)
  have old: "distinct (report_ids l)" "distinct (el_open l)" "0 \<notin> set (el_open l)" "inj_on (key_of l) (set (el_open l))"
    "\<forall>i \<in> set (report_ids l). i < el_next_id l"
    "\<forall>x \<in> set (el_open l). \<exists>i. key_of l x = Some i \<and> i < el_next_id l \<and> i \<notin> set (report_ids l)"
    using ok(1) by (simp_all add: requests_ok_def)
  have same: "key_of l' x = key_of l x" if "x \<in> set (el_open l)" for x using that fresh(2) l'(4) by auto
  have "inj_on (key_of l') (set (el_open l))" using old(4) same by (simp add: inj_on_def)
  moreover have "key_of l' fd \<notin> key_of l' ` set (el_open l)"
  proof
    assume "key_of l' fd \<in> key_of l' ` set (el_open l)"
    then obtain x where "x \<in> set (el_open l)" "key_of l' fd = key_of l' x" by blast
    then show False using old(6) same l'(4) by fastforce
  qed
  ultimately have inj: "inj_on (key_of l') (set (el_open l'))" using fresh(2) by (simp add: l'(1))
  have keys: "\<exists>i. key_of l' x = Some i \<and> i < el_next_id l' \<and> i \<notin> set (report_ids l')" if x: "x \<in> set (el_open l')" for x
  proof (cases "x = fd")
    case True
    then show ?thesis using old(5) by (auto simp: l')
  next
    case False
    then have "x \<in> set (el_open l)" using x by (simp add: l'(1))
    then show ?thesis using old(6) same by (metis less_SucI Suc_eq_plus1 l'(2,3))
  qed
  have ids: "\<forall>i \<in> set (report_ids l'). i < el_next_id l'" using old(5) by (auto simp: l'(2,3) less_SucI)
  have "requests_ok l'"
    unfolding requests_ok_def using old(1-3) fresh(1,2) inj keys ids by (simp add: l'(1,3))
  moreover have "reads_last (po_actions p' @ po_queue p')"
    using ok(2) fresh(3) unfolding p' append_assoc [symmetric] reads_last_append
    by (auto simp: connection_actions_def image_iff)
  moreover have "action_ok a \<and> (pa_fd a \<noteq> 0 \<longrightarrow> pa_fd a \<in> set (el_open l'))" if "a \<in> set (po_actions p' @ po_queue p')" for a
    using that ok(3) fresh(1) by (auto simp: p' l' connection_actions_def action_ok_def)
  ultimately show ?thesis by (simp add: loop_ok_def st')
qed

lemma add_child_ok:
  assumes "add_child_process tag throw_if_failed pid l = (i, l')" and "loop_ok (p, l)"
  shows "loop_ok (p, l')"
proof -
  have l': "el_open l' = el_open l" "el_next_id l' = el_next_id l + 1" "report_ids l' = report_ids l" "key_of l' = key_of l"
    using assms(1) by (auto simp: add_child_process_def report_ids_def key_of_def fun_eq_iff)
  have "requests_ok l" using assms(2) by (simp add: loop_ok_def)
  then have "requests_ok l'" unfolding requests_ok_def l' by (metis less_SucI Suc_eq_plus1)
  then show ?thesis using assms(2) by (simp add: loop_ok_def l')
qed

lemma loop_run_ok: "loop_run st \<Longrightarrow> loop_ok st"
  by (induction rule: loop_run.induct) (blast intro: start_loop_ok make_http_request_ok add_child_ok poll_once_ok)+

text \<open>C5: in every run of the event loop that makes requests, starts children and polls, whatever the kernel and
  OpenSSL answer: each request is reported to its engine at most once, either with a response or with a failure,
  and a connection that is still open belongs to a request that has not been reported.\<close>

theorem requests_answered_once:
  assumes "loop_run (p, l)"
  shows "distinct (map report_id (hc_reports (el_client l))) \<and>
    (\<forall>fd \<in> set (el_open l). \<exists>x. el_objects l fd = Some x \<and> cn_key x \<notin> report_id ` set (hc_reports (el_client l)))"
proof -
  have ok: "requests_ok l" using loop_run_ok [OF assms] by (simp add: loop_ok_def)
  then have "distinct (map report_id (hc_reports (el_client l)))" by (simp add: requests_ok_def report_ids_def)
  moreover have "\<exists>x. el_objects l fd = Some x \<and> cn_key x \<notin> report_id ` set (hc_reports (el_client l))"
    if "fd \<in> set (el_open l)" for fd
    using ok that by (fastforce simp: requests_ok_def key_of_def report_ids_def)
  ultimately show ?thesis by blast
qed


section \<open>TLS\<close>

text \<open>When the socket must finish a write there is a message to write; the handshakes belong to their modes.\<close>

definition tls_ok :: "nb_socket \<Rightarrow> bool" where
  "tls_ok s \<longleftrightarrow>
     (nb_state_of s \<in> {Needs_ssl_write_to_write, Needs_ssl_read_to_write} \<longrightarrow> nb_write_buffer s \<noteq> []) \<and>
     (nb_state_of s \<in> connecting_states \<longrightarrow> nb_mode_of s = Mode_connect) \<and>
     (nb_state_of s \<in> accepting_states \<longrightarrow> nb_mode_of s = Mode_accept)"

definition tls_stream :: "nb_socket \<Rightarrow> string" where
  "tls_stream s = concat (nb_sent s) @ concat (nb_write_buffer s)"

text \<open>A step of the socket keeps the bytes, and is never undefined.\<close>

definition tls_step :: "nb_socket res \<Rightarrow> nb_socket \<Rightarrow> bool" where
  "tls_step r s \<longleftrightarrow>
     (case r of
        Inl e \<Rightarrow> e \<noteq> Undefined_behaviour
      | Inr s' \<Rightarrow> tls_ok s' \<and> tls_stream s' = tls_stream s \<and> nb_mode_of s' = nb_mode_of s)"

lemma after_fault_step:
  assumes "tls_stream x = tls_stream s" and "nb_mode_of x = nb_mode_of s" and "tls_ok (x\<lparr>nb_state_of := on_read\<rparr>)" and "tls_ok (x\<lparr>nb_state_of := on_write\<rparr>)"
  shows "tls_step (after_fault fault name on_read on_write x) s"
  using assms by (auto simp: tls_step_def after_fault_def tls_stream_def split: ssl_fault.split ssl_code.split)

lemmas tls_simps = tls_ok_def tls_stream_def connecting_states_def accepting_states_def

lemma continue_handshake_step:
  assumes "tls_ok s" and "(states = connecting_states \<and> nb_mode_of s = Mode_connect \<and> on_read \<in> states \<and> on_write \<in> states) \<or>
      (states = accepting_states \<and> nb_mode_of s = Mode_accept \<and> on_read \<in> states \<and> on_write \<in> states)"
  shows "tls_step (continue_handshake first states r outcome name on_read on_write s) s"
proof -
  obtain m d where outcome: "outcome = (m, d)" by (metis surj_pair)
  have fault: "tls_step (after_fault f name on_read on_write (s\<lparr>nb_descriptor := d\<rparr>)) s" for f
    by (rule after_fault_step) (use assms in \<open>auto simp: tls_simps\<close>)
  have ready: "tls_step (Inr (s\<lparr>nb_descriptor := d, nb_state_of := Ready\<rparr>)) s"
    by (simp add: tls_step_def tls_simps)
  show ?thesis
    using fault ready by (cases m) (simp_all add: continue_handshake_def outcome tls_step_def)
qed

lemma continue_write_step:
  assumes "nb_write_buffer s \<noteq> []" and "nb_state_of s \<notin> connecting_states" and "nb_state_of s \<notin> accepting_states"
  shows "tls_step (continue_SSL_write r s) s"
proof -
  obtain message rest where buffer: "nb_write_buffer s = message # rest" using assms(1) by (cases "nb_write_buffer s") auto
  obtain m d where outcome: "secure_write (nb_state_of s = Needs_ssl_read_to_write) r (nb_descriptor s) = (m, d)"
    by (metis surj_pair)
  have fault: "tls_step (after_fault f name Needs_ssl_read_to_write Needs_ssl_write_to_write (s\<lparr>nb_descriptor := d\<rparr>)) s" for f name
    by (rule after_fault_step) (use assms in \<open>auto simp: tls_simps\<close>)
  then show ?thesis
    by (cases m) (auto simp: continue_SSL_write_def outcome buffer tls_step_def tls_simps)
qed

lemma continue_read_step: "tls_step (continue_SSL_read r s) s"
proof -
  obtain m d where outcome: "secure_read (nb_state_of s = Needs_ssl_write_to_read) r (nb_descriptor s) = (m, d)"
    by (metis surj_pair)
  have fault: "tls_step (after_fault f name Needs_ssl_read_to_read Needs_ssl_write_to_read (s\<lparr>nb_descriptor := d\<rparr>)) s" for f name
    by (rule after_fault_step) (auto simp: tls_simps)
  then show ?thesis by (cases m) (auto simp: continue_SSL_read_def outcome tls_step_def tls_simps)
qed

lemma continue_connect_step: "tls_ok s \<Longrightarrow> nb_mode_of s = Mode_connect \<Longrightarrow> tls_step (continue_SSL_connect r s) s"
  unfolding continue_SSL_connect_def by (rule continue_handshake_step) (auto simp: connecting_states_def)

lemma continue_accept_step: "tls_ok s \<Longrightarrow> nb_mode_of s = Mode_accept \<Longrightarrow> tls_step (continue_SSL_accept r s) s"
  unfolding continue_SSL_accept_def by (rule continue_handshake_step) (auto simp: accepting_states_def)

text \<open>What the two actions do with a TLS connection, as the loop does it.\<close>

lemma tls_write_step:
  assumes "tls_ok s" and "cn_transport x = Tls s" and "nb_mode_of s = Mode_connect"
  shows "case write_callback io fd x of
      Inl e \<Rightarrow> e \<noteq> Undefined_behaviour
    | Inr x' \<Rightarrow> \<exists>s'. cn_transport x' = Tls s' \<and> tls_ok s' \<and> nb_mode_of s' = Mode_connect \<and>
        tls_stream s' @ cn_write_buffer x' = tls_stream s @ cn_write_buffer x"
proof -
  let ?r = "io_ssl io fd Poll_out"
  have plain: ?thesis if "tls_step m s"
    and "write_callback io fd x = bind_res m (\<lambda>s'. Inr (x\<lparr>cn_transport := Tls s'\<rparr>))" for m
    using that assms(3) by (cases m) (auto simp: tls_step_def)
  consider "nb_state_of s \<in> connecting_states" | "nb_state_of s = Needs_ssl_write_to_write" | "nb_state_of s = Ready" "nb_write_buffer s \<noteq> []"
    | "nb_state_of s = Ready" "nb_write_buffer s = []" | "nb_state_of s = Needs_ssl_write_to_read"
    | "nb_state_of s \<notin> connecting_states \<union> {Needs_ssl_write_to_write, Ready, Needs_ssl_write_to_read}" by blast
  then show ?thesis
  proof cases
    case 1
    then show ?thesis
      using plain [OF continue_connect_step [OF assms(1,3), of ?r]] assms
      by (simp add: write_callback_def nb_out_callback_def connected_def bind_res_assoc)
  next
    case 2
    then have "tls_step (continue_SSL_write ?r s) s"
      using assms(1) by (intro continue_write_step) (auto simp: tls_simps)
    from plain [OF this] 2 assms show ?thesis
      by (simp add: write_callback_def nb_out_callback_def connected_def connecting_states_def bind_res_assoc)
  next
    case 3
    then have "tls_step (continue_SSL_write ?r s) s" by (intro continue_write_step) (auto simp: tls_simps)
    from plain [OF this] 3 assms show ?thesis
      by (simp add: write_callback_def nb_out_callback_def connected_def connecting_states_def something_to_write_def bind_res_assoc)
  next
    case 4
    let ?s = "ezwrite (cn_write_buffer x) s"
    have step: "tls_step (continue_SSL_write ?r ?s) ?s" using 4 by (intro continue_write_step) (auto simp: tls_simps ezwrite_def)
    have "write_callback io fd x =
      bind_res (continue_SSL_write ?r ?s) (\<lambda>s'. Inr (x\<lparr>cn_transport := Tls s', cn_write_buffer := []\<rparr>))"
      using 4 assms
      by (simp add: write_callback_def nb_out_callback_def connected_def connecting_states_def something_to_write_def bind_res_assoc)
    then show ?thesis
      using step assms(3) by (cases "continue_SSL_write ?r ?s") (auto simp: tls_step_def tls_stream_def ezwrite_def)
  next
    case 5
    with plain [OF continue_read_step [of ?r]] assms show ?thesis
      by (simp add: write_callback_def nb_out_callback_def connected_def connecting_states_def bind_res_assoc)
  next
    case 6
    with assms show ?thesis
      by (auto simp: write_callback_def nb_out_callback_def connected_def)
  qed
qed

lemma tls_read_step:
  assumes "tls_ok s" and "nb_mode_of s = Mode_connect"
  shows "case tls_read io fd s of
      Inl e \<Rightarrow> e \<noteq> Undefined_behaviour
    | Inr (data, s') \<Rightarrow> tls_ok s' \<and> nb_mode_of s' = Mode_connect \<and> tls_stream s' = tls_stream s"
proof -
  let ?r = "io_ssl io fd Poll_in"
  let ?m = "if nb_state_of s \<in> connecting_states then continue_SSL_connect ?r s
    else if nb_state_of s = Needs_ssl_read_to_write then continue_SSL_write ?r s
    else if nb_state_of s = Needs_ssl_read_to_read \<or> nb_state_of s = Ready then continue_SSL_read ?r s
    else Inl (Runtime_error ''unexpected state'')"
  have step: "tls_step ?m s"
  proof (cases "nb_state_of s = Needs_ssl_read_to_write")
    case True
    then have "tls_step (continue_SSL_write ?r s) s" using assms(1) by (intro continue_write_step) (auto simp: tls_simps)
    then show ?thesis using True by (simp add: connecting_states_def)
  next
    case False
    then show ?thesis
      using continue_connect_step [OF assms, of ?r] continue_read_step [of ?r s] by (simp add: tls_step_def)
  qed
  let ?next = "\<lambda>s'. if something_to_read s' then (case ezread s' of (data, s'') \<Rightarrow> Inr (Continue, s'', Some data))
    else Inr (Continue, s', None)"
  have read: "tls_read io fd s = bind_res (bind_res ?m ?next) (\<lambda>(_, s', data). Inr (data, s'))"
    unfolding tls_read_def nb_in_callback_def connected_def using assms(2) by (simp only: prod.case nb_mode.distinct Let_def) simp
  have "case bind_res (bind_res m ?next) (\<lambda>(_, s', data). Inr (data, s')) of
      Inl e \<Rightarrow> e \<noteq> Undefined_behaviour
    | Inr (data, s') \<Rightarrow> tls_ok s' \<and> nb_mode_of s' = Mode_connect \<and> tls_stream s' = tls_stream s" if "tls_step m s" for m
    using that assms(2) by (cases m) (auto simp: tls_step_def tls_ok_def tls_stream_def ezread_def)
  from this [OF step] show ?thesis by (simp only: read)
qed

section \<open>Runs of a TLS connection\<close>

text \<open>A connection as \<open>make_connection\<close> leaves it, and what is done to it: bytes are added to its buffer, and its
  two actions are served.\<close>

inductive tls_run :: "string \<Rightarrow> nat connection \<Rightarrow> bool" where
  tls_start: "make_connection True fd key (l :: (nat, http_client) event_loop) = (added, l') \<Longrightarrow> el_objects l' fd = Some x \<Longrightarrow> tls_run [] x"
| tls_enqueue: "tls_run t x \<Longrightarrow> tls_run (t @ message) (x\<lparr>cn_write_buffer := cn_write_buffer x @ message\<rparr>)"
| tls_out: "tls_run t x \<Longrightarrow> write_callback io fd x = Inr x' \<Longrightarrow> tls_run t x'"
| tls_in: "tls_run t x \<Longrightarrow> cn_transport x = Tls s \<Longrightarrow> tls_read io fd s = Inr (data, s') \<Longrightarrow>
    tls_run t (x\<lparr>cn_transport := Tls s'\<rparr>)"

lemma tls_run_ok:
  "tls_run t x \<Longrightarrow> \<exists>s. cn_transport x = Tls s \<and> tls_ok s \<and> nb_mode_of s = Mode_connect \<and> t = tls_stream s @ cn_write_buffer x"
proof (induction rule: tls_run.induct)
  case (tls_start fd key l added l' x)
  then have "x = \<lparr>cn_transport = Tls (nb_connect (new_nb_socket new_descriptor)), cn_write_buffer = [], cn_key = key\<rparr>"
    by (auto simp: make_connection_def add_connection_def set_object_def)
  then show ?case by (simp add: nb_connect_def new_nb_socket_def tls_simps)
next
  case (tls_enqueue t x message)
  then show ?case by auto
next
  case (tls_out t x io fd x')
  then obtain s where s: "cn_transport x = Tls s" "tls_ok s" "nb_mode_of s = Mode_connect" "t = tls_stream s @ cn_write_buffer x" by blast
  then show ?case using tls_write_step [OF s(2,1,3), of io fd] tls_out(2) by auto
next
  case (tls_in t x s io fd data s')
  then show ?case using tls_read_step [of s io fd] by auto
qed

text \<open>C6: whatever OpenSSL answers, and however reads and writes are mixed, the bytes given to a TLS connection are
  those that were sent, then those in the queue of messages, then those in the buffer, in the order they were
  given: no byte is lost, doubled or moved when a write would block or a handshake comes between; and neither action
  pops an empty queue.\<close>

theorem tls_stream_in_order:
  assumes "tls_run t x"
  shows "\<exists>s. cn_transport x = Tls s \<and> t = concat (nb_sent s) @ concat (nb_write_buffer s) @ cn_write_buffer x \<and>
    write_callback io fd x \<noteq> Inl Undefined_behaviour \<and> tls_read io fd s \<noteq> Inl Undefined_behaviour"
proof -
  obtain s where s: "cn_transport x = Tls s" "tls_ok s" "nb_mode_of s = Mode_connect" "t = tls_stream s @ cn_write_buffer x"
    using tls_run_ok [OF assms] by blast
  have "write_callback io fd x \<noteq> Inl Undefined_behaviour" using tls_write_step [OF s(2,1,3), of io fd] by (auto split: sum.splits)
  moreover have "tls_read io fd s \<noteq> Inl Undefined_behaviour" using tls_read_step [OF s(2,3), of io fd] by (auto split: sum.splits)
  ultimately show ?thesis using s by (auto simp: tls_stream_def)
qed

section \<open>What ends the program\<close>

text \<open>Actions of which nothing is reported are passed by.\<close>

lemma serve_all_quiet:
  assumes "\<forall>item \<in> set items. \<not> fs_error (k (pa_fd (fst item))) \<and> \<not> reported k (fst item)"
  shows "serve_all c k items v = Inr (None, v\<lparr>sv_seen := sv_seen v @ map fst items\<rparr>)"
  using assms by (induction items arbitrary: v) (auto simp: serve_def)

definition exits_well :: "loop_io \<Rightarrow> child_entry \<Rightarrow> bool" where
  "exits_well io e \<longleftrightarrow>
     \<not> cp_terminated (ce_process e) \<and>
     io_children io (ce_id e) = Some \<lparr>wi_pid = ce_pid e, wi_child = True, wi_code = CLD_EXITED, wi_status = 0\<rparr> \<and> ce_pid e \<noteq> 0"

lemma reap_all:
  assumes "list_all (exits_well io) es"
  shows "\<exists>l'. reap_children http_callbacks io [] es l = Inr l' \<and> el_children l' = [] \<and> el_open l' = el_open l"
  using assms
proof (induction es arbitrary: l)
  case Nil
  then show ?case by simp
next
  case (Cons e es)
  let ?l = "l\<lparr>el_client := (el_client l)\<lparr>hc_children := hc_children (el_client l) @ [(ce_id e, ce_name e, 0)]\<rparr>\<rparr>"
  have "reap_children http_callbacks io [] (e # es) l = reap_children http_callbacks io [] es ?l"
    using Cons.prems by (simp add: exits_well_def child_wait_def assert_res_def)
  then show ?case using Cons.IH [of ?l] Cons.prems by simp
qed

text \<open>Only the signals have something to report.\<close>

definition only_signals :: poll_kernel where
  "only_signals = (\<lambda>fd. \<lparr>fs_readable = (fd = 0), fs_writable = False, fs_error = False\<rparr>)"

definition signal_poll_action :: "loop_action poll_action" where
  "signal_poll_action = \<lparr>pa_fd = 0, pa_direction = Poll_in, pa_active = True, pa_what = Signal_action\<rparr>"

lemma poll_signal:
  assumes "po_actions p @ po_queue p = signal_poll_action # rest" and "\<forall>a \<in> set rest. pa_fd a \<noteq> 0" and "t \<noteq> 0"
    and "el_children l \<noteq> [] \<or> el_open l \<noteq> []" and "\<not> loop_eof 0 l" and "io_signal io = Inr sig"
  shows "poll_once http_callbacks io only_signals t (p, l) =
    bind_res (handle_signal http_callbacks io sig l) (\<lambda>(_, l').
      Inr (Poll_success, \<lparr>po_queue = [], po_actions = signal_poll_action # rest\<rparr>, l'))"
proof -
  let ?owner = "loop_owner http_callbacks io :: (loop_action, (nat, http_client) event_loop) poll_client"
  let ?items = "map (\<lambda>a. (a, wanted ?owner l a)) rest"
  have quiet: "\<forall>item \<in> set ?items. \<not> fs_error (only_signals (pa_fd (fst item))) \<and> \<not> reported only_signals (fst item)"
    using assms(2) by (auto simp: only_signals_def reported_def split: direction.splits)
  have signal: "wanted ?owner l signal_poll_action" "reported only_signals signal_poll_action"
    "\<not> fs_error (only_signals (pa_fd signal_poll_action))"
    using assms(4,5)
    by (auto simp: wanted_def signal_poll_action_def loop_owner_def loop_interested_def reported_def only_signals_def)
  have fsts: "map fst ?items = rest" by (simp add: comp_def)
  have served: "serve_all ?owner only_signals ((signal_poll_action, True) # ?items) v =
    bind_res (handle_signal http_callbacks io sig (sv_state v)) (\<lambda>(_, l').
      Inr (None, v\<lparr>sv_seen := sv_seen v @ signal_poll_action # rest, sv_state := l'\<rparr>))" for v
  proof (cases "handle_signal http_callbacks io sig (sv_state v)")
    case (Inl e)
    then show ?thesis
      using signal assms(6) by (simp add: serve_def loop_owner_def loop_callback_def signal_poll_action_def bind_res_assoc)
  next
    case (Inr q)
    obtain r l' where q: "q = (r, l')" by (metis surj_pair)
    have "r = Continue" using handle_signal_same Inr q by blast
    then have "serve ?owner only_signals (signal_poll_action, True) v =
      Inr (None, v\<lparr>sv_seen := sv_seen v @ [signal_poll_action], sv_state := l'\<rparr>)"
      using signal assms(6) Inr q
      by (simp add: serve_def loop_owner_def loop_callback_def signal_poll_action_def bind_res_assoc)
    then show ?thesis using fsts by (simp add: Inr q serve_all_quiet [OF quiet])
  qed
  have any: "list_ex snd ((signal_poll_action, True) # ?items)"
    "list_ex (\<lambda>(a, asked). fs_error (only_signals (pa_fd a)) \<or> asked \<and> reported only_signals a) ((signal_poll_action, True) # ?items)"
    using signal(2) by simp_all
  have items: "map (\<lambda>a. (a, wanted ?owner l a)) (signal_poll_action # rest) = (signal_poll_action, True) # ?items"
    using signal(1) by simp
  show ?thesis
    using assms(3) any
    by (simp only: poll_once_def poll_def prod.case Let_def assms(1) items served if_False simp_thms)
      (auto simp: bind_res_assoc case_prod_unfold remove_actions_def)
qed

text \<open>When all children end before the loop looks at them, a single \<open>SIGCHLD\<close> reaps them all; if the kernel then
  has another \<open>SIGCHLD\<close> of one of them in store while a connection is open, the next call of poll throws, and
  with it the program ends.\<close>

lemma late_sigchld_throws:
  assumes "po_actions p @ po_queue p = signal_poll_action # rest" and "list_all (\<lambda>a. pa_fd a \<noteq> 0) rest" and "t \<noteq> 0"
    and "el_children l \<noteq> []" and "list_all (exits_well io) (el_children l)" and "el_open l \<noteq> []" and "el_objects l 0 = None"
    and "io_signal io = Inr SIGCHLD"
  shows "\<exists>st'. poll_once http_callbacks io only_signals t (p, l) = Inr (Poll_success, st') \<and>
    poll_once http_callbacks io only_signals t st' =
      Inl (Runtime_error ''received SIGCHLD without any managed children'')"
proof -
  have others: "\<forall>a \<in> set rest. pa_fd a \<noteq> 0" using assms(2) by (simp add: list_all_iff)
  obtain l' where l': "reap_children http_callbacks io [] (el_children l) l = Inr l'" "el_children l' = []"
    "el_open l' = el_open l"
    using reap_all [OF assms(5)] by blast
  have same: "el_objects l' = el_objects l" using reap_children_same [OF l'(1)] by simp
  have eof: "\<not> loop_eof 0 l" "\<not> loop_eof 0 l'" using assms(7) same by (simp_all add: loop_eof_def)
  have first: "handle_signal http_callbacks io SIGCHLD l = Inr (Continue, l')"
    using assms(4) l'(1) by (simp add: handle_signal_def)
  have second: "handle_signal http_callbacks io SIGCHLD l' =
      Inl (Runtime_error ''received SIGCHLD without any managed children'')"
    using l'(2) by (simp add: handle_signal_def)
  let ?p' = "\<lparr>po_queue = [], po_actions = signal_poll_action # rest\<rparr>"
  have "poll_once http_callbacks io only_signals t (p, l) = Inr (Poll_success, ?p', l')"
    using poll_signal [OF assms(1) others assms(3) _ eof(1) assms(8)] assms(4) first by simp
  moreover have "poll_once http_callbacks io only_signals t (?p', l') =
      Inl (Runtime_error ''received SIGCHLD without any managed children'')"
    using poll_signal [of ?p' rest t l' io SIGCHLD] others assms(3,6,8) l'(3) eof(2) second by simp
  ultimately show ?thesis by blast
qed

lemma blocked_write:
  assumes "cn_transport x = Tls s" and "nb_state_of s = Ready" and "sa_value (io_ssl io fd Poll_out) = -1"
    and "sa_code (io_ssl io fd Poll_out) = Want_write"
  shows "\<exists>x' s'. write_callback io fd x = Inr x' \<and> cn_transport x' = Tls s' \<and> nb_state_of s' = Needs_ssl_write_to_write"
  using assms
  by (simp add: write_callback_def nb_out_callback_def connected_def connecting_states_def accepted_def accepting_states_def
      something_to_write_def ezwrite_def continue_SSL_write_def secure_write_def after_fault_def)

text \<open>A TLS connection that is ready and has something to write is asked for both directions; when the kernel
  reports both and \<open>SSL_write\<close> would block, the writing action leaves the socket in a state for which the
  reading action, which was asked for too, has no case: it throws, and with it the program ends.\<close>

lemma tls_blocked_write_throws:
  assumes "po_actions p @ po_queue p = signal_poll_action # connection_actions fd" and "t \<noteq> 0" and "fd \<noteq> 0"
    and "el_objects l fd = Some x" and "cn_transport x = Tls s" and "nb_state_of s = Ready" and "cn_write_buffer x \<noteq> []"
    and "\<not> de_eof (nb_descriptor s)"
    and "k 0 = \<lparr>fs_readable = False, fs_writable = False, fs_error = False\<rparr>"
    and "k fd = \<lparr>fs_readable = True, fs_writable = True, fs_error = False\<rparr>"
    and "sa_value (io_ssl io fd Poll_out) = -1" and "sa_code (io_ssl io fd Poll_out) = Want_write"
  shows "poll_once http_callbacks io k t (p, l) = Inl (Runtime_error ''unexpected state'')"
proof -
  let ?owner = "loop_owner http_callbacks io :: (loop_action, (nat, http_client) event_loop) poll_client"
  let ?out = "\<lparr>pa_fd = fd, pa_direction = Poll_out, pa_active = True, pa_what = Write_action fd\<rparr>"
  let ?in = "\<lparr>pa_fd = fd, pa_direction = Poll_in, pa_active = True, pa_what = Read_action fd\<rparr>"
  obtain x' s' where x': "write_callback io fd x = Inr x'" "cn_transport x' = Tls s'"
    "nb_state_of s' = Needs_ssl_write_to_write"
    using blocked_write [OF assms(5,6,11,12)] by blast
  have wanted: "wanted ?owner l ?out" "wanted ?owner l ?in"
    using assms(4-8) by (simp_all add: wanted_def loop_owner_def loop_interested_def out_interested_def in_interested_def loop_eof_def)
  have signal: "serve ?owner k (signal_poll_action, b) v = Inr (None, v\<lparr>sv_seen := sv_seen v @ [signal_poll_action]\<rparr>)" for b v
    using assms(9) by (simp add: serve_def signal_poll_action_def reported_def)
  have out: "serve ?owner k (?out, True) v = Inr (None, v\<lparr>sv_seen := sv_seen v @ [?out], sv_state := set_object fd x' l\<rparr>)"
    if "sv_state v = l" for v
    using that assms(4,10) x'(1)
    by (simp add: serve_def reported_def loop_owner_def loop_callback_def the_object_def)
  have "read_callback http_callbacks io fd x' l'' = Inl (Runtime_error ''unexpected state'')" for l''
    using x'(2,3)
    by (simp add: read_callback_def tls_read_def nb_in_callback_def connected_def connecting_states_def accepted_def accepting_states_def)
  then have input: "serve ?owner k (?in, True) v = Inl (Runtime_error ''unexpected state'')" if "sv_state v = set_object fd x' l" for v
    using that assms(10)
    by (simp add: serve_def reported_def loop_owner_def loop_callback_def the_object_def set_object_def)
  have items: "map (\<lambda>a. (a, wanted ?owner l a)) (signal_poll_action # connection_actions fd) =
      [(signal_poll_action, wanted ?owner l signal_poll_action), (?out, True), (?in, True)]"
    using wanted by (simp add: connection_actions_def)
  have some: "list_ex (\<lambda>(a, asked). fs_error (k (pa_fd a)) \<or> asked \<and> reported k a)
      [(signal_poll_action, wanted ?owner l signal_poll_action), (?out, True), (?in, True)]"
    using assms(10) by (simp add: reported_def)
  have served: "serve_all ?owner k [(signal_poll_action, wanted ?owner l signal_poll_action), (?out, True), (?in, True)]
      \<lparr>sv_seen = [], sv_queue = [], sv_remove = [], sv_state = l\<rparr> = Inl (Runtime_error ''unexpected state'')"
    by (simp add: signal out input)
  have asked: "list_ex snd [(signal_poll_action, wanted ?owner l signal_poll_action), (?out, True), (?in, True)]" by simp
  show ?thesis
    using assms(2) asked some
    by (simp only: poll_once_def poll_def prod.case Let_def assms(1) items served bind_res_Inl if_False simp_thms)
qed

text \<open>When the peer of a TLS connection closes it before the answer is complete, the loop does not tell anyone: the
  connection stays among the open ones, nothing is reported, and of its two actions neither is asked for again, so
  the request is answered neither with a response nor with a failure.\<close>

lemma tls_close_unnoticed:
  assumes "el_objects l fd = Some x" and "cn_transport x = Tls s" and "nb_state_of s = Ready" and "nb_read_buffer s = []"
    and "cn_write_buffer x = []" and "sa_value (io_ssl io fd Poll_in) = 0" and "sa_code (io_ssl io fd Poll_in) = Zero_return"
    and "\<not> sa_pending (io_ssl io fd Poll_in)"
  shows "\<exists>l'. loop_callback http_callbacks io (Read_action fd) l = Inr (Continue, [], l') \<and>
    el_open l' = el_open l \<and> hc_reports (el_client l') = hc_reports (el_client l) \<and>
    list_all (\<lambda>a. \<not> wanted (loop_owner http_callbacks io') l' a) (connection_actions fd)"
  using assms
  by (simp add: loop_callback_def the_object_def read_callback_def tls_read_def nb_in_callback_def connected_def
      connecting_states_def accepted_def accepting_states_def continue_SSL_read_def secure_read_def register_service_def
      something_to_read_def set_object_def wanted_def connection_actions_def loop_owner_def loop_interested_def loop_eof_def
      out_interested_def)

section \<open>At concrete runs\<close>

definition toy_request :: http_message where
  "toy_request = \<lparr>hm_expected = (True, 0), hm_first_line = ''GET /a HTTP/1.1'', hm_headers = [], hm_body = [],
     hm_state = COMPLETE\<rparr>"

definition toy_answer :: string where
  "toy_answer = ''HTTP/1.1 204 No Content'' @ CRLF @ CRLF"

definition toy_ssl_answer :: "int \<Rightarrow> ssl_code \<Rightarrow> ssl_answer" where
  "toy_ssl_answer v code = \<lparr>sa_value = v, sa_code = code, sa_data = [], sa_pending = False, sa_queue_empty = True,
     sa_socket_error = False\<rparr>"

definition toy_io :: loop_io where
  "toy_io = \<lparr>io_read = (\<lambda>fd. Inr toy_answer), io_written = (\<lambda>fd. Inr 100),
     io_ssl = (\<lambda>fd dir. toy_ssl_answer (-1) Want_write), io_signal = Inr SIGCHLD,
     io_children = (\<lambda>i. Some \<lparr>wi_pid = 77, wi_child = True, wi_code = CLD_EXITED, wi_status = 0\<rparr>),
     io_accepted = (\<lambda>fd. Inr 9)\<rparr>"

definition toy_kernel :: poll_kernel where
  "toy_kernel = (\<lambda>fd. \<lparr>fs_readable = (fd = 5), fs_writable = (fd = 5), fs_error = False\<rparr>)"

definition toy_requested :: "loop_action poller \<times> (nat, http_client) event_loop" where
  "toy_requested = snd (projr (make_http_request False 5 toy_request (start_loop new_http_client)))"

definition toy_answered :: "loop_action poller \<times> (nat, http_client) event_loop" where
  "toy_answered = snd (projr (poll_once http_callbacks toy_io toy_kernel (-1) toy_requested))"

lemma toy_request_made:
  "\<not> isl (make_http_request False 5 toy_request (start_loop new_http_client))" by code_simp

lemma toy_fresh: "fresh_fd 5 (start_loop new_http_client)"
  by (simp add: fresh_fd_def start_loop_def add_action_def new_poller_def new_event_loop_def)

lemma toy_poll_made: "\<not> isl (poll_once http_callbacks toy_io toy_kernel (-1) toy_requested)" by code_simp

lemma toy_polled: "fst (projr (poll_once http_callbacks toy_io toy_kernel (-1) toy_requested)) = Poll_success" by code_simp

lemma toy_reports: "map report_id (hc_reports (el_client (snd toy_answered))) = [0]" by code_simp

theorem requests_answered_once_witness:
  "loop_run toy_answered \<and> map report_id (hc_reports (el_client (snd toy_answered))) = [0] \<and>
    distinct (map report_id (hc_reports (el_client (snd toy_answered))))"
proof -
  obtain i where "make_http_request False 5 toy_request (start_loop new_http_client) = Inr (i, toy_requested)"
    using toy_request_made by (metis toy_requested_def isl_def sum.collapse(2) surjective_pairing)
  then have "loop_run toy_requested" by (rule run_request [OF run_start toy_fresh])
  moreover have "poll_once http_callbacks toy_io toy_kernel (-1) toy_requested = Inr (Poll_success, toy_answered)"
    using toy_poll_made toy_polled by (metis toy_answered_def isl_def sum.collapse(2) surjective_pairing)
  ultimately have run: "loop_run toy_answered" by (rule run_poll) simp
  then show ?thesis using requests_answered_once [of "fst toy_answered" "snd toy_answered"] toy_reports by simp
qed

text \<open>A handshake that is done, a write that would block, the same write done.\<close>

definition toy_tls_start :: "nat connection" where
  "toy_tls_start = the (el_objects (snd (make_connection True 5 (0 :: nat) (new_event_loop new_http_client))) 5)"

definition io_out :: "int \<Rightarrow> ssl_code \<Rightarrow> loop_io" where
  "io_out v code = toy_io\<lparr>io_ssl := (\<lambda>fd dir. toy_ssl_answer v code)\<rparr>"

definition toy_tls_ready :: "nat connection" where
  "toy_tls_ready = projr (write_callback (io_out 1 (Ssl_other 0)) 5 toy_tls_start)"

definition toy_tls_blocked :: "nat connection" where
  "toy_tls_blocked = projr (write_callback (io_out (-1) Want_write) 5 (toy_tls_ready\<lparr>cn_write_buffer := ''hello''\<rparr>))"

definition toy_tls_sent :: "nat connection" where
  "toy_tls_sent = projr (write_callback (io_out 5 (Ssl_other 0)) 5 (toy_tls_blocked\<lparr>cn_write_buffer := ''more''\<rparr>))"

lemma toy_tls_steps:
  "\<not> isl (write_callback (io_out 1 (Ssl_other 0)) 5 toy_tls_start)"
  "\<not> isl (write_callback (io_out (-1) Want_write) 5 (toy_tls_ready\<lparr>cn_write_buffer := ''hello''\<rparr>))"
  "\<not> isl (write_callback (io_out 5 (Ssl_other 0)) 5 (toy_tls_blocked\<lparr>cn_write_buffer := ''more''\<rparr>))"
  "cn_write_buffer toy_tls_ready = []" "cn_write_buffer toy_tls_blocked = []"
  by code_simp+

lemma toy_tls_sent_is:
  "case cn_transport toy_tls_sent of Tcp _ \<Rightarrow> False | Tls s \<Rightarrow> nb_sent s = [''hello''] \<and> nb_write_buffer s = []"
  "cn_write_buffer toy_tls_sent = ''more''"
  by code_simp+

lemma tls_out_step: "tls_run t x \<Longrightarrow> \<not> isl (write_callback io fd x) \<Longrightarrow> tls_run t (projr (write_callback io fd x))"
  by (rule tls_out) (auto intro: sum.collapse(2) [symmetric])

theorem tls_stream_in_order_witness:
  "tls_run ''hellomore'' toy_tls_sent \<and>
    (\<exists>s. cn_transport toy_tls_sent = Tls s \<and>
      ''hellomore'' = concat (nb_sent s) @ concat (nb_write_buffer s) @ cn_write_buffer toy_tls_sent)"
proof -
  have start: "tls_run [] toy_tls_start"
    by (rule tls_start [of 5 0 "new_event_loop new_http_client" "fst (make_connection True 5 0 (new_event_loop new_http_client))"
          "snd (make_connection True 5 0 (new_event_loop new_http_client))"])
      (simp_all add: toy_tls_start_def make_connection_def add_connection_def set_object_def)
  have ready: "tls_run [] toy_tls_ready"
    unfolding toy_tls_ready_def by (rule tls_out_step [OF start toy_tls_steps(1)])
  have "tls_run ''hello'' (toy_tls_ready\<lparr>cn_write_buffer := ''hello''\<rparr>)"
    using tls_enqueue [OF ready, of "''hello''"] toy_tls_steps(4) by simp
  then have blocked: "tls_run ''hello'' toy_tls_blocked"
    unfolding toy_tls_blocked_def by (rule tls_out_step [OF _ toy_tls_steps(2)])
  have "tls_run ''hellomore'' (toy_tls_blocked\<lparr>cn_write_buffer := ''more''\<rparr>)"
    using tls_enqueue [OF blocked, of "''more''"] toy_tls_steps(5) by simp
  then have sent: "tls_run ''hellomore'' toy_tls_sent"
    unfolding toy_tls_sent_def by (rule tls_out_step [OF _ toy_tls_steps(3)])
  then show ?thesis using tls_stream_in_order [OF sent, of toy_io 5] by blast
qed

text \<open>One child, one connection, and a signal of each call.\<close>

definition toy_waiting :: "(nat, http_client) event_loop" where
  "toy_waiting = (new_event_loop new_http_client)\<lparr>el_open := [5],
     el_children := [\<lparr>ce_id = 0, ce_throw = True, ce_name = ''child'', ce_pid = 77, ce_process = new_child\<rparr>]\<rparr>"

lemma late_sigchld_throws_witness:
  "\<exists>st'. poll_once http_callbacks toy_io only_signals (-1)
      (\<lparr>po_queue = connection_actions 5, po_actions = [signal_poll_action]\<rparr>, toy_waiting) = Inr (Poll_success, st') \<and>
    poll_once http_callbacks toy_io only_signals (-1) st' =
      Inl (Runtime_error ''received SIGCHLD without any managed children'')"
  by (rule late_sigchld_throws [of _ "connection_actions 5"])
    (simp_all add: connection_actions_def toy_waiting_def new_event_loop_def exits_well_def new_child_def toy_io_def)

definition toy_busy_socket :: nb_socket where
  "toy_busy_socket = (new_nb_socket new_descriptor)\<lparr>nb_mode_of := Mode_connect, nb_state_of := Ready\<rparr>"

definition toy_busy :: "(nat, http_client) event_loop" where
  "toy_busy = (new_event_loop new_http_client)\<lparr>el_open := [5],
     el_objects := [5 \<mapsto> \<lparr>cn_transport = Tls toy_busy_socket, cn_write_buffer = ''hello'', cn_key = 0\<rparr>]\<rparr>"

lemma tls_blocked_write_throws_witness:
  "poll_once http_callbacks toy_io toy_kernel (-1)
      (\<lparr>po_queue = connection_actions 5, po_actions = [signal_poll_action]\<rparr>, toy_busy) =
    Inl (Runtime_error ''unexpected state'')"
  by (rule tls_blocked_write_throws
      [of _ 5 _ _ "\<lparr>cn_transport = Tls toy_busy_socket, cn_write_buffer = ''hello'', cn_key = 0\<rparr>" toy_busy_socket])
    (simp_all add: toy_busy_def toy_busy_socket_def new_event_loop_def toy_io_def toy_kernel_def toy_ssl_answer_def
      new_nb_socket_def new_descriptor_def)

text \<open>The same connection after its request was written, closed by the peer.\<close>

lemma tls_close_unnoticed_witness:
  "\<exists>l'. loop_callback http_callbacks (io_out 0 Zero_return) (Read_action 5)
      (toy_busy\<lparr>el_objects := [5 \<mapsto> \<lparr>cn_transport = Tls toy_busy_socket, cn_write_buffer = [], cn_key = 0\<rparr>]\<rparr>) = Inr (Continue, [], l') \<and>
    el_open l' = [5] \<and> hc_reports (el_client l') = [] \<and>
    list_all (\<lambda>a. \<not> wanted (loop_owner http_callbacks toy_io) l' a) (connection_actions 5)"
  using tls_close_unnoticed
      [of "toy_busy\<lparr>el_objects := [5 \<mapsto> \<lparr>cn_transport = Tls toy_busy_socket, cn_write_buffer = [], cn_key = 0\<rparr>]\<rparr>" 5
        "\<lparr>cn_transport = Tls toy_busy_socket, cn_write_buffer = [], cn_key = 0\<rparr>" toy_busy_socket "io_out 0 Zero_return" toy_io]
  by (simp add: toy_busy_def toy_busy_socket_def new_event_loop_def io_out_def toy_io_def toy_ssl_answer_def
      new_nb_socket_def new_http_client_def)

end
