(* ===== verification/BinTools.thy ===== *)
theory BinTools
  imports GccModel
begin

text \<open>
  The models of the binary utilities (\<open>src/models/ar.cc\<close>, \<open>ranlib.cc\<close>, \<open>strip.cc\<close>, \<open>nm.cc\<close>, \<open>readelf.cc\<close>,
  \<open>ld.cc\<close>). The loops over the options are folds over what \<open>getopt\<close> returns: with a dash in front of the
  short options operands come in order, without one they are moved behind the options.
\<close>

section \<open>All that getopt returns\<close>

text \<open>Code, argument and the value of \<open>optind\<close> afterwards, in order.\<close>

type_synonym getopt_event = "int \<times> string option \<times> nat"

function getopt_events :: "string \<Rightarrow> long_option list \<Rightarrow> bool \<Rightarrow> getopt_state \<Rightarrow> getopt_event list" where
  "getopt_events optstring longopts long_only st =
     (case getopt optstring longopts long_only st of (opt, optarg, st') \<Rightarrow>
        if opt = opt_end then [] else (opt, optarg, gs_ind st') # getopt_events optstring longopts long_only st')"
  by auto
termination
  by (relation "measure (\<lambda>(optstring, longopts, long_only, st). left_over st)") (auto dest: getopt_uses [OF sym])

declare getopt_events.simps [simp del]

text \<open>With permutation: the options, the words they take, the operands. What follows a double dash are
  operands.\<close>

record permuted =
  pm_events :: "(int \<times> string option) list"
  pm_options :: "string list"
  pm_operands :: "string list"

function getopt_permute :: "string \<Rightarrow> long_option list \<Rightarrow> getopt_state \<Rightarrow> permuted \<Rightarrow> permuted" where
  "getopt_permute optstring longopts st r =
     (case getopt optstring longopts False st of (opt, optarg, st') \<Rightarrow>
        let taken = take (gs_ind st' - gs_ind st) (drop (gs_ind st) (gs_argv st))
        in if opt = opt_end then r\<lparr>pm_options := pm_options r @ take 1 taken, pm_operands := pm_operands r @ drop 1 taken\<rparr>
           else getopt_permute optstring longopts st'
                  (if opt = opt_operand then r\<lparr>pm_operands := pm_operands r @ taken\<rparr>
                   else r\<lparr>pm_events := pm_events r @ [(opt, optarg)], pm_options := pm_options r @ taken\<rparr>))"
  by auto
termination
  by (relation "measure (\<lambda>(optstring, longopts, st, r). left_over st)") (auto dest: getopt_uses [OF sym])

declare getopt_permute.simps [simp del]

definition first_word :: "string list \<Rightarrow> getopt_state" where
  "first_word argv = \<lparr>gs_argv = argv, gs_ind = 1, gs_next = []\<rparr>"

definition permute_words :: "string \<Rightarrow> long_option list \<Rightarrow> string list \<Rightarrow> permuted" where
  "permute_words optstring longopts argv =
     getopt_permute optstring longopts (first_word argv) \<lparr>pm_events = [], pm_options = [], pm_operands = []\<rparr>"

text \<open>The command line afterwards; \<open>optind\<close> then is the number of the first operand.\<close>

definition permuted_argv :: "string list \<Rightarrow> permuted \<Rightarrow> string list" where
  "permuted_argv argv r = take 1 argv @ pm_options r @ pm_operands r"

section \<open>What the models share\<close>

definition at_least_two :: "string list \<Rightarrow> unit res" where
  "at_least_two argv = (if length argv < 2 then Inl (Runtime_error ''not enough arguments'') else Inr ())"

text \<open>An operand that is not there is a null pointer.\<close>

definition operand :: "nat \<Rightarrow> permuted \<Rightarrow> string res" where
  "operand i r = (if i < length (pm_operands r) then Inr (pm_operands r ! i) else Inl Undefined_behaviour)"

definition the_argument :: "string option \<Rightarrow> string res" where
  "the_argument optarg = (case optarg of None \<Rightarrow> Inl Undefined_behaviour | Some x \<Rightarrow> Inr x)"

definition tool_options :: "32 word" where
  "tool_options = (opt_create_placeholder OR opt_collect_data OR opt_generate_manifest OR opt_include_filenames)"

definition tool_thunk ::
  "gcc_env \<Rightarrow> string \<Rightarrow> string list \<Rightarrow> factory_data list \<Rightarrow> string \<Rightarrow> string list \<Rightarrow> int \<Rightarrow> disk \<Rightarrow> (string \<times> disk) res" where
  "tool_thunk g program args data outfile dummy_dirs timeout d =
     (let w = ge_world g
      in bind_res (program_hash g program) (\<lambda>h.
         bind_res (program_data g program) (\<lambda>executable.
           generate (wd_sha256 w) (wd_encode w) (wd_kernel w) (wd_gg_dir w) \<lparr>fn_hash = h, fn_args = args, fn_envars = []\<rparr>
             data [executable] [make_output ''output'' (Some outfile)] dummy_dirs timeout tool_options [] d)))"

definition tool_args :: "gcc_env \<Rightarrow> string \<Rightarrow> string list \<Rightarrow> string list res" where
  "tool_args g program argv = bind_res (program_data g program) (\<lambda>p. args_to_vector argv (fd_filename p))"

definition AR_TIMEOUT :: int where "AR_TIMEOUT = VERY_SHORT_TIMEOUT"
definition STRIP_TIMEOUT :: int where "STRIP_TIMEOUT = VERY_SHORT_TIMEOUT"
definition RANLIB_TIMEOUT :: int where "RANLIB_TIMEOUT = VERY_SHORT_TIMEOUT"

section \<open>ranlib and strip\<close>

definition ranlib_model :: "gcc_env \<Rightarrow> string list \<Rightarrow> disk \<Rightarrow> (string \<times> disk) res" where
  "ranlib_model g argv d =
     (let r = permute_words [] [] argv
      in bind_res (at_least_two argv) (\<lambda>_.
         bind_res (operand 0 r) (\<lambda>archive.
         bind_res (tool_args g ''ranlib'' (permuted_argv argv r)) (\<lambda>args.
         bind_res (add_infile g archive ([], d)) (\<lambda>(data, d1).
           tool_thunk g ''ranlib'' args data archive [] RANLIB_TIMEOUT d1)))))"

definition strip_output :: "(int \<times> string option) list \<Rightarrow> string res" where
  "strip_output events =
     fold_res (\<lambda>(opt, optarg) out. if opt = char_val CHR ''o'' then the_argument optarg else Inr out) events []"

definition strip_model :: "gcc_env \<Rightarrow> string list \<Rightarrow> disk \<Rightarrow> (string \<times> disk) res" where
  "strip_model g argv d =
     (let r = permute_words ''o:wN:'' [] argv
      in bind_res (at_least_two argv) (\<lambda>_.
         bind_res (strip_output (pm_events r)) (\<lambda>out.
         bind_res (operand 0 r) (\<lambda>stripf.
         bind_res (tool_args g ''strip'' (permuted_argv argv r)) (\<lambda>args.
         bind_res (add_infile g stripf ([], d)) (\<lambda>(data, d1).
           tool_thunk g ''strip'' args data (if out = [] then stripf else out) [] STRIP_TIMEOUT d1))))))"

section \<open>ar\<close>

definition PLUGIN_FLAG :: int where "PLUGIN_FLAG = 1000"

definition ar_long_options :: "long_option list" where
  "ar_long_options = [\<lparr>lo_name = ''plugin'', lo_has_arg = Required_argument, lo_val = PLUGIN_FLAG\<rparr>]"

text \<open>The letters of the old form become options of their own, the last one first.\<close>

definition dash_letters :: "string list \<Rightarrow> string list res" where
  "dash_letters argv =
     (case argv of
        a0 # word # rest \<Rightarrow>
          Inr (if take 1 word = ''-'' then argv else a0 # map (\<lambda>c. [CHR ''-'', c]) (rev word) @ rest)
      | _ \<Rightarrow> Inl Undefined_behaviour)"

record ar_state =
  ar_relpos :: bool
  ar_count :: bool
  ar_members_infile :: bool
  ar_data :: "factory_data list"
  ar_disk :: disk

definition ar_option :: "gcc_env \<Rightarrow> int \<times> string option \<Rightarrow> ar_state \<Rightarrow> ar_state res" where
  "ar_option g event s =
     (case event of (opt, optarg) \<Rightarrow>
        if opt \<in> {char_val CHR ''a'', char_val CHR ''b'', char_val CHR ''i''} then Inr (s\<lparr>ar_relpos := True\<rparr>)
        else if opt = char_val CHR ''N'' then Inr (s\<lparr>ar_count := True\<rparr>)
        else if opt = char_val CHR ''p'' then Inl (Runtime_error ''model for operation print not implemented'')
        else if opt = char_val CHR ''x'' then Inl (Runtime_error ''model for operation extract not implemented'')
        else if opt = char_val CHR ''t'' then Inl (Runtime_error ''model for operation table not implemented'')
        else if opt = char_val CHR ''T'' then Inl (Runtime_error ''model for thin archives not implemented'')
        else if opt \<in> {char_val CHR ''d'', char_val CHR ''m''} then Inr (s\<lparr>ar_members_infile := False\<rparr>)
        else if opt = PLUGIN_FLAG then
          bind_res (the_argument optarg) (\<lambda>file.
          bind_res (add_infile g file (ar_data s, ar_disk s)) (\<lambda>(data, d).
            Inr (s\<lparr>ar_data := data, ar_disk := d\<rparr>)))
        else Inr s)"

definition ar_model ::
  "nat \<Rightarrow> gcc_env \<Rightarrow> (string \<Rightarrow> string list option) \<Rightarrow> string list \<Rightarrow> disk \<Rightarrow> (string \<times> disk) res" where
  "ar_model fuel g wordexp argv d =
     bind_res (at_least_two argv) (\<lambda>_.
     bind_res (expand_args fuel d wordexp [] argv) (\<lambda>expanded.
     bind_res (dash_letters expanded) (\<lambda>argv'.
     bind_res (tool_args g ''ar'' argv') (\<lambda>original_args.
       let r = permute_words ''abiNpxtTdms'' ar_long_options argv'
       in bind_res (fold_res (ar_option g) (pm_events r)
                     \<lparr>ar_relpos = False, ar_count = False, ar_members_infile = True, ar_data = [], ar_disk = d\<rparr>) (\<lambda>s.
          let i = (if ar_relpos s then 1 else 0) + (if ar_count s then 1 else 0)
          in bind_res (operand i r) (\<lambda>outfile.
             bind_res (fold_res (add_infile g) (if ar_members_infile s then drop (i + 1) (pm_operands r) else [])
                        (ar_data s, ar_disk s)) (\<lambda>(data, d1).
             bind_res (if path_exists outfile d1 then add_infile g outfile (data, d1) else Inr (data, d1)) (\<lambda>(data', d2).
               tool_thunk g ''ar'' original_args data' outfile [] AR_TIMEOUT d2))))))))"

section \<open>nm and readelf\<close>

definition command_str :: "string list \<Rightarrow> string" where
  "command_str words = join CHR '' '' words"

text \<open>The operands are the inputs; options that are not allowed are errors.\<close>

definition list_input :: "gcc_env \<Rightarrow> string \<Rightarrow> getopt_event \<Rightarrow> factory_data list \<times> disk \<Rightarrow> (factory_data list \<times> disk) res" where
  "list_input g allowed event st =
     (case event of (opt, optarg, _) \<Rightarrow>
        if opt = opt_operand then bind_res (the_argument optarg) (\<lambda>file. add_infile g file st)
        else if opt \<in> set (map char_val allowed) then Inr st
        else Inl (Runtime_error ''unsupported option''))"

definition list_output :: "gcc_env \<Rightarrow> string \<Rightarrow> string list \<Rightarrow> factory_data list \<Rightarrow> string res" where
  "list_output g program argv data =
     bind_res (program_data g program) (\<lambda>p.
       Inr (''# output from gg wrapper for '' @ program @ [newline]
            @ program @ '' '' @ command_str (drop 1 argv) @ [newline]
            @ fd_hash p @ ''='' @ program @ [newline]
            @ concat (map (\<lambda>x. fd_hash x @ ''='' @ fd_filename x @ [newline]) data)))"

definition nm_long_options :: "long_option list" where
  "nm_long_options = [\<lparr>lo_name = ''format'', lo_has_arg = Required_argument, lo_val = char_val CHR ''f''\<rparr>]"

definition nm_model :: "gcc_env \<Rightarrow> string list \<Rightarrow> disk \<Rightarrow> (string \<times> disk) res" where
  "nm_model g argv d =
     bind_res (if length argv < 1 then Inl (Runtime_error ''not enough arguments'') else Inr ()) (\<lambda>_.
     bind_res (fold_res (list_input g ''fgD'') (getopt_events ''f:gD'' nm_long_options False (first_word argv)) ([], d)) (\<lambda>st.
     bind_res (if fst st = [] then add_infile g ''a.out'' st else Inr st) (\<lambda>(data, d').
     bind_res (list_output g ''nm'' argv data) (\<lambda>out. Inr (out, d')))))"

definition readelf_model :: "gcc_env \<Rightarrow> string list \<Rightarrow> disk \<Rightarrow> (string \<times> disk) res" where
  "readelf_model g argv d =
     bind_res (at_least_two argv) (\<lambda>_.
     bind_res (fold_res (list_input g ''d'') (getopt_events ''d'' [] False (first_word argv)) ([], d)) (\<lambda>(data, d').
     bind_res (if data = [] then Inl (Runtime_error ''no inputs'') else Inr ()) (\<lambda>_.
     bind_res (list_output g ''readelf'' argv data) (\<lambda>out. Inr (out, d')))))"

section \<open>ld\<close>

datatype ld_option =
  No_undefined | Nostdlib | Pie | Start_group | End_group | Whole_archive | No_whole_archive | Build_id

definition ld_value :: "ld_option \<Rightarrow> int" where
  "ld_value x =
     (case x of No_undefined \<Rightarrow> 1000 | Nostdlib \<Rightarrow> 1001 | Pie \<Rightarrow> 1002 | Start_group \<Rightarrow> 1003 | End_group \<Rightarrow> 1004
      | Whole_archive \<Rightarrow> 1005 | No_whole_archive \<Rightarrow> 1006 | Build_id \<Rightarrow> 1007)"

definition ld_long_options :: "long_option list" where
  "ld_long_options = map (\<lambda>(name, arg, val). \<lparr>lo_name = name, lo_has_arg = arg, lo_val = val\<rparr>)
     [(''entry'', Required_argument, char_val CHR ''e''),
      (''no-undefined'', No_argument, ld_value No_undefined),
      (''nostdlib'', No_argument, ld_value Nostdlib),
      (''output'', Required_argument, char_val CHR ''o''),
      (''relocatable'', No_argument, char_val CHR ''r''),
      (''emit-relocs'', No_argument, char_val CHR ''q''),
      (''script'', Required_argument, char_val CHR ''T''),
      (''pie'', No_argument, ld_value Pie),
      (''start-group'', No_argument, ld_value Start_group),
      (''end-group'', No_argument, ld_value End_group),
      (''whole-archive'', No_argument, ld_value Whole_archive),
      (''no-whole-archive'', No_argument, ld_value No_whole_archive),
      (''build-id'', Optional_argument, ld_value Build_id)]"

definition ld_optstring :: string where "ld_optstring = ''rql:o:e:m:z:T:''"

text \<open>The words of the question are those that are no inputs; the indices of the inputs are used up from the
  front.\<close>

fun ld_words :: "nat \<Rightarrow> string list \<Rightarrow> nat list \<Rightarrow> string list \<times> nat list" where
  "ld_words i [] inputs = ([], inputs)"
| "ld_words i (a # rest) inputs =
     (case inputs of
        j # js \<Rightarrow>
          if j = i then ld_words (i + 1) rest js
          else (case ld_words (i + 1) rest inputs of (words, left) \<Rightarrow>
                  (if a \<noteq> ''--as-needed'' then a # words else words, left))
      | [] \<Rightarrow>
          (case ld_words (i + 1) rest inputs of (words, left) \<Rightarrow>
             (if a \<noteq> ''--as-needed'' then a # words else words, left)))"

definition ld_question :: "string list \<Rightarrow> nat list \<Rightarrow> string list res" where
  "ld_question argv inputs =
     (case ld_words 1 (drop 1 argv) inputs of (words, left) \<Rightarrow>
        bind_res (assert_res (left = [])) (\<lambda>_. Inr (''ld'' # words @ [''--verbose''])))"

definition ld_dependencies :: "gcc_env \<Rightarrow> string list \<Rightarrow> nat list \<Rightarrow> disk \<Rightarrow> (string list \<times> disk) res" where
  "ld_dependencies g argv inputs d = bind_res (ld_question argv inputs) (\<lambda>args. parse_linker_output g args d)"

record ld_state =
  ld_no_stdlib :: bool
  ld_outfile :: string
  ld_indata :: "factory_data list"
  ld_inputs :: "nat list"
  ld_disk :: disk

text \<open>Only an unknown option gets to the second switch.\<close>

definition ld_second_switch :: "string list \<Rightarrow> int \<Rightarrow> nat \<Rightarrow> ld_state \<Rightarrow> ld_state res" where
  "ld_second_switch argv opt optind s =
     (if opt = ld_value Nostdlib then Inr (s\<lparr>ld_no_stdlib := True\<rparr>)
      else if opt \<in> ld_value ` {Start_group, End_group, Whole_archive, No_whole_archive, Build_id, No_undefined, Pie} then Inr s
      else Inl (Runtime_error (''unknown option: '' @ argv ! (optind - 1))))"

definition ld_option_step :: "gcc_env \<Rightarrow> string list \<Rightarrow> getopt_event \<Rightarrow> ld_state \<Rightarrow> ld_state res" where
  "ld_option_step g argv event s =
     (case event of (opt, optarg, optind) \<Rightarrow>
        let infile = (\<lambda>s. bind_res (the_argument optarg) (\<lambda>file.
               bind_res (add_infile g file (ld_indata s, ld_disk s)) (\<lambda>(data, d).
                 Inr (s\<lparr>ld_indata := data, ld_disk := d\<rparr>))))
        in if opt = opt_operand then
             bind_res (infile s) (\<lambda>s'. Inr (s'\<lparr>ld_inputs := ld_inputs s' @ [optind - 1]\<rparr>))
           else if opt = char_val CHR ''o'' then bind_res (the_argument optarg) (\<lambda>out. Inr (s\<lparr>ld_outfile := out\<rparr>))
           else if opt = char_val CHR ''T'' then infile s
           else if opt = opt_unknown then ld_second_switch argv opt optind s
           else Inr s)"

definition ld_args :: "gcc_env \<Rightarrow> bool \<Rightarrow> string \<Rightarrow> string list \<Rightarrow> string list" where
  "ld_args g no_stdlib program original_args =
     program #
     (if no_stdlib then []
      else ''-nostdlib'' # concat (map (\<lambda>dir. [''-L'' @ dir, ''-rpath-link'', dir]) (ge_ld_search_path g))) @
     drop 1 original_args"

definition ld_options :: "gcc_env \<Rightarrow> string list \<Rightarrow> disk \<Rightarrow> ld_state res" where
  "ld_options g argv d =
     fold_res (ld_option_step g argv) (getopt_events ld_optstring ld_long_options True (first_word argv))
       \<lparr>ld_no_stdlib = False, ld_outfile = [], ld_indata = [], ld_inputs = [], ld_disk = d\<rparr>"

definition ld_model :: "gcc_env \<Rightarrow> string list \<Rightarrow> disk \<Rightarrow> (string \<times> disk) res" where
  "ld_model g argv d =
     bind_res (at_least_two argv) (\<lambda>_.
     bind_res (args_to_vector argv []) (\<lambda>original_args.
     bind_res (ld_options g argv d) (\<lambda>s.
     bind_res (ld_dependencies g argv (ld_inputs s) (ld_disk s)) (\<lambda>(dependencies, d1).
     bind_res (fold_res (add_infile g) dependencies (ld_indata s, d1)) (\<lambda>(indata, d2).
     bind_res (program_data g ''ld'') (\<lambda>p.
       tool_thunk g ''ld'' (ld_args g (ld_no_stdlib s) (fd_filename p) original_args) indata (ld_outfile s)
         (if ld_no_stdlib s then [] else ge_ld_search_path g) LINK_TIMEOUT d2))))))"

end
