(* ===== verification/BinToolsLaws.thy ===== *)
theory BinToolsLaws
  imports BinTools GccLaws "HOL-Library.Multiset"
begin

text \<open>
  Laws of the models of the binary utilities: the loop of \<open>getopt\<close> neither loses nor invents words, the
  question that \<open>ld\<close> is asked is its command line without the inputs, and what becomes of the options.
\<close>

section \<open>The loop of getopt over the words\<close>

text \<open>The position stays within the command line; when an argument is left half read it is one of it.\<close>

definition getopt_within :: "getopt_state \<Rightarrow> bool" where
  "getopt_within st \<longleftrightarrow> gs_ind st \<le> length (gs_argv st) \<and> (gs_next st \<noteq> [] \<longrightarrow> gs_ind st < length (gs_argv st))"

text \<open>A step forward from one state to another over the same words.\<close>

definition getopt_forward :: "getopt_state \<Rightarrow> getopt_state \<Rightarrow> bool" where
  "getopt_forward st st' \<longleftrightarrow> gs_argv st' = gs_argv st \<and> gs_ind st \<le> gs_ind st' \<and> getopt_within st'"

lemma found_long_forward:
  assumes "found_long optstring p rest st = (opt, optarg, st')" and "gs_ind st < length (gs_argv st)"
  shows "getopt_forward st st'"
  using assms by (auto simp: found_long_def getopt_forward_def getopt_within_def Let_def split: if_splits)

lemma process_long_cases:
  assumes "process_long_option optstring longopts long_only dashdash next st = Some r"
  shows "r = (opt_unknown, None, st\<lparr>gs_ind := gs_ind st + 1, gs_next := []\<rparr>) \<or>
    (\<exists>p \<in> set longopts. \<exists>rest. found_long optstring p rest st = r)"
  using assms by (auto simp: process_long_option_def Let_def filter_eq_Cons_iff split: list.splits if_splits)

lemma process_long_forward:
  assumes "process_long_option optstring longopts long_only dashdash next st = Some (opt, optarg, st')"
    and "gs_ind st < length (gs_argv st)"
  shows "getopt_forward st st'"
proof -
  have "getopt_forward st (st\<lparr>gs_ind := gs_ind st + 1, gs_next := []\<rparr>)"
    using assms(2) by (simp add: getopt_forward_def getopt_within_def)
  then show ?thesis using process_long_cases [OF assms(1)] found_long_forward [OF _ assms(2)] by blast
qed

lemma short_option_forward:
  assumes "short_option optstring st = (opt, optarg, st')" and "gs_ind st < length (gs_argv st)"
  shows "getopt_forward st st'"
  using assms by (auto simp: short_option_def getopt_forward_def getopt_within_def Let_def split: if_splits)

text \<open>An operand is one whole word; no other code is that of an operand.\<close>

definition plain_codes :: "string \<Rightarrow> long_option list \<Rightarrow> bool" where
  "plain_codes optstring longopts \<longleftrightarrow>
     list_all (\<lambda>c. char_val c \<noteq> opt_operand) optstring \<and> list_all (\<lambda>p. lo_val p \<noteq> opt_operand) longopts"

lemma found_long_code:
  assumes "found_long optstring p rest st = (opt, optarg, st')" and "lo_val p \<noteq> opt_operand"
  shows "opt \<noteq> opt_operand"
  using assms by (auto simp: found_long_def missing_code_def char_val_def opt_unknown_def opt_operand_def Let_def split: if_splits)

lemma process_long_code:
  assumes "process_long_option optstring longopts long_only dashdash next st = Some (opt, optarg, st')"
    and "plain_codes optstring longopts"
  shows "opt \<noteq> opt_operand"
proof -
  have val: "lo_val p \<noteq> opt_operand" if "p \<in> set longopts" for p
    using that assms(2) by (auto simp: plain_codes_def list_all_iff)
  have "opt_unknown \<noteq> opt_operand" by (simp add: opt_unknown_def opt_operand_def)
  then show ?thesis using process_long_cases [OF assms(1)] val found_long_code by (metis Pair_inject)
qed

lemma short_option_code:
  assumes "short_option optstring st = (opt, optarg, st')" and "plain_codes optstring longopts"
  shows "opt \<noteq> opt_operand"
proof -
  have member: "char_val c \<noteq> opt_operand" if "dropWhile (\<lambda>x. x \<noteq> c) optstring \<noteq> []" for c
  proof -
    have "c \<in> set optstring"
      using that by (metis (mono_tags, lifting) dropWhile_eq_Nil_conv)
    then show ?thesis using assms(2) by (simp add: plain_codes_def list_all_iff)
  qed
  show ?thesis
    using assms(1) member [of "hd (gs_next st)"]
    by (auto simp: short_option_def missing_code_def char_val_def opt_unknown_def opt_operand_def Let_def split: if_splits)
qed

text \<open>What one call does.\<close>

lemma getopt_step:
  assumes "getopt optstring longopts long_only st = (opt, optarg, st')" and "getopt_within st"
  shows "getopt_forward st st' \<and>
    (opt = opt_operand \<longrightarrow> plain_codes optstring longopts \<longrightarrow>
       gs_ind st < length (gs_argv st) \<and> optarg = Some (gs_argv st ! gs_ind st) \<and> gs_ind st' = gs_ind st + 1 \<and> gs_next st' = [])"
proof (cases "gs_next st = []")
  case False
  then have ind: "gs_ind st < length (gs_argv st)" using assms(2) by (simp add: getopt_within_def)
  have "short_option optstring st = (opt, optarg, st')" using assms(1) False by (simp add: getopt_def)
  from short_option_forward [OF this ind] short_option_code [OF this] show ?thesis by blast
next
  case next_empty: True
  show ?thesis
  proof (cases "gs_ind st < length (gs_argv st)")
    case False
    then show ?thesis
      using assms next_empty by (auto simp: getopt_def getopt_forward_def opt_end_def opt_operand_def)
  next
    case ind: True
    let ?a = "gs_argv st ! gs_ind st"
    consider "?a = ''--''" | "?a \<noteq> ''--''" "is_operand ?a" | "?a \<noteq> ''--''" "\<not> is_operand ?a" by blast
    then show ?thesis
    proof cases
      case 1
      then show ?thesis
        using assms(1) next_empty ind getopt_double_dash [of st optstring longopts long_only]
        by (auto simp: getopt_forward_def getopt_within_def opt_end_def opt_operand_def)
    next
      case 2
      then show ?thesis
        using assms(1) next_empty ind getopt_operand [of st optstring longopts long_only]
        by (auto simp: getopt_forward_def getopt_within_def)
    next
      case 3
      let ?short = "short_option optstring (st\<lparr>gs_next := drop 1 ?a\<rparr>)"
      have "?short = (opt, optarg, st') \<or> (\<exists>dd nx. process_long_option optstring longopts long_only dd nx st = Some (opt, optarg, st'))"
        using assms(1) next_empty ind 3 by (auto simp: getopt_def Let_def split: if_splits option.splits)
      then show ?thesis
      proof
        assume short: "?short = (opt, optarg, st')"
        have "getopt_forward (st\<lparr>gs_next := drop 1 ?a\<rparr>) st'" using short_option_forward [OF short] ind by simp
        then show ?thesis using short_option_code [OF short] by (auto simp: getopt_forward_def)
      next
        assume "\<exists>dd nx. process_long_option optstring longopts long_only dd nx st = Some (opt, optarg, st')"
        then show ?thesis using process_long_forward process_long_code ind by blast
      qed
    qed
  qed
qed

section \<open>The operands among what getopt returns\<close>

definition operand_indices :: "getopt_event list \<Rightarrow> nat list" where
  "operand_indices events = map (\<lambda>(opt, optarg, optind). optind - 1) (filter (\<lambda>(opt, optarg, optind). opt = opt_operand) events)"

lemma operand_indices_simps [simp]:
  "operand_indices [] = []"
  "operand_indices ((opt, optarg, optind) # events) =
     (if opt = opt_operand then (optind - 1) # operand_indices events else operand_indices events)"
  by (simp_all add: operand_indices_def)

text \<open>Their indices rise, and each event has the word at its index.\<close>

lemma getopt_events_operands:
  assumes "getopt_within st" and "plain_codes optstring longopts"
  shows "sorted_wrt (<) (operand_indices (getopt_events optstring longopts long_only st)) \<and>
    (\<forall>i \<in> set (operand_indices (getopt_events optstring longopts long_only st)). gs_ind st \<le> i \<and> i < length (gs_argv st)) \<and>
    (\<forall>(opt, optarg, optind) \<in> set (getopt_events optstring longopts long_only st).
       opt = opt_operand \<longrightarrow> optarg = Some (gs_argv st ! (optind - 1)))"
  using assms
proof (induction optstring longopts long_only st rule: getopt_events.induct)
  case (1 optstring longopts long_only st)
  obtain opt optarg st' where call: "getopt optstring longopts long_only st = (opt, optarg, st')" by (metis surj_pair)
  note step = getopt_step [OF call "1.prems"(1)]
  show ?case
  proof (cases "opt = opt_end")
    case True
    then show ?thesis by (simp add: getopt_events.simps [of _ _ _ st] call)
  next
    case False
    have events: "getopt_events optstring longopts long_only st =
        (opt, optarg, gs_ind st') # getopt_events optstring longopts long_only st'"
      using False by (simp add: getopt_events.simps [of _ _ _ st] call)
    have forward: "gs_argv st' = gs_argv st" "gs_ind st \<le> gs_ind st'" "getopt_within st'"
      using step by (simp_all add: getopt_forward_def)
    note later = "1.IH" [OF call [symmetric] refl False forward(3) "1.prems"(2), unfolded forward(1)]
    have here: "gs_ind st < length (gs_argv st)" "optarg = Some (gs_argv st ! gs_ind st)" "gs_ind st' = gs_ind st + 1"
      if "opt = opt_operand" using step that "1.prems"(2) by simp_all
    show ?thesis unfolding events using later here forward(2) by auto
  qed
qed

section \<open>ld\<close>

lemma ld_words_exact:
  assumes "sorted_wrt (<) js" and "\<forall>j \<in> set js. i \<le> j \<and> j < length argv"
  shows "ld_words i (drop i argv) js =
    (filter (\<lambda>a. a \<noteq> ''--as-needed'') (map (nth argv) (filter (\<lambda>k. k \<notin> set js) [i..<length argv])), [])"
  using assms
proof (induction "length argv - i" arbitrary: i js)
  case 0
  then show ?case by (cases js) auto
next
  case (Suc n)
  then have i: "i < length argv" by simp
  then have words: "drop i argv = argv ! i # drop (i + 1) argv" by (simp add: Cons_nth_drop_Suc)
  have upt: "[i..<length argv] = i # [i + 1..<length argv]" using i by (simp add: upt_conv_Cons)
  have n: "n = length argv - (i + 1)" using Suc.hyps(2) by simp
  show ?case
  proof (cases js)
    case Nil
    then show ?thesis using Suc.hyps(1) [OF n, of "[]"] by (simp add: words upt del: upt_Suc)
  next
    case (Cons j js')
    show ?thesis
    proof (cases "j = i")
      case True
      have "\<forall>x \<in> set js'. i + 1 \<le> x \<and> x < length argv" "sorted_wrt (<) js'" using Suc.prems Cons True by auto
      moreover have "filter (\<lambda>k. k \<notin> set js) [i + 1..<length argv] = filter (\<lambda>k. k \<notin> set js') [i + 1..<length argv]"
        using Cons True by (intro filter_cong) auto
      ultimately show ?thesis using Suc.hyps(1) [OF n, of js'] Cons True by (simp add: words upt del: upt_Suc)
    next
      case False
      have "\<forall>x \<in> set js. i + 1 \<le> x \<and> x < length argv" using Suc.prems Cons False by fastforce
      moreover have "i \<notin> set js" using Suc.prems Cons False by fastforce
      ultimately show ?thesis
        using Suc.hyps(1) [OF n, of js] Suc.prems(1) Cons False by (simp add: words upt del: upt_Suc)
    qed
  qed
qed

lemma ld_option_fields:
  assumes "ld_option_step g argv (opt, optarg, optind) s = Inr s'"
  shows "ld_no_stdlib s' = ld_no_stdlib s \<and>
    ld_inputs s' = (if opt = opt_operand then ld_inputs s @ [optind - 1] else ld_inputs s)"
  using assms
  by (auto simp: ld_option_step_def ld_second_switch_def ld_value_def opt_operand_def opt_unknown_def char_val_def Let_def
      split: if_splits)

lemma ld_options_fields:
  assumes "fold_res (ld_option_step g argv) events s = Inr s'"
  shows "ld_no_stdlib s' = ld_no_stdlib s \<and> ld_inputs s' = ld_inputs s @ operand_indices events"
  using assms
proof (induction events arbitrary: s)
  case Nil
  then show ?case by simp
next
  case (Cons event events)
  obtain opt optarg optind where event: "event = (opt, optarg, optind)" by (metis surj_pair)
  from Cons.prems obtain s1 where "ld_option_step g argv (opt, optarg, optind) s = Inr s1"
    "fold_res (ld_option_step g argv) events s1 = Inr s'" by (auto simp: event)
  then show ?case using Cons.IH ld_option_fields by (fastforce simp: event)
qed

lemma ld_codes: "plain_codes ld_optstring ld_long_options" by code_simp

lemma first_word_within: "argv \<noteq> [] \<Longrightarrow> getopt_within (first_word argv)"
  by (cases argv) (auto simp: getopt_within_def first_word_def)

text \<open>C20: whatever the command line, once its options are accepted the question that the linker is asked for its
  dependencies is the command line without the input files and without \<open>--as-needed\<close>, every other word in its place;
  the assertion that all inputs have been passed never fails.\<close>

theorem ld_question_exact:
  assumes "argv \<noteq> []" and "ld_options g argv d = Inr s"
  shows "ld_question argv (ld_inputs s) =
    Inr (''ld'' # filter (\<lambda>a. a \<noteq> ''--as-needed'')
                    (map (nth argv) (filter (\<lambda>i. i \<notin> set (ld_inputs s)) [1..<length argv])) @ [''--verbose''])"
proof -
  let ?events = "getopt_events ld_optstring ld_long_options True (first_word argv)"
  have "ld_inputs s = operand_indices ?events"
    using ld_options_fields [OF assms(2) [unfolded ld_options_def]] by simp
  moreover note getopt_events_operands [OF first_word_within [OF assms(1)] ld_codes, of True]
  ultimately have inputs: "sorted_wrt (<) (ld_inputs s)" "\<forall>i \<in> set (ld_inputs s). 1 \<le> i \<and> i < length argv"
    by (simp_all add: first_word_def)
  show ?thesis using ld_words_exact [OF inputs] by (simp add: ld_question_def)
qed

text \<open>The option \<open>-nostdlib\<close> has no effect on the model of the linker: whatever the command line, the flag it is
  to set is still unset after the options, so the search path of the toolchain is put in front of the arguments.\<close>

lemma ld_nostdlib_ignored:
  assumes "ld_options g argv d = Inr s"
  shows "ld_args g (ld_no_stdlib s) program words =
    program # ''-nostdlib'' # concat (map (\<lambda>dir. [''-L'' @ dir, ''-rpath-link'', dir]) (ge_ld_search_path g)) @ drop 1 words"
  using ld_options_fields [OF assms [unfolded ld_options_def]] by (simp add: ld_args_def)

section \<open>The permuting loop\<close>

text \<open>A call that is at the end has nothing left.\<close>

lemma getopt_at_end:
  assumes "getopt optstring longopts long_only st = (opt_end, optarg, st')" and "getopt_within st"
    and "list_all (\<lambda>p. lo_val p \<noteq> opt_end) longopts"
  shows "gs_ind st' = length (gs_argv st)"
proof -
  have short: "opt \<noteq> opt_end" if "short_option optstring x = (opt, a, y)" for x opt a y
    using that by (auto simp: short_option_def missing_code_def char_val_def opt_unknown_def opt_end_def Let_def split: if_splits)
  have found: "opt \<noteq> opt_end" if "found_long optstring p rest x = (opt, a, y)" "p \<in> set longopts" for p rest x opt a y
    using that assms(3)
    by (auto simp: found_long_def missing_code_def char_val_def opt_unknown_def opt_end_def list_all_iff Let_def split: if_splits)
  have unknown: "opt_unknown \<noteq> opt_end" by (simp add: opt_unknown_def opt_end_def)
  have long: "opt \<noteq> opt_end" if "process_long_option optstring longopts long_only dd nx x = Some (opt, a, y)" for dd nx x opt a y
    using process_long_cases [OF that] found unknown by (metis Pair_inject)
  have no_short: "short_option optstring x \<noteq> (opt_end, a, y)" for x a y using short by blast
  have no_long: "process_long_option optstring longopts long_only dd nx x \<noteq> Some (opt_end, a, y)" for dd nx x a y
    using long by blast
  show ?thesis
    using assms(1,2) no_short no_long
    by (auto simp: getopt_def getopt_within_def opt_operand_def opt_end_def Let_def split: if_splits option.splits)
qed

text \<open>It loses no word and invents none.\<close>

lemma getopt_permute_mset:
  assumes "getopt_within st" and "list_all (\<lambda>p. lo_val p \<noteq> opt_end) longopts"
  shows "mset (pm_options (getopt_permute optstring longopts st r)) + mset (pm_operands (getopt_permute optstring longopts st r)) =
    mset (pm_options r) + mset (pm_operands r) + mset (drop (gs_ind st) (gs_argv st))"
  using assms
proof (induction optstring longopts st r rule: getopt_permute.induct)
  case (1 optstring longopts st r)
  obtain opt optarg st' where call: "getopt optstring longopts False st = (opt, optarg, st')" by (metis surj_pair)
  let ?taken = "take (gs_ind st' - gs_ind st) (drop (gs_ind st) (gs_argv st))"
  have forward: "gs_argv st' = gs_argv st" "gs_ind st \<le> gs_ind st'" "getopt_within st'"
    using getopt_step [OF call "1.prems"(1)] by (simp_all add: getopt_forward_def)
  have split: "mset (drop (gs_ind st) (gs_argv st)) = mset ?taken + mset (drop (gs_ind st') (gs_argv st))"
  proof -
    have "drop (gs_ind st) (gs_argv st) = ?taken @ drop (gs_ind st' - gs_ind st) (drop (gs_ind st) (gs_argv st))"
      by (rule append_take_drop_id [symmetric])
    also have "drop (gs_ind st' - gs_ind st) (drop (gs_ind st) (gs_argv st)) = drop (gs_ind st') (gs_argv st)"
      using forward(2) by simp
    finally show ?thesis by (metis mset_append)
  qed
  show ?case
  proof (cases "opt = opt_end")
    case True
    then have "drop (gs_ind st') (gs_argv st) = []" using getopt_at_end call "1.prems" by simp
    moreover have "mset (take 1 ?taken) + mset (drop 1 ?taken) = mset ?taken" by (metis append_take_drop_id mset_append)
    ultimately have taken: "mset (drop (gs_ind st) (gs_argv st)) = mset (take 1 ?taken) + mset (drop 1 ?taken)"
      unfolding split by (simp only: mset.simps add_0_right)
    have eq: "getopt_permute optstring longopts st r =
        r\<lparr>pm_options := pm_options r @ take 1 ?taken, pm_operands := pm_operands r @ drop 1 ?taken\<rparr>"
      using True by (simp add: getopt_permute.simps [of _ _ st] call)
    show ?thesis unfolding eq taken by simp
  next
    case False
    let ?r = "if opt = opt_operand then r\<lparr>pm_operands := pm_operands r @ ?taken\<rparr>
      else r\<lparr>pm_events := pm_events r @ [(opt, optarg)], pm_options := pm_options r @ ?taken\<rparr>"
    have eq: "getopt_permute optstring longopts st r = getopt_permute optstring longopts st' ?r"
      using False by (simp add: getopt_permute.simps [of _ _ st] call)
    have r: "mset (pm_options ?r) + mset (pm_operands ?r) = mset (pm_options r) + mset (pm_operands r) + mset ?taken"
      by simp
    show ?thesis
      using "1.IH" [OF call [symmetric] refl refl False forward(3) "1.prems"(2)]
      unfolding eq split forward(1) r by simp
  qed
qed

lemma permute_words_mset:
  assumes "argv \<noteq> []" and "list_all (\<lambda>p. lo_val p \<noteq> opt_end) longopts"
  shows "mset (permuted_argv argv (permute_words optstring longopts argv)) = mset argv"
proof -
  have "mset argv = mset (take 1 argv) + mset (drop 1 argv)" by (metis append_take_drop_id mset_append)
  then show ?thesis
    using getopt_permute_mset [OF first_word_within [OF assms(1)] assms(2)]
    by (simp add: permuted_argv_def permute_words_def first_word_def)
qed

section \<open>ar in its old form\<close>

text \<open>Words that are not response files expand to themselves.\<close>

lemma expand_plain:
  assumes "list_all (\<lambda>w. take 1 w \<noteq> ''@'') args" and "length args < fuel"
  shows "expand_args fuel d wordexp kept args = Inr (kept @ args)"
  using assms
proof (induction args arbitrary: fuel kept)
  case Nil
  then show ?case by (cases fuel) auto
next
  case (Cons a args)
  then show ?case by (cases fuel) auto
qed

text \<open>Letters that change nothing.\<close>

definition harmless :: "char \<Rightarrow> bool" where
  "harmless c \<longleftrightarrow> c \<notin> set ''abiNpxtTdm-''"

lemma ar_letter:
  assumes "gs_next st = []" and "gs_ind st < length (gs_argv st)" and "gs_argv st ! gs_ind st = [CHR ''-'', c]" and "harmless c"
  shows "\<exists>opt. getopt ''abiNpxtTdms'' ar_long_options False st = (opt, None, st\<lparr>gs_ind := gs_ind st + 1\<rparr>) \<and>
    (opt = opt_unknown \<or> opt = char_val CHR ''s'')"
  using assms
  by (auto simp: getopt_def is_operand_def short_option_def harmless_def opt_unknown_def Let_def split: if_splits)

definition quiet_event :: "int \<times> string option \<Rightarrow> bool" where
  "quiet_event e \<longleftrightarrow> fst e = opt_unknown \<or> fst e = char_val CHR ''s''"

lemma ar_quiet: "list_all quiet_event events \<Longrightarrow> fold_res (ar_option g) events s = Inr s"
proof (induction events)
  case Nil
  then show ?case by simp
next
  case (Cons e events)
  then have "ar_option g e s = Inr s"
    by (cases e) (auto simp: quiet_event_def ar_option_def opt_unknown_def char_val_def PLUGIN_FLAG_def)
  then show ?case using Cons by simp
qed

lemma permute_operands:
  assumes "list_all is_operand (drop i argv)" and "i \<le> length argv"
  shows "getopt_permute optstring longopts \<lparr>gs_argv = argv, gs_ind = i, gs_next = []\<rparr> r =
    r\<lparr>pm_operands := pm_operands r @ drop i argv\<rparr>"
  using assms
proof (induction "length argv - i" arbitrary: i r)
  case 0
  let ?st = "\<lparr>gs_argv = argv, gs_ind = i, gs_next = []\<rparr>"
  have "getopt optstring longopts False ?st = (opt_end, None, ?st)" using 0 by (simp add: getopt_def)
  then show ?case using 0 by (simp add: getopt_permute.simps [of _ _ ?st])
next
  case (Suc n)
  let ?st = "\<lparr>gs_argv = argv, gs_ind = i, gs_next = []\<rparr>"
  have i: "i < length argv" using Suc.hyps(2) by simp
  then have words: "drop i argv = argv ! i # drop (i + 1) argv" by (simp add: Cons_nth_drop_Suc)
  have "getopt optstring longopts False ?st = (opt_operand, Some (argv ! i), ?st\<lparr>gs_ind := i + 1\<rparr>)"
    using getopt_operand [of ?st] i words Suc.prems(1) by simp
  then show ?case
    using Suc.hyps(1) [of "i + 1"] Suc.hyps(2) i Suc.prems(1)
    by (simp add: getopt_permute.simps [of _ _ ?st] words opt_operand_def opt_end_def)
qed

lemma permute_letters:
  assumes "list_all harmless cs" and "drop i argv = map (\<lambda>c. [CHR ''-'', c]) cs @ rest" and "list_all is_operand rest"
    and "i \<le> length argv" and "list_all quiet_event (pm_events r)"
  shows "\<exists>r'. getopt_permute ''abiNpxtTdms'' ar_long_options \<lparr>gs_argv = argv, gs_ind = i, gs_next = []\<rparr> r = r' \<and>
    list_all quiet_event (pm_events r') \<and> pm_operands r' = pm_operands r @ rest"
  using assms
proof (induction cs arbitrary: i r)
  case Nil
  then show ?case using permute_operands [of i argv] by simp
next
  case (Cons c cs)
  let ?st = "\<lparr>gs_argv = argv, gs_ind = i, gs_next = []\<rparr>"
  have i: "i < length argv" using Cons.prems(2) by (cases "i < length argv") auto
  have "argv ! i # drop (Suc i) argv = [CHR ''-'', c] # map (\<lambda>c. [CHR ''-'', c]) cs @ rest"
    using Cons.prems(2) by (simp add: Cons_nth_drop_Suc [OF i])
  then have words: "argv ! i = [CHR ''-'', c]" "drop (i + 1) argv = map (\<lambda>c. [CHR ''-'', c]) cs @ rest" by simp_all
  obtain opt where call: "getopt ''abiNpxtTdms'' ar_long_options False ?st = (opt, None, ?st\<lparr>gs_ind := i + 1\<rparr>)"
    and opt: "opt = opt_unknown \<or> opt = char_val CHR ''s''"
    using ar_letter [of ?st c] i words(1) Cons.prems(1) by auto
  let ?r = "r\<lparr>pm_events := pm_events r @ [(opt, None)], pm_options := pm_options r @ take 1 (drop i argv)\<rparr>"
  have "getopt_permute ''abiNpxtTdms'' ar_long_options ?st r =
      getopt_permute ''abiNpxtTdms'' ar_long_options \<lparr>gs_argv = argv, gs_ind = i + 1, gs_next = []\<rparr> ?r"
    using opt by (auto simp: getopt_permute.simps [of _ _ ?st] call opt_unknown_def opt_end_def opt_operand_def char_val_def)
  moreover have "quiet_event (opt, None)" using opt by (simp add: quiet_event_def)
  then have "list_all quiet_event (pm_events ?r)" using Cons.prems(5) by simp
  ultimately show ?case using Cons.IH [of "i + 1" ?r] Cons.prems(1,3) words(2) i by simp
qed

text \<open>\<open>ar\<close> in its old form with letters that only add or replace members: the letters become options of their
  own, and the thunk reads the members in their order and, when there is one, the archive; its output is the archive.
  Nothing else is read, and no argument is lost.\<close>

lemma ar_old_form:
  assumes "list_all harmless letters" and "list_all is_operand (archive # members)"
    and "list_all (\<lambda>w. take 1 w \<noteq> ''@'') (a0 # letters # archive # members)" and "length members + 3 < fuel"
  shows "ar_model fuel g wordexp (a0 # letters # archive # members) d =
    bind_res (tool_args g ''ar'' (a0 # map (\<lambda>c. [CHR ''-'', c]) (rev letters) @ archive # members)) (\<lambda>args.
    bind_res (fold_res (add_infile g) members ([], d)) (\<lambda>(data, d1).
    bind_res (if path_exists archive d1 then add_infile g archive (data, d1) else Inr (data, d1)) (\<lambda>(data', d2).
      tool_thunk g ''ar'' args data' archive [] AR_TIMEOUT d2)))"
proof -
  let ?argv = "a0 # map (\<lambda>c. [CHR ''-'', c]) (rev letters) @ archive # members"
  let ?r = "permute_words ''abiNpxtTdms'' ar_long_options ?argv"
  have "take 1 letters \<noteq> ''-''" using assms(1) by (cases letters) (auto simp: harmless_def)
  then have dash: "dash_letters (a0 # letters # archive # members) = Inr ?argv" by (simp add: dash_letters_def)
  have expand: "expand_args fuel d wordexp [] (a0 # letters # archive # members) = Inr (a0 # letters # archive # members)"
    using expand_plain [OF assms(3)] assms(4) by simp
  have "list_all harmless (rev letters)" using assms(1) by (simp add: list_all_iff)
  from permute_letters [OF this, of 1 ?argv "archive # members" "\<lparr>pm_events = [], pm_options = [], pm_operands = []\<rparr>"]
  have r: "list_all quiet_event (pm_events ?r)" "pm_operands ?r = archive # members"
    using assms(2) by (simp_all add: permute_words_def first_word_def)
  show ?thesis
    unfolding ar_model_def by (simp add: at_least_two_def expand dash Let_def ar_quiet [OF r(1)] operand_def r(2))
qed

text \<open>\<open>strip\<close> and \<open>ranlib\<close> hand on every word of the command line.\<close>

lemma tool_words_kept:
  assumes "argv \<noteq> []" and "tool_args g program (permuted_argv argv (permute_words optstring [] argv)) = Inr args"
  shows "mset (drop 1 args) = mset (drop 1 argv)"
proof -
  let ?p = "permuted_argv argv (permute_words optstring [] argv)"
  have all: "mset ?p = mset argv" using permute_words_mset [OF assms(1)] by simp
  have "take 1 ?p = take 1 argv" using assms(1) by (cases argv) (simp_all add: permuted_argv_def)
  then have "mset (drop 1 ?p) = mset (drop 1 argv)"
    using all by (metis append_take_drop_id mset_append add_left_cancel)
  moreover have "drop 1 args = drop 1 ?p"
    using assms(2) by (auto simp: tool_args_def args_to_vector_def drop_Suc split: if_splits)
  ultimately show ?thesis by simp
qed

section \<open>At concrete command lines\<close>

definition toy_ld_words :: "string list" where
  "toy_ld_words = [''ld'', ''-nostdlib'', ''a.s'', ''-e'', ''start'', ''a.s'']"

lemma toy_ld_accepts: "\<not> isl (ld_options toy_gcc_env toy_ld_words toy_files)" by code_simp

lemma toy_ld_inputs: "ld_inputs (projr (ld_options toy_gcc_env toy_ld_words toy_files)) = [2, 5]" by code_simp

theorem ld_question_exact_witness:
  "ld_question toy_ld_words [2, 5] = Inr [''ld'', ''-nostdlib'', ''-e'', ''start'', ''--verbose'']"
proof -
  obtain s where s: "ld_options toy_gcc_env toy_ld_words toy_files = Inr s" using toy_ld_accepts sum.collapse(2) by metis
  have "ld_inputs s = [2, 5]" using toy_ld_inputs by (simp add: s)
  then show ?thesis using ld_question_exact [OF _ s] by (simp add: toy_ld_words_def upt_rec)
qed

lemma ld_nostdlib_ignored_witness:
  "ld_args toy_gcc_env (ld_no_stdlib (projr (ld_options toy_gcc_env toy_ld_words toy_files))) ''ld'' toy_ld_words =
    [''ld'', ''-nostdlib'', ''-L/l'', ''-rpath-link'', ''/l''] @ drop 1 toy_ld_words"
proof -
  obtain s where s: "ld_options toy_gcc_env toy_ld_words toy_files = Inr s" using toy_ld_accepts sum.collapse(2) by metis
  have path: "ge_ld_search_path toy_gcc_env = [''/l'']" by (simp add: toy_gcc_env_def)
  show ?thesis using ld_nostdlib_ignored [OF s, of "''ld''" toy_ld_words] by (simp add: s path)
qed

lemma ar_old_form_witness:
  "ar_model 9 toy_gcc_env (\<lambda>_. None) [''ar'', ''rcs'', ''lib.a'', ''a.s''] toy_files =
    bind_res (tool_args toy_gcc_env ''ar'' [''ar'', ''-s'', ''-c'', ''-r'', ''lib.a'', ''a.s'']) (\<lambda>args.
    bind_res (fold_res (add_infile toy_gcc_env) [''a.s''] ([], toy_files)) (\<lambda>(data, d1).
    bind_res (if path_exists ''lib.a'' d1 then add_infile toy_gcc_env ''lib.a'' (data, d1) else Inr (data, d1)) (\<lambda>(data', d2).
      tool_thunk toy_gcc_env ''ar'' args data' ''lib.a'' [] AR_TIMEOUT d2)))"
  using ar_old_form [of "''rcs''" "''lib.a''" "[''a.s'']" "''ar''" 9 toy_gcc_env "\<lambda>_. None" toy_files]
  by (simp add: harmless_def is_operand_def)

end
