(* ===== verification/Generic.thy ===== *)
theory Generic
  imports BinToolsLaws
begin

text \<open>
  The model of any program, from a description of its command line: \<open>src/models/cli_description.cc\<close> and
  \<open>generic.cc\<close>. The description says which options and operands name input files and output files.
\<close>

section \<open>The description\<close>

datatype cli_type = Do_not_care | In_file | Out_file

record cli_option =
  co_value :: int
  co_short :: "char option"
  co_long :: "string option"
  co_type :: cli_type

record cli_description =
  cd_target_bin :: string
  cd_options :: "cli_option list"
  cd_infile_args :: "nat list"
  cd_outfile_args :: "nat list"

definition cli_type_of :: "string \<Rightarrow> cli_type" where
  "cli_type_of s = (if s = ''@outfile'' then Out_file else if s = ''@infile'' then In_file else Do_not_care)"

definition cli_name :: "string \<Rightarrow> cli_option \<Rightarrow> cli_option res" where
  "cli_name optname x =
     (if take 2 optname = ''--'' then Inr (x\<lparr>co_long := Some (drop 2 optname)\<rparr>)
      else if take 1 optname = ''-'' \<and> 1 < length optname
           then Inr (x\<lparr>co_value := char_val (optname ! 1), co_short := Some (optname ! 1)\<rparr>)
      else Inl (Runtime_error ''invalid option specification''))"

definition cli_option_of :: "string \<Rightarrow> int \<Rightarrow> cli_option res" where
  "cli_option_of token opt_val =
     (case split token ''='' of
        [names, ty] \<Rightarrow>
          fold_res cli_name (split names '','')
            \<lparr>co_value = opt_val, co_short = None, co_long = None, co_type = cli_type_of ty\<rparr>
      | _ \<Rightarrow> Inl (Runtime_error ''invalid option specification''))"

text \<open>The state of the loop: the description so far, the number of operands and the next value.\<close>

definition cli_token :: "string \<Rightarrow> cli_description \<times> nat \<times> int \<Rightarrow> (cli_description \<times> nat \<times> int) res" where
  "cli_token token st =
     (case st of (c, arg_ind, opt_val) \<Rightarrow>
        if take 1 token = ''-'' then
          bind_res (cli_option_of token opt_val) (\<lambda>x. Inr (c\<lparr>cd_options := cd_options c @ [x]\<rparr>, arg_ind, opt_val + 1))
        else if token = ''@infile'' then Inr (c\<lparr>cd_infile_args := cd_infile_args c @ [arg_ind]\<rparr>, arg_ind + 1, opt_val)
        else if token = ''@outfile'' then Inr (c\<lparr>cd_outfile_args := cd_outfile_args c @ [arg_ind]\<rparr>, arg_ind + 1, opt_val)
        else if token = ''@'' then Inr (c, arg_ind + 1, opt_val)
        else Inl (Runtime_error ''unexpected token in description''))"

definition cli_description_of :: "string \<Rightarrow> cli_description res" where
  "cli_description_of description =
     (case split description '' '' of
        [] \<Rightarrow> Inl (Runtime_error ''invalid description'')
      | target # tokens \<Rightarrow>
          bind_res (fold_res cli_token tokens
              (\<lparr>cd_target_bin = target, cd_options = [], cd_infile_args = [], cd_outfile_args = []\<rparr>, 0, 1000))
            (\<lambda>(c, _). Inr c))"

section \<open>The command line\<close>

definition cli_optstring :: "cli_description \<Rightarrow> string" where
  "cli_optstring c =
     concat (map (\<lambda>x. case co_short x of None \<Rightarrow> [] | Some s \<Rightarrow> [s, CHR '':'']) (cd_options c))"

definition cli_long_options :: "cli_description \<Rightarrow> long_option list" where
  "cli_long_options c =
     concat (map (\<lambda>x. case co_long x of
                        None \<Rightarrow> []
                      | Some n \<Rightarrow> [\<lparr>lo_name = n, lo_has_arg = Required_argument, lo_val = co_value x\<rparr>]) (cd_options c))"

record generic_state =
  gc_args :: "string list"
  gc_indata :: "factory_data list"
  gc_outfiles :: "string list"
  gc_pos_args :: "nat list"
  gc_disk :: disk

definition set_arg :: "nat \<Rightarrow> string \<Rightarrow> string list \<Rightarrow> string list res" where
  "set_arg i w args = (if i < length args then Inr (args[i := w]) else Inl Undefined_behaviour)"

definition word_at :: "nat \<Rightarrow> string list \<Rightarrow> string res" where
  "word_at i args = (if i < length args then Inr (args ! i) else Inl Undefined_behaviour)"

text \<open>A file is read under an empty name, and the word becomes its placeholder.\<close>

definition generic_infile :: "gcc_env \<Rightarrow> string \<Rightarrow> nat \<Rightarrow> generic_state \<Rightarrow> generic_state res" where
  "generic_infile g file i s =
     bind_res (data_of g [] file Value [] (gc_disk s)) (\<lambda>(x, d).
     bind_res (set_arg i (data_placeholder (fd_hash x)) (gc_args s)) (\<lambda>args.
       Inr (s\<lparr>gc_args := args, gc_indata := gc_indata s @ [x], gc_disk := d\<rparr>)))"

definition generic_option :: "gcc_env \<Rightarrow> int \<Rightarrow> string option \<Rightarrow> nat \<Rightarrow> cli_option \<Rightarrow> generic_state \<Rightarrow> generic_state res" where
  "generic_option g opt optarg optind x s =
     (if co_value x \<noteq> opt then Inr s
      else case co_type x of
             Out_file \<Rightarrow> bind_res (the_argument optarg) (\<lambda>out. Inr (s\<lparr>gc_outfiles := gc_outfiles s @ [out]\<rparr>))
           | In_file \<Rightarrow> bind_res (the_argument optarg) (\<lambda>file. generic_infile g file (optind - 1) s)
           | Do_not_care \<Rightarrow> Inr s)"

definition generic_event :: "gcc_env \<Rightarrow> cli_description \<Rightarrow> getopt_event \<Rightarrow> generic_state \<Rightarrow> generic_state res" where
  "generic_event g c event s =
     (case event of (opt, optarg, optind) \<Rightarrow>
        if opt = opt_unknown then Inr s
        else if opt = opt_operand then Inr (s\<lparr>gc_pos_args := gc_pos_args s @ [optind - 1]\<rparr>)
        else fold_res (generic_option g opt optarg optind) (cd_options c) s)"

definition pos_arg :: "nat \<Rightarrow> generic_state \<Rightarrow> nat res" where
  "pos_arg idx s =
     (if idx < length (gc_pos_args s) then Inr (gc_pos_args s ! idx)
      else Inl (Runtime_error ''missing positional argument''))"

definition generic_pos_infile :: "gcc_env \<Rightarrow> string list \<Rightarrow> nat \<Rightarrow> generic_state \<Rightarrow> generic_state res" where
  "generic_pos_infile g argv idx s =
     bind_res (pos_arg idx s) (\<lambda>i. bind_res (word_at i argv) (\<lambda>file. generic_infile g file i s))"

definition generic_pos_outfile :: "nat \<Rightarrow> generic_state \<Rightarrow> generic_state res" where
  "generic_pos_outfile idx s =
     bind_res (pos_arg idx s) (\<lambda>i. bind_res (word_at i (gc_args s)) (\<lambda>out. Inr (s\<lparr>gc_outfiles := gc_outfiles s @ [out]\<rparr>)))"

definition generic_extra :: "gcc_env \<Rightarrow> string \<Rightarrow> generic_state \<Rightarrow> generic_state res" where
  "generic_extra g file s =
     bind_res (data_of g [] file Value [] (gc_disk s)) (\<lambda>(x, d). Inr (s\<lparr>gc_indata := gc_indata s @ [x], gc_disk := d\<rparr>))"

text \<open>The words, the inputs and the outputs that the thunk gets. \<open>argv\<close> starts with the description.\<close>

definition generic_words :: "gcc_env \<Rightarrow> cli_description \<Rightarrow> string list \<Rightarrow> disk \<Rightarrow> generic_state res" where
  "generic_words g c argv d =
     bind_res (rbasename (cd_target_bin c)) (\<lambda>name.
     bind_res (args_to_vector argv name) (\<lambda>args.
     bind_res (fold_res (generic_event g c) (getopt_events (cli_optstring c) (cli_long_options c) False (first_word argv))
                 \<lparr>gc_args = args, gc_indata = [], gc_outfiles = [], gc_pos_args = [], gc_disk = d\<rparr>) (\<lambda>s1.
     bind_res (fold_res (generic_pos_infile g argv) (cd_infile_args c) s1) (\<lambda>s2.
     bind_res (fold_res generic_pos_outfile (cd_outfile_args c) s2) (\<lambda>s3.
     bind_res (Inr (if gc_outfiles s3 = [] then s3\<lparr>gc_outfiles := [''out'']\<rparr> else s3)) (\<lambda>s4.
       case wd_environ (ge_world g) ''GG_GENERIC_EXTRA'' of
         None \<Rightarrow> Inr s4
       | Some extras \<Rightarrow> fold_res (generic_extra g) (split extras '':'') s4))))))"

definition NO_TIMEOUT :: int where "NO_TIMEOUT = 0"

definition generic_model :: "gcc_env \<Rightarrow> string list \<Rightarrow> disk \<Rightarrow> (string \<times> disk) res" where
  "generic_model g argv d =
     (case argv of
        _ # description # _ \<Rightarrow>
          bind_res (cli_description_of description) (\<lambda>c.
          bind_res (generic_words g c (drop 1 argv) d) (\<lambda>s.
          bind_res (rbasename (cd_target_bin c)) (\<lambda>name.
          bind_res (data_of g name (cd_target_bin c) Value [] (gc_disk s)) (\<lambda>(executable, d1).
            let w = ge_world g
            in generate (wd_sha256 w) (wd_encode w) (wd_kernel w) (wd_gg_dir w)
                 \<lparr>fn_hash = fd_hash executable, fn_args = gc_args s, fn_envars = []\<rparr>
                 (gc_indata s) [executable] (map (\<lambda>out. make_output out None) (gc_outfiles s)) []
                 NO_TIMEOUT (opt_create_placeholder OR opt_collect_data) [] d1))))
      | _ \<Rightarrow> Inl (Runtime_error ''usage''))"

section \<open>What becomes of the words\<close>

text \<open>What a command line means: the places of its operands, the places that hold an input file with the name of
  the file, in the order they are handled, and the names of outputs that are arguments of options.\<close>

definition operand_places :: "getopt_event list \<Rightarrow> nat list" where
  "operand_places events = concat (map (\<lambda>(opt, _, optind). if opt = opt_operand then [optind - 1] else []) events)"

definition options_of :: "cli_description \<Rightarrow> cli_type \<Rightarrow> int \<Rightarrow> cli_option list" where
  "options_of c ty opt =
     (if opt = opt_unknown \<or> opt = opt_operand then [] else filter (\<lambda>x. co_value x = opt \<and> co_type x = ty) (cd_options c))"

definition option_inputs :: "cli_description \<Rightarrow> getopt_event \<Rightarrow> (nat \<times> string) list" where
  "option_inputs c event = (case event of (opt, optarg, optind) \<Rightarrow> map (\<lambda>_. (optind - 1, the optarg)) (options_of c In_file opt))"

definition option_outputs :: "cli_description \<Rightarrow> getopt_event \<Rightarrow> string list" where
  "option_outputs c event = (case event of (opt, optarg, _) \<Rightarrow> map (\<lambda>_. the optarg) (options_of c Out_file opt))"

definition input_places :: "cli_description \<Rightarrow> getopt_event list \<Rightarrow> string list \<Rightarrow> (nat \<times> string) list" where
  "input_places c events argv =
     concat (map (option_inputs c) events) @
     map (\<lambda>idx. (operand_places events ! idx, argv ! (operand_places events ! idx))) (cd_infile_args c)"

definition read_input :: "gcc_env \<Rightarrow> string \<Rightarrow> factory_data list \<times> disk \<Rightarrow> (factory_data list \<times> disk) res" where
  "read_input g file st = (case st of (xs, d) \<Rightarrow> bind_res (data_of g [] file Value [] d) (\<lambda>(x, d'). Inr (xs @ [x], d')))"

text \<open>The words after some inputs have been replaced.\<close>

definition replaced :: "string list \<Rightarrow> (nat \<times> string) list \<Rightarrow> factory_data list \<Rightarrow> string list" where
  "replaced args places xs = foldl (\<lambda>args ((i, _), x). args[i := data_placeholder (fd_hash x)]) args (zip places xs)"

definition generic_inv ::
  "gcc_env \<Rightarrow> string list \<Rightarrow> disk \<Rightarrow> (nat \<times> string) list \<Rightarrow> string list \<Rightarrow> nat list \<Rightarrow> generic_state \<Rightarrow> bool" where
  "generic_inv g args d places outs pos s \<longleftrightarrow>
     fold_res (read_input g) (map snd places) ([], d) = Inr (gc_indata s, gc_disk s) \<and>
     gc_args s = replaced args places (gc_indata s) \<and> (\<forall>p \<in> set places. fst p < length args) \<and>
     gc_outfiles s = outs \<and> gc_pos_args s = pos"

lemma read_inputs_length: "fold_res (read_input g) names (xs, d) = Inr (ys, d') \<Longrightarrow> length ys = length xs + length names"
proof (induction names arbitrary: xs d)
  case (Cons name names)
  then obtain st where st: "read_input g name (xs, d) = Inr st" and rest: "fold_res (read_input g) names st = Inr (ys, d')" by auto
  from st obtain x d1 where "st = (xs @ [x], d1)" by (auto simp: read_input_def)
  with Cons.IH [of "xs @ [x]" d1] rest show ?case by simp
qed simp

lemma replaced_length [simp]: "length (replaced args places xs) = length args"
proof -
  have "length (foldl (\<lambda>args ((i, _), x). args[i := data_placeholder (fd_hash x)]) args ps) = length args" for ps
    by (induction ps arbitrary: args) auto
  then show ?thesis by (simp add: replaced_def)
qed

lemma generic_infile_inv:
  assumes "generic_infile g name i s = Inr s'" and inv: "generic_inv g args d places outs pos s"
  shows "generic_inv g args d (places @ [(i, name)]) outs pos s'"
proof -
  have len: "length (gc_indata s) = length places" using inv read_inputs_length by (fastforce simp: generic_inv_def)
  from inv have "length (gc_args s) = length args" by (simp add: generic_inv_def)
  with assms(1) obtain x d' where x: "data_of g [] name Value [] (gc_disk s) = Inr (x, d')" "i < length args"
    "s' = s\<lparr>gc_args := (gc_args s)[i := data_placeholder (fd_hash x)], gc_indata := gc_indata s @ [x], gc_disk := d'\<rparr>"
    by (auto simp: generic_infile_def set_arg_def split: if_splits)
  then show ?thesis using inv len by (auto simp: generic_inv_def replaced_def fold_res_append read_input_def)
qed

lemma generic_option_inv:
  assumes "generic_option g opt optarg optind x s = Inr s'" and "generic_inv g args d places outs pos s"
  shows "generic_inv g args d (places @ (if co_value x = opt \<and> co_type x = In_file then [(optind - 1, the optarg)] else []))
    (outs @ (if co_value x = opt \<and> co_type x = Out_file then [the optarg] else [])) pos s'"
proof (cases "co_value x = opt")
  case False
  then show ?thesis using assms by (simp add: generic_option_def)
next
  case True
  show ?thesis
  proof (cases "co_type x")
    case In_file
    then obtain f where "optarg = Some f" "generic_infile g f (optind - 1) s = Inr s'"
      using assms(1) True by (auto simp: generic_option_def the_argument_def split: option.splits)
    then show ?thesis using generic_infile_inv [OF _ assms(2)] True In_file by simp
  qed (use assms True in \<open>auto simp: generic_option_def generic_inv_def the_argument_def split: option.splits\<close>)
qed

lemma generic_options_inv:
  "fold_res (generic_option g opt optarg optind) xs s = Inr s' \<Longrightarrow> generic_inv g args d places outs pos s \<Longrightarrow>
   generic_inv g args d (places @ map (\<lambda>_. (optind - 1, the optarg)) (filter (\<lambda>x. co_value x = opt \<and> co_type x = In_file) xs))
     (outs @ map (\<lambda>_. the optarg) (filter (\<lambda>x. co_value x = opt \<and> co_type x = Out_file) xs)) pos s'"
proof (induction xs arbitrary: s places outs)
  case (Cons x xs)
  from Cons.prems(1) obtain s1 where s1: "generic_option g opt optarg optind x s = Inr s1"
    and rest: "fold_res (generic_option g opt optarg optind) xs s1 = Inr s'" by auto
  show ?case using Cons.IH [OF rest generic_option_inv [OF s1 Cons.prems(2)]] by (auto split: if_splits)
qed simp

lemma generic_event_inv:
  assumes "generic_event g c event s = Inr s'" and inv: "generic_inv g args d places outs pos s"
  shows "generic_inv g args d (places @ option_inputs c event) (outs @ option_outputs c event) (pos @ operand_places [event]) s'"
proof -
  obtain opt optarg optind where event: "event = (opt, optarg, optind)" by (metis surj_pair)
  have distinct: "opt_unknown \<noteq> opt_operand" by (simp add: opt_unknown_def opt_operand_def)
  consider "opt = opt_unknown" | "opt = opt_operand" | "opt \<noteq> opt_unknown" "opt \<noteq> opt_operand" by blast
  then show ?thesis
  proof cases
    case 3
    then have "fold_res (generic_option g opt optarg optind) (cd_options c) s = Inr s'"
      using assms(1) by (simp add: generic_event_def event)
    from generic_options_inv [OF this inv] 3 show ?thesis
      by (simp add: event option_inputs_def option_outputs_def options_of_def operand_places_def)
  qed (use assms distinct in \<open>auto simp: generic_event_def event generic_inv_def option_inputs_def option_outputs_def options_of_def
      operand_places_def\<close>)
qed

lemma generic_events_inv:
  "fold_res (generic_event g c) events s = Inr s' \<Longrightarrow> generic_inv g args d places outs pos s \<Longrightarrow>
   generic_inv g args d (places @ concat (map (option_inputs c) events)) (outs @ concat (map (option_outputs c) events))
     (pos @ operand_places events) s'"
proof (induction events arbitrary: s places outs pos)
  case (Cons event events)
  from Cons.prems(1) obtain s1 where s1: "generic_event g c event s = Inr s1"
    and rest: "fold_res (generic_event g c) events s1 = Inr s'" by auto
  show ?case using Cons.IH [OF rest generic_event_inv [OF s1 Cons.prems(2)]] by (simp add: operand_places_def)
qed (simp add: operand_places_def)

lemma generic_pos_infiles_inv:
  "fold_res (generic_pos_infile g argv) idxs s = Inr s' \<Longrightarrow> generic_inv g args d places outs pos s \<Longrightarrow>
   generic_inv g args d (places @ map (\<lambda>idx. (pos ! idx, argv ! (pos ! idx))) idxs) outs pos s'"
proof (induction idxs arbitrary: s places)
  case (Cons idx idxs)
  from Cons.prems(1) obtain s1 where s1: "generic_pos_infile g argv idx s = Inr s1"
    and rest: "fold_res (generic_pos_infile g argv) idxs s1 = Inr s'" by auto
  have "gc_pos_args s = pos" using Cons.prems(2) by (simp add: generic_inv_def)
  with s1 have "generic_infile g (argv ! (pos ! idx)) (pos ! idx) s = Inr s1"
    by (auto simp: generic_pos_infile_def pos_arg_def word_at_def split: if_splits)
  from Cons.IH [OF rest generic_infile_inv [OF this Cons.prems(2)]] show ?case by simp
qed simp

lemma generic_pos_outfiles_inv:
  "fold_res generic_pos_outfile idxs s = Inr s' \<Longrightarrow> generic_inv g args d places outs pos s \<Longrightarrow>
   generic_inv g args d places (outs @ map (\<lambda>idx. gc_args s ! (pos ! idx)) idxs) pos s' \<and> gc_args s' = gc_args s"
proof (induction idxs arbitrary: s outs)
  case (Cons idx idxs)
  from Cons.prems(1) obtain s1 where s1: "generic_pos_outfile idx s = Inr s1"
    and rest: "fold_res generic_pos_outfile idxs s1 = Inr s'" by auto
  have "gc_pos_args s = pos" using Cons.prems(2) by (simp add: generic_inv_def)
  with s1 have "s1 = s\<lparr>gc_outfiles := gc_outfiles s @ [gc_args s ! (pos ! idx)]\<rparr>"
    by (auto simp: generic_pos_outfile_def pos_arg_def word_at_def split: if_splits)
  with Cons.prems(2) have one: "generic_inv g args d places (outs @ [gc_args s ! (pos ! idx)]) pos s1" "gc_args s1 = gc_args s"
    by (auto simp: generic_inv_def)
  from Cons.IH [OF rest one(1)] show ?case by (simp add: one(2))
qed simp

text \<open>The last input at a place is the one that is seen there.\<close>

lemma replaced_nth:
  assumes "length xs = length places" and "i < length args" and "\<forall>p \<in> set places. fst p < length args"
  shows "replaced args places xs ! i =
    (let ks = filter (\<lambda>k. fst (places ! k) = i) [0..<length places]
     in if ks = [] then args ! i else data_placeholder (fd_hash (xs ! last ks)))"
  using assms
proof (induction places arbitrary: xs rule: rev_induct)
  case (snoc p places ys)
  let ?ks = "filter (\<lambda>k. fst (places ! k) = i) [0..<length places]"
  obtain xs x where ys: "ys = xs @ [x]" using snoc.prems(1) by (cases ys rule: rev_cases) simp_all
  have eq: "length xs = length places" using snoc.prems(1) by (simp add: ys)
  have old: "filter (\<lambda>k. fst ((places @ [p]) ! k) = i) [0..<length places] = ?ks"
    by (rule filter_cong) (auto simp: nth_append)
  have below: "k < length places" if "k \<in> set ?ks" for k using that by simp
  have rep: "replaced args (places @ [p]) (xs @ [x]) = (replaced args places xs)[fst p := data_placeholder (fd_hash x)]"
    using eq by (simp add: replaced_def split: prod.splits)
  have IH: "replaced args places xs ! i = (if ?ks = [] then args ! i else data_placeholder (fd_hash (xs ! last ?ks)))"
    using snoc.IH [OF eq snoc.prems(2)] snoc.prems(3) by (simp add: Let_def)
  have all_ks: "filter (\<lambda>k. fst ((places @ [p]) ! k) = i) [0..<length (places @ [p])] = ?ks @ (if fst p = i then [length places] else [])"
    using old by simp
  show ?case
  proof (cases "fst p = i")
    case True
    then have "(xs @ [x]) ! length places = x" using eq by (metis nth_append_length)
    then show ?thesis using True eq snoc.prems(2) by (simp add: Let_def all_ks ys rep del: length_append)
  next
    case False
    then have "(xs @ [x]) ! last ?ks = xs ! last ?ks" if "?ks \<noteq> []"
      using below [OF last_in_set [OF that]] eq by (simp add: nth_append)
    then show ?thesis using IH False by (simp add: Let_def all_ks ys rep del: length_append)
  qed
qed (simp_all add: replaced_def)

lemma generic_extras_keep:
  assumes "fold_res (generic_extra g) files s = Inr s'"
  shows "gc_args s' = gc_args s \<and> gc_outfiles s' = gc_outfiles s \<and> (\<exists>ys. gc_indata s' = gc_indata s @ ys)"
  by (rule fold_res_invariant [OF assms, of "\<lambda>u. gc_args u = gc_args s \<and> gc_outfiles u = gc_outfiles s \<and> (\<exists>ys. gc_indata u = gc_indata s @ ys)"])
    (auto simp: generic_extra_def)

text \<open>C21: what the generic model makes of a command line. The inputs that the description names are read in order; the thunk
  has as many words as the command line, and each word after the first is unchanged unless an input stands at its place:
  then it is the placeholder of that very input (of the last one, when several are named for one
  place). The place of an input given by an option is that of the last word of the option. The outputs are the arguments of output options and
  then the words at the places of the output operands, or \<open>out\<close> when there is none.\<close>

theorem generic_words_exact:
  assumes "generic_words g c argv d = Inr s"
  shows "let events = getopt_events (cli_optstring c) (cli_long_options c) False (first_word argv);
             places = input_places c events argv; n = length places;
             outs = concat (map (option_outputs c) events) @ map (\<lambda>idx. gc_args s ! (operand_places events ! idx)) (cd_outfile_args c)
    in length (gc_args s) = length argv \<and>
       (\<exists>d'. fold_res (read_input g) (map snd places) ([], d) = Inr (take n (gc_indata s), d')) \<and>
       (\<forall>i. 0 < i \<longrightarrow> i < length argv \<longrightarrow> gc_args s ! i =
          (let ks = filter (\<lambda>k. fst (places ! k) = i) [0..<n]
           in if ks = [] then argv ! i else data_placeholder (fd_hash (gc_indata s ! last ks)))) \<and>
       gc_outfiles s = (if outs = [] then [''out''] else outs)"
proof -
  let ?events = "getopt_events (cli_optstring c) (cli_long_options c) False (first_word argv)"
  let ?places = "input_places c ?events argv"
  obtain name args s1 s2 s3 where run: "args_to_vector argv name = Inr args"
    "fold_res (generic_event g c) ?events
       \<lparr>gc_args = args, gc_indata = [], gc_outfiles = [], gc_pos_args = [], gc_disk = d\<rparr> = Inr s1"
    "fold_res (generic_pos_infile g argv) (cd_infile_args c) s1 = Inr s2"
    "fold_res generic_pos_outfile (cd_outfile_args c) s2 = Inr s3"
    and last: "(case wd_environ (ge_world g) ''GG_GENERIC_EXTRA'' of
         None \<Rightarrow> Inr (if gc_outfiles s3 = [] then s3\<lparr>gc_outfiles := [''out'']\<rparr> else s3)
       | Some extras \<Rightarrow> fold_res (generic_extra g) (split extras '':'')
           (if gc_outfiles s3 = [] then s3\<lparr>gc_outfiles := [''out'']\<rparr> else s3)) = Inr s"
    using assms unfolding generic_words_def by auto
  have "generic_inv g args d [] [] [] \<lparr>gc_args = args, gc_indata = [], gc_outfiles = [], gc_pos_args = [], gc_disk = d\<rparr>"
    by (simp add: generic_inv_def replaced_def)
  from generic_events_inv [OF run(2) this]
  have "generic_inv g args d (concat (map (option_inputs c) ?events)) (concat (map (option_outputs c) ?events)) (operand_places ?events) s1"
    by simp
  from generic_pos_infiles_inv [OF run(3) this]
  have "generic_inv g args d ?places (concat (map (option_outputs c) ?events)) (operand_places ?events) s2"
    by (simp add: input_places_def)
  from generic_pos_outfiles_inv [OF run(4) this]
  have inv: "generic_inv g args d ?places (concat (map (option_outputs c) ?events) @
      map (\<lambda>idx. gc_args s2 ! (operand_places ?events ! idx)) (cd_outfile_args c)) (operand_places ?events) s3"
    and same: "gc_args s3 = gc_args s2" by blast+
  have final: "gc_args s = gc_args s3" "gc_outfiles s = (if gc_outfiles s3 = [] then [''out''] else gc_outfiles s3)"
    "\<exists>ys. gc_indata s = gc_indata s3 @ ys"
    using last generic_extras_keep [of g _ "if gc_outfiles s3 = [] then s3\<lparr>gc_outfiles := [''out'']\<rparr> else s3" s]
    by (auto split: option.splits if_splits)
  have len: "length (gc_indata s3) = length ?places"
    using inv read_inputs_length by (fastforce simp: generic_inv_def)
  then have indata: "take (length ?places) (gc_indata s) = gc_indata s3"
    and at: "k < length ?places \<Longrightarrow> gc_indata s ! k = gc_indata s3 ! k" for k
    using final(3) by (auto simp: nth_append)
  have args: "length args = length argv" "\<forall>i. 0 < i \<longrightarrow> i < length argv \<longrightarrow> args ! i = argv ! i"
    using run(1) by (auto simp: args_to_vector_def nth_Cons nth_tl split: if_splits nat.splits)
  have words: "gc_args s ! i = (let ks = filter (\<lambda>k. fst (?places ! k) = i) [0..<length ?places]
      in if ks = [] then argv ! i else data_placeholder (fd_hash (gc_indata s ! last ks)))" if i: "0 < i" "i < length argv" for i
  proof -
    let ?ks = "filter (\<lambda>k. fst (?places ! k) = i) [0..<length ?places]"
    have "gc_args s ! i = (if ?ks = [] then args ! i else data_placeholder (fd_hash (gc_indata s3 ! last ?ks)))"
      using replaced_nth [OF len, of i args] inv i(2) args(1) by (simp add: generic_inv_def final(1) Let_def)
    moreover have "gc_indata s3 ! last ?ks = gc_indata s ! last ?ks" if "?ks \<noteq> []"
      using at [of "last ?ks"] last_in_set [OF that] by simp
    ultimately show ?thesis using args(2) i by (simp add: Let_def)
  qed
  have "length (gc_args s) = length argv" using inv args(1) by (simp add: generic_inv_def final(1))
  moreover have "\<exists>d'. fold_res (read_input g) (map snd ?places) ([], d) = Inr (take (length ?places) (gc_indata s), d')"
    using inv by (simp add: generic_inv_def indata)
  ultimately show ?thesis
    using words inv unfolding Let_def by (simp add: generic_inv_def final(1,2) same)
qed

text \<open>An input file that is given in one word with its option, as \<open>--name=file\<close>, takes the option with it: the
  word becomes the placeholder of the file alone, so the program is run without the option.\<close>

lemma generic_inline_option_lost:
  assumes "cd_options c = [\<lparr>co_value = v, co_short = None, co_long = Some name, co_type = In_file\<rparr>]"
    and "cd_infile_args c = []" and "cd_outfile_args c = []" and "wd_environ (ge_world g) ''GG_GENERIC_EXTRA'' = None"
    and "name \<noteq> []" and "CHR ''='' \<notin> set name" and "999 < v"
    and "generic_words g c [description, ''--'' @ name @ ''='' @ file] d = Inr s"
  shows "\<exists>program x. gc_args s = [program, data_placeholder (fd_hash x)] \<and> gc_indata s = [x]"
proof -
  let ?argv = "[description, CHR ''-'' # CHR ''-'' # name @ CHR ''='' # file]"
  let ?long = "[\<lparr>lo_name = name, lo_has_arg = Required_argument, lo_val = v\<rparr>]"
  have tw: "takeWhile (\<lambda>c. c \<noteq> CHR ''='') (name @ CHR ''='' # file) = name"
    and dw: "dropWhile (\<lambda>c. c \<noteq> CHR ''='') (name @ CHR ''='' # file) = CHR ''='' # file"
    using assms(6) by (simp_all add: takeWhile_append dropWhile_append)
  have one: "getopt [] ?long False (first_word ?argv) = (v, Some file, \<lparr>gs_argv = ?argv, gs_ind = 2, gs_next = []\<rparr>)"
    using assms(5) by (simp add: getopt_def first_word_def is_operand_def process_long_option_def tw dw found_long_def Let_def numeral_2_eq_2)
  have two: "getopt [] ?long False \<lparr>gs_argv = ?argv, gs_ind = 2, gs_next = []\<rparr> =
      (opt_end, None, \<lparr>gs_argv = ?argv, gs_ind = 2, gs_next = []\<rparr>)" by (simp add: getopt_def)
  have v: "v \<noteq> opt_end" "v \<noteq> opt_unknown" "v \<noteq> opt_operand" using assms(7) by (simp_all add: opt_end_def opt_unknown_def opt_operand_def)
  have events: "getopt_events [] ?long False (first_word ?argv) = [(v, Some file, 2)]"
    using v(1) by (simp add: getopt_events.simps [of _ _ _ "first_word ?argv"] one getopt_events.simps two)
  have options: "cli_optstring c = []" "cli_long_options c = ?long" using assms(1) by (simp_all add: cli_optstring_def cli_long_options_def)
  obtain program args s1 where run: "args_to_vector ?argv program = Inr args"
    "fold_res (generic_event g c) [(v, Some file, 2)]
       \<lparr>gc_args = args, gc_indata = [], gc_outfiles = [], gc_pos_args = [], gc_disk = d\<rparr> = Inr s1"
    and last: "s = (if gc_outfiles s1 = [] then s1\<lparr>gc_outfiles := [''out'']\<rparr> else s1)"
    using assms(8) assms(2-4) by (auto simp: generic_words_def options events)
  obtain a where args: "args = [a, CHR ''-'' # CHR ''-'' # name @ CHR ''='' # file]" using run(1) by (auto simp: args_to_vector_def split: if_splits)
  have "\<exists>x. gc_args s1 = [a, data_placeholder (fd_hash x)] \<and> gc_indata s1 = [x]"
    using run(2) v
    by (auto simp: generic_event_def assms(1) generic_option_def the_argument_def generic_infile_def set_arg_def args)
  then show ?thesis using last by auto
qed

section \<open>At concrete command lines\<close>

definition toy_cli_text :: string where
  "toy_cli_text = ''/t/as -i,--input=@infile @outfile''"

definition toy_cli :: cli_description where
  "toy_cli = projr (cli_description_of toy_cli_text)"

definition toy_cli_words :: "string list" where
  "toy_cli_words = [toy_cli_text, ''-i'', ''a.s'', ''a.o'']"

lemma toy_cli_options:
  "cd_options toy_cli = [\<lparr>co_value = char_val CHR ''i'', co_short = Some CHR ''i'', co_long = Some ''input'', co_type = In_file\<rparr>]"
  "cd_outfile_args toy_cli = [0]"
  by code_simp+

lemma toy_cli_runs: "\<not> isl (generic_words toy_gcc_env toy_cli toy_cli_words toy_files)" by code_simp

lemma toy_cli_meaning:
  "input_places toy_cli (getopt_events (cli_optstring toy_cli) (cli_long_options toy_cli) False (first_word toy_cli_words)) toy_cli_words =
     [(2, ''a.s'')]"
  by code_simp

theorem generic_words_exact_witness:
  "\<exists>s. generic_words toy_gcc_env toy_cli toy_cli_words toy_files = Inr s \<and> length (gc_args s) = 4 \<and>
     gc_args s ! 1 = ''-i'' \<and> gc_args s ! 2 = data_placeholder (fd_hash (gc_indata s ! 0)) \<and> gc_args s ! 3 = ''a.o''"
proof -
  obtain s where s: "generic_words toy_gcc_env toy_cli toy_cli_words toy_files = Inr s"
    using toy_cli_runs sum.collapse(2) by metis
  have words: "length toy_cli_words = 4" "toy_cli_words ! 1 = ''-i''" "toy_cli_words ! 3 = ''a.o''" by (simp_all add: toy_cli_words_def)
  have "length (gc_args s) = length toy_cli_words \<and> (\<forall>i. 0 < i \<longrightarrow> i < length toy_cli_words \<longrightarrow> gc_args s ! i =
          (if filter (\<lambda>k. fst ([(2 :: nat, ''a.s'')] ! k) = i) [0..<1] = [] then toy_cli_words ! i
           else data_placeholder (fd_hash (gc_indata s ! last (filter (\<lambda>k. fst ([(2 :: nat, ''a.s'')] ! k) = i) [0..<1])))))"
    using generic_words_exact [OF s] unfolding Let_def toy_cli_meaning by simp
  then have "length (gc_args s) = 4" and at: "\<And>i. 0 < i \<Longrightarrow> i < 4 \<Longrightarrow> gc_args s ! i =
          (if filter (\<lambda>k. fst ([(2 :: nat, ''a.s'')] ! k) = i) [0..<1] = [] then toy_cli_words ! i
           else data_placeholder (fd_hash (gc_indata s ! last (filter (\<lambda>k. fst ([(2 :: nat, ''a.s'')] ! k) = i) [0..<1]))))"
    unfolding words(1) by blast+
  moreover from at [of 1] at [of 2] at [of 3] have "gc_args s ! 1 = ''-i''" "gc_args s ! 2 = data_placeholder (fd_hash (gc_indata s ! 0))"
    "gc_args s ! 3 = ''a.o''" using words by simp_all
  ultimately show ?thesis using s by blast
qed

definition toy_long_cli :: cli_description where
  "toy_long_cli = projr (cli_description_of ''/t/as --input=@infile'')"

lemma toy_long_cli_parts:
  "cd_options toy_long_cli = [\<lparr>co_value = 1000, co_short = None, co_long = Some ''input'', co_type = In_file\<rparr>]"
  "cd_infile_args toy_long_cli = []" "cd_outfile_args toy_long_cli = []"
  "wd_environ (ge_world toy_gcc_env) ''GG_GENERIC_EXTRA'' = None"
  by code_simp+

lemma toy_long_runs: "\<not> isl (generic_words toy_gcc_env toy_long_cli [''/t/as --input=@infile'', ''--input=a.s''] toy_files)"
  by code_simp

lemma generic_inline_option_lost_witness:
  "\<exists>program (x :: factory_data). gc_args (projr (generic_words toy_gcc_env toy_long_cli [''/t/as --input=@infile'', ''--input=a.s''] toy_files)) =
    [program, data_placeholder (fd_hash x)]"
proof -
  obtain s where s: "generic_words toy_gcc_env toy_long_cli [''/t/as --input=@infile'', ''--input=a.s''] toy_files = Inr s"
    using toy_long_runs sum.collapse(2) by metis
  have "\<exists>program x. gc_args s = [program, data_placeholder (fd_hash x)] \<and> gc_indata s = [x]"
    by (rule generic_inline_option_lost [OF toy_long_cli_parts, of "''/t/as --input=@infile''" "''a.s''" toy_files])
      (use s in simp_all)
  then show ?thesis unfolding s by (simp only: sum.sel) blast
qed

end
