(* ===== verification/ExecuteServer.thy ===== *)
theory ExecuteServer
  imports EngineLaws
begin

text \<open>
  The execute server, \<open>src/frontend/gg-execute-server.cc\<close>: the counterpart of the gg engine. The state
  holds what its callbacks capture: a parser and a write buffer for each open connection, the jobs whose
  child processes run, and the store. JSON is a parameter, as for the engines.
\<close>

record server_env =
  se_world :: world
  se_request_of_json :: "string \<Rightarrow> execution_request option"
  se_response_to_json :: "pb_execution_response \<Rightarrow> string option"

section \<open>Responses\<close>

definition build_response :: "http_message \<Rightarrow> string \<Rightarrow> http_header list \<Rightarrow> string \<Rightarrow> http_response res" where
  "build_response request first_line headers body =
     bind_res (set_request request new_response) (\<lambda>m.
     bind_res (set_first_line first_line m) (\<lambda>m.
     bind_res (fold_res add_header headers m) (\<lambda>m.
     bind_res (done_with_headers calculate_response m) (\<lambda>m.
     bind_res (read_in_body complex_body_response body m) (\<lambda>(_, m).
     bind_res (assert_res (hm_state m = COMPLETE)) (\<lambda>_. Inr m))))))"

definition status_messages :: "(nat \<times> string) list" where
  "status_messages = [(200, ''OK''), (400, ''Bad Request''), (404, ''Not Found''), (405, ''Mehtod Not Allowed'')]"

definition get_canned_response :: "nat \<Rightarrow> http_message \<Rightarrow> string res" where
  "get_canned_response status request =
     (case map_of status_messages status of
        None \<Rightarrow> Inl (Out_of_range ''map::at'')
      | Some message \<Rightarrow>
          bind_res (build_response request (''HTTP/1.1 '' @ nat_to_string status @ '' '' @ message)
            [\<lparr>hh_key = ''Content-Length'', hh_value = ''0''\<rparr>, \<lparr>hh_key = ''Content-Type'', hh_value = ''text/plain''\<rparr>] [])
            message_str)"

section \<open>State\<close>

record server_connection =
  sn_parser :: "(http_message, unit) http_sequence"
  sn_write_buffer :: string

text \<open>What every server on the event loop has: the store and its connections.\<close>

record http_server =
  sr_disk :: disk
  sr_connections :: "nat \<rightharpoonup> server_connection"
  sr_next_id :: nat

record server_job =
  sj_connection :: nat
  sj_request :: http_message
  sj_items :: execution_request

record server_state = http_server +
  sr_jobs :: "nat \<rightharpoonup> server_job"

definition server_enqueue :: "nat \<Rightarrow> string \<Rightarrow> 'a http_server_scheme \<Rightarrow> 'a http_server_scheme" where
  "server_enqueue conn text s =
     (case sr_connections s conn of
        None \<Rightarrow> s
      | Some c \<Rightarrow> s\<lparr>sr_connections := (sr_connections s)(conn \<mapsto> c\<lparr>sn_write_buffer := sn_write_buffer c @ text\<rparr>)\<rparr>)"

text \<open>Numbers are never used again, so a number whose connection is gone is a weak pointer that has expired.\<close>

definition server_accept :: "'a http_server_scheme \<Rightarrow> 'a http_server_scheme" where
  "server_accept s =
     s\<lparr>sr_connections := (sr_connections s)(sr_next_id s \<mapsto> \<lparr>sn_parser = new_sequence request_class (), sn_write_buffer = []\<rparr>),
       sr_next_id := sr_next_id s + 1\<rparr>"

definition server_close :: "nat \<Rightarrow> 'a http_server_scheme \<Rightarrow> 'a http_server_scheme" where
  "server_close conn s = s\<lparr>sr_connections := (sr_connections s)(conn := None)\<rparr>"

section \<open>Requests\<close>

definition reset_line :: string where "reset_line = ''GET /reset HTTP/1.1''"

text \<open>The files in the directory go, a subdirectory and what it holds stay.\<close>

definition empty_directory :: "string \<Rightarrow> disk \<Rightarrow> disk res" where
  "empty_directory dir d =
     (if d dir \<noteq> Some Directory then Inl (Unix_error ''open'')
      else Inr (\<lambda>p. if prefix (dir @ ''/'') p \<and> CHR ''/'' \<notin> set (drop (length dir + 1) p) \<and> d p \<noteq> Some Directory
                     then None else d p))"

definition server_request :: "server_env \<Rightarrow> nat \<Rightarrow> http_message \<Rightarrow> server_state \<Rightarrow> server_state res" where
  "server_request se conn request s =
     (let gg_dir = wd_gg_dir (se_world se)
      in if take (length reset_line) (hm_first_line request) = reset_line then
           bind_res (empty_directory (blobs gg_dir) (sr_disk s)) (\<lambda>d1.
           bind_res (empty_directory (reductions gg_dir) d1) (\<lambda>d2.
           bind_res (get_canned_response 200 request) (\<lambda>text.
             Inr (server_enqueue conn text (s\<lparr>sr_disk := d2\<rparr>)))))
         else case se_request_of_json se (hm_body request) of
                None \<Rightarrow> bind_res (get_canned_response 400 request) (\<lambda>text. Inr (server_enqueue conn text s))
              | Some exec_request \<Rightarrow>
                  Inr (s\<lparr>sr_jobs := (sr_jobs s)(sr_next_id s \<mapsto>
                           \<lparr>sj_connection = conn, sj_request = request, sj_items = exec_request\<rparr>),
                         sr_next_id := sr_next_id s + 1\<rparr>))"

text \<open>The callback for data: all requests that are complete now are handled.\<close>

definition requests_callback ::
  "(nat \<Rightarrow> http_message \<Rightarrow> 'a http_server_scheme \<Rightarrow> 'a http_server_scheme res) \<Rightarrow> nat \<Rightarrow> string \<Rightarrow>
     'a http_server_scheme \<Rightarrow> (bool \<times> 'a http_server_scheme) res" where
  "requests_callback handle conn data s =
     (case sr_connections s conn of
        None \<Rightarrow> Inl Undefined_behaviour
      | Some c \<Rightarrow>
          bind_res (parse_http request_class data (sn_parser c)) (\<lambda>parser.
          bind_res (fold_res (handle conn) (sq_complete parser)
              (s\<lparr>sr_connections := (sr_connections s)(conn \<mapsto> c\<lparr>sn_parser := parser\<lparr>sq_complete := []\<rparr>\<rparr>)\<rparr>)) (\<lambda>s'.
            Inr (True, s'))))"

definition server_data :: "server_env \<Rightarrow> nat \<Rightarrow> string \<Rightarrow> server_state \<Rightarrow> (bool \<times> server_state) res" where
  "server_data se conn data s = requests_callback (server_request se) conn data s"

section \<open>The child process\<close>

text \<open>The thunks are written to the store, then \<open>gg-execute-static\<close> is run: the variable that is set, the words
  and the disk.\<close>

definition server_child :: "world \<Rightarrow> execution_request \<Rightarrow> disk \<Rightarrow> ((string \<times> string) \<times> string list \<times> disk) res" where
  "server_child w r d =
     bind_res (fold_res (\<lambda>item. atomic_create (wd_kernel w) (wd_base64_decode w (req_data item))
                  (blob (wd_gg_dir w) (req_hash item)) None) (req_thunks r) d) (\<lambda>d'.
       Inr ((''GG_STORAGE_URI'', req_storage_backend r),
            [''gg-execute-static'', ''--get-dependencies'', ''--put-output''] @ map req_hash (req_thunks r), d'))"

section \<open>Its end\<close>

definition output_item :: "world \<Rightarrow> disk \<Rightarrow> string \<Rightarrow> string \<Rightarrow> response_output res" where
  "output_item w d tag result =
     (let output_path = blob (wd_gg_dir w) result
      in bind_res (if take 1 result = ''T'' then bind_res (read_file output_path d) (\<lambda>c. Inr (wd_base64_encode w c))
                   else Inr []) (\<lambda>data.
         bind_res (file_size output_path d) (\<lambda>size.
         bind_res (is_executable output_path d) (\<lambda>executable.
           Inr \<lparr>ro_tag = tag, ro_hash = result, ro_size = of_nat size, ro_executable = executable, ro_data = data\<rparr>))))"

text \<open>\<open>None\<close> when an output is not in the cache: that thunk and the rest are discarded.\<close>

fun output_items :: "world \<Rightarrow> disk \<Rightarrow> string \<Rightarrow> string list \<Rightarrow> response_output list option res" where
  "output_items w d h [] = Inr (Some [])"
| "output_items w d h (tag # tags) =
     bind_res (cache_check (wd_gg_dir w) (for_output h tag) d) (\<lambda>result.
       case result of
         None \<Rightarrow> Inr None
       | Some r \<Rightarrow> bind_res (output_item w d tag r) (\<lambda>item.
           bind_res (output_items w d h tags) (\<lambda>items. Inr (map_option ((#) item) items))))"

fun response_items :: "world \<Rightarrow> disk \<Rightarrow> request_item list \<Rightarrow> pb_response_item list res" where
  "response_items w d [] = Inr []"
| "response_items w d (item # items) =
     bind_res (output_items w d (req_hash item) (req_outputs item)) (\<lambda>outs.
       case outs of
         None \<Rightarrow> Inr []
       | Some os \<Rightarrow> bind_res (response_items w d items) (\<lambda>rest.
           Inr (\<lparr>ri_thunk_hash = req_hash item, ri_outputs = os\<rparr> # rest)))"

definition server_answer :: "server_env \<Rightarrow> http_message \<Rightarrow> execution_request \<Rightarrow> nat \<Rightarrow> disk \<Rightarrow> http_response res" where
  "server_answer se request r status d =
     bind_res (response_items (se_world se) d (req_thunks r)) (\<lambda>items.
       case se_response_to_json se \<lparr>per_executed = items, per_return_code = of_nat status, per_stdout = []\<rparr> of
         None \<Rightarrow> Inl (Runtime_error ''cannot convert protobuf to json'')
       | Some json \<Rightarrow>
           build_response request ''HTTP/1.1 200 OK''
             [\<lparr>hh_key = ''Content-Length'', hh_value = nat_to_string (length json)\<rparr>,
              \<lparr>hh_key = ''Content-Type'', hh_value = ''application/octet-stream''\<rparr>] json)"

text \<open>When the connection is gone nobody waits for the answer.\<close>

definition server_done :: "server_env \<Rightarrow> nat \<Rightarrow> nat \<Rightarrow> server_state \<Rightarrow> server_state res" where
  "server_done se i status s =
     (case sr_jobs s i of
        None \<Rightarrow> Inl Undefined_behaviour
      | Some job \<Rightarrow>
          let s1 = s\<lparr>sr_jobs := (sr_jobs s)(i := None)\<rparr>
          in if sr_connections s (sj_connection job) = None then Inr s1
             else bind_res (server_answer se (sj_request job) (sj_items job) status (sr_disk s)) (\<lambda>response.
                  bind_res (message_str response) (\<lambda>text. Inr (server_enqueue (sj_connection job) text s1))))"

section \<open>Responses on the wire\<close>

definition wire_response :: "http_response \<Rightarrow> bool" where
  "wire_response r \<longleftrightarrow> hm_state r = COMPLETE \<and> find_sub CRLF (hm_first_line r) = None \<and>
     (\<forall>h \<in> set (hm_headers r). wire_header h) \<and> hr_parser r = None \<and>
     calculate_response (r\<lparr>hm_expected := (False, - 1), hm_body := [], hm_state := BODY_PENDING\<rparr>) =
       Inr (r\<lparr>hm_body := [], hm_state := BODY_PENDING\<rparr>) \<and>
     hm_expected r = (True, of_nat (length (hm_body r))) \<and> length (hm_body r) < 2 ^ 64"

lemma run_response_headers:
  "hm_state (sq_current s) = HEADERS_PENDING \<Longrightarrow> \<forall>h \<in> set hs. wire_header h \<Longrightarrow> response_ok (sq_current s) \<Longrightarrow>
   sq_buffer s = header_bytes hs @ rest \<Longrightarrow>
   rs.run s = rs.run (s\<lparr>sq_buffer := rest,
     sq_current := (sq_current s)\<lparr>hm_headers := hm_headers (sq_current s) @ hs\<rparr>\<rparr>)"
proof (induction hs arbitrary: s)
  case Nil
  then show ?case by (cases s) (simp add: header_bytes_def)
next
  case (Cons h hs)
  let ?s = "s\<lparr>sq_buffer := header_bytes hs @ rest,
    sq_current := (sq_current s)\<lparr>hm_headers := hm_headers (sq_current s) @ [h]\<rparr>\<rparr>"
  have h: "find_sub CRLF (header_str h) = None" "sq_buffer s = header_str h @ CRLF @ header_bytes hs @ rest"
    "header_str h \<noteq> []"
    using Cons.prems by (simp_all add: wire_header_def header_bytes_def header_str_def)
  have "parsing_step response_class s = Inr (True, ?s)"
    using line_step [OF h(1,2)] h(3) Cons.prems parse_header_str [of h]
    by (simp add: parsing_step_def response_class_def add_header_line_def)
  then have "rs.run s = rs.run ?s" using Cons.prems(3) by (subst rs.run_unfold) (simp_all add: rs.good_def)
  with Cons.IH [of ?s] Cons.prems show ?case by (simp add: response_ok_def)
qed

text \<open>A response that waits for its first line is read back with the request that was noted for it.\<close>

lemma run_response:
  assumes "wire_response r" and "message_str r = Inr b"
  shows "rs.run \<lparr>sq_buffer = b @ rest, sq_complete = cs, sq_current = new_response, sq_sub = hr_request r # sub\<rparr> =
    rs.run \<lparr>sq_buffer = rest, sq_complete = cs @ [r], sq_current = new_response, sq_sub = sub\<rparr>"
proof -
  let ?tail = "header_bytes (hm_headers r) @ CRLF @ hm_body r @ rest"
  have b: "b @ rest = hm_first_line r @ CRLF @ ?tail"
    using assms(1,2) by (auto simp: message_str_def wire_response_def header_bytes_def)
  let ?s0 = "\<lparr>sq_buffer = b @ rest, sq_complete = cs, sq_current = new_response, sq_sub = hr_request r # sub\<rparr>"
  let ?m1 = "new_response\<lparr>hr_request := hr_request r, hm_first_line := hm_first_line r, hm_state := HEADERS_PENDING\<rparr>"
  let ?s1 = "\<lparr>sq_buffer = ?tail, sq_complete = cs, sq_current = ?m1, sq_sub = sub\<rparr>"
  let ?m2 = "?m1\<lparr>hm_headers := hm_headers r\<rparr>"
  let ?s2 = "\<lparr>sq_buffer = CRLF @ hm_body r @ rest, sq_complete = cs, sq_current = ?m2, sq_sub = sub\<rparr>"
  let ?m3 = "r\<lparr>hm_body := [], hm_state := BODY_PENDING\<rparr>"
  let ?s3 = "\<lparr>sq_buffer = hm_body r @ rest, sq_complete = cs, sq_current = ?m3, sq_sub = sub\<rparr>"
  let ?s4 = "\<lparr>sq_buffer = rest, sq_complete = cs, sq_current = r, sq_sub = sub\<rparr>"
  let ?s5 = "\<lparr>sq_buffer = rest, sq_complete = cs @ [r], sq_current = new_response, sq_sub = sub\<rparr>"
  have w: "find_sub CRLF (hm_first_line r) = None" "\<forall>h \<in> set (hm_headers r). wire_header h"
    using assms(1) by (simp_all add: wire_response_def)
  have buffer: "sq_buffer ?s0 = hm_first_line r @ CRLF @ ?tail" using b by simp
  have step0: "parsing_step response_class ?s0 = Inr (True, ?s1)"
    using line_step [OF w(1) buffer]
    by (simp add: parsing_step_def response_class_def initialize_response_def set_request_def set_first_line_def new_response_def)
  have step1: "rs.run ?s1 = rs.run ?s2"
    using run_response_headers [of ?s1 "hm_headers r" "CRLF @ hm_body r @ rest"] w(2) by (simp add: new_response_def response_ok_def)
  have m2: "?m2\<lparr>hm_state := BODY_PENDING\<rparr> = r\<lparr>hm_expected := (False, - 1), hm_body := [], hm_state := BODY_PENDING\<rparr>"
    using assms(1) by (cases r) (simp add: new_response_def wire_response_def)
  have calc: "calculate_response (?m2\<lparr>hm_state := BODY_PENDING\<rparr>) = Inr ?m3"
    unfolding m2 using assms(1) by (simp add: wire_response_def)
  have "sq_buffer ?s2 = [] @ CRLF @ hm_body r @ rest" "find_sub CRLF [] = None" by simp_all
  from line_step [OF this(2,1)] have step2: "parsing_step response_class ?s2 = Inr (True, ?s3)"
    using calc by (simp add: parsing_step_def response_class_def done_with_headers_def new_response_def)
  have known: "hm_expected ?m3 = (True, of_nat (length (hm_body r)))" "hm_state ?m3 = BODY_PENDING"
    using assms(1) by (simp_all add: wire_response_def)
  have r: "r\<lparr>hm_state := COMPLETE\<rparr> = r" using assms(1) by (cases r) (simp add: wire_response_def)
  have "read_in_body complex_body_response (hm_body r @ rest) ?m3 = Inr (length (hm_body r), r)"
    using read_known [OF known(2,1), of complex_body_response "hm_body r @ rest"] assms(1)
    by (simp add: known_result_def unat_of_nat take_bit_nat_eq_self wire_response_def r)
  then have step3: "parsing_step response_class ?s3 = Inr (True, ?s4)"
    using assms(1) by (simp add: parsing_step_def response_class_def pop_bytes_def wire_response_def)
  have step4: "parsing_step response_class ?s4 = Inr (True, ?s5)"
    using assms(1) by (simp add: parsing_step_def response_class_def wire_response_def)
  have good: "rs.good ?s0" "rs.good ?s2" "rs.good ?s3" "rs.good ?s4"
    using assms(1) by (simp_all add: rs.good_def response_ok_def new_response_def wire_response_def)
  show ?thesis
    using good step0 step1 step2 step3 step4
    by (simp add: rs.run_unfold [of ?s0] rs.run_unfold [of ?s2] rs.run_unfold [of ?s3] rs.run_unfold [of ?s4])
qed

lemma run_responses:
  "\<forall>r \<in> set ms. wire_response r \<Longrightarrow> map_res message_str ms = Inr bs \<Longrightarrow>
   rs.run \<lparr>sq_buffer = concat bs, sq_complete = cs, sq_current = new_response, sq_sub = map hr_request ms\<rparr> =
   Inr \<lparr>sq_buffer = [], sq_complete = cs @ ms, sq_current = new_response, sq_sub = []\<rparr>"
proof (induction ms arbitrary: cs bs)
  case Nil
  let ?s = "\<lparr>sq_buffer = [], sq_complete = cs, sq_current = new_response, sq_sub = []\<rparr>"
  have "parsing_step response_class ?s = Inr (False, ?s)"
    by (simp add: parsing_step_def response_class_def new_response_def have_complete_line_def CRLF_def)
  moreover have "rs.good ?s" by (simp add: rs.good_def response_ok_def new_response_def)
  ultimately show ?case using Nil by (simp add: rs.run_unfold [of ?s])
next
  case (Cons r ms)
  then obtain b bs' where b: "message_str r = Inr b" "map_res message_str ms = Inr bs'" "bs = b # bs'" by auto
  from run_response [OF _ b(1), of "concat bs'" cs "map hr_request ms"] Cons.IH [OF _ b(2), of "cs @ [r]"] Cons.prems(1)
  show ?case by (simp add: b(3))
qed

lemma responses_read_back:
  assumes "\<forall>r \<in> set ms. wire_response r" and "map_res message_str ms = Inr bs" and "concat bs \<noteq> []"
  shows "parse_http response_class (concat bs) ((new_sequence response_class [])\<lparr>sq_sub := map hr_request ms\<rparr>) =
    Inr \<lparr>sq_buffer = [], sq_complete = ms, sq_current = new_response, sq_sub = []\<rparr>"
  using run_responses [OF assms(1,2), of "[]"]
    rs.parse_nonempty [OF assms(3), of "(new_sequence response_class [])\<lparr>sq_sub := map hr_request ms\<rparr>"]
  by (simp add: rs.extend_def new_sequence_def response_class_def)

lemma response_read_back:
  assumes "wire_response r" and "message_str r = Inr b" and "b \<noteq> []"
  shows "parse_http response_class b (new_request_arrived (hr_request r) (new_sequence response_class [])) =
    Inr \<lparr>sq_buffer = [], sq_complete = [r], sq_current = new_response, sq_sub = []\<rparr>"
  using responses_read_back [of "[r]" "[b]"] assms by (simp add: new_request_arrived_def new_sequence_def)

end
