(* ===== verification/ExecuteServerLaws.thy ===== *)
theory ExecuteServerLaws
  imports ExecuteServer Answers
begin

text \<open>
  The server and the engine together: the answer the server builds for a job is read back by the engine
  that asked, and the engine's cache then agrees with the server's on every output of the thunk.
\<close>

section \<open>Requests in pieces\<close>

lemma parsing_step_complete:
  "parsing_step mc (s\<lparr>sq_complete := cs @ sq_complete s\<rparr>) =
   map_sum id (\<lambda>(go, t). (go, t\<lparr>sq_complete := cs @ sq_complete t\<rparr>)) (parsing_step mc s)"
  by (auto simp: parsing_step_def bind_res_def split: http_state.splits sum.splits)

lemma parsing_loop_complete:
  "parsing_loop n mc (s\<lparr>sq_complete := cs @ sq_complete s\<rparr>) =
   map_sum id (\<lambda>t. t\<lparr>sq_complete := cs @ sq_complete t\<rparr>) (parsing_loop n mc s)"
proof (induction n arbitrary: s)
  case 0
  then show ?case by simp
next
  case (Suc n)
  then show ?case by (auto simp: parsing_step_complete bind_res_def split: sum.splits)
qed

text \<open>Messages that were not taken from the queue yet stay in front of the new ones.\<close>

lemma parse_http_complete:
  "parse_http mc buf (s\<lparr>sq_complete := cs @ sq_complete s\<rparr>) =
   map_sum id (\<lambda>t. t\<lparr>sq_complete := cs @ sq_complete t\<rparr>) (parse_http mc buf s)"
proof (cases "if buf = [] then mc_eof mc (sq_current s) else Inr (sq_current s)")
  case (Inl e)
  then show ?thesis by (auto simp: parse_http_def split: if_splits)
next
  case (Inr m)
  let ?s = "s\<lparr>sq_current := m, sq_buffer := sq_buffer s @ buf\<rparr>"
  have "parse_http mc buf (s\<lparr>sq_complete := cs @ sq_complete s\<rparr>) =
      parsing_loop (parse_fuel ?s) mc (?s\<lparr>sq_complete := cs @ sq_complete ?s\<rparr>)"
    using Inr by (cases s) (auto simp: parse_http_def parse_fuel_def Let_def split: if_splits)
  moreover have "parse_http mc buf s = parsing_loop (parse_fuel ?s) mc ?s"
    using Inr by (auto simp: parse_http_def Let_def split: if_splits)
  ultimately show ?thesis by (simp only: parsing_loop_complete)
qed

lemma parse_segments_complete:
  "fold_res (parse_http mc) segs (s\<lparr>sq_complete := cs @ sq_complete s\<rparr>) =
   map_sum id (\<lambda>t. t\<lparr>sq_complete := cs @ sq_complete t\<rparr>) (fold_res (parse_http mc) segs s)"
proof (induction segs arbitrary: s)
  case (Cons seg segs)
  then show ?case by (simp add: parse_http_complete) (cases "parse_http mc seg s"; simp)
qed simp

section \<open>Servers on the event loop\<close>

definition with_parser :: "nat \<Rightarrow> (http_message, unit) http_sequence \<Rightarrow> 'a http_server_scheme \<Rightarrow> 'a http_server_scheme" where
  "with_parser c p s = s\<lparr>sr_connections := (sr_connections s)(c := map_option (\<lambda>cn. cn\<lparr>sn_parser := p\<rparr>) (sr_connections s c))\<rparr>"

lemma with_parser_twice [simp]: "with_parser c p (with_parser c q s) = with_parser c p s"
  by (auto simp: with_parser_def fun_eq_iff option.map_comp comp_def)

text \<open>What is asked of the handling of one request: it neither opens nor closes a connection, and it neither
  touches nor looks at a parser.\<close>

locale request_handler =
  fixes handle :: "nat \<Rightarrow> http_message \<Rightarrow> 'a http_server_scheme \<Rightarrow> 'a http_server_scheme res"
  assumes handle_with_parser: "handle c request (with_parser c p s) = map_sum id (with_parser c p) (handle c request s)"
    and handle_parser: "handle c request s = Inr s' \<Longrightarrow>
      map_option sn_parser (sr_connections s' x) = map_option sn_parser (sr_connections s x)"
begin

definition take_segment :: "nat \<Rightarrow> string \<Rightarrow> 'a http_server_scheme \<Rightarrow> 'a http_server_scheme res" where
  "take_segment c seg s = bind_res (requests_callback handle c seg s) (\<lambda>(_, s'). Inr s')"

lemma requests_with_parser:
  "fold_res (handle c) requests (with_parser c p s) = map_sum id (with_parser c p) (fold_res (handle c) requests s)"
proof (induction requests arbitrary: s)
  case (Cons request requests)
  then show ?case by (simp add: handle_with_parser) (cases "handle c request s"; simp)
qed simp

lemma requests_parser:
  "fold_res (handle c) requests s = Inr s' \<Longrightarrow>
   map_option sn_parser (sr_connections s' x) = map_option sn_parser (sr_connections s x)"
  by (rule fold_res_invariant [of "handle c" requests s s'
        "\<lambda>t. map_option sn_parser (sr_connections t x) = map_option sn_parser (sr_connections s x)"])
    (simp_all add: handle_parser)

lemma segment_conv:
  assumes "sr_connections s c = Some cn" and "parse_http request_class seg (sn_parser cn) = Inr p"
  shows "take_segment c seg s = map_sum id (with_parser c (p\<lparr>sq_complete := []\<rparr>)) (fold_res (handle c) (sq_complete p) s)"
proof -
  have "s\<lparr>sr_connections := (sr_connections s)(c \<mapsto> cn\<lparr>sn_parser := p\<lparr>sq_complete := []\<rparr>\<rparr>)\<rparr> = with_parser c (p\<lparr>sq_complete := []\<rparr>) s"
    using assms(1) by (simp add: with_parser_def)
  with assms show ?thesis
    by (cases "fold_res (handle c) (sq_complete p) s")
      (simp_all add: take_segment_def requests_callback_def requests_with_parser)
qed

lemma segments_stream:
  assumes "sr_connections s c = Some cn" and "sq_complete (sn_parser cn) = []"
    and "fold_res (parse_http request_class) segs (sn_parser cn) = Inr t"
  shows "fold_res (take_segment c) segs s =
    map_sum id (with_parser c (t\<lparr>sq_complete := []\<rparr>)) (fold_res (handle c) (sq_complete t) s)"
  using assms
proof (induction segs arbitrary: s cn t)
  case Nil
  then have "with_parser c (t\<lparr>sq_complete := []\<rparr>) s = s" by (cases s) (auto simp: with_parser_def fun_upd_idem)
  with Nil show ?case by simp
next
  case (Cons seg segs)
  from Cons.prems(3) obtain p where p: "parse_http request_class seg (sn_parser cn) = Inr p"
    and rest: "fold_res (parse_http request_class) segs p = Inr t" by auto
  let ?p = "p\<lparr>sq_complete := []\<rparr>"
  have "fold_res (parse_http request_class) segs (?p\<lparr>sq_complete := sq_complete p @ sq_complete ?p\<rparr>) = Inr t"
    using rest by simp
  then obtain t' where t': "fold_res (parse_http request_class) segs ?p = Inr t'"
    and t: "t = t'\<lparr>sq_complete := sq_complete p @ sq_complete t'\<rparr>"
    unfolding parse_segments_complete by (cases "fold_res (parse_http request_class) segs ?p") auto
  note data = segment_conv [OF Cons.prems(1) p]
  show ?case
  proof (cases "fold_res (handle c) (sq_complete p) s")
    case (Inl e)
    with data t show ?thesis by (simp add: fold_res_append del: map_sum.simps) simp
  next
    case (Inr s1)
    have "map_option sn_parser (sr_connections s1 c) = Some (sn_parser cn)"
      using requests_parser [OF Inr, of c] Cons.prems(1) by simp
    then have "\<exists>cn'. sr_connections (with_parser c ?p s1) c = Some cn' \<and> sn_parser cn' = ?p"
      by (auto simp: with_parser_def)
    then obtain cn' where cn': "sr_connections (with_parser c ?p s1) c = Some cn'" "sn_parser cn' = ?p" by blast
    have "fold_res (take_segment c) segs (with_parser c ?p s1) =
      map_sum id (with_parser c (t'\<lparr>sq_complete := []\<rparr>)) (fold_res (handle c) (sq_complete t') (with_parser c ?p s1))"
      using Cons.IH [OF cn'(1)] cn'(2) t' by (simp add: id_def)
    then show ?thesis
      using Inr data t
      by (cases "fold_res (handle c) (sq_complete t') s1") (simp_all add: fold_res_append requests_with_parser)
  qed
qed

text \<open>Pipelined requests are handled one after the other, however their bytes are cut.\<close>

lemma requests_handled:
  assumes "\<forall>r \<in> set rs. wire_request r" and "map_res message_str rs = Inr bs"
    and "concat segs = concat bs" and "\<forall>x \<in> set segs. x \<noteq> []" and "segs \<noteq> []"
    and "sr_connections s c = Some cn" and "sn_parser cn = new_sequence request_class ()"
  shows "fold_res (take_segment c) segs s = fold_res (handle c) rs s"
proof -
  let ?t = "\<lparr>sq_buffer = [], sq_complete = rs, sq_current = new_request, sq_sub = ()\<rparr>"
  have parsed: "fold_res (parse_http request_class) segs (sn_parser cn) = Inr ?t"
    using requests_read_back [OF assms(1-5)] assms(7) by simp
  have new: "?t\<lparr>sq_complete := []\<rparr> = new_sequence request_class ()"
    by (simp add: new_sequence_def request_class_def)
  have "with_parser c (new_sequence request_class ()) s' = s'" if "fold_res (handle c) rs s = Inr s'" for s'
    using requests_parser [OF that, of c] assms(6,7)
    by (cases s') (auto simp: with_parser_def fun_upd_idem)
  then show ?thesis
    using segments_stream [OF assms(6) _ parsed] assms(7) new
    by (cases "fold_res (handle c) rs s") (simp_all add: new_sequence_def)
qed

end

interpretation execute: request_handler "server_request se" for se
proof
  show "server_request se c request (with_parser c p s) = map_sum id (with_parser c p) (server_request se c request s)" for c request p s
    by (auto simp: server_request_def with_parser_def server_enqueue_def Let_def bind_res_def fun_eq_iff
        split: option.splits sum.splits)
  show "map_option sn_parser (sr_connections s' x) = map_option sn_parser (sr_connections s x)"
    if "server_request se c request s = Inr s'" for c request s s' x
    using that by (auto simp: server_request_def server_enqueue_def Let_def elim!: bind_resE split: option.splits if_splits)
qed

definition server_take :: "server_env \<Rightarrow> nat \<Rightarrow> string \<Rightarrow> server_state \<Rightarrow> server_state res" where
  "server_take se c seg s = bind_res (server_data se c seg s) (\<lambda>(_, s'). Inr s')"

lemma server_take_segment: "server_take se = execute.take_segment se"
  by (simp add: fun_eq_iff server_take_def server_data_def execute.take_segment_def)

text \<open>C8: the execute server takes pipelined requests however their bytes are cut. On a connection with nothing
  pending, the callbacks for the segments have together the effect of handling each request once, in the order they
  were sent: their replies are queued in that order, a job is started for each that asks for one, and the connection is
  left with nothing pending.\<close>

theorem remote_requests_served:
  assumes "\<forall>r \<in> set rs. wire_request r" and "map_res message_str rs = Inr bs"
    and "concat segs = concat bs" and "\<forall>x \<in> set segs. x \<noteq> []" and "segs \<noteq> []"
    and "sr_connections s c = Some cn" and "sn_parser cn = new_sequence request_class ()"
  shows "fold_res (server_take se c) segs s = fold_res (server_request se c) rs s"
  unfolding server_take_segment by (rule execute.requests_handled [OF assms])

text \<open>A server with one connection, for which every request is a job.\<close>

definition listening :: server_state where
  "listening = \<lparr>sr_disk = Map.empty,
     sr_connections = [0 \<mapsto> \<lparr>sn_parser = new_sequence request_class (), sn_write_buffer = []\<rparr>],
     sr_next_id = 1, sr_jobs = Map.empty\<rparr>"

definition listening_env :: server_env where
  "listening_env = \<lparr>se_world = toy_world, se_request_of_json = (\<lambda>json. Some \<lparr>req_thunks = [], req_storage_backend = json,
     req_timelog = False\<rparr>), se_response_to_json = (\<lambda>_. None)\<rparr>"

theorem remote_requests_served_witness:
  "\<exists>bs s'. map_res message_str [gg_message ''{}'', gg_message ''x''] = Inr bs \<and>
    fold_res (server_take listening_env 0) (map (\<lambda>ch. [ch]) (concat bs)) listening = Inr s' \<and>
    map_option sj_request (sr_jobs s' 1) = Some (gg_message ''{}'') \<and>
    map_option sj_request (sr_jobs s' 2) = Some (gg_message ''x'') \<and> sr_next_id s' = 3"
proof -
  let ?ms = "[gg_message ''{}'', gg_message ''x'']"
  obtain bs where bs: "map_res message_str ?ms = Inr bs" "concat bs \<noteq> []"
    by (auto simp: message_str_def gg_message_def)
  have wire: "\<forall>m \<in> set ?ms. wire_request m" by (simp add: gg_message_wire)
  have segs: "concat (map (\<lambda>ch. [ch]) (concat bs)) = concat bs" by (induction "concat bs") simp_all
  have conn: "sr_connections listening 0 = Some \<lparr>sn_parser = new_sequence request_class (), sn_write_buffer = []\<rparr>"
    by (simp add: listening_def)
  have line: "take (length reset_line) (hm_first_line (gg_message x)) \<noteq> reset_line" "hm_body (gg_message x) = x" for x
    by (simp_all add: gg_message_def reset_line_def)
  have "fold_res (server_take listening_env 0) (map (\<lambda>ch. [ch]) (concat bs)) listening =
      fold_res (server_request listening_env 0) ?ms listening"
    using bs(2) by (intro remote_requests_served [OF wire bs(1) segs _ _ conn]) auto
  also have "\<dots> = Inr (listening\<lparr>sr_jobs := [1 \<mapsto> \<lparr>sj_connection = 0, sj_request = gg_message ''{}'',
        sj_items = \<lparr>req_thunks = [], req_storage_backend = ''{}'', req_timelog = False\<rparr>\<rparr>,
      2 \<mapsto> \<lparr>sj_connection = 0, sj_request = gg_message ''x'',
        sj_items = \<lparr>req_thunks = [], req_storage_backend = ''x'', req_timelog = False\<rparr>\<rparr>], sr_next_id := 3\<rparr>)"
    by (simp add: server_request_def line listening_env_def listening_def Let_def numeral_2_eq_2)
  finally show ?thesis using bs(1) by auto
qed

section \<open>The answer as a message\<close>

definition json_response :: "http_message \<Rightarrow> string \<Rightarrow> http_response" where
  "json_response request json = \<lparr>hm_expected = (True, of_nat (length json)), hm_first_line = ''HTTP/1.1 200 OK'',
     hm_headers = [\<lparr>hh_key = ''Content-Length'', hh_value = nat_to_string (length json)\<rparr>,
                   \<lparr>hh_key = ''Content-Type'', hh_value = ''application/octet-stream''\<rparr>],
     hm_body = json, hm_state = COMPLETE, hr_request = request, hr_parser = None\<rparr>"

lemma status_code_ok: "hm_first_line m = ''HTTP/1.1 200 OK'' \<Longrightarrow> hm_state m \<noteq> FIRST_LINE_PENDING \<Longrightarrow>
  status_code m = Inr ''200''"
proof -
  assume m: "hm_first_line m = ''HTTP/1.1 200 OK''" "hm_state m \<noteq> FIRST_LINE_PENDING"
  have "split ''HTTP/1.1 200 OK'' '' '' = [''HTTP/1.1'', ''200'', ''OK'']" by code_simp
  with m show ?thesis by (cases "hm_state m") (simp_all add: status_code_def less_http_state_def)
qed

lemma calculate_answer:
  assumes "length json < 2 ^ 63" and "hm_first_line m = ''HTTP/1.1 200 OK''" and "hm_state m = BODY_PENDING"
    and "hm_headers m = [\<lparr>hh_key = ''Content-Length'', hh_value = nat_to_string (length json)\<rparr>,
                         \<lparr>hh_key = ''Content-Type'', hh_value = v\<rparr>]"
    and "is_head (hr_request m) = Inr False"
  shows "calculate_response m = Inr (m\<lparr>hm_expected := (True, of_nat (length json))\<rparr>)"
proof -
  have eq: "equivalent_strings ''Content-Length'' ''Content-Length''"
    "\<not> equivalent_strings ''Content-Length'' ''Transfer-Encoding''"
    "\<not> equivalent_strings ''Content-Type'' ''Transfer-Encoding''" by code_simp+
  have code: "status_code m = Inr ''200''" using assms(2,3) by (simp add: status_code_ok)
  show ?thesis
    using assms eq code
    by (simp add: calculate_response_def no_body_def is_chunked_def has_header_def get_header_value_def
        strict_atoi_nat set_expected_body_size_def)
qed

lemma build_answer:
  assumes "length json < 2 ^ 63" and "is_head request = Inr False"
  shows "build_response request ''HTTP/1.1 200 OK''
     [\<lparr>hh_key = ''Content-Length'', hh_value = nat_to_string (length json)\<rparr>,
      \<lparr>hh_key = ''Content-Type'', hh_value = ''application/octet-stream''\<rparr>] json = Inr (json_response request json)"
proof -
  have small: "unat (word_of_nat (length json) :: 64 word) = length json"
    using assms by (simp add: unat_of_nat take_bit_nat_eq_self)
  show ?thesis
    unfolding build_response_def
    by (simp add: set_request_def set_first_line_def new_response_def add_header_def done_with_headers_def
        calculate_answer [OF assms(1)] assms(2) read_in_body_def body_size_is_known_def expected_body_size_def small
        less_http_state_def json_response_def Let_def)
qed

lemma answer_wire:
  assumes "length json < 2 ^ 63" and "is_head request = Inr False"
  shows "wire_response (json_response request json)"
proof -
  have "find_sub CRLF (hm_first_line (json_response request json)) = None"
    by (simp add: json_response_def) code_simp
  moreover have "wire_header \<lparr>hh_key = ''Content-Type'', hh_value = ''application/octet-stream''\<rparr>" by code_simp
  ultimately show ?thesis
    using assms content_length_wire
    by (simp add: wire_response_def) (simp add: json_response_def calculate_answer [OF assms(1)])
qed

lemma gg_message_not_head: "is_head (gg_message payload) = Inr False"
  by (simp add: is_head_def gg_message_def less_http_state_def)

section \<open>What the server reads from its cache\<close>

lemma cache_check_length: "cache_check g h d = Inr (Some r) \<Longrightarrow> length r = hash_length"
  by (auto simp: cache_check_def read_prefix_def split: option.splits node.splits if_splits)

definition server_knows :: "world \<Rightarrow> disk \<Rightarrow> string \<Rightarrow> response_output \<Rightarrow> bool" where
  "server_knows w d h out \<longleftrightarrow>
     cache_check (wd_gg_dir w) (for_output h (ro_tag out)) d = Inr (Some (ro_hash out)) \<and>
     (take 1 (ro_hash out) = ''T'' \<longrightarrow>
        (\<exists>c. read_file (blob (wd_gg_dir w) (ro_hash out)) d = Inr c \<and> ro_data out = wd_base64_encode w c))"

lemma output_item_knows:
  assumes "output_item w d tag r = Inr out" and "cache_check (wd_gg_dir w) (for_output h tag) d = Inr (Some r)"
  shows "ro_tag out = tag" and "server_knows w d h out"
  using assms
  by (auto simp: output_item_def server_knows_def Let_def elim!: bind_resE split: if_splits)

lemma output_items_knows:
  "output_items w d h tags = Inr (Some outs) \<Longrightarrow>
   map ro_tag outs = tags \<and> (\<forall>out \<in> set outs. server_knows w d h out)"
proof (induction tags arbitrary: outs)
  case Nil
  then show ?case by simp
next
  case (Cons tag tags)
  from Cons.prems obtain r out rest where
    r: "cache_check (wd_gg_dir w) (for_output h tag) d = Inr (Some r)" "output_item w d tag r = Inr out"
    and rest: "output_items w d h tags = Inr (Some rest)" and outs: "outs = out # rest"
    by (auto elim!: bind_resE split: option.splits)
  from output_item_knows [OF r(2,1)] Cons.IH [OF rest] outs show ?case by simp
qed

section \<open>What the client stores\<close>

lemma store_output_blob:
  assumes "store_output w h out d = Inr d'" and "cache_key_ok h" and "cache_key_ok (ro_hash out)"
    and "cache_key_ok c"
  shows "d' (blob (wd_gg_dir w) c) =
    (if c = ro_hash out \<and> ro_data out \<noteq> [] then Some (Regular (wd_base64_decode w (ro_data out)) (final_mode None))
     else d (blob (wd_gg_dir w) c))"
proof -
  from assms(1) obtain d1 where
    d1: "cache_insert (wd_kernel w) (wd_gg_dir w) (for_output h (ro_tag out)) (ro_hash out) d = Inr d1"
    and rest: "(if length (ro_data out) > 0
       then atomic_create (wd_kernel w) (wd_base64_decode w (ro_data out)) (blob (wd_gg_dir w) (ro_hash out)) None d1
       else Inr d1) = Inr d'"
    unfolding store_output_def by (rule bind_resE)
  have "d1 (blob (wd_gg_dir w) c) = d (blob (wd_gg_dir w) c)"
    using cache_insert_disk [OF d1] blob_not_reduction [OF assms(4), of "for_output h (ro_tag out)"] assms(2) by simp
  with rest show ?thesis
    using blob_inj [OF assms(4,3)] by (auto split: if_splits dest!: atomic_create_Inr)
qed

lemma store_output_blobs:
  assumes "fold_res (store_output w h) outs d = Inr d'" and "cache_key_ok h"
    and "\<forall>out \<in> set outs. cache_key_ok (ro_hash out)" and "cache_key_ok c"
    and "\<forall>out \<in> set outs. ro_hash out = c \<longrightarrow> ro_data out \<noteq> [] \<and> wd_base64_decode w (ro_data out) = x"
  shows "d' (blob (wd_gg_dir w) c) =
    (if c \<in> ro_hash ` set outs then Some (Regular x (final_mode None)) else d (blob (wd_gg_dir w) c))"
  using assms(1,3,5)
proof (induction outs arbitrary: d)
  case Nil
  then show ?case by simp
next
  case (Cons out outs)
  from Cons.prems(1) obtain d1 where 1: "store_output w h out d = Inr d1"
    and rest: "fold_res (store_output w h) outs d1 = Inr d'" by auto
  from Cons.prems have "cache_key_ok (ro_hash out)" by simp
  note one = store_output_blob [OF 1 assms(2) this assms(4)]
  from Cons.IH [OF rest] Cons.prems one show ?case by auto
qed

section \<open>From the server's cache to the client's\<close>

definition answer_of :: "string \<Rightarrow> response_output list \<Rightarrow> pb_execution_response" where
  "answer_of h outs = \<lparr>per_executed = [\<lparr>ri_thunk_hash = h, ri_outputs = outs\<rparr>], per_return_code = 0, per_stdout = []\<rparr>"

definition succeeded_with :: "string \<Rightarrow> response_output list \<Rightarrow> execution_response" where
  "succeeded_with h outs = \<lparr>er_status = Success, er_thunk_hash = h, er_outputs = outs, er_stdout = []\<rparr>"

lemma parse_answer:
  "from_json json = Some (answer_of h outs) \<Longrightarrow> parse_response from_json json = Inr (succeeded_with h outs)"
  by (simp add: parse_response_def answer_of_def succeeded_with_def job_status_of_def Let_def)

lemma server_answer_ok:
  assumes "req_thunks r = [item]" and "output_items (se_world se) d (req_hash item) (req_outputs item) = Inr (Some outs)"
    and "se_response_to_json se (answer_of (req_hash item) outs) = Some json" and "length json < 2 ^ 63"
    and "is_head request = Inr False"
  shows "server_answer se request r 0 d = Inr (json_response request json)"
  using assms build_answer [OF assms(4,5)]
  by (simp add: server_answer_def answer_of_def)

lemma client_takes_answer:
  assumes "wd_from_json w json = Some (answer_of (fl_hash f) outs)"
    and "store_outputs w (succeeded_with (fl_hash f) outs) d = Inr d'"
  shows "take_answer w f (json_response request json) d = Inr (succeeded_with (fl_hash f) outs, d')"
    and "on_response_gg w f (json_response request json) e d =
      Inr (Succeeded (fl_hash f) (map (\<lambda>out. \<lparr>out_hash = ro_hash out, out_tag = ro_tag out\<rparr>) outs),
           e\<lparr>en_running := en_running e - 1\<rparr>, d')"
proof -
  have take_ok: "take_answer w f (json_response request json) d = Inr (succeeded_with (fl_hash f) outs, d')"
    using assms parse_answer [of "wd_from_json w" json] by (simp add: take_answer_def json_response_def succeeded_with_def)
  have code: "status_code (json_response request json) = Inr ''200''"
    by (rule status_code_ok) (simp_all add: json_response_def)
  show "take_answer w f (json_response request json) d = Inr (succeeded_with (fl_hash f) outs, d')" by (rule take_ok)
  show "on_response_gg w f (json_response request json) e d =
      Inr (Succeeded (fl_hash f) (map (\<lambda>out. \<lparr>out_hash = ro_hash out, out_tag = ro_tag out\<rparr>) outs),
           e\<lparr>en_running := en_running e - 1\<rparr>, d')"
    using take_ok code by (simp add: on_response_gg_def response_outputs_def succeeded_with_def Let_def)
qed

text \<open>A thunk among the outputs is stored with the bytes the server has for it.\<close>

lemma client_blobs:
  assumes store: "store_outputs w (succeeded_with h outs) d = Inr d'"
    and keys: "cache_key_ok h" "\<forall>out \<in> set outs. cache_key_ok (ro_hash out)"
    and knows: "\<forall>out \<in> set outs. server_knows ws ds h out"
    and codec: "\<And>x. wd_base64_decode w (wd_base64_encode ws x) = x" "\<And>x. wd_base64_encode ws x = [] \<longleftrightarrow> x = []"
    and out: "out \<in> set outs" "take 1 (ro_hash out) = ''T''"
    and full: "read_file (blob (wd_gg_dir ws) (ro_hash out)) ds \<noteq> Inr []"
  shows "read_file (blob (wd_gg_dir w) (ro_hash out)) d' = read_file (blob (wd_gg_dir ws) (ro_hash out)) ds"
proof -
  from knows out obtain c where c: "read_file (blob (wd_gg_dir ws) (ro_hash out)) ds = Inr c"
    by (auto simp: server_knows_def)
  from store obtain first rest d1 where outs: "outs = first # rest"
    and loop: "fold_res (store_output w h) outs d = Inr d1"
    and main: "cache_insert (wd_kernel w) (wd_gg_dir w) h (ro_hash first) d1 = Inr d'"
    by (cases outs) (auto simp: store_outputs_def succeeded_with_def elim!: bind_resE)
  have key: "cache_key_ok (ro_hash out)" using keys(2) out(1) by blast
  have same: "\<forall>x \<in> set outs. ro_hash x = ro_hash out \<longrightarrow> ro_data x \<noteq> [] \<and> wd_base64_decode w (ro_data x) = c"
  proof (intro ballI impI)
    fix x assume x: "x \<in> set outs" "ro_hash x = ro_hash out"
    with knows out(2) c have "ro_data x = wd_base64_encode ws c" by (auto simp: server_knows_def)
    with c full codec show "ro_data x \<noteq> [] \<and> wd_base64_decode w (ro_data x) = c" by auto
  qed
  have "d1 (blob (wd_gg_dir w) (ro_hash out)) = Some (Regular c (final_mode None))"
    using store_output_blobs [OF loop keys key same] out(1) by auto
  then have "d' (blob (wd_gg_dir w) (ro_hash out)) = Some (Regular c (final_mode None))"
    using cache_insert_disk [OF main] blob_not_reduction [OF key keys(1)] by simp
  then show ?thesis unfolding c by (simp add: read_file_def sys_stat_def read_prefix_def)
qed

text \<open>C7: the way of a result from worker to client. When the child of a one-thunk job ends with status 0 and the server's
  cache has all its outputs, the server queues an answer; the engine that sent the request parses from those
  bytes one response, takes it for a success with those very outputs, and afterwards its cache says of every
  output tag what the server's cache says of it, and of the thunk itself the first output. Every non-empty thunk among the
  outputs is in the client's store with the server's bytes.\<close>

theorem remote_answer_cached:
  assumes job: "sr_jobs s i = Some \<lparr>sj_connection = c, sj_request = gg_message payload, sj_items = r\<rparr>"
      "sr_connections s c = Some conn" "req_thunks r = [item]" "req_outputs item \<noteq> []" "distinct (req_outputs item)"
      "cache_key_ok (req_hash item)" "fl_hash f = req_hash item"
    and have_outs: "output_items (se_world se) (sr_disk s) (req_hash item) (req_outputs item) = Inr (Some outs)"
      "\<forall>out \<in> set outs. cache_key_ok (ro_hash out)"
    and json: "se_response_to_json se (answer_of (req_hash item) outs) = Some json"
      "wd_from_json w json = Some (answer_of (req_hash item) outs)" "length json < 2 ^ 63"
    and base64: "\<And>x. wd_base64_decode w (wd_base64_encode (se_world se) x) = x"
      "\<And>x. wd_base64_encode (se_world se) x = [] \<longleftrightarrow> x = []"
    and store: "store_outputs w (succeeded_with (req_hash item) outs) d = Inr d'"
  shows "\<exists>bytes response.
    server_done se i 0 s = Inr (server_enqueue c bytes (s\<lparr>sr_jobs := (sr_jobs s)(i := None)\<rparr>)) \<and>
    parse_http response_class bytes (new_request_arrived (gg_message payload) (new_sequence response_class [])) =
      Inr \<lparr>sq_buffer = [], sq_complete = [response], sq_current = new_response, sq_sub = []\<rparr> \<and>
    on_response_gg w f response e d =
      Inr (Succeeded (req_hash item) (map (\<lambda>out. \<lparr>out_hash = ro_hash out, out_tag = ro_tag out\<rparr>) outs),
           e\<lparr>en_running := en_running e - 1\<rparr>, d') \<and>
    (\<forall>tag \<in> set (req_outputs item).
       cache_check (wd_gg_dir w) (for_output (req_hash item) tag) d' =
         cache_check (wd_gg_dir (se_world se)) (for_output (req_hash item) tag) (sr_disk s)) \<and>
    cache_check (wd_gg_dir w) (req_hash item) d' = Inr (Some (ro_hash (hd outs))) \<and>
    (\<forall>out \<in> set outs. take 1 (ro_hash out) = ''T'' \<longrightarrow>
       read_file (blob (wd_gg_dir (se_world se)) (ro_hash out)) (sr_disk s) \<noteq> Inr [] \<longrightarrow>
       read_file (blob (wd_gg_dir w) (ro_hash out)) d' =
         read_file (blob (wd_gg_dir (se_world se)) (ro_hash out)) (sr_disk s))"
proof -
  let ?r = "json_response (gg_message payload) json"
  let ?h = "req_hash item"
  from output_items_knows [OF have_outs(1)]
  have tags: "map ro_tag outs = req_outputs item"
    and knows: "\<forall>out \<in> set outs. server_knows (se_world se) (sr_disk s) ?h out" by blast+
  note wire = answer_wire [OF json(3) gg_message_not_head]
  obtain bytes where bytes: "message_str ?r = Inr bytes" "bytes \<noteq> []"
    by (simp add: message_str_def json_response_def)
  have done_ok: "server_done se i 0 s = Inr (server_enqueue c bytes (s\<lparr>sr_jobs := (sr_jobs s)(i := None)\<rparr>))"
    using job(1,2) bytes server_answer_ok [OF job(3) have_outs(1) json(1,3) gg_message_not_head]
    by (simp add: server_done_def Let_def)
  have parsed: "parse_http response_class bytes (new_request_arrived (gg_message payload) (new_sequence response_class [])) =
      Inr \<lparr>sq_buffer = [], sq_complete = [?r], sq_current = new_response, sq_sub = []\<rparr>"
    using response_read_back [OF wire bytes] by (simp add: json_response_def)
  note taken = client_takes_answer [of w json f outs d d', unfolded job(7), OF json(2) store]
  have "\<forall>out \<in> set outs. length (ro_hash out) = hash_length"
    using knows by (auto simp: server_knows_def dest: cache_check_length)
  moreover have "outs \<noteq> []" using tags job(4) by auto
  ultimately have ok: "answer_ok (succeeded_with ?h outs)"
    using tags job(5,6) have_outs(2) by (simp add: answer_ok_def succeeded_with_def)
  have succ: "er_status (succeeded_with ?h outs) = Success" by (simp add: succeeded_with_def)
  note cached = take_answer_cache [OF taken(1) succ ok]
  have agree: "cache_check (wd_gg_dir w) (for_output ?h tag) d' =
      cache_check (wd_gg_dir (se_world se)) (for_output ?h tag) (sr_disk s)" if tag: "tag \<in> set (req_outputs item)" for tag
  proof -
    from tag obtain out where "out \<in> set outs" "ro_tag out = tag" unfolding tags [symmetric] by auto
    with cached(3) [of out] knows job(7) show ?thesis by (auto simp: succeeded_with_def server_knows_def)
  qed
  show ?thesis
  proof (intro exI conjI ballI impI)
    show "cache_check (wd_gg_dir w) ?h d' = Inr (Some (ro_hash (hd outs)))"
      using cached(2) job(7) by (simp add: succeeded_with_def)
  next
    fix out assume "out \<in> set outs" "take 1 (ro_hash out) = ''T''"
      "read_file (blob (wd_gg_dir (se_world se)) (ro_hash out)) (sr_disk s) \<noteq> Inr []"
    with client_blobs [OF store job(6) have_outs(2) knows base64]
    show "read_file (blob (wd_gg_dir w) (ro_hash out)) d' =
      read_file (blob (wd_gg_dir (se_world se)) (ro_hash out)) (sr_disk s)" by blast
  qed (use done_ok parsed taken(2) agree in auto)
qed

section \<open>A server that has run one thunk, whose output is another thunk\<close>

definition served :: response_output where
  "served = \<lparr>ro_tag = ''o'', ro_hash = CHR ''T'' # replicate 51 CHR ''0'', ro_size = 5, ro_executable = False,
     ro_data = ''thunk''\<rparr>"

definition served_disk :: disk where
  "served_disk = [reduction ''/g'' ''TA#o'' \<mapsto> Regular (ro_hash served) 256,
     blob ''/g'' (ro_hash served) \<mapsto> Regular ''thunk'' 256]"

definition serving_item :: request_item where
  "serving_item = \<lparr>req_hash = ''TA'', req_data = [], req_outputs = [''o'']\<rparr>"

definition serving :: server_state where
  "serving = \<lparr>sr_disk = served_disk,
     sr_connections = [0 \<mapsto> \<lparr>sn_parser = new_sequence request_class (), sn_write_buffer = []\<rparr>],
     sr_next_id = 2,
     sr_jobs = [1 \<mapsto> \<lparr>sj_connection = 0, sj_request = gg_message ''{}'',
       sj_items = \<lparr>req_thunks = [serving_item], req_storage_backend = [], req_timelog = False\<rparr>\<rparr>]\<rparr>"

definition serving_env :: server_env where
  "serving_env = \<lparr>se_world = toy_world, se_request_of_json = (\<lambda>_. None), se_response_to_json = (\<lambda>_. Some ''{}'')\<rparr>"

definition asking_world :: world where
  "asking_world = toy_world\<lparr>wd_from_json := (\<lambda>_. Some (answer_of ''TA'' [served]))\<rparr>"

lemma served_outputs: "output_items toy_world served_disk ''TA'' [''o''] = Inr (Some [served])"
  by code_simp

lemma served_stored: "store_outputs asking_world (succeeded_with ''TA'' [served]) Map.empty =
  Inr [reduction ''/g'' ''TA#o'' \<mapsto> Regular (ro_hash served) 384, blob ''/g'' (ro_hash served) \<mapsto> Regular ''thunk'' 384,
       reduction ''/g'' ''TA'' \<mapsto> Regular (ro_hash served) 384]"
proof -
  show ?thesis
    by (simp add: store_outputs_def store_output_def succeeded_with_def cache_insert_def asking_world_def toy_world_def
        plain_kernel_create final_mode_def reduction_def reductions_def blob_def blobs_def path_append_def temp_name_def for_output_def served_def)
qed

theorem remote_answer_cached_witness:
  "\<exists>bytes response d'.
    server_done serving_env 1 0 serving = Inr (server_enqueue 0 bytes (serving\<lparr>sr_jobs := (sr_jobs serving)(1 := None)\<rparr>)) \<and>
    on_response_gg asking_world \<lparr>fl_hash = ''TA'', fl_outputs = []\<rparr> response toy_engine Map.empty =
      Inr (Succeeded ''TA'' [\<lparr>out_hash = ro_hash served, out_tag = ''o''\<rparr>], toy_engine\<lparr>en_running := - 1\<rparr>, d') \<and>
    cache_check ''/g'' ''TA#o'' d' = Inr (Some (ro_hash served)) \<and>
    read_file (blob ''/g'' (ro_hash served)) d' = Inr ''thunk''"
proof -
  let ?f = "\<lparr>fl_hash = ''TA'', fl_outputs = []\<rparr>"
  have e: "se_world serving_env = toy_world" "se_response_to_json serving_env p = Some ''{}''"
    "sr_disk serving = served_disk" "wd_gg_dir toy_world = ''/g''" "wd_gg_dir asking_world = ''/g''" for p
    by (simp_all add: serving_env_def serving_def toy_world_def asking_world_def)
  have i: "req_hash serving_item = ''TA''" "req_outputs serving_item = [''o'']" by (simp_all add: serving_item_def)
  have keys: "cache_key_ok ''TA''" "cache_key_ok (ro_hash served)" by (simp_all add: cache_key_ok_def served_def)
  have there: "cache_check ''/g'' ''TA#o'' served_disk = Inr (Some (ro_hash served))"
    "read_file (blob ''/g'' (ro_hash served)) served_disk = Inr ''thunk''" by code_simp+
  have tag: "take 1 (ro_hash served) = ''T''" "ro_tag served = ''o''" "for_output ''TA'' ''o'' = ''TA#o''"
    by (simp_all add: served_def for_output_def)
  from remote_answer_cached [of serving 1 0 "''{}''" _ _ serving_item ?f serving_env "[served]" "''{}''" asking_world Map.empty _ toy_engine,
      unfolded e i, OF _ _ _ _ _ keys(1) _ served_outputs _ _ _ _ _ _ served_stored]
  show ?thesis
    using keys(2) there tag
    by (fastforce simp: serving_def asking_world_def toy_world_def toy_engine_def)
qed

end
