(* ===== verification/MeowWorker.thy ===== *)
theory MeowWorker
  imports MeowLaws ExecuteServerLaws
begin

text \<open>
  The worker at the other end of a meow connection, \<open>src/frontend/gg-meow-worker.cc\<close>: it stores the
  objects it is sent, runs the thunks in child processes and reports their outputs. The protobuf encodings are
  parameters; a message that cannot be decoded is whatever the decoder leaves.
\<close>

record worker_env =
  wk_world :: world
  wk_decode_item :: "string \<Rightarrow> request_item"
  wk_encode_item :: "pb_response_item \<Rightarrow> string"

record worker_state =
  wk_parser :: meow_parser
  wk_written :: string
  wk_jobs :: "nat \<rightharpoonup> request_item"
  wk_next :: nat
  wk_disk :: disk

definition new_worker :: "disk \<Rightarrow> worker_state" where
  "new_worker d = \<lparr>wk_parser = new_meow_parser, wk_written = meow_str (new_message Hey []), wk_jobs = Map.empty,
     wk_next = 0, wk_disk = d\<rparr>"

definition worker_send :: "meow_message \<Rightarrow> worker_state \<Rightarrow> worker_state" where
  "worker_send m s = s\<lparr>wk_written := wk_written s @ meow_str m\<rparr>"

section \<open>Messages of the coordinator\<close>

definition worker_execute :: "worker_env \<Rightarrow> request_item \<Rightarrow> worker_state \<Rightarrow> worker_state res" where
  "worker_execute we r s =
     (let w = wk_world we
      in bind_res (atomic_create (wd_kernel w) (wd_base64_decode w (req_data r)) (blob (wd_gg_dir w) (req_hash r)) None
                     (wk_disk s)) (\<lambda>d.
           Inr (s\<lparr>wk_disk := d, wk_jobs := (wk_jobs s)(wk_next s \<mapsto> r\<lparr>req_data := []\<rparr>), wk_next := wk_next s + 1\<rparr>)))"

definition worker_message :: "worker_env \<Rightarrow> meow_message \<Rightarrow> worker_state \<Rightarrow> worker_state res" where
  "worker_message we m s =
     (let w = wk_world we
      in case mm_opcode m of
           Put \<Rightarrow>
             bind_res (handle_put_message (wd_sha256 w) (wd_kernel w) (wd_gg_dir w) m (wk_disk s)) (\<lambda>(_, d).
               Inr (s\<lparr>wk_disk := d\<rparr>))
         | Get \<Rightarrow>
             bind_res (read_file (blob (wd_gg_dir w) (mm_payload m)) (wk_disk s)) (\<lambda>object_data.
               Inr (worker_send (new_message Put object_data) s))
         | Execute \<Rightarrow> worker_execute we (wk_decode_item we (mm_payload m)) s
         | _ \<Rightarrow> Inl (Runtime_error ''unhandled opcode''))"

text \<open>The messages that are complete, after every call of the loop.\<close>

definition worker_serve :: "worker_env \<Rightarrow> worker_state \<Rightarrow> worker_state res" where
  "worker_serve we s =
     fold_res (worker_message we) (mp_completed (wk_parser s)) (s\<lparr>wk_parser := (wk_parser s)\<lparr>mp_completed := []\<rparr>\<rparr>)"

section \<open>Child processes\<close>

definition worker_command :: "worker_env \<Rightarrow> string \<Rightarrow> string list" where
  "worker_command we h =
     [''gg-execute-static'', ''--get-dependencies'', ''--put-output'', ''--cleanup'', h]
     @ (if wd_environ (wk_world we) ''GG_EXECUTE_TIMELOG'' \<noteq> None then [''--timelog''] else [])"

text \<open>No output goes along with its description, not even a thunk.\<close>

definition worker_output :: "world \<Rightarrow> disk \<Rightarrow> string \<Rightarrow> string \<Rightarrow> response_output res" where
  "worker_output w d h tag =
     bind_res (cache_check (wd_gg_dir w) (for_output h tag) d) (\<lambda>result.
       case result of
         None \<Rightarrow> Inl (Runtime_error ''output not found'')
       | Some r \<Rightarrow>
           bind_res (file_size (blob (wd_gg_dir w) r) d) (\<lambda>size.
           bind_res (is_executable (blob (wd_gg_dir w) r) d) (\<lambda>executable.
             Inr \<lparr>ro_tag = tag, ro_hash = r, ro_size = of_nat size, ro_executable = executable, ro_data = []\<rparr>)))"

definition worker_done :: "worker_env \<Rightarrow> nat \<Rightarrow> nat \<Rightarrow> worker_state \<Rightarrow> worker_state res" where
  "worker_done we i status s =
     (case wk_jobs s i of
        None \<Rightarrow> Inl Undefined_behaviour
      | Some r \<Rightarrow>
          let s1 = s\<lparr>wk_jobs := (wk_jobs s)(i := None)\<rparr>
          in if status \<noteq> 0 then Inr (worker_send (new_message ExecutionFailed (req_hash r)) s1)
             else bind_res (map_res (worker_output (wk_world we) (wk_disk s) (req_hash r)) (req_outputs r)) (\<lambda>outs.
                  Inr (worker_send (new_message Executed
                         (wk_encode_item we \<lparr>ri_thunk_hash = req_hash r, ri_outputs = outs\<rparr>)) s1)))"

section \<open>The loop\<close>

datatype worker_report = Received string | Child_ended nat nat | Closed

fun worker_event :: "worker_env \<Rightarrow> worker_report \<Rightarrow> worker_state \<Rightarrow> worker_state option res" where
  "worker_event we (Received data) s =
     bind_res (meow_parse data (wk_parser s)) (\<lambda>p. Inr (Some (s\<lparr>wk_parser := p\<rparr>)))"
| "worker_event we (Child_ended i status) s = bind_res (worker_done we i status s) (\<lambda>s'. Inr (Some s'))"
| "worker_event we Closed s = Inr None"

text \<open>One round serves what the loop reports and then the messages. \<open>None\<close>: the coordinator has closed
  the connection, and the program is over.\<close>

fun worker_round :: "worker_env \<Rightarrow> worker_report list \<Rightarrow> worker_state \<Rightarrow> worker_state option res" where
  "worker_round we [] s = bind_res (worker_serve we s) (\<lambda>s'. Inr (Some s'))"
| "worker_round we (ev # evs) s =
     bind_res (worker_event we ev s) (\<lambda>r. case r of None \<Rightarrow> Inr None | Some s' \<Rightarrow> worker_round we evs s')"

fun worker_run :: "worker_env \<Rightarrow> worker_report list list \<Rightarrow> worker_state \<Rightarrow> worker_state option res" where
  "worker_run we [] s = Inr (Some s)"
| "worker_run we (evs # rounds) s =
     bind_res (worker_round we evs s) (\<lambda>r. case r of None \<Rightarrow> Inr None | Some s' \<Rightarrow> worker_run we rounds s')"

section \<open>Messages in pieces\<close>

lemma meow_loop_completed:
  "meow_loop (p\<lparr>mp_completed := cs @ mp_completed p\<rparr>) =
   map_sum id (\<lambda>q. q\<lparr>mp_completed := cs @ mp_completed q\<rparr>) (meow_loop p)"
proof (induction "length (mp_raw p)" arbitrary: p rule: less_induct)
  case less
  show ?case
  proof (cases "meow_front (mp_raw p)")
    case (Takes m n)
    let ?p = "p\<lparr>mp_raw := drop n (mp_raw p), mp_completed := mp_completed p @ [m]\<rparr>"
    have "meow_loop (p\<lparr>mp_completed := cs @ mp_completed p\<rparr>) = meow_loop (?p\<lparr>mp_completed := cs @ mp_completed ?p\<rparr>)"
      using Takes by (subst meow_loop_front) (cases p, simp)
    also have "\<dots> = map_sum id (\<lambda>q. q\<lparr>mp_completed := cs @ mp_completed q\<rparr>) (meow_loop ?p)"
      using meow_front_drop [OF Takes] by (intro less) simp
    also have "meow_loop ?p = meow_loop p" by (subst (2) meow_loop_front) (simp add: Takes)
    finally show ?thesis .
  qed (subst (1 2) meow_loop_front; simp)+
qed

lemma meow_parse_completed:
  "meow_parse data (p\<lparr>mp_completed := cs @ mp_completed p\<rparr>) =
   map_sum id (\<lambda>q. q\<lparr>mp_completed := cs @ mp_completed q\<rparr>) (meow_parse data p)"
proof -
  have "p\<lparr>mp_completed := cs @ mp_completed p, mp_raw := mp_raw p @ data\<rparr> =
      p\<lparr>mp_raw := mp_raw p @ data, mp_completed := cs @ mp_completed (p\<lparr>mp_raw := mp_raw p @ data\<rparr>)\<rparr>" by (cases p) simp
  then show ?thesis using meow_loop_completed [of cs "p\<lparr>mp_raw := mp_raw p @ data\<rparr>"] by (cases p) (simp add: meow_parse_def)
qed

lemma meow_segments_completed:
  "fold_res meow_parse segs (p\<lparr>mp_completed := cs @ mp_completed p\<rparr>) =
   map_sum id (\<lambda>q. q\<lparr>mp_completed := cs @ mp_completed q\<rparr>) (fold_res meow_parse segs p)"
proof (induction segs arbitrary: p)
  case (Cons seg segs)
  then show ?case by (simp add: meow_parse_completed) (cases "meow_parse seg p"; simp)
qed simp

lemma worker_message_parser:
  "worker_message we m (s\<lparr>wk_parser := p\<rparr>) = map_sum id (\<lambda>t. t\<lparr>wk_parser := p\<rparr>) (worker_message we m s)"
  by (auto simp: worker_message_def worker_execute_def worker_send_def Let_def bind_res_def split: opcode.splits sum.splits)

lemma worker_messages_parser:
  "fold_res (worker_message we) ms (s\<lparr>wk_parser := p\<rparr>) =
   map_sum id (\<lambda>t. t\<lparr>wk_parser := p\<rparr>) (fold_res (worker_message we) ms s)"
proof (induction ms arbitrary: s)
  case (Cons m ms)
  then show ?case by (simp add: worker_message_parser) (cases "worker_message we m s"; simp)
qed simp

lemma worker_round_received:
  assumes "meow_parse seg (wk_parser s) = Inr p"
  shows "worker_round we [Received seg] s = map_sum id (\<lambda>t. Some (t\<lparr>wk_parser := p\<lparr>mp_completed := []\<rparr>\<rparr>))
    (fold_res (worker_message we) (mp_completed p) s)"
  using assms
  by (cases "fold_res (worker_message we) (mp_completed p) s")
    (simp_all add: worker_serve_def worker_messages_parser)

lemma worker_run_received:
  assumes "mp_completed (wk_parser s) = []" and "fold_res meow_parse segs (wk_parser s) = Inr q"
  shows "worker_run we (map (\<lambda>seg. [Received seg]) segs) s =
    map_sum id (\<lambda>t. Some (t\<lparr>wk_parser := q\<lparr>mp_completed := []\<rparr>\<rparr>)) (fold_res (worker_message we) (mp_completed q) s)"
  using assms
proof (induction segs arbitrary: s q)
  case Nil
  then show ?case by (cases s) simp
next
  case (Cons seg segs)
  from Cons.prems(2) obtain p where p: "meow_parse seg (wk_parser s) = Inr p"
    and rest: "fold_res meow_parse segs p = Inr q" by auto
  let ?p = "p\<lparr>mp_completed := []\<rparr>"
  have "fold_res meow_parse segs (?p\<lparr>mp_completed := mp_completed p @ mp_completed ?p\<rparr>) = Inr q"
    using rest by simp
  then obtain q' where q': "fold_res meow_parse segs ?p = Inr q'"
    and q: "q = q'\<lparr>mp_completed := mp_completed p @ mp_completed q'\<rparr>"
    unfolding meow_segments_completed by (cases "fold_res meow_parse segs ?p") auto
  note round = worker_round_received [OF p, of we]
  show ?case
  proof (cases "fold_res (worker_message we) (mp_completed p) s")
    case (Inl e)
    then show ?thesis using round q by (simp add: fold_res_append del: worker_round.simps)
  next
    case (Inr s1)
    have "worker_run we (map (\<lambda>seg. [Received seg]) segs) (s1\<lparr>wk_parser := ?p\<rparr>) =
        map_sum id (\<lambda>t. Some (t\<lparr>wk_parser := q'\<lparr>mp_completed := []\<rparr>\<rparr>))
          (fold_res (worker_message we) (mp_completed q') (s1\<lparr>wk_parser := ?p\<rparr>))"
      using q' by (intro Cons.IH) simp_all
    then show ?thesis
      using Inr round q
      by (cases "fold_res (worker_message we) (mp_completed q') s1")
        (simp_all add: fold_res_append worker_messages_parser del: worker_round.simps)
  qed
qed

section \<open>A job on its way to the worker\<close>

lemma send_object_messages:
  assumes "fold_res (send_object w d have) items written = Inr written'"
  shows "\<exists>cs. map_res (\<lambda>h. read_file (blob (wd_gg_dir w) h) d) (filter (\<lambda>h. h \<notin> set have) items) = Inr cs \<and>
    written' = written @ concat (map (\<lambda>c. meow_str (new_message Put c)) cs)"
  using assms
proof (induction items arbitrary: written)
  case (Cons h items)
  show ?case
  proof (cases "h \<in> set have")
    case True
    with Cons show ?thesis by (simp add: send_object_def)
  next
    case False
    then have one: "send_object w d have h written =
        bind_res (read_file (blob (wd_gg_dir w) h) d) (\<lambda>c. Inr (written @ meow_str (new_message Put c)))"
      by (simp add: send_object_def create_put_message_def bind_res_assoc)
    from Cons.prems obtain c where c: "read_file (blob (wd_gg_dir w) h) d = Inr c"
      and rest: "fold_res (send_object w d have) items (written @ meow_str (new_message Put c)) = Inr written'"
      by (auto simp: one)
    from Cons.IH [OF rest] obtain cs where
      "map_res (\<lambda>h. read_file (blob (wd_gg_dir w) h) d) (filter (\<lambda>h. h \<notin> set have) items) = Inr cs"
      "written' = (written @ meow_str (new_message Put c)) @ concat (map (\<lambda>c. meow_str (new_message Put c)) cs)" by blast
    with False c show ?thesis by (intro exI [of _ "c # cs"]) simp
  qed
qed simp

text \<open>The hash under which an object that was sent is stored.\<close>

definition object_hash :: "(string \<Rightarrow> string) \<Rightarrow> string \<Rightarrow> string" where
  "object_hash sha256 c = hash_compute sha256 c (if take (length MAGIC_NUMBER) c \<noteq> MAGIC_NUMBER then Value else Thunk)"

lemma object_key_ok [simp]: "cache_key_ok (object_hash sha256 c)"
  by (simp add: object_hash_def)

lemma worker_put:
  assumes "worker_message we (new_message Put c) s = Inr s'"
  shows "s' = s\<lparr>wk_disk := (wk_disk s)(blob (wd_gg_dir (wk_world we)) (object_hash (wd_sha256 (wk_world we)) c)
    \<mapsto> Regular c (final_mode None))\<rparr>"
  using assms
  by (auto simp: worker_message_def new_message_def handle_put_message_def object_hash_def Let_def dest!: atomic_create_Inr)

lemma worker_puts_jobs:
  "fold_res (worker_message we) (map (new_message Put) cs) s = Inr s' \<Longrightarrow> wk_jobs s' = wk_jobs s \<and> wk_next s' = wk_next s"
  by (induction cs arbitrary: s) (auto dest!: worker_put)

lemma worker_puts:
  assumes "fold_res (worker_message we) (map (new_message Put) cs) s = Inr s'" and "cache_key_ok h"
    and "\<forall>c \<in> set cs. object_hash (wd_sha256 (wk_world we)) c = h \<longrightarrow> c = x"
  shows "wk_disk s' (blob (wd_gg_dir (wk_world we)) h) =
      (if h \<in> object_hash (wd_sha256 (wk_world we)) ` set cs then Some (Regular x (final_mode None))
       else wk_disk s (blob (wd_gg_dir (wk_world we)) h))"
  using assms(1,3)
proof (induction cs arbitrary: s)
  case (Cons c cs)
  from Cons.prems(1) obtain s1 where s1: "worker_message we (new_message Put c) s = Inr s1"
    and rest: "fold_res (worker_message we) (map (new_message Put) cs) s1 = Inr s'" by auto
  note one = worker_put [OF s1]
  from Cons.IH [OF rest] Cons.prems(2) show ?case
    using blob_inj [OF assms(2) object_key_ok] by (auto simp: one)
qed simp

lemma worker_runs_job:
  assumes "worker_message we (new_message Execute p) s = Inr s'" and "wk_decode_item we p = r"
  shows "wk_jobs s' = (wk_jobs s)(wk_next s \<mapsto> r\<lparr>req_data := []\<rparr>)" and
    "wk_disk s' = (wk_disk s)(blob (wd_gg_dir (wk_world we)) (req_hash r)
       \<mapsto> Regular (wd_base64_decode (wk_world we) (req_data r)) (final_mode None))"
  using assms
  by (auto simp: worker_message_def worker_execute_def new_message_def Let_def dest!: atomic_create_Inr)

lemma new_message_wire: "length payload + 5 < 2 ^ 32 \<Longrightarrow> opc \<in> {Put, Execute, Executed} \<Longrightarrow> wire_message (new_message opc payload)"
  by (auto simp: wire_message_def new_message_def opcode_of_def opcode_names_def)

text \<open>What a thunk that is given to a worker puts on its connection.\<close>

lemma prepare_lambda_messages:
  assumes prep: "prepare_lambda w io d i t e = Inr e'" and l: "me_lambdas e i = Some l" "me_lambdas e' i = Some l'"
    and r: "execution_request_of (wd_sha256 w) (wd_encode w) (wd_base64_encode w) t = Inr r"
  shows "\<exists>cs. map_res (\<lambda>h. read_file (blob (wd_gg_dir w) h) d) (filter (\<lambda>h. h \<notin> set (lw_objects l)) (thunk_items t)) = Inr cs \<and>
    lw_written l' = lw_written l @ concat (map meow_str (map (new_message Put) cs @ [new_message Execute (mi_encode_item io r)]))"
proof -
  from prep l(1) obtain written where written: "fold_res (send_object w d (lw_objects l)) (thunk_items t) (lw_written l) = Inr written"
    and e': "e' = e\<lparr>me_lambdas := (me_lambdas e)(i \<mapsto>
       l\<lparr>lw_written := written @ meow_str (new_message Execute (mi_encode_item io r)),
         lw_objects := uset_insert_all (thunk_items t) [], lw_state := Busy, lw_executing := Some t\<rparr>),
       me_free := removeAll i (me_free e)\<rparr>"
    by (auto simp: prepare_lambda_def at_key_def create_execute_message_def r)
  from send_object_messages [OF written] obtain cs where
    "map_res (\<lambda>h. read_file (blob (wd_gg_dir w) h) d) (filter (\<lambda>h. h \<notin> set (lw_objects l)) (thunk_items t)) = Inr cs"
    "written = lw_written l @ concat (map (\<lambda>c. meow_str (new_message Put c)) cs)" by blast
  moreover have "lw_written l' = written @ meow_str (new_message Execute (mi_encode_item io r))"
    using l(2) by (auto simp: e')
  ultimately show ?thesis by (auto simp: comp_def)
qed

lemma map_res_in:
  "map_res f xs = Inr ys \<Longrightarrow> y \<in> set ys \<Longrightarrow> \<exists>x \<in> set xs. f x = Inr y"
  by (induction xs arbitrary: ys) auto

lemma map_res_of:
  "map_res f xs = Inr ys \<Longrightarrow> x \<in> set xs \<Longrightarrow> \<exists>y \<in> set ys. f x = Inr y"
  by (induction xs arbitrary: ys) auto

lemma read_file_new: "d p = Some (Regular c m) \<Longrightarrow> read_file p d = Inr c"
  by (simp add: read_file_def sys_stat_def read_prefix_def)

lemma read_file_cong: "d p = d' p \<Longrightarrow> read_file p d = read_file p d'"
  by (simp add: read_file_def sys_stat_def)

text \<open>C9: a thunk on its way to a meow worker. When the bytes that the engine has queued for the thunk reach the
  worker, however they are cut, the worker runs exactly one new job, with the thunk's hash and outputs; every object that
  the thunk names then has the same contents on the worker's disk as on the coordinator's, whether it was sent now or
  the engine knew that the worker has it, and under the thunk's hash the worker has the thunk itself.\<close>

theorem meow_job_arrives:
  assumes prep: "prepare_lambda w io d i t e = Inr e'" "me_lambdas e i = Some l" "me_lambdas e' i = Some l'"
    and bytes: "lw_written l' = lw_written l @ concat segs"
    and item: "execution_request_of (wd_sha256 w) (wd_encode w) (wd_base64_encode w) t = Inr r"
      "wk_decode_item we (mi_encode_item io r) = r" "length (mi_encode_item io r) + 5 < 2 ^ 32"
      "cache_key_ok (req_hash r)" "req_hash r \<notin> set (thunk_items t)"
    and same: "wd_sha256 (wk_world we) = wd_sha256 w" "\<And>x. wd_base64_decode (wk_world we) (wd_base64_encode w x) = x"
    and objects: "\<And>h c. h \<in> set (thunk_items t) \<Longrightarrow> read_file (blob (wd_gg_dir w) h) d = Inr c \<Longrightarrow>
        object_hash (wd_sha256 w) c = h \<and> length c + 5 < 2 ^ 32"
    and keys: "\<And>h. h \<in> set (thunk_items t) \<Longrightarrow> cache_key_ok h"
    and known: "\<And>h. h \<in> set (lw_objects l) \<Longrightarrow>
        read_file (blob (wd_gg_dir (wk_world we)) h) (wk_disk s) = read_file (blob (wd_gg_dir w) h) d"
    and fresh: "wk_parser s = new_meow_parser"
    and run: "worker_run we (map (\<lambda>seg. [Received seg]) segs) s = Inr (Some s')"
  shows "wk_jobs s' = (wk_jobs s)(wk_next s \<mapsto> \<lparr>req_hash = req_hash r, req_data = [], req_outputs = th_outputs t\<rparr>) \<and>
    (\<forall>h \<in> set (thunk_items t).
       read_file (blob (wd_gg_dir (wk_world we)) h) (wk_disk s') = read_file (blob (wd_gg_dir w) h) d) \<and>
    read_file (blob (wd_gg_dir (wk_world we)) (req_hash r)) (wk_disk s') = serialize (wd_encode w) t"
proof -
  let ?ww = "wk_world we"
  from item(1) obtain ser where ser: "serialize (wd_encode w) t = Inr ser"
    and r: "req_data r = wd_base64_encode w ser" "req_outputs r = th_outputs t"
    by (auto simp: execution_request_of_def)
  from prepare_lambda_messages [OF prep item(1)] bytes obtain cs where
    cs: "map_res (\<lambda>h. read_file (blob (wd_gg_dir w) h) d) (filter (\<lambda>h. h \<notin> set (lw_objects l)) (thunk_items t)) = Inr cs"
    and segs: "concat segs = concat (map meow_str (map (new_message Put) cs @ [new_message Execute (mi_encode_item io r)]))"
    by auto
  let ?ms = "map (new_message Put) cs @ [new_message Execute (mi_encode_item io r)]"
  have wire: "\<forall>m \<in> set ?ms. wire_message m"
    using item(3) objects(1) by (auto dest!: map_res_in [OF cs] intro!: new_message_wire)
  have parsed: "fold_res meow_parse segs (wk_parser s) = Inr \<lparr>mp_raw = [], mp_completed = ?ms\<rparr>"
    unfolding fresh by (rule meow_messages_roundtrip [OF wire segs])
  have idle: "mp_completed (wk_parser s) = []" by (simp add: fresh new_meow_parser_def)
  from worker_run_received [OF idle parsed, of we] run obtain t' where
    t': "fold_res (worker_message we) ?ms s = Inr t'" and s': "s' = t'\<lparr>wk_parser := \<lparr>mp_raw = [], mp_completed = []\<rparr>\<rparr>"
    by (cases "fold_res (worker_message we) ?ms s") auto
  from t' obtain s1 where s1: "fold_res (worker_message we) (map (new_message Put) cs) s = Inr s1"
    and ex: "worker_message we (new_message Execute (mi_encode_item io r)) s1 = Inr t'"
    by (auto simp: fold_res_append)
  note job = worker_runs_job [OF ex item(2)]
  have read_back: "read_file (blob (wd_gg_dir ?ww) h) (wk_disk s') = read_file (blob (wd_gg_dir w) h) d"
    if h: "h \<in> set (thunk_items t)" for h
  proof -
    have other: "wk_disk s' (blob (wd_gg_dir ?ww) h) = wk_disk s1 (blob (wd_gg_dir ?ww) h)"
      using job(2) h item(5) blob_inj [OF keys [OF h] item(4)] by (auto simp: s')
    have same_c: "\<forall>c \<in> set cs. object_hash (wd_sha256 ?ww) c = h \<longrightarrow> read_file (blob (wd_gg_dir w) h) d = Inr c"
      using objects same(1) by (auto dest!: map_res_in [OF cs])
    show ?thesis
    proof (cases "h \<in> object_hash (wd_sha256 ?ww) ` set cs")
      case True
      then obtain c where c: "c \<in> set cs" "object_hash (wd_sha256 ?ww) c = h" by blast
      with same_c have read: "read_file (blob (wd_gg_dir w) h) d = Inr c" by blast
      with same_c have "\<forall>c' \<in> set cs. object_hash (wd_sha256 ?ww) c' = h \<longrightarrow> c' = c" by auto
      from worker_puts [OF s1 keys [OF h] this] True
      have "wk_disk s' (blob (wd_gg_dir ?ww) h) = Some (Regular c (final_mode None))" by (simp add: other)
      with read show ?thesis by (simp add: read_file_new)
    next
      case False
      then have "\<forall>c \<in> set cs. object_hash (wd_sha256 ?ww) c = h \<longrightarrow> c = []" by blast
      from worker_puts [OF s1 keys [OF h] this] False
      have old: "wk_disk s' (blob (wd_gg_dir ?ww) h) = wk_disk s (blob (wd_gg_dir ?ww) h)" by (simp add: other)
      have "h \<in> set (lw_objects l)"
      proof (rule ccontr)
        assume "h \<notin> set (lw_objects l)"
        with h map_res_of [OF cs] obtain c where "c \<in> set cs" "read_file (blob (wd_gg_dir w) h) d = Inr c" by fastforce
        with objects [OF h] same(1) False show False by auto
      qed
      moreover have "read_file (blob (wd_gg_dir ?ww) h) (wk_disk s') = read_file (blob (wd_gg_dir ?ww) h) (wk_disk s)"
        using old by (rule read_file_cong)
      ultimately show ?thesis using known by simp
    qed
  qed
  have "wk_disk s' (blob (wd_gg_dir ?ww) (req_hash r)) = Some (Regular ser (final_mode None))"
    using job(2) r(1) same(2) by (simp add: s')
  then have thunk: "read_file (blob (wd_gg_dir ?ww) (req_hash r)) (wk_disk s') = serialize (wd_encode w) t"
    using ser by (simp add: read_file_new)
  have "wk_jobs s' = (wk_jobs s)(wk_next s \<mapsto> r\<lparr>req_data := []\<rparr>)" using job(1) worker_puts_jobs [OF s1] by (simp add: s')
  moreover have "r\<lparr>req_data := []\<rparr> = \<lparr>req_hash = req_hash r, req_data = [], req_outputs = th_outputs t\<rparr>"
    using r(2) by (cases r) simp
  ultimately show ?thesis using read_back thunk by simp
qed

section \<open>An answer on its way back\<close>

lemma worker_output_known:
  assumes "worker_output w d h tag = Inr out"
  shows "ro_tag out = tag \<and> ro_data out = [] \<and> length (ro_hash out) = hash_length \<and>
    cache_check (wd_gg_dir w) (for_output h (ro_tag out)) d = Inr (Some (ro_hash out))"
proof -
  from assms obtain result where result: "cache_check (wd_gg_dir w) (for_output h tag) d = Inr result"
    and out: "(case result of
         None \<Rightarrow> Inl (Runtime_error ''output not found'')
       | Some r \<Rightarrow>
           bind_res (file_size (blob (wd_gg_dir w) r) d) (\<lambda>size.
           bind_res (is_executable (blob (wd_gg_dir w) r) d) (\<lambda>executable.
             Inr \<lparr>ro_tag = tag, ro_hash = r, ro_size = of_nat size, ro_executable = executable, ro_data = []\<rparr>))) = Inr out"
    unfolding worker_output_def by (rule bind_resE)
  from out obtain r where r: "result = Some r" by (cases result) simp_all
  with out have "ro_tag out = tag \<and> ro_data out = [] \<and> ro_hash out = r"
    by (simp add: bind_res_def split: sum.splits) auto
  with result r cache_check_length show ?thesis by simp
qed

lemma worker_outputs_known:
  "map_res (worker_output w d h) tags = Inr outs \<Longrightarrow>
   map ro_tag outs = tags \<and> (\<forall>out \<in> set outs. ro_data out = [] \<and> length (ro_hash out) = hash_length \<and>
     cache_check (wd_gg_dir w) (for_output h (ro_tag out)) d = Inr (Some (ro_hash out)))"
proof (induction tags arbitrary: outs)
  case (Cons tag tags)
  from Cons.prems obtain out rest where out: "worker_output w d h tag = Inr out"
    and rest: "map_res (worker_output w d h) tags = Inr rest" and outs: "outs = out # rest" by auto
  from worker_output_known [OF out] Cons.IH [OF rest] outs show ?case by (elim conjE) simp
qed simp

lemma store_outputs_blobs:
  assumes "fold_res (store_output w h) outs d = Inr d'" and "cache_key_ok h"
    and "\<forall>out \<in> set outs. ro_data out = [] \<and> cache_key_ok (ro_hash out)" and "cache_key_ok c"
  shows "d' (blob (wd_gg_dir w) c) = d (blob (wd_gg_dir w) c)"
  using assms(1,3)
proof (induction outs arbitrary: d)
  case (Cons out outs)
  from Cons.prems(1) obtain d1 where 1: "store_output w h out d = Inr d1"
    and rest: "fold_res (store_output w h) outs d1 = Inr d'" by auto
  from store_output_blob [OF 1 assms(2) _ assms(4)] Cons.prems(2)
  have "d1 (blob (wd_gg_dir w) c) = d (blob (wd_gg_dir w) c)" by simp
  with Cons.IH [OF rest] Cons.prems(2) show ?case by simp
qed simp

lemma on_executed_stores:
  assumes "store_outputs w (succeeded_with h outs) d = Inr d'" and "me_lambdas e i = Some l"
  shows "on_executed w i \<lparr>ri_thunk_hash = h, ri_outputs = outs\<rparr> e d =
    Inr (Succeeded h (map (\<lambda>out. \<lparr>out_hash = ro_hash out, out_tag = ro_tag out\<rparr>) outs),
         e\<lparr>me_lambdas := (me_lambdas e)(i \<mapsto> l\<lparr>lw_state := Idle\<rparr>),
           me_free := insort_insert i (me_free e), me_running := me_running e - 1\<rparr>, d')"
proof -
  from assms(1) obtain out rest d1 where outs: "outs = out # rest"
    and "fold_res (store_output w h) outs d = Inr d1"
    and "cache_insert (wd_kernel w) (wd_gg_dir w) h (ro_hash out) d1 = Inr d'"
    unfolding store_outputs_def succeeded_with_def by (cases outs) (auto elim!: bind_resE simp del: fold_res.simps)
  then show ?thesis using assms(2) by (simp add: on_executed_def at_key_def del: fold_res.simps)
qed

text \<open>C10: the way of a result from a meow worker to the coordinator. When the child of a job ends with status 0 and the worker's
  cache has all its outputs, the worker sends one message; the engine reads it as the success of that very job, with the
  outputs in order, gives it to the scheduler, counts one job less and has the worker free again. Its cache then says
  of every output tag what the worker's cache says, and of the thunk the first output. No object comes along: the objects in the
  coordinator's store are those that were there before.\<close>

theorem meow_answer_cached:
  assumes job: "wk_jobs s j = Some r" "req_outputs r \<noteq> []" "distinct (req_outputs r)" "cache_key_ok (req_hash r)"
    and outs: "map_res (worker_output (wk_world we) (wk_disk s) (req_hash r)) (req_outputs r) = Inr outs"
      "\<forall>out \<in> set outs. cache_key_ok (ro_hash out)"
    and item: "mi_decode_item io (wk_encode_item we \<lparr>ri_thunk_hash = req_hash r, ri_outputs = outs\<rparr>) =
        \<lparr>ri_thunk_hash = req_hash r, ri_outputs = outs\<rparr>"
      "length (wk_encode_item we \<lparr>ri_thunk_hash = req_hash r, ri_outputs = outs\<rparr>) + 5 < 2 ^ 32"
    and engine: "me_lambdas e i = Some l" "lw_parser l = new_meow_parser"
    and store: "store_outputs w (succeeded_with (req_hash r) outs) d = Inr d'"
  shows "\<exists>bytes e'.
    worker_done we j 0 s = Inr (s\<lparr>wk_jobs := (wk_jobs s)(j := None), wk_written := wk_written s @ bytes\<rparr>) \<and>
    on_data w io success i bytes (e, d, x) =
      bind_res (success (Succeeded (req_hash r) (map (\<lambda>out. \<lparr>out_hash = ro_hash out, out_tag = ro_tag out\<rparr>) outs)) (d', x))
        (\<lambda>(d2, x2). Inr (e', d2, x2)) \<and>
    me_running e' = me_running e - 1 \<and> i \<in> set (me_free e') \<and>
    (\<forall>tag \<in> set (req_outputs r).
       cache_check (wd_gg_dir w) (for_output (req_hash r) tag) d' =
         cache_check (wd_gg_dir (wk_world we)) (for_output (req_hash r) tag) (wk_disk s)) \<and>
    cache_check (wd_gg_dir w) (req_hash r) d' = Inr (Some (ro_hash (hd outs))) \<and>
    (\<forall>c. cache_key_ok c \<longrightarrow> d' (blob (wd_gg_dir w) c) = d (blob (wd_gg_dir w) c))"
proof -
  let ?item = "\<lparr>ri_thunk_hash = req_hash r, ri_outputs = outs\<rparr>"
  let ?m = "new_message Executed (wk_encode_item we ?item)"
  let ?e = "e\<lparr>me_lambdas := (me_lambdas e)(i \<mapsto> l\<lparr>lw_parser := new_meow_parser\<rparr>)\<rparr>"
  let ?e' = "?e\<lparr>me_lambdas := (me_lambdas ?e)(i \<mapsto> l\<lparr>lw_parser := new_meow_parser, lw_state := Idle\<rparr>),
    me_free := insort_insert i (me_free ?e), me_running := me_running ?e - 1\<rparr>"
  note known = worker_outputs_known [OF outs(1)]
  have done_ok: "worker_done we j 0 s = Inr (s\<lparr>wk_jobs := (wk_jobs s)(j := None), wk_written := wk_written s @ meow_str ?m\<rparr>)"
    using job(1) outs(1) by (simp add: worker_done_def worker_send_def Let_def)
  have "wire_message ?m" using item(2) by (intro new_message_wire) simp_all
  then have parsed: "meow_parse (meow_str ?m) new_meow_parser = Inr \<lparr>mp_raw = [], mp_completed = [?m]\<rparr>"
    using meow_messages_roundtrip [of "[?m]" "[meow_str ?m]"] by simp
  have handled: "on_data w io success i (meow_str ?m) (e, d, x) =
      bind_res (success (Succeeded (req_hash r) (map (\<lambda>out. \<lparr>out_hash = ro_hash out, out_tag = ro_tag out\<rparr>) outs)) (d', x))
        (\<lambda>(d2, x2). Inr (?e', d2, x2))"
    using engine parsed on_executed_stores [OF store, of ?e i "l\<lparr>lw_parser := new_meow_parser\<rparr>"] item(1)
    by (simp add: on_data_def at_key_def handle_message_def new_message_def new_meow_parser_def)
  have "outs \<noteq> []" using known job(2) by auto
  then have ok: "answer_ok (succeeded_with (req_hash r) outs)"
    using known job(3,4) outs(2) by (simp add: answer_ok_def succeeded_with_def)
  note cached = store_outputs_cache [OF store ok]
  have agree: "cache_check (wd_gg_dir w) (for_output (req_hash r) tag) d' =
      cache_check (wd_gg_dir (wk_world we)) (for_output (req_hash r) tag) (wk_disk s)" if tag: "tag \<in> set (req_outputs r)" for tag
  proof -
    have "tag \<in> set (map ro_tag outs)" using tag known by simp
    then obtain out where "out \<in> set outs" "ro_tag out = tag" by auto
    with cached(2) [of out] known show ?thesis by (auto simp: succeeded_with_def)
  qed
  have blobs: "d' (blob (wd_gg_dir w) c) = d (blob (wd_gg_dir w) c)" if c: "cache_key_ok c" for c
  proof -
    from store obtain first rest d1 where "outs = first # rest"
      and loop: "fold_res (store_output w (req_hash r)) outs d = Inr d1"
      and main: "cache_insert (wd_kernel w) (wd_gg_dir w) (req_hash r) (ro_hash first) d1 = Inr d'"
      by (cases outs) (auto simp: store_outputs_def succeeded_with_def elim!: bind_resE)
    have "\<forall>out \<in> set outs. ro_data out = [] \<and> cache_key_ok (ro_hash out)" using known outs(2) by blast
    from store_outputs_blobs [OF loop job(4) this c] show ?thesis
      using cache_insert_disk [OF main] blob_not_reduction [OF c job(4)] by simp
  qed
  show ?thesis
  proof (intro exI conjI)
    show "cache_check (wd_gg_dir w) (req_hash r) d' = Inr (Some (ro_hash (hd outs)))"
      using cached(1) by (simp add: succeeded_with_def)
  qed (use done_ok handled agree blobs in \<open>auto simp: set_insort_insert\<close>)
qed

text \<open>C36: a thunk whose result is another thunk ends the run when a meow worker has run it. The worker reports the new thunk by
  its hash alone; the coordinator, unless it has that thunk from elsewhere, notes it in its cache and then fails to read
  it when the scheduler puts it in the place of the old one.\<close>

theorem meow_thunk_result_fatal:
  assumes outs: "map_res (worker_output ww dw h) tags = Inr (out # rest)" "\<forall>x \<in> set (out # rest). cache_key_ok (ro_hash x)"
    and taken: "on_executed w i \<lparr>ri_thunk_hash = h, ri_outputs = out # rest\<rparr> e d = Inr (Succeeded h' outputs, e', d')"
    and new: "cache_key_ok h" "hash_type (ro_hash out) = Inr Thunk" "hash_base (ro_hash out) = ro_hash out"
      "d (blob (wd_gg_dir w) (ro_hash out)) = None"
    and known: "rd_disk rd = d'" "g_thunks (rd_graph rd) h \<noteq> None" "g_thunks (rd_graph rd) (ro_hash out) = None"
      "updated_hash (rd_graph rd) (ro_hash out) = ro_hash out"
  shows "h' = h \<and> cache_check (wd_gg_dir w) h d' = Inr (Some (ro_hash out)) \<and> isl (finalize_execution w (Suc n) h' outputs rd)"
proof -
  note plain = worker_outputs_known [OF outs(1)]
  from taken obtain d1 where loop: "fold_res (store_output w h) (out # rest) d = Inr d1"
    and main: "cache_insert (wd_kernel w) (wd_gg_dir w) h (ro_hash out) d1 = Inr d'"
    and result: "h' = h" "outputs = map (\<lambda>x. \<lparr>out_hash = ro_hash x, out_tag = ro_tag x\<rparr>) (out # rest)"
    by (auto simp: on_executed_def)
  have key: "cache_key_ok (ro_hash out)" using outs(2) by simp
  have "\<forall>x \<in> set (out # rest). ro_data x = [] \<and> cache_key_ok (ro_hash x)" using plain outs(2) by blast
  from store_outputs_blobs [OF loop new(1) this key]
  have missing: "d' (blob (wd_gg_dir w) (ro_hash out)) = None"
    using cache_insert_disk [OF main] blob_not_reduction [OF key new(1)] new(4) by simp
  have "length (ro_hash out) = hash_length" using plain by simp
  then have cached: "cache_check (wd_gg_dir w) h d' = Inr (Some (ro_hash out))"
    using cache_insert_disk [OF main] by (simp add: cache_check_def read_prefix_def)
  have "add_thunk (Suc n) (env_read (world_env w) d') (ro_hash out) (rd_graph rd) = Inl (Unix_error (blob (wd_gg_dir w) (ro_hash out)))"
    using missing known(3,4) new(3) by (simp add: store_env_def read_thunk_def Let_def)
  then have "isl (finalize_execution w (Suc n) h outputs rd)"
    using known(1,2) new(2) by (simp add: finalize_execution_def erase_running_def force_thunk_def result(2) Let_def del: add_thunk.simps)
  with cached result(1) show ?thesis by simp
qed

section \<open>One job, from the coordinator to a worker and back\<close>

definition job_object :: string where
  "job_object = object_hash toy_sha ''x''"

definition job_thunk :: thunk where
  "job_thunk = (leaf [])\<lparr>th_executables := [(job_object, [])], th_hash := Some ''TA''\<rparr>"

definition job_disk :: disk where
  "job_disk = [blob ''/g'' job_object \<mapsto> Regular ''x'' 256]"

definition job_item :: request_item where
  "job_item = \<lparr>req_hash = ''TA'', req_data = MAGIC_NUMBER @ ''p'', req_outputs = [''o'']\<rparr>"

definition job_env :: worker_env where
  "job_env = \<lparr>wk_world = toy_world, wk_decode_item = (\<lambda>_. job_item), wk_encode_item = (\<lambda>_. ''item'')\<rparr>"

lemma job_prepared: "prepare_lambda toy_world toy_io job_disk 0 job_thunk toy_joined =
  Inr (toy_joined\<lparr>me_lambdas := [0 \<mapsto> (the (me_lambdas toy_joined 0))\<lparr>
    lw_written := meow_str (new_message Put ''x'') @ meow_str (new_message Execute ''item''),
    lw_objects := [job_object], lw_state := Busy, lw_executing := Some job_thunk\<rparr>], me_free := []\<rparr>)"
proof -
  have "wd_gg_dir toy_world = ''/g''" by (simp add: toy_world_def)
  moreover have "read_file (blob ''/g'' job_object) job_disk = Inr ''x''" by (simp add: job_disk_def read_file_new)
  moreover have "execution_request_of (wd_sha256 toy_world) (wd_encode toy_world) (wd_base64_encode toy_world) job_thunk = Inr job_item"
    by (simp add: execution_request_of_def serialize_def thunk_hash_def toy_world_def job_thunk_def job_item_def leaf_def)
  moreover have "thunk_items job_thunk = [job_object]" by (simp add: thunk_items_def job_thunk_def leaf_def)
  ultimately show ?thesis
    by (simp add: prepare_lambda_def toy_joined_def joined_def toy_meow_def at_key_def send_object_def
        create_put_message_def create_execute_message_def uset_insert_all_def uset_insert_def toy_io_def
        insort_insert_key_def)
qed

lemma job_run: "\<exists>s'. worker_run job_env [[Received (meow_str (new_message Put ''x'') @ meow_str (new_message Execute ''item''))]]
  (new_worker Map.empty) = Inr (Some s')"
proof -
  let ?ms = "[new_message Put ''x'', new_message Execute ''item'']"
  let ?d = "[blob ''/g'' job_object \<mapsto> Regular ''x'' (final_mode None)] :: disk"
  have put: "worker_message job_env (new_message Put ''x'') (new_worker Map.empty) = Inr ((new_worker Map.empty)\<lparr>wk_disk := ?d\<rparr>)"
    by (simp add: worker_message_def new_message_def handle_put_message_def job_env_def toy_world_def new_worker_def
        plain_kernel_create_empty job_object_def object_hash_def MAGIC_NUMBER_def Let_def)
  have "temp_name (blob ''/g'' ''TA'') ''x'' \<noteq> blob ''/g'' job_object" by code_simp
  then have "atomic_create plain_kernel (MAGIC_NUMBER @ ''p'') (blob ''/g'' ''TA'') None ?d =
      Inr (?d(blob ''/g'' ''TA'' \<mapsto> Regular (MAGIC_NUMBER @ ''p'') (final_mode None)))"
    by (intro plain_kernel_create) simp_all
  then have "\<exists>s'. worker_message job_env (new_message Execute ''item'') ((new_worker Map.empty)\<lparr>wk_disk := ?d\<rparr>) = Inr s'"
    by (simp add: worker_message_def worker_execute_def new_message_def job_env_def toy_world_def job_item_def Let_def)
  with put have served: "\<exists>s'. fold_res (worker_message job_env) ?ms (new_worker Map.empty) = Inr s'" by simp
  have "fold_res meow_parse [concat (map meow_str ?ms)] new_meow_parser = Inr \<lparr>mp_raw = [], mp_completed = ?ms\<rparr>"
    by (rule meow_messages_roundtrip) (simp_all add: new_message_wire)
  with served worker_run_received [of "new_worker Map.empty" "[concat (map meow_str ?ms)]"]
  show ?thesis by (auto simp: new_worker_def new_meow_parser_def)
qed

theorem meow_job_arrives_witness:
  "\<exists>e' l' s'. prepare_lambda toy_world toy_io job_disk 0 job_thunk toy_joined = Inr e' \<and> me_lambdas e' 0 = Some l' \<and>
     worker_run job_env [[Received (lw_written l')]] (new_worker Map.empty) = Inr (Some s') \<and>
     wk_jobs s' 0 = Some \<lparr>req_hash = ''TA'', req_data = [], req_outputs = [''o'']\<rparr> \<and>
     read_file (blob ''/g'' job_object) (wk_disk s') = Inr ''x'' \<and>
     read_file (blob ''/g'' ''TA'') (wk_disk s') = Inr (MAGIC_NUMBER @ ''p'')"
proof -
  let ?bytes = "meow_str (new_message Put ''x'') @ meow_str (new_message Execute ''item'')"
  let ?l = "the (me_lambdas toy_joined 0)"
  obtain s' where run: "worker_run job_env (map (\<lambda>seg. [Received seg]) [?bytes]) (new_worker Map.empty) = Inr (Some s')"
    using job_run by auto
  have l: "me_lambdas toy_joined 0 = Some ?l" "lw_written ?l = []" "lw_objects ?l = []"
    by (simp_all add: toy_joined_def joined_def toy_meow_def)
  let ?l' = "?l\<lparr>lw_written := ?bytes, lw_objects := [job_object], lw_state := Busy, lw_executing := Some job_thunk\<rparr>"
  have l': "me_lambdas (toy_joined\<lparr>me_lambdas := [0 \<mapsto> ?l'], me_free := []\<rparr>) 0 = Some ?l'" by simp
  have bytes: "lw_written ?l' = lw_written ?l @ concat [?bytes]" by (simp add: l(2))
  have item: "execution_request_of (wd_sha256 toy_world) (wd_encode toy_world) (wd_base64_encode toy_world) job_thunk = Inr job_item"
    by (simp add: execution_request_of_def serialize_def thunk_hash_def toy_world_def job_thunk_def job_item_def leaf_def)
  have items: "thunk_items job_thunk = [job_object]" by (simp add: thunk_items_def job_thunk_def leaf_def)
  have disk: "read_file (blob ''/g'' job_object) job_disk = Inr ''x''" by (simp add: job_disk_def read_file_new)
  have env: "wd_gg_dir toy_world = ''/g''" "wd_sha256 toy_world = toy_sha" "wk_world job_env = toy_world"
    "wd_base64_decode toy_world (wd_base64_encode toy_world x) = x" "wk_decode_item job_env p = job_item"
    "serialize (wd_encode toy_world) job_thunk = Inr (MAGIC_NUMBER @ ''p'')"
    "mi_encode_item toy_io r = ''item''" for x p r
    by (simp_all add: toy_world_def job_env_def serialize_def toy_io_def)
  have other: "''TA'' \<noteq> job_object"
  proof -
    have "hash_type job_object = Inr Value" by code_simp
    moreover have "hash_type ''TA'' \<noteq> Inr Value" by code_simp
    ultimately show ?thesis by metis
  qed
  have new: "wk_parser (new_worker Map.empty) = new_meow_parser" "wk_jobs (new_worker Map.empty) = Map.empty"
    "wk_next (new_worker Map.empty) = 0" by (simp_all add: new_worker_def)
  have "wk_jobs s' = (wk_jobs (new_worker Map.empty))(wk_next (new_worker Map.empty) \<mapsto>
      \<lparr>req_hash = req_hash job_item, req_data = [], req_outputs = th_outputs job_thunk\<rparr>) \<and>
    (\<forall>h \<in> set (thunk_items job_thunk).
       read_file (blob (wd_gg_dir (wk_world job_env)) h) (wk_disk s') = read_file (blob (wd_gg_dir toy_world) h) job_disk) \<and>
    read_file (blob (wd_gg_dir (wk_world job_env)) (req_hash job_item)) (wk_disk s') = serialize (wd_encode toy_world) job_thunk"
  proof (rule meow_job_arrives [OF job_prepared l(1) l' bytes item _ _ _ _ _ _ _ _ _ _ run])
    show "wk_decode_item job_env (mi_encode_item toy_io job_item) = job_item" by (rule env)
    show "length (mi_encode_item toy_io job_item) + 5 < 2 ^ 32" by (simp add: env)
    show "wd_sha256 (wk_world job_env) = wd_sha256 toy_world" by (simp only: env)
    show "wd_base64_decode (wk_world job_env) (wd_base64_encode toy_world x) = x" for x by (simp only: env)
    show "wk_parser (new_worker Map.empty) = new_meow_parser" by (rule new)
    show "read_file (blob (wd_gg_dir (wk_world job_env)) h) (wk_disk (new_worker Map.empty)) =
        read_file (blob (wd_gg_dir toy_world) h) job_disk" if "h \<in> set (lw_objects ?l)" for h using that by (simp add: l(3))
    show "cache_key_ok (req_hash job_item)" by (simp add: job_item_def cache_key_ok_def)
    show "req_hash job_item \<notin> set (thunk_items job_thunk)" using other by (simp add: job_item_def items)
    show "cache_key_ok h" if "h \<in> set (thunk_items job_thunk)" for h using that by (simp add: items job_object_def)
    show "object_hash (wd_sha256 toy_world) c = h \<and> length c + 5 < 2 ^ 32"
      if "h \<in> set (thunk_items job_thunk)" "read_file (blob (wd_gg_dir toy_world) h) job_disk = Inr c" for h c
      using that by (auto simp: items env disk job_object_def [symmetric])
  qed
  then have result: "wk_jobs s' 0 = Some \<lparr>req_hash = ''TA'', req_data = [], req_outputs = [''o'']\<rparr> \<and>
     read_file (blob ''/g'' job_object) (wk_disk s') = Inr ''x'' \<and>
     read_file (blob ''/g'' ''TA'') (wk_disk s') = Inr (MAGIC_NUMBER @ ''p'')"
    by (simp add: items env disk new) (simp add: job_item_def job_thunk_def leaf_def)
  have "worker_run job_env [[Received (lw_written ?l')]] (new_worker Map.empty) = Inr (Some s')"
    using run by (simp del: worker_run.simps)
  with result job_prepared l' show ?thesis by blast
qed

definition sent :: response_output where
  "sent = served\<lparr>ro_data := []\<rparr>"

definition job_worker :: worker_state where
  "job_worker = \<lparr>wk_parser = new_meow_parser, wk_written = [], wk_jobs = [0 \<mapsto> serving_item], wk_next = 1, wk_disk = served_disk\<rparr>"

definition job_io :: meow_io where
  "job_io = toy_io\<lparr>mi_decode_item := (\<lambda>_. \<lparr>ri_thunk_hash = ''TA'', ri_outputs = [sent]\<rparr>)\<rparr>"

lemma sent_outputs: "map_res (worker_output toy_world served_disk ''TA'') [''o''] = Inr [sent]"
  by code_simp

lemma sent_stored: "store_outputs toy_world (succeeded_with ''TA'' [sent]) Map.empty =
  Inr [reduction ''/g'' ''TA#o'' \<mapsto> Regular (ro_hash served) 384, reduction ''/g'' ''TA'' \<mapsto> Regular (ro_hash served) 384]"
  by (simp add: store_outputs_def store_output_def succeeded_with_def cache_insert_def toy_world_def
      plain_kernel_create final_mode_def reduction_def reductions_def path_append_def temp_name_def for_output_def
      sent_def served_def)

theorem meow_answer_cached_witness:
  "\<exists>bytes e' d'.
    worker_done job_env 0 0 job_worker = Inr (job_worker\<lparr>wk_jobs := Map.empty, wk_written := bytes\<rparr>) \<and>
    on_data toy_world job_io (\<lambda>_. Inr) 0 bytes (toy_joined, Map.empty, ()) = Inr (e', d', ()) \<and> 0 \<in> set (me_free e') \<and>
    cache_check ''/g'' ''TA#o'' d' = Inr (Some (ro_hash served)) \<and>
    d' (blob ''/g'' (ro_hash served)) = None"
proof -
  have env: "wk_world job_env = toy_world" "wk_disk job_worker = served_disk" "wd_gg_dir toy_world = ''/g''"
    "req_hash serving_item = ''TA''" "req_outputs serving_item = [''o'']"
    "mi_decode_item job_io p = \<lparr>ri_thunk_hash = ''TA'', ri_outputs = [sent]\<rparr>" "wk_encode_item job_env q = ''item''"
    "ro_hash sent = ro_hash served" "wk_jobs job_worker = [0 \<mapsto> serving_item]" "wk_written job_worker = []"
    "for_output ''TA'' ''o'' = ''TA#o''" for p q
    by (simp_all add: job_env_def job_worker_def toy_world_def serving_item_def job_io_def sent_def for_output_def)
  have keys: "cache_key_ok ''TA''" "cache_key_ok (ro_hash served)" by (simp_all add: cache_key_ok_def served_def)
  have there: "cache_check ''/g'' ''TA#o'' served_disk = Inr (Some (ro_hash served))" by code_simp
  have l: "me_lambdas toy_joined 0 = Some (the (me_lambdas toy_joined 0))"
    "lw_parser (the (me_lambdas toy_joined 0)) = new_meow_parser"
    by (simp_all add: toy_joined_def joined_def toy_meow_def)
  from meow_answer_cached [of job_worker 0 serving_item job_env "[sent]" job_io toy_joined 0 _ toy_world Map.empty _ "\<lambda>_. Inr" "()",
      unfolded env, OF _ _ _ keys(1) sent_outputs _ _ _ l sent_stored]
  show ?thesis using keys(2) there by (fastforce simp: env)
qed

theorem meow_thunk_result_fatal_witness:
  "\<exists>e' d'. on_executed toy_world 0 \<lparr>ri_thunk_hash = ''TA'', ri_outputs = [sent]\<rparr> toy_joined Map.empty =
      Inr (Succeeded ''TA'' [\<lparr>out_hash = ro_hash served, out_tag = ''o''\<rparr>], e', d') \<and>
    isl (finalize_execution toy_world 3 ''TA'' [\<lparr>out_hash = ro_hash served, out_tag = ''o''\<rparr>] (toy_start\<lparr>rd_disk := d'\<rparr>))"
proof -
  have l: "me_lambdas toy_joined 0 = Some (the (me_lambdas toy_joined 0))"
    by (simp add: toy_joined_def joined_def toy_meow_def)
  have sent: "ro_hash sent = ro_hash served" "ro_tag sent = ''o''" by (simp_all add: sent_def served_def)
  note taken = on_executed_stores [OF sent_stored l, simplified sent list.map]
  have "hash_type (ro_hash served) = Inr Thunk" "hash_base (ro_hash served) = ro_hash served" by code_simp+
  moreover have "cache_key_ok ''TA''" "cache_key_ok (ro_hash served)" by (simp_all add: cache_key_ok_def served_def)
  moreover have "g_thunks toy_graph (ro_hash served) = None" "g_thunks toy_graph ''TA'' \<noteq> None"
    "updated_hash toy_graph (ro_hash served) = ro_hash served"
    by (simp_all add: toy_graph_def updated_hash_def) (simp add: served_def numeral_eq_Suc)
  ultimately show ?thesis
    using taken meow_thunk_result_fatal [OF sent_outputs _ taken, of "toy_start\<lparr>rd_disk := _\<rparr>" 2]
    by (simp add: sent) (simp add: toy_start_def)
qed

end
