(* ===== verification/ObjectServer.thy ===== *)
theory ObjectServer
  imports ExecuteServerLaws
begin

text \<open>
  The object server, \<open>src/frontend/gg-object-server.cc\<close>: it answers requests for the objects of the store. Its
  callbacks hold a parser for each connection, as those of the execute server, and its canned responses are three of
  that server's.
\<close>

section \<open>Requests\<close>

text \<open>\<open>last_space - first_space - 2\<close> wraps around; the character between the method and the name is not looked at.\<close>

definition object_reply :: "world \<Rightarrow> disk \<Rightarrow> http_message \<Rightarrow> string res" where
  "object_reply w d request =
     (let first_line = hm_first_line request
      in case (str_find first_line '' '' 0, rfind_char CHR '' '' first_line) of
           (Some first_space, Some last_space) \<Rightarrow>
             if take first_space first_line \<noteq> ''GET'' then get_canned_response 405 request
             else
               bind_res (substr first_line (first_space + 2) (Some ((last_space + 2 ^ 64 - first_space - 2) mod 2 ^ 64)))
                 (\<lambda>requested_object.
               let object_path = blob (wd_gg_dir w) requested_object
               in if \<not> path_exists object_path d then get_canned_response 404 request
                  else
                    bind_res (is_directory object_path d) (\<lambda>directory.
                      if directory \<or> CHR ''/'' \<in> set requested_object then get_canned_response 404 request
                      else
                        bind_res (read_file object_path d) (\<lambda>payload.
                        bind_res (build_response request ''HTTP/1.1 200 OK''
                          [\<lparr>hh_key = ''Content-Length'', hh_value = nat_to_string (length payload)\<rparr>,
                           \<lparr>hh_key = ''Content-Type'', hh_value = ''application/octet-stream''\<rparr>] payload) message_str)))
         | _ \<Rightarrow> get_canned_response 400 request)"

definition object_request :: "world \<Rightarrow> nat \<Rightarrow> http_message \<Rightarrow> http_server \<Rightarrow> http_server res" where
  "object_request w conn request s =
     bind_res (object_reply w (sr_disk s) request) (\<lambda>text. Inr (server_enqueue conn text s))"

definition object_data :: "world \<Rightarrow> nat \<Rightarrow> string \<Rightarrow> http_server \<Rightarrow> (bool \<times> http_server) res" where
  "object_data w conn data s = requests_callback (object_request w) conn data s"

section \<open>What it sends\<close>

interpretation objects: request_handler "object_request w" for w
proof
  show "object_request w c request (with_parser c p s) = map_sum id (with_parser c p) (object_request w c request s)" for c request p s
    by (auto simp: object_request_def with_parser_def server_enqueue_def bind_res_def fun_eq_iff
        split: option.splits sum.splits)
  show "map_option sn_parser (sr_connections s' x) = map_option sn_parser (sr_connections s x)"
    if "object_request w c request s = Inr s'" for c request s s' x
    using that by (auto simp: object_request_def server_enqueue_def split: option.splits)
qed

definition object_take :: "world \<Rightarrow> nat \<Rightarrow> string \<Rightarrow> http_server \<Rightarrow> http_server res" where
  "object_take w c seg s = bind_res (object_data w c seg s) (\<lambda>(_, s'). Inr s')"

lemma object_take_segment: "object_take w = objects.take_segment w"
  by (simp add: fun_eq_iff object_take_def object_data_def objects.take_segment_def)

definition object_line :: "string \<Rightarrow> string" where
  "object_line h = ''GET /'' @ h @ '' HTTP/1.1''"

lemma rfind_char_append:
  "rfind_char c (xs @ ys) = (case rfind_char c ys of Some i \<Rightarrow> Some (length xs + i) | None \<Rightarrow> rfind_char c xs)"
  by (induction xs) (auto split: option.splits)

lemma object_line_parts:
  assumes "hm_first_line request = object_line h" and "length h < 2 ^ 64"
  shows "str_find (hm_first_line request) '' '' 0 = Some 3" "rfind_char CHR '' '' (hm_first_line request) = Some (5 + length h)"
    "take 3 (hm_first_line request) = ''GET''"
    "substr (hm_first_line request) 5 (Some ((5 + length h + 2 ^ 64 - 3 - 2) mod 2 ^ 64)) = Inr h"
proof -
  have "rfind_char CHR '' '' '' HTTP/1.1'' = Some 0" by simp
  then have "rfind_char CHR '' '' (''GET /'' @ (h @ '' HTTP/1.1'')) = Some (5 + length h)"
    by (simp only: rfind_char_append) simp
  then show "rfind_char CHR '' '' (hm_first_line request) = Some (5 + length h)" by (simp add: assms(1) object_line_def)
  show "str_find (hm_first_line request) '' '' 0 = Some 3" by (simp add: assms(1) object_line_def)
  show "take 3 (hm_first_line request) = ''GET''" by (simp add: assms(1) object_line_def)
  have "(5 + length h + 2 ^ 64 - 3 - 2) mod 2 ^ 64 = length h" using assms(2) by simp
  then show "substr (hm_first_line request) 5 (Some ((5 + length h + 2 ^ 64 - 3 - 2) mod 2 ^ 64)) = Inr h"
    by (simp only:) (simp add: assms(1) object_line_def substr_def)
qed

lemma object_not_head:
  assumes "hm_first_line request = object_line h" and "hm_state request = COMPLETE"
  shows "is_head request = Inr False"
  using assms by (simp add: is_head_def object_line_def less_http_state_def)

text \<open>A request for an object that is there.\<close>

lemma object_reply_found:
  assumes line: "hm_first_line request = object_line h" "hm_state request = COMPLETE" "length h < 2 ^ 64"
    and there: "CHR ''/'' \<notin> set h" "d (blob (wd_gg_dir w) h) = Some (Regular c m)" "length c < 2 ^ 63"
  shows "object_reply w d request = message_str (json_response request c)"
proof -
  note parts = object_line_parts [OF line(1,3)]
  have "path_exists (blob (wd_gg_dir w) h) d" "is_directory (blob (wd_gg_dir w) h) d = Inr False"
    "read_file (blob (wd_gg_dir w) h) d = Inr c"
    using there(2) by (simp_all add: path_exists_def is_directory_def read_file_def sys_stat_def read_prefix_def)
  moreover have "(3::nat) + 2 = 5" by simp
  ultimately show ?thesis
    using parts there(1) build_answer [OF there(3) object_not_head [OF line(1,2)]]
    by (simp add: object_reply_def Let_def del: power.simps)
qed

section \<open>Objects over a connection\<close>

lemma server_enqueue_twice:
  "server_enqueue c b (server_enqueue c a s) = server_enqueue c (a @ b) s"
  by (auto simp: server_enqueue_def split: option.splits)

lemma server_enqueue_Nil: "server_enqueue c [] s = s"
  by (cases s) (auto simp: server_enqueue_def fun_upd_idem split: option.splits)

lemma sr_disk_enqueue [simp]: "sr_disk (server_enqueue c text s) = sr_disk s"
  by (simp add: server_enqueue_def split: option.splits)

text \<open>A request for the object \<open>h\<close>, whose contents are \<open>c\<close>.\<close>

definition asks_for :: "world \<Rightarrow> disk \<Rightarrow> http_message \<Rightarrow> string \<times> string \<Rightarrow> bool" where
  "asks_for w d request object \<longleftrightarrow>
     (case object of (h, c) \<Rightarrow>
        wire_request request \<and> hm_first_line request = object_line h \<and> CHR ''/'' \<notin> set h \<and> length h < 2 ^ 64 \<and>
        length c < 2 ^ 63 \<and> (\<exists>m. d (blob (wd_gg_dir w) h) = Some (Regular c m)))"

lemma asks_for_reply:
  assumes "asks_for w d request (h, c)"
  shows "object_reply w d request = message_str (json_response request c)" "wire_response (json_response request c)"
proof -
  have "wire_request request" using assms by (simp add: asks_for_def)
  then have parts: "hm_first_line request = object_line h" "hm_state request = COMPLETE" "length h < 2 ^ 64"
    "CHR ''/'' \<notin> set h" "length c < 2 ^ 63"
    using assms by (simp_all add: asks_for_def) (simp add: wire_request_def)
  moreover obtain m where "d (blob (wd_gg_dir w) h) = Some (Regular c m)" using assms by (auto simp: asks_for_def)
  ultimately show "object_reply w d request = message_str (json_response request c)" by (intro object_reply_found)
  show "wire_response (json_response request c)" using object_not_head [OF parts(1,2)] parts(5) by (intro answer_wire)
qed

lemma message_str_response: "\<exists>b. message_str (json_response request c) = Inr b \<and> b \<noteq> []"
  by (simp add: message_str_def json_response_def CRLF_def)

lemma object_requests_replies:
  assumes "list_all2 (asks_for w d) rs objects" and "sr_disk s = d"
  shows "\<exists>bs. map_res message_str (map2 (\<lambda>r x. json_response r (snd x)) rs objects) = Inr bs \<and> (rs \<noteq> [] \<longrightarrow> concat bs \<noteq> []) \<and>
    fold_res (object_request w c) rs s = Inr (server_enqueue c (concat bs) s)"
  using assms
proof (induction rs objects arbitrary: s rule: list_all2_induct)
  case Nil
  then show ?case by (simp add: server_enqueue_Nil)
next
  case (Cons r rs x objects)
  obtain h content where x: "x = (h, content)" by (cases x)
  obtain b where b: "message_str (json_response r content) = Inr b" "b \<noteq> []" using message_str_response by blast
  let ?s = "server_enqueue c b s"
  have first: "object_request w c r s = Inr ?s"
    using asks_for_reply(1) [OF Cons.hyps(1) [unfolded x]] b(1) Cons.prems by (simp add: object_request_def)
  obtain bs where bs: "map_res message_str (map2 (\<lambda>r x. json_response r (snd x)) rs objects) = Inr bs"
    "fold_res (object_request w c) rs ?s = Inr (server_enqueue c (concat bs) ?s)"
    using Cons.IH [of ?s] Cons.prems by auto
  show ?case using first b bs by (intro exI [of _ "b # bs"]) (simp add: x server_enqueue_twice)
qed

text \<open>C14: objects are fetched over a connection to the object server. When a client asks for any number of objects of the
  store in one stream, however it is cut on its way, the server queues bytes from which the client's parser reads exactly
  one response to each request, in order, complete, and with the contents of the object as its body.\<close>

theorem objects_fetched:
  assumes objects: "list_all2 (asks_for w (sr_disk s)) rs objects"
    and bytes: "map_res message_str rs = Inr bs" "concat segs = concat bs" "\<forall>x \<in> set segs. x \<noteq> []" "segs \<noteq> []"
    and connection: "sr_connections s c = Some cn" "sn_parser cn = new_sequence request_class ()"
  shows "\<exists>out t. fold_res (object_take w c) segs s = Inr (server_enqueue c out s) \<and>
    parse_http response_class out ((new_sequence response_class [])\<lparr>sq_sub := rs\<rparr>) = Inr t \<and>
    map hm_body (sq_complete t) = map snd objects \<and> map hr_request (sq_complete t) = rs \<and> sq_sub t = [] \<and> sq_buffer t = []"
proof -
  let ?ms = "map2 (\<lambda>r x. json_response r (snd x)) rs objects"
  have len: "length rs = length objects" using objects by (rule list_all2_lengthD)
  have asks: "asks_for w (sr_disk s) (rs ! i) (fst (objects ! i), snd (objects ! i))" if "i < length rs" for i
    using objects that by (simp add: list_all2_conv_all_nth)
  have wire: "\<forall>r \<in> set rs. wire_request r" using asks by (auto simp: in_set_conv_nth asks_for_def)
  have wire_ms: "\<forall>m \<in> set ?ms. wire_response m" using asks_for_reply(2) [OF asks] by (auto simp: set_zip) (metis snd_conv)
  have "concat segs \<noteq> []" using bytes(3,4) by (cases segs) auto
  then have "rs \<noteq> []" using bytes(1,2) by auto
  then obtain out where out: "map_res message_str ?ms = Inr out" "concat out \<noteq> []"
    "fold_res (object_request w c) rs s = Inr (server_enqueue c (concat out) s)"
    using object_requests_replies [OF objects refl] by blast
  have taken: "fold_res (object_take w c) segs s = Inr (server_enqueue c (concat out) s)"
    unfolding object_take_segment
    using objects.requests_handled [OF wire bytes connection, of w] out(3) by simp
  have requests: "map hr_request ?ms = rs" "map hm_body ?ms = map snd objects"
    using len by (simp_all add: json_response_def list_eq_iff_nth_eq)
  from responses_read_back [OF wire_ms out(1,2)] taken requests show ?thesis
    by (intro exI [of _ "concat out"]) simp
qed

text \<open>C15: the object server gives away nothing but objects. Whatever the first line of a complete request says, a reply
  is one of three empty error messages or a response whose body is the contents of a regular file that lies directly in
  the directory of the objects, under a name without a slash.\<close>

theorem object_server_confined:
  assumes reply: "object_reply w d request = Inr text" and request: "hm_state request = COMPLETE"
    and small: "\<And>p c m. d p = Some (Regular c m) \<Longrightarrow> length c < 2 ^ 63"
  shows "(\<exists>status \<in> {400, 404, 405}. get_canned_response status request = Inr text) \<or>
    (\<exists>h c m. CHR ''/'' \<notin> set h \<and> d (path_append (blobs (wd_gg_dir w)) h) = Some (Regular c m) \<and>
       message_str (json_response request c) = Inr text)"
proof -
  consider "get_canned_response 400 request = Inr text"
    | first last where "str_find (hm_first_line request) '' '' 0 = Some first" "rfind_char CHR '' '' (hm_first_line request) = Some last"
    using reply by (auto simp: object_reply_def Let_def split: option.splits)
  then show ?thesis
  proof cases
    case 1
    then show ?thesis by blast
  next
    case 2
    show ?thesis
    proof (cases "take first (hm_first_line request) = ''GET''")
      case False
      then show ?thesis using reply 2 by (simp add: object_reply_def Let_def)
    next
      case True
      obtain h where h: "substr (hm_first_line request) (first + 2) (Some ((last + 2 ^ 64 - first - 2) mod 2 ^ 64)) = Inr h"
        using reply 2 True by (auto simp: object_reply_def Let_def simp del: power.simps)
      let ?p = "blob (wd_gg_dir w) h"
      have rest: "(if \<not> path_exists ?p d then get_canned_response 404 request
          else bind_res (is_directory ?p d) (\<lambda>directory.
            if directory \<or> CHR ''/'' \<in> set h then get_canned_response 404 request
            else bind_res (read_file ?p d) (\<lambda>payload.
              bind_res (build_response request ''HTTP/1.1 200 OK''
                [\<lparr>hh_key = ''Content-Length'', hh_value = nat_to_string (length payload)\<rparr>,
                 \<lparr>hh_key = ''Content-Type'', hh_value = ''application/octet-stream''\<rparr>] payload) message_str))) = Inr text"
        using reply 2 True h by (simp add: object_reply_def Let_def del: power.simps)
      consider "get_canned_response 404 request = Inr text"
        | c m where "d ?p = Some (Regular c m)" "CHR ''/'' \<notin> set h"
        using rest by (auto simp: path_exists_def is_directory_def sys_stat_def split: if_splits node.splits) (metis node.exhaust)
      then show ?thesis
      proof cases
        case 1
        then show ?thesis by blast
      next
        case c: 2
        have "path_exists ?p d" "is_directory ?p d = Inr False" "read_file ?p d = Inr c"
          using c(1) by (simp_all add: path_exists_def is_directory_def read_file_def sys_stat_def read_prefix_def)
        moreover have "is_head request = Inr False"
        proof -
          have "first + 1 \<le> length (hm_first_line request)" using str_find_Some [OF 2(1)] by simp
          then have "first = 3" using arg_cong [OF True, of length] by (simp add: min_def split: if_splits)
          then have "take 1 (take 3 (hm_first_line request)) = ''G''" using True by simp
          then have "take 1 (hm_first_line request) = ''G''" by simp
          then have "take 5 (hm_first_line request) \<noteq> ''HEAD ''" by (cases "hm_first_line request") auto
          then show ?thesis using request by (simp add: is_head_def less_http_state_def)
        qed
        ultimately have "message_str (json_response request c) = Inr text"
          using rest c(2) build_answer [OF small [OF c(1)], of request] by simp
        then show ?thesis using c by (auto simp: blob_def)
      qed
    qed
  qed
qed

text \<open>A request line that ends with the space after its method makes the server throw, and no handler stands between
  the callback and the end of the program.\<close>

lemma short_line_ends_server:
  assumes "hm_first_line request = ''GET ''"
  shows "object_request w c request s = Inl (Out_of_range ''basic_string::substr'')"
  using assms by (simp add: object_request_def object_reply_def substr_def)

section \<open>Two objects\<close>

definition get_message :: "string \<Rightarrow> http_message" where
  "get_message h = \<lparr>hm_expected = (True, 0), hm_first_line = object_line h,
     hm_headers = [\<lparr>hh_key = ''Host'', hh_value = ''objects''\<rparr>], hm_body = [], hm_state = COMPLETE\<rparr>"

definition two_objects :: disk where
  "two_objects = [blob ''/g'' ''Va'' \<mapsto> Regular ''x'' 256, blob ''/g'' ''Vb'' \<mapsto> Regular ''y'' 256]"

definition object_listening :: http_server where
  "object_listening = \<lparr>sr_disk = two_objects,
     sr_connections = [0 \<mapsto> \<lparr>sn_parser = new_sequence request_class (), sn_write_buffer = []\<rparr>], sr_next_id = 1\<rparr>"

lemma get_message_wire: "find_sub CRLF (object_line h) = None \<Longrightarrow> wire_request (get_message h)"
proof -
  assume "find_sub CRLF (object_line h) = None"
  moreover have "wire_header \<lparr>hh_key = ''Host'', hh_value = ''objects''\<rparr>" by code_simp
  ultimately show ?thesis
    by (simp add: wire_request_def get_message_def calculate_request_def set_expected_body_size_def)
      (simp add: object_line_def)
qed

lemma two_lines: "find_sub CRLF (object_line ''Va'') = None" "find_sub CRLF (object_line ''Vb'') = None"
  by code_simp+

theorem objects_fetched_witness:
  "\<exists>bs out t. map_res message_str [get_message ''Va'', get_message ''Vb''] = Inr bs \<and>
     fold_res (object_take toy_world 0) (map (\<lambda>ch. [ch]) (concat bs)) object_listening =
       Inr (server_enqueue 0 out object_listening) \<and>
     parse_http response_class out ((new_sequence response_class [])\<lparr>sq_sub := [get_message ''Va'', get_message ''Vb'']\<rparr>) = Inr t \<and>
     map hm_body (sq_complete t) = [''x'', ''y'']"
proof -
  let ?ms = "[get_message ''Va'', get_message ''Vb'']"
  have dir: "wd_gg_dir toy_world = ''/g''" by (simp add: toy_world_def)
  have keys: "cache_key_ok ''Va''" "cache_key_ok ''Vb''" by (simp_all add: cache_key_ok_def)
  have asks: "list_all2 (asks_for toy_world (sr_disk object_listening)) ?ms [(''Va'', ''x''), (''Vb'', ''y'')]"
    using get_message_wire [OF two_lines(1)] get_message_wire [OF two_lines(2)] by (simp add: asks_for_def dir object_listening_def two_objects_def blob_inj keys)
      (simp add: get_message_def)
  obtain bs where bs: "map_res message_str ?ms = Inr bs" "concat bs \<noteq> []"
    by (auto simp: message_str_def get_message_def)
  have segs: "concat (map (\<lambda>ch. [ch]) (concat bs)) = concat bs" by (induction "concat bs") simp_all
  have conn: "sr_connections object_listening 0 = Some \<lparr>sn_parser = new_sequence request_class (), sn_write_buffer = []\<rparr>"
    by (simp add: object_listening_def)
  from objects_fetched [OF asks bs(1) segs _ _ conn] bs show ?thesis by fastforce
qed

theorem object_server_confined_witness:
  "\<exists>text. object_reply toy_world two_objects (get_message ''Va'') = Inr text \<and>
     ((\<exists>status \<in> {400, 404, 405}. get_canned_response status (get_message ''Va'') = Inr text) \<or>
      (\<exists>h c m. CHR ''/'' \<notin> set h \<and> two_objects (path_append (blobs ''/g'') h) = Some (Regular c m) \<and>
         message_str (json_response (get_message ''Va'') c) = Inr text))"
proof -
  have "object_reply toy_world two_objects (get_message ''Va'') = message_str (json_response (get_message ''Va'') ''x'')"
    by (rule object_reply_found [where h = "''Va''" and m = 256])
      (simp_all add: get_message_def two_objects_def toy_world_def blob_inj cache_key_ok_def)
  then obtain bytes where bytes: "object_reply toy_world two_objects (get_message ''Va'') = Inr bytes"
    using message_str_response by metis
  have "hm_state (get_message ''Va'') = COMPLETE" by (simp add: get_message_def)
  moreover have "length c < 2 ^ 63" if "two_objects p = Some (Regular c m)" for p c m
    using that by (auto simp: two_objects_def split: if_splits)
  ultimately show ?thesis using object_server_confined [OF bytes] bytes by (simp add: toy_world_def)
qed

end
