(* ===== verification/KeyValue.thy ===== *)
theory KeyValue
  imports StorageLaws
begin

text \<open>
  The clients that keep objects in a key-value store: Redis (\<open>src/net/redis.cc\<close>) and Jiffy
  (\<open>src/net/jiffy.cc\<close>), with their backends. The libraries \<open>hiredis\<close> and \<open>jiffy\<close>, and the servers behind them, are
  arguments: a service over a state of the server. What a store promises is the locale
  \<open>object_client\<close>, which both clients give.
\<close>

definition c_str :: "string \<Rightarrow> string" where
  "c_str s = takeWhile (\<lambda>ch. ch \<noteq> CHR 0x00) s"

section \<open>Redis\<close>

datatype redis_command = Redis_set string string | Redis_get string

datatype redis_reply =
    Reply_string string
  | Reply_array nat
  | Reply_integer int
  | Reply_nil
  | Reply_status string
  | Reply_error string

text \<open>A reply is \<open>None\<close> when \<open>redisCommand\<close> returns a null pointer, or \<open>redisGetReply\<close> anything but
  \<open>REDIS_OK\<close>.\<close>

record 'v redis_service =
  rs_connects :: "string \<Rightarrow> 16 word \<Rightarrow> bool"
  rs_auth :: "string \<Rightarrow> redis_reply option"
  rs_execute :: "redis_command \<Rightarrow> 'v \<Rightarrow> redis_reply option \<times> 'v"

text \<open>Replies come in the order of the commands that were appended.\<close>

fun redis_replies :: "'v redis_service \<Rightarrow> redis_command list \<Rightarrow> 'v \<Rightarrow> redis_reply option list \<times> 'v" where
  "redis_replies srv [] v = ([], v)"
| "redis_replies srv (command # commands) v =
     (case rs_execute srv command v of (reply, v1) \<Rightarrow>
        case redis_replies srv commands v1 of (replies, v2) \<Rightarrow> (reply # replies, v2))"

text \<open>Threads and batches are counted as in the client of S3.\<close>

definition redis_batching :: s3_config where
  "redis_batching = \<lparr>sc_region = [], sc_endpoint = [], sc_max_threads = 32, sc_max_batch_size = 32\<rparr>"

definition redis_login :: "'v redis_service \<Rightarrow> redis_config \<Rightarrow> unit res" where
  "redis_login srv c =
     (if \<not> rs_connects srv (c_str (rc_ip c)) (rc_port c) then Inl (Runtime_error ''error connecting to redis server'')
      else if 0 < length (rc_password c) then
        (case rs_auth srv (c_str (rc_password c)) of
           None \<Rightarrow> Inl (Runtime_error ''could not authenticate to redis server'')
         | Some (Reply_error _) \<Rightarrow> Inl (Runtime_error ''could not authenticate to redis server'')
         | Some _ \<Rightarrow> Inr ())
      else Inr ())"

definition redis_put_command :: "put_request list \<Rightarrow> disk \<Rightarrow> nat \<Rightarrow> redis_command res" where
  "redis_put_command requests d file_id =
     bind_res (read_whole (pr_filename (requests ! file_id)) d) (\<lambda>contents.
       Inr (Redis_set (c_str (pr_object_key (requests ! file_id))) contents))"

text \<open>The reply to a \<open>SET\<close> is freed without a look at it.\<close>

definition redis_stored ::
  "put_request list \<Rightarrow> (put_request \<Rightarrow> disk \<Rightarrow> disk res) \<Rightarrow> nat \<Rightarrow> nat \<times> redis_reply option \<Rightarrow> disk \<Rightarrow> disk res" where
  "redis_stored requests success first_file_idx answer d =
     (case answer of (response_count, reply) \<Rightarrow>
        case reply of
          None \<Rightarrow> Inl (Runtime_error ''failed to get response from redis'')
        | Some _ \<Rightarrow> success (requests ! (first_file_idx + response_count * sc_max_threads redis_batching)) d)"

definition redis_upload_batch ::
  "'v redis_service \<Rightarrow> put_request list \<Rightarrow> (put_request \<Rightarrow> disk \<Rightarrow> disk res) \<Rightarrow> nat \<Rightarrow> disk \<times> 'v \<Rightarrow> (disk \<times> 'v) res" where
  "redis_upload_batch srv requests success first_file_idx st =
     (case st of (d, v) \<Rightarrow>
        bind_res (map_res (redis_put_command requests d) (batch_files redis_batching (length requests) first_file_idx))
          (\<lambda>commands. case redis_replies srv commands v of (replies, v') \<Rightarrow>
             bind_res (fold_res (redis_stored requests success first_file_idx) (enumerate 0 replies) d) (\<lambda>d'.
               Inr (d', v'))))"

definition redis_fetched ::
  "kernel \<Rightarrow> get_request list \<Rightarrow> (get_request \<Rightarrow> disk \<Rightarrow> disk res) \<Rightarrow> nat \<Rightarrow> nat \<times> redis_reply option \<Rightarrow> disk \<Rightarrow> disk res"
  where
  "redis_fetched k requests success first_file_idx answer d =
     (case answer of (response_count, reply) \<Rightarrow>
        case reply of
          None \<Rightarrow> Inl (Runtime_error ''failed to get response from redis'')
        | Some (Reply_string s) \<Rightarrow>
            (let r = requests ! (first_file_idx + response_count * sc_max_threads redis_batching)
             in bind_res (atomic_create k (take (length s mod 2 ^ 32) s) (gr_filename r) (gr_mode r) d) (success r))
        | Some _ \<Rightarrow> Inl (Runtime_error ''unexpected response from redis''))"

definition redis_download_batch ::
  "'v redis_service \<Rightarrow> kernel \<Rightarrow> get_request list \<Rightarrow> (get_request \<Rightarrow> disk \<Rightarrow> disk res) \<Rightarrow> nat \<Rightarrow> disk \<times> 'v \<Rightarrow>
     (disk \<times> 'v) res" where
  "redis_download_batch srv k requests success first_file_idx st =
     (case st of (d, v) \<Rightarrow>
        case redis_replies srv (map (\<lambda>file_id. Redis_get (c_str (gr_object_key (requests ! file_id))))
            (batch_files redis_batching (length requests) first_file_idx)) v of (replies, v') \<Rightarrow>
          bind_res (fold_res (redis_fetched k requests success first_file_idx) (enumerate 0 replies) d) (\<lambda>d'.
            Inr (d', v')))"

definition redis_threads ::
  "'v redis_service \<Rightarrow> redis_config \<Rightarrow> nat \<Rightarrow> (nat \<Rightarrow> disk \<times> 'v \<Rightarrow> (disk \<times> 'v) res) \<Rightarrow> disk \<times> 'v \<Rightarrow> (disk \<times> 'v) res"
  where
  "redis_threads srv c n batch st =
     fold_res (\<lambda>index st. in_thread (bind_res (redis_login srv c) (\<lambda>_.
         fold_res batch (batch_starts redis_batching n index) st))) (thread_indices redis_batching n) st"

definition redis_upload ::
  "'v redis_service \<Rightarrow> redis_config \<Rightarrow> put_request list \<Rightarrow> (put_request \<Rightarrow> disk \<Rightarrow> disk res) \<Rightarrow> disk \<times> 'v \<Rightarrow>
     (disk \<times> 'v) res" where
  "redis_upload srv c requests success st =
     redis_threads srv c (length requests) (redis_upload_batch srv requests success) st"

definition redis_download ::
  "'v redis_service \<Rightarrow> redis_config \<Rightarrow> kernel \<Rightarrow> get_request list \<Rightarrow> (get_request \<Rightarrow> disk \<Rightarrow> disk res) \<Rightarrow>
     disk \<times> 'v \<Rightarrow> (disk \<times> 'v) res" where
  "redis_download srv c k requests success st =
     redis_threads srv c (length requests) (redis_download_batch srv k requests success) st"

section \<open>Jiffy\<close>

text \<open>One hash table holds all objects, at a path of its file system.\<close>

record 'v jiffy_service =
  js_exists :: "string \<Rightarrow> 'v \<Rightarrow> bool res"
  js_on_disk :: "string \<Rightarrow> 'v \<Rightarrow> bool res"
  js_load :: "string \<Rightarrow> string \<Rightarrow> 'v \<Rightarrow> 'v res"
  js_open :: "string \<Rightarrow> 'v \<Rightarrow> 'v res"
  js_create :: "string \<Rightarrow> string \<Rightarrow> 'v \<Rightarrow> 'v res"
  js_has :: "string \<Rightarrow> 'v \<Rightarrow> bool res"
  js_update :: "string \<Rightarrow> string \<Rightarrow> 'v \<Rightarrow> 'v res"
  js_put :: "string \<Rightarrow> string \<Rightarrow> 'v \<Rightarrow> 'v res"
  js_get :: "string \<Rightarrow> 'v \<Rightarrow> string res"

definition back_path :: string where "back_path = ''local://tmp''"

definition tmp_path :: string where "tmp_path = ''/a/file''"

definition jiffy_table :: "'v jiffy_service \<Rightarrow> 'v \<Rightarrow> 'v res" where
  "jiffy_table js v =
     bind_res (js_exists js tmp_path v) (\<lambda>there.
       if there then
         bind_res (js_on_disk js tmp_path v) (\<lambda>on_disk.
         bind_res (if on_disk then js_load js tmp_path (back_path @ tmp_path) v else Inr v) (js_open js tmp_path))
       else js_create js tmp_path (back_path @ tmp_path) v)"

definition jiffy_upload_file ::
  "'v jiffy_service \<Rightarrow> (put_request \<Rightarrow> disk \<Rightarrow> disk res) \<Rightarrow> put_request \<Rightarrow> disk \<times> 'v \<Rightarrow> (disk \<times> 'v) res" where
  "jiffy_upload_file js success r st =
     (case st of (d, v) \<Rightarrow>
        bind_res (read_whole (pr_filename r) d) (\<lambda>contents.
        bind_res (jiffy_table js v) (\<lambda>v1.
        bind_res (js_has js (pr_object_key r) v1) (\<lambda>there.
        bind_res (if there then js_update js (pr_object_key r) contents v1 else js_put js (pr_object_key r) contents v1)
          (\<lambda>v2. bind_res (success r d) (\<lambda>d'. Inr (d', v2)))))))"

definition jiffy_upload ::
  "'v jiffy_service \<Rightarrow> put_request list \<Rightarrow> (put_request \<Rightarrow> disk \<Rightarrow> disk res) \<Rightarrow> disk \<times> 'v \<Rightarrow> (disk \<times> 'v) res" where
  "jiffy_upload js requests success st = fold_res (jiffy_upload_file js success) requests st"

definition jiffy_download_file ::
  "'v jiffy_service \<Rightarrow> kernel \<Rightarrow> (get_request \<Rightarrow> disk \<Rightarrow> disk res) \<Rightarrow> get_request \<Rightarrow> disk \<times> 'v \<Rightarrow> (disk \<times> 'v) res" where
  "jiffy_download_file js k success r st =
     (case st of (d, v) \<Rightarrow>
        bind_res (jiffy_table js v) (\<lambda>v1.
        bind_res (js_has js (gr_object_key r) v1) (\<lambda>there.
          if \<not> there then Inl (Runtime_error (gr_object_key r @ '' does not exist''))
          else
            bind_res (js_get js (gr_object_key r) v1) (\<lambda>contents.
            bind_res (atomic_create k contents (gr_filename r) (gr_mode r) d) (\<lambda>d1.
            bind_res (success r d1) (\<lambda>d'. Inr (d', v1)))))))"

definition jiffy_download ::
  "'v jiffy_service \<Rightarrow> kernel \<Rightarrow> get_request list \<Rightarrow> (get_request \<Rightarrow> disk \<Rightarrow> disk res) \<Rightarrow> disk \<times> 'v \<Rightarrow>
     (disk \<times> 'v) res" where
  "jiffy_download js k requests success st = fold_res (jiffy_download_file js k success) requests st"

end
