(* ===== verification/KeyValueLaws.thy ===== *)
theory KeyValueLaws
  imports KeyValue
begin

text \<open>
  What the key-value clients keep of the contract of a store of objects, stated as the locale \<open>object_client\<close> and
  proved for both.
\<close>

section \<open>The contract\<close>

text \<open>The callbacks leave the files alone that are still to be sent, or that were received.\<close>

definition keeps_uploads :: "put_request list \<Rightarrow> (put_request \<Rightarrow> disk \<Rightarrow> disk res) \<Rightarrow> bool" where
  "keeps_uploads requests success \<longleftrightarrow>
     (\<forall>r d d'. success r d = Inr d' \<longrightarrow> (\<forall>q \<in> set requests. d' (pr_filename q) = d (pr_filename q)))"

definition keeps_downloads :: "get_request list \<Rightarrow> (get_request \<Rightarrow> disk \<Rightarrow> disk res) \<Rightarrow> bool" where
  "keeps_downloads requests success \<longleftrightarrow>
     (\<forall>r d d'. success r d = Inr d' \<longrightarrow> (\<forall>q \<in> set requests. d' (gr_filename q) = d (gr_filename q)))"

text \<open>Redis refuses a string of more than 512 megabytes.\<close>

definition object_limit :: nat where "object_limit = 2 ^ 29"

definition plain_key :: "string \<Rightarrow> bool" where
  "plain_key h \<longleftrightarrow> CHR 0x00 \<notin> set h"

lemma c_str_plain [simp]: "plain_key h \<Longrightarrow> c_str h = h"
  by (auto simp: c_str_def plain_key_def takeWhile_eq_all_conv)

definition uploads_ok :: "put_request list \<Rightarrow> bool" where
  "uploads_ok requests \<longleftrightarrow> distinct (map pr_object_key requests) \<and> (\<forall>r \<in> set requests. plain_key (pr_object_key r))"

definition downloads_ok :: "get_request list \<Rightarrow> bool" where
  "downloads_ok requests \<longleftrightarrow> distinct (map gr_filename requests) \<and> (\<forall>r \<in> set requests. plain_key (gr_object_key r))"

text \<open>A client that is \<open>sure\<close> has stored every object when an upload returns. Otherwise an object may also have been
  refused, and what was there before is still there.\<close>

locale object_client =
  fixes ok :: "'s \<Rightarrow> ('v \<Rightarrow> string \<rightharpoonup> string) \<Rightarrow> bool"
    and sure :: bool
    and put :: "'s \<Rightarrow> put_request list \<Rightarrow> (put_request \<Rightarrow> disk \<Rightarrow> disk res) \<Rightarrow> disk \<times> 'v \<Rightarrow> (disk \<times> 'v) res"
    and get :: "'s \<Rightarrow> kernel \<Rightarrow> get_request list \<Rightarrow> (get_request \<Rightarrow> disk \<Rightarrow> disk res) \<Rightarrow> disk \<times> 'v \<Rightarrow> (disk \<times> 'v) res"
  assumes put_stores: "ok s view \<Longrightarrow> uploads_ok puts \<Longrightarrow> keeps_uploads puts stored \<Longrightarrow>
      put s puts stored (d, v) = Inr (d', v') \<Longrightarrow> r \<in> set puts \<Longrightarrow>
      \<exists>c. read_whole (pr_filename r) d = Inr c \<and>
        (view v' (pr_object_key r) = Some c \<or> \<not> sure \<and> view v' (pr_object_key r) = view v (pr_object_key r))"
    and put_others: "ok s view \<Longrightarrow> uploads_ok puts \<Longrightarrow> keeps_uploads puts stored \<Longrightarrow>
      put s puts stored (d, v) = Inr (d', v') \<Longrightarrow> key \<notin> pr_object_key ` set puts \<Longrightarrow> view v' key = view v key"
    and get_writes: "ok s view \<Longrightarrow> downloads_ok gets \<Longrightarrow> keeps_downloads gets fetched \<Longrightarrow>
      get s k gets fetched (d, v) = Inr (d', v') \<Longrightarrow> q \<in> set gets \<Longrightarrow>
      \<exists>c. view v (gr_object_key q) = Some c \<and> read_file (gr_filename q) d' = Inr c"
begin

text \<open>An object that was put arrives where it is got, whatever happens in between that does not put it again. The store
  is one where a key stands for one object: an object that it held under the key before was the same.\<close>

lemma object_arrives:
  assumes "ok s view" and "uploads_ok puts" "keeps_uploads puts stored" "put s puts stored (d, v) = Inr (d', v')"
    and "r \<in> set puts" and "\<And>c. view v (pr_object_key r) = Some c \<Longrightarrow> sure \<or> read_whole (pr_filename r) d = Inr c"
    and "view w (pr_object_key r) = view v' (pr_object_key r)"
    and "ok s' view" "downloads_ok gets" "keeps_downloads gets fetched" "get s' k gets fetched (e, w) = Inr (e', w')"
    and "q \<in> set gets" "gr_object_key q = pr_object_key r"
  shows "\<exists>c. read_whole (pr_filename r) d = Inr c \<and> read_file (gr_filename q) e' = Inr c"
proof -
  from put_stores [OF assms(1-5)] obtain c
    where c: "read_whole (pr_filename r) d = Inr c"
      "view v' (pr_object_key r) = Some c \<or> \<not> sure \<and> view v' (pr_object_key r) = view v (pr_object_key r)" by blast
  from get_writes [OF assms(8-12)] obtain c'
    where c': "view w (gr_object_key q) = Some c'" "read_file (gr_filename q) e' = Inr c'" by blast
  from c' assms(7,13) have "view v' (pr_object_key r) = Some c'" by simp
  with c assms(6) [of c'] have "c' = c" by auto
  with c(1) c'(2) show ?thesis by blast
qed

end

section \<open>Loops that collect\<close>

text \<open>A loop whose rounds add to what has been done.\<close>

lemma fold_res_collects:
  assumes "fold_res f xs s = Inr t" and "P A s"
    and "\<And>x s t A. x \<in> set xs \<Longrightarrow> P A s \<Longrightarrow> f x s = Inr t \<Longrightarrow> P (A \<union> g x) t"
  shows "P (A \<union> (\<Union>x \<in> set xs. g x)) t"
  using assms
proof (induction xs arbitrary: A s)
  case (Cons x xs)
  from Cons.prems(1) obtain s1 where s1: "f x s = Inr s1" and rest: "fold_res f xs s1 = Inr t" by auto
  have "P ((A \<union> g x) \<union> (\<Union>x \<in> set xs. g x)) t"
    by (rule Cons.IH [OF rest Cons.prems(3) [OF _ Cons.prems(2) s1]]) (auto intro: Cons.prems(3))
  then show ?case by (simp add: Un_assoc)
qed simp

text \<open>All threads and batches of a transfer: every request is handled.\<close>

lemma redis_threads_collect:
  assumes "redis_threads srv c n batch st = Inr st'" and "P {} st"
    and batch: "\<And>first A s t. P A s \<Longrightarrow> batch first s = Inr t \<Longrightarrow> P (A \<union> set (batch_files redis_batching n first)) t"
  shows "P {..<n} st'"
proof -
  have "P ({} \<union> (\<Union>index \<in> set (thread_indices redis_batching n).
      \<Union>first \<in> set (batch_starts redis_batching n index). set (batch_files redis_batching n first))) st'"
  proof (rule fold_res_collects [where P = P, OF assms(1) [unfolded redis_threads_def] assms(2)])
    fix index s t A assume P: "P A s"
      and run: "in_thread (bind_res (redis_login srv c) (\<lambda>_. fold_res batch (batch_starts redis_batching n index) s)) = Inr t"
    from run have "fold_res batch (batch_starts redis_batching n index) s = Inr t"
      by (auto simp: in_thread_def bind_res_def split: sum.splits)
    then show "P (A \<union> (\<Union>first \<in> set (batch_starts redis_batching n index). set (batch_files redis_batching n first))) t"
      using P batch by (rule fold_res_collects [where P = P])
  qed
  moreover have "(\<Union>index \<in> set (thread_indices redis_batching n).
      \<Union>first \<in> set (batch_starts redis_batching n index). set (batch_files redis_batching n first)) =
    set (all_files redis_batching n)" by (simp add: all_files_def)
  ultimately show ?thesis using s3_batches_cover [of redis_batching n] by (simp add: redis_batching_def)
qed

lemma redis_file: "k < length (batch_files redis_batching n first) \<Longrightarrow>
  first + k * sc_max_threads redis_batching = batch_files redis_batching n first ! k"
  using s3_batches_cover [of redis_batching n] by (simp add: redis_batching_def)

lemma redis_file_bound: "i \<in> set (batch_files redis_batching n first) \<Longrightarrow> i < n"
  by (auto simp: batch_files_def for_range_set redis_batching_def)

text \<open>The replies of a batch, with the requests they are taken for.\<close>

lemma redis_answers:
  assumes "length replies = length (batch_files redis_batching n first)"
  shows "map (\<lambda>(k, reply). (first + k * sc_max_threads redis_batching, reply)) (enumerate 0 replies) =
    zip (batch_files redis_batching n first) replies"
  using assms by (intro nth_equalityI) (simp_all add: nth_enumerate_eq redis_file)

lemma fold_res_map: "fold_res f (map g xs) s = fold_res (\<lambda>x. f (g x)) xs s"
proof (induction xs arbitrary: s)
  case (Cons x xs)
  then have "fold_res f (map g xs) = fold_res (\<lambda>x. f (g x)) xs" by (rule ext)
  then show ?case by simp
qed simp

section \<open>Redis\<close>

text \<open>The commands \<open>SET\<close> and \<open>GET\<close> as they are documented: \<open>SET\<close> has stored the string when the reply is \<open>OK\<close>, and any
  other reply, such as the error of a server that is out of memory, says that it has not; \<open>GET\<close> replies with the
  string, with nil when there is none, or with an error. \<open>view\<close> is what the server holds.\<close>

definition redis_ok :: "'v redis_service \<times> redis_config \<Rightarrow> ('v \<Rightarrow> string \<rightharpoonup> string) \<Rightarrow> bool" where
  "redis_ok s view \<longleftrightarrow>
     (\<forall>key c v reply v'. rs_execute (fst s) (Redis_set key c) v = (Some reply, v') \<longrightarrow>
        view v' = (if reply = Reply_status ''OK'' then (view v)(key \<mapsto> c) else view v)) \<and>
     (\<forall>key v reply v'. rs_execute (fst s) (Redis_get key) v = (Some reply, v') \<longrightarrow>
        view v' = view v \<and>
        ((\<exists>msg. reply = Reply_error msg) \<or> reply = (case view v key of Some c \<Rightarrow> Reply_string c | None \<Rightarrow> Reply_nil))) \<and>
     (\<forall>v key c. view v key = Some c \<longrightarrow> length c \<le> object_limit)"

lemma redis_replies_length: "length (fst (redis_replies srv commands v)) = length commands"
proof (induction commands arbitrary: v)
  case (Cons command commands)
  then show ?case
    by (cases "rs_execute srv command v"; cases "redis_replies srv commands (snd (rs_execute srv command v))") (auto, metis fst_conv)
qed simp

text \<open>A batch of uploads.\<close>

definition uploaded ::
  "bool \<Rightarrow> put_request list \<Rightarrow> ('v \<Rightarrow> string \<rightharpoonup> string) \<Rightarrow> disk \<Rightarrow> 'v \<Rightarrow> nat set \<Rightarrow> disk \<times> 'v \<Rightarrow> bool" where
  "uploaded sure requests view d0 v0 A st \<longleftrightarrow> A \<subseteq> {..<length requests} \<and>
     (\<forall>q \<in> set requests. fst st (pr_filename q) = d0 (pr_filename q)) \<and>
     (\<forall>i \<in> A. \<exists>c. read_whole (pr_filename (requests ! i)) d0 = Inr c) \<and>
     (\<forall>i < length requests.
        view (snd st) (pr_object_key (requests ! i)) = view v0 (pr_object_key (requests ! i)) \<and> (i \<in> A \<longrightarrow> \<not> sure) \<or>
        (\<exists>c. read_whole (pr_filename (requests ! i)) d0 = Inr c \<and> view (snd st) (pr_object_key (requests ! i)) = Some c)) \<and>
     (\<forall>key. key \<notin> pr_object_key ` set requests \<longrightarrow> view (snd st) key = view v0 key)"

text \<open>One object: it is stored, or refused by a client that is not sure.\<close>

lemma uploaded_step:
  assumes "uploaded sure requests view d0 v0 A (d, v)" and "uploads_ok requests" and "i < length requests"
    and "read_whole (pr_filename (requests ! i)) d0 = Inr c"
    and "view v1 = (view v)(pr_object_key (requests ! i) \<mapsto> c) \<or> \<not> sure \<and> view v1 = view v"
    and "\<And>q. q \<in> set requests \<Longrightarrow> d1 (pr_filename q) = d (pr_filename q)"
  shows "uploaded sure requests view d0 v0 (A \<union> {i}) (d1, v1)"
proof -
  have same: "j = i" if "j < length requests" "pr_object_key (requests ! j) = pr_object_key (requests ! i)" for j
    using that assms(2,3) by (auto simp: uploads_ok_def distinct_conv_nth)
  have r: "requests ! i \<in> set requests" using assms(3) by simp
  show ?thesis
    using assms(5)
  proof
    assume new: "view v1 = (view v)(pr_object_key (requests ! i) \<mapsto> c)"
    show ?thesis
      unfolding uploaded_def
    proof (intro conjI allI impI)
      fix j assume "j < length requests"
      then show "view (snd (d1, v1)) (pr_object_key (requests ! j)) = view v0 (pr_object_key (requests ! j)) \<and>
           (j \<in> A \<union> {i} \<longrightarrow> \<not> sure) \<or>
         (\<exists>c. read_whole (pr_filename (requests ! j)) d0 = Inr c \<and> view (snd (d1, v1)) (pr_object_key (requests ! j)) = Some c)"
        using assms(1,4) same [of j]
        by (cases "pr_object_key (requests ! j) = pr_object_key (requests ! i)") (auto simp: uploaded_def new)
    qed (use assms(1,3,4,6) r in \<open>auto simp: uploaded_def new\<close>)
  next
    assume "\<not> sure \<and> view v1 = view v"
    then show ?thesis using assms(1,3,4,6) unfolding uploaded_def by auto
  qed
qed

lemma read_whole_cong: "d p = d' p \<Longrightarrow> read_whole p d = read_whole p d'"
  by (simp add: read_whole_def)

lemma redis_sets:
  assumes ok: "redis_ok (srv, c) view" "uploads_ok requests"
    and "\<forall>i \<in> set files. i < length requests"
    and "map_res (redis_put_command requests d) files = Inr commands"
    and "redis_replies srv commands v = (replies, v')" and "None \<notin> set replies"
    and "uploaded False requests view d0 v0 A (d, v)"
  shows "uploaded False requests view d0 v0 (A \<union> set files) (d, v')"
  using assms(3-)
proof (induction files arbitrary: commands v replies A)
  case (Cons i files)
  let ?r = "requests ! i"
  have r: "?r \<in> set requests" using Cons.prems(1) by simp
  then have key: "plain_key (pr_object_key ?r)" using ok(2) by (simp add: uploads_ok_def)
  from Cons.prems(2) obtain command commands1 where first: "redis_put_command requests d i = Inr command"
    and rest: "map_res (redis_put_command requests d) files = Inr commands1" "commands = command # commands1" by auto
  from first key obtain contents where contents: "read_whole (pr_filename ?r) d = Inr contents"
    "command = Redis_set (pr_object_key ?r) contents" by (auto simp: redis_put_command_def)
  obtain reply v1 replies1 where one: "rs_execute srv command v = (reply, v1)"
    and more: "redis_replies srv commands1 v1 = (replies1, v')" "replies = reply # replies1"
    using Cons.prems(3) rest(2) by (auto split: prod.splits)
  have whole: "read_whole (pr_filename ?r) d0 = Inr contents"
    using contents(1) Cons.prems(5) r read_whole_cong [of d "pr_filename ?r" d0] by (simp add: uploaded_def)
  have set1: "view v1 = (view v)(pr_object_key ?r \<mapsto> contents) \<or> \<not> False \<and> view v1 = view v"
    using ok(1) one contents(2) Cons.prems(4) more(2) by (cases reply) (auto simp: redis_ok_def split: if_splits)
  have "uploaded False requests view d0 v0 (A \<union> {i}) (d, v1)"
    by (rule uploaded_step [OF Cons.prems(5) ok(2) _ whole set1]) (use Cons.prems(1) in simp_all)
  from Cons.IH [OF _ rest(1) more(1) _ this] Cons.prems(1,4) more(2) show ?case by simp
qed simp

lemma redis_stored_replied:
  "fold_res (redis_stored requests success first) (enumerate m replies) d = Inr d' \<Longrightarrow> None \<notin> set replies"
  by (induction replies arbitrary: m d) (auto simp: redis_stored_def split: option.splits)

lemma redis_stored_keeps:
  assumes "fold_res (redis_stored requests success first) answers d = Inr d'" and "keeps_uploads requests success"
    and "q \<in> set requests"
  shows "d' (pr_filename q) = d (pr_filename q)"
proof (rule fold_res_invariant [OF assms(1), of "\<lambda>e. e (pr_filename q) = d (pr_filename q)"])
  fix answer e e' assume "e (pr_filename q) = d (pr_filename q)" "redis_stored requests success first answer e = Inr e'"
  moreover from this obtain r where "success r e = Inr e'" by (auto simp: redis_stored_def split: prod.splits option.splits)
  ultimately show "e' (pr_filename q) = d (pr_filename q)" using assms(2,3) unfolding keeps_uploads_def by metis
qed simp

lemma redis_upload_batch_step:
  assumes ok: "redis_ok (srv, c) view" "uploads_ok requests" "keeps_uploads requests success"
    and before: "uploaded False requests view d0 v0 A st" and run: "redis_upload_batch srv requests success first st = Inr st'"
  shows "uploaded False requests view d0 v0 (A \<union> set (batch_files redis_batching (length requests) first)) st'"
proof -
  let ?files = "batch_files redis_batching (length requests) first"
  obtain d v where st: "st = (d, v)" by (cases st)
  from run obtain commands where commands: "map_res (redis_put_command requests d) ?files = Inr commands"
    by (auto simp: redis_upload_batch_def st)
  obtain replies v' where replies: "redis_replies srv commands v = (replies, v')" by (cases "redis_replies srv commands v")
  with run commands obtain d' where stored: "fold_res (redis_stored requests success first) (enumerate 0 replies) d = Inr d'"
    and st': "st' = (d', v')" by (auto simp: redis_upload_batch_def st)
  have "\<forall>i \<in> set ?files. i < length requests" by (simp add: redis_file_bound)
  from redis_sets [OF ok(1,2) this commands replies redis_stored_replied [OF stored]] before
  have "uploaded False requests view d0 v0 (A \<union> set ?files) (d, v')" by (simp add: st)
  then show ?thesis using redis_stored_keeps [OF stored ok(3)] by (simp add: uploaded_def st')
qed

lemma redis_upload_done:
  assumes "redis_ok (srv, c) view" "uploads_ok requests" "keeps_uploads requests success"
    and "redis_upload srv c requests success (d, v) = Inr (d', v')"
  shows "uploaded False requests view d v {..<length requests} (d', v')"
proof (rule redis_threads_collect [OF assms(4) [unfolded redis_upload_def]])
  show "uploaded False requests view d v {} (d, v)" by (simp add: uploaded_def)
qed (rule redis_upload_batch_step [OF assms(1-3)])

text \<open>A batch of downloads.\<close>

definition downloaded ::
  "get_request list \<Rightarrow> ('v \<Rightarrow> string \<rightharpoonup> string) \<Rightarrow> 'v \<Rightarrow> nat set \<Rightarrow> disk \<times> 'v \<Rightarrow> bool" where
  "downloaded requests view v0 A st \<longleftrightarrow> A \<subseteq> {..<length requests} \<and> view (snd st) = view v0 \<and>
     (\<forall>i \<in> A. \<exists>c m. view v0 (gr_object_key (requests ! i)) = Some c \<and> fst st (gr_filename (requests ! i)) = Some (Regular c m))"

lemma downloaded_step:
  assumes "downloaded requests view v0 A (d, v)" and "downloads_ok requests" "keeps_downloads requests success"
    and "i < length requests" and "view v0 (gr_object_key (requests ! i)) = Some c" and "view v' = view v0"
    and "atomic_create k c (gr_filename (requests ! i)) (gr_mode (requests ! i)) d = Inr d1"
    and "success (requests ! i) d1 = Inr d'"
  shows "downloaded requests view v0 (A \<union> {i}) (d', v')"
proof -
  have keeps: "d' (gr_filename (requests ! j)) = d1 (gr_filename (requests ! j))" if "j < length requests" for j
    using assms(3,8) that by (simp add: keeps_downloads_def)
  have d1: "d1 = d(gr_filename (requests ! i) \<mapsto> Regular c (final_mode (gr_mode (requests ! i))))"
    by (rule atomic_create_Inr [OF assms(7)])
  have same: "j = i" if "j < length requests" "gr_filename (requests ! j) = gr_filename (requests ! i)" for j
    using that assms(2,4) by (auto simp: downloads_ok_def distinct_conv_nth)
  show ?thesis
    unfolding downloaded_def
  proof (intro conjI ballI)
    fix j assume "j \<in> A \<union> {i}"
    then consider "j = i" | "j \<in> A" "j \<noteq> i" "j < length requests"
      using assms(1) by (auto simp: downloaded_def)
    then show "\<exists>c m. view v0 (gr_object_key (requests ! j)) = Some c \<and>
        fst (d', v') (gr_filename (requests ! j)) = Some (Regular c m)"
      by cases (use assms(1,4,5) keeps same [of j] in \<open>auto simp: downloaded_def d1\<close>)
  qed (use assms(1,4,6) in \<open>auto simp: downloaded_def\<close>)
qed

definition good_reply :: "string option \<Rightarrow> redis_reply option \<Rightarrow> bool" where
  "good_reply held reply \<longleftrightarrow> (\<exists>msg. reply = Some (Reply_error msg)) \<or>
     reply = Some (case held of Some c \<Rightarrow> Reply_string c | None \<Rightarrow> Reply_nil)"

lemma redis_gets:
  assumes "redis_ok (srv, c) view" "\<forall>i \<in> set files. plain_key (gr_object_key (requests ! i))"
    and "redis_replies srv (map (\<lambda>i. Redis_get (c_str (gr_object_key (requests ! i)))) files) v = (replies, v')"
    and "None \<notin> set replies"
  shows "view v' = view v \<and> list_all2 (\<lambda>i. good_reply (view v (gr_object_key (requests ! i)))) files replies"
  using assms(2-)
proof (induction files arbitrary: v replies)
  case (Cons i files)
  obtain reply v1 replies1 where one: "rs_execute srv (Redis_get (gr_object_key (requests ! i))) v = (reply, v1)"
    and more: "redis_replies srv (map (\<lambda>i. Redis_get (c_str (gr_object_key (requests ! i)))) files) v1 = (replies1, v')"
      "replies = reply # replies1"
    using Cons.prems by (auto split: prod.splits)
  then obtain a where a: "reply = Some a" "None \<notin> set replies1" using Cons.prems(3) by (cases reply) auto
  have "view v1 = view v \<and> good_reply (view v (gr_object_key (requests ! i))) reply"
    using one assms(1) a(1) by (auto simp: redis_ok_def good_reply_def)
  then show ?case using Cons.IH [OF _ more(1) a(2)] Cons.prems(1) more(2) by simp
qed simp

lemma redis_fetched_replied:
  "fold_res (redis_fetched k requests success first) (enumerate m replies) d = Inr d' \<Longrightarrow> None \<notin> set replies"
  by (induction replies arbitrary: m d) (auto simp: redis_fetched_def split: option.splits)

text \<open>What becomes of the reply for the i-th file.\<close>

definition take_fetched ::
  "kernel \<Rightarrow> get_request list \<Rightarrow> (get_request \<Rightarrow> disk \<Rightarrow> disk res) \<Rightarrow> nat \<times> redis_reply option \<Rightarrow> disk \<Rightarrow> disk res" where
  "take_fetched k requests success answer d =
     redis_fetched k [requests ! fst answer] success 0 (0, snd answer) d"

lemma redis_fetched_take:
  "redis_fetched k requests success first (j, reply) d =
   take_fetched k requests success (first + j * sc_max_threads redis_batching, reply) d"
  by (simp add: take_fetched_def redis_fetched_def)

lemma redis_fetched_files:
  assumes "length replies = length (batch_files redis_batching n first)"
  shows "fold_res (redis_fetched k requests success first) (enumerate 0 replies) d =
    fold_res (take_fetched k requests success) (zip (batch_files redis_batching n first) replies) d"
proof -
  have "fold_res (redis_fetched k requests success first) (enumerate 0 replies) d =
      fold_res (take_fetched k requests success)
        (map (\<lambda>(j, reply). (first + j * sc_max_threads redis_batching, reply)) (enumerate 0 replies)) d"
    unfolding fold_res_map by (intro fold_res_cong) (auto simp: redis_fetched_take)
  then show ?thesis by (simp only: redis_answers [OF assms])
qed

lemma redis_fetches:
  assumes "redis_ok (srv, c) view" "downloads_ok requests" "keeps_downloads requests success"
    and "\<forall>i \<in> set files. i < length requests" and "view v' = view v0"
    and "list_all2 (\<lambda>i. good_reply (view v0 (gr_object_key (requests ! i)))) files replies"
    and "fold_res (take_fetched k requests success) (zip files replies) d = Inr d'"
    and "downloaded requests view v0 A (d, v')"
  shows "downloaded requests view v0 (A \<union> set files) (d', v')"
  using assms(4,6,7,8)
proof (induction files arbitrary: replies d A)
  case (Cons i files)
  let ?r = "requests ! i"
  from Cons.prems(2) obtain reply replies1 where replies: "replies = reply # replies1"
    and reply: "good_reply (view v0 (gr_object_key ?r)) reply"
    and later: "list_all2 (\<lambda>i. good_reply (view v0 (gr_object_key (requests ! i)))) files replies1"
    by (cases replies) auto
  from Cons.prems(3) obtain d2 where one: "take_fetched k requests success (i, reply) d = Inr d2"
    and rest: "fold_res (take_fetched k requests success) (zip files replies1) d2 = Inr d'" by (auto simp: replies)
  from one reply obtain x where x: "view v0 (gr_object_key ?r) = Some x" "reply = Some (Reply_string x)"
    by (cases "view v0 (gr_object_key ?r)") (auto simp: take_fetched_def redis_fetched_def good_reply_def)
  then have "length x \<le> object_limit" using assms(1) by (simp add: redis_ok_def)
  then have small: "length x mod 2 ^ 32 = length x" by (simp add: object_limit_def)
  from one x obtain d1 where d1: "atomic_create k x (gr_filename ?r) (gr_mode ?r) d = Inr d1" "success ?r d1 = Inr d2"
    by (auto simp: take_fetched_def redis_fetched_def Let_def small [simplified])
  have "i < length requests" using Cons.prems(1) by simp
  from downloaded_step [OF Cons.prems(4) assms(2,3) this x(1) assms(5) d1]
  have "downloaded requests view v0 (A \<union> {i}) (d2, v')" .
  from Cons.IH [OF _ later rest this] Cons.prems(1) show ?case by simp
qed simp

lemma redis_download_batch_step:
  assumes ok: "redis_ok (srv, c) view" "downloads_ok requests" "keeps_downloads requests success"
    and before: "downloaded requests view v0 A st" and run: "redis_download_batch srv k requests success first st = Inr st'"
  shows "downloaded requests view v0 (A \<union> set (batch_files redis_batching (length requests) first)) st'"
proof -
  let ?files = "batch_files redis_batching (length requests) first"
  let ?commands = "map (\<lambda>i. Redis_get (c_str (gr_object_key (requests ! i)))) ?files"
  obtain d v where st: "st = (d, v)" by (cases st)
  obtain replies v' where replies: "redis_replies srv ?commands v = (replies, v')" by (cases "redis_replies srv ?commands v")
  with run obtain d' where fetched: "fold_res (redis_fetched k requests success first) (enumerate 0 replies) d = Inr d'"
    and st': "st' = (d', v')" by (auto simp: redis_download_batch_def st)
  have bound: "\<forall>i \<in> set ?files. i < length requests" by (simp add: redis_file_bound)
  then have "\<forall>i \<in> set ?files. plain_key (gr_object_key (requests ! i))" using ok(2) by (simp add: downloads_ok_def)
  from redis_gets [OF ok(1) this replies redis_fetched_replied [OF fetched]] have
    same: "view v' = view v" and answers: "list_all2 (\<lambda>i. good_reply (view v (gr_object_key (requests ! i)))) ?files replies"
    by blast+
  have view: "view v = view v0" using before by (simp add: downloaded_def st)
  have "length replies = length ?files" using answers by (simp add: list_all2_lengthD)
  from fetched [unfolded redis_fetched_files [OF this]]
  have run1: "fold_res (take_fetched k requests success) (zip ?files replies) d = Inr d'" .
  have "downloaded requests view v0 A (d, v')" using before same view by (simp add: downloaded_def st)
  from redis_fetches [OF ok bound _ answers [unfolded view] run1 this] same view show ?thesis by (simp add: st')
qed

lemma redis_download_done:
  assumes "redis_ok (srv, c) view" "downloads_ok requests" "keeps_downloads requests success"
    and "redis_download srv c k requests success (d, v) = Inr (d', v')"
  shows "downloaded requests view v {..<length requests} (d', v')"
proof (rule redis_threads_collect [OF assms(4) [unfolded redis_download_def]])
  show "downloaded requests view v {} (d, v)" by (simp add: downloaded_def)
qed (rule redis_download_batch_step [OF assms(1-3)])

interpretation redis: object_client redis_ok False "\<lambda>s. redis_upload (fst s) (snd s)" "\<lambda>s. redis_download (fst s) (snd s)"
proof
  fix s :: "'v redis_service \<times> redis_config" and view puts d stored v d' v' r
  assume "redis_ok s view" "uploads_ok puts" "keeps_uploads puts stored" "r \<in> set puts"
    "redis_upload (fst s) (snd s) puts stored (d, v) = Inr (d', v')"
  then show "\<exists>c. read_whole (pr_filename r) d = Inr c \<and>
      (view v' (pr_object_key r) = Some c \<or> \<not> False \<and> view v' (pr_object_key r) = view v (pr_object_key r))"
    using redis_upload_done [of "fst s" "snd s" view puts stored d v d' v']
    by (fastforce simp: uploaded_def in_set_conv_nth)
next
  fix s :: "'v redis_service \<times> redis_config" and view puts d stored v d' v' key
  assume "redis_ok s view" "uploads_ok puts" "keeps_uploads puts stored" "key \<notin> pr_object_key ` set puts"
    "redis_upload (fst s) (snd s) puts stored (d, v) = Inr (d', v')"
  then show "view v' key = view v key"
    using redis_upload_done [of "fst s" "snd s" view puts stored d v d' v'] by (simp add: uploaded_def)
next
  fix s :: "'v redis_service \<times> redis_config" and view gets fetched k d v d' v' q
  assume "redis_ok s view" "downloads_ok gets" "keeps_downloads gets fetched" "q \<in> set gets"
    "redis_download (fst s) (snd s) k gets fetched (d, v) = Inr (d', v')"
  then show "\<exists>c. view v (gr_object_key q) = Some c \<and> read_file (gr_filename q) d' = Inr c"
    using redis_download_done [of "fst s" "snd s" view gets fetched k d v d' v']
    by (fastforce simp: downloaded_def in_set_conv_nth read_file_def sys_stat_def read_prefix_def)
qed

text \<open>C13: a download from Redis never brings anything but the object that was uploaded. With a server whose \<open>SET\<close> and
  \<open>GET\<close> do what is documented: when an upload by one machine and later a download by another return, and no one
  changed the object in between, then a file that was asked for by the key of an uploaded file has its contents, for any
  number of files, over all threads and batches. The client does not look at the replies to its \<open>SET\<close>s, so the upload
  also returns when the server refuses an object; the download then returns only if the server held the object
  already. This rests on the keys: what the server held under the key before the upload was the same object.\<close>

theorem redis_object_arrives:
  assumes "redis_ok (srv, c) view" "redis_ok (srv, c') view"
    and "uploads_ok puts" "keeps_uploads puts stored" "redis_upload srv c puts stored (d, v) = Inr (d', v')"
    and "r \<in> set puts" "\<And>x. view v (pr_object_key r) = Some x \<Longrightarrow> read_whole (pr_filename r) d = Inr x"
    and "view w (pr_object_key r) = view v' (pr_object_key r)"
    and "downloads_ok gets" "keeps_downloads gets fetched" "redis_download srv c' k gets fetched (e, w) = Inr (e', w')"
    and "q \<in> set gets" "gr_object_key q = pr_object_key r"
  shows "\<exists>x. read_whole (pr_filename r) d = Inr x \<and> read_file (gr_filename q) e' = Inr x"
  using redis.object_arrives [of "(srv, c)" view puts stored d v d' v' r w "(srv, c')" gets fetched k e e' w' q] assms by auto

section \<open>Jiffy\<close>

text \<open>The hash table as its client uses it; neither opening nor loading changes what it holds.\<close>

definition jiffy_ok :: "'v jiffy_service \<Rightarrow> ('v \<Rightarrow> string \<rightharpoonup> string) \<Rightarrow> bool" where
  "jiffy_ok js view \<longleftrightarrow>
     (\<forall>v v'. jiffy_table js v = Inr v' \<longrightarrow> view v' = view v) \<and>
     (\<forall>key c v v'. js_update js key c v = Inr v' \<or> js_put js key c v = Inr v' \<longrightarrow> view v' = (view v)(key \<mapsto> c)) \<and>
     (\<forall>key c v. js_get js key v = Inr c \<longrightarrow> view v key = Some c)"

lemma jiffy_upload_step:
  assumes "jiffy_ok js view" "uploads_ok requests" "keeps_uploads requests success" "i < length requests"
    and "uploaded True requests view d0 v0 A st" "jiffy_upload_file js success (requests ! i) st = Inr st'"
  shows "uploaded True requests view d0 v0 (A \<union> {i}) st'"
proof -
  let ?r = "requests ! i"
  obtain d v where st: "st = (d, v)" by (cases st)
  have r: "?r \<in> set requests" using assms(4) by simp
  from assms(6) obtain contents v1 v2 d' there where parts: "read_whole (pr_filename ?r) d = Inr contents"
    "jiffy_table js v = Inr v1" "success ?r d = Inr d'" "st' = (d', v2)"
    and stores: "(if there then js_update js (pr_object_key ?r) contents v1 else js_put js (pr_object_key ?r) contents v1) = Inr v2"
    unfolding jiffy_upload_file_def st by (auto simp del: if_split elim!: bind_resE)
  have v2: "view v2 = (view v)(pr_object_key ?r \<mapsto> contents)"
    using assms(1) parts(2) stores unfolding jiffy_ok_def by (metis (full_types))
  have "read_whole (pr_filename ?r) d0 = Inr contents"
    using parts(1) assms(5) r read_whole_cong [of d "pr_filename ?r" d0] by (simp add: uploaded_def st)
  moreover have "d' (pr_filename q) = d (pr_filename q)" if "q \<in> set requests" for q
    using assms(3) parts(3) that unfolding keeps_uploads_def by metis
  ultimately show ?thesis
    using uploaded_step [of True requests view d0 v0 A d v i contents v2 d'] assms(2,4,5) v2 by (simp add: st parts(4))
qed

lemma jiffy_download_step:
  assumes "jiffy_ok js view" "downloads_ok requests" "keeps_downloads requests success" "i < length requests"
    and "downloaded requests view v0 A st" "jiffy_download_file js k success (requests ! i) st = Inr st'"
  shows "downloaded requests view v0 (A \<union> {i}) st'"
proof -
  let ?r = "requests ! i"
  obtain d v where st: "st = (d, v)" by (cases st)
  from assms(6) obtain contents v1 d1 d' where parts: "jiffy_table js v = Inr v1" "js_get js (gr_object_key ?r) v1 = Inr contents"
    "atomic_create k contents (gr_filename ?r) (gr_mode ?r) d = Inr d1" "success ?r d1 = Inr d'" "st' = (d', v1)"
    unfolding jiffy_download_file_def st by (auto elim!: bind_resE split: if_splits)
  have "view v1 = view v" "view v1 (gr_object_key ?r) = Some contents"
    using assms(1) parts(1,2) unfolding jiffy_ok_def by blast+
  moreover have "view v = view v0" using assms(5) by (simp add: downloaded_def st)
  ultimately show ?thesis
    using downloaded_step [of requests view v0 A d v success i contents v1 k d1 d'] assms(2-5) parts by (simp add: st)
qed

lemma fold_res_indices:
  assumes "fold_res f xs s = Inr t" and "P {} s"
    and "\<And>i A s t. i < length xs \<Longrightarrow> P A s \<Longrightarrow> f (xs ! i) s = Inr t \<Longrightarrow> P (A \<union> {i}) t"
  shows "P {..<length xs} t"
proof -
  have "fold_res (\<lambda>i. f (xs ! i)) [0..<length xs] s = Inr t"
    using assms(1) fold_res_map [of f "(!) xs" "[0..<length xs]" s] by (simp add: map_nth)
  from fold_res_collects [where P = P and g = "\<lambda>i. {i}", OF this assms(2)] assms(3)
  have "P ({} \<union> (\<Union>i \<in> set [0..<length xs]. {i})) t" by simp
  moreover have "{} \<union> (\<Union>i \<in> set [0..<length xs]. {i}) = {..<length xs}" by auto
  ultimately show ?thesis by simp
qed

interpretation jiffy: object_client jiffy_ok True jiffy_upload jiffy_download
proof
  fix s :: "'v jiffy_service" and view puts d stored v d' v'
  assume jiffy_ok: "jiffy_ok s view" "uploads_ok puts" "keeps_uploads puts stored"
    and run: "jiffy_upload s puts stored (d, v) = Inr (d', v')"
  have all_put: "uploaded True puts view d v {..<length puts} (d', v')"
    by (rule fold_res_indices [OF run [unfolded jiffy_upload_def]])
      (simp add: uploaded_def, rule jiffy_upload_step [OF jiffy_ok])
  show "\<exists>c. read_whole (pr_filename r) d = Inr c \<and>
      (view v' (pr_object_key r) = Some c \<or> \<not> True \<and> view v' (pr_object_key r) = view v (pr_object_key r))" if "r \<in> set puts" for r
    using all_put that by (auto simp: uploaded_def in_set_conv_nth)
  show "view v' key = view v key" if "key \<notin> pr_object_key ` set puts" for key
    using all_put that by (simp add: uploaded_def)
next
  fix s :: "'v jiffy_service" and view gets fetched k d v d' v' q
  assume jiffy_ok: "jiffy_ok s view" "downloads_ok gets" "keeps_downloads gets fetched" and q: "q \<in> set gets"
    and run: "jiffy_download s k gets fetched (d, v) = Inr (d', v')"
  have "downloaded gets view v {..<length gets} (d', v')"
    by (rule fold_res_indices [OF run [unfolded jiffy_download_def]])
      (simp add: downloaded_def, rule jiffy_download_step [OF jiffy_ok])
  then show "\<exists>c. view v (gr_object_key q) = Some c \<and> read_file (gr_filename q) d' = Inr c"
    using q by (fastforce simp: downloaded_def in_set_conv_nth read_file_def sys_stat_def read_prefix_def)
qed

section \<open>A server that refuses\<close>

lemma fold_concat: "fold f (concat xss) = fold (fold f) xss"
  by (induction xss) simp_all

lemma fold_res_total:
  assumes "\<And>x d. x \<in> set xs \<Longrightarrow> K d \<Longrightarrow> f x (d, v) = Inr (h x d, v) \<and> K (h x d)" and "K d"
  shows "fold_res f xs (d, v) = Inr (fold h xs d, v) \<and> K (fold h xs d)"
  using assms
proof (induction xs arbitrary: d)
  case (Cons x xs)
  from Cons.prems(1) [of x d] Cons.prems(2) have one: "f x (d, v) = Inr (h x d, v)" "K (h x d)" by simp_all
  from Cons.IH [OF Cons.prems(1) one(2)] one(1) show ?case by simp
qed simp

lemma fold_res_zip:
  "length xs = length ys \<Longrightarrow> (\<And>x e. f x e = Inr (h x e)) \<Longrightarrow>
   fold_res (\<lambda>(x, _). f x) (zip xs ys) e = Inr (fold h xs e)"
  by (induction xs ys arbitrary: e rule: list_induct2) simp_all

lemma redis_refused:
  assumes "\<And>command v. \<exists>msg. rs_execute srv command v = (Some (Reply_error msg), v)"
  shows "\<exists>msgs. redis_replies srv commands v = (map (\<lambda>msg. Some (Reply_error msg)) msgs, v) \<and> length msgs = length commands"
proof (induction commands)
  case (Cons command commands)
  obtain msg where "rs_execute srv command v = (Some (Reply_error msg), v)" using assms by blast
  moreover from Cons obtain msgs where "redis_replies srv commands v = (map (\<lambda>msg. Some (Reply_error msg)) msgs, v)"
    "length msgs = length commands" by blast
  ultimately show ?case by (auto intro!: exI [of _ "msg # msgs"])
qed simp

text \<open>An upload that Redis refuses is taken for one that worked. When the server answers every command with an error
  and keeps nothing, the upload still returns, and the callback that reports a stored object, which notes it as available,
  has been called for every single request.\<close>

lemma redis_refusal_unnoticed:
  assumes refuses: "\<And>command v. \<exists>msg. rs_execute srv command v = (Some (Reply_error msg), v)"
    and login: "redis_login srv c = Inr ()"
    and files: "\<And>r. r \<in> set requests \<Longrightarrow> \<exists>x. read_whole (pr_filename r) d = Inr x"
    and callback: "\<And>r e. success r e = Inr (note r e)" "keeps_uploads requests success"
  shows "\<exists>order. distinct order \<and> set order = {..<length requests} \<and>
    redis_upload srv c requests success (d, v) = Inr (fold note (map ((!) requests) order) d, v)"
proof -
  let ?n = "length requests" and ?h = "\<lambda>i. note (requests ! i)"
  let ?K = "\<lambda>e. \<forall>r \<in> set requests. e (pr_filename r) = d (pr_filename r)"
  have keeps: "?K (note r e)" if "?K e" for r e
    using that callback unfolding keeps_uploads_def by metis
  then have keeps_fold: "?K (fold ?h is e)" if "?K e" for "is" e using that by (induction "is" arbitrary: e) auto
  have batch: "redis_upload_batch srv requests success first (e, v) = Inr (fold ?h (batch_files redis_batching ?n first) e, v) \<and>
      ?K (fold ?h (batch_files redis_batching ?n first) e)" if e: "?K e" for first e
  proof -
    let ?files = "batch_files redis_batching ?n first"
    have "\<exists>x. read_whole (pr_filename (requests ! i)) e = Inr x" if "i \<in> set ?files" for i
    proof -
      have "requests ! i \<in> set requests" using redis_file_bound [OF that] by simp
      with files e read_whole_cong show ?thesis by metis
    qed
    then have "\<forall>i \<in> set ?files. \<exists>command. redis_put_command requests e i = Inr command"
      by (fastforce simp: redis_put_command_def)
    then obtain command where "\<forall>i \<in> set ?files. redis_put_command requests e i = Inr (command i)" by metis
    then have commands: "map_res (redis_put_command requests e) ?files = Inr (map command ?files)" by (intro map_res_total) simp
    from redis_refused [of srv "map command ?files" v] refuses obtain msgs
      where replies: "redis_replies srv (map command ?files) v = (map (\<lambda>msg. Some (Reply_error msg)) msgs, v)"
        "length msgs = length ?files" by auto
    let ?replies = "map (\<lambda>msg. Some (Reply_error msg)) msgs"
    have "fold_res (redis_stored requests success first) (enumerate 0 ?replies) e =
        fold_res (\<lambda>(i, _). success (requests ! i))
          (map (\<lambda>(j, reply). (first + j * sc_max_threads redis_batching, reply)) (enumerate 0 ?replies)) e"
      unfolding fold_res_map
      by (intro fold_res_cong) (auto simp: redis_stored_def in_set_enumerate_eq)
    also have "\<dots> = fold_res (\<lambda>(i, _). success (requests ! i)) (zip ?files ?replies) e"
      using replies(2) by (subst redis_answers) simp_all
    also have "\<dots> = Inr (fold ?h ?files e)"
      using replies(2) by (intro fold_res_zip) (simp_all add: callback(1))
    finally show ?thesis using commands replies(1) keeps_fold [OF e] by (simp add: redis_upload_batch_def)
  qed
  let ?h2 = "\<lambda>index e. fold (\<lambda>first. fold ?h (batch_files redis_batching ?n first)) (batch_starts redis_batching ?n index) e"
  have thread: "in_thread (bind_res (redis_login srv c) (\<lambda>_.
      fold_res (redis_upload_batch srv requests success) (batch_starts redis_batching ?n index) (e, v))) =
      Inr (?h2 index e, v) \<and> ?K (?h2 index e)" if "?K e" for index e
    using fold_res_total [of "batch_starts redis_batching ?n index" ?K "redis_upload_batch srv requests success" v
        "\<lambda>first. fold ?h (batch_files redis_batching ?n first)", OF batch that] login by (simp add: in_thread_def)
  have "redis_upload srv c requests success (d, v) = Inr (fold ?h2 (thread_indices redis_batching ?n) d, v)"
    using fold_res_total [of "thread_indices redis_batching ?n" ?K "\<lambda>index st. in_thread (bind_res (redis_login srv c) (\<lambda>_.
        fold_res (redis_upload_batch srv requests success) (batch_starts redis_batching ?n index) st))" v ?h2 d, OF thread]
    by (simp add: redis_upload_def redis_threads_def)
  also have "fold ?h2 (thread_indices redis_batching ?n) d = fold note (map ((!) requests) (all_files redis_batching ?n)) d"
    by (simp add: all_files_def fold_concat fold_map comp_def)
  finally show ?thesis
    using s3_batches_cover [of redis_batching ?n] by (intro exI [of _ "all_files redis_batching ?n"]) (simp add: redis_batching_def)
qed

section \<open>A server that keeps what is small enough\<close>

definition small_objects :: "(string \<rightharpoonup> string) \<Rightarrow> string \<rightharpoonup> string" where
  "small_objects v key = (case v key of Some c \<Rightarrow> if length c \<le> object_limit then Some c else None | None \<Rightarrow> None)"

definition toy_redis :: "(string \<rightharpoonup> string) redis_service" where
  "toy_redis = \<lparr>rs_connects = (\<lambda>_ _. True), rs_auth = (\<lambda>_. None),
     rs_execute = (\<lambda>command v. case command of
         Redis_set key c \<Rightarrow> if length c \<le> object_limit then (Some (Reply_status ''OK''), v(key \<mapsto> c))
                            else (Some (Reply_error ''ERR string exceeds maximum allowed size''), v)
       | Redis_get key \<Rightarrow> (Some (case small_objects v key of Some c \<Rightarrow> Reply_string c | None \<Rightarrow> Reply_nil), v))\<rparr>"

definition full_redis :: "unit redis_service" where
  "full_redis = \<lparr>rs_connects = (\<lambda>_ _. True), rs_auth = (\<lambda>_. None),
     rs_execute = (\<lambda>_ v. (Some (Reply_error ''OOM command not allowed''), v))\<rparr>"

definition toy_get :: get_request where
  "toy_get = \<lparr>gr_object_key = ''k'', gr_filename = ''g'', gr_mode = None\<rparr>"

lemma single_batch: "thread_indices redis_batching (Suc 0) = [0]" "batch_starts redis_batching (Suc 0) 0 = [0]"
  "batch_files redis_batching (Suc 0) 0 = [0]"
  using single_request [of redis_batching] by (simp_all add: redis_batching_def)

lemma toy_redis_ok: "redis_ok (toy_redis, c) small_objects"
  by (auto simp: redis_ok_def toy_redis_def small_objects_def fun_eq_iff split: option.splits)

lemma toy_uploads: "redis_upload toy_redis default_redis [toy_put] (\<lambda>_. Inr) ([''f'' \<mapsto> Regular ''x'' 420], Map.empty) =
  Inr ([''f'' \<mapsto> Regular ''x'' 420], [''k'' \<mapsto> ''x''])"
  by (simp add: redis_upload_def redis_threads_def single_batch redis_login_def toy_redis_def default_redis_def in_thread_def
      redis_upload_batch_def redis_put_command_def read_whole_def redis_stored_def toy_put_def c_str_def object_limit_def)

lemma toy_downloads: "redis_download toy_redis default_redis plain_kernel [toy_get] (\<lambda>_. Inr) (Map.empty, [''k'' \<mapsto> ''x'']) =
  Inr ([''g'' \<mapsto> Regular ''x'' (final_mode None)], [''k'' \<mapsto> ''x''])"
  by (simp add: redis_download_def redis_threads_def single_batch redis_login_def toy_redis_def default_redis_def in_thread_def
      redis_download_batch_def redis_fetched_def small_objects_def toy_get_def c_str_def object_limit_def
      plain_kernel_create_empty)

theorem redis_object_arrives_witness:
  "\<exists>d' v' e' w'. redis_upload toy_redis default_redis [toy_put] (\<lambda>_. Inr) ([''f'' \<mapsto> Regular ''x'' 420], Map.empty) = Inr (d', v') \<and>
     redis_download toy_redis default_redis plain_kernel [toy_get] (\<lambda>_. Inr) (Map.empty, v') = Inr (e', w') \<and>
     read_file ''g'' e' = Inr ''x''"
proof -
  have ok: "uploads_ok [toy_put]" "downloads_ok [toy_get]"
    "keeps_uploads [toy_put] (\<lambda>_. Inr)" "keeps_downloads [toy_get] (\<lambda>_. Inr)"
    by (simp_all add: uploads_ok_def downloads_ok_def keeps_uploads_def keeps_downloads_def toy_put_def toy_get_def plain_key_def)
  have "\<exists>x. read_whole (pr_filename toy_put) [''f'' \<mapsto> Regular ''x'' 420] = Inr x \<and>
      read_file (gr_filename toy_get) [''g'' \<mapsto> Regular ''x'' (final_mode None)] = Inr x"
    by (rule redis_object_arrives [OF toy_redis_ok toy_redis_ok ok(1,3) toy_uploads _ _ _ ok(2,4) toy_downloads])
      (simp_all add: toy_put_def toy_get_def small_objects_def)
  then have "read_file ''g'' [''g'' \<mapsto> Regular ''x'' (final_mode None)] = Inr ''x''"
    by (simp add: toy_put_def toy_get_def read_whole_def)
  then show ?thesis using toy_uploads toy_downloads by blast
qed

lemma redis_refusal_unnoticed_witness:
  "redis_upload full_redis default_redis [toy_put] (\<lambda>_ e. Inr (e(''noted'' \<mapsto> Directory))) ([''f'' \<mapsto> Regular ''x'' 420], ()) =
   Inr ([''f'' \<mapsto> Regular ''x'' 420, ''noted'' \<mapsto> Directory], ())"
proof -
  have "\<exists>order. distinct order \<and> set order = {..<length [toy_put]} \<and>
      redis_upload full_redis default_redis [toy_put] (\<lambda>_ e. Inr (e(''noted'' \<mapsto> Directory))) ([''f'' \<mapsto> Regular ''x'' 420], ()) =
      Inr (fold (\<lambda>_ e. e(''noted'' \<mapsto> Directory)) (map ((!) [toy_put]) order) [''f'' \<mapsto> Regular ''x'' 420], ())"
  proof (rule redis_refusal_unnoticed)
    show "\<exists>msg. rs_execute full_redis command v = (Some (Reply_error msg), v)" for command v by (simp add: full_redis_def)
    show "redis_login full_redis default_redis = Inr ()" by (simp add: redis_login_def default_redis_def full_redis_def)
    show "\<exists>x. read_whole (pr_filename r) [''f'' \<mapsto> Regular ''x'' 420] = Inr x" if "r \<in> set [toy_put]" for r
      using that by (simp add: toy_put_def read_whole_def)
    show "keeps_uploads [toy_put] (\<lambda>_ e. Inr (e(''noted'' \<mapsto> Directory)))" by (simp add: keeps_uploads_def toy_put_def)
  qed simp
  then obtain order where order: "distinct order" "set order = {..<length [toy_put]}"
    and run: "redis_upload full_redis default_redis [toy_put] (\<lambda>_ e. Inr (e(''noted'' \<mapsto> Directory))) ([''f'' \<mapsto> Regular ''x'' 420], ()) =
      Inr (fold (\<lambda>_ e. e(''noted'' \<mapsto> Directory)) (map ((!) [toy_put]) order) [''f'' \<mapsto> Regular ''x'' 420], ())" by blast
  have zero: "set order = {0}" using order(2) by (simp add: lessThan_Suc)
  with order(1) have "length order = 1" using distinct_card by fastforce
  with zero have "order = [0]" by (cases order) simp_all
  with run show ?thesis by simp
qed

end
