(* ===== verification/ForceMain.thy ===== *)
theory ForceMain
  imports BinToolsLaws Storage Reductor
begin

text \<open>
  The command that forces thunks, \<open>src/frontend/gg-force.cc\<close>: its options, the targets, the engines and
  what becomes of the results. Between them it runs the scheduler. The status bar is left out, and addresses are
  not resolved.
\<close>

section \<open>Engines by name\<close>

record engine_info =
  ei_name :: string
  ei_params :: string
  ei_max_jobs :: "64 word"

definition parse_engine :: "string \<Rightarrow> 64 word \<Rightarrow> engine_info" where
  "parse_engine name max_jobs =
     (case str_find name ''='' 0 of
        None \<Rightarrow> \<lparr>ei_name = name, ei_params = [], ei_max_jobs = max_jobs\<rparr>
      | Some eqpos \<Rightarrow> \<lparr>ei_name = take eqpos name, ei_params = drop (eqpos + 1) name, ei_max_jobs = max_jobs\<rparr>)"

definition stoi :: "string \<Rightarrow> int res" where
  "stoi str =
     (case strtol str 10 of
        (ret, used, errno) \<Rightarrow>
          (if used = 0 then Inl (Invalid_argument ''stoi'')
           else if errno \<or> ret < - (2 ^ 31) \<or> 2 ^ 31 \<le> ret then Inl (Out_of_range ''stoi'')
           else Inr ret))"

text \<open>What is made of a name: the kind of engine, and where it sends its jobs.\<close>

datatype made_engine =
    Made_local bool nat
  | Made_lambda aws_credentials string nat
  | Made_remote string "16 word" nat
  | Made_meow aws_credentials string string "16 word" nat
  | Made_gcloud string string nat

definition aws_region :: "(string \<rightharpoonup> string) \<Rightarrow> string res" where
  "aws_region environ = safe_getenv environ ''AWS_REGION''"

definition host_and_port :: "string \<Rightarrow> 16 word \<Rightarrow> (string \<times> 16 word) res" where
  "host_and_port params default_port =
     (case str_find params '':'' 0 of
        None \<Rightarrow> Inr (params, default_port)
      | Some colonpos \<Rightarrow>
          bind_res (stoi (drop (colonpos + 1) params)) (\<lambda>port. Inr (take colonpos params, of_int port)))"

definition positive_jobs :: "64 word \<Rightarrow> nat res" where
  "positive_jobs max_jobs =
     (if max_jobs = 0 then Inl (Runtime_error ''max jobs cannot be zero'') else Inr (unat max_jobs))"

definition make_execution_engine :: "(string \<rightharpoonup> string) \<Rightarrow> engine_info \<Rightarrow> made_engine res" where
  "make_execution_engine environ engine =
     (let name = ei_name engine; params = ei_params engine; jobs = positive_jobs (ei_max_jobs engine)
      in if name = ''local'' then bind_res jobs (\<lambda>n. Inr (Made_local (params = ''mixed'') n))
         else if name = ''lambda'' then
           bind_res (credentials_from_env environ) (\<lambda>c.
           bind_res (if 0 < length params then Inr params else aws_region environ) (\<lambda>region.
           bind_res jobs (\<lambda>n. Inr (Made_lambda c region n))))
         else if name = ''remote'' then
           (if length params = 0 then Inl (Runtime_error ''remote: missing host ip'')
            else bind_res (host_and_port params 9924) (\<lambda>(host, port).
                 bind_res jobs (\<lambda>n. Inr (Made_remote host port n))))
         else if name = ''meow'' then
           (if length params = 0 then Inl (Runtime_error ''meow: missing host public ip'')
            else bind_res (host_and_port params 9925) (\<lambda>(host, port).
                 bind_res (credentials_from_env environ) (\<lambda>c.
                 bind_res (aws_region environ) (\<lambda>region.
                 bind_res jobs (\<lambda>n. Inr (Made_meow c region host port n))))))
         else if name = ''gcloud'' then
           bind_res (safe_getenv environ ''GG_GCLOUD_FUNCTION'') (\<lambda>url.
           bind_res jobs (\<lambda>n. bind_res (parse_uri url) (\<lambda>u. Inr (Made_gcloud (ur_host u) (ur_path u) n))))
         else Inl (Runtime_error ''unknown execution engine''))"

definition made_remote :: "made_engine \<Rightarrow> bool" where
  "made_remote e = (case e of Made_local mixed _ \<Rightarrow> mixed | _ \<Rightarrow> True)"

text \<open>The engines the scheduler of this library runs; a meow engine is a type of its own.\<close>

definition standard_engine :: "made_engine \<Rightarrow> engine option" where
  "standard_engine e =
     (let new = (\<lambda>kind n. Some \<lparr>en_kind = kind, en_max_jobs = n, en_running = 0, en_start_times = []\<rparr>)
      in case e of
           Made_local mixed n \<Rightarrow> new (Local_engine mixed) n
         | Made_lambda _ _ n \<Rightarrow> new Lambda_engine n
         | Made_remote _ _ n \<Rightarrow> new GG_engine n
         | Made_gcloud host path n \<Rightarrow> new (GCF_engine host path) n
         | Made_meow _ _ _ _ _ \<Rightarrow> None)"

definition nofile_limit :: "64 word \<Rightarrow> 64 word \<Rightarrow> 64 word \<Rightarrow> 64 word" where
  "nofile_limit max_jobs cur limit =
     (let target = min (max (max_jobs * 3) cur) limit in if cur < target then target else cur)"

section \<open>Options\<close>

record force_options =
  fo_environ :: "string \<rightharpoonup> string"
  fo_timeout :: int
  fo_multiplier :: "64 word"
  fo_status_bar :: bool
  fo_no_download :: bool
  fo_total_max_jobs :: "64 word"
  fo_max_jobs :: "64 word"
  fo_engines :: "engine_info list"
  fo_fallbacks :: "engine_info list"

definition force_long_options :: "long_option list" where
  "force_long_options = map (\<lambda>(name, arg, val). \<lparr>lo_name = name, lo_has_arg = arg, lo_val = char_val val\<rparr>)
     [(''no-status'', No_argument, CHR ''s''),
      (''sandboxed'', No_argument, CHR ''S''),
      (''jobs'', Required_argument, CHR ''j''),
      (''timeout'', Required_argument, CHR ''T''),
      (''timeout-multiplier'', Required_argument, CHR ''T''),
      (''engine'', Required_argument, CHR ''e''),
      (''fallback-engine'', Required_argument, CHR ''f''),
      (''no-download'', No_argument, CHR ''d'')]"

definition force_optstring :: string where "force_optstring = ''sSj:T:e:d''"

definition force_start :: "(string \<rightharpoonup> string) \<Rightarrow> 64 word \<Rightarrow> force_options res" where
  "force_start environ hardware_concurrency =
     bind_res (case environ ''GG_FORCE_TIMEOUT'' of None \<Rightarrow> Inr 0 | Some x \<Rightarrow> stoi x) (\<lambda>timeout.
       Inr \<lparr>fo_environ = environ, fo_timeout = timeout, fo_multiplier = 1,
            fo_status_bar = (environ ''GG_FORCE_NO_STATUS'' = None), fo_no_download = False, fo_total_max_jobs = 0,
            fo_max_jobs = hardware_concurrency, fo_engines = [], fo_fallbacks = []\<rparr>)"

definition force_option :: "int \<times> string option \<Rightarrow> force_options \<Rightarrow> force_options res" where
  "force_option event s =
     (case event of (opt, optarg) \<Rightarrow>
        if opt = char_val CHR ''s'' then Inr (s\<lparr>fo_status_bar := False\<rparr>)
        else if opt = char_val CHR ''S'' then Inr (s\<lparr>fo_environ := (fo_environ s)(''GG_SANDBOXED'' \<mapsto> ''1'')\<rparr>)
        else if opt = char_val CHR ''j'' then
          bind_res (the_argument optarg) (\<lambda>x. bind_res (stoul x 10) (\<lambda>n. Inr (s\<lparr>fo_max_jobs := n\<rparr>)))
        else if opt = char_val CHR ''T'' then
          bind_res (the_argument optarg) (\<lambda>x. bind_res (stoi x) (\<lambda>n. Inr (s\<lparr>fo_timeout := n\<rparr>)))
        else if opt = char_val CHR ''e'' then
          bind_res (the_argument optarg) (\<lambda>x.
            Inr (s\<lparr>fo_engines := fo_engines s @ [parse_engine x (fo_max_jobs s)],
                   fo_total_max_jobs := fo_total_max_jobs s + fo_max_jobs s\<rparr>))
        else if opt = char_val CHR ''f'' then
          bind_res (the_argument optarg) (\<lambda>x.
            Inr (s\<lparr>fo_fallbacks := fo_fallbacks s @ [parse_engine x (fo_max_jobs s)],
                   fo_total_max_jobs := fo_total_max_jobs s + fo_max_jobs s\<rparr>))
        else if opt = char_val CHR ''d'' then Inr (s\<lparr>fo_no_download := True\<rparr>)
        else if opt = char_val CHR ''m'' then
          bind_res (the_argument optarg) (\<lambda>x. bind_res (stoul x 10) (\<lambda>n. Inr (s\<lparr>fo_multiplier := n\<rparr>)))
        else Inl (Runtime_error ''invalid option''))"

text \<open>The options and the operands.\<close>

definition force_options_of :: "(string \<rightharpoonup> string) \<Rightarrow> 64 word \<Rightarrow> string list \<Rightarrow> (force_options \<times> string list) res" where
  "force_options_of environ hardware_concurrency argv =
     bind_res (force_start environ hardware_concurrency) (\<lambda>s.
       let r = permute_words force_optstring force_long_options argv
       in bind_res (fold_res force_option (pm_events r) s) (\<lambda>s'. Inr (s', pm_operands r)))"

section \<open>Targets\<close>

text \<open>An operand that starts with an at sign names a file of names, which is empty when it cannot be read.\<close>

definition target_names :: "disk \<Rightarrow> string list \<Rightarrow> string list" where
  "target_names d operands = concat (map (\<lambda>x. if take 1 x = ''@'' then file_lines (drop 1 x) d else [x]) operands)"

text \<open>\<open>None\<close>: no thunk, the target is passed over. For a thunk itself the hash is computed from the name of the file, as the
  code has it.\<close>

definition target_hash :: "world \<Rightarrow> string \<Rightarrow> string \<Rightarrow> disk \<Rightarrow> string option res" where
  "target_hash w junk name d =
     bind_res (read_placeholder junk name d) (\<lambda>placeholder.
       case placeholder of
         Some h \<Rightarrow> Inr (Some h)
       | None \<Rightarrow> bind_res (is_thunk name d) (\<lambda>thunk.
           Inr (if thunk then Some (hash_compute (wd_sha256 w) name Thunk) else None)))"

fun force_targets :: "world \<Rightarrow> string \<Rightarrow> disk \<Rightarrow> string list \<Rightarrow> (string \<times> string) list res" where
  "force_targets w junk d [] = Inr []"
| "force_targets w junk d (name # names) =
     bind_res (target_hash w junk name d) (\<lambda>h.
     bind_res (force_targets w junk d names) (\<lambda>rest.
       Inr (case h of None \<Rightarrow> rest | Some h \<Rightarrow> (name, h) # rest)))"

section \<open>The whole command\<close>

definition force_engine_infos :: "force_options \<Rightarrow> engine_info list" where
  "force_engine_infos s =
     (if fo_engines s \<noteq> [] then fo_engines s
      else case fo_environ s ''GG_FORCE_DEFAULT_ENGINE'' of
             Some x \<Rightarrow> [parse_engine x (fo_max_jobs s)]
           | None \<Rightarrow> [\<lparr>ei_name = ''local'', ei_params = [], ei_max_jobs = fo_max_jobs s\<rparr>])"

record force_plan =
  fp_targets :: "(string \<times> string) list"
  fp_engines :: "made_engine list"
  fp_fallbacks :: "made_engine list"
  fp_storage :: "storage_backend option"
  fp_timeout :: int
  fp_multiplier :: "64 word"
  fp_no_download :: bool
  fp_nofile :: "64 word"

definition force_timeout_ms :: "int \<Rightarrow> int res" where
  "force_timeout_ms timeout =
     (if - (2 ^ 31) \<le> timeout * 1000 \<and> timeout * 1000 < 2 ^ 31 then Inr (timeout * 1000) else Inl Undefined_behaviour)"

text \<open>Everything before the scheduler; \<open>None\<close> when there is nothing to force.\<close>

definition force_plan_of ::
  "world \<Rightarrow> string \<Rightarrow> 64 word \<times> 64 word \<Rightarrow> 64 word \<Rightarrow> string list \<Rightarrow> disk \<Rightarrow> (force_plan option \<times> disk) res" where
  "force_plan_of w junk limits hardware_concurrency argv d =
     bind_res (if length argv < 2 then Inl (Runtime_error ''usage'')
               else force_options_of (wd_environ w) hardware_concurrency argv) (\<lambda>(s, operands).
     bind_res (force_targets w junk d (target_names d operands)) (\<lambda>targets.
       if targets = [] then Inr (None, d)
       else
         bind_res (map_res (make_execution_engine (fo_environ s)) (force_engine_infos s)) (\<lambda>engines.
         bind_res (map_res (make_execution_engine (fo_environ s)) (fo_fallbacks s)) (\<lambda>fallbacks.
         bind_res (if list_ex made_remote (engines @ fallbacks)
                   then bind_res (storage_backend_uri (fo_environ s)) (\<lambda>uri.
                        bind_res (create_backend (wd_sha256 w) (fo_environ s) uri d) (\<lambda>(sb, d'). Inr (Some sb, d')))
                   else Inr (None, d)) (\<lambda>(storage, d').
         bind_res (force_timeout_ms (fo_timeout s)) (\<lambda>timeout.
           Inr (Some \<lparr>fp_targets = targets, fp_engines = engines, fp_fallbacks = fallbacks, fp_storage = storage,
                      fp_timeout = timeout, fp_multiplier = fo_multiplier s, fp_no_download = fo_no_download s,
                      fp_nofile = nofile_limit (fo_total_max_jobs s) (fst limits) (snd limits)\<rparr>, d')))))))"

text \<open>The result of a target replaces the file that stood for it.\<close>

fun install_results :: "kernel \<Rightarrow> string \<Rightarrow> (string \<times> string) list \<Rightarrow> disk \<Rightarrow> disk res" where
  "install_results k gg_dir [] d = Inr d"
| "install_results k gg_dir ((h, target) # rest) d =
     bind_res (copy_then_rename k (blob gg_dir h) target None d) (\<lambda>d1.
     bind_res (make_executable target d1) (\<lambda>d2. install_results k gg_dir rest d2))"

text \<open>The scheduler and what follows; \<open>None\<close> when the events run out before it has finished.\<close>

definition force_run ::
  "world \<Rightarrow> remote_clients \<Rightarrow> (string \<Rightarrow> string) \<Rightarrow> nat \<Rightarrow> nat \<Rightarrow> nat \<Rightarrow> loop_event list list \<Rightarrow> force_plan \<Rightarrow>
     engine list \<Rightarrow> engine list \<Rightarrow> disk \<Rightarrow> disk option res" where
  "force_run w rm hex n k m rounds plan engines fallbacks d =
     bind_res (construct_reductor w n (map snd (fp_targets plan)) engines fallbacks (fp_timeout plan)
                 (uint (fp_multiplier plan)) d) (\<lambda>rd.
     bind_res (upload_dependencies w rm hex (fp_storage plan) (rd_graph rd) (rd_disk rd)) (\<lambda>d1.
     bind_res (reduce w n k m rounds (rd\<lparr>rd_disk := d1\<rparr>)) (\<lambda>(answer, rd').
       case answer of
         None \<Rightarrow> Inr None
       | Some hashes \<Rightarrow>
           if fp_no_download plan then Inr (Some (rd_disk rd'))
           else bind_res (download_targets w rm (fp_storage plan) hashes (rd_disk rd')) (\<lambda>d2.
                bind_res (install_results (wd_kernel w) (wd_gg_dir w) (zip hashes (map fst (fp_targets plan))) d2) (\<lambda>d3.
                  Inr (Some d3))))))"

end
