(* ===== verification/CreateThunk.thy ===== *)
theory CreateThunk
  imports ForceMain
begin

text \<open>
  The command that makes a thunk from its options, \<open>src/frontend/gg-create-thunk.cc\<close>.
\<close>

record create_options =
  ct_envars :: "string list"
  ct_values :: "data_item list"
  ct_thunks :: "data_item list"
  ct_executables :: "data_item list"
  ct_outputs :: "string list"
  ct_placeholder :: string
  ct_timeout :: "64 word"
  ct_links :: "(string \<times> string) list"

definition create_long_options :: "long_option list" where
  "create_long_options = map (\<lambda>(name, val). \<lparr>lo_name = name, lo_has_arg = Required_argument, lo_val = char_val val\<rparr>)
     [(''envar'', CHR ''E''), (''value'', CHR ''v''), (''thunk'', CHR ''t''), (''executable'', CHR ''e''),
      (''output'', CHR ''o''), (''placeholder'', CHR ''C''), (''timeout'', CHR ''T''), (''link'', CHR ''L'')]"

definition create_optstring :: string where "create_optstring = ''E:v:t:e:o:C:T:L:''"

text \<open>A \<open>std::map\<close>: sorted by name, a second link of a name takes the place of the first (\<open>map_put\<close> of Aws).\<close>

definition create_option :: "int \<times> string option \<Rightarrow> create_options \<Rightarrow> create_options res" where
  "create_option event s =
     (case event of (opt, optarg) \<Rightarrow>
        bind_res (if opt \<in> set (map lo_val create_long_options) then the_argument optarg
                  else Inl (Runtime_error ''invalid option'')) (\<lambda>x.
        if opt = char_val CHR ''E'' then Inr (s\<lparr>ct_envars := ct_envars s @ [x]\<rparr>)
        else if opt = char_val CHR ''v'' then Inr (s\<lparr>ct_values := ct_values s @ [string_to_data x]\<rparr>)
        else if opt = char_val CHR ''t'' then Inr (s\<lparr>ct_thunks := ct_thunks s @ [string_to_data x]\<rparr>)
        else if opt = char_val CHR ''e'' then Inr (s\<lparr>ct_executables := ct_executables s @ [string_to_data x]\<rparr>)
        else if opt = char_val CHR ''o'' then Inr (s\<lparr>ct_outputs := ct_outputs s @ [x]\<rparr>)
        else if opt = char_val CHR ''C'' then Inr (s\<lparr>ct_placeholder := x\<rparr>)
        else if opt = char_val CHR ''T'' then bind_res (stoul x 10) (\<lambda>n. Inr (s\<lparr>ct_timeout := n\<rparr>))
        else (case string_to_data x of (name, target) \<Rightarrow>
                if target = [] then Inl (Runtime_error ''missing link target'')
                else Inr (s\<lparr>ct_links := map_put name target (ct_links s)\<rparr>))))"

definition no_create_options :: create_options where
  "no_create_options = \<lparr>ct_envars = [], ct_values = [], ct_thunks = [], ct_executables = [], ct_outputs = [],
     ct_placeholder = [], ct_timeout = 0, ct_links = []\<rparr>"

text \<open>\<open>milliseconds\<close> holds a signed number of 64 bits.\<close>

definition create_thunk_of :: "create_options \<Rightarrow> string \<Rightarrow> string list \<Rightarrow> thunk res" where
  "create_thunk_of s function_hash function_args =
     bind_res (thunk_of_lists \<lparr>fn_hash = function_hash, fn_args = function_args, fn_envars = ct_envars s\<rparr>
                 (ct_values s) (ct_thunks s) (ct_executables s) (ct_outputs s)) (\<lambda>t.
       Inr (foldl (\<lambda>t (name, target). add_link name target t) (set_timeout (sint (ct_timeout s)) t) (ct_links s)))"

text \<open>The hash that is printed, and the disk; the thunk is in the store, and a placeholder where one was asked for.\<close>

definition create_thunk_main :: "world \<Rightarrow> string list \<Rightarrow> disk \<Rightarrow> (string \<times> disk) res" where
  "create_thunk_main w argv d =
     (let r = permute_words create_optstring create_long_options argv
      in bind_res (fold_res create_option (pm_events r) no_create_options) (\<lambda>s.
         case pm_operands r of
           [] \<Rightarrow> Inl (Runtime_error ''usage'')
         | function_hash # function_args \<Rightarrow>
             bind_res (create_thunk_of s function_hash function_args) (\<lambda>t.
             bind_res (write_thunk (wd_sha256 w) (wd_encode w) (wd_kernel w) (wd_gg_dir w) None t d) (\<lambda>(h, _, d1).
               if ct_placeholder s = [] then Inr (h, d1)
               else bind_res (write_placeholder (wd_kernel w) h (ct_placeholder s) d1) (\<lambda>d2. Inr (h, d2))))))"

end
