(* ===== verification/ForceLaws.thy ===== *)
theory ForceLaws
  imports ForceMain CreateThunk Capacity Answers
begin

text \<open>
  What the command leaves behind: the files that stood for the targets are the results the scheduler found,
  which options never get through, and how a thunk that was just made gets to the scheduler.
\<close>

section \<open>The scheduler keeps its targets\<close>

lemma clock_targets [simp]: "rd_targets (snd (clock_now w rd)) = rd_targets rd"
  by (simp add: clock_now_def)

lemma set_slot_targets [simp]: "rd_targets (set_slot_engine s e rd) = rd_targets rd"
  by (simp add: set_slot_engine_def split: slot.splits)

lemma finalize_targets: "finalize_execution w n h outs rd = Inr rd' \<Longrightarrow> rd_targets rd' = rd_targets rd"
  by (auto simp: finalize_execution_def erase_running_def Let_def split: list.splits option.splits)

lemma failure_targets: "failure_callback h st rd = Inr rd' \<Longrightarrow> rd_targets rd' = rd_targets rd"
  by (auto simp: failure_callback_def split: job_status.splits)

lemma deliver_targets: "deliver w ev rd = Inr (je, rd') \<Longrightarrow> rd_targets rd' = rd_targets rd"
  by (auto simp: deliver_def Let_def split: option.splits loop_event.splits prod.splits)

lemma handle_event_targets:
  assumes "handle_event w n ev rd = Inr rd'"
  shows "rd_targets rd' = rd_targets rd"
proof -
  from assms obtain je rd1 where 1: "deliver w ev rd = Inr (je, rd1)"
    and 2: "(case je of None \<Rightarrow> Inr rd1 | Some (Succeeded h outputs) \<Rightarrow> finalize_execution w n h outputs rd1
      | Some (Failed h reason) \<Rightarrow> failure_callback h reason rd1) = Inr rd'"
    unfolding handle_event_def by (auto elim!: bind_resE simp del: bind_res_eq_Inr)
  from 2 have "rd_targets rd' = rd_targets rd1"
    by (auto dest: finalize_targets failure_targets split: option.splits job_event.splits)
  with deliver_targets [OF 1] show ?thesis by simp
qed

lemma start_job_targets: "start_job w t rd = Inr (st, rd') \<Longrightarrow> rd_targets rd' = rd_targets rd"
  by (auto simp: start_job_def split: option.splits if_splits)

lemma note_running_targets [simp]: "rd_targets (note_running w h t rd) = rd_targets rd"
  by (simp add: note_running_def put_running_def clock_now_def Let_def)

lemma dispatch_targets: "dispatch_front w n k rd = Inr (go, rd') \<Longrightarrow> rd_targets rd' = rd_targets rd"
  by (auto simp: dispatch_front_def Let_def split: list.splits option.splits if_splits
      dest!: start_job_targets finalize_targets)

lemma drain_targets: "drain_queue m w n k rd = Inr rd' \<Longrightarrow> rd_targets rd' = rd_targets rd"
proof (induction m arbitrary: rd)
  case 0
  then show ?case by (simp split: if_splits)
next
  case (Suc m)
  show ?case
  proof (cases "rd_queue rd = []")
    case False
    with Suc.prems obtain go rd1 where 1: "dispatch_front w n k rd = Inr (go, rd1)"
      and 2: "(if go then drain_queue m w n k rd1 else Inr rd1) = Inr rd'" by auto
    from dispatch_targets [OF 1] Suc.IH [of rd1] 2 show ?thesis by (cases go) auto
  qed (use Suc.prems in simp)
qed

lemma events_targets: "fold_res (handle_event w n) events rd = Inr rd' \<Longrightarrow> rd_targets rd' = rd_targets rd"
  by (rule fold_res_invariant [of "handle_event w n" events rd rd' "\<lambda>x. rd_targets x = rd_targets rd"])
    (simp_all add: handle_event_targets)

lemma check_timeouts_targets [simp]: "rd_targets (check_timeouts now rd) = rd_targets rd"
  by (simp add: check_timeouts_def)

lemma round_targets: 
  assumes "reduce_round w n k m events rd = Inr (answer, rd')"
  shows "rd_targets rd' = rd_targets rd \<and>
    (\<forall>hashes. answer = Some hashes \<longrightarrow> is_finished rd' \<and> map_res (final_hash w rd') (rd_targets rd') = Inr hashes)"
proof -
  from assms obtain rd1 exit rd2 where 1: "drain_queue m w n k rd = Inr rd1" and 2: "loop_once w n events rd1 = Inr (exit, rd2)"
    and 3: "(let (now, rd3) = clock_now w rd2; rd = check_timeouts now rd3
       in if is_finished rd \<or> exit then
            (if \<not> is_finished rd
             then Inl (Runtime_error ''unhandled poller failure happened, job is not finished'')
             else bind_res (map_res (final_hash w rd) (rd_targets rd)) (\<lambda>hashes. Inr (Some hashes, rd)))
          else Inr (None, rd)) = Inr (answer, rd')"
    unfolding reduce_round_def by (auto elim!: bind_resE)
  have "rd_targets rd2 = rd_targets rd1"
    using 2 by (auto simp: loop_once_def split: if_splits dest: events_targets)
  moreover obtain now rd3 where clock: "clock_now w rd2 = (now, rd3)" by fastforce
  then have "rd_targets rd3 = rd_targets rd2" using clock_targets [of w rd2] by simp
  ultimately show ?thesis
    using 3 drain_targets [OF 1] by (auto simp: clock Let_def split: if_splits)
qed

lemma reduce_answers:
  "reduce w n k m rounds rd = Inr (Some hashes, rd') \<Longrightarrow>
   rd_targets rd' = rd_targets rd \<and> is_finished rd' \<and> map_res (final_hash w rd') (rd_targets rd') = Inr hashes"
proof (induction rounds arbitrary: rd)
  case (Cons events rounds)
  from Cons.prems obtain answer rd1 where 1: "reduce_round w n k m events rd = Inr (answer, rd1)"
    and 2: "(case answer of Some hashes \<Rightarrow> Inr (Some hashes, rd1) | None \<Rightarrow> reduce w n k m rounds rd1) = Inr (Some hashes, rd')"
    by auto
  show ?case
  proof (cases answer)
    case None
    with 2 Cons.IH [of rd1] round_targets [OF 1] show ?thesis by (metis option.simps(4))
  next
    case (Some hs)
    with 2 have "hs = hashes" "rd1 = rd'" by simp_all
    with Some round_targets [OF 1] show ?thesis by blast
  qed
qed simp

lemma construct_targets:
  "construct_reductor w n hs engines fallbacks timeout multiplier d = Inr rd \<Longrightarrow> rd_targets rd = hs"
proof -
  assume run: "construct_reductor w n hs engines fallbacks timeout multiplier d = Inr rd"
  then have "fold_res (add_target w n) hs (new_reductor w hs engines fallbacks timeout multiplier d) = Inr rd"
    by (auto simp: construct_reductor_def split: if_splits)
  then show ?thesis
    by (rule fold_res_invariant [where P = "\<lambda>x. rd_targets x = hs"])
      (auto simp: new_reductor_def add_target_def split: if_splits)
qed

section \<open>The results in the place of the targets\<close>

lemma copy_then_rename_Inr:
  assumes "copy_then_rename k src dst None d = Inr d'"
  shows "\<exists>c m. d src = Some (Regular c m) \<and> d' = d(dst \<mapsto> Regular c m)"
  using assms
  by (auto simp: copy_then_rename_def sys_stat_def read_prefix_def final_mode_def elim!: bind_resE
      split: option.splits node.splits dest!: atomic_create_Inr)

lemma executable_bit: "S_IXUSR \<noteq> 0"
  by (simp add: S_IXUSR_def)

lemma install_one:
  assumes "copy_then_rename k src dst None d = Inr d1" and "make_executable dst d1 = Inr d2"
  shows "\<exists>c m. d src = Some (Regular c m) \<and> d2 = d(dst \<mapsto> Regular c (m OR S_IXUSR))"
  using copy_then_rename_Inr [OF assms(1)] assms(2)
  by (auto simp: make_executable_def sys_stat_def)

lemma install_results_frame:
  "install_results k gg_dir pairs d = Inr d' \<Longrightarrow> p \<notin> snd ` set pairs \<Longrightarrow> d' p = d p"
proof (induction pairs arbitrary: d)
  case (Cons pair pairs)
  obtain h target where pair: "pair = (h, target)" by fastforce
  from Cons.prems(1) obtain d1 d2 where 1: "copy_then_rename k (blob gg_dir h) target None d = Inr d1"
    "make_executable target d1 = Inr d2" and rest: "install_results k gg_dir pairs d2 = Inr d'" by (auto simp: pair)
  from install_one [OF 1] Cons.IH [OF rest] Cons.prems(2) pair show ?case by auto
qed simp

lemma install_results_files:
  assumes "install_results k gg_dir pairs d = Inr d'" and "distinct (map snd pairs)"
    and "\<forall>(h, _) \<in> set pairs. blob gg_dir h \<notin> snd ` set pairs" and "(h, target) \<in> set pairs"
  shows "\<exists>contents. read_file (blob gg_dir h) d = Inr contents \<and> read_file target d' = Inr contents \<and>
    is_executable target d' = Inr True"
  using assms
proof (induction pairs arbitrary: d)
  case (Cons pair pairs)
  obtain h1 target1 where pair: "pair = (h1, target1)" by fastforce
  from Cons.prems(1) obtain d1 d2 where 1: "copy_then_rename k (blob gg_dir h1) target1 None d = Inr d1"
    "make_executable target1 d1 = Inr d2" and rest: "install_results k gg_dir pairs d2 = Inr d'" by (auto simp: pair)
  from install_one [OF 1] obtain c m where c: "d (blob gg_dir h1) = Some (Regular c m)"
    and d2: "d2 = d(target1 \<mapsto> Regular c (m OR S_IXUSR))" by blast
  show ?case
  proof (cases "(h, target) = pair")
    case True
    with Cons.prems(2) pair have "target1 \<notin> snd ` set pairs" by auto
    then have "d' target1 = Some (Regular c (m OR S_IXUSR))" using install_results_frame [OF rest] d2 by simp
    then show ?thesis
      using c True pair by (simp add: read_file_def is_executable_def sys_stat_def read_prefix_def executable_bit)
  next
    case False
    then have mem: "(h, target) \<in> set pairs" using Cons.prems(4) by auto
    have "\<forall>(h, _) \<in> set pairs. blob gg_dir h \<notin> snd ` set pairs" using Cons.prems(3) by fastforce
    moreover have "distinct (map snd pairs)" using Cons.prems(2) by simp
    ultimately have "\<exists>contents. read_file (blob gg_dir h) d2 = Inr contents \<and> read_file target d' = Inr contents \<and>
        is_executable target d' = Inr True"
      using Cons.IH [OF rest] mem by blast
    moreover have "d2 (blob gg_dir h) = d (blob gg_dir h)" using Cons.prems(3,4) pair d2 by force
    ultimately show ?thesis by (simp add: read_file_def sys_stat_def)
  qed
qed simp

text \<open>C11: what forcing leaves behind. When the command has run to its end, its scheduler has answered with one hash for
  each target, and was finished; the file that stood for each target now has the contents of the object with
  that target's hash as it was after the download, and can be executed, and the hash is what the cache names as the
  final result of that very target. This is for a command without \<open>-d\<close> (which downloads nothing), whose
  targets have different names and are not files of the store themselves.\<close>

theorem targets_replaced:
  assumes run: "force_run w rm hex n k m rounds plan engines fallbacks d = Inr (Some d')"
    and download: "\<not> fp_no_download plan" and names: "distinct (map fst (fp_targets plan))"
    and apart: "\<And>h. blob (wd_gg_dir w) h \<notin> fst ` set (fp_targets plan)"
  shows "\<exists>rd0 d1 rd hashes d2.
    construct_reductor w n (map snd (fp_targets plan)) engines fallbacks (fp_timeout plan) (uint (fp_multiplier plan)) d = Inr rd0 \<and>
    upload_dependencies w rm hex (fp_storage plan) (rd_graph rd0) (rd_disk rd0) = Inr d1 \<and>
    reduce w n k m rounds (rd0\<lparr>rd_disk := d1\<rparr>) = Inr (Some hashes, rd) \<and>
    is_finished rd \<and> length hashes = length (fp_targets plan) \<and>
    download_targets w rm (fp_storage plan) hashes (rd_disk rd) = Inr d2 \<and>
    (\<forall>i < length hashes.
       cache_check (wd_gg_dir w) (updated_hash (rd_graph rd) (snd (fp_targets plan ! i))) (rd_disk rd) = Inr (Some (hashes ! i)) \<and>
       (\<exists>contents. read_file (blob (wd_gg_dir w) (hashes ! i)) d2 = Inr contents \<and>
          read_file (fst (fp_targets plan ! i)) d' = Inr contents) \<and>
       is_executable (fst (fp_targets plan ! i)) d' = Inr True)"
proof -
  let ?ts = "fp_targets plan"
  from run download obtain rd0 d1 hashes rd d2 where
    start: "construct_reductor w n (map snd ?ts) engines fallbacks (fp_timeout plan) (uint (fp_multiplier plan)) d = Inr rd0"
    and up: "upload_dependencies w rm hex (fp_storage plan) (rd_graph rd0) (rd_disk rd0) = Inr d1"
    and reduced: "reduce w n k m rounds (rd0\<lparr>rd_disk := d1\<rparr>) = Inr (Some hashes, rd)"
    and down: "download_targets w rm (fp_storage plan) hashes (rd_disk rd) = Inr d2"
    and inst: "install_results (wd_kernel w) (wd_gg_dir w) (zip hashes (map fst ?ts)) d2 = Inr d'"
    by (auto simp: force_run_def split: option.splits)
  note answers = reduce_answers [OF reduced]
  have fin: "map_res (final_hash w rd) (rd_targets rd) = Inr hashes" using answers by blast
  have ts: "rd_targets rd = map snd ?ts" using answers construct_targets [OF start] by simp
  have final: "map_res (final_hash w rd) (map snd ?ts) = Inr hashes" using fin unfolding ts .
  then have len: "length hashes = length ?ts" by (auto dest: map_res_length)
  have snds: "map snd (zip hashes (map fst ?ts)) = map fst ?ts" using len by simp
  then have set_snds: "snd ` set (zip hashes (map fst ?ts)) = fst ` set ?ts" by (metis list.set_map)
  have each: "cache_check (wd_gg_dir w) (updated_hash (rd_graph rd) (snd (?ts ! i))) (rd_disk rd) = Inr (Some (hashes ! i)) \<and>
       (\<exists>contents. read_file (blob (wd_gg_dir w) (hashes ! i)) d2 = Inr contents \<and> read_file (fst (?ts ! i)) d' = Inr contents) \<and>
       is_executable (fst (?ts ! i)) d' = Inr True" if i: "i < length hashes" for i
  proof -
    have "final_hash w rd (snd (?ts ! i)) = Inr (hashes ! i)" using map_res_nth [OF final, of i] i len by simp
    then have cached: "cache_check (wd_gg_dir w) (updated_hash (rd_graph rd) (snd (?ts ! i))) (rd_disk rd) = Inr (Some (hashes ! i))"
      by (auto simp: final_hash_def split: option.splits)
    have "(hashes ! i, fst (?ts ! i)) \<in> set (zip hashes (map fst ?ts))"
      using i len by (auto simp: set_zip intro!: exI [of _ i])
    moreover have "distinct (map snd (zip hashes (map fst ?ts)))" unfolding snds by (rule names)
    moreover have "\<forall>(h, _) \<in> set (zip hashes (map fst ?ts)). blob (wd_gg_dir w) h \<notin> snd ` set (zip hashes (map fst ?ts))"
      unfolding set_snds using apart by blast
    ultimately show ?thesis using install_results_files [OF inst] cached by blast
  qed
  show ?thesis
    by (rule exI [of _ rd0], rule exI [of _ d1], rule exI [of _ rd], rule exI [of _ hashes], rule exI [of _ d2])
      (use start up reduced answers len down each in blast)
qed

section \<open>A thunk that was just made\<close>

text \<open>A target that is given as the thunk itself is looked for under the hash of its file's name.\<close>

lemma thunk_file_hash:
  assumes "read_placeholder junk name d = Inr None" and "is_thunk name d = Inr True"
  shows "target_hash w junk name d = Inr (Some (hash_compute (wd_sha256 w) name Thunk))"
  using assms by (simp add: target_hash_def)

text \<open>A thunk that is given by its own file, not by a placeholder, cannot be forced: its target is the hash of the name of
  the file, and unless an object happens to have that hash the scheduler fails before anything runs, whatever is in the
  store otherwise.\<close>

lemma thunk_file_not_forced:
  assumes "read_placeholder junk name d = Inr None" and "is_thunk name d = Inr True"
    and "sha256_ok (wd_sha256 w)" and "d (blob (wd_gg_dir w) (hash_compute (wd_sha256 w) name Thunk)) = None"
  shows "force_targets w junk d [name] = Inr [(name, hash_compute (wd_sha256 w) name Thunk)] \<and>
    isl (construct_reductor w (Suc n) [hash_compute (wd_sha256 w) name Thunk] engines fallbacks timeout multiplier d)"
proof -
  let ?h = "hash_compute (wd_sha256 w) name Thunk"
  have base: "hash_base ?h = ?h" using hash_compute_no_tag [OF assms(3)] by (rule hash_base_id)
  have "env_read (world_env w) d ?h = Inl (Unix_error (blob (wd_gg_dir w) ?h))"
    using assms(4) by (simp add: store_env_def read_thunk_def)
  then have "add_thunk (Suc n) (env_read (world_env w) d) ?h empty_graph = Inl (Unix_error (blob (wd_gg_dir w) ?h))"
    by (simp add: base updated_hash_def empty_graph_def Let_def)
  then have "isl (construct_reductor w (Suc n) [?h] engines fallbacks timeout multiplier d)"
    by (simp add: construct_reductor_def add_target_def new_reductor_def del: add_thunk.simps)
  then show ?thesis using thunk_file_hash [OF assms(1,2)] by simp
qed

text \<open>C12: what \<open>gg-create-thunk\<close> makes can be forced. When it has written a placeholder, the file is a target for the hash
  that was printed, and under that hash the scheduler reads from the store the thunk that the options describe. This is for a
  placeholder outside the store, hashes without the character \<open>=\<close> and a timeout below 2 to the 32 (\<open>thunk_plain\<close>), a hash
  without blanks, protocol buffers that decode what they encode, and a store with nothing else under the hash.\<close>

theorem created_thunk_forceable:
  assumes run: "create_thunk_main w argv d = Inr (h, d')"
    and options: "fold_res create_option (pm_events (permute_words create_optstring create_long_options argv))
        no_create_options = Inr s" "ct_placeholder s = name" "name \<noteq> []" "name \<noteq> blob (wd_gg_dir w) h"
    and thunk: "pm_operands (permute_words create_optstring create_long_options argv) = function_hash # function_args"
      "create_thunk_of s function_hash function_args = Inr t" "thunk_plain t"
    and codec: "codec_ok (wd_encode w) (wd_decode w)" "one_word h"
      "\<And>bytes. wd_encode w (thunk_to_protobuf t) = Some bytes \<Longrightarrow>
         no_collision (wd_sha256 w) (wd_gg_dir w) d (MAGIC_NUMBER @ bytes)"
  shows "force_targets w junk d' [name] = Inr [(name, h)] \<and> env_read (world_env w) d' h = Inr (set_hash h t)"
proof -
  from run options(1-3) thunk(1,2) obtain t' d1
    where written: "write_thunk (wd_sha256 w) (wd_encode w) (wd_kernel w) (wd_gg_dir w) None t d = Inr (h, t', d1)"
      and placed: "write_placeholder (wd_kernel w) h name d1 = Inr d'"
    by (auto simp: create_thunk_main_def Let_def)
  have t': "t' = set_hash h t" using written by (auto elim: write_thunk_Inr)
  have reads: "read_thunk (wd_decode w) (blob (wd_gg_dir w) h) h d1 = Inr t'"
    using write_read_thunk [OF written codec(1) thunk(3)] codec(3) by blast
  note place = placeholder_roundtrip [OF placed codec(2), of junk]
  have "read_thunk (wd_decode w) (blob (wd_gg_dir w) h) h d' = Inr t'"
    using reads place options(4) by (simp add: read_thunk_def)
  moreover have "target_hash w junk name d' = Inr (Some h)" using place by (simp add: target_hash_def)
  ultimately show ?thesis by (simp add: store_env_def t')
qed

section \<open>Options that never get through\<close>

definition option_codes :: "string \<Rightarrow> long_option list \<Rightarrow> int set" where
  "option_codes optstring longopts =
     {opt_end, opt_operand, opt_unknown, char_val CHR '':''} \<union> lo_val ` set longopts \<union> char_val ` set optstring"

lemma found_long_value:
  "found_long optstring p rest st = (opt, optarg, st') \<Longrightarrow> opt \<in> {lo_val p, opt_unknown, char_val CHR '':''}"
  by (auto simp: found_long_def missing_code_def Let_def split: if_splits)

lemma process_long_value:
  assumes "process_long_option optstring longopts long_only dashdash next st = Some (opt, optarg, st')"
  shows "opt \<in> option_codes optstring longopts"
  using process_long_cases [OF assms] found_long_value [of optstring _ _ st opt optarg st']
  by (auto simp: option_codes_def)

lemma short_option_value:
  assumes "short_option optstring st = (opt, optarg, st')"
  shows "opt \<in> option_codes optstring longopts"
proof -
  have member: "c \<in> set optstring" if "dropWhile (\<lambda>x. x \<noteq> c) optstring \<noteq> []" for c
    using that by (auto simp: dropWhile_eq_Nil_conv)
  show ?thesis
    using assms
    by (auto simp: short_option_def missing_code_def option_codes_def Let_def dest!: member split: if_splits)
qed

lemma getopt_value:
  assumes "getopt optstring longopts long_only st = (opt, optarg, st')"
  shows "opt \<in> option_codes optstring longopts"
proof (cases "gs_next st = [] \<and> gs_ind st < length (gs_argv st)")
  case False
  then show ?thesis using assms by (auto simp: getopt_def option_codes_def dest: short_option_value split: if_splits)
next
  case True
  let ?arg = "gs_argv st ! gs_ind st"
  consider "?arg = ''--''" | "?arg \<noteq> ''--''" "is_operand ?arg" | "?arg \<noteq> ''--''" "\<not> is_operand ?arg" by blast
  then show ?thesis
  proof cases
    case 3
    then show ?thesis
      using True assms
      by (auto simp: getopt_def Let_def dest: short_option_value process_long_value split: if_splits option.splits)
  qed (use True assms in \<open>auto simp: getopt_def option_codes_def Let_def\<close>)
qed


lemma permute_values:
  "(\<forall>(opt, _) \<in> set (pm_events r). opt \<in> option_codes optstring longopts) \<Longrightarrow>
   \<forall>(opt, _) \<in> set (pm_events (getopt_permute optstring longopts st r)). opt \<in> option_codes optstring longopts"
proof (induction optstring longopts st r rule: getopt_permute.induct)
  case (1 optstring longopts st r)
  obtain opt optarg st' where step: "getopt optstring longopts False st = (opt, optarg, st')" by (metis surj_pair)
  let ?taken = "take (gs_ind st' - gs_ind st) (drop (gs_ind st) (gs_argv st))"
  let ?r = "if opt = opt_operand then r\<lparr>pm_operands := pm_operands r @ ?taken\<rparr>
    else r\<lparr>pm_events := pm_events r @ [(opt, optarg)], pm_options := pm_options r @ ?taken\<rparr>"
  have opt: "opt \<in> option_codes optstring longopts" by (rule getopt_value [OF step])
  have unfold: "getopt_permute optstring longopts st r =
      (if opt = opt_end then r\<lparr>pm_options := pm_options r @ take 1 ?taken, pm_operands := pm_operands r @ drop 1 ?taken\<rparr>
       else getopt_permute optstring longopts st' ?r)"
    by (subst getopt_permute.simps) (simp add: step Let_def)
  show ?case
  proof (cases "opt = opt_end")
    case True
    then show ?thesis using "1.prems" by (simp add: unfold)
  next
    case False
    have "\<forall>(opt, _) \<in> set (pm_events ?r). opt \<in> option_codes optstring longopts" using "1.prems" opt by simp
    from "1.IH" [OF step [symmetric] refl refl False this] show ?thesis using False by (simp only: unfold if_False)
  qed
qed

lemma force_option_multiplier:
  "force_option (opt, optarg) s = Inr s' \<Longrightarrow> opt \<noteq> char_val CHR ''m'' \<Longrightarrow> fo_multiplier s' = fo_multiplier s"
  by (auto simp: force_option_def split: if_splits)

lemma force_codes: "char_val CHR ''m'' \<notin> option_codes force_optstring force_long_options"
  by (simp add: option_codes_def force_optstring_def force_long_options_def char_val_def opt_end_def opt_operand_def opt_unknown_def)

text \<open>The multiplier of timeouts cannot be set. Whatever command line is accepted, the multiplier the scheduler gets is 1:
  the long option that is to set it has the code of the timeout, and the short one is not among the options.\<close>

lemma timeout_multiplier_fixed:
  assumes "force_options_of environ hardware_concurrency argv = Inr (s, operands)"
  shows "fo_multiplier s = 1"
proof -
  let ?events = "pm_events (permute_words force_optstring force_long_options argv)"
  from assms obtain s0 where s0: "force_start environ hardware_concurrency = Inr s0"
    and run: "fold_res force_option ?events s0 = Inr s"
    by (auto simp: force_options_of_def Let_def)
  have "\<forall>(opt, _) \<in> set ?events. opt \<in> option_codes force_optstring force_long_options"
    unfolding permute_words_def by (rule permute_values) simp
  then have codes: "\<forall>(opt, _) \<in> set ?events. opt \<noteq> char_val CHR ''m''" using force_codes by auto
  have "fo_multiplier s = fo_multiplier s0"
    by (rule fold_res_invariant [OF run, of "\<lambda>x. fo_multiplier x = fo_multiplier s0"])
      (use codes in \<open>auto dest: force_option_multiplier\<close>)
  then show ?thesis using s0 by (auto simp: force_start_def split: option.splits)
qed

section \<open>At concrete command lines\<close>

definition multiplier_words :: "string list" where
  "multiplier_words = [''gg-force'', ''--timeout-multiplier'', ''3'', ''t.o'']"

lemma multiplier_accepted:
  "map_sum id (\<lambda>(s, operands). (fo_timeout s, operands)) (force_options_of Map.empty 4 multiplier_words) = Inr (3, [''t.o''])"
  by code_simp

lemma timeout_multiplier_fixed_witness:
  "\<exists>s. force_options_of Map.empty 4 multiplier_words = Inr (s, [''t.o'']) \<and> fo_timeout s = 3 \<and> fo_multiplier s = 1"
proof -
  obtain s operands where run: "force_options_of Map.empty 4 multiplier_words = Inr (s, operands)"
    using multiplier_accepted by (cases "force_options_of Map.empty 4 multiplier_words") auto
  then have "fo_timeout s = 3" "operands = [''t.o'']" using multiplier_accepted by simp_all
  with run timeout_multiplier_fixed [OF run] show ?thesis by blast
qed

text \<open>A scheduler that finds the only target in the cache.\<close>

definition finished_disk :: disk where
  "finished_disk = toy_disk(reduction ''/g'' ''TA'' \<mapsto> Regular toy_value 256, reduction ''/g'' ''TA#o'' \<mapsto> Regular toy_value 256,
     blob ''/g'' toy_value \<mapsto> Regular ''result'' 256, ''out'' \<mapsto> Regular ''placeholder'' 420)"

definition finished_plan :: force_plan where
  "finished_plan = \<lparr>fp_targets = [(''out'', ''TA'')], fp_engines = [Made_local False 1], fp_fallbacks = [], fp_storage = None,
     fp_timeout = 0, fp_multiplier = 1, fp_no_download = False, fp_nofile = 0\<rparr>"

lemma finished_runs:
  "map_sum (\<lambda>_. ()) (map_option (\<lambda>d. d ''out''))
     (force_run toy_world rm (\<lambda>s. s) 3 3 3 [[]] finished_plan [toy_engine] [] finished_disk) =
   Inr (Some (Some (Regular ''result'' 320)))"
  by code_simp

theorem targets_replaced_witness:
  "\<forall>rm. \<exists>d' h d2. force_run toy_world rm (\<lambda>s. s) 3 3 3 [[]] finished_plan [toy_engine] [] finished_disk = Inr (Some d') \<and>
     read_file ''out'' d' = read_file (blob ''/g'' h) d2 \<and> read_file ''out'' d' = Inr ''result''"
proof
  fix rm
  obtain d' where run: "force_run toy_world rm (\<lambda>s. s) 3 3 3 [[]] finished_plan [toy_engine] [] finished_disk = Inr (Some d')"
    and out: "d' ''out'' = Some (Regular ''result'' 320)"
    using finished_runs [of rm]
    by (cases "force_run toy_world rm (\<lambda>s. s) 3 3 3 [[]] finished_plan [toy_engine] [] finished_disk") auto
  have dir: "wd_gg_dir toy_world = ''/g''" by (simp add: toy_world_def)
  have plan: "\<not> fp_no_download finished_plan" "distinct (map fst (fp_targets finished_plan))"
    "fp_targets finished_plan = [(''out'', ''TA'')]" by (simp_all add: finished_plan_def)
  have apart: "blob (wd_gg_dir toy_world) h \<notin> fst ` set (fp_targets finished_plan)" for h
    by (simp add: plan(3) dir blob_def blobs_def path_append_def)
  from targets_replaced [OF run plan(1,2) apart] obtain hashes d2 where "length hashes = 1"
    "\<forall>i < length hashes. \<exists>contents. read_file (blob ''/g'' (hashes ! i)) d2 = Inr contents \<and>
       read_file (fst (fp_targets finished_plan ! i)) d' = Inr contents"
    by (auto simp: plan(3) dir)
  then have "read_file ''out'' d' = read_file (blob ''/g'' (hashes ! 0)) d2" by (simp add: plan(3)) metis
  moreover have "read_file ''out'' d' = Inr ''result''" using out by (simp add: read_file_def sys_stat_def read_prefix_def)
  ultimately show "\<exists>d' h d2. force_run toy_world rm (\<lambda>s. s) 3 3 3 [[]] finished_plan [toy_engine] [] finished_disk = Inr (Some d') \<and>
     read_file ''out'' d' = read_file (blob ''/g'' h) d2 \<and> read_file ''out'' d' = Inr ''result''"
    using run by blast
qed

definition thunk_file_disk :: disk where
  "thunk_file_disk = [''t'' \<mapsto> Regular (MAGIC_NUMBER @ ''A'') 256]"

lemma thunk_file_reads: "read_placeholder [] ''t'' thunk_file_disk = Inr None" "is_thunk ''t'' thunk_file_disk = Inr True"
  by code_simp+

lemma thunk_file_not_forced_witness:
  "\<exists>h. force_targets toy_world [] thunk_file_disk [''t''] = Inr [(''t'', h)] \<and>
     isl (construct_reductor toy_world 3 [h] [toy_engine] [] 0 1 thunk_file_disk)"
proof -
  have sha: "sha256_ok (wd_sha256 toy_world)" using toy_sha_ok by (simp add: toy_world_def)
  have "thunk_file_disk (blob (wd_gg_dir toy_world) h) = None" for h
    by (simp add: thunk_file_disk_def toy_world_def blob_def blobs_def path_append_def)
  from thunk_file_not_forced [OF thunk_file_reads sha this, of 2 "[toy_engine]" "[]" 0 1]
  show ?thesis by (simp add: numeral_3_eq_3 numeral_2_eq_2) blast
qed

definition created_thunk :: thunk where
  "created_thunk = \<lparr>th_function = \<lparr>fn_hash = ''Vf'', fn_args = [''a''], fn_envars = []\<rparr>, th_values = [], th_thunks = [],
     th_executables = [(''Vf'', [])], th_outputs = [''o''], th_links = [], th_timeout = 0, th_hash = None\<rparr>"

definition creating_world :: world where
  "creating_world = toy_world\<lparr>wd_encode := (\<lambda>p. if p = thunk_to_protobuf created_thunk then Some ''p'' else None),
     wd_decode := (\<lambda>_. thunk_to_protobuf created_thunk)\<rparr>"

definition create_words :: "string list" where
  "create_words = [''gg-create-thunk'', ''-e'', ''Vf'', ''-o'', ''o'', ''-C'', ''out.o'', ''Vf'', ''a'']"

lemma create_parsed:
  "fold_res create_option (pm_events (permute_words create_optstring create_long_options create_words)) no_create_options =
     Inr (no_create_options\<lparr>ct_executables := [(''Vf'', [])], ct_outputs := [''o''], ct_placeholder := ''out.o''\<rparr>)"
  "pm_operands (permute_words create_optstring create_long_options create_words) = [''Vf'', ''a'']"
  "create_thunk_of (no_create_options\<lparr>ct_executables := [(''Vf'', [])], ct_outputs := [''o''], ct_placeholder := ''out.o''\<rparr>)
     ''Vf'' [''a''] = Inr created_thunk"
  by code_simp+

lemma create_runs: "map_sum id fst (create_thunk_main creating_world create_words Map.empty) =
    Inr (hash_compute toy_sha (MAGIC_NUMBER @ ''p'') Thunk)"
  "one_word (hash_compute toy_sha (MAGIC_NUMBER @ ''p'') Thunk)" "thunk_plain created_thunk"
  by code_simp+

theorem created_thunk_forceable_witness:
  "\<exists>h d'. create_thunk_main creating_world create_words Map.empty = Inr (h, d') \<and>
     force_targets creating_world [] d' [''out.o''] = Inr [(''out.o'', h)] \<and>
     env_read (world_env creating_world) d' h = Inr (set_hash h created_thunk)"
proof -
  let ?h = "hash_compute toy_sha (MAGIC_NUMBER @ ''p'') Thunk"
  obtain d' where run: "create_thunk_main creating_world create_words Map.empty = Inr (?h, d')"
    using create_runs(1) by (cases "create_thunk_main creating_world create_words Map.empty") auto
  have codec: "codec_ok (wd_encode creating_world) (wd_decode creating_world)"
    by (simp add: codec_ok_def creating_world_def)
  have "''out.o'' \<noteq> blob (wd_gg_dir creating_world) ?h"
    by (simp add: creating_world_def toy_world_def blob_def blobs_def path_append_def)
  from created_thunk_forceable [OF run create_parsed(1) _ _ this create_parsed(2,3) create_runs(3) codec create_runs(2)]
  show ?thesis using run by (auto simp: no_collision_def)
qed

end
