(* ===== verification/Tools.thy ===== *)
theory Tools
  imports ForceLaws
begin

text \<open>
  Small commands of \<open>src/frontend\<close>: collecting files (\<open>gg-collect.cc\<close>, \<open>gg-hash.cc\<close>), transfers (\<open>gg-put.cc\<close>,
  \<open>gg-get.cc\<close>), preparation (\<open>gg-init.cc\<close>, \<open>gg-infer.cc\<close>, \<open>gg.cc\<close>, \<open>gg-force-and-run.cc\<close>), and the
  interpreter \<open>gg-repl.cc\<close>, which makes thunks from the commands it reads.
\<close>

record tool_env =
  to_world :: world
  to_stat :: "string \<Rightarrow> file_stat"
  to_junk :: string

section \<open>Collecting\<close>

definition collect_file :: "tool_env \<Rightarrow> string \<Rightarrow> string list \<times> disk \<Rightarrow> (string list \<times> disk) res" where
  "collect_file te src st =
     (case st of (printed, d) \<Rightarrow>
        let w = to_world te
        in bind_res (hash_file (wd_sha256 w) (wd_kernel w) (to_stat te) (wd_gg_dir w) src None d) (\<lambda>(h, d1).
             let dst = blob (wd_gg_dir w) h
             in bind_res (if path_exists dst d1 then Inr d1
                          else bind_res (is_executable src d1) (\<lambda>executable.
                                 copy_then_rename (wd_kernel w) src dst (Some (if executable then 320 else 256)) d1)) (\<lambda>d2.
                  Inr (printed @ [h], d2))))"

definition collect_main :: "tool_env \<Rightarrow> string list \<Rightarrow> disk \<Rightarrow> (string list \<times> disk) res" where
  "collect_main te argv d =
     (if length argv < 2 then Inl (Runtime_error ''usage'') else fold_res (collect_file te) (drop 1 argv) ([], d))"

definition hash_main :: "world \<Rightarrow> string list \<Rightarrow> disk \<Rightarrow> string res" where
  "hash_main w argv d =
     (if length argv \<noteq> 2 then Inl (Runtime_error ''usage'') else file_force (wd_sha256 w) (argv ! 1) None d)"

section \<open>Transfers\<close>

definition put_batch_size :: nat where "put_batch_size = 64 * 32"

definition put_batch ::
  "world \<Rightarrow> remote_clients \<Rightarrow> storage_backend \<Rightarrow> put_request list \<Rightarrow> disk \<Rightarrow> disk res" where
  "put_batch w rm sb requests d =
     storage_put w rm sb requests (\<lambda>r. set_available (wd_kernel w) sb (pr_object_key r)) d"

definition put_file ::
  "world \<Rightarrow> remote_clients \<Rightarrow> (string \<Rightarrow> string) \<Rightarrow> storage_backend \<Rightarrow> string \<Rightarrow> put_request list \<times> disk \<Rightarrow>
     (put_request list \<times> disk) res" where
  "put_file w rm hex sb file_name st =
     (case st of (put_requests, d) \<Rightarrow>
        bind_res (file_force (wd_sha256 w) file_name None d) (\<lambda>file_hash.
        bind_res (if is_available sb file_hash d then Inr put_requests
                  else bind_res (hash_to_hex hex file_hash) (\<lambda>x.
                         Inr (put_requests @ [\<lparr>pr_filename = file_name, pr_object_key = file_hash, pr_content_hash = Some x\<rparr>])))
          (\<lambda>requests.
             if put_batch_size \<le> length requests then bind_res (put_batch w rm sb requests d) (\<lambda>d'. Inr ([], d'))
             else Inr (requests, d))))"

text \<open>Without arguments the names are the lines of the standard input.\<close>

definition put_main ::
  "world \<Rightarrow> remote_clients \<Rightarrow> (string \<Rightarrow> string) \<Rightarrow> string list \<Rightarrow> string \<Rightarrow> disk \<Rightarrow> disk res" where
  "put_main w rm hex argv stdin d =
     (let names = (if length argv = 1 then lines_of [] stdin else drop 1 argv)
      in bind_res (storage_backend_uri (wd_environ w)) (\<lambda>uri.
         bind_res (create_backend (wd_sha256 w) (wd_environ w) uri d) (\<lambda>(sb, d1).
         bind_res (fold_res (put_file w rm hex sb) names ([], d1)) (\<lambda>(requests, d2).
           if 0 < length requests then put_batch w rm sb requests d2 else Inr d2))))"

definition get_main :: "world \<Rightarrow> remote_clients \<Rightarrow> string list \<Rightarrow> disk \<Rightarrow> disk res" where
  "get_main w rm argv d =
     (if length argv < 2 then Inl (Runtime_error ''usage'')
      else
        bind_res (storage_backend_uri (wd_environ w)) (\<lambda>uri.
        bind_res (create_backend (wd_sha256 w) (wd_environ w) uri d) (\<lambda>(sb, d1).
          storage_get w rm sb
            (map (\<lambda>h. \<lparr>gr_object_key = h, gr_filename = blob (wd_gg_dir w) h, gr_mode = None\<rparr>) (drop 1 argv)) (\<lambda>_. Inr) d1)))"

section \<open>Preparation\<close>

definition init_main :: "string \<Rightarrow> string list \<Rightarrow> disk \<Rightarrow> disk res" where
  "init_main cwd argv d =
     (if 2 < length argv then Inl (Runtime_error ''usage'')
      else create_directories (if length argv = 1 then path_append cwd ''.gg'' else argv ! 1) d)"

text \<open>The environment and the words of the command that takes the place of \<open>gg-infer\<close>.\<close>

definition infer_main ::
  "(string \<rightharpoonup> string) \<Rightarrow> string \<Rightarrow> string list \<Rightarrow> ((string \<rightharpoonup> string) \<times> string list) res" where
  "infer_main environ cwd argv =
     (if length argv < 2 then Inl (Runtime_error ''usage'')
      else
        bind_res (safe_getenv environ ''PATH'') (\<lambda>system_path.
        bind_res (safe_getenv environ ''GG_MODELPATH'') (\<lambda>models_path.
          if models_path = [] then Inl (Runtime_error ''GG_MODELPATH not set'')
          else
            let environ1 = environ(''PATH'' \<mapsto> models_path @ '':'' @ system_path, ''GG_REALPATH'' \<mapsto> system_path)
            in Inr (if environ1 ''GG_BASEPATH'' = None then environ1(''GG_BASEPATH'' \<mapsto> cwd) else environ1, drop 1 argv))))"

text \<open>\<open>gg COMMAND\<close> runs \<open>gg-COMMAND\<close>; \<open>gg-force-and-run\<close> forces a thunk, then runs what is in its place.\<close>

definition gg_main :: "string list \<Rightarrow> string list res" where
  "gg_main argv = (if length argv < 2 then Inl (Runtime_error ''usage'') else Inr ((''gg-'' @ argv ! 1) # drop 2 argv))"

definition force_and_run_commands :: "(string \<Rightarrow> string res) \<Rightarrow> string list \<Rightarrow> (string list \<times> string \<times> string list) res" where
  "force_and_run_commands canonical argv =
     (if length argv < 2 then Inl (Runtime_error ''usage'')
      else bind_res (canonical (argv ! 1)) (\<lambda>thunk_path. Inr ([''gg-force'', argv ! 1], thunk_path, drop 1 argv)))"

section \<open>The interpreter\<close>

record repl_state =
  rp_last :: string
  rp_function :: string
  rp_args :: "string list"
  rp_data :: "factory_data list"
  rp_executables :: "factory_data list"
  rp_outputs :: "factory_output list"
  rp_links :: "(string \<times> string) list"

definition repl_start :: repl_state where
  "repl_start = \<lparr>rp_last = [], rp_function = [], rp_args = [], rp_data = [], rp_executables = [], rp_outputs = [], rp_links = []\<rparr>"

text \<open>\<open>tokens[1][0]\<close>, which is the terminating null character of an empty token.\<close>

definition first_letter :: "string \<Rightarrow> char" where
  "first_letter s = (case s of [] \<Rightarrow> CHR 0x00 | c # _ \<Rightarrow> c)"

definition token_at :: "string list \<Rightarrow> nat \<Rightarrow> string res" where
  "token_at tokens i = (if i < length tokens then Inr (tokens ! i) else Inl (Out_of_range ''vector::_M_range_check''))"

definition repl_data :: "tool_env \<Rightarrow> string \<Rightarrow> disk \<Rightarrow> (factory_data \<times> disk) res" where
  "repl_data te filename d =
     (let w = to_world te
      in make_data (wd_sha256 w) (wd_kernel w) (to_stat te) (wd_gg_dir w) (to_junk te) filename [] Value [] d)"

definition repl_push :: "tool_env \<Rightarrow> string list \<Rightarrow> repl_state \<times> disk \<Rightarrow> (repl_state \<times> disk) res" where
  "repl_push te tokens st =
     (case st of (s, d) \<Rightarrow>
        if length tokens < 3 then Inl (Runtime_error (CHR 0x27 # ''push'' @ CHR 0x27 # '' needs at least two arguments''))
        else
          let what = first_letter (tokens ! 1); x = tokens ! 2
          in if what = CHR ''a'' then Inr (s\<lparr>rp_args := rp_args s @ [x]\<rparr>, d)
             else if what = CHR ''d'' then
               bind_res (repl_data te x d) (\<lambda>(datum, d'). Inr (s\<lparr>rp_data := rp_data s @ [datum]\<rparr>, d'))
             else if what = CHR ''e'' then
               bind_res (repl_data te x d) (\<lambda>(datum, d'). Inr (s\<lparr>rp_executables := rp_executables s @ [datum]\<rparr>, d'))
             else if what = CHR ''o'' then Inr (s\<lparr>rp_outputs := rp_outputs s @ [make_output x None]\<rparr>, d)
             else if what = CHR ''l'' then
               bind_res (token_at tokens 3) (\<lambda>file_name.
               let w = to_world te
               in bind_res (hash_file (wd_sha256 w) (wd_kernel w) (to_stat te) (wd_gg_dir w) file_name None d) (\<lambda>(h, d').
                    Inr (s\<lparr>rp_links := rp_links s @ [(x, h)]\<rparr>, d')))
             else Inl (Runtime_error (''invalid push operation: '' @ tokens ! 1)))"

text \<open>\<open>pop_back\<close> of an empty queue is undefined.\<close>

definition pop_back :: "'a list \<Rightarrow> 'a list res" where
  "pop_back xs = (if xs = [] then Inl Undefined_behaviour else Inr (butlast xs))"

definition repl_pop :: "string list \<Rightarrow> repl_state \<Rightarrow> repl_state res" where
  "repl_pop tokens s =
     (if length tokens \<noteq> 2 then Inl (Runtime_error (CHR 0x27 # ''pop'' @ CHR 0x27 # '' needs one argument''))
      else
        let what = first_letter (tokens ! 1)
        in if what = CHR ''a'' then bind_res (pop_back (rp_args s)) (\<lambda>xs. Inr (s\<lparr>rp_args := xs\<rparr>))
           else if what = CHR ''d'' then bind_res (pop_back (rp_data s)) (\<lambda>xs. Inr (s\<lparr>rp_data := xs\<rparr>))
           else if what = CHR ''e'' then bind_res (pop_back (rp_executables s)) (\<lambda>xs. Inr (s\<lparr>rp_executables := xs\<rparr>))
           else if what = CHR ''o'' then bind_res (pop_back (rp_outputs s)) (\<lambda>xs. Inr (s\<lparr>rp_outputs := xs\<rparr>))
           else if what = CHR ''l'' then bind_res (pop_back (rp_links s)) (\<lambda>xs. Inr (s\<lparr>rp_links := xs\<rparr>))
           else Inl (Runtime_error (''invalid pop operation: '' @ tokens ! 1)))"

text \<open>The exception for an unknown operation is made here and not thrown.\<close>

definition repl_set :: "string list \<Rightarrow> repl_state \<Rightarrow> repl_state res" where
  "repl_set tokens s =
     (if length tokens \<noteq> 3 then Inl (Runtime_error (CHR 0x27 # ''pop'' @ CHR 0x27 # '' needs two arguments''))
      else Inr (if first_letter (tokens ! 1) = CHR ''f'' then s\<lparr>rp_function := tokens ! 2\<rparr> else s))"

definition repl_clear :: "repl_state \<Rightarrow> repl_state" where
  "repl_clear s = repl_start\<lparr>rp_last := rp_last s\<rparr>"

text \<open>The links are put into a map: sorted by name, the last of a name counts.\<close>

definition repl_function :: "repl_state \<Rightarrow> func res" where
  "repl_function s =
     bind_res (if rp_function s \<noteq> [] then Inr (rp_function s)
               else case rp_executables s of
                      [] \<Rightarrow> Inl (Out_of_range ''deque::_M_range_check'')
                    | x # _ \<Rightarrow> Inr (fd_hash x)) (\<lambda>h.
       Inr \<lparr>fn_hash = h, fn_args = rp_args s, fn_envars = []\<rparr>)"

definition repl_links_map :: "repl_state \<Rightarrow> (string \<times> string) list" where
  "repl_links_map s = fold (\<lambda>(name, h). map_put name h) (rp_links s) []"

definition repl_create_thunk :: "tool_env \<Rightarrow> repl_state \<Rightarrow> disk \<Rightarrow> (string \<times> disk) res" where
  "repl_create_thunk te s d =
     (let w = to_world te
      in bind_res (repl_function s) (\<lambda>f.
           generate (wd_sha256 w) (wd_encode w) (wd_kernel w) (wd_gg_dir w) f (rp_data s) (rp_executables s) (rp_outputs s)
             [] 0 opt_collect_data (repl_links_map s) d))"

definition repl_create_placeholder :: "tool_env \<Rightarrow> string list \<Rightarrow> repl_state \<Rightarrow> disk \<Rightarrow> disk res" where
  "repl_create_placeholder te tokens s d =
     (if rp_last s = [] then Inl (Runtime_error ''no thunk available for the placeholder'')
      else
        bind_res (token_at tokens 2) (\<lambda>tag.
        bind_res (case rp_outputs s of [] \<Rightarrow> Inl Undefined_behaviour | out # _ \<Rightarrow> Inr (fo_tag out)) (\<lambda>first.
        bind_res (token_at tokens 3) (\<lambda>filename.
          write_placeholder (wd_kernel (to_world te)) (if tag = first then rp_last s else for_output (rp_last s) tag)
            filename d))))"

definition repl_create :: "tool_env \<Rightarrow> string list \<Rightarrow> repl_state \<times> disk \<Rightarrow> (repl_state \<times> disk) res" where
  "repl_create te tokens st =
     (case st of (s, d) \<Rightarrow>
        if length tokens < 2 then Inl (Runtime_error (CHR 0x27 # ''create'' @ CHR 0x27 # '' has one arguments''))
        else if first_letter (tokens ! 1) = CHR ''t'' then
          bind_res (repl_create_thunk te s d) (\<lambda>(h, d'). Inr (s\<lparr>rp_last := h\<rparr>, d'))
        else if first_letter (tokens ! 1) = CHR ''p'' then
          bind_res (repl_create_placeholder te tokens s d) (\<lambda>d'. Inr (s, d'))
        else Inr (s, d))"

text \<open>One line; \<open>None\<close> ends the program. \<open>split\<close> never returns an empty list, so an empty line is an invalid command.\<close>

definition repl_line :: "tool_env \<Rightarrow> string \<Rightarrow> repl_state \<times> disk \<Rightarrow> (repl_state \<times> disk) option res" where
  "repl_line te line st =
     (let tokens = split line '' '' in
      if tokens = [] then Inr (Some st)
      else let command = hd tokens
           in if command = ''push'' then bind_res (repl_push te tokens st) (\<lambda>st'. Inr (Some st'))
              else if command = ''pop'' then bind_res (repl_pop tokens (fst st)) (\<lambda>s. Inr (Some (s, snd st)))
              else if command = ''set'' then bind_res (repl_set tokens (fst st)) (\<lambda>s. Inr (Some (s, snd st)))
              else if command = ''clear'' then Inr (Some (repl_clear (fst st), snd st))
              else if command = ''create'' then bind_res (repl_create te tokens st) (\<lambda>st'. Inr (Some st'))
              else if command = ''exit'' then Inr None
              else Inl (Runtime_error (''invalid command: '' @ command)))"


section \<open>What the interpreter makes\<close>






section \<open>What a script describes\<close>





















section \<open>What goes unnoticed\<close>

text \<open>The lines meant to be skipped end the interpreter, and an operation it does not know leaves no trace.\<close>

lemma empty_line_ends_repl: "repl_line te [] st = Inl (Runtime_error ''invalid command: '')"
  by (simp add: repl_line_def split_def split_indices.simps)

lemma unknown_set_ignored:
  assumes "first_letter x \<noteq> CHR ''f''"
  shows "repl_set [''set'', x, y] s = Inr s"
  using assms by (simp add: repl_set_def)

section \<open>A small script\<close>












end
