(* ===== verification/Watcher.thy ===== *)
theory Watcher
  imports Poller GccDeps
begin

text \<open>
  The directory watcher of the models, \<open>src/models/dir-watcher.cc\<close>, over \<open>src/util/inotify.cc\<close>: the index of
  the files below a directory whose names end in one of the filters, kept up to date by the events of the
  kernel and sent to whoever connects. What the kernel knows at the time of a call is \<open>watch_env\<close>: the disk and its
  listings, the answers to the calls that open, bind and listen on the descriptors, the descriptors of
  watches, the bytes that the next read of the inotify descriptor returns.
  The order of an unordered container is an argument too.
\<close>

record watch_env =
  we_disk :: disk
  we_listing :: "string \<Rightarrow> string list res"
  we_watch :: "string \<Rightarrow> nat res"
  we_order :: "string list \<Rightarrow> string list"
  we_socket :: "nat res"
  we_inotify :: "nat res"
  we_bind :: "string \<Rightarrow> unit res"
  we_listen :: "unit res"
  we_accept :: "nat res"
  we_accepts :: "string \<Rightarrow> nat"
  we_events :: string

section \<open>inotify\<close>

type_synonym event_mask = "32 word"

definition IN_CLOSE_WRITE :: event_mask where "IN_CLOSE_WRITE = 8"

definition IN_MOVED_FROM :: event_mask where "IN_MOVED_FROM = 64"

definition IN_MOVED_TO :: event_mask where "IN_MOVED_TO = 128"

definition IN_MOVE :: event_mask where "IN_MOVE = IN_MOVED_FROM OR IN_MOVED_TO"

definition IN_CREATE :: event_mask where "IN_CREATE = 256"

definition IN_DELETE :: event_mask where "IN_DELETE = 512"

definition IN_ONLYDIR :: event_mask where "IN_ONLYDIR = 16777216"

definition IN_ISDIR :: event_mask where "IN_ISDIR = 1073741824"

lemmas mask_defs = IN_CLOSE_WRITE_def IN_MOVED_FROM_def IN_MOVED_TO_def IN_MOVE_def IN_CREATE_def IN_DELETE_def
  IN_ONLYDIR_def IN_ISDIR_def

definition watch_flags :: event_mask where
  "watch_flags = IN_MOVE OR IN_DELETE OR IN_CLOSE_WRITE OR IN_CREATE OR IN_ONLYDIR"

record watch_event =
  ev_wd :: nat
  ev_mask :: event_mask
  ev_name :: string

text \<open>All watches have the same callback, so a watch is its path and its mask. \<open>wt_answers\<close> is what was
  written to each connection, with the index at that time.\<close>

record watcher =
  wt_filters :: "string list"
  wt_watches :: "nat \<rightharpoonup> string \<times> event_mask"
  wt_index :: "string list"
  wt_cache :: "string option"
  wt_answers :: "(string list \<times> string) list"

definition add_watch :: "watch_env \<Rightarrow> string \<Rightarrow> event_mask \<Rightarrow> watcher \<Rightarrow> watcher res" where
  "add_watch k path m w =
     bind_res (we_watch k path) (\<lambda>wd. Inr (w\<lparr>wt_watches := (wt_watches w)(wd \<mapsto> (path, m))\<rparr>))"

definition add_watches :: "watch_env \<Rightarrow> string list \<Rightarrow> event_mask \<Rightarrow> watcher \<Rightarrow> watcher res" where
  "add_watches k paths m = fold_res (\<lambda>path. add_watch k path m) paths"

text \<open>\<open>called\<close> is the answer of the system call.\<close>

definition rm_watch :: "unit res \<Rightarrow> nat \<Rightarrow> watcher \<Rightarrow> watcher res" where
  "rm_watch called wd w =
     bind_res called (\<lambda>_.
       if wt_watches w wd = None then Inl (Runtime_error ''rm_watch: trying to remove a nonexistent watch descriptor'')
       else Inr (w\<lparr>wt_watches := (wt_watches w)(wd := None)\<rparr>))"

section \<open>The index\<close>

definition name_ends_with :: "string \<Rightarrow> string \<Rightarrow> bool" where
  "name_ends_with str ending =
     (if length ending \<le> length str then drop (length str - length ending) str = ending else False)"

definition read_filters :: "string \<Rightarrow> disk \<Rightarrow> string list res" where
  "read_filters filename d =
     (if d filename = None then Inl (Runtime_error ''filters file not found'') else Inr (file_lines filename d))"

definition check_file :: "string \<Rightarrow> string list \<Rightarrow> bool" where
  "check_file path filters = list_ex (name_ends_with path) filters"

definition note_file :: "string \<Rightarrow> watcher \<Rightarrow> watcher" where
  "note_file p w =
     (if check_file p (wt_filters w) then w\<lparr>wt_cache := None, wt_index := List.insert p (wt_index w)\<rparr> else w)"

text \<open>The fuel bounds the depth of the walk; directories are followed through symbolic links.\<close>

fun scan_directory :: "nat \<Rightarrow> watch_env \<Rightarrow> string \<Rightarrow> watcher \<Rightarrow> watcher res" where
  "scan_directory 0 k root w = Inl Out_of_fuel"
| "scan_directory (Suc n) k root w =
     bind_res (add_watch k root watch_flags w) (\<lambda>w1.
     bind_res (we_listing k root) (\<lambda>entries.
       fold_res (\<lambda>entry w2.
         let entry_path = path_append root entry
         in if exists_and_is_directory entry_path (we_disk k) then scan_directory n k entry_path w2
            else Inr (note_file entry_path w2)) entries w1))"

definition watch_callback :: "nat \<Rightarrow> watch_env \<Rightarrow> watch_event \<Rightarrow> string \<Rightarrow> watcher \<Rightarrow> watcher res" where
  "watch_callback n k event root w =
     (let full_path = path_append root (ev_name event); m = ev_mask event
      in if m AND IN_ISDIR \<noteq> 0 then
           (if m AND IN_CREATE \<noteq> 0 then scan_directory n k full_path w
            else if m AND IN_DELETE \<noteq> 0 then Inr w
            else Inl (Runtime_error ''not handled''))
         else if m AND IN_CLOSE_WRITE \<noteq> 0 \<or> m AND IN_MOVED_TO \<noteq> 0 then Inr (note_file full_path w)
         else if m AND IN_MOVED_FROM \<noteq> 0 \<or> m AND IN_DELETE \<noteq> 0 then
           Inr (w\<lparr>wt_index := removeAll full_path (wt_index w)\<rparr>)
         else if m AND IN_CREATE \<noteq> 0 then Inr w
         else Inl (Runtime_error ''not handled''))"

text \<open>The numbers of an event are little endian: descriptor, mask, cookie and the length of the name with its padding.
  The name is read up to its null character. A rest shorter than the fixed part is read past its end.\<close>

definition le_value :: "string \<Rightarrow> nat" where
  "le_value s = foldr (\<lambda>c n. of_char c + 256 * n) s 0"

definition event_at :: "string \<Rightarrow> watch_event" where
  "event_at bytes =
     \<lparr>ev_wd = le_value (take 4 bytes), ev_mask = of_nat (le_value (take 4 (drop 4 bytes))),
      ev_name = takeWhile (\<lambda>c. c \<noteq> CHR 0x00) (drop 16 bytes)\<rparr>"

definition event_size :: "string \<Rightarrow> nat" where
  "event_size bytes = 16 + le_value (take 4 (drop 12 bytes))"

definition deliver_event :: "nat \<Rightarrow> watch_env \<Rightarrow> watch_event \<Rightarrow> watcher \<Rightarrow> watcher res" where
  "deliver_event n k event w =
     (case wt_watches w (ev_wd event) of
        None \<Rightarrow> Inr w
      | Some (path, m) \<Rightarrow> if ev_mask event AND m \<noteq> 0 then watch_callback n k event path w else Inr w)"

function handle_events :: "nat \<Rightarrow> watch_env \<Rightarrow> string \<Rightarrow> watcher \<Rightarrow> watcher res" where
  "handle_events n k bytes w =
     (if bytes = [] then Inr w
      else if length bytes < 16 then Inl Undefined_behaviour
      else bind_res (deliver_event n k (event_at bytes) w) (handle_events n k (drop (event_size bytes) bytes)))"
  by pat_completeness auto
termination
  by (relation "measure (\<lambda>(_, _, bytes, _). length bytes)") (auto simp: event_size_def)

declare handle_events.simps [simp del]

section \<open>Answers\<close>

definition answer_lines :: "string list \<Rightarrow> string" where
  "answer_lines xs = concat (map (\<lambda>x. x @ [newline]) xs)"

text \<open>The answer is built once and kept until a file is added.\<close>

definition index_str :: "watch_env \<Rightarrow> watcher \<Rightarrow> string \<times> watcher" where
  "index_str k w =
     (case wt_cache w of
        Some s \<Rightarrow> (s, w)
      | None \<Rightarrow> let s = answer_lines (we_order k (wt_index w)) in (s, w\<lparr>wt_cache := Some s\<rparr>))"

definition answer :: "watch_env \<Rightarrow> watcher \<Rightarrow> watcher res" where
  "answer k w =
     bind_res (we_accept k) (\<lambda>_.
       case index_str k w of (response, w1) \<Rightarrow>
         if response = [] then Inr w1
         else bind_res (write_all (we_accepts k) response) (\<lambda>parts.
                Inr (w1\<lparr>wt_answers := wt_answers w1 @ [(wt_index w1, concat parts)]\<rparr>)))"

section \<open>The loop\<close>

datatype watch_action = Notified | Connected

definition watch_owner :: "nat \<Rightarrow> watch_env \<Rightarrow> (watch_action, watcher) poll_client" where
  "watch_owner n k =
     \<lparr>pc_interested = (\<lambda>_ _. True), pc_eof = (\<lambda>_ _. False),
      pc_callback = (\<lambda>a w. bind_res (case a of Notified \<Rightarrow> handle_events n k (we_events k) w | Connected \<Rightarrow> answer k w)
                      (\<lambda>w'. Inr (Continue, [], w'))),
      pc_fderror = (\<lambda>_ w. Inr ([], w))\<rparr>"

definition new_watcher :: "string list \<Rightarrow> watcher" where
  "new_watcher filters = \<lparr>wt_filters = filters, wt_watches = Map.empty, wt_index = [], wt_cache = None, wt_answers = []\<rparr>"

text \<open>A unix socket's address has room for 108 characters with the last null.\<close>

definition create_sockaddr_un :: "string \<Rightarrow> string res" where
  "create_sockaddr_un path = (if 108 \<le> length path then Inl (Runtime_error ''path size is too long'') else Inr path)"

definition construct_watcher ::
  "nat \<Rightarrow> watch_env \<Rightarrow> string \<Rightarrow> string list \<Rightarrow> string \<Rightarrow> (watch_action poller \<times> watcher) res" where
  "construct_watcher n k root filters sock_path =
     bind_res (we_socket k) (\<lambda>sock_fd.
     bind_res (we_inotify k) (\<lambda>inotify_fd.
     bind_res (scan_directory n k root (new_watcher filters)) (\<lambda>w.
     bind_res (create_sockaddr_un sock_path) (\<lambda>addr.
     bind_res (we_bind k addr) (\<lambda>_.
     bind_res (we_listen k) (\<lambda>_.
       Inr (add_action \<lparr>pa_fd = sock_fd, pa_direction = Poll_in, pa_active = True, pa_what = Connected\<rparr>
              (add_action \<lparr>pa_fd = inotify_fd, pa_direction = Poll_in, pa_active = True, pa_what = Notified\<rparr> new_poller), w)))))))"

text \<open>One round for each answer of the kernel, until the poller has nothing left to wait for.\<close>

fun watch_rounds ::
  "nat \<Rightarrow> (watch_env \<times> poll_kernel) list \<Rightarrow> watch_action poller \<times> watcher \<Rightarrow> (watch_action poller \<times> watcher) res" where
  "watch_rounds n [] st = Inr st"
| "watch_rounds n ((k, pk) # rest) st =
     bind_res (poll (watch_owner n k) pk (-1) st) (\<lambda>(outcome, st').
       case outcome of Poll_exit _ \<Rightarrow> Inr st' | _ \<Rightarrow> watch_rounds n rest st')"

definition watch_main ::
  "nat \<Rightarrow> (string \<Rightarrow> string res) \<Rightarrow> watch_env \<Rightarrow> (watch_env \<times> poll_kernel) list \<Rightarrow> string list \<Rightarrow>
     (watch_action poller \<times> watcher) res" where
  "watch_main n canonical k rounds argv =
     (if length argv \<noteq> 4 then Inl (Runtime_error ''usage'')
      else bind_res (canonical (argv ! 1)) (\<lambda>root.
           bind_res (read_filters (argv ! 2) (we_disk k)) (\<lambda>filters.
           bind_res (construct_watcher n k root filters (argv ! 3)) (watch_rounds n rounds))))"

section \<open>The first walk\<close>

text \<open>The files that a walk from \<open>root\<close> comes to.\<close>

inductive file_below :: "watch_env \<Rightarrow> string \<Rightarrow> string \<Rightarrow> bool" for k :: watch_env where
  entry: "we_listing k root = Inr entries \<Longrightarrow> e \<in> set entries \<Longrightarrow>
    \<not> exists_and_is_directory (path_append root e) (we_disk k) \<Longrightarrow> file_below k root (path_append root e)"
| deeper: "we_listing k root = Inr entries \<Longrightarrow> e \<in> set entries \<Longrightarrow>
    exists_and_is_directory (path_append root e) (we_disk k) \<Longrightarrow> file_below k (path_append root e) p \<Longrightarrow> file_below k root p"

inductive_simps file_below_iff: "file_below k root p"

lemma note_file_index [simp]:
  "set (wt_index (note_file p w)) = set (wt_index w) \<union> (if check_file p (wt_filters w) then {p} else {})"
  "wt_filters (note_file p w) = wt_filters w" "wt_answers (note_file p w) = wt_answers w"
  by (auto simp: note_file_def)

text \<open>A loop whose steps add \<open>found e\<close> to the index adds the union.\<close>

lemma fold_index:
  assumes "fold_res f es w = Inr w'"
    and "\<And>e v v'. e \<in> set es \<Longrightarrow> f e v = Inr v' \<Longrightarrow> wt_filters v = wt_filters w \<Longrightarrow>
      set (wt_index v') = set (wt_index v) \<union> found e \<and> wt_filters v' = wt_filters v"
  shows "set (wt_index w') = set (wt_index w) \<union> (\<Union>e \<in> set es. found e) \<and> wt_filters w' = wt_filters w"
  using assms
proof (induction es arbitrary: w)
  case (Cons e es)
  then obtain v where v: "f e w = Inr v" "fold_res f es v = Inr w'" by auto
  have "set (wt_index v) = set (wt_index w) \<union> found e" "wt_filters v = wt_filters w"
    using Cons.prems(2) [OF _ v(1)] by auto
  then show ?case using Cons.IH [OF v(2)] Cons.prems(2) by auto
qed simp

lemma scan_exact:
  "scan_directory n k root w = Inr w' \<Longrightarrow>
   set (wt_index w') = set (wt_index w) \<union> {p. file_below k root p \<and> check_file p (wt_filters w)} \<and>
   wt_filters w' = wt_filters w"
proof (induction n arbitrary: root w w')
  case (Suc n)
  let ?dir = "\<lambda>p. exists_and_is_directory p (we_disk k)"
  let ?found = "\<lambda>e. {p. (if ?dir (path_append root e) then file_below k (path_append root e) p else p = path_append root e) \<and>
    check_file p (wt_filters w)}"
  from Suc.prems obtain w1 es where w1: "add_watch k root watch_flags w = Inr w1" and es: "we_listing k root = Inr es"
    and loop: "fold_res (\<lambda>e v. let p = path_append root e in
        if ?dir p then scan_directory n k p v else Inr (note_file p v)) es w1 = Inr w'"
    by (auto simp: Let_def)
  have same: "wt_index w1 = wt_index w" "wt_filters w1 = wt_filters w" using w1 by (auto simp: add_watch_def)
  have step: "set (wt_index v') = set (wt_index v) \<union> ?found e \<and> wt_filters v' = wt_filters v"
    if "(let p = path_append root e in if ?dir p then scan_directory n k p v else Inr (note_file p v)) = Inr v'"
      and "wt_filters v = wt_filters w1" for e v v'
    using that Suc.IH [of "path_append root e" v v'] same by (auto simp: Let_def split: if_splits)
  have "set (wt_index w') = set (wt_index w1) \<union> (\<Union>e \<in> set es. ?found e) \<and> wt_filters w' = wt_filters w1"
    by (rule fold_index [OF loop step])
  moreover have "(\<Union>e \<in> set es. ?found e) = {p. file_below k root p \<and> check_file p (wt_filters w)}"
    by (subst file_below_iff) (auto simp: es)
  ultimately show ?case using same by simp
qed simp

lemma fold_res_returns: "(\<And>x s. x \<in> set xs \<Longrightarrow> \<exists>t. f x s = Inr t) \<Longrightarrow> \<exists>t. fold_res f xs s = Inr t"
proof (induction xs arbitrary: s)
  case (Cons x xs)
  obtain t where "f x s = Inr t" using Cons.prems by (meson list.set_intros(1))
  then show ?case using Cons.IH Cons.prems by auto
qed simp

lemma scan_total:
  assumes "\<And>p. exists_and_is_directory p (we_disk k) \<Longrightarrow> \<exists>wd. we_watch k p = Inr wd"
    and "\<And>p. exists_and_is_directory p (we_disk k) \<Longrightarrow> \<exists>es. we_listing k p = Inr es"
    and "\<And>p es e. exists_and_is_directory p (we_disk k) \<Longrightarrow> we_listing k p = Inr es \<Longrightarrow> e \<in> set es \<Longrightarrow>
      exists_and_is_directory (path_append p e) (we_disk k) \<Longrightarrow> depth (path_append p e) < (depth p :: nat)"
  shows "exists_and_is_directory root (we_disk k) \<Longrightarrow> depth root < n \<Longrightarrow> \<exists>w'. scan_directory n k root w = Inr w'"
proof (induction n arbitrary: root w)
  case (Suc n)
  obtain wd es where wd: "we_watch k root = Inr wd" and es: "we_listing k root = Inr es"
    using assms(1,2) Suc.prems(1) by blast
  have "\<exists>t. (let p = path_append root e in
      if exists_and_is_directory p (we_disk k) then scan_directory n k p v else Inr (note_file p v)) = Inr t"
    if "e \<in> set es" for e v
    using assms(3) [OF Suc.prems(1) es that] Suc.IH [of "path_append root e" v] Suc.prems(2) by (auto simp: Let_def)
  then show ?case using wd es by (auto simp: add_watch_def intro!: fold_res_returns)
qed simp

text \<open>C38: the first walk of the directory watcher. When the directories can be read and watched and the walk has fuel
  for the depth of the tree, the walk ends, and it gives an index of exactly the files below the directory
  whose names end in one of the filters. The watcher is then constructed with that index when the name of
  its socket is shorter than 108 characters and the system lets it open, bind and listen on its sockets;
  otherwise the constructor throws.\<close>

theorem scan_finds_files:
  assumes "\<And>p. exists_and_is_directory p (we_disk k) \<Longrightarrow> \<exists>wd. we_watch k p = Inr wd"
    and "\<And>p. exists_and_is_directory p (we_disk k) \<Longrightarrow> \<exists>es. we_listing k p = Inr es"
    and "\<And>p es e. exists_and_is_directory p (we_disk k) \<Longrightarrow> we_listing k p = Inr es \<Longrightarrow> e \<in> set es \<Longrightarrow>
      exists_and_is_directory (path_append p e) (we_disk k) \<Longrightarrow> depth (path_append p e) < (depth p :: nat)"
    and "exists_and_is_directory root (we_disk k)" and "depth root < n"
  shows "\<exists>w. scan_directory n k root (new_watcher filters) = Inr w \<and>
    set (wt_index w) = {p. file_below k root p \<and> list_ex (name_ends_with p) filters} \<and>
    (if length sock_path < 108 \<and> \<not> isl (we_socket k) \<and> \<not> isl (we_inotify k) \<and> \<not> isl (we_bind k sock_path) \<and> \<not> isl (we_listen k)
     then \<exists>ps. construct_watcher n k root filters sock_path = Inr (ps, w)
     else isl (construct_watcher n k root filters sock_path))"
proof -
  obtain w where w: "scan_directory n k root (new_watcher filters) = Inr w"
    using scan_total [of k depth root n] assms by blast
  have "set (wt_index w) = {p. file_below k root p \<and> list_ex (name_ends_with p) filters}"
    using scan_exact [OF w] by (simp add: new_watcher_def check_file_def)
  moreover have "if length sock_path < 108 \<and> \<not> isl (we_socket k) \<and> \<not> isl (we_inotify k) \<and> \<not> isl (we_bind k sock_path) \<and> \<not> isl (we_listen k)
     then \<exists>ps. construct_watcher n k root filters sock_path = Inr (ps, w)
     else isl (construct_watcher n k root filters sock_path)"
    by (cases "we_socket k"; cases "we_inotify k"; cases "we_bind k sock_path"; cases "we_listen k")
      (auto simp: construct_watcher_def create_sockaddr_un_def w)
  ultimately show ?thesis using w by blast
qed

section \<open>What every round keeps\<close>

text \<open>For an owner whose callbacks keep a property of its state alone, a call of \<open>poll\<close> keeps it.\<close>

locale poll_state =
  fixes client :: "('a, 's) poll_client"
    and k :: poll_kernel
    and ok :: "'s \<Rightarrow> bool"
  assumes callback_ok: "ok s \<Longrightarrow> pc_callback client a s = Inr (result, added, s') \<Longrightarrow> ok s'"
    and fderror_ok: "ok s \<Longrightarrow> pc_fderror client a s = Inr (added, s') \<Longrightarrow> ok s'"

sublocale poll_state \<subseteq> owner: poll_owner client k "\<lambda>_ _ _. ok"
  by unfold_locales (auto intro: callback_ok fderror_ok)

context poll_state
begin

lemma poll_ok:
  assumes "poll client k t (p, s) = Inr (outcome, p', s')" and "ok s"
  shows "ok s'"
proof -
  let ?items = "map (\<lambda>a. (a, wanted client s a)) (po_actions p @ po_queue p)"
  let ?start = "\<lparr>sv_seen = [], sv_queue = [], sv_remove = [], sv_state = s\<rparr>"
  have "s' = s \<or> (\<exists>st v. serve_all client k ?items ?start = Inr (st, v) \<and> s' = sv_state v)"
    using assms(1) by (auto simp: poll_def Let_def split: if_splits option.splits)
  then show ?thesis using owner.serve_all_keeps [of ?start ?items] assms(2) by auto
qed

end

definition fits :: "string list \<Rightarrow> string list \<Rightarrow> bool" where
  "fits filters xs \<longleftrightarrow> (\<forall>p \<in> set xs. check_file p filters)"

definition watch_ok :: "string list \<Rightarrow> watcher \<Rightarrow> bool" where
  "watch_ok filters w \<longleftrightarrow> wt_filters w = filters \<and> fits filters (wt_index w) \<and>
     (\<forall>s. wt_cache w = Some s \<longrightarrow> (\<exists>xs. s = answer_lines xs \<and> set (wt_index w) \<subseteq> set xs \<and> fits filters xs)) \<and>
     (\<forall>(index, s) \<in> set (wt_answers w). \<exists>xs. s = answer_lines xs \<and> set index \<subseteq> set xs \<and> fits filters xs)"

definition order_ok :: "watch_env \<Rightarrow> bool" where
  "order_ok k \<longleftrightarrow> (\<forall>xs. set (we_order k xs) = set xs)"

lemma note_file_ok: "watch_ok filters w \<Longrightarrow> watch_ok filters (note_file p w)"
  by (auto simp: watch_ok_def note_file_def fits_def)

lemma scan_ok: "watch_ok filters w \<Longrightarrow> scan_directory n k root w = Inr w' \<Longrightarrow> watch_ok filters w'"
proof (induction n arbitrary: root w w')
  case (Suc n)
  from Suc.prems(2) obtain wd entries where
    loop: "fold_res (\<lambda>e v. let p = path_append root e in
        if exists_and_is_directory p (we_disk k) then scan_directory n k p v else Inr (note_file p v)) entries
      (w\<lparr>wt_watches := (wt_watches w)(wd \<mapsto> (root, watch_flags))\<rparr>) = Inr w'"
    by (auto simp: add_watch_def)
  show ?case
  proof (rule fold_res_invariant [OF loop])
    show "watch_ok filters (w\<lparr>wt_watches := (wt_watches w)(wd \<mapsto> (root, watch_flags))\<rparr>)"
      using Suc.prems(1) by (simp add: watch_ok_def)
  qed (auto simp: Let_def note_file_ok Suc.IH split: if_splits)
qed simp

lemma removed_ok: "watch_ok filters w \<Longrightarrow> watch_ok filters (w\<lparr>wt_index := removeAll p (wt_index w)\<rparr>)"
  unfolding watch_ok_def fits_def by simp (metis Diff_subset subset_trans)

lemma watch_callback_ok:
  "watch_ok filters w \<Longrightarrow> watch_callback n k event root w = Inr w' \<Longrightarrow> watch_ok filters w'"
  by (auto simp: watch_callback_def Let_def scan_ok note_file_ok removed_ok split: if_splits)

lemma handle_events_ok:
  "handle_events n k bytes w = Inr w' \<Longrightarrow> watch_ok filters w \<Longrightarrow> watch_ok filters w'"
proof (induction n k bytes w rule: handle_events.induct)
  case (1 n k bytes w)
  show ?case
  proof (cases "bytes = []")
    case True
    then show ?thesis using "1.prems" by (simp add: handle_events.simps)
  next
    case False
    then obtain v where long: "\<not> length bytes < 16" and v: "deliver_event n k (event_at bytes) w = Inr v"
      and rest: "handle_events n k (drop (event_size bytes) bytes) v = Inr w'"
      using "1.prems"(1) by (subst (asm) handle_events.simps) (auto split: if_splits)
    have "watch_ok filters v"
      using v "1.prems"(2) by (auto simp: deliver_event_def watch_callback_ok split: option.splits if_splits)
    then show ?thesis by (rule "1.IH" [OF False long v rest])
  qed
qed

lemma index_str_ok:
  assumes "watch_ok filters w" and "order_ok k" and "index_str k w = (s, w')"
  shows "watch_ok filters w'"
    and "\<exists>xs. s = answer_lines xs \<and> set (wt_index w) \<subseteq> set xs \<and> fits filters xs"
  using assms by (auto simp: index_str_def watch_ok_def fits_def order_ok_def Let_def split: option.splits)

lemma index_str_index [simp]: "index_str k w = (s, w') \<Longrightarrow> wt_index w' = wt_index w \<and> wt_answers w' = wt_answers w"
  by (auto simp: index_str_def Let_def split: option.splits)

text \<open>Nothing is written only when the index is empty.\<close>

lemma answer_cases:
  assumes "watch_ok filters w" and "order_ok k" and "answer k w = Inr w'"
  obtains "wt_index w = []" and "wt_answers w' = wt_answers w" and "watch_ok filters w'"
  | xs where "wt_answers w' = wt_answers w @ [(wt_index w, answer_lines xs)]" and "set (wt_index w) \<subseteq> set xs"
    and "fits filters xs" and "watch_ok filters w'"
proof -
  obtain s v where s: "index_str k w = (s, v)" by fastforce
  obtain xs where xs: "s = answer_lines xs" "set (wt_index w) \<subseteq> set xs" "fits filters xs"
    using index_str_ok(2) [OF assms(1,2) s] by blast
  note v = index_str_ok(1) [OF assms(1,2) s] index_str_index [OF s]
  show thesis
  proof (cases "s = []")
    case True
    then have "xs = []" using xs(1) by (cases xs) (simp_all add: answer_lines_def)
    then show thesis using that(1) xs(2) True v s assms(3) by (simp add: answer_def)
  next
    case False
    then obtain parts where "write_all (we_accepts k) s = Inr parts"
      and w': "w' = v\<lparr>wt_answers := wt_answers v @ [(wt_index v, concat parts)]\<rparr>"
      using assms(3) s by (auto simp: answer_def)
    then have "concat parts = s" using write_all_concat by blast
    then show thesis using that(2) [of xs] xs v w' by (auto simp: watch_ok_def)
  qed
qed

lemma answer_ok: "watch_ok filters w \<Longrightarrow> order_ok k \<Longrightarrow> answer k w = Inr w' \<Longrightarrow> watch_ok filters w'"
  by (erule answer_cases)

lemma owner_callback_ok:
  assumes "order_ok k \<Longrightarrow> watch_ok filters w" and "pc_callback (watch_owner n k) a w = Inr (result, added, w')" and "order_ok k"
  shows "watch_ok filters w'"
proof (cases a)
  case Notified
  then show ?thesis using assms handle_events_ok by (auto simp: watch_owner_def)
next
  case Connected
  then show ?thesis using assms answer_ok by (auto simp: watch_owner_def)
qed

interpretation watching: poll_state "watch_owner n k" pk "\<lambda>w. order_ok k \<longrightarrow> watch_ok filters w"
  for n :: nat and k :: watch_env and pk :: poll_kernel and filters :: "string list"
proof
  show "order_ok k \<longrightarrow> watch_ok filters w'" if "order_ok k \<longrightarrow> watch_ok filters w"
    "pc_callback (watch_owner n k) a w = Inr (result, added, w')" for w a result added w'
    using owner_callback_ok that by blast
qed (simp add: watch_owner_def)

lemma watch_rounds_ok:
  "watch_rounds n rounds (p, w) = Inr (p', w') \<Longrightarrow> watch_ok filters w \<Longrightarrow> \<forall>k \<in> fst ` set rounds. order_ok k \<Longrightarrow>
   watch_ok filters w'"
proof (induction rounds arbitrary: p w)
  case (Cons r rounds)
  obtain k pk where r: "r = (k, pk)" by fastforce
  from Cons.prems(1) obtain outcome q v where one: "poll (watch_owner n k) pk (-1) (p, w) = Inr (outcome, q, v)"
    and cases: "(case outcome of Poll_exit _ \<Rightarrow> Inr (q, v) | _ \<Rightarrow> watch_rounds n rounds (q, v)) = Inr (p', w')"
    by (auto simp: r)
  from cases have rest: "(q, v) = (p', w') \<or> watch_rounds n rounds (q, v) = Inr (p', w')" by (cases outcome) auto
  have "watch_ok filters v" using watching.poll_ok [OF one] Cons.prems(2,3) r by auto
  then show ?case using rest Cons.IH Cons.prems(3) by auto
qed simp

text \<open>C39: the answers of the directory watcher. Every answer that was written to a connection had a line for every file of
  the index at that time, and lines only for names that end in one of the filters, and after any rounds so has
  the next one; nothing is written only when the index is empty. (There may be lines of files that have been
  deleted.)\<close>

theorem watcher_answers:
  assumes run: "watch_main n canonical k rounds argv = Inr (ps, w)"
    and orders: "\<And>k'. k' \<in> set (map fst rounds) \<Longrightarrow> order_ok k'" "order_ok now"
    and ask: "answer now w = Inr w'"
  shows "\<exists>filters. read_filters (argv ! 2) (we_disk k) = Inr filters \<and>
    (\<forall>(index, sent) \<in> set (wt_answers w'). \<exists>xs. sent = answer_lines xs \<and>
       set index \<subseteq> set xs \<and> (\<forall>p \<in> set xs. list_ex (name_ends_with p) filters)) \<and>
    (if wt_answers w' = wt_answers w then wt_index w = []
     else \<exists>sent. wt_answers w' = wt_answers w @ [(wt_index w, sent)])"
proof -
  from run obtain root filters w0 p0 where filters: "read_filters (argv ! 2) (we_disk k) = Inr filters"
    and scan: "scan_directory n k root (new_watcher filters) = Inr w0"
    and rounds: "watch_rounds n rounds (p0, w0) = Inr (ps, w)"
    by (auto simp: watch_main_def construct_watcher_def split: if_splits)
  have "watch_ok filters (new_watcher filters)" by (simp add: new_watcher_def watch_ok_def fits_def)
  then have "watch_ok filters w0" using scan by (rule scan_ok)
  then have ok: "watch_ok filters w" using watch_rounds_ok [OF rounds] orders(1) by auto
  have "watch_ok filters w'" using answer_ok [OF ok orders(2) ask] .
  then have "\<forall>(index, sent) \<in> set (wt_answers w'). \<exists>xs. sent = answer_lines xs \<and>
       set index \<subseteq> set xs \<and> (\<forall>p \<in> set xs. list_ex (name_ends_with p) filters)"
    unfolding watch_ok_def fits_def check_file_def by blast
  moreover from ok orders(2) ask have "if wt_answers w' = wt_answers w then wt_index w = []
     else \<exists>sent. wt_answers w' = wt_answers w @ [(wt_index w, sent)]"
    by (rule answer_cases) auto
  ultimately show ?thesis using filters by blast
qed

section \<open>Events of files\<close>

text \<open>How the kernel lays out an event: the name is padded with at least one null character.\<close>

definition put_le :: "nat \<Rightarrow> string" where
  "put_le n = map (\<lambda>i. char_of (n div 256 ^ i)) [0, 1, 2, 3]"

definition event_bytes :: "nat \<Rightarrow> nat \<Rightarrow> watch_event \<Rightarrow> string" where
  "event_bytes cookie padding event =
     put_le (ev_wd event) @ put_le (unat (ev_mask event)) @ put_le cookie @ put_le (length (ev_name event) + padding) @
     ev_name event @ replicate padding (CHR 0x00)"

definition event_fits :: "nat \<Rightarrow> nat \<Rightarrow> watch_event \<Rightarrow> bool" where
  "event_fits cookie padding event \<longleftrightarrow> ev_wd event < 2 ^ 32 \<and> cookie < 2 ^ 32 \<and> 0 < padding \<and>
     length (ev_name event) + padding < 2 ^ 32 \<and> CHR 0x00 \<notin> set (ev_name event)"

lemma length_put_le [simp]: "length (put_le n) = 4"
  by (simp add: put_le_def)

lemma le_value_put_le: "n < 2 ^ 32 \<Longrightarrow> le_value (put_le n) = n"
proof -
  have "n div 65536 = n div 256 div 256" "n div 16777216 = n div 65536 div 256"
    by (simp_all flip: div_mult2_eq)
  then have "n mod 256 + 256 * (n div 256) = n" "n div 256 mod 256 + 256 * (n div 65536) = n div 256"
    "n div 65536 mod 256 + 256 * (n div 16777216) = n div 65536"
    by simp_all
  then show "n < 2 ^ 32 \<Longrightarrow> le_value (put_le n) = n"
    by (simp add: le_value_def put_le_def)
qed

lemma takeWhile_padded: "x \<notin> set xs \<Longrightarrow> 0 < n \<Longrightarrow> takeWhile (\<lambda>c. c \<noteq> x) (xs @ replicate n x @ ys) = xs"
  by (induction xs) (cases n, auto)

lemma event_read_back:
  assumes "event_fits cookie padding event"
  shows "event_at (event_bytes cookie padding event @ rest) = event"
    and "event_size (event_bytes cookie padding event @ rest) = length (event_bytes cookie padding event)"
    and "16 \<le> length (event_bytes cookie padding event)"
proof -
  have "unat (ev_mask event) < 2 ^ 32" using unsigned_less [of "ev_mask event"] by simp
  then show "event_at (event_bytes cookie padding event @ rest) = event"
    using assms by (simp add: event_at_def event_bytes_def event_fits_def le_value_put_le takeWhile_padded)
qed (use assms in \<open>simp_all add: event_size_def event_bytes_def event_fits_def le_value_put_le\<close>)

lemma handle_events_first:
  assumes "event_fits cookie padding event"
  shows "handle_events n k (event_bytes cookie padding event @ rest) w = bind_res (deliver_event n k event w) (handle_events n k rest)"
  using event_read_back [OF assms] by (subst handle_events.simps) auto

definition index_event :: "string list \<Rightarrow> string \<Rightarrow> event_mask \<Rightarrow> string set \<Rightarrow> string set" where
  "index_event filters p m S =
     (if m = IN_CLOSE_WRITE \<or> m = IN_MOVED_TO then (if check_file p filters then insert p S else S)
      else if m = IN_MOVED_FROM \<or> m = IN_DELETE then S - {p} else S)"

lemma deliver_file_event:
  assumes "wt_watches w (ev_wd event) = Some (root, watch_flags)"
    and "ev_mask event \<in> {IN_CLOSE_WRITE, IN_MOVED_FROM, IN_MOVED_TO, IN_CREATE, IN_DELETE}"
  shows "\<exists>w'. deliver_event n k event w = Inr w' \<and>
    set (wt_index w') = index_event (wt_filters w) (path_append root (ev_name event)) (ev_mask event) (set (wt_index w)) \<and>
    wt_watches w' = wt_watches w \<and> wt_filters w' = wt_filters w"
  using assms by (elim insertE emptyE)
    (simp_all add: deliver_event_def watch_callback_def mask_defs watch_flags_def index_event_def note_file_def)

text \<open>The events of one read are applied to the index one after another, whatever bytes they are packed in.\<close>

lemma events_applied:
  assumes "\<forall>(cookie, padding, event) \<in> set events. event_fits cookie padding event \<and>
      wt_watches w (ev_wd event) = Some (root (ev_wd event), watch_flags) \<and>
      ev_mask event \<in> {IN_CLOSE_WRITE, IN_MOVED_FROM, IN_MOVED_TO, IN_CREATE, IN_DELETE}"
  shows "\<exists>w'. handle_events n k (concat (map (\<lambda>(cookie, padding, event). event_bytes cookie padding event) events)) w = Inr w' \<and>
    set (wt_index w') = fold (\<lambda>(cookie, padding, event).
      index_event (wt_filters w) (path_append (root (ev_wd event)) (ev_name event)) (ev_mask event)) events (set (wt_index w))"
  using assms
proof (induction events arbitrary: w)
  case Nil
  then show ?case by (simp add: handle_events.simps)
next
  case (Cons x events)
  obtain cookie padding event where x: "x = (cookie, padding, event)" by (rule prod_cases3)
  obtain v where v: "deliver_event n k event w = Inr v" "wt_watches v = wt_watches w" "wt_filters v = wt_filters w"
    "set (wt_index v) = index_event (wt_filters w) (path_append (root (ev_wd event)) (ev_name event)) (ev_mask event)
       (set (wt_index w))"
    using deliver_file_event [of w event] Cons.prems x by fastforce
  show ?case using Cons.IH [of v] Cons.prems v by (simp add: x handle_events_first)
qed

section \<open>What goes wrong\<close>

text \<open>Taking a file out of the index leaves the answer that was built before: it still names the file.\<close>

lemma deleted_file_still_listed:
  assumes "wt_cache w = Some s" and "wt_watches w (ev_wd event) = Some (root, watch_flags)"
    and "ev_mask event = IN_DELETE"
  shows "\<exists>w'. deliver_event n k event w = Inr w' \<and> path_append root (ev_name event) \<notin> set (wt_index w') \<and> fst (index_str k w') = s"
  using assms by (simp add: deliver_event_def watch_callback_def mask_defs watch_flags_def index_str_def)

text \<open>A directory that is renamed, into the tree or out of it, ends the watcher.\<close>

lemma moved_directory_ends:
  assumes "wt_watches w (ev_wd event) = Some (root, watch_flags)"
    and "ev_mask event \<in> {IN_MOVED_FROM OR IN_ISDIR, IN_MOVED_TO OR IN_ISDIR}"
  shows "deliver_event n k event w = Inl (Runtime_error ''not handled'')"
  using assms by (elim insertE emptyE) (simp_all add: deliver_event_def watch_callback_def mask_defs watch_flags_def)

text \<open>So does a new directory that is gone before it is watched.\<close>

lemma vanished_directory_ends:
  assumes "wt_watches w (ev_wd event) = Some (root, watch_flags)" and "ev_mask event = IN_CREATE OR IN_ISDIR"
    and "we_watch k (path_append root (ev_name event)) = Inl err"
  shows "deliver_event (Suc n) k event w = Inl err"
  using assms by (simp add: deliver_event_def watch_callback_def mask_defs watch_flags_def add_watch_def)

section \<open>A small tree\<close>

definition small_tree :: watch_env where
  "small_tree = \<lparr>we_disk = [''/w'' \<mapsto> Directory, ''/w/d'' \<mapsto> Directory, ''/w/a.c'' \<mapsto> Regular [] 420,
       ''/w/d/b.c'' \<mapsto> Regular [] 420, ''/w/d/o'' \<mapsto> Regular [] 420, ''/f'' \<mapsto> Regular ''.c'' 420],
     we_listing = (\<lambda>p. if p = ''/w'' then Inr [''a.c'', ''d''] else if p = ''/w/d'' then Inr [''b.c'', ''o'']
       else Inl (Unix_error ''fdopendir'')),
     we_watch = (\<lambda>p. if p = ''/w'' then Inr 1 else if p = ''/w/d'' then Inr 2 else Inl (Unix_error ''inotify_add_watch'')),
     we_order = (\<lambda>xs. xs), we_socket = Inr 3, we_inotify = Inr 4, we_bind = (\<lambda>_. Inr ()), we_listen = Inr (), we_accept = Inr 7, we_accepts = length, we_events = []\<rparr>"

lemma small_tree_directories: "exists_and_is_directory p (we_disk small_tree) \<Longrightarrow> p = ''/w'' \<or> p = ''/w/d''"
  by (simp add: small_tree_def exists_and_is_directory_def sys_stat_def split: if_splits)

theorem scan_finds_files_witness:
  "\<exists>w. scan_directory 3 small_tree ''/w'' (new_watcher [''.c'']) = Inr w \<and>
     set (wt_index w) = {p. file_below small_tree ''/w'' p \<and> list_ex (name_ends_with p) [''.c'']} \<and>
     (if length ''s'' < 108 \<and> \<not> isl (we_socket small_tree) \<and> \<not> isl (we_inotify small_tree) \<and> \<not> isl (we_bind small_tree ''s'') \<and>
         \<not> isl (we_listen small_tree)
      then \<exists>ps. construct_watcher 3 small_tree ''/w'' [''.c''] ''s'' = Inr (ps, w)
      else isl (construct_watcher 3 small_tree ''/w'' [''.c''] ''s''))"
proof (rule scan_finds_files [where depth = "\<lambda>p. if p = ''/w'' then 1 else 0"])
  show "\<exists>wd. we_watch small_tree p = Inr wd" if "exists_and_is_directory p (we_disk small_tree)" for p
    using small_tree_directories [OF that] by (auto simp: small_tree_def)
  show "\<exists>es. we_listing small_tree p = Inr es" if "exists_and_is_directory p (we_disk small_tree)" for p
    using small_tree_directories [OF that] by (auto simp: small_tree_def)
  show "(if path_append p e = ''/w'' then 1 else 0 :: nat) < (if p = ''/w'' then 1 else 0)"
    if "exists_and_is_directory p (we_disk small_tree)" "we_listing small_tree p = Inr es" "e \<in> set es"
      "exists_and_is_directory (path_append p e) (we_disk small_tree)" for p es e
    using small_tree_directories [OF that(1)] that(2-4)
    by (auto simp: small_tree_def path_append_def exists_and_is_directory_def sys_stat_def)
qed (simp_all add: small_tree_def exists_and_is_directory_def sys_stat_def)

definition small_round :: "watch_env \<times> poll_kernel" where
  "small_round = (small_tree, \<lambda>fd. \<lparr>fs_readable = (fd = 3), fs_writable = False, fs_error = False\<rparr>)"

definition watch_words :: "string list" where
  "watch_words = [''dir-watcher'', ''/w'', ''/f'', ''s'']"

lemma small_run: "map_sum id (\<lambda>st. (wt_index (snd st), wt_answers (snd st), map_sum id (\<lambda>_. ()) (answer small_tree (snd st))))
    (watch_main 3 Inr small_tree [small_round] watch_words) =
  Inr ([''/w/d/b.c'', ''/w/a.c''], [([''/w/d/b.c'', ''/w/a.c''], ''/w/d/b.c'' @ [newline] @ ''/w/a.c'' @ [newline])], Inr ())"
  by code_simp

theorem watcher_answers_witness:
  "\<exists>ps w w'. watch_main 3 Inr small_tree [small_round] watch_words = Inr (ps, w) \<and> answer small_tree w = Inr w' \<and>
     wt_answers w \<noteq> [] \<and> wt_answers w' \<noteq> wt_answers w \<and>
     (\<exists>filters. \<forall>(index, sent) \<in> set (wt_answers w'). \<exists>xs. sent = answer_lines xs \<and>
       set index \<subseteq> set xs \<and> (\<forall>p \<in> set xs. list_ex (name_ends_with p) filters))"
proof -
  obtain ps w where run: "watch_main 3 Inr small_tree [small_round] watch_words = Inr (ps, w)"
      "wt_index w \<noteq> []" "wt_answers w \<noteq> []" "map_sum id (\<lambda>_. ()) (answer small_tree w) = Inr ()"
    using small_run by (cases "watch_main 3 Inr small_tree [small_round] watch_words") auto
  then obtain w' where ask: "answer small_tree w = Inr w'" by (cases "answer small_tree w") auto
  have order: "order_ok small_tree" by (simp add: order_ok_def small_tree_def)
  have "k' = small_tree" if "k' \<in> set (map fst [small_round])" for k' using that by (simp add: small_round_def)
  with order have rounds_ok: "order_ok k'" if "k' \<in> set (map fst [small_round])" for k' using that by metis
  note answers = watcher_answers [OF run(1) rounds_ok order ask]
  then have "wt_answers w' \<noteq> wt_answers w" using run(2) by (auto split: if_splits)
  with answers show ?thesis using run(1,3) ask by blast
qed

end
