(* ===== verification/DepGen.thy ===== *)
theory DepGen
  imports GccModel Execute Answers
begin

text \<open>
  \<open>src/models/generate-deps.cc\<close>: the program of a deferred preprocessing thunk. Inside its execution it
  rebuilds the files of the compilation under a directory of its own, asks the preprocessor for the dependencies
  and leaves as its output the thunk that preprocesses with exactly these. The files are those of
  \<open>Execute\<close>, a disk and the links over it; relative names stand for files of the working directory.
\<close>

record depgen_env =
  dg_gcc :: gcc_env
  dg_extract :: "string list \<Rightarrow> fsys \<Rightarrow> fsys res"
  dg_wordexp :: "string \<Rightarrow> string list option"

definition GG_SYSROOT_PREFIX :: string where "GG_SYSROOT_PREFIX = ''./__gg_sysroot__''"

section \<open>Names and the working directory\<close>

definition at_cwd :: "string \<Rightarrow> string \<Rightarrow> string" where
  "at_cwd cwd p = (if is_absolute p then p else lexically_normal (path_append cwd p))"

definition in_directory :: "string \<Rightarrow> disk \<Rightarrow> disk" where
  "in_directory cwd d p = d (at_cwd cwd p)"

text \<open>A call in that directory; of what it changes the absolute names count.\<close>

definition call_in :: "string \<Rightarrow> (disk \<Rightarrow> ('a \<times> disk) res) \<Rightarrow> fsys \<Rightarrow> ('a \<times> fsys) res" where
  "call_in cwd act =
     on_disk (\<lambda>d. bind_res (act (in_directory cwd d)) (\<lambda>(a, d'). Inr (a, \<lambda>p. if is_absolute p then d' p else d p)))"

definition make_directories :: "string \<Rightarrow> fsys \<Rightarrow> fsys res" where
  "make_directories p f =
     bind_res (on_disk (\<lambda>d. bind_res (create_directories p d) (\<lambda>d'. Inr ((), d'))) f) (\<lambda>(_, f'). Inr f')"

definition remove_directory :: "string \<Rightarrow> fsys \<Rightarrow> fsys res" where
  "remove_directory dir f =
     (if seen f dir \<noteq> Some Directory then Inl (Unix_error ''open'')
      else Inr \<lparr>fs_disk = (\<lambda>p. if p = dir \<or> prefix (dir @ ''/'') p then None else fs_disk f p),
                fs_links = (\<lambda>p. if p = dir \<or> prefix (dir @ ''/'') p then None else fs_links f p)\<rparr>)"

section \<open>The parts of the program\<close>

definition canonicalize_args :: "nat \<Rightarrow> depgen_env \<Rightarrow> string \<Rightarrow> string list \<Rightarrow> disk \<Rightarrow> string list res" where
  "canonicalize_args n de sysroot args d =
     bind_res (gcc_arguments_of n d (dg_wordexp de) False (Some sysroot) args) (\<lambda>a. Inr (ga_args a))"

definition extract_args :: "string \<Rightarrow> string \<Rightarrow> string \<Rightarrow> string list" where
  "extract_args gg_dir sysroot tarball =
     [''/bin/tar'', ''xf'', blob gg_dir tarball, ''-C'', sysroot, ''-I'', ''/bin/gzip'']"

definition prepare_include_path :: "depgen_env \<Rightarrow> string \<Rightarrow> string \<Rightarrow> string list \<Rightarrow> fsys \<Rightarrow> fsys res" where
  "prepare_include_path de gg_dir sysroot tarballs f =
     bind_res (make_directories sysroot f)
       (fold_res (\<lambda>tarball. dg_extract de (extract_args gg_dir sysroot tarball)) tarballs)"

definition GGHASH_PREFIX :: string where "GGHASH_PREFIX = ''// GGHASH:''"

text \<open>The buffer is not initialised: of a file that ends before the comparison is decided, or before the hash is
  complete, the code reads what the buffer held before.\<close>

definition get_hash :: "world \<Rightarrow> string \<Rightarrow> disk \<Rightarrow> string res" where
  "get_hash w file_name d =
     (case d file_name of
        Some (Regular c _) \<Rightarrow>
          if starts_with GGHASH_PREFIX c then
            (if length c < length GGHASH_PREFIX + hash_length then Inl Undefined_behaviour
             else Inr (take hash_length (drop (length GGHASH_PREFIX) c)))
          else if starts_with c GGHASH_PREFIX then Inl Undefined_behaviour
          else file_force (wd_sha256 w) file_name None d
      | _ \<Rightarrow> Inl Undefined_behaviour)"

text \<open>The compiler's words from the thunk's: the mode comes from the first, the second, the specs, is dropped.\<close>

definition depgen_mode :: "gcc_env \<Rightarrow> string list \<Rightarrow> operation_mode res" where
  "depgen_mode g args =
     bind_res (program_data g ''gcc'') (\<lambda>gcc. Inr (if hd args = fd_filename gcc then GCC_mode else GXX_mode))"

definition without_specs :: "string list \<Rightarrow> string list res" where
  "without_specs args = (if length args < 2 then Inl Undefined_behaviour else Inr (hd args # drop 2 args))"

definition put_file_in_place :: "string \<Rightarrow> string \<Rightarrow> string \<Rightarrow> data_item \<Rightarrow> fsys \<Rightarrow> fsys res" where
  "put_file_in_place gg_dir sysroot working_directory value f =
     (case value of (h, name) \<Rightarrow>
        if length name = 0 \<or> starts_with ''/__gg'' name then Inr f
        else let filepath = (if is_absolute name then path_append sysroot name else name);
                 here = at_cwd working_directory filepath
             in bind_res (roost_dirname filepath) (\<lambda>dir.
                bind_res (make_directories (at_cwd working_directory dir) f) (\<lambda>f1.
                bind_res (if path_exists here (seen f1) then fs_remove here f1 else Inr f1) (fs_symlink (blob gg_dir h) here))))"

definition plain_envars :: "string list \<Rightarrow> string list" where
  "plain_envars = filter (\<lambda>e. \<not> starts_with ''_GG'' e)"

definition kept_values :: "string list \<Rightarrow> data_list \<Rightarrow> data_list" where
  "kept_values tarballs values =
     filter (\<lambda>(_, name). length name = 0 \<or> name = ''/__gg__/gcc-specs'') (fold mm_erase tarballs values)"

definition dependency_path :: "string \<Rightarrow> string \<Rightarrow> string" where
  "dependency_path sysroot dep =
     lexically_normal (if starts_with sysroot dep then drop (length sysroot) dep else dep)"

definition add_dependency :: "world \<Rightarrow> string \<Rightarrow> disk \<Rightarrow> string \<Rightarrow> data_list \<Rightarrow> data_list res" where
  "add_dependency w sysroot d dep values =
     bind_res (get_hash w dep d) (\<lambda>h. Inr (mm_insert h (dependency_path sysroot dep) values))"

definition new_thunk_of :: "thunk \<Rightarrow> string \<Rightarrow> data_list \<Rightarrow> thunk res" where
  "new_thunk_of t gcc_hash values =
     bind_res (thunk_of_lists \<lparr>fn_hash = gcc_hash, fn_args = fn_args (th_function t),
                               fn_envars = plain_envars (fn_envars (th_function t))\<rparr>
                 values [] (mm_erase (fn_hash (th_function t)) (th_executables t)) [''output'']) (\<lambda>u.
       Inr (set_timeout PREPROCESS_TIMEOUT u))"

section \<open>The program\<close>

record depgen_task =
  dt_working_directory :: string
  dt_tarballs :: "string list"
  dt_input :: string
  dt_target :: string
  dt_gcc_hash :: string
  dt_cc1_name :: string
  dt_cc1_hash :: string

definition depgen_task_of :: "(string \<rightharpoonup> string) \<Rightarrow> depgen_task res" where
  "depgen_task_of environ =
     bind_res (safe_getenv environ ''_GG_WORKING_DIRECTORY'') (\<lambda>wd.
     bind_res (safe_getenv environ ''_GG_INCLUDE_TARBALLS'') (\<lambda>tarballs.
     bind_res (safe_getenv environ ''_GG_INPUT_NAME'') (\<lambda>input.
     bind_res (safe_getenv environ ''_GG_TARGET_NAME'') (\<lambda>target.
     bind_res (safe_getenv environ ''_GG_GCC_HASH'') (\<lambda>gcc_hash.
     bind_res (safe_getenv environ ''_GG_CC1_NAME'') (\<lambda>cc1_name.
     bind_res (safe_getenv environ ''_GG_CC1_HASH'') (\<lambda>cc1_hash.
       Inr \<lparr>dt_working_directory = wd, dt_tarballs = split tarballs '':'', dt_input = input, dt_target = target,
            dt_gcc_hash = gcc_hash, dt_cc1_name = cc1_name, dt_cc1_hash = cc1_hash\<rparr>)))))))"

text \<open>The files of the compilation: the compiler, the headers from the archives, the inputs of the thunk.\<close>

definition build_sysroot :: "depgen_env \<Rightarrow> string \<Rightarrow> string \<Rightarrow> string \<Rightarrow> string \<Rightarrow> depgen_task \<Rightarrow> thunk \<Rightarrow> fsys \<Rightarrow> fsys res" where
  "build_sysroot de gg_dir sysroot working_directory gcc_path dt t f =
     bind_res (make_directories working_directory f) (\<lambda>f1.
     bind_res (make_directories (path_append sysroot ''gccbin'') f1) (\<lambda>f2.
     bind_res (fs_symlink (blob gg_dir (dt_gcc_hash dt)) gcc_path f2) (\<lambda>f3.
     bind_res (fs_symlink (blob gg_dir (dt_cc1_hash dt))
                 (path_append (path_append sysroot ''gccbin'') (dt_cc1_name dt)) f3) (\<lambda>f4.
     bind_res (prepare_include_path de gg_dir sysroot (dt_tarballs dt) f4)
       (fold_res (put_file_in_place gg_dir sysroot working_directory) (th_values t))))))"

definition depgen_world :: "gcc_env \<Rightarrow> string \<Rightarrow> world" where
  "depgen_world g gg_dir =
     (ge_world g)\<lparr>wd_gg_dir := gg_dir, wd_environ := (wd_environ (ge_world g))(''GG_DIR'' \<mapsto> gg_dir)\<rparr>"

definition work_path :: "string \<Rightarrow> depgen_task \<Rightarrow> string" where
  "work_path sysroot dt = path_append sysroot (dt_working_directory dt)"

definition gcc_link :: "string \<Rightarrow> operation_mode \<Rightarrow> string" where
  "gcc_link sysroot mode =
     path_append (path_append sysroot ''gccbin'') (case mode of GCC_mode \<Rightarrow> ''gcc'' | GXX_mode \<Rightarrow> ''g++'')"

text \<open>\<open>gcc -M\<close> in the rebuilt tree.\<close>

definition ask_in_sysroot ::
  "gcc_env \<Rightarrow> string \<Rightarrow> string \<Rightarrow> depgen_task \<Rightarrow> operation_mode \<Rightarrow> string list \<Rightarrow> fsys \<Rightarrow> (string list \<times> fsys) res" where
  "ask_in_sysroot g gg_dir sysroot dt mode args =
     call_in (work_path sysroot dt)
       (generate_dependencies_file (g\<lparr>ge_world := depgen_world g gg_dir\<rparr>) mode (dt_input dt) args
          (path_append (ge_cwd g) ''dependencies'') (dt_target dt) False (gcc_link sysroot mode)
          (Some [''PATH='' @ path_append sysroot ''gccbin'']))"

definition write_output :: "world \<Rightarrow> string \<Rightarrow> thunk \<Rightarrow> fsys \<Rightarrow> fsys res" where
  "write_output w path u f =
     bind_res (on_disk (\<lambda>d. bind_res (write_thunk (wd_sha256 w) (wd_encode w) (wd_kernel w) (wd_gg_dir w) (Some path) u d)
                 (\<lambda>(_, _, d'). Inr ((), d'))) f) (\<lambda>(_, f'). Inr f')"

definition depgen_finish ::
  "gcc_env \<Rightarrow> string \<Rightarrow> string \<Rightarrow> depgen_task \<Rightarrow> operation_mode \<Rightarrow> string list \<Rightarrow> thunk \<Rightarrow> fsys \<Rightarrow> fsys res" where
  "depgen_finish g gg_dir sysroot dt mode args t f =
     (let w = depgen_world g gg_dir
      in bind_res (ask_in_sysroot g gg_dir sysroot dt mode args f) (\<lambda>(infiles, f1).
         bind_res (fold_res (add_dependency w sysroot (in_directory (work_path sysroot dt) (seen f1))) infiles
                     (kept_values (dt_tarballs dt) (th_values t))) (\<lambda>values.
         bind_res (new_thunk_of t (dt_gcc_hash dt) values) (\<lambda>u.
         bind_res (remove_directory sysroot f1) (write_output w (path_append (ge_cwd g) ''output'') u)))))"

text \<open>Everything up to the preprocessor, with what the rest needs.\<close>

record depgen_job =
  dj_gg_dir :: string
  dj_thunk :: thunk
  dj_task :: depgen_task
  dj_mode :: operation_mode
  dj_args :: "string list"

definition depgen_prepare :: "nat \<Rightarrow> depgen_env \<Rightarrow> string list \<Rightarrow> fsys \<Rightarrow> (depgen_job \<times> fsys) res" where
  "depgen_prepare n de argv f =
     (if length argv < 2 then Inl (Runtime_error ''usage'')
      else
        let g = dg_gcc de; environ = wd_environ (ge_world g); sysroot = at_cwd (ge_cwd g) GG_SYSROOT_PREFIX in
        bind_res (safe_getenv environ ''__GG_DIR__'') (\<lambda>blobs_dir.
        bind_res (roost_dirname blobs_dir) (\<lambda>gg_dir.
        bind_res (safe_getenv environ ''__GG_THUNK_PATH__'') (\<lambda>thunk_path.
        bind_res (read_thunk (wd_decode (ge_world g)) thunk_path [] (seen f)) (\<lambda>t.
        bind_res (depgen_task_of environ) (\<lambda>dt.
        bind_res (make_directories sysroot f) (\<lambda>f1.
        bind_res (depgen_mode g (fn_args (th_function t))) (\<lambda>mode.
        bind_res (without_specs (fn_args (th_function t))) (\<lambda>args0.
        bind_res (canonicalize_args n de sysroot args0 (in_directory (ge_cwd g) (seen f1))) (\<lambda>args.
        bind_res (build_sysroot de gg_dir sysroot (work_path sysroot dt) (gcc_link sysroot mode) dt t f1) (\<lambda>f2.
          Inr (\<lparr>dj_gg_dir = gg_dir, dj_thunk = t, dj_task = dt, dj_mode = mode, dj_args = args\<rparr>, f2))))))))))))"

definition depgen_main :: "nat \<Rightarrow> depgen_env \<Rightarrow> string list \<Rightarrow> fsys \<Rightarrow> fsys res" where
  "depgen_main n de argv f =
     (let g = dg_gcc de; sysroot = at_cwd (ge_cwd g) GG_SYSROOT_PREFIX
      in bind_res (depgen_prepare n de argv f) (\<lambda>(j, f2).
           depgen_finish g (dj_gg_dir j) sysroot (dj_task j) (dj_mode j) (dj_args j) (dj_thunk j) f2))"

section \<open>The thunk that is left\<close>

lemma on_disk_new:
  assumes "on_disk act f = Inr (a, f')" and "act (seen f) = Inr (a, d')" and "d' p \<noteq> seen f p"
  shows "seen f' p = d' p"
proof -
  have f': "fs_links f' p = None" "fs_disk f' p = d' p" using assms by (auto simp: on_disk_def)
  have "follow 40 (fs_links f') p = Some p" by (subst follow.simps) (simp add: f'(1))
  then show ?thesis by (simp add: seen_def f'(2))
qed

lemma set_fold_mm_erase: "set (fold mm_erase ks m) = {x \<in> set m. fst x \<notin> set ks}"
  by (induction ks arbitrary: m) (auto simp: set_mm_erase)

lemma set_kept_values: "set (kept_values tarballs values) =
  {(h, name) \<in> set values. h \<notin> set tarballs \<and> (name = [] \<or> name = ''/__gg__/gcc-specs'')}"
  by (auto simp: kept_values_def set_fold_mm_erase)

text \<open>The dependencies that were asked for, by their hashes and by their names without the directory.\<close>

definition dependency_data :: "world \<Rightarrow> string \<Rightarrow> disk \<Rightarrow> string list \<Rightarrow> data_item set" where
  "dependency_data w sysroot d infiles = {(h, dependency_path sysroot dep) |h dep. dep \<in> set infiles \<and> get_hash w dep d = Inr h}"

lemma add_dependencies:
  "fold_res (add_dependency w sysroot d) infiles values = Inr values' \<Longrightarrow>
   set values' = set values \<union> dependency_data w sysroot d infiles \<and> (\<forall>dep \<in> set infiles. \<exists>h. get_hash w dep d = Inr h)"
proof (induction infiles arbitrary: "values")
  case (Cons dep infiles)
  from Cons.prems obtain h where h: "get_hash w dep d = Inr h"
    and rest: "fold_res (add_dependency w sysroot d) infiles (mm_insert h (dependency_path sysroot dep) values) = Inr values'"
    by (auto simp: add_dependency_def [of _ _ _ dep])
  from Cons.IH [OF rest] h show ?case by (auto simp: dependency_data_def)
qed (simp add: dependency_data_def)

lemma new_thunk_of_Inr:
  assumes "new_thunk_of t gcc_hash values = Inr u"
  shows "th_function u = \<lparr>fn_hash = gcc_hash, fn_args = fn_args (th_function t),
      fn_envars = filter (\<lambda>e. \<not> starts_with ''_GG'' e) (fn_envars (th_function t))\<rparr>"
    and "set (th_values u) = set values" and "th_thunks u = []" and "th_outputs u = [''output'']" and "th_hash u = None"
    and "set (th_executables u) = {x \<in> set (th_executables t). fst x \<noteq> fn_hash (th_function t)}"
  using assms by (auto simp: new_thunk_of_def thunk_of_lists_def checked_def set_timeout_def plain_envars_def set_mm_erase)

lemma write_output_read:
  assumes run: "write_output w p u f = Inr f'" and codec: "codec_ok (wd_encode w) (wd_decode w)"
    and plain: "thunk_plain u" and new: "seen f p = None" and "th_hash u = None"
  shows "read_thunk (wd_decode w) p [] (seen f') = Inr u"
proof -
  let ?act = "\<lambda>d. bind_res (write_thunk (wd_sha256 w) (wd_encode w) (wd_kernel w) (wd_gg_dir w) (Some p) u d)
    (\<lambda>(_, _, d'). Inr ((), d'))"
  from run obtain a where act: "on_disk ?act f = Inr (a, f')" by (auto simp: write_output_def)
  then obtain h t' d' where t': "write_thunk (wd_sha256 w) (wd_encode w) (wd_kernel w) (wd_gg_dir w) (Some p) u (seen f) = Inr (h, t', d')"
    by (auto simp: on_disk_def)
  then obtain bytes where bytes: "wd_encode w (thunk_to_protobuf u) = Some bytes"
    and d': "d' = (seen f)(p \<mapsto> Regular (MAGIC_NUMBER @ bytes) 256)"
    by (rule write_thunk_Inr) (simp add: target_path_def new)
  have "seen f' p = d' p" by (rule on_disk_new [OF act, of d']) (simp add: t', simp add: d' new)
  moreover have "wd_decode w bytes = thunk_to_protobuf u" using codec bytes by (simp add: codec_ok_def)
  ultimately show ?thesis using assms(5) by (simp add: read_thunk_def d' protobuf_roundtrip_plain [OF plain])
qed

lemma new_thunk_of_plain:
  assumes "new_thunk_of t gcc_hash values = Inr u" and "keys_plain values" and "keys_plain (th_executables t)"
  shows "thunk_plain u"
  using assms
  by (auto simp: new_thunk_of_def thunk_of_lists_def checked_def throw_if_error_def set_timeout_def set_mm_erase thunk_plain_def
      thunk_ok_def keys_plain_def PREPROCESS_TIMEOUT_def LONG_TIMEOUT_def split: if_splits)

text \<open>C40: the thunk that the deferred preprocessing leaves. When \<open>generate-deps\<close> ends without an error, the thunk \<open>t\<close>
  that it was started for has been read, and every dependency the preprocessor has named has a hash. What is read back from
  the output file is then a thunk that runs the compiler with the words of \<open>t\<close> in its environment less the variables
  of gg, without the program \<open>generate-deps\<close> itself; its inputs are the nameless inputs and the specs of \<open>t\<close> except
  the archives, and the dependencies under their names outside the rebuilt tree. This needs that no file
  \<open>output\<close> is there when the thunk is written (a file that is there is kept), that no hash has the character \<open>=\<close>
  in it (the stored form of a thunk separates names by it), and that protocol buffers decode what they encode.\<close>

theorem depgen_output:
  assumes run: "depgen_main n de argv f = Inr f'"
    and g: "g = dg_gcc de" and sysroot: "sysroot = at_cwd (ge_cwd g) GG_SYSROOT_PREFIX"
    and prepared: "depgen_prepare n de argv f = Inr (j, f2)"
    and asked: "ask_in_sysroot g (dj_gg_dir j) sysroot (dj_task j) (dj_mode j) (dj_args j) f2 = Inr (infiles, f3)"
    and d: "d = in_directory (work_path sysroot (dj_task j)) (seen f3)"
    and removed: "remove_directory sysroot f3 = Inr f4" and new: "seen f4 (path_append (ge_cwd g) ''output'') = None"
    and codec: "codec_ok (wd_encode (ge_world g)) (wd_decode (ge_world g))"
    and keys: "keys_plain (th_values (dj_thunk j))" "keys_plain (th_executables (dj_thunk j))"
      "\<forall>dep \<in> set infiles. \<forall>h. get_hash (depgen_world g (dj_gg_dir j)) dep d = Inr h \<longrightarrow> CHR ''='' \<notin> set h"
  shows "\<exists>thunk_path u. wd_environ (ge_world g) ''__GG_THUNK_PATH__'' = Some thunk_path \<and>
    read_thunk (wd_decode (ge_world g)) thunk_path [] (seen f) = Inr (dj_thunk j) \<and>
    depgen_task_of (wd_environ (ge_world g)) = Inr (dj_task j) \<and>
    (\<forall>dep \<in> set infiles. \<exists>h. get_hash (depgen_world g (dj_gg_dir j)) dep d = Inr h) \<and>
    read_thunk (wd_decode (ge_world g)) (path_append (ge_cwd g) ''output'') [] (seen f') = Inr u \<and>
    th_function u = \<lparr>fn_hash = dt_gcc_hash (dj_task j), fn_args = fn_args (th_function (dj_thunk j)),
      fn_envars = filter (\<lambda>e. \<not> starts_with ''_GG'' e) (fn_envars (th_function (dj_thunk j)))\<rparr> \<and>
    set (th_values u) = {(h, name) \<in> set (th_values (dj_thunk j)).
        h \<notin> set (dt_tarballs (dj_task j)) \<and> (name = [] \<or> name = ''/__gg__/gcc-specs'')} \<union>
      dependency_data (depgen_world g (dj_gg_dir j)) sysroot d infiles \<and>
    set (th_executables u) = {x \<in> set (th_executables (dj_thunk j)). fst x \<noteq> fn_hash (th_function (dj_thunk j))} \<and>
    th_thunks u = [] \<and> th_outputs u = [''output'']"
proof -
  let ?t = "dj_thunk j" and ?dt = "dj_task j" and ?w = "depgen_world g (dj_gg_dir j)"
  have start: "\<exists>thunk_path. wd_environ (ge_world g) ''__GG_THUNK_PATH__'' = Some thunk_path \<and>
      read_thunk (wd_decode (ge_world g)) thunk_path [] (seen f) = Inr ?t" "depgen_task_of (wd_environ (ge_world g)) = Inr ?dt"
    using prepared by (auto simp: depgen_prepare_def Let_def g safe_getenv_def split: if_splits option.splits)
  have "depgen_finish g (dj_gg_dir j) sysroot ?dt (dj_mode j) (dj_args j) ?t f2 = Inr f'"
    using run prepared by (simp add: depgen_main_def Let_def g sysroot)
  then obtain vals u where
    folded: "fold_res (add_dependency ?w sysroot d) infiles (kept_values (dt_tarballs ?dt) (th_values ?t)) = Inr vals"
    and u: "new_thunk_of ?t (dt_gcc_hash ?dt) vals = Inr u"
    and written: "write_output ?w (path_append (ge_cwd g) ''output'') u f4 = Inr f'"
    by (auto simp: depgen_finish_def Let_def asked d removed)
  note vals = add_dependencies [OF folded] set_kept_values [of "dt_tarballs ?dt" "th_values ?t"]
  have "keys_plain vals"
    using vals keys(1,3) by (fastforce simp: keys_plain_def dependency_data_def)
  then have plain: "thunk_plain u" by (rule new_thunk_of_plain [OF u _ keys(2)])
  have w: "wd_decode ?w = wd_decode (ge_world g)" "wd_encode ?w = wd_encode (ge_world g)"
    by (simp_all add: depgen_world_def)
  have "read_thunk (wd_decode (ge_world g)) (path_append (ge_cwd g) ''output'') [] (seen f') = Inr u"
    using write_output_read [OF written _ plain new new_thunk_of_Inr(5) [OF u]] codec by (simp add: w)
  moreover obtain thunk_path where "wd_environ (ge_world g) ''__GG_THUNK_PATH__'' = Some thunk_path"
    "read_thunk (wd_decode (ge_world g)) thunk_path [] (seen f) = Inr ?t" using start(1) by blast
  ultimately show ?thesis
    using start(2) vals new_thunk_of_Inr [OF u] by (intro exI [of _ thunk_path] exI [of _ u]) simp
qed

section \<open>What goes unnoticed\<close>

lemma gcc_name: "program_data g ''gcc'' = Inr gcc \<Longrightarrow> fd_filename gcc = ''/__gg__/gcc''"
proof -
  have "lexically_normal (GG_BIN_PREFIX @ ''/'' @ ''gcc'') = ''/__gg__/gcc''" by code_simp
  then show "program_data g ''gcc'' = Inr gcc \<Longrightarrow> fd_filename gcc = ''/__gg__/gcc''"
    by (auto simp: program_data_def split: if_splits)
qed

text \<open>The model of gcc has put the name of this program where the mode is looked for, so the mode is always that of g++.\<close>

lemma deferred_mode_is_gxx:
  assumes "program_data g ''gcc'' = Inr gcc" and "args \<noteq> []"
  shows "depgen_mode g (args[0 := ''/__gg__/generate-deps'']) = Inr GXX_mode"
  using assms gcc_name [OF assms(1)] by (cases args) (simp_all add: depgen_mode_def)

text \<open>The environment that the model of gcc adds for this program is what the program takes away.\<close>

lemma deferred_environment:
  assumes "deferred_depgen fuel g a input includes gcc_data cc1_program target d = Inr (envars, rest)"
  shows "plain_envars (gcc_envars @ envars) = gcc_envars"
  using assms
  by (auto simp: deferred_depgen_def Let_def create_envar_def plain_envars_def gcc_envars_def starts_with_def GG_BIN_PREFIX_def
      split: prod.splits)

lemma empty_header_undefined:
  assumes "d p = Some (Regular [] m)"
  shows "get_hash w p d = Inl Undefined_behaviour"
  using assms by (simp add: get_hash_def starts_with_def GGHASH_PREFIX_def)

text \<open>Without archives their list still has one entry, the empty name, and \<open>tar\<close> is run on the directory of the objects.\<close>

lemma no_archives_extracts_directory:
  "prepare_include_path de gg_dir sysroot (split [] '':'') f =
     bind_res (make_directories sysroot f) (dg_extract de (extract_args gg_dir sysroot []))"
  by (simp add: prepare_include_path_def split_def split_indices.simps bind_res_def split: sum.splits)

section \<open>A small compilation\<close>

lemma on_disk_same:
  assumes "act (seen f) = Inr (a, seen f)"
  shows "on_disk act f = Inr (a, f)"
proof -
  have "fs_links f p = None \<Longrightarrow> seen f p = fs_disk f p" for p by (simp add: seen_def follow.simps)
  then have "(\<lambda>p. if fs_links f p = None then seen f p else fs_disk f p) = fs_disk f"
    and "(\<lambda>p. if fs_links f p = None then None else fs_links f p) = fs_links f" by auto
  then show ?thesis using assms by (simp add: on_disk_def)
qed

fun all_there :: "string \<Rightarrow> string list \<Rightarrow> disk \<Rightarrow> bool" where
  "all_there parent [] d = True"
| "all_there parent (c # cs) d =
     (if c = [] then all_there parent cs d
      else d (child_path parent c) = Some Directory \<and> all_there (child_path parent c) cs d)"

lemma create_directories_there: "all_there parent cs d \<Longrightarrow> create_directories_relative parent cs d = Inr d"
  by (induction parent cs d rule: all_there.induct) (auto split: if_splits)

lemma make_directories_there:
  assumes "path_components p = [] # c # cs" and "all_there [] (''/'' # c # cs) (seen f)"
  shows "make_directories p f = Inr f"
proof -
  have "create_directories p (seen f) = Inr (seen f)"
    using create_directories_there [OF assms(2)] assms(1) by (simp add: create_directories_def Let_def)
  then show ?thesis by (simp add: make_directories_def on_disk_same)
qed

definition deferred_words :: "string list" where
  "deferred_words = [''/__gg__/generate-deps'', ''-specs=/__gg__/gcc-specs'', ''-E'', ''x.c'']"

definition deferred_thunk :: thunk where
  "deferred_thunk = \<lparr>th_function = \<lparr>fn_hash = ''Vd'', fn_args = deferred_words, fn_envars = [''PATH=/__gg__'', ''_GG_CC1_NAME=cc1'']\<rparr>,
     th_values = [(''Vs'', ''/__gg__/gcc-specs'')], th_thunks = [], th_executables = [(''Vd'', ''/__gg__/generate-deps''), (''Vg'', ''/__gg__/gcc'')],
     th_outputs = [''output'', ''dependencies''], th_links = [], th_timeout = 0, th_hash = None\<rparr>"

definition depgen_environ :: "string \<rightharpoonup> string" where
  "depgen_environ = [''__GG_DIR__'' \<mapsto> ''/g/blobs'', ''__GG_THUNK_PATH__'' \<mapsto> ''/g/blobs/T'', ''_GG_WORKING_DIRECTORY'' \<mapsto> ''/p'',
     ''_GG_INCLUDE_TARBALLS'' \<mapsto> ''Vt'', ''_GG_INPUT_NAME'' \<mapsto> ''x.c'', ''_GG_TARGET_NAME'' \<mapsto> ''t'', ''_GG_GCC_HASH'' \<mapsto> ''Vg'',
     ''_GG_CC1_NAME'' \<mapsto> ''cc1'', ''_GG_CC1_HASH'' \<mapsto> ''Vc'']"

definition header_hash :: string where "header_hash = replicate hash_length (CHR ''h'')"

definition depgen_left :: thunk where
  "depgen_left = \<lparr>th_function = \<lparr>fn_hash = ''Vg'', fn_args = deferred_words, fn_envars = [''PATH=/__gg__'']\<rparr>,
     th_values = [(''Vs'', ''/__gg__/gcc-specs''), (header_hash, ''/h.h'')], th_thunks = [], th_executables = [(''Vg'', ''/__gg__/gcc'')],
     th_outputs = [''output''], th_links = [], th_timeout = PREPROCESS_TIMEOUT, th_hash = None\<rparr>"

text \<open>The preprocessor names one dependency, a header from the archive whose hash stands in its first line.\<close>

definition depgen_gcc :: gcc_env where
  "depgen_gcc = \<lparr>ge_world = toy_world\<lparr>wd_environ := depgen_environ, 
       wd_encode := (\<lambda>p. if p = thunk_to_protobuf depgen_left then Some ''p'' else None),
       wd_decode := (\<lambda>s. thunk_to_protobuf (if s = ''p'' then depgen_left else deferred_thunk))\<rparr>,
     ge_program_hash = (\<lambda>p. Some ''Vg''), ge_toolchain_path = ''/t'', ge_c_include_path = [], ge_cxx_include_path = [],
     ge_ld_search_path = [], ge_gcc_library_path = [], ge_gcc_install_path = [],
     ge_stat = (\<lambda>_. \<lparr>st_dev = 1, st_ino = 2, st_size = 3, st_mtim = (4, 5), st_ctim = (6, 7)\<rparr>), ge_junk = [],
     ge_run = (\<lambda>args env d. (0, [], d(''/w/dependencies'' \<mapsto> Regular (''t: /w/__gg_sysroot__/h.h'' @ [newline]) 420))),
     ge_realpath = (\<lambda>p d. Inr p), ge_readdir = (\<lambda>p d. Inr []), ge_temp = (\<lambda>p d. p), ge_cwd = ''/w'', ge_blueprint_dir = [],
     ge_tokenizer = (\<lambda>s. Inr (split s '' '')), ge_order = (\<lambda>xs. xs)\<rparr>"

definition depgen_files :: fsys where
  "depgen_files = \<lparr>fs_disk = [''/'' \<mapsto> Directory, ''/w'' \<mapsto> Directory, ''/w/__gg_sysroot__'' \<mapsto> Directory,
       ''/w/__gg_sysroot__/p'' \<mapsto> Directory, ''/w/__gg_sysroot__/gccbin'' \<mapsto> Directory,
       ''/w/__gg_sysroot__/h.h'' \<mapsto> Regular (GGHASH_PREFIX @ header_hash) 420, ''/g/blobs/T'' \<mapsto> Regular ''T'' 256],
     fs_links = Map.empty\<rparr>"

definition depgen_toy :: depgen_env where
  "depgen_toy = \<lparr>dg_gcc = depgen_gcc, dg_extract = (\<lambda>_. Inr), dg_wordexp = (\<lambda>_. None)\<rparr>"

definition depgen_built :: fsys where
  "depgen_built = depgen_files\<lparr>fs_links := [''/w/__gg_sysroot__/gccbin/g++'' \<mapsto> ''/g/blobs/Vg'',
     ''/w/__gg_sysroot__/gccbin/cc1'' \<mapsto> ''/g/blobs/Vc'']\<rparr>"

definition depgen_words :: depgen_task where
  "depgen_words = \<lparr>dt_working_directory = ''/p'', dt_tarballs = [''Vt''], dt_input = ''x.c'', dt_target = ''t'',
     dt_gcc_hash = ''Vg'', dt_cc1_name = ''cc1'', dt_cc1_hash = ''Vc''\<rparr>"

lemma depgen_task: "depgen_task_of depgen_environ = Inr depgen_words" by code_simp

lemma depgen_reads: "read_thunk (wd_decode (ge_world depgen_gcc)) ''/g/blobs/T'' [] (seen depgen_files) = Inr deferred_thunk"
  by code_simp

lemma depgen_args:
  "canonicalize_args 1 depgen_toy ''/w/__gg_sysroot__'' [''/__gg__/generate-deps'', ''-E'', ''x.c'']
     (in_directory ''/w'' (seen depgen_files)) = Inr [''-E'', ''x.c'']"
  by code_simp

lemma depgen_finishes:
  "map_sum id (\<lambda>f. read_thunk (wd_decode (ge_world depgen_gcc)) ''/w/output'' [] (seen f))
     (depgen_finish depgen_gcc ''/g'' ''/w/__gg_sysroot__'' depgen_words GXX_mode [''-E'', ''x.c''] deferred_thunk depgen_built) =
   Inr (Inr depgen_left)"
  by code_simp

lemma map_sum_InrD: "map_sum id h r = Inr y \<Longrightarrow> \<exists>x. r = Inr x \<and> h x = y"
  by (cases r) auto

definition depgen_toy_job :: depgen_job where
  "depgen_toy_job = \<lparr>dj_gg_dir = ''/g'', dj_thunk = deferred_thunk, dj_task = depgen_words, dj_mode = GXX_mode,
     dj_args = [''-E'', ''x.c'']\<rparr>"

lemma depgen_prepared:
  "depgen_prepare 1 depgen_toy [''generate-deps'', ''t''] depgen_files = Inr (depgen_toy_job, depgen_built)"
proof -
  have places: "at_cwd ''/w'' GG_SYSROOT_PREFIX = ''/w/__gg_sysroot__''" "work_path ''/w/__gg_sysroot__'' depgen_words = ''/w/__gg_sysroot__/p''"
    "gcc_link ''/w/__gg_sysroot__'' GXX_mode = ''/w/__gg_sysroot__/gccbin/g++''" "roost_dirname ''/g/blobs'' = Inr ''/g''"
    "path_append ''/w/__gg_sysroot__'' ''gccbin'' = ''/w/__gg_sysroot__/gccbin''"
    "path_append ''/w/__gg_sysroot__/gccbin'' ''cc1'' = ''/w/__gg_sysroot__/gccbin/cc1''"
    "path_components ''/w/__gg_sysroot__'' = [] # ''w'' # [''__gg_sysroot__'']"
    "path_components ''/w/__gg_sysroot__/p'' = [] # ''w'' # [''__gg_sysroot__'', ''p'']"
    "path_components ''/w/__gg_sysroot__/gccbin'' = [] # ''w'' # [''__gg_sysroot__'', ''gccbin'']"
    "blob ''/g'' ''Vg'' = ''/g/blobs/Vg''" "blob ''/g'' ''Vc'' = ''/g/blobs/Vc''"
    "all_there [] (''/'' # ''w'' # [''__gg_sysroot__'', ''p'']) (seen depgen_files)"
    "all_there [] (''/'' # ''w'' # [''__gg_sysroot__'', ''gccbin'']) (seen depgen_files)"
    "all_there [] (''/'' # ''w'' # [''__gg_sysroot__'']) (seen depgen_built)"
    "all_there [] (''/'' # ''w'' # [''__gg_sysroot__'']) (seen depgen_files)"
    by code_simp+
  have start: "dg_gcc depgen_toy = depgen_gcc" "wd_environ (ge_world depgen_gcc) = depgen_environ" "ge_cwd depgen_gcc = ''/w''"
    "safe_getenv depgen_environ ''__GG_DIR__'' = Inr ''/g/blobs''" "safe_getenv depgen_environ ''__GG_THUNK_PATH__'' = Inr ''/g/blobs/T''"
    by (simp_all add: depgen_toy_def depgen_gcc_def depgen_environ_def safe_getenv_def)
  have mode: "depgen_mode depgen_gcc deferred_words = Inr GXX_mode"
    and specs: "without_specs deferred_words = Inr [''/__gg__/generate-deps'', ''-E'', ''x.c'']" by code_simp+
  have links: "fs_symlink ''/g/blobs/Vg'' ''/w/__gg_sysroot__/gccbin/g++'' depgen_files =
      Inr (depgen_files\<lparr>fs_links := [''/w/__gg_sysroot__/gccbin/g++'' \<mapsto> ''/g/blobs/Vg'']\<rparr>)"
    "fs_symlink ''/g/blobs/Vc'' ''/w/__gg_sysroot__/gccbin/cc1''
       (depgen_files\<lparr>fs_links := [''/w/__gg_sysroot__/gccbin/g++'' \<mapsto> ''/g/blobs/Vg'']\<rparr>) = Inr depgen_built"
    by (simp_all add: fs_symlink_def depgen_files_def depgen_built_def)
  have built: "build_sysroot depgen_toy ''/g'' ''/w/__gg_sysroot__'' ''/w/__gg_sysroot__/p'' ''/w/__gg_sysroot__/gccbin/g++''
      depgen_words deferred_thunk depgen_files = Inr depgen_built"
    using links make_directories_there [OF places(8,12)] make_directories_there [OF places(9,13)]
      make_directories_there [OF places(7,14)]
    by (simp add: build_sysroot_def places depgen_words_def prepare_include_path_def depgen_toy_def deferred_thunk_def
        put_file_in_place_def starts_with_def)
  have words: "fn_args (th_function deferred_thunk) = deferred_words" by (simp add: deferred_thunk_def)
  show ?thesis
    using make_directories_there [OF places(7,15)] depgen_reads depgen_task mode specs depgen_args built
    by (simp add: depgen_prepare_def start places words depgen_toy_job_def)
qed

lemma depgen_asked:
  "map_sum id (\<lambda>(infiles, f3). (infiles,
       get_hash (depgen_world depgen_gcc ''/g'') ''/w/__gg_sysroot__/h.h''
         (in_directory (work_path ''/w/__gg_sysroot__'' depgen_words) (seen f3)),
       map_sum id (\<lambda>f4. seen f4 ''/w/output'') (remove_directory ''/w/__gg_sysroot__'' f3)))
     (ask_in_sysroot depgen_gcc ''/g'' ''/w/__gg_sysroot__'' depgen_words GXX_mode [''-E'', ''x.c''] depgen_built) =
   Inr ([''/w/__gg_sysroot__/h.h''], Inr header_hash, Inr None)"
  by code_simp

lemma header_hash_plain: "CHR ''='' \<notin> set header_hash"
  by (simp add: header_hash_def)

theorem depgen_output_witness:
  "\<exists>f' u. depgen_main 1 depgen_toy [''generate-deps'', ''t''] depgen_files = Inr f' \<and>
     read_thunk (wd_decode (ge_world depgen_gcc)) ''/w/output'' [] (seen f') = Inr u \<and>
     fn_hash (th_function u) = ''Vg'' \<and> fn_args (th_function u) = deferred_words \<and>
     (header_hash, ''/h.h'') \<in> set (th_values u)"
proof -
  let ?root = "''/w/__gg_sysroot__''"
  have start: "dg_gcc depgen_toy = depgen_gcc" "wd_environ (ge_world depgen_gcc) = depgen_environ" "ge_cwd depgen_gcc = ''/w''"
    by (simp_all add: depgen_toy_def depgen_gcc_def)
  have job: "dj_gg_dir depgen_toy_job = ''/g''" "dj_thunk depgen_toy_job = deferred_thunk" "dj_task depgen_toy_job = depgen_words"
    "dj_mode depgen_toy_job = GXX_mode" "dj_args depgen_toy_job = [''-E'', ''x.c'']"
    by (simp_all add: depgen_toy_job_def)
  have root: "?root = at_cwd (ge_cwd depgen_gcc) GG_SYSROOT_PREFIX" unfolding start by code_simp
  have out: "path_append (ge_cwd depgen_gcc) ''output'' = ''/w/output''" unfolding start by code_simp
  obtain f' where "depgen_finish depgen_gcc ''/g'' ?root depgen_words GXX_mode [''-E'', ''x.c''] deferred_thunk depgen_built = Inr f'"
    using depgen_finishes by (auto dest: map_sum_InrD)
  then have run: "depgen_main 1 depgen_toy [''generate-deps'', ''t''] depgen_files = Inr f'"
    by (simp add: depgen_main_def Let_def start(1) depgen_prepared job del: One_nat_def flip: root)
  from depgen_asked obtain f3 f4 where
    asked: "ask_in_sysroot depgen_gcc ''/g'' ?root depgen_words GXX_mode [''-E'', ''x.c''] depgen_built = Inr ([?root @ ''/h.h''], f3)"
    and h: "get_hash (depgen_world depgen_gcc ''/g'') (?root @ ''/h.h'') (in_directory (work_path ?root depgen_words) (seen f3)) = Inr header_hash"
    and removed: "remove_directory ?root f3 = Inr f4" "seen f4 ''/w/output'' = None"
    by (auto dest!: map_sum_InrD)
  have "thunk_to_protobuf depgen_left \<noteq> thunk_to_protobuf deferred_thunk"
    by (simp add: thunk_to_protobuf_def depgen_left_def deferred_thunk_def)
  then have codec: "codec_ok (wd_encode (ge_world depgen_gcc)) (wd_decode (ge_world depgen_gcc))"
    by (simp add: codec_ok_def depgen_gcc_def)
  have keys: "keys_plain (th_values deferred_thunk)" "keys_plain (th_executables deferred_thunk)"
    by (simp_all add: deferred_thunk_def keys_plain_def)
  have hashes: "\<forall>dep \<in> set [?root @ ''/h.h'']. \<forall>h'. get_hash (depgen_world depgen_gcc ''/g'') dep
      (in_directory (work_path ?root depgen_words) (seen f3)) = Inr h' \<longrightarrow> CHR ''='' \<notin> set h'"
    using h header_hash_plain by (simp only: set_simps) simp
  note left = depgen_output [OF run start(1) [symmetric] root depgen_prepared, unfolded job out,
      OF asked refl removed codec keys hashes]
  then obtain u where u: "read_thunk (wd_decode (ge_world depgen_gcc)) ''/w/output'' [] (seen f') = Inr u"
    "th_function u = \<lparr>fn_hash = dt_gcc_hash depgen_words, fn_args = fn_args (th_function deferred_thunk),
      fn_envars = filter (\<lambda>e. \<not> starts_with ''_GG'' e) (fn_envars (th_function deferred_thunk))\<rparr>"
    and "dependency_data (depgen_world depgen_gcc ''/g'') ?root (in_directory (work_path ?root depgen_words) (seen f3))
        [?root @ ''/h.h''] \<subseteq> set (th_values u)"
    by (elim exE conjE) (rule that, assumption+, simp)
  moreover have "dependency_path ?root (?root @ ''/h.h'') = ''/h.h''" by code_simp
  then have "(header_hash, ''/h.h'') \<in> dependency_data (depgen_world depgen_gcc ''/g'') ?root
      (in_directory (work_path ?root depgen_words) (seen f3)) [?root @ ''/h.h'']"
    unfolding dependency_data_def using h by force
  ultimately have "(header_hash, ''/h.h'') \<in> set (th_values u)" by blast
  then show ?thesis using run u by (auto simp: depgen_words_def deferred_thunk_def)
qed

end
