(* ===== verification/Spec2Isabelle.thy ===== *)
theory Spec2Isabelle
  imports GraphForce HttpParsers Answers MeowLaws StorageLaws ExecuteLaws SandboxLimits SyscallTable GccLaws
    EventLoopLaws Generic MeowWorker ObjectServer KeyValueLaws Tools Watcher DepGen
begin

text \<open>
  A verification library for gg, which runs a build or another batch computation as a graph of small
  sandboxed jobs ("thunks") on many remote workers.

  \<^bold>\<open>The program.\<close> A thunk names its executables, its inputs and its outputs by the hashes of their
  contents; a hash of type \<open>T\<close> names another thunk whose output is meant. All objects are files below
  \<open>.gg/blobs\<close>, the results of jobs are links below \<open>.gg/reductions\<close> (\<open>src/thunk\<close>). The scheduler
  (\<open>Reductor\<close> in \<open>src/execution/reductor.cc\<close>) loads the targets and everything they wait for into an
  execution graph, gives the thunks that wait for nothing to execution engines, and promotes the
  thunks that were waiting when a result arrives. An engine (\<open>engine_*.cc\<close>) runs a thunk in a child
  process or turns it into an HTTP request, signed for the services of Amazon (\<open>src/net\<close>), or hands
  it to a worker that stays connected (\<open>engine_meow.cc\<close>, \<open>src/execution/meow\<close>). The event loop
  (\<open>loop.cc\<close>) delivers answers, ended children and errors to callbacks of the engines, which write the
  results to the store and report to the scheduler. On a worker \<open>gg-execute\<close> fetches the objects of a
  thunk from a storage backend (\<open>src/storage\<close>, \<open>src/net/s3.cc\<close>), runs it and uploads its outputs.

  \<^bold>\<open>Theories, from the bottom.\<close>
  \<^item> \<open>Prelude\<close>: errors as values (\<open>'a res\<close> is \<open>error + 'a\<close>), \<open>bind_res\<close>, \<open>fold_res\<close> and \<open>map_res\<close>, the
    members of \<open>std::string\<close> with their exceptions, decimal and hexadecimal numerals.
  \<^item> \<open>Containers\<close>: \<open>std::multimap\<close> and \<open>std::unordered_set\<close>, the former through an interface locale.
  \<^item> \<open>Tokenize\<close>, \<open>Path\<close>, \<open>Conversions\<close>: \<open>src/util/tokenize.hh\<close>, the pure part of \<open>src/util/path.cc\<close>,
    \<open>src/net/strict_conversions.cc\<close> and the environment.
  \<^item> \<open>FileOps\<close>: the disk is a map from paths to files and directories, a kernel says what can go wrong
    and how writes are cut; \<open>atomic_create\<close> and its relatives are sequences of system calls.
  \<^item> \<open>GGUtils\<close>: \<open>src/thunk/ggutils.cc\<close>, hashes, store paths and the two caches.
  \<^item> \<open>ThunkData\<close>, \<open>ThunkLaws\<close>, \<open>ThunkIO\<close>: \<open>src/thunk/thunk.cc\<close>, \<open>function.cc\<close>, readers, writers,
    placeholders, manifests, the factory.
  \<^item> \<open>Graph\<close>, \<open>GraphLaws\<close>, \<open>GraphForce\<close>: \<open>src/thunk/graph.cc\<close>. \<open>graph_ok\<close> is the invariant: every
    dependency is present, the reverse edges are exactly the edges, names and tags agree.
  \<^item> \<open>Http\<close>, \<open>HttpLaws\<close>, \<open>HttpParsers\<close>: \<open>src/net/http_*.cc\<close>, \<open>chunked_parser.cc\<close>. The sequence parser
    is proved once over the locale \<open>incremental_message\<close> and interpreted for requests and responses.
  \<^item> \<open>Aws\<close>: \<open>src/net/awsv4_sig.cc\<close>, \<open>aws.cc\<close>, \<open>lambda.cc\<close>, the requests of \<open>s3.cc\<close>.
  \<^item> \<open>Engine\<close>, \<open>EngineLaws\<close>: \<open>engine_local.cc\<close>, \<open>engine_gg.cc\<close>, \<open>engine_lambda.cc\<close>, \<open>engine_gcloud.cc\<close>,
    \<open>response.cc\<close>.
  \<^item> \<open>Reductor\<close> and its laws \<open>ReductorLaws\<close>, \<open>Capacity\<close>, \<open>Failures\<close>, \<open>Answers\<close>: \<open>reductor.cc\<close> over the
    events of \<open>loop.cc\<close>.
  \<^item> \<open>Poller\<close>: \<open>src/util/poller.cc\<close>. The owner of the actions is a record of functions on his state; what
    every callback keeps a call keeps, which the locale \<open>poll_owner\<close> proves once.
  \<^item> \<open>SecureSocket\<close>: \<open>src/net/secure_socket.cc\<close> and the state machine of \<open>nb_secure_socket.cc\<close>, over the
    answers OpenSSL may give.
  \<^item> \<open>EventLoop\<close>, \<open>EventLoopLaws\<close>: \<open>loop.cc\<close> and \<open>connection.hh\<close>, as an owner of the poller: connections
    over TCP and TLS, listeners, children, signals, and requests over HTTP with their parsers.
  \<^item> \<open>Meow\<close>, \<open>MeowEngine\<close>, \<open>MeowLaws\<close>: \<open>src/execution/meow\<close> and \<open>engine_meow.cc\<close>.
  \<^item> \<open>Uri\<close>: the address of a storage backend, with a matcher for its regular expression
    (\<open>src/util/uri.cc\<close>).
  \<^item> \<open>Storage\<close>, \<open>StorageLaws\<close>: \<open>src/storage/backend*.cc\<close>, the client of \<open>src/net/s3.cc\<close>, the transfers of
    the scheduler. The threads of the client run one after another; a connection is the list of what
    its reads return, and a loop that waits for more than the list holds gives \<open>Out_of_fuel\<close>.
  \<^item> \<open>KeyValue\<close>, \<open>KeyValueLaws\<close>: \<open>redis.cc\<close> and \<open>jiffy.cc\<close> over a service that stands for the library and its
    server. The locale \<open>object_client\<close> is what a store of objects promises; both clients are instances.
  \<^item> \<open>Execute\<close>, \<open>ExecuteLaws\<close>: \<open>src/frontend/gg-execute.cc\<close> with the log of \<open>src/util/timelog.cc\<close>. The
    files are a disk and the symbolic links over it; what the program of the thunk does, the sandbox,
    the listing of a directory and the clock are fields of \<open>execution_env\<close>.
  \<^item> \<open>Tracer\<close>: \<open>src/trace\<close>, \<open>src/util/child_process.cc\<close>. What \<open>ptrace\<close> and \<open>waitpid\<close> report is a list of
    stops, each with the registers and the memory of the traced thread; a tracer is a state machine over
    them, the flock the map of all tracers. The destructors are part of it: the tracers detach, then every
    child process that runs is hung up and waited for.
  \<^item> \<open>Sandbox\<close>, \<open>SandboxLaws\<close>, \<open>SandboxLimits\<close>: \<open>src/sandbox\<close>, the checks before and after each call as
    callbacks of the tracer, and what they do not prevent.
  \<^item> \<open>SyscallTable\<close>: the generated table \<open>syscalltbl.cc\<close>, all entries; which arguments marked as paths are
    checked, and which calls escape.
  \<^item> \<open>Getopt\<close>: \<open>getopt_long_only\<close> of the C library with its abbreviations, as the models use it.
  \<^item> \<open>GccBase\<close>, \<open>GccArgs\<close>: languages, stages and the command line of gcc (\<open>src/models/gcc-base.cc\<close>,
    \<open>gcc-args.cc\<close>, \<open>src/util/args.cc\<close>).
  \<^item> \<open>GccDeps\<close>: the dependencies of a source file and of a link, with their cache (\<open>preprocessor.cc\<close>,
    \<open>linker-base.cc\<close>). The programs that are run are fields of \<open>gcc_env\<close>, as is the generated toolchain.
  \<^item> \<open>GccModel\<close>, \<open>GccLaws\<close>: \<open>gcc.cc\<close>, \<open>linker.cc\<close>. The inputs, the name of the output and the disk go
    through the stages of each input and the link.

  \<^item> \<open>BinTools\<close>, \<open>BinToolsLaws\<close>: the models \<open>ar.cc\<close>, \<open>ranlib.cc\<close>, \<open>strip.cc\<close>, \<open>nm.cc\<close>, \<open>readelf.cc\<close> and
    \<open>ld.cc\<close>, as folds over what \<open>getopt\<close> returns, with and without the reordering of the words.
  \<^item> \<open>Generic\<close>: \<open>generic.cc\<close> with the description of a command line of \<open>cli_description.cc\<close>.
  \<^item> \<open>DepGen\<close>: \<open>generate-deps.cc\<close>, the program of a deferred preprocessing thunk, over the files and links of
    \<open>Execute\<close>; \<open>tar\<close> and the preprocessor are arguments.
  \<^item> \<open>Watcher\<close>: \<open>dir-watcher.cc\<close> over \<open>src/util/inotify.cc\<close> and the poller. The locale \<open>poll_state\<close> says what
    a poller keeps of its owner's state.
  \<^item> \<open>ExecuteServer\<close>, \<open>ExecuteServerLaws\<close>: \<open>src/frontend/gg-execute-server.cc\<close>, the counterpart of the gg
    engine: parsers and write buffers of the connections, jobs, and the answers built from the cache. Whatever
    handles single requests handles a stream of them (the locale \<open>request_handler\<close>).
  \<^item> \<open>ObjectServer\<close>: \<open>gg-object-server.cc\<close>, the other instance of that locale.
  \<^item> \<open>MeowWorker\<close>: \<open>gg-meow-worker.cc\<close>, the counterpart of the meow engine; what the engine queues is
    followed to the worker's disk, and its report back to the coordinator's cache.
  \<^item> \<open>ForceMain\<close>, \<open>CreateThunk\<close>, \<open>ForceLaws\<close>: the commands \<open>gg-force.cc\<close>, from the options through the
    scheduler to the files that replace the targets, and \<open>gg-create-thunk.cc\<close>.
  \<^item> \<open>Tools\<close>: the interpreter \<open>gg-repl.cc\<close> and the small commands (\<open>gg-collect.cc\<close>, \<open>gg-hash.cc\<close>, \<open>gg-put.cc\<close>,
    \<open>gg-get.cc\<close>, \<open>gg-init.cc\<close>, \<open>gg-infer.cc\<close>, \<open>gg.cc\<close>, \<open>gg-force-and-run.cc\<close>).

  \<^bold>\<open>What the lemmas show.\<close> Store: an object that was written is found under its hash, a crash or a
  short write never leaves a partial object under a final name, an entry of the cache is read back.
  Thunks: every thunk that can be built is read back from its file; an update replaces exactly the
  dependencies it names; the arguments and the sandbox's permissions are those of the thunk. Graph:
  adding targets and forcing thunks keep the invariant, and the runnable thunks reported are those that
  became runnable. HTTP: however the bytes are cut the parser sees the same messages, and what is
  written is read back. Scheduler: no runnable thunk is forgotten, a run that has not finished has
  a thunk queued, or running and queued again when its time is up, no engine ever has more jobs than it takes, and what happens to failures, to timeouts and to
  lost connections. Event loop: a request is answered at most once whatever the kernel reports, the
  bytes given to a TLS connection leave it in order, and which reports end the program or are lost. Meow: the engine is a refinement of an abstract pool of workers. Storage: every
  object is in exactly one batch of one thread, what is fetched from Redis is what was uploaded, and what becomes of failures. Execution: after a
  successful run the cache and the store hold every output; cleaning up never removes an input or a directory. Sandbox:
  a traced program is never inside a call that was not checked, what escapes the checks, and in which order the
  processes are let go and hung up after a violation. Gcc: the
  inputs of a command line stand where their numbers say, the words of a stage are the options with its
  input, the stages fit each other, the link gets objects only, and where default names are lost. The other
  models: which words reach the thunk or the linker's question, which input stands at which place, and which options get
  lost; the thunk left by the deferred
  preprocessing has the dependencies as its inputs. Directory watcher: the first walk finds exactly the files
  asked for, every answer has every file of the index of its time, and when it has more. Execute server: the
  requests on a connection are handled once and in order however they are cut, and an answer leaves in the
  client's cache and store what the server had there. Object server: it sends what was asked for and nothing
  but objects. Meow worker: a job reaches the worker with all objects it
  names, and its result the coordinator's cache. Commands: every target of a finished run holds its result, what
  gg-create-thunk writes is a target for the thunk described, what the interpreter creates is what its script says and is in the store, and which options and targets go wrong.

  \<^bold>\<open>Fuel.\<close> The walk over the graph and the chain of cache entries recurse on data that the disk
  decides; their fuel is an argument, and the lemmas say how much is enough (\<open>order_one_complete\<close>:
  as much as the graph has thunks). When it is spent the value is the error \<open>Out_of_fuel\<close>, which no
  theorem identifies with a result. Fuel also bounds response files that name each other, the strings read from a
  traced process and the walk through a directory. The other loops have a measure. \<open>reduce\<close> takes the
  list of the events that arrive.

  \<^bold>\<open>Parameters.\<close> SHA-256, HMAC, base64, the wire format of protocol buffers, the kernel's choices, the
  clock and the environment are arguments. Where a property relies on one of them (that a decoder
  inverts its encoder, say) it is a hypothesis with a witness.

  \<^bold>\<open>Not modelled.\<close> Sockets are calls into the kernel, and of TLS only what OpenSSL answers counts; the libraries behind
  the clients of Redis and Jiffy are arguments; the status bar only prints. The remaining command line tools of \<open>src/frontend\<close> (\<open>gg-describe\<close>, \<open>gg-mock\<close>,
  \<open>gg-trace\<close>, \<open>gg-thunksummary\<close>, \<open>gg-s3-download\<close>) print what the modelled parts return.
\<close>

end
